(* ===== verification/Attestor_Prelude.thy ===== *)
theory Attestor_Prelude
  imports Main "HOL-Library.Word" "HOL-Library.Sublist"
begin

text \<open>
  The prelude of the development: the types every component shares (bytes, the JavaScript
  strings and their encodings, errors as sums) and the generic facts the component proofs rest
  on.

  Representation. A \<open>Uint8Array\<close> or \<open>Buffer\<close> is a list of \<open>8 word\<close>. A JavaScript string is a
  \<open>char list\<close>, one \<open>char\<close> per code unit below 256; the strings of this program (addresses,
  base58, hex, decimal numbers, statuses, error codes) are ASCII. A \<open>bigint\<close> is an \<open>int\<close>. A
  \<open>throw\<close> is the left injection of a sum.
\<close>

section \<open>Shared types and hint collections\<close>

type_synonym byte = "8 word"
type_synonym bytes = "byte list"

named_theorems codec_simps \<open>encoders: which characters they produce, and their lengths\<close>
named_theorems row_simps \<open>lookups in a table after an update of its rows\<close>

text \<open>Sequencing of fallible steps: a thrown error skips what follows.\<close>

definition and_then :: "'e + 'a \<Rightarrow> ('a \<Rightarrow> 'e + 'b) \<Rightarrow> 'e + 'b" where
  "and_then r f = (case r of Inl e \<Rightarrow> Inl e | Inr x \<Rightarrow> f x)"

definition guard_or :: "bool \<Rightarrow> 'e \<Rightarrow> 'e + unit" where
  "guard_or b e = (if b then Inr () else Inl e)"

lemma and_then_simps [simp]:
  "and_then (Inl e) f = Inl e" "and_then (Inr x) f = f x"
  by (simp_all add: and_then_def)

lemma and_then_Inr: "and_then r f = Inr y \<longleftrightarrow> (\<exists>x. r = Inr x \<and> f x = Inr y)"
  by (cases r) auto

lemma and_then_Inl: "and_then r f = Inl e \<longleftrightarrow> r = Inl e \<or> (\<exists>x. r = Inr x \<and> f x = Inl e)"
  by (cases r) auto

lemma and_then_InlE:
  assumes "and_then r f = Inl e"
  obtains "r = Inl e" | x where "r = Inr x" "f x = Inl e"
  using assms by (auto simp: and_then_Inl)

lemma guard_or_simps [simp]:
  "guard_or b e = Inr u \<longleftrightarrow> b" "guard_or b e = Inl e' \<longleftrightarrow> \<not> b \<and> e' = e"
  by (auto simp: guard_or_def)

text \<open>An early return with an error, read backwards from a success.\<close>

lemma if_Inl_iff:
  "(if b then Inl e else r) = Inr x \<longleftrightarrow> \<not> b \<and> r = Inr x"
  by simp

lemma if_Inl_Inl:
  "(if b then Inl e else r) = Inl x \<longleftrightarrow> (b \<and> e = x) \<or> (\<not> b \<and> r = Inl x)"
  by simp

lemma case_Inr_iff:
  "(case v of Inl e \<Rightarrow> Inl (f e) | Inr m \<Rightarrow> Inr (g m)) = Inr y \<longleftrightarrow> (\<exists>m. v = Inr m \<and> y = g m)"
  by (auto split: sum.split)

text \<open>A loop over a list whose body may throw.\<close>

fun fold_result :: "('a \<Rightarrow> 's \<Rightarrow> 'e + 's) \<Rightarrow> 'a list \<Rightarrow> 's \<Rightarrow> 'e + 's" where
  "fold_result f [] s = Inr s"
| "fold_result f (x # xs) s = and_then (f x s) (fold_result f xs)"

lemma fold_result_inv:
  assumes "fold_result f xs s = Inr s'" and "J s"
    and "\<And>x s s'. x \<in> set xs \<Longrightarrow> J s \<Longrightarrow> f x s = Inr s' \<Longrightarrow> J s'"
  shows "J s'"
  using assms
proof (induction xs arbitrary: s)
  case (Cons x xs)
  then obtain s1 where s1: "f x s = Inr s1" "fold_result f xs s1 = Inr s'" by (auto simp: and_then_Inr)
  have "J s1" using Cons.prems(3) [OF _ Cons.prems(2) s1(1)] by simp
  then show ?case by (rule Cons.IH [OF s1(2)]) (use Cons.prems(3) in auto)
qed simp

text \<open>A loop that adds \<open>w x\<close> to a measure at each element.\<close>

lemma fold_result_sum:
  assumes "fold_result f xs s = Inr s'"
    and "\<And>x s s'. x \<in> set xs \<Longrightarrow> f x s = Inr s' \<Longrightarrow> m s' = m s + (w x :: int)"
  shows "m s' = m s + sum_list (map w xs)"
  using assms
proof (induction xs arbitrary: s)
  case (Cons x xs)
  then obtain s1 where s1: "f x s = Inr s1" "fold_result f xs s1 = Inr s'" by (auto simp: and_then_Inr)
  have "m s' = m s1 + sum_list (map w xs)" by (rule Cons.IH [OF s1(2)]) (use Cons.prems in auto)
  with Cons.prems(2) [OF _ s1(1)] show ?case by simp
qed simp

text \<open>A string option that is absent or empty is falsy.\<close>

definition truthy :: "string option \<Rightarrow> bool" where
  "truthy v = (case v of None \<Rightarrow> False | Some s \<Rightarrow> s \<noteq> [])"

section \<open>Joining and splitting strings\<close>

text \<open>\<open>Array.prototype.join\<close> and \<open>String.prototype.split\<close> with a one-character separator.\<close>

fun js_join :: "char \<Rightarrow> string list \<Rightarrow> string" where
  "js_join d [] = []"
| "js_join d [x] = x"
| "js_join d (x # y # ys) = x @ d # js_join d (y # ys)"

fun js_split :: "char \<Rightarrow> string \<Rightarrow> string list" where
  "js_split d [] = [[]]"
| "js_split d (x # xs) =
     (if x = d then [] # js_split d xs
      else case js_split d xs of [] \<Rightarrow> [[x]] | y # ys \<Rightarrow> (x # y) # ys)"

lemma js_split_nonempty [simp]: "js_split d s \<noteq> []"
  by (cases s) (auto split: list.splits)

lemma js_split_no_sep: "d \<notin> set x \<Longrightarrow> js_split d x = [x]"
  by (induction x) auto

lemma js_split_append:
  "d \<notin> set x \<Longrightarrow> js_split d (x @ d # s) = x # js_split d s"
  by (induction x) auto

lemma js_split_join:
  "xs \<noteq> [] \<Longrightarrow> \<forall>x \<in> set xs. d \<notin> set x \<Longrightarrow> js_split d (js_join d xs) = xs"
  by (induction d xs rule: js_join.induct) (auto simp: js_split_no_sep js_split_append)

lemma length_js_split: "length (js_split d s) = Suc (count_list s d)"
proof (induction s)
  case (Cons x xs)
  then show ?case by (cases "js_split d xs") auto
qed simp

lemma js_join_inj:
  assumes "js_join d xs = js_join d ys" and "xs \<noteq> []" and "ys \<noteq> []"
    and "\<forall>x \<in> set xs. d \<notin> set x" and "\<forall>y \<in> set ys. d \<notin> set y"
  shows "xs = ys"
proof -
  have "js_split d (js_join d xs) = xs" using assms(2,4) by (rule js_split_join)
  moreover have "js_split d (js_join d ys) = ys" using assms(3,5) by (rule js_split_join)
  ultimately show ?thesis using assms(1) by metis
qed

section \<open>UTF-8: \<open>new TextEncoder().encode\<close>\<close>

definition utf8_char :: "char \<Rightarrow> bytes" where
  "utf8_char c = (let n = of_char c :: nat in
     if n < 128 then [of_nat n] else [of_nat (192 + n div 64), of_nat (128 + n mod 64)])"

definition utf8_encode :: "string \<Rightarrow> bytes" where
  "utf8_encode s = concat (map utf8_char s)"

lemma of_char_less: "(of_char c :: nat) < 256"
  by (metis of_char_mod_256 mod_less_divisor zero_less_numeral)

lemma char_eq_of_nat: "(of_char c :: nat) = of_char d \<Longrightarrow> c = d"
  by simp

lemma unat_small: "n < 256 \<Longrightarrow> unat (of_nat n :: byte) = n"
  by (simp add: unat_of_nat)

lemma byte_of_nat_eq:
  "m < 256 \<Longrightarrow> n < 256 \<Longrightarrow> (of_nat m :: byte) = of_nat n \<longleftrightarrow> m = n"
  by (metis unat_small)

lemma utf8_char_append_eq:
  assumes "utf8_char c @ xs = utf8_char d @ ys"
  shows "c = d \<and> xs = ys"
proof -
  define m n where "m = (of_char c :: nat)" and "n = (of_char d :: nat)"
  have b: "m < 256" "n < 256" by (simp_all add: m_def n_def of_char_less)
  have "m = n \<and> xs = ys"
  proof (cases "m < 128"; cases "n < 128")
    assume s: "m < 128" "n < 128"
    from assms s have "(of_nat m :: byte) = of_nat n" "xs = ys"
      by (auto simp: utf8_char_def Let_def m_def [symmetric] n_def [symmetric])
    then show ?thesis using b byte_of_nat_eq by blast
  next
    assume s: "m < 128" "\<not> n < 128"
    from assms s have "(of_nat m :: byte) = of_nat (192 + n div 64)"
      by (auto simp: utf8_char_def Let_def m_def [symmetric] n_def [symmetric])
    moreover from b have "192 + n div 64 < 256" by linarith
    ultimately have "m = 192 + n div 64" using b byte_of_nat_eq by blast
    with s show ?thesis by simp
  next
    assume s: "\<not> m < 128" "n < 128"
    from assms s have "(of_nat (192 + m div 64) :: byte) = of_nat n"
      by (auto simp: utf8_char_def Let_def m_def [symmetric] n_def [symmetric])
    moreover from b have "192 + m div 64 < 256" by linarith
    ultimately have "192 + m div 64 = n" using b byte_of_nat_eq by blast
    with s show ?thesis by simp
  next
    assume s: "\<not> m < 128" "\<not> n < 128"
    from assms s have e: "(of_nat (192 + m div 64) :: byte) = of_nat (192 + n div 64)"
      "(of_nat (128 + m mod 64) :: byte) = of_nat (128 + n mod 64)" "xs = ys"
      by (auto simp: utf8_char_def Let_def m_def [symmetric] n_def [symmetric])
    from b have "192 + m div 64 < 256" "192 + n div 64 < 256"
      "128 + m mod 64 < 256" "128 + n mod 64 < 256" by linarith+
    with e have "m div 64 = n div 64" "m mod 64 = n mod 64"
      using byte_of_nat_eq by (metis add_left_cancel)+
    then have "m = n" by (metis div_mult_mod_eq)
    with e show ?thesis by simp
  qed
  then show ?thesis by (simp add: m_def n_def)
qed

lemma utf8_char_nonempty [simp]: "utf8_char c \<noteq> []"
  by (simp add: utf8_char_def Let_def)

lemma utf8_encode_simps [simp]:
  "utf8_encode [] = []" "utf8_encode (c # s) = utf8_char c @ utf8_encode s"
  by (simp_all add: utf8_encode_def)

lemma utf8_encode_inj: "utf8_encode s = utf8_encode t \<Longrightarrow> s = t"
proof (induction s arbitrary: t)
  case Nil
  then show ?case by (cases t) auto
next
  case (Cons c s)
  then obtain d t' where t: "t = d # t'" by (cases t) auto
  with Cons.prems have "utf8_char c @ utf8_encode s = utf8_char d @ utf8_encode t'" by simp
  then have "c = d \<and> utf8_encode s = utf8_encode t'" by (rule utf8_char_append_eq)
  with Cons.IH t show ?case by blast
qed

lemma utf8_encode_eq_iff [simp]: "utf8_encode s = utf8_encode t \<longleftrightarrow> s = t"
  using utf8_encode_inj by blast

end
