(* ===== verification/Codecs.thy ===== *)
theory Codecs
  imports Attestor_Prelude
begin

text \<open>
  The text encodings of the JavaScript standard library that the program uses, written out:
  lower-case hexadecimal (\<open>toString(16).padStart(2, "0")\<close>), \<open>Number.parseInt(_, 16)\<close> with its
  prefix rule, base64url without padding (\<open>Buffer.toString("base64url")\<close>), decimal numerals
  (\<open>bigint.toString()\<close>, \<open>String(number)\<close>), and \<open>BigInt(string)\<close>. The lemmas are the facts that
  message formats rest on: each encoder is injective and its alphabet contains no separator.
\<close>

section \<open>Hexadecimal\<close>

definition hex_alphabet :: string where
  "hex_alphabet = ''0123456789abcdef''"

definition hex_digit :: "nat \<Rightarrow> char" where
  "hex_digit n = hex_alphabet ! n"

definition hex_byte :: "byte \<Rightarrow> string" where
  "hex_byte b = [hex_digit (unat b div 16), hex_digit (unat b mod 16)]"

definition hex_encode :: "bytes \<Rightarrow> string" where
  "hex_encode bs = concat (map hex_byte bs)"

lemma hex_alphabet_facts: "distinct hex_alphabet" "length hex_alphabet = 16"
  by (simp_all add: hex_alphabet_def)

lemma hex_digit_inj: "m < 16 \<Longrightarrow> n < 16 \<Longrightarrow> hex_digit m = hex_digit n \<longleftrightarrow> m = n"
  by (simp add: hex_digit_def hex_alphabet_facts nth_eq_iff_index_eq)

lemma hex_digit_in: "n < 16 \<Longrightarrow> hex_digit n \<in> set hex_alphabet"
  by (simp add: hex_digit_def hex_alphabet_facts)

lemma byte_less: "unat (b :: byte) < 256"
proof -
  have "unat b < 2 ^ LENGTH(8)" by (rule unsigned_less)
  then show ?thesis by simp
qed

lemma byte_div_mod: "unat (b :: byte) div 16 < 16" "unat (b :: byte) mod 16 < 16"
  using byte_less [of b] by linarith+

lemma hex_byte_inj: "hex_byte a = hex_byte b \<Longrightarrow> a = b"
proof -
  assume "hex_byte a = hex_byte b"
  then have "unat a div 16 = unat b div 16" "unat a mod 16 = unat b mod 16"
    using hex_digit_inj byte_div_mod by (auto simp: hex_byte_def)
  then have "unat a = unat b" by (metis div_mult_mod_eq)
  then show ?thesis by (simp add: word_unat_eq_iff)
qed

lemma hex_byte_length [simp]: "length (hex_byte b) = 2"
  by (simp add: hex_byte_def)

lemma hex_encode_simps [simp]:
  "hex_encode [] = []" "hex_encode (b # bs) = hex_byte b @ hex_encode bs"
  by (simp_all add: hex_encode_def)

lemma length_hex_encode [codec_simps]: "length (hex_encode bs) = 2 * length bs"
  by (induction bs) auto

lemma hex_encode_set [codec_simps]: "set (hex_encode bs) \<subseteq> set hex_alphabet"
  by (induction bs) (auto simp: hex_byte_def byte_div_mod hex_digit_in)

lemma hex_encode_inj: "hex_encode xs = hex_encode ys \<Longrightarrow> xs = ys"
proof (induction xs arbitrary: ys)
  case Nil
  then show ?case by (cases ys) (auto simp: hex_byte_def)
next
  case (Cons x xs)
  then obtain y ys' where y: "ys = y # ys'" by (cases ys) (auto simp: hex_byte_def)
  with Cons.prems have "hex_byte x = hex_byte y" "hex_encode xs = hex_encode ys'"
    by (simp_all add: append_eq_append_conv)
  with Cons.IH y hex_byte_inj show ?case by blast
qed

lemma hex_encode_eq_iff [simp]: "hex_encode xs = hex_encode ys \<longleftrightarrow> xs = ys"
  using hex_encode_inj by blast

text \<open>The value of one hexadecimal digit, either case.\<close>

definition hex_value :: "char \<Rightarrow> nat option" where
  "hex_value c = (let n = of_char c :: nat in
     if 48 \<le> n \<and> n \<le> 57 then Some (n - 48)
     else if 97 \<le> n \<and> n \<le> 102 then Some (n - 87)
     else if 65 \<le> n \<and> n \<le> 70 then Some (n - 55)
     else None)"

lemma hex_value_digit:
  assumes "n < 16"
  shows "hex_value (hex_digit n) = Some n"
proof -
  have "\<forall>m \<in> set [0..<16]. hex_value (hex_digit m) = Some m"
    by (simp add: upt_rec hex_digit_def hex_alphabet_def hex_value_def)
  with assms show ?thesis by simp
qed

lemma hex_value_less: "hex_value c = Some n \<Longrightarrow> n < 16"
  by (auto simp: hex_value_def Let_def split: if_splits)

text \<open>
  \<open>toLowerCase\<close> on the ASCII letters, which is what the strings here hold.
\<close>

definition lower_char :: "char \<Rightarrow> char" where
  "lower_char c = (let n = of_char c :: nat in
     if 65 \<le> n \<and> n \<le> 90 then char_of (n + 32) else c)"

definition to_lower :: "string \<Rightarrow> string" where
  "to_lower s = map lower_char s"

lemma lower_hex_digit: "c \<in> set hex_alphabet \<Longrightarrow> lower_char c = c"
  by (auto simp: hex_alphabet_def lower_char_def Let_def)

lemma to_lower_hex_encode [simp]: "to_lower (hex_encode bs) = hex_encode bs"
  unfolding to_lower_def using hex_encode_set [of bs]
  by (metis lower_hex_digit map_idI subsetD)

section \<open>Whitespace and \<open>parseInt\<close>\<close>

definition js_space :: "char \<Rightarrow> bool" where
  "js_space c = ((of_char c :: nat) \<in> {9, 10, 11, 12, 13, 32, 160})"

definition js_trim :: "string \<Rightarrow> string" where
  "js_trim s = rev (dropWhile js_space (rev (dropWhile js_space s)))"

definition digits_value :: "nat \<Rightarrow> (char \<Rightarrow> nat option) \<Rightarrow> string \<Rightarrow> nat" where
  "digits_value b val s = foldl (\<lambda>a c. b * a + (case val c of Some v \<Rightarrow> v | None \<Rightarrow> 0)) 0 s"

text \<open>
  \<open>Number.parseInt(s, 16)\<close>: leading whitespace, a sign and \<open>0x\<close> are skipped, then the longest
  prefix of hexadecimal digits is read; no digit at all is \<open>NaN\<close>, here \<open>None\<close>.
\<close>

definition strip_sign :: "string \<Rightarrow> bool \<times> string" where
  "strip_sign s = (case s of
     [] \<Rightarrow> (False, [])
   | c # r \<Rightarrow> if c = CHR ''-'' then (True, r) else if c = CHR ''+'' then (False, r) else (False, s))"

definition strip_0x :: "string \<Rightarrow> string" where
  "strip_0x s = (if take 2 s = ''0x'' \<or> take 2 s = ''0X'' then drop 2 s else s)"

definition parse_int16 :: "string \<Rightarrow> int option" where
  "parse_int16 s =
     (let (neg, t) = strip_sign (dropWhile js_space s);
          ds = takeWhile (\<lambda>c. hex_value c \<noteq> None) (strip_0x t)
      in if ds = [] then None
         else Some ((if neg then - 1 else 1) * int (digits_value 16 hex_value ds)))"

lemma hex_digit_cases:
  assumes "n < 16"
  shows "\<not> js_space (hex_digit n)" "hex_digit n \<noteq> CHR ''-''" "hex_digit n \<noteq> CHR ''+''"
    "hex_digit n \<noteq> CHR ''x''" "hex_digit n \<noteq> CHR ''X''"
proof -
  have "\<forall>m \<in> set [0..<16]. \<not> js_space (hex_digit m) \<and> hex_digit m \<noteq> CHR ''-''
      \<and> hex_digit m \<noteq> CHR ''+'' \<and> hex_digit m \<noteq> CHR ''x'' \<and> hex_digit m \<noteq> CHR ''X''"
    by (simp add: upt_rec hex_digit_def hex_alphabet_def js_space_def)
  with assms show "\<not> js_space (hex_digit n)" "hex_digit n \<noteq> CHR ''-''" "hex_digit n \<noteq> CHR ''+''"
    "hex_digit n \<noteq> CHR ''x''" "hex_digit n \<noteq> CHR ''X''" by simp_all
qed

lemma parse_int16_hex_byte: "parse_int16 (hex_byte b) = Some (int (unat b))"
proof -
  have "unat b div 16 * 16 + unat b mod 16 = unat b" by (rule div_mult_mod_eq)
  then show ?thesis
    by (simp add: parse_int16_def hex_byte_def strip_sign_def strip_0x_def digits_value_def
        hex_digit_cases byte_div_mod hex_value_digit mult.commute)
qed

section \<open>base64url\<close>

definition b64_alphabet :: string where
  "b64_alphabet = ''ABCDEFGHIJKLMNOPQRSTUVWXYZabcdefghijklmnopqrstuvwxyz0123456789-_''"

definition b64_char :: "nat \<Rightarrow> char" where
  "b64_char n = b64_alphabet ! n"

fun b64url_encode :: "bytes \<Rightarrow> string" where
  "b64url_encode [] = []"
| "b64url_encode [a] = [b64_char (unat a div 4), b64_char (unat a mod 4 * 16)]"
| "b64url_encode [a, b] =
     [b64_char (unat a div 4), b64_char (unat a mod 4 * 16 + unat b div 16),
      b64_char (unat b mod 16 * 4)]"
| "b64url_encode (a # b # c # bs) =
     b64_char (unat a div 4) # b64_char (unat a mod 4 * 16 + unat b div 16)
     # b64_char (unat b mod 16 * 4 + unat c div 64) # b64_char (unat c mod 64)
     # b64url_encode bs"

lemma b64_alphabet_facts: "distinct b64_alphabet" "length b64_alphabet = 64"
  by (simp_all add: b64_alphabet_def)

lemma b64_char_inj [simp]: "m < 64 \<Longrightarrow> n < 64 \<Longrightarrow> b64_char m = b64_char n \<longleftrightarrow> m = n"
  by (simp add: b64_char_def b64_alphabet_facts nth_eq_iff_index_eq)

lemma b64_char_in: "n < 64 \<Longrightarrow> b64_char n \<in> set b64_alphabet"
  by (simp add: b64_char_def b64_alphabet_facts)

lemma b64_bounds:
  "unat (a :: byte) div 4 < 64" "unat a mod 4 * 16 < 64"
  "unat a mod 4 * 16 + unat (b :: byte) div 16 < 64" "unat a mod 16 * 4 < 64"
  "unat a mod 16 * 4 + unat b div 64 < 64" "unat a mod 64 < 64"
  using byte_less [of a] byte_less [of b] by linarith+

lemma b64url_encode_set [codec_simps]: "set (b64url_encode bs) \<subseteq> set b64_alphabet"
  by (induction bs rule: b64url_encode.induct) (auto simp: b64_char_in b64_bounds)

lemma byte_eq_div_mod:
  "k > 0 \<Longrightarrow> unat (a :: byte) div k = unat b div k \<Longrightarrow> unat a mod k = unat b mod k \<Longrightarrow> a = b"
  by (metis div_mult_mod_eq word_unat_eq_iff)

lemma mixed_radix_eq:
  fixes p q k y z :: nat
  assumes "p * k + y = q * k + z" and "y < k" and "z < k"
  shows "p = q" and "y = z"
proof -
  have "(p * k + y) div k = (q * k + z) div k" "(p * k + y) mod k = (q * k + z) mod k"
    using assms(1) by simp_all
  with assms(2,3) show "p = q" "y = z" by simp_all
qed

lemma b64_mid1:
  assumes "unat (a :: byte) mod 4 * 16 + unat (b :: byte) div 16 = unat (a' :: byte) mod 4 * 16 + unat (b' :: byte) div 16"
  shows "unat a mod 4 = unat a' mod 4 \<and> unat b div 16 = unat b' div 16"
  using mixed_radix_eq [OF assms] byte_div_mod by blast

lemma b64_mid2:
  assumes "unat (b :: byte) mod 16 * 4 + unat (c :: byte) div 64 = unat (b' :: byte) mod 16 * 4 + unat (c' :: byte) div 64"
  shows "unat b mod 16 = unat b' mod 16 \<and> unat c div 64 = unat c' div 64"
proof -
  have "unat c div 64 < 4" "unat c' div 64 < 4" using byte_less [of c] byte_less [of c'] by linarith+
  with mixed_radix_eq [OF assms] show ?thesis by blast
qed

lemma b64url_encode_inj: "b64url_encode xs = b64url_encode ys \<Longrightarrow> xs = ys"
proof (induction xs arbitrary: ys rule: b64url_encode.induct)
  case 1
  then show ?case by (cases ys rule: b64url_encode.cases) auto
next
  case (2 a)
  then show ?case
    by (cases ys rule: b64url_encode.cases)
      (auto simp: b64_bounds intro: byte_eq_div_mod [of 4])
next
  case (3 a b)
  then show ?case
    by (cases ys rule: b64url_encode.cases)
      (auto simp: b64_bounds dest!: b64_mid1 intro: byte_eq_div_mod [of 4] byte_eq_div_mod [of 16])
next
  case (4 a b c bs)
  then obtain a' b' c' bs' where ys: "ys = a' # b' # c' # bs'"
    by (cases ys rule: b64url_encode.cases) auto
  from "4.prems" ys have e: "unat a div 4 = unat a' div 4"
    "unat a mod 4 * 16 + unat b div 16 = unat a' mod 4 * 16 + unat b' div 16"
    "unat b mod 16 * 4 + unat c div 64 = unat b' mod 16 * 4 + unat c' div 64"
    "unat c mod 64 = unat c' mod 64" "b64url_encode bs = b64url_encode bs'"
    by (simp_all add: b64_bounds)
  have "a = a'" using e(1) b64_mid1 [OF e(2)] byte_eq_div_mod [of 4 a a'] by simp
  moreover have "b = b'"
    using b64_mid1 [OF e(2)] b64_mid2 [OF e(3)] byte_eq_div_mod [of 16 b b'] by simp
  moreover have "c = c'" using b64_mid2 [OF e(3)] e(4) byte_eq_div_mod [of 64 c c'] by simp
  moreover have "bs = bs'" using "4.IH" e(5) .
  ultimately show ?case by (simp add: ys)
qed

lemma b64url_encode_eq_iff [simp]: "b64url_encode xs = b64url_encode ys \<longleftrightarrow> xs = ys"
  using b64url_encode_inj by blast

text \<open>
  \<open>Buffer.from(s, "base64url")\<close>: characters outside the two base64 alphabets are skipped, both
  alphabets are accepted, a trailing group of two or three characters gives one or two bytes
  and a single left-over character gives none.
\<close>

definition b64_value :: "char \<Rightarrow> nat option" where
  "b64_value c = (let n = of_char c :: nat in
     if 65 \<le> n \<and> n \<le> 90 then Some (n - 65)
     else if 97 \<le> n \<and> n \<le> 122 then Some (n - 71)
     else if 48 \<le> n \<and> n \<le> 57 then Some (n + 4)
     else if n = 45 \<or> n = 43 then Some 62
     else if n = 95 \<or> n = 47 then Some 63
     else None)"

fun b64_groups :: "nat list \<Rightarrow> bytes" where
  "b64_groups (p # q # r # s # rest) =
     of_nat (p * 4 + q div 16) # of_nat (q mod 16 * 16 + r div 4)
     # of_nat (r mod 4 * 64 + s) # b64_groups rest"
| "b64_groups [p, q, r] = [of_nat (p * 4 + q div 16), of_nat (q mod 16 * 16 + r div 4)]"
| "b64_groups [p, q] = [of_nat (p * 4 + q div 16)]"
| "b64_groups [p] = []"
| "b64_groups [] = []"

definition b64url_decode :: "string \<Rightarrow> bytes" where
  "b64url_decode s = b64_groups (List.map_filter b64_value s)"

lemma b64_value_char: "n < 64 \<Longrightarrow> b64_value (b64_char n) = Some n"
proof -
  assume "n < 64"
  moreover have "\<forall>m \<in> set [0..<64]. b64_value (b64_char m) = Some m"
    by (simp add: upt_rec b64_char_def b64_alphabet_def b64_value_def)
  ultimately show ?thesis by simp
qed

lemma b64url_decode_encode: "b64url_decode (b64url_encode bs) = bs"
proof (induction bs rule: b64url_encode.induct)
  case 1
  then show ?case by (simp add: b64url_decode_def map_filter_def)
next
  case (2 a)
  have "unat a div 4 * 4 + unat a mod 4 * 16 div 16 = unat a" by simp
  then show ?case by (simp add: b64url_decode_def map_filter_def b64_value_char b64_bounds)
next
  case (3 a b)
  have "(unat a mod 4 * 16 + unat b div 16) div 16 = unat a mod 4"
    "(unat a mod 4 * 16 + unat b div 16) mod 16 = unat b div 16"
    using byte_div_mod [of b] by simp_all
  moreover have "unat b div 16 * 16 + unat b mod 16 * 4 div 4 = unat b" by simp
  ultimately show ?case by (simp add: b64url_decode_def map_filter_def b64_value_char b64_bounds)
next
  case (4 a b c bs)
  have "(unat a mod 4 * 16 + unat b div 16) div 16 = unat a mod 4"
    "(unat a mod 4 * 16 + unat b div 16) mod 16 = unat b div 16"
    using byte_div_mod [of b] by simp_all
  moreover have "unat c div 64 < 4" using byte_less [of c] by linarith
  then have "(unat b mod 16 * 4 + unat c div 64) div 4 = unat b mod 16"
    "(unat b mod 16 * 4 + unat c div 64) mod 4 = unat c div 64"
    by simp_all
  moreover have "unat b div 16 * 16 + unat b mod 16 = unat b" "unat c div 64 * 64 + unat c mod 64 = unat c"
    by simp_all
  ultimately show ?case
    using "4.IH" by (simp add: b64url_decode_def map_filter_def b64_value_char b64_bounds)
qed

section \<open>Decimal numerals and \<open>BigInt\<close>\<close>

definition dec_alphabet :: string where
  "dec_alphabet = ''0123456789''"

definition dec_digit :: "nat \<Rightarrow> char" where
  "dec_digit n = char_of (48 + n)"

fun dec_nat :: "nat \<Rightarrow> string" where
  "dec_nat n = (if n < 10 then [dec_digit n] else dec_nat (n div 10) @ [dec_digit (n mod 10)])"

declare dec_nat.simps [simp del]

definition dec_int :: "int \<Rightarrow> string" where
  "dec_int i = (if i < 0 then CHR ''-'' # dec_nat (nat (- i)) else dec_nat (nat i))"

definition dec_value :: "char \<Rightarrow> nat option" where
  "dec_value c = (let n = of_char c :: nat in if 48 \<le> n \<and> n \<le> 57 then Some (n - 48) else None)"

definition is_dec :: "string \<Rightarrow> bool" where
  "is_dec s = (s \<noteq> [] \<and> list_all (\<lambda>c. dec_value c \<noteq> None) s)"

text \<open>\<open>BigInt(string)\<close>; \<open>None\<close> is the \<open>SyntaxError\<close>.\<close>

definition radix_value :: "char \<Rightarrow> nat option" where
  "radix_value c = hex_value c"

definition js_BigInt :: "string \<Rightarrow> int option" where
  "js_BigInt str =
     (let s = js_trim str; p = take 2 s; r = drop 2 s;
          radix = (\<lambda>b. if r \<noteq> [] \<and> list_all (\<lambda>c. case hex_value c of Some v \<Rightarrow> v < b | None \<Rightarrow> False) r
                       then Some (int (digits_value b hex_value r)) else None)
      in if s = [] then Some 0
         else if p = ''0x'' \<or> p = ''0X'' then radix 16
         else if p = ''0o'' \<or> p = ''0O'' then radix 8
         else if p = ''0b'' \<or> p = ''0B'' then radix 2
         else case strip_sign s of (neg, t) \<Rightarrow>
           if is_dec t then Some ((if neg then - 1 else 1) * int (digits_value 10 dec_value t))
           else None)"

lemma dec_digit_facts:
  assumes "n < 10"
  shows "dec_value (dec_digit n) = Some n" "\<not> js_space (dec_digit n)"
    "dec_digit n \<in> set dec_alphabet"
proof -
  have "\<forall>m \<in> set [0..<10]. dec_value (dec_digit m) = Some m \<and> \<not> js_space (dec_digit m)
     \<and> dec_digit m \<in> set dec_alphabet"
    by (simp add: upt_rec dec_digit_def dec_value_def js_space_def dec_alphabet_def char_of_def bit_0)
  with assms show "dec_value (dec_digit n) = Some n" "\<not> js_space (dec_digit n)"
    "dec_digit n \<in> set dec_alphabet" by simp_all
qed

lemma dec_nat_set [codec_simps]: "set (dec_nat n) \<subseteq> set dec_alphabet"
proof (induction n rule: dec_nat.induct)
  case (1 n)
  show ?case
  proof (cases "n < 10")
    case True
    then show ?thesis by (simp only: dec_nat.simps [of n]) (simp add: dec_digit_facts)
  next
    case False
    then show ?thesis using 1
      by (simp only: dec_nat.simps [of n]) (simp add: dec_digit_facts)
  qed
qed

lemma digits_value_append:
  "digits_value b val (s @ [c]) = b * digits_value b val s + (case val c of Some v \<Rightarrow> v | None \<Rightarrow> 0)"
  by (simp add: digits_value_def)

lemma digits_value_dec_nat: "digits_value 10 dec_value (dec_nat n) = n"
proof (induction n rule: dec_nat.induct)
  case (1 n)
  show ?case
  proof (cases "n < 10")
    case True
    then show ?thesis
      by (simp add: dec_nat.simps [of n] digits_value_def dec_digit_facts)
  next
    case False
    then show ?thesis
      using 1 by (simp add: dec_nat.simps [of n] digits_value_append dec_digit_facts)
  qed
qed

lemma dec_nat_inj [simp]: "dec_nat m = dec_nat n \<longleftrightarrow> m = n"
  by (metis digits_value_dec_nat)

lemma dec_nat_nonempty [simp]: "dec_nat n \<noteq> []"
  by (simp add: dec_nat.simps [of n])

text \<open>A decimal string: digits only, so neither whitespace nor a sign.\<close>

lemma dec_nat_digits: "list_all (\<lambda>c. dec_value c \<noteq> None) (dec_nat n)"
proof (induction n rule: dec_nat.induct)
  case (1 n)
  then show ?case
    by (cases "n < 10") (simp_all add: dec_nat.simps [of n] dec_digit_facts)
qed

lemma dec_value_not_space: "dec_value c = Some v \<Longrightarrow> \<not> js_space c"
  by (auto simp: dec_value_def js_space_def Let_def split: if_splits)

lemma is_dec_dec_nat [simp]: "is_dec (dec_nat n)"
  using dec_nat_digits [of n] by (simp add: is_dec_def)

lemma dropWhile_none: "list_all (\<lambda>c. \<not> P c) s \<Longrightarrow> dropWhile P s = s"
  by (cases s) auto

lemma js_trim_none:
  assumes "list_all (\<lambda>c. \<not> js_space c) s"
  shows "js_trim s = s"
proof -
  have "list_all (\<lambda>c. \<not> js_space c) (rev s)" using assms by (simp add: list_all_iff)
  then show ?thesis using assms by (simp add: js_trim_def dropWhile_none)
qed

lemma is_dec_hd:
  assumes "is_dec s"
  obtains c r v where "s = c # r" "dec_value c = Some v"
  using assms by (cases s) (auto simp: is_dec_def)

lemma dec_value_some:
  assumes "dec_value c = Some v"
  shows "c \<noteq> CHR ''-''" "c \<noteq> CHR ''+''" "c \<noteq> CHR ''x''" "c \<noteq> CHR ''X''" "c \<noteq> CHR ''o''"
    "c \<noteq> CHR ''O''" "c \<noteq> CHR ''b''" "c \<noteq> CHR ''B''"
  using assms by (auto simp: dec_value_def)

lemma is_dec_no_prefix:
  assumes "is_dec s" and "\<not> is_dec [p]"
  shows "take 2 s \<noteq> [CHR ''0'', p]"
proof
  assume "take 2 s = [CHR ''0'', p]"
  then have "p \<in> set s" by (metis in_set_takeD list.set_intros(1) list.set_intros(2))
  with assms show False by (auto simp: is_dec_def list_all_iff)
qed

lemma js_BigInt_dec:
  assumes "is_dec s"
  shows "js_BigInt s = Some (int (digits_value 10 dec_value s))"
proof -
  have t: "js_trim s = s"
    using assms dec_value_not_space by (intro js_trim_none) (auto simp: is_dec_def list_all_iff)
  have n: "\<not> is_dec ''x''" "\<not> is_dec ''X''" "\<not> is_dec ''o''" "\<not> is_dec ''O''" "\<not> is_dec ''b''"
    "\<not> is_dec ''B''" by (simp_all add: is_dec_def dec_value_def)
  obtain c r v where s: "s = c # r" "dec_value c = Some v" using assms by (rule is_dec_hd)
  have "strip_sign s = (False, s)" using s dec_value_some [OF s(2)] by (simp add: strip_sign_def)
  moreover have "s \<noteq> []" using s by simp
  ultimately show ?thesis
    using n [THEN is_dec_no_prefix [OF assms]] assms
    by (simp add: js_BigInt_def t Let_def)
qed

lemma js_BigInt_dec_nat: "js_BigInt (dec_nat n) = Some (int n)"
  by (simp add: js_BigInt_dec digits_value_dec_nat)

lemma dec_int_neg: "i < 0 \<Longrightarrow> dec_int i = CHR ''-'' # dec_nat (nat (- i))"
  and dec_int_nonneg: "0 \<le> i \<Longrightarrow> dec_int i = dec_nat (nat i)"
  by (simp_all add: dec_int_def)

lemma js_BigInt_dec_int: "js_BigInt (dec_int i) = Some i"
proof (cases "i < 0")
  case False
  then show ?thesis by (simp add: dec_int_nonneg js_BigInt_dec_nat)
next
  case True
  let ?s = "dec_nat (nat (- i))"
  have d: "is_dec ?s" by simp
  have "list_all (\<lambda>c. \<not> js_space c) ?s"
    using dec_nat_digits [of "nat (- i)"] dec_value_not_space by (auto simp: list_all_iff)
  then have t: "js_trim (CHR ''-'' # ?s) = CHR ''-'' # ?s"
    by (intro js_trim_none) (simp add: js_space_def)
  show ?thesis using True
    by (simp add: dec_int_neg js_BigInt_def t Let_def strip_sign_def digits_value_dec_nat)
qed

lemma dec_int_inj [simp]: "dec_int i = dec_int j \<longleftrightarrow> i = j"
  by (metis js_BigInt_dec_int option.inject)

lemma dec_int_set [codec_simps]: "set (dec_int i) \<subseteq> insert CHR ''-'' (set dec_alphabet)"
  using dec_nat_set [of "nat (- i)"] dec_nat_set [of "nat i"] by (auto simp: dec_int_def)

text \<open>No alphabet contains a line feed, a colon or an equals sign.\<close>

lemma alphabets_no_sep [codec_simps]:
  "CHR ''\<newline>'' \<notin> set hex_alphabet" "CHR ''\<newline>'' \<notin> set b64_alphabet"
  "CHR ''\<newline>'' \<notin> set dec_alphabet"
  "CHR '':'' \<notin> set hex_alphabet" "CHR '':'' \<notin> set b64_alphabet" "CHR '':'' \<notin> set dec_alphabet"
  by (simp_all add: hex_alphabet_def b64_alphabet_def dec_alphabet_def)

lemma encoders_no_sep [simp]:
  assumes "c = CHR ''\<newline>'' \<or> c = CHR '':''"
  shows "c \<notin> set (hex_encode bs)" "c \<notin> set (b64url_encode bs)" "c \<notin> set (dec_nat n)"
    "c \<notin> set (dec_int i)"
proof -
  have *: "c \<notin> set hex_alphabet" "c \<notin> set b64_alphabet" "c \<notin> insert CHR ''-'' (set dec_alphabet)"
    using assms alphabets_no_sep by auto
  show "c \<notin> set (hex_encode bs)" "c \<notin> set (b64url_encode bs)" "c \<notin> set (dec_nat n)"
    "c \<notin> set (dec_int i)"
    using * hex_encode_set b64url_encode_set dec_nat_set dec_int_set by fast+
qed

section \<open>Reading hexadecimal back\<close>

text \<open>The slices \<open>hex.slice(i * 2, i * 2 + 2)\<close> that both decoders of the program parse.\<close>

definition hex_slice :: "string \<Rightarrow> nat \<Rightarrow> string" where
  "hex_slice s i = take 2 (drop (i * 2) s)"

lemma hex_slice_encode:
  "i < length bs \<Longrightarrow> hex_slice (hex_encode bs) i = hex_byte (bs ! i)"
proof (induction bs arbitrary: i)
  case (Cons b bs)
  then show ?case
    by (cases i) (simp_all add: hex_slice_def numeral_2_eq_2 hex_byte_def)
qed simp

text \<open>\<open>parseInt(s, 10)\<close>: the value of the longest prefix of digits, \<open>None\<close> for \<open>NaN\<close>.\<close>

definition parse_int10 :: "string \<Rightarrow> int option" where
  "parse_int10 s =
     (let (neg, t) = strip_sign (dropWhile js_space s);
          ds = takeWhile (\<lambda>c. dec_value c \<noteq> None) t
      in if ds = [] then None
         else Some ((if neg then - 1 else 1) * int (digits_value 10 dec_value ds)))"

section \<open>JSON values\<close>

text \<open>
  What \<open>JSON.parse\<close> yields. A number is an integer, a finite non-integer (kept as the literal
  it prints as) or an overflow to infinity; objects keep the order of their keys.
\<close>

datatype json =
    JNull
  | JBool bool
  | JInt int
  | JFrac string
  | JInf
  | JStr string
  | JArr "json list"
  | JObj "(string \<times> json) list"

section \<open>\<open>Date.prototype.toISOString\<close>\<close>

definition pad0 :: "nat \<Rightarrow> int \<Rightarrow> string" where
  "pad0 n i = (let s = dec_int i in replicate (n - length s) CHR ''0'' @ s)"

text \<open>The proleptic Gregorian date of a day counted from 1970-01-01.\<close>

definition civil_from_days :: "int \<Rightarrow> int \<times> int \<times> int" where
  "civil_from_days days =
     (let z = days + 719468; era = z div 146097; doe = z mod 146097;
          yoe = (doe - doe div 1460 + doe div 36524 - doe div 146096) div 365;
          doy = doe - (365 * yoe + yoe div 4 - yoe div 100);
          mp = (5 * doy + 2) div 153;
          d = doy - (153 * mp + 2) div 5 + 1;
          m = (if mp < 10 then mp + 3 else mp - 9);
          y = yoe + era * 400 + (if m \<le> 2 then 1 else 0)
      in (y, m, d))"

definition iso_string :: "int \<Rightarrow> string" where
  "iso_string ms =
     (let (y, m, d) = civil_from_days (ms div 86400000); t = ms mod 86400000
      in pad0 4 y @ ''-'' @ pad0 2 m @ ''-'' @ pad0 2 d @ ''T''
         @ pad0 2 (t div 3600000) @ '':'' @ pad0 2 (t div 60000 mod 60) @ '':''
         @ pad0 2 (t div 1000 mod 60) @ ''.'' @ pad0 3 (t mod 1000) @ ''Z'')"

lemma iso_string_example: "iso_string 1783641600000 = ''2026-07-10T00:00:00.000Z''"
  by code_simp

text \<open>\<open>Buffer.from(s, "hex")\<close> of a string of hex digits.\<close>

definition hex_bytes :: "string \<Rightarrow> bytes" where
  "hex_bytes s = map (\<lambda>i. case parse_int16 (hex_slice s i) of Some v \<Rightarrow> of_int v | None \<Rightarrow> 0)
                   [0..<length s div 2]"

section \<open>Little-endian integers\<close>

text \<open>\<open>n\<close> bytes, the least significant first, as \<open>DataView\<close> and \<open>Buffer\<close> write and read them.\<close>

fun le_bytes :: "nat \<Rightarrow> nat \<Rightarrow> bytes" where
  "le_bytes 0 v = []"
| "le_bytes (Suc n) v = of_nat v # le_bytes n (v div 256)"

fun le_value :: "bytes \<Rightarrow> nat" where
  "le_value [] = 0"
| "le_value (b # bs) = unat b + 256 * le_value bs"

text \<open>\<open>setBigInt64\<close> wraps to 64 bits; \<open>getBigInt64\<close> reads two's complement.\<close>

definition i64_bytes :: "int \<Rightarrow> bytes" where
  "i64_bytes i = le_bytes 8 (unat (word_of_int i :: 64 word))"

definition i64_value :: "bytes \<Rightarrow> int" where
  "i64_value bs = sint (of_nat (le_value bs) :: 64 word)"

lemma length_le_bytes [simp]: "length (le_bytes n v) = n"
  by (induction n arbitrary: v) auto

lemma le_value_bytes [simp]: "v < 256 ^ n \<Longrightarrow> le_value (le_bytes n v) = v"
proof (induction n arbitrary: v)
  case (Suc n)
  then have "v div 256 < 256 ^ n" by (simp add: div_less_iff_less_mult mult.commute)
  with Suc.IH have "le_value (le_bytes n (v div 256)) = v div 256" by blast
  moreover have "unat (of_nat v :: byte) = v mod 256" by (simp add: unat_of_nat)
  ultimately show ?case by simp
qed simp

lemma le_value_less: "le_value bs < 256 ^ length bs"
proof (induction bs)
  case (Cons b bs)
  have "unat b < 256" using byte_less .
  with Cons show ?case by simp
qed simp

lemma le_bytes_value: "le_bytes (length bs) (le_value bs) = bs"
proof (induction bs)
  case (Cons b bs)
  have "(unat b + 256 * le_value bs) div 256 = le_value bs" using byte_less [of b] by simp
  moreover have "(of_nat (unat b + 256 * le_value bs) :: byte) = b"
  proof -
    have "(of_nat (256 * le_value bs) :: byte) = of_nat 256 * of_nat (le_value bs)" by (simp del: of_nat_numeral)
    also have "(of_nat 256 :: byte) = 0" by simp
    finally show ?thesis by simp
  qed
  ultimately show ?case using Cons by simp
qed simp

lemma le_bytes_inj: "u < 256 ^ n \<Longrightarrow> v < 256 ^ n \<Longrightarrow> le_bytes n u = le_bytes n v \<longleftrightarrow> u = v"
  by (metis le_value_bytes)

lemma length_i64_bytes [simp]: "length (i64_bytes i) = 8"
  by (simp add: i64_bytes_def)

lemma i64_value_bytes: "- (2 ^ 63) \<le> i \<Longrightarrow> i < 2 ^ 63 \<Longrightarrow> i64_value (i64_bytes i) = i"
proof -
  assume "- (2 ^ 63) \<le> i" "i < 2 ^ 63"
  then have s: "sint (word_of_int i :: 64 word) = i"
    by (simp add: int_word_sint signed_take_bit_int_eq_self)
  have "unat (word_of_int i :: 64 word) < 2 ^ 64" using unsigned_less [of "word_of_int i :: 64 word"] by simp
  then have "unat (word_of_int i :: 64 word) < 256 ^ 8" by simp
  then have "le_value (le_bytes 8 (unat (word_of_int i :: 64 word))) = unat (word_of_int i :: 64 word)"
    by (rule le_value_bytes)
  with s show ?thesis by (simp add: i64_value_def i64_bytes_def)
qed

lemma i64_value_range: "- (2 ^ 63) \<le> i64_value bs" "i64_value bs < 2 ^ 63"
  using sint_range_size [of "of_nat (le_value bs) :: 64 word"] by (simp_all add: i64_value_def word_size)

end
