(* ===== verification/Canonical.thy ===== *)
theory Canonical
  imports Codecs
begin

text \<open>
  The package \<open>packages/canonical\<close>: the two canonical claim messages that an attestation signs
  (\<open>canonical.ts\<close>), RSA-PSS verification of an Arweave signature over them (\<open>verify-rsa-pss.ts\<close>)
  and the Ed25519 attestation (\<open>attest.ts\<close>).

  Parameters. \<open>sha\<close> is SHA-256 of \<open>@noble/hashes\<close> and of \<open>node:crypto\<close>, \<open>b58\<close> is
  \<open>bs58.encode\<close>, a \<open>node_rsa\<close> holds the two OpenSSL entry points the code calls, an \<open>ed25519\<close> the
  two of \<open>@noble/ed25519\<close>. An \<open>Error\<close> is its message; an \<open>RsaPssError\<close> has a code as well.
\<close>

section \<open>The canonical messages\<close>

abbreviation LF :: char where
  "LF \<equiv> CHR ''\<newline>''"

definition ANT_ESCROW_CLAIM_HEADER :: string where
  "ANT_ESCROW_CLAIM_HEADER = ''ar.io ant-escrow claim''"

definition ESCROW_CLAIM_HEADER :: string where
  "ESCROW_CLAIM_HEADER = ''ar.io escrow claim''"

definition hexLowercase :: "bytes \<Rightarrow> string" where
  "hexLowercase bs = foldl (\<lambda>out b. out @ hex_byte b) [] bs"

definition bytesToBase64UrlNoPad :: "bytes \<Rightarrow> string" where
  "bytesToBase64UrlNoPad bs = b64url_encode bs"

definition deriveRecipientIdB64Url :: "(bytes \<Rightarrow> bytes) \<Rightarrow> bytes \<Rightarrow> string" where
  "deriveRecipientIdB64Url sha pk = bytesToBase64UrlNoPad (sha pk)"

record ant_message_args =
  am_antMint :: bytes
  am_claimant :: bytes
  am_nonce :: bytes
  am_network :: string
  am_recipientPubkey :: bytes

definition ant_message_lines ::
  "(bytes \<Rightarrow> bytes) \<Rightarrow> (bytes \<Rightarrow> string) \<Rightarrow> ant_message_args \<Rightarrow> string list" where
  "ant_message_lines sha b58 a =
     [ANT_ESCROW_CLAIM_HEADER,
      ''network: '' @ am_network a,
      ''recipient: '' @ deriveRecipientIdB64Url sha (am_recipientPubkey a),
      ''ant: '' @ b58 (am_antMint a),
      ''claimant: '' @ b58 (am_claimant a),
      ''nonce: '' @ hexLowercase (am_nonce a)]"

definition buildAntEscrowClaimMessage ::
  "(bytes \<Rightarrow> bytes) \<Rightarrow> (bytes \<Rightarrow> string) \<Rightarrow> ant_message_args \<Rightarrow> string + bytes" where
  "buildAntEscrowClaimMessage sha b58 a =
     (if length (am_antMint a) \<noteq> 32
      then Inl (''antMint must be 32 bytes, got '' @ dec_nat (length (am_antMint a)))
      else if length (am_claimant a) \<noteq> 32
      then Inl (''claimant must be 32 bytes, got '' @ dec_nat (length (am_claimant a)))
      else if length (am_nonce a) \<noteq> 32
      then Inl (''nonce must be 32 bytes, got '' @ dec_nat (length (am_nonce a)))
      else if length (am_recipientPubkey a) = 0
      then Inl ''recipientPubkey must be non-empty''
      else Inr (utf8_encode (js_join LF (ant_message_lines sha b58 a))))"

datatype escrow_asset_type = EscrowToken | EscrowVault

fun escrow_type_str :: "escrow_asset_type \<Rightarrow> string" where
  "escrow_type_str EscrowToken = ''token''"
| "escrow_type_str EscrowVault = ''vault''"

record escrow_message_args =
  em_assetType :: escrow_asset_type
  em_assetId :: bytes
  em_amount :: int
  em_claimant :: bytes
  em_nonce :: bytes
  em_network :: string
  em_recipientPubkey :: bytes

definition U64_MAX :: int where
  "U64_MAX = 18446744073709551615"

definition escrow_message_lines ::
  "(bytes \<Rightarrow> bytes) \<Rightarrow> (bytes \<Rightarrow> string) \<Rightarrow> escrow_message_args \<Rightarrow> string list" where
  "escrow_message_lines sha b58 a =
     [ESCROW_CLAIM_HEADER,
      ''network: '' @ em_network a,
      ''recipient: '' @ deriveRecipientIdB64Url sha (em_recipientPubkey a),
      ''type: '' @ escrow_type_str (em_assetType a),
      ''asset: '' @ hexLowercase (em_assetId a),
      ''amount: '' @ dec_int (em_amount a),
      ''claimant: '' @ b58 (em_claimant a),
      ''nonce: '' @ hexLowercase (em_nonce a)]"

definition buildEscrowClaimMessage ::
  "(bytes \<Rightarrow> bytes) \<Rightarrow> (bytes \<Rightarrow> string) \<Rightarrow> escrow_message_args \<Rightarrow> string + bytes" where
  "buildEscrowClaimMessage sha b58 a =
     (if length (em_assetId a) \<noteq> 32
      then Inl (''assetId must be 32 bytes, got '' @ dec_nat (length (em_assetId a)))
      else if length (em_claimant a) \<noteq> 32
      then Inl (''claimant must be 32 bytes, got '' @ dec_nat (length (em_claimant a)))
      else if length (em_nonce a) \<noteq> 32
      then Inl (''nonce must be 32 bytes, got '' @ dec_nat (length (em_nonce a)))
      else if em_amount a < 0 \<or> em_amount a > U64_MAX
      then Inl (''amount must fit in u64, got '' @ dec_int (em_amount a))
      else if length (em_recipientPubkey a) = 0
      then Inl ''recipientPubkey must be non-empty''
      else Inr (utf8_encode (js_join LF (escrow_message_lines sha b58 a))))"

section \<open>RSA-PSS verification\<close>

datatype rsa_exn = RsaPssError string string | OtherError string

text \<open>
  \<open>createPublicKey\<close> of a JWK (its modulus and exponent in base64url) and \<open>crypto.verify\<close> with
  SHA-256, PSS padding and the given salt length; either may throw.
\<close>

record 'k node_rsa =
  jwk_import :: "string \<Rightarrow> string \<Rightarrow> string + 'k"
  pss_verify :: "'k \<Rightarrow> int \<Rightarrow> bytes \<Rightarrow> bytes \<Rightarrow> string + bool"

definition RSA_4096_BYTES :: nat where "RSA_4096_BYTES = 512"

definition DEFAULT_SALT_LEN :: int where "DEFAULT_SALT_LEN = 32"

definition EXPECTED_E_BASE64URL :: string where "EXPECTED_E_BASE64URL = ''AQAB''"

definition modulus_length_error :: "bytes \<Rightarrow> rsa_exn" where
  "modulus_length_error n = RsaPssError ''MODULUS_WRONG_LENGTH''
     (''expected '' @ dec_nat RSA_4096_BYTES @ '' bytes, got '' @ dec_nat (length n))"

definition modulusToKeyObject :: "'k node_rsa \<Rightarrow> bytes \<Rightarrow> rsa_exn + 'k" where
  "modulusToKeyObject R modulus =
     (if length modulus \<noteq> RSA_4096_BYTES then Inl (modulus_length_error modulus)
      else case jwk_import R (b64url_encode modulus) EXPECTED_E_BASE64URL of
             Inl msg \<Rightarrow> Inl (RsaPssError ''INVALID_MODULUS'' (''JWK import failed: '' @ msg))
           | Inr key \<Rightarrow> Inr key)"

definition verifyRsaPss ::
  "'k node_rsa \<Rightarrow> bytes \<Rightarrow> bytes \<Rightarrow> bytes \<Rightarrow> int \<Rightarrow> rsa_exn + bool" where
  "verifyRsaPss R message signature modulus saltLength =
     (if length signature \<noteq> RSA_4096_BYTES
      then Inl (RsaPssError ''SIGNATURE_WRONG_LENGTH''
             (''expected '' @ dec_nat RSA_4096_BYTES @ '' bytes, got '' @ dec_nat (length signature)))
      else if saltLength < 0 \<or> saltLength > 32
      then Inl (RsaPssError ''INVALID_SALT_LENGTH'' (''salt must be 0..=32, got '' @ dec_int saltLength))
      else and_then (modulusToKeyObject R modulus) (\<lambda>key.
             case pss_verify R key saltLength message signature of
               Inl msg \<Rightarrow> Inl (OtherError msg)
             | Inr ok \<Rightarrow> Inr ok))"

definition deriveArweaveAddress :: "(bytes \<Rightarrow> bytes) \<Rightarrow> bytes \<Rightarrow> rsa_exn + string" where
  "deriveArweaveAddress sha modulus =
     (if length modulus \<noteq> RSA_4096_BYTES then Inl (modulus_length_error modulus)
      else Inr (b64url_encode (sha modulus)))"

section \<open>The attestation\<close>

record ed25519 =
  ed_getPublicKey :: "bytes \<Rightarrow> bytes"
  ed_sign :: "bytes \<Rightarrow> bytes \<Rightarrow> bytes"

record attestor_keypair =
  ak_secretKey :: bytes
  ak_publicKey :: bytes

definition loadAttestorKeypair :: "ed25519 \<Rightarrow> bytes \<Rightarrow> string + attestor_keypair" where
  "loadAttestorKeypair ed seed =
     (if length seed \<noteq> 32
      then Inl (''attestor secret seed must be 32 bytes, got '' @ dec_nat (length seed))
      else Inr \<lparr>ak_secretKey = seed, ak_publicKey = ed_getPublicKey ed seed\<rparr>)"

definition signAttestation :: "ed25519 \<Rightarrow> attestor_keypair \<Rightarrow> bytes \<Rightarrow> bytes" where
  "signAttestation ed kp msg = ed_sign ed msg (ak_secretKey kp)"

section \<open>Lemmas\<close>

lemma foldl_hex: "foldl (\<lambda>out b. out @ hex_byte b) acc bs = acc @ hex_encode bs"
  by (induction bs arbitrary: acc) auto

lemma hexLowercase_encode [simp]: "hexLowercase bs = hex_encode bs"
  by (simp add: hexLowercase_def foldl_hex)

text \<open>Messages made of lines are equal only if their lines are.\<close>

lemma line_message_inj:
  assumes "utf8_encode (js_join LF xs) = utf8_encode (js_join LF ys)"
    and "xs \<noteq> []" and "ys \<noteq> []"
    and "\<forall>x \<in> set xs. LF \<notin> set x" and "\<forall>y \<in> set ys. LF \<notin> set y"
  shows "xs = ys"
  using assms js_join_inj [of LF xs ys] by simp

definition b58_encoder :: "(bytes \<Rightarrow> string) \<Rightarrow> bool" where
  "b58_encoder b58 \<longleftrightarrow>
     (\<forall>x y. b58 x = b58 y \<longrightarrow> x = y) \<and> (\<forall>x. LF \<notin> set (b58 x) \<and> CHR '':'' \<notin> set (b58 x))"

lemma b58_encoderD:
  assumes "b58_encoder b58"
  shows "b58 x = b58 y \<longleftrightarrow> x = y" "LF \<notin> set (b58 x)" "CHR '':'' \<notin> set (b58 x)"
  using assms by (auto simp: b58_encoder_def)

text \<open>Decoding is strict: a string that decodes is the encoding of what it decodes to.\<close>

definition b58_codec :: "(bytes \<Rightarrow> string) \<Rightarrow> (string \<Rightarrow> string + bytes) \<Rightarrow> bool" where
  "b58_codec enc dec \<longleftrightarrow> b58_encoder enc \<and> (\<forall>s x. dec s = Inr x \<longrightarrow> enc x = s)"

lemma b58_codecD:
  assumes "b58_codec enc dec"
  shows "b58_encoder enc" "dec s = Inr x \<Longrightarrow> dec t = Inr x \<Longrightarrow> s = t"
  using assms by (auto simp: b58_codec_def)

lemma b58_encoder_hex: "b58_encoder hex_encode"
  by (simp add: b58_encoder_def)

lemmas canonical_defs = ANT_ESCROW_CLAIM_HEADER_def ESCROW_CLAIM_HEADER_def
  deriveRecipientIdB64Url_def bytesToBase64UrlNoPad_def ant_message_lines_def escrow_message_lines_def

lemma escrow_type_no_LF: "LF \<notin> set (escrow_type_str t)"
  by (cases t) simp_all

lemma ant_lines_no_LF:
  assumes "b58_encoder b58" and "LF \<notin> set (am_network a)"
  shows "\<forall>x \<in> set (ant_message_lines sha b58 a). LF \<notin> set x"
  using assms by (simp add: canonical_defs b58_encoderD)

lemma escrow_lines_no_LF:
  assumes "b58_encoder b58" and "LF \<notin> set (em_network a)"
  shows "\<forall>x \<in> set (escrow_message_lines sha b58 a). LF \<notin> set x"
  using assms by (simp add: canonical_defs b58_encoderD escrow_type_no_LF)

lemma escrow_type_str_inj [simp]: "escrow_type_str s = escrow_type_str t \<longleftrightarrow> s = t"
  by (cases s; cases t) simp_all

lemma build_ant_Inr:
  "buildAntEscrowClaimMessage sha b58 a = Inr m \<longleftrightarrow>
     length (am_antMint a) = 32 \<and> length (am_claimant a) = 32 \<and> length (am_nonce a) = 32
     \<and> am_recipientPubkey a \<noteq> [] \<and> m = utf8_encode (js_join LF (ant_message_lines sha b58 a))"
  by (auto simp: buildAntEscrowClaimMessage_def)

lemma build_escrow_Inr:
  "buildEscrowClaimMessage sha b58 a = Inr m \<longleftrightarrow>
     length (em_assetId a) = 32 \<and> length (em_claimant a) = 32 \<and> length (em_nonce a) = 32
     \<and> 0 \<le> em_amount a \<and> em_amount a \<le> U64_MAX
     \<and> em_recipientPubkey a \<noteq> [] \<and> m = utf8_encode (js_join LF (escrow_message_lines sha b58 a))"
  by (auto simp: buildEscrowClaimMessage_def)

lemma ant_message_inj:
  assumes "b58_encoder b58"
    and "buildAntEscrowClaimMessage sha b58 a = Inr m"
    and "buildAntEscrowClaimMessage sha b58 a' = Inr m"
    and "LF \<notin> set (am_network a)" and "LF \<notin> set (am_network a')"
    and "sha (am_recipientPubkey a) = sha (am_recipientPubkey a')
           \<longrightarrow> am_recipientPubkey a = am_recipientPubkey a'"
  shows "a = a'"
proof -
  have "ant_message_lines sha b58 a = ant_message_lines sha b58 a'"
    using assms ant_lines_no_LF by (intro line_message_inj) (auto simp: build_ant_Inr ant_message_lines_def)
  then show ?thesis
    using assms(1,6) by (intro ant_message_args.equality) (simp_all add: canonical_defs b58_encoderD)
qed

lemma escrow_message_inj:
  assumes "b58_encoder b58"
    and "buildEscrowClaimMessage sha b58 a = Inr m"
    and "buildEscrowClaimMessage sha b58 a' = Inr m"
    and "LF \<notin> set (em_network a)" and "LF \<notin> set (em_network a')"
    and "sha (em_recipientPubkey a) = sha (em_recipientPubkey a')
           \<longrightarrow> em_recipientPubkey a = em_recipientPubkey a'"
  shows "a = a'"
proof -
  have "escrow_message_lines sha b58 a = escrow_message_lines sha b58 a'"
    using assms escrow_lines_no_LF
    by (intro line_message_inj) (auto simp: build_escrow_Inr escrow_message_lines_def)
  then show ?thesis
    using assms(1,6) by (intro escrow_message_args.equality) (simp_all add: canonical_defs b58_encoderD)
qed

lemma formats_differ:
  assumes "buildAntEscrowClaimMessage sha b58 a = Inr m"
    and "buildEscrowClaimMessage sha b58 e = Inr m'"
  shows "m \<noteq> m'"
  using assms by (simp add: build_ant_Inr build_escrow_Inr ant_message_lines_def
      escrow_message_lines_def ANT_ESCROW_CLAIM_HEADER_def ESCROW_CLAIM_HEADER_def
      del: utf8_encode_simps)

section \<open>Properties\<close>

text \<open>
  The ANT claim message binds every field it is built from: two builds with the same bytes
  had the same mint, claimant, nonce, network and recipient identity. The hypotheses are that
  base58 is injective and has no line feed, that the configured networks have none, and that
  SHA-256 does not collide on the two recipient keys at hand.
\<close>
theorem ant_message_binds:
  assumes "b58_encoder b58"
    and "buildAntEscrowClaimMessage sha b58 a = Inr m"
    and "buildAntEscrowClaimMessage sha b58 a' = Inr m"
    and "LF \<notin> set (am_network a)" and "LF \<notin> set (am_network a')"
    and "sha (am_recipientPubkey a) = sha (am_recipientPubkey a')
           \<longrightarrow> am_recipientPubkey a = am_recipientPubkey a'"
  shows "a = a'"
  using assms by (rule ant_message_inj)

theorem ant_message_binds_witness:
  "\<exists>m. buildAntEscrowClaimMessage (\<lambda>x. x) hex_encode
        \<lparr>am_antMint = replicate 32 1, am_claimant = replicate 32 2, am_nonce = replicate 32 3,
         am_network = ''localnet'', am_recipientPubkey = [7]\<rparr> = Inr m
     \<and> (\<forall>a'. LF \<notin> set (am_network a')
          \<longrightarrow> buildAntEscrowClaimMessage (\<lambda>x. x) hex_encode a' = Inr m
          \<longrightarrow> am_nonce a' = replicate 32 3)"
proof -
  let ?a = "\<lparr>am_antMint = replicate 32 1, am_claimant = replicate 32 2, am_nonce = replicate 32 3,
         am_network = ''localnet'', am_recipientPubkey = [7]\<rparr>"
  obtain m where m: "buildAntEscrowClaimMessage (\<lambda>x. x) hex_encode ?a = Inr m"
    by (simp add: buildAntEscrowClaimMessage_def)
  have "a' = ?a" if "LF \<notin> set (am_network a')"
    and "buildAntEscrowClaimMessage (\<lambda>x. x) hex_encode a' = Inr m" for a'
    by (rule ant_message_binds [OF b58_encoder_hex that(2) m that(1)]) simp_all
  then show ?thesis using m by force
qed

text \<open>
  The token/vault claim message binds every field it is built from, the amount and the
  asset type included, under the same hypotheses.
\<close>
theorem escrow_message_binds:
  assumes "b58_encoder b58"
    and "buildEscrowClaimMessage sha b58 a = Inr m"
    and "buildEscrowClaimMessage sha b58 a' = Inr m"
    and "LF \<notin> set (em_network a)" and "LF \<notin> set (em_network a')"
    and "sha (em_recipientPubkey a) = sha (em_recipientPubkey a')
           \<longrightarrow> em_recipientPubkey a = em_recipientPubkey a'"
  shows "a = a'"
  using assms by (rule escrow_message_inj)

theorem escrow_message_binds_witness:
  "\<exists>m. buildEscrowClaimMessage (\<lambda>x. x) hex_encode
        \<lparr>em_assetType = EscrowToken, em_assetId = replicate 32 1, em_amount = 5,
         em_claimant = replicate 32 2, em_nonce = replicate 32 3,
         em_network = ''localnet'', em_recipientPubkey = [7]\<rparr> = Inr m
     \<and> (\<forall>a'. LF \<notin> set (em_network a')
          \<longrightarrow> buildEscrowClaimMessage (\<lambda>x. x) hex_encode a' = Inr m
          \<longrightarrow> em_amount a' = 5)"
proof -
  let ?a = "\<lparr>em_assetType = EscrowToken, em_assetId = replicate 32 1, em_amount = 5,
         em_claimant = replicate 32 2, em_nonce = replicate 32 3,
         em_network = ''localnet'', em_recipientPubkey = [7]\<rparr>"
  obtain m where m: "buildEscrowClaimMessage (\<lambda>x. x) hex_encode ?a = Inr m"
    by (simp add: buildEscrowClaimMessage_def U64_MAX_def)
  have "a' = ?a" if "LF \<notin> set (em_network a')"
    and "buildEscrowClaimMessage (\<lambda>x. x) hex_encode a' = Inr m" for a'
    by (rule escrow_message_binds [OF b58_encoder_hex that(2) m that(1)]) simp_all
  then show ?thesis using m by force
qed

text \<open>
  The two formats never produce the same bytes: no signature over an ANT claim can be
  presented for a token or vault claim, whatever the fields hold.
\<close>
theorem claim_formats_disjoint:
  assumes "buildAntEscrowClaimMessage sha b58 a = Inr m"
    and "buildEscrowClaimMessage sha b58 e = Inr m'"
  shows "m \<noteq> m'"
  using assms by (rule formats_differ)

theorem claim_formats_disjoint_witness:
  "\<exists>m m'. buildAntEscrowClaimMessage (\<lambda>x. x) hex_encode
        \<lparr>am_antMint = replicate 32 1, am_claimant = replicate 32 2, am_nonce = replicate 32 3,
         am_network = ''localnet'', am_recipientPubkey = [7]\<rparr> = Inr m
     \<and> buildEscrowClaimMessage (\<lambda>x. x) hex_encode
        \<lparr>em_assetType = EscrowToken, em_assetId = replicate 32 1, em_amount = 5,
         em_claimant = replicate 32 2, em_nonce = replicate 32 3,
         em_network = ''localnet'', em_recipientPubkey = [7]\<rparr> = Inr m' \<and> m \<noteq> m'"
proof -
  let ?a = "\<lparr>am_antMint = replicate 32 1, am_claimant = replicate 32 2, am_nonce = replicate 32 3,
         am_network = ''localnet'', am_recipientPubkey = [7]\<rparr>"
  let ?e = "\<lparr>em_assetType = EscrowToken, em_assetId = replicate 32 1, em_amount = 5,
         em_claimant = replicate 32 2, em_nonce = replicate 32 3,
         em_network = ''localnet'', em_recipientPubkey = [7]\<rparr>"
  obtain m where m: "buildAntEscrowClaimMessage (\<lambda>x. x) hex_encode ?a = Inr m"
    by (simp add: buildAntEscrowClaimMessage_def)
  obtain m' where m': "buildEscrowClaimMessage (\<lambda>x. x) hex_encode ?e = Inr m'"
    by (simp add: buildEscrowClaimMessage_def U64_MAX_def)
  show ?thesis using m m' claim_formats_disjoint [OF m m'] by blast
qed

text \<open>
  A verified signature: \<open>verifyRsaPss\<close> answers true only for a 512-byte signature and a
  512-byte modulus, a salt length in 0..32, and when OpenSSL accepts exactly this message under
  the key made of exactly this modulus and the exponent 65537.
\<close>
theorem verifyRsaPss_true:
  "verifyRsaPss R msg sig modulus salt = Inr True \<longleftrightarrow>
     length sig = 512 \<and> length modulus = 512 \<and> 0 \<le> salt \<and> salt \<le> 32 \<and>
     (\<exists>key. jwk_import R (b64url_encode modulus) ''AQAB'' = Inr key \<and>
            pss_verify R key salt msg sig = Inr True)"
  by (auto simp: verifyRsaPss_def modulusToKeyObject_def RSA_4096_BYTES_def EXPECTED_E_BASE64URL_def
      and_then_def split: sum.splits if_splits)

end
