(* ===== verification/Attestor.thy ===== *)
theory Attestor
  imports Canonical "HOL-Library.AList"
begin

text \<open>
  The attestor service (\<open>packages/attestor/src\<close>): its configuration (\<open>config.ts\<close>), the CORS
  allow-list, the verify-slot semaphore, the anomaly tracker and the \<open>POST /attest\<close> handler
  (\<open>app.ts\<close>). The module-level variables \<open>inFlightVerifies\<close> and \<open>anomalyByKey\<close> are the state; a
  handler takes the state and returns the response with the new state. A JavaScript \<open>Map\<close> is an
  association list in insertion order: \<open>AList.update\<close> overwrites in place and appends a new key.
\<close>

section \<open>Configuration\<close>

record attestor_config =
  ac_port :: "int option"
  ac_logLevel :: string
  ac_rateLimitPerMinute :: "int option"
  ac_maxConcurrentVerifies :: "int option"
  ac_network :: string
  ac_attestor :: attestor_keypair
  ac_corsAllowedOrigins :: "string list"

type_synonym env = "string \<Rightarrow> string option"

definition required :: "env \<Rightarrow> string \<Rightarrow> string + string" where
  "required env name = (case env name of
     None \<Rightarrow> Inl (''missing required env var: '' @ name)
   | Some v \<Rightarrow> if v = [] then Inl (''missing required env var: '' @ name) else Inr v)"

definition env_or :: "env \<Rightarrow> string \<Rightarrow> string \<Rightarrow> string" where
  "env_or env name dflt = (case env name of None \<Rightarrow> dflt | Some v \<Rightarrow> v)"

definition validNetworks :: "string list" where
  "validNetworks = [''solana-mainnet'', ''solana-devnet'', ''localnet'']"

definition parse_origins :: "string \<Rightarrow> string list" where
  "parse_origins s = filter (\<lambda>o'. length o' > 0) (map js_trim (js_split CHR '','' s))"

definition loadConfig ::
  "ed25519 \<Rightarrow> (string \<Rightarrow> string + bytes) \<Rightarrow> env \<Rightarrow> string + attestor_config" where
  "loadConfig ed b58dec env =
     and_then (required env ''ATTESTOR_SECRET_BASE58'') (\<lambda>secretBase58.
     and_then (required env ''NETWORK'') (\<lambda>network.
     if network \<notin> set validNetworks
     then Inl (''NETWORK must be one of solana-mainnet, solana-devnet, localnet, got \"'' @ network @ ''\"'')
     else and_then (b58dec secretBase58) (\<lambda>secretSeed.
     if length secretSeed \<noteq> 32
     then Inl (''ATTESTOR_SECRET_BASE58 must decode to 32 bytes, got '' @ dec_nat (length secretSeed))
     else and_then (loadAttestorKeypair ed secretSeed) (\<lambda>attestor.
     Inr \<lparr>ac_port = parse_int10 (env_or env ''PORT'' ''3030''),
          ac_logLevel = env_or env ''LOG_LEVEL'' ''info'',
          ac_rateLimitPerMinute = parse_int10 (env_or env ''RATE_LIMIT_PER_MIN'' ''30''),
          ac_maxConcurrentVerifies = parse_int10 (env_or env ''MAX_CONCURRENT_VERIFIES'' ''10''),
          ac_network = network,
          ac_attestor = attestor,
          ac_corsAllowedOrigins = parse_origins (env_or env ''CORS_ALLOWED_ORIGINS'' '''')\<rparr>))))"

section \<open>CORS\<close>

text \<open>The middleware either passes on with some headers set, or ends a preflight with 204.\<close>

datatype cors_outcome = CorsNext "(string \<times> string) list" | CorsEnd204 "(string \<times> string) list"

definition cors_middleware :: "string list \<Rightarrow> string option \<Rightarrow> string \<Rightarrow> cors_outcome" where
  "cors_middleware allowed origin meth =
     (if length allowed > 0 then
        (case origin of
           None \<Rightarrow> CorsNext []
         | Some org \<Rightarrow>
             if org \<noteq> [] \<and> org \<in> set allowed then
               (let hs = [(''Access-Control-Allow-Origin'', org), (''Vary'', ''Origin'')] in
                if meth = ''OPTIONS''
                then CorsEnd204 (hs @ [(''Access-Control-Allow-Methods'', ''GET,POST,OPTIONS''),
                                       (''Access-Control-Allow-Headers'', ''Content-Type''),
                                       (''Access-Control-Max-Age'', ''86400'')])
                else CorsNext hs)
             else CorsNext [])
      else CorsNext [])"

section \<open>The state: verify slots and the anomaly map\<close>

record anomaly_state =
  an_count :: nat
  an_firstSeenMs :: int

type_synonym anomaly_map = "(string \<times> anomaly_state) list"

record attestor_state =
  inFlightVerifies :: int
  anomalyByKey :: anomaly_map

definition ANOMALY_WINDOW_MS :: int where "ANOMALY_WINDOW_MS = 60000"
definition ANOMALY_THRESHOLD :: nat where "ANOMALY_THRESHOLD = 5"
definition ANOMALY_GC_THRESHOLD :: nat where "ANOMALY_GC_THRESHOLD = 10000"
definition ANOMALY_MAX_ENTRIES :: nat where "ANOMALY_MAX_ENTRIES = 50000"

text \<open>A limit that is \<open>NaN\<close> compares false: no request is refused.\<close>

definition tryAcquireVerifySlot :: "attestor_config \<Rightarrow> attestor_state \<Rightarrow> bool \<times> attestor_state" where
  "tryAcquireVerifySlot cfg s =
     (if (case ac_maxConcurrentVerifies cfg of Some m \<Rightarrow> inFlightVerifies s \<ge> m | None \<Rightarrow> False)
      then (False, s)
      else (True, s\<lparr>inFlightVerifies := inFlightVerifies s + 1\<rparr>))"

definition releaseVerifySlot :: "attestor_state \<Rightarrow> attestor_state" where
  "releaseVerifySlot s = s\<lparr>inFlightVerifies := max 0 (inFlightVerifies s - 1)\<rparr>"

definition anomaly_gc :: "int \<Rightarrow> anomaly_map \<Rightarrow> anomaly_map" where
  "anomaly_gc now m =
     (if length m > ANOMALY_GC_THRESHOLD then
        (let m1 = filter (\<lambda>(k, v). \<not> now - an_firstSeenMs v > ANOMALY_WINDOW_MS) m in
         if length m1 \<ge> ANOMALY_MAX_ENTRIES
         then drop (length m1 - (ANOMALY_MAX_ENTRIES - 1)) m1
         else m1)
      else m)"

definition checkAnomaly ::
  "anomaly_map \<Rightarrow> int \<Rightarrow> string \<Rightarrow> string \<Rightarrow> bool \<times> anomaly_map" where
  "checkAnomaly m0 now arweaveAddress escrowKey =
     (let key = arweaveAddress @ '':'' @ escrowKey;
          m = anomaly_gc now m0;
          fresh = (False, AList.update key \<lparr>an_count = 1, an_firstSeenMs = now\<rparr> m)
      in case map_of m key of
           None \<Rightarrow> fresh
         | Some cur \<Rightarrow>
             if now - an_firstSeenMs cur > ANOMALY_WINDOW_MS then fresh
             else (an_count cur + 1 \<ge> ANOMALY_THRESHOLD,
                   AList.update key (cur\<lparr>an_count := an_count cur + 1\<rparr>) m))"

section \<open>Reading the body\<close>

type_synonym body = "(string \<times> json) list"

definition stringField :: "body \<Rightarrow> string \<Rightarrow> string option" where
  "stringField body key = (case map_of body key of
     Some (JStr v) \<Rightarrow> if length v > 0 then Some v else None
   | _ \<Rightarrow> None)"

definition numberField :: "body \<Rightarrow> string \<Rightarrow> json option" where
  "numberField body key = (case map_of body key of
     Some (JInt i) \<Rightarrow> Some (JInt i)
   | Some (JFrac q) \<Rightarrow> Some (JFrac q)
   | _ \<Rightarrow> None)"

definition decodeHex :: "string \<Rightarrow> string + bytes" where
  "decodeHex s =
     (if length s mod 2 \<noteq> 0 then Inl ''hex string must be even length''
      else if \<not> list_all (\<lambda>c. hex_value c \<noteq> None) s
      then Inl ''hex string contains non-hex characters''
      else Inr (map (\<lambda>i. case parse_int16 (hex_slice s i) of Some v \<Rightarrow> of_int v | None \<Rightarrow> 0)
                 [0..<length s div 2]))"

section \<open>\<open>POST /attest\<close>\<close>

text \<open>
  The third-party functions the handler reaches, in one record: SHA-256, base58 both ways (a
  decode may throw its message), OpenSSL's RSA and the Ed25519 functions.
\<close>

record 'k attestor_prims =
  ap_sha :: "bytes \<Rightarrow> bytes"
  ap_b58enc :: "bytes \<Rightarrow> string"
  ap_b58dec :: "string \<Rightarrow> string + bytes"
  ap_rsa :: "'k node_rsa"
  ap_ed :: ed25519

datatype attest_response =
    AttestError int string string
  | AttestOk string string string

record common_fields =
  cf_claimant :: bytes
  cf_nonce :: bytes
  cf_modulus :: bytes
  cf_signature :: bytes

definition sized :: "nat \<Rightarrow> string \<Rightarrow> bytes \<Rightarrow> string + bytes" where
  "sized n msg bs = (if length bs \<noteq> n then Inl msg else Inr bs)"

definition decode_common ::
  "'k attestor_prims \<Rightarrow> string \<Rightarrow> string \<Rightarrow> string \<Rightarrow> string \<Rightarrow> string + common_fields" where
  "decode_common P claimantBase58 nonceHex rsaModulusB64u rsaSignatureB64u =
     and_then (and_then (ap_b58dec P claimantBase58) (sized 32 ''claimant not 32 bytes'')) (\<lambda>claimant.
     and_then (and_then (decodeHex nonceHex) (sized 32 ''nonce not 32 bytes'')) (\<lambda>nonce.
     and_then (sized RSA_4096_BYTES (''rsaModulus not '' @ dec_nat RSA_4096_BYTES @ '' bytes'')
                (b64url_decode rsaModulusB64u)) (\<lambda>modulus.
     and_then (sized RSA_4096_BYTES (''rsaSignature not '' @ dec_nat RSA_4096_BYTES @ '' bytes'')
                (b64url_decode rsaSignatureB64u)) (\<lambda>signature.
     Inr \<lparr>cf_claimant = claimant, cf_nonce = nonce, cf_modulus = modulus,
          cf_signature = signature\<rparr>))))"

text \<open>
  \<open>INVALID_FIELD_VALUE\<close> for a throw inside one of the two decoding \<open>try\<close> blocks.
\<close>

definition invalid_field :: "string + 'a \<Rightarrow> attest_response + 'a" where
  "invalid_field r = (case r of
     Inl msg \<Rightarrow> Inl (AttestError 422 ''INVALID_FIELD_VALUE'' msg) | Inr x \<Rightarrow> Inr x)"

text \<open>
  The two message builders throw outside every \<open>try\<close>, and Express answers 500. The handler has
  checked every length before, so this never happens.
\<close>

definition uncaught :: "string + 'a \<Rightarrow> attest_response + 'a" where
  "uncaught r = (case r of Inl msg \<Rightarrow> Inl (AttestError 500 [] msg) | Inr x \<Rightarrow> Inr x)"

definition parse_amount :: "string \<Rightarrow> string + int" where
  "parse_amount amountStr = (case js_BigInt amountStr of
     None \<Rightarrow> Inl (''Cannot convert '' @ amountStr @ '' to a BigInt'')
   | Some amount \<Rightarrow>
       if amount < 0 \<or> amount > U64_MAX
       then Inl (''amount must fit in u64, got '' @ amountStr) else Inr amount)"

text \<open>The canonical message, with \<open>antMintBase58Logged\<close>.\<close>

definition build_canonical ::
  "'k attestor_prims \<Rightarrow> attestor_config \<Rightarrow> body \<Rightarrow> common_fields \<Rightarrow> attest_response + (bytes \<times> string)" where
  "build_canonical P cfg body cf =
     (let claimKindRaw = (case stringField body ''claimKind'' of None \<Rightarrow> ''ant'' | Some k \<Rightarrow> k) in
      if claimKindRaw = ''ant'' then
        (case stringField body ''antMintBase58'' of
           None \<Rightarrow> Inl (AttestError 400 ''MISSING_FIELD'' ''claimKind=ant requires antMintBase58'')
         | Some antMintBase58 \<Rightarrow>
             and_then (invalid_field (and_then (ap_b58dec P antMintBase58)
                        (sized 32 ''antMint not 32 bytes''))) (\<lambda>antMint.
             and_then (uncaught (buildAntEscrowClaimMessage (ap_sha P) (ap_b58enc P)
                \<lparr>am_antMint = antMint, am_claimant = cf_claimant cf, am_nonce = cf_nonce cf,
                 am_network = ac_network cfg, am_recipientPubkey = cf_modulus cf\<rparr>)) (\<lambda>canonical.
             Inr (canonical, antMintBase58))))
      else if claimKindRaw = ''token'' \<or> claimKindRaw = ''vault'' then
        (case (stringField body ''assetIdHex'', stringField body ''amount'') of
           (Some assetIdHex, Some amountStr) \<Rightarrow>
             and_then (invalid_field (and_then (and_then (decodeHex assetIdHex)
                        (sized 32 ''assetId not 32 bytes'')) (\<lambda>assetId.
                      and_then (parse_amount amountStr) (\<lambda>amount. Inr (assetId, amount)))))
               (\<lambda>(assetId, amount).
             and_then (uncaught (buildEscrowClaimMessage (ap_sha P) (ap_b58enc P)
                \<lparr>em_assetType = (if claimKindRaw = ''token'' then EscrowToken else EscrowVault),
                 em_assetId = assetId, em_amount = amount, em_claimant = cf_claimant cf,
                 em_nonce = cf_nonce cf, em_network = ac_network cfg,
                 em_recipientPubkey = cf_modulus cf\<rparr>)) (\<lambda>canonical.
             Inr (canonical, [])))
         | _ \<Rightarrow> Inl (AttestError 400 ''MISSING_FIELD''
                      ''claimKind=token|vault requires assetIdHex and amount''))
      else Inl (AttestError 422 ''UNSUPPORTED_CLAIM_KIND''
             (''claimKind must be \"ant\", \"token\", or \"vault\" (got \"'' @ claimKindRaw @ ''\")'')))"

text \<open>
  The common fields; the salt length is 0 or 32.
\<close>

definition read_common :: "'k attestor_prims \<Rightarrow> body \<Rightarrow> attest_response + (common_fields \<times> int)" where
  "read_common P body =
     (case (stringField body ''claimantBase58'', stringField body ''nonceHex'',
            stringField body ''rsaModulusBase64Url'', stringField body ''rsaSignatureBase64Url'',
            numberField body ''saltLength'') of
        (Some claimantBase58, Some nonceHex, Some rsaModulusB64u, Some rsaSignatureB64u, Some salt) \<Rightarrow>
          if salt \<noteq> JInt 0 \<and> salt \<noteq> JInt 32
          then Inl (AttestError 422 ''UNSUPPORTED_SALT_LENGTH''
                 ''saltLength must be 0 or 32 (Arweave wallet defaults)'')
          else and_then (invalid_field (decode_common P claimantBase58 nonceHex
                          rsaModulusB64u rsaSignatureB64u))
                 (\<lambda>cf. Inr (cf, if salt = JInt 0 then 0 else 32))
      | _ \<Rightarrow> Inl (AttestError 400 ''MISSING_FIELD''
                (''required (all): claimantBase58, nonceHex, rsaModulusBase64Url, ''
                 @ ''rsaSignatureBase64Url, saltLength; plus claim-kind-specific fields'')))"

definition escrow_key :: "string \<Rightarrow> body \<Rightarrow> string" where
  "escrow_key antMintLogged body =
     (if antMintLogged \<noteq> [] then antMintLogged
      else case stringField body ''assetIdHex'' of Some a \<Rightarrow> a | None \<Rightarrow> ''?'')"

text \<open>
  The verify slot, the verification and, only after it, the signature. The result also says
  whether the anomaly warning was logged.
\<close>

definition attest_verify_sign ::
  "'k attestor_prims \<Rightarrow> attestor_config \<Rightarrow> int \<Rightarrow> common_fields \<Rightarrow> int \<Rightarrow> bytes \<Rightarrow> string
     \<Rightarrow> attestor_state \<Rightarrow> attest_response \<times> bool \<times> attestor_state" where
  "attest_verify_sign P cfg now cf salt canonical escrowKey s =
     (case tryAcquireVerifySlot cfg s of
        (False, s1) \<Rightarrow> (AttestError 503 ''BUSY'' ''attestor at capacity; retry shortly'', False, s1)
      | (True, s1) \<Rightarrow>
         (let s2 = releaseVerifySlot s1 in
          case verifyRsaPss (ap_rsa P) canonical (cf_signature cf) (cf_modulus cf) salt of
            Inl (RsaPssError code msg) \<Rightarrow> (AttestError 422 code msg, False, s2)
          | Inl (OtherError msg) \<Rightarrow> (AttestError 500 ''INTERNAL'' ''see server logs'', False, s2)
          | Inr False \<Rightarrow> (AttestError 401 ''RSA_SIGNATURE_INVALID''
                ''the RSA-PSS signature does not verify under the given modulus'', False, s2)
          | Inr True \<Rightarrow>
              (let attestationSig = signAttestation (ap_ed P) (ac_attestor cfg) canonical in
               case deriveArweaveAddress (ap_sha P) (cf_modulus cf) of
                 Inl e \<Rightarrow> (AttestError 500 [] [], False, s2)
               | Inr arweaveAddress \<Rightarrow>
                  (case checkAnomaly (anomalyByKey s2) now arweaveAddress escrowKey of
                     (anomalous, m) \<Rightarrow>
                       (AttestOk (ap_b58enc P (ak_publicKey (ac_attestor cfg)))
                                 (b64url_encode attestationSig) (b64url_encode canonical),
                        anomalous, s2\<lparr>anomalyByKey := m\<rparr>)))))"

definition attest_handler ::
  "'k attestor_prims \<Rightarrow> attestor_config \<Rightarrow> int \<Rightarrow> body \<Rightarrow> attestor_state
     \<Rightarrow> attest_response \<times> bool \<times> attestor_state" where
  "attest_handler P cfg now body s =
     (case read_common P body of
        Inl e \<Rightarrow> (e, False, s)
      | Inr (cf, salt) \<Rightarrow>
          (case build_canonical P cfg body cf of
             Inl e \<Rightarrow> (e, False, s)
           | Inr (canonical, logged) \<Rightarrow>
               attest_verify_sign P cfg now cf salt canonical (escrow_key logged body) s))"

section \<open>Lemmas\<close>

lemma hex_encode_all_digits: "list_all (\<lambda>c. hex_value c \<noteq> None) (hex_encode bs)"
proof -
  have "hex_value c \<noteq> None" if "c \<in> set hex_alphabet" for c
    using that by (auto simp: hex_alphabet_def hex_value_def)
  then show ?thesis using hex_encode_set [of bs] by (auto simp: list_all_iff)
qed

lemma decodeHex_encode: "decodeHex (hex_encode bs) = Inr bs"
proof -
  have "map (\<lambda>i. case parse_int16 (hex_slice (hex_encode bs) i) of
      Some v \<Rightarrow> of_int v | None \<Rightarrow> 0) [0..<length bs] = bs"
    by (rule nth_equalityI) (simp_all add: hex_slice_encode parse_int16_hex_byte)
  then show ?thesis using hex_encode_all_digits by (simp add: decodeHex_def length_hex_encode)
qed

lemma decodeHex_length: "decodeHex s = Inr bs \<Longrightarrow> length s = 2 * length bs"
  by (auto simp: decodeHex_def split: if_splits)

lemma sized_Inr [simp]: "sized n msg bs = Inr x \<longleftrightarrow> length bs = n \<and> x = bs"
  by (auto simp: sized_def)

lemma length_AList_update:
  "length (AList.update k v m) = (if k \<in> fst ` set m then length m else Suc (length m))"
  by (induction m) auto

lemma anomaly_gc_length:
  "length (anomaly_gc now m) \<le> length m"
  "length m > ANOMALY_GC_THRESHOLD \<Longrightarrow> length (anomaly_gc now m) < ANOMALY_MAX_ENTRIES"
  by (auto simp: anomaly_gc_def Let_def ANOMALY_MAX_ENTRIES_def
      dest: order_trans [OF _ length_filter_le])

lemma releaseVerifySlot_acquired:
  assumes "tryAcquireVerifySlot cfg s = (True, s1)" and "0 \<le> inFlightVerifies s"
  shows "releaseVerifySlot s1 = s"
  using assms by (auto simp: tryAcquireVerifySlot_def releaseVerifySlot_def split: if_splits)

lemma tryAcquire_refused: "tryAcquireVerifySlot cfg s = (False, s1) \<Longrightarrow> s1 = s"
  by (auto simp: tryAcquireVerifySlot_def split: if_splits)

lemma attest_verify_sign_ok:
  assumes "attest_verify_sign P cfg now cf salt canonical ek s = (AttestOk pub sig msg, w, s')"
  shows "verifyRsaPss (ap_rsa P) canonical (cf_signature cf) (cf_modulus cf) salt = Inr True"
    "sig = b64url_encode (signAttestation (ap_ed P) (ac_attestor cfg) canonical)"
    "msg = b64url_encode canonical" "pub = ap_b58enc P (ak_publicKey (ac_attestor cfg))"
  using assms
  by (auto simp: attest_verify_sign_def Let_def split: prod.splits bool.splits sum.splits rsa_exn.splits)

lemma attest_verify_sign_slot:
  assumes "tryAcquireVerifySlot cfg s = (True, s1)" and "releaseVerifySlot s1 = s"
    and "inFlightVerifies s = 0"
  shows "inFlightVerifies (snd (snd (attest_verify_sign P cfg now cf salt m ek s))) = 0
      \<and> (\<forall>d. fst (attest_verify_sign P cfg now cf salt m ek s) \<noteq> AttestError 503 ''BUSY'' d)"
proof (cases "verifyRsaPss (ap_rsa P) m (cf_signature cf) (cf_modulus cf) salt")
  case (Inl e)
  then show ?thesis using assms by (cases e) (simp_all add: attest_verify_sign_def)
next
  case (Inr ok)
  then show ?thesis using assms
    by (cases ok; cases "deriveArweaveAddress (ap_sha P) (cf_modulus cf)")
      (simp_all add: attest_verify_sign_def Let_def case_prod_unfold)
qed

text \<open>What the message of an accepted request is made of.\<close>

definition canonical_for ::
  "'k attestor_prims \<Rightarrow> attestor_config \<Rightarrow> common_fields \<Rightarrow> bytes \<Rightarrow> bool" where
  "canonical_for P cfg cf m \<longleftrightarrow>
     (\<exists>a. buildAntEscrowClaimMessage (ap_sha P) (ap_b58enc P) a = Inr m
        \<and> am_recipientPubkey a = cf_modulus cf \<and> am_network a = ac_network cfg
        \<and> am_claimant a = cf_claimant cf \<and> am_nonce a = cf_nonce cf)
   \<or> (\<exists>a. buildEscrowClaimMessage (ap_sha P) (ap_b58enc P) a = Inr m
        \<and> em_recipientPubkey a = cf_modulus cf \<and> em_network a = ac_network cfg
        \<and> em_claimant a = cf_claimant cf \<and> em_nonce a = cf_nonce cf)"

lemma invalid_field_simps [simp]:
  "invalid_field r = Inr x \<longleftrightarrow> r = Inr x"
  "uncaught r = Inr x \<longleftrightarrow> r = Inr x"
  "invalid_field r = Inl e \<longleftrightarrow> (\<exists>msg. r = Inl msg \<and> e = AttestError 422 ''INVALID_FIELD_VALUE'' msg)"
  "uncaught r = Inl e \<longleftrightarrow> (\<exists>msg. r = Inl msg \<and> e = AttestError 500 [] msg)"
  by (auto simp: invalid_field_def uncaught_def split: sum.splits)

lemma build_canonical_for:
  assumes "build_canonical P cfg body cf = Inr (m, logged)"
  shows "canonical_for P cfg cf m"
proof (cases "(case stringField body ''claimKind'' of None \<Rightarrow> ''ant'' | Some k \<Rightarrow> k) = ''ant''")
  case True
  with assms have "\<exists>a. buildAntEscrowClaimMessage (ap_sha P) (ap_b58enc P) a = Inr m
        \<and> am_recipientPubkey a = cf_modulus cf \<and> am_network a = ac_network cfg
        \<and> am_claimant a = cf_claimant cf \<and> am_nonce a = cf_nonce cf"
    by (fastforce simp: build_canonical_def Let_def and_then_Inr split: option.splits)
  then show ?thesis by (simp add: canonical_for_def)
next
  case False
  with assms have "\<exists>a. buildEscrowClaimMessage (ap_sha P) (ap_b58enc P) a = Inr m
        \<and> em_recipientPubkey a = cf_modulus cf \<and> em_network a = ac_network cfg
        \<and> em_claimant a = cf_claimant cf \<and> em_nonce a = cf_nonce cf"
    by (fastforce simp: build_canonical_def Let_def and_then_Inr split: option.splits if_splits prod.splits)
  then show ?thesis by (simp add: canonical_for_def)
qed

lemma read_common_error:
  assumes "read_common P body = Inl e"
  shows "\<exists>c err msg. e = AttestError c err msg \<and> (c = 400 \<or> c = 422)"
  using assms by (auto simp: read_common_def and_then_Inl split: option.splits if_splits)

lemma build_canonical_error:
  assumes "build_canonical P cfg body cf = Inl e"
  shows "\<exists>c err msg. e = AttestError c err msg \<and> (c = 400 \<or> c = 422 \<or> c = 500)"
  using assms
  by (auto simp: build_canonical_def Let_def and_then_Inl and_then_Inr case_prod_unfold
      split: option.splits if_splits)

lemma read_common_salt: "read_common P body = Inr (cf, salt) \<Longrightarrow> salt = 0 \<or> salt = 32"
  by (auto simp: read_common_def and_then_Inr split: option.splits if_splits prod.splits)

lemma map_of_anomaly_gc_small:
  "length m \<le> ANOMALY_GC_THRESHOLD \<Longrightarrow> anomaly_gc now m = m"
  by (simp add: anomaly_gc_def)

section \<open>Properties\<close>

text \<open>
  C27. The attestor signs nothing it has not verified: whenever \<open>POST /attest\<close> answers with an
  attestation, the Ed25519 signature is over exactly the bytes on which the RSA-PSS signature of
  the request verified, under the request's modulus, a salt length of 0 or 32, and those bytes
  are a canonical claim message bound to that modulus, the configured network, the request's
  claimant and its nonce.
\<close>
theorem attest_signs_only_verified:
  assumes "attest_handler P cfg now body s = (AttestOk pub sig msg, w, s')"
  shows "\<exists>cf salt m. read_common P body = Inr (cf, salt) \<and> (salt = 0 \<or> salt = 32)
     \<and> canonical_for P cfg cf m
     \<and> verifyRsaPss (ap_rsa P) m (cf_signature cf) (cf_modulus cf) salt = Inr True
     \<and> sig = b64url_encode (signAttestation (ap_ed P) (ac_attestor cfg) m)
     \<and> msg = b64url_encode m"
proof -
  from assms obtain cf salt where c: "read_common P body = Inr (cf, salt)"
    and *: "(case build_canonical P cfg body cf of Inl e \<Rightarrow> (e, False, s)
             | Inr (canonical, logged) \<Rightarrow>
                 attest_verify_sign P cfg now cf salt canonical (escrow_key logged body) s)
            = (AttestOk pub sig msg, w, s')"
    using read_common_error by (cases "read_common P body") (fastforce simp: attest_handler_def)+
  from * obtain m logged where b: "build_canonical P cfg body cf = Inr (m, logged)"
    and v: "attest_verify_sign P cfg now cf salt m (escrow_key logged body) s
              = (AttestOk pub sig msg, w, s')"
    using build_canonical_error by (cases "build_canonical P cfg body cf") fastforce+
  show ?thesis
    using c build_canonical_for [OF b] attest_verify_sign_ok [OF v] read_common_salt [OF c] by blast
qed

text \<open>
  The verify slot is released on every path, and because a request runs from acquire to
  release without yielding, a request that starts with no verification in flight never answers
  503: whatever positive limit is configured (or \<open>NaN\<close>), the guard never refuses.
\<close>
theorem attest_slot_released:
  assumes "inFlightVerifies s = 0"
    and "\<forall>n. ac_maxConcurrentVerifies cfg = Some n \<longrightarrow> 0 < n"
    and "attest_handler P cfg now body s = (r, w, s')"
  shows "inFlightVerifies s' = 0 \<and> (\<forall>d. r \<noteq> AttestError 503 ''BUSY'' d)"
proof -
  obtain s1 where a: "tryAcquireVerifySlot cfg s = (True, s1)"
    using assms(1,2) by (cases "ac_maxConcurrentVerifies cfg") (auto simp: tryAcquireVerifySlot_def)
  have r: "releaseVerifySlot s1 = s" using releaseVerifySlot_acquired [OF a] assms(1) by simp
  have v: "inFlightVerifies (snd (snd (attest_verify_sign P cfg now cf salt m ek s))) = 0
      \<and> (\<forall>d. fst (attest_verify_sign P cfg now cf salt m ek s) \<noteq> AttestError 503 ''BUSY'' d)"
    for cf salt m ek
    using assms(1) by (rule attest_verify_sign_slot [OF a r])
  show ?thesis
  proof (cases "read_common P body")
    case (Inl e)
    then show ?thesis using assms(1,3) read_common_error [OF Inl] by (auto simp: attest_handler_def)
  next
    case (Inr c)
    obtain cf salt where c: "c = (cf, salt)" by (cases c)
    show ?thesis
    proof (cases "build_canonical P cfg body cf")
      case (Inl e)
      then show ?thesis using assms(1,3) build_canonical_error [OF Inl] \<open>read_common P body = Inr c\<close>
        by (auto simp: attest_handler_def c)
    next
      case (Inr x)
      then show ?thesis using assms(3) v [of cf salt "fst x" "escrow_key (snd x) body"]
          \<open>read_common P body = Inr c\<close>
        by (simp add: attest_handler_def c case_prod_unfold)
    qed
  qed
qed

text \<open>
  The anomaly map is bounded whatever map a call starts from and whatever key it brings:
  after \<open>checkAnomaly\<close> it has at most \<open>ANOMALY_MAX_ENTRIES\<close> entries.
\<close>
theorem anomaly_map_bounded:
  "length (snd (checkAnomaly m now addr key)) \<le> 50000"
proof -
  let ?g = "anomaly_gc now m"
  have "length ?g < 50000"
    using anomaly_gc_length [where m = m and now = now]
    by (cases "length m > ANOMALY_GC_THRESHOLD")
      (auto simp: ANOMALY_GC_THRESHOLD_def ANOMALY_MAX_ENTRIES_def)
  then have "length (AList.update k v ?g) \<le> 50000" for k v
    by (simp add: length_AList_update)
  then show ?thesis
    by (simp add: checkAnomaly_def Let_def split: option.split)
qed

text \<open>Repeated attempts on one (address, escrow) pair, at the given times.\<close>

fun attempts :: "anomaly_map \<Rightarrow> string \<Rightarrow> string \<Rightarrow> int list \<Rightarrow> bool list" where
  "attempts m addr key [] = []"
| "attempts m addr key (t # ts) =
     (case checkAnomaly m t addr key of (b, m') \<Rightarrow> b # attempts m' addr key ts)"

lemma attempts_known:
  assumes "map_of m (addr @ '':'' @ key) = Some \<lparr>an_count = c, an_firstSeenMs = t0\<rparr>"
    and "length m \<le> ANOMALY_GC_THRESHOLD"
    and "list_all (\<lambda>t. t - t0 \<le> ANOMALY_WINDOW_MS) ts"
  shows "attempts m addr key ts = map (\<lambda>i. ANOMALY_THRESHOLD \<le> c + i + 1) [0..<length ts]"
  using assms
proof (induction ts arbitrary: m c)
  case (Cons t ts)
  let ?k = "addr @ '':'' @ key"
  let ?m = "AList.update ?k \<lparr>an_count = c + 1, an_firstSeenMs = t0\<rparr> m"
  have step: "checkAnomaly m t addr key = (ANOMALY_THRESHOLD \<le> c + 1, ?m)"
    using Cons.prems by (simp add: checkAnomaly_def Let_def map_of_anomaly_gc_small)
  have k: "?k \<in> fst ` set m" using Cons.prems(1) by (metis domI dom_map_of_conv_image_fst)
  have "attempts ?m addr key ts = map (\<lambda>i. ANOMALY_THRESHOLD \<le> (c + 1) + i + 1) [0..<length ts]"
    using Cons.prems(2,3) k by (intro Cons.IH) (simp_all add: update_conv' length_AList_update)
  then show ?case
    by (simp add: step upt_conv_Cons map_Suc_upt [symmetric] del: upt_Suc)
qed simp

text \<open>
  The anomaly warning fires where it is documented to: for repeated attestations of one
  (address, escrow) pair within a minute of the first, the fifth and every later one is flagged
  and the first four are not (below the map's clean-up threshold).
\<close>
theorem anomaly_flags_from_fifth:
  assumes "map_of m (addr @ '':'' @ key) = None" and "length m < 10000"
    and "list_all (\<lambda>t. t - t0 \<le> 60000) ts"
  shows "attempts m addr key (t0 # ts) = map (\<lambda>i. 4 \<le> i) [0..<Suc (length ts)]"
proof -
  let ?k = "addr @ '':'' @ key"
  let ?m = "AList.update ?k \<lparr>an_count = 1, an_firstSeenMs = t0\<rparr> m"
  have "checkAnomaly m t0 addr key = (False, ?m)"
    using assms by (simp add: checkAnomaly_def map_of_anomaly_gc_small ANOMALY_GC_THRESHOLD_def)
  moreover have "attempts ?m addr key ts = map (\<lambda>i. ANOMALY_THRESHOLD \<le> 1 + i + 1) [0..<length ts]"
    using assms(2,3)
    by (intro attempts_known)
      (simp_all add: update_conv' length_AList_update ANOMALY_GC_THRESHOLD_def ANOMALY_WINDOW_MS_def)
  ultimately show ?thesis
    by (simp add: ANOMALY_THRESHOLD_def upt_conv_Cons map_Suc_upt [symmetric] del: upt_Suc)
qed

theorem anomaly_flags_from_fifth_witness:
  "attempts [] ''addr'' ''ant'' [0, 10, 20, 30, 40, 60000]
     = [False, False, False, False, True, True]"
  using anomaly_flags_from_fifth [of "[]" "''addr''" "''ant''" 0 "[10, 20, 30, 40, 60000]"]
  by (simp add: upt_rec)

section \<open>A concrete request\<close>

text \<open>Inputs at which the hypotheses of the handler's properties hold.\<close>

definition demo_prims :: "string attestor_prims" where
  "demo_prims = \<lparr>ap_sha = (\<lambda>x. replicate 32 0), ap_b58enc = hex_encode, ap_b58dec = decodeHex,
     ap_rsa = \<lparr>jwk_import = (\<lambda>n e. Inr n), pss_verify = (\<lambda>k salt m sg. Inr (sg = replicate 512 2))\<rparr>,
     ap_ed = \<lparr>ed_getPublicKey = (\<lambda>k. k), ed_sign = (\<lambda>m k. m)\<rparr>\<rparr>"

definition demo_config :: attestor_config where
  "demo_config = \<lparr>ac_port = Some 3030, ac_logLevel = ''info'', ac_rateLimitPerMinute = Some 30,
     ac_maxConcurrentVerifies = Some 10, ac_network = ''localnet'',
     ac_attestor = \<lparr>ak_secretKey = replicate 32 9, ak_publicKey = replicate 32 9\<rparr>,
     ac_corsAllowedOrigins = []\<rparr>"

definition demo_body :: body where
  "demo_body = [(''claimantBase58'', JStr (hex_encode (replicate 32 1))),
     (''nonceHex'', JStr (hex_encode (replicate 32 3))),
     (''rsaModulusBase64Url'', JStr (b64url_encode (replicate 512 4))),
     (''rsaSignatureBase64Url'', JStr (b64url_encode (replicate 512 2))),
     (''saltLength'', JInt 32),
     (''antMintBase58'', JStr (hex_encode (replicate 32 5)))]"

definition demo_state :: attestor_state where
  "demo_state = \<lparr>inFlightVerifies = 0, anomalyByKey = []\<rparr>"

lemma b64url_encode_nonempty: "bs \<noteq> [] \<Longrightarrow> b64url_encode bs \<noteq> []"
  by (cases bs rule: b64url_encode.cases) auto

lemma demo_read:
  "read_common demo_prims demo_body
     = Inr (\<lparr>cf_claimant = replicate 32 1, cf_nonce = replicate 32 3, cf_modulus = replicate 512 4,
             cf_signature = replicate 512 2\<rparr>, 32)"
  by (simp add: read_common_def demo_body_def demo_prims_def stringField_def numberField_def
      decode_common_def decodeHex_encode b64url_decode_encode sized_def RSA_4096_BYTES_def
      invalid_field_def length_hex_encode b64url_encode_nonempty)

lemma demo_ok:
  "\<exists>pub sig msg w s'. attest_handler demo_prims demo_config 0 demo_body demo_state
     = (AttestOk pub sig msg, w, s')"
  by (simp add: attest_handler_def demo_read build_canonical_def)
     (simp add: demo_body_def demo_prims_def demo_config_def stringField_def length_hex_encode
      decodeHex_encode sized_def buildAntEscrowClaimMessage_def invalid_field_def uncaught_def
      attest_verify_sign_def tryAcquireVerifySlot_def demo_state_def verifyRsaPss_def
      modulusToKeyObject_def RSA_4096_BYTES_def deriveArweaveAddress_def case_prod_unfold Let_def)

theorem attest_signs_only_verified_witness:
  "\<exists>sig msg. (\<exists>pub w s'. attest_handler demo_prims demo_config 0 demo_body demo_state
       = (AttestOk pub sig msg, w, s'))
     \<and> (\<exists>m. msg = b64url_encode m \<and> sig = b64url_encode m)"
proof -
  obtain pub sig msg w s' where r: "attest_handler demo_prims demo_config 0 demo_body demo_state
       = (AttestOk pub sig msg, w, s')" using demo_ok by blast
  have "signAttestation (ap_ed demo_prims) kp m = m" for kp m
    by (simp add: signAttestation_def demo_prims_def)
  with attest_signs_only_verified [OF r] r show ?thesis by metis
qed

theorem attest_slot_released_witness:
  "\<exists>r w s'. attest_handler demo_prims demo_config 0 demo_body demo_state = (r, w, s')
     \<and> inFlightVerifies s' = 0"
proof -
  obtain r w s' where r: "attest_handler demo_prims demo_config 0 demo_body demo_state = (r, w, s')"
    by (cases "attest_handler demo_prims demo_config 0 demo_body demo_state")
  have "inFlightVerifies demo_state = 0"
    "\<forall>n. ac_maxConcurrentVerifies demo_config = Some n \<longrightarrow> 0 < n"
    by (simp_all add: demo_state_def demo_config_def)
  from attest_slot_released [OF this r] r show ?thesis by blast
qed

end
