(* ===== verification/Verify.thy ===== *)
theory Verify
  imports Canonical
begin

unbundle bit_operations_syntax

text \<open>
  Identity-proof verification in the claims service (\<open>packages/claims/src/verify\<close>): the ledger
  view it reads (\<open>types.ts\<close>), the rebuild of the canonical message from ledger state
  (\<open>canonical-message.ts\<close>), the Arweave and Ethereum verifiers (\<open>arweave.ts\<close>, \<open>ethereum.ts\<close>),
  their dispatch (\<open>index.ts\<close>) and the mapping of errors to HTTP (\<open>errors.ts\<close>, \<open>api/errors.ts\<close>).

  Parameters, in one record: SHA-256 and Keccak-256 of \<open>@noble/hashes\<close>, base58 both ways, RSA of
  \<open>node:crypto\<close>, and public-key recovery of \<open>@noble/secp256k1\<close> from the compact signature, the
  recovery bit and the hash to the 65 raw bytes of the point, which may throw.
\<close>

section \<open>Types and errors\<close>

record 'k verify_prims =
  vq_sha :: "bytes \<Rightarrow> bytes"
  vq_keccak :: "bytes \<Rightarrow> bytes"
  vq_b58enc :: "bytes \<Rightarrow> string"
  vq_b58dec :: "string \<Rightarrow> string + bytes"
  vq_rsa :: "'k node_rsa"
  vq_recover :: "bytes \<Rightarrow> nat \<Rightarrow> bytes \<Rightarrow> string + bytes"

datatype asset_type = AssetAnt | AssetToken | AssetVault

fun asset_type_str :: "asset_type \<Rightarrow> string" where
  "asset_type_str AssetAnt = ''ant''"
| "asset_type_str AssetToken = ''token''"
| "asset_type_str AssetVault = ''vault''"

definition PROTOCOL_ARWEAVE :: int where "PROTOCOL_ARWEAVE = 0"
definition PROTOCOL_ETHEREUM :: int where "PROTOCOL_ETHEREUM = 1"
definition ETHEREUM_PUBKEY_LEN :: nat where "ETHEREUM_PUBKEY_LEN = 20"
definition ETHEREUM_SIG_LEN :: nat where "ETHEREUM_SIG_LEN = 65"

record recipient_view =
  rv_protocol :: int
  rv_recipientPubkey :: bytes
  rv_recipientId :: string
  rv_sourceAddress :: string

record asset_view =
  av_assetType :: asset_type
  av_assetKey :: string
  av_antMint :: "string option"
  av_amount :: "int option"
  av_nonce :: bytes
  av_vaultEndTs :: "int option"

record claim_proof =
  cp_claimant :: string
  cp_signature :: bytes
  cp_saltLength :: "int option"
  cp_providedModulus :: "bytes option"
  cp_nonce :: "bytes option"

record verified_proof =
  vp_canonicalMessage :: bytes
  vp_protocol :: int
  vp_recipientId :: string
  vp_claimant :: string

datatype verr_code =
    PROTOCOL_MISMATCH | ASSET_TYPE_MISMATCH | NONCE_MISMATCH | RSA_SIGNATURE_INVALID
  | UNSUPPORTED_SALT_LENGTH | MODULUS_MISMATCH | RECIPIENT_ID_MISMATCH | INVALID_RECOVERY_ID
  | ECDSA_HIGH_S | ETHEREUM_ADDRESS_MISMATCH | SIGNATURE_VERIFICATION_FAILED
  | LOCK_DURATION_TOO_LONG | INVALID_INPUT

text \<open>A deterministic \<open>VerificationError\<close>, or any other \<open>Error\<close> (an infrastructure fault).\<close>

datatype verr = VerificationError verr_code string | PlainError string

fun isVerificationError :: "verr \<Rightarrow> bool" where
  "isVerificationError (VerificationError c m) = True"
| "isVerificationError (PlainError m) = False"

fun verr_code_str :: "verr_code \<Rightarrow> string" where
  "verr_code_str PROTOCOL_MISMATCH = ''PROTOCOL_MISMATCH''"
| "verr_code_str ASSET_TYPE_MISMATCH = ''ASSET_TYPE_MISMATCH''"
| "verr_code_str NONCE_MISMATCH = ''NONCE_MISMATCH''"
| "verr_code_str RSA_SIGNATURE_INVALID = ''RSA_SIGNATURE_INVALID''"
| "verr_code_str UNSUPPORTED_SALT_LENGTH = ''UNSUPPORTED_SALT_LENGTH''"
| "verr_code_str MODULUS_MISMATCH = ''MODULUS_MISMATCH''"
| "verr_code_str RECIPIENT_ID_MISMATCH = ''RECIPIENT_ID_MISMATCH''"
| "verr_code_str INVALID_RECOVERY_ID = ''INVALID_RECOVERY_ID''"
| "verr_code_str ECDSA_HIGH_S = ''ECDSA_HIGH_S''"
| "verr_code_str ETHEREUM_ADDRESS_MISMATCH = ''ETHEREUM_ADDRESS_MISMATCH''"
| "verr_code_str SIGNATURE_VERIFICATION_FAILED = ''SIGNATURE_VERIFICATION_FAILED''"
| "verr_code_str LOCK_DURATION_TOO_LONG = ''LOCK_DURATION_TOO_LONG''"
| "verr_code_str INVALID_INPUT = ''INVALID_INPUT''"

text \<open>\<open>api/errors.ts\<close>: an \<open>ApiError\<close> has a status, a code and a message.\<close>

record api_error =
  ae_status :: int
  ae_code :: string
  ae_message :: string

fun VERIFY_STATUS :: "verr_code \<Rightarrow> int" where
  "VERIFY_STATUS RSA_SIGNATURE_INVALID = 401"
| "VERIFY_STATUS SIGNATURE_VERIFICATION_FAILED = 401"
| "VERIFY_STATUS ETHEREUM_ADDRESS_MISMATCH = 401"
| "VERIFY_STATUS PROTOCOL_MISMATCH = 422"
| "VERIFY_STATUS ASSET_TYPE_MISMATCH = 422"
| "VERIFY_STATUS RECIPIENT_ID_MISMATCH = 422"
| "VERIFY_STATUS MODULUS_MISMATCH = 422"
| "VERIFY_STATUS INVALID_RECOVERY_ID = 422"
| "VERIFY_STATUS ECDSA_HIGH_S = 422"
| "VERIFY_STATUS UNSUPPORTED_SALT_LENGTH = 422"
| "VERIFY_STATUS LOCK_DURATION_TOO_LONG = 422"
| "VERIFY_STATUS NONCE_MISMATCH = 409"
| "VERIFY_STATUS INVALID_INPUT = 400"

definition fromVerificationError :: "verr_code \<Rightarrow> string \<Rightarrow> api_error" where
  "fromVerificationError c m = \<lparr>ae_status = VERIFY_STATUS c, ae_code = verr_code_str c, ae_message = m\<rparr>"

fun toApiError :: "verr \<Rightarrow> api_error" where
  "toApiError (VerificationError c m) = fromVerificationError c m"
| "toApiError (PlainError m) = \<lparr>ae_status = 500, ae_code = ''INTERNAL'', ae_message = m\<rparr>"

section \<open>The canonical message from ledger state\<close>

definition decodeBase58Checked ::
  "(string \<Rightarrow> string + bytes) \<Rightarrow> string \<Rightarrow> string \<Rightarrow> nat \<Rightarrow> verr + bytes" where
  "decodeBase58Checked dec s label expectedLen =
     (case dec s of
        Inl e \<Rightarrow> Inl (VerificationError INVALID_INPUT (label @ '' is not valid base58''))
      | Inr bs \<Rightarrow>
          if length bs \<noteq> expectedLen
          then Inl (VerificationError INVALID_INPUT
                 (label @ '' must decode to '' @ dec_nat expectedLen @ '' bytes, got ''
                  @ dec_nat (length bs)))
          else Inr bs)"

definition decodeHexChecked :: "string \<Rightarrow> string \<Rightarrow> nat \<Rightarrow> verr + bytes" where
  "decodeHexChecked s label expectedLen =
     (if length s \<noteq> expectedLen * 2 \<or> \<not> list_all (\<lambda>c. hex_value c \<noteq> None) s
      then Inl (VerificationError INVALID_INPUT
             (label @ '' must be '' @ dec_nat (expectedLen * 2) @ '' lowercase hex chars''))
      else Inr (map (\<lambda>i. case parse_int16 (hex_slice s i) of Some v \<Rightarrow> of_int v | None \<Rightarrow> 0)
                 [0..<expectedLen]))"

definition plain_error :: "string + 'a \<Rightarrow> verr + 'a" where
  "plain_error r = (case r of Inl m \<Rightarrow> Inl (PlainError m) | Inr x \<Rightarrow> Inr x)"

definition buildCanonicalFromLedger ::
  "'k verify_prims \<Rightarrow> recipient_view \<Rightarrow> asset_view \<Rightarrow> string \<Rightarrow> bytes \<Rightarrow> string \<Rightarrow> verr + bytes" where
  "buildCanonicalFromLedger P recipient asset claimant nonce network =
     (if length nonce \<noteq> 32
      then Inl (VerificationError INVALID_INPUT (''nonce must be 32 bytes, got '' @ dec_nat (length nonce)))
      else if length (rv_recipientPubkey recipient) = 0
      then Inl (VerificationError INVALID_INPUT ''recipient pubkey must be non-empty'')
      else and_then (decodeBase58Checked (vq_b58dec P) claimant ''claimant'' 32) (\<lambda>claimantBytes.
        case av_assetType asset of
          AssetAnt \<Rightarrow>
            (if av_antMint asset = None \<or> av_antMint asset = Some []
             then Inl (VerificationError INVALID_INPUT ''ant asset missing antMint'')
             else and_then (decodeBase58Checked (vq_b58dec P) (the (av_antMint asset)) ''antMint'' 32)
               (\<lambda>antMint. plain_error (buildAntEscrowClaimMessage (vq_sha P) (vq_b58enc P)
                  \<lparr>am_antMint = antMint, am_claimant = claimantBytes, am_nonce = nonce,
                   am_network = network, am_recipientPubkey = rv_recipientPubkey recipient\<rparr>)))
        | ty \<Rightarrow>
            and_then (decodeHexChecked (av_assetKey asset) ''assetKey'' 32) (\<lambda>assetId.
              case av_amount asset of
                None \<Rightarrow> Inl (VerificationError INVALID_INPUT (asset_type_str ty @ '' asset missing amount''))
              | Some amount \<Rightarrow>
                  if amount < 0 \<or> amount > U64_MAX
                  then Inl (VerificationError INVALID_INPUT (''amount out of u64 range: '' @ dec_int amount))
                  else plain_error (buildEscrowClaimMessage (vq_sha P) (vq_b58enc P)
                     \<lparr>em_assetType = (if ty = AssetToken then EscrowToken else EscrowVault),
                      em_assetId = assetId, em_amount = amount, em_claimant = claimantBytes,
                      em_nonce = nonce, em_network = network,
                      em_recipientPubkey = rv_recipientPubkey recipient\<rparr>))))"

section \<open>Byte comparisons\<close>

text \<open>\<open>arr[i]\<close> outside the array is \<open>undefined\<close>, which the bitwise operators read as 0.\<close>

definition byte_at :: "bytes \<Rightarrow> nat \<Rightarrow> byte" where
  "byte_at a i = (if i < length a then a ! i else 0)"

definition xor_diff :: "bytes \<Rightarrow> bytes \<Rightarrow> nat \<Rightarrow> byte" where
  "xor_diff a b n = foldl (\<lambda>diff i. diff OR (byte_at a i XOR byte_at b i)) 0 [0..<n]"

definition bytesEqual :: "bytes \<Rightarrow> bytes \<Rightarrow> bool" where
  "bytesEqual a b = (if length a \<noteq> length b then False else xor_diff a b (length a) = 0)"

definition addressesEqual :: "bytes \<Rightarrow> bytes \<Rightarrow> bool" where
  "addressesEqual a b = (xor_diff a b ETHEREUM_PUBKEY_LEN = 0)"

section \<open>Arweave\<close>

definition ALLOWED_SALT_LENGTHS :: "int list" where
  "ALLOWED_SALT_LENGTHS = [0, 32]"

definition rsa_to_verr :: "rsa_exn \<Rightarrow> verr" where
  "rsa_to_verr e = (case e of
     RsaPssError code msg \<Rightarrow>
       if code = ''INVALID_SALT_LENGTH'' then VerificationError UNSUPPORTED_SALT_LENGTH msg
       else VerificationError SIGNATURE_VERIFICATION_FAILED msg
   | OtherError msg \<Rightarrow> PlainError msg)"

definition verifyArweaveProof ::
  "'k verify_prims \<Rightarrow> recipient_view \<Rightarrow> asset_view \<Rightarrow> claim_proof \<Rightarrow> string \<Rightarrow> verr + verified_proof" where
  "verifyArweaveProof P recipient asset proof network =
     (if rv_protocol recipient \<noteq> PROTOCOL_ARWEAVE
      then Inl (VerificationError PROTOCOL_MISMATCH
             (''recipient protocol '' @ dec_int (rv_protocol recipient) @ '' != arweave (0)''))
      else let modulus = rv_recipientPubkey recipient in
      if length modulus \<noteq> RSA_4096_BYTES
      then Inl (VerificationError SIGNATURE_VERIFICATION_FAILED
             (''arweave recipient modulus must be '' @ dec_nat RSA_4096_BYTES @ '' bytes, got ''
              @ dec_nat (length modulus)))
      else let derivedId = deriveRecipientIdB64Url (vq_sha P) modulus in
      if derivedId \<noteq> rv_recipientId recipient \<or> derivedId \<noteq> rv_sourceAddress recipient
      then Inl (VerificationError RECIPIENT_ID_MISMATCH
             ''b64url(sha256(modulus)) != stored recipient_id / source_address'')
      else if (case cp_providedModulus proof of None \<Rightarrow> False | Some pm \<Rightarrow> \<not> bytesEqual pm modulus)
      then Inl (VerificationError MODULUS_MISMATCH ''client-supplied modulus != stored recipient modulus'')
      else let saltLength = (case cp_saltLength proof of None \<Rightarrow> 32 | Some sl \<Rightarrow> sl) in
      if saltLength \<notin> set ALLOWED_SALT_LENGTHS
      then Inl (VerificationError UNSUPPORTED_SALT_LENGTH
             (''salt length must be 0 or 32, got '' @ dec_int saltLength))
      else if length (cp_signature proof) \<noteq> RSA_4096_BYTES
      then Inl (VerificationError SIGNATURE_VERIFICATION_FAILED
             (''signature must be '' @ dec_nat RSA_4096_BYTES @ '' bytes, got ''
              @ dec_nat (length (cp_signature proof))))
      else if (case cp_nonce proof of None \<Rightarrow> False | Some n \<Rightarrow> \<not> bytesEqual n (av_nonce asset))
      then Inl (VerificationError NONCE_MISMATCH ''supplied nonce != asset current nonce'')
      else and_then (buildCanonicalFromLedger P recipient asset (cp_claimant proof) (av_nonce asset) network)
        (\<lambda>canonicalMessage.
          case verifyRsaPss (vq_rsa P) canonicalMessage (cp_signature proof) modulus saltLength of
            Inl e \<Rightarrow> Inl (rsa_to_verr e)
          | Inr False \<Rightarrow> Inl (VerificationError RSA_SIGNATURE_INVALID
                ''RSA-PSS signature does not verify under the recipient modulus'')
          | Inr True \<Rightarrow> Inr \<lparr>vp_canonicalMessage = canonicalMessage, vp_protocol = PROTOCOL_ARWEAVE,
                             vp_recipientId = rv_recipientId recipient,
                             vp_claimant = cp_claimant proof\<rparr>))"

section \<open>Ethereum\<close>

definition EIP191_PREFIX :: bytes where
  "EIP191_PREFIX = utf8_encode (CHR 0x19 # ''Ethereum Signed Message:'' @ [LF])"

definition SECP256K1_N_HALF :: bytes where
  "SECP256K1_N_HALF =
    [0x7f, 0xff, 0xff, 0xff, 0xff, 0xff, 0xff, 0xff, 0xff, 0xff, 0xff, 0xff, 0xff, 0xff, 0xff, 0xff,
     0x5d, 0x57, 0x6e, 0x73, 0x57, 0xa4, 0x50, 0x1d, 0xdf, 0xe9, 0x2f, 0x46, 0x68, 0x1b, 0x20, 0xa0]"

definition isSLow_step :: "bytes \<Rightarrow> bool \<times> bool \<Rightarrow> nat \<Rightarrow> bool \<times> bool" where
  "isSLow_step s st i = (case st of (decided, answer) \<Rightarrow>
     if \<not> decided then
       (if i < length s \<and> s ! i < SECP256K1_N_HALF ! i then (True, True)
        else if i < length s \<and> s ! i > SECP256K1_N_HALF ! i then (True, False)
        else (decided, answer))
     else (decided, answer))"

definition isSLow :: "bytes \<Rightarrow> bool" where
  "isSLow s = snd (foldl (isSLow_step s) (False, True) [0..<32])"

definition eip191Hash :: "(bytes \<Rightarrow> bytes) \<Rightarrow> bytes \<Rightarrow> bytes" where
  "eip191Hash keccak message =
     keccak (EIP191_PREFIX @ utf8_encode (dec_nat (length message)) @ message)"

definition deriveEthereumAddress :: "(bytes \<Rightarrow> bytes) \<Rightarrow> bytes \<Rightarrow> verr + bytes" where
  "deriveEthereumAddress keccak pubkey65 =
     (if length pubkey65 \<noteq> 65 \<or> pubkey65 ! 0 \<noteq> 0x04
      then Inl (VerificationError SIGNATURE_VERIFICATION_FAILED ''recovered pubkey malformed'')
      else Inr (take 20 (drop 12 (keccak (drop 1 pubkey65)))))"

definition recovery_id :: "byte \<Rightarrow> verr + nat" where
  "recovery_id v =
     (if v = 0 \<or> v = 1 then Inr (unat v)
      else if v = 27 \<or> v = 28 then Inr (unat v - 27)
      else Inl (VerificationError INVALID_RECOVERY_ID
             (''recovery id v='' @ dec_nat (unat v) @ '' not in {0,1,27,28}'')))"

definition verifyPersonalSign ::
  "'k verify_prims \<Rightarrow> bytes \<Rightarrow> bytes \<Rightarrow> bytes \<Rightarrow> verr + unit" where
  "verifyPersonalSign P canonicalMessage signature expectedAddress =
     (if length signature \<noteq> ETHEREUM_SIG_LEN
      then Inl (VerificationError SIGNATURE_VERIFICATION_FAILED
             (''signature must be '' @ dec_nat ETHEREUM_SIG_LEN @ '' bytes, got ''
              @ dec_nat (length signature)))
      else if length expectedAddress \<noteq> ETHEREUM_PUBKEY_LEN
      then Inl (VerificationError SIGNATURE_VERIFICATION_FAILED
             (''expected address must be '' @ dec_nat ETHEREUM_PUBKEY_LEN @ '' bytes, got ''
              @ dec_nat (length expectedAddress)))
      else let msgHash = eip191Hash (vq_keccak P) canonicalMessage in
      and_then (recovery_id (signature ! 64)) (\<lambda>recoveryId.
      if \<not> isSLow (take 32 (drop 32 signature))
      then Inl (VerificationError ECDSA_HIGH_S ''signature s > secp256k1_n/2 (malleable)'')
      else case vq_recover P (take 64 signature) recoveryId msgHash of
             Inl msg \<Rightarrow> Inl (VerificationError SIGNATURE_VERIFICATION_FAILED
                         (''secp256k1 recover failed: '' @ msg))
           | Inr pubkey65 \<Rightarrow>
               and_then (deriveEthereumAddress (vq_keccak P) pubkey65) (\<lambda>derived.
                 if \<not> addressesEqual derived expectedAddress
                 then Inl (VerificationError ETHEREUM_ADDRESS_MISMATCH
                        ''recovered address does not match the stored recipient'')
                 else Inr ())))"

definition verifyEthereumProof ::
  "'k verify_prims \<Rightarrow> recipient_view \<Rightarrow> asset_view \<Rightarrow> claim_proof \<Rightarrow> string \<Rightarrow> verr + verified_proof" where
  "verifyEthereumProof P recipient asset proof network =
     (if rv_protocol recipient \<noteq> PROTOCOL_ETHEREUM
      then Inl (VerificationError PROTOCOL_MISMATCH
             (''recipient protocol '' @ dec_int (rv_protocol recipient) @ '' != ethereum (1)''))
      else let expectedAddress = rv_recipientPubkey recipient in
      if length expectedAddress \<noteq> ETHEREUM_PUBKEY_LEN
      then Inl (VerificationError SIGNATURE_VERIFICATION_FAILED
             (''stored ethereum recipient must be '' @ dec_nat ETHEREUM_PUBKEY_LEN @ '' bytes, got ''
              @ dec_nat (length expectedAddress)))
      else if (case cp_nonce proof of None \<Rightarrow> False | Some n \<Rightarrow> \<not> bytesEqual n (av_nonce asset))
      then Inl (VerificationError NONCE_MISMATCH ''supplied nonce != asset current nonce'')
      else and_then (buildCanonicalFromLedger P recipient asset (cp_claimant proof) (av_nonce asset) network)
        (\<lambda>canonicalMessage.
      and_then (verifyPersonalSign P canonicalMessage (cp_signature proof) expectedAddress) (\<lambda>u.
      Inr \<lparr>vp_canonicalMessage = canonicalMessage, vp_protocol = PROTOCOL_ETHEREUM,
           vp_recipientId = rv_recipientId recipient, vp_claimant = cp_claimant proof\<rparr>)))"

section \<open>Dispatch by protocol\<close>

definition verifyClaim ::
  "'k verify_prims \<Rightarrow> recipient_view \<Rightarrow> asset_view \<Rightarrow> claim_proof \<Rightarrow> string \<Rightarrow> verr + verified_proof" where
  "verifyClaim P recipient asset proof network =
     (if rv_protocol recipient = PROTOCOL_ARWEAVE then verifyArweaveProof P recipient asset proof network
      else if rv_protocol recipient = PROTOCOL_ETHEREUM
      then verifyEthereumProof P recipient asset proof network
      else Inl (VerificationError PROTOCOL_MISMATCH
             (''unknown recipient protocol '' @ dec_int (rv_protocol recipient))))"

section \<open>Lemmas: comparisons\<close>

lemma xor_byte_zero: "x XOR y = 0 \<longleftrightarrow> x = y" for x y :: byte
proof
  assume "x XOR y = 0"
  then have "x XOR (x XOR y) = x" by (simp only: xor.right_neutral)
  moreover have "x XOR (x XOR y) = y"
    by (simp only: xor.assoc [symmetric] xor_self_eq xor.left_neutral)
  ultimately show "x = y" by (rule trans [OF sym])
qed simp

lemma xor_diff_zero: "xor_diff a b n = 0 \<longleftrightarrow> (\<forall>i<n. byte_at a i = byte_at b i)"
proof (induction n)
  case (Suc n)
  have "xor_diff a b (Suc n) = xor_diff a b n OR (byte_at a n XOR byte_at b n)"
    by (simp add: xor_diff_def)
  then have "xor_diff a b (Suc n) = 0 \<longleftrightarrow> xor_diff a b n = 0 \<and> byte_at a n = byte_at b n"
    by (simp only: or_eq_0_iff xor_byte_zero)
  then show ?case using Suc.IH by (auto simp: less_Suc_eq)
qed (simp add: xor_diff_def)

lemma bytesEqual_eq [simp]: "bytesEqual a b \<longleftrightarrow> a = b"
  by (auto simp: bytesEqual_def xor_diff_zero byte_at_def nth_equalityI)

lemma addressesEqual_eq:
  "length a = 20 \<Longrightarrow> length b = 20 \<Longrightarrow> addressesEqual a b \<longleftrightarrow> a = b"
  by (auto simp: addressesEqual_def ETHEREUM_PUBKEY_LEN_def xor_diff_zero byte_at_def nth_equalityI)

text \<open>The big-endian value of a byte string, and the comparison loop as a comparison of values.\<close>

definition be_value :: "bytes \<Rightarrow> nat" where
  "be_value bs = foldl (\<lambda>a b. 256 * a + unat b) 0 bs"

lemma be_value_snoc: "be_value (bs @ [b]) = 256 * be_value bs + unat b"
  by (simp add: be_value_def)

lemma isSLow_prefix:
  assumes "length s = 32" and "n \<le> 32"
  shows "foldl (isSLow_step s) (False, True) [0..<n] =
     (be_value (take n s) \<noteq> be_value (take n SECP256K1_N_HALF),
      be_value (take n s) \<le> be_value (take n SECP256K1_N_HALF))"
  using assms(2)
proof (induction n)
  case (Suc n)
  let ?h = SECP256K1_N_HALF
  have h: "length ?h = 32" by (simp add: SECP256K1_N_HALF_def)
  have t: "take (Suc n) s = take n s @ [s ! n]" "take (Suc n) ?h = take n ?h @ [?h ! n]"
    using Suc.prems assms(1) h by (simp_all add: take_Suc_conv_app_nth)
  have b: "unat (s ! n) < 256" "unat (?h ! n) < 256" by (rule byte_less)+
  have i: "n < length s" "n \<le> 32" using Suc.prems assms(1) by simp_all
  have "foldl (isSLow_step s) (False, True) [0..<Suc n]
      = isSLow_step s (foldl (isSLow_step s) (False, True) [0..<n]) n" by simp
  also have "\<dots> = isSLow_step s (be_value (take n s) \<noteq> be_value (take n ?h),
      be_value (take n s) \<le> be_value (take n ?h)) n" using Suc.IH i by simp
  also have "\<dots> = (be_value (take (Suc n) s) \<noteq> be_value (take (Suc n) ?h),
      be_value (take (Suc n) s) \<le> be_value (take (Suc n) ?h))"
    unfolding t be_value_snoc isSLow_step_def word_less_nat_alt using i b by simp linarith
  finally show ?case .
qed (simp add: be_value_def)

section \<open>Lemmas: the rebuilt message\<close>

lemma decodeBase58Checked_Inr [simp]:
  "decodeBase58Checked dec s label n = Inr bs \<longleftrightarrow> dec s = Inr bs \<and> length bs = n"
  by (auto simp: decodeBase58Checked_def split: sum.splits)

lemma decodeBase58Checked_Inl:
  "decodeBase58Checked dec s label n = Inl e \<Longrightarrow> isVerificationError e"
  by (auto simp: decodeBase58Checked_def split: sum.splits if_splits)

lemma decodeHexChecked_Inr: "decodeHexChecked s label n = Inr bs \<Longrightarrow> length bs = n"
  by (auto simp: decodeHexChecked_def split: if_splits)

lemma decodeHexChecked_Inl: "decodeHexChecked s label n = Inl e \<Longrightarrow> isVerificationError e"
  by (auto simp: decodeHexChecked_def split: if_splits)

lemma plain_error_simps [simp]:
  "plain_error r = Inr x \<longleftrightarrow> r = Inr x"
  "plain_error r = Inl e \<longleftrightarrow> (\<exists>m. r = Inl m \<and> e = PlainError m)"
  by (auto simp: plain_error_def split: sum.splits)

definition is_ant :: "asset_type \<Rightarrow> bool" where "is_ant ty = (ty = AssetAnt)"

definition escrow_ty :: "asset_type \<Rightarrow> escrow_asset_type" where
  "escrow_ty ty = (if ty = AssetToken then EscrowToken else EscrowVault)"

text \<open>What a successful rebuild is: the ANT format for an ANT, the escrow format otherwise.\<close>

lemma build_ledger_ant:
  assumes "av_assetType a = AssetAnt"
  shows "buildCanonicalFromLedger P r a c nonce net = Inr m \<longleftrightarrow>
     (\<exists>mint cb mk. av_antMint a = Some mint \<and> mint \<noteq> [] \<and> vq_b58dec P mint = Inr mk
        \<and> vq_b58dec P c = Inr cb
        \<and> buildAntEscrowClaimMessage (vq_sha P) (vq_b58enc P)
            \<lparr>am_antMint = mk, am_claimant = cb, am_nonce = nonce, am_network = net,
             am_recipientPubkey = rv_recipientPubkey r\<rparr> = Inr m)"
  using assms by (auto simp: buildCanonicalFromLedger_def and_then_Inr build_ant_Inr)

lemma build_ledger_escrow:
  assumes "av_assetType a \<noteq> AssetAnt"
  shows "buildCanonicalFromLedger P r a c nonce net = Inr m \<longleftrightarrow>
     (\<exists>key amt cb. decodeHexChecked (av_assetKey a) ''assetKey'' 32 = Inr key
        \<and> av_amount a = Some amt \<and> vq_b58dec P c = Inr cb
        \<and> buildEscrowClaimMessage (vq_sha P) (vq_b58enc P)
            \<lparr>em_assetType = escrow_ty (av_assetType a), em_assetId = key, em_amount = amt,
             em_claimant = cb, em_nonce = nonce, em_network = net,
             em_recipientPubkey = rv_recipientPubkey r\<rparr> = Inr m)"
  using assms
  by (cases "av_assetType a"; cases "av_amount a")
    (auto simp: buildCanonicalFromLedger_def and_then_Inr build_escrow_Inr escrow_ty_def not_le not_less
      split: if_splits)

lemma build_ledger_error:
  assumes "buildCanonicalFromLedger P r a c nonce net = Inl e"
  shows "isVerificationError e"
proof (cases "av_assetType a = AssetAnt")
  case True
  then show ?thesis using assms
    by (auto simp: buildCanonicalFromLedger_def and_then_Inl buildAntEscrowClaimMessage_def
        dest: decodeBase58Checked_Inl split: if_splits)
next
  case False
  then show ?thesis using assms
    by (cases "av_assetType a"; cases "av_amount a")
      (auto simp: buildCanonicalFromLedger_def and_then_Inl buildEscrowClaimMessage_def
        dest: decodeBase58Checked_Inl decodeHexChecked_Inl decodeHexChecked_Inr split: if_splits)
qed

lemma verifyArweaveProof_Inr:
  assumes "verifyArweaveProof P r a p net = Inr vp"
  shows "rv_protocol r = PROTOCOL_ARWEAVE" "length (rv_recipientPubkey r) = 512"
    "deriveRecipientIdB64Url (vq_sha P) (rv_recipientPubkey r) = rv_recipientId r"
    "rv_sourceAddress r = rv_recipientId r"
    "\<exists>sl \<in> {0, 32}. verifyRsaPss (vq_rsa P) (vp_canonicalMessage vp) (cp_signature p)
        (rv_recipientPubkey r) sl = Inr True"
    "cp_nonce p = None \<or> cp_nonce p = Some (av_nonce a)"
    "buildCanonicalFromLedger P r a (cp_claimant p) (av_nonce a) net = Inr (vp_canonicalMessage vp)"
    "vp_claimant vp = cp_claimant p" "vp_recipientId vp = rv_recipientId r"
proof -
  let ?sl = "case cp_saltLength p of None \<Rightarrow> 32 | Some sl \<Rightarrow> sl"
  obtain m where g: "rv_protocol r = PROTOCOL_ARWEAVE" "length (rv_recipientPubkey r) = 512"
    "deriveRecipientIdB64Url (vq_sha P) (rv_recipientPubkey r) = rv_recipientId r"
    "rv_sourceAddress r = rv_recipientId r" "?sl \<in> set ALLOWED_SALT_LENGTHS"
    "\<not> (case cp_nonce p of None \<Rightarrow> False | Some n \<Rightarrow> \<not> bytesEqual n (av_nonce a))"
    and b: "buildCanonicalFromLedger P r a (cp_claimant p) (av_nonce a) net = Inr m"
    and v: "(case verifyRsaPss (vq_rsa P) m (cp_signature p) (rv_recipientPubkey r) ?sl of
            Inl e \<Rightarrow> Inl (rsa_to_verr e)
          | Inr False \<Rightarrow> Inl (VerificationError RSA_SIGNATURE_INVALID
                ''RSA-PSS signature does not verify under the recipient modulus'')
          | Inr True \<Rightarrow> Inr \<lparr>vp_canonicalMessage = m, vp_protocol = PROTOCOL_ARWEAVE,
                             vp_recipientId = rv_recipientId r,
                             vp_claimant = cp_claimant p\<rparr>) = Inr vp"
    using assms unfolding verifyArweaveProof_def Let_def if_Inl_iff and_then_Inr RSA_4096_BYTES_def
    by metis
  from v have w: "verifyRsaPss (vq_rsa P) m (cp_signature p) (rv_recipientPubkey r) ?sl = Inr True"
    "vp = \<lparr>vp_canonicalMessage = m, vp_protocol = PROTOCOL_ARWEAVE,
           vp_recipientId = rv_recipientId r, vp_claimant = cp_claimant p\<rparr>"
    by (simp_all split: sum.splits bool.splits)
  show "rv_protocol r = PROTOCOL_ARWEAVE" "length (rv_recipientPubkey r) = 512"
    "deriveRecipientIdB64Url (vq_sha P) (rv_recipientPubkey r) = rv_recipientId r"
    "rv_sourceAddress r = rv_recipientId r" by (rule g)+
  show "\<exists>sl \<in> {0, 32}. verifyRsaPss (vq_rsa P) (vp_canonicalMessage vp) (cp_signature p)
        (rv_recipientPubkey r) sl = Inr True"
    using w g(5) by (intro bexI [of _ ?sl]) (simp_all add: ALLOWED_SALT_LENGTHS_def)
  show "cp_nonce p = None \<or> cp_nonce p = Some (av_nonce a)" using g(6) by (cases "cp_nonce p") simp_all
  show "buildCanonicalFromLedger P r a (cp_claimant p) (av_nonce a) net = Inr (vp_canonicalMessage vp)"
    "vp_claimant vp = cp_claimant p" "vp_recipientId vp = rv_recipientId r"
    using b w by simp_all
qed

lemma verifyPersonalSign_Inr:
  assumes "verifyPersonalSign P m sig addr = Inr u" and "\<forall>x. length (vq_keccak P x) = 32"
  shows "length sig = 65 \<and> isSLow (take 32 (drop 32 sig))
     \<and> (\<exists>rid pk. vq_recover P (take 64 sig) rid (eip191Hash (vq_keccak P) m) = Inr pk
          \<and> length pk = 65 \<and> take 20 (drop 12 (vq_keccak P (drop 1 pk))) = addr)"
  using assms
  by (auto simp: verifyPersonalSign_def Let_def and_then_Inr deriveEthereumAddress_def addressesEqual_eq
      ETHEREUM_SIG_LEN_def ETHEREUM_PUBKEY_LEN_def split: if_splits sum.splits)

lemma verifyEthereumProof_Inr:
  assumes "verifyEthereumProof P r a p net = Inr vp"
  shows "rv_protocol r = PROTOCOL_ETHEREUM" "length (rv_recipientPubkey r) = 20"
    "verifyPersonalSign P (vp_canonicalMessage vp) (cp_signature p) (rv_recipientPubkey r) = Inr ()"
    "cp_nonce p = None \<or> cp_nonce p = Some (av_nonce a)"
    "buildCanonicalFromLedger P r a (cp_claimant p) (av_nonce a) net = Inr (vp_canonicalMessage vp)"
    "vp_claimant vp = cp_claimant p" "vp_recipientId vp = rv_recipientId r"
  using assms
  by (auto simp: verifyEthereumProof_def Let_def and_then_Inr ETHEREUM_PUBKEY_LEN_def
      split: if_splits option.splits)

lemma verifyRsaPss_other:
  assumes "verifyRsaPss R m sig modulus sl = Inl (OtherError msg)"
  shows "\<exists>k. pss_verify R k sl m sig = Inl msg"
  using assms
  by (auto simp: verifyRsaPss_def modulusToKeyObject_def modulus_length_error_def and_then_Inl
      split: if_splits sum.splits)

lemma verifyArweaveProof_Inl:
  assumes "verifyArweaveProof P r a p net = Inl e"
  shows "isVerificationError e
     \<or> (\<exists>k sl m msg. pss_verify (vq_rsa P) k sl m (cp_signature p) = Inl msg \<and> e = PlainError msg)"
proof -
  let ?sl = "case cp_saltLength p of None \<Rightarrow> 32 | Some sl \<Rightarrow> sl"
  consider "isVerificationError e" | "buildCanonicalFromLedger P r a (cp_claimant p) (av_nonce a) net = Inl e"
    | m x where "verifyRsaPss (vq_rsa P) m (cp_signature p) (rv_recipientPubkey r) ?sl = Inl x"
      "e = rsa_to_verr x"
    | "e = VerificationError RSA_SIGNATURE_INVALID
                ''RSA-PSS signature does not verify under the recipient modulus''"
    using assms unfolding verifyArweaveProof_def Let_def if_Inl_Inl and_then_Inl
    by (elim disjE conjE exE) (auto split: sum.splits bool.splits)
  then show ?thesis
  proof cases
    case 2
    then show ?thesis using build_ledger_error by blast
  next
    case (3 m x)
    show ?thesis
    proof (cases x)
      case (OtherError msg)
      with 3 verifyRsaPss_other [OF 3(1) [unfolded OtherError]] show ?thesis
        by (simp add: rsa_to_verr_def) blast
    qed (simp add: 3 rsa_to_verr_def)
  qed simp_all
qed

lemma verifyPersonalSign_Inl:
  "verifyPersonalSign P m sig addr = Inl e \<Longrightarrow> isVerificationError e"
  by (auto simp: verifyPersonalSign_def Let_def recovery_id_def deriveEthereumAddress_def
      elim!: and_then_InlE split: sum.splits if_splits)

lemma verifyEthereumProof_Inl:
  assumes "verifyEthereumProof P r a p net = Inl e"
  shows "isVerificationError e"
proof -
  consider "isVerificationError e" | "buildCanonicalFromLedger P r a (cp_claimant p) (av_nonce a) net = Inl e"
    | m where "verifyPersonalSign P m (cp_signature p) (rv_recipientPubkey r) = Inl e"
    using assms unfolding verifyEthereumProof_def Let_def if_Inl_Inl and_then_Inl
    by (elim disjE conjE exE) auto
  then show ?thesis using build_ledger_error verifyPersonalSign_Inl by cases blast+
qed

section \<open>Properties\<close>

text \<open>
  The malleability guard: on the 32 bytes of s, the lexicographic loop of \<open>isSLow\<close> decides
  exactly whether the number they encode is at most half the order of secp256k1.
\<close>
theorem isSLow_numeric:
  assumes "length s = 32"
  shows "isSLow s \<longleftrightarrow>
    be_value s \<le> 115792089237316195423570985008687907852837564279074904382605163141518161494337 div 2"
proof -
  have "isSLow s \<longleftrightarrow> be_value (take 32 s) \<le> be_value (take 32 SECP256K1_N_HALF)"
    using isSLow_prefix [OF assms order_refl] by (simp add: isSLow_def del: upt_Suc)
  moreover have "take 32 SECP256K1_N_HALF = SECP256K1_N_HALF" by (simp add: SECP256K1_N_HALF_def)
  moreover have "be_value SECP256K1_N_HALF
      = 115792089237316195423570985008687907852837564279074904382605163141518161494337 div 2"
    by (simp add: SECP256K1_N_HALF_def be_value_def)
  ultimately show ?thesis using assms by simp
qed

theorem isSLow_numeric_witness:
  "isSLow SECP256K1_N_HALF \<and> \<not> isSLow (butlast SECP256K1_N_HALF @ [0xa1])"
  using isSLow_numeric [of SECP256K1_N_HALF] isSLow_numeric [of "butlast SECP256K1_N_HALF @ [0xa1]"]
  by (simp add: SECP256K1_N_HALF_def be_value_def)

text \<open>
  C14. What an accepted proof means: \<open>verifyClaim\<close> succeeds only if the canonical message rebuilt
  from the ledger row, the row's current nonce and the claimed destination verifies under the
  stored recipient key - RSA-PSS under the stored 512-byte modulus whose hash is the stored
  recipient id, or a low-S secp256k1 signature whose recovered key hashes to the stored 20-byte
  address - and an echoed nonce is the row's nonce. The message returned is the one verified.
\<close>
theorem verifyClaim_authorised:
  assumes "\<forall>x. length (vq_keccak P x) = 32" and "verifyClaim P r a p net = Inr vp"
  shows "buildCanonicalFromLedger P r a (cp_claimant p) (av_nonce a) net = Inr (vp_canonicalMessage vp)
     \<and> vp_claimant vp = cp_claimant p \<and> vp_recipientId vp = rv_recipientId r
     \<and> (cp_nonce p = None \<or> cp_nonce p = Some (av_nonce a))
     \<and> ((rv_protocol r = 0 \<and> length (rv_recipientPubkey r) = 512
          \<and> deriveRecipientIdB64Url (vq_sha P) (rv_recipientPubkey r) = rv_recipientId r
          \<and> (\<exists>sl \<in> {0, 32}. verifyRsaPss (vq_rsa P) (vp_canonicalMessage vp) (cp_signature p)
               (rv_recipientPubkey r) sl = Inr True))
        \<or> (rv_protocol r = 1 \<and> length (cp_signature p) = 65
          \<and> isSLow (take 32 (drop 32 (cp_signature p)))
          \<and> (\<exists>rid pk. vq_recover P (take 64 (cp_signature p)) rid
                 (eip191Hash (vq_keccak P) (vp_canonicalMessage vp)) = Inr pk
              \<and> take 20 (drop 12 (vq_keccak P (drop 1 pk))) = rv_recipientPubkey r)))"
proof (cases "rv_protocol r = PROTOCOL_ARWEAVE")
  case True
  then have v: "verifyArweaveProof P r a p net = Inr vp" using assms(2) by (simp add: verifyClaim_def)
  show ?thesis using verifyArweaveProof_Inr [OF v] True by (simp add: PROTOCOL_ARWEAVE_def)
next
  case False
  then have v: "verifyEthereumProof P r a p net = Inr vp"
    using assms(2) by (simp add: verifyClaim_def split: if_splits)
  note e = verifyEthereumProof_Inr [OF v]
  show ?thesis using e verifyPersonalSign_Inr [OF e(3) assms(1)] by (auto simp: PROTOCOL_ETHEREUM_def)
qed

text \<open>
  C15. No replay across claims: if the ledger rebuild gives the same bytes for two (recipient,
  asset, destination, nonce) tuples, they are the same tuple - same destination, nonce and
  recipient key, same asset type, same mint for ANTs and the same asset id and amount for tokens
  and vaults. Hypotheses: base58 is a codec without line feeds, the network has none, and
  SHA-256 does not collide on the two keys.
\<close>
theorem ledger_message_binds:
  assumes "b58_codec (vq_b58enc P) (vq_b58dec P)" and "LF \<notin> set net"
    and "buildCanonicalFromLedger P r a c n net = Inr m"
    and "buildCanonicalFromLedger P r' a' c' n' net = Inr m"
    and "vq_sha P (rv_recipientPubkey r) = vq_sha P (rv_recipientPubkey r')
           \<longrightarrow> rv_recipientPubkey r = rv_recipientPubkey r'"
  shows "c = c' \<and> n = n' \<and> rv_recipientPubkey r = rv_recipientPubkey r'
     \<and> av_assetType a = av_assetType a'
     \<and> (if av_assetType a = AssetAnt then av_antMint a = av_antMint a'
         else decodeHexChecked (av_assetKey a) ''assetKey'' 32 = decodeHexChecked (av_assetKey a') ''assetKey'' 32
            \<and> av_amount a = av_amount a')"
proof -
  note enc = b58_codecD(1) [OF assms(1)] and dec = b58_codecD(2) [OF assms(1)]
  show ?thesis
  proof (cases "av_assetType a = AssetAnt"; cases "av_assetType a' = AssetAnt")
    assume t: "av_assetType a = AssetAnt" "av_assetType a' = AssetAnt"
    from assms(3) [unfolded build_ledger_ant [OF t(1)]] assms(4) [unfolded build_ledger_ant [OF t(2)]]
    obtain k cb mk k' cb' mk' where *:
      "av_antMint a = Some k" "vq_b58dec P k = Inr mk" "vq_b58dec P c = Inr cb"
      "av_antMint a' = Some k'" "vq_b58dec P k' = Inr mk'" "vq_b58dec P c' = Inr cb'"
      and b: "buildAntEscrowClaimMessage (vq_sha P) (vq_b58enc P)
            \<lparr>am_antMint = mk, am_claimant = cb, am_nonce = n, am_network = net,
             am_recipientPubkey = rv_recipientPubkey r\<rparr> = Inr m"
      "buildAntEscrowClaimMessage (vq_sha P) (vq_b58enc P)
            \<lparr>am_antMint = mk', am_claimant = cb', am_nonce = n', am_network = net,
             am_recipientPubkey = rv_recipientPubkey r'\<rparr> = Inr m" by blast
    have "mk = mk' \<and> cb = cb' \<and> n = n' \<and> rv_recipientPubkey r = rv_recipientPubkey r'"
      using ant_message_inj [OF enc b] assms(2,5) by simp
    moreover have "mk = mk' \<Longrightarrow> k = k'" "cb = cb' \<Longrightarrow> c = c'" using * dec by metis+
    ultimately show ?thesis using t * by simp
  next
    assume t: "av_assetType a = AssetAnt" "av_assetType a' \<noteq> AssetAnt"
    from assms(3) [unfolded build_ledger_ant [OF t(1)]] assms(4) [unfolded build_ledger_escrow [OF t(2)]]
    show ?thesis using formats_differ by blast
  next
    assume t: "av_assetType a \<noteq> AssetAnt" "av_assetType a' = AssetAnt"
    from assms(3) [unfolded build_ledger_escrow [OF t(1)]] assms(4) [unfolded build_ledger_ant [OF t(2)]]
    show ?thesis using formats_differ by blast
  next
    assume t: "av_assetType a \<noteq> AssetAnt" "av_assetType a' \<noteq> AssetAnt"
    from assms(3) [unfolded build_ledger_escrow [OF t(1)]] assms(4) [unfolded build_ledger_escrow [OF t(2)]]
    obtain k x cb k' x' cb' where *:
      "decodeHexChecked (av_assetKey a) ''assetKey'' 32 = Inr k" "av_amount a = Some x" "vq_b58dec P c = Inr cb"
      "decodeHexChecked (av_assetKey a') ''assetKey'' 32 = Inr k'" "av_amount a' = Some x'" "vq_b58dec P c' = Inr cb'"
      and b: "buildEscrowClaimMessage (vq_sha P) (vq_b58enc P)
            \<lparr>em_assetType = escrow_ty (av_assetType a), em_assetId = k, em_amount = x,
             em_claimant = cb, em_nonce = n, em_network = net,
             em_recipientPubkey = rv_recipientPubkey r\<rparr> = Inr m"
      "buildEscrowClaimMessage (vq_sha P) (vq_b58enc P)
            \<lparr>em_assetType = escrow_ty (av_assetType a'), em_assetId = k', em_amount = x',
             em_claimant = cb', em_nonce = n', em_network = net,
             em_recipientPubkey = rv_recipientPubkey r'\<rparr> = Inr m" by blast
    have "escrow_ty (av_assetType a) = escrow_ty (av_assetType a') \<Longrightarrow> av_assetType a = av_assetType a'"
      using t by (cases "av_assetType a"; cases "av_assetType a'") (simp_all add: escrow_ty_def)
    moreover have "escrow_ty (av_assetType a) = escrow_ty (av_assetType a') \<and> k = k' \<and> x = x'
        \<and> cb = cb' \<and> n = n' \<and> rv_recipientPubkey r = rv_recipientPubkey r'"
      using escrow_message_inj [OF enc b] assms(2,5) by simp
    moreover have "cb = cb' \<Longrightarrow> c = c'" using * dec by metis
    ultimately show ?thesis using t * by simp
  qed
qed

text \<open>
  A rejection is deterministic: \<open>verifyClaim\<close> throws an error that is not a
  \<open>VerificationError\<close> only if OpenSSL's verification itself threw, so no malformed proof or ledger
  row is reported as an infrastructure fault.
\<close>
theorem verifyClaim_errors:
  assumes "verifyClaim P r a p net = Inl e"
  shows "isVerificationError e
     \<or> (\<exists>k sl m msg. pss_verify (vq_rsa P) k sl m (cp_signature p) = Inl msg \<and> e = PlainError msg)"
proof -
  consider "verifyArweaveProof P r a p net = Inl e" | "verifyEthereumProof P r a p net = Inl e"
    | "isVerificationError e"
    using assms by (auto simp: verifyClaim_def split: if_splits)
  then show ?thesis
  proof cases
    case 1
    then show ?thesis by (rule verifyArweaveProof_Inl)
  next
    case 2
    then show ?thesis using verifyEthereumProof_Inl by blast
  qed blast
qed

section \<open>Concrete inputs\<close>

text \<open>
  A codec in the place of base58, primitives that accept one signature, and a ledger row, at
  which the hypotheses of the properties hold.
\<close>

definition demo_b58dec :: "string \<Rightarrow> string + bytes" where
  "demo_b58dec s =
     (let bs = map (\<lambda>i. case parse_int16 (hex_slice s i) of Some v \<Rightarrow> of_int v | None \<Rightarrow> 0) [0..<length s div 2]
      in if hex_encode bs = s then Inr bs else Inl ''Non-base58 character'')"

definition demo_vprims :: "string verify_prims" where
  "demo_vprims = \<lparr>vq_sha = (\<lambda>x. replicate 32 0), vq_keccak = (\<lambda>x. replicate 32 0),
     vq_b58enc = hex_encode, vq_b58dec = demo_b58dec,
     vq_rsa = \<lparr>jwk_import = (\<lambda>n e. Inr n), pss_verify = (\<lambda>k salt m sg. Inr (sg = replicate 512 2))\<rparr>,
     vq_recover = (\<lambda>s rid h. Inl ''bad signature'')\<rparr>"

definition demo_recipient :: recipient_view where
  "demo_recipient = \<lparr>rv_protocol = 0, rv_recipientPubkey = replicate 512 4,
     rv_recipientId = b64url_encode (replicate 32 0), rv_sourceAddress = b64url_encode (replicate 32 0)\<rparr>"

definition demo_asset :: asset_view where
  "demo_asset = \<lparr>av_assetType = AssetAnt, av_assetKey = hex_encode (replicate 32 5),
     av_antMint = Some (hex_encode (replicate 32 5)), av_amount = None,
     av_nonce = replicate 32 3, av_vaultEndTs = None\<rparr>"

definition demo_proof :: claim_proof where
  "demo_proof = \<lparr>cp_claimant = hex_encode (replicate 32 1), cp_signature = replicate 512 2,
     cp_saltLength = None, cp_providedModulus = None, cp_nonce = Some (replicate 32 3)\<rparr>"

lemma demo_b58dec_enc [simp]: "demo_b58dec (hex_encode bs) = Inr bs"
proof -
  have "map (\<lambda>i. case parse_int16 (hex_slice (hex_encode bs) i) of
      Some v \<Rightarrow> of_int v | None \<Rightarrow> 0) [0..<length bs] = bs"
    by (rule nth_equalityI) (simp_all add: hex_slice_encode parse_int16_hex_byte)
  then show ?thesis by (simp add: demo_b58dec_def length_hex_encode)
qed

lemma demo_codec: "b58_codec hex_encode demo_b58dec"
  by (auto simp: b58_codec_def b58_encoder_hex demo_b58dec_def Let_def split: if_splits)

lemma demo_build:
  "\<exists>m. buildCanonicalFromLedger demo_vprims demo_recipient demo_asset
     (hex_encode (replicate 32 1)) (replicate 32 3) ''localnet'' = Inr m"
  by (simp add: build_ledger_ant demo_asset_def demo_vprims_def demo_recipient_def
      build_ant_Inr) (simp flip: length_0_conv add: length_hex_encode)

lemma demo_verify:
  "\<exists>vp. verifyClaim demo_vprims demo_recipient demo_asset demo_proof ''localnet'' = Inr vp"
proof -
  obtain m where m: "buildCanonicalFromLedger demo_vprims demo_recipient demo_asset
     (hex_encode (replicate 32 1)) (replicate 32 3) ''localnet'' = Inr m" using demo_build by blast
  have "verifyRsaPss (vq_rsa demo_vprims) m (replicate 512 2) (replicate 512 4) 32 = Inr True"
    by (simp add: verifyRsaPss_def modulusToKeyObject_def RSA_4096_BYTES_def demo_vprims_def)
  with m show ?thesis
    by (simp add: verifyClaim_def verifyArweaveProof_def demo_recipient_def demo_proof_def
        demo_asset_def PROTOCOL_ARWEAVE_def RSA_4096_BYTES_def ALLOWED_SALT_LENGTHS_def
        deriveRecipientIdB64Url_def bytesToBase64UrlNoPad_def demo_vprims_def)
qed

theorem verifyClaim_authorised_witness:
  "\<exists>vp. verifyClaim demo_vprims demo_recipient demo_asset demo_proof ''localnet'' = Inr vp
     \<and> vp_claimant vp = hex_encode (replicate 32 1)"
proof -
  obtain vp where v: "verifyClaim demo_vprims demo_recipient demo_asset demo_proof ''localnet'' = Inr vp"
    using demo_verify by blast
  have "\<forall>x. length (vq_keccak demo_vprims x) = 32" by (simp add: demo_vprims_def)
  from verifyClaim_authorised [OF this v] v show ?thesis by (auto simp: demo_proof_def)
qed

theorem ledger_message_binds_witness:
  "\<exists>m. buildCanonicalFromLedger demo_vprims demo_recipient demo_asset
     (hex_encode (replicate 32 1)) (replicate 32 3) ''localnet'' = Inr m
   \<and> (\<forall>c. buildCanonicalFromLedger demo_vprims demo_recipient demo_asset c (replicate 32 3) ''localnet'' = Inr m
        \<longrightarrow> c = hex_encode (replicate 32 1))"
proof -
  obtain m where m: "buildCanonicalFromLedger demo_vprims demo_recipient demo_asset
     (hex_encode (replicate 32 1)) (replicate 32 3) ''localnet'' = Inr m" using demo_build by blast
  have "b58_codec (vq_b58enc demo_vprims) (vq_b58dec demo_vprims)"
    using demo_codec by (simp add: demo_vprims_def)
  then have "c = hex_encode (replicate 32 1)"
    if "buildCanonicalFromLedger demo_vprims demo_recipient demo_asset c (replicate 32 3) ''localnet'' = Inr m"
    for c
    using ledger_message_binds [OF _ _ that m] by simp
  with m show ?thesis by blast
qed

theorem verifyClaim_errors_witness:
  "\<exists>e. verifyClaim demo_vprims demo_recipient demo_asset
      (demo_proof\<lparr>cp_nonce := Some []\<rparr>) ''localnet'' = Inl e \<and> isVerificationError e"
proof -
  obtain e where e: "verifyClaim demo_vprims demo_recipient demo_asset
      (demo_proof\<lparr>cp_nonce := Some []\<rparr>) ''localnet'' = Inl e"
    by (simp add: verifyClaim_def verifyArweaveProof_def demo_recipient_def demo_proof_def
        demo_asset_def PROTOCOL_ARWEAVE_def RSA_4096_BYTES_def ALLOWED_SALT_LENGTHS_def
        deriveRecipientIdB64Url_def bytesToBase64UrlNoPad_def demo_vprims_def)
  from verifyClaim_errors [OF e] have "isVerificationError e"
    by (auto simp: demo_vprims_def)
  with e show ?thesis by blast
qed

end
