(* ===== verification/Audit_Chain.thy ===== *)
theory Audit_Chain
  imports Codecs "HOL-Library.List_Lexorder" "HOL-Library.Char_ord"
begin

text \<open>
  The hash-chained audit log: canonical JSON and \<open>appendAudit\<close> (\<open>api/audit.ts\<close>), the verification
  of a chain, its extension of an anchored head and the back-filling of signatures
  (\<open>transparency/audit-chain.ts\<close>), and Ed25519 verification (\<open>transparency/keys.ts\<close>). \<open>sha\<close> is
  SHA-256. The table \<open>audit_log\<close> is the list of its rows in the order of \<open>seq\<close>; the sequence is
  modelled without the gaps that rolled-back transactions leave, which no code here relies on.
\<close>

section \<open>Canonical JSON\<close>

definition json_escape :: "char \<Rightarrow> string" where
  "json_escape c = (let n = of_char c :: nat in
     if n = 34 then [CHR 0x5C, CHR 0x22]
     else if n = 92 then [CHR 0x5C, CHR 0x5C]
     else if n = 8 then [CHR 0x5C, CHR ''b'']
     else if n = 9 then [CHR 0x5C, CHR ''t'']
     else if n = 10 then [CHR 0x5C, CHR ''n'']
     else if n = 12 then [CHR 0x5C, CHR ''f'']
     else if n = 13 then [CHR 0x5C, CHR ''r'']
     else if n < 32 then CHR 0x5C # ''u00'' @ hex_byte (of_nat n)
     else [c])"

definition json_string :: "string \<Rightarrow> string" where
  "json_string s = CHR 0x22 # concat (map json_escape s) @ [CHR 0x22]"

text \<open>Keys in the order of \<open>Array.prototype.sort\<close> on strings, at every depth.\<close>

fun canonicalJson :: "json \<Rightarrow> string" where
  "canonicalJson JNull = ''null''"
| "canonicalJson (JBool b) = (if b then ''true'' else ''false'')"
| "canonicalJson (JInt i) = dec_int i"
| "canonicalJson (JFrac lit) = lit"
| "canonicalJson JInf = ''null''"
| "canonicalJson (JStr s) = json_string s"
| "canonicalJson (JArr xs) = CHR ''['' # js_join CHR '','' (map canonicalJson xs) @ '']''"
| "canonicalJson (JObj kvs) =
     CHR ''{'' # js_join CHR '',''
       (map (\<lambda>(k, v). json_string k @ CHR '':'' # v)
         (sort_key fst (map (\<lambda>(k, v). (k, canonicalJson v)) kvs))) @ ''}''"

section \<open>Appending\<close>

record audit_entry =
  au_event :: string
  au_claimId :: "string option"
  au_assetKey :: "string option"
  au_claimant :: "string option"
  au_recipientId :: "string option"
  au_protocol :: "int option"
  au_status :: "string option"
  au_reason :: "string option"
  au_detail :: "(string \<times> json) list option"

definition audit_event :: "string \<Rightarrow> audit_entry" where
  "audit_event ev = \<lparr>au_event = ev, au_claimId = None, au_assetKey = None, au_claimant = None,
     au_recipientId = None, au_protocol = None, au_status = None, au_reason = None, au_detail = None\<rparr>"

definition opt_field :: "string \<Rightarrow> ('a \<Rightarrow> json) \<Rightarrow> 'a option \<Rightarrow> (string \<times> json) list" where
  "opt_field k f v = (case v of None \<Rightarrow> [] | Some x \<Rightarrow> [(k, f x)])"

text \<open>The object \<open>{ ts, ...entry }\<close>; a field that is \<open>undefined\<close> is absent.\<close>

definition audit_record :: "string \<Rightarrow> audit_entry \<Rightarrow> json" where
  "audit_record ts e = JObj
     ([(''ts'', JStr ts), (''event'', JStr (au_event e))]
      @ opt_field ''claimId'' JStr (au_claimId e)
      @ opt_field ''assetKey'' JStr (au_assetKey e)
      @ opt_field ''claimant'' JStr (au_claimant e)
      @ opt_field ''recipientId'' JStr (au_recipientId e)
      @ opt_field ''protocol'' JInt (au_protocol e)
      @ opt_field ''status'' JStr (au_status e)
      @ opt_field ''reason'' JStr (au_reason e)
      @ opt_field ''detail'' JObj (au_detail e))"

record audit_row =
  ar_seq :: nat
  ar_prevHash :: bytes
  ar_entry :: json
  ar_entryCanonical :: "string option"
  ar_entryHash :: bytes
  ar_signature :: bytes

definition UNSIGNED_PLACEHOLDER :: bytes where
  "UNSIGNED_PLACEHOLDER = replicate 64 0"

definition ZERO32 :: bytes where
  "ZERO32 = replicate 32 0"

definition hashCanonical :: "(bytes \<Rightarrow> bytes) \<Rightarrow> bytes \<Rightarrow> string \<Rightarrow> bytes" where
  "hashCanonical sha prevHash canonical = sha (prevHash @ utf8_encode canonical)"

definition computeEntryHash :: "(bytes \<Rightarrow> bytes) \<Rightarrow> bytes \<Rightarrow> json \<Rightarrow> bytes" where
  "computeEntryHash sha prevHash entry = hashCanonical sha prevHash (canonicalJson entry)"

text \<open>\<open>ts\<close> is the clock's ISO string; the signer is the optional process-wide audit signer.\<close>

definition appendAudit ::
  "(bytes \<Rightarrow> bytes) \<Rightarrow> (bytes \<Rightarrow> bytes) option \<Rightarrow> string \<Rightarrow> audit_entry \<Rightarrow> audit_row list \<Rightarrow> audit_row list" where
  "appendAudit sha signer ts entry log =
     (let prevHash = (if log = [] then ZERO32 else ar_entryHash (last log));
          rec = audit_record ts entry;
          json = canonicalJson rec;
          entryHash = hashCanonical sha prevHash json;
          signature = (case signer of Some sign \<Rightarrow> sign entryHash | None \<Rightarrow> UNSIGNED_PLACEHOLDER)
      in log @ [\<lparr>ar_seq = (if log = [] then 1 else ar_seq (last log) + 1), ar_prevHash = prevHash,
                 ar_entry = rec, ar_entryCanonical = Some json, ar_entryHash = entryHash,
                 ar_signature = signature\<rparr>])"

section \<open>Verification\<close>

text \<open>
  \<open>verifyEd25519\<close> answers false where the library throws; \<open>edv\<close> is \<open>ed25519.verify\<close> with its
  arguments (signature, message, public key).
\<close>

type_synonym ed_verify = "bytes \<Rightarrow> bytes \<Rightarrow> bytes \<Rightarrow> string + bool"

definition verifyEd25519 :: "ed_verify \<Rightarrow> bytes \<Rightarrow> bytes \<Rightarrow> bytes \<Rightarrow> bool" where
  "verifyEd25519 edv message signature publicKey =
     (case edv signature message publicKey of Inl e \<Rightarrow> False | Inr b \<Rightarrow> b)"

definition isPlaceholder :: "bytes \<Rightarrow> bool" where
  "isPlaceholder sig = (length sig = length UNSIGNED_PLACEHOLDER \<and> sig = UNSIGNED_PLACEHOLDER)"

record chain_state =
  cs_prev :: bytes
  cs_head :: "(nat \<times> string) option"
  cs_firstBad :: "nat option"
  cs_signed :: nat
  cs_sigValid :: nat
  cs_issues :: "string list"

definition recomputed_hash :: "(bytes \<Rightarrow> bytes) \<Rightarrow> audit_row \<Rightarrow> bytes" where
  "recomputed_hash sha row =
     (case ar_entryCanonical row of
        Some c \<Rightarrow> hashCanonical sha (ar_prevHash row) c
      | None \<Rightarrow> computeEntryHash sha (ar_prevHash row) (ar_entry row))"

definition row_sig_bad :: "ed_verify \<Rightarrow> bytes option \<Rightarrow> audit_row \<Rightarrow> bool" where
  "row_sig_bad edv pub row =
     (\<not> isPlaceholder (ar_signature row)
      \<and> (case pub of None \<Rightarrow> False
           | Some k \<Rightarrow> \<not> verifyEd25519 edv (ar_entryHash row) (ar_signature row) k))"

definition chain_step ::
  "(bytes \<Rightarrow> bytes) \<Rightarrow> ed_verify \<Rightarrow> bytes option \<Rightarrow> chain_state \<Rightarrow> audit_row \<Rightarrow> chain_state" where
  "chain_step sha edv pub s row =
     (let bad1 = (ar_prevHash row \<noteq> cs_prev s);
          bad2 = (recomputed_hash sha row \<noteq> ar_entryHash row);
          bad3 = row_sig_bad edv pub row;
          real = \<not> isPlaceholder (ar_signature row);
          valid = (real \<and> pub \<noteq> None \<and> \<not> bad3);
          seq = dec_nat (ar_seq row)
      in \<lparr>cs_prev = ar_entryHash row,
          cs_head = Some (ar_seq row, hex_encode (ar_entryHash row)),
          cs_firstBad = (if (bad1 \<or> bad2 \<or> bad3) \<and> cs_firstBad s = None then Some (ar_seq row)
                         else cs_firstBad s),
          cs_signed = cs_signed s + (if real then 1 else 0),
          cs_sigValid = cs_sigValid s + (if valid then 1 else 0),
          cs_issues = cs_issues s
            @ (if bad1 then [''seq '' @ seq @ '': prev_hash does not chain to the prior entry_hash''] else [])
            @ (if bad2 then [''seq '' @ seq @ '': entry_hash mismatch (entry content altered)''] else [])
            @ (if bad3 then [''seq '' @ seq @ '': audit signature invalid''] else [])\<rparr>)"

record chain_verification =
  cv_ok :: bool
  cv_count :: nat
  cv_signedCount :: nat
  cv_signatureValidCount :: nat
  cv_head :: "(nat \<times> string) option"
  cv_firstBadSeq :: "nat option"
  cv_issues :: "string list"

definition chain_init :: "bytes option \<Rightarrow> chain_state" where
  "chain_init initialPrevHash =
     \<lparr>cs_prev = (case initialPrevHash of None \<Rightarrow> ZERO32 | Some h \<Rightarrow> h), cs_head = None,
      cs_firstBad = None, cs_signed = 0, cs_sigValid = 0, cs_issues = []\<rparr>"

definition verifyAuditChain ::
  "(bytes \<Rightarrow> bytes) \<Rightarrow> ed_verify \<Rightarrow> audit_row list \<Rightarrow> bytes option \<Rightarrow> bytes option \<Rightarrow> chain_verification" where
  "verifyAuditChain sha edv rows auditPubkey initialPrevHash =
     (let s = foldl (chain_step sha edv auditPubkey) (chain_init initialPrevHash) rows
      in \<lparr>cv_ok = (cs_firstBad s = None), cv_count = length rows, cv_signedCount = cs_signed s,
          cv_signatureValidCount = cs_sigValid s, cv_head = cs_head s,
          cv_firstBadSeq = cs_firstBad s, cv_issues = cs_issues s\<rparr>)"

record extends_check =
  ec_ok :: bool
  ec_chainOk :: bool
  ec_anchoredSeqFound :: bool
  ec_hashMatches :: bool

definition checkExtendsAnchor ::
  "(bytes \<Rightarrow> bytes) \<Rightarrow> ed_verify \<Rightarrow> audit_row list \<Rightarrow> nat \<Rightarrow> string \<Rightarrow> bytes option \<Rightarrow> bytes option
     \<Rightarrow> extends_check" where
  "checkExtendsAnchor sha edv rows anchoredSeq anchoredHashHex auditPubkey initialPrevHash =
     (let upTo = filter (\<lambda>r. ar_seq r \<le> anchoredSeq) rows;
          chain = verifyAuditChain sha edv upTo auditPubkey initialPrevHash;
          row = find (\<lambda>r. ar_seq r = anchoredSeq) upTo;
          found = (row \<noteq> None);
          matches = (case row of None \<Rightarrow> False
                     | Some r \<Rightarrow> hex_encode (ar_entryHash r) = to_lower anchoredHashHex)
      in \<lparr>ec_ok = (cv_ok chain \<and> found \<and> matches), ec_chainOk = cv_ok chain,
          ec_anchoredSeqFound = found, ec_hashMatches = matches\<rparr>)"

definition loadAuditRows :: "audit_row list \<Rightarrow> nat \<Rightarrow> nat option \<Rightarrow> audit_row list" where
  "loadAuditRows log sinceSeq limit =
     (let rows = filter (\<lambda>r. ar_seq r > sinceSeq) log
      in case limit of None \<Rightarrow> rows | Some n \<Rightarrow> take n rows)"

definition getAuditHead :: "audit_row list \<Rightarrow> (nat \<times> string) option" where
  "getAuditHead log = (if log = [] then None
     else Some (ar_seq (last log), hex_encode (ar_entryHash (last log))))"

text \<open>The batched update of \<open>signUnsignedAuditRows\<close> writes each placeholder row's signature.\<close>

definition signUnsignedAuditRows :: "(bytes \<Rightarrow> bytes) \<Rightarrow> audit_row list \<Rightarrow> nat \<times> audit_row list" where
  "signUnsignedAuditRows sign log =
     (length (filter (\<lambda>r. ar_signature r = UNSIGNED_PLACEHOLDER) log),
      map (\<lambda>r. if ar_signature r = UNSIGNED_PLACEHOLDER
               then r\<lparr>ar_signature := sign (ar_entryHash r)\<rparr> else r) log)"

section \<open>Lemmas\<close>

definition row_canonical :: "audit_row \<Rightarrow> string" where
  "row_canonical r = (case ar_entryCanonical r of Some c \<Rightarrow> c | None \<Rightarrow> canonicalJson (ar_entry r))"

lemma recomputed_hash_eq: "recomputed_hash sha r = sha (ar_prevHash r @ utf8_encode (row_canonical r))"
  by (simp add: recomputed_hash_def row_canonical_def computeEntryHash_def hashCanonical_def split: option.split)

text \<open>A valid chain read forwards, and the hash it ends in.\<close>

fun chain_valid ::
  "(bytes \<Rightarrow> bytes) \<Rightarrow> ed_verify \<Rightarrow> bytes option \<Rightarrow> bytes \<Rightarrow> audit_row list \<Rightarrow> bool" where
  "chain_valid sha edv pub prev [] = True"
| "chain_valid sha edv pub prev (r # rs) =
     (ar_prevHash r = prev \<and> recomputed_hash sha r = ar_entryHash r \<and> \<not> row_sig_bad edv pub r
      \<and> chain_valid sha edv pub (ar_entryHash r) rs)"

definition chain_head :: "bytes \<Rightarrow> audit_row list \<Rightarrow> bytes" where
  "chain_head prev rows = (if rows = [] then prev else ar_entryHash (last rows))"

lemma chain_head_simps [simp]:
  "chain_head prev [] = prev" "chain_head prev (r # rs) = chain_head (ar_entryHash r) rs"
  "chain_head prev (rs @ [r]) = ar_entryHash r"
  by (simp_all add: chain_head_def)

lemma chain_valid_append:
  "chain_valid sha edv pub prev (rs @ ss) \<longleftrightarrow>
     chain_valid sha edv pub prev rs \<and> chain_valid sha edv pub (chain_head prev rs) ss"
  by (induction rs arbitrary: prev) auto

lemma chain_valid_snoc:
  "chain_valid sha edv pub prev (rs @ [r]) \<longleftrightarrow>
     chain_valid sha edv pub prev rs \<and> ar_prevHash r = chain_head prev rs
     \<and> ar_entryHash r = sha (ar_prevHash r @ utf8_encode (row_canonical r)) \<and> \<not> row_sig_bad edv pub r"
  by (auto simp: chain_valid_append recomputed_hash_eq)

lemma foldl_chain_step_ok:
  "cs_firstBad (foldl (chain_step sha edv pub) s rows) = None \<longleftrightarrow>
     cs_firstBad s = None \<and> chain_valid sha edv pub (cs_prev s) rows"
proof (induction rows arbitrary: s)
  case (Cons r rows)
  show ?case by (simp add: Cons.IH) (auto simp: chain_step_def Let_def)
qed simp

lemma verifyAuditChain_ok:
  "cv_ok (verifyAuditChain sha edv rows pub init) \<longleftrightarrow>
     chain_valid sha edv pub (case init of None \<Rightarrow> ZERO32 | Some h \<Rightarrow> h) rows"
  by (simp add: verifyAuditChain_def Let_def foldl_chain_step_ok chain_init_def)

lemma verifyAuditChain_count [simp]: "cv_count (verifyAuditChain sha edv rows pub init) = length rows"
  by (simp add: verifyAuditChain_def Let_def)

lemma foldl_chain_step_head:
  "cs_head (foldl (chain_step sha edv pub) s rows) =
     (if rows = [] then cs_head s else Some (ar_seq (last rows), hex_encode (ar_entryHash (last rows))))"
  by (induction rows arbitrary: s) (auto simp: chain_step_def Let_def)

lemma foldl_chain_step_signed:
  assumes "list_all (\<lambda>r. \<not> isPlaceholder (ar_signature r)) rows"
    and "list_all (\<lambda>r. \<not> row_sig_bad edv (Some k) r) rows"
  shows "cs_signed (foldl (chain_step sha edv (Some k)) s rows) = cs_signed s + length rows"
    and "cs_sigValid (foldl (chain_step sha edv (Some k)) s rows) = cs_sigValid s + length rows"
  using assms by (induction rows arbitrary: s) (auto simp: chain_step_def Let_def)

definition chain_inputs :: "audit_row list \<Rightarrow> bytes set" where
  "chain_inputs rows = (\<lambda>r. ar_prevHash r @ utf8_encode (row_canonical r)) ` set rows"

lemma chain_inputs_append [simp]: "chain_inputs (rs @ [r]) =
    insert (ar_prevHash r @ utf8_encode (row_canonical r)) (chain_inputs rs)"
  by (simp add: chain_inputs_def)

lemma chain_head_length:
  assumes "chain_valid sha edv pub prev rows" and "\<forall>x. length (sha x) = 32" and "length prev = 32"
  shows "length (chain_head prev rows) = 32"
  using assms
proof (induction rows rule: rev_induct)
  case (snoc r rows)
  then show ?case by (simp add: chain_valid_append recomputed_hash_eq) metis
qed simp

text \<open>
  Two valid chains that end in the same hash are the same chain, if the hash does not collide on
  what the two chains hash and hashes none of it to the genesis value.
\<close>

lemma chains_same_head:
  assumes "chain_valid sha edv pub ZERO32 rs" and "chain_valid sha edv pub' ZERO32 ss"
    and "\<forall>x. length (sha x) = 32" and "inj_on sha (chain_inputs rs \<union> chain_inputs ss)"
    and "ZERO32 \<notin> sha ` (chain_inputs rs \<union> chain_inputs ss)"
    and "chain_head ZERO32 rs = chain_head ZERO32 ss"
  shows "map row_canonical rs = map row_canonical ss \<and> map ar_entryHash rs = map ar_entryHash ss"
  using assms
proof (induction rs arbitrary: ss rule: rev_induct)
  case Nil
  show ?case
  proof (cases ss rule: rev_exhaust)
    case (snoc ss' s)
    then have "ar_entryHash s = sha (ar_prevHash s @ utf8_encode (row_canonical s))"
      using Nil.prems(2) by (metis chain_valid_snoc)
    then show ?thesis using Nil.prems(5,6) snoc by auto
  qed simp
next
  case (snoc r rs)
  have r: "chain_valid sha edv pub ZERO32 rs" "ar_prevHash r = chain_head ZERO32 rs"
    "ar_entryHash r = sha (ar_prevHash r @ utf8_encode (row_canonical r))"
    using snoc.prems(1) by (simp_all add: chain_valid_snoc)
  show ?case
  proof (cases ss rule: rev_exhaust)
    case Nil
    then show ?thesis using snoc.prems(5,6) r(3) by auto
  next
    case (snoc ss' s)
    note ss = snoc
    have s: "chain_valid sha edv pub' ZERO32 ss'" "ar_prevHash s = chain_head ZERO32 ss'"
      "ar_entryHash s = sha (ar_prevHash s @ utf8_encode (row_canonical s))"
      using snoc.prems(2) by (simp_all add: ss chain_valid_snoc)
    have h: "ar_entryHash r = ar_entryHash s" using snoc.prems(6) by (simp add: ss)
    then have "ar_prevHash r @ utf8_encode (row_canonical r) = ar_prevHash s @ utf8_encode (row_canonical s)"
      unfolding r(3) s(3) by (rule inj_onD [OF snoc.prems(4)]) (simp_all add: ss)
    moreover have "length (ar_prevHash r) = 32" "length (ar_prevHash s) = 32"
      using chain_head_length [OF r(1) snoc.prems(3)] chain_head_length [OF s(1) snoc.prems(3)]
      by (simp_all add: r(2) s(2) ZERO32_def)
    ultimately have e: "ar_prevHash r = ar_prevHash s" "row_canonical r = row_canonical s"
      by (simp_all add: append_eq_append_conv)
    have "map row_canonical rs = map row_canonical ss' \<and> map ar_entryHash rs = map ar_entryHash ss'"
    proof (rule snoc.IH [OF r(1) s(1) snoc.prems(3)])
      show "inj_on sha (chain_inputs rs \<union> chain_inputs ss')"
        by (rule inj_on_subset [OF snoc.prems(4)]) (auto simp: ss)
      show "ZERO32 \<notin> sha ` (chain_inputs rs \<union> chain_inputs ss')"
        using snoc.prems(5) by (auto simp: ss)
      show "chain_head ZERO32 rs = chain_head ZERO32 ss'" using e r(2) s(2) by simp
    qed
    with e h show ?thesis by (simp add: ss)
  qed
qed

lemma appendAudit_valid:
  assumes "chain_valid sha edv pub ZERO32 rows"
    and "case signer of None \<Rightarrow> True | Some sign \<Rightarrow>
           (\<forall>h. \<forall>k. pub = Some k \<longrightarrow> verifyEd25519 edv h (sign h) k)"
  shows "chain_valid sha edv pub ZERO32 (appendAudit sha signer ts e rows)"
proof -
  define prev where "prev = (if rows = [] then ZERO32 else ar_entryHash (last rows))"
  have p: "chain_head ZERO32 rows = prev" by (simp add: chain_head_def prev_def)
  show ?thesis
    using assms
    by (auto simp: appendAudit_def Let_def prev_def [symmetric] chain_valid_append p recomputed_hash_def
        row_sig_bad_def isPlaceholder_def split: option.splits)
qed

lemma appendAudit_prefix: "\<exists>r. appendAudit sha signer ts e rows = rows @ [r]"
  by (simp add: appendAudit_def Let_def)

lemma sorted_last_seq:
  assumes "sorted_wrt (<) (map ar_seq rows)" and "r \<in> set rows" and "\<forall>x \<in> set rows. ar_seq x \<le> ar_seq r"
  shows "rows \<noteq> [] \<and> last rows = r"
proof (cases rows rule: rev_exhaust)
  case (snoc rs x)
  have "r = x \<or> r \<in> set rs" using assms(2) snoc by auto
  moreover have "\<forall>y \<in> set rs. ar_seq y < ar_seq x" using assms(1) snoc by (auto simp: sorted_wrt_append)
  moreover have "ar_seq x \<le> ar_seq r" using assms(3) snoc by simp
  ultimately show ?thesis using snoc by force
qed (use assms in simp)

section \<open>Properties\<close>

text \<open>
  C24. Appending keeps the log valid: if the whole log verifies from genesis, it still does after
  \<open>appendAudit\<close>, with one more row and the earlier rows untouched, whether rows are signed on
  write (by a signer whose signatures verify) or left with the placeholder.
\<close>
theorem append_keeps_chain:
  assumes "cv_ok (verifyAuditChain sha edv rows pub None)"
    and "case signer of None \<Rightarrow> True | Some sign \<Rightarrow>
           (\<forall>h. \<forall>k. pub = Some k \<longrightarrow> verifyEd25519 edv h (sign h) k)"
  shows "cv_ok (verifyAuditChain sha edv (appendAudit sha signer ts e rows) pub None)
     \<and> cv_count (verifyAuditChain sha edv (appendAudit sha signer ts e rows) pub None)
         = cv_count (verifyAuditChain sha edv rows pub None) + 1
     \<and> take (length rows) (appendAudit sha signer ts e rows) = rows"
proof -
  have "chain_valid sha edv pub ZERO32 rows" using assms(1) by (simp add: verifyAuditChain_ok)
  then have "chain_valid sha edv pub ZERO32 (appendAudit sha signer ts e rows)"
    using assms(2) by (rule appendAudit_valid)
  moreover obtain r where "appendAudit sha signer ts e rows = rows @ [r]"
    using appendAudit_prefix by blast
  ultimately show ?thesis by (simp add: verifyAuditChain_ok)
qed

text \<open>
  C25. The log is tamper-evident: if two logs both verify from genesis and end in the same entry
  hash, they have the same entries, byte for byte, in the same order. The hypotheses on SHA-256
  are that it has 32-byte outputs, does not collide on the entries of the two logs and hashes
  none of them to the 32 zero bytes of genesis.
\<close>
theorem audit_log_tamper_evident:
  assumes "cv_ok (verifyAuditChain sha edv rs pub None)"
    and "cv_ok (verifyAuditChain sha edv ss pub' None)"
    and "\<forall>x. length (sha x) = 32" and "inj_on sha (chain_inputs rs \<union> chain_inputs ss)"
    and "ZERO32 \<notin> sha ` (chain_inputs rs \<union> chain_inputs ss)"
    and "chain_head ZERO32 rs = chain_head ZERO32 ss"
  shows "map row_canonical rs = map row_canonical ss"
  using chains_same_head [OF _ _ assms(3-6)] assms(1,2) by (simp add: verifyAuditChain_ok)

text \<open>
  An anchored head pins the past: if an earlier log verified from genesis and its head was
  anchored, every later log that passes \<open>checkExtendsAnchor\<close> against that anchor carries exactly
  the earlier log's entries up to the anchored sequence number.
\<close>
theorem anchor_pins_history:
  assumes "cv_ok (verifyAuditChain sha edv old pub None)"
    and "getAuditHead old = Some (anchoredSeq, anchoredHash)"
    and "ec_ok (checkExtendsAnchor sha edv rows anchoredSeq anchoredHash pub' None)"
    and "sorted_wrt (<) (map ar_seq rows)"
    and "\<forall>x. length (sha x) = 32" and "inj_on sha (chain_inputs rows \<union> chain_inputs old)"
    and "ZERO32 \<notin> sha ` (chain_inputs rows \<union> chain_inputs old)"
  shows "map row_canonical (filter (\<lambda>r. ar_seq r \<le> anchoredSeq) rows) = map row_canonical old"
proof -
  let ?up = "filter (\<lambda>r. ar_seq r \<le> anchoredSeq) rows"
  have v: "chain_valid sha edv pub' ZERO32 ?up"
    using assms(3) by (simp add: checkExtendsAnchor_def Let_def verifyAuditChain_ok)
  obtain r where r: "find (\<lambda>r. ar_seq r = anchoredSeq) ?up = Some r"
    and h: "hex_encode (ar_entryHash r) = to_lower anchoredHash"
    using assms(3) by (auto simp: checkExtendsAnchor_def Let_def split: option.splits)
  have m: "r \<in> set ?up" "ar_seq r = anchoredSeq" using r by (auto simp: find_Some_iff simp del: set_filter)
  have "sorted_wrt (<) (map ar_seq ?up)"
    using assms(4) by (simp add: sorted_wrt_map sorted_wrt_filter)
  moreover have "\<forall>x \<in> set ?up. ar_seq x \<le> ar_seq r" using m(2) by simp
  ultimately have l: "?up \<noteq> []" "last ?up = r" using sorted_last_seq [OF _ m(1)] by blast+
  have "old \<noteq> [] \<and> anchoredHash = hex_encode (ar_entryHash (last old))"
    using assms(2) by (simp add: getAuditHead_def split: if_splits)
  then have "chain_head ZERO32 ?up = chain_head ZERO32 old"
    using h l by (simp add: chain_head_def)
  moreover have "chain_inputs ?up \<subseteq> chain_inputs rows" by (auto simp: chain_inputs_def)
  then have "inj_on sha (chain_inputs ?up \<union> chain_inputs old)"
    "ZERO32 \<notin> sha ` (chain_inputs ?up \<union> chain_inputs old)"
    using assms(7) by (auto intro: inj_on_subset [OF assms(6)])
  ultimately show ?thesis
    using chains_same_head [OF v _ assms(5)] assms(1) by (simp add: verifyAuditChain_ok)
qed

text \<open>
  C26. Back-filling signs exactly what signing on write would have signed: signing the placeholder
  rows of a log to which an entry was appended unsigned gives the log to which the entry was
  appended with the signer registered, and after it a log whose every signature is that of the
  audit key verifies with all rows counted as signed and valid.
\<close>
theorem backfill_is_sign_on_write:
  assumes "\<forall>h. verifyEd25519 edv h (sign h) k \<and> sign h \<noteq> UNSIGNED_PLACEHOLDER"
    and "cv_ok (verifyAuditChain sha edv rows (Some k) None)"
  shows "snd (signUnsignedAuditRows sign (appendAudit sha None ts e rows))
         = appendAudit sha (Some sign) ts e (snd (signUnsignedAuditRows sign rows))
     \<and> cv_ok (verifyAuditChain sha edv (snd (signUnsignedAuditRows sign rows)) (Some k) None)
     \<and> cv_signatureValidCount (verifyAuditChain sha edv (snd (signUnsignedAuditRows sign rows)) (Some k) None)
         = length rows"
proof -
  let ?f = "\<lambda>r. if ar_signature r = UNSIGNED_PLACEHOLDER then r\<lparr>ar_signature := sign (ar_entryHash r)\<rparr> else r"
  have f: "ar_entryHash (?f r) = ar_entryHash r" "ar_prevHash (?f r) = ar_prevHash r"
    "recomputed_hash sha (?f r) = recomputed_hash sha r" "ar_seq (?f r) = ar_seq r" for r
    by (simp_all add: recomputed_hash_def split: option.split)
  have sb: "\<not> row_sig_bad edv (Some k) (?f r)" if "\<not> row_sig_bad edv (Some k) r" for r
    using that assms(1) by (simp add: row_sig_bad_def)
  have np: "\<not> isPlaceholder (ar_signature (?f r))" for r
    using assms(1) by (auto simp: isPlaceholder_def)
  have v: "chain_valid sha edv (Some k) ZERO32 rows" using assms(2) by (simp add: verifyAuditChain_ok)
  have "chain_valid sha edv (Some k) p (map ?f rs)" if "chain_valid sha edv (Some k) p rs" for p rs
    using that by (induction rs arbitrary: p) (simp_all add: f sb del: if_split)
  then have cv: "chain_valid sha edv (Some k) ZERO32 (map ?f rows)" using v by blast
  have "list_all (\<lambda>r. \<not> row_sig_bad edv (Some k) r) rs" if "chain_valid sha edv (Some k) p rs" for p rs
    using that by (induction rs arbitrary: p) auto
  then have "list_all (\<lambda>r. \<not> row_sig_bad edv (Some k) r) (map ?f rows)" using cv by blast
  moreover have "list_all (\<lambda>r. \<not> isPlaceholder (ar_signature r)) (map ?f rows)"
    unfolding list.pred_map o_def by (rule list.pred_mono_strong [where P = "\<lambda>r. True"])
      (simp_all add: list.pred_True np del: if_split)
  ultimately have n: "cs_sigValid (foldl (chain_step sha edv (Some k)) (chain_init None) (map ?f rows)) = length rows"
    using foldl_chain_step_signed(2) [of "map ?f rows"] by (simp add: chain_init_def del: if_split)
  have "snd (signUnsignedAuditRows sign (appendAudit sha None ts e rows))
         = appendAudit sha (Some sign) ts e (map ?f rows)"
    by (simp add: signUnsignedAuditRows_def appendAudit_def Let_def last_map f)
  moreover have "snd (signUnsignedAuditRows sign rows) = map ?f rows"
    by (simp add: signUnsignedAuditRows_def)
  moreover have "cv_ok (verifyAuditChain sha edv (map ?f rows) (Some k) None)"
    using cv unfolding verifyAuditChain_ok by simp
  moreover have "cv_signatureValidCount (verifyAuditChain sha edv (map ?f rows) (Some k) None) = length rows"
    using n by (simp only: verifyAuditChain_def Let_def chain_verification.select_convs)
  ultimately show ?thesis by simp
qed

section \<open>A concrete log\<close>

definition demo_sha :: "bytes \<Rightarrow> bytes" where
  "demo_sha x = take 32 (1 # rev x @ replicate 31 0)"

definition demo_log :: "audit_row list" where
  "demo_log = appendAudit demo_sha None ''a'' (audit_event ''x'') []"

definition demo_log2 :: "audit_row list" where
  "demo_log2 = appendAudit demo_sha (Some (\<lambda>h. replicate 64 1)) ''b'' (audit_event ''x'') demo_log"

definition demo_edv :: ed_verify where
  "demo_edv sig msg pk = Inr (sig = replicate 64 1)"

lemma ZERO32_Cons: "ZERO32 = 0 # replicate 31 0"
  by (simp add: ZERO32_def flip: replicate_Suc)

lemma demo_json:
  "canonicalJson (audit_record ''a'' (audit_event ''x'')) = ''{\"event\":\"x\",\"ts\":\"a\"}''"
  "canonicalJson (audit_record ''b'' (audit_event ''x'')) = ''{\"event\":\"x\",\"ts\":\"b\"}''"
  by code_simp+

lemma demo_log_valid: "cv_ok (verifyAuditChain demo_sha demo_edv demo_log pub None)"
  unfolding verifyAuditChain_ok demo_log_def
  by (simp add: appendAudit_def Let_def recomputed_hash_def row_sig_bad_def isPlaceholder_def)

lemma demo_log2_valid: "cv_ok (verifyAuditChain demo_sha demo_edv demo_log2 pub None)"
proof -
  have "chain_valid demo_sha demo_edv pub ZERO32 demo_log"
    using demo_log_valid by (simp add: verifyAuditChain_ok)
  then have "chain_valid demo_sha demo_edv pub ZERO32 demo_log2"
    unfolding demo_log2_def by (rule appendAudit_valid) (simp add: verifyEd25519_def demo_edv_def)
  then show ?thesis by (simp add: verifyAuditChain_ok)
qed

lemma demo_sha_length: "\<forall>x. length (demo_sha x) = 32"
  by (auto simp: demo_sha_def min_def)

lemma demo_inputs:
  "chain_inputs demo_log = {ZERO32 @ utf8_encode ''{\"event\":\"x\",\"ts\":\"a\"}''}"
  "chain_inputs demo_log2 = {ZERO32 @ utf8_encode ''{\"event\":\"x\",\"ts\":\"a\"}'',
     demo_sha (ZERO32 @ utf8_encode ''{\"event\":\"x\",\"ts\":\"a\"}'') @ utf8_encode ''{\"event\":\"x\",\"ts\":\"b\"}''}"
  by (auto simp: demo_log_def demo_log2_def appendAudit_def Let_def chain_inputs_def row_canonical_def
      demo_json hashCanonical_def simp del: utf8_encode_simps)

lemma demo_inputs_ok:
  "inj_on demo_sha (chain_inputs demo_log2 \<union> chain_inputs demo_log)"
  "ZERO32 \<notin> demo_sha ` (chain_inputs demo_log2 \<union> chain_inputs demo_log)"
  unfolding demo_inputs
  by (auto simp: inj_on_def demo_sha_def ZERO32_Cons utf8_char_def)

theorem append_keeps_chain_witness:
  "cv_count (verifyAuditChain demo_sha demo_edv
     (appendAudit demo_sha None ''t'' (audit_event ''claim.expired'') demo_log) None None) = 2"
  using append_keeps_chain [OF demo_log_valid, where signer = None and ts = "''t''"
      and e = "audit_event ''claim.expired''"]
  by (simp add: demo_log_def appendAudit_def Let_def)

theorem audit_log_tamper_evident_witness:
  "map row_canonical demo_log2 = map row_canonical (snd (signUnsignedAuditRows (\<lambda>h. replicate 64 1) demo_log2))"
proof (rule audit_log_tamper_evident [OF demo_log2_valid _ demo_sha_length])
  let ?f = "\<lambda>r. if ar_signature r = UNSIGNED_PLACEHOLDER then r\<lparr>ar_signature := replicate 64 1\<rparr> else r"
  let ?s = "snd (signUnsignedAuditRows (\<lambda>h. replicate 64 1) demo_log2)"
  obtain r t where rt: "demo_log2 = [r, t]" by (auto simp: demo_log2_def demo_log_def appendAudit_def Let_def)
  have s: "?s = [?f r, ?f t]" by (simp add: signUnsignedAuditRows_def rt)
  have f: "row_canonical (?f x) = row_canonical x" "ar_prevHash (?f x) = ar_prevHash x"
    "ar_entryHash (?f x) = ar_entryHash x" for x by (simp_all add: row_canonical_def split: option.split)
  have d: "chain_inputs ?s = chain_inputs demo_log2 \<and> chain_head ZERO32 ?s = chain_head ZERO32 demo_log2"
    unfolding s unfolding rt chain_inputs_def by (simp add: f del: if_split)
  have i: "inj_on demo_sha (chain_inputs demo_log2)" "ZERO32 \<notin> demo_sha ` chain_inputs demo_log2"
    using demo_inputs_ok by (auto intro: inj_on_subset)
  show "inj_on demo_sha (chain_inputs demo_log2 \<union> chain_inputs ?s)"
    "ZERO32 \<notin> demo_sha ` (chain_inputs demo_log2 \<union> chain_inputs ?s)"
    "chain_head ZERO32 demo_log2 = chain_head ZERO32 ?s"
    using d i by simp_all
  have "chain_valid demo_sha demo_edv None ZERO32 demo_log2"
    using demo_log2_valid [of None] by (simp add: verifyAuditChain_ok)
  then have "chain_valid demo_sha demo_edv None ZERO32 ?s"
    unfolding s unfolding rt by (simp add: f recomputed_hash_eq row_sig_bad_def del: if_split) metis
  then show "cv_ok (verifyAuditChain demo_sha demo_edv ?s None None)" by (simp add: verifyAuditChain_ok)
qed

theorem anchor_pins_history_witness:
  "map row_canonical (filter (\<lambda>r. ar_seq r \<le> 1) demo_log2) = map row_canonical demo_log"
proof (rule anchor_pins_history [OF demo_log_valid _ _ _ demo_sha_length demo_inputs_ok])
  show "getAuditHead demo_log = Some (1, hex_encode (ar_entryHash (hd demo_log)))"
    by (simp add: getAuditHead_def demo_log_def appendAudit_def Let_def)
  show "sorted_wrt (<) (map ar_seq demo_log2)"
    by (simp add: demo_log2_def demo_log_def appendAudit_def Let_def)
  have "filter (\<lambda>r. ar_seq r \<le> 1) demo_log2 = demo_log"
    by (simp add: demo_log2_def demo_log_def appendAudit_def Let_def)
  then show "ec_ok (checkExtendsAnchor demo_sha demo_edv demo_log2 1 (hex_encode (ar_entryHash (hd demo_log))) None None)"
    using demo_log_valid
    by (simp add: checkExtendsAnchor_def Let_def) (simp add: demo_log_def appendAudit_def Let_def)
qed

theorem backfill_is_sign_on_write_witness:
  "cv_signatureValidCount (verifyAuditChain demo_sha demo_edv
      (snd (signUnsignedAuditRows (\<lambda>h. replicate 64 1) demo_log2)) (Some []) None) = 2"
proof -
  have "\<forall>h. verifyEd25519 demo_edv h (replicate 64 1) [] \<and> replicate 64 (1 :: byte) \<noteq> UNSIGNED_PLACEHOLDER"
    by (simp add: verifyEd25519_def demo_edv_def UNSIGNED_PLACEHOLDER_def)
  moreover have "length demo_log2 = 2" by (simp add: demo_log2_def demo_log_def appendAudit_def Let_def)
  ultimately show ?thesis
    using backfill_is_sign_on_write [where sign = "\<lambda>h. replicate 64 1" and k = "[]" and edv = demo_edv,
        OF _ demo_log2_valid] by simp
qed

end
