(* ===== verification/Claims_Db.thy ===== *)
theory Claims_Db
  imports Verify Audit_Chain
begin

text \<open>
  The tables of the claims service, as the migrations declare them (\<open>packages/claims/migrations\<close>)
  and the code reads them (the row types of \<open>api/service.ts\<close> and \<open>dispatch/dispatch-core.ts\<close>):
  recipients, assets, claims and the audit log. A table is the list of its rows; \<open>row_find\<close> is a
  \<open>SELECT ... WHERE key = $1\<close> and \<open>row_update\<close> an \<open>UPDATE ... WHERE key = $1\<close>. A transaction is
  a function from the database to a result and the database it commits, or the old one if it
  rolls back. A \<open>NULL\<close> is \<open>None\<close>; times are milliseconds; a \<open>NULL\<close> array is the empty one.
\<close>

section \<open>Rows\<close>

datatype claim_status =
    Claiming | Verified | PendingReview | Dispatching | Confirmed | Rejected | Expired_claim
  | Failed | NeedsOperator | AwaitingManualVaultDelivery

fun claim_status_str :: "claim_status \<Rightarrow> string" where
  "claim_status_str Claiming = ''claiming''"
| "claim_status_str Verified = ''verified''"
| "claim_status_str PendingReview = ''pending_review''"
| "claim_status_str Dispatching = ''dispatching''"
| "claim_status_str Confirmed = ''confirmed''"
| "claim_status_str Rejected = ''rejected''"
| "claim_status_str Expired_claim = ''expired''"
| "claim_status_str Failed = ''failed''"
| "claim_status_str NeedsOperator = ''needs_operator''"
| "claim_status_str AwaitingManualVaultDelivery = ''awaiting_manual_vault_delivery''"

datatype asset_status =
    Available | A_claiming | ManualReview | A_pending_review | A_claimed | Cancelled | Frozen

fun asset_status_str :: "asset_status \<Rightarrow> string" where
  "asset_status_str Available = ''available''"
| "asset_status_str A_claiming = ''claiming''"
| "asset_status_str ManualReview = ''manual_review''"
| "asset_status_str A_pending_review = ''pending_review''"
| "asset_status_str A_claimed = ''claimed''"
| "asset_status_str Cancelled = ''cancelled''"
| "asset_status_str Frozen = ''frozen''"

record asset_row =
  as_asset_key :: string
  as_asset_type :: asset_type
  as_ant_mint :: "string option"
  as_ant_name :: "string option"
  as_amount :: "int option"
  as_vault_end_ts :: "int option"
  as_nonce :: bytes
  as_status :: asset_status
  as_recipient_id :: string

record recipient_row =
  rc_recipient_id :: string
  rc_protocol :: int
  rc_source_address :: string
  rc_recipient_pubkey :: "bytes option"
  rc_status :: string

record claim_row =
  cl_claim_id :: string
  cl_asset_key :: string
  cl_claimant :: string
  cl_canonical_message :: bytes
  cl_challenge_nonce :: "bytes option"
  cl_challenge_expires_at :: "int option"
  cl_recipient_id :: "string option"
  cl_protocol :: "int option"
  cl_user_signature :: "bytes option"
  cl_salt_length :: "int option"
  cl_settlement :: "string option"
  cl_status :: claim_status
  cl_tx_signatures :: "string list"
  cl_idempotency_key :: "string option"
  cl_error :: "string option"
  cl_created_at :: int
  cl_verified_at :: "int option"
  cl_confirmed_at :: "int option"
  cl_approved_at :: "int option"
  cl_approved_by :: "string option"
  cl_dispatch_signature :: "string option"
  cl_dispatch_blockhash :: "string option"
  cl_dispatch_last_valid_bh :: "int option"
  cl_settlement_amount :: "int option"
  cl_dispatch_resign_count :: nat
  cl_ant_batch_id :: "string option"
  cl_ant_reserved_at :: "int option"
  cl_ant_reserved_txid :: "string option"
  cl_ant_reserved_blockhash :: "string option"
  cl_ant_reserved_last_valid_bh :: "int option"
  cl_ant_reserved_wire :: "string option"

text \<open>The header of a signing session (\<open>ant_batches\<close>).\<close>

datatype batch_status = B_open | B_submitted | B_expired | B_completed

record ant_batch =
  ab_batch_id :: string
  ab_created_at :: int
  ab_created_by_pubkey :: string
  ab_claim_count :: nat
  ab_status :: batch_status
  ab_submitted_at :: "int option"

record db =
  db_recipients :: "recipient_row list"
  db_assets :: "asset_row list"
  db_claims :: "claim_row list"
  db_audit :: "audit_row list"
  db_ant_batches :: "ant_batch list"

section \<open>Tables\<close>

definition row_find :: "('r \<Rightarrow> 'k) \<Rightarrow> 'k \<Rightarrow> 'r list \<Rightarrow> 'r option" where
  "row_find key k rows = find (\<lambda>r. key r = k) rows"

definition row_update :: "('r \<Rightarrow> 'k) \<Rightarrow> 'k \<Rightarrow> ('r \<Rightarrow> 'r) \<Rightarrow> 'r list \<Rightarrow> 'r list" where
  "row_update key k f rows = map (\<lambda>r. if key r = k then f r else r) rows"

abbreviation find_claim :: "db \<Rightarrow> string \<Rightarrow> claim_row option" where
  "find_claim d cid \<equiv> row_find cl_claim_id cid (db_claims d)"

abbreviation find_asset :: "db \<Rightarrow> string \<Rightarrow> asset_row option" where
  "find_asset d k \<equiv> row_find as_asset_key k (db_assets d)"

abbreviation find_recipient :: "db \<Rightarrow> string \<Rightarrow> recipient_row option" where
  "find_recipient d k \<equiv> row_find rc_recipient_id k (db_recipients d)"

definition update_claim :: "string \<Rightarrow> (claim_row \<Rightarrow> claim_row) \<Rightarrow> db \<Rightarrow> db" where
  "update_claim cid f d = d\<lparr>db_claims := row_update cl_claim_id cid f (db_claims d)\<rparr>"

definition update_asset :: "string \<Rightarrow> (asset_row \<Rightarrow> asset_row) \<Rightarrow> db \<Rightarrow> db" where
  "update_asset k f d = d\<lparr>db_assets := row_update as_asset_key k f (db_assets d)\<rparr>"

text \<open>
  The interface a table offers to the operations: a key, and updates that keep it. It is
  interpreted below on the claims and the assets table, with the updates that set a status.
\<close>

locale keyed_rows =
  fixes key :: "'r \<Rightarrow> 'k" and status :: "'r \<Rightarrow> 's" and set_status :: "'s \<Rightarrow> 'r \<Rightarrow> 'r"
  assumes key_set: "key (set_status s r) = key r"
    and status_set: "status (set_status s r) = s"
begin

definition status_of :: "'r list \<Rightarrow> 'k \<Rightarrow> 's option" where
  "status_of rows k = map_option status (row_find key k rows)"

lemma status_of_set:
  "status_of (row_update key k (set_status s) rows) k' =
     (if k' = k then map_option (\<lambda>_. s) (status_of rows k) else status_of rows k')"
  unfolding status_of_def row_find_def row_update_def
  by (induction rows) (auto simp: key_set status_set)

lemma keys_set: "map key (row_update key k (set_status s) rows) = map key rows"
  by (induction rows) (simp_all add: row_update_def key_set)

lemma statuses_set:
  "distinct (map key rows) \<Longrightarrow> r \<in> set (row_update key k (set_status s) rows) \<Longrightarrow>
     (key r = k \<and> status r = s) \<or> (key r \<noteq> k \<and> r \<in> set rows)"
  by (auto simp: row_update_def key_set status_set)

end

definition set_claim_status :: "claim_status \<Rightarrow> claim_row \<Rightarrow> claim_row" where
  "set_claim_status s r = r\<lparr>cl_status := s\<rparr>"

definition set_asset_status :: "asset_status \<Rightarrow> asset_row \<Rightarrow> asset_row" where
  "set_asset_status s r = r\<lparr>as_status := s\<rparr>"

interpretation claims_table: keyed_rows cl_claim_id cl_status set_claim_status
  by unfold_locales (simp_all add: set_claim_status_def)

interpretation assets_table: keyed_rows as_asset_key as_status set_asset_status
  by unfold_locales (simp_all add: set_asset_status_def)

section \<open>Generic lemmas\<close>

lemma row_find_Some: "row_find key k rows = Some r \<Longrightarrow> r \<in> set rows \<and> key r = k"
  by (auto simp: row_find_def find_Some_iff)

lemma row_find_None: "row_find key k rows = None \<longleftrightarrow> (\<forall>r \<in> set rows. key r \<noteq> k)"
  by (auto simp: row_find_def find_None_iff)

lemma row_find_distinct:
  "distinct (map key rows) \<Longrightarrow> r \<in> set rows \<Longrightarrow> row_find key (key r) rows = Some r"
proof (induction rows)
  case (Cons x rows)
  then show ?case by (auto simp: row_find_def image_iff)
qed simp

lemma row_find_update [row_simps]:
  assumes "\<And>r. key (f r) = key r"
  shows "row_find key k' (row_update key k f rows) =
     (if k' = k then map_option f (row_find key k rows) else row_find key k' rows)"
  unfolding row_find_def row_update_def by (induction rows) (auto simp: assms)

lemma row_update_keys [row_simps]:
  assumes "\<And>r. key (f r) = key r"
  shows "map key (row_update key k f rows) = map key rows"
  by (induction rows) (simp_all add: row_update_def assms)

lemma set_row_update:
  "r \<in> set (row_update key k f rows) \<longleftrightarrow>
     (\<exists>x \<in> set rows. r = (if key x = k then f x else x))"
  unfolding row_update_def set_map image_iff ..

lemma row_update_id: "(\<And>r. r \<in> set rows \<Longrightarrow> key r = k \<Longrightarrow> f r = r) \<Longrightarrow> row_update key k f rows = rows"
  by (simp add: row_update_def map_idI)

lemma update_simps [simp]:
  "db_claims (update_claim cid f d) = row_update cl_claim_id cid f (db_claims d)"
  "db_assets (update_claim cid f d) = db_assets d"
  "db_recipients (update_claim cid f d) = db_recipients d"
  "db_audit (update_claim cid f d) = db_audit d"
  "db_claims (update_asset k g d) = db_claims d"
  "db_assets (update_asset k g d) = row_update as_asset_key k g (db_assets d)"
  "db_recipients (update_asset k g d) = db_recipients d"
  "db_audit (update_asset k g d) = db_audit d"
  by (simp_all add: update_claim_def update_asset_def)

end
