(* ===== verification/Ledger_Rules.thy ===== *)
theory Ledger_Rules
  imports Verify "HOL-Library.AList"
begin

text \<open>
  The pure rules the ledger and the dispatch share (\<open>packages/claims/src\<close>): source-address
  normalisation (\<open>ledger/normalize.ts\<close>), when a vault falls back to liquid
  (\<open>ledger/vault-rules.ts\<close>), asset ids (\<open>ledger/asset-id.ts\<close>), ANT mints (\<open>ledger/ant-mint.ts\<close>),
  the settlement of a vault claim (\<open>verify/vault-settlement.ts\<close>), the stake and withdrawal
  deposits (\<open>ledger/stake-extract.ts\<close>) and the pinned input fingerprints (\<open>ledger/inputs.ts\<close>).
  A \<open>Record<string, T>\<close> is an association list in key order. In messages a dash outside ASCII is
  written \<open>-\<close>, and a number that is not an integer is not printed.
\<close>

section \<open>Source addresses\<close>

definition isEthereumAddress :: "string \<Rightarrow> bool" where
  "isEthereumAddress addr =
     (length addr = 42 \<and> take 2 addr = ''0x'' \<and> list_all (\<lambda>c. hex_value c \<noteq> None) (drop 2 addr))"

definition normalizeSourceAddress :: "string \<Rightarrow> string" where
  "normalizeSourceAddress addr = (if isEthereumAddress addr then to_lower addr else addr)"

definition normalizeAddressMapKeys :: "(string \<times> 'a) list \<Rightarrow> (string \<times> 'a) list" where
  "normalizeAddressMapKeys m = foldl (\<lambda>out (k, v). AList.update (normalizeSourceAddress k) v out) [] m"

text \<open>The proxy: \<open>map[addr]\<close> and \<open>addr in map\<close>.\<close>

definition normalized_get :: "(string \<times> 'a) list \<Rightarrow> string \<Rightarrow> 'a option" where
  "normalized_get raw prop = map_of (normalizeAddressMapKeys raw) (normalizeSourceAddress prop)"

definition normalized_has :: "(string \<times> 'a) list \<Rightarrow> string \<Rightarrow> bool" where
  "normalized_has raw prop = (normalizeSourceAddress prop \<in> fst ` set (normalizeAddressMapKeys raw))"

section \<open>Asset ids and ANT mints\<close>

definition asset_toHex :: "bytes \<Rightarrow> string" where
  "asset_toHex bs = foldl (\<lambda>out b. out @ hex_byte b) [] bs"

definition sha256Utf8 :: "(bytes \<Rightarrow> bytes) \<Rightarrow> string \<Rightarrow> bytes" where
  "sha256Utf8 sha seed = sha (utf8_encode seed)"

definition deriveTokenAssetId :: "(bytes \<Rightarrow> bytes) \<Rightarrow> string \<Rightarrow> bytes" where
  "deriveTokenAssetId sha address = sha256Utf8 sha (''token-escrow:'' @ normalizeSourceAddress address)"

definition deriveVaultAssetId :: "(bytes \<Rightarrow> bytes) \<Rightarrow> string \<Rightarrow> string \<Rightarrow> bytes" where
  "deriveVaultAssetId sha address vaultId =
     sha256Utf8 sha (''vault-escrow:'' @ normalizeSourceAddress address @ '':'' @ vaultId)"

definition deriveStakeAssetId :: "(bytes \<Rightarrow> bytes) \<Rightarrow> string \<Rightarrow> bytes" where
  "deriveStakeAssetId sha assetIdSeed = sha256Utf8 sha assetIdSeed"

definition ANT_MINT_SEED_PREFIX :: string where "ANT_MINT_SEED_PREFIX = ''ant-mint:''"

definition seedFor :: "(bytes \<Rightarrow> bytes) \<Rightarrow> string \<Rightarrow> bytes \<Rightarrow> bytes" where
  "seedFor sha aoProcessId secret = sha (utf8_encode (ANT_MINT_SEED_PREFIX @ aoProcessId) @ secret)"

definition deriveAntMintBytes ::
  "(bytes \<Rightarrow> bytes) \<Rightarrow> ed25519 \<Rightarrow> string \<Rightarrow> bytes \<Rightarrow> string + bytes" where
  "deriveAntMintBytes sha ed aoProcessId secret =
     (if length secret \<noteq> 32
      then Inl (''deriveAntMint: secret must be 32 bytes; got '' @ dec_nat (length secret) @ ''.'')
      else Inr (ed_getPublicKey ed (seedFor sha aoProcessId secret)))"

definition deriveAntMintBase58 ::
  "(bytes \<Rightarrow> bytes) \<Rightarrow> ed25519 \<Rightarrow> (bytes \<Rightarrow> string) \<Rightarrow> string \<Rightarrow> bytes \<Rightarrow> string + string" where
  "deriveAntMintBase58 sha ed b58 aoProcessId secret =
     and_then (deriveAntMintBytes sha ed aoProcessId secret) (\<lambda>k. Inr (b58 k))"

section \<open>Vault rules\<close>

definition MIN_VAULT_SIZE_MARIO :: int where "MIN_VAULT_SIZE_MARIO = 100000000"
definition MIN_VAULT_LOCK_SECONDS :: int where "MIN_VAULT_LOCK_SECONDS = 14 * 86400"

text \<open>
  A \<open>bigint | number\<close>. \<open>NumFrac t\<close> is a number that is not an integer, by its truncation.
\<close>

datatype big_or_num = BigV int | NumV int | NumFrac int

definition math_trunc :: "big_or_num \<Rightarrow> int" where
  "math_trunc v = (case v of BigV i \<Rightarrow> i | NumV i \<Rightarrow> i | NumFrac t \<Rightarrow> t)"

definition vaultEscrowFallsBackToLiquid :: "int \<Rightarrow> big_or_num \<Rightarrow> bool" where
  "vaultEscrowFallsBackToLiquid amountMario remainingLockSeconds =
     (let remaining = math_trunc remainingLockSeconds
      in remaining < MIN_VAULT_LOCK_SECONDS \<or> amountMario < MIN_VAULT_SIZE_MARIO)"

datatype liquid_reason = Expired | BelowMinAmount | BelowMinDuration

text \<open>A re-locked vault is never revocable; the field is a constant of the type.\<close>

datatype vault_settlement =
    Liquid liquid_reason int
  | Relock (lockDurationSeconds: int) (unlockTimestamp: int) (remainingSeconds: int)

definition toBig :: "big_or_num \<Rightarrow> verr + int" where
  "toBig v = (case v of
     BigV i \<Rightarrow> Inr i
   | NumV i \<Rightarrow> Inr i
   | NumFrac t \<Rightarrow> Inl (VerificationError INVALID_INPUT ''expected an integer''))"

definition computeVaultSettlement ::
  "big_or_num \<Rightarrow> big_or_num \<Rightarrow> big_or_num \<Rightarrow> big_or_num \<Rightarrow> big_or_num \<Rightarrow> verr + vault_settlement" where
  "computeVaultSettlement vaultEndTs' amount' minVaultDuration' maxVaultDuration' now' =
     and_then (toBig vaultEndTs') (\<lambda>vaultEndTs.
     and_then (toBig amount') (\<lambda>amount.
     and_then (toBig minVaultDuration') (\<lambda>minVaultDuration.
     and_then (toBig maxVaultDuration') (\<lambda>maxVaultDuration.
     and_then (toBig now') (\<lambda>now.
     if amount < 0
     then Inl (VerificationError INVALID_INPUT (''vault amount must be >= 0, got '' @ dec_int amount))
     else let remaining = vaultEndTs - now in
     if remaining \<le> 0 then Inr (Liquid Expired remaining)
     else if amount < MIN_VAULT_SIZE_MARIO then Inr (Liquid BelowMinAmount remaining)
     else if remaining < minVaultDuration then Inr (Liquid BelowMinDuration remaining)
     else if remaining > maxVaultDuration
     then Inl (VerificationError LOCK_DURATION_TOO_LONG
            (''remaining lock '' @ dec_int remaining @ ''s exceeds max_vault_duration ''
             @ dec_int maxVaultDuration @ ''s''))
     else Inr (Relock remaining vaultEndTs remaining))))))"

section \<open>Stake and withdrawal deposits\<close>

record plan_entry =
  pe_arweaveAddr :: string
  pe_key :: string
  pe_amountMario :: string
  pe_unlockTs :: int
  pe_source :: "string option"

text \<open>
  The serialized plan: its six lists. \<open>pe_key\<close> is the \<open>kind\<close> of a stake entry and the
  \<open>vaultKey\<close> of a withdrawal; \<open>pe_unlockTs\<close> is read of the vault lists only.
\<close>

record plan_artifact =
  pa_operatorEscrowVaults :: "plan_entry list"
  pa_operatorLiquidEscrows :: "plan_entry list"
  pa_delegatorEscrowVaults :: "plan_entry list"
  pa_delegatorLiquidEscrows :: "plan_entry list"
  pa_escrowVaults :: "plan_entry list"
  pa_liquidEscrows :: "plan_entry list"

record escrow_deposit =
  ed_arweaveAddr :: string
  ed_assetIdSeed :: string
  ed_amountMario :: int
  ed_unlockTs :: "int option"
  ed_kind :: string

record escrow_deposit_set =
  es_vaults :: "escrow_deposit list"
  es_liquid :: "escrow_deposit list"

fun map_result :: "('a \<Rightarrow> 'e + 'b) \<Rightarrow> 'a list \<Rightarrow> 'e + 'b list" where
  "map_result f [] = Inr []"
| "map_result f (x # xs) = and_then (f x) (\<lambda>y. and_then (map_result f xs) (\<lambda>ys. Inr (y # ys)))"

definition big_of_string :: "string \<Rightarrow> string + int" where
  "big_of_string s = (case js_BigInt s of
     None \<Rightarrow> Inl (''Cannot convert '' @ s @ '' to a BigInt'') | Some i \<Rightarrow> Inr i)"

definition stake_deposit :: "string \<Rightarrow> bool \<Rightarrow> plan_entry \<Rightarrow> string + escrow_deposit" where
  "stake_deposit ns vault v =
     and_then (big_of_string (pe_amountMario v)) (\<lambda>amt.
       Inr \<lparr>ed_arweaveAddr = pe_arweaveAddr v,
            ed_assetIdSeed = ns @ '':'' @ normalizeSourceAddress (pe_arweaveAddr v) @ '':'' @ pe_key v,
            ed_amountMario = amt,
            ed_unlockTs = (if vault then Some (pe_unlockTs v) else None),
            ed_kind = pe_key v\<rparr>)"

definition withdrawal_deposit :: "string \<Rightarrow> bool \<Rightarrow> plan_entry \<Rightarrow> string + escrow_deposit" where
  "withdrawal_deposit ns vault v =
     and_then (big_of_string (pe_amountMario v)) (\<lambda>amt.
       Inr \<lparr>ed_arweaveAddr = pe_arweaveAddr v,
            ed_assetIdSeed = ns @ '':'' @ normalizeSourceAddress (pe_arweaveAddr v) @ '':'' @ pe_key v,
            ed_amountMario = amt,
            ed_unlockTs = (if vault then Some (pe_unlockTs v) else None),
            ed_kind = ''withdrawal:'' @ (case pe_source v of None \<Rightarrow> ''unknown'' | Some s \<Rightarrow> s)
                       @ '':'' @ pe_key v\<rparr>)"

definition collectStakeWithdrawalEscrow :: "plan_artifact \<Rightarrow> string + escrow_deposit_set" where
  "collectStakeWithdrawalEscrow a =
     and_then (map_result (stake_deposit ''stake-escrow'' True) (pa_operatorEscrowVaults a)) (\<lambda>v1.
     and_then (map_result (stake_deposit ''stake-escrow'' True) (pa_delegatorEscrowVaults a)) (\<lambda>v2.
     and_then (map_result (withdrawal_deposit ''withdrawal-escrow'' True) (pa_escrowVaults a)) (\<lambda>v3.
     and_then (map_result (stake_deposit ''stake-escrow-liquid'' False) (pa_operatorLiquidEscrows a)) (\<lambda>l1.
     and_then (map_result (stake_deposit ''stake-escrow-liquid'' False) (pa_delegatorLiquidEscrows a)) (\<lambda>l2.
     and_then (map_result (withdrawal_deposit ''withdrawal-escrow-liquid'' False) (pa_liquidEscrows a)) (\<lambda>l3.
     Inr \<lparr>es_vaults = v1 @ v2 @ v3, es_liquid = l1 @ l2 @ l3\<rparr>))))))"

definition totalEscrowMario :: "escrow_deposit_set \<Rightarrow> int" where
  "totalEscrowMario s =
     foldl (\<lambda>sum l. sum + ed_amountMario l)
       (foldl (\<lambda>sum v. sum + ed_amountMario v) 0 (es_vaults s)) (es_liquid s)"

text \<open>The uniqueness scan: \<open>seen\<close> and \<open>seenLower\<close> of the code.\<close>

fun unique_seeds :: "string list \<Rightarrow> (string \<times> string) list \<Rightarrow> escrow_deposit list \<Rightarrow> string + unit" where
  "unique_seeds seen seenLower [] = Inr ()"
| "unique_seeds seen seenLower (e # es) =
     (let seed = ed_assetIdSeed e; lower = to_lower seed in
      if seed \<in> set seen
      then Inl (''stake-extract: duplicate assetIdSeed \"'' @ seed @ ''\" - escrow PDAs would alias'')
      else case map_of seenLower lower of
             Some prior \<Rightarrow>
               if prior \<noteq> seed
               then Inl (''stake-extract: case-variant assetIdSeed collision \"'' @ prior @ ''\" vs \"'' @ seed @ ''\"'')
               else unique_seeds (seed # seen) (AList.update lower seed seenLower) es
           | None \<Rightarrow> unique_seeds (seed # seen) (AList.update lower seed seenLower) es)"

definition assertUniqueAssetSeeds :: "escrow_deposit_set \<Rightarrow> string + unit" where
  "assertUniqueAssetSeeds s = unique_seeds [] [] (es_vaults s @ es_liquid s)"

section \<open>Pinned fingerprints\<close>

text \<open>
  The problems are collected over the whole table before the throw; \<open>bypass\<close> is
  \<open>ALLOW_UNPINNED_FROZEN_INPUTS=1\<close>.
\<close>

definition fingerprint_problems ::
  "(string \<times> string) list \<Rightarrow> (string \<times> string) list \<Rightarrow> string list" where
  "fingerprint_problems computed expected =
     concat (map (\<lambda>(name, exp). case map_of computed name of
         None \<Rightarrow> [''missing computed fingerprint for pinned input \"'' @ name @ ''\"'']
       | Some got \<Rightarrow> if got \<noteq> exp
           then [''fingerprint mismatch for \"'' @ name @ ''\": got '' @ got @ '', expected '' @ exp] else []) expected)
     @ concat (map (\<lambda>(name, v). if name \<in> fst ` set expected then []
         else [''unexpected input \"'' @ name @ ''\" not in the pinned known-good set'']) computed)"

definition assertKnownGoodFingerprints ::
  "bool \<Rightarrow> (string \<times> string) list \<Rightarrow> (string \<times> string) list \<Rightarrow> string list + unit" where
  "assertKnownGoodFingerprints bypass computed expected =
     (if bypass then Inr ()
      else let problems = fingerprint_problems computed expected in
           if length problems > 0 then Inl problems else Inr ())"

section \<open>Lemmas\<close>

lemma lower_char_hex: "hex_value (lower_char c) = hex_value c"
proof -
  have *: "(of_char (char_of n :: char) :: nat) = n" if "n < 256" for n :: nat
    using that by simp
  show ?thesis
    by (simp add: hex_value_def lower_char_def Let_def *)
qed

lemma lower_char_idem [simp]: "lower_char (lower_char c) = lower_char c"
  by (simp add: lower_char_def Let_def)

lemma to_lower_idem [simp]: "to_lower (to_lower s) = to_lower s"
  by (simp add: to_lower_def)

lemma length_to_lower [simp]: "length (to_lower s) = length s"
  by (simp add: to_lower_def)

lemma isEthereumAddress_lower:
  assumes "isEthereumAddress a"
  shows "isEthereumAddress (to_lower a)"
proof -
  have "take 2 (to_lower a) = to_lower (take 2 a)" by (simp add: to_lower_def take_map)
  also have "\<dots> = ''0x''" using assms by (simp add: isEthereumAddress_def to_lower_def lower_char_def)
  finally show ?thesis
    using assms by (simp add: isEthereumAddress_def to_lower_def drop_map list.pred_map o_def lower_char_hex)
qed

lemma normalize_idem [simp]:
  "normalizeSourceAddress (normalizeSourceAddress a) = normalizeSourceAddress a"
  by (simp add: normalizeSourceAddress_def isEthereumAddress_lower)

lemma lower_char_no_colon: "lower_char c = CHR '':'' \<Longrightarrow> c = CHR '':''"
proof (rule ccontr)
  assume l: "lower_char c = CHR '':''" and "c \<noteq> CHR '':''"
  then have n: "65 \<le> (of_char c :: nat)" "(of_char c :: nat) \<le> 90" "char_of (of_char c + 32 :: nat) = CHR '':''"
    by (auto simp: lower_char_def Let_def split: if_splits)
  have "(of_char (char_of (of_char c + 32 :: nat) :: char) :: nat) = (of_char c + 32) mod 256"
    by (rule of_char_of)
  with n show False by simp
qed

lemma normalize_no_colon: "CHR '':'' \<notin> set a \<Longrightarrow> CHR '':'' \<notin> set (normalizeSourceAddress a)"
  by (auto simp: normalizeSourceAddress_def to_lower_def dest: lower_char_no_colon [OF sym])

lemma asset_toHex_encode [simp]: "asset_toHex bs = hex_encode bs"
proof -
  have "foldl (\<lambda>out b. out @ hex_byte b) acc bs = acc @ hex_encode bs" for acc
    by (induction bs arbitrary: acc) auto
  then show ?thesis by (simp add: asset_toHex_def)
qed

lemma map_result_Inr:
  "map_result f xs = Inr ys \<longleftrightarrow> list_all2 (\<lambda>x y. f x = Inr y) xs ys"
  by (induction xs arbitrary: ys) (auto simp: and_then_Inr list_all2_Cons1)

lemma foldl_sum: "foldl (\<lambda>s x. s + f x) (a :: int) xs = a + sum_list (map f xs)"
  by (induction xs arbitrary: a) auto

lemma totalEscrowMario_sum:
  "totalEscrowMario s = sum_list (map ed_amountMario (es_vaults s @ es_liquid s))"
  by (simp add: totalEscrowMario_def foldl_sum)

text \<open>The amounts written in the plan.\<close>

definition plan_amount :: "plan_entry \<Rightarrow> int" where
  "plan_amount v = (case js_BigInt (pe_amountMario v) of Some i \<Rightarrow> i | None \<Rightarrow> 0)"

lemma deposit_amount:
  "stake_deposit ns b v = Inr d \<Longrightarrow> ed_amountMario d = plan_amount v"
  "withdrawal_deposit ns b v = Inr d \<Longrightarrow> ed_amountMario d = plan_amount v"
  by (auto simp: stake_deposit_def withdrawal_deposit_def and_then_Inr big_of_string_def plan_amount_def
      split: option.splits)

lemma deposits_total:
  assumes "map_result f vs = Inr ds" and "\<And>v d. f v = Inr d \<Longrightarrow> ed_amountMario d = plan_amount v"
  shows "sum_list (map ed_amountMario ds) = sum_list (map plan_amount vs)"
proof -
  have "list_all2 (\<lambda>v d. f v = Inr d) vs ds" using assms(1) by (simp add: map_result_Inr)
  then show ?thesis using assms(2) by (induction rule: list_all2_induct) auto
qed

text \<open>
  The scan accepts exactly the lists whose lower-cased seeds are distinct: the exact and the
  case-insensitive check together.
\<close>

lemma unique_seeds_iff:
  assumes "\<forall>s \<in> set seen. map_of seenLower (to_lower s) \<noteq> None"
    and "\<forall>l p. map_of seenLower l = Some p \<longrightarrow> p \<in> set seen \<and> to_lower p = l"
  shows "unique_seeds seen seenLower es = Inr () \<longleftrightarrow>
     distinct (map (\<lambda>e. to_lower (ed_assetIdSeed e)) es)
     \<and> (\<forall>e \<in> set es. map_of seenLower (to_lower (ed_assetIdSeed e)) = None)"
  using assms
proof (induction es arbitrary: seen seenLower)
  case (Cons e es)
  let ?s = "ed_assetIdSeed e" and ?l = "to_lower (ed_assetIdSeed e)"
  show ?case
  proof (cases "map_of seenLower ?l")
    case (Some p)
    then have "p \<in> set seen" using Cons.prems(2) by blast
    then have "unique_seeds seen seenLower (e # es) \<noteq> Inr ()" using Some by (auto simp: Let_def)
    then show ?thesis using Some by simp
  next
    case None
    then have n: "?s \<notin> set seen" using Cons.prems(1) by blast
    then have "unique_seeds seen seenLower (e # es) = unique_seeds (?s # seen) (AList.update ?l ?s seenLower) es"
      using None by (simp add: Let_def)
    also have "(\<dots> = Inr ()) \<longleftrightarrow> distinct (map (\<lambda>e. to_lower (ed_assetIdSeed e)) es)
       \<and> (\<forall>e' \<in> set es. map_of (AList.update ?l ?s seenLower) (to_lower (ed_assetIdSeed e')) = None)"
      by (rule Cons.IH) (use Cons.prems in \<open>auto simp: update_conv'\<close>)
    also have "\<dots> \<longleftrightarrow> distinct (map (\<lambda>e. to_lower (ed_assetIdSeed e)) (e # es))
       \<and> (\<forall>e \<in> set (e # es). map_of seenLower (to_lower (ed_assetIdSeed e)) = None)"
      using None by (auto simp: update_conv' image_iff)
    finally show ?thesis .
  qed
qed simp

lemma assertUnique_iff:
  "assertUniqueAssetSeeds s = Inr () \<longleftrightarrow>
     distinct (map (\<lambda>e. to_lower (ed_assetIdSeed e)) (es_vaults s @ es_liquid s))"
  unfolding assertUniqueAssetSeeds_def by (subst unique_seeds_iff) auto

lemma assertUnique_distinct:
  assumes "assertUniqueAssetSeeds s = Inr ()"
  shows "distinct (map ed_assetIdSeed (es_vaults s @ es_liquid s))"
proof -
  let ?xs = "es_vaults s @ es_liquid s"
  have "map (\<lambda>e. to_lower (ed_assetIdSeed e)) ?xs = map to_lower (map ed_assetIdSeed ?xs)" by simp
  then have "distinct (map to_lower (map ed_assetIdSeed ?xs))"
    using assms unfolding assertUnique_iff by (rule subst)
  then show ?thesis unfolding distinct_map [of to_lower] by (rule conjunct1)
qed

text \<open>The settlement of integer arguments, with the guards as one table.\<close>

lemma settlement_BigV:
  "computeVaultSettlement (BigV e) (BigV a) (BigV mn) (BigV mx) (BigV t) =
     (if a < 0 then Inl (VerificationError INVALID_INPUT (''vault amount must be >= 0, got '' @ dec_int a))
      else if e - t \<le> 0 then Inr (Liquid Expired (e - t))
      else if a < MIN_VAULT_SIZE_MARIO then Inr (Liquid BelowMinAmount (e - t))
      else if e - t < mn then Inr (Liquid BelowMinDuration (e - t))
      else if e - t > mx
      then Inl (VerificationError LOCK_DURATION_TOO_LONG
            (''remaining lock '' @ dec_int (e - t) @ ''s exceeds max_vault_duration ''
             @ dec_int mx @ ''s''))
      else Inr (Relock (e - t) e (e - t)))"
  by (simp add: computeVaultSettlement_def toBig_def Let_def)

definition settles_liquid :: "verr + vault_settlement \<Rightarrow> bool" where
  "settles_liquid r = (case r of Inr (Liquid w n) \<Rightarrow> True | _ \<Rightarrow> False)"

section \<open>Properties\<close>

text \<open>
  C28. Re-locks keep the original unlock: \<open>computeVaultSettlement\<close> re-locks exactly when the amount
  reaches the minimum vault size and the remaining time is positive and within the configured
  bounds, and then the lock runs for the whole remaining time and ends at the original
  \<open>vault_end_ts\<close>, never earlier or later.
\<close>
theorem relock_exact:
  "computeVaultSettlement (BigV e) (BigV a) (BigV mn) (BigV mx) (BigV t) = Inr (Relock l u r) \<longleftrightarrow>
     MIN_VAULT_SIZE_MARIO \<le> a \<and> 0 < e - t \<and> mn \<le> e - t \<and> e - t \<le> mx
     \<and> l = e - t \<and> u = t + l \<and> u = e \<and> r = l"
  by (auto simp: settlement_BigV MIN_VAULT_SIZE_MARIO_def)

text \<open>
  The claim-time decision agrees with the deposit-time one: with the 14-day minimum, a claim
  of a non-negative amount settles liquid exactly when the vault has expired or
  \<open>vaultEscrowFallsBackToLiquid\<close> would have routed the remaining lock to a liquid escrow; and
  once it settles liquid it does so at every later time.
\<close>
theorem settlement_matches_deposit_rule:
  assumes "0 \<le> a" and "t \<le> t'"
  shows "(settles_liquid (computeVaultSettlement (BigV e) (BigV a) (BigV MIN_VAULT_LOCK_SECONDS) (BigV mx) (BigV t))
          \<longleftrightarrow> e - t \<le> 0 \<or> vaultEscrowFallsBackToLiquid a (BigV (e - t)))
     \<and> (settles_liquid (computeVaultSettlement (BigV e) (BigV a) (BigV mn) (BigV mx) (BigV t))
          \<longrightarrow> settles_liquid (computeVaultSettlement (BigV e) (BigV a) (BigV mn) (BigV mx) (BigV t')))"
  using assms
  by (auto simp: settlement_BigV settles_liquid_def vaultEscrowFallsBackToLiquid_def math_trunc_def
      split: if_splits)

theorem settlement_matches_deposit_rule_witness:
  "settles_liquid (computeVaultSettlement (BigV 2000000) (BigV 5) (BigV MIN_VAULT_LOCK_SECONDS) (BigV 9) (BigV 0))
     \<and> settles_liquid (computeVaultSettlement (BigV 2000000) (BigV 5) (BigV MIN_VAULT_LOCK_SECONDS) (BigV 9) (BigV 7))"
  using settlement_matches_deposit_rule [of 5 0 7 2000000 9 MIN_VAULT_LOCK_SECONDS]
  by (simp add: vaultEscrowFallsBackToLiquid_def math_trunc_def MIN_VAULT_SIZE_MARIO_def)

text \<open>
  Stake and withdrawal deposits conserve money and keys: a collected set carries exactly the
  amounts written in the six lists of the plan, and when it passes \<open>assertUniqueAssetSeeds\<close> no
  two of its seeds are equal, not even up to case.
\<close>
theorem stake_set_conserves:
  assumes "collectStakeWithdrawalEscrow pa = Inr s" and "assertUniqueAssetSeeds s = Inr ()"
  shows "totalEscrowMario s = sum_list (map plan_amount
       (pa_operatorEscrowVaults pa @ pa_delegatorEscrowVaults pa @ pa_escrowVaults pa
        @ pa_operatorLiquidEscrows pa @ pa_delegatorLiquidEscrows pa @ pa_liquidEscrows pa))
     \<and> distinct (map (\<lambda>e. to_lower (ed_assetIdSeed e)) (es_vaults s @ es_liquid s))"
proof -
  note total = deposits_total [where f = "stake_deposit ns b" for ns b, OF _ deposit_amount(1)]
    deposits_total [where f = "withdrawal_deposit ns b" for ns b, OF _ deposit_amount(2)]
  from assms(1) obtain v1 v2 v3 l1 l2 l3 where s: "s = \<lparr>es_vaults = v1 @ v2 @ v3, es_liquid = l1 @ l2 @ l3\<rparr>"
    and m: "map_result (stake_deposit ''stake-escrow'' True) (pa_operatorEscrowVaults pa) = Inr v1"
      "map_result (stake_deposit ''stake-escrow'' True) (pa_delegatorEscrowVaults pa) = Inr v2"
      "map_result (withdrawal_deposit ''withdrawal-escrow'' True) (pa_escrowVaults pa) = Inr v3"
      "map_result (stake_deposit ''stake-escrow-liquid'' False) (pa_operatorLiquidEscrows pa) = Inr l1"
      "map_result (stake_deposit ''stake-escrow-liquid'' False) (pa_delegatorLiquidEscrows pa) = Inr l2"
      "map_result (withdrawal_deposit ''withdrawal-escrow-liquid'' False) (pa_liquidEscrows pa) = Inr l3"
    by (auto simp: collectStakeWithdrawalEscrow_def and_then_Inr)
  then have "totalEscrowMario s = sum_list (map plan_amount
       (pa_operatorEscrowVaults pa @ pa_delegatorEscrowVaults pa @ pa_escrowVaults pa
        @ pa_operatorLiquidEscrows pa @ pa_delegatorLiquidEscrows pa @ pa_liquidEscrows pa))"
    by (simp add: totalEscrowMario_sum total)
  with assms(2) show ?thesis by (simp add: assertUnique_iff)
qed

theorem stake_set_conserves_witness:
  "\<exists>s. collectStakeWithdrawalEscrow
     \<lparr>pa_operatorEscrowVaults = [\<lparr>pe_arweaveAddr = ''a'', pe_key = ''k'', pe_amountMario = ''7'',
        pe_unlockTs = 0, pe_source = None\<rparr>],
      pa_operatorLiquidEscrows = [], pa_delegatorEscrowVaults = [], pa_delegatorLiquidEscrows = [],
      pa_escrowVaults = [], pa_liquidEscrows = [\<lparr>pe_arweaveAddr = ''a'', pe_key = ''k'',
        pe_amountMario = ''5'', pe_unlockTs = 0, pe_source = None\<rparr>]\<rparr> = Inr s
   \<and> totalEscrowMario s = 12"
proof -
  let ?pa = "\<lparr>pa_operatorEscrowVaults = [\<lparr>pe_arweaveAddr = ''a'', pe_key = ''k'', pe_amountMario = ''7'',
        pe_unlockTs = 0, pe_source = None\<rparr>],
      pa_operatorLiquidEscrows = [], pa_delegatorEscrowVaults = [], pa_delegatorLiquidEscrows = [],
      pa_escrowVaults = [], pa_liquidEscrows = [\<lparr>pe_arweaveAddr = ''a'', pe_key = ''k'',
        pe_amountMario = ''5'', pe_unlockTs = 0, pe_source = None\<rparr>]\<rparr>"
  have b: "js_BigInt ''7'' = Some 7" "js_BigInt ''5'' = Some 5" by code_simp+
  obtain s where s: "collectStakeWithdrawalEscrow ?pa = Inr s" and u: "assertUniqueAssetSeeds s = Inr ()"
    by (simp add: collectStakeWithdrawalEscrow_def stake_deposit_def withdrawal_deposit_def big_of_string_def
        b assertUnique_iff to_lower_def)
  from stake_set_conserves [OF s u] have "totalEscrowMario s = 12" by (simp add: plan_amount_def b)
  with s show ?thesis by blast
qed

text \<open>
  The fingerprint tripwire: without the bypass, \<open>assertKnownGoodFingerprints\<close> passes exactly
  when the computed table and the pinned table are the same mapping, so a changed, missing or
  additional input fails.
\<close>
theorem fingerprints_exact:
  "assertKnownGoodFingerprints False computed expected = Inr () \<longleftrightarrow>
     (\<forall>(name, exp) \<in> set expected. map_of computed name = Some exp)
     \<and> (\<forall>(name, v) \<in> set computed. name \<in> fst ` set expected)"
proof -
  have "assertKnownGoodFingerprints False computed expected = Inr ()
      \<longleftrightarrow> fingerprint_problems computed expected = []"
    by (simp add: assertKnownGoodFingerprints_def Let_def)
  also have "\<dots> \<longleftrightarrow> (\<forall>(name, exp) \<in> set expected. map_of computed name = Some exp)
     \<and> (\<forall>(name, v) \<in> set computed. name \<in> fst ` set expected)"
    by (auto simp: fingerprint_problems_def split: option.splits if_splits)
  finally show ?thesis .
qed

theorem fingerprints_exact_witness:
  "assertKnownGoodFingerprints False [(''f'', ''00'')] [(''f'', ''00'')] = Inr ()
     \<and> assertKnownGoodFingerprints False [(''f'', ''01'')] [(''f'', ''00'')] \<noteq> Inr ()"
  by (simp add: fingerprints_exact)

text \<open>
  Asset ids separate: for addresses without a colon, two vault deposits have the same asset
  id only if they are the same vault of the same normalised address, and no vault deposit has
  the id of a token deposit, if SHA-256 does not collide on the seeds at hand. The id of an
  Ethereum owner does not depend on the case the address is written in.
\<close>
theorem asset_ids_separate:
  assumes "inj_on sha {utf8_encode (''vault-escrow:'' @ normalizeSourceAddress a @ '':'' @ v),
                       utf8_encode (''vault-escrow:'' @ normalizeSourceAddress b @ '':'' @ w),
                       utf8_encode (''token-escrow:'' @ normalizeSourceAddress b)}"
    and "CHR '':'' \<notin> set a" and "CHR '':'' \<notin> set b"
  shows "(deriveVaultAssetId sha a v = deriveVaultAssetId sha b w
            \<longrightarrow> normalizeSourceAddress a = normalizeSourceAddress b \<and> v = w)
     \<and> deriveVaultAssetId sha a v \<noteq> deriveTokenAssetId sha b
     \<and> (isEthereumAddress a \<longrightarrow> deriveTokenAssetId sha (to_lower a) = deriveTokenAssetId sha a)"
proof (intro conjI impI)
  let ?na = "normalizeSourceAddress a" and ?nb = "normalizeSourceAddress b"
  { assume "deriveVaultAssetId sha a v = deriveVaultAssetId sha b w"
    then have "utf8_encode (''vault-escrow:'' @ ?na @ '':'' @ v) = utf8_encode (''vault-escrow:'' @ ?nb @ '':'' @ w)"
      unfolding deriveVaultAssetId_def sha256Utf8_def by (rule inj_onD [OF assms(1)]) blast+
    then have "?na @ CHR '':'' # v = ?nb @ CHR '':'' # w"
      unfolding utf8_encode_eq_iff by simp
    then have "js_split CHR '':'' (?na @ CHR '':'' # v) = js_split CHR '':'' (?nb @ CHR '':'' # w)" by simp
    then have "?na = ?nb"
      using normalize_no_colon assms(2,3) by (simp add: js_split_append)
    with \<open>?na @ CHR '':'' # v = ?nb @ CHR '':'' # w\<close> show "?na = ?nb" "v = w" by simp_all }
  show "deriveVaultAssetId sha a v \<noteq> deriveTokenAssetId sha b"
  proof
    assume "deriveVaultAssetId sha a v = deriveTokenAssetId sha b"
    then have "utf8_encode (''vault-escrow:'' @ ?na @ '':'' @ v) = utf8_encode (''token-escrow:'' @ ?nb)"
      unfolding deriveVaultAssetId_def deriveTokenAssetId_def sha256Utf8_def
      by (rule inj_onD [OF assms(1)]) blast+
    then show False unfolding utf8_encode_eq_iff by simp
  qed
  assume "isEthereumAddress a"
  then show "deriveTokenAssetId sha (to_lower a) = deriveTokenAssetId sha a"
    by (simp add: deriveTokenAssetId_def normalizeSourceAddress_def isEthereumAddress_lower)
qed

theorem asset_ids_separate_witness:
  "deriveVaultAssetId (\<lambda>x. x) ''a'' ''1'' \<noteq> deriveTokenAssetId (\<lambda>x. x) ''b''"
  by (rule asset_ids_separate [of "\<lambda>x. x" "''a''" "''1''" "''b''" "''1''", THEN conjunct2, THEN conjunct1])
    (simp_all del: utf8_encode_simps)

end
