(* ===== verification/Retired_Ants.thy ===== *)
theory Retired_Ants
  imports Main
begin

text \<open>
  The API-level de-list: the table of retired custody ANTs with the ArNS name each last carried
  (\<open>api/retired-ants.ts\<close>) and the one asset delivered out of band
  (\<open>api/manually-delivered.ts\<close>). The tables are transcribed entry by entry.
\<close>

definition retired_ants_a :: "(string \<times> string) list" where
  "retired_ants_a =
    [(''2129sihoeJc2axpxhvb7RwPLURnddUXNw3dcrVYYfnAF'', ''everpay''),
     (''22K6JJj99iWssaNNTEDUg3Jo7vENPnkGqwT92FqafvJR'', ''lostgameonline''),
     (''25Z1NXXrhrSpw8iaLTVSzyuzyB6wUHDvZMJUQAyjFkbD'', ''quanquandeya987''),
     (''2DHctkbsVDYCEbti8p6YKXWmMeRfVsFG1sEH21M5KtgT'', ''realorganic''),
     (''2Dp4dH5an2PCRpmYvSkRxWUAWyVqL3pikhfPrNYhXiAJ'', ''kenny''),
     (''2KxxVME3sM64H1ZjRceRv9sYj1Cya11TNm2XjfAbD9RD'', ''cleverlpc''),
     (''2LRyVbvLgp6Nrxg4WW6xkKHyNzUZVfNDtuKbff7kdNzx'', ''financialservices''),
     (''2Quaq2uTLbBrnNVXKSx5sBXTQHg3ZsLFFyXmLZvuZMzV'', ''hater9898''),
     (''2UVcorNSNTY68xEQ8qxozoDV2HKe1TiYMiVCH8GuaJgG'', ''cryptosummer''),
     (''2WJgRmR5nbn1L9bLSXtxJTHYxhSn47onuYUiQsEhyo8v'', ''digitaladvertising''),
     (''2YaNgdcWcit81qqbCHhGtZL39r4uxCA6tkuAAj7x8mc8'', ''michiel''),
     (''2d79hSiMB6KT2kvyGHDtGQUukxvDtf6EoN1pEFZiRBx4'', ''yellowsubmarine''),
     (''2dP1e1gT1xhGKcuskZmAn7eAQY3UCEs6PKz6rSBCjNhY'', ''caseclosed''),
     (''2ipkKm4BvoAaVGSCimUvBw5CcEk3zfxKyi1UivSk37ry'', ''neuro-sciences''),
     (''2jJyTJEgpYp5g4Bn7oeLtt63xs2kfJXLSFkmtfPyqkJy'', ''stamp''),
     (''2jQYL58TmyfiXExSaAw3jDuyJgVXyunPJLwHGmRQF48d'', ''social''),
     (''2kLizSWipv4FaAVJJde3rKiDZjWQYiCqvocabbSHdM5k'', ''favorite''),
     (''2m7fYoprT67WT4jaUspvTYmwvYyutp3zVqKFVzo5wgaY'', ''vinalandjsc''),
     (''2pH7VaNA7L37DgDwrjuzhe2vEfwY7emJuSe3gpz4Y3Dh'', ''vouch-twitter''),
     (''2qsyntaLksB9pv2F3FXMwMiwhCcdytPpcfuh9xcsmYQd'', ''snapshot''),
     (''2sJcgQG97PB5ULHKLNjfj4kVbUfEbgGhvUdBYc4v4Ex7'', ''emmaabbey246316222''),
     (''2t3HQ2LngmxCtHVXPq6fB6jcgzvkimihD1g6bPvuRqow'', ''bijankholghi''),
     (''2tn5pf9ajMfvnVtvXopknakfP3CZMdd5QtQe96vBKdHh'', ''gaetan''),
     (''2ugosvmdWeZJ6qGBWMjJ9Eo4Sj3Xjy6okRBPLnZ9pk9U'', ''dominospizza''),
     (''2vzmCLjoD8h3CPiiri4ZStCykSifKmXc4kALk1fkpcQL'', ''braanaas''),
     (''2yWRyx9yLXy3SHweX1CXcbumcdp4z8Z3wi6B8Hb1pXfH'', ''cloudy''),
     (''2ydeeiEfU5v3aKreNb5yXb696y7VSVceDsgJTbEDVmBj'', ''emily12345''),
     (''2zGxtfYjgEPKB4SS7x3FieMx6TQQqtgg9zK6rnMi3Z8T'', ''uniquestock''),
     (''32rATgToHcHpDd4sjrTKSr6qRFSPeZKb21P9HFTvSjAq'', ''xxxxxxxxxxxxxxxxxxxx''),
     (''35Ro9DqrdPY2bow5WSxSaWyVh5EEWpmazZPzNAmoafFC'', ''fennari''),
     (''368miM8NnKmyaFcWyPu5z81J5gxZMpN8hScbzgYXFnb7'', ''switzerland''),
     (''3ABrSNDNHDf1Y7EKtA65AT3iZSytFZUkjEd5xxKtKHwc'', ''gsyurii9085464112''),
     (''3AF4nijaEcDuoUNjZGzDWyaXtyUKwLAQTtWNA7G3Lcx5'', ''dani''),
     (''3AiG98A84evXviy3NrHU4RC7kXsKXRpArErGfL6vWhpG'', ''jiajiajiaa321''),
     (''3CfEGVXB2316GnR9XcjPXUfYZH8o7reGHTFbumVekxFA'', ''special1''),
     (''3ChdKLCRKpPDR7EK8aQ5mTrzAc4scZbXbapXXxEE9fQW'', ''tusker''),
     (''3F6ZiAdBHg8G23ZGGa9btwpKbKJXX6qVryXJb6KyVLiv'', ''rsahoo077''),
     (''3HVrfsVYJM5K8dvb2B1k7ef1mkECiuGiw2FcBxL1XYRN'', ''raiman''),
     (''3N4g4awAjHYXjkCmThVA5FrpXxaC6X1QmBheuxBNqNbx'', ''landano''),
     (''3Pm7AgH2XGJhv5ZiTc3EwfxxqyNAjkhAutXGQsF2zA59'', ''bhavya-gor-experiments''),
     (''3TJzqqH6kstGaUXM9tUbwdP8hesfYgrndsj85nnrMHKF'', ''matternism''),
     (''3TbS7stsK1XS7M1EpUzs8qdvD6RTDFvLXEZHPxqsisLQ'', ''quantumcomputer''),
     (''3YZRRVXpnNUy7P2A5GYfuuQGKFFYHcexWbXcJ9ho8MyQ'', ''eternal''),
     (''3bYyYLncoRYXifGxRAmAsduazdT3yE7n1WYF3vux8RtN'', ''bodhiiroz''),
     (''3hojcqRcuTTM6TniDKzYpKw8t7pfbhQfA7iLquLVGdME'', ''neuro-science''),
     (''3jSfCYbp2RtA4qADtp3aFg2j2Ss8PrpzgVsG3jBp47ns'', ''podcasts''),
     (''3jhgwKp5PL7brEM77PV6NYbD8JwJGDqXa5GKRgcGLhnR'', ''dylan''),
     (''3n8LyzaCiPYiBF48bVpHdBQaCdMTLMm5rbCsP1rQXX6t'', ''bio-technology''),
     (''3oQzLRPEJVx4iPpp9jwiEc9Q7QkhwQoBBNxtMLLv4cXk'', ''dhai-workshop''),
     (''3p6UNWwzBJqQdcD1DbE4cb213pM9fysDEAEqPQ1TMNis'', ''knowledge''),
     (''3qeRf8sY1wkQ3g7Ah3qNJ8i8LB1gvHKbcxZUJo9385ee'', ''quantum-sciences''),
     (''3qwC5TwJWRNqbru7enixMW6EKTZJQA86NkVkiffxU6xY'', ''nothing''),
     (''3t3yfvkRefWYQXVBeoufaFxwGU5ht1eXCe7pUbqVAd9c'', ''permaso''),
     (''3tSUr4vpAd5dUqhVXZTqMyXyUYwquCkFBxRX31Q4jocy'', ''mercedes-benz''),
     (''3vuq24ZrovUD4yfcbu1k8JZ9HYCUXH7rDDg5ykjWHDK6'', ''memoriesneverdie''),
     (''3xTXSSYYALnDjRihgKdMM39JMZ6PuNNjC4Cd6XHrjHVs'', ''matheson''),
     (''3xW9SFSybABYMkwHd3zc2fdhubpUU3133QduoDukz8ez'', ''corporation''),
     (''3zVULeKDqNZWLtaM2hw8rapa9iRDHYto4VpKiqmNu7oz'', ''tele-communications''),
     (''4EWCRwdVCPWrEAYDGKV6ZzjkX4c6HenjyX6g73zbADvL'', ''web3alpha''),
     (''4J247tXKdr9PaNaekC3kyTH5jWuPDKtyGRZFVF2Ts9iq'', ''daniel123456''),
     (''4Kh1SLcVtKmc7pieXAd4QxdMsgE1jgFpshJXXBx5D6XU'', ''investment''),
     (''4KkS7VZiSKTKWseXCF7ypoYzK1GZDcnrHPky9s1AGNVn'', ''sovereignty''),
     (''4PPngrmaczrDYKoJGH2RFm1GfZtEQ54WwapUjyepjnow'', ''augmentedreality''),
     (''4PT94j4syopY35zesgcy6X64td3AU6KMjfEKT9EpGJmR'', ''aantop''),
     (''4QEE5daZDGLSodFoSinfG5bGFZViCGp3Nqb7bKwXVLvP'', ''multiverse''),
     (''4R3GYAiEpPNcfD7SbRSNqG81qSQkZZAuB763Weh4NAyJ'', ''usebloom''),
     (''4TDg4wwKFWZFg47dDXCqJM2Wu1xZFZtia3QZBAGazn4x'', ''financial-services''),
     (''4Tf2W8WqawzMzUMzL7mWUYCcGUi4pbdgzyRsnqJYxRWb'', ''cloudservices''),
     (''4UQxiFXafErxpYEHWBp4fCMXc5W5TDFU76u1yecAW8HF'', ''autochthonkingdom''),
     (''4W6CTe4a7HfFA2tezpy5qAurVi58kK7tdqJyWMygGsg9'', ''sikharchive''),
     (''4YRXziiFcnGkAxPyuwGbcvpCLEvC7rpXAeHRaY4uernt'', ''computerclub''),
     (''4Z4opFWV2Xz4y1FthCgNhB5ijXUKpYBWYhzBN1fpaxPH'', ''what-meme''),
     (''4ajYoEwZ71EkASFgfN62DSQJkah7YQCmeRUvk4BgBKCo'', ''sunday''),
     (''4bbPsNbP36V4WD9nBpSMdCkVnio9SAUdqXkPnfDwj1Ku'', ''velaryonnnnnnn''),
     (''4dPyERM1i4KN5LEUCknxudC1JQT3pJ8WkATZ6u3nubvf'', ''snake-nft''),
     (''4e5z3LT1EyXNDqEjB8fXKHrF1D659qydkCvnbq6wS3sX'', ''osprey''),
     (''4ef8R7GUjWjiszKXYUSPXeDWxqwMrgC4KRAjDAQa9qEr'', ''asonkurt''),
     (''4fGJKU4L9oKpEuvxaKgs9R822nyHGjaSZALfycb2ucwf'', ''danidaniels3848''),
     (''4fmMznVvyAiAxfeHUkLLvkePzFwPHHk11fdSWgnzifVu'', ''arweaveoasis''),
     (''4fsB7jZcqeKjzEXj61BFooYRFMhRfzF66RAXmX4o4jGa'', ''blog''),
     (''4fxCow6kmhU7rWaYMcSH1cVXLMvSbVWoSshV3RXS8TbH'', ''dandanya123456''),
     (''4gcrUp7qdnomJcCY2RxYsZa4ED2fGAfBZC7E49KRNvCL'', ''apeart''),
     (''4j3kTrDkNfEom7eLxFnuxaQj4jXJNJe7oFFQEwSvZ1tV'', ''galliano''),
     (''4jgBhQrkGraanBZUxPg3HX2swzhWK8QLWzbcdxPdohHE'', ''velaventuresgastao''),
     (''4oBayaYLJG68UhJqsyitPbip2WqrzE2xefDxumjvqyfc'', ''pharmaceutical''),
     (''4owS9YQ5yPcgGKU5VbpFW4BKPqDjYPBpr7jHCH3LNZmr'', ''luckluyaaa6666''),
     (''4pWdk1777hQfVAbzdLTj28sfihxc25d3fPAstcJGZyiy'', ''yes-it-is-i-agree-ariel''),
     (''4rx3z4q2xunCwkDXkBnHFwfjXDCQN84WikSTasfuuiGr'', ''carboncredit''),
     (''4t1HdPv41es7ssTjdPaGAveG9st9pY1fEDWm2yeb7Dy1'', ''iphone''),
     (''4vH3F642t9SFeYFhEnEFjAjJTU8Rz1ZG4s8vvdLrqSFB'', ''together''),
     (''4w6wjkN2pk51bDugfevi6wy96Ci4e9ewXbfncb6UxGYM'', ''hanlinxueshi088''),
     (''4w8R69PgiCpUT4UBQV5BhFDQyWuKShuhhyxPvBThQCEK'', ''cybersecurity''),
     (''4xSaBAmhcA6cKU8ZqFbyUCuAjBNq1JfZ39uwLJ9yaYgN'', ''0xdorifto''),
     (''58hk8S78F9RtmqauhAQB2iNHS44tkNv6DergGvCXfzKe'', ''photographerdao''),
     (''5ANCFd6vKg7tdWE8F7vK3Np3hVNUio33axP7bcKccRKK'', ''dumdumdeploy''),
     (''5BLZ86SXXuHWvL5sra9tFYsVnhpQpyhYNv25EpgXVxXA'', ''dandanya543''),
     (''5CKtktHxMwheZJred42LLZQsJn9fEJ6EgZYz1QYvVha6'', ''digital-advertising''),
     (''5FKsvY3oaHN2AMuHHafYt5CQFCPjRhYGYHQbYWC5dk7T'', ''yueyueyueyuede88888''),
     (''5GZEcrv3Me6UJFs8p4DQgQqqpmPfCGi59tbKmdGzWZhe'', ''telecommunications''),
     (''5Gx4zR3jTWD4TyzfS3Ecc8GTqxbzJrg8yKCAt7WDvSMb'', ''newspaper''),
     (''5KDYtUB5Ah8arczTSEvP7uhJX2DYVjbpRcrAT5cGyv5o'', ''alwayson''),
     (''5Lv1KthyEbgu4nSLW1bhYZvcPBV62G3RWq5g93Bz4aq7'', ''dummydum''),
     (''5Pb46xasbAimVekoNya8eoT4fgNA1Vpdp4kKDXHv26SP'', ''scaffold-eth''),
     (''5Rk87XxmJgG5R1WZwMegcnBKD7GivUKyFmg8gGNC4dSz'', ''exm''),
     (''5TvVp1XVfoVUhjFrDjXTD7WJCYr58B6j2jfeLb444my8'', ''cem76cem16078''),
     (''5WxGN2JK2PJFz6JEphQFWoMBXTaYhKcnikDLyAZaYtMt'', ''health-care''),
     (''5XucK3gNQh6dceUHgt9EiiQwPWGVaLRu2DCciDHYwmXN'', ''joshuawilliams''),
     (''5ZJgPK8W8YFEx8VHavazNYZvxRkeMm2gYDVZSnxEBGBp'', ''cloudservice''),
     (''5btqN2kA3rSTNGXndAs9yTGYXvRmwnLjxZConEEHxrSn'', ''game''),
     (''5c6HV3YSRsQXSz5GwcyTyrXaAMrFQ3yBxvJsnVXGnMfn'', ''hackerhouse''),
     (''5gQjCYgctVRRZkU3a4Hq6cNpwf4yDHbhGYtq7vC5rPaJ'', ''midnight''),
     (''5kanfQZmw2iP4jPp1DkGwtNpCFuBaHQy4ridEqNVVGoo'', ''3d-pst''),
     (''5tDp8N42fzdnCV6JXLVpj7mN5sYhVQB4Jwd5Z1QS8vxP'', ''p10node-super-logo''),
     (''5tRKjVDYKrngXonxSViB7pW9jtccxM1Kb3YV1XpB69GQ'', ''saintsoldier''),
     (''5u1CuRgJzfZrtGRZpjTnURLF41z4jcgmgmNbGWmMh4HD'', ''burakoztrk3582''),
     (''5uaMNk2PBypQUv3Z3W8kq5hbaF9j4FAsg9WgaDe6TMXv'', ''gulugulumuro''),
     (''5vjkrpTwgU1Sj6mF81uB41TsPbhdy2AuDgnArMCLVU6T'', ''superkid''),
     (''5wP2XV6MZf9ZiEAMK8FxsVx2kEWUJLjFsZiDfewUDbpc'', ''pumuckl1987''),
     (''5yZKp2L2jh3jedDWSr5VDQzG68VFotRRTbPgNvgjAcKz'', ''geo-thermal''),
     (''5ytJy4zXMFpu4SgfNdauGB2jAY2w5nwAbBGuphSDju4Y'', ''elliott''),
     (''5zpAFXdBZyWAvLwgnQq61uU5UW4MYSnNMc1qEJRcQupH'', ''nemathassani9''),
     (''612JBgSbTAVXAb8ZRkatidrm9ctTjjWCBhQph6i9D7zG'', ''cloud-services''),
     (''62gFhn1F4TAvAwibihn9VFVo8jmdBkXCFrWutWGWLer4'', ''stamp-widget''),
     (''63Adg8ouAqGCMJwJGLcDTqnQrFZBgv6MadSU2LmgHWcd'', ''advertisement''),
     (''64XibP3bsqq3KguNqvGXMoc5ZJoXHDoCNErFo2uXQmwv'', ''atomic-ant-10''),
     (''68RsqdxEQ45iu6YNphRgJDBP9nda4VKBePCH1x2WRYhj'', ''errollexige888000''),
     (''69C4GW67eoJvpDpSox7Lzr7GHbQ1QSbE4kgC7rNc2KB4'', ''probablynothing''),
     (''69KpQziMABY8yM2NqDmogyA1PjV5qoYipiqUDEXMv6kk'', ''welcome''),
     (''6EqmCoXeobuwqn5unDu6c6btMg6kPBWPzkSGrwnbkqtP'', ''1velaryon''),
     (''6J61HBDY4NpMPjZgFYQ3m6jW718XztN41k7GDGbGzNSg'', ''bigzp2000''),
     (''6LRNXGFYTB3nn8QWRdSYUUpAyMSTyxZvK4jSATyFuJPY'', ''testnet''),
     (''6MTDisGCqMoDLdr3F6LQaWZLoGg6oe7qvaeWsNoYEGip'', ''permasearch''),
     (''6McZrBRqB1x9QJbLG8S5GU7PBPomPmHJ5aeUBoMTLdZu'', ''digitalbanking''),
     (''6TyTVv3uSs9tQtHKL33RRj4yYG5scMFe57QmYQqkigYU'', ''alchemy''),
     (''6UnD1R5SiJNn78k4Dmp9E9yaAgGA8fg2hfvAcjTRHPZX'', ''peterpan''),
     (''6VMwRzz7D3uRtHA8co3mGa3rVwtwdkc5oEd1vnJ46562'', ''poseidon''),
     (''6WKz1W5BJGm5XW5mTYjjvAQ7QZmRT8FaQtyDaiN5LaCN'', ''robotics''),
     (''6XA3ps3DAkTkxg9PUkpjYoGVCDrVefG5n8Hy9TgE2Kmk'', ''hydrapress''),
     (''6XsqVjdHYZ57zEUgkejF6rsCtEQuu9rUv8PnVFcHoW4E'', ''thecomputerao''),
     (''6a5GC6wjqoK1UQ9NiY8SuYZvzprAvkVjw47bsrwcwhxm'', ''ao-bazar''),
     (''6bUUYram85QjpimnSPRG6hZzAhKM4JHAiRBY29ivRKok'', ''123456789''),
     (''6dL8rjBNs81AMY7wQQSR1cG52nPbeEZuAapibWboqoj3'', ''immortality''),
     (''6dzraNTdoG8TctgngHikxUhhpamGFMi8HuW66PQEsGV9'', ''realdonaldtrump''),
     (''6fMjAYyGCaYq3cDiheVjxsMsCaeD1hNcGPGXor3Naj7c'', ''weiweideretyu765''),
     (''6ghgC8Prq6MetztWg28RXyKLvBmGPc3DPsDuMsoM8byH'', ''dasamgranth''),
     (''6jQLUs8JYLmWpAcsJgtT1ETcMMqoxsHifx5Ry6rCtvYL'', ''weavedb'')]"

definition retired_ants_b :: "(string \<times> string) list" where
  "retired_ants_b =
    [(''6kXucEVTHzoGKD4DvpvBWoDHhVCDvqEGbB72rbC46GQa'', ''bakkalgaziarioname''),
     (''6mZkTCqoedPhi1p67eR8D7bADfMcLhAbnf8ugciBDBZb'', ''argentina''),
     (''6o43j3Hfa9qZb5bVMjuuFKvTpSMqW4TKtVgXWkw3Av5b'', ''memecoinsarweave''),
     (''6oBfTdahXSF5Ptp8y5NHqiLhdB4Nk8bRT8LSRQAy1AGm'', ''mysecondtestdomain''),
     (''6ooXA3WSU2kozmNfD1NCVsSfaq266pm3e8YfM7uK1rWJ'', ''thiagoarns''),
     (''6rPeuUYUMe99ShaSmBfYecZBExQtauedhNYsdwA92gQh'', ''geothermal''),
     (''6ueswekzZFdqNjhq12kGfDnYH7nPRDJXbDqZKWvk8xZ5'', ''typr''),
     (''6ukMn2njPp9UHPSEW5shWqSKbu5jhR6oGX2cCWywjRNA'', ''xnodeer''),
     (''6usmyhhpDJC5utZoGjXnrVyYjzsAs6kgJSnLQSMYRq4s'', ''devkral''),
     (''6uu9zWx4wCJL9VxFmmaGU13LZCrix6Xr3h9cPyQV4MDH'', ''ailineage''),
     (''6vmgBGK9GpVZVWUN2qCJ9jeA7rQsib12WMYKMDZoZJKk'', ''privacy''),
     (''6vqdLE9xEqyd6FYxdJpJ32ECZvh6jvgfYoChPuhKaywj'', ''venturecapital''),
     (''6xa8fyrfXL9hQx87mUa1SsMp8KPu9ZUbmiPPFmSHqHot'', ''0xyvzkc''),
     (''6xgfWcX3GQJVGLNT8irGJtpCwurYtk5ZSkhaWqtmjoaA'', ''sikhlibrary''),
     (''6z2PZh6mp4zrtEMjwtCEuRwQGXyAukv74uqSrJWNvfZM'', ''nanotechnology''),
     (''72TSSWtjjnWrh63taEAbaJaZESSot9iqAPvmfjRtcjVa'', ''arsenzura''),
     (''73UwZxw3Ls7C7rj9g1AZrTHT66Sn8GQE7wf5CSohCNcK'', ''cosmos''),
     (''751av6PWhNxPrMrpddtUZM7V52xQERRvNYku4e6zYKyY'', ''jiemu6666666''),
     (''7AXJ3ErhQoV7RUHZJPrEVBY72VJJFuztBxXBXL5bZB4r'', ''fmferrari-dev''),
     (''7CHC6dVHkyazp1yRmthaomywXeChX73NLfcCr8ajgJk3'', ''brian''),
     (''7DiWH4r7HoCWgueZhcNqRfKdG4WFFQW3NhkMtUdDk3gV'', ''worrycloud''),
     (''7EuE62qUL3iAAJeJfJXKSyeRY1zj9cAxGvBNcLj73DJq'', ''futsal15team888888''),
     (''7FpM6jUSgzhddf9nMf2kP7QK2SdENJh3ds9YdVsjESzQ'', ''erenyanik1234''),
     (''7G6Pgo7bTcfvYfKzZ5ir297dYFjKQ9jsvzvoavPEbB3x'', ''11111111111''),
     (''7R3RD1KXSTsKbM1C463jMQbeJWQzTDdryZvvR3HELh3f'', ''nuclearenergy''),
     (''7R58tAXPB4dEVwUdiUeYdLgArxqJpkKw7s7yMcQqvjJo'', ''unskilledfather''),
     (''7RmfFDyPAsEZw85uRrX2jo6SiPoU8jXHorqY9JbmxU4M'', ''akashicrecords''),
     (''7TYxcvi8hVPY1GNyFmp4DM7zdNhnDLV4hL4eGcA6KZvr'', ''aykansal''),
     (''7Y7bevzPNdE6jgGiWhu7igPoFC1EiioZ4D5XFSVFFrgp'', ''recaptcha-vouch''),
     (''7cGwnfkwhCTd8XXjSCLSmDzrMRzsqse2GkWpJbrijURi'', ''zavolli''),
     (''7dEDwvVgEHXXo1GipzaejtJ8WCSiozHuEAQcLtN1JZax'', ''notthreadguy''),
     (''7eqiaqh7Cpm56n4aySbtRib5k8CyEsu3BeY6PHF4BXuP'', ''crosscrypt''),
     (''7fWRGkxJuTpqTbtQZUvYfskEG2YNpmzeobhXTP6vE9K9'', ''mouse''),
     (''7hE8kAY8tXNCrH2GQTdCfuKEAoVYEUjNbsRAGNMtyARt'', ''ruolingya1234''),
     (''7jQskCvUTz1T885m7ZHVyih8JpPdwHG6TrGCzxcuseYi'', ''devkrall''),
     (''7jsJ3ABPyop6CKnCgetihzirNaxbxUnoSczs2UxsbSSJ'', ''supplements''),
     (''7nRbSP9ZajvvXm96PFMUuMU25RdrYnUcCE1x3B8HDBHn'', ''anugrahexxe''),
     (''7rCHLB7UKoWSWDLSzK87yVoxDysw9tUbJ4w2L6hgw3GF'', ''doggotothemoon''),
     (''7skLEDeCRkJHWan7paKJkY3P3EwaytcDkTe1C98ArsmJ'', ''bullishao''),
     (''7t3rTqSQCB3qem8gaXJZsa8HxKru8fscBVo7H7wSKQyw'', ''parallel-computer''),
     (''7tiEDBvw7X1hAHQfdZ3sAnjWmEkbxBfmgvhzxVEBvfL4'', ''mohammad''),
     (''7tszpSx8i8pCFkq7fLxBHBPkLjnS8uULNvhiTEDRubyX'', ''khaldraga''),
     (''7uGgdGLMyy4w6CuPmKp2JYSNy5eT11gLbbjHu1FC5UbA'', ''augmented-reality''),
     (''82vREv2M3UeTp9cofXToaMmTonLvaLpyVZEn7A5VjxLP'', ''mysbe''),
     (''84s7qi9ob9WRGjBe135wffkHRQ5ArQvHQghxyCMmZadE'', ''vouch-introduction''),
     (''85ZQxzd3nHp8Fb4hBwootVq6WZa5G9sztip9K1tUVURv'', ''gameofbitcoins''),
     (''88QteKQt9HEThy5ud9seWjkY5P2SqCBLoarUWKyrNuRk'', ''hanggaa1234567891011''),
     (''8AT3M3m3xCmxLDCSySNSv8pVxwVWA2uHxYoG99S5xABp'', ''render-tx''),
     (''8DVcVx52Lh5e7rS4hYZ7yazey9qCYGtf2jk81wTnDYSi'', ''genomics''),
     (''8EZZeLVVmbi6n1H2sUBbk7FuHmUB9nzANRErpKqQuKFT'', ''advertising''),
     (''8G3GrFxzY9uGfoxLurjkJqoXZ4ENsQ9Vi64waWfXQLq'', ''000001''),
     (''8J2eCFcPHg7kaDSfeqUxJgUkpbY6QSNF8WDw6rPHhc3o'', ''dark-matter''),
     (''8Rb4V48F5gkwvc1CrxZk1WSKKqt7ZgoqrmBH56huWKr2'', ''freepalestineendgenocide''),
     (''8SVBMLH8hXrXDkGfw9E8Z4j6FYgVTcBwuxDdU48RMoz5'', ''semi-conductor''),
     (''8ShqGNjLrhkH4ZQtwLd5kXsEZ1r7pcoQM3iBtf23sv8C'', ''xxxxxxxxxxxxxxx1test''),
     (''8TEXwPGbW2Ct8ReHgCvRpSMMNT8envt3gAbbT5ywnb56'', ''semi-conductors''),
     (''8ayM5LbEX9ANhSGuzFeFDoamEChJjYALGqqWGAGJAMux'', ''domain-example-alex''),
     (''8c22ZPzUcYpQNzVZ3fEHWzQSDgft3kuxwWenYUFrjEhr'', ''erdaerdaerdaerda''),
     (''8eG3SgziZx8D3rxFmGXwd97JUHkFBr6SQqjXB3MEJ91r'', ''happytown''),
     (''8f3pkEixGPm3XEnyfkUop9QejseMBf12EqTLJeaX3EXD'', ''zqtx10-arweave''),
     (''8fCwDuzrnMzsyanEo2eGY8paRJTBHcMbJnJ2DzgHV6Pb'', ''tswilsonart''),
     (''8gwwkVEMMk1gXnxkebNFUQYEwD2k2DFWx8FyfQX3WuSr'', ''facts-protocol''),
     (''8gykKPbc8ftkLBAY8s5cAMUkBt8Nr6UQMskLcypm2c5S'', ''heart00ace''),
     (''8hKDza68zxFAfu6TDmBcAre5RMkwioJY5ixvbBWmBuKB'', ''smart-city''),
     (''8hsVMCAGyN8ijBUomXku23ySazQ6TAXL9QbtFtBXpDez'', ''xxfirstmultimediavid''),
     (''8iuZCx7ZtCtigYWaH3tYTZdVRLcHbhHgc2C3AqNtx6rr'', ''infrastructure''),
     (''8mY7htEE2AXCEtrpNSQwFTDFw2v3Aj2Fy5z7hri5aaBz'', ''vouchdao''),
     (''8pBRJEYtz33huw2uJzsqVGc2pBwCxF6J8pUnvcm1iKDM'', ''protocol''),
     (''8pbidxBK4iTwFezB6QN2pCssM3ykjpkRJUZNVvb7hZUF'', ''playground''),
     (''8tWqzPUmWYRBGiUgHuWKCTWjmyQxLxRKUSToe9oYzc7f'', ''airdrophunter''),
     (''8ueNA4gKfTb6XAgzXNa6ivtvT8D97PmF9chj5ebeNYzE'', ''xiaoqiangkilop09''),
     (''8vh95i4h3k9VVh6fxVK7UuUa4RyaUU3RYXKUJB9TBPCA'', ''lyrics''),
     (''8wAj6o7mAirkmdputcg2ZNrkwuWnDj3wJJWAaACN5DzG'', ''delfi''),
     (''8whrM8Hom23Ww2k7jUFVEFN3wCU9zESgF5piLRBazbxB'', ''now''),
     (''8xCtGtYXVyuzzeAGwBUdCAFQkRR3zKtbMzhhFGAVMxN8'', ''manufacturers''),
     (''8xb6KzMo91uQrp5TZj5cBJm2vGxJ24RmF1ZWMREBY26S'', ''bohdanvelaventuresdev''),
     (''92qv6QnJyQeFY9tZMDrHPBfWJ3HEkJFXDAnL9K8MhW7K'', ''alethography''),
     (''92sjALXCiSY53nfhrgf4hdDMZ39ec3TQJNpch8uiwme6'', ''cypherpunk''),
     (''93SBAQQDtyyy9b6jyChuKdTKNPZ3KovMRuJoXmvz7SrA'', ''honghongya''),
     (''97XarLJcWtWHHaTgCfWbhvMQS117UvvzQdcCJZNGxpSe'', ''scientology''),
     (''97aLNHx1kTYsBb8NwWF34bRqpdzuTvzzibLG1tm7KkGF'', ''consciousness''),
     (''992DS7pJjFYuxcAPpoyPZs8hT9caUTSTevAopF5Ctdzf'', ''immutablevoice''),
     (''9BJMjL63nPTEaHCbNnGSoguDSCnZM219mnGXsVHor1SM'', ''foundation''),
     (''9E14hH4mswwKM7BWWpzordaQepNSqp2d2czA6oezi7kk'', ''endurosss''),
     (''9FMc8JFx4yxg5pTAZGBMiraNrAEbwVHfJFtRQ8FZbFhQ'', ''cryptogirls''),
     (''9HF7ijcZ8viaD3N9kg4qpLdBkegAUQAggUvPtP6PnR8J'', ''ventoexchange''),
     (''9NJ8qfxuXjVXRGL3EKVgLmWpggJF6PBncQpjuS6YSMCF'', ''conscious''),
     (''9QWMvHFwqfTSmiRd9e4tX3q5c3NdBLY5wPyhZ4z7FBms'', ''kuangyeb123456789''),
     (''9SxT4jdPkCrJ13zPQhkPo6hrjwmNjttZQJZ8xTSTGRHf'', ''deutschland''),
     (''9USHNUK7ZfeGPbjPZmJLhFxkPCDiR1X36Z2FByRpmTcQ'', ''archivor''),
     (''9VBpeYgJh6iCKECMtsReG3SeoYYj8Jvk5ghCiZVz7MYE'', ''playground-usdx''),
     (''9XxCwbcojo8HKMVBSXHV1efNoNoVEe4BTCRCkLLxKPtZ'', ''renewable-energy''),
     (''9Z5PPkSsjSwKZkrsi4FhRNDjrfT1g1tUGMnq8BpgpwM'', ''kiarashsoltani''),
     (''9aK8Gkw5296BiGdwQtEPMcKjWJyJKPJ3JuTL1gJiXcx4'', ''megabyte''),
     (''9aRGYbDYLipKk2Dv2Yyh57ssLte9G7mUCxAs3hFZRsXq'', ''rabss71322586''),
     (''9aoyc7akMWXfb3e56fhUgXSjgSPgb79MHXvB5dnMvF2d'', ''advertisements''),
     (''9b3QzamcUygbZ5gdCo4NL3N8qFt6ELAptEqnhG8AvdVS'', ''mzyyndrgn''),
     (''9b3pA26wX9ktKHkzG8JxmijxN5jpEV88gXafMoAkZYRQ'', ''astonmartin''),
     (''9gd25tEgoMyjEpPSSToab2sbBnCdnDMhFAo7ctjyZaGD'', ''judaism''),
     (''9hapQpABuiiXreuBQLovvX1VeBAjacCCeqwGFfKG5wuW'', ''biotechnology''),
     (''9hqHd7gdA4eerEoSUQ4q6q2PQQoPgnYR3CR9B7Kc5Xsy'', ''niknezhadreza''),
     (''9ifGTQHfmSEUBqJdELKDZdJUNhDAv8a3sS1VGg9NYP8m'', ''birddog''),
     (''9j3MhNURhBiTmoS37ZPCazVMcw17CNom7Rtq5evDSUQY'', ''googlier''),
     (''9jWELGBuPmuTPAQ1wd5vyP8U2ovvTQwjWJ6pGgSYfYQa'', ''meowy''),
     (''9k6DwKaStsgpsnje7sq4mcewQn8CZt1Fw5SEkyBcoCUA'', ''recover''),
     (''9kNeaQzF562W7BqVjNZNqtugFTdzz32eX2UZo8uM4CvE'', ''octalmage''),
     (''9nFWZSggdmuaLkTDAv92wop7KA67SgfnuaK3P9iX8aiS'', ''televisions''),
     (''9ntGwajUZrLGLLF3bVsZbuQxoU7KdjDXA12C9XkYL8w1'', ''nik''),
     (''9oLaGWnfrJPqpuDYEkL1UTkfwrn1vAV9rU2NbMh9Xix9'', ''neural-networks''),
     (''9ox3gZyughBPfVBfxiHkKcA4wQzpfsDq3tpmZnyYguak'', ''waheguru''),
     (''9qBGjkpJNVpWNBDXSS38L2UiRcASx256vTgjeKuXAvNw'', ''machinelearning''),
     (''9qnhVyiCMwLTG8cNgw7BNoFyoSs2GUbiw24n3PFHQjnB'', ''geniedaomaster''),
     (''9rAuAoTWWFTNiJ8v4wdffd8igA2YCnxQdeKF4kvshq2K'', ''wheeler''),
     (''9rQLC9ZMids24mCaqmv8umkCsUG58t68CT8L12YTHN7Y'', ''wardepot''),
     (''9rYkKYR5KFyce7kUNws8PikYsYivdSSkMuF2uQoKdL12'', ''shitheadshitheadshithead''),
     (''9wEq8cn7iRJnrPEEVqaBaWSGfNxN698QbUzrhyrD8QDj'', ''muslim''),
     (''9xg9wYihiaJevNju3C7wJfHeAhgdxmwpJWPBAn2ZNMyn'', ''singapore''),
     (''9yZzzttZRnd84PaeuxPmmPUQa9y7PsXZStkhrrfBQmof'', ''arlove''),
     (''A31YofNZgMV3SGp7Khv3ZiP4fgTav8p1GdBwm86BpRRK'', ''hollovman407046''),
     (''A4iKW35aMrixTMcy8bxB7DUFqFJfxvMiwyu7qHwyJmC6'', ''manufacturer''),
     (''A76CqmfirhrBFKoFDBdiPZ5tgxsDxkbzNCDkPCAQzvN7'', ''blockchain''),
     (''A8GvcVoLwB6rW6QCUAoDn3ChjAMhVsQusfonAueCyA5T'', ''bio-technologies''),
     (''A9NKcjaEZNgc6GkdRsjTKVn9p9pT2EfDiqaEs8Mbz27h'', ''0xvrising''),
     (''ABYr6HMk9moQv3zQssXC3HjhVBkiDu9RWFg7rWVxFcPs'', ''kasan359kasan''),
     (''AC6qkWeJdEZXsLbPEWXDCq2nUbBC4Pj85zrQAr8deYvx'', ''aothecompooter''),
     (''ACkqU5FQMhat6SrPGsEYD66d7XR7vXEun7v7feitfWDA'', ''messaging''),
     (''ACyBeoqgWH2Bd6PZ3grARfGfyfwbq7znUfQGkPqBBcBc'', ''dev-eye-of-ao''),
     (''ADkEHVgmcocXnL81FY4CCSGtt9s7bg7evy2gmSHgDs5r'', ''quantum-science''),
     (''AGmK7ASqH8RCZHYaMRr1LD6iwDLjDmiFfRy1ee2buM8e'', ''presidenttrump''),
     (''AKNQrUQgx82a66V7FBdcCzi4RXZ7VssV5oPTae7Dhw5c'', ''gekacha''),
     (''AMgpmHfJzy6CnLxzejHjEYqdULZMPyvjYrpLgDUaQWRM'', ''newtesturl''),
     (''ANVszRyURRvsKCqqCh6dqMky25EdFu7LegKvPu3t7zT8'', ''gql-guide''),
     (''AP4CLsax23NqFkfDFzN3FTu2S22c3wQpSsNskpym9DRe'', ''home''),
     (''APNtJYyLVf6AUa6gZphqVj4KVVUV3upRp4QFKHey9GC4'', ''aslanas01''),
     (''ARHB9XijZuYWfCXtritgBACQoyUyiCvroKcF9WYNHcrw'', ''ecamli''),
     (''ASp8WgLS9N84jK5kF8Mus8df1rJoSue4BM2idbTKy8Hd'', ''malikspectre''),
     (''AVR7SsLhuxEWDLGW32rzDNJtPGQuE3gg9oU7tMe6eTwk'', ''dexscreener''),
     (''AW1urrsBT5pWBWpKsLhsDuWAwdFNKZB2iqtngW11K7kv'', ''the16oracles''),
     (''AWxZGea58T4hFz9LrcwX8KyF638LLhxoCZVkmS5BG1N8'', ''seerhannnn''),
     (''AX8psBLen4vtmCkaNRrSBzLwYvQw1r5WRuAXFRAZqjkd'', ''arpachinou''),
     (''AaSVXqdFVctFyiajMbUuG3vaMzwwYPu8cpNWBBFJwUrL'', ''pbmtk365732784''),
     (''AbTwaoevMn8tnLcJeuXT9KKcnNQQScjELZz2riJBgMDr'', ''super-computer''),
     (''AeQd6S1NLb6SGhuM1NMC6wqtBfkmnZ64pMKe9PJ26ogh'', ''aoeffect3d''),
     (''AfCKSXgJXpGVPbmKaRgwrXV1e9cCSvFq4mZU6h4xMr8d'', ''painorgain''),
     (''Afp2wf1L8g5Jdkb4JuGZhXNLUdh2UW2cS8Yfan2u9EdZ'', ''software''),
     (''AmzPqknXWf6UMz62DxA1BKgbPSjSKgxyk7ecfVFGpxNN'', ''turkiye'')]"

definition retired_ants_c :: "(string \<times> string) list" where
  "retired_ants_c =
    [(''ApTiCttZhYMsEBXpLQTTjy3pKg12ZYpwNst5b9HuC85f'', ''artificialintelligence''),
     (''AsSd1wM1jfZ6EMZKsGLJTwZAT4UR497V9bNnsQtUnWs7'', ''fundars''),
     (''AtFJRi4Mk35k5awUwNZSLee9gNAzLrnAUVhN2nspqPm5'', ''renewable''),
     (''AwzcxGoXoimRQSAJg61DLH2F3Q1kQYCBAWJjkWiCub1a'', ''spacetokenomics''),
     (''Ay5ToevvpA5sZ2vNmRUoVyQZiCDsPxRpgHK3L9i8rxt2'', ''xxxxxxxtestfirstblog''),
     (''B1phNGpvBKS7GioSrZ4woLbSicHc7ESubcbGqQJUFzS3'', ''mykawaiilife''),
     (''B1sYJsdwaRMh7NuLtmqSNN5PxTd9e6SRrdsEfgDnuk6B'', ''maddhouse123111111111111111''),
     (''B5234PoWJVgF7zUogF5G6U8VP823G3KjSHCbgnBcwR4G'', ''penaforte''),
     (''B5kiQyK24E3gLDm8pzWpKoGYSzkjJpE5tArU9RXk7eps'', ''moooooooooniaaaaa''),
     (''B6DzLo4pxXi6xXKGw1bPmXiNH8h54ekBqRB45Bt26aa3'', ''mastergateway''),
     (''B9QivRoVriZt36N1kt9Bo2ZYMecLHBEMaUpHQesufCV3'', ''gykon19890332850''),
     (''B9bvVQfbXkHq4UcyfbuHa2Gdbk2G8xXcdveQTFtb3NfB'', ''yayayayayayaya67888''),
     (''BCrtaDr1ZUDnUFoC579WDYpK7ritoePzbyUm7y3wZVvY'', ''dandandandan''),
     (''BCytHiS4j6MT89sEcB3T8zuHJjBRUJjqvZMyJehnM7xs'', ''worldnews''),
     (''BDXrCULqvy5dCGqJRjuGxb5W36ee5Z9q5gvKrsR7Lh5T'', ''virtual-reality''),
     (''BELj8jCAHH5LA3WdpCLa3ri99g8sbkKQymC3pTnBQmCy'', ''e-commerce''),
     (''BEMXY6ChxsJNwyMzf9usC4fXndSQQDNEwhTDCVGqvF8a'', ''christian''),
     (''BEim87fu3FRhJwQ45PCRyV7zE3SuZKJPEcQwJEK4n2jZ'', ''cloud-service''),
     (''BGoagdKoHvSW8oEnWHepkMLn1o9JkbBbCJ1Nr6H78AEe'', ''biotechnologies''),
     (''BHHQVD4WfFEe2e45TJvEXgun2u3TsnC4aKKN5YxLUGgX'', ''sam-support''),
     (''BJ4LhsDdT4MN9uNaGQUkUX2VamGYCfmAzKwBHSNViRwb'', ''firstpermablog''),
     (''BL3LcdFJMx3hU7Qj7nj4PJvBvpuVTfpB9zNz5qAfErGx'', ''trx1234aa123''),
     (''BM6Yjy6jLjfad6ZS5nnRvZpkonxaVJUNYZwZrbAgVgFz'', ''smartcity''),
     (''BP2UDu5H4kXn1jhbRndSMLVYix8JigSj59Qq7bqzrPUW'', ''img''),
     (''BPGy35v17xi4VcEbn1u5Jy2uLxqswidDUJQFJNhinc48'', ''kilicislam''),
     (''BR2jySuaQyJEBMh1pw9UJ1yQoZ7BqPYV7KLryzhcqRxe'', ''manufacturing''),
     (''BR7JGWrcaXLEMCACArcDrtWc96v36W4wRAfaWisnXCTy'', ''sarblohgranth''),
     (''BSZEc4ywCufccUBVe1zEwsRZSMzDhvxWvYDWceDCtYfB'', ''satnaam''),
     (''BSxTqdYs6w8ES7itT4iyxQhBKPba7wYwHx47HSikXTTU'', ''carbon-credit''),
     (''BURnWx2aRPrRQSWgk2am2r4kxLmAgKdQjGhBb3owx1oW'', ''cryptomonkgateway''),
     (''BYZ8s1BYy6ENvZMfvEZxMSgYyPGAn3uRr4gy671BMZcU'', ''localhost''),
     (''BbDEVJ7GfaUMYiNkosw2z3c8AXtqthwXKNJ2AqjYPkCR'', ''gogofaster''),
     (''BbYogW7WLRrC727Q7dVt4CVayfc1z65hT3chBL8Wm8iR'', ''blokchainaholic''),
     (''Bc7vnrYtJKPcZuvQ6L6msS9bCzfxxADhPDKfmtVdz6uH'', ''khalsa''),
     (''BcM2AfMnzvaVSXuG7AKN2E6ADFufrwTRqFNHApggHBAc'', ''dev-hypergram''),
     (''BgLmpHdwYY3zN6j4jwrGG91c5WzEFSRm8qnFtF23ts6T'', ''smart-cities''),
     (''BjM5WSmmapYLkVVcsPEceUr5Qw7RiN13EFKGVxNQZmrL'', ''decentralisation''),
     (''BmJ3u5q5brgMVAi6j5MzZo32vMhV8su8HyBcWeB91dqy'', ''logistics''),
     (''BoFSgzv5HarL8u1pF2Hd8FSHqm2oCGB8H93pjdi8uk1R'', ''starbucks''),
     (''Bot6exk1b7k9vB6CdxWPjJpxRg51tAzTL3waF1LNgfbk'', ''beacon''),
     (''BpSuREb7BLZo9ZicUezPxhVMsyRbuE9AyUoudU6FK7XC'', ''suidappstarter''),
     (''BsyKQM3oTecmo3PZvceSgt8ip32r1onChRSvy7NoR7H'', ''thiago2''),
     (''BtLViVH7cnboWFUJ4HnWgqxgwWYKznLhhyV3oextBwCg'', ''revlv''),
     (''ByRELrzVmFSWX4GqwP1SzAukWaPfs4aNRuBmVfjgG6sA'', ''linux''),
     (''C1wwzLp7SxG3f8k8eHVPBEMwjosyRoAJW3A7XStbNDbH'', ''7thanniversaryofarweave''),
     (''C21uNGpL93jreWJo3bFDAe6b3GBTgUqUFqVKyHUswgfG'', ''liliya43256''),
     (''C3cnYVUztceQt4KSXZp8EHAqEaQPZaawGcXFLA2Q1ZU1'', ''kencodes''),
     (''C59Usn6GodAQYjWUeayhXJQ2zemUW498SsmePHis17rP'', ''valardohaeris''),
     (''C75yKYFK1DVqPwF5vSSQaHMYWoorgEXxMah4ksZZfT6X'', ''iownthisdomain''),
     (''CAMeEeQnUSxHxhi8EPFPv3RzMcVHZXv4Rj29Gzbu2Kkz'', ''semiconductors''),
     (''CAQye7TaS6YQnKj2xGpH2YT128ZBUiPT1MeJHb3GstLU'', ''bazar''),
     (''CAj2h8krWucKti5BhndEHmhXX8bPt42qxjSFj4zKQ1kt'', ''pixelgaming''),
     (''CArxpXGDu5NDcPAvkUH5qKYufu3S7s3erFcnHzee1wJV'', ''0xsiriusblack''),
     (''CEc1xY8EocKfkWHM6ASoM5CPxqXa4XND2R6uL7xW2CvX'', ''wallet''),
     (''CEd7jWMUqYJYNFR9gCJxcGrYgEsiKdZh7ZaVyVBkmLM6'', ''saribocukkkkkkkkkkkkkkkk''),
     (''CF8URfEkNyEcD2AZwq3p9hbAbzYcdDfh1uhHBTRgLvZg'', ''contextengineer''),
     (''CFdtmQsJ2sHdMfuXzzbymFmkiqC9vobTN5A4PuddKXN8'', ''semiconductor''),
     (''CFhyE1dS8bnrRkioYmPerTzTcAZ9huUdvhBjG7bdmobE'', ''quantumsciences''),
     (''CMYDp1us7qLh1PVtfYR6zoZAM6JpzrZeYSs2PhrGPsHy'', ''venture-capital''),
     (''CQQVmhMeQGm5544AS7pgtYb3ZwMjj4pLgM3Db9ryStEj'', ''medicine''),
     (''CSHCrmUihnmZDLkphy527wJ7bR3Q4k5NfBf93uMfKKHv'', ''eclipse''),
     (''CTonTAcs9gUi9wbz73sqq8kiL2PWmG1P65NMPqjzuYJB'', ''deloreseth6217041''),
     (''CW1tb8BQaoAM8HyQuopay9ziPxUWtjbFzAAEpboj7UYx'', ''filecoin''),
     (''CWcnEASXahGGSGnnnzhMFnGrRjjgfnrzAcoz2LMKo11n'', ''strategy''),
     (''CYJeHNki2itFcFJeFK8QfJQCPFzaSD1rGQ1MSRRBZQGe'', ''mmuatt8686''),
     (''CaJ8RttTWcCEHwmQLs6nExfJ2hZCCVoRR5SxZu9umSCV'', ''prowsemre1016''),
     (''Caq8M2ojmUzLNgGbK6ERpa7wHJ2iFC1cVZMQaBXtUZkt'', ''real-estate''),
     (''Cdy7Rz48vLTYdXPLsJ7U6itiB6JizpvTG5YQ1qAJAhLz'', ''binance''),
     (''CgV67KvEJmvtzybRUPVh8LQGkeswMj23UNpFHMxGnkC3'', ''kryptoballs''),
     (''Ci4h7SSorkpDeZGynb47fzRutkUBxqccvFUCsrNzr6Kh'', ''streaming''),
     (''CmUQVyyijirNep2vPaiReVTrSZ3qEq5u9fcrVXqyGrPN'', ''neural-network''),
     (''CnNah8sPxpuaFbXsXuSMn65CCAW9ewQmhHrdhmMoqeJM'', ''lamborghini''),
     (''CsL4o7DuNNWkAWECSMWorTFzhJhh2MEHRrzJ1v6AKwPs'', ''cryptoindia''),
     (''Cvy2CYS7AMWPKQwxQyKHzYyidXJ31G3WnmJBqGHqM452'', ''pornhub''),
     (''Cx8ZkhykVHH3xhmQmpRdEiu1m1RgsSiwnE8ZwEdzVcee'', ''daikai''),
     (''CxGQkSEiV21vrgafNcofqYdFyip74rder395LzmEcCDM'', ''crypto-currency''),
     (''Cxx6T17MTUDH88SFwV84fZ3cRARboNQDkKTevcgNN2hT'', ''bojanmarko''),
     (''CyWnk4i9w4Q623z3MUvUpCfEsobhtvfWrKVjaN3Pk3Ld'', ''testajayacobayakakaasdasd''),
     (''CzUpbjFUHApbggcyMJ6s5tq2NMf7hTY4bJnqs4WeyNHD'', ''pharmacy''),
     (''CzukUGTMnLuHExAoHWPc77DRH3nsJV5Xqao8WhuHtuCz'', ''teruuuuuuu''),
     (''D2qnjnd96eRTRvSdHWFneeTqQUzzUtpDtQv7oM1KEgyf'', ''forwardresearch''),
     (''D7GNx3PWbJGxt6ef4PVuMgNEucQiUx9tpD9ufGqLaafd'', ''myfirsttestdomain''),
     (''DDao82K7TqL2TtzhR9yBafpqhq1Q5GA4D5TLWK2M8Z6V'', ''smartcities''),
     (''DH28xzfJ1prSPDgA7rAsYZVYBFRvH21xtsYH4BnfmKj6'', ''xiaoxiaoyawerty234''),
     (''DHGXpWC4j6sM6rYfKAfdktaUxNe4VEQPyXTvTtfdfDXq'', ''portalinto''),
     (''DLQu8FBVs7PT9A43EeBnLv5mAGxBwpY34KV9JBfURkNo'', ''philwonarweave''),
     (''DU7CasAv8WoZ53gy7z4c93EzkneKqrcipxiAF2PZuY4U'', ''12345678''),
     (''DY6BF32AZpzZJHjCmB1K1p33BQaagLKUKWfFb6NZH3SW'', ''microscope''),
     (''Daw55564p3HYeSamhEKmLadMUTwcYhsfQJaQcuBbzGrD'', ''arweavequests''),
     (''DbhGCsgY5Taqy3D1xAPdYxNvK1eDZ9mLJVq83v4wMawT'', ''budikusuma0908''),
     (''DcKJcrmjPo15JLwziWqrLvQpsuaRJF2unrZork3JrSVp'', ''gravigravigravi''),
     (''Dda1Xo7kznEsqaSChTgyETFKuaXjjz5vqD517c1Ux5au'', ''everid''),
     (''Dea5C3usNywjjZrQDyLNL4XhXCii5jK8mtk1ZcpnpJP4'', ''isarioonmainnet''),
     (''Dffp2EYQrTzspyJdxmt64KVsB14pmCz8gxLDXz5XJ3AH'', ''permaswap''),
     (''Dgssod3WEtpogJfTQ1t3CXfGrQc1UPsRZ8UJEUTXRN7Z'', ''astralplane''),
     (''DhWggAjG4Tsg3j8qg65YC2UR4BJqMxWu12agipCXLUjN'', ''faizeblk47638481''),
     (''DiPkfztQsVJNGadwjcmX3nhi9kbnFxDSVYRMYwhRRbhP'', ''vantablack''),
     (''DkmqFGARNMAVUeWgmZDu5oxLZk1yd8HV93CNLvzX1gsL'', ''s3arch''),
     (''Dkr6noogj8aErf6oBzbKdhXrExMPfBAYrysyrykUZFBs'', ''nuclear-energy''),
     (''DpXE6C9uSJpgaNRpsNYFSgnd4ZvWh5jSU8hqKBtg9M9R'', ''muhammad''),
     (''DrpfS5BhtT7KFRJme3tXvKWoRBVdy8K8TeCyVQWyGt7m'', ''neuroscience''),
     (''DsBuiRX6UbP53fdhLfzwSgoqdp6ULkrfxrgHtEm84aZU'', ''seeebau3713863''),
     (''DsrjFKXoauFGqJvCrTHZ5qYZUgRDxLKL22nHdVa5WQnT'', ''aerospace''),
     (''Dtmt6JBHmQtf8UuFCdeH4ctMZk9ximrq468xhrUv5jXh'', ''michaelbuhler''),
     (''DwRn2nDwuBYhm5k4WLvRaMpVykxrTrTAz3mRGtBaKyVU'', ''myfirsteveraonft''),
     (''E6WZ16efATcXyV3DZMyCV1Dw5di2MxqP6PigDonJ7v23'', ''support''),
     (''E7tGXFZWK78SRnRu2q7WjegH8Fnfg1Dcf9oFDwozfT7s'', ''library''),
     (''EEN8JqNchemq78zpxCA3sDXV4YMCqG4fKJF9yFXk9ey1'', ''search''),
     (''EFcZkwYwRAmqiheMB3AbJFKA5XcDVPzjy7YNyp1HYLPu'', ''permamind''),
     (''EJYMhXMgYP7AZh1np5oNY9NweySjjQf6vnP8FHDRLnm2'', ''neuralnetworks''),
     (''EKS7z94ZRi3eujbavJZnoz1GnAzLvVZAx1XwT9Hik5nk'', ''purelands''),
     (''EKuw2KkweANBcm222TQazuxtVzoqRWveYGvhK3YHwd5d'', ''neuralnetwork''),
     (''EQwnTLKC5PAizYLzpBFP6M1QvRpSygGwURgtY3Ei1DHe'', ''sovereign''),
     (''ER8ahoqLaRE7S9qoUN7T83jPcWcSfesysb6bWNvBkNX8'', ''softai''),
     (''EVocGmDxXwhrVa3bNRjSToKeJnUTGoGuDZpHLJZCaoN2'', ''bamboobee''),
     (''EWjS9sbC24WCbjRWedhSKRWczy5XbFm2Ftkv4qZzsqyo'', ''365579784580xsav''),
     (''Ea3G3mP8vXFqzoH6uqZPvguV3iRWiNDpHQw4r4wAUV4g'', ''communications''),
     (''EaFSaLXaY1Wyeaacb6nraXGxK4qHLkrHciKn88botjcn'', ''kaixuan1233''),
     (''EaH1CKKsPNuMdKypxqQiU9Z13fBNTRAp62o6Ua35CX6p'', ''permasave''),
     (''EdyqaZ31qYyPzpaF8GasTfCr9UVYD8s2pwkgeg6W5wfj'', ''0xsefa''),
     (''EfMdQcKzth5wtKkWDwnLQzQyPbSVU4smo5KG56pa2aDk'', ''healthcare''),
     (''EfRKthdW5mMR1LFwtVAuNB16wwZzZryxfxnUw2iJptxA'', ''kilicmevlut''),
     (''EhdurWCMLJKQcA8Wh6fpekuoiR4ZFm5Mw7u9uijunBXY'', ''web3world''),
     (''EihZLmA2C8FJNDt8oJNC1tdgHGW8jQUJPiGFiDCZzVDV'', ''internet''),
     (''Ep3i7sLp8tHmp2fz6vhwJqNtg3xX9UuLjxD8zFT4CdHx'', ''tomo''),
     (''ErxqVDsuRNP9QVxPMzLSYdR6omA2qdDu1SuNfZ8oiXjD'', ''cyber-security''),
     (''EsygcJjg5zHLyF2aoTjVoymybu1K1JasbJ8ZgzJcFZVy'', ''arial123456''),
     (''EtkpXG67cUUhZHJGdcgDViuTuAm8jBxvjJy2nkD6PEEU'', ''machine-learning''),
     (''Eu2XMaJSgxz9W3mS6wkHXhsLELf2NwgKERpCBfkMoaPt'', ''atomic-ant-8''),
     (''EuzZiuW2yBTKGeFugoas6sjtGUE55PyE5nCNEFnvsyoA'', ''celestia''),
     (''Evstc5jHWoUxBdXJhSbrd59YKcgqKns28P2hWxS8eD3m'', ''moonyalala''),
     (''Ey7trGVpherQjcGGMvKK7knsqzdSWBw5P9ghuLVoYJiV'', ''freeyuop0022133''),
     (''Eyr5M6vhFUskU3GZZEwVUXamrZd9LzEVPD7DzhEwQmpZ'', ''management''),
     (''EyvqpzW3bpafguDdw1SEttg2Tq9UJgRkWuBWZcDxjrVE'', ''gateway-test''),
     (''F1KfCFZusGXKcjLctvvg1FvFqYYuryQKRa4Jd2v2LgZn'', ''carboncredits''),
     (''F1uP1C8uq1PtEKdRZRDgCKL5QgCMP4bWQYZnTd66wJ1x'', ''atomic-ant-1''),
     (''F3D8GQmr9j1De2LXKTt3G9fc6oPGVbPvPCQr1LmNYDFX'', ''hebine8888247''),
     (''F74AXBo93LmYkEYLRvr4FQeEsDYu9vC6438npR9FL8xE'', ''pingle-vpn''),
     (''F8PphXGC7NHAqrFEfpXfSY5J2mLARbZC2zwTijq7qvNs'', ''repeat''),
     (''F8sfmDzUiyzJCBmQrDtew5xet2a6FmDNUQzjNoTGBkKB'', ''annaageta''),
     (''F8tKvuHxRfXJqzdSDTMAzAKziGawBMughvdNERumUa6C'', ''popone''),
     (''F9LaDPFvfqKcBFj5qJiM3tsiU8bET5ETyC7JMQZwGzTH'', ''virtualreality''),
     (''F9gCRDMRV4eznNueYXkqVsNHrwthcBRGoxYoTqSo2wc9'', ''digitalarchivingproject''),
     (''FEsm3AWGGMhkP4E7gAbD5mMnS5D35QKPQ168QeaWdKRB'', ''augmented''),
     (''FFVyaTrF2CEpiHetTUjZiZgVefvp9Jr9t2LdzuH34m6K'', ''jeff''),
     (''FFpzVLdm3WtvbxmVPHwVs35ZpiSB5U2BWyheJpVKhxeY'', ''holography'')]"

definition retired_ants_d :: "(string \<times> string) list" where
  "retired_ants_d =
    [(''FGPQHSNb2r5hyjvhmXVP2cH8b9WEuQqW7L1wxE9B3i4a'', ''slebew008''),
     (''FGSwjfZCSZAU5sadSfVYyynK8cGw2BL9PZsNQpMeAeKn'', ''onlyhanz''),
     (''FKieqS1YY5Fh7e4PK7V9AZNmKahShamSVw6Ci5XLcZGh'', ''blackorwhite''),
     (''FLUxowhYCRuQSihtZuri7j27tywsT3D4e5KJjciusvNp'', ''ao-staging''),
     (''FLYdJV7fbNAfUMaGDJdfxZQRSzMLRJ7Q4S6WVA8oy7nt'', ''batteries''),
     (''FN67a7uq34e2QqUH4bYCCaipCbBeqZnMeyKvZSFtuXcn'', ''araoaidev''),
     (''FRhZdJ9HEb9ev289UaFs7hN6zYtTPtBWc6a2SSNkSoT'', ''digital-banking''),
     (''FSVTUgWzhLt5dg9gDEJooVAq2KU8aVQ925pAFMTY1DTD'', ''dangtran7194''),
     (''FSvqUBLqiNeCcTg44YCWvA3JXbRNrVRdEs3XYUhto98L'', ''commercial''),
     (''FVUHhz7HSfVSdRFenAwypzhVQJQSSXJ4oQKrSzbQjpVC'', ''ownyourownsoul''),
     (''FWBovR5bEWtES6SsgqHjJiDz19MZSpTj4RqJR24bKBZq'', ''saintjerome''),
     (''FWhJU84TtGviC6zQjke2RU958m32aND6uyUywDBKpf9i'', ''automotive''),
     (''FZgFwKPP3Ag7at4Y6m48GDtvmJuxcJt4Kypydv7sbVmd'', ''selahattinsonmez''),
     (''FaPGoJ3zTRRdsnrNXFRNBhUQs8aw3rgsujfkFxX9Xr3v'', ''aslanas''),
     (''FbK8sr6JdHYiaXyoLRRZqkfbbNWcxhAaCS9ds5zaJ8sA'', ''encryption''),
     (''FdLiHX6MHvFppkBQikntDXhdTR7LHKuWwaDrZJDV8jsF'', ''vanguard''),
     (''FfPxNjuQy9xzo6SzR91naMDrjcLjQTUAz2qbfhwYmSxm'', ''vouch-dao-v2-draft''),
     (''FgYMLNjTzSv8PswvZhyGBdsdT4mYGcsxkFAFAwKxoA27'', ''areweeeve''),
     (''FgqRZKEG6BSEB4SkRkg5cvtfapzcKc93bBMeGrxGPYi9'', ''quantum-physics''),
     (''FgzGz23KD6HWW43zyRMbU5NmAcrCXwzGofVEa58FQ5Wp'', ''application''),
     (''FiLFMsWYcdvsnFGcBTJsCDPtHh5zQ2PEmb26fG82Kiz1'', ''artregistry''),
     (''FkRARKxHUTxqk1Z8aDkPWV9qyv7S7X2ggcGBMAjAgG4u'', ''khoadx99hn''),
     (''FnEQdm3BVyiYvzJRbGTkwrfYdjyYvWYG5sRWrnmMxkch'', ''universal''),
     (''Fp9HF78QhaVyPpJvqP5LbqX8CKTV3Ai2XA7G9Y1pGVFN'', ''carbon-credits''),
     (''Fszrs5AZgFj6WxBWL7cRLAm3BzbircVGNavd9cPBjy4S'', ''arswap''),
     (''FvSyzJbKBSQDNGL3QWPzDJBNmym1VK69Q6XeGbovLBUC'', ''tyler''),
     (''FxsCLPUv7duPdX6jwpb1Q1C26SDRBE37ZMJK8J5k37JB'', ''fintech''),
     (''FzzHWm7qFWMGfmbJcy8kkc3ajnMoJ7GNbAK5iaXrJk1L'', ''arifebriand08740314''),
     (''G5cAMBovXLHc4VAMirRDsYSS6LaB18krsCoC4co3vGfa'', ''aero-space''),
     (''G69nonRYMjSJk8KAvH4FH3qf8RMpM8sJVFyVCbLs9XWy'', ''hello2''),
     (''G7ziB8X26s2BeYLbMSLjdZVYC5y2Cky94beRsxDFzoNK'', ''tswilson''),
     (''G91Y22Dtv8Rrx2Kuci3qecF5ZjgqSLCKUDyc5P9w76K3'', ''decentraland''),
     (''GAzu26GYsFrE4aJgvRvt588FnK9QUXGJDjF5EMXTj9hG'', ''nano-technology''),
     (''GB1pzcC7EjV42BAA2AQnmXNiPqNzzDAyetpeXoy59WPL'', ''protocol-land-gist''),
     (''GE1FJuUffir5en9AoFk7Ldh7qWVKcstCfabQvVEmASXS'', ''oskarcrompvoets''),
     (''GEZX4vg2hKYES9MkwoS4f7AEwDmXbYNRRQeQjbQcETGH'', ''notusechangeoptions''),
     (''GFNC4s92fUuBLpHXvAn8YRkTvMqryoC7cGFxS9pfy4Lu'', ''tufan55''),
     (''GHGXmFvci4TYTayrxLvDifu2eYsAfuSabS6q6htHMSnA'', ''0xfmferrari''),
     (''GHbaVnWNeg586YKD1M1PhQNdwe4wJLHdAvcE5VBtnEt5'', ''klaslanhakan1303643''),
     (''GLf2Vr6BU5dvJjprF9mCuNsbaBoT8vpVhQUoA2YS3CGs'', ''swag''),
     (''GNA4bhjHtDaUf6UT6YYTHiEvfuGCTzEwtN4Xkoe9tRwt'', ''lasthope''),
     (''GPueLkBexoj6gdZWSAivXNKQoqwtVwV7Dd3mgtUJ7RfM'', ''serendipia''),
     (''GQFze5JVgXrAXEanVg9BMWc2Tnb14yXDhL7pmBcGopbd'', ''universe''),
     (''GQQMvdtRcdkwPXrM9uwwUdyG9Mv1cVetCBYY1i1UVHie'', ''pingle-one''),
     (''GU8TXXU11zopCCNiU4D3bH8d7DzicNdP8oG7vsKrqD2'', ''gi-arg''),
     (''GbY1BnkJ8j1zBRsj1CnzgAVoR3uUBkiprwM84C4bvuDR'', ''cybercrypto''),
     (''Gc26rzNBWSauWEWmj8mgXBzKbpJDxkaiQGvq3vZsVJt3'', ''communication''),
     (''GdHu3PC3xR9GHuYLgJJxn8sVRzijpEht6f58mFiZ3DuG'', ''65342e6234e625436e5423e''),
     (''GegGKQ5mm2CNBAhqu9kcju2jqfYLWbkWomWnvU1Q3czr'', ''sam-suppot''),
     (''GgDPbHfRah1AQjSoLzYoUkDufCroYTVVzs4naojZVh7h'', ''orangutan''),
     (''GhkX6xGRF6gfP4fWSED9pqGn9jQiGU4wMeWmSt5s9ayD'', ''hadbhrdaily''),
     (''GkHbVGRN7UZTkDUXyYvR55TMC9i1ybbQeWMSHfU4AFeH'', ''rexa302444779011''),
     (''GmajuyCR4cPK4Cm71huCtePQ4VtRA7G21EE5nBm9ARth'', ''arsnap''),
     (''GpxiuQbHyKoDCeuHyTtTXThDRJqhV6GwUC8rrbv4uzJc'', ''aguspujianto0908''),
     (''Gqzkx7TBwpvzYbiWDwMXu6P6FTGJe6Cd9Aq4D53qcCe6'', ''greenhouse''),
     (''Gt6gw1EZLMj32V8WC8RW3ZDVDmqURDzXyfyxm3xGVcLU'', ''nameserver-test''),
     (''GuJAKpXg49rQMdN4pi9hBpfAyncGajrXAQQ9v79KCqed'', ''venturecapitalist''),
     (''Gwq6EtDGS4aAP8x134aY6EL66JP5WsPmN9tX6HHgj9JY'', ''arkeynetwork''),
     (''GxuxW6h2uspu7GTQvaettHfXknpiCgo9ZY1UuhXF6vvw'', ''grayman-arweave''),
     (''GyF6ppWvPTdS24qsm22fND1UhsS5VTunkbdrJ5SE6P96'', ''iconmoto''),
     (''GyknD5fHTSNhDAkE5wLuKiReN23Kt1YnCkehastHx6yA'', ''dumdumdadadumdum''),
     (''GytJEHMVWP2oNLSzG9CNZ7VrHrzM7Hi7AwUzuRWJLKNW'', ''zoroastrian''),
     (''GzACQV6YArwNbTWN9tdEkE1sHYxQYfsrbnvVN1wVBSbz'', ''pascal''),
     (''GzNcnLzGPNgLiXakYD4E1KyK3KHg34t5Jmz6mGiu6rZT'', ''entertainment''),
     (''GzbMKGoL8P5LogoWxFfJeM397xzpSTetrWLfmvvPQzkV'', ''radamonsro4195''),
     (''H2EYsEK16yFJykfXEZa6jbNh635ZSeQPFicRoket8Aoc'', ''aox''),
     (''H2jw37Um9mpeQfeYH5dNoZhgmaMBPKKQ7fPxbjcXS2fy'', ''tokendrop''),
     (''H2pArWMtKSsaVumkhR3bUZYre6n8CMiYLY8aDx9zEfoH'', ''worldwariii''),
     (''H5aAQhXHUnMjq7tpD2xCtzdswXzFcFGYmDCXy6P7C8BJ'', ''faumanjosefago''),
     (''H7hqDRHi3vPT9Dx55SAxRni5VozBaPo8PibejCt9uYLW'', ''ctrl-x''),
     (''HA6iZVUah4vSfp92TJ9cSm32YAunJWqA1iVY9wAC5Q5a'', ''nameserver''),
     (''HAZVUUuRmX7DfCrSstnnsJ5gVtdWRcAcNjXDYwyVv6yE'', ''dlzvy''),
     (''HBDbQs9Vt1h8fKsNoqZomEJa29mKzEFcBrgsnJLiZwup'', ''happyfarm''),
     (''HBYc1tq9gH2dJdmkWHsRAqzzR7MsK8GSLfe2X79ra5b2'', ''hinduism''),
     (''HC1JjBDpTVgR3M2YAGoc4cR3H4gsqCcCroLwSUXvM4vi'', ''realestate''),
     (''HCBNBaFJwt7wmqvMQPUR1mGUTuERDpQwoaMax9vPLES8'', ''christianity''),
     (''HE7svjy34MxPzshUXaSMNMZeh7pc6A5cvWpUdkKs7TWr'', ''decentralised''),
     (''HFA8WogWE3zed3G9VRjwpQEsirVXqszMCWNN6MKPprUw'', ''digitalhistory''),
     (''HMLg4xdF2wP2AYeotPqBYPSXVAK4X75vFPGPM5TDVf7U'', ''applications''),
     (''HQ8NqJEQzUua9jcGTJL4Ln2GXjv12QqE1TGVWFMaa9cm'', ''krayir-node''),
     (''HQbnaNiVCkhpPk9tyawA7TMYdXs1xWTFb24GFu13mVoo'', ''transport''),
     (''HRNjxQTDndsWDGxFd2fk6D5Hrz41eNEy6eoco8agKUpi'', ''banking''),
     (''HUW9vga8BqhnEKYUVC5TK7LBSFX2zixXESjsDLTV1zYb'', ''stoic1367''),
     (''HWKxrMsBqiPAXNQ8agGAHtzYDEzMiNMSWLBR1tfvMYqa'', ''harbor-permablog''),
     (''HYNistU1hexkiCpHTYAfX8a1HDybEGjwP78rfZcKRhGY'', ''gutyv19860334302''),
     (''HYSA8rWYRLDpaktvUfkV3Zjjfu8itrJPAfmqtiBuPawH'', ''shotbyisiah''),
     (''HYySuKkrffiMMELwnL5TyasF4xSpegfAoMKXtzyX1Giy'', ''0xesmerey000''),
     (''HcKzhnGSv3EoC3x4tzZBQBExFkMnwEprKaDfQ8AkrNao'', ''facts-card-renderer''),
     (''HccxtzHAwCEgDzzGdEnLLFqxinhjfTg2sxnHdVnLn9PS'', ''timeline''),
     (''HducsJpkPK8BHgUx3WuFmRguqiS3Tj6JqNgEKNAUjGwB'', ''mandalin4774''),
     (''HeVmfbEf4Hua31oVRFbF2crb2c8Y4R7STgXAF5CvhSW5'', ''zireael123456789''),
     (''Hem19WmVHEevwNmKw6i5bMhPucSvDBjTPGH2aeMaVehB'', ''seijin''),
     (''HgSR17eoFoXnj4xxhffKrtNdrvLRizfqxAxG4kqnCdum'', ''neurosciences''),
     (''HhspJcRPquFvPRLrZnk669fyMLuoQMRMZTmzMVMo4NrH'', ''hydra''),
     (''Hi1qZfdwGtp5rJEUirywh9xg9GoYMhK9ukmb8KVMiXbV'', ''basketball''),
     (''HkRQrx8RLH28KaRaigfAhfDMDJpeFcEHHUYPpJHqhkXw'', ''quantumscience''),
     (''HmR3DztznL6HeTcWGvZcGTtjVLQyki8TJewyoLBd3PzJ'', ''galaxia''),
     (''HmUk2aXHTFo4F4uq8aPEJpMh6qoWgx2n6Kva3L8XiQMa'', ''prowsemre1005''),
     (''HmX6onwj9QwEykX7GD24t6J3zd8HnrTX4HQwgF8A7Evs'', ''ecommerce''),
     (''HnQuYLEn5c6nRU7RicRsGJs8UxzBpbmxZMKXvLGQnHML'', ''getbeaconwallet''),
     (''HoVZvwhKMxHg1oAir2wx56MmA2Q2FLHzYAPY4NmPpnep'', ''architecture''),
     (''Hp2o9jkPgKLtr2WGMER6nTRHbPjygBZdD2EFjfD6aBhW'', ''science''),
     (''HqLnyP1Y21xRLnYXZFPQ25Cnxeo1vhtszjRBcFfn8qX6'', ''goqu19750325665''),
     (''HqbTzD1FoJ2164Jv6Ciaa4eudyLX1B8EHaojiWWsV3JK'', ''meditation''),
     (''HrmFv1MXpTxA5dW22bobfeRtJxXxcbGifkw42GCptCJG'', ''alex-operator-guide''),
     (''Ht2w5sTz5BynW3FV65R5RZYT8uPMLiQz4kfkwpDDzwpm'', ''slamet999slamet''),
     (''HuLQHjAMDWG41oVfmjGo5tX3uecDMz4H4iLv2AuBYzwp'', ''rookie''),
     (''HzFPfsXfF1S8cDepPjmb9nk2MKBvZLPTxwS8K26TxV1v'', ''emptyfaces100''),
     (''J1xuUcYLnxoUySe7uAjU79WdoYZjUeK1gi6rFuRqQTpo'', ''rabbit''),
     (''J3gvWLuYY8wySGLTWZG68gEEysmdH9tjJNGJn5JgPAZW'', ''jesuschrist''),
     (''J4zERJ68iqFNt52jc5wAj4ePKb2XThi2tiZGeQ4N8KXw'', ''cryptokhal''),
     (''J5hoRh2E98VMeCS1RCxx6x6WFwzc7bJbB2eWCqLYFbNg'', ''concious''),
     (''J73Sp7BpVbPhmSEaYbr8szEU5E7UnUcwWE38jHpbdPCA'', ''hello-widget''),
     (''J7urLDGo3iXbd3wJQHrw7HTJzhA18HYbD3uSciWZ7jxN'', ''earnables''),
     (''JAXAJApqztvHhFom2B1KhDXCFAWioWFSrxKucHrQWK1t'', ''dongdong123''),
     (''JCbyuUPiJk5HMorF5PekTcgRDHFSpwGdXLEz1Bt9kosz'', ''heyibtc111228888''),
     (''JDJdxdsCx7SxoYAJVLymkgR4u9gz2VvuWQUWPzQdPBWo'', ''hyperparallel''),
     (''JsuFGDQZ9RaZxyaEE5T2tFXf9cS14nPSWJxifjf1xZG'', ''hospitality''),
     (''MEH5HGWffKx5e3gQXwKXzxj84SUU41Uqax3t6HanJN2'', ''consulting''),
     (''MzZSi78d8NMv8PDQvqV1Bxx6xrRjCFR7bY1sVvvYUU7'', ''spirituality''),
     (''Q2AtDUjsPb2K94ECEf2wBogDrFWGdnVZR27mo17FRgU'', ''aothecoomputer''),
     (''QBLiv6xHP2toaUoT4ALnzLjZXqXvjPfJLpLnbNzV52s'', ''markmaker''),
     (''TGPhYzy5nsjDfkZjp6kbwtKpRu2RWQ41DJMNcvzUNoY'', ''professional''),
     (''Vc2oZWrNgSw1gFjkdF6THssBxC6SKqJhPHScNPgcLCz'', ''weird-money''),
     (''WSKYvwJDsLgMoT3sKuPUi8EFSe4f25S3kRYcdAsgNyu'', ''thiago''),
     (''YFgG6tzY2ykQhKc6ELCEvPpZqijCtMZE9b4zC3Boxix'', ''blockchainera''),
     (''YhqY7M1CzhrEMYwmNyizK4ExEXDCHG6bSXMfbWeRhbs'', ''jamesyoung''),
     (''aDjjttBP8uiD2cqtcfTmfvUaytCM49zo4xeLhtJSArg'', ''0xsav-xyz''),
     (''adYekU3emAq3ZivzDpcsRquMN4vR3quoiQzagw2hcUg'', ''cryptography''),
     (''cHVBkrUgoJCGsDUnBd9K2kSrf8yDN5RSVZmAWNoFLHP'', ''mcdonalds''),
     (''eCgdQW6f9fSDQbbiNvJoJ8XgCs2NhLqAxzXSWbN9vcE'', ''construction''),
     (''iWSHJPT79XTzfk5HEmU6crSn8BaBiAGvfXd8vJYq9CF'', ''protocol-land''),
     (''jbFw7tLS5UD4HhRViyD1zZXwcr9VHvbDZuMLmti4ayp'', ''metabolism''),
     (''m56T5ppy5KMwThaLJR4dVJCn8MaxJVjM4fuyTykkAxR'', ''pharmaceuticals''),
     (''nThB3VAhSdhHViHVtH1HeRbie6PN48r15VYcx3cg9G8'', ''manifold''),
     (''oRgWGqQ1igFK1Q5iiBaxfkaoxqwf1z7xMR1sBU5LuLV'', ''capitalization''),
     (''qDJ4s4XNaso9Km2KscEcmYMJLyczrJ9BAUh5xGdZvEV'', ''unstoppable''),
     (''s84mtu9tVP6fTQEqVG87fcANST6w4Nwmm9zJPs4xbEt'', ''everscan''),
     (''sr54R74eRF71uBvyXPB9VbdtZVzUUks8VrD42Nhzpkx'', ''multi-verse''),
     (''sv3hWriTZxYR5fkvbM7XdUgq194zuy4FbuDkJZAvS9W'', ''megastarz''),
     (''u4xqF4kiV8hnaSsHtwzB2UtrKxCMADDsfs8AS9Fk7Bt'', ''pierreneter''),
     (''xsWR6GvojpCQ79s6QySseLycTUgJfuScoiJBahSzUCn'', ''qwsqwsqwsqwsqsqwsq''),
     (''xwXHPWHg7AEo8xgGxkWeRpECXnzNaacDJSB9Yi7f1Wx'', ''aedfqawfqawfcqwfcqawff''),
     (''y2MuWjk2ViCE1SwKWYCLBtVw1ec8KagXSgCUjTbjaVQ'', ''nuclear'')]"

text \<open>The one table of the source, in four parts.\<close>

definition RETIRED_ANTS :: "(string \<times> string) list" where
  "RETIRED_ANTS = retired_ants_a @ retired_ants_b @ retired_ants_c @ retired_ants_d"

definition isRetiredAnt :: "string \<Rightarrow> bool" where
  "isRetiredAnt assetKey = (assetKey \<in> fst ` set RETIRED_ANTS)"

text \<open>The delivery record: note, recipient and date.\<close>

definition MANUALLY_DELIVERED :: "(string \<times> string \<times> string \<times> string) list" where
  "MANUALLY_DELIVERED =
    [(''E4J7qeMYFac3YCMsH3KEkemxcQhMFfAzrpMNiba7hDNN'',
      ''swap ANT, hand-delivered off-flow; on-chain owner+UA == 2DXykUor (verified), custody no longer holds it'',
      ''2DXykUor86ZNK2Wfy9VVWFmQdvwRx8eteu1jJFPDrqeV'', ''2026-07-29'')]"

definition isManuallyDelivered :: "string \<Rightarrow> bool" where
  "isManuallyDelivered assetKey = (assetKey \<in> fst ` set MANUALLY_DELIVERED)"

definition isDelisted :: "string \<Rightarrow> bool" where
  "isDelisted assetKey = (isManuallyDelivered assetKey \<or> isRetiredAnt assetKey)"

end
