(* ===== verification/Claims_Service.thy ===== *)
theory Claims_Service
  imports Claims_Db Ledger_Rules Retired_Ants "HOL-Library.Product_Lexorder"
begin

text \<open>
  The claims service (\<open>api/service.ts\<close>): the read-only lookups, \<open>initiateClaim\<close> and
  \<open>completeClaim\<close>, and the reaper of expired challenges (\<open>api/reaper.ts\<close>). Each operation is one
  database transaction; the row locks of the code (\<open>FOR UPDATE\<close> on the claim, then on the asset)
  make it atomic on the rows it writes. \<open>initiateClaim\<close> locks no row before its insert, so it is
  given in its two halves, the reads and the insert, which may see different databases.
  Random values (the challenge nonce, the claim id of \<open>gen_random_uuid\<close>) and the clock are
  arguments.
\<close>

section \<open>Errors, configuration and inputs\<close>

datatype thrown = ThrowApi api_error | ThrowVerr verr

definition api_throw :: "int \<Rightarrow> string \<Rightarrow> string \<Rightarrow> thrown" where
  "api_throw status code msg = ThrowApi \<lparr>ae_status = status, ae_code = code, ae_message = msg\<rparr>"

record 'k service_env =
  se_prims :: "'k verify_prims"
  se_signer :: "(bytes \<Rightarrow> bytes) option"
  se_network :: string
  se_challengeTtlMs :: int
  se_bigClaimThresholdMario :: int

record proof_input =
  pi_protocol :: string
  pi_rsaSignatureBase64Url :: "string option"
  pi_rsaModulusBase64Url :: "string option"
  pi_saltLength :: "int option"
  pi_signatureHex :: "string option"

record initiate_input =
  ii_assetKey :: string
  ii_claimant :: string
  ii_idempotencyKey :: "string option"

record complete_input =
  ci_claimId :: "string option"
  ci_idempotencyKey :: "string option"
  ci_nonceHex :: "string option"
  ci_claimant :: "string option"
  ci_proof :: "proof_input option"

record initiate_result =
  ir_claimId :: string
  ir_status :: string
  ir_assetKey :: string
  ir_claimant :: string
  ir_protocol :: string
  ir_recipientId :: string
  ir_network :: string
  ir_nonceHex :: string
  ir_canonicalMessageHex :: string
  ir_canonicalMessageBase64 :: string
  ir_expiresAt :: string

record complete_result =
  cr_claimId :: string
  cr_status :: string
  cr_assetKey :: string
  cr_claimant :: string
  cr_settlement :: "string option"
  cr_idempotentReplay :: bool

section \<open>Helpers\<close>

definition protocolName :: "int \<Rightarrow> thrown + string" where
  "protocolName n =
     (if n = 0 then Inr ''arweave'' else if n = 1 then Inr ''ethereum''
      else Inl (api_throw 422 ''PROTOCOL_MISMATCH'' (''unknown protocol '' @ dec_int n)))"

definition protocolNum :: "string \<Rightarrow> thrown + int" where
  "protocolNum name =
     (if name = ''arweave'' then Inr 0 else if name = ''ethereum'' then Inr 1
      else Inl (api_throw 400 ''INVALID_REQUEST'' (''unknown protocol \"'' @ name @ ''\"'')))"

definition base58_alphabet :: string where
  "base58_alphabet = ''123456789ABCDEFGHJKLMNPQRSTUVWXYZabcdefghijkmnopqrstuvwxyz''"

definition assertClaimant :: "string \<Rightarrow> thrown + unit" where
  "assertClaimant s =
     (if 32 \<le> length s \<and> length s \<le> 44 \<and> list_all (\<lambda>c. c \<in> set base58_alphabet) s then Inr ()
      else Inl (api_throw 400 ''INVALID_REQUEST'' ''claimant must be a base58 Solana address''))"

definition toAssetView :: "asset_row \<Rightarrow> bytes \<Rightarrow> asset_view" where
  "toAssetView row nonce =
     \<lparr>av_assetType = as_asset_type row, av_assetKey = as_asset_key row, av_antMint = as_ant_mint row,
      av_amount = as_amount row, av_nonce = nonce, av_vaultEndTs = as_vault_end_ts row\<rparr>"

definition hiddenAssetError :: thrown where
  "hiddenAssetError = api_throw 404 ''ASSET_NOT_FOUND'' ''no self-serve asset with that key''"

definition toRecipientView :: "recipient_row \<Rightarrow> thrown + recipient_view" where
  "toRecipientView row = (case rc_recipient_pubkey row of
     None \<Rightarrow> Inl hiddenAssetError
   | Some pk \<Rightarrow> Inr \<lparr>rv_protocol = rc_protocol row, rv_recipientPubkey = pk,
                    rv_recipientId = rc_recipient_id row, rv_sourceAddress = rc_source_address row\<rparr>)"

fun unavailableError :: "asset_status \<Rightarrow> thrown" where
  "unavailableError A_claiming = api_throw 409 ''ALREADY_CLAIMED'' ''asset has already been claimed''"
| "unavailableError A_claimed = api_throw 409 ''ALREADY_CLAIMED'' ''asset has already been claimed''"
| "unavailableError A_pending_review = api_throw 409 ''PENDING_REVIEW'' ''asset is awaiting operator review''"
| "unavailableError ManualReview = hiddenAssetError"
| "unavailableError Frozen = api_throw 409 ''ASSET_FROZEN'' ''asset is frozen''"
| "unavailableError Cancelled = api_throw 409 ''ASSET_CANCELLED'' ''asset was cancelled''"
| "unavailableError Available = api_throw 409 ''ASSET_UNAVAILABLE'' ''asset status available''"

definition statusForStoredCode :: "string \<Rightarrow> int" where
  "statusForStoredCode code =
     (if code = ''ASSET_NOT_FOUND'' then 404
      else if code = ''ALREADY_CLAIMED'' \<or> code = ''NONCE_MISMATCH'' \<or> code = ''CHALLENGE_EXPIRED'' then 409
      else if code = ''MANUAL_REVIEW'' \<or> code = ''PENDING_REVIEW'' \<or> take 6 code = ''ASSET_'' then 409
      else if code = ''RSA_SIGNATURE_INVALID'' \<or> code = ''SIGNATURE_VERIFICATION_FAILED''
              \<or> code = ''ETHEREUM_ADDRESS_MISMATCH'' then 401
      else 422)"

definition strip_0x_prefix :: "string \<Rightarrow> string" where
  "strip_0x_prefix s = (if take 2 s = ''0x'' then drop 2 s else s)"

definition is_hex :: "string \<Rightarrow> bool" where
  "is_hex s = (s \<noteq> [] \<and> list_all (\<lambda>c. hex_value c \<noteq> None) s)"

definition echoed_nonce :: "string option \<Rightarrow> thrown + bytes option" where
  "echoed_nonce nonceHex = (case nonceHex of
     None \<Rightarrow> Inr None
   | Some h \<Rightarrow> let clean = strip_0x_prefix h in
       if length clean \<noteq> 64 \<or> \<not> is_hex clean
       then Inl (api_throw 422 ''INVALID_FIELD_VALUE'' ''nonceHex must be 32 bytes hex'')
       else Inr (Some (hex_bytes clean)))"

definition buildProof ::
  "proof_input \<Rightarrow> string \<Rightarrow> int \<Rightarrow> string option \<Rightarrow> thrown + claim_proof" where
  "buildProof p boundClaimant recipientProtocol echoedNonceHex =
     and_then (protocolNum (pi_protocol p)) (\<lambda>proofProto.
     if proofProto \<noteq> recipientProtocol
     then Inl (api_throw 422 ''PROTOCOL_MISMATCH''
            (''proof protocol '' @ pi_protocol p @ '' != recipient protocol''))
     else and_then (echoed_nonce echoedNonceHex) (\<lambda>nonce.
     if pi_protocol p = ''arweave'' then
       (case pi_rsaSignatureBase64Url p of
          None \<Rightarrow> Inl (api_throw 400 ''INVALID_REQUEST'' ''rsaSignatureBase64Url required'')
        | Some s \<Rightarrow>
            let signature = b64url_decode s in
            if length signature \<noteq> 512
            then Inl (api_throw 422 ''INVALID_FIELD_VALUE'' ''rsa signature must be 512 bytes'')
            else Inr \<lparr>cp_claimant = boundClaimant, cp_signature = signature,
                      cp_saltLength = Some (case pi_saltLength p of None \<Rightarrow> 32 | Some l \<Rightarrow> l),
                      cp_providedModulus = (if truthy (pi_rsaModulusBase64Url p)
                         then Some (b64url_decode (the (pi_rsaModulusBase64Url p))) else None),
                      cp_nonce = nonce\<rparr>)
     else
       (case pi_signatureHex p of
          None \<Rightarrow> Inl (api_throw 400 ''INVALID_REQUEST'' ''signatureHex required'')
        | Some s \<Rightarrow>
            let hex = strip_0x_prefix s in
            if length hex \<noteq> 130 \<or> \<not> is_hex hex
            then Inl (api_throw 422 ''INVALID_FIELD_VALUE'' ''eth signature must be 65 bytes hex'')
            else Inr \<lparr>cp_claimant = boundClaimant, cp_signature = hex_bytes hex,
                      cp_saltLength = None, cp_providedModulus = None, cp_nonce = nonce\<rparr>)))"

definition computeSettlement :: "int \<Rightarrow> asset_row \<Rightarrow> string option" where
  "computeSettlement now asset =
     (if as_asset_type asset \<noteq> AssetVault then None
      else case (as_vault_end_ts asset, as_amount asset) of
        (Some e, Some amount) \<Rightarrow>
          let remaining = e - now div 1000 in
          if remaining \<le> 0 \<or> vaultEscrowFallsBackToLiquid amount (BigV remaining) then Some ''liquid''
          else Some ''relock''
      | _ \<Rightarrow> None)"

definition sumRecipientAvailable :: "db \<Rightarrow> string \<Rightarrow> int" where
  "sumRecipientAvailable d rid =
     sum_list (map (\<lambda>a. case as_amount a of Some v \<Rightarrow> v | None \<Rightarrow> 0)
       (filter (\<lambda>a. as_recipient_id a = rid \<and> as_amount a \<noteq> None
                  \<and> as_status a \<in> {Available, A_claiming, A_claimed, A_pending_review}) (db_assets d)))"

definition append_audit :: "'k service_env \<Rightarrow> int \<Rightarrow> audit_entry \<Rightarrow> db \<Rightarrow> db" where
  "append_audit E now e d =
     d\<lparr>db_audit := appendAudit (vq_sha (se_prims E)) (se_signer E) (iso_string now) e (db_audit d)\<rparr>"

definition claim_event :: "string \<Rightarrow> claim_row \<Rightarrow> string \<Rightarrow> audit_entry" where
  "claim_event ev c st = (audit_event ev)\<lparr>au_claimId := Some (cl_claim_id c),
     au_assetKey := Some (cl_asset_key c), au_claimant := Some (cl_claimant c),
     au_recipientId := cl_recipient_id c, au_protocol := cl_protocol c, au_status := Some st\<rparr>"

definition rejectClaim :: "'k service_env \<Rightarrow> int \<Rightarrow> claim_row \<Rightarrow> string \<Rightarrow> string \<Rightarrow> db \<Rightarrow> db" where
  "rejectClaim E now c code reason d =
     append_audit E now ((claim_event ''claim.rejected'' c ''rejected'')
         \<lparr>au_reason := Some (code @ '': '' @ reason)\<rparr>)
       (update_claim (cl_claim_id c) (\<lambda>r. (set_claim_status Rejected r)\<lparr>cl_error := Some code\<rparr>) d)"

section \<open>Lookups\<close>

record claimable_asset_view =
  ca_assetKey :: string
  ca_assetType :: asset_type
  ca_antMint :: "string option"
  ca_name :: "string option"
  ca_amount :: "int option"
  ca_vaultEndTimestamp :: "int option"
  ca_nonceHex :: string
  ca_status :: asset_status
  ca_claimStatus :: "claim_status option"
  ca_claimTx :: "string option"

text \<open>
  The lateral join: for a \<open>claimed\<close> asset, the confirmed claim first, then the latest confirmed,
  then the latest verified, with \<open>NULLS LAST\<close>.
\<close>

definition nulls_first :: "int option \<Rightarrow> nat \<times> int" where
  "nulls_first v = (case v of None \<Rightarrow> (0, 0) | Some t \<Rightarrow> (1, t))"

definition desc_nulls_last :: "int option \<Rightarrow> nat \<times> int" where
  "desc_nulls_last v = (case v of None \<Rightarrow> (1, 0) | Some t \<Rightarrow> (0, - t))"

definition winning_claim :: "db \<Rightarrow> string \<Rightarrow> claim_row option" where
  "winning_claim d k =
     (case sort_key (\<lambda>c. (if cl_status c = Confirmed then 0 else 1 :: nat,
                          desc_nulls_last (cl_confirmed_at c), desc_nulls_last (cl_verified_at c)))
         (filter (\<lambda>c. cl_asset_key c = k \<and> cl_status c \<in> {Confirmed, Dispatching, Verified, Failed,
                        NeedsOperator, AwaitingManualVaultDelivery}) (db_claims d)) of
        [] \<Rightarrow> None | c # cs \<Rightarrow> Some c)"

definition claim_tx :: "claim_row \<Rightarrow> string option" where
  "claim_tx c = (case cl_dispatch_signature c of
     Some s \<Rightarrow> Some s
   | None \<Rightarrow> if cl_tx_signatures c = [] then None else Some (last (cl_tx_signatures c)))"

definition claimableViewFromRow :: "db \<Rightarrow> asset_row \<Rightarrow> claimable_asset_view" where
  "claimableViewFromRow d row =
     (let c = (if as_status row = A_claimed then winning_claim d (as_asset_key row) else None) in
      \<lparr>ca_assetKey = as_asset_key row, ca_assetType = as_asset_type row, ca_antMint = as_ant_mint row,
       ca_name = (if as_asset_type row = AssetAnt then as_ant_name row else None),
       ca_amount = as_amount row, ca_vaultEndTimestamp = as_vault_end_ts row,
       ca_nonceHex = hex_encode (as_nonce row), ca_status = as_status row,
       ca_claimStatus = map_option cl_status c,
       ca_claimTx = (case c of None \<Rightarrow> None | Some r \<Rightarrow> claim_tx r)\<rparr>)"

record claimable_query =
  cq_protocol :: "string option"
  cq_address :: "string option"
  cq_recipientId :: "string option"
  cq_includeClaimed :: "string option"
  cq_all :: "string option"

definition flag_on :: "string option \<Rightarrow> bool" where
  "flag_on v = (v = Some ''1'' \<or> v = Some ''true'')"

definition find_recipient_row :: "db \<Rightarrow> claimable_query \<Rightarrow> thrown + recipient_row option" where
  "find_recipient_row d q =
     (if truthy (cq_recipientId q) then Inr (find_recipient d (the (cq_recipientId q)))
      else if truthy (cq_address q)
      then Inr (row_find rc_source_address (normalizeSourceAddress (the (cq_address q))) (db_recipients d))
      else Inl (api_throw 400 ''INVALID_REQUEST'' ''provide `address` (+`protocol`) or `recipientId`''))"

text \<open>\<open>ORDER BY (status = 'available') DESC, asset_key\<close>, the keys in byte order.\<close>

definition claimable_assets :: "db \<Rightarrow> string \<Rightarrow> bool \<Rightarrow> claimable_asset_view list" where
  "claimable_assets d rid includeClaimed =
     map (claimableViewFromRow d)
       (filter (\<lambda>a. \<not> isDelisted (as_asset_key a))
         (sort_key (\<lambda>a. (if as_status a = Available then 0 else 1 :: nat, as_asset_key a))
           (filter (\<lambda>a. as_recipient_id a = rid
                \<and> (as_status a = Available \<or> includeClaimed \<and> as_status a = A_claimed)) (db_assets d))))"

definition getClaimable ::
  "db \<Rightarrow> claimable_query \<Rightarrow> thrown + (string \<times> string \<times> string \<times> claimable_asset_view list)" where
  "getClaimable d q =
     and_then (find_recipient_row d q) (\<lambda>r.
     case r of
       None \<Rightarrow> Inl (api_throw 404 ''RECIPIENT_NOT_FOUND'' ''no recipient matches that identity'')
     | Some recip \<Rightarrow>
         and_then (if truthy (cq_protocol q)
                   then and_then (protocolNum (the (cq_protocol q))) (\<lambda>n.
                     if n \<noteq> rc_protocol recip
                     then Inl (api_throw 422 ''PROTOCOL_MISMATCH'' ''protocol does not match the stored recipient'')
                     else Inr ())
                   else Inr ()) (\<lambda>u.
         and_then (protocolName (rc_protocol recip)) (\<lambda>pname.
         Inr (rc_recipient_id recip, pname, rc_source_address recip,
              claimable_assets d (rc_recipient_id recip)
                (flag_on (cq_includeClaimed q) \<or> flag_on (cq_all q))))))"

definition getAsset :: "db \<Rightarrow> string \<Rightarrow> thrown + claimable_asset_view" where
  "getAsset d assetKey =
     (case find_asset d assetKey of
        None \<Rightarrow> Inl hiddenAssetError
      | Some row \<Rightarrow> if as_status row = ManualReview \<or> isDelisted assetKey then Inl hiddenAssetError
                    else Inr (claimableViewFromRow d row))"

record claim_status_view =
  sv_claimId :: string
  sv_assetKey :: string
  sv_claimant :: string
  sv_protocol :: "string option"
  sv_status :: claim_status
  sv_settlement :: "string option"
  sv_txSignatures :: "string list"
  sv_error :: "string option"
  sv_createdAt :: string
  sv_verifiedAt :: "string option"
  sv_confirmedAt :: "string option"

definition getClaim :: "db \<Rightarrow> string \<Rightarrow> thrown + claim_status_view" where
  "getClaim d claimId = (case find_claim d claimId of
     None \<Rightarrow> Inl (api_throw 404 ''CLAIM_NOT_FOUND'' ''no such claim'')
   | Some c \<Rightarrow>
       and_then (case cl_protocol c of None \<Rightarrow> Inr None
                 | Some p \<Rightarrow> and_then (protocolName p) (\<lambda>n. Inr (Some n))) (\<lambda>proto.
       Inr \<lparr>sv_claimId = cl_claim_id c, sv_assetKey = cl_asset_key c, sv_claimant = cl_claimant c,
            sv_protocol = proto, sv_status = cl_status c, sv_settlement = cl_settlement c,
            sv_txSignatures = cl_tx_signatures c, sv_error = cl_error c,
            sv_createdAt = iso_string (cl_created_at c),
            sv_verifiedAt = map_option iso_string (cl_verified_at c),
            sv_confirmedAt = map_option iso_string (cl_confirmed_at c)\<rparr>))"

section \<open>\<open>initiateClaim\<close>\<close>

text \<open>\<open>Buffer.toString("base64")\<close>, from the URL alphabet, with padding.\<close>

definition base64_encode :: "bytes \<Rightarrow> string" where
  "base64_encode bs =
     (let s = map (\<lambda>c. if c = CHR ''-'' then CHR ''+'' else if c = CHR ''_'' then CHR ''/'' else c)
                (b64url_encode bs)
      in s @ replicate ((4 - length s mod 4) mod 4) (CHR ''=''))"

definition initiateResultFromRow :: "'k service_env \<Rightarrow> claim_row \<Rightarrow> thrown + initiate_result" where
  "initiateResultFromRow E c =
     (case (cl_challenge_nonce c, cl_challenge_expires_at c) of
        (Some n, Some exp) \<Rightarrow>
          and_then (protocolName (case cl_protocol c of None \<Rightarrow> 0 | Some p \<Rightarrow> p)) (\<lambda>pname.
          Inr \<lparr>ir_claimId = cl_claim_id c, ir_status = ''claiming'', ir_assetKey = cl_asset_key c, ir_claimant = cl_claimant c,
               ir_protocol = pname,
               ir_recipientId = (case cl_recipient_id c of None \<Rightarrow> [] | Some r \<Rightarrow> r),
               ir_network = se_network E, ir_nonceHex = hex_encode n,
               ir_canonicalMessageHex = hex_encode (cl_canonical_message c),
               ir_canonicalMessageBase64 = base64_encode (cl_canonical_message c),
               ir_expiresAt = iso_string exp\<rparr>)
      | _ \<Rightarrow> Inl (api_throw 409 ''CLAIM_NOT_INITIATABLE'' ''existing claim has no challenge''))"

definition find_idem :: "db \<Rightarrow> string \<Rightarrow> claim_row option" where
  "find_idem d key = row_find cl_idempotency_key (Some key) (db_claims d)"

text \<open>The reads: either the claim of a known key, or the row to insert.\<close>

datatype initiate_plan = ExistingClaim claim_row | InsertClaim claim_row

definition new_claim_row ::
  "string \<Rightarrow> asset_row \<Rightarrow> recipient_row \<Rightarrow> initiate_input \<Rightarrow> bytes \<Rightarrow> bytes \<Rightarrow> int \<Rightarrow> int \<Rightarrow> claim_row" where
  "new_claim_row claimId asset recipRow inp canonical nonce expiresAt now =
     \<lparr>cl_claim_id = claimId, cl_asset_key = as_asset_key asset, cl_claimant = ii_claimant inp,
      cl_canonical_message = canonical, cl_challenge_nonce = Some nonce,
      cl_challenge_expires_at = Some expiresAt, cl_recipient_id = Some (rc_recipient_id recipRow),
      cl_protocol = Some (rc_protocol recipRow), cl_user_signature = None, cl_salt_length = None,
      cl_settlement = None, cl_status = Claiming, cl_tx_signatures = [],
      cl_idempotency_key = ii_idempotencyKey inp, cl_error = None, cl_created_at = now,
      cl_verified_at = None, cl_confirmed_at = None, cl_approved_at = None, cl_approved_by = None,
      cl_dispatch_signature = None, cl_dispatch_blockhash = None, cl_dispatch_last_valid_bh = None,
      cl_settlement_amount = None, cl_dispatch_resign_count = 0, cl_ant_batch_id = None,
      cl_ant_reserved_at = None, cl_ant_reserved_txid = None, cl_ant_reserved_blockhash = None,
      cl_ant_reserved_last_valid_bh = None, cl_ant_reserved_wire = None\<rparr>"

definition initiate_reads ::
  "'k service_env \<Rightarrow> int \<Rightarrow> bytes \<Rightarrow> string \<Rightarrow> initiate_input \<Rightarrow> db \<Rightarrow> thrown + initiate_plan" where
  "initiate_reads E now nonce claimId inp d =
     and_then (assertClaimant (ii_claimant inp)) (\<lambda>u.
     if ii_assetKey inp = [] then Inl (api_throw 400 ''INVALID_REQUEST'' ''assetKey required'')
     else case (if truthy (ii_idempotencyKey inp) then find_idem d (the (ii_idempotencyKey inp)) else None) of
       Some c \<Rightarrow>
         if cl_asset_key c \<noteq> ii_assetKey inp
         then Inl (api_throw 409 ''IDEMPOTENCY_KEY_REUSED'' ''idempotency key already used for a different asset'')
         else Inr (ExistingClaim c)
     | None \<Rightarrow>
        (case find_asset d (ii_assetKey inp) of
           None \<Rightarrow> Inl (api_throw 404 ''ASSET_NOT_FOUND'' ''no asset with that key'')
         | Some asset \<Rightarrow>
             if isDelisted (ii_assetKey inp) then Inl hiddenAssetError
             else if as_status asset \<noteq> Available then Inl (unavailableError (as_status asset))
             else case find_recipient d (as_recipient_id asset) of
               None \<Rightarrow> Inl (api_throw 404 ''RECIPIENT_NOT_FOUND'' ''asset references an unknown recipient'')
             | Some recipRow \<Rightarrow>
                 and_then (toRecipientView recipRow) (\<lambda>recipient.
                 case buildCanonicalFromLedger (se_prims E) recipient (toAssetView asset nonce)
                        (ii_claimant inp) nonce (se_network E) of
                   Inl e \<Rightarrow> Inl (ThrowVerr e)
                 | Inr canonical \<Rightarrow>
                     Inr (InsertClaim (new_claim_row claimId asset recipRow inp canonical nonce
                            (now + se_challengeTtlMs E) now)))))"

text \<open>
  The insert, in a database where the unique constraint on the idempotency key may meanwhile be
  taken: then Postgres raises 23505 and the handler answers with the winner's claim (or rethrows
  if the key is the empty string).
\<close>

definition initiate_insert ::
  "'k service_env \<Rightarrow> int \<Rightarrow> initiate_input \<Rightarrow> claim_row \<Rightarrow> db \<Rightarrow> (thrown + initiate_result) \<times> db" where
  "initiate_insert E now inp c d =
     (case (case ii_idempotencyKey inp of None \<Rightarrow> None | Some k \<Rightarrow> find_idem d k) of
        Some winner \<Rightarrow>
          if truthy (ii_idempotencyKey inp) then (initiateResultFromRow E winner, d)
          else (Inl (ThrowVerr (PlainError ''23505'')), d)
      | None \<Rightarrow>
          (case initiateResultFromRow E c of
             Inl e \<Rightarrow> (Inl e, append_audit E now
                ((claim_event ''claim.initiate'' c ''claiming'')
                   \<lparr>au_detail := Some [(''expiresAt'', JStr (iso_string (the (cl_challenge_expires_at c))))]\<rparr>)
                (d\<lparr>db_claims := db_claims d @ [c]\<rparr>))
           | Inr res \<Rightarrow> (Inr res, append_audit E now
                ((claim_event ''claim.initiate'' c ''claiming'')
                   \<lparr>au_detail := Some [(''expiresAt'', JStr (iso_string (the (cl_challenge_expires_at c))))]\<rparr>)
                (d\<lparr>db_claims := db_claims d @ [c]\<rparr>))))"

definition initiateClaim ::
  "'k service_env \<Rightarrow> int \<Rightarrow> bytes \<Rightarrow> string \<Rightarrow> initiate_input \<Rightarrow> db \<Rightarrow> (thrown + initiate_result) \<times> db" where
  "initiateClaim E now nonce claimId inp d =
     (case initiate_reads E now nonce claimId inp d of
        Inl e \<Rightarrow> (Inl e, d)
      | Inr (ExistingClaim c) \<Rightarrow> (initiateResultFromRow E c, d)
      | Inr (InsertClaim c) \<Rightarrow> initiate_insert E now inp c d)"

section \<open>\<open>completeClaim\<close>\<close>

definition replay_result :: "claim_row \<Rightarrow> string \<Rightarrow> bool \<Rightarrow> string option \<Rightarrow> complete_result" where
  "replay_result c st replay settlement =
     \<lparr>cr_claimId = cl_claim_id c, cr_status = st, cr_assetKey = cl_asset_key c,
      cr_claimant = cl_claimant c, cr_settlement = settlement, cr_idempotentReplay = replay\<rparr>"

text \<open>
  The check of a proof against the stored identity and the challenge of the claim, which a replay
  repeats; a \<open>VerificationError\<close> leaves as its API error.
\<close>

definition verify_thrown :: "verr \<Rightarrow> thrown" where
  "verify_thrown e = (case e of
     VerificationError c m \<Rightarrow> ThrowApi (fromVerificationError c m)
   | PlainError m \<Rightarrow> ThrowVerr (PlainError m))"

definition verifyReplayProof ::
  "'k service_env \<Rightarrow> claim_row \<Rightarrow> complete_input \<Rightarrow> proof_input \<Rightarrow> db \<Rightarrow> thrown + unit" where
  "verifyReplayProof E c inp p d =
     (case cl_challenge_nonce c of
        None \<Rightarrow> Inl (api_throw 422 ''INVALID_INPUT'' ''claim has no challenge to verify against'')
      | Some nonce \<Rightarrow>
        (case find_asset d (cl_asset_key c) of
           None \<Rightarrow> Inl (api_throw 404 ''ASSET_NOT_FOUND'' ''asset no longer exists'')
         | Some asset \<Rightarrow>
           (case find_recipient d (as_recipient_id asset) of
              None \<Rightarrow> Inl (api_throw 404 ''RECIPIENT_NOT_FOUND'' ''recipient missing'')
            | Some recipRow \<Rightarrow>
                and_then (toRecipientView recipRow) (\<lambda>recipient.
                and_then (buildProof p (cl_claimant c) (rv_protocol recipient) (ci_nonceHex inp)) (\<lambda>proof.
                case verifyClaim (se_prims E) recipient (toAssetView asset nonce) proof (se_network E) of
                  Inl e \<Rightarrow> Inl (verify_thrown e)
                | Inr vp \<Rightarrow> Inr ())))))"

text \<open>
  The unique index \<open>one_live_claim_per_asset\<close>: an update that brings a second claim of an asset
  into a live status raises 23505.
\<close>

definition live_claim :: "claim_row \<Rightarrow> bool" where
  "live_claim c = (cl_status c \<in> {Verified, PendingReview, Dispatching})"

definition live_conflict :: "db \<Rightarrow> claim_row \<Rightarrow> bool" where
  "live_conflict d c = (\<exists>r \<in> set (db_claims d). cl_claim_id r \<noteq> cl_claim_id c
      \<and> cl_asset_key r = cl_asset_key c \<and> live_claim r)"

definition bigClaim :: "'k service_env \<Rightarrow> int \<Rightarrow> int \<Rightarrow> bool" where
  "bigClaim E amount recipientTotal =
     (se_bigClaimThresholdMario E > 0
      \<and> (amount > se_bigClaimThresholdMario E \<or> recipientTotal > se_bigClaimThresholdMario E))"

definition won_row ::
  "claim_status \<Rightarrow> bytes \<Rightarrow> int option \<Rightarrow> string option \<Rightarrow> int \<Rightarrow> claim_row \<Rightarrow> claim_row" where
  "won_row st sig saltLength settlement now r =
     (set_claim_status st r)\<lparr>cl_user_signature := Some sig, cl_salt_length := saltLength,
        cl_settlement := settlement, cl_verified_at := Some now, cl_error := None\<rparr>"

definition consume_claim ::
  "'k service_env \<Rightarrow> int \<Rightarrow> claim_row \<Rightarrow> asset_row \<Rightarrow> recipient_view \<Rightarrow> claim_proof \<Rightarrow> int option \<Rightarrow> db
     \<Rightarrow> (thrown + complete_result) \<times> db" where
  "consume_claim E now c asset recipient proof saltLength d =
     (let settlement = computeSettlement now asset;
          amount = (case as_amount asset of None \<Rightarrow> 0 | Some a \<Rightarrow> a);
          recipientTotal = sumRecipientAvailable d (as_recipient_id asset);
          ev = (\<lambda>name st. (claim_event name c st)
                 \<lparr>au_assetKey := Some (as_asset_key asset), au_recipientId := Some (as_recipient_id asset),
                  au_protocol := Some (rv_protocol recipient)\<rparr>)
      in if live_conflict d c
         then (Inl (api_throw 409 ''ALREADY_CLAIMED'' ''asset has already been claimed''), d)
         else if bigClaim E amount recipientTotal then
           (Inr (replay_result c ''pending_review'' False settlement),
            append_audit E now ((ev ''claim.pending_review'' ''pending_review'')\<lparr>au_detail := Some
                [(''amount'', JStr (dec_int amount)), (''recipientTotal'', JStr (dec_int recipientTotal)),
                 (''reason'', JStr ''big-claim brake'')]\<rparr>)
              (update_claim (cl_claim_id c) (won_row PendingReview (cp_signature proof) saltLength settlement now)
                (update_asset (as_asset_key asset) (set_asset_status A_pending_review) d)))
         else
           (Inr (replay_result c ''verified'' False settlement),
            append_audit E now ((ev ''claim.verified'' ''verified'')\<lparr>au_detail := Some
                [(''assetType'', JStr (asset_type_str (as_asset_type asset))), (''amount'', JStr (dec_int amount)),
                 (''settlement'', case settlement of None \<Rightarrow> JNull | Some s \<Rightarrow> JStr s)]\<rparr>)
              (update_claim (cl_claim_id c) (won_row Verified (cp_signature proof) saltLength settlement now)
                (update_asset (as_asset_key asset) (set_asset_status A_claiming) d))))"

fun thrown_code :: "thrown \<Rightarrow> string" where
  "thrown_code (ThrowApi e) = ae_code e"
| "thrown_code (ThrowVerr e) = ''INVALID_INPUT''"

fun thrown_message :: "thrown \<Rightarrow> string" where
  "thrown_message (ThrowApi e) = ae_message e"
| "thrown_message (ThrowVerr (VerificationError c m)) = m"
| "thrown_message (ThrowVerr (PlainError m)) = m"

text \<open>
  The proof is checked against the identity and the asset under lock. A claim row without a
  challenge nonce, which no operation inserts, makes the code fail on the missing buffer, and the
  transaction rolls back.
\<close>

definition verify_and_consume ::
  "'k service_env \<Rightarrow> int \<Rightarrow> complete_input \<Rightarrow> proof_input \<Rightarrow> claim_row \<Rightarrow> asset_row \<Rightarrow> recipient_view \<Rightarrow> db
     \<Rightarrow> (thrown + complete_result) \<times> db" where
  "verify_and_consume E now inp p c asset recipient d =
     (case buildProof p (cl_claimant c) (rv_protocol recipient) (ci_nonceHex inp) of
        Inl e \<Rightarrow> (Inl e, rejectClaim E now c (thrown_code e) (thrown_message e) d)
      | Inr proof \<Rightarrow>
        (case cl_challenge_nonce c of
           None \<Rightarrow> (Inl (ThrowVerr (PlainError ''missing challenge nonce'')), d)
         | Some nonce \<Rightarrow>
           (case verifyClaim (se_prims E) recipient (toAssetView asset nonce) proof (se_network E) of
              Inl (VerificationError code m) \<Rightarrow>
                (Inl (ThrowApi (fromVerificationError code m)),
                 rejectClaim E now c (verr_code_str code) m d)
            | Inl (PlainError m) \<Rightarrow> (Inl (ThrowVerr (PlainError m)), d)
            | Inr vp \<Rightarrow>
                consume_claim E now c asset recipient proof
                  (if rv_protocol recipient = PROTOCOL_ARWEAVE
                   then Some (case cp_saltLength proof of None \<Rightarrow> 32 | Some l \<Rightarrow> l) else None) d)))"

definition expireClaim :: "'k service_env \<Rightarrow> int \<Rightarrow> claim_row \<Rightarrow> db \<Rightarrow> db" where
  "expireClaim E now c d =
     append_audit E now (claim_event ''claim.expired'' c ''expired'')
       (update_claim (cl_claim_id c) (set_claim_status Expired_claim) d)"

definition complete_claiming ::
  "'k service_env \<Rightarrow> int \<Rightarrow> complete_input \<Rightarrow> proof_input \<Rightarrow> claim_row \<Rightarrow> db
     \<Rightarrow> (thrown + complete_result) \<times> db" where
  "complete_claiming E now inp p c d =
     (if truthy (ci_claimant inp) \<and> ci_claimant inp \<noteq> Some (cl_claimant c)
      then (Inl (api_throw 422 ''INVALID_FIELD_VALUE'' ''claimant does not match the initiated claim''),
            rejectClaim E now c ''INVALID_FIELD_VALUE'' ''claimant echo != bound claimant'' d)
      else if (case cl_challenge_expires_at c of None \<Rightarrow> True | Some t \<Rightarrow> t \<le> now)
      then (Inl (api_throw 409 ''CHALLENGE_EXPIRED'' ''claim challenge expired''), expireClaim E now c d)
      else case find_asset d (cl_asset_key c) of
        None \<Rightarrow> (Inl (api_throw 404 ''ASSET_NOT_FOUND'' ''asset no longer exists''),
                 rejectClaim E now c ''ASSET_NOT_FOUND'' ''asset vanished'' d)
      | Some asset \<Rightarrow>
          if as_status asset \<noteq> Available
          then (let err = unavailableError (as_status asset)
                in (Inl err, rejectClaim E now c (thrown_code err) (thrown_message err) d))
          else case find_recipient d (as_recipient_id asset) of
            None \<Rightarrow> (Inl (api_throw 404 ''RECIPIENT_NOT_FOUND'' ''recipient missing''),
                     rejectClaim E now c ''RECIPIENT_NOT_FOUND'' ''asset references unknown recipient'' d)
          | Some recipRow \<Rightarrow>
              (case toRecipientView recipRow of
                 Inl e \<Rightarrow> (Inl e, d)
               | Inr recipient \<Rightarrow> verify_and_consume E now inp p c asset recipient d))"

definition complete_row ::
  "'k service_env \<Rightarrow> int \<Rightarrow> complete_input \<Rightarrow> proof_input \<Rightarrow> claim_row \<Rightarrow> db
     \<Rightarrow> (thrown + complete_result) \<times> db" where
  "complete_row E now inp p c d =
     (if cl_status c \<in> {Verified, Dispatching, Confirmed}
      then (case verifyReplayProof E c inp p d of
              Inl e \<Rightarrow> (Inl e, d) | Inr u \<Rightarrow> (Inr (replay_result c ''verified'' True (cl_settlement c)), d))
      else if cl_status c = PendingReview
      then (case verifyReplayProof E c inp p d of
              Inl e \<Rightarrow> (Inl e, d) | Inr u \<Rightarrow> (Inr (replay_result c ''pending_review'' True (cl_settlement c)), d))
      else if cl_status c = Rejected
      then (let code = (case cl_error c of None \<Rightarrow> ''REJECTED'' | Some e \<Rightarrow> e)
            in (Inl (api_throw (statusForStoredCode code) code ''claim was previously rejected''), d))
      else if cl_status c = Expired_claim
      then (Inl (api_throw 409 ''CHALLENGE_EXPIRED'' ''claim challenge expired''), d)
      else if cl_status c \<noteq> Claiming
      then (Inl (api_throw 409 ''CLAIM_STATE''
                   (''claim not completable from '' @ claim_status_str (cl_status c))), d)
      else complete_claiming E now inp p c d)"

definition completeClaim ::
  "'k service_env \<Rightarrow> int \<Rightarrow> complete_input \<Rightarrow> db \<Rightarrow> (thrown + complete_result) \<times> db" where
  "completeClaim E now inp d =
     (if \<not> truthy (ci_claimId inp) \<and> \<not> truthy (ci_idempotencyKey inp)
      then (Inl (api_throw 400 ''INVALID_REQUEST'' ''provide claimId or idempotencyKey''), d)
      else case ci_proof inp of
        None \<Rightarrow> (Inl (api_throw 400 ''INVALID_REQUEST'' ''proof required''), d)
      | Some p \<Rightarrow>
          (case (if truthy (ci_claimId inp) then find_claim d (the (ci_claimId inp))
                 else find_idem d (the (ci_idempotencyKey inp))) of
             None \<Rightarrow> (Inl (api_throw 404 ''CLAIM_NOT_FOUND'' ''no such claim''), d)
           | Some c \<Rightarrow> complete_row E now inp p c d))"

section \<open>The reaper\<close>

definition reap_limit :: "int option \<Rightarrow> nat" where
  "reap_limit l = nat (min (max (case l of None \<Rightarrow> 500 | Some v \<Rightarrow> v) 1) 5000)"

definition reapable :: "int \<Rightarrow> claim_row \<Rightarrow> bool" where
  "reapable now c = (cl_status c = Claiming
     \<and> (case cl_challenge_expires_at c of None \<Rightarrow> False | Some t \<Rightarrow> t \<le> now))"

definition reap_row :: "'k service_env \<Rightarrow> int \<Rightarrow> claim_row \<Rightarrow> db \<Rightarrow> db" where
  "reap_row E clock c d =
     append_audit E clock ((audit_event ''claim.expired'')\<lparr>au_claimId := Some (cl_claim_id c),
        au_assetKey := Some (cl_asset_key c), au_recipientId := cl_recipient_id c,
        au_protocol := cl_protocol c, au_status := Some ''expired'',
        au_reason := Some ''challenge expired (reaped)''\<rparr>)
       (update_claim (cl_claim_id c) (\<lambda>r. if cl_status r = Claiming then set_claim_status Expired_claim r else r) d)"

text \<open>\<open>skip\<close> says which rows another transaction holds (\<open>SKIP LOCKED\<close>).\<close>

definition reap_batch :: "int \<Rightarrow> int option \<Rightarrow> (claim_row \<Rightarrow> bool) \<Rightarrow> db \<Rightarrow> claim_row list" where
  "reap_batch now limit skip d =
     take (reap_limit limit)
       (sort_key (\<lambda>c. the (cl_challenge_expires_at c))
         (filter (\<lambda>c. reapable now c \<and> \<not> skip c) (db_claims d)))"

definition reapExpiredChallenges ::
  "'k service_env \<Rightarrow> int \<Rightarrow> int \<Rightarrow> int option \<Rightarrow> (claim_row \<Rightarrow> bool) \<Rightarrow> db \<Rightarrow> nat \<times> db" where
  "reapExpiredChallenges E clock now limit skip d =
     (let batch = reap_batch now limit skip d
      in (length batch, fold (reap_row E clock) batch d))"

text \<open>The loop of \<open>reapAllExpiredChallenges\<close>, with the rounds it may take as fuel.\<close>

fun reap_all :: "nat \<Rightarrow> 'k service_env \<Rightarrow> int \<Rightarrow> int \<Rightarrow> int option \<Rightarrow> db \<Rightarrow> (nat \<times> db) option" where
  "reap_all 0 E clock now batch d = None"
| "reap_all (Suc fuel) E clock now batch d =
     (let (n, d') = reapExpiredChallenges E clock now batch (\<lambda>c. False) d
      in if n = 0 then Some (0, d')
         else map_option (\<lambda>(t, d''). (n + t, d'')) (reap_all fuel E clock now batch d'))"

end
