(* ===== verification/Claims_Steps.thy ===== *)
theory Claims_Steps
  imports Claims_Service
begin

text \<open>
  The claims service as a state machine: the invariant of the tables, the steps its transactions
  take, and the properties of \<open>initiateClaim\<close>, \<open>completeClaim\<close> and the reaper.
\<close>

section \<open>The invariant\<close>

text \<open>A claim that has won its asset, from the proof on.\<close>

definition won :: "claim_status \<Rightarrow> bool" where
  "won s = (s \<in> {Verified, PendingReview, Dispatching, Confirmed, Failed, NeedsOperator,
                 AwaitingManualVaultDelivery})"

text \<open>
  The invariant of the claims and assets tables: unique keys; a claim that has won holds an asset
  that is not available, and that is \<open>claimed\<close> once the claim is confirmed; and no asset is won
  twice.
\<close>

definition holds_asset :: "claim_row \<Rightarrow> asset_row \<Rightarrow> bool" where
  "holds_asset c a = (as_asset_key a = cl_asset_key c \<and> as_status a \<noteq> Available
      \<and> (cl_status c = Confirmed \<longrightarrow> as_status a = A_claimed))"

definition claims_inv :: "claim_row list \<Rightarrow> asset_row list \<Rightarrow> bool" where
  "claims_inv cs as =
     (distinct (map cl_claim_id cs) \<and> distinct (map as_asset_key as)
      \<and> (\<forall>c \<in> set cs. won (cl_status c) \<longrightarrow> (\<exists>a \<in> set as. holds_asset c a))
      \<and> (\<forall>c \<in> set cs. \<forall>c' \<in> set cs. won (cl_status c) \<and> won (cl_status c')
           \<and> cl_asset_key c = cl_asset_key c' \<longrightarrow> c = c'))"

definition db_inv :: "db \<Rightarrow> bool" where
  "db_inv d = claims_inv (db_claims d) (db_assets d)"

lemma won_simps [simp]:
  "won Verified" "won PendingReview" "won Dispatching" "won Confirmed" "won Failed"
  "won NeedsOperator" "won AwaitingManualVaultDelivery"
  "\<not> won Claiming" "\<not> won Rejected" "\<not> won Expired_claim"
  by (simp_all add: won_def)

lemma append_audit_simps [simp]:
  "db_claims (append_audit E now e d) = db_claims d"
  "db_assets (append_audit E now e d) = db_assets d"
  "db_recipients (append_audit E now e d) = db_recipients d"
  by (simp_all add: append_audit_def)

lemma row_unique:
  "distinct (map key rows) \<Longrightarrow> x \<in> set rows \<Longrightarrow> y \<in> set rows \<Longrightarrow> key x = key y \<Longrightarrow> x = y"
  by (metis row_find_distinct option.inject)

text \<open>If every claim that has won had won before, under the same id, then no asset is won twice.\<close>

lemma claims_inv_rel:
  assumes "claims_inv cs as"
    and "distinct (map cl_claim_id cs')" and "distinct (map as_asset_key as')"
    and "\<And>x. x \<in> set cs' \<Longrightarrow> won (cl_status x) \<Longrightarrow> \<exists>c \<in> set cs. won (cl_status c)
           \<and> cl_asset_key c = cl_asset_key x \<and> cl_claim_id c = cl_claim_id x"
    and "\<And>x. x \<in> set cs' \<Longrightarrow> won (cl_status x) \<Longrightarrow> \<exists>a \<in> set as'. holds_asset x a"
  shows "claims_inv cs' as'"
  unfolding claims_inv_def
proof (intro conjI ballI impI)
  fix x y assume xy: "x \<in> set cs'" "y \<in> set cs'"
    and w: "won (cl_status x) \<and> won (cl_status y) \<and> cl_asset_key x = cl_asset_key y"
  obtain c where c: "c \<in> set cs" "won (cl_status c)" "cl_asset_key c = cl_asset_key x"
    "cl_claim_id c = cl_claim_id x" using assms(4) xy(1) w by blast
  obtain c' where c': "c' \<in> set cs" "won (cl_status c')" "cl_asset_key c' = cl_asset_key y"
    "cl_claim_id c' = cl_claim_id y" using assms(4) xy(2) w by blast
  have "c = c'" using assms(1) c c' w by (auto simp: claims_inv_def)
  then show "x = y" using row_unique [OF assms(2) xy] c(4) c'(4) by simp
qed (use assms(2,3,5) in auto)

text \<open>A claim row is updated without becoming a won claim, or stays one, unconfirmed.\<close>

lemma claims_inv_update:
  assumes "claims_inv cs as"
    and "\<And>c. cl_claim_id (f c) = cl_claim_id c" and "\<And>c. cl_asset_key (f c) = cl_asset_key c"
    and "\<And>c. c \<in> set cs \<Longrightarrow> cl_claim_id c = cid \<Longrightarrow> won (cl_status (f c)) \<Longrightarrow> won (cl_status c)"
    and "\<And>c. c \<in> set cs \<Longrightarrow> cl_claim_id c = cid \<Longrightarrow> cl_status (f c) = Confirmed \<Longrightarrow> cl_status c = Confirmed"
  shows "claims_inv (row_update cl_claim_id cid f cs) as"
proof (rule claims_inv_rel [OF assms(1)])
  fix x assume x: "x \<in> set (row_update cl_claim_id cid f cs)" and w: "won (cl_status x)"
  from x obtain c where c: "c \<in> set cs" "x = (if cl_claim_id c = cid then f c else c)"
    unfolding set_row_update by blast
  have cw: "won (cl_status c) \<and> cl_asset_key c = cl_asset_key x \<and> cl_claim_id c = cl_claim_id x"
    using c w assms(2,3,4) by (cases "cl_claim_id c = cid") simp_all
  then show "\<exists>c \<in> set cs. won (cl_status c) \<and> cl_asset_key c = cl_asset_key x
      \<and> cl_claim_id c = cl_claim_id x" using c by blast
  obtain a where "a \<in> set as" "holds_asset c a" using assms(1) c cw by (auto simp: claims_inv_def)
  moreover have "cl_status x = Confirmed \<Longrightarrow> cl_status c = Confirmed"
    using c assms(5) by (cases "cl_claim_id c = cid") simp_all
  ultimately show "\<exists>a \<in> set as. holds_asset x a" using cw by (auto simp: holds_asset_def)
qed (use assms(1,2) in \<open>simp_all add: row_simps claims_inv_def\<close>)

text \<open>
  A won claim and its asset change together: the asset does not become available again, stays
  claimed, and is claimed if the claim is confirmed.
\<close>

lemma claims_inv_pair:
  assumes "claims_inv cs as" and "c \<in> set cs" and "won (cl_status c)" and "k = cl_asset_key c"
    and "\<And>c. cl_claim_id (f c) = cl_claim_id c" and "\<And>c. cl_asset_key (f c) = cl_asset_key c"
    and "\<And>a. as_asset_key (g a) = as_asset_key a"
    and "\<And>a. as_status a \<noteq> Available \<Longrightarrow> as_status (g a) \<noteq> Available"
    and "\<And>a. as_status a = A_claimed \<Longrightarrow> as_status (g a) = A_claimed"
    and "\<And>a. as_status a \<noteq> Available \<Longrightarrow> cl_status (f c) = Confirmed \<Longrightarrow> as_status (g a) = A_claimed"
  shows "claims_inv (row_update cl_claim_id (cl_claim_id c) f cs) (row_update as_asset_key k g as)"
proof (rule claims_inv_rel [OF assms(1)])
  have dc: "distinct (map cl_claim_id cs)" using assms(1) by (simp add: claims_inv_def)
  fix x assume x: "x \<in> set (row_update cl_claim_id (cl_claim_id c) f cs)" and w: "won (cl_status x)"
  from x obtain y where y: "y \<in> set cs" "x = (if cl_claim_id y = cl_claim_id c then f y else y)"
    unfolding set_row_update by blast
  have yc: "y = c" if "cl_claim_id y = cl_claim_id c" using row_unique [OF dc y(1) assms(2) that] .
  have yw: "won (cl_status y) \<and> cl_asset_key y = cl_asset_key x \<and> cl_claim_id y = cl_claim_id x"
    using y(2) w assms(3,5,6) yc by (cases "cl_claim_id y = cl_claim_id c") simp_all
  then show "\<exists>c \<in> set cs. won (cl_status c) \<and> cl_asset_key c = cl_asset_key x
      \<and> cl_claim_id c = cl_claim_id x" using y by blast
  obtain a where a: "a \<in> set as" "holds_asset y a" using assms(1) y yw by (auto simp: claims_inv_def)
  define b where "b = (if as_asset_key a = k then g a else a)"
  have "b \<in> set (row_update as_asset_key k g as)" using a(1) by (auto simp: set_row_update b_def)
  moreover have "holds_asset x b"
  proof (cases "cl_claim_id y = cl_claim_id c")
    case True
    with yc y(2) have "y = c" "x = f c" by simp_all
    with a(2) assms(4,6,7,8,10) show ?thesis by (simp add: holds_asset_def b_def)
  next
    case False
    with y(2) have "x = y" by simp
    with a(2) assms(7,8,9) show ?thesis by (simp add: holds_asset_def b_def)
  qed
  ultimately show "\<exists>a \<in> set (row_update as_asset_key k g as). holds_asset x a" by blast
qed (use assms(1,5,7) in \<open>simp_all add: row_simps claims_inv_def\<close>)

text \<open>Winning: the asset was available, so no claim had won it.\<close>

lemma claims_inv_none_won:
  assumes "claims_inv cs as" and "a \<in> set as" and "as_status a = Available"
    and "x \<in> set cs" and "won (cl_status x)"
  shows "cl_asset_key x \<noteq> as_asset_key a"
proof
  assume k: "cl_asset_key x = as_asset_key a"
  obtain b where b: "b \<in> set as" "holds_asset x b" using assms(1,4,5) by (auto simp: claims_inv_def)
  have "distinct (map as_asset_key as)" using assms(1) by (simp add: claims_inv_def)
  then have "b = a" using row_unique [of as_asset_key as b a] b assms(2) k by (simp add: holds_asset_def)
  with b(2) assms(3) show False by (simp add: holds_asset_def)
qed

lemma claims_inv_win:
  assumes "claims_inv cs as" and "c \<in> set cs" and "a \<in> set as" and "as_asset_key a = cl_asset_key c"
    and "as_status a = Available" and "s \<noteq> Available"
    and "\<And>c. cl_claim_id (f c) = cl_claim_id c" and "\<And>c. cl_asset_key (f c) = cl_asset_key c"
    and "cl_status (f c) \<noteq> Confirmed"
  shows "claims_inv (row_update cl_claim_id (cl_claim_id c) f cs)
           (row_update as_asset_key (as_asset_key a) (set_asset_status s) as)"
proof -
  let ?cs = "row_update cl_claim_id (cl_claim_id c) f cs"
  let ?as = "row_update as_asset_key (as_asset_key a) (set_asset_status s) as"
  have dc: "distinct (map cl_claim_id cs)" and da: "distinct (map as_asset_key as)"
    using assms(1) by (simp_all add: claims_inv_def)
  have none: "cl_asset_key x \<noteq> as_asset_key a" if "x \<in> set cs" "won (cl_status x)" for x
    using claims_inv_none_won [OF assms(1,3,5) that] .
  have mem: "x = f c \<or> (x \<in> set cs \<and> cl_claim_id x \<noteq> cl_claim_id c)" if "x \<in> set ?cs" for x
    using that row_unique [OF dc _ assms(2)] unfolding set_row_update by metis
  have ka: "as_asset_key (set_asset_status s b) = as_asset_key b" for b by (simp add: set_asset_status_def)
  have winner: "\<exists>b \<in> set ?as. holds_asset (f c) b"
    using assms(3,4,6,8,9) by (intro bexI [of _ "set_asset_status s a"])
      (auto simp: set_row_update set_asset_status_def holds_asset_def)
  have keep: "\<exists>b \<in> set ?as. holds_asset x b" if x: "x \<in> set cs" "won (cl_status x)" for x
  proof -
    obtain b where b: "b \<in> set as" "holds_asset x b" using assms(1) x by (auto simp: claims_inv_def)
    then have "as_asset_key b \<noteq> as_asset_key a" using none [OF x] by (simp add: holds_asset_def)
    with b have "b \<in> set ?as" by (auto simp: set_row_update)
    with b show ?thesis by blast
  qed
  show ?thesis
    unfolding claims_inv_def
  proof (intro conjI ballI impI)
    fix x assume "x \<in> set ?cs" "won (cl_status x)"
    then show "\<exists>b \<in> set ?as. holds_asset x b" using mem winner keep by metis
  next
    fix x y assume "x \<in> set ?cs" "y \<in> set ?cs"
      and w: "won (cl_status x) \<and> won (cl_status y) \<and> cl_asset_key x = cl_asset_key y"
    then consider "x = f c" "y = f c" | "x = f c" "y \<in> set cs" | "x \<in> set cs" "y = f c"
      | "x \<in> set cs" "y \<in> set cs" using mem by blast
    then show "x = y"
    proof cases
      case 4
      with assms(1) w show ?thesis by (auto simp: claims_inv_def)
    qed (use w none assms(4,8) in auto)
  qed (use dc da assms(7) ka in \<open>simp_all add: row_simps\<close>)
qed

lemma claims_inv_insert:
  assumes "claims_inv cs as" and "\<not> won (cl_status c)" and "cl_claim_id c \<notin> cl_claim_id ` set cs"
  shows "claims_inv (cs @ [c]) as"
  by (rule claims_inv_rel [OF assms(1)])
    (use assms in \<open>auto simp: claims_inv_def\<close>)

section \<open>The steps of the service\<close>

text \<open>
  What a committed transaction of the service does to the tables: a claim is inserted, rejected,
  expired, or wins its asset. The win asks for all that the code checks under its locks.
\<close>

definition proof_holds :: "'k service_env \<Rightarrow> db \<Rightarrow> claim_row \<Rightarrow> asset_row \<Rightarrow> claim_proof \<Rightarrow> bool" where
  "proof_holds E d c a pf =
     (\<exists>r rv nonce vp. find_recipient d (as_recipient_id a) = Some r \<and> toRecipientView r = Inr rv
        \<and> cl_challenge_nonce c = Some nonce \<and> cp_claimant pf = cl_claimant c
        \<and> verifyClaim (se_prims E) rv (toAssetView a nonce) pf (se_network E) = Inr vp)"

definition unexpired :: "int \<Rightarrow> claim_row \<Rightarrow> bool" where
  "unexpired now c = (case cl_challenge_expires_at c of None \<Rightarrow> False | Some t \<Rightarrow> now < t)"

text \<open>The message of the challenge is the one the current ledger rows rebuild.\<close>

definition challenge_bound :: "'k service_env \<Rightarrow> db \<Rightarrow> claim_row \<Rightarrow> bool" where
  "challenge_bound E d c =
     (\<exists>a rc rv nonce. find_asset d (cl_asset_key c) = Some a
        \<and> find_recipient d (as_recipient_id a) = Some rc \<and> toRecipientView rc = Inr rv
        \<and> cl_challenge_nonce c = Some nonce
        \<and> buildCanonicalFromLedger (se_prims E) rv (toAssetView a nonce) (cl_claimant c) nonce
            (se_network E) = Inr (cl_canonical_message c))"

definition undispatched :: "claim_row \<Rightarrow> bool" where
  "undispatched c = (cl_tx_signatures c = [] \<and> cl_dispatch_signature c = None \<and> cl_ant_batch_id c = None
     \<and> cl_ant_reserved_wire c = None)"

inductive service_step :: "'k service_env \<Rightarrow> db \<Rightarrow> db \<Rightarrow> bool" for E where
  step_initiate:
    "cl_status c = Claiming \<Longrightarrow> cl_claim_id c \<notin> cl_claim_id ` set (db_claims d)
     \<Longrightarrow> challenge_bound E d c \<Longrightarrow> undispatched c
     \<Longrightarrow> service_step E d (append_audit E now e (d\<lparr>db_claims := db_claims d @ [c]\<rparr>))"
| step_reject:
    "c \<in> set (db_claims d) \<Longrightarrow> cl_status c = Claiming
     \<Longrightarrow> service_step E d (rejectClaim E now c code reason d)"
| step_expire:
    "c \<in> set (db_claims d) \<Longrightarrow> cl_status c = Claiming \<Longrightarrow> \<not> unexpired now c
     \<Longrightarrow> service_step E d (expireClaim E now c d)"
| step_reap: "service_step E d (reap_row E now c d)"
| step_win:
    "c \<in> set (db_claims d) \<Longrightarrow> cl_status c = Claiming \<Longrightarrow> unexpired now c
     \<Longrightarrow> a \<in> set (db_assets d) \<Longrightarrow> as_asset_key a = cl_asset_key c \<Longrightarrow> as_status a = Available
     \<Longrightarrow> proof_holds E d c a pf
     \<Longrightarrow> (st, ast) \<in> {(Verified, A_claiming), (PendingReview, A_pending_review)}
     \<Longrightarrow> service_step E d (append_audit E now e
           (update_claim (cl_claim_id c) (won_row st (cp_signature pf) sl settlement now)
             (update_asset (as_asset_key a) (set_asset_status ast) d)))"

lemma db_inv_append_audit [simp]: "db_inv (append_audit E now e d) = db_inv d"
  by (simp add: db_inv_def)

lemma service_step_inv:
  assumes "service_step E d d'" and "db_inv d"
  shows "db_inv d'"
  using assms
proof (cases rule: service_step.cases)
  case (step_initiate c now e)
  then show ?thesis using assms(2) by (simp add: db_inv_def claims_inv_insert)
next
  case (step_reject c now code reason)
  then show ?thesis using assms(2)
    by (simp add: rejectClaim_def db_inv_def) (rule claims_inv_update; simp add: set_claim_status_def)
next
  case (step_expire c now)
  then show ?thesis using assms(2)
    by (simp add: expireClaim_def db_inv_def) (rule claims_inv_update; simp add: set_claim_status_def)
next
  case (step_reap now c)
  then show ?thesis
    using assms(2) by (simp add: reap_row_def db_inv_def) (rule claims_inv_update; simp add: set_claim_status_def split: if_splits)
next
  case (step_win c now a pf st ast e sl settlement)
  then have "claims_inv (row_update cl_claim_id (cl_claim_id c) (won_row st (cp_signature pf) sl settlement now) (db_claims d))
      (row_update as_asset_key (as_asset_key a) (set_asset_status ast) (db_assets d))"
    by (intro claims_inv_win) (use assms(2) in \<open>auto simp: db_inv_def won_row_def set_claim_status_def\<close>)
  with step_win show ?thesis by (simp add: db_inv_def)
qed

text \<open>The operations take these steps, or none.\<close>

lemma buildProof_claimant:
  "buildProof p cl proto nonce = Inr pf \<Longrightarrow> cp_claimant pf = cl"
  by (auto simp: buildProof_def and_then_Inr Let_def split: if_splits option.splits)

lemma no_live_conflict:
  assumes "db_inv d" and "c \<in> set (db_claims d)" and "a \<in> set (db_assets d)"
    and "as_asset_key a = cl_asset_key c" and "as_status a = Available"
  shows "\<not> live_conflict d c"
proof
  assume "live_conflict d c"
  then obtain x where "x \<in> set (db_claims d)" "cl_asset_key x = cl_asset_key c" "won (cl_status x)"
    by (auto simp: live_conflict_def live_claim_def)
  with claims_inv_none_won [OF _ assms(3,5)] assms(1,4) show False by (auto simp: db_inv_def)
qed

text \<open>
  What \<open>completeClaim\<close> does with a claim that is \<open>claiming\<close>: nothing, or it rejects or expires the
  claim, or consumes it after the proof has been verified.
\<close>

inductive complete_outcome ::
  "'k service_env \<Rightarrow> int \<Rightarrow> complete_input \<Rightarrow> proof_input \<Rightarrow> claim_row \<Rightarrow> db
     \<Rightarrow> thrown + complete_result \<Rightarrow> db \<Rightarrow> bool" for E now inp p c d where
  out_unchanged: "complete_outcome E now inp p c d (Inl e) d"
| out_rejected: "complete_outcome E now inp p c d (Inl e) (rejectClaim E now c code reason d)"
| out_expired: "\<not> unexpired now c \<Longrightarrow> complete_outcome E now inp p c d (Inl e) (expireClaim E now c d)"
| out_consumed:
    "a \<in> set (db_assets d) \<Longrightarrow> as_asset_key a = cl_asset_key c \<Longrightarrow> as_status a = Available
     \<Longrightarrow> find_asset d (cl_asset_key c) = Some a \<Longrightarrow> unexpired now c
     \<Longrightarrow> find_recipient d (as_recipient_id a) = Some r \<Longrightarrow> toRecipientView r = Inr rv
     \<Longrightarrow> buildProof p (cl_claimant c) (rv_protocol rv) (ci_nonceHex inp) = Inr pf
     \<Longrightarrow> cl_challenge_nonce c = Some nonce
     \<Longrightarrow> verifyClaim (se_prims E) rv (toAssetView a nonce) pf (se_network E) = Inr vp
     \<Longrightarrow> complete_outcome E now inp p c d (fst (consume_claim E now c a rv pf sl d))
           (snd (consume_claim E now c a rv pf sl d))"

lemma verify_and_consume_outcome:
  assumes "a \<in> set (db_assets d)" and "as_asset_key a = cl_asset_key c" and "as_status a = Available"
    and "find_asset d (cl_asset_key c) = Some a" and "unexpired now c"
    and "find_recipient d (as_recipient_id a) = Some r" and "toRecipientView r = Inr rv"
  shows "complete_outcome E now inp p c d (fst (verify_and_consume E now inp p c a rv d))
           (snd (verify_and_consume E now inp p c a rv d))"
  unfolding verify_and_consume_def
  by (auto split: sum.split option.split verr.split
      intro: out_unchanged out_rejected out_consumed [OF assms])

lemma complete_claiming_outcome:
  "complete_outcome E now inp p c d (fst (complete_claiming E now inp p c d))
     (snd (complete_claiming E now inp p c d))"
proof (cases "unexpired now c")
  case False
  then have "case cl_challenge_expires_at c of None \<Rightarrow> True | Some t \<Rightarrow> t \<le> now"
    by (auto simp: unexpired_def split: option.splits)
  with False show ?thesis by (auto simp: complete_claiming_def intro: out_rejected out_expired)
next
  case True
  then have "\<not> (case cl_challenge_expires_at c of None \<Rightarrow> True | Some t \<Rightarrow> t \<le> now)"
    by (auto simp: unexpired_def split: option.splits)
  with True show ?thesis
    by (auto simp: complete_claiming_def Let_def split: option.split sum.split dest: row_find_Some
        intro: out_rejected out_unchanged verify_and_consume_outcome)
qed

text \<open>What \<open>completeClaim\<close> does, read backwards from its result.\<close>

lemma completeClaim_row:
  assumes "completeClaim E now inp d = (Inr r, d')"
  obtains p c where "ci_proof inp = Some p"
    "(if truthy (ci_claimId inp) then find_claim d (the (ci_claimId inp))
      else find_idem d (the (ci_idempotencyKey inp))) = Some c"
    "truthy (ci_claimId inp) \<or> truthy (ci_idempotencyKey inp)"
    "c \<in> set (db_claims d)" "complete_row E now inp p c d = (Inr r, d')"
  using assms unfolding completeClaim_def
  by (auto simp: find_idem_def split: if_splits option.splits dest: row_find_Some)

lemma completeClaim_cases:
  assumes "completeClaim E now inp d = (res, d')"
  obtains "d' = d"
  | c p where "c \<in> set (db_claims d)" "cl_status c = Claiming" "complete_outcome E now inp p c d res d'"
proof (cases "d' = d")
  case False
  with assms obtain p c where c: "complete_row E now inp p c d = (res, d')"
    "(if truthy (ci_claimId inp) then find_claim d (the (ci_claimId inp))
      else find_idem d (the (ci_idempotencyKey inp))) = Some c"
    unfolding completeClaim_def by (auto split: if_splits option.splits)
  then have "c \<in> set (db_claims d)"
    by (auto simp: find_idem_def dest: row_find_Some split: if_splits)
  moreover have "complete_claiming E now inp p c d = (res, d')" "cl_status c = Claiming"
    using c(1) False by (auto simp: complete_row_def Let_def split: if_splits sum.splits)
  ultimately show thesis using complete_claiming_outcome [of E now inp p c d] that(2) by simp
qed (rule that(1))

text \<open>A consumption, spelled out: the unique index never stops it.\<close>

lemma consume_claim_cases:
  assumes "\<not> live_conflict d c"
  obtains st ast e where "(st, ast) \<in> {(Verified, A_claiming), (PendingReview, A_pending_review)}"
    "consume_claim E now c a rv pf sl d =
      (Inr (replay_result c (claim_status_str st) False (computeSettlement now a)),
       append_audit E now e (update_claim (cl_claim_id c)
         (won_row st (cp_signature pf) sl (computeSettlement now a) now)
         (update_asset (as_asset_key a) (set_asset_status ast) d)))"
proof (cases "bigClaim E (case as_amount a of None \<Rightarrow> 0 | Some v \<Rightarrow> v)
                (sumRecipientAvailable d (as_recipient_id a))")
  case True
  show thesis by (rule that [of PendingReview A_pending_review])
    (use True assms in \<open>simp_all add: consume_claim_def Let_def\<close>)
next
  case False
  show thesis by (rule that [of Verified A_claiming])
    (use False assms in \<open>simp_all add: consume_claim_def Let_def\<close>)
qed

lemma proof_holdsI:
  "find_recipient d (as_recipient_id a) = Some r \<Longrightarrow> toRecipientView r = Inr rv
   \<Longrightarrow> buildProof p (cl_claimant c) (rv_protocol rv) echo = Inr pf \<Longrightarrow> cl_challenge_nonce c = Some nonce
   \<Longrightarrow> verifyClaim (se_prims E) rv (toAssetView a nonce) pf (se_network E) = Inr vp
   \<Longrightarrow> proof_holds E d c a pf"
  unfolding proof_holds_def using buildProof_claimant by blast

lemma completeClaim_step:
  assumes "completeClaim E now inp d = (res, d')" and "db_inv d"
  shows "d' = d \<or> service_step E d d'"
  using assms(1)
proof (cases rule: completeClaim_cases)
  case (2 c p)
  from 2(3) show ?thesis
  proof cases
    case (out_consumed a r rv pf nonce vp sl)
    note ph = proof_holdsI [OF out_consumed(8-12)]
    have "\<not> live_conflict d c" using no_live_conflict [OF assms(2) 2(1) out_consumed(3,4,5)] .
    then obtain st ast e where w: "(st, ast) \<in> {(Verified, A_claiming), (PendingReview, A_pending_review)}"
      "d' = append_audit E now e (update_claim (cl_claim_id c)
         (won_row st (cp_signature pf) sl (computeSettlement now a) now)
         (update_asset (as_asset_key a) (set_asset_status ast) d))"
      using out_consumed(2) by (metis consume_claim_cases snd_conv)
    then show ?thesis using step_win [OF 2(1,2) out_consumed(7,3,4,5) ph w(1)] by blast
  qed (use 2 step_reject step_expire in blast)+
qed simp

section \<open>Properties\<close>

lemma verifyReplayProof_holds:
  assumes "verifyReplayProof E c inp p d = Inr u"
  obtains a pf where "find_asset d (cl_asset_key c) = Some a" "proof_holds E d c a pf"
proof -
  from assms obtain nonce a r rv pf vp where
    "cl_challenge_nonce c = Some nonce" "find_asset d (cl_asset_key c) = Some a"
    "find_recipient d (as_recipient_id a) = Some r" "toRecipientView r = Inr rv"
    "buildProof p (cl_claimant c) (rv_protocol rv) (ci_nonceHex inp) = Inr pf"
    "verifyClaim (se_prims E) rv (toAssetView a nonce) pf (se_network E) = Inr vp"
    by (auto simp: verifyReplayProof_def and_then_Inr case_Inr_iff split: option.splits)
  then show thesis using that proof_holdsI by blast
qed

text \<open>A success of \<open>completeClaim\<close>: a replay of a claim that has won, or a win.\<close>

lemma completeClaim_Inr_cases:
  assumes "completeClaim E now inp d = (Inr r, d')" and "db_inv d"
  obtains (replay) c a pf where "c \<in> set (db_claims d)" "won (cl_status c)" "d' = d"
      "find_asset d (cl_asset_key c) = Some a" "proof_holds E d c a pf"
      "r = replay_result c (cr_status r) True (cl_settlement c)"
  | (win) c a pf st ast e sl where "c \<in> set (db_claims d)" "cl_status c = Claiming" "unexpired now c"
      "find_asset d (cl_asset_key c) = Some a" "as_status a = Available" "proof_holds E d c a pf"
      "(st, ast) \<in> {(Verified, A_claiming), (PendingReview, A_pending_review)}"
      "r = replay_result c (claim_status_str st) False (computeSettlement now a)"
      "d' = append_audit E now e (update_claim (cl_claim_id c)
         (won_row st (cp_signature pf) sl (computeSettlement now a) now)
         (update_asset (as_asset_key a) (set_asset_status ast) d))"
proof -
  from assms(1) obtain p c where c: "c \<in> set (db_claims d)" "complete_row E now inp p c d = (Inr r, d')"
    by (rule completeClaim_row)
  show thesis
  proof (cases "cl_status c = Claiming")
    case False
    with c(2) have v: "verifyReplayProof E c inp p d = Inr ()" "d' = d"
      "r = replay_result c (cr_status r) True (cl_settlement c)" "won (cl_status c)"
      by (auto simp: complete_row_def Let_def replay_result_def split: if_splits sum.splits)
    from v(1) obtain a pf where "find_asset d (cl_asset_key c) = Some a" "proof_holds E d c a pf"
      by (rule verifyReplayProof_holds)
    then show ?thesis using replay c(1) v by blast
  next
    case True
    with c(2) have "complete_claiming E now inp p c d = (Inr r, d')" by (simp add: complete_row_def)
    then have "complete_outcome E now inp p c d (Inr r) d'" using complete_claiming_outcome [of E now inp p c d] by simp
    then show ?thesis
    proof cases
      case (out_consumed a rc rv pf nonce vp sl)
      have "\<not> live_conflict d c" using no_live_conflict [OF assms(2) c(1) out_consumed(3,4,5)] .
      then obtain st ast e where w: "(st, ast) \<in> {(Verified, A_claiming), (PendingReview, A_pending_review)}"
        "consume_claim E now c a rv pf sl d =
           (Inr (replay_result c (claim_status_str st) False (computeSettlement now a)),
            append_audit E now e (update_claim (cl_claim_id c)
              (won_row st (cp_signature pf) sl (computeSettlement now a) now)
              (update_asset (as_asset_key a) (set_asset_status ast) d)))"
        by (rule consume_claim_cases)
      show ?thesis
        using win [OF c(1) True out_consumed(7,6,5) proof_holdsI [OF out_consumed(8-12)] w(1)]
          out_consumed(1,2) w(2) by simp
    qed
  qed
qed


definition only_closed :: "claim_row \<Rightarrow> claim_row \<Rightarrow> bool" where
  "only_closed c c' = (c' = c \<or> (cl_status c = Claiming \<and> cl_status c' \<in> {Rejected, Expired_claim}
     \<and> cl_claim_id c' = cl_claim_id c \<and> cl_asset_key c' = cl_asset_key c))"

lemma only_closed_update:
  assumes "distinct (map cl_claim_id cs)" and "c \<in> set cs" and "only_closed c (f c)"
  shows "list_all2 only_closed cs (row_update cl_claim_id (cl_claim_id c) f cs)"
  unfolding row_update_def list_all2_map2
proof (rule list_all2_same [THEN iffD2], intro ballI)
  fix x assume "x \<in> set cs"
  then show "only_closed x (if cl_claim_id x = cl_claim_id c then f x else x)"
    using row_unique [OF assms(1) _ assms(2), of x] assms(3) by (auto simp: only_closed_def)
qed


lemma row_find_map:
  "(\<And>r. key (g r) = key r) \<Longrightarrow> row_find key k (map g rows) = map_option g (row_find key k rows)"
  unfolding row_find_def by (induction rows) auto

lemma row_find_append:
  "row_find key k (xs @ ys) = (case row_find key k xs of Some r \<Rightarrow> Some r | None \<Rightarrow> row_find key k ys)"
  unfolding row_find_def by (induction xs) auto

lemma row_find_update_other:
  assumes "\<And>r. key (f r) = key r"
  shows "row_find key k (row_update key' k' f rows) =
     map_option (\<lambda>r. if key' r = k' then f r else r) (row_find key k rows)"
  unfolding row_update_def using assms by (intro row_find_map) simp

lemma proof_check_frame:
  assumes "find_asset d' (cl_asset_key c) = map_option (set_asset_status s) (find_asset d (cl_asset_key c))"
    and "db_recipients d' = db_recipients d"
    and "cl_challenge_nonce c' = cl_challenge_nonce c" "cl_asset_key c' = cl_asset_key c" "cl_claimant c' = cl_claimant c"
  shows "verifyReplayProof E c' inp p d' = verifyReplayProof E c inp p d"
  using assms by (simp add: verifyReplayProof_def set_asset_status_def toAssetView_def
      split: option.split)

lemma replay_result_again:
  "r = replay_result c st False (cr_settlement r) \<Longrightarrow>
     r\<lparr>cr_idempotentReplay := True\<rparr> = replay_result c st True (cr_settlement r)"
  by (cases r) (simp add: replay_result_def)

lemma replay_result_cong:
  "cl_claim_id c' = cl_claim_id c \<Longrightarrow> cl_asset_key c' = cl_asset_key c \<Longrightarrow> cl_claimant c' = cl_claimant c
   \<Longrightarrow> replay_result c' st b s = replay_result c st b s"
  by (simp add: replay_result_def)

lemma claiming_win_replays:
  assumes "complete_row E now inp p c d = (Inr r, d')" and "db_inv d" and "cl_status c = Claiming"
    and "c \<in> set (db_claims d)"
  obtains st ast e sl pf where "verifyReplayProof E c inp p d = Inr ()"
    "(st, ast) \<in> {(Verified, A_claiming), (PendingReview, A_pending_review)}"
    "r = replay_result c (claim_status_str st) False (cr_settlement r)"
    "d' = append_audit E now e (update_claim (cl_claim_id c)
         (won_row st (cp_signature (pf :: claim_proof)) sl (cr_settlement r) now)
         (update_asset (cl_asset_key c) (set_asset_status ast) d))"
proof -
  from assms(1,3) have "complete_claiming E now inp p c d = (Inr r, d')" by (simp add: complete_row_def)
  then have "complete_outcome E now inp p c d (Inr r) d'" using complete_claiming_outcome [of E now inp p c d] by simp
  then obtain a rr rv pf nonce vp sl where *: "a \<in> set (db_assets d)" "as_asset_key a = cl_asset_key c"
    "as_status a = Available" "find_asset d (cl_asset_key c) = Some a"
    "find_recipient d (as_recipient_id a) = Some rr" "toRecipientView rr = Inr rv"
    "buildProof p (cl_claimant c) (rv_protocol rv) (ci_nonceHex inp) = Inr pf"
    "cl_challenge_nonce c = Some nonce"
    "verifyClaim (se_prims E) rv (toAssetView a nonce) pf (se_network E) = Inr vp"
    and **: "consume_claim E now c a rv pf sl d = (Inr r, d')"
    by (cases rule: complete_outcome.cases) (metis prod.collapse)
  have nc: "\<not> live_conflict d c" using no_live_conflict [OF assms(2,4) *(1-3)] .
  have v: "verifyReplayProof E c inp p d = Inr ()" using * by (simp add: verifyReplayProof_def)
  obtain st ast e where w: "(st, ast) \<in> {(Verified, A_claiming), (PendingReview, A_pending_review)}"
    "consume_claim E now c a rv pf sl d =
      (Inr (replay_result c (claim_status_str st) False (computeSettlement now a)),
       append_audit E now e (update_claim (cl_claim_id c)
         (won_row st (cp_signature pf) sl (computeSettlement now a) now)
         (update_asset (as_asset_key a) (set_asset_status ast) d)))"
    by (rule consume_claim_cases [OF nc])
  have r: "r = replay_result c (claim_status_str st) False (computeSettlement now a)"
    using w(2) ** by simp
  then have "cr_settlement r = computeSettlement now a" by (simp add: replay_result_def)
  then have r': "r = replay_result c (claim_status_str st) False (cr_settlement r)" using r by simp
  have "d' = append_audit E now e (update_claim (cl_claim_id c)
         (won_row st (cp_signature pf) sl (cr_settlement r) now)
         (update_asset (cl_asset_key c) (set_asset_status ast) d))"
    using w(2) ** *(2) \<open>cr_settlement r = _\<close> by simp
  with v w(1) r' show thesis by (rule that)
qed

lemma complete_row_replays:
  "cl_status c \<in> {Verified, Dispatching, Confirmed, PendingReview} \<Longrightarrow>
   complete_row E now inp p c d = (case verifyReplayProof E c inp p d of
       Inl e \<Rightarrow> (Inl e, d)
     | Inr u \<Rightarrow> (Inr (replay_result c (claim_status_str (if cl_status c = PendingReview then PendingReview
                      else Verified)) True (cl_settlement c)), d))"
  by (cases "cl_status c") (simp_all add: complete_row_def split: sum.split)

lemma complete_row_Inr:
  assumes "complete_row E now inp p c d = (Inr r, d')"
  shows "cl_status c \<in> {Claiming, Verified, Dispatching, Confirmed, PendingReview}"
  using assms by (cases "cl_status c") (simp_all add: complete_row_def Let_def)

lemma completion_repeats:
  assumes "db_inv d" and "completeClaim E now inp d = (Inr r, d')"
  shows "completeClaim E now' inp d' = (Inr (r\<lparr>cr_idempotentReplay := True\<rparr>), d')"
proof -
  from assms(2) obtain p c where c: "ci_proof inp = Some p"
    "(if truthy (ci_claimId inp) then find_claim d (the (ci_claimId inp))
      else find_idem d (the (ci_idempotencyKey inp))) = Some c"
    "truthy (ci_claimId inp) \<or> truthy (ci_idempotencyKey inp)"
    "c \<in> set (db_claims d)" "complete_row E now inp p c d = (Inr r, d')"
    by (rule completeClaim_row)
  show ?thesis
  proof (cases "cl_status c = Claiming")
    case False
    then have st: "cl_status c \<in> {Verified, Dispatching, Confirmed, PendingReview}"
      using complete_row_Inr [OF c(5)] by simp
    have "d' = d" "cr_idempotentReplay r"
      using c(5) complete_row_replays [OF st, of E now inp p d]
      by (auto simp: replay_result_def split: sum.splits)
    moreover have "complete_row E now' inp p c d = (Inr r, d')"
      using c(5) complete_row_replays [OF st] by metis
    ultimately show ?thesis using c(1-3) by (cases r) (simp add: completeClaim_def)
  next
    case True
    obtain st ast e sl and pf :: claim_proof where
      w: "verifyReplayProof E c inp p d = Inr ()"
      "(st, ast) \<in> {(Verified, A_claiming), (PendingReview, A_pending_review)}"
      "r = replay_result c (claim_status_str st) False (cr_settlement r)"
      "d' = append_audit E now e (update_claim (cl_claim_id c)
         (won_row st (cp_signature pf) sl (cr_settlement r) now)
         (update_asset (cl_asset_key c) (set_asset_status ast) d))"
      by (rule claiming_win_replays [OF c(5) assms(1) True c(4)])
    define f where "f = won_row st (cp_signature pf) sl (cr_settlement r) now"
    have f: "cl_claim_id (f x) = cl_claim_id x" "cl_idempotency_key (f x) = cl_idempotency_key x"
      "cl_challenge_nonce (f x) = cl_challenge_nonce x" "cl_asset_key (f x) = cl_asset_key x"
      "cl_claimant (f x) = cl_claimant x" "cl_status (f x) = st" "cl_settlement (f x) = cr_settlement r" for x
      by (simp_all add: f_def won_row_def set_claim_status_def)
    have look: "(if truthy (ci_claimId inp) then find_claim d' (the (ci_claimId inp))
      else find_idem d' (the (ci_idempotencyKey inp))) = Some (f c)"
      using c(2) w(4) by (auto simp: find_idem_def f row_find_update_other f_def [symmetric] split: if_splits)
    have "verifyReplayProof E (f c) inp p d' = verifyReplayProof E c inp p d"
      using w(4) by (intro proof_check_frame [where s = ast])
        (simp_all add: f row_find_update set_asset_status_def)
    moreover have "cl_status (f c) \<in> {Verified, Dispatching, Confirmed, PendingReview}"
      "(if cl_status (f c) = PendingReview then PendingReview else Verified) = st"
      using w(2) by (auto simp: f)
    moreover note complete_row_replays [OF calculation(2), of E now' inp p d']
      and replay_result_cong [OF f(1,4,5), of c "claim_status_str st" True "cr_settlement r"]
    ultimately have "complete_row E now' inp p (f c) d' = (Inr (r\<lparr>cr_idempotentReplay := True\<rparr>), d')"
      using w(1) replay_result_again [OF w(3)] by (simp add: f)
    with c(1,3) look show ?thesis by (simp add: completeClaim_def)
  qed
qed

text \<open>
  C16. An idempotent retry: repeating a successful completion with the same input, at any later time,
  answers with the same result, marked as a replay, and changes nothing.
\<close>

theorem complete_is_idempotent:
  assumes "db_inv d" and "completeClaim E now inp d = (Inr r, d')"
  shows "completeClaim E now' inp d' = (Inr (r\<lparr>cr_idempotentReplay := True\<rparr>), d')"
  using assms by (rule completion_repeats)

lemma initiate_reads_InsertClaim:
  assumes "initiate_reads E now nonce claimId inp d = Inr (InsertClaim c)"
  obtains a rc rv canonical where "assertClaimant (ii_claimant inp) = Inr ()" "ii_assetKey inp \<noteq> []"
    "truthy (ii_idempotencyKey inp) \<Longrightarrow> find_idem d (the (ii_idempotencyKey inp)) = None"
    "find_asset d (ii_assetKey inp) = Some a" "\<not> isDelisted (ii_assetKey inp)" "as_status a = Available"
    "find_recipient d (as_recipient_id a) = Some rc" "toRecipientView rc = Inr rv"
    "buildCanonicalFromLedger (se_prims E) rv (toAssetView a nonce) (ii_claimant inp) nonce
       (se_network E) = Inr canonical"
    "c = new_claim_row claimId a rc inp canonical nonce (now + se_challengeTtlMs E) now"
  using assms unfolding initiate_reads_def and_then_Inr if_Inl_iff
  by (auto simp: and_then_Inr case_Inr_iff split: option.splits if_splits)

lemma initiateClaim_Inr_cases:
  assumes "initiateClaim E now nonce claimId inp d = (Inr r, d')"
  obtains (existing) c where "initiate_reads E now nonce claimId inp d = Inr (ExistingClaim c)"
      "initiateResultFromRow E c = Inr r" "d' = d"
  | (insert) c where "initiate_reads E now nonce claimId inp d = Inr (InsertClaim c)"
      "initiate_insert E now inp c d = (Inr r, d')"
  using assms by (auto simp: initiateClaim_def split: sum.splits initiate_plan.splits)

lemma initiate_reads_ExistingClaim:
  "initiate_reads E now nonce claimId inp d = Inr (ExistingClaim c) \<longleftrightarrow>
     assertClaimant (ii_claimant inp) = Inr () \<and> ii_assetKey inp \<noteq> [] \<and> truthy (ii_idempotencyKey inp)
     \<and> find_idem d (the (ii_idempotencyKey inp)) = Some c \<and> cl_asset_key c = ii_assetKey inp"
  unfolding initiate_reads_def and_then_Inr if_Inl_iff
  by (auto simp: and_then_Inr case_Inr_iff split: option.splits if_splits)

text \<open>
  Idempotent initiation: once \<open>initiateClaim\<close> has answered for an idempotency key, every later
  call with the same input - whatever the time, the random nonce and the fresh id - gives the same
  challenge and inserts nothing.
\<close>

theorem initiate_is_idempotent:
  assumes "truthy (ii_idempotencyKey inp)"
    and "initiateClaim E now nonce claimId inp d = (Inr r, d')"
  shows "initiateClaim E now' nonce' claimId' inp d' = (Inr r, d')"
  using assms(2)
proof (cases rule: initiateClaim_Inr_cases)
  case (existing c)
  then have "initiate_reads E now' nonce' claimId' inp d' = Inr (ExistingClaim c)"
    by (simp add: initiate_reads_ExistingClaim)
  with existing show ?thesis by (simp add: initiateClaim_def)
next
  case (insert c)
  obtain k where k: "ii_idempotencyKey inp = Some k" "k \<noteq> []"
    using assms(1) by (auto simp: truthy_def split: option.splits)
  from insert(1) obtain a rc rv canonical where c:
    "assertClaimant (ii_claimant inp) = Inr ()" "ii_assetKey inp \<noteq> []" "find_idem d k = None"
    "find_asset d (ii_assetKey inp) = Some a"
    "c = new_claim_row claimId a rc inp canonical nonce (now + se_challengeTtlMs E) now"
    using assms(1) k by (elim initiate_reads_InsertClaim) simp
  have ck: "cl_asset_key c = ii_assetKey inp" "cl_idempotency_key c = Some k"
    using c(5) k row_find_Some [OF c(4)] by (simp_all add: new_claim_row_def)
  have r: "initiateResultFromRow E c = Inr r" "db_claims d' = db_claims d @ [c]"
    using insert(2) c(3) k by (auto simp: initiate_insert_def truthy_def split: sum.splits)
  have "find_idem d' k = Some c"
    using c(3) ck(2) r(2) by (simp add: find_idem_def row_find_append) (simp add: row_find_def)
  then have "initiate_reads E now' nonce' claimId' inp d' = Inr (ExistingClaim c)"
    using c(1,2) ck(1) k assms(1) by (simp add: initiate_reads_ExistingClaim)
  with r show ?thesis by (simp add: initiateClaim_def)
qed

section \<open>Challenges\<close>

text \<open>The ledger rows agree up to the status of the assets.\<close>

definition same_ledger :: "db \<Rightarrow> db \<Rightarrow> bool" where
  "same_ledger d d' = (db_recipients d' = db_recipients d
     \<and> (\<forall>k. map_option (set_asset_status Available) (find_asset d' k)
           = map_option (set_asset_status Available) (find_asset d k)))"

lemma same_ledger_refl [simp]: "same_ledger d d" by (simp add: same_ledger_def)

lemma same_ledger_trans: "same_ledger d d' \<Longrightarrow> same_ledger d' d'' \<Longrightarrow> same_ledger d d''"
  by (simp add: same_ledger_def)

lemma same_ledger_simps [simp]:
  "same_ledger d (append_audit E now e d') = same_ledger d d'"
  "same_ledger d (update_claim cid f d') = same_ledger d d'"
  "same_ledger d (d'\<lparr>db_claims := cs\<rparr>) = same_ledger d d'"
  by (simp_all add: same_ledger_def)

lemma same_ledger_update_asset:
  assumes "\<And>a. set_asset_status Available (g a) = set_asset_status Available a"
  shows "same_ledger d (update_asset k g d)"
proof -
  have "as_asset_key (g a) = as_asset_key a" for a
    using arg_cong [OF assms [of a], of as_asset_key] by (simp add: set_asset_status_def)
  then show ?thesis using assms by (simp add: same_ledger_def row_find_update option.map_comp comp_def)
qed

lemma same_ledger_set_status [simp]: "same_ledger d (update_asset k (set_asset_status s) d)"
  by (rule same_ledger_update_asset) (simp add: set_asset_status_def)

lemma challenge_bound_frame:
  assumes "same_ledger d d'" and "challenge_bound E d c"
    and "cl_asset_key c' = cl_asset_key c" "cl_challenge_nonce c' = cl_challenge_nonce c"
      "cl_claimant c' = cl_claimant c" "cl_canonical_message c' = cl_canonical_message c"
  shows "challenge_bound E d' c'"
proof -
  from assms(2) obtain a rc rv nonce where *: "find_asset d (cl_asset_key c) = Some a"
    "find_recipient d (as_recipient_id a) = Some rc" "toRecipientView rc = Inr rv"
    "cl_challenge_nonce c = Some nonce" "buildCanonicalFromLedger (se_prims E) rv (toAssetView a nonce)
      (cl_claimant c) nonce (se_network E) = Inr (cl_canonical_message c)"
    by (auto simp: challenge_bound_def)
  from assms(1) *(1) obtain b where b: "find_asset d' (cl_asset_key c) = Some b"
    "set_asset_status Available b = set_asset_status Available a"
    unfolding same_ledger_def by (metis map_option_eq_Some option.simps(9))
  have "as_recipient_id b = as_recipient_id a"
    using arg_cong [OF b(2), of as_recipient_id] by (simp add: set_asset_status_def)
  moreover have "toAssetView b nonce = toAssetView a nonce"
    using arg_cong [OF b(2), of "\<lambda>x. toAssetView x nonce"] by (simp add: set_asset_status_def toAssetView_def)
  ultimately show ?thesis using * b(1) assms(1,3-6) unfolding challenge_bound_def same_ledger_def by simp
qed

definition challenges_ok :: "'k service_env \<Rightarrow> db \<Rightarrow> bool" where
  "challenges_ok E d = (\<forall>c \<in> set (db_claims d). challenge_bound E d c)"

lemma challenges_ok_update:
  assumes "challenges_ok E d" and "same_ledger d d'"
    and "db_claims d' = row_update cl_claim_id cid f (db_claims d)"
    and "\<And>c. cl_asset_key (f c) = cl_asset_key c" "\<And>c. cl_challenge_nonce (f c) = cl_challenge_nonce c"
      "\<And>c. cl_claimant (f c) = cl_claimant c" "\<And>c. cl_canonical_message (f c) = cl_canonical_message c"
  shows "challenges_ok E d'"
  unfolding challenges_ok_def
proof
  fix x assume "x \<in> set (db_claims d')"
  then obtain c where "c \<in> set (db_claims d)" "x = (if cl_claim_id c = cid then f c else c)"
    by (auto simp: assms(3) set_row_update)
  with challenge_bound_frame [OF assms(2), of E c x] assms(1,4-7) show "challenge_bound E d' x"
    by (simp add: challenges_ok_def)
qed

lemma service_step_ledger: "service_step E d d' \<Longrightarrow> same_ledger d d'"
  by (erule service_step.cases) (simp_all add: rejectClaim_def expireClaim_def reap_row_def)

lemma service_step_challenges:
  assumes "service_step E d d'" and "challenges_ok E d"
  shows "challenges_ok E d' \<and> same_ledger d d'"
  using assms(1)
proof (cases rule: service_step.cases)
  case (step_initiate c now e)
  then have "challenge_bound E d' x" if "x \<in> set (db_claims d) \<union> {c}" for x
    using that assms(2) by (intro challenge_bound_frame [of d d' E x]) (auto simp: challenges_ok_def)
  with step_initiate show ?thesis by (simp add: challenges_ok_def)
next
  case (step_reject c now code reason)
  have "challenges_ok E d'"
    by (rule challenges_ok_update [OF assms(2), where f = "\<lambda>r. (set_claim_status Rejected r)\<lparr>cl_error := Some code\<rparr>"])
      (simp_all add: step_reject rejectClaim_def set_claim_status_def)
  then show ?thesis by (simp add: step_reject rejectClaim_def)
next
  case (step_expire c now)
  have "challenges_ok E d'"
    by (rule challenges_ok_update [OF assms(2), where f = "set_claim_status Expired_claim"])
      (simp_all add: step_expire expireClaim_def set_claim_status_def)
  then show ?thesis by (simp add: step_expire expireClaim_def)
next
  case (step_reap now c)
  have "challenges_ok E d'"
    by (rule challenges_ok_update [OF assms(2), where f = "\<lambda>r. if cl_status r = Claiming then set_claim_status Expired_claim r else r"])
      (auto simp: step_reap reap_row_def set_claim_status_def)
  then show ?thesis by (simp add: step_reap reap_row_def)
next
  case (step_win c now a pf st ast e sl settlement)
  have "challenges_ok E d'"
    by (rule challenges_ok_update [OF assms(2), where f = "won_row st (cp_signature pf) sl settlement now"])
      (simp_all add: step_win won_row_def set_claim_status_def)
  then show ?thesis by (simp add: step_win)
qed

lemma initiate_insert_step:
  assumes "initiate_reads E now nonce claimId inp d0 = Inr (InsertClaim c)" and "same_ledger d0 d"
    and "claimId \<notin> cl_claim_id ` set (db_claims d)"
  shows "snd (initiate_insert E now inp c d) = d \<or> service_step E d (snd (initiate_insert E now inp c d))"
proof -
  from assms(1) obtain a rc rv canonical where c: "find_asset d0 (ii_assetKey inp) = Some a"
    "find_recipient d0 (as_recipient_id a) = Some rc" "toRecipientView rc = Inr rv"
    "buildCanonicalFromLedger (se_prims E) rv (toAssetView a nonce) (ii_claimant inp) nonce
       (se_network E) = Inr canonical"
    "c = new_claim_row claimId a rc inp canonical nonce (now + se_challengeTtlMs E) now"
    by (elim initiate_reads_InsertClaim)
  have "challenge_bound E d0 c"
    using c row_find_Some [OF c(1)] by (simp add: challenge_bound_def new_claim_row_def)
  then have "challenge_bound E d c" using challenge_bound_frame [OF assms(2)] by blast
  moreover have "cl_status c = Claiming" "cl_claim_id c \<notin> cl_claim_id ` set (db_claims d)" "undispatched c"
    using c(5) assms(3) by (simp_all add: new_claim_row_def undispatched_def)
  ultimately show ?thesis
    by (auto simp: initiate_insert_def split: option.split sum.split intro: step_initiate)
qed

lemma initiateClaim_step:
  assumes "claimId \<notin> cl_claim_id ` set (db_claims d)"
  shows "snd (initiateClaim E now nonce claimId inp d) = d
     \<or> service_step E d (snd (initiateClaim E now nonce claimId inp d))"
  using initiate_insert_step [OF _ same_ledger_refl assms, of E now nonce inp]
  by (auto simp: initiateClaim_def split: sum.split initiate_plan.split)

lemma verifyClaim_message:
  assumes "verifyClaim P r a p net = Inr vp"
  shows "buildCanonicalFromLedger P r a (cp_claimant p) (av_nonce a) net = Inr (vp_canonicalMessage vp)"
  using assms verifyArweaveProof_Inr(7) verifyEthereumProof_Inr(5)
  by (auto simp: verifyClaim_def split: if_splits)


section \<open>The reaper\<close>

definition close_if :: "(claim_row \<Rightarrow> bool) \<Rightarrow> claim_row \<Rightarrow> claim_row" where
  "close_if P r = (if P r \<and> cl_status r = Claiming then set_claim_status Expired_claim r else r)"

lemma fold_reap_row:
  "db_claims (fold (reap_row E clock) bs d) =
     map (close_if (\<lambda>r. cl_claim_id r \<in> cl_claim_id ` set bs)) (db_claims d)
   \<and> db_assets (fold (reap_row E clock) bs d) = db_assets d
   \<and> db_recipients (fold (reap_row E clock) bs d) = db_recipients d"
proof (induction bs arbitrary: d)
  case Nil
  then show ?case by (simp add: close_if_def)
next
  case (Cons b bs)
  have "db_claims (reap_row E clock b d) = map (close_if (\<lambda>r. cl_claim_id r = cl_claim_id b)) (db_claims d)"
    by (simp add: reap_row_def row_update_def close_if_def)
  with Cons.IH show ?case by (auto simp: reap_row_def close_if_def set_claim_status_def)
qed

lemma fold_reap_steps: "(service_step E)\<^sup>*\<^sup>* d (fold (reap_row E clock) bs d)"
proof (induction bs arbitrary: d)
  case (Cons b bs)
  have "service_step E d (reap_row E clock b d)" by (rule step_reap)
  with Cons.IH show ?case by (simp add: converse_rtranclp_into_rtranclp)
qed simp

lemma reapExpiredChallenges_steps:
  "(service_step E)\<^sup>*\<^sup>* d (snd (reapExpiredChallenges E clock now limit skip d))"
  by (simp add: reapExpiredChallenges_def Let_def fold_reap_steps)

text \<open>One batch closes its rows and leaves the rest.\<close>

lemma reap_batch_set: "set (reap_batch now limit skip d) \<subseteq> {c \<in> set (db_claims d). reapable now c \<and> \<not> skip c}"
  unfolding reap_batch_def using set_take_subset by fastforce

lemma reap_batch_length:
  "length (reap_batch now limit skip d) =
     min (reap_limit limit) (length (filter (\<lambda>c. reapable now c \<and> \<not> skip c) (db_claims d)))"
  by (simp add: reap_batch_def min.commute)

lemma reap_limit_pos: "0 < reap_limit l"
  by (auto simp: reap_limit_def split: option.split)

lemma distinct_reap_batch:
  "distinct (map cl_claim_id (db_claims d)) \<Longrightarrow> distinct (reap_batch now limit skip d)"
  by (simp add: reap_batch_def distinct_map)

lemma reap_leaves:
  assumes "distinct (map cl_claim_id (db_claims d))"
    and "reapExpiredChallenges E clock now limit (\<lambda>c. False) d = (n, d')"
  shows "filter (reapable now) (db_claims d') =
      filter (\<lambda>c. reapable now c \<and> c \<notin> set (reap_batch now limit (\<lambda>c. False) d)) (db_claims d)"
    and "length (filter (reapable now) (db_claims d')) + n = length (filter (reapable now) (db_claims d))"
    and "distinct (map cl_claim_id (db_claims d'))"
proof -
  define B where "B = reap_batch now limit (\<lambda>c. False) d"
  have sub: "set B \<subseteq> {c \<in> set (db_claims d). reapable now c}" using reap_batch_set by (fastforce simp: B_def)
  have d': "db_claims d' = map (close_if (\<lambda>r. cl_claim_id r \<in> cl_claim_id ` set B)) (db_claims d)"
    "n = length B"
    using assms(2) fold_reap_row by (auto simp: reapExpiredChallenges_def Let_def B_def)
  have same: "cl_claim_id c \<in> cl_claim_id ` set B \<longleftrightarrow> c \<in> set B" if "c \<in> set (db_claims d)" for c
    using row_unique [OF assms(1) that] sub by (auto simp: image_iff)
  have keep: "map (close_if (\<lambda>r. cl_claim_id r \<in> cl_claim_id ` set B)) cs = map (close_if (\<lambda>r. r \<in> set B)) cs"
    if "set cs \<subseteq> set (db_claims d)" for cs
    using that same by (auto simp: close_if_def)
  have closed: "reapable now (close_if (\<lambda>r. r \<in> set B) c) \<longleftrightarrow> reapable now c \<and> c \<notin> set B" for c
    by (auto simp: close_if_def reapable_def set_claim_status_def)
  have unchanged: "c \<notin> set B \<Longrightarrow> close_if (\<lambda>r. r \<in> set B) c = c" for c by (simp add: close_if_def)
  have "filter (reapable now) (map (close_if (\<lambda>r. r \<in> set B)) cs) =
      filter (\<lambda>c. reapable now c \<and> c \<notin> set B) cs" for cs
    by (induction cs) (simp_all add: closed unchanged)
  then show left: "filter (reapable now) (db_claims d') =
      filter (\<lambda>c. reapable now c \<and> c \<notin> set (reap_batch now limit (\<lambda>c. False) d)) (db_claims d)"
    using d'(1) keep [of "db_claims d"] unfolding B_def [symmetric] by (metis order_refl)
  have dc: "distinct (db_claims d)" using assms(1) by (simp add: distinct_map)
  have "length (filter (reapable now) (db_claims d)) = card {c \<in> set (db_claims d). reapable now c}"
    using dc by (metis distinct_card distinct_filter set_filter)
  moreover have "length (filter (reapable now) (db_claims d')) = card ({c \<in> set (db_claims d). reapable now c} - set B)"
    unfolding left B_def [symmetric] using dc
    by (subst distinct_card [symmetric]) (auto intro: arg_cong [of _ _ card])
  moreover have "n = card (set B)"
    using distinct_reap_batch [OF assms(1)] d'(2) by (simp add: B_def distinct_card)
  moreover have "card (set B) \<le> card {c \<in> set (db_claims d). reapable now c}" using sub by (intro card_mono) auto
  ultimately show "length (filter (reapable now) (db_claims d')) + n = length (filter (reapable now) (db_claims d))"
    using sub by (simp add: card_Diff_subset)
  show "distinct (map cl_claim_id (db_claims d'))"
    using assms(1) d'(1) by (simp add: comp_def close_if_def set_claim_status_def if_distrib [of cl_claim_id] cong: if_cong)
qed


section \<open>A concrete service\<close>

text \<open>
  One recipient, one available ANT and the primitives of the verification example: a claim is
  initiated and completed.
\<close>

definition demo_env :: "string service_env" where
  "demo_env = \<lparr>se_prims = demo_vprims\<lparr>vq_b58dec := (\<lambda>s. Inr (replicate 32 7))\<rparr>, se_signer = None,
     se_network = ''localnet'', se_challengeTtlMs = 900000, se_bigClaimThresholdMario = 0\<rparr>"

definition demo_asset_row :: "string \<Rightarrow> asset_row" where
  "demo_asset_row k = \<lparr>as_asset_key = k, as_asset_type = AssetAnt, as_ant_mint = Some ''mint'',
     as_ant_name = None, as_amount = None, as_vault_end_ts = None, as_nonce = replicate 32 9,
     as_status = Available, as_recipient_id = b64url_encode (replicate 32 0)\<rparr>"

definition demo_recipient_row :: recipient_row where
  "demo_recipient_row = \<lparr>rc_recipient_id = b64url_encode (replicate 32 0), rc_protocol = 0,
     rc_source_address = b64url_encode (replicate 32 0), rc_recipient_pubkey = Some (replicate 512 4),
     rc_status = ''active''\<rparr>"

definition demo_db :: "string \<Rightarrow> db" where
  "demo_db k = \<lparr>db_recipients = [demo_recipient_row],
     db_assets = [demo_asset_row k],
     db_claims = [], db_audit = [], db_ant_batches = []\<rparr>"

definition demo_initiate :: "string \<Rightarrow> initiate_input" where
  "demo_initiate k = \<lparr>ii_assetKey = k, ii_claimant = replicate 32 (CHR ''A''),
     ii_idempotencyKey = Some ''k''\<rparr>"

definition demo_complete :: complete_input where
  "demo_complete = \<lparr>ci_claimId = Some ''c1'', ci_idempotencyKey = None, ci_nonceHex = None,
     ci_claimant = None, ci_proof = Some \<lparr>pi_protocol = ''arweave'',
       pi_rsaSignatureBase64Url = Some (b64url_encode (replicate 512 2)), pi_rsaModulusBase64Url = None,
       pi_saltLength = None, pi_signatureHex = None\<rparr>\<rparr>"

abbreviation "demo_nonce \<equiv> replicate 32 (3 :: byte)"

definition demo_claim :: "string \<Rightarrow> bytes \<Rightarrow> claim_row" where
  "demo_claim k m = new_claim_row ''c1'' (demo_asset_row k)
     demo_recipient_row (demo_initiate k) m demo_nonce 900000 0"

lemma demo_key: obtains k where "k \<noteq> []" "\<not> isDelisted k"
proof -
  have "finite (insert [] (fst ` set MANUALLY_DELIVERED \<union> fst ` set RETIRED_ANTS))" by simp
  then obtain k :: string where "k \<notin> insert [] (fst ` set MANUALLY_DELIVERED \<union> fst ` set RETIRED_ANTS)"
    using ex_new_if_finite [OF infinite_UNIV_listI] by blast
  then have "k \<noteq> []" "\<not> isDelisted k" by (simp_all add: isDelisted_def isManuallyDelivered_def isRetiredAnt_def)
  then show thesis by (rule that)
qed

definition demo_view :: "string \<Rightarrow> asset_view" where
  "demo_view k = toAssetView (demo_asset_row k) demo_nonce"

lemma demo_message:
  obtains m where "buildCanonicalFromLedger (se_prims demo_env) demo_recipient (demo_view k)
     (replicate 32 (CHR ''A'')) demo_nonce ''localnet'' = Inr m"
proof -
  have "\<exists>m. buildCanonicalFromLedger (se_prims demo_env) demo_recipient (demo_view k)
     (replicate 32 (CHR ''A'')) demo_nonce ''localnet'' = Inr m"
    by (simp add: build_ledger_ant demo_view_def toAssetView_def demo_asset_row_def demo_env_def
        demo_vprims_def demo_recipient_def build_ant_Inr)
  then show thesis using that by blast
qed

lemma demo_lookups:
  "find_asset (demo_db k) k = Some (demo_asset_row k)"
  "find_recipient (demo_db k) (b64url_encode (replicate 32 0)) = Some demo_recipient_row"
  "toRecipientView demo_recipient_row = Inr demo_recipient"
  by (simp_all add: demo_db_def row_find_def demo_asset_row_def demo_recipient_row_def
      toRecipientView_def demo_recipient_def)

lemma demo_initiated:
  assumes "buildCanonicalFromLedger (se_prims demo_env) demo_recipient (demo_view k)
     (replicate 32 (CHR ''A'')) demo_nonce ''localnet'' = Inr m"
    and "k \<noteq> []" and "\<not> isDelisted k"
  shows "initiate_reads demo_env 0 demo_nonce ''c1'' (demo_initiate k) (demo_db k) = Inr (InsertClaim (demo_claim k m))"
    and "\<exists>r e. initiateClaim demo_env 0 demo_nonce ''c1'' (demo_initiate k) (demo_db k) =
       (Inr r, append_audit demo_env 0 e ((demo_db k)\<lparr>db_claims := [demo_claim k m]\<rparr>))"
proof -
  have "assertClaimant (replicate 32 (CHR ''A'')) = Inr ()"
    by (simp add: assertClaimant_def base58_alphabet_def list_all_iff)
  moreover have "find_idem (demo_db k) ''k'' = None" by (simp add: demo_db_def find_idem_def row_find_def)
  ultimately show i: "initiate_reads demo_env 0 demo_nonce ''c1'' (demo_initiate k) (demo_db k)
      = Inr (InsertClaim (demo_claim k m))"
    using demo_lookups assms
    by (simp add: initiate_reads_def demo_initiate_def truthy_def demo_asset_row_def demo_claim_def
        demo_view_def) (simp add: demo_env_def)
  have "find_idem (demo_db k) ''k'' = None" "db_claims (demo_db k) = []"
    by (simp_all add: demo_db_def find_idem_def row_find_def)
  with i show "\<exists>r e. initiateClaim demo_env 0 demo_nonce ''c1'' (demo_initiate k) (demo_db k) =
       (Inr r, append_audit demo_env 0 e ((demo_db k)\<lparr>db_claims := [demo_claim k m]\<rparr>))"
    by (simp add: initiateClaim_def initiate_insert_def demo_initiate_def initiateResultFromRow_def
        demo_claim_def new_claim_row_def demo_recipient_row_def protocolName_def) blast
qed

abbreviation "demo_db1 k m \<equiv> (demo_db k)\<lparr>db_claims := [demo_claim k m]\<rparr>"

lemma demo_inv: "db_inv (demo_db1 k m)"
  by (simp add: db_inv_def claims_inv_def demo_db_def demo_claim_def new_claim_row_def)

lemma demo_challenges:
  assumes "buildCanonicalFromLedger (se_prims demo_env) demo_recipient (demo_view k)
     (replicate 32 (CHR ''A'')) demo_nonce ''localnet'' = Inr m"
  shows "challenges_ok demo_env (demo_db1 k m)"
  using assms demo_lookups
  by (simp add: challenges_ok_def challenge_bound_def demo_claim_def new_claim_row_def demo_initiate_def
      demo_view_def demo_asset_row_def) (simp add: demo_env_def)

text \<open>The proof of \<open>demo_complete\<close>, and its verification.\<close>

definition demo_claim_proof :: claim_proof where
  "demo_claim_proof = \<lparr>cp_claimant = replicate 32 (CHR ''A''), cp_signature = replicate 512 2,
     cp_saltLength = Some 32, cp_providedModulus = None, cp_nonce = None\<rparr>"

lemma demo_buildProof:
  "buildProof (the (ci_proof demo_complete)) (replicate 32 (CHR ''A'')) 0 None = Inr demo_claim_proof"
  by (simp add: buildProof_def demo_complete_def protocolNum_def echoed_nonce_def b64url_decode_encode
      truthy_def demo_claim_proof_def)

lemma demo_verified:
  assumes "buildCanonicalFromLedger (se_prims demo_env) demo_recipient (demo_view k)
     (replicate 32 (CHR ''A'')) demo_nonce ''localnet'' = Inr m"
  shows "\<exists>vp. verifyClaim (se_prims demo_env) demo_recipient (demo_view k) demo_claim_proof ''localnet'' = Inr vp"
proof -
  have "verifyRsaPss (vq_rsa (se_prims demo_env)) m (replicate 512 2) (replicate 512 4) 32 = Inr True"
    by (simp add: verifyRsaPss_def modulusToKeyObject_def RSA_4096_BYTES_def demo_vprims_def demo_env_def)
  with assms show ?thesis
    by (simp add: verifyClaim_def verifyArweaveProof_def demo_recipient_def demo_claim_proof_def
        demo_view_def toAssetView_def PROTOCOL_ARWEAVE_def RSA_4096_BYTES_def ALLOWED_SALT_LENGTHS_def
        deriveRecipientIdB64Url_def bytesToBase64UrlNoPad_def demo_vprims_def demo_env_def Let_def)
qed

lemma demo_completes:
  assumes "buildCanonicalFromLedger (se_prims demo_env) demo_recipient (demo_view k)
     (replicate 32 (CHR ''A'')) demo_nonce ''localnet'' = Inr m"
  shows "\<exists>r d'. completeClaim demo_env 5 demo_complete (demo_db1 k m) = (Inr r, d')
     \<and> \<not> cr_idempotentReplay r"
proof -
  obtain vp where vp: "verifyClaim (se_prims demo_env) demo_recipient (demo_view k) demo_claim_proof
      ''localnet'' = Inr vp" using demo_verified [OF assms] by blast
  let ?c = "demo_claim k m"
  have c: "cl_status ?c = Claiming" "cl_challenge_expires_at ?c = Some 900000" "cl_asset_key ?c = k"
    "cl_claimant ?c = replicate 32 (CHR ''A'')" "cl_challenge_nonce ?c = Some demo_nonce" "cl_claim_id ?c = ''c1''"
    by (simp_all add: demo_claim_def new_claim_row_def demo_initiate_def demo_asset_row_def)
  have a: "as_status (demo_asset_row k) = Available" "as_recipient_id (demo_asset_row k) = b64url_encode (replicate 32 0)"
    by (simp_all add: demo_asset_row_def)
  have i: "ci_claimant demo_complete = None" "ci_nonceHex demo_complete = None"
    "ci_claimId demo_complete = Some ''c1''" by (simp_all add: demo_complete_def)
  obtain p where p: "ci_proof demo_complete = Some p" by (simp add: demo_complete_def)
  have n: "se_network demo_env = ''localnet''" by (simp add: demo_env_def)
  have nc: "\<not> live_conflict (demo_db1 k m) ?c" by (simp add: live_conflict_def)
  have "\<exists>r d'. verify_and_consume demo_env 5 demo_complete p ?c (demo_asset_row k) demo_recipient (demo_db1 k m)
      = (Inr r, d') \<and> \<not> cr_idempotentReplay r"
  proof -
    have b: "buildProof p (replicate 32 (CHR ''A'')) (rv_protocol demo_recipient) None = Inr demo_claim_proof"
      using demo_buildProof p by (simp add: demo_recipient_def)
    have "\<exists>r d'. consume_claim demo_env 5 ?c (demo_asset_row k) demo_recipient demo_claim_proof sl (demo_db1 k m)
        = (Inr r, d') \<and> \<not> cr_idempotentReplay r" for sl
      by (rule consume_claim_cases [OF nc, of demo_env 5 "demo_asset_row k" demo_recipient demo_claim_proof sl])
        (simp add: replay_result_def)
    with b vp show ?thesis by (simp add: verify_and_consume_def c i n demo_view_def)
  qed
  moreover have "complete_row demo_env 5 demo_complete p ?c (demo_db1 k m) =
      verify_and_consume demo_env 5 demo_complete p ?c (demo_asset_row k) demo_recipient (demo_db1 k m)"
    using demo_lookups by (simp add: complete_row_def complete_claiming_def c i a truthy_def)
  moreover have "find_claim (demo_db1 k m) ''c1'' = Some ?c" by (simp add: row_find_def c)
  ultimately show ?thesis using p by (simp add: completeClaim_def i truthy_def)
qed

lemma demo_run:
  obtains k m r d' where "db_inv (demo_db1 k m)" "challenges_ok demo_env (demo_db1 k m)"
    "completeClaim demo_env 5 demo_complete (demo_db1 k m) = (Inr r, d')" "\<not> cr_idempotentReplay r"
proof -
  obtain m where "buildCanonicalFromLedger (se_prims demo_env) demo_recipient (demo_view [])
     (replicate 32 (CHR ''A'')) demo_nonce ''localnet'' = Inr m" by (rule demo_message)
  then show thesis using that demo_inv demo_challenges demo_completes by metis
qed


theorem complete_is_idempotent_witness:
  "\<exists>d r d'. completeClaim demo_env 5 demo_complete d = (Inr r, d') \<and> \<not> cr_idempotentReplay r
     \<and> completeClaim demo_env 6 demo_complete d' = (Inr (r\<lparr>cr_idempotentReplay := True\<rparr>), d')"
proof -
  obtain k m r d' where d: "db_inv (demo_db1 k m)"
    "completeClaim demo_env 5 demo_complete (demo_db1 k m) = (Inr r, d')" "\<not> cr_idempotentReplay r"
    using demo_run by metis
  from complete_is_idempotent [OF d(1,2)] d show ?thesis by metis
qed



theorem initiate_is_idempotent_witness:
  "\<exists>k d r d'. initiateClaim demo_env 0 demo_nonce ''c1'' (demo_initiate k) d = (Inr r, d') \<and> d' \<noteq> d
     \<and> initiateClaim demo_env 7 [] ''c2'' (demo_initiate k) d' = (Inr r, d')"
proof -
  obtain k where k: "k \<noteq> []" "\<not> isDelisted k" by (rule demo_key)
  obtain m where m: "buildCanonicalFromLedger (se_prims demo_env) demo_recipient (demo_view k)
     (replicate 32 (CHR ''A'')) demo_nonce ''localnet'' = Inr m" by (rule demo_message)
  obtain r e where r: "initiateClaim demo_env 0 demo_nonce ''c1'' (demo_initiate k) (demo_db k)
      = (Inr r, append_audit demo_env 0 e (demo_db1 k m))"
    using demo_initiated(2) [OF m k] by blast
  have t: "truthy (ii_idempotencyKey (demo_initiate k))" by (simp add: demo_initiate_def truthy_def)
  have "append_audit demo_env 0 e (demo_db1 k m) \<noteq> demo_db k"
  proof
    assume "append_audit demo_env 0 e (demo_db1 k m) = demo_db k"
    from arg_cong [OF this, of db_claims] show False by (simp add: demo_db_def)
  qed
  with r initiate_is_idempotent [OF t r] show ?thesis by metis
qed


end
