(* ===== verification/Ant_Reservations.thy ===== *)
theory Ant_Reservations
  imports Claims_Steps
begin

text \<open>
  The transactions of operator-signed ANT dispatch (\<open>dispatch/ant-operator.ts\<close>) that touch no chain:
  reserving verified ANT claims into a batch, storing the partially signed transaction of each,
  freeing what was not submitted, freeing a dead submission for a rebuild, the batch header, and the
  read models of the dashboard. A \<open>NULL\<close> array scope is \<open>None\<close>; \<open>skip\<close> are the rows another
  transaction holds. \<open>now\<close> is in milliseconds.
\<close>

section \<open>Reserving\<close>

record ant_review_item =
  ri_claimId :: string
  ri_assetKey :: string
  ri_antMint :: string
  ri_antName :: "string option"
  ri_claimant :: string

record reserve_opts =
  ro_antColdAddress :: string
  ro_max :: nat
  ro_reservationTtlMs :: "int option"
  ro_requireApproval :: "bool option"
  ro_assetKeyScope :: "string list option"

definition ant_status_ok :: "bool option \<Rightarrow> claim_row \<Rightarrow> bool" where
  "ant_status_ok requireApproval c =
     (if requireApproval = Some True
      then cl_status c \<in> {Verified, PendingReview} \<and> cl_approved_at c \<noteq> None
      else cl_status c = Verified \<or> cl_status c = PendingReview \<and> cl_approved_at c \<noteq> None)"

definition dispatchable_ant :: "asset_row \<Rightarrow> bool" where
  "dispatchable_ant a = (as_asset_type a = AssetAnt \<and> as_status a \<in> {A_claiming, A_pending_review})"

definition approval_order :: "claim_row \<Rightarrow> (nat \<times> int) \<times> int" where
  "approval_order c = (nulls_first (cl_approved_at c), cl_created_at c)"

definition reservable :: "reserve_opts \<Rightarrow> db \<Rightarrow> claim_row \<Rightarrow> bool" where
  "reservable opts d c = (case find_asset d (cl_asset_key c) of
     None \<Rightarrow> False
   | Some a \<Rightarrow> dispatchable_ant a \<and> cl_dispatch_signature c = None \<and> cl_ant_batch_id c = None
       \<and> (case ro_assetKeyScope opts of None \<Rightarrow> True | Some ks \<Rightarrow> cl_asset_key c \<in> set ks)
       \<and> ant_status_ok (ro_requireApproval opts) c)"

definition reserve_candidates :: "reserve_opts \<Rightarrow> (claim_row \<Rightarrow> bool) \<Rightarrow> db \<Rightarrow> claim_row list" where
  "reserve_candidates opts skip d =
     take (ro_max opts) (sort_key approval_order
       (filter (\<lambda>c. reservable opts d c \<and> \<not> skip c) (db_claims d)))"

definition asset_of :: "db \<Rightarrow> claim_row \<Rightarrow> asset_row" where
  "asset_of d c = the (find_asset d (cl_asset_key c))"

text \<open>A candidate without a mint is left unreserved.\<close>

definition reserved_rows :: "reserve_opts \<Rightarrow> (claim_row \<Rightarrow> bool) \<Rightarrow> db \<Rightarrow> claim_row list" where
  "reserved_rows opts skip d =
     filter (\<lambda>c. truthy (as_ant_mint (asset_of d c))) (reserve_candidates opts skip d)"

definition review_item :: "db \<Rightarrow> claim_row \<Rightarrow> ant_review_item" where
  "review_item d c = \<lparr>ri_claimId = cl_claim_id c, ri_assetKey = cl_asset_key c,
     ri_antMint = the (as_ant_mint (asset_of d c)), ri_antName = as_ant_name (asset_of d c),
     ri_claimant = cl_claimant c\<rparr>"

definition reserve_row :: "string \<Rightarrow> int \<Rightarrow> claim_row \<Rightarrow> claim_row" where
  "reserve_row batchId now r = r\<lparr>cl_ant_batch_id := Some batchId, cl_ant_reserved_at := Some now\<rparr>"

definition update_rows :: "(claim_row \<Rightarrow> bool) \<Rightarrow> (claim_row \<Rightarrow> claim_row) \<Rightarrow> db \<Rightarrow> db" where
  "update_rows p f d = d\<lparr>db_claims := map (\<lambda>r. if p r then f r else r) (db_claims d)\<rparr>"

definition update_batches :: "(ant_batch \<Rightarrow> bool) \<Rightarrow> (ant_batch \<Rightarrow> ant_batch) \<Rightarrow> db \<Rightarrow> db" where
  "update_batches p f d = d\<lparr>db_ant_batches := map (\<lambda>b. if p b then f b else b) (db_ant_batches d)\<rparr>"

definition batch_event :: "string \<Rightarrow> string \<Rightarrow> (string \<times> json) list \<Rightarrow> audit_entry" where
  "batch_event ev st detail = (audit_event ev)\<lparr>au_status := Some st, au_detail := Some detail\<rparr>"

definition json_strings :: "string list \<Rightarrow> json" where
  "json_strings xs = JArr (map JStr xs)"

text \<open>The transaction of \<open>reserveAntBatch\<close>; it frees stale reservations in one of its own before.\<close>

definition reserve_tx :: "'k service_env \<Rightarrow> int \<Rightarrow> string \<Rightarrow> reserve_opts \<Rightarrow> (claim_row \<Rightarrow> bool) \<Rightarrow> db
    \<Rightarrow> ant_review_item list \<times> db" where
  "reserve_tx E now batchId opts skip d =
     (let rows = reserved_rows opts skip d; items = map (review_item d) rows;
          ids = map cl_claim_id rows;
          d1 = update_rows (\<lambda>r. cl_claim_id r \<in> set ids) (reserve_row batchId now) d;
          d2 = d1\<lparr>db_ant_batches := db_ant_batches d1 @ [\<lparr>ab_batch_id = batchId, ab_created_at = now,
                 ab_created_by_pubkey = ro_antColdAddress opts, ab_claim_count = length items,
                 ab_status = B_open, ab_submitted_at = None\<rparr>]\<rparr>
      in (items, append_audit E now (batch_event ''ant.batch.reserve'' ''open''
            [(''batchId'', JStr batchId), (''createdBy'', JStr (ro_antColdAddress opts)),
             (''claimCount'', JInt (int (length items))), (''claimIds'', json_strings ids)]) d2))"

section \<open>Freeing what was not submitted\<close>

definition clear_reservation :: "claim_row \<Rightarrow> claim_row" where
  "clear_reservation r = r\<lparr>cl_ant_batch_id := None, cl_ant_reserved_at := None,
     cl_ant_reserved_txid := None, cl_ant_reserved_blockhash := None,
     cl_ant_reserved_last_valid_bh := None, cl_ant_reserved_wire := None\<rparr>"

definition stale :: "int \<Rightarrow> claim_row \<Rightarrow> bool" where
  "stale cutoff c = ((case cl_ant_reserved_at c of None \<Rightarrow> False | Some t \<Rightarrow> t < cutoff)
     \<and> cl_dispatch_signature c = None \<and> cl_status c \<in> {Verified, PendingReview})"

definition expireStaleReservations :: "int \<Rightarrow> int \<Rightarrow> db \<Rightarrow> nat \<times> db" where
  "expireStaleReservations now ttlMs d =
     (let cutoff = now - ttlMs; d1 = update_rows (stale cutoff) clear_reservation d
      in (length (filter (stale cutoff) (db_claims d)),
          update_batches (\<lambda>b. ab_status b = B_open \<and> ab_created_at b < cutoff
              \<and> \<not> (\<exists>c \<in> set (db_claims d1). cl_ant_batch_id c = Some (ab_batch_id b)))
            (\<lambda>b. b\<lparr>ab_status := B_expired\<rparr>) d1))"

definition releasable :: "string \<Rightarrow> claim_row \<Rightarrow> bool" where
  "releasable batchId c = (cl_ant_batch_id c = Some batchId \<and> cl_dispatch_signature c = None
     \<and> cl_status c \<in> {Verified, PendingReview})"

definition released_row :: "claim_row \<Rightarrow> claim_row" where
  "released_row r =
     clear_reservation (set_claim_status (if cl_approved_at r \<noteq> None then PendingReview else Verified) r)"

definition releaseAntBatch :: "'k service_env \<Rightarrow> int \<Rightarrow> string \<Rightarrow> db \<Rightarrow> nat \<times> db" where
  "releaseAntBatch E now batchId d =
     (let freed = filter (releasable batchId) (db_claims d);
          d1 = update_rows (releasable batchId) released_row d;
          d2 = update_batches (\<lambda>b. ab_batch_id b = batchId \<and> ab_status b \<in> {B_open, B_submitted}
                  \<and> \<not> (\<exists>c \<in> set (db_claims d1). cl_ant_batch_id c = Some (ab_batch_id b)
                          \<and> cl_dispatch_signature c \<noteq> None))
                (\<lambda>b. b\<lparr>ab_status := B_expired\<rparr>) d1
      in (length freed, append_audit E now (batch_event ''ant.batch.cancel'' ''expired''
            [(''batchId'', JStr batchId), (''freed'', JInt (int (length freed))),
             (''claimIds'', json_strings (map cl_claim_id freed))]) d2))"

section \<open>Storing the built transactions\<close>

record built_ant_tx =
  bt_txid :: string
  bt_txBase64 :: string
  bt_blockhash :: string
  bt_lastValidBlockHeight :: int

record ant_batch_item =
  bi_review :: ant_review_item
  bi_txBase64 :: string
  bi_txid :: string
  bi_lastValidBlockHeight :: string

record ant_batch_skipped =
  bs_claimId :: string
  bs_assetKey :: string
  bs_reason :: string

record ant_batch_result =
  br_batchId :: string
  br_items :: "ant_batch_item list"
  br_skipped :: "ant_batch_skipped list"

definition batch_rows :: "string \<Rightarrow> db \<Rightarrow> claim_row list" where
  "batch_rows batchId d = sort_key approval_order
     (filter (\<lambda>c. cl_ant_batch_id c = Some batchId \<and> cl_dispatch_signature c = None
        \<and> find_asset d (cl_asset_key c) \<noteq> None) (db_claims d))"

definition built_row :: "built_ant_tx \<Rightarrow> claim_row \<Rightarrow> claim_row" where
  "built_row b r = r\<lparr>cl_ant_reserved_txid := Some (bt_txid b), cl_ant_reserved_blockhash := Some (bt_blockhash b),
     cl_ant_reserved_last_valid_bh := Some (bt_lastValidBlockHeight b), cl_ant_reserved_wire := Some (bt_txBase64 b)\<rparr>"

text \<open>One row of the loop: why it is skipped, or what is built for it. \<open>mk\<close> builds a transaction.\<close>

definition build_row :: "(claim_row \<Rightarrow> string \<Rightarrow> string + built_ant_tx) \<Rightarrow> db \<Rightarrow> claim_row
    \<Rightarrow> string + string + built_ant_tx" where
  "build_row mk d c =
     (let a = asset_of d c in
      if \<not> truthy (as_ant_mint a) then Inr (Inl ''asset has no ant_mint'')
      else if \<not> ant_status_ok None c \<or> \<not> dispatchable_ant a
      then Inr (Inl (''no longer eligible (claim='' @ claim_status_str (cl_status c) @ '', asset=''
                     @ asset_status_str (as_status a) @ '')''))
      else and_then (mk c (the (as_ant_mint a))) (\<lambda>b. Inr (Inr b)))"

type_synonym build_state = "db \<times> ant_batch_item list \<times> ant_batch_skipped list"

definition build_step :: "(claim_row \<Rightarrow> string \<Rightarrow> string + built_ant_tx) \<Rightarrow> db \<Rightarrow> claim_row \<Rightarrow> build_state
    \<Rightarrow> string + build_state" where
  "build_step mk d0 c s = and_then (build_row mk d0 c) (\<lambda>r. case s of (d, items, skipped) \<Rightarrow>
     (case r of
        Inl reason \<Rightarrow> Inr (d, items, skipped @ [\<lparr>bs_claimId = cl_claim_id c, bs_assetKey = cl_asset_key c,
                                              bs_reason = reason\<rparr>])
      | Inr b \<Rightarrow> Inr (update_claim (cl_claim_id c) (built_row b) d,
                   items @ [\<lparr>bi_review = review_item d0 c, bi_txBase64 = bt_txBase64 b, bi_txid = bt_txid b,
                             bi_lastValidBlockHeight = dec_int (bt_lastValidBlockHeight b)\<rparr>], skipped)))"

definition build_tx :: "'k service_env \<Rightarrow> int \<Rightarrow> string \<Rightarrow> string
    \<Rightarrow> (claim_row \<Rightarrow> string \<Rightarrow> string + built_ant_tx) \<Rightarrow> db \<Rightarrow> (string + ant_batch_result) \<times> db" where
  "build_tx E now batchId cold mk d =
     (case fold_result (build_step mk d) (batch_rows batchId d) (d, [], []) of
        Inl e \<Rightarrow> (Inl e, d)
      | Inr (d1, items, skipped) \<Rightarrow>
          (Inr \<lparr>br_batchId = batchId, br_items = items, br_skipped = skipped\<rparr>,
           append_audit E now (batch_event ''ant.batch.build'' ''open''
             [(''batchId'', JStr batchId), (''createdBy'', JStr cold), (''claimCount'', JInt (int (length items))),
              (''claimIds'', json_strings (map (\<lambda>i. ri_claimId (bi_review i)) items)),
              (''txids'', json_strings (map bi_txid items)),
              (''skipped'', json_strings (map bs_claimId skipped))]) d1))"

section \<open>A dead submission, and the batch header\<close>

definition rebuild_row :: "claim_status \<Rightarrow> claim_row \<Rightarrow> claim_row" where
  "rebuild_row st r = clear_reservation ((set_claim_status st r)\<lparr>cl_dispatch_signature := None,
     cl_dispatch_blockhash := None, cl_dispatch_last_valid_bh := None,
     cl_dispatch_resign_count := cl_dispatch_resign_count r + 1\<rparr>)"

definition releaseReservationForRebuild :: "'k service_env \<Rightarrow> int \<Rightarrow> string \<Rightarrow> db \<Rightarrow> db" where
  "releaseReservationForRebuild E now claimId d =
     (case find_claim d claimId of
        None \<Rightarrow> d
      | Some c \<Rightarrow>
          if cl_status c \<noteq> Dispatching then d
          else (let revertTo = (if cl_approved_at c \<noteq> None then PendingReview else Verified) in
            append_audit E now ((audit_event ''ant.reservation_released'')\<lparr>au_claimId := Some claimId,
                au_assetKey := Some (cl_asset_key c), au_status := Some (claim_status_str revertTo),
                au_detail := Some (opt_field ''deadSignature'' JStr (cl_dispatch_signature c))\<rparr>)
              (update_claim claimId (rebuild_row revertTo) d)))"

text \<open>\<open>finalizeBatchStatus\<close>: a count, then an update.\<close>

definition batch_unconfirmed :: "string \<Rightarrow> db \<Rightarrow> nat" where
  "batch_unconfirmed batchId d =
     length (filter (\<lambda>c. cl_ant_batch_id c = Some batchId \<and> cl_status c \<noteq> Confirmed) (db_claims d))"

definition advance_batch :: "int \<Rightarrow> string \<Rightarrow> bool \<Rightarrow> db \<Rightarrow> db" where
  "advance_batch now batchId stillOpen d =
     update_batches (\<lambda>b. ab_batch_id b = batchId \<and> ab_status b \<in> {B_open, B_submitted})
       (\<lambda>b. b\<lparr>ab_status := (if stillOpen then B_submitted else B_completed),
              ab_submitted_at := (case ab_submitted_at b of Some t \<Rightarrow> Some t | None \<Rightarrow> Some now)\<rparr>) d"

definition writeSubmitAudit :: "'k service_env \<Rightarrow> int \<Rightarrow> string \<Rightarrow> string \<Rightarrow> json list \<Rightarrow> db \<Rightarrow> db" where
  "writeSubmitAudit E now batchId cold results d =
     append_audit E now (batch_event ''ant.batch.submit'' ''submitted''
       [(''batchId'', JStr batchId), (''submittedBy'', JStr cold), (''results'', JArr results)]) d"

section \<open>The dashboard\<close>

record ant_pending_claim =
  ap_claimId :: string
  ap_assetKey :: string
  ap_antMint :: "string option"
  ap_antName :: "string option"
  ap_status :: claim_status
  ap_reserved :: bool
  ap_ageSeconds :: int

record ant_pending =
  an_count :: nat
  an_reserved :: nat
  an_oldestAgeSeconds :: "int option"
  an_claims :: "ant_pending_claim list"

text \<open>The age in whole seconds, a \<open>bigint\<close> cast that rounds half away from zero.\<close>

definition age_seconds :: "int \<Rightarrow> claim_row \<Rightarrow> int" where
  "age_seconds now c =
     (let ms = now - (case cl_verified_at c of Some t \<Rightarrow> t | None \<Rightarrow> cl_created_at c)
      in if ms \<ge> 0 then (ms + 500) div 1000 else - ((- ms + 500) div 1000))"

definition getAntPending :: "int \<Rightarrow> bool option \<Rightarrow> nat option \<Rightarrow> db \<Rightarrow> ant_pending" where
  "getAntPending now requireApproval limit d =
     (let rows = take (case limit of None \<Rightarrow> 200 | Some n \<Rightarrow> n)
            (sort_key (\<lambda>c. (nulls_first (cl_verified_at c), cl_created_at c))
              (filter (\<lambda>c. (case find_asset d (cl_asset_key c) of None \<Rightarrow> False | Some a \<Rightarrow> dispatchable_ant a)
                 \<and> cl_dispatch_signature c = None \<and> ant_status_ok requireApproval c) (db_claims d)));
          claims = map (\<lambda>c. \<lparr>ap_claimId = cl_claim_id c, ap_assetKey = cl_asset_key c,
              ap_antMint = as_ant_mint (asset_of d c), ap_antName = as_ant_name (asset_of d c),
              ap_status = cl_status c, ap_reserved = (cl_ant_batch_id c \<noteq> None),
              ap_ageSeconds = age_seconds now c\<rparr>) rows
      in \<lparr>an_count = length claims, an_reserved = length (filter ap_reserved claims),
          an_oldestAgeSeconds = (if claims = [] then None else Some (Max (set (map ap_ageSeconds claims)))),
          an_claims = claims\<rparr>)"

record ant_status_claim =
  sc_claimId :: string
  sc_assetKey :: string
  sc_status :: claim_status
  sc_dispatchSignature :: "string option"
  sc_reservedTxid :: "string option"
  sc_antMint :: "string option"
  sc_antName :: "string option"
  sc_claimant :: string

definition getAntBatchStatus :: "string \<Rightarrow> db \<Rightarrow> (ant_batch \<times> ant_status_claim list) option" where
  "getAntBatchStatus batchId d =
     map_option (\<lambda>hdr. (hdr, map (\<lambda>c. \<lparr>sc_claimId = cl_claim_id c, sc_assetKey = cl_asset_key c,
         sc_status = cl_status c, sc_dispatchSignature = cl_dispatch_signature c,
         sc_reservedTxid = cl_ant_reserved_txid c, sc_antMint = as_ant_mint (asset_of d c),
         sc_antName = as_ant_name (asset_of d c), sc_claimant = cl_claimant c\<rparr>)
       (sort_key cl_claim_id (filter (\<lambda>c. cl_ant_batch_id c = Some batchId
          \<and> find_asset d (cl_asset_key c) \<noteq> None) (db_claims d)))))
       (row_find ab_batch_id batchId (db_ant_batches d))"

section \<open>What a reservation may change\<close>

text \<open>
  A transaction on reservations rewrites only claims at rest, in verified or in review, without a
  current signature, and of those only the reservation columns and which of the two statuses they
  have.
\<close>

definition strip_reservation :: "claim_row \<Rightarrow> claim_row" where
  "strip_reservation r = clear_reservation (set_claim_status Verified r)"

definition reserved_like :: "claim_row \<Rightarrow> claim_row \<Rightarrow> bool" where
  "reserved_like c c' \<longleftrightarrow> c' = c
     \<or> cl_status c \<in> {Verified, PendingReview} \<and> cl_status c' \<in> {Verified, PendingReview}
       \<and> cl_dispatch_signature c = None \<and> strip_reservation c' = strip_reservation c"

definition reservation_change :: "db \<Rightarrow> db \<Rightarrow> bool" where
  "reservation_change d d' \<longleftrightarrow> db_assets d' = db_assets d \<and> db_recipients d' = db_recipients d
     \<and> (\<exists>f. db_claims d' = map f (db_claims d) \<and> (\<forall>c \<in> set (db_claims d). reserved_like c (f c)))"

lemma reserved_like_refl [simp]: "reserved_like c c" by (simp add: reserved_like_def)

lemma strip_reservation_fields:
  assumes "strip_reservation c' = strip_reservation c"
  shows "cl_claim_id c' = cl_claim_id c" "cl_asset_key c' = cl_asset_key c" "cl_claimant c' = cl_claimant c"
    "cl_challenge_nonce c' = cl_challenge_nonce c" "cl_canonical_message c' = cl_canonical_message c"
    "cl_tx_signatures c' = cl_tx_signatures c" "cl_dispatch_signature c' = cl_dispatch_signature c"
    "cl_dispatch_last_valid_bh c' = cl_dispatch_last_valid_bh c" "cl_approved_at c' = cl_approved_at c"
proof -
  have f: "g c' = g c" if "\<And>r. g (strip_reservation r) = g r" for g :: "claim_row \<Rightarrow> 'b"
    using arg_cong [OF assms, of g] that by simp
  show "cl_claim_id c' = cl_claim_id c" "cl_asset_key c' = cl_asset_key c" "cl_claimant c' = cl_claimant c"
    "cl_challenge_nonce c' = cl_challenge_nonce c" "cl_canonical_message c' = cl_canonical_message c"
    "cl_tx_signatures c' = cl_tx_signatures c" "cl_dispatch_signature c' = cl_dispatch_signature c"
    "cl_dispatch_last_valid_bh c' = cl_dispatch_last_valid_bh c" "cl_approved_at c' = cl_approved_at c"
    using arg_cong [OF assms, of cl_claim_id] arg_cong [OF assms, of cl_asset_key] arg_cong [OF assms, of cl_claimant]
      arg_cong [OF assms, of cl_challenge_nonce] arg_cong [OF assms, of cl_canonical_message]
      arg_cong [OF assms, of cl_tx_signatures] arg_cong [OF assms, of cl_dispatch_signature]
      arg_cong [OF assms, of cl_dispatch_last_valid_bh] arg_cong [OF assms, of cl_approved_at]
    by (simp_all add: strip_reservation_def clear_reservation_def set_claim_status_def)
qed

lemma reserved_like_fields:
  assumes "reserved_like c c'"
  shows "cl_claim_id c' = cl_claim_id c" "cl_asset_key c' = cl_asset_key c" "cl_claimant c' = cl_claimant c"
    "cl_challenge_nonce c' = cl_challenge_nonce c" "cl_canonical_message c' = cl_canonical_message c"
    "cl_tx_signatures c' = cl_tx_signatures c" "cl_dispatch_signature c' = cl_dispatch_signature c"
    "cl_dispatch_last_valid_bh c' = cl_dispatch_last_valid_bh c"
    "won (cl_status c') = won (cl_status c)" "cl_status c' = Confirmed \<longleftrightarrow> cl_status c = Confirmed"
    "cl_status c' = Dispatching \<longleftrightarrow> cl_status c = Dispatching" "cl_status c' = Claiming \<longleftrightarrow> cl_status c = Claiming"
  using assms strip_reservation_fields [of c' c] unfolding reserved_like_def by auto

lemma reserved_like_moved:
  "reserved_like c c' \<Longrightarrow> cl_status c \<notin> {Verified, PendingReview} \<or> cl_dispatch_signature c \<noteq> None \<Longrightarrow> c' = c"
  unfolding reserved_like_def by auto

lemma reserved_like_rest:
  "reserved_like c c' \<Longrightarrow> cl_status c \<in> {Verified, PendingReview} \<Longrightarrow> cl_status c' \<in> {Verified, PendingReview}"
  unfolding reserved_like_def by auto

lemma reservation_change_refl [simp]: "reservation_change d d"
  unfolding reservation_change_def by (intro conjI refl exI [of _ "\<lambda>c. c"]) simp_all

lemma reservation_changeI:
  assumes "db_assets d' = db_assets d" and "db_recipients d' = db_recipients d"
    and "db_claims d' = map f (db_claims d)" and "\<And>c. c \<in> set (db_claims d) \<Longrightarrow> reserved_like c (f c)"
  shows "reservation_change d d'"
  unfolding reservation_change_def using assms by blast

lemma reservation_change_same:
  "reservation_change d d1 \<Longrightarrow> db_claims d' = db_claims d1 \<Longrightarrow> db_assets d' = db_assets d1
     \<Longrightarrow> db_recipients d' = db_recipients d1 \<Longrightarrow> reservation_change d d'"
  unfolding reservation_change_def by simp

lemma update_rows_simps [simp]:
  "db_claims (update_rows p f d) = map (\<lambda>r. if p r then f r else r) (db_claims d)"
  "db_assets (update_rows p f d) = db_assets d" "db_recipients (update_rows p f d) = db_recipients d"
  "db_claims (update_batches q g d) = db_claims d" "db_assets (update_batches q g d) = db_assets d"
  "db_recipients (update_batches q g d) = db_recipients d"
  by (simp_all add: update_rows_def update_batches_def)

text \<open>A changed row finds its old one.\<close>

lemma reservation_change_row:
  assumes "reservation_change d d'" and "find_claim d cid = Some c"
  shows "\<exists>c'. find_claim d' cid = Some c' \<and> reserved_like c c'"
proof -
  obtain f where f: "db_claims d' = map f (db_claims d)" "\<forall>c \<in> set (db_claims d). reserved_like c (f c)"
    using assms(1) by (auto simp: reservation_change_def)
  have "row_find cl_claim_id cid (map f rows) = map_option f (row_find cl_claim_id cid rows)"
    if "set rows \<subseteq> set (db_claims d)" for rows
    using that f(2) reserved_like_fields(1) unfolding row_find_def by (induction rows) auto
  with f row_find_Some [OF assms(2)] assms(2) show ?thesis by simp
qed

lemma reservation_change_mem:
  assumes "reservation_change d d'" and "c' \<in> set (db_claims d')"
  shows "\<exists>c \<in> set (db_claims d). reserved_like c c'"
proof -
  obtain f where f: "db_claims d' = map f (db_claims d)" "\<forall>c \<in> set (db_claims d). reserved_like c (f c)"
    using assms(1) by (auto simp: reservation_change_def)
  obtain c where c: "c \<in> set (db_claims d)" "c' = f c" using assms(2) f(1) by auto
  show ?thesis using c f(2) by (intro bexI [of _ c]) simp_all
qed

lemma reservation_change_inv:
  assumes ch: "reservation_change d d'" and inv: "db_inv d"
  shows "db_inv d'"
proof -
  obtain f where f: "db_claims d' = map f (db_claims d)" "\<forall>c \<in> set (db_claims d). reserved_like c (f c)"
    and a: "db_assets d' = db_assets d"
    using ch by (auto simp: reservation_change_def)
  have ids: "map cl_claim_id (db_claims d') = map cl_claim_id (db_claims d)"
    using f reserved_like_fields(1) by simp
  show ?thesis
    unfolding db_inv_def claims_inv_def
  proof (intro conjI ballI impI)
    show "distinct (map cl_claim_id (db_claims d'))" "distinct (map as_asset_key (db_assets d'))"
      using inv ids a by (simp_all add: db_inv_def claims_inv_def)
  next
    fix c' assume c': "c' \<in> set (db_claims d')" "won (cl_status c')"
    obtain c where c: "c \<in> set (db_claims d)" "reserved_like c c'" using reservation_change_mem [OF ch c'(1)] by blast
    note fields = reserved_like_fields [OF c(2)]
    obtain x where "x \<in> set (db_assets d)" "holds_asset c x"
      using inv c(1) c'(2) fields(9) by (auto simp: db_inv_def claims_inv_def)
    then show "\<exists>x \<in> set (db_assets d'). holds_asset c' x"
      using a fields(2,10) by (auto simp: holds_asset_def)
  next
    fix x y assume x: "x \<in> set (db_claims d')" and y: "y \<in> set (db_claims d')"
      and xy: "won (cl_status x) \<and> won (cl_status y) \<and> cl_asset_key x = cl_asset_key y"
    obtain c where c: "c \<in> set (db_claims d)" "x = f c" using x f(1) by auto
    obtain c' where c': "c' \<in> set (db_claims d)" "y = f c'" using y f(1) by auto
    have "won (cl_status c) \<and> won (cl_status c') \<and> cl_asset_key c = cl_asset_key c'"
      using xy c c' f(2) reserved_like_fields(2,9) by metis
    then have "c = c'" using inv c(1) c'(1) unfolding db_inv_def claims_inv_def by blast
    with c c' show "x = y" by simp
  qed
qed

section \<open>The transactions change reservations only\<close>

lemma strip_reservation_simps [simp]:
  "strip_reservation (reserve_row b now r) = strip_reservation r"
  "strip_reservation (clear_reservation r) = strip_reservation r"
  "strip_reservation (set_claim_status st r) = strip_reservation r"
  "strip_reservation (built_row bt r) = strip_reservation r"
  by (simp_all add: strip_reservation_def reserve_row_def clear_reservation_def built_row_def set_claim_status_def)

lemma reservation_status_simps [simp]:
  "cl_status (reserve_row b now r) = cl_status r" "cl_status (clear_reservation r) = cl_status r"
  "cl_status (built_row bt r) = cl_status r"
  by (simp_all add: reserve_row_def clear_reservation_def built_row_def)

lemma set_status_status [simp]: "cl_status (set_claim_status st r) = st"
  by (simp add: set_claim_status_def)

lemma expireStale_change: "reservation_change d (snd (expireStaleReservations now ttlMs d))"
  by (rule reservation_changeI [where f = "\<lambda>r. if stale (now - ttlMs) r then clear_reservation r else r"])
    (auto simp: expireStaleReservations_def Let_def stale_def reserved_like_def)

lemma releaseAntBatch_change: "reservation_change d (snd (releaseAntBatch E now batchId d))"
  by (rule reservation_changeI [where f = "\<lambda>r. if releasable batchId r then released_row r else r"])
    (auto simp: releaseAntBatch_def Let_def releasable_def released_row_def reserved_like_def)

lemma advance_batch_change: "reservation_change d (advance_batch now batchId b d)"
  by (rule reservation_change_same [OF reservation_change_refl]) (simp_all add: advance_batch_def)

lemma writeSubmitAudit_change: "reservation_change d (writeSubmitAudit E now batchId cold results d)"
  by (rule reservation_change_same [OF reservation_change_refl]) (simp_all add: writeSubmitAudit_def)

lemma reserved_rows_reservable:
  "c \<in> set (reserved_rows opts skip d) \<Longrightarrow> c \<in> set (db_claims d) \<and> reservable opts d c \<and> \<not> skip c"
  unfolding reserved_rows_def reserve_candidates_def by (auto dest: in_set_takeD)

lemma ant_status_rest: "ant_status_ok b c \<Longrightarrow> cl_status c \<in> {Verified, PendingReview}"
  by (auto simp: ant_status_ok_def split: if_splits)

lemma reservableD:
  assumes "reservable opts d c"
  shows "cl_status c \<in> {Verified, PendingReview}" "cl_dispatch_signature c = None" "cl_ant_batch_id c = None"
  using assms ant_status_rest [of "ro_requireApproval opts" c] by (auto simp: reservable_def split: option.splits)

lemma reserve_tx_change:
  assumes "db_inv d"
  shows "reservation_change d (snd (reserve_tx E now batchId opts skip d))"
proof (rule reservation_changeI)
  let ?ids = "map cl_claim_id (reserved_rows opts skip d)"
  let ?f = "\<lambda>r. if cl_claim_id r \<in> set ?ids then reserve_row batchId now r else r"
  show "db_claims (snd (reserve_tx E now batchId opts skip d)) = map ?f (db_claims d)"
    by (simp add: reserve_tx_def Let_def)
  fix c assume c: "c \<in> set (db_claims d)"
  show "reserved_like c (?f c)"
  proof (cases "cl_claim_id c \<in> set ?ids")
    case True
    then obtain x where x: "x \<in> set (reserved_rows opts skip d)" "cl_claim_id x = cl_claim_id c" by auto
    note r = reserved_rows_reservable [OF x(1)]
    have "x = c" using row_unique [of cl_claim_id "db_claims d" x c] assms r c x(2)
      by (simp add: db_inv_def claims_inv_def)
    with True r reservableD [of opts d c] show ?thesis by (simp add: reserved_like_def)
  qed simp
qed (simp_all add: reserve_tx_def Let_def)

lemma built_row_id [simp]: "cl_claim_id (built_row b r) = cl_claim_id r"
  by (simp add: built_row_def)

lemma build_step_change:
  assumes inv: "db_inv d" and c: "c \<in> set (batch_rows batchId d)"
    and step: "build_step mk d c (d1, items, skipped) = Inr (d2, items', skipped')"
    and ch: "reservation_change d d1"
  shows "reservation_change d d2"
proof -
  obtain r where r: "build_row mk d c = Inr r" using step by (cases "build_row mk d c") (simp_all add: build_step_def)
  have b: "ant_status_ok None c" if "r = Inr b" for b
    using r that by (cases "ant_status_ok None c") (simp_all add: build_row_def Let_def split: if_splits)
  consider "d2 = d1" | b where "ant_status_ok None c" "d2 = update_claim (cl_claim_id c) (built_row b) d1"
    using step r b by (cases r) (auto simp: build_step_def)
  then show ?thesis
  proof cases
    case 1
    with ch show ?thesis by simp
  next
    case (2 b)
    obtain f where f: "db_claims d1 = map f (db_claims d)" "\<forall>c \<in> set (db_claims d). reserved_like c (f c)"
      and ar: "db_assets d1 = db_assets d" "db_recipients d1 = db_recipients d"
      using ch by (auto simp: reservation_change_def)
    let ?g = "\<lambda>r. if cl_claim_id (f r) = cl_claim_id c then built_row b (f r) else f r"
    show ?thesis
    proof (rule reservation_changeI [where f = ?g])
      show "db_claims d2 = map ?g (db_claims d)" by (simp add: 2(2) f(1) row_update_def)
      fix x assume x: "x \<in> set (db_claims d)"
      then have l: "reserved_like x (f x)" using f(2) by simp
      show "reserved_like x (?g x)"
      proof (cases "cl_claim_id (f x) = cl_claim_id c")
        case True
        have mem: "c \<in> set (db_claims d)" "cl_dispatch_signature c = None" using c by (auto simp: batch_rows_def)
        have "x = c" using row_unique [of cl_claim_id "db_claims d" x c] inv x mem(1) True reserved_like_fields(1) [OF l]
          by (simp add: db_inv_def claims_inv_def)
        with True l mem(2) ant_status_rest [OF 2(1)] show ?thesis by (auto simp: reserved_like_def)
      qed (use l in simp)
    qed (simp_all add: 2(2) ar)
  qed
qed

lemma build_tx_change:
  assumes "db_inv d"
  shows "reservation_change d (snd (build_tx E now batchId cold mk d))"
proof (cases "fold_result (build_step mk d) (batch_rows batchId d) (d, [], [])")
  case (Inl e)
  then show ?thesis by (simp add: build_tx_def)
next
  case (Inr s)
  obtain d1 items skipped where s: "s = (d1, items, skipped)" by (cases s)
  have "reservation_change d (fst s)"
    by (rule fold_result_inv [OF Inr, where J = "\<lambda>s. reservation_change d (fst s)"])
      (auto intro: build_step_change [OF assms])
  with Inr s show ?thesis by (auto simp: build_tx_def intro: reservation_change_same)
qed

end
