(* ===== verification/Chain_Gateway.thy ===== *)
theory Chain_Gateway
  imports Codecs
begin

text \<open>
  The worker's door to Solana (\<open>dispatch/chain.ts\<close>): the classification of a signature's fate, the
  bounded wait for a confirmation, the scan for a landed outflow, signing and broadcasting. The
  RPC client of \<open>@solana/kit\<close> and the signing of a message are parameters: an RPC call is a
  function of the state of the world, which it may advance, and may throw.
\<close>

section \<open>Calls that may throw\<close>

type_synonym ('w, 'a) io = "'w \<Rightarrow> (string + 'a) \<times> 'w"

definition io_return :: "'a \<Rightarrow> ('w, 'a) io" where
  "io_return x w = (Inr x, w)"

definition io_bind :: "('w, 'a) io \<Rightarrow> ('a \<Rightarrow> ('w, 'b) io) \<Rightarrow> ('w, 'b) io" where
  "io_bind m f w = (case m w of (Inl e, w') \<Rightarrow> (Inl e, w') | (Inr x, w') \<Rightarrow> f x w')"

lemma io_simps [simp]:
  "io_return x w = (Inr x, w)"
  "m w = (Inl e, w') \<Longrightarrow> io_bind m f w = (Inl e, w')"
  "m w = (Inr x, w') \<Longrightarrow> io_bind m f w = f x w'"
  by (simp_all add: io_return_def io_bind_def)

lemma io_bind_Inr:
  assumes "io_bind m f w = (Inr y, w'')"
  obtains x w' where "m w = (Inr x, w')" "f x w' = (Inr y, w'')"
  using assms by (auto simp: io_bind_def split: prod.splits sum.splits)

section \<open>The RPC and the gateway\<close>

datatype commitment = Processed | ConfirmedC | Finalized

record signature_status =
  ss_err :: bool
  ss_confirmation :: "commitment option"

record history_entry =
  he_signature :: string
  he_err :: bool
  he_confirmation :: "commitment option"

record signed_dispatch =
  sd_signature :: string
  sd_blockhash :: string
  sd_lastValidBlockHeight :: int
  sd_wireBase64 :: string

datatype confirm_state = StateConfirmed | StateFailed | StatePending | StateExpired

record 'w rpc =
  rpc_getBlockHeight :: "('w, int) io"
  rpc_getSignatureStatus :: "string \<Rightarrow> ('w, signature_status option) io"
  rpc_getSignaturesForAddress :: "string \<Rightarrow> nat \<Rightarrow> ('w, history_entry list) io"
  rpc_getLatestBlockhash :: "('w, string \<times> int) io"
  rpc_sendTransaction :: "string \<Rightarrow> ('w, unit) io"
  rpc_getTokenAccountBalance :: "string \<Rightarrow> ('w, int) io"
  rpc_getAccountInfo :: "string \<Rightarrow> ('w, bytes option) io"

text \<open>The interface \<open>ChainGateway\<close>, over an instruction type.\<close>

record ('w, 'ix) gateway =
  gw_getTokenBalance :: "string \<Rightarrow> ('w, int) io"
  gw_getAccountData :: "string \<Rightarrow> ('w, bytes option) io"
  gw_signTransaction :: "'ix list \<Rightarrow> string \<Rightarrow> ('w, signed_dispatch) io"
  gw_broadcast :: "string \<Rightarrow> ('w, unit) io"
  gw_confirmSignature :: "string \<Rightarrow> int \<Rightarrow> ('w, confirm_state) io"
  gw_findConfirmedOutflow :: "string list \<Rightarrow> string list \<Rightarrow> ('w, string option) io"

text \<open>
  The messages of a failed balance read that count as a transport blip, and are rethrown. \<open>word_at\<close>
  is a match between word boundaries.
\<close>

definition contains :: "string \<Rightarrow> string \<Rightarrow> bool" where
  "contains s pat = sublist pat s"

definition word_char :: "char \<Rightarrow> bool" where
  "word_char c = (let n = of_char c :: nat in
     48 \<le> n \<and> n \<le> 57 \<or> 65 \<le> n \<and> n \<le> 90 \<or> 97 \<le> n \<and> n \<le> 122 \<or> n = 95)"

definition digit_char :: "char \<Rightarrow> bool" where
  "digit_char c = (let n = of_char c :: nat in 48 \<le> n \<and> n \<le> 57)"

definition word_at :: "string \<Rightarrow> (string \<Rightarrow> bool) \<Rightarrow> nat \<Rightarrow> nat \<Rightarrow> bool" where
  "word_at s P n i =
     (i + n \<le> length s \<and> P (take n (drop i s))
      \<and> (i = 0 \<or> \<not> word_char (s ! (i - 1))) \<and> (i + n = length s \<or> \<not> word_char (s ! (i + n))))"

definition has_word :: "string \<Rightarrow> (string \<Rightarrow> bool) \<Rightarrow> nat \<Rightarrow> bool" where
  "has_word s P n = list_ex (word_at s P n) [0..<Suc (length s)]"

definition transport_error :: "string \<Rightarrow> bool" where
  "transport_error msg =
     (let m = to_lower msg in
      list_ex (contains m) [''http error'', ''too many requests'', ''fetch failed'', ''econn'', ''etimedout'',
        ''timeout'', ''timedout'', ''time out'', ''timed out'', ''socket hang up'']
      \<or> has_word m (\<lambda>x. x = ''429'') 3
      \<or> has_word m (\<lambda>x. hd x = CHR ''5'' \<and> list_all digit_char (tl x)) 3)"

definition getTokenBalance :: "'w rpc \<Rightarrow> string \<Rightarrow> ('w, int) io" where
  "getTokenBalance R ata w =
     (case rpc_getTokenAccountBalance R ata w of
        (Inr v, w') \<Rightarrow> (Inr v, w')
      | (Inl msg, w') \<Rightarrow> if transport_error msg then (Inl msg, w') else (Inr 0, w'))"

text \<open>One look at a signature: the height is read before the status.\<close>

definition classify_status :: "int \<Rightarrow> int \<Rightarrow> signature_status option \<Rightarrow> confirm_state" where
  "classify_status heightAtSample lastValid st =
     (case st of
        Some s \<Rightarrow> if ss_err s then StateFailed
                  else if ss_confirmation s = Some ConfirmedC \<or> ss_confirmation s = Some Finalized
                  then StateConfirmed else StatePending
      | None \<Rightarrow> if heightAtSample > lastValid then StateExpired else StatePending)"

definition statusOnce :: "'w rpc \<Rightarrow> string \<Rightarrow> int \<Rightarrow> ('w, confirm_state) io" where
  "statusOnce R sig lastValid =
     io_bind (rpc_getBlockHeight R) (\<lambda>h.
     io_bind (rpc_getSignatureStatus R sig) (\<lambda>st. io_return (classify_status h lastValid st)))"

text \<open>The polling loop; \<open>polls\<close> is how many polls fit before the deadline, after the first.\<close>

fun confirmSignature :: "'w rpc \<Rightarrow> nat \<Rightarrow> string \<Rightarrow> int \<Rightarrow> ('w, confirm_state) io" where
  "confirmSignature R 0 sig lastValid = statusOnce R sig lastValid"
| "confirmSignature R (Suc polls) sig lastValid =
     io_bind (statusOnce R sig lastValid) (\<lambda>state.
       if state \<noteq> StatePending then io_return state else confirmSignature R polls sig lastValid)"

text \<open>The scan of the recent history of each address; a failing address is skipped.\<close>

definition landed_entry :: "string list \<Rightarrow> history_entry \<Rightarrow> bool" where
  "landed_entry known e = (\<not> he_err e
     \<and> (he_confirmation e = Some ConfirmedC \<or> he_confirmation e = Some Finalized)
     \<and> he_signature e \<in> set known)"

fun outflow_loop :: "'w rpc \<Rightarrow> string list \<Rightarrow> nat \<Rightarrow> string list \<Rightarrow> ('w, string option) io" where
  "outflow_loop R known limit [] = io_return None"
| "outflow_loop R known limit (addr # addrs) = (\<lambda>w.
     case rpc_getSignaturesForAddress R addr limit w of
       (Inl e, w') \<Rightarrow> outflow_loop R known limit addrs w'
     | (Inr page, w') \<Rightarrow>
         (case find (landed_entry known) page of
            Some e \<Rightarrow> (Inr (Some (he_signature e)), w')
          | None \<Rightarrow> outflow_loop R known limit addrs w'))"

definition findConfirmedOutflow :: "'w rpc \<Rightarrow> string list \<Rightarrow> string list \<Rightarrow> ('w, string option) io" where
  "findConfirmedOutflow R addresses knownSignatures =
     (let known = filter (\<lambda>s. s \<noteq> []) knownSignatures
      in if known = [] then io_return None else outflow_loop R known 1000 addresses)"

text \<open>
  Signing: a fresh blockhash, then the signature and the wire bytes of the message for a fee payer,
  a blockhash and the instructions, which \<open>sign\<close> gives.
\<close>

type_synonym ('w, 'ix) signing = "string \<Rightarrow> string \<Rightarrow> 'ix list \<Rightarrow> ('w, string \<times> string) io"

definition signTransaction ::
  "'w rpc \<Rightarrow> ('w, 'ix) signing \<Rightarrow> 'ix list \<Rightarrow> string \<Rightarrow> ('w, signed_dispatch) io" where
  "signTransaction R sign ixs feePayer =
     io_bind (rpc_getLatestBlockhash R) (\<lambda>latest.
     io_bind (sign feePayer (fst latest) ixs) (\<lambda>signed.
     io_return \<lparr>sd_signature = fst signed, sd_blockhash = fst latest,
            sd_lastValidBlockHeight = snd latest, sd_wireBase64 = snd signed\<rparr>))"

definition solana_gateway :: "'w rpc \<Rightarrow> ('w, 'ix) signing \<Rightarrow> nat \<Rightarrow> ('w, 'ix) gateway" where
  "solana_gateway R sign polls =
     \<lparr>gw_getTokenBalance = getTokenBalance R, gw_getAccountData = rpc_getAccountInfo R,
      gw_signTransaction = signTransaction R sign, gw_broadcast = rpc_sendTransaction R,
      gw_confirmSignature = confirmSignature R polls,
      gw_findConfirmedOutflow = findConfirmedOutflow R\<rparr>"

section \<open>What the worker may rely on\<close>

text \<open>
  A view of the world: the signatures that have landed, that have been sent and that have been
  signed, the block height, the last height a signature and a blockhash are valid at, and the
  signature carried by wire bytes. Time only adds landings, and only of what has been sent and
  was still valid.
\<close>

record 'w chain_view =
  vw_landed :: "'w \<Rightarrow> string set"
  vw_sent :: "'w \<Rightarrow> string set"
  vw_signed :: "'w \<Rightarrow> string set"
  vw_height :: "'w \<Rightarrow> int"
  vw_validUntil :: "string \<Rightarrow> int"
  vw_blockhashValid :: "string \<Rightarrow> int"
  vw_wireSig :: "string \<Rightarrow> string"

definition progress :: "'w chain_view \<Rightarrow> 'w \<Rightarrow> 'w \<Rightarrow> bool" where
  "progress V w w' =
     (vw_landed V w \<subseteq> vw_landed V w' \<and> vw_sent V w \<subseteq> vw_sent V w' \<and> vw_signed V w \<subseteq> vw_signed V w'
      \<and> vw_height V w \<le> vw_height V w'
      \<and> (\<forall>s \<in> vw_landed V w'. s \<in> vw_landed V w \<or> s \<in> vw_sent V w' \<and> vw_height V w \<le> vw_validUntil V s))"

definition quiet :: "'w chain_view \<Rightarrow> 'w \<Rightarrow> 'w \<Rightarrow> bool" where
  "quiet V w w' = (progress V w w' \<and> vw_sent V w' = vw_sent V w \<and> vw_signed V w' = vw_signed V w)"

text \<open>A dead signature has not landed and never will.\<close>

definition dead :: "'w chain_view \<Rightarrow> 'w \<Rightarrow> string \<Rightarrow> bool" where
  "dead V w s = (s \<notin> vw_landed V w \<and> vw_validUntil V s < vw_height V w)"

lemma progress_refl: "progress V w w" by (auto simp: progress_def)

lemma progress_trans: "progress V w w1 \<Longrightarrow> progress V w1 w2 \<Longrightarrow> progress V w w2"
  unfolding progress_def by (meson order_trans subsetD)

lemma quiet_refl: "quiet V w w" by (simp add: quiet_def progress_refl)

lemma quiet_trans: "quiet V w w1 \<Longrightarrow> quiet V w1 w2 \<Longrightarrow> quiet V w w2"
  unfolding quiet_def using progress_trans [of V w w1 w2] by simp

lemma quiet_progress: "quiet V w w' \<Longrightarrow> progress V w w'"
  by (simp add: quiet_def)

lemma dead_progress: "dead V w s \<Longrightarrow> progress V w w' \<Longrightarrow> dead V w' s"
  unfolding dead_def progress_def by fastforce

text \<open>
  The laws of a consistent RPC endpoint and of signing: reads do not send; a height that is read has
  been reached; a status read after the landing finds it, and a confirmed status or history entry
  has landed; only \<open>sendTransaction\<close> sends, and only its own transaction; every signing gives a
  signature never given before, valid as long as its blockhash.
\<close>

locale sound_rpc =
  fixes R :: "'w rpc" and sign :: "('w, 'ix) signing" and V :: "'w chain_view"
  assumes landed_sent: "vw_landed V w \<subseteq> vw_sent V w"
    and height_law: "rpc_getBlockHeight R w = (r, w') \<Longrightarrow>
      quiet V w w' \<and> (\<forall>h. r = Inr h \<longrightarrow> h \<le> vw_height V w')"
    and status_law: "rpc_getSignatureStatus R s w = (q, w') \<Longrightarrow>
      quiet V w w' \<and> (q = Inr None \<longrightarrow> s \<notin> vw_landed V w)
      \<and> (\<forall>st. q = Inr (Some st) \<and> \<not> ss_err st
             \<and> (ss_confirmation st = Some ConfirmedC \<or> ss_confirmation st = Some Finalized)
           \<longrightarrow> s \<in> vw_landed V w')"
    and history_law: "rpc_getSignaturesForAddress R a n w = (p, w') \<Longrightarrow>
      quiet V w w' \<and> (\<forall>page e. p = Inr page \<and> e \<in> set page \<and> \<not> he_err e
             \<and> (he_confirmation e = Some ConfirmedC \<or> he_confirmation e = Some Finalized)
           \<longrightarrow> he_signature e \<in> vw_landed V w')"
    and balance_law: "rpc_getTokenAccountBalance R a w = (b, w') \<Longrightarrow> quiet V w w'"
    and account_law: "rpc_getAccountInfo R a w = (i, w') \<Longrightarrow> quiet V w w'"
    and blockhash_law: "rpc_getLatestBlockhash R w = (l, w') \<Longrightarrow>
      quiet V w w' \<and> (\<forall>bh lv. l = Inr (bh, lv) \<longrightarrow> lv = vw_blockhashValid V bh)"
    and send_law: "rpc_sendTransaction R wire w = (u, w') \<Longrightarrow>
      progress V w w' \<and> vw_signed V w' = vw_signed V w
      \<and> vw_sent V w' \<subseteq> insert (vw_wireSig V wire) (vw_sent V w)"
    and sign_law: "sign fp bh ixs w = (g, w') \<Longrightarrow>
      progress V w w' \<and> vw_sent V w' = vw_sent V w
      \<and> (\<forall>s wire. g = Inr (s, wire) \<longrightarrow> s \<notin> vw_signed V w \<and> s \<in> vw_signed V w'
            \<and> vw_validUntil V s = vw_blockhashValid V bh \<and> vw_wireSig V wire = s)"

text \<open>What dispatch relies on, of any gateway.\<close>

locale sound_gateway =
  fixes G :: "('w, 'ix) gateway" and V :: "'w chain_view"
  assumes g_landed_sent: "vw_landed V w \<subseteq> vw_sent V w"
    and g_balance: "gw_getTokenBalance G a w = (b, w') \<Longrightarrow> quiet V w w'"
    and g_account: "gw_getAccountData G a w = (i, w') \<Longrightarrow> quiet V w w'"
    and g_sign: "gw_signTransaction G ixs fp w = (g, w') \<Longrightarrow>
      progress V w w' \<and> vw_sent V w' = vw_sent V w
      \<and> (\<forall>sd. g = Inr sd \<longrightarrow> sd_signature sd \<notin> vw_signed V w \<and> sd_signature sd \<in> vw_signed V w'
            \<and> vw_validUntil V (sd_signature sd) = sd_lastValidBlockHeight sd
            \<and> vw_wireSig V (sd_wireBase64 sd) = sd_signature sd)"
    and g_broadcast: "gw_broadcast G wire w = (u, w') \<Longrightarrow>
      progress V w w' \<and> vw_signed V w' = vw_signed V w
      \<and> vw_sent V w' \<subseteq> insert (vw_wireSig V wire) (vw_sent V w)"
    and g_confirm: "gw_confirmSignature G s lv w = (c, w') \<Longrightarrow>
      quiet V w w' \<and> (c = Inr StateConfirmed \<longrightarrow> s \<in> vw_landed V w')
      \<and> (c = Inr StateExpired \<and> lv = vw_validUntil V s \<longrightarrow> dead V w' s)"
    and g_outflow: "gw_findConfirmedOutflow G addrs known w = (f, w') \<Longrightarrow>
      quiet V w w' \<and> (\<forall>s. f = Inr (Some s) \<longrightarrow> s \<in> set known \<and> s \<in> vw_landed V w')"

context sound_rpc begin

text \<open>
  The order of the two reads is what makes \<open>expired\<close> a proof: the height was past the last valid
  one before the status was looked up.
\<close>

lemma statusOnce_sound:
  assumes "statusOnce R s lv w = (c, w')"
  shows "quiet V w w' \<and> (c = Inr StateConfirmed \<longrightarrow> s \<in> vw_landed V w')
     \<and> (c = Inr StateExpired \<and> lv = vw_validUntil V s \<longrightarrow> dead V w' s)"
proof -
  obtain r w1 where h: "rpc_getBlockHeight R w = (r, w1)" by fastforce
  have hq: "quiet V w w1" and hh: "\<And>ht. r = Inr ht \<Longrightarrow> ht \<le> vw_height V w1"
    using height_law [OF h] by simp_all
  show ?thesis
  proof (cases r)
    case (Inl e)
    with h assms have "c = Inl e" "w' = w1" by (auto simp: statusOnce_def io_bind_def)
    with hq show ?thesis by simp
  next
    case (Inr ht)
    obtain q w2 where st: "rpc_getSignatureStatus R s w1 = (q, w2)" by fastforce
    note sl = status_law [OF st]
    have q12: "quiet V w1 w2" using sl by simp
    have q: "quiet V w w2" using hq q12 by (rule quiet_trans)
    show ?thesis
    proof (cases q)
      case (Inl e)
      with h Inr st assms have "c = Inl e" "w' = w2" by (simp_all add: statusOnce_def io_bind_def \<open>r = Inr ht\<close>)
      with q show ?thesis by simp
    next
      case (Inr st')
      have c: "c = Inr (classify_status ht lv st')" "w' = w2"
        using h \<open>r = Inr ht\<close> Inr st assms by (simp_all add: statusOnce_def io_bind_def io_return_def)
      have d: "dead V w2 s" if "st' = None" "lv < ht" "lv = vw_validUntil V s"
      proof -
        have "s \<notin> vw_landed V w1" using sl Inr that by simp
        moreover have "vw_validUntil V s < vw_height V w1" using that hh [OF \<open>r = Inr ht\<close>] by simp
        ultimately have "dead V w1 s" by (simp add: dead_def)
        then show ?thesis using quiet_progress [OF q12] by (rule dead_progress)
      qed
      have l: "s \<in> vw_landed V w2" if "classify_status ht lv st' = StateConfirmed"
      proof (cases st')
        case None
        with that show ?thesis by (simp add: classify_status_def split: if_splits)
      next
        case (Some x)
        with that have "\<not> ss_err x \<and> (ss_confirmation x = Some ConfirmedC \<or> ss_confirmation x = Some Finalized)"
          by (simp add: classify_status_def split: if_splits)
        with sl Inr Some show ?thesis by blast
      qed
      have x: "st' = None \<and> lv < ht" if "classify_status ht lv st' = StateExpired"
        using that by (simp add: classify_status_def split: option.splits if_splits)
      show ?thesis unfolding c using q l d x by blast
    qed
  qed
qed

lemma confirmSignature_sound:
  "confirmSignature R polls s lv w = (c, w') \<Longrightarrow>
   quiet V w w' \<and> (c = Inr StateConfirmed \<longrightarrow> s \<in> vw_landed V w')
     \<and> (c = Inr StateExpired \<and> lv = vw_validUntil V s \<longrightarrow> dead V w' s)"
proof (induction polls arbitrary: w)
  case 0
  then show ?case using statusOnce_sound by simp
next
  case (Suc polls)
  obtain q w1 where st: "statusOnce R s lv w = (q, w1)" by fastforce
  note ss = statusOnce_sound [OF st]
  show ?case
  proof (cases q)
    case (Inl e)
    with st Suc.prems have "c = Inl e" "w' = w1" by (simp_all add: io_bind_def)
    with ss show ?thesis by simp
  next
    case (Inr state)
    show ?thesis
    proof (cases "state = StatePending")
      case True
      then have "confirmSignature R polls s lv w1 = (c, w')"
        using st Inr Suc.prems by (simp add: io_bind_def)
      note ih = Suc.IH [OF this]
      have "quiet V w w'" using conjunct1 [OF ss] conjunct1 [OF ih] by (rule quiet_trans)
      with ih show ?thesis by simp
    next
      case False
      then have "c = Inr state" "w' = w1"
        using st Inr Suc.prems by (simp_all add: io_bind_def io_return_def)
      with ss Inr show ?thesis by simp
    qed
  qed
qed

lemma outflow_loop_sound:
  "outflow_loop R known n addrs w = (f, w') \<Longrightarrow>
   quiet V w w' \<and> (\<forall>s. f = Inr (Some s) \<longrightarrow> s \<in> set known \<and> s \<in> vw_landed V w')"
proof (induction addrs arbitrary: w)
  case Nil
  then show ?case by (auto simp: quiet_refl)
next
  case (Cons a addrs)
  obtain p w1 where h: "rpc_getSignaturesForAddress R a n w = (p, w1)" by fastforce
  note hl = history_law [OF h]
  have hq: "quiet V w w1" using hl by simp
  have later: ?case if "outflow_loop R known n addrs w1 = (f, w')"
  proof -
    note ih = Cons.IH [OF that]
    have "quiet V w w'" using hq conjunct1 [OF ih] by (rule quiet_trans)
    with ih show ?thesis by simp
  qed
  show ?case
  proof (cases p)
    case (Inl e)
    with Cons.prems h show ?thesis by (intro later) simp
  next
    case (Inr page)
    show ?thesis
    proof (cases "find (landed_entry known) page")
      case None
      with Cons.prems h Inr show ?thesis by (intro later) simp
    next
      case (Some e)
      have f: "f = Inr (Some (he_signature e))" "w' = w1" using Cons.prems h Inr Some by simp_all
      have e: "e \<in> set page" "landed_entry known e" using Some by (auto simp: find_Some_iff)
      have "he_signature e \<in> vw_landed V w1" using hl Inr e by (simp add: landed_entry_def)
      with f e hq show ?thesis by (simp add: landed_entry_def)
    qed
  qed
qed

lemma signTransaction_sound:
  assumes "signTransaction R sign ixs fp w = (g, w')"
  shows "progress V w w' \<and> vw_sent V w' = vw_sent V w
      \<and> (\<forall>sd. g = Inr sd \<longrightarrow> sd_signature sd \<notin> vw_signed V w \<and> sd_signature sd \<in> vw_signed V w'
            \<and> vw_validUntil V (sd_signature sd) = sd_lastValidBlockHeight sd
            \<and> vw_wireSig V (sd_wireBase64 sd) = sd_signature sd)"
proof -
  obtain l w1 where b: "rpc_getLatestBlockhash R w = (l, w1)" by fastforce
  note bl = blockhash_law [OF b]
  have bq: "progress V w w1" "vw_sent V w1 = vw_sent V w" "vw_signed V w1 = vw_signed V w"
    using bl by (simp_all add: quiet_def)
  show ?thesis
  proof (cases l)
    case (Inl e)
    with b assms have "g = Inl e" "w' = w1" by (simp_all add: signTransaction_def io_bind_def)
    with bq show ?thesis by simp
  next
    case (Inr latest)
    obtain bh lv where l: "latest = (bh, lv)" by fastforce
    obtain sg w2 where s: "sign fp bh ixs w1 = (sg, w2)" by fastforce
    note sl = sign_law [OF s]
    have p: "progress V w w2" using bq(1) conjunct1 [OF sl] by (rule progress_trans)
    have sent: "vw_sent V w2 = vw_sent V w" using sl bq by simp
    show ?thesis
    proof (cases sg)
      case (Inl e)
      with b Inr l s assms have "g = Inl e" "w' = w2"
        by (simp_all add: signTransaction_def io_bind_def \<open>l = Inr latest\<close>)
      with p sent show ?thesis by simp
    next
      case (Inr signed)
      obtain sig wire where sw: "signed = (sig, wire)" by fastforce
      have g: "g = Inr \<lparr>sd_signature = sig, sd_blockhash = bh, sd_lastValidBlockHeight = lv,
            sd_wireBase64 = wire\<rparr>" "w' = w2"
        using b \<open>l = Inr latest\<close> l s assms Inr sw
        by (simp_all add: signTransaction_def io_bind_def io_return_def)
      have "sig \<notin> vw_signed V w1 \<and> sig \<in> vw_signed V w2
            \<and> vw_validUntil V sig = vw_blockhashValid V bh \<and> vw_wireSig V wire = sig"
        using sl Inr sw by blast
      moreover have "lv = vw_blockhashValid V bh" using bl \<open>l = Inr latest\<close> l by blast
      ultimately show ?thesis using g p sent bq by simp
    qed
  qed
qed

end

sublocale sound_rpc \<subseteq> gw: sound_gateway "solana_gateway R sign polls" V for polls
proof unfold_locales
  fix a b w w' assume "gw_getTokenBalance (solana_gateway R sign polls) a w = (b, w')"
  then show "quiet V w w'"
    by (auto simp: solana_gateway_def getTokenBalance_def dest: balance_law split: prod.splits sum.splits if_splits)
next
  fix addrs known f w w' assume "gw_findConfirmedOutflow (solana_gateway R sign polls) addrs known w = (f, w')"
  then show "quiet V w w' \<and> (\<forall>s. f = Inr (Some s) \<longrightarrow> s \<in> set known \<and> s \<in> vw_landed V w')"
    by (auto simp: solana_gateway_def findConfirmedOutflow_def Let_def quiet_refl
        dest: outflow_loop_sound split: if_splits)
qed (auto simp: solana_gateway_def landed_sent dest: account_law signTransaction_sound send_law
      confirmSignature_sound)

end
