(* ===== verification/Dispatch_Core.thy ===== *)
theory Dispatch_Core
  imports Ant_Reservations Chain_Gateway
begin

text \<open>
  The database side of dispatch (\<open>dispatch/dispatch-core.ts\<close>): persisting the signature before the
  broadcast, and the terminal and recovery transitions. Each is one transaction on the locked claim
  row; a transition that finds the claim moved on rolls back. The claims given to them have won
  their asset, so the unique index on live claims cannot stop them.
\<close>

section \<open>Transitions\<close>

record persist_args =
  pa_claimId :: string
  pa_assetKey :: string
  pa_signed :: signed_dispatch
  pa_settlementAmount :: "int option"
  pa_settlementLabel :: "string option"

definition core_event :: "string \<Rightarrow> string \<Rightarrow> string \<Rightarrow> string \<Rightarrow> audit_entry" where
  "core_event ev cid k st = (audit_event ev)\<lparr>au_claimId := Some cid, au_assetKey := Some k,
     au_status := Some st\<rparr>"

definition canDispatch :: "claim_row \<Rightarrow> bool" where
  "canDispatch c = (cl_status c = Verified \<or> cl_status c = PendingReview \<and> cl_approved_at c \<noteq> None)"

definition dispatching_row :: "persist_args \<Rightarrow> claim_row \<Rightarrow> claim_row" where
  "dispatching_row A r =
     (set_claim_status Dispatching r)
       \<lparr>cl_dispatch_signature := Some (sd_signature (pa_signed A)),
        cl_dispatch_blockhash := Some (sd_blockhash (pa_signed A)),
        cl_dispatch_last_valid_bh := Some (sd_lastValidBlockHeight (pa_signed A)),
        cl_settlement_amount := pa_settlementAmount A,
        cl_settlement := (case pa_settlementLabel A of Some l \<Rightarrow> Some l | None \<Rightarrow> cl_settlement r),
        cl_tx_signatures := cl_tx_signatures r @ [sd_signature (pa_signed A)],
        cl_error := None\<rparr>"

definition persistDispatching :: "'k service_env \<Rightarrow> int \<Rightarrow> persist_args \<Rightarrow> db \<Rightarrow> bool \<times> db" where
  "persistDispatching E now A d =
     (case find_claim d (pa_claimId A) of
        None \<Rightarrow> (False, d)
      | Some c \<Rightarrow>
          if \<not> canDispatch c then (False, d)
          else case find_asset d (pa_assetKey A) of
            None \<Rightarrow> (False, d)
          | Some a \<Rightarrow>
              if as_status a \<noteq> A_claiming \<and> as_status a \<noteq> A_pending_review then (False, d)
              else (True, append_audit E now
                ((core_event ''claim.dispatching'' (pa_claimId A) (pa_assetKey A) ''dispatching'')
                   \<lparr>au_detail := Some
                      ([(''signature'', JStr (sd_signature (pa_signed A))),
                        (''blockhash'', JStr (sd_blockhash (pa_signed A))),
                        (''lastValidBlockHeight'', JStr (dec_int (sd_lastValidBlockHeight (pa_signed A))))]
                       @ opt_field ''settlement'' JStr (pa_settlementLabel A)
                       @ opt_field ''amount'' (\<lambda>v. JStr (dec_int v)) (pa_settlementAmount A))\<rparr>)
                (update_claim (pa_claimId A) (dispatching_row A)
                  (update_asset (pa_assetKey A)
                     (\<lambda>r. if as_status r \<noteq> A_claimed then set_asset_status A_claiming r else r) d))))"

definition confirmed_row :: "int \<Rightarrow> string \<Rightarrow> claim_row \<Rightarrow> claim_row" where
  "confirmed_row now sig r =
     (set_claim_status Confirmed r)
       \<lparr>cl_confirmed_at := Some now,
        cl_tx_signatures := (if sig \<in> set (cl_tx_signatures r) then cl_tx_signatures r
                             else cl_tx_signatures r @ [sig]),
        cl_error := None\<rparr>"

definition finalizeConfirmed :: "'k service_env \<Rightarrow> int \<Rightarrow> string \<Rightarrow> string \<Rightarrow> db \<Rightarrow> db" where
  "finalizeConfirmed E now claimId sig d =
     (case find_claim d claimId of
        None \<Rightarrow> d
      | Some c \<Rightarrow>
          if cl_status c = Confirmed then d
          else append_audit E now
            ((core_event ''claim.confirmed'' claimId (cl_asset_key c) ''confirmed'')
               \<lparr>au_detail := Some ([(''signature'', JStr sig)]
                  @ opt_field ''settlementAmount'' (\<lambda>v. JStr (dec_int v)) (cl_settlement_amount c))\<rparr>)
            (update_asset (cl_asset_key c) (set_asset_status A_claimed)
              (update_claim claimId (confirmed_row now sig) d)))"

definition markFailed :: "'k service_env \<Rightarrow> int \<Rightarrow> string \<Rightarrow> string \<Rightarrow> db \<Rightarrow> db" where
  "markFailed E now claimId reason d =
     (case find_claim d claimId of
        None \<Rightarrow> d
      | Some c \<Rightarrow>
          if cl_status c = Confirmed then d
          else append_audit E now
            ((core_event ''claim.failed'' claimId (cl_asset_key c) ''failed'')\<lparr>au_reason := Some reason\<rparr>)
            (update_claim claimId (\<lambda>r. (set_claim_status Failed r)\<lparr>cl_error := Some reason\<rparr>) d))"

definition markNeedsOperator :: "'k service_env \<Rightarrow> int \<Rightarrow> string \<Rightarrow> string \<Rightarrow> db \<Rightarrow> bool \<times> db" where
  "markNeedsOperator E now claimId reason d =
     (case find_claim d claimId of
        None \<Rightarrow> (False, d)
      | Some c \<Rightarrow>
          if cl_status c = Confirmed \<or> cl_status c = NeedsOperator then (False, d)
          else (True, append_audit E now
            ((core_event ''claim.needs_operator'' claimId (cl_asset_key c) ''needs_operator'')
               \<lparr>au_reason := Some reason, au_detail := Some ([(''severity'', JStr ''critical'')]
                  @ opt_field ''deadSignature'' JStr (cl_dispatch_signature c))\<rparr>)
            (update_claim claimId (\<lambda>r. (set_claim_status NeedsOperator r)\<lparr>cl_error := Some reason\<rparr>) d)))"

definition cleared_row :: "claim_status \<Rightarrow> claim_row \<Rightarrow> claim_row" where
  "cleared_row st r =
     (set_claim_status st r)\<lparr>cl_dispatch_signature := None, cl_dispatch_blockhash := None,
        cl_dispatch_last_valid_bh := None, cl_dispatch_resign_count := cl_dispatch_resign_count r + 1\<rparr>"

text \<open>\<open>ant_batch_id\<close> is a UUID, so present means truthy.\<close>

definition clearDeadSignature :: "'k service_env \<Rightarrow> int \<Rightarrow> string \<Rightarrow> db \<Rightarrow> db" where
  "clearDeadSignature E now claimId d =
     (case find_claim d claimId of
        None \<Rightarrow> d
      | Some c \<Rightarrow>
          if cl_status c \<noteq> Dispatching \<or> cl_ant_batch_id c \<noteq> None then d
          else (let revertTo = (if cl_approved_at c \<noteq> None then PendingReview else Verified)
                in append_audit E now
                  ((core_event ''claim.dispatch_expired'' claimId (cl_asset_key c) (claim_status_str revertTo))
                     \<lparr>au_detail := Some (opt_field ''deadSignature'' JStr (cl_dispatch_signature c))\<rparr>)
                  (update_claim claimId (cleared_row revertTo) d)))"

definition hold_asset :: "asset_row \<Rightarrow> asset_row" where
  "hold_asset r = (if as_status r \<noteq> A_claimed then set_asset_status A_pending_review r else r)"

definition routeToReview :: "'k service_env \<Rightarrow> int \<Rightarrow> string \<Rightarrow> string \<Rightarrow> string \<Rightarrow> db \<Rightarrow> db" where
  "routeToReview E now claimId assetKey reason d =
     (case find_claim d claimId of
        None \<Rightarrow> d
      | Some c \<Rightarrow>
          if cl_status c = Confirmed \<or> cl_status c = Dispatching then d
          else append_audit E now
            ((core_event ''claim.pending_review'' claimId assetKey ''pending_review'')\<lparr>au_reason := Some reason\<rparr>)
            (update_asset assetKey hold_asset (update_claim claimId (set_claim_status PendingReview) d)))"

definition routeToManualVaultDelivery ::
  "'k service_env \<Rightarrow> int \<Rightarrow> string \<Rightarrow> string \<Rightarrow> int \<Rightarrow> int \<Rightarrow> db \<Rightarrow> db" where
  "routeToManualVaultDelivery E now claimId assetKey unlockTs lockSecs d =
     (case find_claim d claimId of
        None \<Rightarrow> d
      | Some c \<Rightarrow>
          if cl_status c = Confirmed \<or> cl_status c = Dispatching then d
          else append_audit E now
            ((core_event ''claim.awaiting_manual_vault_delivery'' claimId assetKey ''awaiting_manual_vault_delivery'')
               \<lparr>au_detail := Some [(''unlockTimestamp'', JStr (dec_int unlockTs)),
                  (''lockDurationSeconds'', JStr (dec_int lockSecs))]\<rparr>)
            (update_asset assetKey hold_asset
              (update_claim claimId
                (\<lambda>r. (set_claim_status AwaitingManualVaultDelivery r)
                        \<lparr>cl_settlement := Some ''manual_vault_relock''\<rparr>) d)))"

text \<open>The operator's approval (\<open>DispatchWorker.approveClaim\<close>).\<close>

definition approveClaim :: "'k service_env \<Rightarrow> int \<Rightarrow> string \<Rightarrow> string \<Rightarrow> db \<Rightarrow> (string + unit) \<times> db" where
  "approveClaim E now claimId approvedBy d =
     (case find_claim d claimId of
        None \<Rightarrow> (Inl (''no such claim '' @ claimId), d)
      | Some c \<Rightarrow>
          if cl_status c \<noteq> PendingReview \<and> cl_status c \<noteq> Verified
          then (Inl (''claim '' @ claimId @ '' is '' @ claim_status_str (cl_status c)
                     @ '', not approvable (must be verified or pending_review)''), d)
          else (Inr (), append_audit E now
            ((core_event ''claim.approved'' claimId (cl_asset_key c) (claim_status_str (cl_status c)))
               \<lparr>au_detail := Some [(''approvedBy'', JStr approvedBy)]\<rparr>)
            (update_claim claimId (\<lambda>r. r\<lparr>cl_approved_at := Some now, cl_approved_by := Some approvedBy\<rparr>) d)))"

section \<open>The invariant of the tables\<close>

lemma find_claim_mem: "find_claim d cid = Some c \<Longrightarrow> c \<in> set (db_claims d) \<and> cl_claim_id c = cid"
  by (rule row_find_Some)

text \<open>A transition of one won claim and of its own asset keeps the invariant.\<close>

lemma db_inv_pair:
  assumes "db_inv d" and "find_claim d cid = Some c" and "won (cl_status c)" and "k = cl_asset_key c"
    and "\<And>c. cl_claim_id (f c) = cl_claim_id c" and "\<And>c. cl_asset_key (f c) = cl_asset_key c"
    and "\<And>a. as_asset_key (g a) = as_asset_key a"
    and "\<And>a. as_status a \<noteq> Available \<Longrightarrow> as_status (g a) \<noteq> Available"
    and "\<And>a. as_status a = A_claimed \<Longrightarrow> as_status (g a) = A_claimed"
    and "\<And>a. as_status a \<noteq> Available \<Longrightarrow> cl_status (f c) = Confirmed \<Longrightarrow> as_status (g a) = A_claimed"
  shows "db_inv (update_claim cid f (update_asset k g d))"
  using claims_inv_pair [of "db_claims d" "db_assets d" c k f g] find_claim_mem [OF assms(2)] assms
  by (simp add: db_inv_def)

lemma db_inv_claim:
  assumes "db_inv d" and "find_claim d cid = Some c" and "won (cl_status c)"
    and "\<And>c. cl_claim_id (f c) = cl_claim_id c" and "\<And>c. cl_asset_key (f c) = cl_asset_key c"
    and "cl_status (f c) \<noteq> Confirmed"
  shows "db_inv (update_claim cid f d)"
proof -
  have "row_update as_asset_key (cl_asset_key c) (\<lambda>a. a) (db_assets d) = db_assets d"
    by (rule row_update_id) simp
  then show ?thesis using db_inv_pair [OF assms(1-3) refl assms(4,5), of "\<lambda>a. a"] assms(6)
    by (simp add: db_inv_def)
qed

lemma row_fields [simp]:
  "cl_claim_id (dispatching_row A r) = cl_claim_id r" "cl_asset_key (dispatching_row A r) = cl_asset_key r"
  "cl_status (dispatching_row A r) = Dispatching"
  "cl_claim_id (confirmed_row now sig r) = cl_claim_id r" "cl_asset_key (confirmed_row now sig r) = cl_asset_key r"
  "cl_status (confirmed_row now sig r) = Confirmed"
  "cl_claim_id (cleared_row st r) = cl_claim_id r" "cl_asset_key (cleared_row st r) = cl_asset_key r"
  "cl_status (cleared_row st r) = st"
  "cl_claim_id (set_claim_status st r) = cl_claim_id r" "cl_asset_key (set_claim_status st r) = cl_asset_key r"
  "cl_status (set_claim_status st r) = st"
  "cl_challenge_nonce (dispatching_row A r) = cl_challenge_nonce r" "cl_claimant (dispatching_row A r) = cl_claimant r"
  "cl_canonical_message (dispatching_row A r) = cl_canonical_message r"
  "cl_challenge_nonce (confirmed_row now sig r) = cl_challenge_nonce r" "cl_claimant (confirmed_row now sig r) = cl_claimant r"
  "cl_canonical_message (confirmed_row now sig r) = cl_canonical_message r"
  "cl_challenge_nonce (cleared_row st r) = cl_challenge_nonce r" "cl_claimant (cleared_row st r) = cl_claimant r"
  "cl_canonical_message (cleared_row st r) = cl_canonical_message r"
  "cl_ant_reserved_wire (dispatching_row A r) = cl_ant_reserved_wire r"
  "cl_ant_reserved_wire (confirmed_row now sig r) = cl_ant_reserved_wire r"
  "cl_ant_reserved_wire (cleared_row st r) = cl_ant_reserved_wire r"
  "as_asset_key (set_asset_status s a) = as_asset_key a" "as_status (set_asset_status s a) = s"
  "as_asset_key (hold_asset a) = as_asset_key a"
  by (simp_all add: dispatching_row_def confirmed_row_def cleared_row_def set_claim_status_def
      set_asset_status_def hold_asset_def)

lemma set_status_id [simp]: "set_asset_status s (set_asset_status s' a) = set_asset_status s a"
  by (simp add: set_asset_status_def)

lemma hold_asset_status:
  "as_status (hold_asset a) = (if as_status a = A_claimed then A_claimed else A_pending_review)"
  "set_asset_status s (hold_asset a) = set_asset_status s a"
  by (simp_all add: hold_asset_def)

lemma hold_asset_taken: "as_status (hold_asset a) \<noteq> Available"
  and hold_asset_claimed: "as_status a = A_claimed \<Longrightarrow> as_status (hold_asset a) = A_claimed"
  by (simp_all add: hold_asset_def)

text \<open>
  The steps of dispatch: each transition, on a claim that has won its asset and with that asset.
\<close>

inductive dispatch_step :: "'k service_env \<Rightarrow> db \<Rightarrow> db \<Rightarrow> bool" for E where
  step_persist:
    "find_claim d (pa_claimId A) = Some c \<Longrightarrow> pa_assetKey A = cl_asset_key c
     \<Longrightarrow> dispatch_step E d (snd (persistDispatching E now A d))"
| step_finalize:
    "find_claim d cid = Some c \<Longrightarrow> won (cl_status c) \<Longrightarrow> dispatch_step E d (finalizeConfirmed E now cid sig d)"
| step_failed:
    "find_claim d cid = Some c \<Longrightarrow> won (cl_status c) \<Longrightarrow> dispatch_step E d (markFailed E now cid reason d)"
| step_needs_operator:
    "find_claim d cid = Some c \<Longrightarrow> won (cl_status c)
     \<Longrightarrow> dispatch_step E d (snd (markNeedsOperator E now cid reason d))"
| step_clear: "dispatch_step E d (clearDeadSignature E now cid d)"
| step_review:
    "find_claim d cid = Some c \<Longrightarrow> won (cl_status c) \<Longrightarrow> k = cl_asset_key c
     \<Longrightarrow> dispatch_step E d (routeToReview E now cid k reason d)"
| step_manual:
    "find_claim d cid = Some c \<Longrightarrow> won (cl_status c) \<Longrightarrow> k = cl_asset_key c
     \<Longrightarrow> dispatch_step E d (routeToManualVaultDelivery E now cid k unlock lock d)"
| step_approve: "dispatch_step E d (snd (approveClaim E now cid who d))"

lemma update_commute:
  "update_asset k g (update_claim cid f d) = update_claim cid f (update_asset k g d)"
  by (simp add: update_claim_def update_asset_def)

text \<open>
  Every transition leaves the tables alone or rewrites one won claim and its asset within the
  bounds of \<open>db_inv_pair\<close>.
\<close>

definition in_hand :: "asset_status \<Rightarrow> bool" where
  "in_hand s = (s \<in> {A_claiming, A_pending_review, A_claimed})"

definition bounded_change :: "db \<Rightarrow> db \<Rightarrow> bool" where
  "bounded_change d d' =
     (db_claims d' = db_claims d \<and> db_assets d' = db_assets d \<and> db_recipients d' = db_recipients d
      \<or> (\<exists>cid c f g. find_claim d cid = Some c \<and> won (cl_status c) \<and> cl_status c \<noteq> Confirmed \<and> won (cl_status (f c))
          \<and> db_claims d' = row_update cl_claim_id cid f (db_claims d)
          \<and> db_assets d' = row_update as_asset_key (cl_asset_key c) g (db_assets d)
          \<and> db_recipients d' = db_recipients d
          \<and> (\<forall>c. cl_claim_id (f c) = cl_claim_id c \<and> cl_asset_key (f c) = cl_asset_key c
                \<and> cl_challenge_nonce (f c) = cl_challenge_nonce c \<and> cl_claimant (f c) = cl_claimant c
                \<and> cl_canonical_message (f c) = cl_canonical_message c
                \<and> cl_ant_reserved_wire (f c) \<in> {None, cl_ant_reserved_wire c})
          \<and> (\<forall>a. set_asset_status Available (g a) = set_asset_status Available a)
          \<and> (\<forall>a. as_status a \<noteq> Available \<longrightarrow> as_status (g a) \<noteq> Available)
          \<and> (\<forall>a. as_status a = A_claimed \<longrightarrow> as_status (g a) = A_claimed)
          \<and> (\<forall>a. cl_status (f c) = Confirmed \<and> as_status a \<noteq> Available \<longrightarrow> as_status (g a) = A_claimed)
          \<and> (\<forall>a. as_status (g a) = as_status a \<or> in_hand (as_status (g a)))))"

lemma bounded_changeI:
  assumes "find_claim d cid = Some c" and "won (cl_status c)" and "cl_status c \<noteq> Confirmed"
    and "won (cl_status (f c))"
    and "db_claims d' = row_update cl_claim_id cid f (db_claims d)"
    and "db_assets d' = row_update as_asset_key (cl_asset_key c) g (db_assets d)"
    and "db_recipients d' = db_recipients d"
    and "\<And>c. cl_claim_id (f c) = cl_claim_id c \<and> cl_asset_key (f c) = cl_asset_key c
                \<and> cl_challenge_nonce (f c) = cl_challenge_nonce c \<and> cl_claimant (f c) = cl_claimant c
                \<and> cl_canonical_message (f c) = cl_canonical_message c
                \<and> cl_ant_reserved_wire (f c) \<in> {None, cl_ant_reserved_wire c}"
    and "\<And>a. set_asset_status Available (g a) = set_asset_status Available a"
    and "\<And>a. as_status a \<noteq> Available \<Longrightarrow> as_status (g a) \<noteq> Available"
    and "\<And>a. as_status a = A_claimed \<Longrightarrow> as_status (g a) = A_claimed"
    and "\<And>a. cl_status (f c) = Confirmed \<Longrightarrow> as_status a \<noteq> Available \<Longrightarrow> as_status (g a) = A_claimed"
    and "\<And>a. as_status (g a) = as_status a \<or> in_hand (as_status (g a))"
  shows "bounded_change d d'"
  unfolding bounded_change_def using assms by blast

lemma in_hand_simps [simp]: "in_hand A_claiming" "in_hand A_pending_review" "in_hand A_claimed"
  "in_hand (as_status (hold_asset a))"
  by (simp_all add: in_hand_def hold_asset_def)

lemma bounded_change_refl [simp]: "bounded_change d d" by (simp add: bounded_change_def)

lemma no_asset_update: "row_update as_asset_key k (\<lambda>a. a) as = as"
  by (rule row_update_id) simp

lemma set_status_frame [simp]:
  "cl_challenge_nonce (set_claim_status s r) = cl_challenge_nonce r" "cl_claimant (set_claim_status s r) = cl_claimant r"
  "cl_canonical_message (set_claim_status s r) = cl_canonical_message r"
  "cl_ant_reserved_wire (set_claim_status s r) = cl_ant_reserved_wire r"
  by (simp_all add: set_claim_status_def)

lemma canDispatch_won: "canDispatch c \<Longrightarrow> won (cl_status c)"
  and canDispatch_unconfirmed: "canDispatch c \<Longrightarrow> cl_status c \<noteq> Confirmed"
  by (auto simp: canDispatch_def)

lemma bounded_persist:
  assumes "find_claim d (pa_claimId A) = Some c" and "pa_assetKey A = cl_asset_key c"
  shows "bounded_change d (snd (persistDispatching E now A d))"
proof (cases "canDispatch c \<and> (\<exists>a. find_asset d (pa_assetKey A) = Some a
    \<and> (as_status a = A_claiming \<or> as_status a = A_pending_review))")
  case False
  with assms have "snd (persistDispatching E now A d) = d"
    by (auto simp: persistDispatching_def split: option.split)
  then show ?thesis by simp
next
  case True
  then show ?thesis
    by (intro bounded_changeI [OF assms(1) canDispatch_won canDispatch_unconfirmed, where f = "dispatching_row A"
          and g = "\<lambda>r. if as_status r \<noteq> A_claimed then set_asset_status A_claiming r else r"])
      (use assms in \<open>auto simp: persistDispatching_def\<close>)
qed

lemma dispatch_step_bounded: "dispatch_step E d d' \<Longrightarrow> bounded_change d d'"
proof (induction rule: dispatch_step.induct)
  case (step_persist d A c now)
  then show ?case by (rule bounded_persist)
next
  case (step_finalize d cid c now sig)
  then show ?case
    by (cases "cl_status c = Confirmed")
      (auto simp: finalizeConfirmed_def intro!: bounded_changeI [OF step_finalize,
          where f = "confirmed_row now sig" and g = "set_asset_status A_claimed"])
next
  case (step_failed d cid c now reason)
  then show ?case
    by (cases "cl_status c = Confirmed")
      (auto simp: markFailed_def no_asset_update intro!: bounded_changeI [OF step_failed,
          where f = "\<lambda>r. (set_claim_status Failed r)\<lparr>cl_error := Some reason\<rparr>" and g = "\<lambda>a. a"])
next
  case (step_needs_operator d cid c now reason)
  then show ?case
    by (cases "cl_status c = Confirmed \<or> cl_status c = NeedsOperator")
      (auto simp: markNeedsOperator_def no_asset_update intro!: bounded_changeI [OF step_needs_operator,
          where f = "\<lambda>r. (set_claim_status NeedsOperator r)\<lparr>cl_error := Some reason\<rparr>" and g = "\<lambda>a. a"])
next
  case (step_clear d now cid)
  show ?case
  proof (cases "find_claim d cid")
    case (Some c)
    show ?thesis
    proof (cases "cl_status c \<noteq> Dispatching \<or> cl_ant_batch_id c \<noteq> None")
      case False
      then have w: "won (cl_status c)" by simp
      define st where "st = (if cl_approved_at c \<noteq> None then PendingReview else Verified)"
      have "won st" "st \<noteq> Confirmed" by (simp_all add: st_def)
      with False Some show ?thesis
        by (intro bounded_changeI [OF Some w, where f = "cleared_row st" and g = "\<lambda>a. a"])
          (auto simp: clearDeadSignature_def Let_def no_asset_update st_def)
    qed (use Some in \<open>simp add: clearDeadSignature_def\<close>)
  qed (simp add: clearDeadSignature_def)
next
  case (step_review d cid c k now reason)
  then show ?case
    by (cases "cl_status c = Confirmed \<or> cl_status c = Dispatching")
      (auto simp: routeToReview_def hold_asset_taken hold_asset_claimed hold_asset_status(2) intro!: bounded_changeI [OF step_review(1,2),
          where f = "set_claim_status PendingReview" and g = hold_asset])
next
  case (step_manual d cid c k now unlock lock)
  then show ?case
    by (cases "cl_status c = Confirmed \<or> cl_status c = Dispatching")
      (auto simp: routeToManualVaultDelivery_def hold_asset_taken hold_asset_claimed hold_asset_status(2)
        intro!: bounded_changeI [OF step_manual(1,2), where g = hold_asset
          and f = "\<lambda>r. (set_claim_status AwaitingManualVaultDelivery r)\<lparr>cl_settlement := Some ''manual_vault_relock''\<rparr>"])
next
  case (step_approve d now cid who)
  show ?case
  proof (cases "find_claim d cid")
    case (Some c)
    show ?thesis
    proof (cases "cl_status c = PendingReview \<or> cl_status c = Verified")
      case True
      then have w: "won (cl_status c)" by auto
      with True Some show ?thesis
        by (intro bounded_changeI [OF Some w, where g = "\<lambda>a. a"
              and f = "\<lambda>r. r\<lparr>cl_approved_at := Some now, cl_approved_by := Some who\<rparr>"])
          (auto simp: approveClaim_def no_asset_update)
    qed (use Some in \<open>simp add: approveClaim_def\<close>)
  qed (simp add: approveClaim_def)
qed

lemma bounded_change_inv:
  assumes "bounded_change d d'" and "db_inv d"
  shows "db_inv d'"
proof -
  consider "db_claims d' = db_claims d" "db_assets d' = db_assets d"
    | cid c f g where "find_claim d cid = Some c" "won (cl_status c)"
      "db_claims d' = row_update cl_claim_id cid f (db_claims d)"
      "db_assets d' = row_update as_asset_key (cl_asset_key c) g (db_assets d)"
      "\<And>c. cl_claim_id (f c) = cl_claim_id c" "\<And>c. cl_asset_key (f c) = cl_asset_key c"
      "\<And>a. set_asset_status Available (g a) = set_asset_status Available a"
      "\<And>a. as_status a \<noteq> Available \<Longrightarrow> as_status (g a) \<noteq> Available"
      "\<And>a. as_status a = A_claimed \<Longrightarrow> as_status (g a) = A_claimed"
      "\<And>a. as_status a \<noteq> Available \<Longrightarrow> cl_status (f c) = Confirmed \<Longrightarrow> as_status (g a) = A_claimed"
    using assms(1) unfolding bounded_change_def by blast
  then show ?thesis
  proof cases
    case 1
    with assms(2) show ?thesis by (simp add: db_inv_def)
  next
    case (2 cid c f g)
    have "as_asset_key (g a) = as_asset_key a" for a
      using arg_cong [OF 2(7) [of a], of as_asset_key] by simp
    then have "db_inv (update_claim cid f (update_asset (cl_asset_key c) g d))"
      by (intro db_inv_pair [OF assms(2) 2(1,2) refl]) (use 2 in blast)+
    with 2(3,4) show ?thesis by (simp add: db_inv_def)
  qed
qed

lemma bounded_change_ledger:
  assumes "bounded_change d d'"
  shows "same_ledger d d'"
proof -
  consider "db_assets d' = db_assets d" "db_recipients d' = db_recipients d"
    | k g where "db_assets d' = row_update as_asset_key k g (db_assets d)" "db_recipients d' = db_recipients d"
      "\<And>a. set_asset_status Available (g a) = set_asset_status Available a"
    using assms unfolding bounded_change_def by blast
  then show ?thesis
  proof cases
    case (2 k g)
    have "same_ledger d (update_asset k g d)" using 2(3) by (rule same_ledger_update_asset)
    then show ?thesis using 2(1,2) by (simp add: same_ledger_def)
  qed (simp add: same_ledger_def)
qed

lemma bounded_change_challenges:
  assumes "bounded_change d d'" and "challenges_ok E d"
  shows "challenges_ok E d'"
proof -
  note l = bounded_change_ledger [OF assms(1)]
  consider "db_claims d' = db_claims d"
    | cid f where "db_claims d' = row_update cl_claim_id cid f (db_claims d)"
      "\<And>c. cl_asset_key (f c) = cl_asset_key c" "\<And>c. cl_challenge_nonce (f c) = cl_challenge_nonce c"
      "\<And>c. cl_claimant (f c) = cl_claimant c" "\<And>c. cl_canonical_message (f c) = cl_canonical_message c"
    using assms(1) unfolding bounded_change_def by blast
  then show ?thesis
  proof cases
    case 1
    then show ?thesis using challenge_bound_frame [OF l] assms(2) unfolding challenges_ok_def by metis
  next
    case (2 cid f)
    show ?thesis by (rule challenges_ok_update [OF assms(2) l 2])
  qed
qed

section \<open>The system: the service and dispatch\<close>

text \<open>What is won stays won: the claim keeps its asset and remains among the won statuses.\<close>

definition wins_kept :: "db \<Rightarrow> db \<Rightarrow> bool" where
  "wins_kept d d' = (\<forall>c \<in> set (db_claims d). won (cl_status c) \<longrightarrow>
     (\<exists>c' \<in> set (db_claims d'). cl_claim_id c' = cl_claim_id c \<and> cl_asset_key c' = cl_asset_key c
        \<and> cl_claimant c' = cl_claimant c \<and> won (cl_status c')))"

lemma wins_kept_refl: "wins_kept d d" by (auto simp: wins_kept_def)

lemma wins_kept_trans: "wins_kept d d' \<Longrightarrow> wins_kept d' d'' \<Longrightarrow> wins_kept d d''"
  unfolding wins_kept_def by metis

lemma wins_kept_update:
  assumes "db_claims d' = row_update cl_claim_id cid f (db_claims d)"
    and "\<And>c. cl_claim_id (f c) = cl_claim_id c" and "\<And>c. cl_asset_key (f c) = cl_asset_key c"
    and "\<And>c. cl_claimant (f c) = cl_claimant c"
    and "\<And>c. c \<in> set (db_claims d) \<Longrightarrow> cl_claim_id c = cid \<Longrightarrow> won (cl_status c) \<Longrightarrow> won (cl_status (f c))"
  shows "wins_kept d d'"
  unfolding wins_kept_def
proof (intro ballI impI)
  fix c assume "c \<in> set (db_claims d)" "won (cl_status c)"
  then show "\<exists>c' \<in> set (db_claims d'). cl_claim_id c' = cl_claim_id c \<and> cl_asset_key c' = cl_asset_key c
      \<and> cl_claimant c' = cl_claimant c \<and> won (cl_status c')"
    by (intro bexI [of _ "if cl_claim_id c = cid then f c else c"])
      (auto simp: assms set_row_update)
qed

lemma service_step_wins:
  assumes "service_step E d d'" and "db_inv d"
  shows "wins_kept d d'"
proof -
  have ids: "distinct (map cl_claim_id (db_claims d))" using assms(2) by (simp add: db_inv_def claims_inv_def)
  show ?thesis using assms(1)
  proof (cases rule: service_step.cases)
    case (step_initiate c now e)
    then show ?thesis by (auto simp: wins_kept_def)
  next
    case (step_reject c now code reason)
    have "\<not> won (cl_status x)" if "x \<in> set (db_claims d)" "cl_claim_id x = cl_claim_id c" for x
      using row_unique [OF ids that(1) step_reject(2) that(2)] step_reject(3) by simp
    then show ?thesis
      by (intro wins_kept_update [where cid = "cl_claim_id c"
            and f = "\<lambda>r. (set_claim_status Rejected r)\<lparr>cl_error := Some code\<rparr>"])
        (auto simp: step_reject(1) rejectClaim_def)
  next
    case (step_expire c now)
    have "\<not> won (cl_status x)" if "x \<in> set (db_claims d)" "cl_claim_id x = cl_claim_id c" for x
      using row_unique [OF ids that(1) step_expire(2) that(2)] step_expire(3) by simp
    then show ?thesis
      by (intro wins_kept_update [where cid = "cl_claim_id c" and f = "set_claim_status Expired_claim"])
        (auto simp: step_expire(1) expireClaim_def)
  next
    case (step_reap now c)
    then show ?thesis
      by (intro wins_kept_update [where cid = "cl_claim_id c"
            and f = "\<lambda>r. if cl_status r = Claiming then set_claim_status Expired_claim r else r"])
        (auto simp: reap_row_def)
  next
    case (step_win c now a pf st ast e sl settlement)
    then show ?thesis
      by (intro wins_kept_update [where cid = "cl_claim_id c"
            and f = "won_row st (cp_signature pf) sl settlement now"])
        (auto simp: won_row_def)
  qed
qed

lemma bounded_change_wins:
  assumes "bounded_change d d'" and "db_inv d"
  shows "wins_kept d d'"
proof -
  consider "db_claims d' = db_claims d"
    | cid c f where "find_claim d cid = Some c" "won (cl_status (f c))"
      "db_claims d' = row_update cl_claim_id cid f (db_claims d)"
      "\<And>c. cl_claim_id (f c) = cl_claim_id c" "\<And>c. cl_asset_key (f c) = cl_asset_key c"
      "\<And>c. cl_claimant (f c) = cl_claimant c"
    using assms(1) unfolding bounded_change_def by blast
  then show ?thesis
  proof cases
    case 1
    then show ?thesis by (auto simp: wins_kept_def)
  next
    case (2 cid c f)
    show ?thesis
    proof (rule wins_kept_update [OF 2(3,4,5,6)])
      fix x assume "x \<in> set (db_claims d)" "cl_claim_id x = cid"
      then have "x = c" using row_unique [of cl_claim_id "db_claims d" x c] find_claim_mem [OF 2(1)] assms(2)
        by (simp add: db_inv_def claims_inv_def)
      with 2(2) show "won (cl_status (f x))" by simp
    qed
  qed
qed

text \<open>The interface of a system of transactions, and its invariant at every reachable state.\<close>

locale transactions =
  fixes step :: "db \<Rightarrow> db \<Rightarrow> bool"
  assumes step_inv: "db_inv d \<Longrightarrow> step d d' \<Longrightarrow> db_inv d'"
    and step_wins: "db_inv d \<Longrightarrow> step d d' \<Longrightarrow> wins_kept d d'"
begin

lemma run_inv: "step\<^sup>*\<^sup>* d d' \<Longrightarrow> db_inv d \<Longrightarrow> db_inv d'"
  by (induction rule: rtranclp_induct) (auto intro: step_inv)

lemma run_wins: "step\<^sup>*\<^sup>* d d' \<Longrightarrow> db_inv d \<Longrightarrow> wins_kept d d'"
proof (induction rule: rtranclp_induct)
  case (step d1 d2)
  then have "wins_kept d1 d2" using run_inv step_wins by blast
  with step show ?case using wins_kept_trans by blast
qed (rule wins_kept_refl)

text \<open>Once won, an asset has no other claim to win it.\<close>

lemma no_second_winner:
  assumes "step\<^sup>*\<^sup>* d d'" and "db_inv d" and "c \<in> set (db_claims d)" and "won (cl_status c)"
    and "x \<in> set (db_claims d')" and "won (cl_status x)" and "cl_asset_key x = cl_asset_key c"
  shows "cl_claim_id x = cl_claim_id c"
proof -
  obtain c' where "c' \<in> set (db_claims d')" "cl_claim_id c' = cl_claim_id c"
    "cl_asset_key c' = cl_asset_key c" "won (cl_status c')"
    using run_wins [OF assms(1,2)] assms(3,4) by (auto simp: wins_kept_def)
  then show ?thesis using run_inv [OF assms(1,2)] assms(5-7)
    by (simp add: db_inv_def claims_inv_def) metis
qed

end

text \<open>The transactions of the ANT operator.\<close>

inductive operator_step :: "'k service_env \<Rightarrow> db \<Rightarrow> db \<Rightarrow> bool" for E where
  op_expire: "operator_step E d (snd (expireStaleReservations now ttlMs d))"
| op_reserve: "operator_step E d (snd (reserve_tx E now batchId opts skip d))"
| op_release: "operator_step E d (snd (releaseAntBatch E now batchId d))"
| op_build: "operator_step E d (snd (build_tx E now batchId cold mk d))"
| op_rebuild: "operator_step E d (releaseReservationForRebuild E now cid d)"
| op_advance: "operator_step E d (advance_batch now batchId b d)"
| op_submit_audit: "operator_step E d (writeSubmitAudit E now batchId cold results d)"

lemma rebuild_row_frame [simp]:
  "cl_claim_id (rebuild_row st r) = cl_claim_id r" "cl_asset_key (rebuild_row st r) = cl_asset_key r"
  "cl_claimant (rebuild_row st r) = cl_claimant r" "cl_challenge_nonce (rebuild_row st r) = cl_challenge_nonce r"
  "cl_canonical_message (rebuild_row st r) = cl_canonical_message r" "cl_ant_reserved_wire (rebuild_row st r) = None" "cl_status (rebuild_row st r) = st"
  by (simp_all add: rebuild_row_def clear_reservation_def set_claim_status_def)

lemma rebuild_bounded: "bounded_change d (releaseReservationForRebuild E now cid d)"
proof (cases "find_claim d cid")
  case (Some c)
  show ?thesis
  proof (cases "cl_status c = Dispatching")
    case True
    define st where "st = (if cl_approved_at c \<noteq> None then PendingReview else Verified)"
    have "won (cl_status c)" "cl_status c \<noteq> Confirmed" "won st" "st \<noteq> Confirmed" by (simp_all add: True st_def)
    with True Some show ?thesis
      by (intro bounded_changeI [OF Some, where f = "rebuild_row st" and g = "\<lambda>a. a"])
        (auto simp: releaseReservationForRebuild_def Let_def no_asset_update st_def)
  qed (use Some in \<open>simp add: releaseReservationForRebuild_def\<close>)
qed (simp add: releaseReservationForRebuild_def)

lemma operator_step_cases:
  assumes "operator_step E d d'" and "db_inv d"
  shows "reservation_change d d' \<or> bounded_change d d'"
  using assms
  by (cases rule: operator_step.cases)
    (simp_all add: expireStale_change reserve_tx_change releaseAntBatch_change build_tx_change rebuild_bounded
      advance_batch_change writeSubmitAudit_change)

lemma reservation_change_wins:
  assumes "reservation_change d d'"
  shows "wins_kept d d'"
proof -
  obtain f where f: "db_claims d' = map f (db_claims d)" "\<forall>c \<in> set (db_claims d). reserved_like c (f c)"
    using assms by (auto simp: reservation_change_def)
  show ?thesis unfolding wins_kept_def
  proof (intro ballI impI)
    fix c assume c: "c \<in> set (db_claims d)" "won (cl_status c)"
    with f reserved_like_fields(1-3,9) [of c "f c"] show "\<exists>c' \<in> set (db_claims d').
        cl_claim_id c' = cl_claim_id c \<and> cl_asset_key c' = cl_asset_key c
        \<and> cl_claimant c' = cl_claimant c \<and> won (cl_status c')"
      by (intro bexI [of _ "f c"]) simp_all
  qed
qed

definition system_step :: "'k service_env \<Rightarrow> db \<Rightarrow> db \<Rightarrow> bool" where
  "system_step E d d' = (service_step E d d' \<or> dispatch_step E d d' \<or> operator_step E d d')"

lemma system_step_cases:
  assumes "system_step E d d'" and "db_inv d"
  obtains "service_step E d d'" | "bounded_change d d'" | "reservation_change d d'"
  using assms dispatch_step_bounded operator_step_cases unfolding system_step_def by blast

interpretation claims_system: transactions "system_step E" for E
proof unfold_locales
  fix d d' assume d: "db_inv d" "system_step E d d'"
  show "db_inv d'" using d(2,1)
    by (cases rule: system_step_cases) (use d(1) in \<open>auto intro: service_step_inv bounded_change_inv reservation_change_inv\<close>)
  show "wins_kept d d'" using d(2,1)
    by (cases rule: system_step_cases) (use d(1) in \<open>auto intro: service_step_wins bounded_change_wins reservation_change_wins\<close>)
qed

interpretation claims_service: transactions "service_step E" for E
  by unfold_locales (auto intro: service_step_inv service_step_wins)

section \<open>Properties\<close>

lemma replay_result_fields:
  "r = replay_result c st b s \<Longrightarrow> cr_claimId r = cl_claim_id c \<and> cr_assetKey r = cl_asset_key c
     \<and> cr_claimant r = cl_claimant c \<and> cr_idempotentReplay r = b"
  by (simp add: replay_result_def)

text \<open>
  C8. An asset is won once: after a fresh success of \<open>completeClaim\<close>, whatever transactions of the
  service, of dispatch and of the ANT operator run next and whoever completes again, a later success for the same asset
  is a replay of the same claim. So no second claimant can win it, and the unique index the code
  keeps as a backstop has nothing to stop.
\<close>

theorem asset_won_once:
  assumes "db_inv d" and "completeClaim E now inp d = (Inr r, d1)" and "\<not> cr_idempotentReplay r"
    and "(system_step E)\<^sup>*\<^sup>* d1 d2"
    and "completeClaim E now' inp' d2 = (Inr r', d3)" and "cr_assetKey r' = cr_assetKey r"
  shows "cr_idempotentReplay r' \<and> cr_claimId r' = cr_claimId r \<and> d3 = d2"
proof -
  have inv1: "db_inv d1" using completeClaim_step [OF assms(2,1)] assms(1) service_step_inv by blast
  have inv2: "db_inv d2" using claims_system.run_inv [OF assms(4) inv1] .
  obtain w where w: "w \<in> set (db_claims d1)" "won (cl_status w)" "cl_asset_key w = cr_assetKey r"
    "cl_claim_id w = cr_claimId r"
    using assms(2,1)
  proof (cases rule: completeClaim_Inr_cases)
    case (replay c a pf)
    then show thesis using assms(3) replay_result_fields by metis
  next
    case (win c a pf st ast e sl)
    let ?w = "won_row st (cp_signature pf) sl (computeSettlement now a) now c"
    have "?w \<in> set (db_claims d1)" using win(1,9) by (auto simp: set_row_update)
    moreover have "won (cl_status ?w)" "cl_asset_key ?w = cr_assetKey r" "cl_claim_id ?w = cr_claimId r"
      using win(7,8) by (auto simp: won_row_def replay_result_def)
    ultimately show thesis by (rule that)
  qed
  show ?thesis
    using assms(5) inv2
  proof (cases rule: completeClaim_Inr_cases)
    case (replay c a pf)
    note r' = replay_result_fields [OF replay(6)]
    with claims_system.no_second_winner [OF assms(4) inv1 w(1,2) replay(1,2)] w(3,4) assms(6) replay(3)
    show ?thesis by simp
  next
    case (win c a pf st ast e sl)
    have "cl_asset_key c = cl_asset_key w" using win(8) w(3) assms(6) by (simp add: replay_result_def)
    moreover obtain w' where "w' \<in> set (db_claims d2)" "cl_asset_key w' = cl_asset_key w" "won (cl_status w')"
      using claims_system.run_wins [OF assms(4) inv1] w(1,2) by (auto simp: wins_kept_def)
    moreover have "a \<in> set (db_assets d2)" "as_asset_key a = cl_asset_key c" using row_find_Some [OF win(4)] by simp_all
    ultimately have False
      using claims_inv_none_won [of "db_claims d2" "db_assets d2" a w'] inv2 win(5) by (simp add: db_inv_def)
    then show ?thesis ..
  qed
qed

text \<open>What an update of one row leaves of another claim.\<close>

lemma bounded_change_confirmed:
  assumes "bounded_change d d'" and "find_claim d cid = Some c" and "cl_status c = Confirmed"
  shows "find_claim d' cid = Some c"
proof -
  consider "db_claims d' = db_claims d"
    | i x f where "find_claim d i = Some x" "cl_status x \<noteq> Confirmed"
      "db_claims d' = row_update cl_claim_id i f (db_claims d)" "\<And>c. cl_claim_id (f c) = cl_claim_id c"
    using assms(1) unfolding bounded_change_def by blast
  then show ?thesis
  proof cases
    case (2 i x f)
    then have "i \<noteq> cid" using assms(2,3) by auto
    with 2 assms(2) show ?thesis by (simp add: row_find_update)
  qed (use assms(2) in simp)
qed

lemma reservation_change_confirmed:
  "reservation_change d d' \<Longrightarrow> find_claim d cid = Some c \<Longrightarrow> cl_status c = Confirmed \<Longrightarrow> find_claim d' cid = Some c"
  using reservation_change_row [of d d' cid c] reserved_like_moved by fastforce

lemma service_step_settled:
  assumes "service_step E d d'" and "db_inv d" and "find_claim d cid = Some c" and "cl_status c \<noteq> Claiming"
  shows "find_claim d' cid = Some c"
proof -
  note mem = find_claim_mem [OF assms(3)]
  have ids: "distinct (map cl_claim_id (db_claims d))" using assms(2) by (simp add: db_inv_def claims_inv_def)
  have other: "cl_claim_id x \<noteq> cid" if "x \<in> set (db_claims d)" "cl_status x = Claiming" for x
    using row_unique [OF ids that(1) conjunct1 [OF mem]] mem that(2) assms(4) by auto
  show ?thesis using assms(1)
  proof (cases rule: service_step.cases)
    case (step_initiate x now e)
    then show ?thesis using assms(3) by (simp add: row_find_append)
  next
    case (step_reject x now code reason)
    then show ?thesis using other [of x] assms(3) by (simp add: rejectClaim_def row_find_update)
  next
    case (step_expire x now)
    then show ?thesis using other [of x] assms(3) by (simp add: expireClaim_def row_find_update)
  next
    case (step_reap now x)
    then show ?thesis using assms(3,4)
      by (cases "cl_claim_id x = cid") (simp_all add: reap_row_def row_find_update)
  next
    case (step_win x now a pf st ast e sl settlement)
    then show ?thesis using other [of x] assms(3) by (simp add: won_row_def row_find_update)
  qed
qed

text \<open>
  C9. Confirmed is final: a confirmed claim's row is never changed again by any transaction of the
  service, of dispatch or of the ANT operator - not by a late failure report, a needs-operator freeze, a review route,
  an approval or the reaper - and its asset stays \<open>claimed\<close>.
\<close>

theorem confirmed_is_final:
  assumes "db_inv d" and "find_claim d cid = Some c" and "cl_status c = Confirmed"
    and "(system_step E)\<^sup>*\<^sup>* d d'"
  shows "find_claim d' cid = Some c
     \<and> assets_table.status_of (db_assets d') (cl_asset_key c) = Some A_claimed"
  using assms(4)
proof (induction rule: rtranclp_induct)
  case base
  note mem = find_claim_mem [OF assms(2)]
  obtain a where a: "a \<in> set (db_assets d)" "holds_asset c a"
    using assms(1,3) mem by (auto simp: db_inv_def claims_inv_def)
  then have "find_asset d (cl_asset_key c) = Some a"
    using row_find_distinct [of as_asset_key "db_assets d" a] assms(1)
    by (simp add: db_inv_def claims_inv_def holds_asset_def)
  with a assms(2,3) show ?case by (simp add: assets_table.status_of_def holds_asset_def)
next
  case (step d1 d2)
  have inv: "db_inv d1" using claims_system.run_inv [OF step(1) assms(1)] .
  have c: "find_claim d2 cid = Some c"
    using step(2) inv
    by (cases rule: system_step_cases)
      (use step.IH inv assms(3) in \<open>auto intro: service_step_settled bounded_change_confirmed reservation_change_confirmed\<close>)
  have inv2: "db_inv d2" using claims_system.step_inv [OF inv step(2)] .
  obtain a where a: "a \<in> set (db_assets d2)" "holds_asset c a"
    using inv2 assms(3) find_claim_mem [OF c] by (auto simp: db_inv_def claims_inv_def)
  then have "find_asset d2 (cl_asset_key c) = Some a"
    using row_find_distinct [of as_asset_key "db_assets d2" a] inv2
    by (simp add: db_inv_def claims_inv_def holds_asset_def)
  with a c assms(3) show ?case by (simp add: assets_table.status_of_def holds_asset_def)
qed

text \<open>
  The write before the send: \<open>persistDispatching\<close> answers true exactly when the claim is still
  verified, or approved in review, and the asset is still held for it; then the committed row is
  \<open>dispatching\<close> with the new signature recorded, both as the current one and in the history. When it
  answers false it has changed nothing, and the caller sends nothing.
\<close>

theorem persist_records_before_send:
  "(fst (persistDispatching E now A d) \<longleftrightarrow>
      (\<exists>c a. find_claim d (pa_claimId A) = Some c \<and> find_asset d (pa_assetKey A) = Some a
        \<and> (cl_status c = Verified \<or> cl_status c = PendingReview \<and> cl_approved_at c \<noteq> None)
        \<and> as_status a \<in> {A_claiming, A_pending_review}))
   \<and> (if fst (persistDispatching E now A d)
      then \<exists>c c'. find_claim d (pa_claimId A) = Some c
        \<and> find_claim (snd (persistDispatching E now A d)) (pa_claimId A) = Some c'
        \<and> cl_status c' = Dispatching
        \<and> cl_dispatch_signature c' = Some (sd_signature (pa_signed A))
        \<and> cl_tx_signatures c' = cl_tx_signatures c @ [sd_signature (pa_signed A)]
        \<and> assets_table.status_of (db_assets (snd (persistDispatching E now A d))) (pa_assetKey A)
            = Some A_claiming
      else snd (persistDispatching E now A d) = d)"
proof (cases "find_claim d (pa_claimId A)")
  case None
  then show ?thesis by (simp add: persistDispatching_def)
next
  case c: (Some c)
  show ?thesis
  proof (cases "find_asset d (pa_assetKey A)")
    case None
    with c show ?thesis by (simp add: persistDispatching_def)
  next
    case a: (Some a)
    show ?thesis
      by (cases "canDispatch c"; cases "as_status a = A_claiming \<or> as_status a = A_pending_review")
        (use c a in \<open>auto simp: persistDispatching_def canDispatch_def row_find_update dispatching_row_def
            set_claim_status_def assets_table.status_of_def\<close>)
  qed
qed

section \<open>Witnesses\<close>

theorem asset_won_once_witness:
  "\<exists>d r d1 r'. completeClaim demo_env 5 demo_complete d = (Inr r, d1) \<and> \<not> cr_idempotentReplay r
     \<and> completeClaim demo_env 6 demo_complete d1 = (Inr r', d1) \<and> cr_idempotentReplay r'
     \<and> cr_claimId r' = cr_claimId r"
proof -
  obtain k m r d' where d: "db_inv (demo_db1 k m)"
    "completeClaim demo_env 5 demo_complete (demo_db1 k m) = (Inr r, d')" "\<not> cr_idempotentReplay r"
    using demo_run by metis
  note again = completion_repeats [OF d(1,2), of 6]
  have "cr_assetKey (r\<lparr>cr_idempotentReplay := True\<rparr>) = cr_assetKey r" by simp
  from asset_won_once [OF d(1,2,3) rtranclp.rtrancl_refl again this] d again show ?thesis by metis
qed

definition demo_confirmed :: db where
  "demo_confirmed = (demo_db ''a'')\<lparr>db_claims := [(demo_claim ''a'' [])\<lparr>cl_status := Confirmed\<rparr>],
     db_assets := [(demo_asset_row ''a'')\<lparr>as_status := A_claimed\<rparr>]\<rparr>"

theorem confirmed_is_final_witness:
  "\<exists>c. find_claim (markFailed demo_env 9 ''c1'' ''late'' demo_confirmed) ''c1'' = Some c \<and> cl_status c = Confirmed"
proof -
  let ?c = "(demo_claim ''a'' [])\<lparr>cl_status := Confirmed\<rparr>"
  have inv: "db_inv demo_confirmed"
    by (simp add: db_inv_def claims_inv_def demo_confirmed_def demo_db_def holds_asset_def demo_claim_def
        new_claim_row_def demo_asset_row_def)
  have f: "find_claim demo_confirmed ''c1'' = Some ?c"
    by (simp add: demo_confirmed_def row_find_def demo_claim_def new_claim_row_def)
  have s: "cl_status ?c = Confirmed" by simp
  have "dispatch_step demo_env demo_confirmed (markFailed demo_env 9 ''c1'' ''late'' demo_confirmed)"
    by (rule step_failed [OF f]) simp
  then have "(system_step demo_env)\<^sup>*\<^sup>* demo_confirmed (markFailed demo_env 9 ''c1'' ''late'' demo_confirmed)"
    by (simp add: system_step_def r_into_rtranclp)
  from confirmed_is_final [OF inv f s this] s show ?thesis by blast
qed

section \<open>Everything is audited\<close>

definition one_row :: "'k service_env \<Rightarrow> db \<Rightarrow> db \<Rightarrow> bool" where
  "one_row E d d' = (d' = d \<or> (\<exists>now e. db_audit d' =
      appendAudit (vq_sha (se_prims E)) (se_signer E) (iso_string now) e (db_audit d)))"

lemma one_rowI:
  "db_audit x = db_audit d \<Longrightarrow> one_row E d (append_audit E now e x)"
  by (auto simp: one_row_def append_audit_def)

lemma one_row_refl: "one_row E d d" by (simp add: one_row_def)

lemma service_step_audited: "service_step E d d' \<Longrightarrow> one_row E d d'"
  by (erule service_step.cases)
    (auto simp: rejectClaim_def expireClaim_def reap_row_def intro: one_rowI)

lemma dispatch_step_audited: "dispatch_step E d d' \<Longrightarrow> one_row E d d'"
  by (erule dispatch_step.cases)
    (auto simp: persistDispatching_def finalizeConfirmed_def markFailed_def markNeedsOperator_def
      clearDeadSignature_def routeToReview_def routeToManualVaultDelivery_def approveClaim_def Let_def
      split: option.split intro!: one_rowI one_row_refl)

text \<open>
  Two writes of the operator are not audited: freeing stale reservations and advancing a batch header.
  They leave everything but the reservation columns and the headers.
\<close>

definition same_but_reservations :: "db \<Rightarrow> db \<Rightarrow> bool" where
  "same_but_reservations d d' \<longleftrightarrow> map clear_reservation (db_claims d') = map clear_reservation (db_claims d)
     \<and> db_assets d' = db_assets d \<and> db_recipients d' = db_recipients d \<and> db_audit d' = db_audit d"

lemma clear_reservation_idem [simp]: "clear_reservation (clear_reservation r) = clear_reservation r"
  by (simp add: clear_reservation_def)

lemma build_tx_audited: "one_row E d (snd (build_tx E now batchId cold mk d))"
proof (cases "fold_result (build_step mk d) (batch_rows batchId d) (d, [], [])")
  case (Inr s)
  have "db_audit (fst s) = db_audit d"
    by (rule fold_result_inv [OF Inr, where J = "\<lambda>s. db_audit (fst s) = db_audit d"])
      (auto simp: build_step_def and_then_Inr split: sum.splits)
  with Inr show ?thesis by (cases s) (simp add: build_tx_def one_rowI)
qed (simp add: build_tx_def one_row_refl)

lemma operator_step_audited:
  "operator_step E d d' \<Longrightarrow> one_row E d d' \<or> same_but_reservations d d'"
  by (erule operator_step.cases)
    (auto simp: build_tx_audited expireStaleReservations_def reserve_tx_def releaseAntBatch_def
      releaseReservationForRebuild_def advance_batch_def writeSubmitAudit_def same_but_reservations_def
      update_rows_def update_batches_def Let_def
      split: option.split intro!: one_rowI one_row_refl)

lemma appendAudit_length: "length (appendAudit sha signer ts e rows) = Suc (length rows)"
  using appendAudit_prefix [of sha signer ts e rows] by auto

text \<open>
  C10. Nothing happens unaudited: along any run of transactions of the service, of dispatch and of the
  ANT operator, the audit log stays a valid chain, the rows it had stay in front, and if it has not
  grown then nothing has changed but reservation columns and batch headers. The hypothesis is that the configured signer's signatures verify.
\<close>

theorem runs_are_audited:
  assumes "cv_ok (verifyAuditChain (vq_sha (se_prims E)) edv (db_audit d) pub None)"
    and "case se_signer E of None \<Rightarrow> True | Some sign \<Rightarrow>
           (\<forall>h. \<forall>k. pub = Some k \<longrightarrow> verifyEd25519 edv h (sign h) k)"
    and "(system_step E)\<^sup>*\<^sup>* d d'"
  shows "cv_ok (verifyAuditChain (vq_sha (se_prims E)) edv (db_audit d') pub None)
     \<and> take (length (db_audit d)) (db_audit d') = db_audit d
     \<and> (length (db_audit d') = length (db_audit d) \<longrightarrow> same_but_reservations d d')"
  using assms(3)
proof (induction rule: rtranclp_induct)
  case base
  then show ?case using assms(1) by (simp add: same_but_reservations_def)
next
  case (step d1 d2)
  have le: "length (db_audit d) \<le> length (db_audit d1)"
    using step.IH by (metis length_take min.cobounded2 min.commute)
  have "one_row E d1 d2 \<or> same_but_reservations d1 d2"
    using step(2) service_step_audited dispatch_step_audited operator_step_audited
    unfolding system_step_def by blast
  then consider "d2 = d1" | "same_but_reservations d1 d2" | now e where "db_audit d2 =
      appendAudit (vq_sha (se_prims E)) (se_signer E) (iso_string now) e (db_audit d1)"
    unfolding one_row_def by blast
  then show ?case
  proof cases
    case 2
    with step.IH show ?thesis by (simp add: same_but_reservations_def)
  next
    case (3 now e)
    obtain r where r: "db_audit d2 = db_audit d1 @ [r]" using 3 appendAudit_prefix by metis
    have "cv_ok (verifyAuditChain (vq_sha (se_prims E)) edv (db_audit d2) pub None)"
      using appendAudit_valid [OF _ assms(2)] step.IH 3 by (simp add: verifyAuditChain_ok)
    with step.IH le r show ?thesis by simp
  qed (use step.IH in simp)
qed

theorem runs_are_audited_witness:
  "\<exists>d'. (system_step demo_env)\<^sup>*\<^sup>* (demo_db1 ''a'' []) d' \<and> length (db_audit d') = 1
     \<and> cv_ok (verifyAuditChain (vq_sha (se_prims demo_env)) demo_edv (db_audit d') None None)"
proof -
  let ?d = "demo_db1 ''a'' []"
  let ?d' = "reap_row demo_env 9 (demo_claim ''a'' []) ?d"
  have e: "cv_ok (verifyAuditChain (vq_sha (se_prims demo_env)) demo_edv (db_audit ?d) None None)"
    by (simp add: demo_db_def verifyAuditChain_ok)
  have s: "case se_signer demo_env of None \<Rightarrow> True | Some sign \<Rightarrow>
      (\<forall>h. \<forall>k. None = Some k \<longrightarrow> verifyEd25519 demo_edv h (sign h) k)" by (simp add: demo_env_def)
  have "service_step demo_env ?d ?d'" by (rule step_reap)
  then have r: "(system_step demo_env)\<^sup>*\<^sup>* ?d ?d'" by (simp add: system_step_def r_into_rtranclp)
  have "length (db_audit ?d') = 1"
    by (simp add: reap_row_def append_audit_def appendAudit_length demo_db_def)
  with runs_are_audited [OF e s r] r show ?thesis by blast
qed

end
