(* ===== verification/Instructions.thy ===== *)
theory Instructions
  imports Chain_Gateway
begin

text \<open>
  The instruction builders of dispatch (\<open>dispatch/instructions.ts\<close>, \<open>dispatch/vault-relock.ts\<close>): the
  accounts, their roles and the data bytes of every instruction the worker signs. The address codec,
  the \<open>u64\<close> codec and the PDA derivation of \<open>@solana/kit\<close> and SHA-256 are the fields of \<open>kit\<close>; what
  the code relies on of them is the locale \<open>kit_codecs\<close>.
\<close>

section \<open>The kit\<close>

text \<open>
  \<open>k_valid\<close> says for which strings \<open>address\<close> does not throw.
\<close>

record kit =
  k_valid :: "string \<Rightarrow> bool"
  k_encodeAddress :: "string \<Rightarrow> bytes"
  k_decodeAddress :: "bytes \<Rightarrow> string"
  k_u64_encode :: "int \<Rightarrow> bytes"
  k_u64_decode :: "bytes \<Rightarrow> int"
  k_pda :: "string \<Rightarrow> bytes list \<Rightarrow> string"
  k_sha256 :: "bytes \<Rightarrow> bytes"

definition U64_MAX :: int where "U64_MAX = 18446744073709551615"

locale kit_codecs =
  fixes K :: kit
  assumes u64_law: "0 \<le> n \<Longrightarrow> n \<le> U64_MAX \<Longrightarrow> k_u64_encode K n = le_bytes 8 (nat n)"
    and u64_decode_law: "length bs = 8 \<Longrightarrow> k_u64_decode K bs = int (le_value bs)"
    and address_length: "k_valid K a \<Longrightarrow> length (k_encodeAddress K a) = 32"
    and address_round: "k_valid K a \<Longrightarrow> k_decodeAddress K (k_encodeAddress K a) = a"
    and sha_length: "length (k_sha256 K bs) = 32"

definition address :: "kit \<Rightarrow> string \<Rightarrow> string + string" where
  "address K s = (if k_valid K s then Inr s else Inl (''not a valid address: '' @ s))"

datatype account_role = READONLY | WRITABLE | READONLY_SIGNER | WRITABLE_SIGNER

record instruction =
  ix_programAddress :: string
  ix_accounts :: "(string \<times> account_role) list"
  ix_data :: bytes

section \<open>Program addresses\<close>

definition SYSTEM_PROGRAM :: string where
  "SYSTEM_PROGRAM = ''11111111111111111111111111111111''"

definition TOKEN_PROGRAM :: string where
  "TOKEN_PROGRAM = ''TokenkegQfeZyiNwAJbNbGKPFXCWuBvf9Ss623VQ5DA''"

definition ASSOCIATED_TOKEN_PROGRAM :: string where
  "ASSOCIATED_TOKEN_PROGRAM = ''ATokenGPvbdGVxr1b2hvZbsiqW5xWH25efTNsLJA8knL''"

definition MPL_CORE_PROGRAM :: string where
  "MPL_CORE_PROGRAM = ''CoREENxT6tW1HoK8ypY1SxRMZTcVPm7R94rH4PZNhX7d''"

definition MEMO_PROGRAM :: string where
  "MEMO_PROGRAM = ''Memo1UhkJRfHyvLMcVucJwxXeuD728EqVDDwQDxFMNo''"

definition anchorDiscriminator :: "kit \<Rightarrow> string \<Rightarrow> bytes" where
  "anchorDiscriminator K name = take 8 (k_sha256 K (utf8_encode (''global:'' @ name)))"

section \<open>SPL token\<close>

definition getAssociatedTokenAddress :: "kit \<Rightarrow> string \<Rightarrow> string \<Rightarrow> string" where
  "getAssociatedTokenAddress K owner mint =
     k_pda K ASSOCIATED_TOKEN_PROGRAM
       [k_encodeAddress K owner, k_encodeAddress K TOKEN_PROGRAM, k_encodeAddress K mint]"

definition createAtaIdempotentIx :: "string \<Rightarrow> string \<Rightarrow> string \<Rightarrow> string \<Rightarrow> instruction" where
  "createAtaIdempotentIx payer ata owner mint =
     \<lparr>ix_programAddress = ASSOCIATED_TOKEN_PROGRAM,
      ix_accounts = [(payer, WRITABLE_SIGNER), (ata, WRITABLE), (owner, READONLY), (mint, READONLY),
        (SYSTEM_PROGRAM, READONLY), (TOKEN_PROGRAM, READONLY)],
      ix_data = [1]\<rparr>"

definition transferTokensIx ::
  "kit \<Rightarrow> string \<Rightarrow> string \<Rightarrow> string \<Rightarrow> int \<Rightarrow> string + instruction" where
  "transferTokensIx K source destination authority amount =
     (if amount < 0 \<or> amount > U64_MAX
      then Inl (''transfer amount out of u64 range: '' @ dec_int amount)
      else Inr
        \<lparr>ix_programAddress = TOKEN_PROGRAM,
         ix_accounts = [(source, WRITABLE), (destination, WRITABLE), (authority, READONLY_SIGNER)],
         ix_data = 3 # k_u64_encode K amount\<rparr>)"

section \<open>MPL Core\<close>

definition mplCoreTransferV1Ix :: "string \<Rightarrow> string \<Rightarrow> string \<Rightarrow> string \<Rightarrow> instruction" where
  "mplCoreTransferV1Ix asset payer authority newOwner =
     \<lparr>ix_programAddress = MPL_CORE_PROGRAM,
      ix_accounts = [(asset, WRITABLE), (MPL_CORE_PROGRAM, READONLY), (payer, WRITABLE_SIGNER),
        (authority, READONLY_SIGNER), (newOwner, READONLY), (SYSTEM_PROGRAM, READONLY),
        (MPL_CORE_PROGRAM, READONLY)],
      ix_data = [14, 0]\<rparr>"

definition mplCoreUpdateAuthorityIx ::
  "kit \<Rightarrow> string \<Rightarrow> string \<Rightarrow> string \<Rightarrow> string \<Rightarrow> instruction" where
  "mplCoreUpdateAuthorityIx K asset payer authority newAuthority =
     \<lparr>ix_programAddress = MPL_CORE_PROGRAM,
      ix_accounts = [(asset, WRITABLE), (MPL_CORE_PROGRAM, READONLY), (payer, WRITABLE_SIGNER),
        (authority, READONLY_SIGNER), (SYSTEM_PROGRAM, READONLY), (MPL_CORE_PROGRAM, READONLY)],
      ix_data = [15, 0, 0, 1, 1] @ k_encodeAddress K newAuthority\<rparr>"

section \<open>ario-core vaults\<close>

definition CONFIG_SEED :: bytes where "CONFIG_SEED = utf8_encode ''ario_config''"
definition VAULT_COUNTER_SEED :: bytes where "VAULT_COUNTER_SEED = utf8_encode ''vault_counter''"
definition VAULT_SEED :: bytes where "VAULT_SEED = utf8_encode ''vault''"

definition deriveArioConfig :: "kit \<Rightarrow> string \<Rightarrow> string" where
  "deriveArioConfig K arioCoreProgram = k_pda K arioCoreProgram [CONFIG_SEED]"

definition deriveVaultCounter :: "kit \<Rightarrow> string \<Rightarrow> string \<Rightarrow> string" where
  "deriveVaultCounter K arioCoreProgram recipient =
     k_pda K arioCoreProgram [VAULT_COUNTER_SEED, k_encodeAddress K recipient]"

definition deriveVault :: "kit \<Rightarrow> string \<Rightarrow> string \<Rightarrow> int \<Rightarrow> string" where
  "deriveVault K arioCoreProgram recipient nextId =
     k_pda K arioCoreProgram [VAULT_SEED, k_encodeAddress K recipient, k_u64_encode K nextId]"

definition encodeVaultedTransferData :: "kit \<Rightarrow> int \<Rightarrow> int \<Rightarrow> bool \<Rightarrow> string + bytes" where
  "encodeVaultedTransferData K amount lockDurationSeconds revocable =
     (if amount \<le> 0 \<or> amount > U64_MAX then Inl (''vault amount out of range: '' @ dec_int amount)
      else Inr (anchorDiscriminator K ''vaulted_transfer'' @ k_u64_encode K amount
                @ i64_bytes lockDurationSeconds @ [if revocable then 1 else 0]))"

record vaulted_transfer_args =
  vt_arioCoreProgram :: string
  vt_config :: string
  vt_recipientVaultCounter :: string
  vt_vault :: string
  vt_senderTokenAccount :: string
  vt_vaultTokenAccount :: string
  vt_recipient :: string
  vt_sender :: string
  vt_amount :: int
  vt_lockDurationSeconds :: int

definition vaultedTransferIx :: "kit \<Rightarrow> vaulted_transfer_args \<Rightarrow> string + instruction" where
  "vaultedTransferIx K A =
     and_then (encodeVaultedTransferData K (vt_amount A) (vt_lockDurationSeconds A) False) (\<lambda>bs.
       Inr \<lparr>ix_programAddress = vt_arioCoreProgram A,
            ix_accounts = [(vt_config A, WRITABLE), (vt_recipientVaultCounter A, WRITABLE),
              (vt_vault A, WRITABLE), (vt_senderTokenAccount A, WRITABLE),
              (vt_vaultTokenAccount A, WRITABLE), (vt_recipient A, READONLY),
              (vt_sender A, WRITABLE_SIGNER), (TOKEN_PROGRAM, READONLY), (SYSTEM_PROGRAM, READONLY)],
            ix_data = bs\<rparr>)"

definition claim_memo :: "string \<Rightarrow> string" where
  "claim_memo claimId = ''ar.io-claim:'' @ claimId"

definition claimMemoIx :: "string \<Rightarrow> instruction" where
  "claimMemoIx claimId =
     \<lparr>ix_programAddress = MEMO_PROGRAM, ix_accounts = [], ix_data = utf8_encode (claim_memo claimId)\<rparr>"

section \<open>The re-lock delivery\<close>

text \<open>A missing or short counter account counts as 0.\<close>

definition decodeVaultCounterNextId :: "kit \<Rightarrow> bytes option \<Rightarrow> int" where
  "decodeVaultCounterNextId K d = (case d of
     None \<Rightarrow> 0
   | Some bs \<Rightarrow> if length bs < 48 then 0 else k_u64_decode K (take 8 (drop 40 bs)))"

record vault_account =
  va_owner :: string
  va_vaultId :: int
  va_amount :: int
  va_endTimestamp :: int

text \<open>\<open>None\<close> when a read runs past the end of the account, where \<open>DataView\<close> throws.\<close>

definition decodeVault :: "kit \<Rightarrow> bytes \<Rightarrow> vault_account option" where
  "decodeVault K bs =
     (if length bs < 72 then None
      else Some \<lparr>va_owner = k_decodeAddress K (take 32 (drop 8 bs)),
                 va_vaultId = k_u64_decode K (take 8 (drop 40 bs)),
                 va_amount = k_u64_decode K (take 8 (drop 48 bs)),
                 va_endTimestamp = i64_value (take 8 (drop 64 bs))\<rparr>)"

record relock_args =
  rl_arioCoreProgram :: string
  rl_mint :: string
  rl_sender :: string
  rl_claimant :: string
  rl_amount :: int
  rl_lockDurationSeconds :: int
  rl_memoIxs :: "instruction list"

record relock_build =
  rb_ixs :: "instruction list"
  rb_vault :: string
  rb_vaultAta :: string
  rb_nextId :: int

definition relock_instructions ::
  "kit \<Rightarrow> relock_args \<Rightarrow> int \<Rightarrow> string + relock_build" where
  "relock_instructions K A nextId =
     (let config = deriveArioConfig K (rl_arioCoreProgram A);
          vaultCounter = deriveVaultCounter K (rl_arioCoreProgram A) (rl_claimant A);
          vault = deriveVault K (rl_arioCoreProgram A) (rl_claimant A) nextId;
          vaultAta = getAssociatedTokenAddress K vault (rl_mint A);
          hotAta = getAssociatedTokenAddress K (rl_sender A) (rl_mint A)
      in and_then (vaultedTransferIx K
           \<lparr>vt_arioCoreProgram = rl_arioCoreProgram A, vt_config = config,
            vt_recipientVaultCounter = vaultCounter, vt_vault = vault, vt_senderTokenAccount = hotAta,
            vt_vaultTokenAccount = vaultAta, vt_recipient = rl_claimant A, vt_sender = rl_sender A,
            vt_amount = rl_amount A, vt_lockDurationSeconds = rl_lockDurationSeconds A\<rparr>) (\<lambda>ix.
         Inr \<lparr>rb_ixs = createAtaIdempotentIx (rl_sender A) vaultAta vault (rl_mint A) # ix # rl_memoIxs A,
              rb_vault = vault, rb_vaultAta = vaultAta, rb_nextId = nextId\<rparr>))"

definition buildVaultRelockIxs ::
  "kit \<Rightarrow> (string \<Rightarrow> ('w, bytes option) io) \<Rightarrow> relock_args \<Rightarrow> ('w, relock_build) io" where
  "buildVaultRelockIxs K readAccount A =
     io_bind (readAccount (deriveVaultCounter K (rl_arioCoreProgram A) (rl_claimant A))) (\<lambda>counter w.
       (relock_instructions K A (decodeVaultCounterNextId K counter), w))"

section \<open>A concrete kit\<close>

definition demo_kit :: kit where
  "demo_kit = \<lparr>k_valid = (\<lambda>a. length a = 32),
     k_encodeAddress = map of_char,
     k_decodeAddress = map (\<lambda>b. char_of (unat b)),
     k_u64_encode = (\<lambda>n. le_bytes 8 (nat n)), k_u64_decode = (\<lambda>bs. int (le_value bs)),
     k_pda = (\<lambda>p seeds. take 4 p @ hex_encode (concat (map (take 2) seeds))),
     k_sha256 = (\<lambda>bs. replicate 32 (of_nat (length bs)))\<rparr>"

lemma char_of_byte: "char_of (unat (of_char c :: byte)) = c"
proof -
  have "unat (of_char c :: byte) = of_char c"
    using of_char_less [of c] by (metis of_nat_of_char unat_small)
  then show ?thesis by simp
qed

interpretation demo_codecs: kit_codecs demo_kit
  by unfold_locales (simp_all add: demo_kit_def char_of_byte comp_def)

section \<open>What an instruction does\<close>

text \<open>
  The reading of an instruction by the programs it is for: an SPL transfer (tag 3 and a \<open>u64\<close>), the
  MPL Core transfer and update of the authority, and a \<open>vaulted_transfer\<close> of ario-core, \<open>core\<close>.
  Creating a token account and a memo move nothing.
\<close>

datatype effect =
    PayTokens string string int
  | GiveAsset string string
  | SetAuthority string string
  | LockTokens string string string int int bool

definition ix_effect :: "kit \<Rightarrow> string option \<Rightarrow> instruction \<Rightarrow> effect option" where
  "ix_effect K core ix =
     (let acc = map fst (ix_accounts ix); bs = ix_data ix; p = ix_programAddress ix in
      if p = TOKEN_PROGRAM \<and> length bs = 9 \<and> hd bs = 3 \<and> length acc = 3
      then Some (PayTokens (acc ! 0) (acc ! 1) (int (le_value (tl bs))))
      else if p = MPL_CORE_PROGRAM \<and> bs = [14, 0] \<and> length acc = 7 then Some (GiveAsset (acc ! 0) (acc ! 4))
      else if p = MPL_CORE_PROGRAM \<and> take 5 bs = [15, 0, 0, 1, 1] \<and> length bs = 37 \<and> length acc = 6
      then Some (SetAuthority (acc ! 0) (k_decodeAddress K (drop 5 bs)))
      else if Some p = core \<and> take 8 bs = anchorDiscriminator K ''vaulted_transfer'' \<and> length bs = 25 \<and> length acc = 9
      then Some (LockTokens (acc ! 3) (acc ! 2) (acc ! 5) (int (le_value (take 8 (drop 8 bs))))
             (i64_value (take 8 (drop 16 bs))) (bs ! 24 \<noteq> 0))
      else None)"

definition effects :: "kit \<Rightarrow> string option \<Rightarrow> instruction list \<Rightarrow> effect list" where
  "effects K core ixs = List.map_filter (ix_effect K core) ixs"

lemma effects_simps [simp]:
  "effects K core [] = []"
  "effects K core (ix # ixs) = (case ix_effect K core ix of None \<Rightarrow> effects K core ixs | Some e \<Rightarrow> e # effects K core ixs)"
  "effects K core (xs @ ys) = effects K core xs @ effects K core ys"
  by (simp_all add: effects_def List.map_filter_def split: option.split)

definition own_programs :: "string set" where
  "own_programs = {SYSTEM_PROGRAM, TOKEN_PROGRAM, ASSOCIATED_TOKEN_PROGRAM, MPL_CORE_PROGRAM, MEMO_PROGRAM}"

lemma program_ids_distinct:
  "TOKEN_PROGRAM \<noteq> ASSOCIATED_TOKEN_PROGRAM" "TOKEN_PROGRAM \<noteq> MPL_CORE_PROGRAM" "TOKEN_PROGRAM \<noteq> MEMO_PROGRAM"
  "MPL_CORE_PROGRAM \<noteq> ASSOCIATED_TOKEN_PROGRAM" "MPL_CORE_PROGRAM \<noteq> MEMO_PROGRAM" "MPL_CORE_PROGRAM \<noteq> TOKEN_PROGRAM"
  "ASSOCIATED_TOKEN_PROGRAM \<noteq> TOKEN_PROGRAM" "ASSOCIATED_TOKEN_PROGRAM \<noteq> MPL_CORE_PROGRAM"
  "MEMO_PROGRAM \<noteq> TOKEN_PROGRAM" "MEMO_PROGRAM \<noteq> MPL_CORE_PROGRAM"
  by (simp_all add: TOKEN_PROGRAM_def ASSOCIATED_TOKEN_PROGRAM_def MPL_CORE_PROGRAM_def MEMO_PROGRAM_def)

lemma core_not_own:
  assumes "\<forall>p. core = Some p \<longrightarrow> p \<notin> own_programs"
  shows "Some TOKEN_PROGRAM \<noteq> core" "Some ASSOCIATED_TOKEN_PROGRAM \<noteq> core" "Some MPL_CORE_PROGRAM \<noteq> core"
    "Some MEMO_PROGRAM \<noteq> core"
  using assms by (auto simp: own_programs_def)

context kit_codecs begin

lemma effect_ata:
  "\<forall>p. core = Some p \<longrightarrow> p \<notin> own_programs \<Longrightarrow> ix_effect K core (createAtaIdempotentIx payer ata owner mint) = None"
  by (simp add: ix_effect_def createAtaIdempotentIx_def program_ids_distinct core_not_own)

lemma effect_memo:
  "\<forall>p. core = Some p \<longrightarrow> p \<notin> own_programs \<Longrightarrow> ix_effect K core (claimMemoIx cid) = None"
  by (simp add: ix_effect_def claimMemoIx_def program_ids_distinct core_not_own)

lemma effect_transfer:
  assumes "transferTokensIx K source dest auth n = Inr ix"
  shows "ix_effect K core ix = Some (PayTokens source dest n)"
proof -
  have n: "0 \<le> n" "n \<le> U64_MAX" using assms by (auto simp: transferTokensIx_def split: if_splits)
  have "le_value (le_bytes 8 (nat n)) = nat n" by (rule le_value_bytes) (use n in \<open>simp add: U64_MAX_def nat_less_iff\<close>)
  then show ?thesis using assms n
    by (auto simp: transferTokensIx_def ix_effect_def u64_law split: if_splits)
qed

lemma effect_give: "ix_effect K core (mplCoreTransferV1Ix asset payer auth owner) = Some (GiveAsset asset owner)"
  by (simp add: ix_effect_def mplCoreTransferV1Ix_def program_ids_distinct)

lemma effect_authority:
  assumes "k_valid K owner"
  shows "ix_effect K core (mplCoreUpdateAuthorityIx K asset payer auth owner) = Some (SetAuthority asset owner)"
  using address_length [OF assms] address_round [OF assms]
  by (simp add: ix_effect_def mplCoreUpdateAuthorityIx_def program_ids_distinct)

lemma effect_vaulted:
  assumes "vaultedTransferIx K A = Inr ix" and "core = Some (vt_arioCoreProgram A)"
    and "vt_arioCoreProgram A \<notin> own_programs"
    and "- (2 ^ 63) \<le> vt_lockDurationSeconds A" and "vt_lockDurationSeconds A < 2 ^ 63"
  shows "ix_effect K core ix = Some (LockTokens (vt_senderTokenAccount A) (vt_vault A) (vt_recipient A)
     (vt_amount A) (vt_lockDurationSeconds A) False)"
proof -
  have n: "0 < vt_amount A" "vt_amount A \<le> U64_MAX" using assms(1)
    by (auto simp: vaultedTransferIx_def encodeVaultedTransferData_def split: if_splits)
  have v: "le_value (le_bytes 8 (nat (vt_amount A))) = nat (vt_amount A)"
    by (rule le_value_bytes) (use n in \<open>simp add: U64_MAX_def nat_less_iff\<close>)
  have disc: "length (anchorDiscriminator K ''vaulted_transfer'') = 8"
    by (simp add: anchorDiscriminator_def sha_length)
  have ix: "ix = \<lparr>ix_programAddress = vt_arioCoreProgram A,
     ix_accounts = [(vt_config A, WRITABLE), (vt_recipientVaultCounter A, WRITABLE),
              (vt_vault A, WRITABLE), (vt_senderTokenAccount A, WRITABLE),
              (vt_vaultTokenAccount A, WRITABLE), (vt_recipient A, READONLY),
              (vt_sender A, WRITABLE_SIGNER), (TOKEN_PROGRAM, READONLY), (SYSTEM_PROGRAM, READONLY)],
     ix_data = anchorDiscriminator K ''vaulted_transfer'' @ le_bytes 8 (nat (vt_amount A))
                @ i64_bytes (vt_lockDurationSeconds A) @ [0]\<rparr>"
    using assms(1) n by (simp add: vaultedTransferIx_def encodeVaultedTransferData_def u64_law)
  have p: "vt_arioCoreProgram A \<noteq> TOKEN_PROGRAM" "vt_arioCoreProgram A \<noteq> MPL_CORE_PROGRAM"
    using assms(3) by (auto simp: own_programs_def)
  show ?thesis
    using p disc n v assms(2)
    by (simp add: ix_effect_def ix nth_append i64_value_bytes [OF assms(4,5)])
qed

text \<open>The instructions of a re-lock lock the whole amount for the claimant, and do nothing else.\<close>

lemma effects_relock:
  assumes "relock_instructions K A nextId = Inr b" and "rl_arioCoreProgram A \<notin> own_programs"
    and "effects K (Some (rl_arioCoreProgram A)) (rl_memoIxs A) = []"
    and "- (2 ^ 63) \<le> rl_lockDurationSeconds A" and "rl_lockDurationSeconds A < 2 ^ 63"
  shows "effects K (Some (rl_arioCoreProgram A)) (rb_ixs b) =
     [LockTokens (getAssociatedTokenAddress K (rl_sender A) (rl_mint A)) (rb_vault b) (rl_claimant A)
        (rl_amount A) (rl_lockDurationSeconds A) False]"
proof -
  let ?core = "Some (rl_arioCoreProgram A)"
  have own: "\<forall>p. ?core = Some p \<longrightarrow> p \<notin> own_programs" using assms(2) by simp
  obtain ix V where v: "vaultedTransferIx K V = Inr ix" "vt_arioCoreProgram V = rl_arioCoreProgram A"
    "vt_senderTokenAccount V = getAssociatedTokenAddress K (rl_sender A) (rl_mint A)" "vt_vault V = rb_vault b"
    "vt_recipient V = rl_claimant A" "vt_amount V = rl_amount A" "vt_lockDurationSeconds V = rl_lockDurationSeconds A"
    "rb_ixs b = createAtaIdempotentIx (rl_sender A) (rb_vaultAta b) (rb_vault b) (rl_mint A) # ix # rl_memoIxs A"
    using assms(1) unfolding relock_instructions_def Let_def and_then_Inr by force
  have "ix_effect K ?core ix = Some (LockTokens (vt_senderTokenAccount V) (vt_vault V) (vt_recipient V)
     (vt_amount V) (vt_lockDurationSeconds V) False)"
    by (rule effect_vaulted [OF v(1)]) (use v(2,7) assms(2,4,5) in simp_all)
  then show ?thesis using v assms(3) by (simp add: effect_ata [OF own])
qed

end

end
