(* ===== verification/Dispatch_Worker.thy ===== *)
theory Dispatch_Worker
  imports Dispatch_Core Instructions
begin

text \<open>
  The hot float (\<open>dispatch/float.ts\<close>), the persist-broadcast-confirm core (\<open>dispatchSignedTx\<close> of
  \<open>dispatch/dispatch-core.ts\<close>) and the dispatch worker (\<open>dispatch/worker.ts\<close>). The worker is one
  process; its state is the database and the world behind the gateway. A call that throws, and a
  crash, are a left result: what was committed or sent before stays, and nothing of the rest runs.
  Log and alert sinks are left out.
\<close>

section \<open>Access to the database\<close>

text \<open>
  Between two accesses of the worker other processes run transactions of their own (\<open>ac_others\<close>), and
  an access may fail (\<open>ac_fault\<close>): rolled back, or committed with the answer lost. A failure is also
  how a crash of the worker at that point looks.
\<close>

datatype db_fault = Fine | RolledBack string | CommitLost string

record 'w db_access =
  ac_others :: "'w \<Rightarrow> db \<Rightarrow> db"
  ac_fault :: "'w \<Rightarrow> db_fault \<times> 'w"

type_synonym ('w, 'a) act = "(db \<times> 'w, 'a) io"

definition db_tx :: "'w db_access \<Rightarrow> (db \<Rightarrow> 'a \<times> db) \<Rightarrow> ('w, 'a) act" where
  "db_tx A f s = (let d = ac_others A (snd s) (fst s) in
     case ac_fault A (snd s) of
       (Fine, w) \<Rightarrow> (Inr (fst (f d)), (snd (f d), w))
     | (RolledBack m, w) \<Rightarrow> (Inl m, (d, w))
     | (CommitLost m, w) \<Rightarrow> (Inl m, (snd (f d), w)))"

definition db_read :: "'w db_access \<Rightarrow> (db \<Rightarrow> 'a) \<Rightarrow> ('w, 'a) act" where
  "db_read A g = db_tx A (\<lambda>d. (g d, d))"

definition db_do :: "'w db_access \<Rightarrow> (db \<Rightarrow> db) \<Rightarrow> ('w, unit) act" where
  "db_do A f = db_tx A (\<lambda>d. ((), f d))"

definition chain :: "('w, 'a) io \<Rightarrow> ('w, 'a) act" where
  "chain m s = (case m (snd s) of (r, w) \<Rightarrow> (r, (fst s, w)))"

definition from_result :: "string + 'a \<Rightarrow> ('s, 'a) io" where
  "from_result r s = (r, s)"

definition catch_all :: "('s, 'a) io \<Rightarrow> (string \<Rightarrow> ('s, 'a) io) \<Rightarrow> ('s, 'a) io" where
  "catch_all m h s = (case m s of (Inl e, s') \<Rightarrow> h e s' | (Inr x, s') \<Rightarrow> (Inr x, s'))"

section \<open>The float\<close>

record float_policy =
  fp_capMario :: int
  fp_bigClaimThresholdMario :: int
  fp_refillThresholdMario :: int

record float_status =
  fs_balanceMario :: int
  fs_reservedMario :: int
  fs_availableMario :: int
  fs_capMario :: int
  fs_refillThresholdMario :: int
  fs_refillNeeded :: bool
  fs_overCap :: bool

datatype float_denial = InsufficientFloat int int | ExceedsBrake int int

definition in_flight :: "claim_row \<Rightarrow> bool" where
  "in_flight c = (cl_status c \<in> {Verified, Dispatching})"

definition committed_amount :: "db \<Rightarrow> string list option \<Rightarrow> string option \<Rightarrow> claim_row \<Rightarrow> int" where
  "committed_amount d scope exclude c =
     (case find_asset d (cl_asset_key c) of
        None \<Rightarrow> 0
      | Some a \<Rightarrow>
          if in_flight c \<and> as_asset_type a \<in> {AssetToken, AssetVault}
             \<and> exclude \<noteq> Some (cl_claim_id c)
             \<and> (case scope of None \<Rightarrow> True | Some ks \<Rightarrow> as_asset_key a \<in> set ks)
          then (case cl_settlement_amount c of Some v \<Rightarrow> v
                | None \<Rightarrow> (case as_amount a of Some v \<Rightarrow> v | None \<Rightarrow> 0))
          else 0)"

definition float_reserved :: "string list option \<Rightarrow> string option \<Rightarrow> db \<Rightarrow> int" where
  "float_reserved scope exclude d = sum_list (map (committed_amount d scope exclude) (db_claims d))"

definition float_available :: "int \<Rightarrow> int \<Rightarrow> int" where
  "float_available balance reserved = (if balance > reserved then balance - reserved else 0)"

definition float_status_of :: "float_policy \<Rightarrow> int \<Rightarrow> int \<Rightarrow> float_status" where
  "float_status_of P balance reserved =
     \<lparr>fs_balanceMario = balance, fs_reservedMario = reserved,
      fs_availableMario = float_available balance reserved, fs_capMario = fp_capMario P,
      fs_refillThresholdMario = fp_refillThresholdMario P,
      fs_refillNeeded = (float_available balance reserved < fp_refillThresholdMario P),
      fs_overCap = (balance > fp_capMario P)\<rparr>"

definition float_check :: "float_policy \<Rightarrow> int \<Rightarrow> int \<Rightarrow> bool \<Rightarrow> float_denial option" where
  "float_check P amountMario availableMario approved =
     (if \<not> approved \<and> fp_bigClaimThresholdMario P > 0 \<and> amountMario > fp_bigClaimThresholdMario P
      then Some (ExceedsBrake amountMario (fp_bigClaimThresholdMario P))
      else if amountMario > availableMario then Some (InsufficientFloat amountMario availableMario)
      else None)"

section \<open>The worker\<close>

datatype signer_role = RoleToken | RoleAnt

text \<open>A \<open>DispenserSigner\<close>: \<open>ds_unlock\<close> is how its \<open>getSigner\<close> ends.\<close>

record dispenser =
  ds_address :: string
  ds_role :: signer_role
  ds_unlock :: "string + unit"

definition assertSeparableRoles :: "dispenser \<Rightarrow> dispenser option \<Rightarrow> string + unit" where
  "assertSeparableRoles token ant = (case ant of
     Some a \<Rightarrow> if ds_address a = ds_address token
       then Inl (''ANT custody signer must NOT be the hot token dispenser (separate blast radii; see '' @ [CHR 0xA7] @ ''4.3)'')
       else Inr ()
   | None \<Rightarrow> Inr ())"

datatype ant_mode = CliCold | OperatorWallet

record ('w, 'k) worker_deps =
  wk_db :: "'w db_access"
  wk_env :: "'k service_env"
  wk_gateway :: "('w, instruction) gateway"
  wk_kit :: kit
  wk_token :: dispenser
  wk_ant :: "dispenser option"
  wk_policy :: float_policy
  wk_scope :: "string list option"
  wk_mint :: string
  wk_minVaultDuration :: int
  wk_maxVaultDuration :: int
  wk_arioCoreProgram :: "string option"
  wk_antRequiresApproval :: "bool option"
  wk_antDispatchMode :: "ant_mode option"
  wk_includeMemo :: "bool option"

text \<open>The clock, at the points of one claim's processing where it is read.\<close>

record clock =
  ck_recover :: int
  ck_fresh :: int
  ck_settle :: int
  ck_anomaly :: int
  ck_persist :: int
  ck_final :: int

definition MAX_RESIGN_ATTEMPTS :: nat where "MAX_RESIGN_ATTEMPTS = 1"

datatype outcome =
    OutConfirmed | OutAlreadyConfirmed | OutRecoveredConfirmed | OutFailed | OutAwaitingConfirmation
  | OutDeferredRefill | OutRoutedToReview | OutAwaitingApproval | OutAwaitingAntSigner
  | OutNeedsOperator | OutAwaitingManualVaultDelivery | OutSkipped | OutError

record dispatch_result =
  dr_claimId :: string
  dr_assetKey :: string
  dr_outcome :: outcome
  dr_signature :: "string option"
  dr_detail :: "string option"

definition result_of :: "string \<Rightarrow> string \<Rightarrow> outcome \<Rightarrow> string option \<Rightarrow> string option \<Rightarrow> dispatch_result" where
  "result_of cid k out sig detail =
     \<lparr>dr_claimId = cid, dr_assetKey = k, dr_outcome = out, dr_signature = sig, dr_detail = detail\<rparr>"

definition hotAta :: "('w, 'k) worker_deps \<Rightarrow> string" where
  "hotAta D = getAssociatedTokenAddress (wk_kit D) (ds_address (wk_token D)) (wk_mint D)"

section \<open>Persist, broadcast, confirm\<close>

text \<open>A broadcast that throws is only logged.\<close>

definition dispatchSignedTx :: "('w, 'k) worker_deps \<Rightarrow> clock \<Rightarrow> persist_args
    \<Rightarrow> ('w, outcome \<times> string option \<times> string option) act" where
  "dispatchSignedTx D T args =
     io_bind (db_tx (wk_db D) (persistDispatching (wk_env D) (ck_persist T) args)) (\<lambda>persisted.
     if \<not> persisted then io_return (OutSkipped, None, Some ''state changed before dispatch'')
     else io_bind (catch_all (chain (gw_broadcast (wk_gateway D) (sd_wireBase64 (pa_signed args))))
                     (\<lambda>e. io_return ())) (\<lambda>_.
     let sig = sd_signature (pa_signed args) in
     io_bind (chain (gw_confirmSignature (wk_gateway D) sig (sd_lastValidBlockHeight (pa_signed args)))) (\<lambda>state.
     if state = StateConfirmed
     then io_bind (db_do (wk_db D) (finalizeConfirmed (wk_env D) (ck_final T) (pa_claimId args) sig))
            (\<lambda>_. io_return (OutConfirmed, Some sig, None))
     else if state = StateFailed
     then io_bind (db_do (wk_db D) (markFailed (wk_env D) (ck_final T) (pa_claimId args)
                     (''on-chain tx '' @ sig @ '' failed'')))
            (\<lambda>_. io_return (OutFailed, Some sig, None))
     else io_return (OutAwaitingConfirmation, Some sig, None))))"

definition signPersistBroadcastConfirm :: "('w, 'k) worker_deps \<Rightarrow> clock \<Rightarrow> string \<Rightarrow> asset_row \<Rightarrow> dispenser
    \<Rightarrow> instruction list \<Rightarrow> int option \<Rightarrow> string option \<Rightarrow> ('w, dispatch_result) act" where
  "signPersistBroadcastConfirm D T claimId asset signer ixs settlementAmount settlementLabel =
     io_bind (chain (gw_signTransaction (wk_gateway D) ixs (ds_address signer))) (\<lambda>signed.
     io_bind (dispatchSignedTx D T \<lparr>pa_claimId = claimId, pa_assetKey = as_asset_key asset,
        pa_signed = signed, pa_settlementAmount = settlementAmount,
        pa_settlementLabel = settlementLabel\<rparr>) (\<lambda>r.
     io_return (result_of claimId (as_asset_key asset) (fst r) (fst (snd r)) (snd (snd r)))))"

section \<open>The instructions of a settlement\<close>

definition memoIxs :: "('w, 'k) worker_deps \<Rightarrow> string \<Rightarrow> instruction list" where
  "memoIxs D claimId =
     (if (case wk_includeMemo D of None \<Rightarrow> True | Some b \<Rightarrow> b) then [claimMemoIx claimId] else [])"

definition buildTokenIxs :: "('w, 'k) worker_deps \<Rightarrow> string \<Rightarrow> string \<Rightarrow> string \<Rightarrow> int
    \<Rightarrow> string + instruction list" where
  "buildTokenIxs D claimId hotSigner claimant amount =
     (let hot = getAssociatedTokenAddress (wk_kit D) hotSigner (wk_mint D);
          recipientAta = getAssociatedTokenAddress (wk_kit D) claimant (wk_mint D)
      in and_then (transferTokensIx (wk_kit D) hot recipientAta hotSigner amount) (\<lambda>transfer.
           Inr ([createAtaIdempotentIx hotSigner recipientAta claimant (wk_mint D), transfer]
                @ memoIxs D claimId)))"

definition buildAntIxs :: "('w, 'k) worker_deps \<Rightarrow> string \<Rightarrow> string \<Rightarrow> string \<Rightarrow> string
    \<Rightarrow> instruction list" where
  "buildAntIxs D claimId antSigner antMint newOwner =
     [mplCoreTransferV1Ix antMint antSigner antSigner newOwner,
      mplCoreUpdateAuthorityIx (wk_kit D) antMint antSigner antSigner newOwner] @ memoIxs D claimId"

fun liquid_reason_str :: "liquid_reason \<Rightarrow> string" where
  "liquid_reason_str Expired = ''expired''"
| "liquid_reason_str BelowMinAmount = ''below_min_amount''"
| "liquid_reason_str BelowMinDuration = ''below_min_duration''"

fun verr_message :: "verr \<Rightarrow> string" where
  "verr_message (VerificationError c m) = m"
| "verr_message (PlainError m) = m"

section \<open>Fresh dispatch\<close>

definition dispatch_ant :: "('w, 'k) worker_deps \<Rightarrow> clock \<Rightarrow> dispenser option \<Rightarrow> claim_row \<Rightarrow> asset_row
    \<Rightarrow> ('w, dispatch_result) act" where
  "dispatch_ant D T override snap asset =
     (let claimId = cl_claim_id snap; k = as_asset_key asset;
          approved = (cl_approved_at snap \<noteq> None) in
      if (case wk_antRequiresApproval D of None \<Rightarrow> True | Some b \<Rightarrow> b) \<and> \<not> approved
      then io_bind (db_do (wk_db D) (routeToReview (wk_env D) (ck_fresh T) claimId k
                      ''ant dispatch requires operator approval''))
             (\<lambda>_. io_return (result_of claimId k OutAwaitingApproval None (Some ''ant needs approval'')))
      else case (case override of Some s \<Rightarrow> Some s | None \<Rightarrow> wk_ant D) of
        None \<Rightarrow> io_return (result_of claimId k OutAwaitingAntSigner None (Some ''cold ant signer not loaded''))
      | Some antCustody \<Rightarrow>
          if ds_address antCustody = ds_address (wk_token D)
          then io_bind (db_do (wk_db D) (markFailed (wk_env D) (ck_fresh T) claimId
                          ''ANT signer must not be the hot dispenser''))
                 (\<lambda>_. io_return (result_of claimId k OutFailed None (Some ''ant signer == hot key'')))
          else if \<not> truthy (as_ant_mint asset)
          then io_bind (db_do (wk_db D) (markFailed (wk_env D) (ck_fresh T) claimId ''ant asset has no mint''))
                 (\<lambda>_. io_return (result_of claimId k OutFailed None (Some ''no ant mint'')))
          else io_bind (from_result (ds_unlock antCustody)) (\<lambda>_.
               io_bind (from_result (address (wk_kit D) (the (as_ant_mint asset)))) (\<lambda>mint.
               signPersistBroadcastConfirm D T claimId asset antCustody
                 (buildAntIxs D claimId (ds_address antCustody) mint (cl_claimant snap)) None None)))"

definition settle_liquid :: "('w, 'k) worker_deps \<Rightarrow> clock \<Rightarrow> claim_row \<Rightarrow> asset_row \<Rightarrow> int \<Rightarrow> string
    \<Rightarrow> ('w, dispatch_result) act" where
  "settle_liquid D T snap asset amount label =
     io_bind (from_result (buildTokenIxs D (cl_claim_id snap) (ds_address (wk_token D)) (cl_claimant snap) amount))
       (\<lambda>ixs. signPersistBroadcastConfirm D T (cl_claim_id snap) asset (wk_token D) ixs (Some amount) (Some label))"

definition relock_args_of :: "('w, 'k) worker_deps \<Rightarrow> string \<Rightarrow> string \<Rightarrow> string \<Rightarrow> int \<Rightarrow> int \<Rightarrow> relock_args" where
  "relock_args_of D core cid claimant amount lockSecs =
     \<lparr>rl_arioCoreProgram = core, rl_mint = wk_mint D, rl_sender = ds_address (wk_token D),
      rl_claimant = claimant, rl_amount = amount, rl_lockDurationSeconds = lockSecs, rl_memoIxs = memoIxs D cid\<rparr>"

definition settle_relock :: "('w, 'k) worker_deps \<Rightarrow> clock \<Rightarrow> claim_row \<Rightarrow> asset_row \<Rightarrow> int \<Rightarrow> int \<Rightarrow> int
    \<Rightarrow> ('w, dispatch_result) act" where
  "settle_relock D T snap asset amount lockSecs unlockTs =
     (let claimId = cl_claim_id snap; k = as_asset_key asset in
      if \<not> truthy (wk_arioCoreProgram D)
      then io_bind (db_do (wk_db D) (routeToManualVaultDelivery (wk_env D) (ck_fresh T) claimId k
                      unlockTs lockSecs))
             (\<lambda>_. io_return (result_of claimId k OutAwaitingManualVaultDelivery None
                    (Some ''relock: ARIO_CORE_PROGRAM unset'')))
      else io_bind (chain (buildVaultRelockIxs (wk_kit D) (gw_getAccountData (wk_gateway D))
             (relock_args_of D (the (wk_arioCoreProgram D)) claimId (cl_claimant snap) amount lockSecs))) (\<lambda>built.
           signPersistBroadcastConfirm D T claimId asset (wk_token D) (rb_ixs built) (Some amount)
             (Some (''relock:'' @ dec_int lockSecs @ ''s''))))"

definition dispatch_settle :: "('w, 'k) worker_deps \<Rightarrow> clock \<Rightarrow> claim_row \<Rightarrow> asset_row \<Rightarrow> int
    \<Rightarrow> ('w, dispatch_result) act" where
  "dispatch_settle D T snap asset amount =
     (if as_asset_type asset = AssetVault
      then let vaultEndTs = (case as_vault_end_ts asset of Some v \<Rightarrow> v | None \<Rightarrow> 0) in
        (case computeVaultSettlement (BigV vaultEndTs) (BigV amount) (BigV (wk_minVaultDuration D))
                (BigV (wk_maxVaultDuration D)) (BigV (ck_settle T)) of
           Inl e \<Rightarrow>
             (let rest = vaultEndTs - ck_anomaly T
              in io_bind (db_do (wk_db D) (routeToManualVaultDelivery (wk_env D) (ck_fresh T) (cl_claim_id snap)
                   (as_asset_key asset) vaultEndTs (if rest > 0 then rest else 0)))
                 (\<lambda>_. io_return (result_of (cl_claim_id snap) (as_asset_key asset)
                    OutAwaitingManualVaultDelivery None
                    (Some (''vault settlement anomaly: '' @ verr_message e)))))
         | Inr (Relock lockSecs unlockTs rest) \<Rightarrow>
             settle_relock D T snap asset amount lockSecs unlockTs
         | Inr (Liquid why rest) \<Rightarrow>
             settle_liquid D T snap asset amount (''liquid:'' @ liquid_reason_str why))
      else settle_liquid D T snap asset amount ''token'')"

definition dispatch_funds :: "('w, 'k) worker_deps \<Rightarrow> clock \<Rightarrow> claim_row \<Rightarrow> asset_row
    \<Rightarrow> ('w, dispatch_result) act" where
  "dispatch_funds D T snap asset =
     (let claimId = cl_claim_id snap; k = as_asset_key asset;
          amount = (case as_amount asset of Some v \<Rightarrow> v | None \<Rightarrow> 0) in
      io_bind (chain (gw_getTokenBalance (wk_gateway D) (hotAta D))) (\<lambda>balance.
      io_bind (db_read (wk_db D) (float_reserved (wk_scope D) (Some claimId))) (\<lambda>reserved.
      case float_check (wk_policy D) amount (float_available balance reserved) (cl_approved_at snap \<noteq> None) of
        Some (ExceedsBrake amt threshold) \<Rightarrow>
          io_bind (db_do (wk_db D) (routeToReview (wk_env D) (ck_fresh T) claimId k
                     (''amount '' @ dec_int amount @ '' over brake '' @ dec_int threshold)))
            (\<lambda>_. io_return (result_of claimId k OutRoutedToReview None (Some ''big-claim brake'')))
      | Some (InsufficientFloat need avail) \<Rightarrow>
          io_return (result_of claimId k OutDeferredRefill None (Some ''refill needed''))
      | None \<Rightarrow>
          io_bind (from_result (ds_unlock (wk_token D))) (\<lambda>_. dispatch_settle D T snap asset amount))))"

definition dispatchFresh :: "('w, 'k) worker_deps \<Rightarrow> clock \<Rightarrow> dispenser option \<Rightarrow> string
    \<Rightarrow> ('w, dispatch_result) act" where
  "dispatchFresh D T override claimId =
     io_bind (db_read (wk_db D) (\<lambda>d. find_claim d claimId)) (\<lambda>row.
     case row of
       None \<Rightarrow> io_return (result_of claimId [] OutSkipped None (Some ''vanished''))
     | Some snap \<Rightarrow>
         io_bind (db_read (wk_db D) (\<lambda>d. find_asset d (cl_asset_key snap))) (\<lambda>arow.
         case arow of
           None \<Rightarrow> io_return (result_of claimId (cl_asset_key snap) OutSkipped None (Some ''asset missing''))
         | Some asset \<Rightarrow>
             if as_status asset = A_claimed \<or> as_status asset = Cancelled
             then io_return (result_of claimId (as_asset_key asset) OutSkipped None
                    (Some (''asset '' @ asset_status_str (as_status asset))))
             else io_bind (from_result (address (wk_kit D) (cl_claimant snap))) (\<lambda>_.
               if as_asset_type asset = AssetAnt then dispatch_ant D T override snap asset
               else dispatch_funds D T snap asset)))"

section \<open>Recovery\<close>

text \<open>The dash of the message is written as a hyphen.\<close>

definition resign_cap_reason :: string where
  "resign_cap_reason = ''dispatch re-sign cap ('' @ dec_nat MAX_RESIGN_ATTEMPTS
     @ '') exceeded after repeated `expired` classifications with no landed outflow - possible lagging/pooled confirm-RPC. Frozen for an operator; do NOT auto-retry. Verify on-chain before any manual re-drive.''"

definition recover_expired :: "('w, 'k) worker_deps \<Rightarrow> clock \<Rightarrow> dispenser option \<Rightarrow> claim_row \<Rightarrow> string
    \<Rightarrow> ('w, dispatch_result) act" where
  "recover_expired D T override snap sig =
     (let claimId = cl_claim_id snap; k = cl_asset_key snap;
          known = filter (\<lambda>s. s \<noteq> []) (sig # cl_tx_signatures snap) in
      io_bind (from_result (address (wk_kit D) (cl_claimant snap))) (\<lambda>claimant.
      io_bind (chain (gw_findConfirmedOutflow (wk_gateway D) [ds_address (wk_token D), claimant] known)) (\<lambda>found.
      case found of
        Some landed \<Rightarrow>
          io_bind (db_do (wk_db D) (finalizeConfirmed (wk_env D) (ck_recover T) claimId landed))
            (\<lambda>_. io_return (result_of claimId k OutRecoveredConfirmed (Some landed) None))
      | None \<Rightarrow>
          if cl_dispatch_resign_count snap \<ge> MAX_RESIGN_ATTEMPTS
          then io_bind (db_tx (wk_db D) (markNeedsOperator (wk_env D) (ck_recover T) claimId resign_cap_reason))
                 (\<lambda>_. io_return (result_of claimId k OutNeedsOperator (Some sig) (Some ''resign cap exceeded'')))
          else io_bind (db_do (wk_db D) (clearDeadSignature (wk_env D) (ck_recover T) claimId))
                 (\<lambda>_. dispatchFresh D T override claimId))))"

definition recover :: "('w, 'k) worker_deps \<Rightarrow> clock \<Rightarrow> dispenser option \<Rightarrow> claim_row
    \<Rightarrow> ('w, dispatch_result) act" where
  "recover D T override snap =
     (let claimId = cl_claim_id snap; k = cl_asset_key snap in
      if cl_ant_batch_id snap \<noteq> None
      then io_return (result_of claimId k OutSkipped None
             (Some ''operator-wallet ANT claim (owned by ant-operator)''))
      else let sig = the (cl_dispatch_signature snap);
               lastValid = (case cl_dispatch_last_valid_bh snap of Some v \<Rightarrow> v | None \<Rightarrow> 0) in
      io_bind (chain (gw_confirmSignature (wk_gateway D) sig lastValid)) (\<lambda>state.
      case state of
        StateConfirmed \<Rightarrow>
          io_bind (db_do (wk_db D) (finalizeConfirmed (wk_env D) (ck_recover T) claimId sig))
            (\<lambda>_. io_return (result_of claimId k OutRecoveredConfirmed (Some sig) None))
      | StateFailed \<Rightarrow>
          io_bind (db_do (wk_db D) (markFailed (wk_env D) (ck_recover T) claimId
                     (''on-chain tx '' @ sig @ '' failed'')))
            (\<lambda>_. io_return (result_of claimId k OutFailed (Some sig) (Some ''tx failed'')))
      | StateExpired \<Rightarrow> recover_expired D T override snap sig
      | StatePending \<Rightarrow> io_return (result_of claimId k OutAwaitingConfirmation (Some sig) None)))"

section \<open>One claim, one tick\<close>

definition processClaim :: "('w, 'k) worker_deps \<Rightarrow> clock \<Rightarrow> dispenser option \<Rightarrow> string
    \<Rightarrow> ('w, dispatch_result) act" where
  "processClaim D T override claimId =
     io_bind (db_read (wk_db D) (\<lambda>d. find_claim d claimId)) (\<lambda>row.
     case row of
       None \<Rightarrow> io_return (result_of claimId [] OutSkipped None (Some ''no such claim''))
     | Some snap \<Rightarrow>
         (let k = cl_asset_key snap; st = cl_status snap in
          if st = Confirmed
          then io_return (result_of claimId k OutAlreadyConfirmed (cl_dispatch_signature snap) None)
          else if cl_ant_batch_id snap \<noteq> None
          then io_return (result_of claimId k OutSkipped None
                 (Some ''operator-wallet ANT claim (owned by ant-operator)''))
          else if truthy (cl_dispatch_signature snap) \<and> (st = Dispatching \<or> st = Verified)
          then recover D T override snap
          else if st = Verified then dispatchFresh D T override claimId
          else if st = PendingReview \<and> cl_approved_at snap \<noteq> None then dispatchFresh D T override claimId
          else if st = PendingReview then io_return (result_of claimId k OutAwaitingApproval None None)
          else io_return (result_of claimId k OutSkipped None (Some (''status '' @ claim_status_str st)))))"

definition eligible :: "claim_row \<Rightarrow> bool" where
  "eligible c = (cl_status c \<in> {Verified, Dispatching} \<or> cl_status c = PendingReview \<and> cl_approved_at c \<noteq> None)"

definition asset_type_of :: "db \<Rightarrow> claim_row \<Rightarrow> asset_type option" where
  "asset_type_of d c = map_option as_asset_type (find_asset d (cl_asset_key c))"

definition eligibleClaimIds :: "('w, 'k) worker_deps \<Rightarrow> db \<Rightarrow> string list" where
  "eligibleClaimIds D d =
     map cl_claim_id (sort_key (\<lambda>c. (nulls_first (cl_verified_at c), cl_created_at c))
       (filter (\<lambda>c. eligible c \<and> (wk_antDispatchMode D = Some OperatorWallet \<longrightarrow>
                  (case asset_type_of d c of None \<Rightarrow> False | Some t \<Rightarrow> t \<noteq> AssetAnt)))
          (db_claims d)))"

text \<open>A claim that throws is isolated; the tick goes on with the next.\<close>

fun run_claims :: "('w, 'k) worker_deps \<Rightarrow> (nat \<Rightarrow> clock) \<Rightarrow> string list \<Rightarrow> ('w, dispatch_result list) act" where
  "run_claims D clk [] = io_return []"
| "run_claims D clk (cid # ids) =
     io_bind (catch_all (processClaim D (clk 0) None cid)
                (\<lambda>detail. io_return (result_of cid [] OutError None (Some detail)))) (\<lambda>r.
     io_bind (run_claims D (\<lambda>n. clk (Suc n)) ids) (\<lambda>rs. io_return (r # rs)))"

definition runOnce :: "('w, 'k) worker_deps \<Rightarrow> (nat \<Rightarrow> clock) \<Rightarrow> ('w, dispatch_result list) act" where
  "runOnce D clk = io_bind (db_read (wk_db D) (eligibleClaimIds D)) (run_claims D clk)"

fun role_str :: "signer_role \<Rightarrow> string" where
  "role_str RoleToken = ''token''"
| "role_str RoleAnt = ''ant''"

definition antBatchIds :: "db \<Rightarrow> string list" where
  "antBatchIds d =
     map cl_claim_id (sort_key (\<lambda>c. (nulls_first (cl_approved_at c), cl_created_at c))
       (filter (\<lambda>c. asset_type_of d c = Some AssetAnt \<and> cl_ant_batch_id c = None
                  \<and> (cl_status c = Dispatching \<or> cl_status c = PendingReview \<and> cl_approved_at c \<noteq> None))
          (db_claims d)))"

fun batch_claims :: "('w, 'k) worker_deps \<Rightarrow> (nat \<Rightarrow> clock) \<Rightarrow> dispenser \<Rightarrow> string list
    \<Rightarrow> ('w, dispatch_result list) act" where
  "batch_claims D clk signer [] = io_return []"
| "batch_claims D clk signer (cid # ids) =
     io_bind (processClaim D (clk 0) (Some signer) cid) (\<lambda>r.
     io_bind (batch_claims D (\<lambda>n. clk (Suc n)) signer ids) (\<lambda>rs. io_return (r # rs)))"

definition runAntBatch :: "('w, 'k) worker_deps \<Rightarrow> (nat \<Rightarrow> clock) \<Rightarrow> dispenser
    \<Rightarrow> ('w, dispatch_result list) act" where
  "runAntBatch D clk coldAntSigner =
     (if ds_role coldAntSigner \<noteq> RoleAnt
      then from_result (Inl (''runAntBatch requires an 'ant'-role signer, got '' @ [CHR 39] @ role_str (ds_role coldAntSigner) @ [CHR 39]))
      else if ds_address coldAntSigner = ds_address (wk_token D)
      then from_result (Inl ''cold ANT signer must NOT be the hot token dispenser (separate blast radii)'')
      else io_bind (db_read (wk_db D) antBatchIds) (batch_claims D clk coldAntSigner))"

section \<open>What the worker signs\<close>

lemma effects_memoIxs:
  assumes "kit_codecs (wk_kit D)" and "\<forall>p. core = Some p \<longrightarrow> p \<notin> own_programs"
  shows "effects (wk_kit D) core (memoIxs D cid) = []"
  by (simp add: memoIxs_def kit_codecs.effect_memo [OF assms])


end
