(* ===== verification/Exactly_Once.thy ===== *)
theory Exactly_Once
  imports Dispatch_Worker
begin

text \<open>
  The exactly-once guarantee of dispatch. Triples for calls that may throw; the invariant that ties
  the recorded signatures of the claims to the fate of the signatures on chain; and the proof that
  every step of the worker keeps it, wherever it is cut off, with the service running beside it.
\<close>

section \<open>Triples\<close>

text \<open>
  From a state with \<open>P\<close>, \<open>m\<close> ends normally with \<open>Q\<close>, or throws with \<open>X\<close>.
\<close>

definition hoare :: "('s \<Rightarrow> bool) \<Rightarrow> ('s, 'a) io \<Rightarrow> ('a \<Rightarrow> 's \<Rightarrow> bool) \<Rightarrow> ('s \<Rightarrow> bool) \<Rightarrow> bool" where
  "hoare P m Q X = (\<forall>s. P s \<longrightarrow> (case m s of (Inl e, s') \<Rightarrow> X s' | (Inr x, s') \<Rightarrow> Q x s'))"

lemma hoareI:
  assumes "\<And>s e s'. P s \<Longrightarrow> m s = (Inl e, s') \<Longrightarrow> X s'" and "\<And>s x s'. P s \<Longrightarrow> m s = (Inr x, s') \<Longrightarrow> Q x s'"
  shows "hoare P m Q X"
  using assms unfolding hoare_def by (auto split: prod.split sum.split)

lemma hoare_run:
  assumes "hoare P m Q X" and "P s" and "m s = (r, s')"
  shows "case r of Inl e \<Rightarrow> X s' | Inr x \<Rightarrow> Q x s'"
  using assms unfolding hoare_def by (cases r) fastforce+

lemma hoare_weaken:
  assumes "hoare P' m Q' X" and "\<And>s. P s \<Longrightarrow> P' s" and "\<And>x s. Q' x s \<Longrightarrow> Q x s"
  shows "hoare P m Q X"
proof (rule hoareI)
  fix s e s' assume "P s" "m s = (Inl e, s')"
  with hoare_run [OF assms(1) assms(2)] show "X s'" by fastforce
next
  fix s x s' assume "P s" "m s = (Inr x, s')"
  with hoare_run [OF assms(1) assms(2)] show "Q x s'" using assms(3) by fastforce
qed

lemma hoare_pre: "hoare P' m Q X \<Longrightarrow> (\<And>s. P s \<Longrightarrow> P' s) \<Longrightarrow> hoare P m Q X"
  by (rule hoare_weaken)

lemma hoare_return: "(\<And>s. P s \<Longrightarrow> Q x s) \<Longrightarrow> hoare P (io_return x) Q X"
  by (rule hoareI) (simp_all add: io_return_def)

lemma hoare_bind:
  assumes "hoare P m R X" and "\<And>x. hoare (R x) (f x) Q X"
  shows "hoare P (io_bind m f) Q X"
  unfolding hoare_def
proof (intro allI impI)
  fix s assume "P s"
  obtain r s' where m: "m s = (r, s')" by fastforce
  note h = hoare_run [OF assms(1) \<open>P s\<close> m]
  show "case io_bind m f s of (Inl e, s') \<Rightarrow> X s' | (Inr x, s') \<Rightarrow> Q x s'"
  proof (cases r)
    case (Inl e)
    with m h show ?thesis by (simp add: io_bind_def)
  next
    case (Inr x)
    with h have "R x s'" by simp
    with assms(2) [of x] m Inr show ?thesis by (simp add: io_bind_def hoare_def)
  qed
qed

lemma hoare_from_result:
  assumes "\<And>s. P s \<Longrightarrow> X s" and "\<And>x s. r = Inr x \<Longrightarrow> P s \<Longrightarrow> Q x s"
  shows "hoare P (from_result r) Q X"
  by (rule hoareI) (use assms in \<open>auto simp: from_result_def\<close>)

lemma hoare_catch:
  assumes "hoare P m Q X'" and "\<And>e. hoare X' (h e) Q X"
  shows "hoare P (catch_all m h) Q X"
  unfolding hoare_def
proof (intro allI impI)
  fix s assume "P s"
  obtain r s' where m: "m s = (r, s')" by fastforce
  note h = hoare_run [OF assms(1) \<open>P s\<close> m]
  show "case catch_all m h s of (Inl e, s') \<Rightarrow> X s' | (Inr x, s') \<Rightarrow> Q x s'"
  proof (cases r)
    case (Inl e)
    with h have "X' s'" by simp
    with assms(2) [of e] m Inl show ?thesis by (simp add: catch_all_def hoare_def)
  next
    case (Inr x)
    with m h show ?thesis by (simp add: catch_all_def)
  qed
qed

lemma hoare_false: "(\<And>s. \<not> P s) \<Longrightarrow> hoare P m Q X"
  by (simp add: hoare_def)

lemma hoare_if:
  "hoare (\<lambda>s. P s \<and> b) m Q X \<Longrightarrow> hoare (\<lambda>s. P s \<and> \<not> b) m' Q X \<Longrightarrow> hoare P (if b then m else m') Q X"
  by (cases b) (simp_all add: hoare_def)

lemma hoare_ifE:
  "(b \<Longrightarrow> hoare P m Q X) \<Longrightarrow> (\<not> b \<Longrightarrow> hoare P m' Q X) \<Longrightarrow> hoare P (if b then m else m') Q X"
  by simp

section \<open>The invariant\<close>

text \<open>
  What is recorded of a claim: its signatures were signed; all but the current one are dead; only a
  claim that has won has any; a claim at rest has no current one; a dispatching claim's current
  signature is recorded with the last height it is valid at; a confirmed claim has landed.
\<close>

definition at_rest :: "claim_status \<Rightarrow> bool" where
  "at_rest st = (st \<in> {Claiming, Verified, PendingReview, Rejected, Expired_claim, AwaitingManualVaultDelivery})"

definition claim_ok :: "'w chain_view \<Rightarrow> 'w \<Rightarrow> claim_row \<Rightarrow> bool" where
  "claim_ok V w c =
     (set (cl_tx_signatures c) \<subseteq> vw_signed V w
      \<and> (\<forall>s \<in> set (cl_tx_signatures c). cl_dispatch_signature c = Some s \<or> dead V w s)
      \<and> (cl_tx_signatures c \<noteq> [] \<longrightarrow> won (cl_status c))
      \<and> (at_rest (cl_status c) \<longrightarrow> cl_dispatch_signature c = None)
      \<and> (cl_status c = Dispatching \<longrightarrow> (\<exists>s \<in> set (cl_tx_signatures c). cl_dispatch_signature c = Some s
            \<and> cl_dispatch_last_valid_bh c = Some (vw_validUntil V s)))
      \<and> (cl_status c = Confirmed \<longrightarrow> (\<exists>s \<in> set (cl_tx_signatures c). s \<in> vw_landed V w)))"

definition recorded :: "db \<Rightarrow> string set" where
  "recorded d = (\<Union>c \<in> set (db_claims d). set (cl_tx_signatures c))"

definition once_inv :: "'w chain_view \<Rightarrow> string set \<Rightarrow> db \<times> 'w \<Rightarrow> bool" where
  "once_inv V sent s =
     (db_inv (fst s)
      \<and> (\<forall>c \<in> set (db_claims (fst s)). claim_ok V (snd s) c)
      \<and> (\<forall>c \<in> set (db_claims (fst s)). \<forall>c' \<in> set (db_claims (fst s)). cl_claim_id c \<noteq> cl_claim_id c'
           \<longrightarrow> set (cl_tx_signatures c) \<inter> set (cl_tx_signatures c') = {})
      \<and> vw_sent V (snd s) \<subseteq> sent \<union> recorded (fst s))"

lemma claim_okI:
  assumes "\<And>s. s \<in> set (cl_tx_signatures c) \<Longrightarrow> s \<in> vw_signed V w"
    and "\<And>s. s \<in> set (cl_tx_signatures c) \<Longrightarrow> cl_dispatch_signature c \<noteq> Some s \<Longrightarrow> dead V w s"
    and "cl_tx_signatures c \<noteq> [] \<Longrightarrow> won (cl_status c)"
    and "at_rest (cl_status c) \<Longrightarrow> cl_dispatch_signature c = None"
    and "cl_status c = Dispatching \<Longrightarrow> \<exists>s \<in> set (cl_tx_signatures c). cl_dispatch_signature c = Some s
            \<and> cl_dispatch_last_valid_bh c = Some (vw_validUntil V s)"
    and "cl_status c = Confirmed \<Longrightarrow> \<exists>s \<in> set (cl_tx_signatures c). s \<in> vw_landed V w"
  shows "claim_ok V w c"
  unfolding claim_ok_def using assms by blast

lemma claim_okD:
  assumes "claim_ok V w c"
  shows "s \<in> set (cl_tx_signatures c) \<Longrightarrow> s \<in> vw_signed V w"
    and "s \<in> set (cl_tx_signatures c) \<Longrightarrow> cl_dispatch_signature c \<noteq> Some s \<Longrightarrow> dead V w s"
    and "cl_tx_signatures c \<noteq> [] \<Longrightarrow> won (cl_status c)"
    and "at_rest (cl_status c) \<Longrightarrow> cl_dispatch_signature c = None"
    and "cl_status c = Dispatching \<Longrightarrow> \<exists>s \<in> set (cl_tx_signatures c). cl_dispatch_signature c = Some s
            \<and> cl_dispatch_last_valid_bh c = Some (vw_validUntil V s)"
    and "cl_status c = Confirmed \<Longrightarrow> \<exists>s \<in> set (cl_tx_signatures c). s \<in> vw_landed V w"
  using assms unfolding claim_ok_def by blast+

lemma claim_ok_progress:
  assumes "claim_ok V w c" and "progress V w w'"
  shows "claim_ok V w' c"
proof (rule claim_okI)
  have mono: "vw_signed V w \<subseteq> vw_signed V w'" "vw_landed V w \<subseteq> vw_landed V w'"
    using assms(2) by (simp_all add: progress_def)
  note ok = claim_okD [OF assms(1)]
  show "s \<in> vw_signed V w'" if "s \<in> set (cl_tx_signatures c)" for s using ok(1) [OF that] mono(1) by blast
  show "dead V w' s" if "s \<in> set (cl_tx_signatures c)" "cl_dispatch_signature c \<noteq> Some s" for s
    using ok(2) [OF that] assms(2) by (rule dead_progress)
  show "\<exists>s \<in> set (cl_tx_signatures c). s \<in> vw_landed V w'" if "cl_status c = Confirmed"
    using ok(6) [OF that] mono(2) by blast
qed (use claim_okD [OF assms(1)] in simp_all)

lemma once_inv_progress:
  assumes "once_inv V sent (d, w)" and "progress V w w'" and "vw_sent V w' \<subseteq> vw_sent V w \<union> recorded d"
  shows "once_inv V sent (d, w')"
proof -
  have "claim_ok V w' c" if "c \<in> set (db_claims d)" for c
    using claim_ok_progress [OF _ assms(2)] assms(1) that by (simp add: once_inv_def)
  moreover have "vw_sent V w' \<subseteq> sent \<union> recorded d" using assms(1,3) by (auto simp: once_inv_def)
  ultimately show ?thesis using assms(1) by (simp add: once_inv_def)
qed

lemma once_inv_quiet: "once_inv V sent (d, w) \<Longrightarrow> quiet V w w' \<Longrightarrow> once_inv V sent (d, w')"
  by (rule once_inv_progress) (auto simp: quiet_def)

text \<open>At most one recorded signature of an asset has landed or ever will.\<close>

lemma once_inv_unique:
  assumes "once_inv V sent (d, w)" and "c \<in> set (db_claims d)" and "c' \<in> set (db_claims d)"
    and "cl_asset_key c = cl_asset_key c'" and "s \<in> set (cl_tx_signatures c)" and "\<not> dead V w s"
    and "s' \<in> set (cl_tx_signatures c')" and "\<not> dead V w s'"
  shows "s = s'"
proof -
  have ok: "claim_ok V w c" "claim_ok V w c'" using assms(1-3) by (simp_all add: once_inv_def)
  have "cl_tx_signatures c \<noteq> []" "cl_tx_signatures c' \<noteq> []" using assms(5,7) by auto
  then have "won (cl_status c)" "won (cl_status c')" using claim_okD(3) [OF ok(1)] claim_okD(3) [OF ok(2)] by simp_all
  then have "c = c'" using assms(1-4) by (simp add: once_inv_def db_inv_def claims_inv_def)
  then have "cl_dispatch_signature c = Some s" "cl_dispatch_signature c = Some s'"
    using claim_okD(2) [OF ok(1), of s] claim_okD(2) [OF ok(1), of s'] assms(5-8) by auto
  then show ?thesis by simp
qed

text \<open>
  A change of one claim row keeps the invariant if the new row does, its old signatures stay and
  its new ones are no other claim's.
\<close>

lemma once_inv_row:
  assumes inv: "once_inv V sent (d, w)" and c: "find_claim d cid = Some c"
    and rows: "db_claims d' = row_update cl_claim_id cid f (db_claims d)" and dinv: "db_inv d'"
    and id: "\<And>r. cl_claim_id (f r) = cl_claim_id r" and ok: "claim_ok V w (f c)"
    and kept: "set (cl_tx_signatures c) \<subseteq> set (cl_tx_signatures (f c))"
    and new: "\<And>s. s \<in> set (cl_tx_signatures (f c)) \<Longrightarrow> s \<in> set (cl_tx_signatures c) \<or> s \<notin> recorded d"
  shows "once_inv V sent (d', w)"
proof -
  have ids: "distinct (map cl_claim_id (db_claims d))" using inv by (simp add: once_inv_def db_inv_def claims_inv_def)
  note mem = find_claim_mem [OF c]
  have only: "r = c" if "r \<in> set (db_claims d)" "cl_claim_id r = cid" for r
    using row_unique [OF ids that(1) conjunct1 [OF mem]] that(2) mem by simp
  have rows': "r \<in> set (db_claims d') \<longleftrightarrow> r = f c \<or> r \<in> set (db_claims d) \<and> cl_claim_id r \<noteq> cid" for r
  proof
    assume "r \<in> set (db_claims d')"
    then obtain x where "x \<in> set (db_claims d)" "r = (if cl_claim_id x = cid then f x else x)"
      unfolding rows set_row_update by blast
    then show "r = f c \<or> r \<in> set (db_claims d) \<and> cl_claim_id r \<noteq> cid"
      using only by (cases "cl_claim_id x = cid") simp_all
  next
    assume "r = f c \<or> r \<in> set (db_claims d) \<and> cl_claim_id r \<noteq> cid"
    then show "r \<in> set (db_claims d')"
    proof
      assume "r = f c"
      then show ?thesis unfolding rows set_row_update using mem by (intro bexI [of _ c]) simp_all
    next
      assume "r \<in> set (db_claims d) \<and> cl_claim_id r \<noteq> cid"
      then show ?thesis unfolding rows set_row_update by (intro bexI [of _ r]) simp_all
    qed
  qed
  have disj: "set (cl_tx_signatures (f c)) \<inter> set (cl_tx_signatures x) = {}"
    if "x \<in> set (db_claims d)" "cl_claim_id x \<noteq> cid" for x
    using inv mem that new by (fastforce simp: once_inv_def recorded_def)
  have rec: "recorded d \<subseteq> recorded d'"
  proof
    fix s assume "s \<in> recorded d"
    then obtain x where "x \<in> set (db_claims d)" "s \<in> set (cl_tx_signatures x)" by (auto simp: recorded_def)
    then show "s \<in> recorded d'" using rows' only kept unfolding recorded_def by (cases "cl_claim_id x = cid") blast+
  qed
  show ?thesis
    unfolding once_inv_def fst_conv snd_conv
  proof (intro conjI ballI impI)
    fix x assume "x \<in> set (db_claims d')"
    then show "claim_ok V w x" using rows' ok inv by (auto simp: once_inv_def)
  next
    fix x y assume xy: "x \<in> set (db_claims d')" "y \<in> set (db_claims d')" "cl_claim_id x \<noteq> cl_claim_id y"
    have fid: "cl_claim_id (f c) = cid" using id mem by simp
    have "x = f c \<or> x \<in> set (db_claims d) \<and> cl_claim_id x \<noteq> cid"
      "y = f c \<or> y \<in> set (db_claims d) \<and> cl_claim_id y \<noteq> cid"
      using xy(1,2) unfolding rows' by simp_all
    with xy(3) consider "x = f c" "y \<in> set (db_claims d)" "cl_claim_id y \<noteq> cid"
      | "y = f c" "x \<in> set (db_claims d)" "cl_claim_id x \<noteq> cid"
      | "x \<in> set (db_claims d)" "y \<in> set (db_claims d)" by blast
    then show "set (cl_tx_signatures x) \<inter> set (cl_tx_signatures y) = {}"
    proof cases
      case 3
      with inv xy(3) show ?thesis by (simp add: once_inv_def)
    qed (use disj in blast)+
  next
    show "vw_sent V w \<subseteq> sent \<union> recorded d'" using inv rec by (auto simp: once_inv_def)
  qed (rule dinv)
qed

lemma once_inv_same:
  "once_inv V sent (d, w) \<Longrightarrow> db_claims d' = db_claims d \<Longrightarrow> db_assets d' = db_assets d \<Longrightarrow> once_inv V sent (d', w)"
  by (simp add: once_inv_def db_inv_def recorded_def)

section \<open>The service beside the worker\<close>

text \<open>
  What other processes do between two accesses: the service, an operator's approval, and the
  transactions of the ANT operator on reservations.
\<close>

inductive env_step :: "'k service_env \<Rightarrow> db \<Rightarrow> db \<Rightarrow> bool" for E where
  env_service: "service_step E d d' \<Longrightarrow> env_step E d d'"
| env_approve: "env_step E d (snd (approveClaim E now cid who d))"
| env_reserve: "operator_step E d d' \<Longrightarrow> reservation_change d d' \<Longrightarrow> env_step E d d'"

lemma claim_ok_blank:
  "cl_tx_signatures c = [] \<Longrightarrow> cl_dispatch_signature c = None \<Longrightarrow> cl_status c \<notin> {Dispatching, Confirmed}
     \<Longrightarrow> claim_ok V w c"
  by (rule claim_okI) auto

lemma claim_ok_same:
  "claim_ok V w c \<Longrightarrow> cl_tx_signatures c' = cl_tx_signatures c \<Longrightarrow> cl_dispatch_signature c' = cl_dispatch_signature c
     \<Longrightarrow> cl_dispatch_last_valid_bh c' = cl_dispatch_last_valid_bh c \<Longrightarrow> cl_status c' = cl_status c
     \<Longrightarrow> claim_ok V w c'"
  by (simp add: claim_ok_def)

lemma claiming_blank:
  assumes "claim_ok V w c" and "cl_status c = Claiming"
  shows "cl_tx_signatures c = []" and "cl_dispatch_signature c = None"
  using claim_okD(3) [OF assms(1)] claim_okD(4) [OF assms(1)] assms(2) by (auto simp: at_rest_def)

lemma once_inv_db: "once_inv V sent (d, w) \<Longrightarrow> db_inv d"
  and once_inv_claim: "once_inv V sent (d, w) \<Longrightarrow> c \<in> set (db_claims d) \<Longrightarrow> claim_ok V w c"
  by (simp_all add: once_inv_def)

lemma once_inv_append:
  assumes inv: "once_inv V sent (d, w)" and rows: "db_claims d' = db_claims d @ [c]" and dinv: "db_inv d'"
    and c: "cl_status c = Claiming" "undispatched c"
  shows "once_inv V sent (d', w)"
proof -
  have "claim_ok V w c" using c by (intro claim_ok_blank) (simp_all add: undispatched_def)
  moreover have "cl_tx_signatures c = []" using c by (simp add: undispatched_def)
  ultimately show ?thesis using inv rows dinv by (auto simp: once_inv_def recorded_def)
qed

text \<open>A row of the service's changes only while it is \<open>claiming\<close>.\<close>

lemma once_inv_claiming_row:
  assumes inv: "once_inv V sent (d, w)" and c: "c \<in> set (db_claims d)" "cl_status c = Claiming"
    and rows: "db_claims d' = row_update cl_claim_id (cl_claim_id c) f (db_claims d)" and dinv: "db_inv d'"
    and f: "\<And>r. cl_claim_id (f r) = cl_claim_id r" "\<And>r. cl_tx_signatures (f r) = cl_tx_signatures r"
      "\<And>r. cl_dispatch_signature (f r) = cl_dispatch_signature r" "cl_status (f c) \<notin> {Dispatching, Confirmed}"
  shows "once_inv V sent (d', w)"
proof -
  have "distinct (map cl_claim_id (db_claims d))" using once_inv_db [OF inv] by (simp add: db_inv_def claims_inv_def)
  then have find: "find_claim d (cl_claim_id c) = Some c" using c(1) by (rule row_find_distinct)
  note b = claiming_blank [OF once_inv_claim [OF inv c(1)] c(2)]
  have "claim_ok V w (f c)" by (rule claim_ok_blank) (use b f in simp_all)
  then show ?thesis by (rule once_inv_row [OF inv find rows dinv f(1)]) (simp_all add: f(2))
qed

lemma service_step_once:
  assumes "service_step E d d'" and inv: "once_inv V sent (d, w)"
  shows "once_inv V sent (d', w)"
proof -
  have dinv: "db_inv d'" using service_step_inv [OF assms(1) once_inv_db [OF inv]] .
  show ?thesis using assms(1)
  proof (cases rule: service_step.cases)
    case (step_initiate c now e)
    then show ?thesis by (intro once_inv_append [OF inv _ dinv, of c]) simp_all
  next
    case (step_reject c now code reason)
    then show ?thesis
      by (intro once_inv_claiming_row [OF inv _ _ _ dinv, of c
            "\<lambda>r. (set_claim_status Rejected r)\<lparr>cl_error := Some code\<rparr>"])
        (auto simp: rejectClaim_def set_claim_status_def)
  next
    case (step_expire c now)
    then show ?thesis
      by (intro once_inv_claiming_row [OF inv _ _ _ dinv, of c "set_claim_status Expired_claim"])
        (auto simp: expireClaim_def set_claim_status_def)
  next
    case (step_reap now c)
    show ?thesis
    proof (cases "\<exists>x \<in> set (db_claims d). cl_claim_id x = cl_claim_id c \<and> cl_status x = Claiming")
      case True
      then obtain x where "x \<in> set (db_claims d)" "cl_claim_id x = cl_claim_id c" "cl_status x = Claiming" by blast
      with step_reap show ?thesis
        by (intro once_inv_claiming_row [OF inv _ _ _ dinv, of x
              "\<lambda>r. if cl_status r = Claiming then set_claim_status Expired_claim r else r"])
          (auto simp: reap_row_def set_claim_status_def)
    next
      case False
      then have "db_claims d' = db_claims d" unfolding step_reap reap_row_def by (auto intro: row_update_id)
      moreover have "db_assets d' = db_assets d" unfolding step_reap reap_row_def by simp
      ultimately show ?thesis using once_inv_same [OF inv] by blast
    qed
  next
    case (step_win c now a pf st ast e sl settlement)
    then show ?thesis
      by (intro once_inv_claiming_row [OF inv _ _ _ dinv, of c "won_row st (cp_signature pf) sl settlement now"])
        (auto simp: won_row_def set_claim_status_def)
  qed
qed

lemma approve_cases:
  obtains "snd (approveClaim E now cid who d) = d"
  | c where "find_claim d cid = Some c" "cl_status c = PendingReview \<or> cl_status c = Verified"
      "db_claims (snd (approveClaim E now cid who d)) =
         row_update cl_claim_id cid (\<lambda>r. r\<lparr>cl_approved_at := Some now, cl_approved_by := Some who\<rparr>) (db_claims d)"
proof (cases "find_claim d cid")
  case None
  then show thesis by (intro that(1)) (simp add: approveClaim_def)
next
  case (Some c)
  show thesis
  proof (cases "cl_status c = PendingReview \<or> cl_status c = Verified")
    case True
    with Some show thesis by (intro that(2) [of c]) (auto simp: approveClaim_def)
  next
    case False
    with Some show thesis by (intro that(1)) (simp add: approveClaim_def)
  qed
qed

lemma reservation_recorded:
  assumes "reservation_change d d'"
  shows "recorded d' = recorded d"
proof -
  obtain f where f: "db_claims d' = map f (db_claims d)" "\<forall>c \<in> set (db_claims d). reserved_like c (f c)"
    using assms by (auto simp: reservation_change_def)
  have "cl_tx_signatures (f c) = cl_tx_signatures c" if "c \<in> set (db_claims d)" for c
    using f(2) that reserved_like_fields(6) by blast
  then show ?thesis by (simp add: recorded_def f(1))
qed

lemma reservation_once:
  assumes ch: "reservation_change d d'" and inv: "once_inv V sent (d, w)"
  shows "once_inv V sent (d', w)"
proof -
  obtain f where f: "db_claims d' = map f (db_claims d)" "\<forall>c \<in> set (db_claims d). reserved_like c (f c)"
    using ch by (auto simp: reservation_change_def)
  have like: "reserved_like c (f c)" if "c \<in> set (db_claims d)" for c using f(2) that by blast
  have sigs: "cl_tx_signatures (f c) = cl_tx_signatures c" "cl_claim_id (f c) = cl_claim_id c"
    if "c \<in> set (db_claims d)" for c using reserved_like_fields(1,6) [OF like [OF that]] by simp_all
  have ok: "claim_ok V w (f c)" if c: "c \<in> set (db_claims d)" for c
  proof (cases "f c = c")
    case False
    then have st: "cl_status c \<in> {Verified, PendingReview}" "cl_status (f c) \<in> {Verified, PendingReview}"
      "cl_dispatch_signature c = None" using like [OF c] by (auto simp: reserved_like_def)
    note ok = once_inv_claim [OF inv c] and fields = reserved_like_fields [OF like [OF c]]
    show ?thesis
      by (rule claim_okI) (use claim_okD [OF ok] st fields in \<open>auto simp: at_rest_def\<close>)
  qed (use once_inv_claim [OF inv c] in simp)
  note r = reservation_recorded [OF ch]
  show "once_inv V sent (d', w)"
    unfolding once_inv_def fst_conv snd_conv
  proof (intro conjI)
    show "db_inv d'" by (rule reservation_change_inv [OF ch once_inv_db [OF inv]])
    show "\<forall>c \<in> set (db_claims d'). claim_ok V w c" using ok by (auto simp: f(1))
    show "\<forall>c \<in> set (db_claims d'). \<forall>c' \<in> set (db_claims d'). cl_claim_id c \<noteq> cl_claim_id c'
        \<longrightarrow> set (cl_tx_signatures c) \<inter> set (cl_tx_signatures c') = {}"
      using inv sigs by (simp add: f(1) once_inv_def)
    show "vw_sent V w \<subseteq> sent \<union> recorded d'" using inv r by (simp add: once_inv_def)
  qed
qed

lemma env_step_once:
  assumes "env_step E d d'" and inv: "once_inv V sent (d, w)"
  shows "once_inv V sent (d', w)"
  using assms(1)
proof cases
  case env_service
  then show ?thesis using inv by (rule service_step_once)
next
  case env_reserve
  show ?thesis by (rule reservation_once [OF env_reserve(2) inv])
next
  case (env_approve now cid who)
  have dinv: "db_inv d'" unfolding env_approve
    by (rule bounded_change_inv [OF dispatch_step_bounded [OF step_approve] once_inv_db [OF inv]])
  show ?thesis
  proof (cases rule: approve_cases [of E now cid who d])
    case 1
    with env_approve inv show ?thesis by simp
  next
    case (2 c)
    have "claim_ok V w c" using once_inv_claim [OF inv] find_claim_mem [OF 2(1)] by blast
    then have ok: "claim_ok V w (c\<lparr>cl_approved_at := Some now, cl_approved_by := Some who\<rparr>)"
      by (rule claim_ok_same) simp_all
    show ?thesis
      by (rule once_inv_row [OF inv 2(1), where f = "\<lambda>r. r\<lparr>cl_approved_at := Some now, cl_approved_by := Some who\<rparr>"])
        (simp_all add: 2(3) env_approve ok dinv [unfolded env_approve])
  qed
qed

lemma env_steps_once:
  "(env_step E)\<^sup>*\<^sup>* d d' \<Longrightarrow> once_inv V sent (d, w) \<Longrightarrow> once_inv V sent (d', w)"
  by (induction rule: rtranclp_induct) (auto intro: env_step_once)

text \<open>
  What the worker may remember of a claim from one access to the next: that it is ready to be
  dispatched, or in flight with a given signature.
\<close>

definition ready :: "string \<Rightarrow> string \<Rightarrow> db \<times> 'w \<Rightarrow> bool" where
  "ready cid k s = (\<exists>c. find_claim (fst s) cid = Some c \<and> cl_asset_key c = k
      \<and> cl_status c \<in> {Verified, PendingReview})"

definition in_flight_with :: "string \<Rightarrow> string \<Rightarrow> db \<times> 'w \<Rightarrow> bool" where
  "in_flight_with cid sig s = (\<exists>c. find_claim (fst s) cid = Some c \<and> cl_status c = Dispatching
      \<and> cl_dispatch_signature c = Some sig)"

lemma env_step_row:
  assumes "env_step E d d'" and "db_inv d" and "find_claim d cid = Some c" and "cl_status c \<noteq> Claiming"
  shows "\<exists>c'. find_claim d' cid = Some c' \<and> cl_asset_key c' = cl_asset_key c
      \<and> cl_dispatch_signature c' = cl_dispatch_signature c \<and> cl_tx_signatures c' = cl_tx_signatures c
      \<and> (if cl_status c \<in> {Verified, PendingReview} then cl_status c' \<in> {Verified, PendingReview}
         else cl_status c' = cl_status c \<and> cl_ant_batch_id c' = cl_ant_batch_id c)"
  using assms(1)
proof cases
  case env_service
  from service_step_settled [OF this assms(2-4)] show ?thesis by simp
next
  case env_reserve
  from reservation_change_row [OF env_reserve(2) assms(3)] obtain c' where
    c': "find_claim d' cid = Some c'" "reserved_like c c'" by blast
  from reserved_like_fields [OF c'(2)] reserved_like_rest [OF c'(2)] reserved_like_moved [OF c'(2)] c'(1)
  show ?thesis by auto
next
  case (env_approve now cid' who)
  show ?thesis
  proof (cases rule: approve_cases [of E now cid' who d])
    case 1
    with env_approve assms(3) show ?thesis by simp
  next
    case (2 x)
    then have "find_claim d' cid = (if cid = cid'
        then Some (c\<lparr>cl_approved_at := Some now, cl_approved_by := Some who\<rparr>) else Some c)"
      using assms(3) by (cases "cid = cid'") (simp_all add: env_approve row_find_update)
    then show ?thesis by (cases "cid = cid'") simp_all
  qed
qed

lemma env_step_facts:
  assumes "env_step E d d'" and "db_inv d"
  shows "ready cid k (d, w) \<Longrightarrow> ready cid k (d', w)"
    and "in_flight_with cid sig (d, w) \<Longrightarrow> in_flight_with cid sig (d', w)"
  using env_step_row [OF assms, of cid] unfolding ready_def in_flight_with_def fst_conv by fastforce+

section \<open>The transactions of dispatch\<close>

lemma once_inv_step:
  assumes "once_inv V sent (d, w)" and "dispatch_step E d d'"
  shows "db_inv d'"
  using bounded_change_inv [OF dispatch_step_bounded [OF assms(2)] once_inv_db [OF assms(1)]] .

lemma find_claim_ok:
  assumes "once_inv V sent (d, w)" and "find_claim d cid = Some c"
  shows "claim_ok V w c"
  using once_inv_claim [OF assms(1)] find_claim_mem [OF assms(2)] by simp

text \<open>
  The status of a claim with no current signature may become any status that is not dispatching or
  confirmed, if it stays won.
\<close>

lemma once_inv_restatus:
  assumes inv: "once_inv V sent (d, w)" and c: "find_claim d cid = Some c"
    and rows: "db_claims d' = row_update cl_claim_id cid f (db_claims d)" and dinv: "db_inv d'"
    and f: "\<And>r. cl_claim_id (f r) = cl_claim_id r" "\<And>r. cl_tx_signatures (f r) = cl_tx_signatures r"
    and sig: "cl_dispatch_signature (f c) = cl_dispatch_signature c"
    and st: "cl_status (f c) \<notin> {Dispatching, Confirmed}" "won (cl_status (f c))"
    and rest: "at_rest (cl_status (f c)) \<Longrightarrow> cl_dispatch_signature c = None"
  shows "once_inv V sent (d', w)"
proof -
  note ok = find_claim_ok [OF inv c]
  have "claim_ok V w (f c)"
  proof (rule claim_okI)
    show "dead V w s" if "s \<in> set (cl_tx_signatures (f c))" "cl_dispatch_signature (f c) \<noteq> Some s" for s
      using claim_okD(2) [OF ok] that by (simp add: f(2) sig)
    show "s \<in> vw_signed V w" if "s \<in> set (cl_tx_signatures (f c))" for s
      using claim_okD(1) [OF ok] that by (simp add: f(2))
  qed (use st rest in \<open>auto simp: sig\<close>)
  then show ?thesis by (rule once_inv_row [OF inv c rows dinv f(1)]) (simp_all add: f(2))
qed

lemma ready_claim:
  assumes "once_inv V sent (d, w)" and "ready cid k (d, w)"
  obtains c where "find_claim d cid = Some c" "cl_asset_key c = k" "cl_status c \<in> {Verified, PendingReview}"
    "cl_dispatch_signature c = None" "won (cl_status c)"
proof -
  from assms(2) obtain c where c: "find_claim d cid = Some c" "cl_asset_key c = k"
    "cl_status c \<in> {Verified, PendingReview}" by (auto simp: ready_def)
  have "cl_dispatch_signature c = None"
    using claim_okD(4) [OF find_claim_ok [OF assms(1) c(1)]] c(3) by (auto simp: at_rest_def)
  with c show thesis by (intro that) auto
qed

text \<open>Persisting: the new signature is fresh, signed, and will be the only one alive.\<close>

lemma persist_once:
  assumes inv: "once_inv V sent (d, w)" and A: "pa_claimId A = cid" "pa_assetKey A = k"
    and s: "pa_signed A = sd" "sd_signature sd \<in> vw_signed V w" "sd_signature sd \<notin> recorded d"
      "vw_validUntil V (sd_signature sd) = sd_lastValidBlockHeight sd"
    and ready: "ready cid k (d, w)"
  shows "once_inv V sent (snd (persistDispatching E now A d), w)"
    and "fst (persistDispatching E now A d) \<Longrightarrow>
      in_flight_with cid (sd_signature sd) (snd (persistDispatching E now A d), w)
      \<and> sd_signature sd \<in> recorded (snd (persistDispatching E now A d))"
proof -
  obtain c where c: "find_claim d cid = Some c" "cl_asset_key c = k" "cl_status c \<in> {Verified, PendingReview}"
    "cl_dispatch_signature c = None" "won (cl_status c)" using ready_claim [OF inv ready] .
  note ok = find_claim_ok [OF inv c(1)]
  have step: "dispatch_step E d (snd (persistDispatching E now A d))"
    by (rule step_persist [OF c(1) [folded A(1)]]) (simp add: A c(2))
  have "once_inv V sent (snd (persistDispatching E now A d), w) \<and> (fst (persistDispatching E now A d) \<longrightarrow>
      in_flight_with cid (sd_signature sd) (snd (persistDispatching E now A d), w)
      \<and> sd_signature sd \<in> recorded (snd (persistDispatching E now A d)))"
  proof (cases "fst (persistDispatching E now A d)")
    case False
    then have "snd (persistDispatching E now A d) = d"
      by (auto simp: persistDispatching_def split: option.splits if_splits)
    with inv False show ?thesis by simp
  next
    case True
    let ?d' = "snd (persistDispatching E now A d)"
    have rows: "db_claims ?d' = row_update cl_claim_id cid (dispatching_row A) (db_claims d)"
      using True A by (auto simp: persistDispatching_def split: option.splits if_splits)
    have tx: "cl_tx_signatures (dispatching_row A c) = cl_tx_signatures c @ [sd_signature sd]"
      "cl_dispatch_signature (dispatching_row A c) = Some (sd_signature sd)"
      "cl_dispatch_last_valid_bh (dispatching_row A c) = Some (sd_lastValidBlockHeight sd)"
      by (simp_all add: dispatching_row_def set_claim_status_def s(1))
    have "claim_ok V w (dispatching_row A c)"
    proof (rule claim_okI)
      show "x \<in> vw_signed V w" if "x \<in> set (cl_tx_signatures (dispatching_row A c))" for x
        using that claim_okD(1) [OF ok] s(2) by (auto simp: tx)
      show "dead V w x" if "x \<in> set (cl_tx_signatures (dispatching_row A c))"
        "cl_dispatch_signature (dispatching_row A c) \<noteq> Some x" for x
        using that claim_okD(2) [OF ok] c(4) by (auto simp: tx)
    qed (auto simp: tx at_rest_def s(4))
    then have once: "once_inv V sent (?d', w)"
      by (intro once_inv_row [OF inv c(1) rows once_inv_step [OF inv step]]) (auto simp: tx s(3))
    have find: "find_claim ?d' cid = Some (dispatching_row A c)"
      using c(1) by (simp add: rows row_find_update)
    then have "in_flight_with cid (sd_signature sd) (?d', w)" by (simp add: in_flight_with_def tx)
    moreover have "sd_signature sd \<in> recorded ?d'"
      using find_claim_mem [OF find] by (auto simp: recorded_def tx intro!: bexI [of _ "dispatching_row A c"])
    ultimately show ?thesis using once by simp
  qed
  then show "once_inv V sent (snd (persistDispatching E now A d), w)"
    and "fst (persistDispatching E now A d) \<Longrightarrow>
      in_flight_with cid (sd_signature sd) (snd (persistDispatching E now A d), w)
      \<and> sd_signature sd \<in> recorded (snd (persistDispatching E now A d))" by blast+
qed

lemma in_flight_claim:
  assumes "once_inv V sent (d, w)" and "in_flight_with cid sig (d, w)"
  obtains c where "find_claim d cid = Some c" "cl_status c = Dispatching" "cl_dispatch_signature c = Some sig"
    "sig \<in> set (cl_tx_signatures c)" "cl_dispatch_last_valid_bh c = Some (vw_validUntil V sig)" "claim_ok V w c"
proof -
  from assms(2) obtain c where c: "find_claim d cid = Some c" "cl_status c = Dispatching"
    "cl_dispatch_signature c = Some sig" by (auto simp: in_flight_with_def)
  note ok = find_claim_ok [OF assms(1) c(1)]
  from claim_okD(5) [OF ok c(2)] c(3) have "sig \<in> set (cl_tx_signatures c)"
    "cl_dispatch_last_valid_bh c = Some (vw_validUntil V sig)" by auto
  with c ok show thesis by (intro that)
qed

text \<open>Finalizing with a recorded signature that has landed.\<close>

lemma finalize_once:
  assumes inv: "once_inv V sent (d, w)" and c: "find_claim d cid = Some c" "won (cl_status c)"
    and sig: "sig \<in> set (cl_tx_signatures c)" "sig \<in> vw_landed V w"
  shows "once_inv V sent (finalizeConfirmed E now cid sig d, w)"
proof (cases "cl_status c = Confirmed")
  case True
  with inv c show ?thesis by (simp add: finalizeConfirmed_def)
next
  case False
  note ok = find_claim_ok [OF inv c(1)]
  have rows: "db_claims (finalizeConfirmed E now cid sig d) =
      row_update cl_claim_id cid (confirmed_row now sig) (db_claims d)"
    using False c by (simp add: finalizeConfirmed_def)
  have tx: "cl_tx_signatures (confirmed_row now sig c) = cl_tx_signatures c"
    "cl_dispatch_signature (confirmed_row now sig c) = cl_dispatch_signature c"
    using sig by (simp_all add: confirmed_row_def set_claim_status_def)
  have "claim_ok V w (confirmed_row now sig c)"
    by (rule claim_okI) (use claim_okD [OF ok] sig in \<open>auto simp: tx at_rest_def\<close>)
  then show ?thesis
    by (intro once_inv_row [OF inv c(1) rows once_inv_step [OF inv step_finalize [OF c]]]) (simp_all add: tx)
qed

lemma markFailed_once:
  assumes inv: "once_inv V sent (d, w)" and c: "find_claim d cid = Some c" "won (cl_status c)"
  shows "once_inv V sent (markFailed E now cid reason d, w)"
proof (cases "cl_status c = Confirmed")
  case True
  with inv c show ?thesis by (simp add: markFailed_def)
next
  case False
  have rows: "db_claims (markFailed E now cid reason d) = row_update cl_claim_id cid
      (\<lambda>r. (set_claim_status Failed r)\<lparr>cl_error := Some reason\<rparr>) (db_claims d)"
    using False c by (simp add: markFailed_def)
  show ?thesis
    by (rule once_inv_restatus [OF inv c(1) rows once_inv_step [OF inv step_failed [OF c]]])
      (simp_all add: set_claim_status_def at_rest_def)
qed

lemma markNeedsOperator_once:
  assumes inv: "once_inv V sent (d, w)" and c: "find_claim d cid = Some c" "won (cl_status c)"
  shows "once_inv V sent (snd (markNeedsOperator E now cid reason d), w)"
proof (cases "cl_status c = Confirmed \<or> cl_status c = NeedsOperator")
  case True
  with inv c show ?thesis by (auto simp: markNeedsOperator_def)
next
  case False
  have rows: "db_claims (snd (markNeedsOperator E now cid reason d)) = row_update cl_claim_id cid
      (\<lambda>r. (set_claim_status NeedsOperator r)\<lparr>cl_error := Some reason\<rparr>) (db_claims d)"
    using False c by (simp add: markNeedsOperator_def)
  show ?thesis
    by (rule once_inv_restatus [OF inv c(1) rows once_inv_step [OF inv step_needs_operator [OF c]]])
      (simp_all add: set_claim_status_def at_rest_def)
qed

lemma routeToReview_once:
  assumes inv: "once_inv V sent (d, w)" and r: "ready cid k (d, w)"
  shows "once_inv V sent (routeToReview E now cid k reason d, w)"
proof -
  obtain c where c: "find_claim d cid = Some c" "cl_asset_key c = k" "cl_status c \<in> {Verified, PendingReview}"
    "cl_dispatch_signature c = None" "won (cl_status c)" using ready_claim [OF inv r] .
  have rows: "db_claims (routeToReview E now cid k reason d) =
      row_update cl_claim_id cid (set_claim_status PendingReview) (db_claims d)"
    using c by (auto simp: routeToReview_def)
  show ?thesis
    by (rule once_inv_restatus [OF inv c(1) rows once_inv_step [OF inv step_review [OF c(1,5) c(2) [symmetric]]]])
      (simp_all add: set_claim_status_def c(4))
qed

lemma routeToManual_once:
  assumes inv: "once_inv V sent (d, w)" and r: "ready cid k (d, w)"
  shows "once_inv V sent (routeToManualVaultDelivery E now cid k unlock lck d, w)"
proof -
  obtain c where c: "find_claim d cid = Some c" "cl_asset_key c = k" "cl_status c \<in> {Verified, PendingReview}"
    "cl_dispatch_signature c = None" "won (cl_status c)" using ready_claim [OF inv r] .
  have rows: "db_claims (routeToManualVaultDelivery E now cid k unlock lck d) = row_update cl_claim_id cid
      (\<lambda>r. (set_claim_status AwaitingManualVaultDelivery r)\<lparr>cl_settlement := Some ''manual_vault_relock''\<rparr>)
      (db_claims d)"
    using c by (auto simp: routeToManualVaultDelivery_def)
  show ?thesis
    by (rule once_inv_restatus [OF inv c(1) rows once_inv_step [OF inv step_manual [OF c(1,5) c(2) [symmetric]]]])
      (simp_all add: set_claim_status_def c(4))
qed

text \<open>Clearing: the only way a claim in flight goes back to rest, and only with its signature dead.\<close>

lemma clear_once:
  assumes inv: "once_inv V sent (d, w)" and f: "in_flight_with cid sig (d, w)" and dead: "dead V w sig"
  shows "once_inv V sent (clearDeadSignature E now cid d, w)"
proof -
  obtain c where c: "find_claim d cid = Some c" "cl_status c = Dispatching" "cl_dispatch_signature c = Some sig"
    "sig \<in> set (cl_tx_signatures c)" "claim_ok V w c" using in_flight_claim [OF inv f] by metis
  show ?thesis
  proof (cases "cl_ant_batch_id c")
    case (Some b)
    with inv c show ?thesis by (simp add: clearDeadSignature_def)
  next
    case None
    define st where "st = (if cl_approved_at c \<noteq> None then PendingReview else Verified)"
    have rows: "db_claims (clearDeadSignature E now cid d) =
        row_update cl_claim_id cid (cleared_row st) (db_claims d)"
      using None c by (simp add: clearDeadSignature_def Let_def st_def)
    have "claim_ok V w (cleared_row st c)"
    proof (rule claim_okI)
      show "dead V w s" if "s \<in> set (cl_tx_signatures (cleared_row st c))" for s
        using that claim_okD(2) [OF c(5)] c(3) dead
        by (cases "s = sig") (simp_all add: cleared_row_def set_claim_status_def)
      show "s \<in> vw_signed V w" if "s \<in> set (cl_tx_signatures (cleared_row st c))" for s
        using that claim_okD(1) [OF c(5)] by (simp add: cleared_row_def set_claim_status_def)
    qed (auto simp: cleared_row_def set_claim_status_def st_def split: if_splits)
    then show ?thesis
      by (intro once_inv_row [OF inv c(1) rows once_inv_step [OF inv step_clear]])
        (simp_all add: cleared_row_def set_claim_status_def)
  qed
qed

lemma clear_ready:
  assumes "find_claim d cid = Some c" and "cl_status c = Dispatching" and "cl_ant_batch_id c = None"
  shows "ready cid (cl_asset_key c) (clearDeadSignature E now cid d, w)"
  using assms by (simp add: ready_def clearDeadSignature_def Let_def row_find_update)

section \<open>The worker\<close>

text \<open>Facts that survive both the passing of time and the steps of other processes.\<close>

definition steady :: "'k service_env \<Rightarrow> 'w chain_view \<Rightarrow> string set \<Rightarrow> (db \<times> 'w \<Rightarrow> bool) \<Rightarrow> bool" where
  "steady E V sent L =
     ((\<forall>d w w'. once_inv V sent (d, w) \<and> L (d, w) \<and> progress V w w' \<longrightarrow> L (d, w'))
      \<and> (\<forall>d d' w. once_inv V sent (d, w) \<and> L (d, w) \<and> env_step E d d' \<longrightarrow> L (d', w)))"

named_theorems steady_intros \<open>facts the worker may keep across steps of its environment\<close>

lemma steady_const [steady_intros]: "steady E V sent (\<lambda>s. b)"
  by (simp add: steady_def)

lemma steady_conj [steady_intros]:
  "steady E V sent L \<Longrightarrow> steady E V sent M \<Longrightarrow> steady E V sent (\<lambda>s. L s \<and> M s)"
  unfolding steady_def by blast

lemma steady_ready [steady_intros]: "steady E V sent (ready cid k)"
  unfolding steady_def
proof (intro conjI allI impI)
  fix d w w' assume "once_inv V sent (d, w) \<and> ready cid k (d, w) \<and> progress V w w'"
  then show "ready cid k (d, w')" by (simp add: ready_def)
next
  fix d d' w assume "once_inv V sent (d, w) \<and> ready cid k (d, w) \<and> env_step E d d'"
  then show "ready cid k (d', w)" using env_step_facts(1) once_inv_db by metis
qed

lemma steady_in_flight [steady_intros]: "steady E V sent (in_flight_with cid sig)"
  unfolding steady_def
proof (intro conjI allI impI)
  fix d w w' assume "once_inv V sent (d, w) \<and> in_flight_with cid sig (d, w) \<and> progress V w w'"
  then show "in_flight_with cid sig (d, w')" by (simp add: in_flight_with_def)
next
  fix d d' w assume "once_inv V sent (d, w) \<and> in_flight_with cid sig (d, w) \<and> env_step E d d'"
  then show "in_flight_with cid sig (d', w)" using env_step_facts(2) once_inv_db by metis
qed

lemma steady_world:
  "(\<And>w w'. R w \<Longrightarrow> progress V w w' \<Longrightarrow> R w') \<Longrightarrow> steady E V sent (\<lambda>s. R (snd s))"
  unfolding steady_def by auto

lemma steady_landed [steady_intros]: "steady E V sent (\<lambda>s. sig \<in> vw_landed V (snd s))"
  by (rule steady_world) (auto simp: progress_def)

lemma steady_signed [steady_intros]: "steady E V sent (\<lambda>s. sig \<in> vw_signed V (snd s))"
  by (rule steady_world) (auto simp: progress_def)

lemma steady_dead [steady_intros]: "steady E V sent (\<lambda>s. dead V (snd s) sig)"
  by (rule steady_world) (rule dead_progress)

lemma recorded_update:
  "db_claims d' = row_update cl_claim_id cid f (db_claims d) \<Longrightarrow> (\<And>r. cl_tx_signatures (f r) = cl_tx_signatures r)
     \<Longrightarrow> recorded d' = recorded d"
  by (auto simp: recorded_def row_update_def)

lemma env_step_recorded: "env_step E d d' \<Longrightarrow> recorded d' = recorded d"
proof (induction rule: env_step.induct)
  case (env_reserve d d')
  then show ?case by (intro reservation_recorded)
next
  case (env_service d d')
  then show ?case
  proof cases
    case (step_initiate c now e)
    then show ?thesis by (simp add: recorded_def undispatched_def)
  next
    case (step_reject c now code reason)
    then show ?thesis
      by (intro recorded_update [where f = "\<lambda>r. (set_claim_status Rejected r)\<lparr>cl_error := Some code\<rparr>"])
        (simp_all add: rejectClaim_def set_claim_status_def)
  next
    case (step_expire c now)
    then show ?thesis
      by (intro recorded_update [where f = "set_claim_status Expired_claim"])
        (simp_all add: expireClaim_def set_claim_status_def)
  next
    case (step_reap now c)
    then show ?thesis
      by (intro recorded_update [where f = "\<lambda>r. if cl_status r = Claiming then set_claim_status Expired_claim r else r"])
        (simp_all add: reap_row_def set_claim_status_def)
  next
    case (step_win c now a pf st ast e sl settlement)
    then show ?thesis
      by (intro recorded_update [where f = "won_row st (cp_signature pf) sl settlement now"])
        (simp_all add: won_row_def set_claim_status_def)
  qed
next
  case (env_approve d now cid who)
  show ?case
  proof (cases rule: approve_cases [of E now cid who d])
    case (2 c)
    show ?thesis by (rule recorded_update [OF 2(3)]) simp
  qed simp
qed

lemma steady_recorded [steady_intros]:
  "steady E V sent (\<lambda>s. sig \<in> recorded (fst s))" "steady E V sent (\<lambda>s. sig \<notin> recorded (fst s))"
  unfolding steady_def using env_step_recorded by auto

text \<open>A row the worker has read that nobody else may change.\<close>

definition row_like :: "claim_row \<Rightarrow> db \<times> 'w \<Rightarrow> bool" where
  "row_like snap s = (\<exists>c. find_claim (fst s) (cl_claim_id snap) = Some c \<and> cl_status c = cl_status snap
     \<and> cl_asset_key c = cl_asset_key snap \<and> cl_dispatch_signature c = cl_dispatch_signature snap
     \<and> cl_ant_batch_id c = cl_ant_batch_id snap \<and> cl_tx_signatures c = cl_tx_signatures snap)"

lemma steady_row_like [steady_intros]:
  assumes "cl_status snap \<notin> {Claiming, Verified, PendingReview}"
  shows "steady E V sent (row_like snap)"
  unfolding steady_def
proof (intro conjI allI impI)
  fix d w w' assume "once_inv V sent (d, w) \<and> row_like snap (d, w) \<and> progress V w w'"
  then show "row_like snap (d, w')" by (simp add: row_like_def)
next
  fix d d' w assume a: "once_inv V sent (d, w) \<and> row_like snap (d, w) \<and> env_step E d d'"
  then obtain c where c: "find_claim d (cl_claim_id snap) = Some c" "cl_status c = cl_status snap"
    "cl_asset_key c = cl_asset_key snap" "cl_dispatch_signature c = cl_dispatch_signature snap"
    "cl_ant_batch_id c = cl_ant_batch_id snap" "cl_tx_signatures c = cl_tx_signatures snap"
    by (auto simp: row_like_def)
  have "db_inv d" "env_step E d d'" "cl_status c \<noteq> Claiming" using a once_inv_db c(2) assms by auto
  from env_step_row [OF this(2,1) c(1) this(3)] c assms show "row_like snap (d', w)"
    unfolding row_like_def fst_conv by auto
qed

text \<open>
  What the worker relies on: a sound gateway; other processes that are the service and approvals;
  and database faults that send and sign nothing.
\<close>

locale safe_worker = gw: sound_gateway "wk_gateway D" V for D :: "('w, 'k) worker_deps" and V :: "'w chain_view" +
  assumes others_law: "(env_step (wk_env D))\<^sup>*\<^sup>* d (ac_others (wk_db D) w d)"
    and fault_law: "ac_fault (wk_db D) w = (r, w') \<Longrightarrow> quiet V w w'"
begin

lemma steady_others:
  assumes "steady (wk_env D) V sent L" and "once_inv V sent (d, w)" and "L (d, w)"
    and "(env_step (wk_env D))\<^sup>*\<^sup>* d d'"
  shows "once_inv V sent (d', w) \<and> L (d', w)"
  using assms(4)
proof (induction rule: rtranclp_induct)
  case (step d1 d2)
  have "once_inv V sent (d2, w)" by (rule env_step_once [OF step(2) conjunct1 [OF step.IH]])
  moreover have "L (d2, w)" using assms(1) step unfolding steady_def by blast
  ultimately show ?case by simp
qed (use assms in simp)

lemma tx_rule:
  assumes "steady (wk_env D) V sent L"
    and "\<And>d w. once_inv V sent (d, w) \<Longrightarrow> L (d, w) \<Longrightarrow>
      once_inv V sent (snd (f d), w) \<and> Q (fst (f d)) (snd (f d), w)"
  shows "hoare (\<lambda>s. once_inv V sent s \<and> L s) (db_tx (wk_db D) f) (\<lambda>x s. once_inv V sent s \<and> Q x s) (once_inv V sent)"
  unfolding hoare_def
proof (intro allI impI)
  fix s assume a: "once_inv V sent s \<and> L s"
  obtain d w where s: "s = (d, w)" by fastforce
  let ?d = "ac_others (wk_db D) w d"
  obtain r w' where ft: "ac_fault (wk_db D) w = (r, w')" by fastforce
  have q: "quiet V w w'" using fault_law [OF ft] .
  have "once_inv V sent (?d, w) \<and> L (?d, w)" using steady_others [OF assms(1) _ _ others_law] a s by simp
  then have l: "once_inv V sent (?d, w')" "L (?d, w')"
    using once_inv_quiet [OF _ q] quiet_progress [OF q] assms(1) unfolding steady_def by blast+
  note t = assms(2) [OF l]
  show "case db_tx (wk_db D) f s of (Inl e, s') \<Rightarrow> once_inv V sent s' | (Inr x, s') \<Rightarrow> once_inv V sent s' \<and> Q x s'"
    using t l by (cases r) (simp_all add: db_tx_def s ft Let_def)
qed

lemma do_rule:
  assumes "steady (wk_env D) V sent L"
    and "\<And>d w. once_inv V sent (d, w) \<Longrightarrow> L (d, w) \<Longrightarrow> once_inv V sent (f d, w) \<and> Q (f d, w)"
  shows "hoare (\<lambda>s. once_inv V sent s \<and> L s) (db_do (wk_db D) f) (\<lambda>x s. once_inv V sent s \<and> Q s) (once_inv V sent)"
  unfolding db_do_def by (rule tx_rule [OF assms(1)]) (use assms(2) in simp)

lemma read_rule:
  assumes "steady (wk_env D) V sent L"
    and "\<And>d w. once_inv V sent (d, w) \<Longrightarrow> L (d, w) \<Longrightarrow> Q (g d) (d, w)"
  shows "hoare (\<lambda>s. once_inv V sent s \<and> L s) (db_read (wk_db D) g) (\<lambda>x s. once_inv V sent s \<and> Q x s) (once_inv V sent)"
  unfolding db_read_def by (rule tx_rule [OF assms(1)]) (use assms(2) in simp)

lemma chain_rule:
  assumes "steady (wk_env D) V sent L"
    and "\<And>w r w'. m w = (r, w') \<Longrightarrow> quiet V w w' \<and> (\<forall>x. r = Inr x \<longrightarrow> R x w')"
  shows "hoare (\<lambda>s. once_inv V sent s \<and> L s) (chain m)
     (\<lambda>x s. once_inv V sent s \<and> L s \<and> R x (snd s)) (once_inv V sent)"
  unfolding hoare_def
proof (intro allI impI)
  fix s assume a: "once_inv V sent s \<and> L s"
  obtain d w where s: "s = (d, w)" by fastforce
  obtain r w' where m: "m w = (r, w')" by fastforce
  note law = assms(2) [OF m]
  have q: "quiet V w w'" using law by simp
  have l: "once_inv V sent (d, w')" "L (d, w')"
    using a s once_inv_quiet [OF _ q] quiet_progress [OF q] assms(1) unfolding steady_def by blast+
  show "case chain m s of (Inl e, s') \<Rightarrow> once_inv V sent s'
      | (Inr x, s') \<Rightarrow> once_inv V sent s' \<and> L s' \<and> R x (snd s')"
    using l law by (cases r) (simp_all add: chain_def s m)
qed

text \<open>A freshly signed transaction, not yet recorded.\<close>

definition fresh_signed :: "signed_dispatch \<Rightarrow> db \<times> 'w \<Rightarrow> bool" where
  "fresh_signed sd s = (sd_signature sd \<in> vw_signed V (snd s) \<and> sd_signature sd \<notin> recorded (fst s)
     \<and> vw_validUntil V (sd_signature sd) = sd_lastValidBlockHeight sd \<and> vw_wireSig V (sd_wireBase64 sd) = sd_signature sd)"

lemma steady_fresh_signed: "steady (wk_env D) V sent (fresh_signed sd)"
  unfolding fresh_signed_def by (intro steady_intros)

lemma recorded_signed: "once_inv V sent (d, w) \<Longrightarrow> sig \<in> recorded d \<Longrightarrow> sig \<in> vw_signed V w"
  unfolding recorded_def by (auto dest: claim_okD(1) [OF once_inv_claim])

lemma sign_rule:
  assumes "steady (wk_env D) V sent L"
  shows "hoare (\<lambda>s. once_inv V sent s \<and> L s) (chain (gw_signTransaction (wk_gateway D) ixs fp))
     (\<lambda>sd s. once_inv V sent s \<and> L s \<and> fresh_signed sd s) (once_inv V sent)"
  unfolding hoare_def
proof (intro allI impI)
  fix s assume a: "once_inv V sent s \<and> L s"
  obtain d w where s: "s = (d, w)" by fastforce
  obtain r w' where m: "gw_signTransaction (wk_gateway D) ixs fp w = (r, w')" by fastforce
  note law = gw.g_sign [OF m]
  have p: "progress V w w'" "vw_sent V w' = vw_sent V w" using law by simp_all
  have i: "once_inv V sent (d, w)" using a s by simp
  have l: "once_inv V sent (d, w')" by (rule once_inv_progress [OF i p(1)]) (simp add: p)
  have L: "L (d, w')" using a s p(1) assms unfolding steady_def by blast
  show "case chain (gw_signTransaction (wk_gateway D) ixs fp) s of (Inl e, s') \<Rightarrow> once_inv V sent s'
      | (Inr sd, s') \<Rightarrow> once_inv V sent s' \<and> L s' \<and> fresh_signed sd s'"
  proof (cases r)
    case (Inl e)
    with l show ?thesis by (simp add: chain_def s m)
  next
    case (Inr sd)
    then have "fresh_signed sd (d, w')" using law recorded_signed [OF i] by (auto simp: fresh_signed_def)
    with Inr l L show ?thesis by (simp add: chain_def s m)
  qed
qed

text \<open>A broadcast of a recorded transaction, caught.\<close>

lemma broadcast_rule:
  assumes "steady (wk_env D) V sent L" and "\<And>s. L s \<Longrightarrow> vw_wireSig V wire \<in> recorded (fst s)"
  shows "hoare (\<lambda>s. once_inv V sent s \<and> L s)
     (catch_all (chain (gw_broadcast (wk_gateway D) wire)) (\<lambda>e. io_return ()))
     (\<lambda>x s. once_inv V sent s \<and> L s) (once_inv V sent)"
  unfolding hoare_def
proof (intro allI impI)
  fix s assume a: "once_inv V sent s \<and> L s"
  obtain d w where s: "s = (d, w)" by fastforce
  obtain r w' where m: "gw_broadcast (wk_gateway D) wire w = (r, w')" by fastforce
  note law = gw.g_broadcast [OF m]
  have p: "progress V w w'" using law by simp
  have i: "once_inv V sent (d, w)" and rc: "vw_wireSig V wire \<in> recorded d" using a s assms(2) by auto
  have l: "once_inv V sent (d, w')" by (rule once_inv_progress [OF i p]) (use law rc in auto)
  have L: "L (d, w')" using a s p assms(1) unfolding steady_def by blast
  show "case catch_all (chain (gw_broadcast (wk_gateway D) wire)) (\<lambda>e. io_return ()) s of
      (Inl e, s') \<Rightarrow> once_inv V sent s' | (Inr x, s') \<Rightarrow> once_inv V sent s' \<and> L s'"
    using l L by (cases r) (simp_all add: catch_all_def chain_def s m io_return_def)
qed

end

context safe_worker begin

lemma hoare_inv: "hoare (\<lambda>s. once_inv V sent s \<and> L s) m Q (once_inv V sent) \<Longrightarrow> (\<And>x s. Q x s \<Longrightarrow> once_inv V sent s)
    \<Longrightarrow> hoare (\<lambda>s. once_inv V sent s \<and> L s) m (\<lambda>x. once_inv V sent) (once_inv V sent)"
  by (rule hoare_weaken)

lemma done_rule: "hoare (\<lambda>s. once_inv V sent s \<and> L s) (io_return x) (\<lambda>x. once_inv V sent) (once_inv V sent)"
  by (rule hoare_return) simp

text \<open>A transaction and then the answer.\<close>

lemma do_done_rule:
  assumes "steady (wk_env D) V sent L"
    and "\<And>d w. once_inv V sent (d, w) \<Longrightarrow> L (d, w) \<Longrightarrow> once_inv V sent (f d, w)"
  shows "hoare (\<lambda>s. once_inv V sent s \<and> L s) (io_bind (db_do (wk_db D) f) (\<lambda>u. io_return x))
     (\<lambda>x. once_inv V sent) (once_inv V sent)"
  by (rule hoare_bind [OF do_rule [OF assms(1), where Q = "\<lambda>s. True"]])
    (auto intro: assms(2) hoare_return)

text \<open>Persist, broadcast, confirm.\<close>

lemma dispatchSignedTx_once:
  assumes A: "pa_claimId A = cid" "pa_assetKey A = k" "pa_signed A = sd"
  shows "hoare (\<lambda>s. once_inv V sent s \<and> (ready cid k s \<and> fresh_signed sd s)) (dispatchSignedTx D T A)
     (\<lambda>x. once_inv V sent) (once_inv V sent)"
proof -
  let ?sig = "sd_signature sd"
  let ?F = "\<lambda>s. in_flight_with cid ?sig s \<and> ?sig \<in> recorded (fst s) \<and> vw_wireSig V (sd_wireBase64 sd) = ?sig"
  have persist: "hoare (\<lambda>s. once_inv V sent s \<and> (ready cid k s \<and> fresh_signed sd s))
      (db_tx (wk_db D) (persistDispatching (wk_env D) (ck_persist T) A))
      (\<lambda>p s. once_inv V sent s \<and> (p \<longrightarrow> ?F s)) (once_inv V sent)"
  proof (rule tx_rule)
    show "steady (wk_env D) V sent (\<lambda>s. ready cid k s \<and> fresh_signed sd s)"
      by (intro steady_intros steady_fresh_signed)
    fix d w assume inv: "once_inv V sent (d, w)" and r: "ready cid k (d, w) \<and> fresh_signed sd (d, w)"
    then have f: "?sig \<in> vw_signed V w" "?sig \<notin> recorded d" "vw_validUntil V ?sig = sd_lastValidBlockHeight sd"
      "vw_wireSig V (sd_wireBase64 sd) = ?sig" by (simp_all add: fresh_signed_def)
    show "once_inv V sent (snd (persistDispatching (wk_env D) (ck_persist T) A d), w)
        \<and> (fst (persistDispatching (wk_env D) (ck_persist T) A d) \<longrightarrow>
             ?F (snd (persistDispatching (wk_env D) (ck_persist T) A d), w))"
      using persist_once [OF inv A f(1,2,3) conjunct1 [OF r], of "wk_env D" "ck_persist T"] f(4)
      unfolding fst_conv by blast
  qed
  have F: "steady (wk_env D) V sent ?F" by (intro steady_intros)
  have confirm: "hoare (\<lambda>s. once_inv V sent s \<and> ?F s)
      (chain (gw_confirmSignature (wk_gateway D) ?sig (sd_lastValidBlockHeight sd)))
      (\<lambda>state s. once_inv V sent s \<and> ?F s \<and> (state = StateConfirmed \<longrightarrow> ?sig \<in> vw_landed V (snd s)))
      (once_inv V sent)"
    by (rule chain_rule [OF F]) (use gw.g_confirm in blast)
  have finish: "hoare (\<lambda>s. once_inv V sent s \<and> ?F s \<and> (state = StateConfirmed \<longrightarrow> ?sig \<in> vw_landed V (snd s)))
     (if state = StateConfirmed
      then io_bind (db_do (wk_db D) (finalizeConfirmed (wk_env D) (ck_final T) (pa_claimId A) ?sig))
             (\<lambda>_. io_return (OutConfirmed, Some ?sig, None))
      else if state = StateFailed
      then io_bind (db_do (wk_db D) (markFailed (wk_env D) (ck_final T) (pa_claimId A)
                      (''on-chain tx '' @ ?sig @ '' failed'')))
             (\<lambda>_. io_return (OutFailed, Some ?sig, None))
      else io_return (OutAwaitingConfirmation, Some ?sig, None))
     (\<lambda>x. once_inv V sent) (once_inv V sent)" for state
  proof (rule hoare_ifE)
    assume st: "state = StateConfirmed"
    have "hoare (\<lambda>s. once_inv V sent s \<and> (?F s \<and> ?sig \<in> vw_landed V (snd s)))
       (io_bind (db_do (wk_db D) (finalizeConfirmed (wk_env D) (ck_final T) cid ?sig))
             (\<lambda>_. io_return (OutConfirmed, Some ?sig, None)))
       (\<lambda>x. once_inv V sent) (once_inv V sent)"
    proof (rule do_done_rule)
      show "steady (wk_env D) V sent (\<lambda>s. ?F s \<and> ?sig \<in> vw_landed V (snd s))" by (intro steady_intros)
      fix d w assume inv: "once_inv V sent (d, w)" and f: "?F (d, w) \<and> ?sig \<in> vw_landed V (snd (d, w))"
      then have "in_flight_with cid ?sig (d, w)" by blast
      from in_flight_claim [OF inv this] obtain c where c: "find_claim d cid = Some c" "cl_status c = Dispatching"
        "?sig \<in> set (cl_tx_signatures c)" by metis
      show "once_inv V sent (finalizeConfirmed (wk_env D) (ck_final T) cid ?sig d, w)"
        by (rule finalize_once [OF inv c(1) _ c(3)]) (use c(2) f in simp_all)
    qed
    then show "hoare (\<lambda>s. once_inv V sent s \<and> ?F s \<and> (state = StateConfirmed \<longrightarrow> ?sig \<in> vw_landed V (snd s)))
       (io_bind (db_do (wk_db D) (finalizeConfirmed (wk_env D) (ck_final T) (pa_claimId A) ?sig))
             (\<lambda>_. io_return (OutConfirmed, Some ?sig, None)))
       (\<lambda>x. once_inv V sent) (once_inv V sent)"
      unfolding A(1) by (rule hoare_pre) (use st in simp)
  next
    have "hoare (\<lambda>s. once_inv V sent s \<and> ?F s)
       (io_bind (db_do (wk_db D) (markFailed (wk_env D) (ck_final T) cid (''on-chain tx '' @ ?sig @ '' failed'')))
             (\<lambda>_. io_return (OutFailed, Some ?sig, None)))
       (\<lambda>x. once_inv V sent) (once_inv V sent)"
    proof (rule do_done_rule [OF F])
      fix d w assume inv: "once_inv V sent (d, w)" and f: "?F (d, w)"
      then have "in_flight_with cid ?sig (d, w)" by blast
      from in_flight_claim [OF inv this] obtain c where c: "find_claim d cid = Some c" "cl_status c = Dispatching" by metis
      show "once_inv V sent (markFailed (wk_env D) (ck_final T) cid (''on-chain tx '' @ ?sig @ '' failed'') d, w)"
        by (rule markFailed_once [OF inv c(1)]) (simp add: c(2))
    qed
    then show "hoare (\<lambda>s. once_inv V sent s \<and> ?F s \<and> (state = StateConfirmed \<longrightarrow> ?sig \<in> vw_landed V (snd s)))
       (if state = StateFailed
        then io_bind (db_do (wk_db D) (markFailed (wk_env D) (ck_final T) (pa_claimId A)
                        (''on-chain tx '' @ ?sig @ '' failed'')))
               (\<lambda>_. io_return (OutFailed, Some ?sig, None))
        else io_return (OutAwaitingConfirmation, Some ?sig, None))
       (\<lambda>x. once_inv V sent) (once_inv V sent)"
      unfolding A(1) by (intro hoare_ifE) (erule hoare_pre, simp, rule done_rule)
  qed
  show ?thesis
    unfolding dispatchSignedTx_def A(3) Let_def
  proof (rule hoare_bind [OF persist], rule hoare_ifE)
    fix p assume "\<not> p"
    show "hoare (\<lambda>s. once_inv V sent s \<and> (p \<longrightarrow> ?F s)) (io_return (OutSkipped, None, Some ''state changed before dispatch''))
        (\<lambda>x. once_inv V sent) (once_inv V sent)" by (rule done_rule)
  next
    fix p assume "\<not> \<not> p"
    then show "hoare (\<lambda>s. once_inv V sent s \<and> (p \<longrightarrow> ?F s))
       (io_bind (catch_all (chain (gw_broadcast (wk_gateway D) (sd_wireBase64 sd))) (\<lambda>e. io_return ()))
         (\<lambda>_. io_bind (chain (gw_confirmSignature (wk_gateway D) ?sig (sd_lastValidBlockHeight sd))) (\<lambda>state.
          if state = StateConfirmed
          then io_bind (db_do (wk_db D) (finalizeConfirmed (wk_env D) (ck_final T) (pa_claimId A) ?sig))
                 (\<lambda>_. io_return (OutConfirmed, Some ?sig, None))
          else if state = StateFailed
          then io_bind (db_do (wk_db D) (markFailed (wk_env D) (ck_final T) (pa_claimId A)
                          (''on-chain tx '' @ ?sig @ '' failed'')))
                 (\<lambda>_. io_return (OutFailed, Some ?sig, None))
          else io_return (OutAwaitingConfirmation, Some ?sig, None))))
       (\<lambda>x. once_inv V sent) (once_inv V sent)"
      by (intro hoare_bind [OF hoare_pre [OF broadcast_rule [OF F]]] hoare_bind [OF confirm] finish) auto
  qed
qed

lemma signPersist_once:
  assumes "as_asset_key asset = k"
  shows "hoare (\<lambda>s. once_inv V sent s \<and> ready cid k s)
     (signPersistBroadcastConfirm D T cid asset signer ixs amt lbl) (\<lambda>x. once_inv V sent) (once_inv V sent)"
  unfolding signPersistBroadcastConfirm_def
proof (rule hoare_bind [OF sign_rule [OF steady_ready]])
  fix sd
  have "hoare (\<lambda>s. once_inv V sent s \<and> (ready cid k s \<and> fresh_signed sd s))
      (dispatchSignedTx D T \<lparr>pa_claimId = cid, pa_assetKey = as_asset_key asset, pa_signed = sd,
         pa_settlementAmount = amt, pa_settlementLabel = lbl\<rparr>) (\<lambda>x. once_inv V sent) (once_inv V sent)"
    by (rule dispatchSignedTx_once) (simp_all add: assms)
  then show "hoare (\<lambda>s. once_inv V sent s \<and> ready cid k s \<and> fresh_signed sd s)
      (io_bind (dispatchSignedTx D T \<lparr>pa_claimId = cid, pa_assetKey = as_asset_key asset, pa_signed = sd,
         pa_settlementAmount = amt, pa_settlementLabel = lbl\<rparr>)
        (\<lambda>r. io_return (result_of cid (as_asset_key asset) (fst r) (fst (snd r)) (snd (snd r)))))
      (\<lambda>x. once_inv V sent) (once_inv V sent)"
    by (rule hoare_bind) (rule hoare_return)
qed

end

context safe_worker begin

text \<open>Transactions of a claim that is ready.\<close>

lemma ready_do_rule:
  assumes "\<And>d w c. once_inv V sent (d, w) \<Longrightarrow> ready cid k (d, w) \<Longrightarrow> find_claim d cid = Some c \<Longrightarrow> won (cl_status c)
      \<Longrightarrow> once_inv V sent (f d, w)"
  shows "hoare (\<lambda>s. once_inv V sent s \<and> ready cid k s) (io_bind (db_do (wk_db D) f) (\<lambda>u. io_return x))
     (\<lambda>x. once_inv V sent) (once_inv V sent)"
proof (rule do_done_rule [OF steady_ready])
  fix d w assume a: "once_inv V sent (d, w)" "ready cid k (d, w)"
  obtain c where "find_claim d cid = Some c" "won (cl_status c)" using ready_claim [OF a] by metis
  then show "once_inv V sent (f d, w)" by (rule assms [OF a])
qed

lemma ready_review:
  "hoare (\<lambda>s. once_inv V sent s \<and> ready cid k s)
     (io_bind (db_do (wk_db D) (routeToReview (wk_env D) t cid k reason)) (\<lambda>u. io_return x))
     (\<lambda>x. once_inv V sent) (once_inv V sent)"
  by (rule ready_do_rule) (rule routeToReview_once)

lemma ready_manual:
  "hoare (\<lambda>s. once_inv V sent s \<and> ready cid k s)
     (io_bind (db_do (wk_db D) (routeToManualVaultDelivery (wk_env D) t cid k unlock lck)) (\<lambda>u. io_return x))
     (\<lambda>x. once_inv V sent) (once_inv V sent)"
  by (rule ready_do_rule) (rule routeToManual_once)

lemma ready_failed:
  "hoare (\<lambda>s. once_inv V sent s \<and> ready cid k s)
     (io_bind (db_do (wk_db D) (markFailed (wk_env D) t cid reason)) (\<lambda>u. io_return x))
     (\<lambda>x. once_inv V sent) (once_inv V sent)"
  by (rule ready_do_rule) (rule markFailed_once)

lemma ready_result:
  "(\<And>x. r = Inr x \<Longrightarrow> hoare (\<lambda>s. once_inv V sent s \<and> L s) (f x) Q (once_inv V sent))
     \<Longrightarrow> hoare (\<lambda>s. once_inv V sent s \<and> L s) (io_bind (from_result r) f) Q (once_inv V sent)"
  by (cases r) (auto simp: hoare_def from_result_def io_bind_def)

lemma dispatch_ant_once:
  assumes "cl_claim_id snap = cid" and "as_asset_key asset = k"
  shows "hoare (\<lambda>s. once_inv V sent s \<and> ready cid k s) (dispatch_ant D T ov snap asset)
     (\<lambda>x. once_inv V sent) (once_inv V sent)"
  unfolding dispatch_ant_def Let_def assms
  by (intro hoare_ifE ready_review)
    (auto split: option.split intro!: hoare_ifE ready_failed done_rule ready_result signPersist_once assms)

lemma settle_liquid_once:
  assumes "cl_claim_id snap = cid" and "as_asset_key asset = k"
  shows "hoare (\<lambda>s. once_inv V sent s \<and> ready cid k s) (settle_liquid D T snap asset amount label)
     (\<lambda>x. once_inv V sent) (once_inv V sent)"
  unfolding settle_liquid_def assms(1) by (intro ready_result signPersist_once assms)

lemma relock_build_quiet:
  "buildVaultRelockIxs K (gw_getAccountData (wk_gateway D)) A w = (r, w') \<Longrightarrow> quiet V w w'"
  unfolding buildVaultRelockIxs_def io_bind_def
  by (auto split: prod.splits sum.splits dest: gw.g_account)

lemma settle_relock_once:
  assumes "cl_claim_id snap = cid" and "as_asset_key asset = k"
  shows "hoare (\<lambda>s. once_inv V sent s \<and> ready cid k s) (settle_relock D T snap asset amount lck unlock)
     (\<lambda>x. once_inv V sent) (once_inv V sent)"
  unfolding settle_relock_def Let_def assms
proof (rule hoare_ifE [OF ready_manual], rule hoare_bind [where R = "\<lambda>x s. once_inv V sent s \<and> ready cid k s \<and> True"])
  show "hoare (\<lambda>s. once_inv V sent s \<and> ready cid k s)
     (chain (buildVaultRelockIxs (wk_kit D) (gw_getAccountData (wk_gateway D))
             (relock_args_of D (the (wk_arioCoreProgram D)) cid (cl_claimant snap) amount lck)))
     (\<lambda>x s. once_inv V sent s \<and> ready cid k s \<and> True) (once_inv V sent)"
    by (rule chain_rule [OF steady_ready]) (auto dest: relock_build_quiet)
qed (simp add: signPersist_once assms(2))

lemma dispatch_settle_once:
  assumes "cl_claim_id snap = cid" and "as_asset_key asset = k"
  shows "hoare (\<lambda>s. once_inv V sent s \<and> ready cid k s) (dispatch_settle D T snap asset amount)
     (\<lambda>x. once_inv V sent) (once_inv V sent)"
  unfolding dispatch_settle_def Let_def assms
  by (rule hoare_ifE)
    (auto split: sum.split vault_settlement.split
      intro: ready_manual settle_liquid_once [OF assms] settle_relock_once [OF assms])

lemma dispatch_funds_once:
  assumes "cl_claim_id snap = cid" and "as_asset_key asset = k"
  shows "hoare (\<lambda>s. once_inv V sent s \<and> ready cid k s) (dispatch_funds D T snap asset)
     (\<lambda>x. once_inv V sent) (once_inv V sent)"
  unfolding dispatch_funds_def Let_def assms
proof (rule hoare_bind [where R = "\<lambda>x s. once_inv V sent s \<and> ready cid k s \<and> True"])
  show "hoare (\<lambda>s. once_inv V sent s \<and> ready cid k s) (chain (gw_getTokenBalance (wk_gateway D) (hotAta D)))
     (\<lambda>x s. once_inv V sent s \<and> ready cid k s \<and> True) (once_inv V sent)"
    by (rule chain_rule [OF steady_ready]) (auto dest: gw.g_balance)
next
  fix balance
  show "hoare (\<lambda>s. once_inv V sent s \<and> ready cid k s \<and> True)
     (io_bind (db_read (wk_db D) (float_reserved (wk_scope D) (Some cid))) (\<lambda>reserved.
        case float_check (wk_policy D) (case as_amount asset of None \<Rightarrow> 0 | Some v \<Rightarrow> v)
               (float_available balance reserved) (cl_approved_at snap \<noteq> None) of
          None \<Rightarrow> io_bind (from_result (ds_unlock (wk_token D)))
                    (\<lambda>_. dispatch_settle D T snap asset (case as_amount asset of None \<Rightarrow> 0 | Some v \<Rightarrow> v))
        | Some (InsufficientFloat need avail) \<Rightarrow>
            io_return (result_of cid k OutDeferredRefill None (Some ''refill needed''))
        | Some (ExceedsBrake amt threshold) \<Rightarrow>
            io_bind (db_do (wk_db D) (routeToReview (wk_env D) (ck_fresh T) cid k
                       (''amount '' @ dec_int (case as_amount asset of None \<Rightarrow> 0 | Some v \<Rightarrow> v)
                        @ '' over brake '' @ dec_int threshold)))
              (\<lambda>_. io_return (result_of cid k OutRoutedToReview None (Some ''big-claim brake'')))))
     (\<lambda>x. once_inv V sent) (once_inv V sent)"
  proof (rule hoare_bind [where R = "\<lambda>x s. once_inv V sent s \<and> ready cid k s"])
    show "hoare (\<lambda>s. once_inv V sent s \<and> ready cid k s \<and> True)
       (db_read (wk_db D) (float_reserved (wk_scope D) (Some cid)))
       (\<lambda>x s. once_inv V sent s \<and> ready cid k s) (once_inv V sent)"
      by (rule hoare_pre [OF read_rule [OF steady_ready, of sent cid k, where Q = "\<lambda>x. ready cid k"]]) simp_all
  qed (auto split: option.split float_denial.split
      intro!: ready_review done_rule ready_result dispatch_settle_once assms)
qed

lemma dispatchFresh_once:
  "hoare (\<lambda>s. once_inv V sent s \<and> ready cid k s) (dispatchFresh D T ov cid)
     (\<lambda>x. once_inv V sent) (once_inv V sent)"
  unfolding dispatchFresh_def
proof (rule hoare_bind [OF read_rule [OF steady_ready, where
        Q = "\<lambda>row s. ready cid k s \<and> (\<forall>snap. row = Some snap \<longrightarrow> cl_claim_id snap = cid \<and> cl_asset_key snap = k)"]])
  fix d w assume a: "once_inv V sent (d, w)" "ready cid k (d, w)"
  then show "ready cid k (d, w) \<and> (\<forall>snap. find_claim d cid = Some snap \<longrightarrow>
      cl_claim_id snap = cid \<and> cl_asset_key snap = k)"
    using find_claim_mem by (auto simp: ready_def)
next
  fix row
  show "hoare (\<lambda>s. once_inv V sent s \<and> ready cid k s \<and>
        (\<forall>snap. row = Some snap \<longrightarrow> cl_claim_id snap = cid \<and> cl_asset_key snap = k))
     (case row of
       None \<Rightarrow> io_return (result_of cid [] OutSkipped None (Some ''vanished''))
     | Some snap \<Rightarrow>
         io_bind (db_read (wk_db D) (\<lambda>d. find_asset d (cl_asset_key snap))) (\<lambda>arow.
         case arow of
           None \<Rightarrow> io_return (result_of cid (cl_asset_key snap) OutSkipped None (Some ''asset missing''))
         | Some asset \<Rightarrow>
             if as_status asset = A_claimed \<or> as_status asset = Cancelled
             then io_return (result_of cid (as_asset_key asset) OutSkipped None
                    (Some (''asset '' @ asset_status_str (as_status asset))))
             else io_bind (from_result (address (wk_kit D) (cl_claimant snap))) (\<lambda>_.
               if as_asset_type asset = AssetAnt then dispatch_ant D T ov snap asset
               else dispatch_funds D T snap asset)))
     (\<lambda>x. once_inv V sent) (once_inv V sent)"
  proof (cases row)
    case None
    then show ?thesis by (simp add: done_rule)
  next
    case (Some snap)
    show ?thesis
    proof (cases "cl_claim_id snap = cid \<and> cl_asset_key snap = k")
      case False
      with Some show ?thesis by (intro hoare_false) simp
    next
      case True
      have asset: "hoare (\<lambda>s. once_inv V sent s \<and> ready cid k s) (db_read (wk_db D) (\<lambda>d. find_asset d k))
          (\<lambda>arow s. once_inv V sent s \<and> (ready cid k s \<and> (\<forall>a. arow = Some a \<longrightarrow> as_asset_key a = k))) (once_inv V sent)"
        by (rule read_rule [OF steady_ready]) (auto dest: row_find_Some)
      have rest: "hoare (\<lambda>s. once_inv V sent s \<and> (ready cid k s \<and> (\<forall>a. arow = Some a \<longrightarrow> as_asset_key a = k)))
         (case arow of
           None \<Rightarrow> io_return (result_of cid k OutSkipped None (Some ''asset missing''))
         | Some asset \<Rightarrow>
             if as_status asset = A_claimed \<or> as_status asset = Cancelled
             then io_return (result_of cid (as_asset_key asset) OutSkipped None
                    (Some (''asset '' @ asset_status_str (as_status asset))))
             else io_bind (from_result (address (wk_kit D) (cl_claimant snap))) (\<lambda>_.
               if as_asset_type asset = AssetAnt then dispatch_ant D T ov snap asset
               else dispatch_funds D T snap asset)) (\<lambda>x. once_inv V sent) (once_inv V sent)" for arow
      proof (cases arow)
        case None
        then show ?thesis by (simp add: done_rule)
      next
        case (Some a)
        show ?thesis
        proof (cases "as_asset_key a = k")
          case False
          with Some show ?thesis by (intro hoare_false) simp
        next
          case True
          with Some \<open>cl_claim_id snap = cid \<and> cl_asset_key snap = k\<close> show ?thesis
            by (simp add: done_rule) (auto intro!: ready_result dispatch_ant_once dispatch_funds_once)
        qed
      qed
      show ?thesis using True Some by simp (rule hoare_bind [OF asset rest])
    qed
  qed
qed

end

context safe_worker begin

text \<open>Transactions of a claim in flight.\<close>

definition flying :: "claim_row \<Rightarrow> string \<Rightarrow> db \<times> 'w \<Rightarrow> bool" where
  "flying snap sig s = (row_like snap s \<and> cl_status snap = Dispatching \<and> cl_dispatch_signature snap = Some sig
     \<and> sig \<in> set (cl_tx_signatures snap) \<and> cl_ant_batch_id snap = None)"

lemma steady_flying: "steady (wk_env D) V sent (flying snap sig)"
proof (cases "cl_status snap = Dispatching")
  case True
  then show ?thesis unfolding flying_def by (intro steady_intros) simp
next
  case False
  then have "flying snap sig = (\<lambda>s. False)" by (auto simp: flying_def fun_eq_iff)
  then show ?thesis by (simp add: steady_const)
qed

lemma flying_claim:
  assumes "flying snap sig (d, w)" and "cl_claim_id snap = cid"
  obtains c where "find_claim d cid = Some c" "cl_status c = Dispatching" "cl_dispatch_signature c = Some sig"
    "cl_tx_signatures c = cl_tx_signatures snap" "cl_ant_batch_id c = None" "cl_asset_key c = cl_asset_key snap"
  using assms by (auto simp: flying_def row_like_def)

lemma flying_in_flight: "flying snap sig (d, w) \<Longrightarrow> in_flight_with (cl_claim_id snap) sig (d, w)"
  by (auto simp: flying_def row_like_def in_flight_with_def)

lemma flying_finalize:
  assumes "landed \<in> set (cl_tx_signatures snap)"
  shows "hoare (\<lambda>s. once_inv V sent s \<and> (flying snap sig s \<and> landed \<in> vw_landed V (snd s)))
     (io_bind (db_do (wk_db D) (finalizeConfirmed (wk_env D) t (cl_claim_id snap) landed)) (\<lambda>u. io_return x))
     (\<lambda>x. once_inv V sent) (once_inv V sent)"
proof (rule do_done_rule)
  show "steady (wk_env D) V sent (\<lambda>s. flying snap sig s \<and> landed \<in> vw_landed V (snd s))"
    by (intro steady_intros steady_flying)
  fix d w assume inv: "once_inv V sent (d, w)" and f: "flying snap sig (d, w) \<and> landed \<in> vw_landed V (snd (d, w))"
  obtain c where c: "find_claim d (cl_claim_id snap) = Some c" "cl_status c = Dispatching"
    "cl_tx_signatures c = cl_tx_signatures snap" using flying_claim [OF conjunct1 [OF f] refl] by metis
  show "once_inv V sent (finalizeConfirmed (wk_env D) t (cl_claim_id snap) landed d, w)"
    by (rule finalize_once [OF inv c(1)]) (use c assms f in simp_all)
qed

lemma flying_failed:
  "hoare (\<lambda>s. once_inv V sent s \<and> flying snap sig s)
     (io_bind (db_do (wk_db D) (markFailed (wk_env D) t (cl_claim_id snap) reason)) (\<lambda>u. io_return x))
     (\<lambda>x. once_inv V sent) (once_inv V sent)"
proof (rule do_done_rule [OF steady_flying])
  fix d w assume inv: "once_inv V sent (d, w)" and f: "flying snap sig (d, w)"
  obtain c where "find_claim d (cl_claim_id snap) = Some c" "cl_status c = Dispatching"
    using flying_claim [OF f refl] by metis
  then show "once_inv V sent (markFailed (wk_env D) t (cl_claim_id snap) reason d, w)"
    by (intro markFailed_once [OF inv, where c = c]) simp_all
qed

lemma flying_needs_operator:
  "hoare (\<lambda>s. once_inv V sent s \<and> flying snap sig s)
     (io_bind (db_tx (wk_db D) (markNeedsOperator (wk_env D) t (cl_claim_id snap) reason)) (\<lambda>u. io_return x))
     (\<lambda>x. once_inv V sent) (once_inv V sent)"
proof (rule hoare_bind [OF tx_rule [OF steady_flying, where Q = "\<lambda>x s. True"]])
  fix d w assume inv: "once_inv V sent (d, w)" and f: "flying snap sig (d, w)"
  obtain c where "find_claim d (cl_claim_id snap) = Some c" "cl_status c = Dispatching"
    using flying_claim [OF f refl] by metis
  then show "once_inv V sent (snd (markNeedsOperator (wk_env D) t (cl_claim_id snap) reason d), w) \<and> True"
    using markNeedsOperator_once [OF inv, where c = c] by simp
qed (simp add: hoare_return)

text \<open>Clearing needs the signature dead, and leaves the claim ready.\<close>

lemma flying_clear:
  "hoare (\<lambda>s. once_inv V sent s \<and> (flying snap sig s \<and> dead V (snd s) sig))
     (db_do (wk_db D) (clearDeadSignature (wk_env D) t (cl_claim_id snap)))
     (\<lambda>x s. once_inv V sent s \<and> ready (cl_claim_id snap) (cl_asset_key snap) s) (once_inv V sent)"
proof (rule do_rule)
  show "steady (wk_env D) V sent (\<lambda>s. flying snap sig s \<and> dead V (snd s) sig)"
    by (intro steady_intros steady_flying)
  fix d w assume inv: "once_inv V sent (d, w)" and f: "flying snap sig (d, w) \<and> dead V (snd (d, w)) sig"
  obtain c where c: "find_claim d (cl_claim_id snap) = Some c" "cl_status c = Dispatching"
    "cl_ant_batch_id c = None" "cl_asset_key c = cl_asset_key snap"
    using flying_claim [OF conjunct1 [OF f] refl] by metis
  have "once_inv V sent (clearDeadSignature (wk_env D) t (cl_claim_id snap) d, w)"
    by (rule clear_once [OF inv flying_in_flight]) (use f in auto)
  moreover have "ready (cl_claim_id snap) (cl_asset_key snap) (clearDeadSignature (wk_env D) t (cl_claim_id snap) d, w)"
    using clear_ready [OF c(1-3)] c(4) by simp
  ultimately show "once_inv V sent (clearDeadSignature (wk_env D) t (cl_claim_id snap) d, w)
      \<and> ready (cl_claim_id snap) (cl_asset_key snap) (clearDeadSignature (wk_env D) t (cl_claim_id snap) d, w)" ..
qed

lemma recover_expired_once:
  "hoare (\<lambda>s. once_inv V sent s \<and> (flying snap sig s \<and> dead V (snd s) sig)) (recover_expired D T ov snap sig)
     (\<lambda>x. once_inv V sent) (once_inv V sent)"
  unfolding recover_expired_def Let_def
proof (rule ready_result)
  let ?L = "\<lambda>s. flying snap sig s \<and> dead V (snd s) sig"
  let ?known = "filter (\<lambda>s. s \<noteq> []) (sig # cl_tx_signatures snap)"
  fix claimant
  have scan: "hoare (\<lambda>s. once_inv V sent s \<and> ?L s)
     (chain (gw_findConfirmedOutflow (wk_gateway D) [ds_address (wk_token D), claimant] ?known))
     (\<lambda>found s. once_inv V sent s \<and> ?L s \<and>
        (\<forall>x. found = Some x \<longrightarrow> x \<in> set ?known \<and> x \<in> vw_landed V (snd s))) (once_inv V sent)"
    by (rule chain_rule) (intro steady_intros steady_flying, use gw.g_outflow in blast)
  have rest: "hoare (\<lambda>s. once_inv V sent s \<and> ?L s \<and>
        (\<forall>x. found = Some x \<longrightarrow> x \<in> set ?known \<and> x \<in> vw_landed V (snd s)))
     (case found of
        Some landed \<Rightarrow>
          io_bind (db_do (wk_db D) (finalizeConfirmed (wk_env D) (ck_recover T) (cl_claim_id snap) landed))
            (\<lambda>_. io_return (result_of (cl_claim_id snap) (cl_asset_key snap) OutRecoveredConfirmed (Some landed) None))
      | None \<Rightarrow>
          if cl_dispatch_resign_count snap \<ge> MAX_RESIGN_ATTEMPTS
          then io_bind (db_tx (wk_db D) (markNeedsOperator (wk_env D) (ck_recover T) (cl_claim_id snap) resign_cap_reason))
                 (\<lambda>_. io_return (result_of (cl_claim_id snap) (cl_asset_key snap) OutNeedsOperator (Some sig)
                    (Some ''resign cap exceeded'')))
          else io_bind (db_do (wk_db D) (clearDeadSignature (wk_env D) (ck_recover T) (cl_claim_id snap)))
                 (\<lambda>_. dispatchFresh D T ov (cl_claim_id snap)))
     (\<lambda>x. once_inv V sent) (once_inv V sent)" for found
  proof (cases found)
    case None
    have "hoare (\<lambda>s. once_inv V sent s \<and> ?L s)
       (if cl_dispatch_resign_count snap \<ge> MAX_RESIGN_ATTEMPTS
          then io_bind (db_tx (wk_db D) (markNeedsOperator (wk_env D) (ck_recover T) (cl_claim_id snap) resign_cap_reason))
                 (\<lambda>_. io_return (result_of (cl_claim_id snap) (cl_asset_key snap) OutNeedsOperator (Some sig)
                    (Some ''resign cap exceeded'')))
          else io_bind (db_do (wk_db D) (clearDeadSignature (wk_env D) (ck_recover T) (cl_claim_id snap)))
                 (\<lambda>_. dispatchFresh D T ov (cl_claim_id snap)))
       (\<lambda>x. once_inv V sent) (once_inv V sent)"
      by (intro hoare_ifE hoare_bind [OF flying_clear] dispatchFresh_once)
        (rule hoare_pre [OF flying_needs_operator], blast)
    then show ?thesis using None by simp
  next
    case (Some landed)
    show ?thesis
    proof (cases "landed \<in> set (cl_tx_signatures snap) \<and> sig \<in> set (cl_tx_signatures snap)")
      case True
      show ?thesis unfolding Some option.case
        by (rule hoare_pre [OF flying_finalize [OF conjunct1 [OF True]]]) auto
    next
      case False
      then show ?thesis using Some by (intro hoare_false) (auto simp: flying_def)
    qed
  qed
  show "hoare (\<lambda>s. once_inv V sent s \<and> ?L s)
     (io_bind (chain (gw_findConfirmedOutflow (wk_gateway D) [ds_address (wk_token D), claimant] ?known)) (\<lambda>found.
      case found of
        Some landed \<Rightarrow>
          io_bind (db_do (wk_db D) (finalizeConfirmed (wk_env D) (ck_recover T) (cl_claim_id snap) landed))
            (\<lambda>_. io_return (result_of (cl_claim_id snap) (cl_asset_key snap) OutRecoveredConfirmed (Some landed) None))
      | None \<Rightarrow>
          if cl_dispatch_resign_count snap \<ge> MAX_RESIGN_ATTEMPTS
          then io_bind (db_tx (wk_db D) (markNeedsOperator (wk_env D) (ck_recover T) (cl_claim_id snap) resign_cap_reason))
                 (\<lambda>_. io_return (result_of (cl_claim_id snap) (cl_asset_key snap) OutNeedsOperator (Some sig)
                    (Some ''resign cap exceeded'')))
          else io_bind (db_do (wk_db D) (clearDeadSignature (wk_env D) (ck_recover T) (cl_claim_id snap)))
                 (\<lambda>_. dispatchFresh D T ov (cl_claim_id snap))))
     (\<lambda>x. once_inv V sent) (once_inv V sent)"
    by (rule hoare_bind [OF scan]) (use rest in blast)
qed

lemma recover_once:
  assumes "cl_dispatch_last_valid_bh snap = Some (vw_validUntil V sig)"
  shows "hoare (\<lambda>s. once_inv V sent s \<and> flying snap sig s) (recover D T ov snap)
     (\<lambda>x. once_inv V sent) (once_inv V sent)"
proof (cases "cl_dispatch_signature snap = Some sig \<and> sig \<in> set (cl_tx_signatures snap)")
  case False
  then show ?thesis by (intro hoare_false) (auto simp: flying_def)
next
  case True
  then have sig: "the (cl_dispatch_signature snap) = sig" "sig \<in> set (cl_tx_signatures snap)" by simp_all
  have lv: "(case cl_dispatch_last_valid_bh snap of Some v \<Rightarrow> v | None \<Rightarrow> 0) = vw_validUntil V sig"
    using assms by simp
  have confirm: "hoare (\<lambda>s. once_inv V sent s \<and> flying snap sig s)
     (chain (gw_confirmSignature (wk_gateway D) sig (vw_validUntil V sig)))
     (\<lambda>st s. once_inv V sent s \<and> flying snap sig s \<and> ((st = StateConfirmed \<longrightarrow> sig \<in> vw_landed V (snd s))
        \<and> (st = StateExpired \<longrightarrow> dead V (snd s) sig))) (once_inv V sent)"
    by (rule chain_rule [OF steady_flying]) (use gw.g_confirm in blast)
  show ?thesis
    unfolding recover_def Let_def sig lv
  proof (rule hoare_ifE [OF done_rule], rule hoare_bind [OF confirm])
    fix st
    show "hoare (\<lambda>s. once_inv V sent s \<and> flying snap sig s \<and> ((st = StateConfirmed \<longrightarrow> sig \<in> vw_landed V (snd s))
        \<and> (st = StateExpired \<longrightarrow> dead V (snd s) sig)))
      (case st of
        StateConfirmed \<Rightarrow>
          io_bind (db_do (wk_db D) (finalizeConfirmed (wk_env D) (ck_recover T) (cl_claim_id snap) sig))
            (\<lambda>_. io_return (result_of (cl_claim_id snap) (cl_asset_key snap) OutRecoveredConfirmed (Some sig) None))
      | StateFailed \<Rightarrow>
          io_bind (db_do (wk_db D) (markFailed (wk_env D) (ck_recover T) (cl_claim_id snap)
                     (''on-chain tx '' @ sig @ '' failed'')))
            (\<lambda>_. io_return (result_of (cl_claim_id snap) (cl_asset_key snap) OutFailed (Some sig) (Some ''tx failed'')))
      | StatePending \<Rightarrow> io_return (result_of (cl_claim_id snap) (cl_asset_key snap) OutAwaitingConfirmation (Some sig) None)
      | StateExpired \<Rightarrow> recover_expired D T ov snap sig)
      (\<lambda>x. once_inv V sent) (once_inv V sent)"
    proof (cases st)
      case StateConfirmed
      then show ?thesis by simp (rule hoare_pre [OF flying_finalize [OF sig(2)]], blast)
    next
      case StateFailed
      then show ?thesis by simp (rule flying_failed)
    next
      case StatePending
      then show ?thesis by simp (rule done_rule)
    next
      case StateExpired
      then show ?thesis by simp (rule recover_expired_once)
    qed
  qed
qed

text \<open>What the snapshot tells, by the invariant.\<close>

lemma snapshot_flying:
  assumes inv: "once_inv V sent (d, w)" and snap: "find_claim d cid = Some snap"
    and batch: "cl_ant_batch_id snap = None" and sig: "truthy (cl_dispatch_signature snap)"
    and st: "cl_status snap = Dispatching \<or> cl_status snap = Verified"
  shows "flying snap (the (cl_dispatch_signature snap)) (d, w)
    \<and> cl_dispatch_last_valid_bh snap = Some (vw_validUntil V (the (cl_dispatch_signature snap)))"
proof -
  obtain s where s: "cl_dispatch_signature snap = Some s" using sig by (auto simp: truthy_def split: option.splits)
  note ok = find_claim_ok [OF inv snap]
  have "cl_status snap = Dispatching" using st claim_okD(4) [OF ok] s by (auto simp: at_rest_def)
  moreover have "cl_claim_id snap = cid" using find_claim_mem [OF snap] by simp
  ultimately show ?thesis using claim_okD(5) [OF ok] snap batch s by (auto simp: flying_def row_like_def)
qed

lemma processClaim_once:
  "hoare (once_inv V sent) (processClaim D T ov cid) (\<lambda>x. once_inv V sent) (once_inv V sent)"
proof -
  define Q where "Q = (\<lambda>row (s :: db \<times> 'w). \<forall>snap. row = Some snap \<longrightarrow> find_claim (fst s) cid = Some snap \<and> once_inv V sent s)"
  have read: "hoare (\<lambda>s. once_inv V sent s \<and> True) (db_read (wk_db D) (\<lambda>d. find_claim d cid))
      (\<lambda>row s. once_inv V sent s \<and> Q row s) (once_inv V sent)"
    by (rule read_rule [OF steady_const]) (simp add: Q_def)
  have rest: "hoare (\<lambda>s. once_inv V sent s \<and> Q row s)
     (case row of
       None \<Rightarrow> io_return (result_of cid [] OutSkipped None (Some ''no such claim''))
     | Some snap \<Rightarrow>
         (if cl_status snap = Confirmed
          then io_return (result_of cid (cl_asset_key snap) OutAlreadyConfirmed (cl_dispatch_signature snap) None)
          else if cl_ant_batch_id snap \<noteq> None
          then io_return (result_of cid (cl_asset_key snap) OutSkipped None
                 (Some ''operator-wallet ANT claim (owned by ant-operator)''))
          else if truthy (cl_dispatch_signature snap) \<and> (cl_status snap = Dispatching \<or> cl_status snap = Verified)
          then recover D T ov snap
          else if cl_status snap = Verified then dispatchFresh D T ov cid
          else if cl_status snap = PendingReview \<and> cl_approved_at snap \<noteq> None then dispatchFresh D T ov cid
          else if cl_status snap = PendingReview then io_return (result_of cid (cl_asset_key snap) OutAwaitingApproval None None)
          else io_return (result_of cid (cl_asset_key snap) OutSkipped None
                 (Some (''status '' @ claim_status_str (cl_status snap))))))
     (\<lambda>x. once_inv V sent) (once_inv V sent)" for row
  proof (cases row)
    case None
    then show ?thesis by (simp add: done_rule)
  next
    case (Some snap)
    have fly: "hoare (\<lambda>s. once_inv V sent s \<and> Q row s) (recover D T ov snap) (\<lambda>x. once_inv V sent) (once_inv V sent)"
      if "truthy (cl_dispatch_signature snap) \<and> (cl_status snap = Dispatching \<or> cl_status snap = Verified)"
        "cl_ant_batch_id snap = None"
    proof (cases "\<exists>s. once_inv V sent s \<and> Q row s")
      case False
      then show ?thesis by (intro hoare_false) blast
    next
      case True
      then obtain d w where "once_inv V sent (d, w)" "find_claim d cid = Some snap" using Some by (auto simp: Q_def)
      from snapshot_flying [OF this that(2)] that(1)
      have lv: "cl_dispatch_last_valid_bh snap = Some (vw_validUntil V (the (cl_dispatch_signature snap)))" by blast
      show ?thesis
      proof (rule hoare_pre [OF recover_once [OF lv]])
        fix s assume a: "once_inv V sent s \<and> Q row s"
        obtain d w where s: "s = (d, w)" by fastforce
        with a Some have "once_inv V sent (d, w)" "find_claim d cid = Some snap" by (auto simp: Q_def)
        from snapshot_flying [OF this that(2)] that(1) show "once_inv V sent s \<and> flying snap (the (cl_dispatch_signature snap)) s"
          using a s by blast
      qed
    qed
    have fresh: "hoare (\<lambda>s. once_inv V sent s \<and> Q row s) (dispatchFresh D T ov cid) (\<lambda>x. once_inv V sent) (once_inv V sent)"
      if "cl_status snap \<in> {Verified, PendingReview}"
      by (rule hoare_pre [OF dispatchFresh_once [where k = "cl_asset_key snap"]])
        (use that Some in \<open>auto simp: Q_def ready_def\<close>)
    show ?thesis
      unfolding Some option.case
      by (intro hoare_ifE done_rule fly [unfolded Some] fresh [unfolded Some]) auto
  qed
  have "hoare (\<lambda>s. once_inv V sent s \<and> True) (processClaim D T ov cid) (\<lambda>x. once_inv V sent) (once_inv V sent)"
    unfolding processClaim_def Let_def by (rule hoare_bind [OF read rest])
  then show ?thesis by simp
qed

lemma run_claims_once:
  "hoare (once_inv V sent) (run_claims D clk ids) (\<lambda>x. once_inv V sent) (once_inv V sent)"
proof (induction ids arbitrary: clk)
  case Nil
  show ?case unfolding run_claims.simps by (rule hoare_return)
next
  case (Cons cid ids)
  have "hoare (once_inv V sent)
      (catch_all (processClaim D (clk 0) None cid) (\<lambda>detail. io_return (result_of cid [] OutError None (Some detail))))
      (\<lambda>x. once_inv V sent) (once_inv V sent)"
    by (rule hoare_catch [OF processClaim_once]) (rule hoare_return)
  then show ?case unfolding run_claims.simps
    by (intro hoare_bind [OF _ hoare_bind [OF Cons.IH hoare_return]])
qed

lemma batch_claims_once:
  "hoare (once_inv V sent) (batch_claims D clk signer ids) (\<lambda>x. once_inv V sent) (once_inv V sent)"
proof (induction ids arbitrary: clk)
  case Nil
  show ?case unfolding batch_claims.simps by (rule hoare_return)
next
  case (Cons cid ids)
  show ?case unfolding batch_claims.simps
    by (intro hoare_bind [OF processClaim_once hoare_bind [OF Cons.IH hoare_return]])
qed

lemma read_ids_once:
  "hoare (once_inv V sent) (db_read (wk_db D) g) (\<lambda>x. once_inv V sent) (once_inv V sent)"
  using read_rule [OF steady_const [of _ _ _ True], of sent "\<lambda>x s. True" g] by simp

lemma runOnce_once:
  "hoare (once_inv V sent) (runOnce D clk) (\<lambda>x. once_inv V sent) (once_inv V sent)"
  unfolding runOnce_def by (rule hoare_bind [OF read_ids_once run_claims_once])

lemma runAntBatch_once:
  "hoare (once_inv V sent) (runAntBatch D clk signer) (\<lambda>x. once_inv V sent) (once_inv V sent)"
  unfolding runAntBatch_def
  by (intro hoare_ifE hoare_from_result hoare_bind [OF read_ids_once batch_claims_once]) simp_all

end

end
