(* ===== verification/Worker_Runs.thy ===== *)
theory Worker_Runs
  imports Exactly_Once
begin

text \<open>
  Histories of one dispatch worker - ticks, operator batches, single claims, each possibly cut off by
  a failure, with time and the service running between them - and the exactly-once properties over
  them; and a small ledger on which the laws of the gateway hold.
\<close>

section \<open>Histories\<close>

inductive worker_step :: "('w, 'k) worker_deps \<Rightarrow> 'w chain_view \<Rightarrow> db \<times> 'w \<Rightarrow> db \<times> 'w \<Rightarrow> bool" for D V where
  worker_tick: "runOnce D clk s = (r, s') \<Longrightarrow> worker_step D V s s'"
| worker_batch: "runAntBatch D clk signer s = (r, s') \<Longrightarrow> worker_step D V s s'"
| worker_claim: "processClaim D T ov cid s = (r, s') \<Longrightarrow> worker_step D V s s'"
| time_passes: "quiet V w w' \<Longrightarrow> worker_step D V (d, w) (d, w')"
| service_runs: "env_step (wk_env D) d d' \<Longrightarrow> worker_step D V (d, w) (d', w)"

definition no_dispatch_yet :: "db \<Rightarrow> bool" where
  "no_dispatch_yet d = (\<forall>c \<in> set (db_claims d). cl_tx_signatures c = [] \<and> cl_dispatch_signature c = None
     \<and> cl_status c \<notin> {Dispatching, Confirmed})"

lemma once_inv_initial:
  assumes "db_inv d" and "no_dispatch_yet d"
  shows "once_inv V (vw_sent V w) (d, w)"
  using assms by (auto simp: once_inv_def no_dispatch_yet_def intro: claim_ok_blank)

lemma hoare_same: "hoare P m (\<lambda>x. P) P \<Longrightarrow> P s \<Longrightarrow> m s = (r, s') \<Longrightarrow> P s'"
  using hoare_run [of P m "\<lambda>x. P" P s r s'] by (cases r) simp_all

lemma worker_step_once:
  assumes "safe_worker D V" and "worker_step D V s s'" and "once_inv V sent s"
  shows "once_inv V sent s'"
  using assms(2)
proof cases
  case (worker_tick clk r)
  show ?thesis by (rule hoare_same [OF safe_worker.runOnce_once [OF assms(1)] assms(3) worker_tick])
next
  case (worker_batch clk signer r)
  show ?thesis by (rule hoare_same [OF safe_worker.runAntBatch_once [OF assms(1)] assms(3) worker_batch])
next
  case (worker_claim T ov cid r)
  show ?thesis by (rule hoare_same [OF safe_worker.processClaim_once [OF assms(1)] assms(3) worker_claim])
next
  case (time_passes w w' d)
  then show ?thesis using assms(3) once_inv_quiet by simp
next
  case (service_runs d d' w)
  then show ?thesis using assms(3) env_step_once by simp
qed

lemma history_once:
  assumes "safe_worker D V" and "(worker_step D V)\<^sup>*\<^sup>* (d, w) s'" and "db_inv d" and "no_dispatch_yet d"
  shows "once_inv V (vw_sent V w) s'"
  using assms(2)
proof (induction rule: rtranclp_induct)
  case base
  show ?case using assms(3,4) by (rule once_inv_initial)
next
  case (step s1 s2)
  then show ?case using worker_step_once [OF assms(1)] by simp
qed

section \<open>Properties\<close>

text \<open>
  C1. Exactly once: whatever the RPC and the database do, wherever the worker crashes, and however
  the service, approvals and the reservations of the ANT operator interleave, all the signatures ever recorded for one asset - by all its claims - have
  at most one that has landed or can still land. The hypotheses are the laws of the gateway (one
  consistent endpoint, fresh signatures that die with their blockhash), a single worker, and that it
  starts before anything was dispatched.
\<close>

theorem asset_paid_at_most_once:
  assumes "safe_worker D V" and "db_inv d" and "no_dispatch_yet d"
    and "(worker_step D V)\<^sup>*\<^sup>* (d, w) (d', w')"
    and "c \<in> set (db_claims d')" and "c' \<in> set (db_claims d')" and "cl_asset_key c = cl_asset_key c'"
    and "s \<in> set (cl_tx_signatures c)" and "\<not> dead V w' s"
    and "s' \<in> set (cl_tx_signatures c')" and "\<not> dead V w' s'"
  shows "s = s'"
  by (rule once_inv_unique [OF history_once [OF assms(1,4,2,3)] assms(5-11)])

text \<open>
  C2. Nothing leaves unrecorded: every transaction sent since the start is in the history of a claim
  that has won its asset, so a crash can never lose a payment.
\<close>

theorem sent_is_recorded:
  assumes "safe_worker D V" and "db_inv d" and "no_dispatch_yet d"
    and "(worker_step D V)\<^sup>*\<^sup>* (d, w) (d', w')" and "s \<in> vw_sent V w'" and "s \<notin> vw_sent V w"
  shows "\<exists>c \<in> set (db_claims d'). s \<in> set (cl_tx_signatures c) \<and> won (cl_status c)"
proof -
  have inv: "once_inv V (vw_sent V w) (d', w')" using history_once [OF assms(1,4,2,3)] .
  then have "s \<in> recorded d'" using assms(5,6) by (auto simp: once_inv_def)
  then obtain c where c: "c \<in> set (db_claims d')" "s \<in> set (cl_tx_signatures c)" by (auto simp: recorded_def)
  have "cl_tx_signatures c \<noteq> []" using c(2) by auto
  then have "won (cl_status c)" using claim_okD(3) [OF once_inv_claim [OF inv c(1)]] by simp
  with c show ?thesis by blast
qed

text \<open>
  C3. Confirmed means paid: a claim is confirmed only with one of its own recorded signatures landed
  on chain, and its asset is then \<open>claimed\<close>.
\<close>

theorem confirmed_was_paid:
  assumes "safe_worker D V" and "db_inv d" and "no_dispatch_yet d"
    and "(worker_step D V)\<^sup>*\<^sup>* (d, w) (d', w')" and "c \<in> set (db_claims d')" and "cl_status c = Confirmed"
  shows "(\<exists>s \<in> set (cl_tx_signatures c). s \<in> vw_landed V w')
     \<and> assets_table.status_of (db_assets d') (cl_asset_key c) = Some A_claimed"
proof -
  have inv: "once_inv V (vw_sent V w) (d', w')" using history_once [OF assms(1,4,2,3)] .
  have dinv: "db_inv d'" using once_inv_db [OF inv] .
  obtain a where a: "a \<in> set (db_assets d')" "holds_asset c a"
    using dinv assms(5,6) by (auto simp: db_inv_def claims_inv_def)
  then have "find_asset d' (cl_asset_key c) = Some a"
    using row_find_distinct [of as_asset_key "db_assets d'" a] dinv
    by (simp add: db_inv_def claims_inv_def holds_asset_def)
  with a assms(6) have "assets_table.status_of (db_assets d') (cl_asset_key c) = Some A_claimed"
    by (simp add: assets_table.status_of_def holds_asset_def)
  with claim_okD(6) [OF once_inv_claim [OF inv assms(5)] assms(6)] show ?thesis by blast
qed

section \<open>A ledger where the laws hold\<close>

text \<open>
  A chain that includes a sent transaction at once if its blockhash is still valid. Reading the
  height takes a block. A signature names its number and its blockhash, a blockhash its height.
\<close>

record sim =
  sim_height :: int
  sim_sent :: "string list"
  sim_landed :: "string list"
  sim_count :: nat

definition sim_bh_valid :: "string \<Rightarrow> int" where
  "sim_bh_valid bh = (case js_BigInt bh of Some h \<Rightarrow> h + 150 | None \<Rightarrow> 0)"

definition sim_sig :: "nat \<Rightarrow> string \<Rightarrow> string" where
  "sim_sig n bh = dec_nat n @ CHR ''/'' # bh"

definition sim_sig_bh :: "string \<Rightarrow> string" where
  "sim_sig_bh s = tl (dropWhile (\<lambda>c. c \<noteq> CHR ''/'') s)"

definition sim_on_chain :: "sim \<Rightarrow> string set" where
  "sim_on_chain w = set (sim_landed w) \<inter> set (sim_sent w)"

definition sim_view :: "sim chain_view" where
  "sim_view = \<lparr>vw_landed = sim_on_chain, vw_sent = (\<lambda>w. set (sim_sent w)),
     vw_signed = (\<lambda>w. {s. \<exists>n bh. n < sim_count w \<and> s = sim_sig n bh}),
     vw_height = sim_height, vw_validUntil = (\<lambda>s. sim_bh_valid (sim_sig_bh s)),
     vw_blockhashValid = sim_bh_valid, vw_wireSig = (\<lambda>wire. wire)\<rparr>"

definition sim_rpc :: "sim rpc" where
  "sim_rpc =
     \<lparr>rpc_getBlockHeight = (\<lambda>w. (Inr (sim_height w), w\<lparr>sim_height := sim_height w + 1\<rparr>)),
      rpc_getSignatureStatus = (\<lambda>s w. (Inr (if s \<in> sim_on_chain w
         then Some \<lparr>ss_err = False, ss_confirmation = Some ConfirmedC\<rparr> else None), w)),
      rpc_getSignaturesForAddress = (\<lambda>a n w. (Inr (map (\<lambda>s. \<lparr>he_signature = s, he_err = False,
         he_confirmation = Some Finalized\<rparr>) (filter (\<lambda>s. s \<in> sim_on_chain w) (sim_landed w))), w)),
      rpc_getLatestBlockhash = (\<lambda>w. (Inr (dec_int (sim_height w), sim_height w + 150), w)),
      rpc_sendTransaction = (\<lambda>wire w.
         if sim_height w \<le> sim_bh_valid (sim_sig_bh wire)
         then (Inr (), w\<lparr>sim_sent := wire # sim_sent w, sim_landed := wire # sim_landed w\<rparr>)
         else (Inl ''Blockhash not found'', w)),
      rpc_getTokenAccountBalance = (\<lambda>a w. (Inr 1000000000, w)),
      rpc_getAccountInfo = (\<lambda>a w. (Inr None, w))\<rparr>"

definition sim_sign :: "(sim, instruction) signing" where
  "sim_sign fp bh ixs w = (let s = sim_sig (sim_count w) bh in (Inr (s, s), w\<lparr>sim_count := Suc (sim_count w)\<rparr>))"

lemma sim_sig_inj: "sim_sig m a = sim_sig n b \<Longrightarrow> m = n \<and> a = b"
proof -
  assume s: "sim_sig m a = sim_sig n b"
  have t: "takeWhile (\<lambda>c. c \<noteq> CHR ''/'') (sim_sig k x) = dec_nat k" for k x
  proof -
    have "CHR ''/'' \<notin> set (dec_nat k)" using dec_nat_set [of k] by (auto simp: dec_alphabet_def)
    then have "\<forall>c \<in> set (dec_nat k). c \<noteq> CHR ''/''" by blast
    then show ?thesis by (simp add: sim_sig_def takeWhile_append2)
  qed
  have "dec_nat m = dec_nat n" using t [of m a] t [of n b] s by simp
  then show ?thesis using s by (simp add: sim_sig_def)
qed

lemma sim_sig_bh [simp]: "sim_sig_bh (sim_sig n bh) = bh"
proof -
  have "\<forall>c \<in> set (dec_nat n). c \<noteq> CHR ''/''" using dec_nat_set [of n] by (auto simp: dec_alphabet_def)
  then show ?thesis by (simp add: sim_sig_def sim_sig_bh_def dropWhile_append2)
qed

lemma sim_bh_valid_dec [simp]: "sim_bh_valid (dec_int h) = h + 150"
  by (simp add: sim_bh_valid_def js_BigInt_dec_int)

lemma sim_view_simps [simp]:
  "vw_landed sim_view = sim_on_chain" "vw_sent sim_view w = set (sim_sent w)"
  "vw_signed sim_view w = {s. \<exists>n bh. n < sim_count w \<and> s = sim_sig n bh}"
  "vw_height sim_view = sim_height" "vw_validUntil sim_view s = sim_bh_valid (sim_sig_bh s)"
  "vw_blockhashValid sim_view = sim_bh_valid" "vw_wireSig sim_view wire = wire"
  by (simp_all add: sim_view_def)

lemma sim_quiet_height: "quiet sim_view w (w\<lparr>sim_height := sim_height w + 1\<rparr>)"
  by (auto simp: quiet_def progress_def sim_on_chain_def)

lemma sim_send:
  assumes "rpc_sendTransaction sim_rpc wire w = (u, w')"
  shows "progress sim_view w w' \<and> vw_signed sim_view w' = vw_signed sim_view w
      \<and> vw_sent sim_view w' \<subseteq> insert (vw_wireSig sim_view wire) (vw_sent sim_view w)"
proof (cases "sim_height w \<le> sim_bh_valid (sim_sig_bh wire)")
  case True
  then have w': "w' = w\<lparr>sim_sent := wire # sim_sent w, sim_landed := wire # sim_landed w\<rparr>"
    using assms by (simp add: sim_rpc_def)
  show ?thesis using True unfolding w' progress_def by (auto simp: sim_on_chain_def)
next
  case False
  then have "w' = w" using assms by (simp add: sim_rpc_def)
  then show ?thesis by (auto simp: progress_refl)
qed

lemma sim_signs:
  assumes "sim_sign fp bh ixs w = (g, w')"
  shows "progress sim_view w w' \<and> vw_sent sim_view w' = vw_sent sim_view w
      \<and> (\<forall>s wire. g = Inr (s, wire) \<longrightarrow> s \<notin> vw_signed sim_view w \<and> s \<in> vw_signed sim_view w'
            \<and> vw_validUntil sim_view s = vw_blockhashValid sim_view bh \<and> vw_wireSig sim_view wire = s)"
proof -
  have g: "g = Inr (sim_sig (sim_count w) bh, sim_sig (sim_count w) bh)"
    "w' = w\<lparr>sim_count := Suc (sim_count w)\<rparr>" using assms by (simp_all add: sim_sign_def Let_def)
  have "sim_sig (sim_count w) bh \<notin> vw_signed sim_view w" by (auto dest: sim_sig_inj)
  moreover have "progress sim_view w w'" unfolding g(2) progress_def by (auto simp: sim_on_chain_def less_Suc_eq)
  ultimately show ?thesis using g by auto
qed

interpretation sim: sound_rpc sim_rpc sim_sign sim_view
proof unfold_locales
  show "rpc_sendTransaction sim_rpc wire w = (u, w') \<Longrightarrow>
      progress sim_view w w' \<and> vw_signed sim_view w' = vw_signed sim_view w
      \<and> vw_sent sim_view w' \<subseteq> insert (vw_wireSig sim_view wire) (vw_sent sim_view w)" for wire w u w'
    by (rule sim_send)
  show "sim_sign fp bh ixs w = (g, w') \<Longrightarrow>
      progress sim_view w w' \<and> vw_sent sim_view w' = vw_sent sim_view w
      \<and> (\<forall>s wire. g = Inr (s, wire) \<longrightarrow> s \<notin> vw_signed sim_view w \<and> s \<in> vw_signed sim_view w'
            \<and> vw_validUntil sim_view s = vw_blockhashValid sim_view bh \<and> vw_wireSig sim_view wire = s)"
    for fp bh ixs w g w' by (rule sim_signs)
qed (auto simp: sim_rpc_def sim_quiet_height quiet_refl, auto simp: sim_on_chain_def split: if_splits)

section \<open>A settlement that goes through\<close>

definition undisturbed :: "'w db_access \<Rightarrow> bool" where
  "undisturbed A = (ac_others A = (\<lambda>w d. d) \<and> ac_fault A = (\<lambda>w. (Fine, w)))"

lemma undisturbed_tx:
  assumes "undisturbed A"
  shows "db_tx A f (d, w) = (Inr (fst (f d)), (snd (f d), w))" "db_read A g (d, w) = (Inr (g d), (d, w))"
    "db_do A h (d, w) = (Inr (), (h d, w))"
  using assms by (simp_all add: db_tx_def db_read_def db_do_def undisturbed_def)

lemma chain_pair: "m w = (r, w') \<Longrightarrow> chain m (d, w) = (r, (d, w'))"
  by (simp add: chain_def)

lemma persist_succeeds:
  assumes "find_claim d (pa_claimId A) = Some c" and "canDispatch c"
    and "find_asset d (pa_assetKey A) = Some a" and "as_status a \<in> {A_claiming, A_pending_review}"
  shows "fst (persistDispatching E now A d)"
    and "find_claim (snd (persistDispatching E now A d)) (pa_claimId A) = Some (dispatching_row A c)"
    and "\<exists>a'. find_asset (snd (persistDispatching E now A d)) (pa_assetKey A) = Some a'"
  using assms by (auto simp: persistDispatching_def row_find_update)

lemma finalize_succeeds:
  assumes "find_claim d cid = Some c" and "cl_status c \<noteq> Confirmed" and "find_asset d (cl_asset_key c) = Some a"
  shows "find_claim (finalizeConfirmed E now cid sig d) cid = Some (confirmed_row now sig c)"
    and "find_asset (finalizeConfirmed E now cid sig d) (cl_asset_key c) = Some (set_asset_status A_claimed a)"
  using assms by (simp_all add: finalizeConfirmed_def row_find_update)

lemma dispatchSignedTx_confirms:
  assumes db: "undisturbed (wk_db D)"
    and c: "find_claim d (pa_claimId A) = Some c" "canDispatch c" "pa_assetKey A = cl_asset_key c"
    and a: "find_asset d (cl_asset_key c) = Some a" "as_status a \<in> {A_claiming, A_pending_review}"
    and chain: "gw_broadcast (wk_gateway D) (sd_wireBase64 (pa_signed A)) w = (u, w1)"
      "gw_confirmSignature (wk_gateway D) (sd_signature (pa_signed A)) (sd_lastValidBlockHeight (pa_signed A)) w1
         = (Inr StateConfirmed, w2)"
  shows "\<exists>d'. dispatchSignedTx D T A (d, w) = (Inr (OutConfirmed, Some (sd_signature (pa_signed A)), None), (d', w2))
     \<and> find_claim d' (pa_claimId A) = Some (confirmed_row (ck_final T) (sd_signature (pa_signed A)) (dispatching_row A c))
     \<and> assets_table.status_of (db_assets d') (cl_asset_key c) = Some A_claimed"
proof -
  let ?d = "snd (persistDispatching (wk_env D) (ck_persist T) A d)"
  note p = persist_succeeds [OF c(1,2) a(1) [folded c(3)] a(2), of "wk_env D" "ck_persist T"]
  obtain a' where a': "find_asset ?d (cl_asset_key c) = Some a'" using p(3) c(3) by auto
  have k: "cl_asset_key (dispatching_row A c) = cl_asset_key c" "cl_status (dispatching_row A c) \<noteq> Confirmed" by simp_all
  note f = finalize_succeeds [OF p(2) k(2), unfolded k(1), OF a', of "wk_env D" "ck_final T" "sd_signature (pa_signed A)"]
  have "catch_all (chain (gw_broadcast (wk_gateway D) (sd_wireBase64 (pa_signed A)))) (\<lambda>e. io_return ()) (?d, w)
      = (Inr (), (?d, w1))"
    using chain(1) by (cases u) (simp_all add: catch_all_def chain_def io_return_def)
  then have "dispatchSignedTx D T A (d, w) = (Inr (OutConfirmed, Some (sd_signature (pa_signed A)), None),
      (finalizeConfirmed (wk_env D) (ck_final T) (pa_claimId A) (sd_signature (pa_signed A)) ?d, w2))"
    using p(1) chain(2)
    by (simp add: dispatchSignedTx_def io_bind_def undisturbed_tx [OF db] chain_pair io_return_def Let_def)
  with f show ?thesis by (simp add: assets_table.status_of_def)
qed

lemma token_claim_run:
  assumes db: "undisturbed (wk_db D)"
    and c: "find_claim d cid = Some c" "cl_status c = Verified" "cl_dispatch_signature c = None" "cl_ant_batch_id c = None"
    and a: "find_asset d (cl_asset_key c) = Some a" "as_asset_type a = AssetToken" "as_amount a = Some n"
      "as_status a = A_claiming" "0 \<le> n" "n \<le> U64_MAX"
    and valid: "k_valid (wk_kit D) (cl_claimant c)" and unlock: "ds_unlock (wk_token D) = Inr ()"
    and balance: "gw_getTokenBalance (wk_gateway D) (hotAta D) w = (Inr bal, w1)"
    and fits: "n \<le> bal - float_reserved (wk_scope D) (Some cid) d"
      "fp_bigClaimThresholdMario (wk_policy D) \<le> 0 \<or> n \<le> fp_bigClaimThresholdMario (wk_policy D)"
    and ixs: "buildTokenIxs D cid (ds_address (wk_token D)) (cl_claimant c) n = Inr ixs"
    and sign: "gw_signTransaction (wk_gateway D) ixs (ds_address (wk_token D)) w1 = (Inr sd, w2)"
    and send: "gw_broadcast (wk_gateway D) (sd_wireBase64 sd) w2 = (u, w3)"
    and confirm: "gw_confirmSignature (wk_gateway D) (sd_signature sd) (sd_lastValidBlockHeight sd) w3
      = (Inr StateConfirmed, w4)"
  shows "\<exists>d' c'. processClaim D T ov cid (d, w) =
       (Inr (result_of cid (cl_asset_key c) OutConfirmed (Some (sd_signature sd)) None), (d', w4))
     \<and> find_claim d' cid = Some c' \<and> cl_status c' = Confirmed \<and> cl_settlement_amount c' = Some n
     \<and> sd_signature sd \<in> set (cl_tx_signatures c')
     \<and> assets_table.status_of (db_assets d') (cl_asset_key c) = Some A_claimed"
proof -
  have id: "cl_claim_id c = cid" "as_asset_key a = cl_asset_key c"
    using find_claim_mem [OF c(1)] row_find_Some [OF a(1)] by simp_all
  have check: "float_check (wk_policy D) n (float_available bal (float_reserved (wk_scope D) (Some cid) d)) b = None" for b
    using fits a(5) by (auto simp: float_check_def float_available_def)
  let ?A = "\<lparr>pa_claimId = cid, pa_assetKey = cl_asset_key c, pa_signed = sd, pa_settlementAmount = Some n,
     pa_settlementLabel = Some ''token''\<rparr>"
  have can: "canDispatch c" using c(2) by (simp add: canDispatch_def)
  obtain d' where d': "dispatchSignedTx D T ?A (d, w2) = (Inr (OutConfirmed, Some (sd_signature sd), None), (d', w4))"
    "find_claim d' cid = Some (confirmed_row (ck_final T) (sd_signature sd) (dispatching_row ?A c))"
    "assets_table.status_of (db_assets d') (cl_asset_key c) = Some A_claimed"
    using dispatchSignedTx_confirms [OF db, where A = ?A and d = d and c = c and a = a and w = w2 and T = T] c(1) can a(1,4) send confirm by auto
  have "processClaim D T ov cid (d, w) = dispatchFresh D T ov cid (d, w)"
    using c by (simp add: processClaim_def io_bind_def undisturbed_tx [OF db] truthy_def Let_def)
  also have "\<dots> = dispatch_funds D T c a (d, w)"
    using c(1) a(1,2,4) valid
    by (simp add: dispatchFresh_def io_bind_def undisturbed_tx [OF db] from_result_def address_def)
  also have "\<dots> = dispatch_settle D T c a n (d, w1)"
    using balance a(3) check id unlock
    by (simp add: dispatch_funds_def io_bind_def undisturbed_tx [OF db] chain_pair from_result_def Let_def)
  also have "\<dots> = signPersistBroadcastConfirm D T cid a (wk_token D) ixs (Some n) (Some ''token'') (d, w1)"
    using a(2) ixs id by (simp add: dispatch_settle_def settle_liquid_def io_bind_def from_result_def)
  also have "\<dots> = (Inr (result_of cid (cl_asset_key c) OutConfirmed (Some (sd_signature sd)) None), (d', w4))"
    using sign d'(1) id
    by (simp add: signPersistBroadcastConfirm_def io_bind_def chain_pair io_return_def)
  finally have run: "processClaim D T ov cid (d, w) =
      (Inr (result_of cid (cl_asset_key c) OutConfirmed (Some (sd_signature sd)) None), (d', w4))" .
  show ?thesis using run d'(2,3) by (auto simp: confirmed_row_def dispatching_row_def set_claim_status_def)
qed


section \<open>Witnesses\<close>

definition demo_deps :: "(sim, string) worker_deps" where
  "demo_deps = \<lparr>wk_db = \<lparr>ac_others = (\<lambda>w d. d), ac_fault = (\<lambda>w. (Fine, w))\<rparr>, wk_env = demo_env,
     wk_gateway = solana_gateway sim_rpc sim_sign 3, wk_kit = demo_kit,
     wk_token = \<lparr>ds_address = ''hot'', ds_role = RoleToken, ds_unlock = Inr ()\<rparr>, wk_ant = None,
     wk_policy = \<lparr>fp_capMario = 1000, fp_bigClaimThresholdMario = 100, fp_refillThresholdMario = 10\<rparr>,
     wk_scope = None, wk_mint = ''mint'', wk_minVaultDuration = 1209600, wk_maxVaultDuration = 6307200,
     wk_arioCoreProgram = None, wk_antRequiresApproval = None, wk_antDispatchMode = None,
     wk_includeMemo = None\<rparr>"

interpretation demo_worker: safe_worker demo_deps sim_view
proof -
  have "sound_gateway (wk_gateway demo_deps) sim_view"
    using sim.gw.sound_gateway_axioms by (simp add: demo_deps_def)
  then show "safe_worker demo_deps sim_view"
    by (intro safe_worker.intro safe_worker_axioms.intro) (simp_all add: demo_deps_def quiet_refl)
qed

definition demo_verified :: claim_row where
  "demo_verified = (demo_claim ''k'' [])\<lparr>cl_status := Verified\<rparr>"

definition demo_token_asset :: asset_row where
  "demo_token_asset = (demo_asset_row ''k'')\<lparr>as_asset_type := AssetToken, as_ant_mint := None,
     as_amount := Some 5, as_status := A_claiming\<rparr>"

definition demo_verified_db :: db where
  "demo_verified_db = \<lparr>db_recipients = [], db_assets = [demo_token_asset], db_claims = [demo_verified],
     db_audit = [], db_ant_batches = []\<rparr>"

definition demo_clock :: clock where
  "demo_clock = \<lparr>ck_recover = 0, ck_fresh = 0, ck_settle = 0, ck_anomaly = 0, ck_persist = 0, ck_final = 0\<rparr>"

definition demo_world :: sim where
  "demo_world = \<lparr>sim_height = 7, sim_sent = [], sim_landed = [], sim_count = 0\<rparr>"

lemma demo_verified_facts:
  "db_inv demo_verified_db" "no_dispatch_yet demo_verified_db"
  "find_claim demo_verified_db ''c1'' = Some demo_verified" "cl_asset_key demo_verified = ''k''"
  "find_asset demo_verified_db ''k'' = Some demo_token_asset"
  by (simp_all add: demo_verified_db_def demo_verified_def demo_claim_def new_claim_row_def demo_token_asset_def
      demo_asset_row_def db_inv_def claims_inv_def holds_asset_def no_dispatch_yet_def row_find_def)

lemma demo_payable:
  "undisturbed (wk_db demo_deps)"
  "cl_status demo_verified = Verified" "cl_dispatch_signature demo_verified = None" "cl_ant_batch_id demo_verified = None"
  "find_asset demo_verified_db (cl_asset_key demo_verified) = Some demo_token_asset"
  "as_asset_type demo_token_asset = AssetToken" "as_amount demo_token_asset = Some 5"
  "as_status demo_token_asset = A_claiming" "(0 :: int) \<le> 5" "5 \<le> U64_MAX"
  "k_valid (wk_kit demo_deps) (cl_claimant demo_verified)" "ds_unlock (wk_token demo_deps) = Inr ()"
  "gw_getTokenBalance (wk_gateway demo_deps) (hotAta demo_deps) demo_world = (Inr 1000000000, demo_world)"
  "5 \<le> 1000000000 - float_reserved (wk_scope demo_deps) (Some ''c1'') demo_verified_db"
  "fp_bigClaimThresholdMario (wk_policy demo_deps) \<le> 0 \<or> 5 \<le> fp_bigClaimThresholdMario (wk_policy demo_deps)"
  by (simp_all add: undisturbed_def demo_deps_def demo_verified_def demo_claim_def new_claim_row_def demo_initiate_def
      demo_kit_def demo_token_asset_def demo_asset_row_def U64_MAX_def solana_gateway_def getTokenBalance_def sim_rpc_def
      float_reserved_def demo_verified_db_def committed_amount_def row_find_def)

lemma demo_payment:
  obtains ixs sd w2 w3 w4 where
    "buildTokenIxs demo_deps ''c1'' (ds_address (wk_token demo_deps)) (cl_claimant demo_verified) 5 = Inr ixs"
    "gw_signTransaction (wk_gateway demo_deps) ixs (ds_address (wk_token demo_deps)) demo_world = (Inr sd, w2)"
    "gw_broadcast (wk_gateway demo_deps) (sd_wireBase64 sd) w2 = (Inr (), w3)"
    "gw_confirmSignature (wk_gateway demo_deps) (sd_signature sd) (sd_lastValidBlockHeight sd) w3 = (Inr StateConfirmed, w4)"
proof -
  let ?sd = "\<lparr>sd_signature = sim_sig 0 (dec_int 7), sd_blockhash = dec_int 7, sd_lastValidBlockHeight = 157,
     sd_wireBase64 = sim_sig 0 (dec_int 7)\<rparr>"
  let ?w2 = "demo_world\<lparr>sim_count := 1\<rparr>"
  let ?w3 = "?w2\<lparr>sim_sent := [sim_sig 0 (dec_int 7)], sim_landed := [sim_sig 0 (dec_int 7)]\<rparr>"
  obtain ixs where ixs: "buildTokenIxs demo_deps ''c1'' (ds_address (wk_token demo_deps)) (cl_claimant demo_verified) 5 = Inr ixs"
    by (simp add: buildTokenIxs_def transferTokensIx_def U64_MAX_def Let_def)
  have sign: "gw_signTransaction (wk_gateway demo_deps) ixs (ds_address (wk_token demo_deps)) demo_world = (Inr ?sd, ?w2)"
    by (simp add: demo_deps_def solana_gateway_def signTransaction_def sim_rpc_def sim_sign_def io_bind_def
        io_return_def demo_world_def Let_def)
  have send: "gw_broadcast (wk_gateway demo_deps) (sd_wireBase64 ?sd) ?w2 = (Inr (), ?w3)"
    by (simp add: demo_deps_def solana_gateway_def sim_rpc_def demo_world_def)
  have conf: "gw_confirmSignature (wk_gateway demo_deps) (sd_signature ?sd) (sd_lastValidBlockHeight ?sd) ?w3
      = (Inr StateConfirmed, ?w3\<lparr>sim_height := 8\<rparr>)"
    by (simp add: demo_deps_def solana_gateway_def sim_rpc_def demo_world_def statusOnce_def io_bind_def io_return_def
        classify_status_def sim_on_chain_def numeral_3_eq_3)
  show thesis by (rule that [OF ixs sign send conf])
qed


lemma demo_history:
  obtains d' w' c s where "(worker_step demo_deps sim_view)\<^sup>*\<^sup>* (demo_verified_db, demo_world) (d', w')"
    "c \<in> set (db_claims d')" "cl_status c = Confirmed" "s \<in> set (cl_tx_signatures c)" "s \<in> sim_on_chain w'"
proof -
  obtain ixs sd w2 w3 w4 where p:
    "buildTokenIxs demo_deps ''c1'' (ds_address (wk_token demo_deps)) (cl_claimant demo_verified) 5 = Inr ixs"
    "gw_signTransaction (wk_gateway demo_deps) ixs (ds_address (wk_token demo_deps)) demo_world = (Inr sd, w2)"
    "gw_broadcast (wk_gateway demo_deps) (sd_wireBase64 sd) w2 = (Inr (), w3)"
    "gw_confirmSignature (wk_gateway demo_deps) (sd_signature sd) (sd_lastValidBlockHeight sd) w3 = (Inr StateConfirmed, w4)"
    by (rule demo_payment)
  from token_claim_run [OF demo_payable(1) demo_verified_facts(3) demo_payable(2-15) p, of demo_clock None]
  obtain d' c where r: "processClaim demo_deps demo_clock None ''c1'' (demo_verified_db, demo_world) =
       (Inr (result_of ''c1'' ''k'' OutConfirmed (Some (sd_signature sd)) None), (d', w4))"
    "find_claim d' ''c1'' = Some c" "cl_status c = Confirmed" by (auto simp: demo_verified_facts(4))
  have h: "(worker_step demo_deps sim_view)\<^sup>*\<^sup>* (demo_verified_db, demo_world) (d', w4)"
    by (rule r_into_rtranclp, rule worker_claim [OF r(1)])
  have mem: "c \<in> set (db_claims d')" using find_claim_mem [OF r(2)] by simp
  have "once_inv sim_view (vw_sent sim_view demo_world) (d', w4)"
    using history_once [OF demo_worker.safe_worker_axioms h demo_verified_facts(1,2)] .
  from claim_okD(6) [OF once_inv_claim [OF this mem] r(3)] obtain s where
    "s \<in> set (cl_tx_signatures c)" "s \<in> sim_on_chain w4" by auto
  with h mem r(3) show thesis by (rule that)
qed

theorem asset_paid_at_most_once_witness:
  "\<exists>d' w' c s. (worker_step demo_deps sim_view)\<^sup>*\<^sup>* (demo_verified_db, demo_world) (d', w')
     \<and> s \<in> sim_on_chain w' \<and> c \<in> set (db_claims d') \<and> set (cl_tx_signatures c) \<inter> sim_on_chain w' = {s}"
proof -
  obtain d' w' c s where h: "(worker_step demo_deps sim_view)\<^sup>*\<^sup>* (demo_verified_db, demo_world) (d', w')"
    "c \<in> set (db_claims d')" "cl_status c = Confirmed" "s \<in> set (cl_tx_signatures c)" "s \<in> sim_on_chain w'"
    by (rule demo_history)
  have alive: "\<not> dead sim_view w' x" if "x \<in> sim_on_chain w'" for x using that by (simp add: dead_def)
  have "x = s" if "x \<in> set (cl_tx_signatures c)" "x \<in> sim_on_chain w'" for x
    by (rule asset_paid_at_most_once [OF demo_worker.safe_worker_axioms demo_verified_facts(1,2) h(1) h(2) h(2) refl
          that(1) alive [OF that(2)] h(4) alive [OF h(5)]])
  with h show ?thesis by blast
qed

theorem sent_is_recorded_witness:
  "\<exists>d' w' s. (worker_step demo_deps sim_view)\<^sup>*\<^sup>* (demo_verified_db, demo_world) (d', w')
     \<and> s \<in> set (sim_sent w') \<and> (\<exists>c \<in> set (db_claims d'). s \<in> set (cl_tx_signatures c) \<and> won (cl_status c))"
proof -
  obtain d' w' c s where h: "(worker_step demo_deps sim_view)\<^sup>*\<^sup>* (demo_verified_db, demo_world) (d', w')"
    "c \<in> set (db_claims d')" "s \<in> set (cl_tx_signatures c)" "s \<in> sim_on_chain w'" by (rule demo_history)
  have s: "s \<in> vw_sent sim_view w'" "s \<notin> vw_sent sim_view demo_world"
    using h(4) by (auto simp: sim_on_chain_def demo_world_def)
  from sent_is_recorded [OF demo_worker.safe_worker_axioms demo_verified_facts(1,2) h(1) s] s(1) h(1)
  show ?thesis by auto
qed

theorem confirmed_was_paid_witness:
  "\<exists>d' w' c s. (worker_step demo_deps sim_view)\<^sup>*\<^sup>* (demo_verified_db, demo_world) (d', w')
     \<and> c \<in> set (db_claims d') \<and> s \<in> set (cl_tx_signatures c) \<and> s \<in> sim_on_chain w'
     \<and> assets_table.status_of (db_assets d') (cl_asset_key c) = Some A_claimed"
proof -
  obtain d' w' c s where h: "(worker_step demo_deps sim_view)\<^sup>*\<^sup>* (demo_verified_db, demo_world) (d', w')"
    "c \<in> set (db_claims d')" "cl_status c = Confirmed" by (rule demo_history)
  from confirmed_was_paid [OF demo_worker.safe_worker_axioms demo_verified_facts(1,2) h] h show ?thesis by auto
qed


end
