(* ===== verification/Ledger_Plan.thy ===== *)
theory Ledger_Plan
  imports Ledger_Rules Claims_Db Complex_Main
begin

text \<open>
  The ledger planner (\<open>packages/claims/src/ledger/plan.ts\<close> and \<open>types.ts\<close>): from the frozen inputs
  to the recipients and assets that are written to the database. A \<open>Record\<close> and a \<open>Map\<close> are
  association lists in insertion order. A JSON number that the planner tests before it becomes a
  \<open>bigint\<close> is a \<open>rat\<close>; \<open>nowMs\<close> and the unlock seconds of the delivery plan are whole. A \<open>throw\<close> drops
  the partial plan.
\<close>

section \<open>Inputs and plan\<close>

record ant_snapshot =
  an_processId :: string
  an_Owner :: string

record ao_vault =
  av_balance :: rat
  av_endTimestamp :: rat

record frozen_inputs =
  fi_addressMap :: "(string \<times> string) list"
  fi_modulus :: "(string \<times> string) list"
  fi_atRisk :: "string list"
  fi_balances :: "(string \<times> rat) list"
  fi_vaults :: "(string \<times> (string \<times> ao_vault) list) list"
  fi_ants :: "ant_snapshot list"
  fi_plan :: plan_artifact
  fi_fingerprints :: "(string \<times> string) list"

datatype recipient_status = R_open | R_manual_review

record planned_recipient =
  pr_sourceAddress :: string
  pr_protocol :: int
  pr_recipientPubkey :: "bytes option"
  pr_recipientId :: string
  pr_status :: recipient_status

datatype phase = PhaseAnt | PhaseToken | PhaseVault | PhaseStake

datatype onchain_seed = Escrow_ant | Escrow_token | Escrow_vault

record asset_source =
  sr_phase :: phase
  sr_aoProcessId :: "string option"
  sr_arweaveAddress :: "string option"
  sr_vaultId :: "string option"
  sr_planKind :: "string option"
  sr_onchainSeed :: onchain_seed

datatype planned_status = P_available | P_manual_review

record planned_asset =
  pl_assetKey :: string
  pl_assetType :: asset_type
  pl_recipientSource :: string
  pl_antMint :: "string option"
  pl_amount :: "int option"
  pl_vaultEndTs :: "int option"
  pl_status :: planned_status
  pl_source :: asset_source

record manifest_counters =
  mc_ant :: nat
  mc_tokenEscrowed :: nat
  mc_vaultEscrowed :: nat
  mc_stakeEscrowed :: nat

record ledger_plan =
  lp_recipients :: "planned_recipient list"
  lp_assets :: "planned_asset list"
  lp_counters :: manifest_counters
  lp_phase2TokenOutflowMario :: int
  lp_phase3VaultMario :: int
  lp_phase4StakeMario :: int
  lp_atRiskRecipientCount :: nat
  lp_inputFingerprints :: "(string \<times> string) list"
  lp_nowMs :: int

text \<open>
  The loader (\<open>loadFrozenInputs\<close>). A file is its bytes with what \<open>JSON.parse\<close> reads from them, and
  \<open>None\<close> if it does not exist; \<open>fd_ants\<close> are the files of the directory \<open>ants\<close>, in the order of
  \<open>readdirSync\<close>. An error is the list of its problems. The sort by process id is by \<open><\<close> on strings. \<open>known\<close> is the pinned table.
\<close>

record frozen_dir =
  fd_path :: string
  fd_addressMap :: "(bytes \<times> (string \<times> string) list) option"
  fd_modulus :: "(bytes \<times> (string \<times> string) list) option"
  fd_atRisk :: "(bytes \<times> string list) option"
  fd_summary :: "(bytes \<times> (string \<times> rat option) list) option"
  fd_vaults :: "(bytes \<times> (string \<times> (string \<times> ao_vault) list) list) option"
  fd_plan :: "(bytes \<times> plan_artifact) option"
  fd_ants :: "(string \<times> ant_snapshot) list option"

definition AO_PROCESS_ID :: string where
  "AO_PROCESS_ID = ''qNvAoz0TgcH7DMg8BCVn8jF32QH5L6T29VjHxhHqqGE''"

definition req_file :: "frozen_dir \<Rightarrow> string \<Rightarrow> 'a option \<Rightarrow> string list + 'a" where
  "req_file D name f = (case f of
     None \<Rightarrow> Inl [''frozen input missing: '' @ fd_path D @ ''/'' @ name] | Some x \<Rightarrow> Inr x)"

definition positive_balances :: "(string \<times> rat option) list \<Rightarrow> (string \<times> rat) list" where
  "positive_balances summary =
     List.map_filter (\<lambda>(addr, entry). case entry of
       Some b \<Rightarrow> if b > 0 \<and> addr \<noteq> AO_PROCESS_ID then Some (addr, b) else None | None \<Rightarrow> None) summary"

definition ant_snapshots :: "(string \<times> ant_snapshot) list \<Rightarrow> ant_snapshot list" where
  "ant_snapshots files = map snd (filter (\<lambda>(f, a). suffix ''.json'' f
     \<and> f \<noteq> ''ant-mint-map.json'' \<and> f \<noteq> ''failed-ants.json'') files)"

definition ant_digest :: "(bytes \<Rightarrow> bytes) \<Rightarrow> ant_snapshot list \<Rightarrow> string" where
  "ant_digest sha ants = hex_encode (sha (concat (map
     (\<lambda>a. utf8_encode (an_processId a @ [CHR 9] @ an_Owner a @ [CHR 10])) (sort_key an_processId ants))))"

definition loadFrozenInputs :: "(bytes \<Rightarrow> bytes) \<Rightarrow> bool \<Rightarrow> (string \<times> string) list \<Rightarrow> frozen_dir
    \<Rightarrow> string list + frozen_inputs" where
  "loadFrozenInputs sha bypass known D =
     (let hash = (\<lambda>bs. hex_encode (sha bs)) in
      and_then (req_file D ''address-map.json'' (fd_addressMap D)) (\<lambda>am.
      and_then (req_file D ''escrow-recipient-modulus.json'' (fd_modulus D)) (\<lambda>md.
      and_then (req_file D ''escrow-recipient-AT-RISK.json'' (fd_atRisk D)) (\<lambda>ar.
      and_then (req_file D ''snapshot-summary.json'' (fd_summary D)) (\<lambda>sm.
      and_then (req_file D ''raw-vaults.json'' (fd_vaults D)) (\<lambda>vs.
      and_then (req_file D ''delivery-escrow-plan.json'' (fd_plan D)) (\<lambda>pl.
      case fd_ants D of
        None \<Rightarrow> Inl [''ANT snapshots directory not found: '' @ fd_path D @ ''/ants'']
      | Some files \<Rightarrow>
          (let ants = ant_snapshots files;
               fps = [(''address-map.json'', hash (fst am)), (''escrow-recipient-modulus.json'', hash (fst md)),
                 (''escrow-recipient-AT-RISK.json'', hash (fst ar)), (''snapshot-summary.json'', hash (fst sm)),
                 (''raw-vaults.json'', hash (fst vs)), (''delivery-escrow-plan.json'', hash (fst pl)),
                 (''ants/'', ant_digest sha ants)] in
           and_then (assertKnownGoodFingerprints bypass fps known) (\<lambda>_.
           Inr \<lparr>fi_addressMap = snd am, fi_modulus = snd md, fi_atRisk = rev (remdups (rev (snd ar))),
             fi_balances = positive_balances (snd sm), fi_vaults = snd vs, fi_ants = ants, fi_plan = snd pl,
             fi_fingerprints = fps\<rparr>)))))))))"

text \<open>What the planner calls: SHA-256, the Ed25519 public key, base58 and the ANT mint secret.\<close>

record plan_prims =
  pp_sha :: "bytes \<Rightarrow> bytes"
  pp_ed :: ed25519
  pp_b58 :: "bytes \<Rightarrow> string"
  pp_antMintSecret :: bytes

text \<open>The variables of \<open>buildLedgerPlan\<close>.\<close>

record plan_state =
  ps_recipients :: "planned_recipient list"
  ps_assets :: "planned_asset list"
  ps_seenKeys :: "string list"
  ps_counters :: manifest_counters
  ps_phase2 :: int
  ps_phase3 :: int
  ps_phase4 :: int

type_synonym plan_step = "plan_state \<Rightarrow> string + plan_state"

definition DEFAULT_NOW_MS :: int where "DEFAULT_NOW_MS = 1783641600000"

definition quoted :: "string \<Rightarrow> string" where "quoted s = CHR 0x22 # s @ [CHR 0x22]"

section \<open>Recipients\<close>

definition ethAddressBytes :: "string \<Rightarrow> bytes" where
  "ethAddressBytes normalized = hex_bytes (drop 2 normalized)"

definition resolveRecipientPubkey :: "frozen_inputs \<Rightarrow> string \<Rightarrow> string + bytes option" where
  "resolveRecipientPubkey I owner =
     (if isEthereumAddress owner then Inr (Some (ethAddressBytes (normalizeSourceAddress owner)))
      else if truthy (map_of (fi_modulus I) owner)
      then let bs = b64url_decode (the (map_of (fi_modulus I) owner)) in
        if length bs \<noteq> 512
        then Inl (''frozen modulus for '' @ owner @ '' is '' @ dec_nat (length bs) @ '' bytes, expected 512'')
        else Inr (Some bs)
      else Inr None)"

definition recipients_has :: "plan_state \<Rightarrow> string \<Rightarrow> bool" where
  "recipients_has s src = (\<exists>r \<in> set (ps_recipients s). pr_sourceAddress r = src)"

definition recipients_set :: "planned_recipient \<Rightarrow> plan_state \<Rightarrow> plan_state" where
  "recipients_set r s = s\<lparr>ps_recipients := ps_recipients s @ [r]\<rparr>"

definition upsertRecipient :: "plan_prims \<Rightarrow> string \<Rightarrow> bytes option \<Rightarrow> plan_step" where
  "upsertRecipient P owner pubkey s =
     (let src = normalizeSourceAddress owner; eth = isEthereumAddress owner;
          protocol = (if eth then 1 else 0) in
      if recipients_has s src then Inr s
      else case pubkey of
        Some k \<Rightarrow>
          (let recipientId = deriveRecipientIdB64Url (pp_sha P) k in
           if \<not> eth \<and> recipientId \<noteq> owner
           then Inl (''modulus->address mismatch for '' @ owner @ '': derived recipient_id '' @ recipientId)
           else Inr (recipients_set \<lparr>pr_sourceAddress = src, pr_protocol = protocol,
                  pr_recipientPubkey = Some k, pr_recipientId = recipientId, pr_status = R_open\<rparr> s))
      | None \<Rightarrow> Inr (recipients_set \<lparr>pr_sourceAddress = src, pr_protocol = protocol,
                  pr_recipientPubkey = None, pr_recipientId = src, pr_status = R_manual_review\<rparr> s))"

definition classifyOwner :: "plan_prims \<Rightarrow> frozen_inputs \<Rightarrow> string \<Rightarrow> plan_state
    \<Rightarrow> string + planned_status \<times> plan_state" where
  "classifyOwner P I owner s =
     and_then (resolveRecipientPubkey I owner) (\<lambda>pubkey.
     case pubkey of
       Some k \<Rightarrow> and_then (upsertRecipient P owner (Some k) s) (\<lambda>s'. Inr (P_available, s'))
     | None \<Rightarrow>
         if owner \<notin> set (fi_atRisk I)
         then Inl (''unmapped owner '' @ quoted owner @ '' is unresolvable but NOT in the AT-RISK file''
                   @ '' - unexpected gap; refusing to build an inconsistent ledger.'')
         else and_then (upsertRecipient P owner None s) (\<lambda>s'. Inr (P_manual_review, s')))"

section \<open>Assets\<close>

definition pushAsset :: "planned_asset \<Rightarrow> plan_step" where
  "pushAsset a s =
     (if pl_assetKey a \<in> set (ps_seenKeys s)
      then Inl (''duplicate asset_key '' @ pl_assetKey a @ '' ('' @ asset_type_str (pl_assetType a)
                @ '') - on-chain PDA would alias'')
      else Inr (s\<lparr>ps_seenKeys := pl_assetKey a # ps_seenKeys s, ps_assets := ps_assets s @ [a]\<rparr>))"

definition bigint_of_number :: "rat \<Rightarrow> string + int" where
  "bigint_of_number x = (if of_int \<lfloor>x\<rfloor> = x then Inr \<lfloor>x\<rfloor>
     else Inl ''The number cannot be converted to a BigInt because it is not an integer'')"

definition mapped :: "frozen_inputs \<Rightarrow> string \<Rightarrow> bool" where
  "mapped I addr = truthy (normalized_get (fi_addressMap I) addr)"

text \<open>The counters are of the available set.\<close>

definition credit :: "planned_status \<Rightarrow> (plan_state \<Rightarrow> plan_state) \<Rightarrow> plan_state \<Rightarrow> plan_state" where
  "credit status f s = (if status = P_available then f s else s)"

text \<open>The bodies of the four phases' loops.\<close>

definition planAnt :: "plan_prims \<Rightarrow> frozen_inputs \<Rightarrow> ant_snapshot \<Rightarrow> plan_step" where
  "planAnt P I ant s =
     (if mapped I (an_Owner ant) then Inr s
      else and_then (deriveAntMintBase58 (pp_sha P) (pp_ed P) (pp_b58 P) (an_processId ant)
             (pp_antMintSecret P)) (\<lambda>antMint.
      and_then (classifyOwner P I (an_Owner ant) s) (\<lambda>(status, s1).
      and_then (pushAsset \<lparr>pl_assetKey = antMint, pl_assetType = AssetAnt,
          pl_recipientSource = normalizeSourceAddress (an_Owner ant), pl_antMint = Some antMint,
          pl_amount = None, pl_vaultEndTs = None, pl_status = status,
          pl_source = \<lparr>sr_phase = PhaseAnt, sr_aoProcessId = Some (an_processId ant),
            sr_arweaveAddress = None, sr_vaultId = None, sr_planKind = None,
            sr_onchainSeed = Escrow_ant\<rparr>\<rparr> s1) (\<lambda>s2.
      Inr (credit status (\<lambda>s. s\<lparr>ps_counters := (ps_counters s)\<lparr>mc_ant := mc_ant (ps_counters s) + 1\<rparr>\<rparr>) s2)))))"

definition planBalance :: "plan_prims \<Rightarrow> frozen_inputs \<Rightarrow> string \<times> rat \<Rightarrow> plan_step" where
  "planBalance P I entry s =
     (let addr = fst entry; amount = snd entry in
      if mapped I addr \<or> amount \<le> 0 then Inr s
      else and_then (classifyOwner P I addr s) (\<lambda>(status, s1).
      and_then (bigint_of_number amount) (\<lambda>amt.
      and_then (pushAsset \<lparr>pl_assetKey = asset_toHex (deriveTokenAssetId (pp_sha P) addr),
          pl_assetType = AssetToken, pl_recipientSource = normalizeSourceAddress addr,
          pl_antMint = None, pl_amount = Some amt, pl_vaultEndTs = None, pl_status = status,
          pl_source = \<lparr>sr_phase = PhaseToken, sr_aoProcessId = None, sr_arweaveAddress = Some addr,
            sr_vaultId = None, sr_planKind = None, sr_onchainSeed = Escrow_token\<rparr>\<rparr> s1) (\<lambda>s2.
      Inr (credit status (\<lambda>s. s\<lparr>ps_counters := (ps_counters s)\<lparr>mc_tokenEscrowed := mc_tokenEscrowed (ps_counters s) + 1\<rparr>,
          ps_phase2 := ps_phase2 s + amt\<rparr>) s2)))))"

definition vault_source :: "string \<Rightarrow> string \<Rightarrow> string \<Rightarrow> onchain_seed \<Rightarrow> asset_source" where
  "vault_source owner vaultId kind seed =
     \<lparr>sr_phase = PhaseVault, sr_aoProcessId = None, sr_arweaveAddress = Some owner,
      sr_vaultId = Some vaultId, sr_planKind = Some kind, sr_onchainSeed = seed\<rparr>"

definition planVault :: "plan_prims \<Rightarrow> frozen_inputs \<Rightarrow> int \<Rightarrow> string \<Rightarrow> string \<times> ao_vault \<Rightarrow> plan_step" where
  "planVault P I nowMs owner entry s =
     (let vaultId = fst entry; v = snd entry; nowS = nowMs div 1000 in
      and_then (bigint_of_number (av_balance v)) (\<lambda>amount.
      if amount \<le> 0 then Inr s
      else and_then (classifyOwner P I owner s) (\<lambda>(status, s1).
      let assetKey = asset_toHex (deriveVaultAssetId (pp_sha P) owner vaultId);
          src = normalizeSourceAddress owner;
          liquid = \<lparr>pl_assetKey = assetKey, pl_assetType = AssetToken, pl_recipientSource = src,
            pl_antMint = None, pl_amount = Some amount, pl_vaultEndTs = None, pl_status = status,
            pl_source = vault_source owner vaultId ''expired->token'' Escrow_token\<rparr> in
      if av_endTimestamp v \<le> of_int nowMs
      then and_then (pushAsset liquid s1) (\<lambda>s2.
        Inr (credit status (\<lambda>s. s\<lparr>ps_counters := (ps_counters s)\<lparr>mc_tokenEscrowed := mc_tokenEscrowed (ps_counters s) + 1\<rparr>,
          ps_phase3 := ps_phase3 s + amount\<rparr>) s2))
      else let lockDurationSeconds = \<lceil>(av_endTimestamp v - of_int nowMs) / 1000\<rceil> in
        and_then
          (if vaultEscrowFallsBackToLiquid amount (BigV lockDurationSeconds)
           then pushAsset (liquid\<lparr>pl_source := vault_source owner vaultId ''active-fallback-liquid'' Escrow_token\<rparr>) s1
           else pushAsset \<lparr>pl_assetKey = assetKey, pl_assetType = AssetVault, pl_recipientSource = src,
             pl_antMint = None, pl_amount = Some amount,
             pl_vaultEndTs = Some (nowS + lockDurationSeconds), pl_status = status,
             pl_source = vault_source owner vaultId ''vault'' Escrow_vault\<rparr> s1) (\<lambda>s2.
        Inr (credit status (\<lambda>s. s\<lparr>ps_counters := (ps_counters s)\<lparr>mc_vaultEscrowed := mc_vaultEscrowed (ps_counters s) + 1\<rparr>,
          ps_phase3 := ps_phase3 s + amount\<rparr>) s2)))))"

definition planOwnerVaults :: "plan_prims \<Rightarrow> frozen_inputs \<Rightarrow> int \<Rightarrow> string \<times> (string \<times> ao_vault) list
    \<Rightarrow> plan_step" where
  "planOwnerVaults P I nowMs entry s =
     (if mapped I (fst entry) then Inr s
      else fold_result (planVault P I nowMs (fst entry)) (snd entry) s)"

definition stake_source :: "string \<Rightarrow> string \<Rightarrow> onchain_seed \<Rightarrow> asset_source" where
  "stake_source addr kind seed =
     \<lparr>sr_phase = PhaseStake, sr_aoProcessId = None, sr_arweaveAddress = Some addr,
      sr_vaultId = None, sr_planKind = Some kind, sr_onchainSeed = seed\<rparr>"

definition credit_stake :: "planned_status \<Rightarrow> int \<Rightarrow> plan_state \<Rightarrow> plan_state" where
  "credit_stake status amount s =
     credit status (\<lambda>s. s\<lparr>ps_counters := (ps_counters s)\<lparr>mc_stakeEscrowed := mc_stakeEscrowed (ps_counters s) + 1\<rparr>,
       ps_phase4 := ps_phase4 s + amount\<rparr>) s"

text \<open>The lock of a stake vault: a locked operator exit is extended to the minimum.\<close>

definition stakeLockDuration :: "int \<Rightarrow> escrow_deposit \<Rightarrow> int" where
  "stakeLockDuration nowS v =
     (let lockDuration = the (ed_unlockTs v) - nowS;
          isLockedOperatorExit = (take 25 (ed_kind v) = ''withdrawal:operator-exit:''
            \<and> ed_amountMario v \<ge> MIN_VAULT_SIZE_MARIO \<and> lockDuration > 0)
      in if isLockedOperatorExit \<and> lockDuration < MIN_VAULT_LOCK_SECONDS
         then MIN_VAULT_LOCK_SECONDS else lockDuration)"

definition planStakeVault :: "plan_prims \<Rightarrow> frozen_inputs \<Rightarrow> int \<Rightarrow> escrow_deposit \<Rightarrow> plan_step" where
  "planStakeVault P I nowS v s =
     and_then (classifyOwner P I (ed_arweaveAddr v) s) (\<lambda>(status, s1).
     let assetKey = asset_toHex (deriveStakeAssetId (pp_sha P) (ed_assetIdSeed v));
         src = normalizeSourceAddress (ed_arweaveAddr v);
         lockDuration = stakeLockDuration nowS v in
     and_then
       (if vaultEscrowFallsBackToLiquid (ed_amountMario v) (BigV lockDuration)
        then pushAsset \<lparr>pl_assetKey = assetKey, pl_assetType = AssetToken, pl_recipientSource = src,
          pl_antMint = None, pl_amount = Some (ed_amountMario v), pl_vaultEndTs = None, pl_status = status,
          pl_source = stake_source (ed_arweaveAddr v) (ed_kind v @ ''-fallback-liquid'') Escrow_token\<rparr> s1
        else pushAsset \<lparr>pl_assetKey = assetKey, pl_assetType = AssetVault, pl_recipientSource = src,
          pl_antMint = None, pl_amount = Some (ed_amountMario v),
          pl_vaultEndTs = Some (nowS + lockDuration), pl_status = status,
          pl_source = stake_source (ed_arweaveAddr v) (ed_kind v) Escrow_vault\<rparr> s1) (\<lambda>s2.
     Inr (credit_stake status (ed_amountMario v) s2)))"

definition planStakeLiquid :: "plan_prims \<Rightarrow> frozen_inputs \<Rightarrow> escrow_deposit \<Rightarrow> plan_step" where
  "planStakeLiquid P I l s =
     and_then (classifyOwner P I (ed_arweaveAddr l) s) (\<lambda>(status, s1).
     and_then (pushAsset \<lparr>pl_assetKey = asset_toHex (deriveStakeAssetId (pp_sha P) (ed_assetIdSeed l)),
         pl_assetType = AssetToken, pl_recipientSource = normalizeSourceAddress (ed_arweaveAddr l),
         pl_antMint = None, pl_amount = Some (ed_amountMario l), pl_vaultEndTs = None, pl_status = status,
         pl_source = stake_source (ed_arweaveAddr l) (ed_kind l @ ''-liquid'') Escrow_token\<rparr> s1) (\<lambda>s2.
     Inr (credit_stake status (ed_amountMario l) s2)))"

section \<open>The plan\<close>

definition plan_start :: plan_state where
  "plan_start = \<lparr>ps_recipients = [], ps_assets = [], ps_seenKeys = [],
     ps_counters = \<lparr>mc_ant = 0, mc_tokenEscrowed = 0, mc_vaultEscrowed = 0, mc_stakeEscrowed = 0\<rparr>,
     ps_phase2 = 0, ps_phase3 = 0, ps_phase4 = 0\<rparr>"

definition planRecipients :: "plan_prims \<Rightarrow> frozen_inputs \<Rightarrow> plan_step" where
  "planRecipients P I s =
     and_then (fold_result (\<lambda>(addr, modB64). upsertRecipient P addr (Some (b64url_decode modB64)))
                 (fi_modulus I) s)
       (fold_result (\<lambda>addr. upsertRecipient P addr None) (fi_atRisk I))"

definition planState :: "plan_prims \<Rightarrow> frozen_inputs \<Rightarrow> int \<Rightarrow> string + plan_state" where
  "planState P I nowMs =
     and_then (planRecipients P I plan_start) (\<lambda>s0.
     and_then (fold_result (planAnt P I) (fi_ants I) s0) (\<lambda>s1.
     and_then (fold_result (planBalance P I) (fi_balances I) s1) (\<lambda>s2.
     and_then (fold_result (planOwnerVaults P I nowMs) (fi_vaults I) s2) (\<lambda>s3.
     and_then (collectStakeWithdrawalEscrow (fi_plan I)) (\<lambda>stakeSet.
     and_then (assertUniqueAssetSeeds stakeSet) (\<lambda>_.
     and_then (fold_result (planStakeVault P I (nowMs div 1000)) (es_vaults stakeSet) s3) (\<lambda>s4.
     fold_result (planStakeLiquid P I) (es_liquid stakeSet) s4)))))))"

definition buildLedgerPlan :: "plan_prims \<Rightarrow> frozen_inputs \<Rightarrow> int option \<Rightarrow> string + ledger_plan" where
  "buildLedgerPlan P I now =
     (let nowMs = (case now of Some t \<Rightarrow> t | None \<Rightarrow> DEFAULT_NOW_MS) in
      and_then (planState P I nowMs) (\<lambda>s.
      Inr \<lparr>lp_recipients = ps_recipients s, lp_assets = ps_assets s, lp_counters = ps_counters s,
           lp_phase2TokenOutflowMario = ps_phase2 s, lp_phase3VaultMario = ps_phase3 s,
           lp_phase4StakeMario = ps_phase4 s,
           lp_atRiskRecipientCount = length (filter (\<lambda>r. pr_status r = R_manual_review) (ps_recipients s)),
           lp_inputFingerprints = fi_fingerprints I, lp_nowMs = nowMs\<rparr>))"

section \<open>What one step does\<close>

definition asset_amount :: "planned_asset \<Rightarrow> int" where
  "asset_amount a = (case pl_amount a of Some v \<Rightarrow> v | None \<Rightarrow> 0)"

definition plan_credit :: "plan_state \<Rightarrow> int" where
  "plan_credit s = ps_phase2 s + ps_phase3 s + ps_phase4 s"

text \<open>The shapes of the three asset types, and the minimum a locked vault has.\<close>

definition asset_shape :: "int \<Rightarrow> planned_asset \<Rightarrow> bool" where
  "asset_shape nowS a = (case pl_assetType a of
     AssetAnt \<Rightarrow> pl_antMint a = Some (pl_assetKey a) \<and> pl_amount a = None \<and> pl_vaultEndTs a = None
   | AssetToken \<Rightarrow> pl_antMint a = None \<and> pl_amount a \<noteq> None \<and> pl_vaultEndTs a = None
   | AssetVault \<Rightarrow> pl_antMint a = None \<and> (\<exists>n e. pl_amount a = Some n \<and> pl_vaultEndTs a = Some e
       \<and> n \<ge> MIN_VAULT_SIZE_MARIO \<and> e - nowS \<ge> MIN_VAULT_LOCK_SECONDS))"

text \<open>
  Every phase does nothing for an entry or makes one deposit: it classifies the owner, pushes one
  asset for him and, if it is available, credits its amount.
\<close>

definition deposit :: "plan_prims \<Rightarrow> frozen_inputs \<Rightarrow> int \<Rightarrow> string \<Rightarrow> int \<Rightarrow> plan_state \<Rightarrow> plan_state \<Rightarrow> bool" where
  "deposit P I nowS owner amount s s' \<longleftrightarrow>
     (\<exists>a s1 s2. classifyOwner P I owner s = Inr (pl_status a, s1) \<and> pushAsset a s1 = Inr s2
        \<and> pl_recipientSource a = normalizeSourceAddress owner \<and> asset_shape nowS a \<and> asset_amount a = amount
        \<and> (sr_phase (pl_source a) = PhaseStake \<or> \<not> mapped I owner)
        \<and> ps_recipients s' = ps_recipients s2 \<and> ps_assets s' = ps_assets s2 \<and> ps_seenKeys s' = ps_seenKeys s2
        \<and> plan_credit s' = plan_credit s2 + (if pl_status a = P_available then amount else 0))"

named_theorems plan_simps \<open>the shape and the amount of a planned asset\<close>

lemmas [plan_simps] = asset_shape_def asset_amount_def plan_credit_def vaultEscrowFallsBackToLiquid_def
  math_trunc_def credit_stake_def credit_def
  vault_source_def stake_source_def

lemma depositI:
  assumes "classifyOwner P I owner s = Inr (st, s1)" and "pushAsset a s1 = Inr s2" and "pl_status a = st"
    and "pl_recipientSource a = normalizeSourceAddress owner" and "asset_shape nowS a" and "asset_amount a = amount"
    and "sr_phase (pl_source a) = PhaseStake \<or> \<not> mapped I owner"
    and "ps_recipients s' = ps_recipients s2" and "ps_assets s' = ps_assets s2" and "ps_seenKeys s' = ps_seenKeys s2"
    and "plan_credit s' = plan_credit s2 + (if st = P_available then amount else 0)"
  shows "deposit P I nowS owner amount s s'"
  unfolding deposit_def using assms by blast

lemma planAnt_step:
  assumes "planAnt P I ant s = Inr s'"
  shows "if mapped I (an_Owner ant) then s' = s else deposit P I nowS (an_Owner ant) 0 s s'"
  using assms
  by (auto simp: planAnt_def and_then_Inr) (erule (1) depositI; simp add: plan_simps)+

lemma planBalance_step:
  assumes "planBalance P I (addr, amount) s = Inr s'"
  shows "if mapped I addr \<or> amount \<le> 0 then s' = s else deposit P I nowS addr \<lfloor>amount\<rfloor> s s'"
  using assms
  by (auto simp: planBalance_def and_then_Inr bigint_of_number_def split: if_splits)
    (erule (1) depositI; simp add: plan_simps)+

lemma planStakeLiquid_step:
  assumes "planStakeLiquid P I l s = Inr s'"
  shows "deposit P I nowS (ed_arweaveAddr l) (ed_amountMario l) s s'"
  using assms
  by (auto simp: planStakeLiquid_def and_then_Inr) (erule (1) depositI; simp add: plan_simps)+

lemma planStakeVault_step:
  assumes "planStakeVault P I nowS v s = Inr s'"
  shows "deposit P I nowS (ed_arweaveAddr v) (ed_amountMario v) s s'"
  using assms
  by (cases "vaultEscrowFallsBackToLiquid (ed_amountMario v) (BigV (stakeLockDuration nowS v))"; clarsimp simp: planStakeVault_def and_then_Inr Let_def)
    (erule (1) depositI; simp add: plan_simps)+

lemma planVault_step:
  assumes "planVault P I nowMs owner (vid, v) s = Inr s'" and "\<not> mapped I owner"
  shows "if \<lfloor>av_balance v\<rfloor> \<le> 0 then s' = s
     else deposit P I (nowMs div 1000) owner \<lfloor>av_balance v\<rfloor> s s'"
  using assms
  by (auto simp: planVault_def and_then_Inr bigint_of_number_def Let_def split: if_splits)
    (erule (1) depositI; simp add: plan_simps)+

section \<open>The invariant\<close>

definition recipient_ok :: "plan_prims \<Rightarrow> frozen_inputs \<Rightarrow> planned_recipient \<Rightarrow> bool" where
  "recipient_ok P I r = (case pr_recipientPubkey r of
     Some k \<Rightarrow> pr_status r = R_open \<and> pr_recipientId r = deriveRecipientIdB64Url (pp_sha P) k
       \<and> (pr_protocol r = 0 \<longrightarrow> pr_recipientId r = pr_sourceAddress r)
   | None \<Rightarrow> pr_status r = R_manual_review \<and> pr_recipientId r = pr_sourceAddress r
       \<and> pr_sourceAddress r \<in> normalizeSourceAddress ` set (fi_atRisk I))"

definition recipients_ok :: "plan_prims \<Rightarrow> frozen_inputs \<Rightarrow> plan_state \<Rightarrow> bool" where
  "recipients_ok P I s \<longleftrightarrow> distinct (map pr_sourceAddress (ps_recipients s))
     \<and> (\<forall>r \<in> set (ps_recipients s). recipient_ok P I r
         \<and> pr_protocol r = (if isEthereumAddress (pr_sourceAddress r) then 1 else 0))"

definition payable_to :: "frozen_inputs \<Rightarrow> planned_recipient list \<Rightarrow> planned_asset \<Rightarrow> bool" where
  "payable_to I rs a \<longleftrightarrow>
     (\<exists>r \<in> set rs. pr_sourceAddress r = pl_recipientSource a
        \<and> (pl_status a = P_available \<longrightarrow> pr_status r = R_open
             \<or> isEthereumAddress (pr_sourceAddress r)
               \<and> pr_sourceAddress r \<in> normalizeSourceAddress ` set (fi_atRisk I)))"

definition assets_ok :: "frozen_inputs \<Rightarrow> int \<Rightarrow> plan_state \<Rightarrow> bool" where
  "assets_ok I nowS s \<longleftrightarrow> distinct (map pl_assetKey (ps_assets s))
     \<and> set (ps_seenKeys s) = pl_assetKey ` set (ps_assets s)
     \<and> (\<forall>a \<in> set (ps_assets s). asset_shape nowS a \<and> payable_to I (ps_recipients s) a
          \<and> (sr_phase (pl_source a) = PhaseStake \<or> \<not> mapped I (pl_recipientSource a)))
     \<and> plan_credit s = sum_list (map asset_amount (filter (\<lambda>a. pl_status a = P_available) (ps_assets s)))"

definition moduli_loaded :: "frozen_inputs \<Rightarrow> plan_state \<Rightarrow> bool" where
  "moduli_loaded I s \<longleftrightarrow> (\<forall>(addr, m) \<in> set (fi_modulus I).
     \<exists>r \<in> set (ps_recipients s). pr_sourceAddress r = normalizeSourceAddress addr \<and> pr_status r = R_open)"

lemma normalize_not_eth: "\<not> isEthereumAddress a \<Longrightarrow> normalizeSourceAddress a = a"
  by (simp add: normalizeSourceAddress_def)

lemma isEthereum_normalize [simp]: "isEthereumAddress (normalizeSourceAddress a) = isEthereumAddress a"
  by (simp add: normalizeSourceAddress_def isEthereumAddress_lower)

lemma mapped_normalize [simp]: "mapped I (normalizeSourceAddress a) = mapped I a"
  by (simp add: mapped_def normalized_get_def)

lemma upsert_effect:
  assumes "upsertRecipient P owner pubkey s = Inr s'"
  shows "s' = s \<and> recipients_has s (normalizeSourceAddress owner)
     \<or> (\<exists>r. s' = recipients_set r s \<and> \<not> recipients_has s (pr_sourceAddress r)
          \<and> pr_sourceAddress r = normalizeSourceAddress owner \<and> pr_recipientPubkey r = pubkey
          \<and> pr_protocol r = (if isEthereumAddress owner then 1 else 0)
          \<and> (case pubkey of
               Some k \<Rightarrow> pr_status r = R_open \<and> pr_recipientId r = deriveRecipientIdB64Url (pp_sha P) k
                 \<and> (\<not> isEthereumAddress owner \<longrightarrow> pr_recipientId r = owner)
             | None \<Rightarrow> pr_status r = R_manual_review \<and> pr_recipientId r = pr_sourceAddress r))"
  using assms by (auto simp: upsertRecipient_def Let_def split: if_splits option.splits)

lemma upsert_ok:
  assumes "upsertRecipient P owner pubkey s = Inr s'" and "recipients_ok P I s"
    and "pubkey = None \<Longrightarrow> owner \<in> set (fi_atRisk I)"
  shows "recipients_ok P I s'"
  using upsert_effect [OF assms(1)]
proof (elim disjE exE conjE)
  fix r assume r: "s' = recipients_set r s" "\<not> recipients_has s (pr_sourceAddress r)"
    "pr_sourceAddress r = normalizeSourceAddress owner" "pr_recipientPubkey r = pubkey"
    "pr_protocol r = (if isEthereumAddress owner then 1 else 0)"
    "case pubkey of
       Some k \<Rightarrow> pr_status r = R_open \<and> pr_recipientId r = deriveRecipientIdB64Url (pp_sha P) k
         \<and> (\<not> isEthereumAddress owner \<longrightarrow> pr_recipientId r = owner)
     | None \<Rightarrow> pr_status r = R_manual_review \<and> pr_recipientId r = pr_sourceAddress r"
  have "recipient_ok P I r"
    using r(3-6) assms(3) by (cases pubkey) (auto simp: recipient_ok_def normalize_not_eth)
  with r(1-3,5) assms(2) show ?thesis
    by (auto simp: recipients_ok_def recipients_set_def recipients_has_def)
qed (use assms in simp)

lemma upsert_keeps:
  assumes "upsertRecipient P owner pubkey s = Inr s'"
  shows "ps_assets s' = ps_assets s" "ps_seenKeys s' = ps_seenKeys s" "plan_credit s' = plan_credit s"
    "set (ps_recipients s) \<subseteq> set (ps_recipients s')"
    "recipients_has s' (normalizeSourceAddress owner)"
  using upsert_effect [OF assms] by (auto simp: recipients_set_def recipients_has_def plan_credit_def)

lemma payable_mono: "payable_to I rs a \<Longrightarrow> set rs \<subseteq> set rs' \<Longrightarrow> payable_to I rs' a"
  unfolding payable_to_def by blast

lemma moduli_mono: "moduli_loaded I s \<Longrightarrow> set (ps_recipients s) \<subseteq> set (ps_recipients s') \<Longrightarrow> moduli_loaded I s'"
  unfolding moduli_loaded_def by (fastforce simp: subset_iff)

lemma classify_effect:
  assumes "classifyOwner P I owner s = Inr (st, s1)"
  obtains pubkey where "resolveRecipientPubkey I owner = Inr pubkey" "upsertRecipient P owner pubkey s = Inr s1"
    "st = P_available \<longleftrightarrow> pubkey \<noteq> None" "pubkey = None \<Longrightarrow> owner \<in> set (fi_atRisk I)"
proof -
  from assms obtain pubkey where p: "resolveRecipientPubkey I owner = Inr pubkey"
    by (auto simp: classifyOwner_def and_then_Inr)
  show thesis
    by (rule that [OF p]; use assms p in \<open>cases pubkey\<close>) (auto simp: classifyOwner_def and_then_Inr split: if_splits)
qed

definition plan_inv :: "plan_prims \<Rightarrow> frozen_inputs \<Rightarrow> int \<Rightarrow> plan_state \<Rightarrow> bool" where
  "plan_inv P I nowS s \<longleftrightarrow> recipients_ok P I s \<and> assets_ok I nowS s \<and> moduli_loaded I s"

definition plan_total :: "plan_state \<Rightarrow> int" where
  "plan_total s = sum_list (map asset_amount (ps_assets s))"

text \<open>An owner with a key has an open recipient.\<close>

lemma available_recipient:
  assumes res: "resolveRecipientPubkey I owner = Inr (Some k)" and ok: "recipients_ok P I s1"
    and loaded: "moduli_loaded I s1" and has: "recipients_has s1 (normalizeSourceAddress owner)"
  shows "\<exists>r \<in> set (ps_recipients s1). pr_sourceAddress r = normalizeSourceAddress owner
    \<and> (pr_status r = R_open \<or> isEthereumAddress (pr_sourceAddress r)
         \<and> pr_sourceAddress r \<in> normalizeSourceAddress ` set (fi_atRisk I))"
proof (cases "isEthereumAddress owner")
  case True
  obtain r where r: "r \<in> set (ps_recipients s1)" "pr_sourceAddress r = normalizeSourceAddress owner"
    using has by (auto simp: recipients_has_def)
  have "recipient_ok P I r" using ok r(1) by (simp add: recipients_ok_def)
  then have "pr_status r = R_open \<or> pr_sourceAddress r \<in> normalizeSourceAddress ` set (fi_atRisk I)"
    by (auto simp: recipient_ok_def split: option.splits)
  with True r show ?thesis by (intro bexI [OF _ r(1)]) simp
next
  case False
  then have "truthy (map_of (fi_modulus I) owner)"
    using res by (simp add: resolveRecipientPubkey_def split: if_splits)
  then obtain m where "map_of (fi_modulus I) owner = Some m" by (auto simp: truthy_def split: option.splits)
  then have "(owner, m) \<in> set (fi_modulus I)" by (rule map_of_SomeD)
  with loaded show ?thesis unfolding moduli_loaded_def by blast
qed

lemma deposit_inv:
  assumes "deposit P I nowS owner amount s s'" and inv: "plan_inv P I nowS s"
  shows "plan_inv P I nowS s' \<and> plan_total s' = plan_total s + amount
    \<and> (\<exists>a. ps_assets s' = ps_assets s @ [a] \<and> pl_recipientSource a = normalizeSourceAddress owner)"
proof -
  obtain a s1 s2 where d: "classifyOwner P I owner s = Inr (pl_status a, s1)" "pushAsset a s1 = Inr s2"
      "pl_recipientSource a = normalizeSourceAddress owner" "asset_shape nowS a" "asset_amount a = amount"
      "sr_phase (pl_source a) = PhaseStake \<or> \<not> mapped I owner"
      "ps_recipients s' = ps_recipients s2" "ps_assets s' = ps_assets s2" "ps_seenKeys s' = ps_seenKeys s2"
      "plan_credit s' = plan_credit s2 + (if pl_status a = P_available then amount else 0)"
    using assms(1) unfolding deposit_def by blast
  obtain pubkey where c: "resolveRecipientPubkey I owner = Inr pubkey" "upsertRecipient P owner pubkey s = Inr s1"
      "pl_status a = P_available \<longleftrightarrow> pubkey \<noteq> None" "pubkey = None \<Longrightarrow> owner \<in> set (fi_atRisk I)"
    using classify_effect [OF d(1)] by metis
  note k = upsert_keeps [OF c(2)]
  have rec: "recipients_ok P I s1" using upsert_ok [OF c(2) _ c(4)] inv by (simp add: plan_inv_def)
  have loaded: "moduli_loaded I s1" using inv moduli_mono k(4) unfolding plan_inv_def by blast
  have push: "pl_assetKey a \<notin> set (ps_seenKeys s1)" "ps_recipients s2 = ps_recipients s1"
    "ps_assets s2 = ps_assets s1 @ [a]" "ps_seenKeys s2 = pl_assetKey a # ps_seenKeys s1"
    "plan_credit s2 = plan_credit s1"
    using d(2) by (auto simp: pushAsset_def plan_credit_def split: if_splits)
  have "payable_to I (ps_recipients s1) a"
  proof (cases pubkey)
    case None
    then show ?thesis using k(5) c(3) d(3) by (auto simp: payable_to_def recipients_has_def)
  next
    case (Some key)
    then show ?thesis
      using available_recipient [OF c(1) [unfolded Some] rec loaded k(5)] d(3) unfolding payable_to_def by metis
  qed
  moreover have "\<forall>b \<in> set (ps_assets s). payable_to I (ps_recipients s1) b"
    using inv payable_mono k(4) unfolding plan_inv_def assets_ok_def by blast
  ultimately have "assets_ok I nowS s'"
    using inv k push d unfolding plan_inv_def assets_ok_def by (auto simp: image_iff)
  moreover have "recipients_ok P I s'" "moduli_loaded I s'"
    using rec loaded push(2) d(7) by (simp_all add: recipients_ok_def moduli_loaded_def)
  moreover have "plan_total s' = plan_total s + amount" using push(3) d(5,8) k(1) by (simp add: plan_total_def)
  ultimately show ?thesis using push(3) d(3,8) k(1) by (auto simp: plan_inv_def)
qed

text \<open>What each phase adds to the total.\<close>

definition balance_due :: "frozen_inputs \<Rightarrow> string \<times> rat \<Rightarrow> int" where
  "balance_due I e = (if mapped I (fst e) \<or> snd e \<le> 0 then 0 else \<lfloor>snd e\<rfloor>)"

definition vault_due :: "string \<times> ao_vault \<Rightarrow> int" where
  "vault_due e = max 0 \<lfloor>av_balance (snd e)\<rfloor>"

definition owner_due :: "frozen_inputs \<Rightarrow> string \<times> (string \<times> ao_vault) list \<Rightarrow> int" where
  "owner_due I e = (if mapped I (fst e) then 0 else sum_list (map vault_due (snd e)))"

definition advances :: "plan_prims \<Rightarrow> frozen_inputs \<Rightarrow> int \<Rightarrow> plan_state \<Rightarrow> int \<Rightarrow> plan_state \<Rightarrow> bool" where
  "advances P I nowS s n s' \<longleftrightarrow> plan_inv P I nowS s' \<and> plan_total s' = plan_total s + n
     \<and> (\<exists>as. ps_assets s' = ps_assets s @ as)"

lemma advances_refl: "plan_inv P I nowS s \<Longrightarrow> n = 0 \<Longrightarrow> advances P I nowS s n s"
  by (simp add: advances_def)

lemma advances_trans:
  "advances P I nowS s m s1 \<Longrightarrow> advances P I nowS s1 n s2 \<Longrightarrow> advances P I nowS s (m + n) s2"
  unfolding advances_def by auto

lemma deposit_advances: "deposit P I nowS owner n s s' \<Longrightarrow> plan_inv P I nowS s \<Longrightarrow> advances P I nowS s n s'"
  using deposit_inv unfolding advances_def by blast

lemma fold_advances:
  assumes "fold_result f xs s = Inr s'" and "plan_inv P I nowS s"
    and "\<And>x s s'. x \<in> set xs \<Longrightarrow> plan_inv P I nowS s \<Longrightarrow> f x s = Inr s' \<Longrightarrow> advances P I nowS s (w x) s'"
  shows "advances P I nowS s (sum_list (map w xs)) s'"
  using assms
proof (induction xs arbitrary: s)
  case Nil
  then show ?case by (simp add: advances_refl)
next
  case (Cons x xs)
  then obtain s1 where s1: "f x s = Inr s1" "fold_result f xs s1 = Inr s'" by (auto simp: and_then_Inr)
  have a: "advances P I nowS s (w x) s1" using Cons.prems s1(1) by simp
  then have "plan_inv P I nowS s1" by (simp add: advances_def)
  then have "advances P I nowS s1 (sum_list (map w xs)) s'" using Cons.IH [OF s1(2)] Cons.prems(3) by simp
  from advances_trans [OF a this] show ?case by simp
qed

lemma planAnt_advances:
  "planAnt P I ant s = Inr s' \<Longrightarrow> plan_inv P I nowS s \<Longrightarrow> advances P I nowS s 0 s'"
  using planAnt_step [where nowS = nowS] by (metis advances_refl deposit_advances)

lemma planBalance_advances:
  assumes "planBalance P I e s = Inr s'" and "plan_inv P I nowS s"
  shows "advances P I nowS s (balance_due I e) s'"
proof (cases e)
  case (Pair addr amount)
  with planBalance_step [OF assms(1) [unfolded Pair], where nowS = nowS] assms(2) show ?thesis
    by (auto simp: balance_due_def advances_refl deposit_advances split: if_splits)
qed

lemma planVault_advances:
  assumes "planVault P I nowMs owner e s = Inr s'" and "\<not> mapped I owner" and "plan_inv P I (nowMs div 1000) s"
  shows "advances P I (nowMs div 1000) s (vault_due e) s'"
proof (cases e)
  case (Pair vid v)
  with planVault_step [OF assms(1) [unfolded Pair] assms(2)] assms(3) show ?thesis
    by (cases "\<lfloor>av_balance v\<rfloor> \<le> 0") (simp_all only: vault_due_def snd_conv if_True if_False max_absorb1 max_absorb2
      linear not_le less_imp_le advances_refl deposit_advances)
qed

lemma planOwnerVaults_advances:
  assumes "planOwnerVaults P I nowMs e s = Inr s'" and "plan_inv P I (nowMs div 1000) s"
  shows "advances P I (nowMs div 1000) s (owner_due I e) s'"
  using assms fold_advances [where f = "planVault P I nowMs (fst e)" and w = vault_due] planVault_advances
  by (auto simp: planOwnerVaults_def owner_due_def advances_refl split: if_splits)

lemma planStakeVault_advances:
  "planStakeVault P I nowS v s = Inr s' \<Longrightarrow> plan_inv P I nowS s \<Longrightarrow> advances P I nowS s (ed_amountMario v) s'"
  using planStakeVault_step deposit_advances by blast

lemma planStakeLiquid_advances:
  "planStakeLiquid P I l s = Inr s' \<Longrightarrow> plan_inv P I nowS s \<Longrightarrow> advances P I nowS s (ed_amountMario l) s'"
  using planStakeLiquid_step deposit_advances by blast

section \<open>The whole plan\<close>

definition load_inv :: "plan_prims \<Rightarrow> frozen_inputs \<Rightarrow> plan_state \<Rightarrow> bool" where
  "load_inv P I s \<longleftrightarrow> recipients_ok P I s \<and> ps_assets s = [] \<and> ps_seenKeys s = [] \<and> plan_credit s = 0"

lemma upsert_load:
  "upsertRecipient P owner pubkey s = Inr s' \<Longrightarrow> load_inv P I s
    \<Longrightarrow> (pubkey = None \<Longrightarrow> owner \<in> set (fi_atRisk I)) \<Longrightarrow> load_inv P I s'"
  using upsert_ok upsert_keeps by (metis load_inv_def)

definition all_open :: "plan_state \<Rightarrow> bool" where
  "all_open s = (\<forall>r \<in> set (ps_recipients s). pr_status r = R_open)"

lemma load_moduli:
  assumes "fold_result (\<lambda>(addr, m). upsertRecipient P addr (Some (b64url_decode m))) ms s = Inr s'"
    and "load_inv P I s" and "all_open s"
  shows "load_inv P I s' \<and> all_open s' \<and> set (ps_recipients s) \<subseteq> set (ps_recipients s')
    \<and> (\<forall>(addr, m) \<in> set ms. recipients_has s' (normalizeSourceAddress addr))"
  using assms
proof (induction ms arbitrary: s)
  case (Cons x ms)
  obtain addr m where x: "x = (addr, m)" by (cases x)
  with Cons.prems obtain s1 where s1: "upsertRecipient P addr (Some (b64url_decode m)) s = Inr s1"
    "fold_result (\<lambda>(addr, m). upsertRecipient P addr (Some (b64url_decode m))) ms s1 = Inr s'"
    by (auto simp: and_then_Inr)
  have l: "load_inv P I s1" using upsert_load [OF s1(1) Cons.prems(2)] by simp
  have o: "all_open s1"
    using upsert_effect [OF s1(1)] Cons.prems(3) by (auto simp: all_open_def recipients_set_def)
  from Cons.IH [OF s1(2) l o] upsert_keeps(4,5) [OF s1(1)] show ?case
    unfolding x recipients_has_def by fastforce
qed simp

lemma planRecipients_inv:
  assumes "planRecipients P I plan_start = Inr s"
  shows "plan_inv P I nowS s \<and> plan_total s = 0"
proof -
  from assms obtain s1 where s1:
    "fold_result (\<lambda>(addr, m). upsertRecipient P addr (Some (b64url_decode m))) (fi_modulus I) plan_start = Inr s1"
    "fold_result (\<lambda>addr. upsertRecipient P addr None) (fi_atRisk I) s1 = Inr s"
    by (auto simp: planRecipients_def and_then_Inr)
  have start: "load_inv P I plan_start" "all_open plan_start"
    by (simp_all add: load_inv_def recipients_ok_def plan_start_def all_open_def plan_credit_def)
  note m = load_moduli [OF s1(1) start]
  have "moduli_loaded I s1" using m unfolding moduli_loaded_def recipients_has_def all_open_def by fast
  then have "load_inv P I s1 \<and> moduli_loaded I s1" using m by blast
  then have "load_inv P I s \<and> moduli_loaded I s"
    by (rule fold_result_inv [OF s1(2)]) (blast intro: upsert_load moduli_mono [OF _ upsert_keeps(4)])
  then show ?thesis by (auto simp: plan_inv_def load_inv_def assets_ok_def plan_total_def)
qed

lemma planState_advances:
  assumes "planState P I nowMs = Inr s"
  shows "plan_inv P I (nowMs div 1000) s \<and> (\<exists>S. collectStakeWithdrawalEscrow (fi_plan I) = Inr S
     \<and> plan_total s = sum_list (map (balance_due I) (fi_balances I)) + sum_list (map (owner_due I) (fi_vaults I))
         + totalEscrowMario S)"
proof -
  let ?n = "nowMs div 1000"
  from assms obtain s0 s1 s2 s3 s4 S where s: "planRecipients P I plan_start = Inr s0"
    "fold_result (planAnt P I) (fi_ants I) s0 = Inr s1" "fold_result (planBalance P I) (fi_balances I) s1 = Inr s2"
    "fold_result (planOwnerVaults P I nowMs) (fi_vaults I) s2 = Inr s3"
    "collectStakeWithdrawalEscrow (fi_plan I) = Inr S"
    "fold_result (planStakeVault P I ?n) (es_vaults S) s3 = Inr s4"
    "fold_result (planStakeLiquid P I) (es_liquid S) s4 = Inr s"
    by (auto simp: planState_def and_then_Inr)
  have 0: "plan_inv P I ?n s0" "plan_total s0 = 0" using planRecipients_inv [OF s(1)] by auto
  have 1: "advances P I ?n s0 (sum_list (map (\<lambda>_. 0) (fi_ants I))) s1"
    by (rule fold_advances [OF s(2) 0(1)]) (rule planAnt_advances)
  then have 2: "advances P I ?n s1 (sum_list (map (balance_due I) (fi_balances I))) s2"
    by (intro fold_advances [OF s(3)] planBalance_advances) (simp_all add: advances_def)
  then have 3: "advances P I ?n s2 (sum_list (map (owner_due I) (fi_vaults I))) s3"
    by (intro fold_advances [OF s(4)] planOwnerVaults_advances) (simp_all add: advances_def)
  then have 4: "advances P I ?n s3 (sum_list (map ed_amountMario (es_vaults S))) s4"
    by (intro fold_advances [OF s(6)] planStakeVault_advances) (simp_all add: advances_def)
  then have 5: "advances P I ?n s4 (sum_list (map ed_amountMario (es_liquid S))) s"
    by (intro fold_advances [OF s(7)] planStakeLiquid_advances) (simp_all add: advances_def)
  have "plan_total s = sum_list (map (balance_due I) (fi_balances I)) + sum_list (map (owner_due I) (fi_vaults I))
         + totalEscrowMario S"
    using 0(2) 1 2 3 4 5 by (simp add: advances_def totalEscrowMario_sum)
  with s(5) 5 show ?thesis by (auto simp: advances_def)
qed

lemma buildLedgerPlan_state:
  assumes "buildLedgerPlan P I now = Inr L"
  obtains s where "planState P I (lp_nowMs L) = Inr s" "lp_recipients L = ps_recipients s" "lp_assets L = ps_assets s"
    "lp_phase2TokenOutflowMario L + lp_phase3VaultMario L + lp_phase4StakeMario L = plan_credit s"
  using assms by (auto simp: buildLedgerPlan_def and_then_Inr Let_def plan_credit_def)

lemma buildLedgerPlan_now: "buildLedgerPlan P I (Some t) = Inr L \<Longrightarrow> lp_nowMs L = t"
  by (auto simp: buildLedgerPlan_def and_then_Inr)

section \<open>Properties\<close>

text \<open>
  C20. The ledger conserves money: the assets of a plan add up to exactly the unmapped positive
  balances, the positive balances of the unmapped owners' vaults and the stake and withdrawal
  deposits of the delivery plan - no mARIO is lost or counted twice, whatever the routing to vault
  or liquid - and the three phase totals that the gate pins add up to the available part of it.
\<close>

theorem plan_conserves_money:
  assumes "buildLedgerPlan P I now = Inr L"
  shows "\<exists>S. collectStakeWithdrawalEscrow (fi_plan I) = Inr S
     \<and> sum_list (map asset_amount (lp_assets L))
         = sum_list (map (balance_due I) (fi_balances I)) + sum_list (map (owner_due I) (fi_vaults I))
           + totalEscrowMario S
     \<and> sum_list (map asset_amount (filter (\<lambda>a. pl_status a = P_available) (lp_assets L)))
         = lp_phase2TokenOutflowMario L + lp_phase3VaultMario L + lp_phase4StakeMario L"
proof (rule buildLedgerPlan_state [OF assms])
  fix s assume s: "planState P I (lp_nowMs L) = Inr s" "lp_assets L = ps_assets s"
    "lp_phase2TokenOutflowMario L + lp_phase3VaultMario L + lp_phase4StakeMario L = plan_credit s"
  from planState_advances [OF s(1)] show ?thesis
    by (auto simp: s plan_total_def plan_inv_def assets_ok_def)
qed

text \<open>
  C21. A plan is well formed: asset keys and recipients are unique; every recipient with a key is
  open and its id is derived from that key (for Arweave it is the address itself), one without is an
  AT-RISK owner in manual review; every asset has the shape of its type and a recipient in the plan,
  an available one an open recipient - unless an Ethereum address is in the AT-RISK file; a vault
  keeps at least the minimum amount and lock; and nothing outside the delivery plan goes to an owner
  of the address map.
\<close>

theorem plan_well_formed:
  assumes "buildLedgerPlan P I now = Inr L"
  shows "distinct (map pl_assetKey (lp_assets L)) \<and> distinct (map pr_sourceAddress (lp_recipients L))
     \<and> (\<forall>r \<in> set (lp_recipients L). recipient_ok P I r)
     \<and> (\<forall>a \<in> set (lp_assets L). asset_shape (lp_nowMs L div 1000) a \<and> payable_to I (lp_recipients L) a
          \<and> (sr_phase (pl_source a) = PhaseStake \<or> \<not> mapped I (pl_recipientSource a)))"
proof (rule buildLedgerPlan_state [OF assms])
  fix s assume s: "planState P I (lp_nowMs L) = Inr s" "lp_recipients L = ps_recipients s" "lp_assets L = ps_assets s"
  from planState_advances [OF s(1)] show ?thesis
    by (simp add: s plan_inv_def assets_ok_def recipients_ok_def)
qed

section \<open>Witnesses\<close>

definition demo_modulus :: bytes where "demo_modulus = replicate 512 0"

definition demo_plan_prims :: plan_prims where
  "demo_plan_prims = \<lparr>pp_sha = (\<lambda>bs. [of_nat (length bs), 2, 3]),
     pp_ed = \<lparr>ed_getPublicKey = (\<lambda>k. k), ed_sign = (\<lambda>m k. m)\<rparr>,
     pp_b58 = hex_encode, pp_antMintSecret = replicate 32 1\<rparr>"

definition demo_inputs :: frozen_inputs where
  "demo_inputs = \<lparr>fi_addressMap = [(''bob'', ''sol'')], fi_modulus = [(''AAID'', b64url_encode demo_modulus)],
     fi_atRisk = [''al''], fi_balances = [(''AAID'', 5), (''bob'', 9), (''al'', 3)],
     fi_vaults = [(''AAID'', [(''v1'', \<lparr>av_balance = 200000000, av_endTimestamp = 3000000000\<rparr>)])],
     fi_ants = [],
     fi_plan = \<lparr>pa_operatorEscrowVaults = [], pa_operatorLiquidEscrows = [], pa_delegatorEscrowVaults = [],
       pa_delegatorLiquidEscrows = [\<lparr>pe_arweaveAddr = ''al'', pe_key = ''k'', pe_amountMario = ''7'',
         pe_unlockTs = 0, pe_source = None\<rparr>], pa_escrowVaults = [], pa_liquidEscrows = []\<rparr>,
     fi_fingerprints = []\<rparr>"

lemma demo_modulus_length [simp]: "length demo_modulus = 512"
  by (simp add: demo_modulus_def)

lemma demo_modulus_encoded [simp]: "b64url_encode demo_modulus \<noteq> []"
proof
  assume "b64url_encode demo_modulus = []"
  then have "demo_modulus = b64url_decode []" by (metis b64url_decode_encode)
  then show False by (simp add: demo_modulus_def b64url_decode_def map_filter_def)
qed

lemma not_eth: "length a \<noteq> 42 \<Longrightarrow> \<not> isEthereumAddress a" by (simp add: isEthereumAddress_def)

lemma demo_recipient_id: "deriveRecipientIdB64Url (pp_sha demo_plan_prims) demo_modulus = ''AAID''"
  by (simp add: demo_plan_prims_def deriveRecipientIdB64Url_def bytesToBase64UrlNoPad_def) code_simp

lemma demo_stake_set: "collectStakeWithdrawalEscrow (fi_plan demo_inputs) = Inr \<lparr>es_vaults = [], es_liquid =
   [\<lparr>ed_arweaveAddr = ''al'', ed_assetIdSeed = ''stake-escrow-liquid:al:k'', ed_amountMario = 7,
     ed_unlockTs = None, ed_kind = ''k''\<rparr>]\<rparr>"
  by code_simp

lemma demo_ids:
  "deriveTokenAssetId (pp_sha demo_plan_prims) ''AAID'' = [17, 2, 3]"
  "deriveTokenAssetId (pp_sha demo_plan_prims) ''al'' = [15, 2, 3]"
  "deriveVaultAssetId (pp_sha demo_plan_prims) ''AAID'' ''v1'' = [20, 2, 3]"
  "deriveStakeAssetId (pp_sha demo_plan_prims) ''stake-escrow-liquid:al:k'' = [24, 2, 3]"
  by code_simp+

lemma demo_hex:
  "hex_byte 2 = ''02''" "hex_byte 3 = ''03''" "hex_byte 15 = ''0f''" "hex_byte 17 = ''11''"
  "hex_byte 20 = ''14''" "hex_byte 24 = ''18''"
  by code_simp+

lemma demo_plan_state:
  "\<exists>s. planState demo_plan_prims demo_inputs 1000000 = Inr s \<and> plan_credit s = 200000005
     \<and> map pl_amount (ps_assets s) = [Some 5, Some 3, Some 200000000, Some 7]"
  unfolding planState_def demo_stake_set
  by (simp add: demo_inputs_def planRecipients_def upsertRecipient_def not_eth normalizeSourceAddress_def
    b64url_decode_encode demo_recipient_id recipients_has_def recipients_set_def plan_start_def planBalance_def
    mapped_def normalized_get_def normalizeAddressMapKeys_def truthy_def classifyOwner_def
    resolveRecipientPubkey_def pushAsset_def credit_def planOwnerVaults_def planVault_def bigint_of_number_def
    assertUniqueAssetSeeds_def planStakeLiquid_def credit_stake_def plan_credit_def demo_ids
    demo_hex Let_def)

lemma demo_plan: "\<exists>L. buildLedgerPlan demo_plan_prims demo_inputs (Some 1000000) = Inr L
    \<and> map pl_amount (lp_assets L) = [Some 5, Some 3, Some 200000000, Some 7]
    \<and> lp_phase2TokenOutflowMario L + lp_phase3VaultMario L + lp_phase4StakeMario L = 200000005"
proof -
  obtain s where "planState demo_plan_prims demo_inputs 1000000 = Inr s" "plan_credit s = 200000005"
    "map pl_amount (ps_assets s) = [Some 5, Some 3, Some 200000000, Some 7]"
    using demo_plan_state by (elim exE conjE)
  then show ?thesis
    unfolding buildLedgerPlan_def Let_def option.case plan_credit_def
    by (intro exI conjI, simp only: and_then_simps) (simp_all only: ledger_plan.select_convs)
qed

theorem plan_conserves_money_witness:
  "\<exists>L S. buildLedgerPlan demo_plan_prims demo_inputs (Some 1000000) = Inr L
     \<and> collectStakeWithdrawalEscrow (fi_plan demo_inputs) = Inr S \<and> totalEscrowMario S = 7
     \<and> sum_list (map asset_amount (lp_assets L)) = 200000015
     \<and> sum_list (map asset_amount (filter (\<lambda>a. pl_status a = P_available) (lp_assets L))) = 200000005"
proof -
  obtain L where L: "buildLedgerPlan demo_plan_prims demo_inputs (Some 1000000) = Inr L"
    "lp_phase2TokenOutflowMario L + lp_phase3VaultMario L + lp_phase4StakeMario L = 200000005"
    using demo_plan by (elim exE conjE)
  have due: "sum_list (map (balance_due demo_inputs) (fi_balances demo_inputs)) = 8"
    "sum_list (map (owner_due demo_inputs) (fi_vaults demo_inputs)) = 200000000"
    by (simp_all add: demo_inputs_def balance_due_def owner_due_def vault_due_def mapped_def normalized_get_def
        normalizeAddressMapKeys_def normalizeSourceAddress_def not_eth truthy_def)
  from plan_conserves_money [OF L(1)] L due demo_stake_set show ?thesis
    by (simp add: totalEscrowMario_def)
qed

theorem plan_well_formed_witness:
  "\<exists>L. buildLedgerPlan demo_plan_prims demo_inputs (Some 1000000) = Inr L \<and> length (lp_assets L) = 4
     \<and> distinct (map pl_assetKey (lp_assets L)) \<and> (\<forall>a \<in> set (lp_assets L). asset_shape 1000 a)"
proof -
  obtain L where L: "buildLedgerPlan demo_plan_prims demo_inputs (Some 1000000) = Inr L"
    "map pl_amount (lp_assets L) = [Some 5, Some 3, Some 200000000, Some 7]"
    using demo_plan by (elim exE conjE)
  note wf = plan_well_formed [OF L(1), unfolded buildLedgerPlan_now [OF L(1)]]
  have "length (lp_assets L) = 4" using arg_cong [OF L(2), of length] by simp
  moreover have "\<forall>a \<in> set (lp_assets L). asset_shape 1000 a" using wf by simp
  ultimately show ?thesis using wf L(1) by blast
qed

end
