(* ===== verification/Ledger_Build.thy ===== *)
theory Ledger_Build
  imports Ledger_Plan Claims_Steps
begin

text \<open>
  Loading a plan into the database (\<open>packages/claims/src/ledger/build.ts\<close>, over the constraints of
  \<open>migrations/1720000001000_ledger_schema.sql\<close>). An \<open>INSERT ... ON CONFLICT\<close> is a fold over its
  rows; an error of the database rolls the transaction back. The provenance column \<open>source\<close>, which
  nothing reads back here, and \<open>updated_at\<close> are left out. \<open>rnd i\<close> is the 32 random bytes minted for
  the asset at position \<open>i\<close>.
\<close>

section \<open>The upsert\<close>

text \<open>
  \<open>chk\<close> are the row constraints, \<open>uniq\<close> the other unique indexes and foreign keys, and \<open>upd\<close> is what
  \<open>DO UPDATE SET ... WHERE\<close> makes of a conflicting row; \<open>touched\<close> are the keys this command has
  written.
\<close>

fun upsert_command :: "('r \<Rightarrow> 'k) \<Rightarrow> ('r \<Rightarrow> string option) \<Rightarrow> ('r list \<Rightarrow> 'r \<Rightarrow> string option)
    \<Rightarrow> ('r \<Rightarrow> 'r \<Rightarrow> 'r option) \<Rightarrow> 'k list \<Rightarrow> 'r list \<Rightarrow> 'r list \<Rightarrow> string + 'r list" where
  "upsert_command key chk uniq upd touched [] t = Inr t"
| "upsert_command key chk uniq upd touched (r # rs) t =
     (case chk r of
        Some e \<Rightarrow> Inl e
      | None \<Rightarrow>
        (case row_find key (key r) t of
           None \<Rightarrow>
             (case uniq t r of
                Some e \<Rightarrow> Inl e
              | None \<Rightarrow> upsert_command key chk uniq upd (key r # touched) rs (t @ [r]))
         | Some old \<Rightarrow>
             if key r \<in> set touched
             then Inl ''ON CONFLICT DO UPDATE command cannot affect row a second time''
             else (case upd old r of
                 None \<Rightarrow> upsert_command key chk uniq upd touched rs t
               | Some new \<Rightarrow>
                   (case uniq (filter (\<lambda>x. key x \<noteq> key r) t) new of
                      Some e \<Rightarrow> Inl e
                    | None \<Rightarrow> upsert_command key chk uniq upd (key r # touched) rs
                                (row_update key (key r) (\<lambda>_. new) t)))))"

definition INSERT_CHUNK :: nat where "INSERT_CHUNK = 500"

function insertChunked :: "('r \<Rightarrow> 'k) \<Rightarrow> ('r \<Rightarrow> string option) \<Rightarrow> ('r list \<Rightarrow> 'r \<Rightarrow> string option)
    \<Rightarrow> ('r \<Rightarrow> 'r \<Rightarrow> 'r option) \<Rightarrow> 'r list \<Rightarrow> 'r list \<Rightarrow> string + 'r list" where
  "insertChunked key chk uniq upd rows t =
     (if rows = [] then Inr t
      else and_then (upsert_command key chk uniq upd [] (take INSERT_CHUNK rows) t)
             (insertChunked key chk uniq upd (drop INSERT_CHUNK rows)))"
  by pat_completeness auto
termination
  by (relation "measure (\<lambda>(key, chk, uniq, upd, rows, t). length rows)") (auto simp: INSERT_CHUNK_def)

declare insertChunked.simps [simp del]

section \<open>The two tables\<close>

fun recipient_status_str :: "recipient_status \<Rightarrow> string" where
  "recipient_status_str R_open = ''open''"
| "recipient_status_str R_manual_review = ''manual_review''"

fun planned_asset_status :: "planned_status \<Rightarrow> asset_status" where
  "planned_asset_status P_available = Available"
| "planned_asset_status P_manual_review = ManualReview"

definition recipient_insert_row :: "planned_recipient \<Rightarrow> recipient_row" where
  "recipient_insert_row r =
     \<lparr>rc_recipient_id = pr_recipientId r, rc_protocol = pr_protocol r,
      rc_source_address = pr_sourceAddress r, rc_recipient_pubkey = pr_recipientPubkey r,
      rc_status = recipient_status_str (pr_status r)\<rparr>"

definition recipient_check :: "recipient_row \<Rightarrow> string option" where
  "recipient_check r =
     (if rc_protocol r \<noteq> 0 \<and> rc_protocol r \<noteq> 1 then Some ''recipients_protocol_ck''
      else if rc_status r \<notin> {''open'', ''manual_review'', ''frozen'', ''closed''} then Some ''recipients_status_ck''
      else if rc_status r \<noteq> ''manual_review'' \<and> rc_recipient_pubkey r = None
      then Some ''recipients_pubkey_present_ck'' else None)"

definition recipient_unique :: "recipient_row list \<Rightarrow> recipient_row \<Rightarrow> string option" where
  "recipient_unique t r =
     (if \<exists>x \<in> set t. rc_source_address x = rc_source_address r then Some ''recipients_source'' else None)"

definition upsert_recipients :: "recipient_row list \<Rightarrow> recipient_row list \<Rightarrow> string + recipient_row list" where
  "upsert_recipients rows t =
     insertChunked rc_recipient_id recipient_check recipient_unique (\<lambda>old new. Some new) rows t"

definition buildable :: "asset_status \<Rightarrow> bool" where
  "buildable s = (s \<in> {Available, ManualReview})"

definition asset_insert_row :: "bytes \<Rightarrow> string \<Rightarrow> planned_asset \<Rightarrow> asset_row" where
  "asset_insert_row nonce recipientId a =
     \<lparr>as_asset_key = pl_assetKey a, as_asset_type = pl_assetType a, as_ant_mint = pl_antMint a,
      as_ant_name = None, as_amount = pl_amount a, as_vault_end_ts = pl_vaultEndTs a,
      as_nonce = nonce, as_status = planned_asset_status (pl_status a), as_recipient_id = recipientId\<rparr>"

text \<open>\<open>NUMERIC(20,0)\<close> holds twenty digits.\<close>

definition asset_check :: "asset_row \<Rightarrow> string option" where
  "asset_check r =
     (if (case as_amount r of None \<Rightarrow> False | Some v \<Rightarrow> \<bar>v\<bar> \<ge> 10 ^ 20) then Some ''numeric field overflow''
      else if \<not> (as_asset_type r = AssetAnt \<and> as_ant_mint r \<noteq> None \<and> as_amount r = None
              \<or> as_asset_type r \<noteq> AssetAnt \<and> as_amount r \<noteq> None)
      then Some ''assets_ant_shape_ck''
      else if length (as_nonce r) \<noteq> 32 then Some ''assets_nonce_len_ck'' else None)"

text \<open>The nonce, and the name backfilled later, of an existing row stay.\<close>

definition refreshed_row :: "asset_row \<Rightarrow> asset_row \<Rightarrow> asset_row option" where
  "refreshed_row old new =
     (if buildable (as_status old)
      then Some (new\<lparr>as_nonce := as_nonce old, as_ant_name := as_ant_name old\<rparr>) else None)"

definition upsert_assets :: "recipient_row list \<Rightarrow> asset_row list \<Rightarrow> asset_row list \<Rightarrow> string + asset_row list" where
  "upsert_assets recipients rows t =
     insertChunked as_asset_key asset_check
       (\<lambda>_ r. if \<exists>x \<in> set recipients. rc_recipient_id x = as_recipient_id r then None
              else Some ''assets_recipient_id_fkey'')
       refreshed_row rows t"

section \<open>Writing the ledger\<close>

record build_result =
  br_recipientsWritten :: nat
  br_assetsWritten :: nat
  br_availableAssets :: nat
  br_manualReviewAssets :: nat

definition live_plan_rows :: "ledger_plan \<Rightarrow> db \<Rightarrow> asset_row list" where
  "live_plan_rows plan d =
     filter (\<lambda>a. as_asset_key a \<in> set (map pl_assetKey (lp_assets plan)) \<and> \<not> buildable (as_status a)) (db_assets d)"

text \<open>The map is built from pairs: the last entry of a source wins. An empty id counts as missing.\<close>

definition srcToId :: "ledger_plan \<Rightarrow> string \<Rightarrow> string option" where
  "srcToId plan src = map_of (rev (map (\<lambda>r. (pr_sourceAddress r, pr_recipientId r)) (lp_recipients plan))) src"

definition plan_asset_rows :: "(nat \<Rightarrow> bytes) \<Rightarrow> ledger_plan \<Rightarrow> string + asset_row list" where
  "plan_asset_rows rnd plan =
     map_result (\<lambda>(i, a).
       if \<not> truthy (srcToId plan (pl_recipientSource a))
       then Inl (''asset '' @ pl_assetKey a @ '' references recipient '' @ pl_recipientSource a
                 @ '' not present in recipients'')
       else Inr (asset_insert_row (rnd i) (the (srcToId plan (pl_recipientSource a))) a))
       (List.enumerate 0 (lp_assets plan))"

definition writeLedger_tx :: "bool \<Rightarrow> (nat \<Rightarrow> bytes) \<Rightarrow> ledger_plan \<Rightarrow> db \<Rightarrow> string + db" where
  "writeLedger_tx allowLiveRebuild rnd plan d =
     (let live = live_plan_rows plan d in
      if \<not> allowLiveRebuild \<and> length live > 0
      then Inl (''refusing to rebuild the ledger: '' @ dec_nat (length live)
                @ '' asset row(s) in this plan have left the buildable set'')
      else and_then (upsert_recipients (map recipient_insert_row (lp_recipients plan)) (db_recipients d))
             (\<lambda>recipients.
           and_then (plan_asset_rows rnd plan) (\<lambda>rows.
           and_then (upsert_assets recipients rows (db_assets d)) (\<lambda>assets.
           Inr (d\<lparr>db_recipients := recipients, db_assets := assets\<rparr>)))))"

definition writeLedger :: "bool \<Rightarrow> (nat \<Rightarrow> bytes) \<Rightarrow> ledger_plan \<Rightarrow> db \<Rightarrow> (string + build_result) \<times> db" where
  "writeLedger allowLiveRebuild rnd plan d =
     (case writeLedger_tx allowLiveRebuild rnd plan d of
        Inl e \<Rightarrow> (Inl e, d)
      | Inr d' \<Rightarrow>
          (Inr \<lparr>br_recipientsWritten = length (lp_recipients plan), br_assetsWritten = length (lp_assets plan),
             br_availableAssets = length (filter (\<lambda>a. pl_status a = P_available) (lp_assets plan)),
             br_manualReviewAssets = length (filter (\<lambda>a. pl_status a = P_manual_review) (lp_assets plan))\<rparr>, d'))"

section \<open>What an upsert keeps\<close>

lemma row_find_snoc: "row_find key k (t @ [x]) =
    (case row_find key k t of Some r \<Rightarrow> Some r | None \<Rightarrow> if key x = k then Some x else None)"
  unfolding row_find_def by (induction t) auto

lemma row_find_replace:
  assumes "key n = k'" and "row_find key k' t = Some old"
  shows "row_find key k (row_update key k' (\<lambda>_. n) t) = (if k = k' then Some n else row_find key k t)"
proof (cases "k = k'")
  case True
  with assms show ?thesis unfolding row_find_def row_update_def by (induction t) auto
next
  case False
  with assms(1) show ?thesis unfolding row_find_def row_update_def by (induction t) auto
qed

text \<open>
  The contract of the two upserts: \<open>DO UPDATE\<close> keeps the key and relates the old row to the new
  one by a preorder. Interpreted below on both tables.
\<close>

locale upsert_table =
  fixes key :: "'r \<Rightarrow> 'k" and chk :: "'r \<Rightarrow> string option" and uniq :: "'r list \<Rightarrow> 'r \<Rightarrow> string option"
    and upd :: "'r \<Rightarrow> 'r \<Rightarrow> 'r option" and rel :: "'r \<Rightarrow> 'r \<Rightarrow> bool"
  assumes rel_refl: "rel r r" and rel_trans: "rel a b \<Longrightarrow> rel b c \<Longrightarrow> rel a c"
    and upd_key: "upd old r = Some n \<Longrightarrow> key n = key r"
    and upd_rel: "key old = key r \<Longrightarrow> upd old r = Some n \<Longrightarrow> rel old n"
begin

lemma command_keeps:
  assumes "upsert_command key chk uniq upd touched rows t = Inr t'" and "row_find key k t = Some old"
  shows "\<exists>r. row_find key k t' = Some r \<and> rel old r"
  using assms
proof (induction rows arbitrary: touched t old)
  case Nil
  then show ?case by (auto intro: rel_refl)
next
  case (Cons x rows)
  show ?case
  proof (cases "row_find key (key x) t")
    case None
    have "row_find key k (t @ [x]) = Some old" using Cons.prems(2) by (simp add: row_find_snoc)
    with None Cons show ?thesis by (auto split: option.splits)
  next
    case (Some o')
    show ?thesis
    proof (cases "upd o' x")
      case None
      with Some Cons show ?thesis by (auto split: option.splits if_splits)
    next
      case n: (Some n)
      let ?t = "row_update key (key x) (\<lambda>_. n) t"
      have key: "key o' = key x" using row_find_Some [OF Some] by simp
      have "\<exists>m. row_find key k ?t = Some m \<and> rel old m"
      proof (cases "k = key x")
        case True
        with Some Cons.prems(2) upd_rel [OF key n] row_find_replace [OF upd_key [OF n] Some] show ?thesis by simp
      next
        case False
        with row_find_replace [OF upd_key [OF n] Some] Cons.prems(2) rel_refl show ?thesis by simp
      qed
      then obtain m where m: "row_find key k ?t = Some m" "rel old m" by blast
      from Cons.prems(1) Some n
      have "upsert_command key chk uniq upd (key x # touched) rows ?t = Inr t'"
        by (auto split: option.splits if_splits)
      from Cons.IH [OF this m(1)] m(2) rel_trans show ?thesis by blast
    qed
  qed
qed

lemma chunked_keeps:
  "insertChunked key chk uniq upd rows t = Inr t' \<Longrightarrow> row_find key k t = Some old
     \<Longrightarrow> \<exists>r. row_find key k t' = Some r \<and> rel old r"
proof (induction rows arbitrary: t old rule: measure_induct_rule [where f = length])
  case (less rows)
  show ?case
  proof (cases "rows = []")
    case True
    then show ?thesis using less.prems rel_refl by (simp add: insertChunked.simps)
  next
    case False
    with less.prems(1) obtain t1 where t1: "upsert_command key chk uniq upd [] (take INSERT_CHUNK rows) t = Inr t1"
      "insertChunked key chk uniq upd (drop INSERT_CHUNK rows) t1 = Inr t'"
      by (auto simp: insertChunked.simps [of _ _ _ _ rows] and_then_Inr)
    from command_keeps [OF t1(1) less.prems(2)] obtain m where m: "row_find key k t1 = Some m" "rel old m" by blast
    have "length (drop INSERT_CHUNK rows) < length rows" using False by (simp add: INSERT_CHUNK_def)
    from less.IH [OF this t1(2) m(1)] m(2) rel_trans show ?thesis by blast
  qed
qed

text \<open>Rows with new keys are appended as they are.\<close>

lemma command_appends:
  assumes "upsert_command key chk uniq upd touched rows t = Inr t'" and "distinct (map key (t @ rows))"
  shows "t' = t @ rows"
  using assms
proof (induction rows arbitrary: touched t)
  case (Cons x rows)
  have "row_find key (key x) t = None" using Cons.prems(2) by (auto simp: row_find_None image_iff)
  with Cons.prems(1) have "upsert_command key chk uniq upd (key x # touched) rows (t @ [x]) = Inr t'"
    by (auto split: option.splits)
  from Cons.IH [OF this] Cons.prems(2) show ?case by simp
qed simp

lemma chunked_appends:
  "insertChunked key chk uniq upd rows t = Inr t' \<Longrightarrow> distinct (map key (t @ rows)) \<Longrightarrow> t' = t @ rows"
proof (induction rows arbitrary: t rule: measure_induct_rule [where f = length])
  case (less rows)
  show ?case
  proof (cases "rows = []")
    case True
    then show ?thesis using less.prems by (simp add: insertChunked.simps)
  next
    case False
    let ?a = "take INSERT_CHUNK rows" and ?b = "drop INSERT_CHUNK rows"
    from False less.prems(1) obtain t1 where t1: "upsert_command key chk uniq upd [] ?a t = Inr t1"
      "insertChunked key chk uniq upd ?b t1 = Inr t'"
      by (auto simp: insertChunked.simps [of _ _ _ _ rows] and_then_Inr)
    have d: "distinct (map key (t @ ?a @ ?b))" using less.prems(2) by simp
    then have "distinct (map key (t @ ?a))" by (simp only: map_append distinct_append append_assoc [symmetric])
    from command_appends [OF t1(1) this] have "t1 = t @ ?a" .
    moreover have "length ?b < length rows" using False by (simp add: INSERT_CHUNK_def)
    ultimately show ?thesis using less.IH [OF _ t1(2)] d by simp
  qed
qed

lemma command_distinct:
  "upsert_command key chk uniq upd touched rows t = Inr t' \<Longrightarrow> distinct (map key t) \<Longrightarrow> distinct (map key t')"
proof (induction rows arbitrary: touched t)
  case (Cons x rows)
  show ?case
  proof (cases "row_find key (key x) t")
    case None
    then have "distinct (map key (t @ [x]))" using Cons.prems(2) by (auto simp: row_find_None)
    moreover have "upsert_command key chk uniq upd (key x # touched) rows (t @ [x]) = Inr t'"
      using Cons.prems(1) None by (auto split: option.splits)
    ultimately show ?thesis by (intro Cons.IH)
  next
    case (Some o')
    show ?thesis
    proof (cases "upd o' x")
      case None
      with Some Cons show ?thesis by (auto split: option.splits if_splits)
    next
      case n: (Some n)
      have "map key (row_update key (key x) (\<lambda>_. n) t) = map key t"
        unfolding row_update_def by (simp add: upd_key [OF n])
      with Some n Cons show ?thesis by (auto split: option.splits if_splits)
    qed
  qed
qed simp

lemma chunked_distinct:
  "insertChunked key chk uniq upd rows t = Inr t' \<Longrightarrow> distinct (map key t) \<Longrightarrow> distinct (map key t')"
proof (induction rows arbitrary: t rule: measure_induct_rule [where f = length])
  case (less rows)
  show ?case
  proof (cases "rows = []")
    case False
    with less.prems(1) obtain t1 where t1: "upsert_command key chk uniq upd [] (take INSERT_CHUNK rows) t = Inr t1"
      "insertChunked key chk uniq upd (drop INSERT_CHUNK rows) t1 = Inr t'"
      by (auto simp: insertChunked.simps [of _ _ _ _ rows] and_then_Inr)
    have "length (drop INSERT_CHUNK rows) < length rows" using False by (simp add: INSERT_CHUNK_def)
    from less.IH [OF this t1(2)] command_distinct [OF t1(1) less.prems(2)] show ?thesis by simp
  qed (use less.prems in \<open>simp add: insertChunked.simps\<close>)
qed

end

text \<open>An asset row keeps its nonce, and a row that has left the buildable set keeps everything.\<close>

definition refreshes :: "asset_row \<Rightarrow> asset_row \<Rightarrow> bool" where
  "refreshes old new \<longleftrightarrow> as_nonce new = as_nonce old \<and> as_ant_name new = as_ant_name old
     \<and> (\<not> buildable (as_status old) \<longrightarrow> new = old)"

interpretation recipient_upsert: upsert_table rc_recipient_id recipient_check recipient_unique
  "\<lambda>old new. Some new" "\<lambda>old new. True"
  by unfold_locales auto

interpretation asset_upsert: upsert_table as_asset_key asset_check
  "\<lambda>_ r. if \<exists>x \<in> set recipients. rc_recipient_id x = as_recipient_id r then None
         else Some ''assets_recipient_id_fkey''"
  refreshed_row refreshes for recipients
  by unfold_locales (auto simp: refreshes_def refreshed_row_def split: if_splits)

lemma upsert_assets_keeps:
  "upsert_assets recipients rows t = Inr t' \<Longrightarrow> row_find as_asset_key k t = Some a
     \<Longrightarrow> \<exists>b. row_find as_asset_key k t' = Some b \<and> refreshes a b"
  unfolding upsert_assets_def by (rule asset_upsert.chunked_keeps)

lemma upsert_assets_distinct:
  "upsert_assets recipients rows t = Inr t' \<Longrightarrow> distinct (map as_asset_key t) \<Longrightarrow> distinct (map as_asset_key t')"
  unfolding upsert_assets_def by (rule asset_upsert.chunked_distinct)

lemma upsert_assets_appends:
  "upsert_assets recipients rows t = Inr t' \<Longrightarrow> distinct (map as_asset_key (t @ rows)) \<Longrightarrow> t' = t @ rows"
  unfolding upsert_assets_def by (rule asset_upsert.chunked_appends)

lemma writeLedger_tx_cases:
  assumes "writeLedger_tx allow rnd plan d = Inr d'"
  obtains recipients rows assets where "\<not> allow \<longrightarrow> live_plan_rows plan d = []"
    "upsert_recipients (map recipient_insert_row (lp_recipients plan)) (db_recipients d) = Inr recipients"
    "plan_asset_rows rnd plan = Inr rows" "upsert_assets recipients rows (db_assets d) = Inr assets"
    "d' = d\<lparr>db_recipients := recipients, db_assets := assets\<rparr>"
  using assms by (auto simp: writeLedger_tx_def and_then_Inr Let_def split: if_splits)

text \<open>The refresh keeps every claim's hold on its asset.\<close>

lemma refreshes_holds:
  "refreshes a b \<Longrightarrow> as_asset_key b = as_asset_key a \<Longrightarrow> \<not> buildable (as_status a) \<Longrightarrow> holds_asset c a
     \<Longrightarrow> holds_asset c b"
  by (simp add: refreshes_def)

section \<open>Properties\<close>

text \<open>
  C19. A rebuild never resurrects an asset: whatever plan is written, forced or not, and whether it
  succeeds or not, the claims and the audit log stay, no asset row disappears or gets a new nonce,
  and a row that has left the buildable set - claiming, in review, claimed, cancelled, frozen - is
  left exactly as it was. Without the force flag a plan that names such a row is refused and nothing
  is written.
\<close>

theorem rebuild_never_resurrects:
  "db_claims (snd (writeLedger allow rnd plan d)) = db_claims d
   \<and> db_audit (snd (writeLedger allow rnd plan d)) = db_audit d
   \<and> (\<forall>k a. find_asset d k = Some a \<longrightarrow>
        (\<exists>b. find_asset (snd (writeLedger allow rnd plan d)) k = Some b \<and> as_nonce b = as_nonce a
           \<and> (as_status a \<notin> {Available, ManualReview} \<longrightarrow> b = a)))
   \<and> (\<not> allow \<and> (\<exists>a \<in> set (db_assets d). as_asset_key a \<in> pl_assetKey ` set (lp_assets plan)
        \<and> as_status a \<notin> {Available, ManualReview})
      \<longrightarrow> isl (fst (writeLedger allow rnd plan d)) \<and> snd (writeLedger allow rnd plan d) = d)"
proof (cases "writeLedger_tx allow rnd plan d")
  case (Inl e)
  then have e: "writeLedger allow rnd plan d = (Inl e, d)" by (simp add: writeLedger_def)
  show ?thesis unfolding e by simp
next
  case (Inr d')
  from writeLedger_tx_cases [OF Inr] obtain recipients rows assets where w:
    "\<not> allow \<longrightarrow> live_plan_rows plan d = []" "upsert_assets recipients rows (db_assets d) = Inr assets"
    "d' = d\<lparr>db_recipients := recipients, db_assets := assets\<rparr>" by metis
  have "\<exists>b. find_asset d' k = Some b \<and> refreshes a b" if "find_asset d k = Some a" for k a
    using upsert_assets_keeps [OF w(2) that] w(3) by simp
  moreover have "allow" if "a \<in> set (db_assets d)" "as_asset_key a \<in> pl_assetKey ` set (lp_assets plan)"
    "as_status a \<notin> {Available, ManualReview}" for a
    using that w(1) by (auto simp: live_plan_rows_def buildable_def filter_empty_conv)
  ultimately show ?thesis using Inr w(3) unfolding writeLedger_def
    by (fastforce simp: refreshes_def buildable_def)
qed

text \<open>A rebuild keeps the invariant of the tables, as long as no claim has won an asset in manual review.\<close>

lemma writeLedger_inv:
  assumes "db_inv d"
    and "\<And>c a. c \<in> set (db_claims d) \<Longrightarrow> won (cl_status c) \<Longrightarrow> find_asset d (cl_asset_key c) = Some a
          \<Longrightarrow> as_status a \<noteq> ManualReview"
  shows "db_inv (snd (writeLedger allow rnd plan d))"
proof (cases "writeLedger_tx allow rnd plan d")
  case (Inl e)
  then show ?thesis using assms(1) by (simp add: writeLedger_def)
next
  case (Inr d')
  from writeLedger_tx_cases [OF Inr] obtain recipients rows assets where w:
    "upsert_assets recipients rows (db_assets d) = Inr assets"
    "d' = d\<lparr>db_recipients := recipients, db_assets := assets\<rparr>" by metis
  have "\<exists>b \<in> set assets. holds_asset c b" if c: "c \<in> set (db_claims d)" "won (cl_status c)" for c
  proof -
    obtain a where a: "a \<in> set (db_assets d)" "holds_asset c a"
      using assms(1) c by (auto simp: db_inv_def claims_inv_def)
    then have f: "find_asset d (cl_asset_key c) = Some a"
      using row_find_distinct [of as_asset_key "db_assets d" a] assms(1)
      by (simp add: db_inv_def claims_inv_def holds_asset_def)
    have "\<not> buildable (as_status a)"
      using a(2) assms(2) [OF c f] by (simp add: buildable_def holds_asset_def)
    moreover obtain b where b: "row_find as_asset_key (cl_asset_key c) assets = Some b" "refreshes a b"
      using upsert_assets_keeps [OF w(1) f] by blast
    ultimately have "b = a" by (simp add: refreshes_def)
    with a(2) row_find_Some [OF b(1)] show ?thesis by auto
  qed
  with assms(1) upsert_assets_distinct [OF w(1)] w(2) Inr show ?thesis
    by (simp add: db_inv_def claims_inv_def writeLedger_def)
qed

section \<open>The first load\<close>

definition row_of_plan :: "ledger_plan \<Rightarrow> planned_asset \<Rightarrow> asset_row \<Rightarrow> bool" where
  "row_of_plan L a r \<longleftrightarrow> as_asset_key r = pl_assetKey a \<and> as_asset_type r = pl_assetType a
     \<and> as_ant_mint r = pl_antMint a \<and> as_amount r = pl_amount a \<and> as_vault_end_ts r = pl_vaultEndTs a
     \<and> as_status r = planned_asset_status (pl_status a)
     \<and> (\<exists>p \<in> set (lp_recipients L). pr_sourceAddress p = pl_recipientSource a \<and> pr_recipientId p = as_recipient_id r)"

lemma plan_asset_rows_of_plan:
  assumes "plan_asset_rows rnd L = Inr rows"
  shows "list_all2 (row_of_plan L) (lp_assets L) rows"
proof -
  have r: "row_of_plan L a r"
    if "(if \<not> truthy (srcToId L (pl_recipientSource a)) then Inl (e :: string)
         else Inr (asset_insert_row n (the (srcToId L (pl_recipientSource a))) a)) = Inr r" for a r n e
  proof -
    from that obtain x where x: "srcToId L (pl_recipientSource a) = Some x" "r = asset_insert_row n x a"
      by (auto simp: truthy_def split: if_splits option.splits)
    then obtain p where "p \<in> set (lp_recipients L)" "pr_sourceAddress p = pl_recipientSource a" "pr_recipientId p = x"
      by (auto simp: srcToId_def dest!: map_of_SomeD)
    with x(2) show ?thesis by (auto simp: row_of_plan_def asset_insert_row_def)
  qed
  show ?thesis
    using assms r unfolding plan_asset_rows_def map_result_Inr list_all2_conv_all_nth
    by (fastforce simp: nth_enumerate_eq)
qed

lemma row_of_plan_keys: "list_all2 (row_of_plan L) as rows \<Longrightarrow> map as_asset_key rows = map pl_assetKey as"
  by (induction rule: list_all2_induct) (simp_all add: row_of_plan_def)

lemma row_of_plan_amounts:
  "list_all2 (row_of_plan L) as rows \<Longrightarrow>
     sum_list (map (\<lambda>r. case as_amount r of Some v \<Rightarrow> v | None \<Rightarrow> 0) (filter (\<lambda>r. as_status r = Available) rows))
       = sum_list (map asset_amount (filter (\<lambda>a. pl_status a = P_available) as))"
proof (induction rule: list_all2_induct)
  case (Cons a as r rows)
  then show ?case by (cases "pl_status a") (simp_all add: row_of_plan_def asset_amount_def)
qed simp

text \<open>Loading into empty tables writes exactly the plan.\<close>

lemma first_load:
  assumes L: "buildLedgerPlan P I now = Inr L" and w: "writeLedger allow rnd L d = (Inr res, d')"
    and "db_assets d = []" and "db_claims d = []"
  shows "db_inv d' \<and> db_claims d' = [] \<and> list_all2 (row_of_plan L) (lp_assets L) (db_assets d')"
proof -
  from w have "writeLedger_tx allow rnd L d = Inr d'" by (auto simp: writeLedger_def split: sum.splits)
  from writeLedger_tx_cases [OF this] obtain recipients rows assets where x:
    "plan_asset_rows rnd L = Inr rows" "upsert_assets recipients rows (db_assets d) = Inr assets"
    "d' = d\<lparr>db_recipients := recipients, db_assets := assets\<rparr>" by metis
  have rows: "list_all2 (row_of_plan L) (lp_assets L) rows" by (rule plan_asset_rows_of_plan [OF x(1)])
  obtain s where "planState P I (lp_nowMs L) = Inr s" "lp_assets L = ps_assets s"
    by (rule buildLedgerPlan_state [OF L])
  then have "distinct (map pl_assetKey (lp_assets L))"
    using planState_advances by (metis plan_inv_def assets_ok_def)
  then have d: "distinct (map as_asset_key (db_assets d @ rows))"
    using row_of_plan_keys [OF rows] assms(3) by simp
  have "assets = rows" using upsert_assets_appends [OF x(2) d] assms(3) by simp
  with x(3) d rows assms(3,4) show ?thesis by (simp add: db_inv_def claims_inv_def)
qed

section \<open>Witnesses\<close>

definition demo_asset_plan :: "string \<Rightarrow> planned_asset" where
  "demo_asset_plan k = \<lparr>pl_assetKey = k, pl_assetType = AssetToken, pl_recipientSource = ''al'', pl_antMint = None,
     pl_amount = Some 7, pl_vaultEndTs = None, pl_status = P_available,
     pl_source = stake_source ''al'' ''k'' Escrow_token\<rparr>"

definition demo_ledger :: "string list \<Rightarrow> ledger_plan" where
  "demo_ledger ks = \<lparr>lp_recipients = [\<lparr>pr_sourceAddress = ''al'', pr_protocol = 0,
       pr_recipientPubkey = Some [1, 2], pr_recipientId = ''al'', pr_status = R_open\<rparr>],
     lp_assets = map demo_asset_plan ks,
     lp_counters = \<lparr>mc_ant = 0, mc_tokenEscrowed = 0, mc_vaultEscrowed = 0, mc_stakeEscrowed = 1\<rparr>,
     lp_phase2TokenOutflowMario = 0, lp_phase3VaultMario = 0, lp_phase4StakeMario = 7,
     lp_atRiskRecipientCount = 0, lp_inputFingerprints = [], lp_nowMs = 0\<rparr>"

definition demo_taken :: asset_row where
  "demo_taken = (asset_insert_row (replicate 32 9) ''al'' (demo_asset_plan ''x''))\<lparr>as_status := A_claimed\<rparr>"

definition demo_live_db :: db where
  "demo_live_db = \<lparr>db_recipients = [], db_assets = [demo_taken], db_claims = [], db_audit = [], db_ant_batches = []\<rparr>"

lemma demo_rebuild:
  "isl (fst (writeLedger False (\<lambda>i. replicate 32 0) (demo_ledger [''x'', ''y'']) demo_live_db))"
  "\<not> isl (fst (writeLedger True (\<lambda>i. replicate 32 0) (demo_ledger [''x'', ''y'']) demo_live_db))"
  "length (db_assets (snd (writeLedger True (\<lambda>i. replicate 32 0) (demo_ledger [''x'', ''y'']) demo_live_db))) = 2"
  by code_simp+

theorem rebuild_never_resurrects_witness:
  "find_asset demo_live_db ''x'' = Some demo_taken \<and> as_status demo_taken = A_claimed
   \<and> \<not> isl (fst (writeLedger True (\<lambda>i. replicate 32 0) (demo_ledger [''x'', ''y'']) demo_live_db))
   \<and> find_asset (snd (writeLedger True (\<lambda>i. replicate 32 0) (demo_ledger [''x'', ''y'']) demo_live_db)) ''x'' = Some demo_taken
   \<and> isl (fst (writeLedger False (\<lambda>i. replicate 32 0) (demo_ledger [''x'', ''y'']) demo_live_db))"
proof -
  have f: "find_asset demo_live_db ''x'' = Some demo_taken"
    by (simp add: row_find_def demo_live_db_def demo_taken_def asset_insert_row_def demo_asset_plan_def)
  have st: "as_status demo_taken = A_claimed" by (simp add: demo_taken_def)
  note p = rebuild_never_resurrects [where plan = "demo_ledger [''x'', ''y'']" and d = demo_live_db
      and rnd = "\<lambda>i. replicate 32 0"]
  from p [where allow = True] f st have
    "find_asset (snd (writeLedger True (\<lambda>i. replicate 32 0) (demo_ledger [''x'', ''y'']) demo_live_db)) ''x'' = Some demo_taken"
    by (metis asset_status.distinct insertE empty_iff)
  with f st demo_rebuild(1,2) show ?thesis by blast
qed

end
