(* ===== verification/Ant_Operator.thy ===== *)
theory Ant_Operator
  imports Exactly_Once "HOL-Library.AList"
begin

text \<open>
  The operator's half of \<open>dispatch/ant-operator.ts\<close>: the treasury-signed transaction of an ANT, the
  batches built of them, and the submission of what the operator's wallet has signed. Transactions of
  \<open>@solana/kit\<close>, base 58 and Ed25519 are the fields of \<open>tx_kit\<close>; a treasury is its address. Log and
  alert sinks are left out.
\<close>

section \<open>Transactions\<close>

text \<open>A decoded transaction; the first signature is the fee payer's.\<close>

record decoded_tx =
  tx_messageBytes :: bytes
  tx_signatures :: "(string \<times> bytes option) list"

record tx_kit =
  tk_base64 :: "string \<Rightarrow> string + bytes"
  tk_decode :: "bytes \<Rightarrow> string + decoded_tx"
  tk_encode :: "decoded_tx \<Rightarrow> string + string"
  tk_signature :: "decoded_tx \<Rightarrow> string + string"
  tk_partialSign :: "string \<Rightarrow> string \<Rightarrow> int \<Rightarrow> instruction list \<Rightarrow> string + decoded_tx"
  tk_bs58 :: "string \<Rightarrow> string + bytes"
  tk_edVerify :: "bytes \<Rightarrow> bytes \<Rightarrow> bytes \<Rightarrow> string + bool"

definition decode_wire :: "tx_kit \<Rightarrow> string \<Rightarrow> string + decoded_tx" where
  "decode_wire X wire = and_then (tk_base64 X wire) (tk_decode X)"

section \<open>Building\<close>

record build_ant_args =
  ba_claimId :: string
  ba_antMint :: string
  ba_claimant :: string
  ba_antColdAddress :: string
  ba_blockhash :: string
  ba_lastValidBlockHeight :: int
  ba_includeMemo :: bool

definition ant_transfer_ixs :: "kit \<Rightarrow> string \<Rightarrow> build_ant_args \<Rightarrow> instruction list" where
  "ant_transfer_ixs K treasury A =
     [mplCoreTransferV1Ix (ba_antMint A) treasury (ba_antColdAddress A) (ba_claimant A),
      mplCoreUpdateAuthorityIx K (ba_antMint A) treasury (ba_antColdAddress A) (ba_claimant A)]
     @ (if ba_includeMemo A then [claimMemoIx (ba_claimId A)] else [])"

definition buildAntTransferTx :: "kit \<Rightarrow> tx_kit \<Rightarrow> string \<Rightarrow> build_ant_args \<Rightarrow> string + built_ant_tx" where
  "buildAntTransferTx K X treasury A =
     and_then (tk_partialSign X treasury (ba_blockhash A) (ba_lastValidBlockHeight A)
                 (ant_transfer_ixs K treasury A)) (\<lambda>partial_tx.
     and_then (tk_signature X partial_tx) (\<lambda>txid.
     and_then (tk_encode X partial_tx) (\<lambda>wire.
     Inr \<lparr>bt_txid = txid, bt_txBase64 = wire, bt_blockhash = ba_blockhash A,
          bt_lastValidBlockHeight = ba_lastValidBlockHeight A\<rparr>)))"

text \<open>The operator's view of a deployment: what dispatch has, and \<open>latestBlockhash\<close>.\<close>

record ('w, 'k) operator_deps =
  od_deps :: "('w, 'k) worker_deps"
  od_txs :: tx_kit
  od_latestBlockhash :: "('w, string \<times> int) io"
  od_treasury :: string
  od_cold :: string

definition reserveAntBatch :: "('w, 'k) worker_deps \<Rightarrow> int \<Rightarrow> int \<Rightarrow> string \<Rightarrow> (claim_row \<Rightarrow> bool)
    \<Rightarrow> reserve_opts \<Rightarrow> ('w, string \<times> ant_review_item list) act" where
  "reserveAntBatch D now0 now batchId skip opts =
     io_bind (db_tx (wk_db D) (expireStaleReservations now0
                (case ro_reservationTtlMs opts of Some t \<Rightarrow> t | None \<Rightarrow> 600000))) (\<lambda>_.
     io_bind (db_tx (wk_db D) (reserve_tx (wk_env D) now batchId opts skip)) (\<lambda>items.
     io_return (batchId, items)))"

definition build_one :: "('w, 'k) operator_deps \<Rightarrow> bool \<Rightarrow> string \<Rightarrow> int \<Rightarrow> claim_row \<Rightarrow> string
    \<Rightarrow> string + built_ant_tx" where
  "build_one D memo blockhash lastValid c antMint =
     and_then (address (wk_kit (od_deps D)) antMint) (\<lambda>mint.
     and_then (address (wk_kit (od_deps D)) (cl_claimant c)) (\<lambda>claimant.
     buildAntTransferTx (wk_kit (od_deps D)) (od_txs D) (od_treasury D)
       \<lparr>ba_claimId = cl_claim_id c, ba_antMint = mint, ba_claimant = claimant, ba_antColdAddress = od_cold D,
        ba_blockhash = blockhash, ba_lastValidBlockHeight = lastValid, ba_includeMemo = memo\<rparr>))"

definition buildReservedBatch :: "('w, 'k) operator_deps \<Rightarrow> int \<Rightarrow> string \<Rightarrow> bool option
    \<Rightarrow> ('w, ant_batch_result) act" where
  "buildReservedBatch D now batchId includeMemo =
     (let memo = (case includeMemo of Some b \<Rightarrow> b | None \<Rightarrow> True) in
      io_bind (chain (od_latestBlockhash D)) (\<lambda>latest.
      io_bind (db_tx (wk_db (od_deps D)) (build_tx (wk_env (od_deps D)) now batchId (od_cold D)
                 (build_one D memo (fst latest) (snd latest)))) (\<lambda>built.
      from_result built)))"

section \<open>Submitting\<close>

datatype ant_outcome =
    Ant outcome | AntReleasedForRebuild | AntRejectedNoAuthoritySig | AntRejectedBadAuthoritySig
  | AntRejectedUnknownTx | AntRejectedUndecodable

record ant_submit_result =
  su_txid :: "string option"
  su_claimId :: "string option"
  su_assetKey :: "string option"
  su_outcome :: ant_outcome
  su_signature :: "string option"
  su_detail :: "string option"

definition ant_result :: "string option \<Rightarrow> string option \<Rightarrow> string option \<Rightarrow> ant_outcome \<Rightarrow> string option
    \<Rightarrow> string option \<Rightarrow> ant_submit_result" where
  "ant_result txid cid k out sig detail = \<lparr>su_txid = txid, su_claimId = cid, su_assetKey = k,
     su_outcome = out, su_signature = sig, su_detail = detail\<rparr>"

definition MAX_ANT_REBUILD_ATTEMPTS :: nat where "MAX_ANT_REBUILD_ATTEMPTS = 1"

text \<open>The dash of the message is written as a hyphen.\<close>

definition rebuild_cap_reason :: string where
  "rebuild_cap_reason = ''ANT re-build cap ('' @ dec_nat MAX_ANT_REBUILD_ATTEMPTS
     @ '') exceeded after repeated `expired` with no landed outflow - possible lagging/pooled confirm-RPC. Frozen for an operator; verify on-chain before any manual re-drive.''"

definition recover_ant_expired :: "('w, 'k) worker_deps \<Rightarrow> clock \<Rightarrow> string \<Rightarrow> claim_row \<Rightarrow> string
    \<Rightarrow> ('w, ant_submit_result) act" where
  "recover_ant_expired D T treasuryAddress claim sig =
     (let cid = Some (cl_claim_id claim); k = Some (cl_asset_key claim);
          known = filter (\<lambda>s. s \<noteq> []) (sig # cl_tx_signatures claim) in
      io_bind (from_result (address (wk_kit D) (cl_claimant claim))) (\<lambda>claimant.
      io_bind (chain (gw_findConfirmedOutflow (wk_gateway D) [treasuryAddress, claimant] known)) (\<lambda>found.
      case found of
        Some landed \<Rightarrow>
          io_bind (db_do (wk_db D) (finalizeConfirmed (wk_env D) (ck_recover T) (cl_claim_id claim) landed))
            (\<lambda>_. io_return (ant_result None cid k (Ant OutRecoveredConfirmed) (Some landed) None))
      | None \<Rightarrow>
          if cl_dispatch_resign_count claim \<ge> MAX_ANT_REBUILD_ATTEMPTS
          then io_bind (db_tx (wk_db D) (markNeedsOperator (wk_env D) (ck_recover T) (cl_claim_id claim) rebuild_cap_reason))
                 (\<lambda>_. io_return (ant_result None cid k (Ant OutNeedsOperator) (Some sig) (Some ''rebuild cap exceeded'')))
          else io_bind (db_do (wk_db D) (releaseReservationForRebuild (wk_env D) (ck_recover T) (cl_claim_id claim)))
                 (\<lambda>_. io_return (ant_result None cid k AntReleasedForRebuild (Some sig) None)))))"

definition recoverReservedAntClaim :: "('w, 'k) worker_deps \<Rightarrow> clock \<Rightarrow> string \<Rightarrow> string
    \<Rightarrow> ('w, ant_submit_result) act" where
  "recoverReservedAntClaim D T treasuryAddress claimId =
     io_bind (db_read (wk_db D) (\<lambda>d. find_claim d claimId)) (\<lambda>row.
     case row of
       None \<Rightarrow> io_return (ant_result None (Some claimId) None (Ant OutSkipped) None (Some ''claim vanished''))
     | Some claim \<Rightarrow>
         (let cid = Some claimId; k = Some (cl_asset_key claim) in
          if cl_status claim = Confirmed
          then io_return (ant_result None cid k (Ant OutAlreadyConfirmed) (cl_dispatch_signature claim) None)
          else if cl_status claim \<noteq> Dispatching \<or> \<not> truthy (cl_dispatch_signature claim)
          then io_return (ant_result None cid k (Ant OutSkipped) None
                 (Some (''not dispatching ('' @ claim_status_str (cl_status claim) @ '')'')))
          else let sig = the (cl_dispatch_signature claim);
                   lastValid = (case cl_dispatch_last_valid_bh claim of Some v \<Rightarrow> v | None \<Rightarrow> 0) in
            io_bind (chain (gw_confirmSignature (wk_gateway D) sig lastValid)) (\<lambda>state.
            case state of
              StateConfirmed \<Rightarrow>
                io_bind (db_do (wk_db D) (finalizeConfirmed (wk_env D) (ck_recover T) claimId sig))
                  (\<lambda>_. io_return (ant_result None cid k (Ant OutRecoveredConfirmed) (Some sig) None))
            | StateFailed \<Rightarrow>
                io_bind (db_do (wk_db D) (markFailed (wk_env D) (ck_recover T) claimId
                           (''on-chain tx '' @ sig @ '' failed'')))
                  (\<lambda>_. io_return (ant_result None cid k (Ant OutFailed) (Some sig) (Some ''tx failed'')))
            | StateExpired \<Rightarrow> recover_ant_expired D T treasuryAddress claim sig
            | StatePending \<Rightarrow>
                io_return (ant_result None cid k (Ant OutAwaitingConfirmation) (Some sig) None))))"

text \<open>\<open>ZERO64[i]\<close> is undefined past the 64th byte.\<close>

definition isPresentSig :: "bytes option \<Rightarrow> bool" where
  "isPresentSig sig = (case sig of None \<Rightarrow> False
     | Some bs \<Rightarrow> \<not> (length bs \<le> 64 \<and> list_all (\<lambda>b. b = 0) bs))"

text \<open>What is read of the submitted wire: its txid and its signature in the authority slot.\<close>

definition submitted_parts :: "tx_kit \<Rightarrow> string \<Rightarrow> string \<Rightarrow> string + string \<times> bytes option" where
  "submitted_parts X cold wire =
     and_then (decode_wire X wire) (\<lambda>decoded.
     and_then (tk_signature X decoded) (\<lambda>txid.
     Inr (txid, case map_of (tx_signatures decoded) cold of Some s \<Rightarrow> s | None \<Rightarrow> None)))"

definition find_reservation :: "string \<Rightarrow> string \<Rightarrow> db \<Rightarrow> claim_row option" where
  "find_reservation txid batchId d =
     find (\<lambda>c. cl_ant_reserved_txid c = Some txid \<and> cl_ant_batch_id c = Some batchId) (db_claims d)"

definition with_authority :: "string \<Rightarrow> bytes \<Rightarrow> decoded_tx \<Rightarrow> decoded_tx" where
  "with_authority cold sig t = t\<lparr>tx_signatures := AList.update cold (Some sig) (tx_signatures t)\<rparr>"

text \<open>The check of the authority signature over the stored message, and the wire rebuilt from it.\<close>

definition authoritative_wire :: "tx_kit \<Rightarrow> string \<Rightarrow> bytes \<Rightarrow> bytes \<Rightarrow> string \<Rightarrow> string + (string \<times> string) option" where
  "authoritative_wire X cold authPubkey authoritySig stored =
     and_then (decode_wire X stored) (\<lambda>t.
     and_then (tk_edVerify X authoritySig (tx_messageBytes t) authPubkey) (\<lambda>ok.
     if \<not> ok then Inr None
     else and_then (tk_encode X (with_authority cold authoritySig t)) (\<lambda>wire.
          and_then (tk_signature X t) (\<lambda>txid. Inr (Some (txid, wire))))))"

definition submit_matched :: "('w, 'k) operator_deps \<Rightarrow> clock \<Rightarrow> claim_row \<Rightarrow> string \<Rightarrow> string
    \<Rightarrow> ('w, ant_submit_result) act" where
  "submit_matched D T resv txid wire =
     (let W = od_deps D; claimId = cl_claim_id resv; k = cl_asset_key resv in
      io_bind (db_read (wk_db W) (\<lambda>d. find_claim d claimId)) (\<lambda>row.
      case row of
        None \<Rightarrow> io_return (ant_result (Some txid) (Some claimId) (Some k) (Ant OutSkipped) None (Some ''claim vanished''))
      | Some claim \<Rightarrow>
          if cl_status claim = Confirmed
          then io_return (ant_result (Some txid) (Some claimId) (Some k) (Ant OutAlreadyConfirmed)
                 (Some (case cl_dispatch_signature claim of Some s \<Rightarrow> s | None \<Rightarrow> txid)) None)
          else if cl_status claim = Dispatching \<and> truthy (cl_dispatch_signature claim)
          then io_bind (recoverReservedAntClaim W T (od_treasury D) claimId)
                 (\<lambda>r. io_return (r\<lparr>su_txid := Some txid\<rparr>))
          else io_bind (dispatchSignedTx W T \<lparr>pa_claimId = claimId, pa_assetKey = k,
                 pa_signed = \<lparr>sd_signature = txid,
                    sd_blockhash = (case cl_ant_reserved_blockhash resv of Some b \<Rightarrow> b | None \<Rightarrow> []),
                    sd_lastValidBlockHeight = (case cl_ant_reserved_last_valid_bh resv of Some v \<Rightarrow> v | None \<Rightarrow> 0),
                    sd_wireBase64 = wire\<rparr>,
                 pa_settlementAmount = None, pa_settlementLabel = Some ''ant-operator''\<rparr>)
                 (\<lambda>core. io_return (ant_result (Some txid) (Some claimId) (Some k) (Ant (fst core))
                    (fst (snd core)) (snd (snd core))))))"

definition submitOneAntTx :: "('w, 'k) operator_deps \<Rightarrow> clock \<Rightarrow> string \<Rightarrow> bytes \<Rightarrow> string
    \<Rightarrow> ('w, ant_submit_result) act" where
  "submitOneAntTx D T batchId authPubkey wire =
     (case submitted_parts (od_txs D) (od_cold D) wire of
        Inl e \<Rightarrow> io_return (ant_result None None None AntRejectedUndecodable None (Some e))
      | Inr (txid, authoritySig) \<Rightarrow>
          if \<not> isPresentSig authoritySig
          then io_return (ant_result (Some txid) None None AntRejectedNoAuthoritySig None (Some ''authority slot empty''))
          else io_bind (db_read (wk_db (od_deps D)) (find_reservation txid batchId)) (\<lambda>found.
            case found of
              None \<Rightarrow> io_return (ant_result (Some txid) None None AntRejectedUnknownTx None
                        (Some ''no live reservation matches this txid+batch''))
            | Some resv \<Rightarrow>
                if \<not> truthy (cl_ant_reserved_wire resv)
                then io_return (ant_result (Some txid) None None AntRejectedUnknownTx None
                       (Some ''no live reservation matches this txid+batch''))
                else io_bind (from_result (authoritative_wire (od_txs D) (od_cold D) authPubkey
                                (the authoritySig) (the (cl_ant_reserved_wire resv)))) (\<lambda>auth.
                  case auth of
                    None \<Rightarrow> io_return (ant_result (Some txid) (Some (cl_claim_id resv)) (Some (cl_asset_key resv))
                       AntRejectedBadAuthoritySig None (Some
                       ''authority signature does not verify over the server's reserved message (tampered/redirected)''))
                  | Some (storedTxid, authWire) \<Rightarrow> submit_matched D T resv storedTxid authWire)))"

fun submit_loop :: "('w, 'k) operator_deps \<Rightarrow> (nat \<Rightarrow> clock) \<Rightarrow> string \<Rightarrow> bytes \<Rightarrow> string list
    \<Rightarrow> ('w, ant_submit_result list) act" where
  "submit_loop D clk batchId authPubkey [] = io_return []"
| "submit_loop D clk batchId authPubkey (wire # wires) =
     io_bind (catch_all (submitOneAntTx D (clk 0) batchId authPubkey wire)
                (\<lambda>e. io_return (ant_result None None None (Ant OutSkipped) None (Some (''error: '' @ e))))) (\<lambda>r.
     io_bind (submit_loop D (\<lambda>n. clk (Suc n)) batchId authPubkey wires) (\<lambda>rs. io_return (r # rs)))"

fun outcome_str :: "outcome \<Rightarrow> string" where
  "outcome_str OutConfirmed = ''confirmed''"
| "outcome_str OutAlreadyConfirmed = ''already_confirmed''"
| "outcome_str OutRecoveredConfirmed = ''recovered_confirmed''"
| "outcome_str OutFailed = ''failed''"
| "outcome_str OutAwaitingConfirmation = ''awaiting_confirmation''"
| "outcome_str OutDeferredRefill = ''deferred_refill''"
| "outcome_str OutRoutedToReview = ''routed_to_review''"
| "outcome_str OutAwaitingApproval = ''awaiting_approval''"
| "outcome_str OutAwaitingAntSigner = ''awaiting_ant_signer''"
| "outcome_str OutNeedsOperator = ''needs_operator''"
| "outcome_str OutAwaitingManualVaultDelivery = ''awaiting_manual_vault_delivery''"
| "outcome_str OutSkipped = ''skipped''"
| "outcome_str OutError = ''error''"

fun ant_outcome_str :: "ant_outcome \<Rightarrow> string" where
  "ant_outcome_str (Ant out) = outcome_str out"
| "ant_outcome_str AntReleasedForRebuild = ''released_for_rebuild''"
| "ant_outcome_str AntRejectedNoAuthoritySig = ''rejected_no_authority_sig''"
| "ant_outcome_str AntRejectedBadAuthoritySig = ''rejected_bad_authority_sig''"
| "ant_outcome_str AntRejectedUnknownTx = ''rejected_unknown_tx''"
| "ant_outcome_str AntRejectedUndecodable = ''rejected_undecodable''"

definition submit_json :: "ant_submit_result \<Rightarrow> json" where
  "submit_json r = JObj (opt_field ''claimId'' JStr (su_claimId r) @ opt_field ''txid'' JStr (su_txid r)
     @ [(''outcome'', JStr (ant_outcome_str (su_outcome r)))] @ opt_field ''signature'' JStr (su_signature r))"

definition finalizeBatchStatus :: "('w, 'k) worker_deps \<Rightarrow> int \<Rightarrow> string \<Rightarrow> ('w, unit) act" where
  "finalizeBatchStatus D now batchId =
     io_bind (db_read (wk_db D) (batch_unconfirmed batchId)) (\<lambda>n.
     db_do (wk_db D) (advance_batch now batchId (n > 0)))"

definition submitAntBatch :: "('w, 'k) operator_deps \<Rightarrow> (nat \<Rightarrow> clock) \<Rightarrow> int \<Rightarrow> string \<Rightarrow> string list
    \<Rightarrow> ('w, ant_submit_result list) act" where
  "submitAntBatch D clk now batchId signedTxs =
     io_bind (from_result (tk_bs58 (od_txs D) (od_cold D))) (\<lambda>authPubkey.
     io_bind (submit_loop D clk batchId authPubkey signedTxs) (\<lambda>results.
     io_bind (finalizeBatchStatus (od_deps D) now batchId) (\<lambda>_.
     io_bind (db_do (wk_db (od_deps D)) (writeSubmitAudit (wk_env (od_deps D)) now batchId (od_cold D)
                (map submit_json results))) (\<lambda>_.
     io_return results))))"

end
