(* ===== verification/Operator_Sends.thy ===== *)
theory Operator_Sends
  imports Ant_Operator Worker_Runs
begin

text \<open>
  What the operator's path can put on the chain. Every reserved transaction hands over the claim's
  own ANT to its claimant, whatever runs beside the operator; and only reserved messages, signed by
  the cold authority, are broadcast, whatever the client submits.
\<close>

section \<open>Reservations\<close>

text \<open>\<open>instrs\<close> is how the chain reads the instructions of a message.\<close>

definition hands_over :: "kit \<Rightarrow> (bytes \<Rightarrow> instruction list) \<Rightarrow> db \<Rightarrow> claim_row \<Rightarrow> bytes \<Rightarrow> bool" where
  "hands_over K instrs d c msg \<longleftrightarrow> (\<exists>a m. find_asset d (cl_asset_key c) = Some a \<and> as_ant_mint a = Some m
     \<and> effects K None (instrs msg) = [GiveAsset m (cl_claimant c), SetAuthority m (cl_claimant c)])"

definition reservations_ok :: "('w, 'k) operator_deps \<Rightarrow> (bytes \<Rightarrow> instruction list) \<Rightarrow> db \<Rightarrow> bool" where
  "reservations_ok D instrs d \<longleftrightarrow> (\<forall>c \<in> set (db_claims d). \<forall>wire. cl_ant_reserved_wire c = Some wire \<longrightarrow>
     won (cl_status c) \<and> (\<exists>t. decode_wire (od_txs D) wire = Inr t
       \<and> hands_over (wk_kit (od_deps D)) instrs d c (tx_messageBytes t)))"

text \<open>A wire the operator's path may send: a hand-over of a won claim, signed by the cold authority.\<close>

definition sealed_wire :: "('w, 'k) operator_deps \<Rightarrow> (bytes \<Rightarrow> instruction list) \<Rightarrow> string \<Rightarrow> db \<Rightarrow> bool" where
  "sealed_wire D instrs wire d \<longleftrightarrow> (\<exists>c \<in> set (db_claims d). \<exists>t sig pub. won (cl_status c)
     \<and> hands_over (wk_kit (od_deps D)) instrs d c (tx_messageBytes t)
     \<and> tk_bs58 (od_txs D) (od_cold D) = Inr pub
     \<and> tk_edVerify (od_txs D) sig (tx_messageBytes t) pub = Inr True
     \<and> tk_encode (od_txs D) (with_authority (od_cold D) sig t) = Inr wire)"

lemma same_ledger_asset:
  assumes "same_ledger d d'" and "find_asset d k = Some a"
  obtains b where "find_asset d' k = Some b" "as_ant_mint b = as_ant_mint a"
proof -
  from assms obtain b where b: "find_asset d' k = Some b" "set_asset_status Available b = set_asset_status Available a"
    unfolding same_ledger_def by (metis map_option_eq_Some option.simps(9))
  have "as_ant_mint b = as_ant_mint a" using arg_cong [OF b(2), of as_ant_mint] by (simp add: set_asset_status_def)
  with b(1) show thesis by (rule that)
qed

lemma hands_over_frame:
  assumes "hands_over K instrs d c msg" and "same_ledger d d'"
    and "cl_asset_key c' = cl_asset_key c" and "cl_claimant c' = cl_claimant c"
  shows "hands_over K instrs d' c' msg"
proof -
  obtain a m where a: "find_asset d (cl_asset_key c) = Some a" "as_ant_mint a = Some m"
    "effects K None (instrs msg) = [GiveAsset m (cl_claimant c), SetAuthority m (cl_claimant c)]"
    using assms(1) unfolding hands_over_def by blast
  obtain b where "find_asset d' (cl_asset_key c) = Some b" "as_ant_mint b = as_ant_mint a"
    using same_ledger_asset [OF assms(2) a(1)] .
  with a(2,3) assms(3,4) show ?thesis by (simp add: hands_over_def)
qed

text \<open>A row with a reserved wire comes from one with the same wire.\<close>

definition rows_carried :: "db \<Rightarrow> db \<Rightarrow> bool" where
  "rows_carried d d' \<longleftrightarrow> (\<forall>c' \<in> set (db_claims d'). cl_ant_reserved_wire c' \<noteq> None \<longrightarrow>
     (\<exists>c \<in> set (db_claims d). cl_asset_key c' = cl_asset_key c \<and> cl_claimant c' = cl_claimant c
        \<and> cl_ant_reserved_wire c' = cl_ant_reserved_wire c \<and> (won (cl_status c) \<longrightarrow> won (cl_status c'))))"

lemma rows_carried_map:
  assumes "db_claims d' = map f (db_claims d)"
    and "\<And>c. c \<in> set (db_claims d) \<Longrightarrow> cl_asset_key (f c) = cl_asset_key c \<and> cl_claimant (f c) = cl_claimant c
      \<and> cl_ant_reserved_wire (f c) \<in> {None, cl_ant_reserved_wire c} \<and> (won (cl_status c) \<longrightarrow> won (cl_status (f c)))"
  shows "rows_carried d d'"
  unfolding rows_carried_def
proof (intro ballI impI)
  fix c' assume "c' \<in> set (db_claims d')" and w: "cl_ant_reserved_wire c' \<noteq> None"
  then obtain c where c: "c \<in> set (db_claims d)" "c' = f c" using assms(1) by auto
  with assms(2) [OF c(1)] w show "\<exists>c \<in> set (db_claims d). cl_asset_key c' = cl_asset_key c \<and> cl_claimant c' = cl_claimant c
      \<and> cl_ant_reserved_wire c' = cl_ant_reserved_wire c \<and> (won (cl_status c) \<longrightarrow> won (cl_status c'))"
    by (intro bexI [of _ c]) auto
qed

lemma rows_carried_refl: "db_claims d' = db_claims d \<Longrightarrow> rows_carried d d'"
  by (rule rows_carried_map [of _ "\<lambda>c. c"]) simp_all

lemma rows_carried_update:
  assumes "db_claims d' = row_update cl_claim_id cid f (db_claims d)"
    and "\<And>c. cl_asset_key (f c) = cl_asset_key c \<and> cl_claimant (f c) = cl_claimant c
      \<and> cl_ant_reserved_wire (f c) \<in> {None, cl_ant_reserved_wire c}"
    and "\<And>c. c \<in> set (db_claims d) \<Longrightarrow> cl_claim_id c = cid \<Longrightarrow> won (cl_status c) \<Longrightarrow> won (cl_status (f c))"
  shows "rows_carried d d'"
  by (rule rows_carried_map [of _ "\<lambda>c. if cl_claim_id c = cid then f c else c"])
    (use assms in \<open>auto simp: row_update_def\<close>)

lemma reservations_carried:
  assumes "reservations_ok D instrs d" and "rows_carried d d'" and "same_ledger d d'"
  shows "reservations_ok D instrs d'"
  unfolding reservations_ok_def
proof (intro ballI allI impI)
  fix c' wire assume c': "c' \<in> set (db_claims d')" "cl_ant_reserved_wire c' = Some wire"
  then obtain c where c: "c \<in> set (db_claims d)" "cl_asset_key c' = cl_asset_key c" "cl_claimant c' = cl_claimant c"
    "cl_ant_reserved_wire c = Some wire" "won (cl_status c) \<longrightarrow> won (cl_status c')"
    using assms(2) unfolding rows_carried_def by (metis option.distinct(1))
  then obtain t where t: "won (cl_status c)" "decode_wire (od_txs D) wire = Inr t"
    "hands_over (wk_kit (od_deps D)) instrs d c (tx_messageBytes t)"
    using assms(1) unfolding reservations_ok_def by blast
  from hands_over_frame [OF t(3) assms(3) c(2,3)] t(1,2) c(5)
  show "won (cl_status c') \<and> (\<exists>t. decode_wire (od_txs D) wire = Inr t
      \<and> hands_over (wk_kit (od_deps D)) instrs d' c' (tx_messageBytes t))" by blast
qed

section \<open>The service, dispatch and the operator keep reservations sound\<close>

lemma service_carried:
  assumes "service_step E d d'" and "db_inv d"
  shows "rows_carried d d'"
proof -
  have ids: "distinct (map cl_claim_id (db_claims d))" using assms(2) by (simp add: db_inv_def claims_inv_def)
  have only: "\<not> won (cl_status x)" if "c \<in> set (db_claims d)" "cl_status c = Claiming" "x \<in> set (db_claims d)"
    "cl_claim_id x = cl_claim_id c" for c x
    using row_unique [OF ids that(3,1,4)] that(2) by simp
  show ?thesis using assms(1)
  proof (cases rule: service_step.cases)
    case (step_initiate c now e)
    then show ?thesis by (auto simp: rows_carried_def undispatched_def)
  next
    case (step_reject c now code reason)
    then show ?thesis using only [of c]
      by (intro rows_carried_update [where cid = "cl_claim_id c"
            and f = "\<lambda>r. (set_claim_status Rejected r)\<lparr>cl_error := Some code\<rparr>"]) (auto simp: rejectClaim_def)
  next
    case (step_expire c now)
    then show ?thesis using only [of c]
      by (intro rows_carried_update [where cid = "cl_claim_id c" and f = "set_claim_status Expired_claim"])
        (auto simp: expireClaim_def)
  next
    case (step_reap now c)
    then show ?thesis
      by (intro rows_carried_update [where cid = "cl_claim_id c"
            and f = "\<lambda>r. if cl_status r = Claiming then set_claim_status Expired_claim r else r"])
        (auto simp: reap_row_def)
  next
    case (step_win c now a pf st ast e sl settlement)
    then show ?thesis
      by (intro rows_carried_update [where cid = "cl_claim_id c" and f = "won_row st (cp_signature pf) sl settlement now"])
        (auto simp: won_row_def)
  qed
qed

lemma bounded_carried:
  assumes "bounded_change d d'" and "db_inv d"
  shows "rows_carried d d'"
proof -
  consider "db_claims d' = db_claims d"
    | cid c f where "find_claim d cid = Some c" "won (cl_status (f c))"
      "db_claims d' = row_update cl_claim_id cid f (db_claims d)"
      "\<And>c. cl_asset_key (f c) = cl_asset_key c \<and> cl_claimant (f c) = cl_claimant c
        \<and> cl_ant_reserved_wire (f c) \<in> {None, cl_ant_reserved_wire c}"
    using assms(1) unfolding bounded_change_def by blast
  then show ?thesis
  proof cases
    case 1
    then show ?thesis by (rule rows_carried_refl)
  next
    case (2 cid c f)
    have "x = c" if "x \<in> set (db_claims d)" "cl_claim_id x = cid" for x
      using row_unique [of cl_claim_id "db_claims d" x c] find_claim_mem [OF 2(1)] assms(2) that
      by (simp add: db_inv_def claims_inv_def)
    with 2(2) show ?thesis by (intro rows_carried_update [OF 2(3,4)]) auto
  qed
qed

lemma reservation_change_ledger: "reservation_change d d' \<Longrightarrow> same_ledger d d'"
  by (simp add: reservation_change_def same_ledger_def)

lemma expire_carried: "rows_carried d (snd (expireStaleReservations now ttlMs d))"
  by (rule rows_carried_map [where f = "\<lambda>r. if stale (now - ttlMs) r then clear_reservation r else r"])
    (auto simp: expireStaleReservations_def Let_def clear_reservation_def)

lemma reserve_carried: "rows_carried d (snd (reserve_tx E now batchId opts skip d))"
  by (rule rows_carried_map [where f = "\<lambda>r. if cl_claim_id r \<in> set (map cl_claim_id (reserved_rows opts skip d))
        then reserve_row batchId now r else r"])
    (auto simp: reserve_tx_def Let_def reserve_row_def)

lemma release_carried: "rows_carried d (snd (releaseAntBatch E now batchId d))"
  by (rule rows_carried_map [where f = "\<lambda>r. if releasable batchId r then released_row r else r"])
    (auto simp: releaseAntBatch_def Let_def released_row_def clear_reservation_def)

text \<open>
  What the chain reads of a message that was partially signed and encoded is what was signed.
\<close>

locale sealed_kit =
  fixes K :: kit and X :: tx_kit and instrs :: "bytes \<Rightarrow> instruction list"
  assumes codecs: "kit_codecs K"
    and sign_law: "tk_partialSign X fp bh lv ixs = Inr t \<Longrightarrow> tk_encode X t = Inr wire \<Longrightarrow>
      decode_wire X wire = Inr t \<and> instrs (tx_messageBytes t) = ixs"
begin

lemma effects_transfer:
  assumes "k_valid K (ba_claimant A)"
  shows "effects K None (ant_transfer_ixs K treasury A) =
     [GiveAsset (ba_antMint A) (ba_claimant A), SetAuthority (ba_antMint A) (ba_claimant A)]"
  using kit_codecs.effect_give [OF codecs] kit_codecs.effect_authority [OF codecs assms]
    kit_codecs.effect_memo [OF codecs, of None] by (simp add: ant_transfer_ixs_def)

lemma built_hands_over:
  assumes "buildAntTransferTx K X treasury A = Inr b" and "k_valid K (ba_claimant A)"
  shows "\<exists>t. decode_wire X (bt_txBase64 b) = Inr t \<and> effects K None (instrs (tx_messageBytes t)) =
     [GiveAsset (ba_antMint A) (ba_claimant A), SetAuthority (ba_antMint A) (ba_claimant A)]"
proof -
  obtain t txid wire where t: "tk_partialSign X treasury (ba_blockhash A) (ba_lastValidBlockHeight A)
      (ant_transfer_ixs K treasury A) = Inr t" "tk_encode X t = Inr wire" "bt_txBase64 b = wire"
    using assms(1) by (auto simp: buildAntTransferTx_def and_then_Inr)
  from sign_law [OF t(1,2)] effects_transfer [OF assms(2)] t(3) show ?thesis by auto
qed

end

lemma build_one_hands_over:
  assumes "sealed_kit (wk_kit (od_deps D)) (od_txs D) instrs"
    and "build_one D memo bh lv c mint = Inr b" and "find_asset d (cl_asset_key c) = Some a" and "as_ant_mint a = Some mint"
  shows "\<exists>t. decode_wire (od_txs D) (bt_txBase64 b) = Inr t
     \<and> hands_over (wk_kit (od_deps D)) instrs d c (tx_messageBytes t)"
proof -
  let ?A = "\<lparr>ba_claimId = cl_claim_id c, ba_antMint = mint, ba_claimant = cl_claimant c, ba_antColdAddress = od_cold D,
     ba_blockhash = bh, ba_lastValidBlockHeight = lv, ba_includeMemo = memo\<rparr>"
  have b: "buildAntTransferTx (wk_kit (od_deps D)) (od_txs D) (od_treasury D) ?A = Inr b"
    "k_valid (wk_kit (od_deps D)) (ba_claimant ?A)"
    using assms(2) by (auto simp: build_one_def and_then_Inr address_def split: if_splits)
  from sealed_kit.built_hands_over [OF assms(1) b] assms(3,4) show ?thesis by (auto simp: hands_over_def)
qed

text \<open>Storing the built transactions: every new wire is one of the claim it is stored with.\<close>

lemma build_step_sealed:
  assumes kit: "sealed_kit (wk_kit (od_deps D)) (od_txs D) instrs" and inv: "db_inv d"
    and c: "c \<in> set (batch_rows batchId d)"
    and step: "build_step (build_one D memo bh lv) d c (d1, items, skipped) = Inr (d2, items', skipped')"
    and ch: "reservation_change d d1" and ok: "reservations_ok D instrs d1"
  shows "reservations_ok D instrs d2"
proof -
  obtain r where r: "build_row (build_one D memo bh lv) d c = Inr r"
    using step by (cases "build_row (build_one D memo bh lv) d c") (simp_all add: build_step_def)
  show ?thesis
  proof (cases r)
    case (Inl reason)
    with step r ok show ?thesis by (simp add: build_step_def)
  next
    case (Inr b)
    have mem: "c \<in> set (db_claims d)" and "find_asset d (cl_asset_key c) \<noteq> None" using c by (auto simp: batch_rows_def)
    then obtain a where a: "find_asset d (cl_asset_key c) = Some a" by blast
    have built: "build_one D memo bh lv c (the (as_ant_mint a)) = Inr b" "truthy (as_ant_mint a)" "ant_status_ok None c"
      using r a unfolding Inr by (auto simp: build_row_def asset_of_def Let_def and_then_Inr split: if_splits)
    then obtain m where m: "as_ant_mint a = Some m" by (auto simp: truthy_def split: option.splits)
    obtain t where t: "decode_wire (od_txs D) (bt_txBase64 b) = Inr t"
      "hands_over (wk_kit (od_deps D)) instrs d c (tx_messageBytes t)"
      using build_one_hands_over [OF kit built(1) a] m by auto
    have d2: "d2 = update_claim (cl_claim_id c) (built_row b) d1" using step r Inr by (simp add: build_step_def)
    have led: "same_ledger d d2" "same_ledger d1 d2" using reservation_change_ledger [OF ch] by (simp_all add: d2)
    show ?thesis unfolding reservations_ok_def
    proof (intro ballI allI impI)
      fix c' wire assume c': "c' \<in> set (db_claims d2)" "cl_ant_reserved_wire c' = Some wire"
      then obtain x where x: "x \<in> set (db_claims d1)"
        "c' = (if cl_claim_id x = cl_claim_id c then built_row b x else x)"
        unfolding d2 update_claim_def by (auto simp: set_row_update)
      show "won (cl_status c') \<and> (\<exists>t. decode_wire (od_txs D) wire = Inr t
          \<and> hands_over (wk_kit (od_deps D)) instrs d2 c' (tx_messageBytes t))"
      proof (cases "cl_claim_id x = cl_claim_id c")
        case True
        obtain y where y: "y \<in> set (db_claims d)" "reserved_like y x" using reservation_change_mem [OF ch x(1)] by blast
        have "y = c" using row_unique [of cl_claim_id "db_claims d" y c] inv y(1) mem True reserved_like_fields(1) [OF y(2)]
          by (simp add: db_inv_def claims_inv_def)
        then have l: "reserved_like c x" using y(2) by simp
        have "won (cl_status x)" using reserved_like_fields(9) [OF l] ant_status_rest [OF built(3)] by auto
        moreover have "c' = built_row b x" using x(2) True by simp
        ultimately show ?thesis
          using t(1) hands_over_frame [OF t(2) led(1), of c'] reserved_like_fields(2,3) [OF l] c'(2)
          by (auto simp: built_row_def)
      next
        case False
        then have "c' = x" using x(2) by simp
        then obtain t where t: "won (cl_status c')" "decode_wire (od_txs D) wire = Inr t"
          "hands_over (wk_kit (od_deps D)) instrs d1 c' (tx_messageBytes t)"
          using ok x(1) c'(2) unfolding reservations_ok_def by blast
        with hands_over_frame [OF t(3) led(2)] show ?thesis by blast
      qed
    qed
  qed
qed

lemma build_tx_sealed:
  assumes "sealed_kit (wk_kit (od_deps D)) (od_txs D) instrs" and "db_inv d" and "reservations_ok D instrs d"
  shows "reservations_ok D instrs (snd (build_tx E now batchId cold (build_one D memo bh lv) d))"
proof (cases "fold_result (build_step (build_one D memo bh lv) d) (batch_rows batchId d) (d, [], [])")
  case (Inl e)
  with assms(3) show ?thesis by (simp add: build_tx_def)
next
  case (Inr s)
  have "reservation_change d (fst s) \<and> reservations_ok D instrs (fst s)"
    by (rule fold_result_inv [OF Inr, where J = "\<lambda>s. reservation_change d (fst s) \<and> reservations_ok D instrs (fst s)"])
      (use assms(3) in \<open>auto intro: build_step_change [OF assms(2)] build_step_sealed [OF assms(1,2)]\<close>)
  with Inr show ?thesis
    by (cases s) (auto simp: build_tx_def intro: reservations_carried [OF _ rows_carried_refl])
qed

section \<open>Steps\<close>

text \<open>What runs on the database beside the operator's process, and what it runs itself.\<close>

inductive sealed_step :: "('w, 'k) operator_deps \<Rightarrow> db \<Rightarrow> db \<Rightarrow> bool" for D where
  sealed_service: "service_step (wk_env (od_deps D)) d d' \<Longrightarrow> sealed_step D d d'"
| sealed_dispatch: "dispatch_step (wk_env (od_deps D)) d d' \<Longrightarrow> sealed_step D d d'"
| sealed_expire: "sealed_step D d (snd (expireStaleReservations now ttlMs d))"
| sealed_reserve: "sealed_step D d (snd (reserve_tx (wk_env (od_deps D)) now batchId opts skip d))"
| sealed_release: "sealed_step D d (snd (releaseAntBatch (wk_env (od_deps D)) now batchId d))"
| sealed_build: "sealed_step D d (snd (build_tx (wk_env (od_deps D)) now batchId (od_cold D) (build_one D memo bh lv) d))"
| sealed_rebuild: "sealed_step D d (releaseReservationForRebuild (wk_env (od_deps D)) now cid d)"
| sealed_advance: "sealed_step D d (advance_batch now batchId b d)"
| sealed_audit: "sealed_step D d (writeSubmitAudit (wk_env (od_deps D)) now batchId cold results d)"

lemma sealed_system: "sealed_step D d d' \<Longrightarrow> system_step (wk_env (od_deps D)) d d'"
  unfolding system_step_def by (erule sealed_step.cases) (auto intro: operator_step.intros)

lemma sealed_step_inv: "sealed_step D d d' \<Longrightarrow> db_inv d \<Longrightarrow> db_inv d'"
  using claims_system.step_inv sealed_system by blast

lemma sealed_step_ledger:
  assumes "sealed_step D d d'" and "db_inv d"
  shows "same_ledger d d'"
  using sealed_system [OF assms(1)] assms(2)
  by (cases rule: system_step_cases)
    (auto intro: service_step_ledger bounded_change_ledger reservation_change_ledger)

lemma sealed_step_reservations:
  assumes "sealed_kit (wk_kit (od_deps D)) (od_txs D) instrs" and "sealed_step D d d'" and "db_inv d"
    and "reservations_ok D instrs d"
  shows "reservations_ok D instrs d'"
proof -
  note l = sealed_step_ledger [OF assms(2,3)]
  show ?thesis using assms(2)
  proof (cases rule: sealed_step.cases)
    case (sealed_build now batchId memo bh lv)
    then show ?thesis using build_tx_sealed [OF assms(1,3,4), of "wk_env (od_deps D)"] by simp
  qed (rule reservations_carried [OF assms(4) _ l]; use assms(3) in \<open>auto simp: expire_carried reserve_carried
      release_carried advance_batch_def writeSubmitAudit_def
      intro: service_carried bounded_carried [OF dispatch_step_bounded] bounded_carried [OF rebuild_bounded] rows_carried_refl\<close>)+
qed

lemma sealed_wire_step:
  assumes "sealed_wire D instrs wire d" and "sealed_step D d d'" and "db_inv d"
  shows "sealed_wire D instrs wire d'"
proof -
  obtain c t sig pub where c: "c \<in> set (db_claims d)" "won (cl_status c)"
    "hands_over (wk_kit (od_deps D)) instrs d c (tx_messageBytes t)" "tk_bs58 (od_txs D) (od_cold D) = Inr pub"
    "tk_edVerify (od_txs D) sig (tx_messageBytes t) pub = Inr True"
    "tk_encode (od_txs D) (with_authority (od_cold D) sig t) = Inr wire"
    using assms(1) unfolding sealed_wire_def by blast
  have "wins_kept d d'" using claims_system.step_wins [OF assms(3) sealed_system [OF assms(2)]] .
  then obtain c' where c': "c' \<in> set (db_claims d')" "cl_asset_key c' = cl_asset_key c" "cl_claimant c' = cl_claimant c"
    "won (cl_status c')" using c(1,2) unfolding wins_kept_def by blast
  have "hands_over (wk_kit (od_deps D)) instrs d' c' (tx_messageBytes t)"
    by (rule hands_over_frame [OF c(3) sealed_step_ledger [OF assms(2,3)] c'(2,3)])
  with c' c(4-6) show ?thesis unfolding sealed_wire_def by blast
qed

section \<open>The operator's process\<close>

text \<open>
  What the operator relies on: the transaction kit, other processes that run the steps above, and a
  gateway that sends nothing but what it is given to broadcast. \<open>wires\<close> is what has been sent.
\<close>

locale safe_operator =
  fixes D :: "('w, 'k) operator_deps" and instrs :: "bytes \<Rightarrow> instruction list" and wires :: "'w \<Rightarrow> string set"
  assumes kit_law: "sealed_kit (wk_kit (od_deps D)) (od_txs D) instrs"
    and others_law: "(sealed_step D)\<^sup>*\<^sup>* d (ac_others (wk_db (od_deps D)) w d)"
    and fault_law: "ac_fault (wk_db (od_deps D)) w = (r, w') \<Longrightarrow> wires w' \<subseteq> wires w"
    and confirm_law: "gw_confirmSignature (wk_gateway (od_deps D)) s lv w = (q, w') \<Longrightarrow> wires w' \<subseteq> wires w"
    and outflow_law: "gw_findConfirmedOutflow (wk_gateway (od_deps D)) addrs known w = (f, w') \<Longrightarrow> wires w' \<subseteq> wires w"
    and blockhash_law: "od_latestBlockhash D w = (l, w') \<Longrightarrow> wires w' \<subseteq> wires w"
    and broadcast_law: "gw_broadcast (wk_gateway (od_deps D)) wire w = (u, w') \<Longrightarrow> wires w' \<subseteq> insert wire (wires w)"
begin

definition op_inv :: "string set \<Rightarrow> db \<times> 'w \<Rightarrow> bool" where
  "op_inv old s \<longleftrightarrow> db_inv (fst s) \<and> reservations_ok D instrs (fst s)
     \<and> (\<forall>wire \<in> wires (snd s). wire \<in> old \<or> sealed_wire D instrs wire (fst s))"

definition stable :: "(db \<Rightarrow> bool) \<Rightarrow> bool" where
  "stable L \<longleftrightarrow> (\<forall>d d'. db_inv d \<and> L d \<and> sealed_step D d d' \<longrightarrow> L d')"

definition known :: "string \<Rightarrow> string \<Rightarrow> db \<Rightarrow> bool" where
  "known cid k d \<longleftrightarrow> (\<exists>c. find_claim d cid = Some c \<and> cl_asset_key c = k \<and> won (cl_status c))"

lemma stable_const: "stable (\<lambda>d. b)" by (simp add: stable_def)

lemma stable_conj: "stable L \<Longrightarrow> stable M \<Longrightarrow> stable (\<lambda>d. L d \<and> M d)"
  unfolding stable_def by blast

lemma stable_sealed: "stable (sealed_wire D instrs wire)"
  unfolding stable_def using sealed_wire_step by blast

lemma stable_known: "stable (known cid k)"
  unfolding stable_def
proof (intro allI impI, elim conjE)
  fix d d' assume inv: "db_inv d" and k: "known cid k d" and step: "sealed_step D d d'"
  obtain c where c: "find_claim d cid = Some c" "cl_asset_key c = k" "won (cl_status c)"
    using k by (auto simp: known_def)
  have "wins_kept d d'" using claims_system.step_wins [OF inv sealed_system [OF step]] .
  then obtain c' where c': "c' \<in> set (db_claims d')" "cl_claim_id c' = cid" "cl_asset_key c' = k" "won (cl_status c')"
    using find_claim_mem [OF c(1)] c(2,3) unfolding wins_kept_def by metis
  have "find_claim d' (cl_claim_id c') = Some c'"
    using row_find_distinct [of cl_claim_id "db_claims d'" c'] c'(1) sealed_step_inv [OF step inv]
    by (simp add: db_inv_def claims_inv_def)
  with c' show "known cid k d'" by (simp add: known_def)
qed

lemma op_inv_step: "op_inv old (d, w) \<Longrightarrow> sealed_step D d d' \<Longrightarrow> op_inv old (d', w)"
  unfolding op_inv_def using sealed_step_inv sealed_step_reservations [OF kit_law] sealed_wire_step by fastforce

lemma op_inv_steps:
  "(sealed_step D)\<^sup>*\<^sup>* d d' \<Longrightarrow> stable L \<Longrightarrow> op_inv old (d, w) \<Longrightarrow> L d \<Longrightarrow> op_inv old (d', w) \<and> L d'"
proof (induction rule: rtranclp_induct)
  case (step d1 d2)
  then have i: "op_inv old (d1, w)" "L d1" by simp_all
  have "db_inv d1" using i(1) by (simp add: op_inv_def)
  with i op_inv_step [OF i(1) step(2)] step(2,4) show ?case unfolding stable_def by blast
qed simp

lemma op_inv_world: "op_inv old (d, w) \<Longrightarrow> wires w' \<subseteq> wires w \<Longrightarrow> op_inv old (d, w')"
  unfolding op_inv_def by auto

lemma op_tx:
  assumes "stable L"
    and "\<And>d. db_inv d \<Longrightarrow> reservations_ok D instrs d \<Longrightarrow> L d \<Longrightarrow>
      (sealed_step D d (snd (f d)) \<or> snd (f d) = d) \<and> Q (fst (f d)) (snd (f d))"
  shows "hoare (\<lambda>s. op_inv old s \<and> L (fst s)) (db_tx (wk_db (od_deps D)) f)
     (\<lambda>x s. op_inv old s \<and> Q x (fst s)) (op_inv old)"
  unfolding hoare_def
proof (intro allI impI)
  fix s assume a: "op_inv old s \<and> L (fst s)"
  obtain d w where s: "s = (d, w)" by fastforce
  let ?d = "ac_others (wk_db (od_deps D)) w d"
  obtain r w' where ft: "ac_fault (wk_db (od_deps D)) w = (r, w')" by fastforce
  have "op_inv old (d, w)" "L d" using a s by simp_all
  then have "op_inv old (?d, w) \<and> L ?d" by (rule op_inv_steps [OF others_law assms(1)])
  then have l: "op_inv old (?d, w')" "L ?d" using op_inv_world fault_law [OF ft] by blast+
  have t: "sealed_step D ?d (snd (f ?d)) \<or> snd (f ?d) = ?d" "Q (fst (f ?d)) (snd (f ?d))"
    using assms(2) [of ?d] l by (simp_all add: op_inv_def)
  have "op_inv old (snd (f ?d), w')" using t(1) op_inv_step [OF l(1)] l(1) by auto
  with t l show "case db_tx (wk_db (od_deps D)) f s of (Inl e, s') \<Rightarrow> op_inv old s'
      | (Inr x, s') \<Rightarrow> op_inv old s' \<and> Q x (fst s')"
    by (cases r) (simp_all add: db_tx_def s ft Let_def)
qed

lemma op_do:
  assumes "stable L" and "\<And>d. db_inv d \<Longrightarrow> L d \<Longrightarrow> sealed_step D d (f d) \<or> f d = d"
  shows "hoare (\<lambda>s. op_inv old s \<and> L (fst s)) (db_do (wk_db (od_deps D)) f) (\<lambda>x. op_inv old) (op_inv old)"
  using op_tx [OF assms(1), of "\<lambda>d. ((), f d)" "\<lambda>x d. True" old] assms(2) unfolding db_do_def by simp

lemma op_read:
  assumes "stable L" and "\<And>d. db_inv d \<Longrightarrow> reservations_ok D instrs d \<Longrightarrow> L d \<Longrightarrow> Q (g d) d"
  shows "hoare (\<lambda>s. op_inv old s \<and> L (fst s)) (db_read (wk_db (od_deps D)) g)
     (\<lambda>x s. op_inv old s \<and> Q x (fst s)) (op_inv old)"
  unfolding db_read_def by (rule op_tx [OF assms(1)]) (use assms(2) in simp)

lemma op_chain:
  assumes "\<And>w r w'. m w = (r, w') \<Longrightarrow> wires w' \<subseteq> wires w"
  shows "hoare (\<lambda>s. op_inv old s \<and> L (fst s)) (chain m) (\<lambda>x s. op_inv old s \<and> L (fst s)) (op_inv old)"
  unfolding hoare_def
proof (intro allI impI)
  fix s assume a: "op_inv old s \<and> L (fst s)"
  obtain r w' where m: "m (snd s) = (r, w')" by fastforce
  have "op_inv old (fst s, w')" using op_inv_world [OF _ assms [OF m], of old "fst s"] a by simp
  with a show "case chain m s of (Inl e, s') \<Rightarrow> op_inv old s' | (Inr x, s') \<Rightarrow> op_inv old s' \<and> L (fst s')"
    by (cases r) (simp_all add: chain_def m)
qed

lemma op_broadcast:
  assumes "\<And>d. L d \<Longrightarrow> sealed_wire D instrs wire d"
  shows "hoare (\<lambda>s. op_inv old s \<and> L (fst s)) (chain (gw_broadcast (wk_gateway (od_deps D)) wire))
     (\<lambda>x s. op_inv old s \<and> L (fst s)) (\<lambda>s. op_inv old s \<and> L (fst s))"
  unfolding hoare_def
proof (intro allI impI)
  fix s assume a: "op_inv old s \<and> L (fst s)"
  obtain r w' where m: "gw_broadcast (wk_gateway (od_deps D)) wire (snd s) = (r, w')" by fastforce
  have "op_inv old (fst s, w')" using a assms [of "fst s"] broadcast_law [OF m] by (auto simp: op_inv_def)
  with a show "case chain (gw_broadcast (wk_gateway (od_deps D)) wire) s of
      (Inl e, s') \<Rightarrow> op_inv old s' \<and> L (fst s') | (Inr x, s') \<Rightarrow> op_inv old s' \<and> L (fst s')"
    by (cases r) (simp_all add: chain_def m)
qed

lemma op_return: "hoare (\<lambda>s. op_inv old s \<and> L s) (io_return x) (\<lambda>x. op_inv old) (op_inv old)"
  by (rule hoare_return) simp

lemma op_do_return:
  assumes "stable L" and "\<And>d. db_inv d \<Longrightarrow> L d \<Longrightarrow> sealed_step D d (f d) \<or> f d = d"
  shows "hoare (\<lambda>s. op_inv old s \<and> L (fst s)) (io_bind (db_do (wk_db (od_deps D)) f) (\<lambda>u. io_return x))
     (\<lambda>x. op_inv old) (op_inv old)"
  by (rule hoare_bind [OF op_do [OF assms]]) (auto intro: hoare_return)

end

context safe_operator begin

text \<open>The transactions of a known claim.\<close>

lemma known_steps:
  assumes "known cid k d"
  shows "sealed_step D d (finalizeConfirmed (wk_env (od_deps D)) now cid sig d)"
    and "sealed_step D d (markFailed (wk_env (od_deps D)) now cid reason d)"
    and "sealed_step D d (snd (markNeedsOperator (wk_env (od_deps D)) now cid reason d))"
    and "pa_claimId A = cid \<Longrightarrow> pa_assetKey A = k \<Longrightarrow> sealed_step D d (snd (persistDispatching (wk_env (od_deps D)) now A d))"
proof -
  obtain c where c: "find_claim d cid = Some c" "cl_asset_key c = k" "won (cl_status c)" using assms by (auto simp: known_def)
  show "sealed_step D d (finalizeConfirmed (wk_env (od_deps D)) now cid sig d)"
    by (rule sealed_dispatch [OF step_finalize [OF c(1,3)]])
  show "sealed_step D d (markFailed (wk_env (od_deps D)) now cid reason d)"
    by (rule sealed_dispatch [OF step_failed [OF c(1,3)]])
  show "sealed_step D d (snd (markNeedsOperator (wk_env (od_deps D)) now cid reason d))"
    by (rule sealed_dispatch [OF step_needs_operator [OF c(1,3)]])
  show "sealed_step D d (snd (persistDispatching (wk_env (od_deps D)) now A d))"
    if "pa_claimId A = cid" "pa_assetKey A = k"
    by (rule sealed_dispatch [OF step_persist [where d = d and A = A and c = c]]) (use that c in simp_all)
qed

lemma dispatchSignedTx_seals:
  assumes A: "pa_claimId A = cid" "pa_assetKey A = k" "pa_signed A = sd"
  shows "hoare (\<lambda>s. op_inv old s \<and> known cid k (fst s) \<and> sealed_wire D instrs (sd_wireBase64 sd) (fst s))
     (dispatchSignedTx (od_deps D) T A) (\<lambda>x. op_inv old) (op_inv old)"
proof -
  let ?L = "\<lambda>d. known cid k d \<and> sealed_wire D instrs (sd_wireBase64 sd) d"
  have L: "stable ?L" by (rule stable_conj [OF stable_known stable_sealed])
  have fin: "hoare (\<lambda>s. op_inv old s \<and> ?L (fst s))
     (if state = StateConfirmed
      then io_bind (db_do (wk_db (od_deps D)) (finalizeConfirmed (wk_env (od_deps D)) (ck_final T) cid (sd_signature sd)))
             (\<lambda>_. io_return (OutConfirmed, Some (sd_signature sd), None))
      else if state = StateFailed
      then io_bind (db_do (wk_db (od_deps D)) (markFailed (wk_env (od_deps D)) (ck_final T) cid
                      (''on-chain tx '' @ sd_signature sd @ '' failed'')))
             (\<lambda>_. io_return (OutFailed, Some (sd_signature sd), None))
      else io_return (OutAwaitingConfirmation, Some (sd_signature sd), None))
     (\<lambda>x. op_inv old) (op_inv old)" for state
    by (intro hoare_ifE op_do_return [OF L] op_return) (auto dest: known_steps)
  have pers: "hoare (\<lambda>s. op_inv old s \<and> ?L (fst s))
      (db_tx (wk_db (od_deps D)) (persistDispatching (wk_env (od_deps D)) (ck_persist T) A))
      (\<lambda>p s. op_inv old s \<and> ?L (fst s)) (op_inv old)"
  proof (rule op_tx [OF L])
    fix d assume "db_inv d" "?L d"
    note step = known_steps(4) [OF conjunct1 [OF \<open>?L d\<close>] A(1,2), of "ck_persist T"]
    have "?L (snd (persistDispatching (wk_env (od_deps D)) (ck_persist T) A d))"
      using L step \<open>db_inv d\<close> \<open>?L d\<close> unfolding stable_def by blast
    with step show "(sealed_step D d (snd (persistDispatching (wk_env (od_deps D)) (ck_persist T) A d))
         \<or> snd (persistDispatching (wk_env (od_deps D)) (ck_persist T) A d) = d)
       \<and> ?L (snd (persistDispatching (wk_env (od_deps D)) (ck_persist T) A d))" by blast
  qed
  have send: "hoare (\<lambda>s. op_inv old s \<and> ?L (fst s))
     (catch_all (chain (gw_broadcast (wk_gateway (od_deps D)) (sd_wireBase64 sd))) (\<lambda>e. io_return ()))
     (\<lambda>x s. op_inv old s \<and> ?L (fst s)) (op_inv old)"
    by (rule hoare_catch [OF op_broadcast hoare_return]) simp_all
  have conf: "hoare (\<lambda>s. op_inv old s \<and> ?L (fst s))
     (chain (gw_confirmSignature (wk_gateway (od_deps D)) (sd_signature sd) (sd_lastValidBlockHeight sd)))
     (\<lambda>x s. op_inv old s \<and> ?L (fst s)) (op_inv old)"
    by (rule op_chain) (rule confirm_law)
  show ?thesis unfolding dispatchSignedTx_def A Let_def
  proof (rule hoare_bind [OF pers], rule hoare_ifE)
    fix p
    show "hoare (\<lambda>s. op_inv old s \<and> ?L (fst s)) (io_return (OutSkipped, None, Some ''state changed before dispatch''))
        (\<lambda>x. op_inv old) (op_inv old)" by (rule op_return)
  qed (intro hoare_bind [OF send] hoare_bind [OF conf] fin)
qed

lemma recover_ant_expired_seals:
  "hoare (\<lambda>s. op_inv old s \<and> known (cl_claim_id c) k (fst s)) (recover_ant_expired (od_deps D) T treasury c sig)
     (\<lambda>x. op_inv old) (op_inv old)"
proof -
  let ?L = "known (cl_claim_id c) k"
  have rest: "hoare (\<lambda>s. op_inv old s \<and> ?L (fst s))
     (case found of
        Some landed \<Rightarrow>
          io_bind (db_do (wk_db (od_deps D)) (finalizeConfirmed (wk_env (od_deps D)) (ck_recover T) (cl_claim_id c) landed))
            (\<lambda>_. io_return (ant_result None (Some (cl_claim_id c)) (Some (cl_asset_key c)) (Ant OutRecoveredConfirmed) (Some landed) None))
      | None \<Rightarrow>
          if cl_dispatch_resign_count c \<ge> MAX_ANT_REBUILD_ATTEMPTS
          then io_bind (db_tx (wk_db (od_deps D)) (markNeedsOperator (wk_env (od_deps D)) (ck_recover T) (cl_claim_id c) rebuild_cap_reason))
                 (\<lambda>_. io_return (ant_result None (Some (cl_claim_id c)) (Some (cl_asset_key c)) (Ant OutNeedsOperator) (Some sig)
                   (Some ''rebuild cap exceeded'')))
          else io_bind (db_do (wk_db (od_deps D)) (releaseReservationForRebuild (wk_env (od_deps D)) (ck_recover T) (cl_claim_id c)))
                 (\<lambda>_. io_return (ant_result None (Some (cl_claim_id c)) (Some (cl_asset_key c)) AntReleasedForRebuild (Some sig) None)))
     (\<lambda>x. op_inv old) (op_inv old)" for found
  proof (cases found)
    case None
    have tx: "hoare (\<lambda>s. op_inv old s \<and> ?L (fst s))
        (db_tx (wk_db (od_deps D)) (markNeedsOperator (wk_env (od_deps D)) (ck_recover T) (cl_claim_id c) rebuild_cap_reason))
        (\<lambda>x s. op_inv old s \<and> True) (op_inv old)"
      by (rule op_tx [OF stable_known]) (auto dest: known_steps)
    show ?thesis unfolding None option.case
      by (intro hoare_ifE hoare_bind [OF tx] op_do_return [OF stable_known])
        (auto intro: sealed_rebuild hoare_return)
  next
    case (Some landed)
    show ?thesis unfolding Some option.case
      by (rule op_do_return [OF stable_known]) (auto dest: known_steps)
  qed
  have scan: "hoare (\<lambda>s. op_inv old s \<and> ?L (fst s))
      (chain (gw_findConfirmedOutflow (wk_gateway (od_deps D)) addrs known_sigs))
      (\<lambda>x s. op_inv old s \<and> ?L (fst s)) (op_inv old)" for addrs known_sigs
    by (rule op_chain) (rule outflow_law)
  have adr: "hoare (\<lambda>s. op_inv old s \<and> ?L (fst s)) (from_result r) (\<lambda>x s. op_inv old s \<and> ?L (fst s)) (op_inv old)" for r :: "string + string"
    by (rule hoare_from_result) simp_all
  show ?thesis unfolding recover_ant_expired_def Let_def
    by (intro hoare_bind [OF adr] hoare_bind [OF scan] rest)
qed

end

context safe_operator begin

lemma recoverReserved_seals:
  "hoare (op_inv old) (recoverReservedAntClaim (od_deps D) T treasury cid)
     (\<lambda>x. op_inv old) (op_inv old)"
proof -
  let ?Q = "\<lambda>row d. \<forall>c. row = Some c \<longrightarrow> cl_claim_id c = cid \<and> (cl_status c = Dispatching \<longrightarrow> known cid (cl_asset_key c) d)"
  have read: "hoare (\<lambda>s. op_inv old s \<and> True) (db_read (wk_db (od_deps D)) (\<lambda>d. find_claim d cid))
     (\<lambda>row s. op_inv old s \<and> ?Q row (fst s)) (op_inv old)"
    by (rule op_read [OF stable_const]) (auto simp: known_def dest: row_find_Some)
  have conf: "hoare (\<lambda>s. op_inv old s \<and> known cid k (fst s)) (chain (gw_confirmSignature (wk_gateway (od_deps D)) sig lv))
      (\<lambda>x s. op_inv old s \<and> known cid k (fst s)) (op_inv old)" for sig lv k
    by (rule op_chain) (rule confirm_law)
  have rest: "hoare (\<lambda>s. op_inv old s \<and> known cid k (fst s))
     (case state of
        StateConfirmed \<Rightarrow>
          io_bind (db_do (wk_db (od_deps D)) (finalizeConfirmed (wk_env (od_deps D)) (ck_recover T) cid sig))
            (\<lambda>_. io_return (ant_result None (Some cid) ka (Ant OutRecoveredConfirmed) (Some sig) None))
      | StateFailed \<Rightarrow>
          io_bind (db_do (wk_db (od_deps D)) (markFailed (wk_env (od_deps D)) (ck_recover T) cid (''on-chain tx '' @ sig @ '' failed'')))
            (\<lambda>_. io_return (ant_result None (Some cid) ka (Ant OutFailed) (Some sig) (Some ''tx failed'')))
      | StatePending \<Rightarrow> io_return (ant_result None (Some cid) ka (Ant OutAwaitingConfirmation) (Some sig) None)
      | StateExpired \<Rightarrow> recover_ant_expired (od_deps D) T treasury c sig)
     (\<lambda>x. op_inv old) (op_inv old)" if "cl_claim_id c = cid" for state c sig ka k
    using that
    by (cases state) (auto intro!: op_do_return [OF stable_known] op_return recover_ant_expired_seals dest: known_steps)
  have "hoare (\<lambda>s. op_inv old s \<and> True) (recoverReservedAntClaim (od_deps D) T treasury cid) (\<lambda>x. op_inv old) (op_inv old)"
    unfolding recoverReservedAntClaim_def Let_def
  proof (rule hoare_bind [OF read])
    fix row :: "claim_row option"
    show "hoare (\<lambda>s. op_inv old s \<and> ?Q row (fst s)) (case row of
       None \<Rightarrow> io_return (ant_result None (Some cid) None (Ant OutSkipped) None (Some ''claim vanished''))
     | Some claim \<Rightarrow>
          if cl_status claim = Confirmed
          then io_return (ant_result None (Some cid) (Some (cl_asset_key claim)) (Ant OutAlreadyConfirmed) (cl_dispatch_signature claim) None)
          else if cl_status claim \<noteq> Dispatching \<or> \<not> truthy (cl_dispatch_signature claim)
          then io_return (ant_result None (Some cid) (Some (cl_asset_key claim)) (Ant OutSkipped) None
                 (Some (''not dispatching ('' @ claim_status_str (cl_status claim) @ '')'')))
          else
            io_bind (chain (gw_confirmSignature (wk_gateway (od_deps D)) (the (cl_dispatch_signature claim))
              (case cl_dispatch_last_valid_bh claim of Some v \<Rightarrow> v | None \<Rightarrow> 0))) (\<lambda>state.
            case state of
              StateConfirmed \<Rightarrow>
                io_bind (db_do (wk_db (od_deps D)) (finalizeConfirmed (wk_env (od_deps D)) (ck_recover T) cid (the (cl_dispatch_signature claim))))
                  (\<lambda>_. io_return (ant_result None (Some cid) (Some (cl_asset_key claim)) (Ant OutRecoveredConfirmed) (Some (the (cl_dispatch_signature claim))) None))
            | StateFailed \<Rightarrow>
                io_bind (db_do (wk_db (od_deps D)) (markFailed (wk_env (od_deps D)) (ck_recover T) cid
                           (''on-chain tx '' @ the (cl_dispatch_signature claim) @ '' failed'')))
                  (\<lambda>_. io_return (ant_result None (Some cid) (Some (cl_asset_key claim)) (Ant OutFailed) (Some (the (cl_dispatch_signature claim))) (Some ''tx failed'')))
            | StatePending \<Rightarrow>
                io_return (ant_result None (Some cid) (Some (cl_asset_key claim)) (Ant OutAwaitingConfirmation) (Some (the (cl_dispatch_signature claim))) None)
            | StateExpired \<Rightarrow> recover_ant_expired (od_deps D) T treasury claim (the (cl_dispatch_signature claim))))
     (\<lambda>x. op_inv old) (op_inv old)"
    proof (cases row)
      case None
      then show ?thesis by (simp add: op_return [of old "\<lambda>s. True", simplified])
    next
      case (Some c)
      show ?thesis
      proof (cases "cl_claim_id c = cid")
        case True
        show ?thesis unfolding Some option.case
        proof (intro hoare_ifE op_return)
          assume st: "\<not> (cl_status c \<noteq> Dispatching \<or> \<not> truthy (cl_dispatch_signature c))"
          show "hoare (\<lambda>s. op_inv old s \<and> ?Q (Some c) (fst s))
            (io_bind (chain (gw_confirmSignature (wk_gateway (od_deps D)) (the (cl_dispatch_signature c))
              (case cl_dispatch_last_valid_bh c of Some v \<Rightarrow> v | None \<Rightarrow> 0))) (\<lambda>state.
            case state of
              StateConfirmed \<Rightarrow>
                io_bind (db_do (wk_db (od_deps D)) (finalizeConfirmed (wk_env (od_deps D)) (ck_recover T) cid (the (cl_dispatch_signature c))))
                  (\<lambda>_. io_return (ant_result None (Some cid) (Some (cl_asset_key c)) (Ant OutRecoveredConfirmed) (Some (the (cl_dispatch_signature c))) None))
            | StateFailed \<Rightarrow>
                io_bind (db_do (wk_db (od_deps D)) (markFailed (wk_env (od_deps D)) (ck_recover T) cid
                           (''on-chain tx '' @ the (cl_dispatch_signature c) @ '' failed'')))
                  (\<lambda>_. io_return (ant_result None (Some cid) (Some (cl_asset_key c)) (Ant OutFailed) (Some (the (cl_dispatch_signature c))) (Some ''tx failed'')))
            | StatePending \<Rightarrow>
                io_return (ant_result None (Some cid) (Some (cl_asset_key c)) (Ant OutAwaitingConfirmation) (Some (the (cl_dispatch_signature c))) None)
            | StateExpired \<Rightarrow> recover_ant_expired (od_deps D) T treasury c (the (cl_dispatch_signature c))))
            (\<lambda>x. op_inv old) (op_inv old)"
            by (rule hoare_pre [where P' = "\<lambda>s. op_inv old s \<and> known cid (cl_asset_key c) (fst s)"],
                rule hoare_bind [OF conf rest [OF True]]) (use st in simp)
        qed
      next
        case False
        with Some show ?thesis by (intro hoare_false) simp
      qed
    qed
  qed
  then show ?thesis by simp
qed

lemma submit_matched_seals:
  assumes "cl_claim_id resv = cid" and "cl_asset_key resv = k"
  shows "hoare (\<lambda>s. op_inv old s \<and> known cid k (fst s) \<and> sealed_wire D instrs wire (fst s))
     (submit_matched D T resv txid wire) (\<lambda>x. op_inv old) (op_inv old)"
proof -
  let ?L = "\<lambda>d. known cid k d \<and> sealed_wire D instrs wire d"
  have read: "hoare (\<lambda>s. op_inv old s \<and> ?L (fst s)) (db_read (wk_db (od_deps D)) (\<lambda>d. find_claim d cid))
     (\<lambda>row s. op_inv old s \<and> ?L (fst s)) (op_inv old)"
    by (rule op_read [OF stable_conj [OF stable_known stable_sealed]])
  have rec: "hoare (\<lambda>s. op_inv old s \<and> ?L (fst s))
     (io_bind (recoverReservedAntClaim (od_deps D) T (od_treasury D) cid) (\<lambda>r. io_return (r\<lparr>su_txid := Some txid\<rparr>)))
     (\<lambda>x. op_inv old) (op_inv old)"
    by (rule hoare_bind [OF hoare_pre [OF recoverReserved_seals] hoare_return]) simp_all
  have disp: "hoare (\<lambda>s. op_inv old s \<and> ?L (fst s))
     (io_bind (dispatchSignedTx (od_deps D) T A) (\<lambda>core. io_return (g core)))
     (\<lambda>x. op_inv old) (op_inv old)"
    if "pa_claimId A = cid" "pa_assetKey A = k" "sd_wireBase64 (pa_signed A) = wire"
    for A and g :: "_ \<Rightarrow> ant_submit_result"
    by (rule hoare_bind [OF hoare_pre [OF dispatchSignedTx_seals [OF that(1,2) refl]] hoare_return])
      (simp_all add: that(3))
  show ?thesis unfolding submit_matched_def Let_def assms
  proof (rule hoare_bind [OF read])
    fix row
    show "hoare (\<lambda>s. op_inv old s \<and> ?L (fst s)) (case row of
        None \<Rightarrow> io_return (ant_result (Some txid) (Some cid) (Some k) (Ant OutSkipped) None (Some ''claim vanished''))
      | Some claim \<Rightarrow>
          if cl_status claim = Confirmed
          then io_return (ant_result (Some txid) (Some cid) (Some k) (Ant OutAlreadyConfirmed)
                 (Some (case cl_dispatch_signature claim of Some s \<Rightarrow> s | None \<Rightarrow> txid)) None)
          else if cl_status claim = Dispatching \<and> truthy (cl_dispatch_signature claim)
          then io_bind (recoverReservedAntClaim (od_deps D) T (od_treasury D) cid)
                 (\<lambda>r. io_return (r\<lparr>su_txid := Some txid\<rparr>))
          else io_bind (dispatchSignedTx (od_deps D) T \<lparr>pa_claimId = cid, pa_assetKey = k,
                 pa_signed = \<lparr>sd_signature = txid,
                    sd_blockhash = (case cl_ant_reserved_blockhash resv of Some b \<Rightarrow> b | None \<Rightarrow> []),
                    sd_lastValidBlockHeight = (case cl_ant_reserved_last_valid_bh resv of Some v \<Rightarrow> v | None \<Rightarrow> 0),
                    sd_wireBase64 = wire\<rparr>,
                 pa_settlementAmount = None, pa_settlementLabel = Some ''ant-operator''\<rparr>)
                 (\<lambda>core. io_return (ant_result (Some txid) (Some cid) (Some k) (Ant (fst core))
                    (fst (snd core)) (snd (snd core)))))
     (\<lambda>x. op_inv old) (op_inv old)"
      by (cases row) (auto intro!: hoare_ifE op_return [of old "\<lambda>s. ?L (fst s)"] rec disp)
  qed
qed

end

context safe_operator begin

text \<open>What a live reservation gives, once the authority signature is verified over its message.\<close>

lemma reservation_seals:
  assumes "reservations_ok D instrs d" and "db_inv d" and "find_reservation txid batchId d = Some resv"
    and "cl_ant_reserved_wire resv = Some stored" and "tk_bs58 (od_txs D) (od_cold D) = Inr pub"
    and "authoritative_wire (od_txs D) (od_cold D) pub sig stored = Inr (Some (txid', wire))"
  shows "known (cl_claim_id resv) (cl_asset_key resv) d" and "sealed_wire D instrs wire d"
proof -
  have mem: "resv \<in> set (db_claims d)" using assms(3) by (auto simp: find_reservation_def find_Some_iff)
  obtain t where t: "won (cl_status resv)" "decode_wire (od_txs D) stored = Inr t"
    "hands_over (wk_kit (od_deps D)) instrs d resv (tx_messageBytes t)"
    using assms(1,4) mem unfolding reservations_ok_def by blast
  have find: "find_claim d (cl_claim_id resv) = Some resv"
    by (rule row_find_distinct [OF _ mem]) (use assms(2) in \<open>simp add: db_inv_def claims_inv_def\<close>)
  then show "known (cl_claim_id resv) (cl_asset_key resv) d" using t(1) by (simp add: known_def)
  have "tk_edVerify (od_txs D) sig (tx_messageBytes t) pub = Inr True"
    "tk_encode (od_txs D) (with_authority (od_cold D) sig t) = Inr wire"
    using assms(6) t(2) by (auto simp: authoritative_wire_def and_then_Inr split: if_splits)
  with mem t assms(5) show "sealed_wire D instrs wire d" unfolding sealed_wire_def by blast
qed

lemma submitOne_seals:
  assumes pub: "tk_bs58 (od_txs D) (od_cold D) = Inr pub"
  shows "hoare (op_inv old) (submitOneAntTx D T batchId pub wire) (\<lambda>x. op_inv old) (op_inv old)"
proof (cases "submitted_parts (od_txs D) (od_cold D) wire")
  case (Inl e)
  then show ?thesis by (simp add: submitOneAntTx_def hoare_return)
next
  case (Inr parts)
  obtain txid sg where p: "parts = (txid, sg)" by fastforce
  let ?Q = "\<lambda>found d. \<forall>resv stored txid' w. found = Some resv \<and> cl_ant_reserved_wire resv = Some stored
     \<and> authoritative_wire (od_txs D) (od_cold D) pub (the sg) stored = Inr (Some (txid', w))
     \<longrightarrow> known (cl_claim_id resv) (cl_asset_key resv) d \<and> sealed_wire D instrs w d"
  have read: "hoare (\<lambda>s. op_inv old s \<and> True) (db_read (wk_db (od_deps D)) (find_reservation txid batchId))
     (\<lambda>found s. op_inv old s \<and> ?Q found (fst s)) (op_inv old)"
    by (rule op_read [OF stable_const]) (use reservation_seals pub in blast)
  have rest: "hoare (\<lambda>s. op_inv old s \<and> ?Q found (fst s)) (case found of
        None \<Rightarrow> io_return (ant_result (Some txid) None None AntRejectedUnknownTx None
                  (Some ''no live reservation matches this txid+batch''))
      | Some resv \<Rightarrow>
          if \<not> truthy (cl_ant_reserved_wire resv)
          then io_return (ant_result (Some txid) None None AntRejectedUnknownTx None
                 (Some ''no live reservation matches this txid+batch''))
          else io_bind (from_result (authoritative_wire (od_txs D) (od_cold D) pub
                          (the sg) (the (cl_ant_reserved_wire resv)))) (\<lambda>auth.
            case auth of
              None \<Rightarrow> io_return (ant_result (Some txid) (Some (cl_claim_id resv)) (Some (cl_asset_key resv))
                 AntRejectedBadAuthoritySig None (Some
                 ''authority signature does not verify over the server's reserved message (tampered/redirected)''))
            | Some (storedTxid, authWire) \<Rightarrow> submit_matched D T resv storedTxid authWire))
     (\<lambda>x. op_inv old) (op_inv old)" for found
  proof (cases found)
    case None
    then show ?thesis by (simp add: op_return [of old "\<lambda>s. True", simplified])
  next
    case (Some resv)
    show ?thesis unfolding Some option.case
    proof (rule hoare_ifE [OF op_return], rule hoare_bind [where R = "\<lambda>auth s. op_inv old s \<and>
        (\<forall>t w. auth = Some (t, w) \<longrightarrow> known (cl_claim_id resv) (cl_asset_key resv) (fst s) \<and> sealed_wire D instrs w (fst s))"])
      assume "\<not> \<not> truthy (cl_ant_reserved_wire resv)"
      then obtain stored where stored: "cl_ant_reserved_wire resv = Some stored" by (auto simp: truthy_def split: option.splits)
      show "hoare (\<lambda>s. op_inv old s \<and> ?Q (Some resv) (fst s))
         (from_result (authoritative_wire (od_txs D) (od_cold D) pub (the sg) (the (cl_ant_reserved_wire resv))))
         (\<lambda>auth s. op_inv old s \<and> (\<forall>t w. auth = Some (t, w) \<longrightarrow>
            known (cl_claim_id resv) (cl_asset_key resv) (fst s) \<and> sealed_wire D instrs w (fst s))) (op_inv old)"
        by (rule hoare_from_result) (use stored in auto)
      fix auth
      show "hoare (\<lambda>s. op_inv old s \<and> (\<forall>t w. auth = Some (t, w) \<longrightarrow>
            known (cl_claim_id resv) (cl_asset_key resv) (fst s) \<and> sealed_wire D instrs w (fst s)))
         (case auth of
              None \<Rightarrow> io_return (ant_result (Some txid) (Some (cl_claim_id resv)) (Some (cl_asset_key resv))
                 AntRejectedBadAuthoritySig None (Some
                 ''authority signature does not verify over the server's reserved message (tampered/redirected)''))
            | Some (storedTxid, authWire) \<Rightarrow> submit_matched D T resv storedTxid authWire)
         (\<lambda>x. op_inv old) (op_inv old)"
      proof (cases auth)
        case None
        then show ?thesis by (simp add: op_return [of old "\<lambda>s. True", simplified])
      next
        case (Some tw)
        obtain t w where tw: "tw = (t, w)" by fastforce
        show ?thesis unfolding Some tw option.case prod.case
          by (rule hoare_pre [OF submit_matched_seals [OF refl refl]]) auto
      qed
    qed
  qed
  have sent: "hoare (\<lambda>s. op_inv old s \<and> True) (submitOneAntTx D T batchId pub wire) (\<lambda>x. op_inv old) (op_inv old)"
    unfolding submitOneAntTx_def Inr p sum.case prod.case
    by (intro hoare_ifE op_return hoare_bind [OF read] rest)
  then show ?thesis by simp
qed

lemma submit_loop_seals:
  assumes "tk_bs58 (od_txs D) (od_cold D) = Inr pub"
  shows "hoare (op_inv old) (submit_loop D clk batchId pub txs) (\<lambda>x. op_inv old) (op_inv old)"
proof (induction txs arbitrary: clk)
  case Nil
  show ?case unfolding submit_loop.simps by (rule hoare_return)
next
  case (Cons wire txs)
  have "hoare (op_inv old) (catch_all (submitOneAntTx D (clk 0) batchId pub wire)
      (\<lambda>e. io_return (ant_result None None None (Ant OutSkipped) None (Some (''error: '' @ e)))))
      (\<lambda>x. op_inv old) (op_inv old)"
    by (rule hoare_catch [OF submitOne_seals [OF assms]]) (rule hoare_return)
  then show ?case unfolding submit_loop.simps
    by (intro hoare_bind [OF _ hoare_bind [OF Cons.IH hoare_return]])
qed

lemma plain_tx:
  assumes "\<And>d. sealed_step D d (snd (f d)) \<or> snd (f d) = d"
  shows "hoare (op_inv old) (db_tx (wk_db (od_deps D)) f) (\<lambda>x. op_inv old) (op_inv old)"
  using op_tx [OF stable_const, of True f "\<lambda>x d. True" old] assms by simp

lemma submitAntBatch_seals:
  "hoare (op_inv old) (submitAntBatch D clk now batchId txs) (\<lambda>x. op_inv old) (op_inv old)"
proof (cases "tk_bs58 (od_txs D) (od_cold D)")
  case (Inl e)
  then show ?thesis by (auto simp: submitAntBatch_def from_result_def io_bind_def hoare_def)
next
  case (Inr pub)
  have fin: "hoare (op_inv old) (finalizeBatchStatus (od_deps D) now batchId) (\<lambda>x. op_inv old) (op_inv old)"
    unfolding finalizeBatchStatus_def db_read_def db_do_def
    by (intro hoare_bind [OF plain_tx] plain_tx) (auto intro: sealed_advance)
  have aud: "hoare (op_inv old) (db_do (wk_db (od_deps D)) (writeSubmitAudit (wk_env (od_deps D)) now batchId (od_cold D) js))
      (\<lambda>x. op_inv old) (op_inv old)" for js
    unfolding db_do_def by (rule plain_tx) (auto intro: sealed_audit)
  have key: "hoare (op_inv old) (from_result (Inr pub)) (\<lambda>p s. op_inv old s \<and> p = pub) (op_inv old)"
    by (rule hoare_from_result) auto
  have run: "hoare (\<lambda>s. op_inv old s \<and> p = pub)
     (io_bind (submit_loop D clk batchId p txs) (\<lambda>results.
      io_bind (finalizeBatchStatus (od_deps D) now batchId) (\<lambda>_.
      io_bind (db_do (wk_db (od_deps D)) (writeSubmitAudit (wk_env (od_deps D)) now batchId (od_cold D) (map submit_json results)))
        (\<lambda>_. io_return results)))) (\<lambda>x. op_inv old) (op_inv old)" for p
  proof (cases "p = pub")
    case True
    show ?thesis unfolding True
      by (rule hoare_pre [OF hoare_bind [OF submit_loop_seals [OF Inr] hoare_bind [OF fin hoare_bind [OF aud hoare_return]]]])
        simp_all
  next
    case False
    then show ?thesis by (intro hoare_false) simp
  qed
  show ?thesis unfolding submitAntBatch_def Inr by (rule hoare_bind [OF key run])
qed

lemma buildReservedBatch_seals:
  "hoare (op_inv old) (buildReservedBatch D now batchId memo) (\<lambda>x. op_inv old) (op_inv old)"
proof -
  have bh: "hoare (op_inv old) (chain (od_latestBlockhash D)) (\<lambda>x. op_inv old) (op_inv old)"
    using op_chain [of "od_latestBlockhash D" old "\<lambda>d. True"] blockhash_law by simp
  show ?thesis unfolding buildReservedBatch_def Let_def
    by (intro hoare_bind [OF bh] hoare_bind [OF plain_tx] hoare_from_result) (auto intro: sealed_build)
qed

lemma reserveAntBatch_seals:
  "hoare (op_inv old) (reserveAntBatch (od_deps D) now0 now batchId skip opts) (\<lambda>x. op_inv old) (op_inv old)"
  unfolding reserveAntBatch_def
  by (intro hoare_bind [OF plain_tx] hoare_return) (auto intro: sealed_expire sealed_reserve)

end

section \<open>Histories\<close>

text \<open>
  The operator's calls, each possibly cut off by a failure, with everything else that runs on the
  database between them.
\<close>

inductive operator_run :: "('w, 'k) operator_deps \<Rightarrow> db \<times> 'w \<Rightarrow> db \<times> 'w \<Rightarrow> bool" for D where
  run_reserve: "reserveAntBatch (od_deps D) now0 now batchId skip opts s = (r, s') \<Longrightarrow> operator_run D s s'"
| run_build: "buildReservedBatch D now batchId memo s = (b, s') \<Longrightarrow> operator_run D s s'"
| run_submit: "submitAntBatch D clk now batchId txs s = (q, s') \<Longrightarrow> operator_run D s s'"
| run_recover: "recoverReservedAntClaim (od_deps D) T treasury cid s = (a, s') \<Longrightarrow> operator_run D s s'"
| run_others: "sealed_step D d d' \<Longrightarrow> operator_run D (d, w) (d', w)"

lemma hoare_keeps: "hoare P m (\<lambda>x. P) P \<Longrightarrow> P s \<Longrightarrow> m s = (r, s') \<Longrightarrow> P s'"
  using hoare_run [of P m "\<lambda>x. P" P s r s'] by (cases r) simp_all

context safe_operator begin

lemma operator_run_inv:
  assumes "operator_run D s s'" and "op_inv old s"
  shows "op_inv old s'"
  using assms(1)
proof cases
  case (run_reserve now0 now batchId skip opts r)
  show ?thesis by (rule hoare_keeps [OF reserveAntBatch_seals assms(2) run_reserve])
next
  case (run_build now batchId memo b)
  show ?thesis by (rule hoare_keeps [OF buildReservedBatch_seals assms(2) run_build])
next
  case (run_submit clk now batchId txs q)
  show ?thesis by (rule hoare_keeps [OF submitAntBatch_seals assms(2) run_submit])
next
  case (run_recover T treasury cid a)
  show ?thesis by (rule hoare_keeps [OF recoverReserved_seals assms(2) run_recover])
next
  case (run_others d d' w)
  then show ?thesis using op_inv_step assms(2) by simp
qed

lemma operator_runs_inv:
  "(operator_run D)\<^sup>*\<^sup>* s s' \<Longrightarrow> op_inv old s \<Longrightarrow> op_inv old s'"
  by (induction rule: rtranclp_induct) (auto intro: operator_run_inv)

lemma op_inv_initial:
  "db_inv d \<Longrightarrow> \<forall>c \<in> set (db_claims d). cl_ant_reserved_wire c = None \<Longrightarrow> op_inv (wires w) (d, w)"
  by (simp add: op_inv_def reservations_ok_def)

end

section \<open>Properties\<close>

text \<open>
  C5. The operator's path cannot be redirected: whatever wires a client submits, however the calls
  are cut off, and whatever the service, dispatch and other operators run in between, each transaction
  it has broadcast carries a message that hands over the ANT of a won claim, and its update authority,
  to the claimant of that claim and does nothing else, with a signature of the cold authority that
  verifies over exactly that message. The hypotheses are that a message is read as it was signed, and
  that only broadcasts send.
\<close>

theorem operator_sends_handovers_only:
  assumes "safe_operator D instrs wires" and "db_inv d"
    and "\<forall>c \<in> set (db_claims d). cl_ant_reserved_wire c = None"
    and "(operator_run D)\<^sup>*\<^sup>* (d, w) (d', w')" and "wire \<in> wires w'" and "wire \<notin> wires w"
  shows "\<exists>c a m t sig pub. c \<in> set (db_claims d') \<and> won (cl_status c)
     \<and> find_asset d' (cl_asset_key c) = Some a \<and> as_ant_mint a = Some m
     \<and> effects (wk_kit (od_deps D)) None (instrs (tx_messageBytes t))
         = [GiveAsset m (cl_claimant c), SetAuthority m (cl_claimant c)]
     \<and> tk_bs58 (od_txs D) (od_cold D) = Inr pub
     \<and> tk_edVerify (od_txs D) sig (tx_messageBytes t) pub = Inr True
     \<and> tk_encode (od_txs D) (with_authority (od_cold D) sig t) = Inr wire"
proof -
  have "safe_operator.op_inv D instrs wires (wires w) (d', w')"
    by (rule safe_operator.operator_runs_inv [OF assms(1,4) safe_operator.op_inv_initial [OF assms(1-3)]])
  then have "sealed_wire D instrs wire d'"
    using assms(5,6) by (auto simp: safe_operator.op_inv_def [OF assms(1)])
  then show ?thesis unfolding sealed_wire_def hands_over_def by blast
qed

section \<open>Witnesses\<close>

text \<open>A kit that signs one message only, and a world that keeps what was sent.\<close>

definition demo_mint :: string where "demo_mint = replicate 32 (CHR ''M'')"

definition demo_ant_args :: build_ant_args where
  "demo_ant_args = \<lparr>ba_claimId = ''c1'', ba_antMint = demo_mint, ba_claimant = replicate 32 (CHR ''A''),
     ba_antColdAddress = ''cold'', ba_blockhash = ''bh'', ba_lastValidBlockHeight = 9, ba_includeMemo = True\<rparr>"

definition demo_tx :: "bytes option \<Rightarrow> decoded_tx" where
  "demo_tx sig = \<lparr>tx_messageBytes = [1], tx_signatures = [(''treasury'', Some [5]), (''cold'', sig)]\<rparr>"

definition demo_tx_kit :: tx_kit where
  "demo_tx_kit = \<lparr>tk_base64 = (\<lambda>s. Inr (map of_char s)),
     tk_decode = (\<lambda>bs. if bs = [112] then Inr (demo_tx None) else if bs = [115] then Inr (demo_tx (Some [7])) else Inl ''bad''),
     tk_encode = (\<lambda>t. if t = demo_tx None then Inr ''p'' else if t = demo_tx (Some [7]) then Inr ''s'' else Inl ''bad''),
     tk_signature = (\<lambda>t. Inr ''txid''),
     tk_partialSign = (\<lambda>fp bh lv ixs. if ixs = ant_transfer_ixs demo_kit ''treasury'' demo_ant_args
        then Inr (demo_tx None) else Inl ''unknown''),
     tk_bs58 = (\<lambda>s. Inr [9]), tk_edVerify = (\<lambda>sig msg pub. Inr (sig = [7] \<and> msg = [1] \<and> pub = [9]))\<rparr>"

definition demo_gateway :: "(string list, instruction) gateway" where
  "demo_gateway = \<lparr>gw_getTokenBalance = (\<lambda>a w. (Inr 0, w)), gw_getAccountData = (\<lambda>a w. (Inr None, w)),
     gw_signTransaction = (\<lambda>ixs fp w. (Inl ''no key'', w)), gw_broadcast = (\<lambda>wire w. (Inr (), wire # w)),
     gw_confirmSignature = (\<lambda>s lv w. (Inr StateConfirmed, w)), gw_findConfirmedOutflow = (\<lambda>a k w. (Inr None, w))\<rparr>"

definition demo_operator :: "(string list, string) operator_deps" where
  "demo_operator = \<lparr>od_deps = \<lparr>wk_db = \<lparr>ac_others = (\<lambda>w d. d), ac_fault = (\<lambda>w. (Fine, w))\<rparr>, wk_env = demo_env,
       wk_gateway = demo_gateway, wk_kit = demo_kit,
       wk_token = \<lparr>ds_address = ''hot'', ds_role = RoleToken, ds_unlock = Inr ()\<rparr>, wk_ant = None,
       wk_policy = \<lparr>fp_capMario = 1000, fp_bigClaimThresholdMario = 100, fp_refillThresholdMario = 10\<rparr>,
       wk_scope = None, wk_mint = ''mint'', wk_minVaultDuration = 1209600, wk_maxVaultDuration = 6307200,
       wk_arioCoreProgram = None, wk_antRequiresApproval = None, wk_antDispatchMode = None, wk_includeMemo = None\<rparr>,
     od_txs = demo_tx_kit, od_latestBlockhash = (\<lambda>w. (Inr (''bh'', 9), w)), od_treasury = ''treasury'', od_cold = ''cold''\<rparr>"

lemma demo_operator_simps [simp]:
  "wk_db (od_deps demo_operator) = \<lparr>ac_others = (\<lambda>w d. d), ac_fault = (\<lambda>w. (Fine, w))\<rparr>"
  "wk_env (od_deps demo_operator) = demo_env" "wk_gateway (od_deps demo_operator) = demo_gateway"
  "wk_kit (od_deps demo_operator) = demo_kit" "od_txs demo_operator = demo_tx_kit" "od_cold demo_operator = ''cold''"
  "od_treasury demo_operator = ''treasury''" "od_latestBlockhash demo_operator = (\<lambda>w. (Inr (''bh'', 9), w))"
  by (simp_all add: demo_operator_def)

lemma demo_tx_neq [simp]: "demo_tx (Some x) \<noteq> demo_tx None"
  by (simp add: demo_tx_def)

lemma demo_decode:
  "decode_wire demo_tx_kit ''p'' = Inr (demo_tx None)" "decode_wire demo_tx_kit ''s'' = Inr (demo_tx (Some [7]))"
  by (simp_all add: decode_wire_def demo_tx_kit_def)

interpretation demo_sealed: sealed_kit demo_kit demo_tx_kit "\<lambda>msg. ant_transfer_ixs demo_kit ''treasury'' demo_ant_args"
proof (rule sealed_kit.intro)
  show "kit_codecs demo_kit" by (rule demo_codecs.kit_codecs_axioms)
  fix fp bh lv ixs t wire
  assume "tk_partialSign demo_tx_kit fp bh lv ixs = Inr t" "tk_encode demo_tx_kit t = Inr wire"
  then have "ixs = ant_transfer_ixs demo_kit ''treasury'' demo_ant_args" "t = demo_tx None" "wire = ''p''"
    by (auto simp: demo_tx_kit_def split: if_splits)
  then show "decode_wire demo_tx_kit wire = Inr t \<and> ant_transfer_ixs demo_kit ''treasury'' demo_ant_args = ixs"
    by (simp add: demo_decode)
qed

interpretation demo_safe: safe_operator demo_operator
  "\<lambda>msg. ant_transfer_ixs demo_kit ''treasury'' demo_ant_args" set
  by (rule safe_operator.intro) (auto simp: demo_sealed.sealed_kit_axioms demo_gateway_def)

definition demo_ant_db :: db where
  "demo_ant_db = \<lparr>db_recipients = [], db_assets = [(demo_asset_row ''k'')\<lparr>as_ant_mint := Some demo_mint, as_status := A_claiming\<rparr>],
     db_claims = [(demo_claim ''k'' [])\<lparr>cl_status := Verified\<rparr>], db_audit = [], db_ant_batches = []\<rparr>"

definition demo_reserve_opts :: reserve_opts where
  "demo_reserve_opts = \<lparr>ro_antColdAddress = ''cold'', ro_max = 10, ro_reservationTtlMs = None, ro_requireApproval = None,
     ro_assetKeyScope = None\<rparr>"

abbreviation demo_ant_asset :: asset_row where
  "demo_ant_asset \<equiv> (demo_asset_row ''k'')\<lparr>as_ant_mint := Some demo_mint, as_status := A_claiming\<rparr>"

abbreviation demo_ant_claim :: claim_row where
  "demo_ant_claim \<equiv> (demo_claim ''k'' [])\<lparr>cl_status := Verified\<rparr>"

lemma demo_ant_fields [simp]:
  "cl_claim_id (demo_claim k m) = ''c1''" "cl_asset_key (demo_claim k m) = k" "cl_dispatch_signature (demo_claim k m) = None"
  "cl_ant_batch_id (demo_claim k m) = None" "cl_ant_reserved_wire (demo_claim k m) = None"
  "cl_claimant (demo_claim k m) = replicate 32 (CHR ''A'')" "as_asset_key (demo_asset_row k) = k"
  "as_asset_type (demo_asset_row k) = AssetAnt"
  by (simp_all add: demo_claim_def new_claim_row_def demo_asset_row_def demo_initiate_def)

lemma demo_ant_db_inv: "db_inv demo_ant_db"
  by (simp add: demo_ant_db_def db_inv_def claims_inv_def holds_asset_def)

definition demo_reserved_db :: db where
  "demo_reserved_db = snd (reserve_tx demo_env 0 ''b'' demo_reserve_opts (\<lambda>c. False) demo_ant_db)"

lemma demo_reserved:
  "db_claims demo_reserved_db = [reserve_row ''b'' 0 demo_ant_claim]" "db_assets demo_reserved_db = [demo_ant_asset]"
  by (simp_all add: demo_reserved_db_def reserve_tx_def demo_ant_db_def reserved_rows_def reserve_candidates_def
      reservable_def demo_reserve_opts_def row_find_def dispatchable_ant_def ant_status_ok_def asset_of_def
      truthy_def demo_mint_def Let_def)

definition demo_built :: built_ant_tx where
  "demo_built = \<lparr>bt_txid = ''txid'', bt_txBase64 = ''p'', bt_blockhash = ''bh'', bt_lastValidBlockHeight = 9\<rparr>"

lemma demo_build_one:
  "build_one demo_operator True ''bh'' 9 (reserve_row ''b'' 0 demo_ant_claim) demo_mint = Inr demo_built"
  by (simp add: build_one_def address_def demo_mint_def buildAntTransferTx_def demo_built_def reserve_row_def
      demo_ant_args_def demo_tx_kit_def demo_kit_def)

lemma demo_built_batch:
  "\<exists>d b. buildReservedBatch demo_operator 0 ''b'' None (demo_reserved_db, []) = (Inr b, (d, []))
     \<and> db_claims d = [built_row demo_built (reserve_row ''b'' 0 demo_ant_claim)] \<and> db_assets d = [demo_ant_asset]"
proof -
  have rows: "batch_rows ''b'' demo_reserved_db = [reserve_row ''b'' 0 demo_ant_claim]"
    by (simp add: batch_rows_def demo_reserved row_find_def reserve_row_def)
  have row: "build_row (build_one demo_operator True ''bh'' 9) demo_reserved_db (reserve_row ''b'' 0 demo_ant_claim)
      = Inr (Inr demo_built)"
    using demo_build_one
    by (simp add: build_row_def asset_of_def demo_reserved row_find_def reserve_row_def truthy_def demo_mint_def
        ant_status_ok_def dispatchable_ant_def Let_def)
  show ?thesis
    by (simp add: buildReservedBatch_def io_bind_def chain_def db_tx_def build_tx_def rows fold_result.simps build_step_def
        row from_result_def demo_reserved row_update_def Let_def)
qed

lemma demo_submit:
  assumes "db_claims d = [built_row demo_built (reserve_row ''b'' 0 demo_ant_claim)]" and "db_assets d = [demo_ant_asset]"
  shows "\<exists>q d'. submitAntBatch demo_operator (\<lambda>n. demo_clock) 0 ''b'' [''s''] (d, []) = (q, (d', [''s'']))"
proof -
  define c where "c = built_row demo_built (reserve_row ''b'' 0 demo_ant_claim)"
  let ?A = "\<lparr>pa_claimId = ''c1'', pa_assetKey = ''k'', pa_signed = \<lparr>sd_signature = ''txid'', sd_blockhash = ''bh'',
     sd_lastValidBlockHeight = 9, sd_wireBase64 = ''s''\<rparr>, pa_settlementAmount = None, pa_settlementLabel = Some ''ant-operator''\<rparr>"
  have row: "find_claim d ''c1'' = Some c" "cl_status c = Verified" "cl_asset_key c = ''k''" "cl_claim_id c = ''c1''"
    by (simp_all add: c_def assms row_find_def built_row_def reserve_row_def)
  have a: "find_asset d ''k'' = Some demo_ant_asset" by (simp add: assms row_find_def)
  have run: "\<exists>d'. dispatchSignedTx (od_deps demo_operator) demo_clock ?A (d, [])
      = (Inr (OutConfirmed, Some ''txid'', None), (d', [''s'']))"
    using dispatchSignedTx_confirms [where D = "od_deps demo_operator" and d = d and A = ?A and c = c and a = demo_ant_asset
          and w = "[]" and u = "Inr ()" and ?w1.0 = "[''s'']" and ?w2.0 = "[''s'']" and T = demo_clock]
      row a by (auto simp: undisturbed_def canDispatch_def demo_gateway_def)
  then obtain d' where d': "dispatchSignedTx (od_deps demo_operator) demo_clock ?A (d, [])
      = (Inr (OutConfirmed, Some ''txid'', None), (d', [''s'']))" by blast
  have f: "find_reservation ''txid'' ''b'' d = Some c"
    by (simp add: c_def find_reservation_def assms built_row_def reserve_row_def demo_built_def)
  have w: "cl_ant_reserved_wire c = Some ''p''" "cl_ant_reserved_blockhash c = Some ''bh''"
    "cl_ant_reserved_last_valid_bh c = Some 9" by (simp_all add: c_def built_row_def demo_built_def)
  have parts: "submitted_parts demo_tx_kit ''cold'' ''s'' = Inr (''txid'', Some [7])"
    by (simp add: submitted_parts_def demo_decode) (simp add: demo_tx_def demo_tx_kit_def)
  have auth: "authoritative_wire demo_tx_kit ''cold'' [9] [7] ''p'' = Inr (Some (''txid'', ''s''))"
  proof -
    have "with_authority ''cold'' [7] (demo_tx None) = demo_tx (Some [7])" by (simp add: with_authority_def demo_tx_def)
    moreover have "tx_messageBytes (demo_tx None) = [1]" by (simp add: demo_tx_def)
    ultimately show ?thesis by (simp add: authoritative_wire_def demo_decode) (simp add: demo_tx_kit_def)
  qed
  have one: "submitOneAntTx demo_operator demo_clock ''b'' [9] ''s'' (d, []) =
      (Inr (ant_result (Some ''txid'') (Some ''c1'') (Some ''k'') (Ant OutConfirmed) (Some ''txid'') None), (d', [''s'']))"
    using d' by (simp add: submitOneAntTx_def parts isPresentSig_def io_bind_def db_read_def db_tx_def f w truthy_def
        from_result_def auth submit_matched_def row io_return_def Let_def)
  have bs: "tk_bs58 demo_tx_kit ''cold'' = Inr [9]" by (simp add: demo_tx_kit_def)
  show ?thesis
    by (simp add: submitAntBatch_def bs io_bind_def from_result_def catch_all_def one io_return_def finalizeBatchStatus_def
        db_read_def db_do_def db_tx_def Let_def)
qed

lemma three_steps: "R a b \<Longrightarrow> R b c \<Longrightarrow> R c e \<Longrightarrow> R\<^sup>*\<^sup>* a e"
  by (meson rtranclp.rtrancl_into_rtrancl rtranclp.rtrancl_refl)

theorem operator_sends_handovers_only_witness:
  "\<exists>d' c. (operator_run demo_operator)\<^sup>*\<^sup>* (demo_ant_db, []) (d', [''s'']) \<and> c \<in> set (db_claims d') \<and> won (cl_status c)"
proof -
  obtain d b where d: "buildReservedBatch demo_operator 0 ''b'' None (demo_reserved_db, []) = (Inr b, (d, []))"
    "db_claims d = [built_row demo_built (reserve_row ''b'' 0 demo_ant_claim)]" "db_assets d = [demo_ant_asset]"
    using demo_built_batch by blast
  obtain q d' where d': "submitAntBatch demo_operator (\<lambda>n. demo_clock) 0 ''b'' [''s''] (d, []) = (q, (d', [''s'']))"
    using demo_submit [OF d(2,3)] by blast
  have r: "operator_run demo_operator (demo_ant_db, []) (demo_reserved_db, [])"
    using run_others [OF sealed_reserve [where D = demo_operator and d = demo_ant_db and now = 0 and batchId = "''b''" and opts = demo_reserve_opts
        and skip = "\<lambda>c. False"]]
    by (simp add: demo_reserved_db_def)
  have run: "(operator_run demo_operator)\<^sup>*\<^sup>* (demo_ant_db, []) (d', [''s''])"
    by (rule three_steps [where R = "operator_run demo_operator", OF r run_build [OF d(1)] run_submit [OF d']])
  have none: "\<forall>c \<in> set (db_claims demo_ant_db). cl_ant_reserved_wire c = None" by (simp add: demo_ant_db_def)
  have w: "''s'' \<in> set [''s'']" "''s'' \<notin> set []" by simp_all
  from operator_sends_handovers_only [OF demo_safe.safe_operator_axioms demo_ant_db_inv none run w] run show ?thesis by blast
qed

end
