(* ===== verification/Canonical_Json.thy ===== *)
theory Canonical_Json
  imports Audit_Chain
begin

text \<open>
  The canonical JSON of \<open>api/audit.ts\<close>, on which the hash chain, the ledger artefact and its
  signature rest, is unambiguous: two values whose numbers are integers have the same text exactly
  when they are the same up to the order of keys.
\<close>

section \<open>Canonical JSON is unambiguous\<close>

text \<open>
  The value with its keys sorted at every depth, which is what canonical JSON writes, and the values
  whose numbers are integers.
\<close>

fun json_norm :: "json \<Rightarrow> json" where
  "json_norm (JArr xs) = JArr (map json_norm xs)"
| "json_norm (JObj kvs) = JObj (sort_key fst (map (\<lambda>(k, v). (k, json_norm v)) kvs))"
| "json_norm j = j"

fun json_integral :: "json \<Rightarrow> bool" where
  "json_integral (JArr xs) = list_all json_integral xs"
| "json_integral (JObj kvs) = list_all (\<lambda>(k, v). json_integral v) kvs"
| "json_integral (JFrac lit) = False"
| "json_integral JInf = False"
| "json_integral j = True"

text \<open>What may follow a value: nothing, or a delimiter.\<close>

definition json_delim :: "string \<Rightarrow> bool" where
  "json_delim r = (r = [] \<or> hd r \<in> {CHR '','', CHR ''}'', CHR '']''})"

lemma json_delim_simps [simp]: "json_delim []" "json_delim (CHR '','' # r)"
  "json_delim (CHR ''}'' # r)" "json_delim (CHR '']'' # r)"
  by (simp_all add: json_delim_def)

lemma json_escape_head: "\<exists>c r. json_escape d = c # r \<and> c \<noteq> CHR 0x22"
proof -
  have "d \<noteq> CHR 0x22 \<or> json_escape d = [CHR 0x5C, CHR 0x22]" by (auto simp: json_escape_def)
  then show ?thesis by (auto simp: json_escape_def Let_def)
qed

lemma json_escape_kinds:
  "json_escape c = [c] \<and> c \<noteq> CHR 0x5C
   \<or> (\<exists>e. json_escape c = [CHR 0x5C, e] \<and> e \<noteq> CHR ''u''
        \<and> (of_char c, e) \<in> {(34, CHR 0x22), (92, CHR 0x5C), (8, CHR ''b''), (9, CHR ''t''),
             (10, CHR ''n''), (12, CHR ''f''), (13 :: nat, CHR ''r'')})
   \<or> json_escape c = CHR 0x5C # ''u00'' @ hex_byte (of_nat (of_char c))"
proof -
  have "c = CHR 0x5C \<Longrightarrow> of_char c = (92 :: nat)" by simp
  then show ?thesis by (auto simp: json_escape_def Let_def)
qed

lemma json_escape_cases:
  obtains (plain) "json_escape c = [c]" "c \<noteq> CHR 0x5C"
  | (short) e where "json_escape c = [CHR 0x5C, e]" "e \<noteq> CHR ''u''"
      "(of_char c, e) \<in> {(34, CHR 0x22), (92, CHR 0x5C), (8, CHR ''b''), (9, CHR ''t''),
         (10, CHR ''n''), (12, CHR ''f''), (13 :: nat, CHR ''r'')}"
  | (hex) "json_escape c = CHR 0x5C # ''u00'' @ hex_byte (of_nat (of_char c))"
  using json_escape_kinds [of c] by (elim disjE exE conjE) blast+

lemma hex_code_inj: "hex_byte (of_nat (of_char c)) = hex_byte (of_nat (of_char d)) \<Longrightarrow> c = d"
  using hex_byte_inj byte_of_nat_eq [OF of_char_less of_char_less] char_eq_of_nat by metis

lemma json_escape_prefix: "json_escape c @ r = json_escape d @ s \<longleftrightarrow> c = d \<and> r = s"
proof
  assume e: "json_escape c @ r = json_escape d @ s"
  have same: "of_char c = (n :: nat) \<Longrightarrow> of_char d = n \<Longrightarrow> c = d" for n
    by (metis char_eq_of_nat)
  show "c = d \<and> r = s"
  proof (cases c rule: json_escape_cases)
    case plain
    then show ?thesis using e by (cases d rule: json_escape_cases) auto
  next
    case (short x)
    then show ?thesis using e
      by (cases d rule: json_escape_cases) (auto intro: same)
  next
    case hex
    then show ?thesis using e
      by (cases d rule: json_escape_cases) (auto dest: hex_code_inj)
  qed
qed simp

lemma json_chars_prefix:
  "concat (map json_escape s) @ CHR 0x22 # r = concat (map json_escape t) @ CHR 0x22 # r' \<longleftrightarrow> s = t \<and> r = r'"
proof (induction s arbitrary: t)
  case Nil
  then show ?case using json_escape_head by (cases t) (auto, metis append_Cons list.inject)
next
  case (Cons c s)
  show ?case
  proof (cases t)
    case Nil
    then show ?thesis using json_escape_head [of c] by auto
  next
    case (Cons d t')
    then show ?thesis by (simp add: json_escape_prefix Cons.IH)
  qed
qed

lemma json_string_prefix: "json_string s @ r = json_string t @ r' \<longleftrightarrow> s = t \<and> r = r'"
  by (simp add: json_string_def json_chars_prefix)


lemma insort_key_map:
  "insort_key fst (k, f v) (map (\<lambda>(k, v). (k, f v)) xs) = map (\<lambda>(k, v). (k, f v)) (insort_key fst (k, v) xs)"
  by (induction xs) (auto split: prod.splits)

lemma sort_key_map:
  "sort_key fst (map (\<lambda>(k, v). (k, f v)) kvs) = map (\<lambda>(k, v). (k, f v)) (sort_key fst kvs)"
proof (induction kvs)
  case (Cons kv kvs)
  then show ?case by (cases kv) (simp add: sort_key_def insort_key_map)
qed simp

definition json_member :: "string \<times> json \<Rightarrow> string" where
  "json_member kv = json_string (fst kv) @ CHR '':'' # canonicalJson (snd kv)"

lemma canonicalJson_obj:
  "canonicalJson (JObj kvs) = CHR ''{'' # js_join CHR '','' (map json_member (sort_key fst kvs)) @ ''}''"
proof -
  have "(\<lambda>(k, v). json_string k @ CHR '':'' # v) \<circ> (\<lambda>(k, v). (k, canonicalJson v)) = json_member"
    by (auto simp: json_member_def fun_eq_iff)
  then show ?thesis by (simp add: sort_key_map)
qed

lemma json_norm_obj: "json_norm (JObj kvs) = JObj (map (\<lambda>(k, v). (k, json_norm v)) (sort_key fst kvs))"
  by (simp add: sort_key_map)

lemma dec_nat_prefix:
  "dec_nat m @ r = dec_nat n @ s \<Longrightarrow> json_delim r \<Longrightarrow> json_delim s \<Longrightarrow> m = n \<and> r = s"
proof -
  have stop: "takeWhile (\<lambda>c. c \<in> set dec_alphabet) (dec_nat k @ t) = dec_nat k"
    "dropWhile (\<lambda>c. c \<in> set dec_alphabet) (dec_nat k @ t) = t" if "json_delim t" for k t
  proof -
    have "\<forall>c \<in> set (dec_nat k). c \<in> set dec_alphabet" using dec_nat_set by blast
    moreover have "t = [] \<or> hd t \<notin> set dec_alphabet" using that by (auto simp: json_delim_def dec_alphabet_def)
    ultimately show "takeWhile (\<lambda>c. c \<in> set dec_alphabet) (dec_nat k @ t) = dec_nat k"
      "dropWhile (\<lambda>c. c \<in> set dec_alphabet) (dec_nat k @ t) = t"
      by (cases t; simp)+
  qed
  assume "dec_nat m @ r = dec_nat n @ s" "json_delim r" "json_delim s"
  then show "m = n \<and> r = s" using stop by (metis dec_nat_inj)
qed

lemma dec_nat_head: "\<exists>c t. dec_nat n = c # t \<and> c \<in> set dec_alphabet"
  using dec_nat_set [of n] dec_nat_nonempty [of n] by (cases "dec_nat n") auto

lemma dec_int_cases:
  obtains (nonneg) "dec_int i = dec_nat (nat i)" "0 \<le> i" | (neg) "dec_int i = CHR ''-'' # dec_nat (nat (- i))" "i < 0"
  by (cases "i < 0") (auto simp: dec_int_def)

lemma dec_int_head: "\<exists>c t. dec_int i = c # t \<and> c \<in> insert CHR ''-'' (set dec_alphabet)"
  using dec_nat_head by (cases i rule: dec_int_cases) (auto, metis)

lemma dec_int_prefix:
  "dec_int i @ r = dec_int j @ s \<Longrightarrow> json_delim r \<Longrightarrow> json_delim s \<Longrightarrow> i = j \<and> r = s"
proof -
  have minus: "dec_nat n @ u \<noteq> CHR ''-'' # v" for n u v
    using dec_nat_head [of n] by (auto simp: dec_alphabet_def)
  assume "dec_int i @ r = dec_int j @ s" "json_delim r" "json_delim s"
  then show "i = j \<and> r = s"
    by (cases i rule: dec_int_cases; cases j rule: dec_int_cases)
      (auto dest: dec_nat_prefix simp: minus minus [symmetric])
qed

text \<open>The first character of a value shows its kind.\<close>

definition json_kind :: "json \<Rightarrow> nat" where
  "json_kind j = (case j of JNull \<Rightarrow> 0 | JBool b \<Rightarrow> (if b then 1 else 2) | JInt i \<Rightarrow> 3 | JStr s \<Rightarrow> 4 | JArr xs \<Rightarrow> 5
     | JObj kvs \<Rightarrow> 6 | JFrac l \<Rightarrow> 7 | JInf \<Rightarrow> 8)"

definition kind_of_char :: "char \<Rightarrow> nat" where
  "kind_of_char c = (if c = CHR ''n'' then 0 else if c = CHR ''t'' then 1 else if c = CHR ''f'' then 2
     else if c = CHR 0x22 then 4 else if c = CHR ''['' then 5 else if c = CHR ''{'' then 6 else 3)"

lemma kind_of_digit: "c \<in> insert CHR ''-'' (set dec_alphabet) \<Longrightarrow> kind_of_char c = 3 \<and> c \<notin> set '',]}''"
  by (auto simp: kind_of_char_def dec_alphabet_def)

lemma canonicalJson_head:
  assumes "json_integral j"
  obtains c t where "canonicalJson j = c # t" "kind_of_char c = json_kind j" "c \<notin> set '',]}''"
proof (cases j)
  case (JInt i)
  then show thesis using dec_int_head [of i] kind_of_digit that by (auto simp: json_kind_def)
next
  case (JBool b)
  then show thesis using that by (cases b) (simp_all add: json_kind_def kind_of_char_def)
qed (use assms that in \<open>simp_all add: json_kind_def kind_of_char_def json_string_def split: if_splits\<close>)

lemma same_kind:
  assumes "json_integral x" "json_integral y" "canonicalJson x @ r = canonicalJson y @ s"
  shows "json_kind x = json_kind y"
  using assms canonicalJson_head by (metis append_Cons list.inject)


lemma js_join_append: "xs \<noteq> [] \<Longrightarrow> js_join c (x # xs) = x @ c # js_join c xs"
  by (cases xs) simp_all

text \<open>
  A joined list of items, closed by a bracket, is read back item by item, when no item starts with
  a delimiter and an item followed by one is read back.
\<close>

lemma joined_items:
  assumes close: "c \<in> {CHR '']'', CHR ''}''}"
    and head: "\<And>x. x \<in> set xs \<union> set ys \<Longrightarrow> \<exists>d t. f x = d # t \<and> d \<notin> set '',]}''"
    and item: "\<And>x y r s. x \<in> set xs \<Longrightarrow> y \<in> set ys \<Longrightarrow> json_delim r \<Longrightarrow> json_delim s
        \<Longrightarrow> f x @ r = f y @ s \<Longrightarrow> g x = g y \<and> r = s"
    and eq: "js_join CHR '','' (map f xs) @ c # r = js_join CHR '','' (map f ys) @ c # s"
  shows "map g xs = map g ys \<and> r = s"
  using head item eq
proof (induction xs arbitrary: ys)
  case Nil
  show ?case
  proof (cases ys)
    case (Cons y ys')
    then obtain d t where "f y = d # t" "d \<notin> set '',]}''" using Nil(1) [of y] by auto
    then show ?thesis using Nil(3) Cons close by (cases ys') auto
  qed (use Nil in simp)
next
  case (Cons x xs)
  obtain d t where d: "f x = d # t" "d \<notin> set '',]}''" using Cons.prems(1) [of x] by auto
  show ?case
  proof (cases ys)
    case Nil
    then show ?thesis using Cons.prems(3) d close by (cases xs) auto
  next
    case ys: (Cons y ys')
    let ?R = "\<lambda>zs q. if zs = [] then c # q else CHR '','' # js_join CHR '','' (map f zs) @ c # q"
    have e: "js_join CHR '','' (map f (z # zs)) @ c # q = f z @ ?R zs q" for z zs q
      by (cases zs) simp_all
    have dl: "json_delim (?R zs q)" for zs q using close by auto
    have "f x @ ?R xs r = f y @ ?R ys' s" using Cons.prems(3) unfolding ys e .
    with Cons.prems(2) [of x y "?R xs r" "?R ys' s"] dl ys
    have g: "g x = g y" and R: "?R xs r = ?R ys' s" by auto
    show ?thesis
    proof (cases "xs = [] \<or> ys' = []")
      case True
      then show ?thesis using R g ys close by (auto split: if_splits)
    next
      case False
      with R have "js_join CHR '','' (map f xs) @ c # r = js_join CHR '','' (map f ys') @ c # s" by simp
      then have "map g xs = map g ys' \<and> r = s"
        using Cons.IH [of ys'] Cons.prems(1,2) ys by (metis Un_iff list.set_intros(2))
      then show ?thesis using g ys by simp
    qed
  qed
qed

lemma json_member_head: "\<exists>d t. json_member kv = d # t \<and> d \<notin> set '',]}''"
  by (simp add: json_member_def json_string_def)

lemma json_kind_simps [simp]: "json_kind JNull = 0" "json_kind (JBool b) = (if b then 1 else 2)"
  "json_kind (JInt i) = 3" "json_kind (JStr a) = 4" "json_kind (JArr xs) = 5" "json_kind (JObj kvs) = 6"
  "json_kind (JFrac l) = 7" "json_kind JInf = 8"
  by (simp_all add: json_kind_def)

lemma json_kind_eqs:
  "json_kind y = 0 \<longleftrightarrow> y = JNull" "json_kind y = Suc 0 \<longleftrightarrow> y = JBool True" "json_kind y = 2 \<longleftrightarrow> y = JBool False"
  "json_kind y = 3 \<longleftrightarrow> (\<exists>i. y = JInt i)" "json_kind y = 4 \<longleftrightarrow> (\<exists>a. y = JStr a)"
  "json_kind y = 5 \<longleftrightarrow> (\<exists>xs. y = JArr xs)" "json_kind y = 6 \<longleftrightarrow> (\<exists>kvs. y = JObj kvs)"
  by (cases y; simp)+

lemma canonicalJson_prefix:
  assumes "json_integral x" "json_integral y" "json_delim r" "json_delim s"
    and "canonicalJson x @ r = canonicalJson y @ s"
  shows "json_norm x = json_norm y \<and> r = s"
  using assms
proof (induction x arbitrary: y r s rule: canonicalJson.induct)
  case (3 i)
  then have "json_kind y = 3" using same_kind [of "JInt i" y r s] by (simp del: canonicalJson.simps)
  then obtain j where "y = JInt j" by (auto simp: json_kind_eqs)
  then show ?case using 3 dec_int_prefix by simp
next
  case (6 a)
  then have "json_kind y = 4" using same_kind [of "JStr a" y r s] by (simp del: canonicalJson.simps)
  then obtain b where "y = JStr b" by (auto simp: json_kind_eqs)
  then show ?case using 6 json_string_prefix by simp
next
  case (7 xs)
  then have "json_kind y = 5" using same_kind [of "JArr xs" y r s] by (simp del: canonicalJson.simps)
  then obtain ys where y: "y = JArr ys" by (auto simp: json_kind_eqs)
  have "map json_norm xs = map json_norm ys \<and> r = s"
  proof (rule joined_items [where c = "CHR '']''" and f = canonicalJson])
    fix u assume "u \<in> set xs \<union> set ys"
    then have "json_integral u" using 7(2,3) y by (auto simp: list_all_iff)
    then show "\<exists>d t. canonicalJson u = d # t \<and> d \<notin> set '',]}''" by (metis canonicalJson_head)
  next
    fix u v q q' assume "u \<in> set xs" "v \<in> set ys" "json_delim q" "json_delim q'" "canonicalJson u @ q = canonicalJson v @ q'"
    then show "json_norm u = json_norm v \<and> q = q'" 
      using 7(1) [of u v q q'] 7(2,3) y by (simp add: list_all_iff)
  qed (use 7(6) y in simp_all)
  then show ?case using y by simp
next
  case (8 kvs)
  then have "json_kind y = 6" using same_kind [of "JObj kvs" y r s] by (simp del: canonicalJson.simps)
  then obtain kws where y: "y = JObj kws" by (auto simp: json_kind_eqs)
  have "map (\<lambda>(k, v). (k, json_norm v)) (sort_key fst kvs) = map (\<lambda>(k, v). (k, json_norm v)) (sort_key fst kws) \<and> r = s"
  proof (rule joined_items [where c = "CHR ''}''" and f = json_member])
    fix u v q q' assume m: "u \<in> set (sort_key fst kvs)" "v \<in> set (sort_key fst kws)" "json_delim q" "json_delim q'"
      "json_member u @ q = json_member v @ q'"
    obtain a b a' b' where [simp]: "u = (a, b)" "v = (a', b')" by (cases u, cases v)
    have "json_integral b" "json_integral b'" using m 8(2,3) y by (auto simp: list_all_iff)
    moreover have "a = a'" "canonicalJson b @ q = canonicalJson b' @ q'"
      using m(5) by (simp_all add: json_member_def json_string_prefix)
    ultimately show "(case u of (k, v) \<Rightarrow> (k, json_norm v)) = (case v of (k, v) \<Rightarrow> (k, json_norm v)) \<and> q = q'"
      using 8(1) [of u a b b' q q'] m by auto
  qed (use 8(6) y json_member_head in \<open>simp_all add: canonicalJson_obj del: canonicalJson.simps\<close>)
  then show ?case using y by (simp add: json_norm_obj del: json_norm.simps)
next
  case 1
  then have "y = JNull" using same_kind [of JNull y r s] json_kind_eqs(1) [of y] by (simp del: canonicalJson.simps)
  then show ?case using 1 by simp
next
  case (2 b)
  then have "json_kind y = (if b then 1 else 2)"
    using same_kind [of "JBool b" y r s] by (simp del: canonicalJson.simps)
  then have "y = JBool b" by (cases b; cases y) (auto split: if_splits)
  then show ?case using 2 by simp
qed simp_all

lemma canonicalJson_norm [simp]: "canonicalJson (json_norm x) = canonicalJson x"
proof (induction x rule: json_norm.induct)
  case (1 xs)
  then have "map canonicalJson (map json_norm xs) = map canonicalJson xs" by simp
  then show ?case by (simp del: map_map)
next
  case (2 kvs)
  have m: "json_member (case kv of (k, v) \<Rightarrow> (k, json_norm v)) = json_member kv" if "kv \<in> set (sort_key fst kvs)" for kv
  proof -
    obtain k v where kv: "kv = (k, v)" by (rule prod.exhaust)
    then have "(k, v) \<in> set kvs" using that by simp
    with 2 show ?thesis by (simp add: json_member_def kv)
  qed
  have "sort_key fst (map (\<lambda>(k, v). (k, json_norm v)) (sort_key fst kvs)) = map (\<lambda>(k, v). (k, json_norm v)) (sort_key fst kvs)"
    by (simp add: sort_key_map sort_key_id_if_sorted)
  then have "map json_member (sort_key fst (map (\<lambda>(k, v). (k, json_norm v)) (sort_key fst kvs)))
      = map json_member (sort_key fst kvs)"
    using m by simp
  then show ?case unfolding json_norm_obj canonicalJson_obj by (rule arg_cong)
qed simp_all

text \<open>
  Canonical JSON binds the value it writes: two JSON values whose numbers are integers have the
  same canonical text if and only if they are equal up to the order of the keys of their objects.
\<close>

theorem canonicalJson_binds:
  assumes "json_integral x" and "json_integral y"
  shows "canonicalJson x = canonicalJson y \<longleftrightarrow> json_norm x = json_norm y"
proof
  assume "canonicalJson x = canonicalJson y"
  then have "canonicalJson x @ [] = canonicalJson y @ []" by simp
  with canonicalJson_prefix [OF assms json_delim_simps(1) json_delim_simps(1)]
  show "json_norm x = json_norm y" by blast
next
  assume "json_norm x = json_norm y"
  then show "canonicalJson x = canonicalJson y" using canonicalJson_norm by metis
qed

theorem canonicalJson_binds_witness:
  "canonicalJson (JObj [(''b'', JInt 1), (''a'', JStr ''x'')]) = canonicalJson (JObj [(''a'', JStr ''x''), (''b'', JInt 1)])"
proof -
  have "json_norm (JObj [(''b'', JInt 1), (''a'', JStr ''x'')]) = json_norm (JObj [(''a'', JStr ''x''), (''b'', JInt 1)])"
    by code_simp
  moreover have "json_integral (JObj [(''b'', JInt 1), (''a'', JStr ''x'')])"
    "json_integral (JObj [(''a'', JStr ''x''), (''b'', JInt 1)])" by simp_all
  ultimately show ?thesis by (simp only: canonicalJson_binds)
qed

end
