(* ===== verification/Merkle.thy ===== *)
theory Merkle
  imports Codecs
begin

text \<open>
  The Merkle commitment over the published ledger (\<open>transparency/merkle.ts\<close>): domain-separated
  leaf and node hashes, the root of an ordered list of leaf hashes with the odd tail promoted,
  membership proofs and their verification. \<open>sha\<close> is SHA-256 of \<open>@noble/hashes\<close>. The lemmas
  show that every proof the code makes is accepted (with no assumption on \<open>sha\<close>), that an accepted
  proof is about a leaf of the tree unless two of the inputs hashed collide, and how long a proof
  can be.
\<close>

section \<open>Definitions\<close>

definition LEAF_PREFIX :: byte where "LEAF_PREFIX = 0"

definition NODE_PREFIX :: byte where "NODE_PREFIX = 1"

datatype proof_side = SideLeft | SideRight

record proof_step =
  hashHex :: string
  side :: proof_side

definition toHex :: "bytes \<Rightarrow> string" where
  "toHex b = foldl (\<lambda>s x. s @ hex_byte x) [] b"

text \<open>
  The loop of \<open>fromHex\<close> over the byte positions. \<open>parseInt\<close> reads the longest prefix of hex
  digits of a two-character slice, and storing into a \<open>Uint8Array\<close> reduces modulo 256.
\<close>

fun fromHex_loop :: "string \<Rightarrow> nat list \<Rightarrow> string + bytes" where
  "fromHex_loop hex [] = Inr []"
| "fromHex_loop hex (i # is) =
     (case parse_int16 (hex_slice hex i) of
        None \<Rightarrow> Inl (''invalid hex at '' @ dec_nat (i * 2))
      | Some v \<Rightarrow> and_then (fromHex_loop hex is) (\<lambda>out. Inr (of_int v # out)))"

definition fromHex :: "string \<Rightarrow> string + bytes" where
  "fromHex hex =
     (if length hex mod 2 \<noteq> 0 then Inl (''odd-length hex: '' @ dec_nat (length hex))
      else fromHex_loop hex [0..<length hex div 2])"

definition hashLeaf :: "(bytes \<Rightarrow> bytes) \<Rightarrow> bytes \<Rightarrow> bytes" where
  "hashLeaf sha d = sha (LEAF_PREFIX # d)"

definition hashNode :: "(bytes \<Rightarrow> bytes) \<Rightarrow> bytes \<Rightarrow> bytes \<Rightarrow> bytes" where
  "hashNode sha l r = sha (NODE_PREFIX # l @ r)"

text \<open>One pass of the pairing loop: an odd tail is promoted unchanged.\<close>

fun next_level :: "(bytes \<Rightarrow> bytes) \<Rightarrow> bytes list \<Rightarrow> bytes list" where
  "next_level sha (x # y # r) = hashNode sha x y # next_level sha r"
| "next_level sha [x] = [x]"
| "next_level sha [] = []"

lemma length_next_level [simp]: "length (next_level sha l) = (length l + 1) div 2"
  by (induction sha l rule: next_level.induct) auto

function root_loop :: "(bytes \<Rightarrow> bytes) \<Rightarrow> bytes list \<Rightarrow> bytes" where
  "root_loop sha level =
     (if length level > 1 then root_loop sha (next_level sha level) else level ! 0)"
  by pat_completeness auto

termination
  by (relation "measure (\<lambda>(sha, level). length level)") auto

declare root_loop.simps [simp del]

definition merkleRoot :: "(bytes \<Rightarrow> bytes) \<Rightarrow> bytes list \<Rightarrow> bytes" where
  "merkleRoot sha leafHashes =
     (if length leafHashes = 0 then replicate 32 0 else root_loop sha leafHashes)"

function proof_loop :: "(bytes \<Rightarrow> bytes) \<Rightarrow> bytes list \<Rightarrow> nat \<Rightarrow> proof_step list \<Rightarrow> proof_step list" where
  "proof_loop sha level idx acc =
     (if length level > 1 then
        (let isRightChild = (idx mod 2 = 1);
             siblingIdx = (if isRightChild then idx - 1 else idx + 1);
             acc' = (if siblingIdx < length level
                     then acc @ [\<lparr>hashHex = toHex (level ! siblingIdx),
                                  side = (if isRightChild then SideLeft else SideRight)\<rparr>]
                     else acc)
         in proof_loop sha (next_level sha level) (idx div 2) acc')
      else acc)"
  by pat_completeness auto

termination
  by (relation "measure (\<lambda>(sha, level, idx, acc). length level)") auto

declare proof_loop.simps [simp del]

definition merkleProof :: "(bytes \<Rightarrow> bytes) \<Rightarrow> bytes list \<Rightarrow> int \<Rightarrow> string + proof_step list" where
  "merkleProof sha leafHashes index =
     (if index < 0 \<or> index \<ge> int (length leafHashes)
      then Inl (''index '' @ dec_int index @ '' out of range (0..'' @ dec_int (int (length leafHashes) - 1) @ '')'')
      else Inr (proof_loop sha leafHashes (nat index) []))"

fun fold_proof :: "(bytes \<Rightarrow> bytes) \<Rightarrow> bytes \<Rightarrow> proof_step list \<Rightarrow> string + bytes" where
  "fold_proof sha acc [] = Inr acc"
| "fold_proof sha acc (st # steps) =
     and_then (fromHex (hashHex st)) (\<lambda>sib.
       fold_proof sha (if side st = SideLeft then hashNode sha sib acc else hashNode sha acc sib) steps)"

definition verifyMerkleProof ::
  "(bytes \<Rightarrow> bytes) \<Rightarrow> bytes \<Rightarrow> proof_step list \<Rightarrow> string \<Rightarrow> string + bool" where
  "verifyMerkleProof sha leafHash p rootHex =
     and_then (fold_proof sha leafHash p) (\<lambda>acc. Inr (toHex acc = to_lower rootHex))"

section \<open>Hexadecimal\<close>

lemma toHex_encode [simp]: "toHex bs = hex_encode bs"
proof -
  have "foldl (\<lambda>s x. s @ hex_byte x) acc bs = acc @ hex_encode bs" for acc
    by (induction bs arbitrary: acc) auto
  then show ?thesis by (simp add: toHex_def)
qed

lemma fromHex_loop_encode:
  "list_all (\<lambda>i. i < length bs) is \<Longrightarrow> fromHex_loop (hex_encode bs) is = Inr (map (\<lambda>i. bs ! i) is)"
  by (induction "is") (simp_all add: hex_slice_encode parse_int16_hex_byte)

lemma fromHex_toHex [simp]: "fromHex (hex_encode bs) = Inr bs"
proof -
  have "fromHex_loop (hex_encode bs) [0..<length bs] = Inr (map (\<lambda>i. bs ! i) [0..<length bs])"
    by (rule fromHex_loop_encode) (simp add: list_all_iff)
  then show ?thesis by (simp add: fromHex_def length_hex_encode map_nth)
qed

section \<open>Completeness\<close>

lemma proof_loop_acc: "proof_loop sha level idx acc = acc @ proof_loop sha level idx []"
proof (induction "length level" arbitrary: level idx acc rule: less_induct)
  case less
  show ?case
  proof (cases "length level > 1")
    case True
    let ?n = "next_level sha level"
    have "length ?n < length level" using True by simp
    from less [OF this] have *: "proof_loop sha ?n i a = a @ proof_loop sha ?n i []" for i a .
    show ?thesis
      by (subst (1 2) proof_loop.simps) (simp add: Let_def *[of _ "acc @ _"] *[of _ "[_]"] *[of _ acc] True)
  qed (simp add: proof_loop.simps)
qed

lemma next_level_nth:
  "i < length level \<Longrightarrow> next_level sha level ! (i div 2) =
     (if i mod 2 = 1 then hashNode sha (level ! (i - 1)) (level ! i)
      else if i + 1 < length level then hashNode sha (level ! i) (level ! (i + 1))
      else level ! i)"
proof (induction sha level arbitrary: i rule: next_level.induct)
  case (1 sha x y r)
  show ?case
  proof (cases "i < 2")
    case True
    then have "i = 0 \<or> i = 1" by auto
    then show ?thesis by auto
  next
    case False
    then obtain j where j: "i = Suc (Suc j)" by (metis Suc_diff_Suc add_2_eq_Suc le_add_diff_inverse not_less)
    have "j < length r" using "1.prems" j by simp
    from "1.IH" [OF this] show ?thesis
      using j by (cases j) (auto simp: nth_Cons')
  qed
next
  case (2 sha x)
  then show ?case by simp
qed simp

lemma fold_proof_loop:
  "idx < length level \<Longrightarrow>
     fold_proof sha (level ! idx) (proof_loop sha level idx []) = Inr (root_loop sha level)"
proof (induction "length level" arbitrary: level idx rule: less_induct)
  case less
  show ?case
  proof (cases "length level > 1")
    case False
    with less.prems have "idx = 0" by simp
    with False show ?thesis by (simp add: proof_loop.simps [of sha level] root_loop.simps [of sha level])
  next
    case True
    let ?n = "next_level sha level"
    have "length ?n < length level" "idx div 2 < length ?n" using True less.prems by auto
    note IH = less.hyps [OF this]
    have r: "root_loop sha level = root_loop sha ?n" using True by (simp add: root_loop.simps [of sha level])
    show ?thesis
    proof (cases "idx mod 2 = 1")
      case odd: True
      then have "proof_loop sha level idx []
          = \<lparr>hashHex = toHex (level ! (idx - 1)), side = SideLeft\<rparr> # proof_loop sha ?n (idx div 2) []"
        using True less.prems
        by (subst proof_loop.simps) (simp add: Let_def proof_loop_acc [of sha ?n _ "[_]"])
      then show ?thesis using IH odd by (simp add: r next_level_nth [OF less.prems])
    next
      case even: False
      show ?thesis
      proof (cases "idx + 1 < length level")
        case True
        then have "proof_loop sha level idx []
            = \<lparr>hashHex = toHex (level ! (idx + 1)), side = SideRight\<rparr> # proof_loop sha ?n (idx div 2) []"
          using \<open>length level > 1\<close> even
          by (subst proof_loop.simps) (simp add: Let_def proof_loop_acc [of sha ?n _ "[_]"])
        then show ?thesis using IH True even by (simp add: r next_level_nth [OF less.prems])
      next
        case False
        then have "proof_loop sha level idx [] = proof_loop sha ?n (idx div 2) []"
          using \<open>length level > 1\<close> even by (subst proof_loop.simps) (simp add: Let_def)
        then show ?thesis using IH False even by (simp add: r next_level_nth [OF less.prems])
      qed
    qed
  qed
qed

section \<open>Soundness\<close>

text \<open>
  The pairs of hashes that are hashed together anywhere in the tree, the preimages hashed while
  building it from the leaf data, and the preimages hashed while folding a proof.
\<close>

fun level_pairs :: "bytes list \<Rightarrow> (bytes \<times> bytes) list" where
  "level_pairs (x # y # r) = (x, y) # level_pairs r"
| "level_pairs [x] = []"
| "level_pairs [] = []"

function tree_pairs :: "(bytes \<Rightarrow> bytes) \<Rightarrow> bytes list \<Rightarrow> (bytes \<times> bytes) list" where
  "tree_pairs sha level =
     (if length level > 1 then level_pairs level @ tree_pairs sha (next_level sha level) else [])"
  by pat_completeness auto

termination
  by (relation "measure (\<lambda>(sha, level). length level)") auto

declare tree_pairs.simps [simp del]

definition tree_inputs :: "(bytes \<Rightarrow> bytes) \<Rightarrow> bytes list \<Rightarrow> bytes set" where
  "tree_inputs sha datas = (\<lambda>d. LEAF_PREFIX # d) ` set datas
     \<union> (\<lambda>(l, r). NODE_PREFIX # l @ r) ` set (tree_pairs sha (map (hashLeaf sha) datas))"

fun fold_inputs :: "(bytes \<Rightarrow> bytes) \<Rightarrow> bytes \<Rightarrow> proof_step list \<Rightarrow> bytes set" where
  "fold_inputs sha acc [] = {}"
| "fold_inputs sha acc (st # steps) =
     (case fromHex (hashHex st) of
        Inl e \<Rightarrow> {}
      | Inr sib \<Rightarrow>
          (if side st = SideLeft
           then insert (NODE_PREFIX # sib @ acc) (fold_inputs sha (hashNode sha sib acc) steps)
           else insert (NODE_PREFIX # acc @ sib) (fold_inputs sha (hashNode sha acc sib) steps)))"

definition no_collision :: "(bytes \<Rightarrow> bytes) \<Rightarrow> bytes set \<Rightarrow> bool" where
  "no_collision sha X \<longleftrightarrow> inj_on sha X"

text \<open>Every hash that occurs in the tree over a list of hashes.\<close>

definition tree_nodes :: "(bytes \<Rightarrow> bytes) \<Rightarrow> bytes list \<Rightarrow> bytes set" where
  "tree_nodes sha L = set L \<union> (\<lambda>(l, r). hashNode sha l r) ` set (tree_pairs sha L)"

lemma set_next_level:
  "set (next_level sha L) \<subseteq> set L \<union> (\<lambda>(l, r). hashNode sha l r) ` set (level_pairs L)"
  by (induction sha L rule: next_level.induct) auto

lemma set_level_pairs: "(l, r) \<in> set (level_pairs L) \<Longrightarrow> l \<in> set L \<and> r \<in> set L"
  by (induction L rule: level_pairs.induct) auto

lemma tree_nodes_next:
  assumes "length L > 1"
  shows "tree_nodes sha (next_level sha L) \<subseteq> tree_nodes sha L"
  using assms set_next_level [of sha L]
  by (auto simp: tree_nodes_def tree_pairs.simps [of sha L])

lemma root_in_tree: "L \<noteq> [] \<Longrightarrow> root_loop sha L \<in> tree_nodes sha L"
proof (induction "length L" arbitrary: L rule: less_induct)
  case less
  show ?case
  proof (cases "length L > 1")
    case True
    then have "length (next_level sha L) < length L" "next_level sha L \<noteq> []"
      by (auto simp flip: length_0_conv)
    from less.hyps [OF this] tree_nodes_next [OF True] show ?thesis
      using True by (auto simp: root_loop.simps [of sha L])
  next
    case False
    with less.prems show ?thesis by (cases L) (auto simp: root_loop.simps tree_nodes_def)
  qed
qed

lemma tree_pairs_nodes:
  "(l, r) \<in> set (tree_pairs sha L) \<Longrightarrow> l \<in> tree_nodes sha L \<and> r \<in> tree_nodes sha L"
proof (induction "length L" arbitrary: L rule: less_induct)
  case less
  show ?case
  proof (cases "length L > 1")
    case True
    then have "length (next_level sha L) < length L" by simp
    from less.hyps [OF this] tree_nodes_next [OF True, of sha]
    have "(l, r) \<in> set (tree_pairs sha (next_level sha L)) \<Longrightarrow> ?thesis" by blast
    moreover have "(l, r) \<in> set (level_pairs L) \<Longrightarrow> ?thesis"
      by (auto dest: set_level_pairs simp: tree_nodes_def)
    moreover have "(l, r) \<in> set (level_pairs L) \<union> set (tree_pairs sha (next_level sha L))"
      using less.prems True by (simp add: tree_pairs.simps [of sha L])
    ultimately show ?thesis by blast
  next
    case False
    with less.prems show ?thesis by (simp add: tree_pairs.simps [of sha L])
  qed
qed

lemma tree_nodes_cases:
  assumes "n \<in> tree_nodes sha (map (hashLeaf sha) datas)"
  obtains d where "d \<in> set datas" "n = sha (LEAF_PREFIX # d)" "LEAF_PREFIX # d \<in> tree_inputs sha datas"
  | l r where "n = sha (NODE_PREFIX # l @ r)" "NODE_PREFIX # l @ r \<in> tree_inputs sha datas"
      "l \<in> tree_nodes sha (map (hashLeaf sha) datas)" "r \<in> tree_nodes sha (map (hashLeaf sha) datas)"
proof -
  let ?L = "map (hashLeaf sha) datas"
  consider d where "d \<in> set datas" "n = hashLeaf sha d"
    | l r where "(l, r) \<in> set (tree_pairs sha ?L)" "n = hashNode sha l r"
    using assms by (auto simp: tree_nodes_def)
  then show thesis
  proof cases
    case 1
    then show thesis using that(1) by (simp add: hashLeaf_def tree_inputs_def)
  next
    case (2 l r)
    then have "NODE_PREFIX # l @ r \<in> tree_inputs sha datas" by (force simp: tree_inputs_def)
    then show thesis using that(2) tree_pairs_nodes [OF 2(1)] 2(2) by (auto simp: hashNode_def)
  qed
qed

lemma tree_nodes_length:
  assumes "\<forall>x. length (sha x) = 32" and "n \<in> tree_nodes sha (map (hashLeaf sha) datas)"
  shows "length n = 32"
  using assms(2) by (rule tree_nodes_cases) (simp_all add: assms(1))

text \<open>
  The step of the soundness proof, backwards: a folded hash that is a node of the tree can only
  come from a node of the tree.
\<close>

lemma fold_step_back:
  assumes len: "\<forall>x. length (sha x) = 32"
    and inj: "inj_on sha (tree_inputs sha datas \<union> {NODE_PREFIX # l @ r})"
    and "sha (NODE_PREFIX # l @ r) \<in> tree_nodes sha (map (hashLeaf sha) datas)"
    and "length l = 32 \<or> length r = 32"
  shows "(length l = 32 \<longrightarrow> l \<in> tree_nodes sha (map (hashLeaf sha) datas))
     \<and> (length r = 32 \<longrightarrow> r \<in> tree_nodes sha (map (hashLeaf sha) datas))"
  using assms(3)
proof (cases rule: tree_nodes_cases)
  case (1 d)
  then have "NODE_PREFIX # l @ r = LEAF_PREFIX # d" using inj by (auto dest: inj_onD)
  then show ?thesis by (simp add: NODE_PREFIX_def LEAF_PREFIX_def)
next
  case (2 l' r')
  then have e: "l @ r = l' @ r'" using inj by (auto dest: inj_onD)
  have n: "length l' = 32" "length r' = 32" using 2(3,4) tree_nodes_length [OF len] by auto
  then have "length l + length r = 64" using e by (metis length_append numeral_Bit0)
  then show ?thesis using e n 2(3,4) assms(4) by auto
qed

lemma fold_proof_back:
  assumes len: "\<forall>x. length (sha x) = 32"
    and inj: "inj_on sha (tree_inputs sha datas \<union> fold_inputs sha acc p)"
    and "fold_proof sha acc p = Inr rt" and "length acc = 32"
    and "rt \<in> tree_nodes sha (map (hashLeaf sha) datas)"
  shows "acc \<in> tree_nodes sha (map (hashLeaf sha) datas)"
  using assms
proof (induction p arbitrary: acc)
  case (Cons st p)
  let ?N = "tree_nodes sha (map (hashLeaf sha) datas)"
  from Cons.prems(3) obtain sib where s: "fromHex (hashHex st) = Inr sib"
    by (auto simp: and_then_Inr)
  define l r where "l = (if side st = SideLeft then sib else acc)"
    and "r = (if side st = SideLeft then acc else sib)"
  have f: "fold_inputs sha acc (st # p) = insert (NODE_PREFIX # l @ r) (fold_inputs sha (hashNode sha l r) p)"
    and g: "fold_proof sha (hashNode sha l r) p = Inr rt"
    using s Cons.prems(3) by (simp_all add: l_def r_def split: if_splits)
  have i: "inj_on sha (tree_inputs sha datas \<union> insert (NODE_PREFIX # l @ r) (fold_inputs sha (hashNode sha l r) p))"
    using Cons.prems(2) unfolding f .
  have "hashNode sha l r \<in> ?N"
    by (rule Cons.IH [OF len _ g _ Cons.prems(5)])
      (use i len in \<open>auto simp: hashNode_def intro: inj_on_subset\<close>)
  moreover have "inj_on sha (tree_inputs sha datas \<union> {NODE_PREFIX # l @ r})"
    using i by (rule inj_on_subset) auto
  ultimately show ?case
    using fold_step_back [OF len, of datas l r] Cons.prems(4)
    by (auto simp: hashNode_def l_def r_def split: if_splits)
qed simp

section \<open>Length of a proof\<close>

lemma length_proof_loop:
  "level \<noteq> [] \<Longrightarrow> 2 ^ length (proof_loop sha level idx []) < 2 * length level"
proof (induction "length level" arbitrary: level idx rule: less_induct)
  case less
  show ?case
  proof (cases "length level > 1")
    case False
    with less.prems show ?thesis by (simp add: proof_loop.simps [of sha level] Suc_leI flip: length_greater_0_conv)
  next
    case True
    let ?n = "next_level sha level" and ?p = "proof_loop sha (next_level sha level) (idx div 2) []"
    have "length ?n < length level" "?n \<noteq> []" using True by (auto simp flip: length_0_conv)
    from less.hyps [OF this] have p: "2 ^ length ?p < 2 * ((length level + 1) div 2)" by simp
    have "length (proof_loop sha level idx []) \<le> Suc (length ?p)"
      using True proof_loop_acc [of sha ?n _ "[_]"]
      by (subst proof_loop.simps) (simp add: Let_def)
    then have "2 ^ length (proof_loop sha level idx []) \<le> (2::nat) ^ Suc (length ?p)"
      by (rule power_increasing) simp
    moreover have "(2::nat) ^ Suc (length ?p) < 2 * length level"
    proof (cases "length ?p")
      case 0
      with True show ?thesis by simp
    next
      case (Suc k)
      then have "2 ^ length ?p = 2 * (2 ^ k :: nat)" by simp
      with p have "(2 :: nat) ^ k < (length level + 1) div 2" by simp
      then show ?thesis using Suc by simp
    qed
    ultimately show ?thesis by simp
  qed
qed

section \<open>Properties\<close>

text \<open>
  Completeness: for every index in range, \<open>merkleProof\<close> returns a proof and
  \<open>verifyMerkleProof\<close> accepts it for that leaf against the root of the list, for any hash
  function; for an index out of range it throws.
\<close>
theorem merkle_proof_accepted:
  "\<forall>i. if 0 \<le> i \<and> i < int (length hs)
       then \<exists>p. merkleProof sha hs i = Inr p
              \<and> verifyMerkleProof sha (hs ! nat i) p (toHex (merkleRoot sha hs)) = Inr True
       else \<exists>e. merkleProof sha hs i = Inl e"
proof
  fix i :: int
  show "if 0 \<le> i \<and> i < int (length hs)
       then \<exists>p. merkleProof sha hs i = Inr p
              \<and> verifyMerkleProof sha (hs ! nat i) p (toHex (merkleRoot sha hs)) = Inr True
       else \<exists>e. merkleProof sha hs i = Inl e"
  proof (cases "0 \<le> i \<and> i < int (length hs)")
    case True
    then have "nat i < length hs" "hs \<noteq> []" by auto
    then show ?thesis
      using True fold_proof_loop [of "nat i" hs sha]
      by (simp add: merkleProof_def verifyMerkleProof_def merkleRoot_def)
  qed (auto simp: merkleProof_def)
qed

text \<open>
  Soundness: if a proof verifies for a leaf datum against the root of a non-empty tree, the
  datum is one of the tree's leaves. \<open>sha\<close> has 32-byte outputs and does not collide on the byte
  strings that were hashed for this tree, this leaf and this proof; the proof is arbitrary.
\<close>
theorem merkle_proof_sound:
  assumes "\<forall>x. length (sha x) = 32"
    and "no_collision sha (tree_inputs sha datas \<union> {LEAF_PREFIX # d} \<union> fold_inputs sha (hashLeaf sha d) p)"
    and "datas \<noteq> []"
    and "verifyMerkleProof sha (hashLeaf sha d) p (toHex (merkleRoot sha (map (hashLeaf sha) datas))) = Inr True"
  shows "d \<in> set datas"
proof -
  let ?L = "map (hashLeaf sha) datas"
  have inj: "inj_on sha (tree_inputs sha datas \<union> {LEAF_PREFIX # d} \<union> fold_inputs sha (hashLeaf sha d) p)"
    using assms(2) by (simp add: no_collision_def)
  have "fold_proof sha (hashLeaf sha d) p = Inr (root_loop sha ?L)"
    using assms(3,4) by (auto simp: verifyMerkleProof_def merkleRoot_def and_then_Inr)
  moreover have "root_loop sha ?L \<in> tree_nodes sha ?L" using assms(3) by (intro root_in_tree) simp
  moreover have "inj_on sha (tree_inputs sha datas \<union> fold_inputs sha (hashLeaf sha d) p)"
    using inj by (rule inj_on_subset) auto
  ultimately have "hashLeaf sha d \<in> tree_nodes sha ?L"
    using fold_proof_back [OF assms(1)] assms(1) by (simp add: hashLeaf_def)
  then show ?thesis
  proof (cases rule: tree_nodes_cases)
    case (1 d')
    then have "sha (LEAF_PREFIX # d) = sha (LEAF_PREFIX # d')" by (simp add: hashLeaf_def)
    then have "LEAF_PREFIX # d = LEAF_PREFIX # d'" by (rule inj_onD [OF inj]) (use 1(3) in simp_all)
    with 1 show ?thesis by simp
  next
    case (2 l r)
    then have "sha (LEAF_PREFIX # d) = sha (NODE_PREFIX # l @ r)" by (simp add: hashLeaf_def)
    then have "LEAF_PREFIX # d = NODE_PREFIX # l @ r"
      by (rule inj_onD [OF inj]) (use 2(2) in simp_all)
    then show ?thesis by (simp add: LEAF_PREFIX_def NODE_PREFIX_def)
  qed
qed

text \<open>A 32-byte hash that is injective on the short inputs of the witness.\<close>

definition demo_hash :: "bytes \<Rightarrow> bytes" where
  "demo_hash x = take 32 (of_nat (length x) # rev (take 31 (rev x)) @ replicate 31 0)"

theorem merkle_proof_sound_witness:
  "[2] \<in> set [[1], [2 :: byte]]"
proof (rule merkle_proof_sound [where sha = demo_hash
      and p = "[\<lparr>hashHex = toHex (hashLeaf demo_hash [1]), side = SideLeft\<rparr>]"])
  show "\<forall>x. length (demo_hash x) = 32" by (simp add: demo_hash_def)
  have n: "fold_inputs demo_hash (hashLeaf demo_hash [2])
      [\<lparr>hashHex = toHex (hashLeaf demo_hash [1]), side = SideLeft\<rparr>]
      = {NODE_PREFIX # hashLeaf demo_hash [1] @ hashLeaf demo_hash [2]}" by simp
  have t: "tree_inputs demo_hash [[1], [2]]
     = {LEAF_PREFIX # [1], LEAF_PREFIX # [2], NODE_PREFIX # hashLeaf demo_hash [1] @ hashLeaf demo_hash [2]}"
    by (auto simp: tree_inputs_def tree_pairs.simps)
  have ls: "length (hashLeaf demo_hash x) = 32" for x by (simp add: hashLeaf_def demo_hash_def)
  show "no_collision demo_hash (tree_inputs demo_hash [[1], [2]] \<union> {LEAF_PREFIX # [2]} \<union>
     fold_inputs demo_hash (hashLeaf demo_hash [2])
      [\<lparr>hashHex = toHex (hashLeaf demo_hash [1]), side = SideLeft\<rparr>])"
    unfolding n t no_collision_def
    by (auto simp: inj_on_def demo_hash_def LEAF_PREFIX_def NODE_PREFIX_def hashLeaf_def)
  show "verifyMerkleProof demo_hash (hashLeaf demo_hash [2])
      [\<lparr>hashHex = toHex (hashLeaf demo_hash [1]), side = SideLeft\<rparr>]
      (toHex (merkleRoot demo_hash (map (hashLeaf demo_hash) [[1], [2]]))) = Inr True"
    by (simp add: verifyMerkleProof_def merkleRoot_def root_loop.simps)
qed simp

text \<open>
  A proof is short: for a tree of n leaves it has fewer than log2 (2 n) steps, so at most
  the height of the tree.
\<close>
theorem merkle_proof_length:
  assumes "merkleProof sha hs i = Inr p"
  shows "2 ^ length p < 2 * length hs"
  using assms length_proof_loop [of hs sha "nat i"]
  by (cases hs) (auto simp: merkleProof_def split: if_splits)

theorem merkle_proof_length_witness:
  "\<exists>p. merkleProof (\<lambda>x. x) [[1], [2], [3 :: byte]] 0 = Inr p \<and> 2 ^ length p < (6 :: nat)"
proof -
  obtain p where "merkleProof (\<lambda>x. x) [[1], [2], [3 :: byte]] 0 = Inr p"
    by (simp add: merkleProof_def)
  with merkle_proof_length [OF this] show ?thesis by auto
qed

end
