(* ===== verification/Key_Handling.thy ===== *)
theory Key_Handling
  imports Complex_Main Dispatch_Worker Attestor "HOL-Library.Signed_Division"
begin

text \<open>
  Keys at rest and in the processes: the sealed envelope (\<open>dispatch/crypto-box.ts\<close>), the custody
  back ends (\<open>dispatch/signer.ts\<close>), the keys of the transparency layer (\<open>transparency/keys.ts\<close>) and
  the configuration of the dispatch worker (\<open>dispatch/dispatch-config.ts\<close>). \<open>scrypt\<close>, AES-256-GCM
  and the key pairs of \<open>@solana/kit\<close> are parameters; a file is what the code reads from it. A dash
  outside Latin-1 in an error text is a hyphen here.
\<close>

section \<open>The sealed envelope\<close>

definition SCRYPT_N :: nat where "SCRYPT_N = 131072"
definition SCRYPT_R :: nat where "SCRYPT_R = 8"
definition SCRYPT_P :: nat where "SCRYPT_P = 1"
definition BOX_IV_LEN :: nat where "BOX_IV_LEN = 12"
definition BOX_SALT_LEN :: nat where "BOX_SALT_LEN = 16"
definition TAG_LEN :: nat where "TAG_LEN = 16"
definition MIN_KEK_LENGTH :: nat where "MIN_KEK_LENGTH = 24"
definition MIN_KEK_ENTROPY_BITS :: real where "MIN_KEK_ENTROPY_BITS = 80"

text \<open>
  \<open>bp_scrypt\<close> takes password, salt, N, r, p and gives 32 bytes; \<open>bp_seal\<close> takes key, nonce and
  plaintext and gives ciphertext and tag; \<open>bp_open\<close> is \<open>update\<close> and \<open>final\<close>, which throw on a bad tag.
\<close>

record box_prims =
  bp_scrypt :: "bytes \<Rightarrow> bytes \<Rightarrow> nat \<Rightarrow> nat \<Rightarrow> nat \<Rightarrow> string + bytes"
  bp_seal :: "bytes \<Rightarrow> bytes \<Rightarrow> bytes \<Rightarrow> bytes \<times> bytes"
  bp_open :: "bytes \<Rightarrow> bytes \<Rightarrow> bytes \<Rightarrow> bytes \<Rightarrow> bytes option"

text \<open>Shannon entropy over the characters of the string itself, in exact reals.\<close>

definition estimateEntropyBits :: "string \<Rightarrow> real" where
  "estimateEntropyBits s =
     (if length s = 0 then 0
      else sum_list (map (\<lambda>c. let p = real (count_list s c) / real (length s) in - (p * log 2 p)) (remdups s))
             * real (length s))"

datatype kek_error = KekTooShort | KekLowEntropy real

datatype box_error = BoxText string | BoxKek kek_error

definition assertStrongKek :: "string \<Rightarrow> box_error + unit" where
  "assertStrongKek passphrase =
     (if length passphrase < MIN_KEK_LENGTH then Inl (BoxKek KekTooShort)
      else let bits = estimateEntropyBits passphrase in
        if bits < MIN_KEK_ENTROPY_BITS then Inl (BoxKek (KekLowEntropy bits)) else Inr ())"

record sealed_key =
  sk_v :: int
  sk_kdf :: string
  sk_n :: nat
  sk_r :: nat
  sk_p :: nat
  sk_salt :: string
  sk_iv :: string
  sk_ct :: string

text \<open>Standard base64 with padding; \<open>Buffer.from(s, "base64")\<close> reads both alphabets.\<close>

definition b64_std_char :: "char \<Rightarrow> char" where
  "b64_std_char c = (if c = CHR ''-'' then CHR ''+'' else if c = CHR ''_'' then CHR ''/'' else c)"

definition b64_encode :: "bytes \<Rightarrow> string" where
  "b64_encode bs = map b64_std_char (b64url_encode bs) @ replicate ((3 - length bs mod 3) mod 3) CHR ''=''"

definition text_error :: "string + 'a \<Rightarrow> box_error + 'a" where
  "text_error r = (case r of Inl e \<Rightarrow> Inl (BoxText e) | Inr x \<Rightarrow> Inr x)"

definition deriveKey :: "box_prims \<Rightarrow> string \<Rightarrow> bytes \<Rightarrow> nat \<Rightarrow> nat \<Rightarrow> nat \<Rightarrow> box_error + bytes" where
  "deriveKey B passphrase salt n r p = text_error (bp_scrypt B (utf8_encode passphrase) salt n r p)"

text \<open>\<open>salt\<close> and \<open>iv\<close> are what \<open>randomBytes\<close> returned.\<close>

definition sealSecret :: "box_prims \<Rightarrow> bytes \<Rightarrow> bytes \<Rightarrow> bytes \<Rightarrow> string \<Rightarrow> box_error + sealed_key" where
  "sealSecret B salt iv seed passphrase =
     (if length seed \<noteq> 32 then Inl (BoxText (''treasury seed must be 32 bytes, got '' @ dec_nat (length seed)))
      else and_then (assertStrongKek passphrase) (\<lambda>_.
        and_then (deriveKey B passphrase salt SCRYPT_N SCRYPT_R SCRYPT_P) (\<lambda>key.
          let (ct, tag) = bp_seal B key iv seed in
          Inr \<lparr>sk_v = 1, sk_kdf = ''scrypt'', sk_n = SCRYPT_N, sk_r = SCRYPT_R, sk_p = SCRYPT_P,
               sk_salt = b64_encode salt, sk_iv = b64_encode iv, sk_ct = b64_encode (ct @ tag)\<rparr>)))"

definition openSecret :: "box_prims \<Rightarrow> sealed_key \<Rightarrow> string \<Rightarrow> box_error + bytes" where
  "openSecret B sealed passphrase =
     (if sk_v sealed \<noteq> 1 \<or> sk_kdf sealed \<noteq> ''scrypt''
      then Inl (BoxText (''unsupported sealed-key format v='' @ dec_int (sk_v sealed) @ '' kdf='' @ sk_kdf sealed))
      else let salt = b64url_decode (sk_salt sealed); iv = b64url_decode (sk_iv sealed);
               blob = b64url_decode (sk_ct sealed) in
        if length blob < TAG_LEN + 1 then Inl (BoxText ''sealed ciphertext too short'')
        else let ct = take (length blob - TAG_LEN) blob; tag = drop (length blob - TAG_LEN) blob in
          and_then (deriveKey B passphrase salt (sk_n sealed) (sk_r sealed) (sk_p sealed)) (\<lambda>key.
            if iv = [] then Inl (BoxText ''Invalid initialization vector'')
            else case bp_open B key iv ct tag of
              None \<Rightarrow> Inl (BoxText ''failed to open sealed treasury key (bad passphrase or corrupt blob)'')
            | Some seed \<Rightarrow>
                if length seed \<noteq> 32
                then Inl (BoxText (''decrypted treasury seed must be 32 bytes, got '' @ dec_nat (length seed)))
                else Inr seed))"

definition reseal :: "box_prims \<Rightarrow> bytes \<Rightarrow> bytes \<Rightarrow> sealed_key \<Rightarrow> string \<Rightarrow> string \<Rightarrow> box_error + sealed_key" where
  "reseal B salt iv sealed oldPassphrase newPassphrase =
     and_then (openSecret B sealed oldPassphrase) (\<lambda>seed. sealSecret B salt iv seed newPassphrase)"

definition secretsEqual :: "bytes \<Rightarrow> bytes \<Rightarrow> bool" where
  "secretsEqual a b = (if length a \<noteq> length b then False else a = b)"

section \<open>Custody back ends\<close>

text \<open>
  The signers of \<open>@solana/kit\<close>: \<open>kp_signer\<close> is \<open>createKeyPairSignerFromPrivateKeyBytes\<close>. An encrypted
  signer caches the unlocked key; the two remote back ends are sketches that throw.
\<close>

record 's key_prims =
  kp_box :: box_prims
  kp_signer :: "bytes \<Rightarrow> string + 's"
  kp_address :: "'s \<Rightarrow> string"

datatype 's dispenser_signer =
    EncryptedKeypairSigner signer_role string sealed_key string "'s option"
  | InMemoryKeypairSigner signer_role 's
  | KmsSigner signer_role string string
  | SquadsSigner signer_role string string

fun signer_address :: "'s key_prims \<Rightarrow> 's dispenser_signer \<Rightarrow> string" where
  "signer_address K (EncryptedKeypairSigner role addr sealed pass cached) = addr"
| "signer_address K (InMemoryKeypairSigner role s) = kp_address K s"
| "signer_address K (KmsSigner role addr keyId) = addr"
| "signer_address K (SquadsSigner role addr multisig) = addr"

fun dispenser_role :: "'s dispenser_signer \<Rightarrow> signer_role" where
  "dispenser_role (EncryptedKeypairSigner role addr sealed pass cached) = role"
| "dispenser_role (InMemoryKeypairSigner role s) = role"
| "dispenser_role (KmsSigner role addr keyId) = role"
| "dispenser_role (SquadsSigner role addr multisig) = role"

definition unlock :: "'s key_prims \<Rightarrow> sealed_key \<Rightarrow> string \<Rightarrow> box_error + 's" where
  "unlock K sealed passphrase =
     and_then (openSecret (kp_box K) sealed passphrase) (\<lambda>seed. text_error (kp_signer K seed))"

definition encrypted_load :: "'s key_prims \<Rightarrow> signer_role \<Rightarrow> sealed_key \<Rightarrow> string \<Rightarrow> box_error + 's dispenser_signer" where
  "encrypted_load K role sealed passphrase =
     and_then (unlock K sealed passphrase) (\<lambda>signer.
       Inr (EncryptedKeypairSigner role (kp_address K signer) sealed passphrase (Some signer)))"

definition inmemory_fromSeed :: "'s key_prims \<Rightarrow> signer_role \<Rightarrow> bytes \<Rightarrow> box_error + 's dispenser_signer" where
  "inmemory_fromSeed K role seed =
     (if length seed \<noteq> 32 then Inl (BoxText (''seed must be 32 bytes, got '' @ dec_nat (length seed)))
      else and_then (text_error (kp_signer K seed)) (\<lambda>signer. Inr (InMemoryKeypairSigner role signer)))"

text \<open>\<open>getSigner\<close> returns the signer and the object after the call.\<close>

fun getSigner :: "'s key_prims \<Rightarrow> 's dispenser_signer \<Rightarrow> (box_error + 's) \<times> 's dispenser_signer" where
  "getSigner K (EncryptedKeypairSigner role addr sealed pass (Some s)) =
     (Inr s, EncryptedKeypairSigner role addr sealed pass (Some s))"
| "getSigner K (EncryptedKeypairSigner role addr sealed pass None) =
     (case unlock K sealed pass of
        Inl e \<Rightarrow> (Inl e, EncryptedKeypairSigner role addr sealed pass None)
      | Inr s \<Rightarrow> (Inr s, EncryptedKeypairSigner role addr sealed pass (Some s)))"
| "getSigner K (InMemoryKeypairSigner role s) = (Inr s, InMemoryKeypairSigner role s)"
| "getSigner K (KmsSigner role addr keyId) =
     (Inl (BoxText (''KmsSigner not implemented (keyId='' @ keyId @ ''); provide a KMS-delegating TransactionSigner'')),
      KmsSigner role addr keyId)"
| "getSigner K (SquadsSigner role addr multisig) =
     (Inl (BoxText (''SquadsSigner not implemented (multisig='' @ multisig @ ''); wire the Squads propose/execute flow'')),
      SquadsSigner role addr multisig)"

text \<open>What the worker sees of a signer.\<close>

definition dispenser_of :: "'s key_prims \<Rightarrow> 's dispenser_signer \<Rightarrow> dispenser" where
  "dispenser_of K S = \<lparr>ds_address = signer_address K S, ds_role = dispenser_role S,
     ds_unlock = (case fst (getSigner K S) of Inl (BoxText e) \<Rightarrow> Inl e | Inl (BoxKek k) \<Rightarrow> Inl [] | Inr s \<Rightarrow> Inr ())\<rparr>"

section \<open>Keys of the transparency layer\<close>

datatype transparency_role = RoleAudit | RolePublisher

fun transparency_role_str :: "transparency_role \<Rightarrow> string" where
  "transparency_role_str RoleAudit = ''audit''"
| "transparency_role_str RolePublisher = ''publisher''"

record transparency_keypair =
  tk_role :: transparency_role
  tk_secretKey :: bytes
  tk_publicKey :: bytes

definition keypairFromSeed :: "ed25519 \<Rightarrow> transparency_role \<Rightarrow> bytes \<Rightarrow> box_error + transparency_keypair" where
  "keypairFromSeed ed role seed =
     (if length seed \<noteq> 32
      then Inl (BoxText (transparency_role_str role @ '' seed must be 32 bytes, got '' @ dec_nat (length seed)))
      else Inr \<lparr>tk_role = role, tk_secretKey = seed, tk_publicKey = ed_getPublicKey ed seed\<rparr>)"

text \<open>The method \<open>sign\<close> of a key pair.\<close>

definition keypair_sign :: "ed25519 \<Rightarrow> transparency_keypair \<Rightarrow> bytes \<Rightarrow> bytes" where
  "keypair_sign ed kp message = ed_sign ed message (tk_secretKey kp)"

fun ENV_PREFIX :: "transparency_role \<Rightarrow> string" where
  "ENV_PREFIX RoleAudit = ''AUDIT''"
| "ENV_PREFIX RolePublisher = ''LEDGER_PUBLISHER''"

text \<open>The files of a host: sealed keys, and key pairs of the Solana tools (\<open>None\<close>: not an array).\<close>

record key_files =
  kf_sealed :: "string \<Rightarrow> string + sealed_key"
  kf_keypair :: "string \<Rightarrow> string + int list option"

definition loadTransparencySeed ::
  "box_prims \<Rightarrow> key_files \<Rightarrow> transparency_role \<Rightarrow> env \<Rightarrow> box_error + bytes option" where
  "loadTransparencySeed B F role env =
     (let prefix = ENV_PREFIX role;
          sealedPath = env (prefix @ ''_KEY_SEALED_PATH''); passphrase = env (prefix @ ''_KEY_PASSPHRASE'') in
      if truthy sealedPath \<and> truthy passphrase
      then and_then (text_error (kf_sealed F (the sealedPath))) (\<lambda>sealed.
             and_then (openSecret B sealed (the passphrase)) (\<lambda>seed. Inr (Some seed)))
      else let seedB64 = env (prefix @ ''_SEED_BASE64'') in
        if truthy seedB64
        then (let seed = b64url_decode (the seedB64) in
              if length seed \<noteq> 32
              then Inl (BoxText (prefix @ ''_SEED_BASE64 must decode to 32 bytes, got '' @ dec_nat (length seed)))
              else Inr (Some seed))
        else Inr None)"

definition loadTransparencyKeypair ::
  "ed25519 \<Rightarrow> box_prims \<Rightarrow> key_files \<Rightarrow> transparency_role \<Rightarrow> env \<Rightarrow> box_error + transparency_keypair option" where
  "loadTransparencyKeypair ed B F role env =
     and_then (loadTransparencySeed B F role env) (\<lambda>seed. case seed of
         None \<Rightarrow> Inr None
       | Some s \<Rightarrow> and_then (keypairFromSeed ed role s) (\<lambda>kp. Inr (Some kp)))"

record labelled =
  lb_label :: string
  lb_address :: string

definition loadReservedAddresses :: "(bytes \<Rightarrow> string) \<Rightarrow> env \<Rightarrow> labelled list" where
  "loadReservedAddresses b58 env =
     (if truthy (env ''TREASURY_ADDRESS'')
      then [\<lparr>lb_label = ''treasury'', lb_address = the (env ''TREASURY_ADDRESS'')\<rparr>] else [])
     @ (if truthy (env ''ATTESTOR_PUBKEY_BASE58'')
        then [\<lparr>lb_label = ''attestor'', lb_address = the (env ''ATTESTOR_PUBKEY_BASE58'')\<rparr>]
        else if truthy (env ''ATTESTOR_PUBKEY_HEX'')
        then [\<lparr>lb_label = ''attestor'', lb_address = b58 (hex_bytes (the (env ''ATTESTOR_PUBKEY_HEX'')))\<rparr>]
        else [])"

definition transparencyAddress :: "(bytes \<Rightarrow> string) \<Rightarrow> transparency_keypair \<Rightarrow> string" where
  "transparencyAddress b58 kp = b58 (tk_publicKey kp)"

definition assertTransparencyKeysSeparable :: "transparency_keypair \<Rightarrow> transparency_keypair \<Rightarrow> string + unit" where
  "assertTransparencyKeysSeparable audit publisher =
     (if tk_publicKey audit = tk_publicKey publisher
      then Inl ''audit key and publisher key must be different Ed25519 keys'' else Inr ())"

text \<open>\<open>seen\<close> maps an address to the label that holds it; an empty label would not count as a clash.\<close>

definition seen_reserved :: "labelled list \<Rightarrow> string \<rightharpoonup> string" where
  "seen_reserved reserved =
     fold (\<lambda>r m. if lb_address r = [] then m else m(lb_address r \<mapsto> lb_label r)) reserved Map.empty"

definition distinct_key :: "(bytes \<Rightarrow> string) \<Rightarrow> transparency_keypair \<Rightarrow> (string \<rightharpoonup> string) \<Rightarrow> string + (string \<rightharpoonup> string)" where
  "distinct_key b58 k seen =
     (let addr = transparencyAddress b58 k; clash = seen addr in
      if truthy clash
      then Inl (''transparency '' @ transparency_role_str (tk_role k) @ '' key reuses the '' @ the clash @ '' key ('' @ addr
         @ ''); the audit + publisher keys must be separate from the treasury and attestor keys'')
      else Inr (seen(addr \<mapsto> ''transparency:'' @ transparency_role_str (tk_role k))))"

definition assertTransparencyKeysDistinct ::
  "(bytes \<Rightarrow> string) \<Rightarrow> transparency_keypair list \<Rightarrow> labelled list \<Rightarrow> string + unit" where
  "assertTransparencyKeysDistinct b58 keys reserved =
     and_then (fold_result (distinct_key b58) keys (seen_reserved reserved)) (\<lambda>_. Inr ())"

section \<open>Configuration of the dispatch worker\<close>

definition ONE_TOKEN_CONFIG :: int where "ONE_TOKEN_CONFIG = 1000000"

text \<open>\<open>parseInt\<close> may give \<open>NaN\<close> (\<open>None\<close>), which \<open>Math.max\<close> passes on.\<close>

record dispatch_config =
  dc_mint :: string
  dc_arioCoreProgram :: "string option"
  dc_floatPolicy :: float_policy
  dc_minVaultDuration :: int
  dc_maxVaultDuration :: int
  dc_antRequiresApproval :: bool
  dc_pollIntervalMs :: "int option"
  dc_monitorIntervalMs :: "int option"
  dc_confirmRpcUrl :: string

text \<open>\<open>lastMonitorAt\<close> is \<open>None\<close> for the worker's initial minus infinity.\<close>

definition shouldMonitor :: "int \<Rightarrow> int option \<Rightarrow> int \<Rightarrow> bool \<Rightarrow> bool" where
  "shouldMonitor now lastMonitorAt monitorIntervalMs once =
     (if once then True
      else case lastMonitorAt of None \<Rightarrow> True | Some t \<Rightarrow> now - t \<ge> monitorIntervalMs)"

definition bigint_of :: "string \<Rightarrow> string + int" where
  "bigint_of s = (case js_BigInt s of None \<Rightarrow> Inl (''Cannot convert '' @ s @ '' to a BigInt'') | Some i \<Rightarrow> Inr i)"

definition floatPolicyFromEnv :: "int \<Rightarrow> env \<Rightarrow> string + float_policy" where
  "floatPolicyFromEnv bigClaimThresholdMario env =
     and_then (bigint_of (env_or env ''HOT_FLOAT_CAP_MARIO'' (dec_int (500000 * ONE_TOKEN_CONFIG)))) (\<lambda>capMario.
     and_then (bigint_of (env_or env ''FLOAT_REFILL_THRESHOLD_MARIO'' (dec_int (capMario sdiv 5)))) (\<lambda>refill.
     Inr \<lparr>fp_capMario = capMario, fp_bigClaimThresholdMario = bigClaimThresholdMario,
          fp_refillThresholdMario = refill\<rparr>))"

definition nan_max :: "int option \<Rightarrow> int option \<Rightarrow> int option" where
  "nan_max a b = (case (a, b) of (Some x, Some y) \<Rightarrow> Some (max x y) | _ \<Rightarrow> None)"

text \<open>\<open>addr\<close> is the kit's \<open>address\<close>, which throws on a string that is no address.\<close>

definition loadDispatchConfig :: "(string \<Rightarrow> string + string) \<Rightarrow> int \<Rightarrow> env \<Rightarrow> string + dispatch_config" where
  "loadDispatchConfig addr bigClaimThresholdMario env =
     (if \<not> truthy (env ''ARIO_MINT'') then Inl ''ARIO_MINT is required for the dispatch worker''
      else and_then (addr (the (env ''ARIO_MINT''))) (\<lambda>mint.
        and_then (if truthy (env ''ARIO_CORE_PROGRAM'')
                  then and_then (addr (the (env ''ARIO_CORE_PROGRAM''))) (\<lambda>a. Inr (Some a)) else Inr None) (\<lambda>arioCoreProgram.
        and_then (floatPolicyFromEnv bigClaimThresholdMario env) (\<lambda>floatPolicy.
        and_then (bigint_of (env_or env ''VAULT_MIN_DURATION_SECONDS'' (dec_int (14 * 86400)))) (\<lambda>minV.
        and_then (bigint_of (env_or env ''VAULT_MAX_DURATION_SECONDS'' (dec_int (365 * 86400)))) (\<lambda>maxV.
        let poll = parse_int10 (env_or env ''DISPATCH_POLL_INTERVAL_MS'' ''5000'') in
        Inr \<lparr>dc_mint = mint, dc_arioCoreProgram = arioCoreProgram, dc_floatPolicy = floatPolicy,
             dc_minVaultDuration = minV, dc_maxVaultDuration = maxV,
             dc_antRequiresApproval = (env_or env ''ANT_REQUIRES_APPROVAL'' ''true'' \<noteq> ''false''),
             dc_pollIntervalMs = poll,
             dc_monitorIntervalMs = nan_max poll (parse_int10 (env_or env ''DISPATCH_MONITOR_INTERVAL_MS'' ''60000'')),
             dc_confirmRpcUrl = (case env ''CONFIRM_RPC_URL'' of Some u \<Rightarrow> u
               | None \<Rightarrow> env_or env ''SOLANA_RPC_URL'' ''http://127.0.0.1:8899'')\<rparr>))))))"

section \<open>Loading the signers\<close>

definition loadSigner ::
  "'s key_prims \<Rightarrow> key_files \<Rightarrow> signer_role \<Rightarrow> env \<Rightarrow> box_error + 's dispenser_signer option" where
  "loadSigner K F role env =
     (let prefix = (if role = RoleToken then ''TREASURY'' else ''ANT_SIGNER'');
          sealedPath = env (prefix @ ''_KEY_SEALED_PATH''); passphrase = env (prefix @ ''_KEY_PASSPHRASE'') in
      if truthy sealedPath \<and> truthy passphrase
      then and_then (text_error (kf_sealed F (the sealedPath))) (\<lambda>sealed.
             and_then (encrypted_load K role sealed (the passphrase)) (\<lambda>s. Inr (Some s)))
      else let seedB64 = env (prefix @ ''_SEED_BASE64'') in
        if truthy seedB64
        then and_then (inmemory_fromSeed K role (b64url_decode (the seedB64))) (\<lambda>s. Inr (Some s))
        else Inr None)"

definition loadSignerRegistry ::
  "'s key_prims \<Rightarrow> key_files \<Rightarrow> env \<Rightarrow> box_error + 's dispenser_signer \<times> 's dispenser_signer option" where
  "loadSignerRegistry K F env =
     and_then (loadSigner K F RoleToken env) (\<lambda>token'. case token' of
         None \<Rightarrow> Inl (BoxText ''no treasury (token) signer configured - set TREASURY_KEY_SEALED_PATH + TREASURY_KEY_PASSPHRASE'')
       | Some token \<Rightarrow>
           let expected = map_option js_trim (env ''TREASURY_ADDRESS'') in
           if truthy expected \<and> signer_address K token \<noteq> the expected
           then Inl (BoxText (''treasury signer address '' @ signer_address K token
             @ '' does NOT equal the configured TREASURY_ADDRESS '' @ the expected
             @ '' - the unsealed key does not control the funding address. Refusing to start (would dispense from / report reserves on mismatched accounts).''))
           else and_then (loadSigner K F RoleAnt env) (\<lambda>ant. Inr (token, ant)))"

definition loadColdAntSigner :: "'s key_prims \<Rightarrow> key_files \<Rightarrow> env \<Rightarrow> box_error + 's dispenser_signer" where
  "loadColdAntSigner K F env =
     (let sealedPath = env ''ANT_COLD_KEY_SEALED_PATH''; passphrase = env ''ANT_COLD_KEY_PASSPHRASE'' in
      if truthy sealedPath \<and> truthy passphrase
      then and_then (text_error (kf_sealed F (the sealedPath))) (\<lambda>sealed. encrypted_load K RoleAnt sealed (the passphrase))
      else let keypairPath = env ''ANT_COLD_KEYPAIR_PATH'' in
        if truthy keypairPath
        then and_then (text_error (kf_keypair F (the keypairPath))) (\<lambda>arr'. case arr' of
            None \<Rightarrow> Inl (BoxText (the keypairPath @ '' is not a Solana keypair JSON (>=32 byte array)''))
          | Some arr \<Rightarrow>
              if length arr < 32
              then Inl (BoxText (the keypairPath @ '' is not a Solana keypair JSON (>=32 byte array)''))
              else inmemory_fromSeed K RoleAnt (map of_int (take 32 arr)))
        else Inl (BoxText ''no cold ANT signer: set ANT_COLD_KEY_SEALED_PATH + ANT_COLD_KEY_PASSPHRASE, or ANT_COLD_KEYPAIR_PATH''))"

section \<open>Sealing and opening\<close>

lemma b64_std_value [simp]: "b64_value (b64_std_char c) = b64_value c"
  by (auto simp: b64_std_char_def b64_value_def)

lemma b64_pad_value: "b64_value CHR ''='' = None"
  by (simp add: b64_value_def)

lemma b64_decode_encode [simp]: "b64url_decode (b64_encode bs) = bs"
proof -
  have "List.map_filter b64_value (b64_encode bs) = List.map_filter b64_value (b64url_encode bs)"
    by (simp add: b64_encode_def map_filter_def b64_pad_value filter_map comp_def)
  then show ?thesis using b64url_decode_encode [of bs] by (simp add: b64url_decode_def)
qed

text \<open>
  What sealing relies on of AES-256-GCM: a 16-byte tag, and opening what was sealed under the same
  key and nonce gives the plaintext.
\<close>

locale authenticated_box =
  fixes seal :: "bytes \<Rightarrow> bytes \<Rightarrow> bytes \<Rightarrow> bytes \<times> bytes"
    and opn :: "bytes \<Rightarrow> bytes \<Rightarrow> bytes \<Rightarrow> bytes \<Rightarrow> bytes option"
  assumes tag_length: "length (snd (seal k iv p)) = 16"
    and ct_length: "length (fst (seal k iv p)) = length p"
    and open_seal: "opn k iv (fst (seal k iv p)) (snd (seal k iv p)) = Some p"
begin

lemma split_blob:
  assumes "seal k iv p = (ct, tag)"
  shows "length ct = length p" "length tag = 16" "opn k iv ct tag = Some p"
  using assms tag_length [of k iv p] ct_length [of k iv p] open_seal [of k iv p] by simp_all

end

abbreviation box_laws :: "box_prims \<Rightarrow> bool" where
  "box_laws B \<equiv> authenticated_box (bp_seal B) (bp_open B)"

lemma sealSecret_Inr:
  assumes "sealSecret B salt iv seed pass = Inr env"
  obtains key ct tag where "length seed = 32" "assertStrongKek pass = Inr ()"
    "deriveKey B pass salt SCRYPT_N SCRYPT_R SCRYPT_P = Inr key" "bp_seal B key iv seed = (ct, tag)"
    "env = \<lparr>sk_v = 1, sk_kdf = ''scrypt'', sk_n = SCRYPT_N, sk_r = SCRYPT_R, sk_p = SCRYPT_P,
       sk_salt = b64_encode salt, sk_iv = b64_encode iv, sk_ct = b64_encode (ct @ tag)\<rparr>"
proof -
  obtain key where k: "length seed = 32" "assertStrongKek pass = Inr ()"
    "deriveKey B pass salt SCRYPT_N SCRYPT_R SCRYPT_P = Inr key"
    using assms by (auto simp: sealSecret_def and_then_Inr split: if_splits)
  then show thesis using assms that by (cases "bp_seal B key iv seed") (simp add: sealSecret_def)
qed

lemma open_sealed:
  assumes "box_laws B" and "iv \<noteq> []" and "sealSecret B salt iv seed pass = Inr env"
  shows "openSecret B env pass = Inr seed"
proof -
  obtain key ct tag where s: "length seed = 32" "deriveKey B pass salt SCRYPT_N SCRYPT_R SCRYPT_P = Inr key"
    "bp_seal B key iv seed = (ct, tag)"
    "env = \<lparr>sk_v = 1, sk_kdf = ''scrypt'', sk_n = SCRYPT_N, sk_r = SCRYPT_R, sk_p = SCRYPT_P,
       sk_salt = b64_encode salt, sk_iv = b64_encode iv, sk_ct = b64_encode (ct @ tag)\<rparr>"
    by (rule sealSecret_Inr [OF assms(3)])
  then show ?thesis
    using authenticated_box.split_blob [OF assms(1) s(3)] assms(2) by (simp add: openSecret_def TAG_LEN_def Let_def)
qed

lemma strong_kek: "assertStrongKek pass = Inr () \<Longrightarrow> 24 \<le> length pass \<and> 80 \<le> estimateEntropyBits pass"
  by (auto simp: assertStrongKek_def MIN_KEK_LENGTH_def MIN_KEK_ENTROPY_BITS_def Let_def split: if_splits)

text \<open>
  A sealed seed is opened again by its passphrase, and only 32-byte seeds under passphrases of at
  least 24 characters and 80 bits are ever sealed; re-sealing under a new passphrase keeps the seed
  and applies the same conditions. Relied on: the laws of AES-256-GCM, and a nonce that is not empty.
\<close>

theorem sealed_key_opens:
  assumes "box_laws B" and "iv \<noteq> []" and "sealSecret B salt iv seed pass = Inr env"
  shows "openSecret B env pass = Inr seed \<and> length seed = 32
     \<and> 24 \<le> length pass \<and> 80 \<le> estimateEntropyBits pass
     \<and> (\<forall>salt' iv' pass'. iv' \<noteq> [] \<longrightarrow>
          (case reseal B salt' iv' env pass pass' of
             Inl e \<Rightarrow> \<not> (24 \<le> length pass' \<and> 80 \<le> estimateEntropyBits pass')
               \<or> isl (deriveKey B pass' salt' SCRYPT_N SCRYPT_R SCRYPT_P)
           | Inr env' \<Rightarrow> openSecret B env' pass' = Inr seed))"
proof -
  have op: "openSecret B env pass = Inr seed" by (rule open_sealed [OF assms])
  have facts: "length seed = 32" "assertStrongKek pass = Inr ()"
    by (rule sealSecret_Inr [OF assms(3)], assumption)+
  have "case reseal B salt' iv' env pass pass' of
       Inl e \<Rightarrow> \<not> (24 \<le> length pass' \<and> 80 \<le> estimateEntropyBits pass')
         \<or> isl (deriveKey B pass' salt' SCRYPT_N SCRYPT_R SCRYPT_P)
     | Inr env' \<Rightarrow> openSecret B env' pass' = Inr seed" if "iv' \<noteq> []" for salt' iv' pass'
  proof (cases "sealSecret B salt' iv' seed pass'")
    case (Inl e)
    then show ?thesis using op facts(1)
      by (auto simp: reseal_def sealSecret_def assertStrongKek_def MIN_KEK_LENGTH_def MIN_KEK_ENTROPY_BITS_def
          Let_def and_then_Inl split: if_splits prod.splits)
  next
    case (Inr env')
    then show ?thesis using op open_sealed [OF assms(1) that Inr] by (simp add: reseal_def)
  qed
  then show ?thesis using op facts strong_kek by blast
qed

lemma count_distinct: "distinct s \<Longrightarrow> c \<in> set s \<Longrightarrow> count_list s c = 1"
  by (induction s) auto

text \<open>A passphrase of n distinct characters is worth n times log2 n bits.\<close>

lemma entropy_distinct:
  assumes "distinct s"
  shows "estimateEntropyBits s = real (length s) * log 2 (real (length s))"
proof (cases "s = []")
  case False
  let ?n = "real (length s)"
  have "(let p = real (count_list s c) / ?n in - (p * log 2 p)) = log 2 ?n / ?n" if "c \<in> set s" for c
    using that False assms by (simp add: count_distinct log_divide Let_def)
  then have "map (\<lambda>c. let p = real (count_list s c) / ?n in - (p * log 2 p)) s = map (\<lambda>c. log 2 ?n / ?n) s"
    by (intro map_cong) simp_all
  then have "sum_list (map (\<lambda>c. let p = real (count_list s c) / ?n in - (p * log 2 p)) s) = log 2 ?n"
    using False by (simp add: sum_list_replicate map_replicate_const)
  then show ?thesis using False assms by (simp add: estimateEntropyBits_def distinct_remdups_id)
qed (simp add: estimateEntropyBits_def)

text \<open>An authenticated box for the witness: the plaintext in the clear, with a constant tag.\<close>

definition demo_box :: box_prims where
  "demo_box = \<lparr>bp_scrypt = \<lambda>pw salt n r p. Inr (replicate 32 0), bp_seal = \<lambda>k iv p. (p, replicate 16 0),
     bp_open = \<lambda>k iv ct tag. if tag = replicate 16 0 then Some ct else None\<rparr>"

definition demo_kek :: string where "demo_kek = ''abcdefghijklmnopqrstuvwxyz012345''"

interpretation demo_aead: authenticated_box "bp_seal demo_box" "bp_open demo_box"
  by unfold_locales (simp_all add: demo_box_def)

lemma demo_kek_bits: "estimateEntropyBits demo_kek = 160"
proof -
  have "distinct demo_kek" "length demo_kek = 32" by (simp_all add: demo_kek_def)
  moreover have "log 2 (32 :: real) = 5" using log_pow_cancel [of 2 5] by simp
  ultimately show ?thesis by (simp add: entropy_distinct)
qed

theorem sealed_key_opens_witness:
  "\<exists>env. sealSecret demo_box [1] [2] (replicate 32 7) demo_kek = Inr env
     \<and> openSecret demo_box env demo_kek = Inr (replicate 32 7)"
proof -
  have "assertStrongKek demo_kek = Inr ()"
    by (simp add: assertStrongKek_def demo_kek_bits MIN_KEK_LENGTH_def MIN_KEK_ENTROPY_BITS_def)
      (simp add: demo_kek_def)
  then have "\<exists>env. sealSecret demo_box [1] [2] (replicate 32 7) demo_kek = Inr env"
    by (simp add: sealSecret_def deriveKey_def text_error_def demo_box_def)
  then obtain env where e: "sealSecret demo_box [1] [2] (replicate 32 7) demo_kek = Inr env" by blast
  show ?thesis
    using sealed_key_opens [OF demo_aead.authenticated_box_axioms _ e] e by simp
qed

section \<open>Distinct keys\<close>

lemma seen_reserved_dom:
  assumes "\<forall>r \<in> set reserved. lb_label r \<noteq> []"
  shows "truthy (seen_reserved reserved a) \<longleftrightarrow> (\<exists>r \<in> set reserved. lb_address r = a \<and> a \<noteq> [])"
proof -
  have "truthy (fold (\<lambda>r m. if lb_address r = [] then m else m(lb_address r \<mapsto> lb_label r)) rs m a)
      \<longleftrightarrow> truthy (m a) \<or> (\<exists>r \<in> set rs. lb_address r = a \<and> a \<noteq> [])"
    if "\<forall>r \<in> set rs. lb_label r \<noteq> []" for rs m
    using that by (induction rs arbitrary: m) (auto simp: truthy_def)
  from this [OF assms, of Map.empty] show ?thesis by (simp add: seen_reserved_def truthy_def)
qed

lemma distinct_keys_fold:
  "isl (fold_result (distinct_key b58) keys seen) \<longleftrightarrow>
     \<not> (distinct (map (transparencyAddress b58) keys)
        \<and> (\<forall>k \<in> set keys. \<not> truthy (seen (transparencyAddress b58 k))))"
proof (induction keys arbitrary: seen)
  case (Cons k keys)
  show ?case
  proof (cases "truthy (seen (transparencyAddress b58 k))")
    case False
    then have "distinct_key b58 k seen
        = Inr (seen(transparencyAddress b58 k \<mapsto> ''transparency:'' @ transparency_role_str (tk_role k)))"
      by (simp add: distinct_key_def Let_def)
    with False show ?thesis by (auto simp: Cons.IH truthy_def) (metis image_eqI)
  qed (simp add: distinct_key_def Let_def)
qed simp

text \<open>
  The key guard passes exactly when the keys' addresses are pairwise distinct and none is one of
  the reserved (treasury, attestor) addresses.
\<close>

theorem transparency_keys_distinct:
  assumes "\<forall>r \<in> set reserved. lb_label r \<noteq> []"
  shows "assertTransparencyKeysDistinct b58 keys reserved = Inr () \<longleftrightarrow>
    distinct (map (transparencyAddress b58) keys)
    \<and> (\<forall>k \<in> set keys. \<forall>r \<in> set reserved. lb_address r \<noteq> [] \<longrightarrow> transparencyAddress b58 k \<noteq> lb_address r)"
proof -
  have "assertTransparencyKeysDistinct b58 keys reserved = Inr ()
      \<longleftrightarrow> \<not> isl (fold_result (distinct_key b58) keys (seen_reserved reserved))"
    by (cases "fold_result (distinct_key b58) keys (seen_reserved reserved)")
      (simp_all add: assertTransparencyKeysDistinct_def)
  then show ?thesis
    unfolding distinct_keys_fold seen_reserved_dom [OF assms] by metis
qed

theorem transparency_keys_distinct_witness:
  "assertTransparencyKeysDistinct (\<lambda>b. hex_encode b)
     [\<lparr>tk_role = RoleAudit, tk_secretKey = [1], tk_publicKey = [1]\<rparr>,
      \<lparr>tk_role = RolePublisher, tk_secretKey = [2], tk_publicKey = [2]\<rparr>]
     [\<lparr>lb_label = ''treasury'', lb_address = ''03''\<rparr>] = Inr ()"
  by (subst transparency_keys_distinct) (simp, code_simp)

text \<open>The registry of the worker: its token signer holds the funding address, when one is configured.\<close>

lemma registry_controls_treasury:
  assumes "loadSignerRegistry K F env = Inr (token, ant)" and "env ''TREASURY_ADDRESS'' = Some a" and "js_trim a \<noteq> []"
  shows "signer_address K token = js_trim a"
  using assms by (auto simp: loadSignerRegistry_def and_then_Inr truthy_def Let_def split: option.splits if_splits)

end
