(* ===== verification/Ledger_Artifact.thy ===== *)
theory Ledger_Artifact
  imports Canonical_Json Merkle Key_Handling
begin

text \<open>
  The published ledger (\<open>transparency/ledger-artifact.ts\<close>): leaves, their Merkle commitment, the
  signed manifest, its verification against a pinned key, and membership proofs. A record of the code
  is a record here; a \<open>null\<close> is \<open>None\<close>.
\<close>

section \<open>Leaves\<close>

definition LEDGER_LEAF_FORMAT :: string where "LEDGER_LEAF_FORMAT = ''ar.io-claims-ledger-leaf/v1''"
definition LEDGER_MANIFEST_VERSION :: string where "LEDGER_MANIFEST_VERSION = ''ar.io-claims-ledger/v1''"

record ledger_leaf =
  lf_recipientId :: string
  lf_protocol :: int
  lf_assetKey :: string
  lf_assetType :: asset_type
  lf_amount :: "string option"
  lf_antMint :: "string option"
  lf_vaultEndTs :: "int option"
  lf_status :: string

definition json_opt :: "('a \<Rightarrow> json) \<Rightarrow> 'a option \<Rightarrow> json" where
  "json_opt f v = (case v of None \<Rightarrow> JNull | Some x \<Rightarrow> f x)"

definition leaf_fields :: "ledger_leaf \<Rightarrow> (string \<times> json) list" where
  "leaf_fields l =
     [(''recipientId'', JStr (lf_recipientId l)), (''protocol'', JInt (lf_protocol l)),
      (''assetKey'', JStr (lf_assetKey l)), (''assetType'', JStr (asset_type_str (lf_assetType l))),
      (''amount'', json_opt JStr (lf_amount l)), (''antMint'', json_opt JStr (lf_antMint l)),
      (''vaultEndTs'', json_opt JInt (lf_vaultEndTs l)), (''status'', JStr (lf_status l))]"

definition leaf_json :: "ledger_leaf \<Rightarrow> json" where
  "leaf_json l = JObj (leaf_fields l)"

definition canonicalLeafBytes :: "ledger_leaf \<Rightarrow> bytes" where
  "canonicalLeafBytes leaf = utf8_encode (canonicalJson (leaf_json leaf))"

text \<open>The comparison function is \<open><\<close> on the asset keys; \<open>sort\<close> is stable.\<close>

definition sortLeaves :: "ledger_leaf list \<Rightarrow> ledger_leaf list" where
  "sortLeaves leaves = sort_key lf_assetKey leaves"

record ledger_commitment =
  lc_sortedLeaves :: "ledger_leaf list"
  lc_leafHashes :: "bytes list"
  lc_rootHex :: string
  lc_leavesDigestHex :: string

text \<open>
  The digest parses every leaf's canonical text back, which gives the object with its keys in
  canonical order.
\<close>

definition leaves_json :: "ledger_leaf list \<Rightarrow> json" where
  "leaves_json sortedLeaves = JArr (map (\<lambda>l. json_norm (leaf_json l)) sortedLeaves)"

definition commitLedger :: "(bytes \<Rightarrow> bytes) \<Rightarrow> ledger_leaf list \<Rightarrow> ledger_commitment" where
  "commitLedger sha leaves =
     (let sortedLeaves = sortLeaves leaves;
          leafHashes = map (\<lambda>l. hashLeaf sha (canonicalLeafBytes l)) sortedLeaves
      in \<lparr>lc_sortedLeaves = sortedLeaves, lc_leafHashes = leafHashes, lc_rootHex = toHex (merkleRoot sha leafHashes),
          lc_leavesDigestHex = toHex (hashLeaf sha (utf8_encode (canonicalJson (leaves_json sortedLeaves))))\<rparr>)"

section \<open>The manifest\<close>

record ledger_manifest =
  lm_manifestVersion :: string
  lm_leafFormat :: string
  lm_network :: string
  lm_ledgerVersion :: string
  lm_generatedAt :: string
  lm_entryCount :: int
  lm_availableCount :: int
  lm_manualReviewCount :: int
  lm_totalClaimableMario :: string
  lm_rootHex :: string
  lm_leavesDigestHex :: string
  lm_inputFingerprints :: "(string \<times> string) list"

definition manifest_fields :: "ledger_manifest \<Rightarrow> (string \<times> json) list" where
  "manifest_fields m =
     [(''manifestVersion'', JStr (lm_manifestVersion m)), (''leafFormat'', JStr (lm_leafFormat m)),
      (''network'', JStr (lm_network m)), (''ledgerVersion'', JStr (lm_ledgerVersion m)),
      (''generatedAt'', JStr (lm_generatedAt m)), (''entryCount'', JInt (lm_entryCount m)),
      (''availableCount'', JInt (lm_availableCount m)), (''manualReviewCount'', JInt (lm_manualReviewCount m)),
      (''totalClaimableMario'', JStr (lm_totalClaimableMario m)), (''rootHex'', JStr (lm_rootHex m)),
      (''leavesDigestHex'', JStr (lm_leavesDigestHex m)),
      (''inputFingerprints'', JObj (map (\<lambda>(k, v). (k, JStr v)) (lm_inputFingerprints m)))]"

definition manifest_json :: "ledger_manifest \<Rightarrow> json" where
  "manifest_json m = JObj (manifest_fields m)"

definition manifest_bytes :: "ledger_manifest \<Rightarrow> bytes" where
  "manifest_bytes m = utf8_encode (canonicalJson (manifest_json m))"

record ledger_artifact =
  la_manifest :: ledger_manifest
  la_signatureHex :: string
  la_publisherPubkeyHex :: string
  la_leaves :: "ledger_leaf list"

record build_artifact_input =
  bi_leaves :: "ledger_leaf list"
  bi_network :: string
  bi_ledgerVersion :: string
  bi_generatedAt :: "string option"
  bi_inputFingerprints :: "(string \<times> string) list option"
  bi_publisher :: transparency_keypair

text \<open>The totals loop: sum of the amounts, available and manual-review leaves.\<close>

definition leaf_totals :: "ledger_leaf \<Rightarrow> int \<times> int \<times> int \<Rightarrow> string + int \<times> int \<times> int" where
  "leaf_totals l acc = (let (total, avail, manual) = acc in
     and_then (case lf_amount l of None \<Rightarrow> Inr total
               | Some a \<Rightarrow> and_then (bigint_of a) (\<lambda>v. Inr (total + v))) (\<lambda>total'.
       Inr (total', (if lf_status l = ''available'' then avail + 1 else avail),
            (if lf_status l = ''manual_review'' then manual + 1 else manual))))"

text \<open>\<open>now\<close> is the clock's ISO string.\<close>

definition buildLedgerArtifact ::
  "(bytes \<Rightarrow> bytes) \<Rightarrow> ed25519 \<Rightarrow> string \<Rightarrow> build_artifact_input \<Rightarrow> string + ledger_artifact" where
  "buildLedgerArtifact sha ed now input =
     (let C = commitLedger sha (bi_leaves input) in
      and_then (fold_result leaf_totals (lc_sortedLeaves C) (0, 0, 0)) (\<lambda>(totalClaimable, availableCount, manualReviewCount).
        let manifest = \<lparr>lm_manifestVersion = LEDGER_MANIFEST_VERSION, lm_leafFormat = LEDGER_LEAF_FORMAT,
              lm_network = bi_network input, lm_ledgerVersion = bi_ledgerVersion input,
              lm_generatedAt = (case bi_generatedAt input of Some t \<Rightarrow> t | None \<Rightarrow> now),
              lm_entryCount = int (length (lc_sortedLeaves C)), lm_availableCount = availableCount,
              lm_manualReviewCount = manualReviewCount, lm_totalClaimableMario = dec_int totalClaimable,
              lm_rootHex = lc_rootHex C, lm_leavesDigestHex = lc_leavesDigestHex C,
              lm_inputFingerprints = (case bi_inputFingerprints input of Some f \<Rightarrow> f | None \<Rightarrow> [])\<rparr>;
            signature = keypair_sign ed (bi_publisher input) (manifest_bytes manifest)
        in Inr \<lparr>la_manifest = manifest, la_signatureHex = toHex signature,
                la_publisherPubkeyHex = toHex (tk_publicKey (bi_publisher input)),
                la_leaves = lc_sortedLeaves C\<rparr>))"

section \<open>Verification\<close>

record artifact_verification =
  av_ok :: bool
  av_pinned :: bool
  av_rootMatches :: bool
  av_signatureValid :: bool
  av_pubkeyMatches :: bool
  av_countMatches :: bool
  av_digestMatches :: bool
  av_recomputedRootHex :: string
  av_issues :: "string list"

text \<open>Decoding the two hex strings may throw; they are only decoded when a key is pinned.\<close>

definition artifact_signature_valid ::
  "ed_verify \<Rightarrow> ledger_artifact \<Rightarrow> bool \<Rightarrow> string \<Rightarrow> string + bool" where
  "artifact_signature_valid edv artifact pinned pubHex =
     (if \<not> pinned then Inr False
      else and_then (fromHex (la_signatureHex artifact)) (\<lambda>sig. and_then (fromHex pubHex) (\<lambda>pub.
        Inr (verifyEd25519 edv (manifest_bytes (la_manifest artifact)) sig pub))))"

definition verifyLedgerArtifact ::
  "(bytes \<Rightarrow> bytes) \<Rightarrow> ed_verify \<Rightarrow> ledger_artifact \<Rightarrow> string option \<Rightarrow> string + artifact_verification" where
  "verifyLedgerArtifact sha edv artifact expectedPublisherPubkeyHex =
     (let C = commitLedger sha (la_leaves artifact); m = la_manifest artifact;
          rootMatches = (lc_rootHex C = to_lower (lm_rootHex m));
          digestMatches = (lc_leavesDigestHex C = to_lower (lm_leavesDigestHex m));
          countMatches = (int (length (la_leaves artifact)) = lm_entryCount m);
          pinned = truthy expectedPublisherPubkeyHex;
          pubHex = to_lower (case expectedPublisherPubkeyHex of Some k \<Rightarrow> k | None \<Rightarrow> la_publisherPubkeyHex artifact);
          pubkeyMatches = (pinned \<and> pubHex = to_lower (la_publisherPubkeyHex artifact))
      in and_then (artifact_signature_valid edv artifact pinned pubHex) (\<lambda>signatureValid.
        Inr \<lparr>av_ok = (pinned \<and> rootMatches \<and> signatureValid \<and> pubkeyMatches \<and> countMatches \<and> digestMatches),
             av_pinned = pinned, av_rootMatches = rootMatches, av_signatureValid = signatureValid,
             av_pubkeyMatches = pubkeyMatches, av_countMatches = countMatches, av_digestMatches = digestMatches,
             av_recomputedRootHex = lc_rootHex C,
             av_issues =
               (if rootMatches then [] else [''root mismatch: recomputed '' @ lc_rootHex C @ '' != manifest '' @ lm_rootHex m])
               @ (if digestMatches then [] else [''leaves digest mismatch''])
               @ (if countMatches then [] else [''entryCount '' @ dec_int (lm_entryCount m) @ '' != leaves ''
                    @ dec_nat (length (la_leaves artifact))])
               @ (if pinned then [] else [''UNPINNED: no known-good publisher key supplied. A self-signed forgery would pass - supply the published/anchored publisher pubkey to verify.''])
               @ (if pinned \<and> \<not> pubkeyMatches then [''artifact publisher pubkey != pinned publisher pubkey (key swapped)''] else [])
               @ (if pinned \<and> \<not> signatureValid then [''publisher signature invalid over manifest''] else [])\<rparr>))"

section \<open>Membership\<close>

record membership_proof =
  mp_assetKey :: string
  mp_leaf :: ledger_leaf
  mp_leafHashHex :: string
  mp_proof :: "proof_step list"
  mp_rootHex :: string

fun find_index :: "('a \<Rightarrow> bool) \<Rightarrow> 'a list \<Rightarrow> nat option" where
  "find_index P [] = None"
| "find_index P (x # xs) = (if P x then Some 0 else map_option Suc (find_index P xs))"

definition proveMembership ::
  "(bytes \<Rightarrow> bytes) \<Rightarrow> ledger_artifact \<Rightarrow> string \<Rightarrow> string + membership_proof" where
  "proveMembership sha artifact assetKey =
     (let C = commitLedger sha (la_leaves artifact) in
      case find_index (\<lambda>l. lf_assetKey l = assetKey) (lc_sortedLeaves C) of
        None \<Rightarrow> Inl (''asset '' @ assetKey @ '' not in the committed ledger'')
      | Some index \<Rightarrow> and_then (merkleProof sha (lc_leafHashes C) (int index)) (\<lambda>proof.
          Inr \<lparr>mp_assetKey = assetKey, mp_leaf = lc_sortedLeaves C ! index,
               mp_leafHashHex = toHex (lc_leafHashes C ! index), mp_proof = proof, mp_rootHex = lc_rootHex C\<rparr>))"

definition verifyMembership :: "(bytes \<Rightarrow> bytes) \<Rightarrow> membership_proof \<Rightarrow> string \<Rightarrow> string + bool" where
  "verifyMembership sha m trustedRootHex =
     (let leafHash = hashLeaf sha (canonicalLeafBytes (mp_leaf m)) in
      if toHex leafHash \<noteq> to_lower (mp_leafHashHex m) then Inr False
      else verifyMerkleProof sha leafHash (mp_proof m) trustedRootHex)"

section \<open>What the texts bind\<close>

lemma json_norm_fields:
  assumes "json_norm (JObj xs) = json_norm (JObj ys)" and "distinct (map fst xs)" "distinct (map fst ys)"
  shows "map_option json_norm (map_of xs k) = map_option json_norm (map_of ys k)"
proof -
  let ?f = "map (\<lambda>(k, v). (k, json_norm v))"
  have "sort_key fst (?f xs) = sort_key fst (?f ys)" using assms(1) by simp
  then have "set (sort_key fst (?f xs)) = set (sort_key fst (?f ys))" by (rule arg_cong)
  then have "set (?f xs) = set (?f ys)" by simp
  moreover have keys: "map fst (?f zs) = map fst zs" for zs by (induction zs) auto
  have "distinct (map fst (?f xs))" "distinct (map fst (?f ys))" unfolding keys by (rule assms(2), rule assms(3))
  ultimately have "map_of (?f xs) = map_of (?f ys)" using map_of_inject_set by blast
  moreover have "map_of (?f zs) k = map_option json_norm (map_of zs k)" for zs by (induction zs) auto
  ultimately show ?thesis by metis
qed

lemma json_norm_opt [simp]: "json_norm (json_opt JStr v) = json_opt JStr v" "json_norm (json_opt JInt w) = json_opt JInt w"
  "json_integral (json_opt JStr v)" "json_integral (json_opt JInt w)"
  by (simp_all add: json_opt_def split: option.splits)

lemma json_opt_inj [simp]: "json_opt JStr v = json_opt JStr v' \<longleftrightarrow> v = v'" "json_opt JInt w = json_opt JInt w' \<longleftrightarrow> w = w'"
  by (simp_all add: json_opt_def split: option.splits)

lemma json_opt_head [simp]: "json_opt JStr v \<noteq> JInt i" "json_opt JInt w \<noteq> JStr s"
  by (simp_all add: json_opt_def split: option.splits)

lemma leaf_integral [simp]: "json_integral (leaf_json l)"
  by (simp add: leaf_json_def leaf_fields_def)

lemma asset_type_str_inj [simp]: "asset_type_str a = asset_type_str b \<longleftrightarrow> a = b"
  by (cases a; cases b) simp_all

lemma leaf_json_inj:
  assumes "json_norm (leaf_json a) = json_norm (leaf_json b)"
  shows "a = b"
proof -
  have d: "distinct (map fst (leaf_fields l))" for l by (simp add: leaf_fields_def)
  note f = json_norm_fields [OF assms [unfolded leaf_json_def] d d]
  show ?thesis
    using f [of "''recipientId''"] f [of "''protocol''"] f [of "''assetKey''"] f [of "''assetType''"]
      f [of "''amount''"] f [of "''antMint''"] f [of "''vaultEndTs''"] f [of "''status''"]
    by (simp add: leaf_fields_def)
qed

lemma canonicalLeafBytes_inj: "canonicalLeafBytes a = canonicalLeafBytes b \<Longrightarrow> a = b"
  unfolding canonicalLeafBytes_def utf8_encode_eq_iff
  using canonicalJson_prefix [of "leaf_json a" "leaf_json b" "[]" "[]"] leaf_json_inj [of a b] by simp

lemma leaves_text_inj: "canonicalJson (leaves_json xs) = canonicalJson (leaves_json ys) \<Longrightarrow> xs = ys"
proof -
  have t: "canonicalJson (leaves_json zs) = canonicalJson (JArr (map leaf_json zs))" for zs
    by (simp add: leaves_json_def comp_def)
  assume "canonicalJson (leaves_json xs) = canonicalJson (leaves_json ys)"
  then have "canonicalJson (JArr (map leaf_json xs)) @ [] = canonicalJson (JArr (map leaf_json ys)) @ []"
    unfolding t by simp
  then have "json_norm (JArr (map leaf_json xs)) = json_norm (JArr (map leaf_json ys))"
    by (rule canonicalJson_prefix [OF _ _ json_delim_simps(1) json_delim_simps(1), THEN conjunct1, rotated 2])
      (simp_all add: list_all_iff)
  then have "map (json_norm \<circ> leaf_json) xs = map (json_norm \<circ> leaf_json) ys" by simp
  moreover have "inj (json_norm \<circ> leaf_json)" by (rule injI) (simp add: leaf_json_inj)
  ultimately show ?thesis by (simp add: inj_map_eq_map)
qed

lemma manifest_integral [simp]: "json_integral (manifest_json m)"
  by (auto simp: manifest_json_def manifest_fields_def list_all_iff)

lemma manifest_bytes_norm:
  "manifest_bytes a = manifest_bytes b \<Longrightarrow> json_norm (manifest_json a) = json_norm (manifest_json b)"
  unfolding manifest_bytes_def utf8_encode_eq_iff
  using canonicalJson_prefix [of "manifest_json a" "manifest_json b" "[]" "[]"] by simp

lemma manifest_norm_fields:
  assumes "json_norm (manifest_json a) = json_norm (manifest_json b)"
  shows "lm_rootHex a = lm_rootHex b" "lm_leavesDigestHex a = lm_leavesDigestHex b" "lm_entryCount a = lm_entryCount b"
    "lm_totalClaimableMario a = lm_totalClaimableMario b"
proof -
  have d: "distinct (map fst (manifest_fields m))" for m by (simp add: manifest_fields_def)
  note f = json_norm_fields [OF assms [unfolded manifest_json_def] d d]
  show "lm_rootHex a = lm_rootHex b" "lm_leavesDigestHex a = lm_leavesDigestHex b" "lm_entryCount a = lm_entryCount b"
    "lm_totalClaimableMario a = lm_totalClaimableMario b"
    using f [of "''rootHex''"] f [of "''leavesDigestHex''"] f [of "''entryCount''"] f [of "''totalClaimableMario''"]
    by (simp_all add: manifest_fields_def)
qed

section \<open>Building and verifying\<close>

lemma sortLeaves_idem [simp]: "sortLeaves (sortLeaves ls) = sortLeaves ls"
  by (simp add: sortLeaves_def sort_key_id_if_sorted)

lemma set_sortLeaves [simp]: "set (sortLeaves ls) = set ls" "length (sortLeaves ls) = length ls"
  by (simp_all add: sortLeaves_def)

lemma commit_sorted [simp]: "commitLedger sha (sortLeaves ls) = commitLedger sha ls"
  by (simp add: commitLedger_def)

lemma commit_lower [simp]: "to_lower (lc_rootHex (commitLedger sha ls)) = lc_rootHex (commitLedger sha ls)"
  "to_lower (lc_leavesDigestHex (commitLedger sha ls)) = lc_leavesDigestHex (commitLedger sha ls)"
  by (simp_all add: commitLedger_def Let_def to_lower_hex_encode)

text \<open>The bytes whose hash is the whole-set digest.\<close>

definition digest_input :: "ledger_leaf list \<Rightarrow> bytes" where
  "digest_input leaves = LEAF_PREFIX # utf8_encode (canonicalJson (leaves_json (sortLeaves leaves)))"

lemma digest_binds:
  assumes "inj_on sha X" and "digest_input xs \<in> X" "digest_input ys \<in> X"
    and "lc_leavesDigestHex (commitLedger sha xs) = lc_leavesDigestHex (commitLedger sha ys)"
  shows "sortLeaves xs = sortLeaves ys"
proof -
  have "sha (digest_input xs) = sha (digest_input ys)"
    using assms(4) by (simp add: commitLedger_def hashLeaf_def digest_input_def Let_def)
  then have "digest_input xs = digest_input ys" by (rule inj_onD [OF assms(1)]) (use assms(2,3) in simp_all)
  then show ?thesis by (simp add: digest_input_def leaves_text_inj)
qed

lemma build_artifact_Inr:
  assumes "buildLedgerArtifact sha ed now input = Inr A"
  shows "la_leaves A = sortLeaves (bi_leaves input)"
    "lm_rootHex (la_manifest A) = lc_rootHex (commitLedger sha (bi_leaves input))"
    "lm_leavesDigestHex (la_manifest A) = lc_leavesDigestHex (commitLedger sha (bi_leaves input))"
    "lm_entryCount (la_manifest A) = int (length (bi_leaves input))"
    "la_signatureHex A = toHex (keypair_sign ed (bi_publisher input) (manifest_bytes (la_manifest A)))"
    "la_publisherPubkeyHex A = toHex (tk_publicKey (bi_publisher input))"
    "\<exists>tot av mr. fold_result leaf_totals (sortLeaves (bi_leaves input)) (0, 0, 0) = Inr (tot, av, mr)
       \<and> lm_totalClaimableMario (la_manifest A) = dec_int tot"
proof -
  obtain tot av mr where t: "fold_result leaf_totals (lc_sortedLeaves (commitLedger sha (bi_leaves input))) (0, 0, 0)
      = Inr (tot, av, mr)"
    using assms by (auto simp: buildLedgerArtifact_def Let_def and_then_Inr)
  have l: "lc_sortedLeaves (commitLedger sha ls) = sortLeaves ls" "length (sortLeaves ls) = length ls" for ls
    by (simp_all add: commitLedger_def Let_def sortLeaves_def)
  note A = assms [unfolded buildLedgerArtifact_def Let_def t]
  show "la_leaves A = sortLeaves (bi_leaves input)"
    "lm_rootHex (la_manifest A) = lc_rootHex (commitLedger sha (bi_leaves input))"
    "lm_leavesDigestHex (la_manifest A) = lc_leavesDigestHex (commitLedger sha (bi_leaves input))"
    "lm_entryCount (la_manifest A) = int (length (bi_leaves input))"
    "la_signatureHex A = toHex (keypair_sign ed (bi_publisher input) (manifest_bytes (la_manifest A)))"
    "la_publisherPubkeyHex A = toHex (tk_publicKey (bi_publisher input))"
    using A by (auto simp: l)
  show "\<exists>tot av mr. fold_result leaf_totals (sortLeaves (bi_leaves input)) (0, 0, 0) = Inr (tot, av, mr)
       \<and> lm_totalClaimableMario (la_manifest A) = dec_int tot"
    using t A by (auto simp: l)
qed

lemma verify_artifact_ok:
  assumes "verifyLedgerArtifact sha edv A (Some key) = Inr v" and "av_ok v"
  obtains sig pub where "fromHex (la_signatureHex A) = Inr sig" "fromHex (to_lower key) = Inr pub"
    "verifyEd25519 edv (manifest_bytes (la_manifest A)) sig pub" "key \<noteq> []"
    "lc_rootHex (commitLedger sha (la_leaves A)) = to_lower (lm_rootHex (la_manifest A))"
    "lc_leavesDigestHex (commitLedger sha (la_leaves A)) = to_lower (lm_leavesDigestHex (la_manifest A))"
    "to_lower (la_publisherPubkeyHex A) = to_lower key"
    "int (length (la_leaves A)) = lm_entryCount (la_manifest A)"
proof -
  have k: "key \<noteq> []" using assms by (auto simp: verifyLedgerArtifact_def Let_def and_then_Inr truthy_def)
  then have "artifact_signature_valid edv A True (to_lower key) = Inr True"
    "lc_rootHex (commitLedger sha (la_leaves A)) = to_lower (lm_rootHex (la_manifest A))"
    "lc_leavesDigestHex (commitLedger sha (la_leaves A)) = to_lower (lm_leavesDigestHex (la_manifest A))"
    "to_lower (la_publisherPubkeyHex A) = to_lower key"
    "int (length (la_leaves A)) = lm_entryCount (la_manifest A)"
    using assms by (auto simp: verifyLedgerArtifact_def Let_def and_then_Inr truthy_def)
  then show thesis using that k by (auto simp: artifact_signature_valid_def and_then_Inr)
qed


section \<open>Membership\<close>

lemma find_index_Some:
  "find_index P xs = Some i \<Longrightarrow> i < length xs \<and> P (xs ! i)"
  by (induction xs arbitrary: i) (auto split: if_splits)

lemma find_index_ex: "x \<in> set xs \<Longrightarrow> P x \<Longrightarrow> \<exists>i. find_index P xs = Some i"
  by (induction xs) auto

text \<open>
  C38. A membership proof tells the truth: if a proof is accepted against the root in the manifest of a
  verified, non-empty artefact, its leaf - recipient, type, amount, mint, unlock time and status - is
  one of the committed leaves. The proof is arbitrary; SHA-256 has 32-byte outputs and does not collide
  on the bytes hashed for this tree and this proof.
\<close>

theorem membership_sound:
  assumes "\<forall>x. length (sha x) = 32"
    and "no_collision sha (tree_inputs sha (map canonicalLeafBytes (sortLeaves (la_leaves A)))
          \<union> {LEAF_PREFIX # canonicalLeafBytes (mp_leaf m)}
          \<union> fold_inputs sha (hashLeaf sha (canonicalLeafBytes (mp_leaf m))) (mp_proof m))"
    and "la_leaves A \<noteq> []"
    and "verifyLedgerArtifact sha edv A (Some key) = Inr v" "av_ok v"
    and "verifyMembership sha m (lm_rootHex (la_manifest A)) = Inr True"
  shows "mp_leaf m \<in> set (la_leaves A)"
proof -
  let ?D = "map canonicalLeafBytes (sortLeaves (la_leaves A))"
  have root: "to_lower (lm_rootHex (la_manifest A)) = toHex (merkleRoot sha (map (hashLeaf sha) ?D))"
    by (rule verify_artifact_ok [OF assms(4,5)]) (simp add: commitLedger_def Let_def comp_def)
  have "verifyMerkleProof sha (hashLeaf sha (canonicalLeafBytes (mp_leaf m))) (mp_proof m) (lm_rootHex (la_manifest A)) = Inr True"
    using assms(6) unfolding verifyMembership_def Let_def by (metis sum.inject(2))
  then have "verifyMerkleProof sha (hashLeaf sha (canonicalLeafBytes (mp_leaf m))) (mp_proof m)
      (toHex (merkleRoot sha (map (hashLeaf sha) ?D))) = Inr True"
    unfolding verifyMerkleProof_def root by (simp add: to_lower_hex_encode del: fold_proof.simps)
  moreover have "?D \<noteq> []" using assms(3) by (metis length_0_conv map_is_Nil_conv set_sortLeaves(2))
  ultimately have "canonicalLeafBytes (mp_leaf m) \<in> set ?D" using merkle_proof_sound [OF assms(1,2)] by blast
  then show ?thesis by (auto dest: canonicalLeafBytes_inj)
qed

lemma total_of_leaves:
  assumes "fold_result leaf_totals ls (0, 0, 0) = Inr (tot, av, mr)"
  shows "tot = sum_list (map (\<lambda>l. case lf_amount l of None \<Rightarrow> 0 | Some a \<Rightarrow> the (js_BigInt a)) ls)"
proof -
  have "fst acc' = fst acc + (case lf_amount l of None \<Rightarrow> 0 | Some a \<Rightarrow> the (js_BigInt a))"
    if "leaf_totals l acc = Inr acc'" for l acc acc'
    using that by (auto simp: leaf_totals_def and_then_Inr bigint_of_def split: option.splits prod.splits)
  from fold_result_sum [of leaf_totals ls "(0, 0, 0)" "(tot, av, mr)" fst, OF assms this] show ?thesis by simp
qed

lemma built_accepted:
  assumes build: "buildLedgerArtifact sha ed now input = Inr B"
    and sig: "edv (keypair_sign ed (bi_publisher input) (manifest_bytes (la_manifest B))) (manifest_bytes (la_manifest B))
        (tk_publicKey (bi_publisher input)) = Inr True"
    and pub: "tk_publicKey (bi_publisher input) \<noteq> []"
  shows "\<exists>v. verifyLedgerArtifact sha edv B (Some (la_publisherPubkeyHex B)) = Inr v \<and> av_ok v \<and> av_issues v = []"
proof -
  note f = build_artifact_Inr [OF build]
  let ?pub = "tk_publicKey (bi_publisher input)"
  have "hex_encode ?pub \<noteq> []" using pub by (cases ?pub) (simp_all add: hex_byte_def)
  moreover have "artifact_signature_valid edv B True (hex_encode ?pub) = Inr True"
    using sig by (simp add: artifact_signature_valid_def f verifyEd25519_def)
  ultimately show ?thesis by (simp add: verifyLedgerArtifact_def Let_def f truthy_def)
qed

lemma built_membership:
  assumes build: "buildLedgerArtifact sha ed now input = Inr B"
    and keys: "distinct (map lf_assetKey (bi_leaves input))" and l: "l \<in> set (bi_leaves input)"
  shows "\<exists>m. proveMembership sha B (lf_assetKey l) = Inr m \<and> mp_leaf m = l
      \<and> verifyMembership sha m (lm_rootHex (la_manifest B)) = Inr True"
proof -
  note f = build_artifact_Inr [OF build]
  let ?C = "commitLedger sha (bi_leaves input)" and ?S = "sortLeaves (bi_leaves input)"
  obtain i where i: "find_index (\<lambda>x. lf_assetKey x = lf_assetKey l) ?S = Some i"
    using l find_index_ex [of l ?S "\<lambda>x. lf_assetKey x = lf_assetKey l"] by auto
  then have il: "i < length ?S" "lf_assetKey (?S ! i) = lf_assetKey l" using find_index_Some by blast+
  then have "?S ! i \<in> set (bi_leaves input)" using nth_mem [OF il(1)] by simp
  then have eq: "?S ! i = l" using keys l il(2) by (metis distinct_map inj_onD)
  have C: "lc_sortedLeaves ?C = ?S" "lc_leafHashes ?C = map (\<lambda>l. hashLeaf sha (canonicalLeafBytes l)) ?S"
    "lc_rootHex ?C = toHex (merkleRoot sha (lc_leafHashes ?C))"
    by (simp_all add: commitLedger_def Let_def)
  have "0 \<le> int i \<and> int i < int (length (lc_leafHashes ?C))" using il(1) by (simp add: C)
  with merkle_proof_accepted [of "lc_leafHashes ?C" sha]
  obtain p where p: "merkleProof sha (lc_leafHashes ?C) (int i) = Inr p"
    "verifyMerkleProof sha (lc_leafHashes ?C ! i) p (lc_rootHex ?C) = Inr True"
    unfolding C(3) by (metis nat_int)
  then show ?thesis
    using i il(1) eq by (simp add: proveMembership_def verifyMembership_def Let_def f C)
qed

text \<open>
  C39. A built artefact verifies under its publisher's key with no issue, declares the number of leaves
  and the sum of their amounts, and gives for every leaf a membership proof of that very leaf that is
  accepted against the manifest's root. Relied on: Ed25519 accepts its own signatures, the publisher
  key is a key pair with a non-empty public key, and the asset keys are distinct.
\<close>

theorem built_artifact_verifies:
  assumes build: "buildLedgerArtifact sha ed now input = Inr B"
    and ed_ok: "\<forall>msg seed. edv (ed_sign ed msg seed) msg (ed_getPublicKey ed seed) = Inr True"
    and pair: "tk_publicKey (bi_publisher input) = ed_getPublicKey ed (tk_secretKey (bi_publisher input))"
      "tk_publicKey (bi_publisher input) \<noteq> []"
    and keys: "distinct (map lf_assetKey (bi_leaves input))"
  shows "(\<exists>v. verifyLedgerArtifact sha edv B (Some (la_publisherPubkeyHex B)) = Inr v \<and> av_ok v \<and> av_issues v = [])
     \<and> lm_entryCount (la_manifest B) = int (length (bi_leaves input))
     \<and> lm_totalClaimableMario (la_manifest B)
         = dec_int (sum_list (map (\<lambda>l. case lf_amount l of None \<Rightarrow> 0 | Some a \<Rightarrow> the (js_BigInt a)) (la_leaves B)))
     \<and> (\<forall>l \<in> set (bi_leaves input). \<exists>m. proveMembership sha B (lf_assetKey l) = Inr m \<and> mp_leaf m = l
           \<and> verifyMembership sha m (lm_rootHex (la_manifest B)) = Inr True)"
proof -
  note f = build_artifact_Inr [OF build]
  have "lm_totalClaimableMario (la_manifest B)
      = dec_int (sum_list (map (\<lambda>l. case lf_amount l of None \<Rightarrow> 0 | Some a \<Rightarrow> the (js_BigInt a)) (la_leaves B)))"
    using f(7) total_of_leaves unfolding f(1) by metis
  moreover have "\<exists>v. verifyLedgerArtifact sha edv B (Some (la_publisherPubkeyHex B)) = Inr v \<and> av_ok v \<and> av_issues v = []"
    by (rule built_accepted [OF build _ pair(2)]) (simp add: keypair_sign_def pair(1) ed_ok)
  ultimately show ?thesis using f(4) built_membership [OF build keys] by blast
qed

section \<open>Witnesses\<close>

definition demo_leaf :: ledger_leaf where
  "demo_leaf = \<lparr>lf_recipientId = ''r'', lf_protocol = 0, lf_assetKey = ''token:a'', lf_assetType = AssetToken,
     lf_amount = Some ''5'', lf_antMint = None, lf_vaultEndTs = None, lf_status = ''available''\<rparr>"

definition demo_publisher_ed :: ed25519 where
  "demo_publisher_ed = \<lparr>ed_getPublicKey = \<lambda>s. [5], ed_sign = \<lambda>m s. [1]\<rparr>"

definition demo_artifact_input :: build_artifact_input where
  "demo_artifact_input = \<lparr>bi_leaves = [demo_leaf], bi_network = ''localnet'', bi_ledgerVersion = ''1'',
     bi_generatedAt = None, bi_inputFingerprints = None,
     bi_publisher = \<lparr>tk_role = RolePublisher, tk_secretKey = [9], tk_publicKey = [5]\<rparr>\<rparr>"

lemma demo_sorted: "sortLeaves [demo_leaf] = [demo_leaf]"
  by (simp add: sortLeaves_def)

lemma demo_artifact: "\<exists>B. buildLedgerArtifact demo_hash demo_publisher_ed ''now'' demo_artifact_input = Inr B"
proof -
  have "fold_result leaf_totals [demo_leaf] (0, 0, 0) = Inr (5, 1, 0)" by code_simp
  moreover have "lc_sortedLeaves (commitLedger demo_hash [demo_leaf]) = [demo_leaf]"
    by (simp add: commitLedger_def Let_def demo_sorted)
  ultimately show ?thesis by (simp add: buildLedgerArtifact_def Let_def demo_artifact_input_def)
qed

lemma demo_input_simps:
  "bi_leaves demo_artifact_input = [demo_leaf]"
  "bi_publisher demo_artifact_input = \<lparr>tk_role = RolePublisher, tk_secretKey = [9], tk_publicKey = [5]\<rparr>"
  by (simp_all add: demo_artifact_input_def)

theorem built_artifact_verifies_witness:
  "\<exists>B m. buildLedgerArtifact demo_hash demo_publisher_ed ''now'' demo_artifact_input = Inr B
     \<and> lm_totalClaimableMario (la_manifest B) = ''5''
     \<and> verifyMembership demo_hash m (lm_rootHex (la_manifest B)) = Inr True"
proof -
  obtain B where B: "buildLedgerArtifact demo_hash demo_publisher_ed ''now'' demo_artifact_input = Inr B"
    using demo_artifact by blast
  have five: "the (js_BigInt ''5'') = 5" "dec_int 5 = ''5''" by code_simp+
  have "la_leaves B = [demo_leaf]" using build_artifact_Inr(1) [OF B] by (simp add: demo_input_simps demo_sorted)
  then show ?thesis
    using built_artifact_verifies [OF B, of "\<lambda>sig msg pub. Inr True"] B five
    by (auto simp: demo_input_simps demo_publisher_ed_def demo_leaf_def)
qed


theorem membership_sound_witness:
  "\<exists>B m. buildLedgerArtifact demo_hash demo_publisher_ed ''now'' demo_artifact_input = Inr B
     \<and> verifyMembership demo_hash m (lm_rootHex (la_manifest B)) = Inr True \<and> mp_leaf m \<in> set (la_leaves B)"
proof -
  obtain B where B: "buildLedgerArtifact demo_hash demo_publisher_ed ''now'' demo_artifact_input = Inr B"
    using demo_artifact by blast
  obtain v where v: "verifyLedgerArtifact demo_hash (\<lambda>s m p. Inr True) B (Some (la_publisherPubkeyHex B)) = Inr v" "av_ok v"
    using built_accepted [OF B, of "\<lambda>s m p. Inr True"] by (auto simp: demo_input_simps)
  have L: "la_leaves B = [demo_leaf]" using build_artifact_Inr(1) [OF B] by (simp add: demo_input_simps demo_sorted)
  obtain m where m: "proveMembership demo_hash B (lf_assetKey demo_leaf) = Inr m" "mp_leaf m = demo_leaf"
    "verifyMembership demo_hash m (lm_rootHex (la_manifest B)) = Inr True"
    using built_membership [OF B, of demo_leaf] by (auto simp: demo_input_simps)
  have "mp_proof m = []"
    using m(1) by (auto simp: proveMembership_def commitLedger_def Let_def L demo_sorted and_then_Inr merkleProof_def
        proof_loop.simps split: if_splits)
  then have "mp_leaf m \<in> set (la_leaves B)"
    by (intro membership_sound [OF _ _ _ v m(3)])
      (simp_all add: L m(2) demo_sorted no_collision_def tree_inputs_def tree_pairs.simps demo_hash_def)
  then show ?thesis using B m(3) by blast
qed

end
