(* ===== verification/Transparency.thy ===== *)
theory Transparency
  imports Ledger_Artifact
begin

text \<open>
  Anchors on the chain (\<open>transparency/anchor.ts\<close>), the stored snapshots and anchors
  (\<open>transparency/store.ts\<close>), the reserves report (\<open>transparency/reserves.ts\<close>), the configuration
  (\<open>transparency/config.ts\<close>) and the read endpoints over them (\<open>api/transparency.ts\<close>). Chain reads
  are \<open>io\<close> computations.
\<close>

section \<open>Anchor memos\<close>

datatype anchor_kind = AuditHead | LedgerRoot

definition auditHeadMemo :: "string \<Rightarrow> string \<Rightarrow> string \<Rightarrow> string" where
  "auditHeadMemo seq entryHashHex network =
     ''ar.io-audit-anchor:v1:'' @ network @ '':'' @ seq @ '':'' @ entryHashHex"

definition ledgerRootMemo :: "string \<Rightarrow> string \<Rightarrow> string \<Rightarrow> string" where
  "ledgerRootMemo ledgerVersion rootHex network =
     ''ar.io-ledger-root:v1:'' @ network @ '':'' @ ledgerVersion @ '':'' @ rootHex"

record parsed_anchor_memo =
  pm_kind :: anchor_kind
  pm_network :: string
  pm_ref :: string
  pm_hashHex :: string

definition parseAnchorMemo :: "string \<Rightarrow> parsed_anchor_memo option" where
  "parseAnchorMemo memo =
     (let parts = js_split CHR '':'' memo in
      if length parts \<noteq> 5 \<or> parts ! 1 \<noteq> ''v1'' then None
      else if parts ! 0 = ''ar.io-audit-anchor''
      then Some \<lparr>pm_kind = AuditHead, pm_network = parts ! 2, pm_ref = parts ! 3, pm_hashHex = parts ! 4\<rparr>
      else if parts ! 0 = ''ar.io-ledger-root''
      then Some \<lparr>pm_kind = LedgerRoot, pm_network = parts ! 2, pm_ref = parts ! 3, pm_hashHex = parts ! 4\<rparr>
      else None)"

definition anchor_memoIx :: "string \<Rightarrow> string \<Rightarrow> string \<Rightarrow> instruction" where
  "anchor_memoIx memoText signer memoProgram =
     \<lparr>ix_programAddress = memoProgram, ix_accounts = [(signer, READONLY_SIGNER)], ix_data = utf8_encode memoText\<rparr>"

record anchor_result =
  an_signature :: string
  an_memo :: string
  an_memoProgram :: string
  an_blockhash :: string
  an_lastValidBlockHeight :: int
  an_confirmed :: bool

definition submitAnchor ::
  "('w, instruction) gateway \<Rightarrow> string \<Rightarrow> string \<Rightarrow> string option \<Rightarrow> ('w, anchor_result) io" where
  "submitAnchor G signer memoText memoProgram' =
     (let memoProgram = (case memoProgram' of Some p \<Rightarrow> p | None \<Rightarrow> MEMO_PROGRAM);
          ix = anchor_memoIx memoText signer memoProgram in
      io_bind (gw_signTransaction G [ix] signer) (\<lambda>signed.
      io_bind (gw_broadcast G (sd_wireBase64 signed)) (\<lambda>_.
      io_bind (gw_confirmSignature G (sd_signature signed) (sd_lastValidBlockHeight signed)) (\<lambda>state.
      io_return \<lparr>an_signature = sd_signature signed, an_memo = memoText, an_memoProgram = memoProgram,
        an_blockhash = sd_blockhash signed, an_lastValidBlockHeight = sd_lastValidBlockHeight signed,
        an_confirmed = (state = StateConfirmed)\<rparr>))))"

text \<open>What \<open>getTransaction\<close> returns, as far as it is read; \<open>meta\<close> may be null.\<close>

record chain_tx =
  ct_slot :: int
  ct_meta :: "(string option \<times> string list) option"
  ct_accountKeys :: "string list"
  ct_numRequiredSignatures :: "nat option"
  ct_instructions :: "(nat \<times> string) list"

record fetched_anchor =
  fa_memo :: string
  fa_slot :: int
  fa_err :: "string option"
  fa_feePayer :: "string option"
  fa_signers :: "string list"

text \<open>
  The first match of \<open>/Memo \(len \d+\): "(.*)"$/\<close> in a log line: the text between the quotes; a dot
  matches no line terminator.
\<close>

definition strip_prefix :: "string \<Rightarrow> string \<Rightarrow> string option" where
  "strip_prefix p s = (if take (length p) s = p then Some (drop (length p) s) else None)"

definition memo_line_at :: "string \<Rightarrow> string option" where
  "memo_line_at s = (case strip_prefix ''Memo (len '' s of
       None \<Rightarrow> None
     | Some r \<Rightarrow> if takeWhile digit_char r = [] then None
         else case strip_prefix ('')'' @ '': '' @ [CHR 0x22]) (dropWhile digit_char r) of
             None \<Rightarrow> None
           | Some body \<Rightarrow> if body \<noteq> [] \<and> last body = CHR 0x22 \<and> list_all (\<lambda>c. c \<notin> {CHR 0x0A, CHR 0x0D}) body
               then Some (butlast body) else None)"

fun memo_line :: "string \<Rightarrow> string option" where
  "memo_line [] = None"
| "memo_line (c # s) = (case memo_line_at (c # s) of Some m \<Rightarrow> Some m | None \<Rightarrow> memo_line s)"

fun memo_in_logs :: "string list \<Rightarrow> string option" where
  "memo_in_logs [] = None"
| "memo_in_logs (l # ls) = (case memo_line l of Some m \<Rightarrow> Some m | None \<Rightarrow> memo_in_logs ls)"

text \<open>\<open>tr_text\<close> is \<open>TextDecoder.decode\<close> and \<open>tr_b58\<close> is \<open>bs58.decode\<close>, which throws.\<close>

record text_reader =
  tr_text :: "bytes \<Rightarrow> string"
  tr_b58 :: "string \<Rightarrow> string + bytes"

definition key_at :: "string list \<Rightarrow> nat \<Rightarrow> string option" where
  "key_at keys i = (if i < length keys then Some (keys ! i) else None)"

definition read_anchor_memo :: "text_reader \<Rightarrow> string \<Rightarrow> chain_tx \<Rightarrow> string + fetched_anchor option" where
  "read_anchor_memo T memoProgram tx =
     (let keys = ct_accountKeys tx;
          numSigners = (case ct_numRequiredSignatures tx of Some n \<Rightarrow> n | None \<Rightarrow> 1);
          logs = (case ct_meta tx of Some (e, ls) \<Rightarrow> ls | None \<Rightarrow> []);
          result = (\<lambda>memo. \<lparr>fa_memo = memo, fa_slot = ct_slot tx,
            fa_err = (case ct_meta tx of Some (e, ls) \<Rightarrow> e | None \<Rightarrow> None),
            fa_feePayer = key_at keys 0, fa_signers = take numSigners keys\<rparr>)
      in case find (\<lambda>(i, data). key_at keys i = Some memoProgram) (ct_instructions tx) of
           Some (i, data) \<Rightarrow> and_then (tr_b58 T data) (\<lambda>bytes. Inr (Some (result (tr_text T bytes))))
         | None \<Rightarrow> Inr (map_option result (memo_in_logs logs)))"

definition fetchAnchorMemo ::
  "text_reader \<Rightarrow> (string \<Rightarrow> ('w, chain_tx option) io) \<Rightarrow> string \<Rightarrow> string \<Rightarrow> ('w, fetched_anchor option) io" where
  "fetchAnchorMemo T getTransaction signature memoProgram =
     io_bind (getTransaction signature) (\<lambda>res. case res of
         None \<Rightarrow> io_return None
       | Some tx \<Rightarrow> (\<lambda>w. (read_anchor_memo T memoProgram tx, w)))"

definition anchorSignedBy :: "fetched_anchor \<Rightarrow> string \<Rightarrow> bool" where
  "anchorSignedBy fetched expectedAnchorAddress =
     (expectedAnchorAddress \<in> set (fa_signers fetched) \<or> fa_feePayer fetched = Some expectedAnchorAddress)"

section \<open>The store\<close>

record stored_ledger =
  st_id :: nat
  st_ledgerVersion :: string
  st_rootHash :: bytes
  st_entryCount :: int
  st_totalClaimableMario :: string
  st_artifact :: ledger_artifact
  st_signature :: bytes
  st_publisherPubkey :: bytes
  st_createdAt :: string

record anchor_row =
  ar_id :: nat
  ar_kind :: anchor_kind
  ar_anchoredRef :: string
  ar_headHash :: bytes
  ar_target :: string
  ar_network :: string
  ar_txid :: "string option"
  ar_slot :: "int option"
  ar_memo :: string
  ar_confirmed :: bool
  ar_createdAt :: string

text \<open>The tables \<open>published_ledger\<close> and \<open>audit_anchors\<close>, in the order of their ids.\<close>

record transparency_store =
  ts_ledgers :: "stored_ledger list"
  ts_anchors :: "anchor_row list"

definition asset_leaf :: "db \<Rightarrow> asset_row \<Rightarrow> ledger_leaf option" where
  "asset_leaf d a = map_option (\<lambda>r. \<lparr>lf_recipientId = as_recipient_id a, lf_protocol = rc_protocol r,
       lf_assetKey = as_asset_key a, lf_assetType = as_asset_type a, lf_amount = map_option dec_int (as_amount a),
       lf_antMint = as_ant_mint a, lf_vaultEndTs = as_vault_end_ts a, lf_status = asset_status_str (as_status a)\<rparr>)
     (find_recipient d (as_recipient_id a))"

definition buildLeavesFromDb :: "db \<Rightarrow> ledger_leaf list" where
  "buildLeavesFromDb d = List.map_filter (asset_leaf d)
     (sort_key as_asset_key (filter (\<lambda>a. as_status a \<noteq> Cancelled) (db_assets d)))"

definition next_id :: "('r \<Rightarrow> nat) \<Rightarrow> 'r list \<Rightarrow> nat" where
  "next_id f rows = (if rows = [] then 1 else f (last rows) + 1)"

definition persistPublishedLedger ::
  "string \<Rightarrow> ledger_artifact \<Rightarrow> transparency_store \<Rightarrow> (string + nat) \<times> transparency_store" where
  "persistPublishedLedger now artifact s =
     (let m = la_manifest artifact in
      case and_then (fromHex (lm_rootHex m)) (\<lambda>rootb. and_then (fromHex (la_signatureHex artifact)) (\<lambda>sig.
             and_then (fromHex (la_publisherPubkeyHex artifact)) (\<lambda>pub. Inr (rootb, sig, pub)))) of
        Inl e \<Rightarrow> (Inl e, s)
      | Inr (rootb, sig, pub) \<Rightarrow>
          (let i = next_id st_id (ts_ledgers s);
               row = \<lparr>st_id = i, st_ledgerVersion = lm_ledgerVersion m, st_rootHash = rootb,
                 st_entryCount = lm_entryCount m, st_totalClaimableMario = lm_totalClaimableMario m,
                 st_artifact = artifact, st_signature = sig, st_publisherPubkey = pub, st_createdAt = now\<rparr>
           in (Inr i, s\<lparr>ts_ledgers := ts_ledgers s @ [row]\<rparr>)))"

definition getLatestPublishedLedger :: "transparency_store \<Rightarrow> stored_ledger option" where
  "getLatestPublishedLedger s = (if ts_ledgers s = [] then None else Some (last (ts_ledgers s)))"

text \<open>The text of a \<open>bigint\<close> parameter: white space, a sign and digits.\<close>

definition pg_bigint :: "string \<Rightarrow> string + int" where
  "pg_bigint s = (let (neg, ds) = strip_sign (js_trim s) in
     if ds \<noteq> [] \<and> list_all digit_char ds
     then Inr ((if neg then - 1 else 1) * int (digits_value 10 dec_value ds))
     else Inl (''invalid input syntax for type bigint: '' @ s))"

definition getPublishedLedgerById :: "transparency_store \<Rightarrow> string \<Rightarrow> string + stored_ledger option" where
  "getPublishedLedgerById s i = and_then (pg_bigint i) (\<lambda>n. Inr (find (\<lambda>r. int (st_id r) = n) (ts_ledgers s)))"

record anchor_args =
  aa_kind :: anchor_kind
  aa_anchoredRef :: string
  aa_headHashHex :: string
  aa_target :: string
  aa_network :: string
  aa_txid :: "string option"
  aa_slot :: "int option"
  aa_memo :: string
  aa_confirmed :: bool

definition recordAnchor :: "string \<Rightarrow> anchor_args \<Rightarrow> transparency_store \<Rightarrow> (string + nat) \<times> transparency_store" where
  "recordAnchor now a s = (case fromHex (aa_headHashHex a) of
       Inl e \<Rightarrow> (Inl e, s)
     | Inr hash \<Rightarrow>
         (let i = next_id ar_id (ts_anchors s);
              row = \<lparr>ar_id = i, ar_kind = aa_kind a, ar_anchoredRef = aa_anchoredRef a, ar_headHash = hash,
                ar_target = aa_target a, ar_network = aa_network a, ar_txid = aa_txid a, ar_slot = aa_slot a,
                ar_memo = aa_memo a, ar_confirmed = aa_confirmed a, ar_createdAt = now\<rparr>
          in (Inr i, s\<lparr>ts_anchors := ts_anchors s @ [row]\<rparr>)))"

definition getAnchors :: "transparency_store \<Rightarrow> anchor_kind option \<Rightarrow> nat option \<Rightarrow> anchor_row list" where
  "getAnchors s kind limit =
     (let rows = rev (filter (\<lambda>r. case kind of None \<Rightarrow> True | Some k \<Rightarrow> ar_kind r = k) (ts_anchors s))
      in case limit of None \<Rightarrow> rows | Some n \<Rightarrow> take n rows)"

definition getLatestAuditAnchor :: "transparency_store \<Rightarrow> anchor_row option" where
  "getLatestAuditAnchor s = (case getAnchors s (Some AuditHead) (Some 1) of [] \<Rightarrow> None | r # rs \<Rightarrow> Some r)"

section \<open>Reserves\<close>

record ledger_liabilities =
  ll_outstandingMario :: int
  ll_claimedMario :: int
  ll_totalMario :: int
  ll_outstandingAnts :: nat
  ll_claimedAnts :: nat
  ll_totalAnts :: nat

text \<open>A scope of \<open>None\<close> is the whole ledger. \<open>SUM\<close> skips null amounts.\<close>

definition in_scope :: "string list option \<Rightarrow> asset_row \<Rightarrow> bool" where
  "in_scope scope a = (case scope of None \<Rightarrow> True | Some ks \<Rightarrow> as_asset_key a \<in> set ks)"

definition amount_sum :: "(asset_row \<Rightarrow> bool) \<Rightarrow> asset_row list \<Rightarrow> int" where
  "amount_sum P rows =
     sum_list (map (\<lambda>a. case as_amount a of Some v \<Rightarrow> v | None \<Rightarrow> 0)
       (filter (\<lambda>a. as_asset_type a \<in> {AssetToken, AssetVault} \<and> P a) rows))"

definition ant_count :: "(asset_row \<Rightarrow> bool) \<Rightarrow> asset_row list \<Rightarrow> nat" where
  "ant_count P rows = length (filter (\<lambda>a. as_asset_type a = AssetAnt \<and> P a) rows)"

definition outstanding :: "asset_row \<Rightarrow> bool" where
  "outstanding a = (as_status a \<notin> {A_claimed, Cancelled, ManualReview})"

definition readLiabilities :: "string list option \<Rightarrow> db \<Rightarrow> ledger_liabilities" where
  "readLiabilities scope d =
     (let rows = filter (in_scope scope) (db_assets d) in
      \<lparr>ll_outstandingMario = amount_sum outstanding rows,
       ll_claimedMario = amount_sum (\<lambda>a. as_status a = A_claimed) rows,
       ll_totalMario = amount_sum (\<lambda>a. as_status a \<noteq> Cancelled) rows,
       ll_outstandingAnts = ant_count outstanding rows,
       ll_claimedAnts = ant_count (\<lambda>a. as_status a = A_claimed) rows,
       ll_totalAnts = ant_count (\<lambda>a. as_status a \<noteq> Cancelled) rows\<rparr>)"

text \<open>The 32 bytes after the first one of the account.\<close>

definition readCoreOwner :: "kit \<Rightarrow> 'w rpc \<Rightarrow> string \<Rightarrow> ('w, string option) io" where
  "readCoreOwner K R asset =
     io_bind (rpc_getAccountInfo R asset) (\<lambda>res. io_return (case res of
         None \<Rightarrow> None
       | Some data \<Rightarrow> let raw = take 32 (drop 1 data) in
           if length raw < 32 then None else Some (k_decodeAddress K raw)))"

record ant_sample =
  sm_authority :: string
  sm_checked :: nat
  sm_matchingAuthority :: nat
  sm_outstandingTotal :: nat

fun sample_loop :: "kit \<Rightarrow> 'w rpc \<Rightarrow> string \<Rightarrow> string list \<Rightarrow> nat \<times> nat \<Rightarrow> ('w, nat \<times> nat) io" where
  "sample_loop K R authority [] acc = io_return acc"
| "sample_loop K R authority (m # ms) (checked, matching) =
     io_bind (readCoreOwner K R m) (\<lambda>owner.
       sample_loop K R authority ms (checked + 1, if owner = Some authority then matching + 1 else matching))"

text \<open>\<open>snap\<close> is the database a query sees; a sample size of \<open>NaN\<close> is \<open>None\<close>, and its query fails.\<close>

definition sample_mints :: "string list option \<Rightarrow> nat \<Rightarrow> db \<Rightarrow> string list" where
  "sample_mints scope sampleSize d = take sampleSize (List.map_filter as_ant_mint
     (sort_key as_asset_key (filter (\<lambda>a. as_asset_type a = AssetAnt \<and> as_status a \<notin> {A_claimed, Cancelled}
        \<and> in_scope scope a) (db_assets d))))"

definition sampleAntHoldings ::
  "kit \<Rightarrow> ('w \<Rightarrow> db) \<Rightarrow> 'w rpc \<Rightarrow> string \<Rightarrow> int option \<Rightarrow> string list option \<Rightarrow> ('w, ant_sample) io" where
  "sampleAntHoldings K snap R authority sampleSize scope = (\<lambda>w.
     case sampleSize of None \<Rightarrow> (Inl ''invalid input syntax for type bigint: NaN'', w)
     | Some n \<Rightarrow> if n < 0 then (Inl ''LIMIT must not be negative'', w) else
     let mints = sample_mints scope (nat n) (snap w);
         total = length (filter (\<lambda>a. as_asset_type a = AssetAnt \<and> as_status a \<notin> {A_claimed, Cancelled} \<and> in_scope scope a)
           (db_assets (snap w)))
     in io_bind (sample_loop K R authority mints (0, 0)) (\<lambda>(checked, matching).
          io_return \<lparr>sm_authority = authority, sm_checked = checked, sm_matchingAuthority = matching,
            sm_outstandingTotal = total\<rparr>) w)"

datatype ant_check = AntOff | AntSample "int option" | AntGpa

datatype ant_holdings = HoldSample ant_sample | HoldCount string nat

datatype ant_coverage = CoveredBool bool | SampledOnly

record reserves_report =
  rr_network :: string
  rr_generatedAt :: string
  rr_mint :: string
  rr_hotDispenser :: string
  rr_hotFloatMario :: string
  rr_coldReserve :: "string option"
  rr_coldReserveMario :: string
  rr_totalReserveMario :: string
  rr_antHoldings :: "ant_holdings option"
  rr_outstandingMario :: string
  rr_claimedMario :: string
  rr_totalLedgerMario :: string
  rr_outstandingAnts :: nat
  rr_claimedAnts :: nat
  rr_totalAnts :: nat
  rr_tokenVaultCovered :: bool
  rr_surplusMario :: string
  rr_antCovered :: "ant_coverage option"

text \<open>\<open>ri_gpa\<close> counts the program accounts of an owner; an empty cold reserve is falsy.\<close>

record 'w reserves_input =
  ri_snap :: "'w \<Rightarrow> db"
  ri_gateway :: "('w, instruction) gateway"
  ri_rpc :: "'w rpc option"
  ri_gpa :: "string \<Rightarrow> ('w, nat) io"
  ri_network :: string
  ri_mint :: string
  ri_hotDispenser :: string
  ri_coldReserve :: "string option"
  ri_antAuthority :: "string option"
  ri_antCheck :: "ant_check option"
  ri_assetScope :: "string list option"

definition cold_balance :: "kit \<Rightarrow> 'w reserves_input \<Rightarrow> string \<Rightarrow> ('w, int) io" where
  "cold_balance K I hotAccount =
     (if truthy (ri_coldReserve I)
      then let coldAta = getAssociatedTokenAddress K (the (ri_coldReserve I)) (ri_mint I) in
        if coldAta \<noteq> hotAccount then gw_getTokenBalance (ri_gateway I) coldAta else io_return 0
      else io_return 0)"

definition ant_holdings_of :: "kit \<Rightarrow> 'w reserves_input \<Rightarrow> string \<Rightarrow> ('w, ant_holdings option) io" where
  "ant_holdings_of K I authority =
     (case (ri_rpc I, ri_antCheck I) of
        (Some R, Some (AntSample n)) \<Rightarrow>
          io_bind (sampleAntHoldings K (ri_snap I) R authority n (ri_assetScope I)) (\<lambda>s. io_return (Some (HoldSample s)))
      | (Some R, Some AntGpa) \<Rightarrow> io_bind (ri_gpa I authority) (\<lambda>n. io_return (Some (HoldCount authority n)))
      | _ \<Rightarrow> io_return None)"

definition coverage_of :: "ant_holdings option \<Rightarrow> nat \<Rightarrow> ant_coverage option" where
  "coverage_of holdings outstandingAnts = (case holdings of
       None \<Rightarrow> None
     | Some (HoldCount a n) \<Rightarrow> Some (CoveredBool (n \<ge> outstandingAnts))
     | Some (HoldSample s) \<Rightarrow> Some SampledOnly)"

definition computeReserves :: "kit \<Rightarrow> string \<Rightarrow> 'w reserves_input \<Rightarrow> ('w, reserves_report) io" where
  "computeReserves K now I =
     (if truthy (ri_coldReserve I) \<and> ri_coldReserve I = Some (ri_hotDispenser I)
      then (\<lambda>w. (Inl ''reserves misconfig: coldReserve owner == hotDispenser - the same custody would be counted twice (false surplus). Use distinct addresses.'', w))
      else let hotAccount = getAssociatedTokenAddress K (ri_hotDispenser I) (ri_mint I) in
        io_bind (gw_getTokenBalance (ri_gateway I) hotAccount) (\<lambda>hotFloatMario w.
        let liab = readLiabilities (ri_assetScope I) (ri_snap I w) in
        io_bind (cold_balance K I hotAccount) (\<lambda>coldReserveMario.
        let totalReserveMario = hotFloatMario + coldReserveMario;
            antAuthority = (case ri_antAuthority I of Some a \<Rightarrow> a | None \<Rightarrow> ri_hotDispenser I) in
        io_bind (ant_holdings_of K I antAuthority) (\<lambda>antHoldings.
        io_return \<lparr>rr_network = ri_network I, rr_generatedAt = now, rr_mint = ri_mint I,
          rr_hotDispenser = ri_hotDispenser I, rr_hotFloatMario = dec_int hotFloatMario,
          rr_coldReserve = ri_coldReserve I, rr_coldReserveMario = dec_int coldReserveMario,
          rr_totalReserveMario = dec_int totalReserveMario, rr_antHoldings = antHoldings,
          rr_outstandingMario = dec_int (ll_outstandingMario liab), rr_claimedMario = dec_int (ll_claimedMario liab),
          rr_totalLedgerMario = dec_int (ll_totalMario liab), rr_outstandingAnts = ll_outstandingAnts liab,
          rr_claimedAnts = ll_claimedAnts liab, rr_totalAnts = ll_totalAnts liab,
          rr_tokenVaultCovered = (totalReserveMario \<ge> ll_outstandingMario liab),
          rr_surplusMario = dec_int (totalReserveMario - ll_outstandingMario liab),
          rr_antCovered = coverage_of antHoldings (ll_outstandingAnts liab)\<rparr>)) w))"

section \<open>Configuration\<close>

text \<open>\<open>parseInt\<close> of the sample size may be \<open>NaN\<close>; a target is any string of the environment.\<close>

record transparency_config =
  tc_mint :: "string option"
  tc_hotDispenser :: "string option"
  tc_coldReserve :: "string option"
  tc_antAuthority :: "string option"
  tc_antCheck :: ant_check
  tc_anchorTarget :: string
  tc_anchorMemoProgram :: "string option"
  tc_publisherPubkeyHex :: "string option"
  tc_auditPubkeyHex :: "string option"

definition env_address :: "(string \<Rightarrow> string + string) \<Rightarrow> env \<Rightarrow> string \<Rightarrow> string + string option" where
  "env_address addr env name =
     (if truthy (env name) then and_then (addr (the (env name))) (\<lambda>a. Inr (Some a)) else Inr None)"

definition loadTransparencyConfig :: "(string \<Rightarrow> string + string) \<Rightarrow> env \<Rightarrow> string + transparency_config" where
  "loadTransparencyConfig addr env =
     (let antMode = env_or env ''RESERVES_ANT_CHECK'' ''off'';
          antCheck = (if antMode = ''sample''
              then AntSample (parse_int10 (env_or env ''RESERVES_ANT_SAMPLE_SIZE'' ''25''))
            else if antMode = ''gpa'' then AntGpa else AntOff)
      in and_then (env_address addr env ''ARIO_MINT'') (\<lambda>mint.
         and_then (env_address addr env ''TREASURY_ADDRESS'') (\<lambda>hot.
         and_then (env_address addr env ''COLD_RESERVE_ADDRESS'') (\<lambda>cold.
         and_then (env_address addr env ''ANT_AUTHORITY_ADDRESS'') (\<lambda>authority.
         Inr \<lparr>tc_mint = mint, tc_hotDispenser = hot, tc_coldReserve = cold, tc_antAuthority = authority,
              tc_antCheck = antCheck, tc_anchorTarget = env_or env ''ANCHOR_TARGET'' ''solana-memo'',
              tc_anchorMemoProgram = env ''ANCHOR_MEMO_PROGRAM'',
              tc_publisherPubkeyHex = env ''LEDGER_PUBLISHER_PUBKEY_HEX'',
              tc_auditPubkeyHex = env ''AUDIT_PUBKEY_HEX''\<rparr>)))))"

section \<open>Read endpoints\<close>

definition api_error_of :: "int \<Rightarrow> string \<Rightarrow> string \<Rightarrow> api_error" where
  "api_error_of status code message = \<lparr>ae_status = status, ae_code = code, ae_message = message\<rparr>"

record published_view =
  pv_id :: nat
  pv_publishedAt :: string
  pv_manifest :: ledger_manifest
  pv_signatureHex :: string
  pv_publisherPubkeyHex :: string
  pv_leaves :: "ledger_leaf list option"

text \<open>A failed query is a server error, \<open>Inl None\<close>; \<open>Inl (Some e)\<close> is an error of the API.\<close>

definition query :: "string + 'a \<Rightarrow> api_error option + 'a" where
  "query r = (case r of Inl e \<Rightarrow> Inl None | Inr x \<Rightarrow> Inr x)"

definition find_published :: "transparency_store \<Rightarrow> string option \<Rightarrow> api_error option + stored_ledger" where
  "find_published s i =
     and_then (if truthy i then query (getPublishedLedgerById s (the i)) else Inr (getLatestPublishedLedger s)) (\<lambda>latest.
       case latest of None \<Rightarrow> Inl (Some (api_error_of 404 ''NO_LEDGER_PUBLISHED'' ''no ledger has been published yet''))
       | Some l \<Rightarrow> Inr l)"

definition getPublishedLedger ::
  "transparency_store \<Rightarrow> bool \<Rightarrow> string option \<Rightarrow> api_error option + published_view" where
  "getPublishedLedger s full i =
     and_then (find_published s i) (\<lambda>latest. let artifact = st_artifact latest in
       Inr \<lparr>pv_id = st_id latest, pv_publishedAt = st_createdAt latest, pv_manifest = la_manifest artifact,
            pv_signatureHex = la_signatureHex artifact, pv_publisherPubkeyHex = la_publisherPubkeyHex artifact,
            pv_leaves = (if full then Some (la_leaves artifact) else None)\<rparr>)"

record proof_view =
  pf_ledgerVersion :: string
  pf_rootHex :: string
  pf_signatureHex :: string
  pf_publisherPubkeyHex :: string
  pf_membership :: membership_proof
  pf_verifiesAgainstRoot :: bool

definition getLedgerProof ::
  "(bytes \<Rightarrow> bytes) \<Rightarrow> transparency_store \<Rightarrow> string \<Rightarrow> string option \<Rightarrow> api_error option + proof_view" where
  "getLedgerProof sha s assetKey i =
     (if assetKey = [] then Inl (Some (api_error_of 400 ''INVALID_REQUEST'' ''assetKey is required''))
      else and_then (find_published s i) (\<lambda>latest. let artifact = st_artifact latest in
        case proveMembership sha artifact assetKey of
          Inl e \<Rightarrow> Inl (Some (api_error_of 404 ''ASSET_NOT_IN_LEDGER'' (''asset '' @ assetKey @ '' is not in the committed ledger'')))
        | Inr m \<Rightarrow> and_then (query (verifyMembership sha m (lm_rootHex (la_manifest artifact)))) (\<lambda>ok.
            Inr \<lparr>pf_ledgerVersion = lm_ledgerVersion (la_manifest artifact), pf_rootHex = lm_rootHex (la_manifest artifact),
                 pf_signatureHex = la_signatureHex artifact, pf_publisherPubkeyHex = la_publisherPubkeyHex artifact,
                 pf_membership = m, pf_verifiesAgainstRoot = ok\<rparr>)))"

text \<open>A limit that is absent or not finite is \<open>None\<close>; finite ones are integers here.\<close>

definition clampLimit :: "int option \<Rightarrow> int \<Rightarrow> int \<Rightarrow> int" where
  "clampLimit limit def' mx = (let n = (case limit of None \<Rightarrow> def' | Some l \<Rightarrow> l) in min (max n 1) mx)"

record log_view =
  lv_head :: "(nat \<times> string) option"
  lv_entries :: "audit_row list"

definition getAuditLog :: "db \<Rightarrow> nat option \<Rightarrow> int option \<Rightarrow> log_view" where
  "getAuditLog d sinceSeq limit =
     \<lparr>lv_head = getAuditHead (db_audit d),
      lv_entries = loadAuditRows (db_audit d) (case sinceSeq of Some n \<Rightarrow> n | None \<Rightarrow> 0) (Some (nat (clampLimit limit 200 1000)))\<rparr>"

definition getAnchorList :: "transparency_store \<Rightarrow> anchor_kind option \<Rightarrow> int option \<Rightarrow> anchor_row list" where
  "getAnchorList s kind limit = getAnchors s kind (Some (nat (clampLimit limit 50 500)))"

definition getReserves ::
  "kit \<Rightarrow> string \<Rightarrow> 'w reserves_input \<Rightarrow> transparency_config \<Rightarrow> ('w, api_error + reserves_report) io" where
  "getReserves K now deps tconfig =
     (if \<not> truthy (tc_mint tconfig) \<or> \<not> truthy (tc_hotDispenser tconfig)
      then io_return (Inl (api_error_of 503 ''RESERVES_NOT_CONFIGURED''
        ''reserves endpoint needs ARIO_MINT + TREASURY_ADDRESS configured''))
      else io_bind (computeReserves K now (deps\<lparr>ri_mint := the (tc_mint tconfig),
          ri_hotDispenser := the (tc_hotDispenser tconfig), ri_coldReserve := tc_coldReserve tconfig,
          ri_antAuthority := tc_antAuthority tconfig, ri_antCheck := Some (tc_antCheck tconfig),
          ri_assetScope := None\<rparr>)) (\<lambda>r. io_return (Inr r)))"

definition getTransparencyStatus :: "transparency_store \<Rightarrow> db \<Rightarrow> string option \<times> (nat \<times> string) option" where
  "getTransparencyStatus s d =
     (map_option (\<lambda>l. hex_encode (st_rootHash l)) (getLatestPublishedLedger s), getAuditHead (db_audit d))"

section \<open>Anchors read back\<close>

lemma anchor_parts:
  assumes "CHR '':'' \<notin> set p" "CHR '':'' \<notin> set v"
  shows "js_split CHR '':'' (p @ '':'' @ v @ '':'' @ n @ '':'' @ r @ '':'' @ h) = p # v # js_split CHR '':'' (n @ '':'' @ r @ '':'' @ h)"
  using assms by (simp add: js_split_append)

lemma three_parts:
  "length (js_split CHR '':'' (n @ '':'' @ r @ '':'' @ h)) = 3 \<longleftrightarrow>
     CHR '':'' \<notin> set n \<and> CHR '':'' \<notin> set r \<and> CHR '':'' \<notin> set h"
  by (auto simp: length_js_split count_list_append count_list_0_iff)

lemma parse_memo_parts:
  assumes "p \<in> {''ar.io-audit-anchor'', ''ar.io-ledger-root''}"
  shows "parseAnchorMemo (p @ '':v1:'' @ n @ '':'' @ r @ '':'' @ h) =
     (if CHR '':'' \<notin> set n \<and> CHR '':'' \<notin> set r \<and> CHR '':'' \<notin> set h
      then Some \<lparr>pm_kind = (if p = ''ar.io-audit-anchor'' then AuditHead else LedgerRoot),
                 pm_network = n, pm_ref = r, pm_hashHex = h\<rparr> else None)"
proof -
  have p: "CHR '':'' \<notin> set p" using assms by auto
  have s: "js_split CHR '':'' (p @ '':v1:'' @ n @ '':'' @ r @ '':'' @ h) = p # ''v1'' # js_split CHR '':'' (n @ '':'' @ r @ '':'' @ h)"
    using anchor_parts [OF p, of "''v1''" n r h] by simp
  show ?thesis
  proof (cases "CHR '':'' \<notin> set n \<and> CHR '':'' \<notin> set r \<and> CHR '':'' \<notin> set h")
    case True
    then have "js_split CHR '':'' (n @ '':'' @ r @ '':'' @ h) = [n, r, h]"
      by (simp add: js_split_append js_split_no_sep)
    then show ?thesis using assms True unfolding parseAnchorMemo_def s by (auto simp: Let_def)
  next
    case False
    then have "length (js_split CHR '':'' (n @ '':'' @ r @ '':'' @ h)) \<noteq> 3" using three_parts by blast
    then show ?thesis using False unfolding parseAnchorMemo_def s by (simp add: Let_def)
  qed
qed

text \<open>
  An anchor is read back exactly: parsing a posted memo gives its kind, network, reference and
  hash if and only if none of the three contains a colon, and nothing otherwise - so a ledger version
  that is an ISO time stamp, the default of the publishing tool, cannot be found by its own reader.
\<close>

theorem anchor_memo_round_trip:
  "parseAnchorMemo (auditHeadMemo seq hash network) =
     (if CHR '':'' \<notin> set network \<and> CHR '':'' \<notin> set seq \<and> CHR '':'' \<notin> set hash
      then Some \<lparr>pm_kind = AuditHead, pm_network = network, pm_ref = seq, pm_hashHex = hash\<rparr> else None)
   \<and> parseAnchorMemo (ledgerRootMemo version hash network) =
     (if CHR '':'' \<notin> set network \<and> CHR '':'' \<notin> set version \<and> CHR '':'' \<notin> set hash
      then Some \<lparr>pm_kind = LedgerRoot, pm_network = network, pm_ref = version, pm_hashHex = hash\<rparr> else None)
   \<and> parseAnchorMemo (ledgerRootMemo (iso_string now) hash network) = None"
proof (intro conjI)
  have "CHR '':'' \<in> set (iso_string now)" by (cases "civil_from_days (now div 86400000)") (simp add: iso_string_def Let_def)
  moreover have v: "parseAnchorMemo (ledgerRootMemo v hash network) =
     (if CHR '':'' \<notin> set network \<and> CHR '':'' \<notin> set v \<and> CHR '':'' \<notin> set hash
      then Some \<lparr>pm_kind = LedgerRoot, pm_network = network, pm_ref = v, pm_hashHex = hash\<rparr> else None)" for v
    using parse_memo_parts [of "''ar.io-ledger-root''" network v hash] by (simp add: ledgerRootMemo_def)
  ultimately show "parseAnchorMemo (ledgerRootMemo (iso_string now) hash network) = None" by simp
  show "parseAnchorMemo (ledgerRootMemo version hash network) =
     (if CHR '':'' \<notin> set network \<and> CHR '':'' \<notin> set version \<and> CHR '':'' \<notin> set hash
      then Some \<lparr>pm_kind = LedgerRoot, pm_network = network, pm_ref = version, pm_hashHex = hash\<rparr> else None)"
    by (rule v)
  show "parseAnchorMemo (auditHeadMemo seq hash network) =
     (if CHR '':'' \<notin> set network \<and> CHR '':'' \<notin> set seq \<and> CHR '':'' \<notin> set hash
      then Some \<lparr>pm_kind = AuditHead, pm_network = network, pm_ref = seq, pm_hashHex = hash\<rparr> else None)"
    using parse_memo_parts [of "''ar.io-audit-anchor''" network seq hash] by (simp add: auditHeadMemo_def)
qed

section \<open>Liabilities over time\<close>

text \<open>Every claim that has won holds an asset that is being claimed, under review or claimed.\<close>

definition held :: "db \<Rightarrow> bool" where
  "held d = (\<forall>c \<in> set (db_claims d). won (cl_status c) \<longrightarrow>
     (\<forall>a \<in> set (db_assets d). as_asset_key a = cl_asset_key c \<longrightarrow> in_hand (as_status a)))"

text \<open>An asset keeps its status, or goes from one outstanding status to another or to claimed.\<close>

definition asset_progress :: "asset_row \<Rightarrow> asset_row \<Rightarrow> bool" where
  "asset_progress a a' = (set_asset_status Available a' = set_asset_status Available a
     \<and> (as_status a' = as_status a \<or> outstanding a \<and> (outstanding a' \<or> as_status a' = A_claimed)))"

abbreviation assets_progress :: "db \<Rightarrow> db \<Rightarrow> bool" where
  "assets_progress d d' \<equiv> list_all2 asset_progress (db_assets d) (db_assets d')"

lemma asset_progress_refl [simp]: "asset_progress a a" by (simp add: asset_progress_def)

lemma assets_progress_same [simp]: "list_all2 asset_progress as as"
  by (simp add: list_all2_refl)

lemma progress_row_update:
  assumes "\<And>a. a \<in> set as \<Longrightarrow> as_asset_key a = k \<Longrightarrow> asset_progress a (g a)"
  shows "list_all2 asset_progress as (row_update as_asset_key k g as)"
  using assms by (simp add: row_update_def list_all2_map2 list_all2_same)

lemma outstanding_in_hand: "in_hand (as_status a) \<Longrightarrow> outstanding a \<or> as_status a = A_claimed"
  by (auto simp: in_hand_def outstanding_def)

lemma bounded_held:
  assumes "bounded_change d d'" and "db_inv d" and "held d"
  shows "held d' \<and> assets_progress d d'"
proof -
  consider "db_claims d' = db_claims d" "db_assets d' = db_assets d"
    | cid c f g where "find_claim d cid = Some c" "won (cl_status c)"
      "db_claims d' = row_update cl_claim_id cid f (db_claims d)"
      "db_assets d' = row_update as_asset_key (cl_asset_key c) g (db_assets d)"
      "\<And>c. cl_asset_key (f c) = cl_asset_key c"
      "\<And>a. set_asset_status Available (g a) = set_asset_status Available a"
      "\<And>a. as_status a = A_claimed \<Longrightarrow> as_status (g a) = A_claimed"
      "\<And>a. as_status (g a) = as_status a \<or> in_hand (as_status (g a))"
    using assms(1) unfolding bounded_change_def by blast
  then show ?thesis
  proof cases
    case 1
    then show ?thesis using assms(3) by (simp add: held_def)
  next
    case (2 cid c f g)
    have c: "c \<in> set (db_claims d)" "cl_claim_id c = cid" using find_claim_mem [OF 2(1)] by auto
    have key: "as_asset_key (g a) = as_asset_key a" for a
      using arg_cong [OF 2(6) [of a], of as_asset_key] by simp
    have hand: "in_hand (as_status a)" if "a \<in> set (db_assets d)" "as_asset_key a = cl_asset_key c" for a
      using assms(3) c(1) 2(2) that by (simp add: held_def)
    have step: "in_hand (as_status (g a))" "asset_progress a (g a)"
      if "a \<in> set (db_assets d)" "as_asset_key a = cl_asset_key c" for a
    proof -
      show g: "in_hand (as_status (g a))" using hand [OF that] 2(8) [of a] by metis
      then show "asset_progress a (g a)"
        using 2(6,7) [of a] outstanding_in_hand [OF hand [OF that]] outstanding_in_hand [OF g] by (auto simp: asset_progress_def)
    qed
    have "held d'" unfolding held_def
    proof (intro ballI impI)
      fix x a assume x: "x \<in> set (db_claims d')" "won (cl_status x)" and a: "a \<in> set (db_assets d')" "as_asset_key a = cl_asset_key x"
      have same: "y = c" if "y \<in> set (db_claims d)" "cl_claim_id y = cid" for y
        using assms(2) that c row_unique [of cl_claim_id "db_claims d" y c] by (simp add: db_inv_def claims_inv_def)
      from x(1) obtain y where y: "y \<in> set (db_claims d)" "x = (if cl_claim_id y = cid then f y else y)"
        by (auto simp: 2(3) row_update_def)
      have "won (cl_status y)" "cl_asset_key y = cl_asset_key x"
        using y x(2) same [OF y(1)] 2(2,5) by (auto split: if_splits)
      moreover from a(1) obtain b where b: "b \<in> set (db_assets d)" "a = (if as_asset_key b = cl_asset_key c then g b else b)"
        by (auto simp: 2(4) row_update_def)
      moreover have "as_asset_key b = cl_asset_key x" using b(2) a(2) key by (auto split: if_splits)
      ultimately show "in_hand (as_status a)"
        using assms(3) y(1) step(1) [of b] by (auto simp: held_def)
    qed
    moreover have "assets_progress d d'" unfolding 2(4) by (rule progress_row_update) (rule step(2))
    ultimately show ?thesis by blast
  qed
qed

lemma reservation_held:
  assumes "reservation_change d d'" and "held d"
  shows "held d' \<and> assets_progress d d'"
proof -
  obtain f where f: "db_assets d' = db_assets d" "db_claims d' = map f (db_claims d)"
    "\<forall>c \<in> set (db_claims d). reserved_like c (f c)"
    using assms(1) by (auto simp: reservation_change_def)
  have "won (cl_status c) \<and> cl_asset_key (f c) = cl_asset_key c"
    if "c \<in> set (db_claims d)" "won (cl_status (f c))" for c
    using f(3) that reserved_like_fields(2) [of c "f c"] by (auto simp: reserved_like_def)
  then show ?thesis using assms(2) f(1,2) by (fastforce simp: held_def)
qed

lemma service_held:
  assumes "service_step E d d'" and "db_inv d" and "held d"
  shows "held d' \<and> assets_progress d d'"
  using assms(1)
proof (cases rule: service_step.cases)
  case (step_win c now a pf st ast e sl settlement)
  let ?f = "won_row st (cp_signature pf) sl settlement now"
  have d: "db_claims d' = row_update cl_claim_id (cl_claim_id c) ?f (db_claims d)"
    "db_assets d' = row_update as_asset_key (as_asset_key a) (set_asset_status ast) (db_assets d)"
    using step_win(1) by (simp_all add: update_claim_def update_asset_def)
  have ast: "in_hand ast" using step_win(9) by auto
  have one: "b = a" if "b \<in> set (db_assets d)" "as_asset_key b = as_asset_key a" for b
    using assms(2) that step_win(5) row_unique [of as_asset_key "db_assets d" b a] by (simp add: db_inv_def claims_inv_def)
  have "held d'" unfolding held_def
  proof (intro ballI impI)
    fix x b assume x: "x \<in> set (db_claims d')" "won (cl_status x)" and b: "b \<in> set (db_assets d')" "as_asset_key b = cl_asset_key x"
    from b(1) obtain b0 where b0: "b0 \<in> set (db_assets d)" "b = (if as_asset_key b0 = as_asset_key a then set_asset_status ast b0 else b0)"
      by (auto simp: d(2) row_update_def)
    show "in_hand (as_status b)"
    proof (cases "as_asset_key b0 = as_asset_key a")
      case False
      with b0(2) have b': "b = b0" by simp
      then have kx: "cl_asset_key x \<noteq> cl_asset_key c" using False b(2) step_win(6) by simp
      from x(1) obtain y where y: "y \<in> set (db_claims d)" "x = (if cl_claim_id y = cl_claim_id c then ?f y else y)"
        by (auto simp: d(1) row_update_def)
      have "cl_claim_id y \<noteq> cl_claim_id c"
      proof
        assume e: "cl_claim_id y = cl_claim_id c"
        then have "y = c"
          using assms(2) y(1) step_win(2) row_unique [of cl_claim_id "db_claims d" y c] by (simp add: db_inv_def claims_inv_def)
        then show False using y(2) kx by (simp add: won_row_def set_claim_status_def)
      qed
      then have "x = y" using y(2) by simp
      then show ?thesis using assms(3) x(2) y(1) b(2) b0(1) b' unfolding held_def by blast
    qed (use b0 ast in simp)
  qed
  moreover have "assets_progress d d'" unfolding d(2)
  proof (rule progress_row_update)
    fix b assume "b \<in> set (db_assets d)" "as_asset_key b = as_asset_key a"
    then have "b = a" by (rule one)
    then show "asset_progress b (set_asset_status ast b)"
      using step_win(7) ast by (auto simp: asset_progress_def outstanding_def in_hand_def)
  qed
  ultimately show ?thesis by blast
qed (use assms(3) in \<open>auto simp: held_def rejectClaim_def expireClaim_def reap_row_def update_claim_def row_update_def split: if_splits\<close>)

lemma system_held:
  assumes "system_step E d d'" and "db_inv d" and "held d"
  shows "held d' \<and> assets_progress d d'"
  using assms(1,2)
  by (cases rule: system_step_cases) (use assms service_held bounded_held reservation_held in blast)+

lemma system_run_held:
  assumes "(system_step E)\<^sup>*\<^sup>* d d'" and "db_inv d" and "held d"
  shows "db_inv d' \<and> held d' \<and> list_all2 (asset_progress\<^sup>*\<^sup>*) (db_assets d) (db_assets d')"
  using assms(1)
proof (induction rule: rtranclp_induct)
  case base
  show ?case using assms(2,3) by (simp add: list_all2_refl)
next
  case (step y z)
  then have "held z \<and> assets_progress y z" using system_held by blast
  moreover have "db_inv z" using step(2,3) claims_system.step_inv by blast
  moreover have "list_all2 (asset_progress\<^sup>*\<^sup>*) (db_assets d) (db_assets z)"
    by (rule list_all2_trans [OF _ conjunct2 [OF conjunct2 [OF step(3)]] conjunct2 [OF calculation(1)]]) auto
  ultimately show ?case by blast
qed

lemma progress_fields:
  assumes "asset_progress\<^sup>*\<^sup>* a a'"
  shows "as_asset_key a' = as_asset_key a \<and> as_asset_type a' = as_asset_type a \<and> as_amount a' = as_amount a
     \<and> (as_status a' = Cancelled \<longleftrightarrow> as_status a = Cancelled) \<and> (as_status a' = ManualReview \<longleftrightarrow> as_status a = ManualReview)
     \<and> (as_status a = A_claimed \<longrightarrow> as_status a' = A_claimed)"
  using assms
proof (induction rule: rtranclp_induct)
  case (step y z)
  have "as_asset_key z = as_asset_key y" "as_asset_type z = as_asset_type y" "as_amount z = as_amount y"
    using step(2) arg_cong [of _ _ as_asset_key] arg_cong [of _ _ as_asset_type] arg_cong [of _ _ as_amount]
    by (auto simp: asset_progress_def set_asset_status_def) (metis asset_row.ext_inject asset_row.surjective asset_row.update_convs)+
  moreover have "(as_status z = Cancelled \<longleftrightarrow> as_status y = Cancelled) \<and> (as_status z = ManualReview \<longleftrightarrow> as_status y = ManualReview)
     \<and> (as_status y = A_claimed \<longrightarrow> as_status z = A_claimed)"
    using step(2) by (auto simp: asset_progress_def outstanding_def)
  ultimately show ?case using step(3) by metis
qed simp

text \<open>Both sums are sums of weights over the rows in scope.\<close>

definition weigh :: "(asset_row \<Rightarrow> int) \<Rightarrow> string list option \<Rightarrow> (asset_row \<Rightarrow> bool) \<Rightarrow> asset_row list \<Rightarrow> int" where
  "weigh w scope P rows = sum_list (map (\<lambda>a. if in_scope scope a \<and> P a then w a else 0) rows)"

definition mario_weight :: "asset_row \<Rightarrow> int" where
  "mario_weight a = (if as_asset_type a \<in> {AssetToken, AssetVault} then (case as_amount a of Some v \<Rightarrow> v | None \<Rightarrow> 0) else 0)"

definition ant_weight :: "asset_row \<Rightarrow> int" where
  "ant_weight a = (if as_asset_type a = AssetAnt then 1 else 0)"

lemma amount_sum_weigh: "amount_sum P (filter (in_scope scope) rows) = weigh mario_weight scope P rows"
  by (induction rows) (auto simp: amount_sum_def weigh_def mario_weight_def)

lemma ant_count_weigh: "int (ant_count P (filter (in_scope scope) rows)) = weigh ant_weight scope P rows"
  by (induction rows) (auto simp: ant_count_def weigh_def ant_weight_def)

lemma weigh_progress:
  assumes "list_all2 (asset_progress\<^sup>*\<^sup>*) as as'"
    and "\<And>a. a \<in> set as \<Longrightarrow> 0 \<le> w a"
    and w: "\<And>a a'. as_asset_type a' = as_asset_type a \<Longrightarrow> as_amount a' = as_amount a \<Longrightarrow> w a' = w a"
  shows "weigh w scope (\<lambda>a. as_status a \<noteq> Cancelled) as' = weigh w scope (\<lambda>a. as_status a \<noteq> Cancelled) as
     \<and> weigh w scope outstanding as' + weigh w scope (\<lambda>a. as_status a = A_claimed) as'
       = weigh w scope outstanding as + weigh w scope (\<lambda>a. as_status a = A_claimed) as
     \<and> weigh w scope outstanding as' \<le> weigh w scope outstanding as"
  using assms(1,2)
proof (induction rule: list_all2_induct)
  case (Cons a as a' as')
  note p = progress_fields [OF Cons(1)]
  have "in_scope scope a' = in_scope scope a" using p by (simp add: in_scope_def split: option.split)
  moreover have "w a' = w a" using w p by blast
  moreover have "outstanding a' \<Longrightarrow> outstanding a" "outstanding a \<and> \<not> outstanding a' \<Longrightarrow> as_status a' = A_claimed"
    "outstanding x \<Longrightarrow> as_status x \<noteq> A_claimed" for x
    using p by (auto simp: outstanding_def)
  moreover have "as_status a = A_claimed \<Longrightarrow> as_status a' = A_claimed" "as_status a' = A_claimed \<Longrightarrow> outstanding a \<or> as_status a = A_claimed"
    using p by (auto simp: outstanding_def)
  moreover have "0 \<le> w a" using Cons.prems by simp
  ultimately show ?case using Cons.IH Cons.prems p by (auto simp: weigh_def add_increasing)
qed (simp add: weigh_def)

text \<open>
  C40. The liability the reserves are measured against is conserved: over any run of the service, the
  dispatch worker and the operator, the total of the ledger does not change, what is outstanding plus
  what is claimed does not change, and what is outstanding never grows - for tokens and vaults and for
  ANTs, over any scope. It is assumed that the run starts with the tables' invariants and with amounts
  that are not negative.
\<close>

theorem liabilities_conserved:
  assumes "(system_step E)\<^sup>*\<^sup>* d d'" and "db_inv d" and "held d"
    and "\<forall>a \<in> set (db_assets d). case as_amount a of Some v \<Rightarrow> 0 \<le> v | None \<Rightarrow> True"
  shows "ll_totalMario (readLiabilities scope d') = ll_totalMario (readLiabilities scope d)
     \<and> ll_totalAnts (readLiabilities scope d') = ll_totalAnts (readLiabilities scope d)
     \<and> ll_outstandingMario (readLiabilities scope d') + ll_claimedMario (readLiabilities scope d')
         = ll_outstandingMario (readLiabilities scope d) + ll_claimedMario (readLiabilities scope d)
     \<and> ll_outstandingAnts (readLiabilities scope d') + ll_claimedAnts (readLiabilities scope d')
         = ll_outstandingAnts (readLiabilities scope d) + ll_claimedAnts (readLiabilities scope d)
     \<and> ll_outstandingMario (readLiabilities scope d') \<le> ll_outstandingMario (readLiabilities scope d)
     \<and> ll_outstandingAnts (readLiabilities scope d') \<le> ll_outstandingAnts (readLiabilities scope d)"
proof -
  have p: "list_all2 (asset_progress\<^sup>*\<^sup>*) (db_assets d) (db_assets d')" using system_run_held [OF assms(1-3)] by blast
  have "0 \<le> mario_weight a" if "a \<in> set (db_assets d)" for a
    using assms(4) that by (auto simp: mario_weight_def split: option.splits)
  note m = weigh_progress [OF p this, where scope = scope]
  note n = weigh_progress [OF p, of ant_weight, where scope = scope]
  have "weigh mario_weight scope (\<lambda>a. as_status a \<noteq> Cancelled) (db_assets d') = weigh mario_weight scope (\<lambda>a. as_status a \<noteq> Cancelled) (db_assets d)
     \<and> weigh mario_weight scope outstanding (db_assets d') + weigh mario_weight scope (\<lambda>a. as_status a = A_claimed) (db_assets d')
       = weigh mario_weight scope outstanding (db_assets d) + weigh mario_weight scope (\<lambda>a. as_status a = A_claimed) (db_assets d)
     \<and> weigh mario_weight scope outstanding (db_assets d') \<le> weigh mario_weight scope outstanding (db_assets d)"
    by (rule m) (simp_all add: mario_weight_def)
  moreover have "weigh ant_weight scope (\<lambda>a. as_status a \<noteq> Cancelled) (db_assets d') = weigh ant_weight scope (\<lambda>a. as_status a \<noteq> Cancelled) (db_assets d)
     \<and> weigh ant_weight scope outstanding (db_assets d') + weigh ant_weight scope (\<lambda>a. as_status a = A_claimed) (db_assets d')
       = weigh ant_weight scope outstanding (db_assets d) + weigh ant_weight scope (\<lambda>a. as_status a = A_claimed) (db_assets d)
     \<and> weigh ant_weight scope outstanding (db_assets d') \<le> weigh ant_weight scope outstanding (db_assets d)"
    by (rule n) (simp_all add: ant_weight_def)
  ultimately show ?thesis
    unfolding amount_sum_weigh [symmetric] ant_count_weigh [symmetric]
    by (simp add: readLiabilities_def Let_def flip: of_nat_add)
qed

theorem liabilities_conserved_witness:
  "\<exists>d d'. (system_step demo_env)\<^sup>*\<^sup>* d d' \<and> ll_outstandingMario (readLiabilities None d) = 5
     \<and> ll_outstandingMario (readLiabilities None d') = 0 \<and> ll_claimedMario (readLiabilities None d') = 5"
proof -
  let ?c = "(demo_claim ''a'' [])\<lparr>cl_status := Dispatching\<rparr>"
  let ?a = "(demo_asset_row ''a'')\<lparr>as_status := A_claiming, as_asset_type := AssetToken, as_amount := Some 5\<rparr>"
  define d where "d = (demo_db ''a'')\<lparr>db_claims := [?c], db_assets := [?a]\<rparr>"
  have inv: "db_inv d" "held d"
    by (simp_all add: db_inv_def claims_inv_def held_def d_def demo_db_def holds_asset_def demo_claim_def
        new_claim_row_def demo_asset_row_def)
  have f: "find_claim d ''c1'' = Some ?c"
    by (simp add: d_def row_find_def demo_claim_def new_claim_row_def)
  let ?d' = "finalizeConfirmed demo_env 9 ''c1'' ''sig'' d"
  have "dispatch_step demo_env d ?d'" by (rule step_finalize [OF f]) simp
  then have run: "(system_step demo_env)\<^sup>*\<^sup>* d ?d'" by (simp add: system_step_def r_into_rtranclp)
  have "ll_outstandingMario (readLiabilities None d) = 5" "ll_claimedMario (readLiabilities None d) = 0"
    by (simp_all add: readLiabilities_def Let_def amount_sum_def in_scope_def d_def outstanding_def demo_asset_row_def)
  moreover have "db_assets ?d' = [?a\<lparr>as_status := A_claimed\<rparr>]"
    using f by (simp add: finalizeConfirmed_def d_def update_asset_def update_claim_def row_update_def
        demo_claim_def new_claim_row_def demo_asset_row_def set_asset_status_def)
  then have "ll_outstandingMario (readLiabilities None ?d') = 0"
    by (simp add: readLiabilities_def Let_def amount_sum_def in_scope_def outstanding_def demo_asset_row_def)
  moreover note liabilities_conserved [OF run inv, of None]
  ultimately show ?thesis using run by (auto simp: d_def)
qed

end
