(* ===== verification/Transparency_Cli.thy ===== *)
theory Transparency_Cli
  imports Transparency
begin

text \<open>
  The command lines of the transparency layer as compositions of its parts: publishing the ledger
  (\<open>cli/publish-ledger.ts\<close>), anchoring the log and the root (\<open>cli/anchor-audit-log.ts\<close>) and the
  verifier of third parties (\<open>cli/verify-transparency.ts\<close>). An argument or a variable is an option;
  printed details are left out, the checks and the exit status are kept.
\<close>

section \<open>Publishing\<close>

text \<open>The artefact that is written, and the tables after it; nothing is stored that does not verify.\<close>

record publish_env =
  pe_sha :: "bytes \<Rightarrow> bytes"
  pe_ed :: ed25519
  pe_edv :: ed_verify
  pe_b58 :: "bytes \<Rightarrow> string"
  pe_box :: box_prims
  pe_files :: key_files
  pe_fingerprints :: "string \<Rightarrow> string + (string \<times> string) list"

definition box_text :: "box_error + 'a \<Rightarrow> string + 'a" where
  "box_text r = (case r of Inl (BoxText e) \<Rightarrow> Inl e | Inl (BoxKek k) \<Rightarrow> Inl [] | Inr x \<Rightarrow> Inr x)"

definition NO_PUBLISHER :: string where
  "NO_PUBLISHER = ''no publisher key: set LEDGER_PUBLISHER_SEED_BASE64, or LEDGER_PUBLISHER_KEY_SEALED_PATH + LEDGER_PUBLISHER_KEY_PASSPHRASE''"

definition load_publisher :: "publish_env \<Rightarrow> env \<Rightarrow> string + transparency_keypair" where
  "load_publisher P env =
     and_then (box_text (loadTransparencyKeypair (pe_ed P) (pe_box P) (pe_files P) RolePublisher env)) (\<lambda>kp.
       case kp of None \<Rightarrow> Inl NO_PUBLISHER
       | Some k \<Rightarrow> and_then (assertTransparencyKeysDistinct (pe_b58 P) [k] (loadReservedAddresses (pe_b58 P) env)) (\<lambda>_. Inr k))"

definition published_version :: "string option \<Rightarrow> env \<Rightarrow> string \<Rightarrow> string" where
  "published_version arg env now = (case arg of Some v \<Rightarrow> v | None \<Rightarrow> env_or env ''LEDGER_VERSION'' now)"

definition publish_ledger ::
  "publish_env \<Rightarrow> env \<Rightarrow> string \<Rightarrow> string option \<Rightarrow> string \<Rightarrow> db \<Rightarrow> transparency_store
     \<Rightarrow> (string + ledger_artifact) \<times> transparency_store" where
  "publish_ledger P env network version now d s =
     (if \<not> truthy (env ''DATABASE_URL'') then (Inl ''DATABASE_URL is required'', s)
      else case and_then (load_publisher P env) (\<lambda>publisher.
        and_then (if truthy (env ''LEDGER_FINGERPRINTS_PATH'')
                  then pe_fingerprints P (the (env ''LEDGER_FINGERPRINTS_PATH'')) else Inr []) (\<lambda>inputFingerprints.
        let leaves = buildLeavesFromDb d in
        if leaves = [] then Inl ''ledger is empty - build it first (yarn build:ledger)''
        else and_then (buildLedgerArtifact (pe_sha P) (pe_ed P) now
            \<lparr>bi_leaves = leaves, bi_network = network, bi_ledgerVersion = published_version version env now,
             bi_generatedAt = None, bi_inputFingerprints = Some inputFingerprints, bi_publisher = publisher\<rparr>) (\<lambda>artifact.
        and_then (verifyLedgerArtifact (pe_sha P) (pe_edv P) artifact (Some (toHex (tk_publicKey publisher)))) (\<lambda>check.
        if \<not> av_ok check then Inl ''self-verification failed'' else Inr artifact)))) of
        Inl e \<Rightarrow> (Inl e, s)
      | Inr artifact \<Rightarrow> (case persistPublishedLedger now artifact s of
            (Inl e, s') \<Rightarrow> (Inl e, s')
          | (Inr i, s') \<Rightarrow> (Inr artifact, s')))"

section \<open>Anchoring\<close>

text \<open>
  The steps on the log, up to the memo: the placeholder rows are signed, the whole chain is verified
  under the audit key, and the head is what is anchored. The second component is the log after it.
\<close>

definition anchor_head ::
  "(bytes \<Rightarrow> bytes) \<Rightarrow> ed_verify \<Rightarrow> ed25519 \<Rightarrow> transparency_keypair \<Rightarrow> audit_row list
     \<Rightarrow> (string + nat \<times> string) \<times> audit_row list" where
  "anchor_head sha edv ed audit rows0 =
     (let (signed, rows1) = signUnsignedAuditRows (keypair_sign ed audit) rows0;
          rows = loadAuditRows rows1 0 None;
          chain = verifyAuditChain sha edv rows (Some (tk_publicKey audit)) None
      in (if \<not> cv_ok chain then Inl ''refusing to anchor: audit chain invalid''
          else case getAuditHead rows1 of None \<Rightarrow> Inl ''audit log is empty - nothing to anchor'' | Some h \<Rightarrow> Inr h, rows1))"

text \<open>
  Posting the head and, if asked, the latest root; each anchor is recorded once its transaction has
  been confirmed or not. \<open>signer\<close> is the address of the publisher key.
\<close>

definition io_of :: "string + 'a \<Rightarrow> ('w, 'a) io" where
  "io_of r = (\<lambda>w. (r, w))"

definition anchor_audit_head ::
  "('w, instruction) gateway \<Rightarrow> string \<Rightarrow> string option \<Rightarrow> string \<Rightarrow> string \<Rightarrow> nat \<times> string \<Rightarrow> transparency_store
     \<Rightarrow> ('w, anchor_result \<times> transparency_store) io" where
  "anchor_audit_head G signer memoProgram network now head s =
     (let (seq, hash) = head; memo = auditHeadMemo (dec_nat seq) hash network in
      io_bind (submitAnchor G signer memo memoProgram) (\<lambda>anchor.
      io_of (case recordAnchor now \<lparr>aa_kind = AuditHead, aa_anchoredRef = dec_nat seq, aa_headHashHex = hash,
               aa_target = ''solana-memo'', aa_network = network, aa_txid = Some (an_signature anchor), aa_slot = None,
               aa_memo = memo, aa_confirmed = an_confirmed anchor\<rparr> s of
             (Inl e, s') \<Rightarrow> Inl e | (Inr i, s') \<Rightarrow> Inr (anchor, s'))))"

definition anchor_ledger_root ::
  "('w, instruction) gateway \<Rightarrow> string \<Rightarrow> string option \<Rightarrow> string \<Rightarrow> string \<Rightarrow> transparency_store
     \<Rightarrow> ('w, anchor_result option \<times> transparency_store) io" where
  "anchor_ledger_root G signer memoProgram network now s =
     (case getLatestPublishedLedger s of
        None \<Rightarrow> io_return (None, s)
      | Some latest \<Rightarrow>
          let rootHex = hex_encode (st_rootHash latest);
              memo = ledgerRootMemo (st_ledgerVersion latest) rootHex network in
          io_bind (submitAnchor G signer memo memoProgram) (\<lambda>anchor.
          io_of (case recordAnchor now \<lparr>aa_kind = LedgerRoot, aa_anchoredRef = dec_nat (st_id latest),
                   aa_headHashHex = rootHex, aa_target = ''solana-memo'', aa_network = network,
                   aa_txid = Some (an_signature anchor), aa_slot = None, aa_memo = memo,
                   aa_confirmed = an_confirmed anchor\<rparr> s of
                 (Inl e, s') \<Rightarrow> Inl e | (Inr i, s') \<Rightarrow> Inr (Some anchor, s'))))"

record anchor_report =
  ap_log :: "audit_row list"
  ap_store :: transparency_store
  ap_head :: "nat \<times> string"
  ap_anchored :: "anchor_result option"
  ap_rootAnchor :: "anchor_result option"

definition anchor_audit_log ::
  "(bytes \<Rightarrow> bytes) \<Rightarrow> ed_verify \<Rightarrow> ed25519 \<Rightarrow> ('w, instruction) gateway \<Rightarrow> transparency_keypair \<Rightarrow> string
     \<Rightarrow> transparency_config \<Rightarrow> string \<Rightarrow> string \<Rightarrow> bool \<Rightarrow> bool \<Rightarrow> audit_row list \<Rightarrow> transparency_store
     \<Rightarrow> ('w, anchor_report) io" where
  "anchor_audit_log sha edv ed G audit signer tconfig network now dryRun alsoLedgerRoot rows0 s =
     (case anchor_head sha edv ed audit rows0 of
        (Inl e, rows1) \<Rightarrow> io_of (Inl e)
      | (Inr head, rows1) \<Rightarrow>
          if dryRun \<or> tc_anchorTarget tconfig = ''none''
          then io_return \<lparr>ap_log = rows1, ap_store = s, ap_head = head, ap_anchored = None, ap_rootAnchor = None\<rparr>
          else if tc_anchorTarget tconfig = ''solana-memo''
          then io_bind (anchor_audit_head G signer (tc_anchorMemoProgram tconfig) network now head s) (\<lambda>(anchor, s1).
            if \<not> alsoLedgerRoot
            then io_return \<lparr>ap_log = rows1, ap_store = s1, ap_head = head, ap_anchored = Some anchor, ap_rootAnchor = None\<rparr>
            else io_bind (anchor_ledger_root G signer (tc_anchorMemoProgram tconfig) network now s1) (\<lambda>(rAnchor, s2).
              io_return \<lparr>ap_log = rows1, ap_store = s2, ap_head = head, ap_anchored = Some anchor, ap_rootAnchor = rAnchor\<rparr>))
          else io_of (Inl (''anchor target '' @ tc_anchorTarget tconfig @ '' not implemented (use solana-memo or none)'')))"

section \<open>The verifier\<close>

text \<open>
  The arguments and variables of a run. A check is its name and verdict, and a run passes when every
  check it made did. \<open>va_getTransaction\<close> reads a transaction from the endpoint of a URL.
\<close>

record 'w verifier =
  va_sha :: "bytes \<Rightarrow> bytes"
  va_edv :: ed_verify
  va_b58 :: "bytes \<Rightarrow> string"
  va_reader :: text_reader
  va_getTransaction :: "string \<Rightarrow> string \<Rightarrow> ('w, chain_tx option) io"
  va_arg :: "string \<Rightarrow> string option"
  va_env :: env

type_synonym checks = "(string \<times> bool) list"

definition pinned_publisher :: "'w verifier \<Rightarrow> string option" where
  "pinned_publisher V = (case va_arg V ''--publisher'' of Some p \<Rightarrow> Some p | None \<Rightarrow> va_env V ''LEDGER_PUBLISHER_PUBKEY_HEX'')"

definition resolveAnchorAddress :: "'w verifier \<Rightarrow> string option" where
  "resolveAnchorAddress V =
     (if truthy (va_arg V ''--anchor-address'') then va_arg V ''--anchor-address''
      else if truthy (pinned_publisher V) then Some (va_b58 V (hex_bytes (the (pinned_publisher V)))) else None)"

text \<open>The first pin: the checks made, and whether the root is pinned, \<open>None\<close> when the run returns.\<close>

definition root_pin_checks :: "'w verifier \<Rightarrow> ledger_artifact \<Rightarrow> fetched_anchor option \<Rightarrow> checks \<times> bool option" where
  "root_pin_checks V artifact fetched' =
     (case fetched' of
        None \<Rightarrow> ([(''ledger-root anchor tx confirmed'', False)], Some False)
      | Some fetched \<Rightarrow>
          if fa_err fetched \<noteq> None then ([(''ledger-root anchor tx confirmed'', False)], Some False)
          else if \<not> truthy (resolveAnchorAddress V)
          then ([(''ledger-root anchor SIGNER pinned (--anchor-address / --publisher)'', False)], None)
          else let signed = anchorSignedBy fetched (the (resolveAnchorAddress V)) in
            case parseAnchorMemo (fa_memo fetched) of
              Some parsed \<Rightarrow>
                if pm_kind parsed = LedgerRoot
                then let rootPinned = (signed \<and> pm_hashHex parsed = to_lower (lm_rootHex (la_manifest artifact))) in
                  ([(''ledger-root anchor SIGNED by the pinned publisher/anchor key'', signed),
                    (''artifact root == ON-CHAIN anchored ledger root'', rootPinned)], Some rootPinned)
                else ([(''ledger-root anchor SIGNED by the pinned publisher/anchor key'', signed),
                       (''anchor is an ar.io ledger-root anchor'', False)], Some False)
            | None \<Rightarrow> ([(''ledger-root anchor SIGNED by the pinned publisher/anchor key'', signed),
                         (''anchor is an ar.io ledger-root anchor'', False)], Some False))"

definition asset_checks :: "'w verifier \<Rightarrow> ledger_artifact \<Rightarrow> checks" where
  "asset_checks V artifact =
     (if \<not> truthy (va_arg V ''--asset'') then []
      else let k = the (va_arg V ''--asset'') in
        case and_then (proveMembership (va_sha V) artifact k) (\<lambda>m.
               verifyMembership (va_sha V) m (lm_rootHex (la_manifest artifact))) of
          Inl e \<Rightarrow> [(''membership proof for '' @ k, False)]
        | Inr ok \<Rightarrow> [(''membership proof for '' @ k, ok)])"

definition artifact_checks :: "'w verifier \<Rightarrow> ledger_artifact \<Rightarrow> bool \<Rightarrow> string + checks" where
  "artifact_checks V artifact rootPinned =
     (let pinnedPub = pinned_publisher V in
      if \<not> truthy pinnedPub \<and> \<not> rootPinned
      then Inr [(''publisher key PINNED (independent trust anchor supplied)'', False)]
      else and_then (verifyLedgerArtifact (va_sha V) (va_edv V) artifact pinnedPub) (\<lambda>v.
        Inr ([(''ledger root re-derives from leaves'', av_rootMatches v), (''whole-set digest matches'', av_digestMatches v),
              (''entry count matches'', av_countMatches v)]
             @ (if truthy pinnedPub
                then [(''artifact publisher pubkey == pinned key (no key-swap)'', av_pubkeyMatches v),
                      (''publisher signature valid over manifest (pinned key)'', av_signatureValid v)] else [])
             @ asset_checks V artifact)))"

definition verifyArtifactMode :: "'w verifier \<Rightarrow> ledger_artifact \<Rightarrow> ('w, checks) io" where
  "verifyArtifactMode V artifact =
     (case va_arg V ''--ledger-anchor-sig'' of
        Some sig \<Rightarrow>
          if sig = [] then io_of (artifact_checks V artifact False)
          else (case va_arg V ''--rpc'' of
              None \<Rightarrow> io_of (Inl ''--ledger-anchor-sig requires --rpc <url>'')
            | Some rpcUrl \<Rightarrow>
                if rpcUrl = [] then io_of (Inl ''--ledger-anchor-sig requires --rpc <url>'')
                else io_bind (fetchAnchorMemo (va_reader V) (va_getTransaction V rpcUrl) sig MEMO_PROGRAM) (\<lambda>fetched.
                  case root_pin_checks V artifact fetched of
                    (cs, None) \<Rightarrow> io_return cs
                  | (cs, Some rootPinned) \<Rightarrow> io_of (and_then (artifact_checks V artifact rootPinned) (\<lambda>cs'. Inr (cs @ cs')))))
      | None \<Rightarrow> io_of (artifact_checks V artifact False))"

text \<open>A row of a served log, whose \<open>entry\<close> has been parsed, with no stored canonical text.\<close>

record dump_row =
  du_seq :: nat
  du_prevHashHex :: string
  du_entryHashHex :: string
  du_signatureHex :: string
  du_entry :: json

definition auditRowsFromLogDump :: "dump_row list \<Rightarrow> audit_row list" where
  "auditRowsFromLogDump entries = map (\<lambda>e. \<lparr>ar_seq = du_seq e, ar_prevHash = hex_bytes (du_prevHashHex e),
     ar_entry = du_entry e, ar_entryCanonical = None, ar_entryHash = hex_bytes (du_entryHashHex e),
     ar_signature = hex_bytes (du_signatureHex e)\<rparr>) entries"

record extension_opts =
  eo_anchorSig :: string
  eo_rpcUrl :: string
  eo_anchorAddress :: "string option"
  eo_auditPubkey :: "bytes option"
  eo_memoProgram :: string

definition chain_checks :: "'w verifier \<Rightarrow> audit_row list \<Rightarrow> extension_opts \<Rightarrow> checks" where
  "chain_checks V rows opts =
     (let chain = verifyAuditChain (va_sha V) (va_edv V) rows (eo_auditPubkey opts) None in
      (''audit hash-chain linkage valid'', cv_ok chain)
      # (if eo_auditPubkey opts = None then []
         else [(''audit-key signatures valid'',
                cv_signatureValidCount chain = cv_signedCount chain \<and> cv_signedCount chain > 0)]))"

text \<open>\<open>BigInt\<close> of the parsed reference throws on a text that is no integer, if there is a row.\<close>

definition extends_anchor_ref ::
  "'w verifier \<Rightarrow> audit_row list \<Rightarrow> string \<Rightarrow> string \<Rightarrow> bytes option \<Rightarrow> string + bool" where
  "extends_anchor_ref V rows ref hashText auditPubkey =
     (case js_BigInt ref of
        None \<Rightarrow> if rows = [] then Inr False else Inl (''Cannot convert '' @ ref @ '' to a BigInt'')
      | Some i \<Rightarrow>
          if i < 0 \<or> dec_int i \<noteq> ref then Inr False
          else Inr (ec_ok (checkExtendsAnchor (va_sha V) (va_edv V) rows (nat i) hashText auditPubkey None)))"

definition anchor_checks :: "'w verifier \<Rightarrow> audit_row list \<Rightarrow> extension_opts \<Rightarrow> fetched_anchor option \<Rightarrow> string + checks" where
  "anchor_checks V rows opts fetched' =
     (case fetched' of
        None \<Rightarrow> Inr [(''verifier-pinned anchor tx found on-chain'', False)]
      | Some fetched \<Rightarrow>
          and_then (if \<not> truthy (eo_anchorAddress opts)
              then Inr [(''anchor SIGNER pinned (--anchor-address / --publisher)'', False)]
              else and_then (case parseAnchorMemo (fa_memo fetched) of
                  None \<Rightarrow> Inr [(''anchor memo is an ar.io audit-head anchor'', False)]
                | Some parsed \<Rightarrow>
                    if pm_kind parsed \<noteq> AuditHead then Inr [(''anchor memo is an ar.io audit-head anchor'', False)]
                    else and_then (extends_anchor_ref V rows (pm_ref parsed) (pm_hashHex parsed) (eo_auditPubkey opts)) (\<lambda>ok.
                      Inr [(''live log EXTENDS the on-chain anchored head'', ok)]))
                (\<lambda>cs. Inr ((''anchor tx SIGNED by the pinned publisher/anchor key'',
                    anchorSignedBy fetched (the (eo_anchorAddress opts))) # cs)))
            (\<lambda>cs. Inr ((''anchor tx confirmed (err=null)'', fa_err fetched = None) # cs)))"

definition verifyExtension :: "'w verifier \<Rightarrow> audit_row list \<Rightarrow> extension_opts \<Rightarrow> ('w, checks) io" where
  "verifyExtension V rows opts =
     io_bind (fetchAnchorMemo (va_reader V) (va_getTransaction V (eo_rpcUrl opts)) (eo_anchorSig opts) (eo_memoProgram opts))
       (\<lambda>fetched. io_of (and_then (anchor_checks V rows opts fetched) (\<lambda>cs. Inr (chain_checks V rows opts @ cs))))"

definition hexToBytes :: "string option \<Rightarrow> bytes option" where
  "hexToBytes hex = (if truthy hex then Some (hex_bytes (the hex)) else None)"

definition auditLogFileMode :: "'w verifier \<Rightarrow> dump_row list \<Rightarrow> ('w, checks) io" where
  "auditLogFileMode V entries =
     (if \<not> truthy (va_arg V ''--anchor-sig'') \<or> \<not> truthy (va_arg V ''--rpc'')
      then io_of (Inl ''--anchor-sig <sig> and --rpc <url> are required'')
      else verifyExtension V (auditRowsFromLogDump entries)
        \<lparr>eo_anchorSig = the (va_arg V ''--anchor-sig''), eo_rpcUrl = the (va_arg V ''--rpc''),
         eo_anchorAddress = resolveAnchorAddress V, eo_auditPubkey = hexToBytes (va_arg V ''--audit-pubkey''),
         eo_memoProgram = (case va_arg V ''--memo-program'' of Some p \<Rightarrow> p | None \<Rightarrow> MEMO_PROGRAM)\<rparr>)"

definition auditDbMode :: "'w verifier \<Rightarrow> string \<Rightarrow> db \<Rightarrow> ('w, checks) io" where
  "auditDbMode V solanaRpcUrl d =
     (if \<not> truthy (va_env V ''DATABASE_URL'') then io_of (Inl ''audit mode needs DATABASE_URL (or use audit-log <file>)'')
      else if \<not> truthy (va_arg V ''--anchor-sig'')
      then io_return [(''anchor txid PINNED by the verifier (--anchor-sig)'', False)]
      else verifyExtension V (loadAuditRows (db_audit d) 0 None)
        \<lparr>eo_anchorSig = the (va_arg V ''--anchor-sig''),
         eo_rpcUrl = (case va_arg V ''--rpc'' of Some u \<Rightarrow> u | None \<Rightarrow> solanaRpcUrl),
         eo_anchorAddress = resolveAnchorAddress V,
         eo_auditPubkey = hexToBytes (case va_arg V ''--audit-pubkey'' of Some k \<Rightarrow> Some k | None \<Rightarrow> va_env V ''AUDIT_PUBKEY_HEX''),
         eo_memoProgram = MEMO_PROGRAM\<rparr>)"

text \<open>Exit 0: no throw and no failed check.\<close>

definition passes :: "string + checks \<Rightarrow> bool" where
  "passes r = (case r of Inl e \<Rightarrow> False | Inr cs \<Rightarrow> list_all snd cs)"

section \<open>What a passing run shows\<close>

lemma passes_simps [simp]: "\<not> passes (Inl e)" "passes (Inr cs) = list_all snd cs"
  by (simp_all add: passes_def)

lemma artifact_checks_pass:
  assumes "passes (artifact_checks V A rootPinned)"
  shows "\<exists>v. verifyLedgerArtifact (va_sha V) (va_edv V) A (pinned_publisher V) = Inr v \<and> av_rootMatches v
     \<and> (truthy (pinned_publisher V) \<or> rootPinned) \<and> (truthy (pinned_publisher V) \<longrightarrow> av_ok v)"
proof -
  obtain cs where cs: "artifact_checks V A rootPinned = Inr cs" "list_all snd cs"
    using assms by (cases "artifact_checks V A rootPinned") auto
  have pin: "truthy (pinned_publisher V) \<or> rootPinned" using cs by (auto simp: artifact_checks_def Let_def split: if_splits)
  with cs obtain v where v: "verifyLedgerArtifact (va_sha V) (va_edv V) A (pinned_publisher V) = Inr v" "av_rootMatches v"
    "av_digestMatches v" "av_countMatches v" "truthy (pinned_publisher V) \<longrightarrow> av_pubkeyMatches v \<and> av_signatureValid v"
    by (cases "truthy (pinned_publisher V)") (auto simp: artifact_checks_def Let_def and_then_Inr)
  have "av_pinned v = truthy (pinned_publisher V)
     \<and> av_ok v = (av_pinned v \<and> av_rootMatches v \<and> av_signatureValid v \<and> av_pubkeyMatches v \<and> av_countMatches v \<and> av_digestMatches v)"
    using v(1) by (auto simp: verifyLedgerArtifact_def Let_def and_then_Inr)
  then show ?thesis using v pin by blast
qed

lemma root_pin_sound:
  assumes "root_pin_checks V A fetched' = (cs, Some True)"
  shows "\<exists>F P. fetched' = Some F \<and> fa_err F = None \<and> anchorSignedBy F (the (resolveAnchorAddress V))
     \<and> truthy (resolveAnchorAddress V) \<and> parseAnchorMemo (fa_memo F) = Some P \<and> pm_kind P = LedgerRoot
     \<and> pm_hashHex P = to_lower (lm_rootHex (la_manifest A))"
  using assms by (auto simp: root_pin_checks_def Let_def split: option.splits if_splits)

lemma root_matches:
  "verifyLedgerArtifact sha edv A key = Inr v \<Longrightarrow> av_rootMatches v
     \<Longrightarrow> to_lower (lm_rootHex (la_manifest A)) = lc_rootHex (commitLedger sha (la_leaves A))"
  by (auto simp: verifyLedgerArtifact_def Let_def and_then_Inr)

text \<open>
  C36. The verifier never passes an artefact without a pin: a passing run means that the artefact is
  accepted in full under the pinned publisher key, or that a transaction without error, signed by the
  pinned anchor address, carries the very root recomputed from the artefact's leaves.
\<close>

theorem verifier_needs_a_pin:
  assumes "passes (fst (verifyArtifactMode V A w))"
  shows "(truthy (pinned_publisher V)
        \<and> (\<exists>v. verifyLedgerArtifact (va_sha V) (va_edv V) A (pinned_publisher V) = Inr v \<and> av_ok v))
     \<or> (\<exists>url sig F w' P. va_arg V ''--ledger-anchor-sig'' = Some sig
        \<and> fetchAnchorMemo (va_reader V) (va_getTransaction V url) sig MEMO_PROGRAM w = (Inr (Some F), w')
        \<and> fa_err F = None \<and> truthy (resolveAnchorAddress V) \<and> anchorSignedBy F (the (resolveAnchorAddress V))
        \<and> parseAnchorMemo (fa_memo F) = Some P \<and> pm_kind P = LedgerRoot
        \<and> pm_hashHex P = lc_rootHex (commitLedger (va_sha V) (la_leaves A)))"
proof (cases "truthy (va_arg V ''--ledger-anchor-sig'')")
  case False
  then have "passes (artifact_checks V A False)"
    using assms by (auto simp: verifyArtifactMode_def io_of_def truthy_def split: option.splits if_splits)
  then show ?thesis using artifact_checks_pass by blast
next
  case True
  then obtain sig where sig: "va_arg V ''--ledger-anchor-sig'' = Some sig" "sig \<noteq> []" by (auto simp: truthy_def split: option.splits)
  with assms obtain url where url: "va_arg V ''--rpc'' = Some url" "url \<noteq> []"
    by (auto simp: verifyArtifactMode_def io_of_def split: option.splits if_splits)
  obtain r w' where fetch: "fetchAnchorMemo (va_reader V) (va_getTransaction V url) sig MEMO_PROGRAM w = (r, w')" by fastforce
  then obtain fetched' where r: "r = Inr fetched'"
    using assms sig url by (cases r) (auto simp: verifyArtifactMode_def io_bind_def)
  obtain cs pin where pc: "root_pin_checks V A fetched' = (cs, pin)" by fastforce
  have p: "case pin of None \<Rightarrow> list_all snd cs | Some b \<Rightarrow> list_all snd cs \<and> passes (artifact_checks V A b)"
    using assms sig url fetch r pc
    by (auto simp: verifyArtifactMode_def io_bind_def io_of_def io_return_def passes_def and_then_def split: option.splits sum.splits)
  then obtain b where b: "pin = Some b" "passes (artifact_checks V A b)"
    using pc by (cases pin) (auto simp: root_pin_checks_def Let_def split: option.splits if_splits)
  from artifact_checks_pass [OF b(2)] obtain v
    where v: "verifyLedgerArtifact (va_sha V) (va_edv V) A (pinned_publisher V) = Inr v" "av_rootMatches v"
      "truthy (pinned_publisher V) \<or> b" "truthy (pinned_publisher V) \<longrightarrow> av_ok v" by blast
  show ?thesis
  proof (cases "truthy (pinned_publisher V)")
    case False
    with v(3) have "b" by simp
    with pc b(1) root_pin_sound root_matches [OF v(1,2)] fetch r sig show ?thesis by metis
  qed (use v in blast)
qed

lemma extends_ref_row:
  assumes "extends_anchor_ref V rows (dec_nat n) hashText pub = Inr True"
  shows "\<exists>r \<in> set rows. ar_seq r = n \<and> hex_encode (ar_entryHash r) = to_lower hashText"
proof -
  have "js_BigInt (dec_nat n) = Some (int n)" "dec_int (int n) = dec_nat n"
    by (simp_all add: js_BigInt_dec_nat dec_int_def)
  then have "ec_ok (checkExtendsAnchor (va_sha V) (va_edv V) rows n hashText pub None)"
    using assms by (simp add: extends_anchor_ref_def)
  then obtain r where r: "find (\<lambda>r. ar_seq r = n) (filter (\<lambda>r. ar_seq r \<le> n) rows) = Some r"
    "hex_encode (ar_entryHash r) = to_lower hashText"
    by (auto simp: checkExtendsAnchor_def Let_def split: option.splits)
  have "r \<in> set (filter (\<lambda>r. ar_seq r \<le> n) rows) \<and> ar_seq r = n"
    using r(1) by (auto simp: find_Some_iff simp del: set_filter)
  then show ?thesis using r(2) by auto
qed

lemma extension_pass:
  assumes "passes (fst (verifyExtension V rows opts w))"
    and "fst (fetchAnchorMemo (va_reader V) (va_getTransaction V (eo_rpcUrl opts)) (eo_anchorSig opts) (eo_memoProgram opts) w) = Inr (Some F)"
    and "parseAnchorMemo (fa_memo F) = Some \<lparr>pm_kind = AuditHead, pm_network = network, pm_ref = dec_nat n, pm_hashHex = h\<rparr>"
  shows "cv_ok (verifyAuditChain (va_sha V) (va_edv V) rows (eo_auditPubkey opts) None)
     \<and> extends_anchor_ref V rows (dec_nat n) h (eo_auditPubkey opts) = Inr True
     \<and> fa_err F = None \<and> truthy (eo_anchorAddress opts) \<and> anchorSignedBy F (the (eo_anchorAddress opts))"
proof -
  obtain w' where f: "fetchAnchorMemo (va_reader V) (va_getTransaction V (eo_rpcUrl opts)) (eo_anchorSig opts) (eo_memoProgram opts) w
      = (Inr (Some F), w')"
    using assms(2) by (metis prod.collapse)
  obtain cs where cs: "anchor_checks V rows opts (Some F) = Inr cs" "list_all snd (chain_checks V rows opts)" "list_all snd cs"
    using assms(1) f by (auto simp: verifyExtension_def io_bind_def io_of_def and_then_def passes_def split: sum.splits)
  have chain: "cv_ok (verifyAuditChain (va_sha V) (va_edv V) rows (eo_auditPubkey opts) None)"
    using cs(2) by (simp add: chain_checks_def Let_def)
  have a: "truthy (eo_anchorAddress opts)" using cs(1,3) by (auto simp: anchor_checks_def split: if_splits)
  obtain ok where ok: "extends_anchor_ref V rows (dec_nat n) h (eo_auditPubkey opts) = Inr ok"
    using cs(1) a assms(3) by (auto simp: anchor_checks_def and_then_Inr)
  then show ?thesis using cs a assms(3) chain by (auto simp: anchor_checks_def)
qed

text \<open>
  C35. Anchored history cannot be rewritten: if the anchoring tool posted the head of a log, a served log
  that passes the verifier against that transaction starts with exactly the entries of the anchored
  log, whatever sequence numbers it shows. Relied on: the pinned transaction carries the memo the tool
  posted, sequence numbers are positive, and SHA-256 does not collide on the rows of the two logs and
  does not give the zero hash.
\<close>

theorem anchored_history_holds:
  assumes anchored: "anchor_head (va_sha V) (va_edv V) ed audit rows0 = (Inr (n, h), old)"
    and pos: "\<forall>r \<in> set rows0. 0 < ar_seq r"
    and args: "va_arg V ''--anchor-sig'' = Some sig" "va_arg V ''--rpc'' = Some url" "va_arg V ''--memo-program'' = None"
    and tx: "fst (fetchAnchorMemo (va_reader V) (va_getTransaction V url) sig MEMO_PROGRAM w) = Inr (Some F)"
    and memo: "fa_memo F = auditHeadMemo (dec_nat n) h network" "CHR '':'' \<notin> set network"
    and pass: "passes (fst (auditLogFileMode V entries w))"
    and sha: "\<forall>x. length (va_sha V x) = 32"
      "inj_on (va_sha V) (chain_inputs (auditRowsFromLogDump entries) \<union> chain_inputs old)"
      "ZERO32 \<notin> va_sha V ` (chain_inputs (auditRowsFromLogDump entries) \<union> chain_inputs old)"
  shows "\<exists>k. map row_canonical (take k (auditRowsFromLogDump entries)) = map row_canonical old"
proof -
  let ?rows = "auditRowsFromLogDump entries"
  have old: "cv_ok (verifyAuditChain (va_sha V) (va_edv V) old (Some (tk_publicKey audit)) None)" "getAuditHead old = Some (n, h)"
  proof -
    have "loadAuditRows old 0 None = old"
      using anchored pos by (auto simp: anchor_head_def signUnsignedAuditRows_def Let_def loadAuditRows_def filter_id_conv)
    then show "cv_ok (verifyAuditChain (va_sha V) (va_edv V) old (Some (tk_publicKey audit)) None)" "getAuditHead old = Some (n, h)"
      using anchored by (auto simp: anchor_head_def Let_def split: prod.splits if_splits option.splits)
  qed
  have h: "old \<noteq> []" "h = hex_encode (ar_entryHash (last old))"
    using old(2) by (auto simp: getAuditHead_def split: if_splits)
  have "CHR '':'' \<notin> set h" "CHR '':'' \<notin> set (dec_nat n)" unfolding h(2) by (simp_all)
  then have parsed: "parseAnchorMemo (fa_memo F) = Some \<lparr>pm_kind = AuditHead, pm_network = network, pm_ref = dec_nat n, pm_hashHex = h\<rparr>"
    using parse_memo_parts [of "''ar.io-audit-anchor''" network "dec_nat n" h] memo by (simp add: auditHeadMemo_def)
  define opts where "opts = \<lparr>eo_anchorSig = sig, eo_rpcUrl = url, eo_anchorAddress = resolveAnchorAddress V,
    eo_auditPubkey = hexToBytes (va_arg V ''--audit-pubkey''), eo_memoProgram = MEMO_PROGRAM\<rparr>"
  have "passes (fst (verifyExtension V ?rows opts w))"
    using pass args by (auto simp: auditLogFileMode_def opts_def io_of_def truthy_def split: if_splits)
  then have e: "cv_ok (verifyAuditChain (va_sha V) (va_edv V) ?rows (eo_auditPubkey opts) None)"
    "extends_anchor_ref V ?rows (dec_nat n) h (eo_auditPubkey opts) = Inr True"
    using extension_pass [of V ?rows opts w F network n h] tx parsed by (simp_all add: opts_def)
  from extends_ref_row [OF e(2)] obtain r where r: "r \<in> set ?rows" "hex_encode (ar_entryHash r) = h"
    unfolding h(2) by auto
  obtain xs ys where s: "?rows = xs @ r # ys" using split_list [OF r(1)] by blast
  then have sp: "?rows = (xs @ [r]) @ ys" by simp
  have v: "chain_valid (va_sha V) (va_edv V) (eo_auditPubkey opts) ZERO32 (xs @ [r])"
    using e(1) unfolding sp verifyAuditChain_ok by (simp add: chain_valid_append)
  have "chain_head ZERO32 (xs @ [r]) = chain_head ZERO32 old" using r(2) h by (simp add: chain_head_def)
  moreover have "chain_inputs (xs @ [r]) \<subseteq> chain_inputs ?rows" unfolding sp by (auto simp: chain_inputs_def)
  then have "chain_inputs (xs @ [r]) \<union> chain_inputs old \<subseteq> chain_inputs ?rows \<union> chain_inputs old" by blast
  then have "inj_on (va_sha V) (chain_inputs (xs @ [r]) \<union> chain_inputs old)"
    "ZERO32 \<notin> va_sha V ` (chain_inputs (xs @ [r]) \<union> chain_inputs old)"
    using inj_on_subset [OF sha(2)] sha(3) by blast+
  ultimately have "map row_canonical (xs @ [r]) = map row_canonical old"
    using chains_same_head [OF v _ sha(1)] old(1) by (simp add: verifyAuditChain_ok)
  then have "map row_canonical (take (length (xs @ [r])) ?rows) = map row_canonical old" unfolding sp by simp
  then show ?thesis by blast
qed

lemma hex_bytes_encode [simp]: "hex_bytes (hex_encode bs) = bs"
proof -
  have "hex_bytes (hex_encode bs) = map (\<lambda>i. bs ! i) [0..<length bs]"
    by (simp add: hex_bytes_def length_hex_encode hex_slice_encode parse_int16_hex_byte)
  then show ?thesis by (simp add: map_nth)
qed

section \<open>Witnesses\<close>

definition demo_verifier :: "(bytes \<Rightarrow> bytes) \<Rightarrow> (string \<Rightarrow> string option) \<Rightarrow> string \<Rightarrow> (string \<rightharpoonup> string) \<Rightarrow> unit verifier" where
  "demo_verifier sha args memo env = \<lparr>va_sha = sha, va_edv = \<lambda>s m p. Inr True, va_b58 = \<lambda>b. ''a'',
     va_reader = \<lparr>tr_text = \<lambda>b. memo, tr_b58 = \<lambda>s. Inr []\<rparr>,
     va_getTransaction = \<lambda>url sig. io_return (Some \<lparr>ct_slot = 1, ct_meta = None, ct_accountKeys = [''a'', MEMO_PROGRAM],
       ct_numRequiredSignatures = Some 1, ct_instructions = [(1, ''x'')]\<rparr>),
     va_arg = args, va_env = env\<rparr>"

lemma demo_verifier_simps [simp]:
  "va_sha (demo_verifier sha args memo env) = sha" "va_edv (demo_verifier sha args memo env) = (\<lambda>s m p. Inr True)"
  "va_arg (demo_verifier sha args memo env) = args" "va_env (demo_verifier sha args memo env) = env"
  "va_b58 (demo_verifier sha args memo env) b = ''a''"
  by (simp_all add: demo_verifier_def)

lemma demo_fetch [simp]:
  "fetchAnchorMemo (va_reader (demo_verifier sha args memo env)) (va_getTransaction (demo_verifier sha args memo env) url) sig MEMO_PROGRAM w
     = (Inr (Some \<lparr>fa_memo = memo, fa_slot = 1, fa_err = None, fa_feePayer = Some ''a'', fa_signers = [''a'']\<rparr>), w)"
  by (simp add: fetchAnchorMemo_def io_bind_def io_return_def demo_verifier_def read_anchor_memo_def Let_def key_at_def MEMO_PROGRAM_def)

theorem verifier_needs_a_pin_witness:
  "\<exists>B v. buildLedgerArtifact demo_hash demo_publisher_ed ''now'' demo_artifact_input = Inr B
     \<and> verifyLedgerArtifact demo_hash (\<lambda>s m p. Inr True) B (Some (la_publisherPubkeyHex B)) = Inr v \<and> av_ok v"
proof -
  obtain B where B: "buildLedgerArtifact demo_hash demo_publisher_ed ''now'' demo_artifact_input = Inr B"
    using demo_artifact by blast
  define V where "V = demo_verifier demo_hash (\<lambda>k. None) [] [''LEDGER_PUBLISHER_PUBKEY_HEX'' \<mapsto> la_publisherPubkeyHex B]"
  obtain v where v: "verifyLedgerArtifact demo_hash (\<lambda>s m p. Inr True) B (Some (la_publisherPubkeyHex B)) = Inr v" "av_ok v"
    using built_accepted [OF B, of "\<lambda>s m p. Inr True"] by (auto simp: demo_input_simps)
  have "la_publisherPubkeyHex B \<noteq> []" using build_artifact_Inr(6) [OF B] by (simp add: demo_input_simps hex_byte_def)
  then have p: "pinned_publisher V = Some (la_publisherPubkeyHex B)" "truthy (pinned_publisher V)"
    by (simp_all add: pinned_publisher_def V_def truthy_def)
  have f: "av_rootMatches v \<and> av_digestMatches v \<and> av_countMatches v \<and> av_pubkeyMatches v \<and> av_signatureValid v"
    using v by (auto simp: verifyLedgerArtifact_def Let_def and_then_Inr)
  have "artifact_checks V B False = Inr [(''ledger root re-derives from leaves'', True), (''whole-set digest matches'', True),
      (''entry count matches'', True), (''artifact publisher pubkey == pinned key (no key-swap)'', True),
      (''publisher signature valid over manifest (pinned key)'', True)]"
    unfolding artifact_checks_def using p v(1) f
    by (simp add: V_def Let_def asset_checks_def truthy_def)
  then have "passes (fst (verifyArtifactMode V B ()))"
    by (simp add: verifyArtifactMode_def io_of_def V_def)
  from verifier_needs_a_pin [OF this] show ?thesis using B p by (simp add: V_def) 
qed

definition demo_dump :: "dump_row list" where
  "demo_dump = map (\<lambda>r. \<lparr>du_seq = ar_seq r, du_prevHashHex = hex_encode (ar_prevHash r), du_entryHashHex = hex_encode (ar_entryHash r),
     du_signatureHex = hex_encode (replicate 64 1), du_entry = ar_entry r\<rparr>) demo_log"

definition demo_seed_ed :: ed25519 where
  "demo_seed_ed = \<lparr>ed_getPublicKey = \<lambda>s. [5], ed_sign = \<lambda>m s. replicate 64 1\<rparr>"

lemma demo_dump_inputs:
  "chain_inputs (auditRowsFromLogDump demo_dump) = chain_inputs demo_log"
  by (simp add: auditRowsFromLogDump_def demo_dump_def chain_inputs_def row_canonical_def demo_log_def appendAudit_def Let_def)

lemma demo_log_row:
  "demo_log = [\<lparr>ar_seq = 1, ar_prevHash = ZERO32, ar_entry = audit_record ''a'' (audit_event ''x''),
     ar_entryCanonical = Some (canonicalJson (audit_record ''a'' (audit_event ''x''))),
     ar_entryHash = hashCanonical demo_sha ZERO32 (canonicalJson (audit_record ''a'' (audit_event ''x''))),
     ar_signature = UNSIGNED_PLACEHOLDER\<rparr>]"
  by (simp add: demo_log_def appendAudit_def Let_def)

lemma demo_dump_valid:
  "chain_valid demo_sha (\<lambda>s m p. Inr True) pub ZERO32 (auditRowsFromLogDump demo_dump)"
  by (simp add: auditRowsFromLogDump_def demo_dump_def demo_log_row recomputed_hash_def computeEntryHash_def row_sig_bad_def
      verifyEd25519_def split: option.split)

theorem anchored_history_holds_witness:
  "\<exists>k. map row_canonical (take k (auditRowsFromLogDump demo_dump)) = [''{\"event\":\"x\",\"ts\":\"a\"}'']"
proof -
  define head where "head = ar_entryHash (hd demo_log)"
  define old where "old = snd (signUnsignedAuditRows (\<lambda>h. replicate 64 1) demo_log)"
  define args where "args = [''--anchor-sig'' \<mapsto> ''s'', ''--rpc'' \<mapsto> ''u'', ''--anchor-address'' \<mapsto> ''a'' :: string]"
  define V where "V = demo_verifier demo_sha args (auditHeadMemo (dec_nat 1) (hex_encode head) ''n'') Map.empty"
  define K where "K = \<lparr>tk_role = RoleAudit, tk_secretKey = [9 :: byte], tk_publicKey = [5]\<rparr>"
  have rows: "getAuditHead old = Some (1, hex_encode head)" "loadAuditRows old 0 None = old"
    "chain_valid demo_sha (\<lambda>s m p. Inr True) (Some [5]) ZERO32 old"
    "map row_canonical old = [''{\"event\":\"x\",\"ts\":\"a\"}'']" "chain_inputs old = chain_inputs demo_log"
    by (simp_all add: old_def head_def demo_log_row signUnsignedAuditRows_def row_canonical_def demo_json chain_inputs_def getAuditHead_def
        loadAuditRows_def recomputed_hash_def row_sig_bad_def verifyEd25519_def)
  have sign: "keypair_sign demo_seed_ed K = (\<lambda>h. replicate 64 1)" by (simp add: fun_eq_iff keypair_sign_def demo_seed_ed_def)
  have so: "signUnsignedAuditRows (\<lambda>h. replicate 64 1) demo_log = (1, old)"
    by (simp add: old_def demo_log_row signUnsignedAuditRows_def)
  have V: "va_sha V = demo_sha" "va_edv V = (\<lambda>s m p. Inr True)" "tk_publicKey K = [5]" "va_arg V = args"
    by (simp_all add: V_def K_def)
  have a: "anchor_head (va_sha V) (va_edv V) demo_seed_ed K demo_log = (Inr (1, hex_encode head), old)"
    using rows unfolding anchor_head_def sign so V by (simp add: verifyAuditChain_ok Let_def)
  have "\<exists>r. auditRowsFromLogDump demo_dump = [r] \<and> ar_seq r = 1 \<and> ar_entryHash r = head"
    by (simp add: auditRowsFromLogDump_def demo_dump_def demo_log_row head_def)
  then obtain r where r: "auditRowsFromLogDump demo_dump = [r]" "ar_seq r = 1" "ar_entryHash r = head" by blast
  have "ec_ok (checkExtendsAnchor demo_sha (\<lambda>s m p. Inr True) (auditRowsFromLogDump demo_dump) 1 (hex_encode head) None None)"
    using r demo_dump_valid [of None] by (simp add: checkExtendsAnchor_def Let_def verifyAuditChain_ok)
  then have "extends_anchor_ref V (auditRowsFromLogDump demo_dump) (dec_nat 1) (hex_encode head) None = Inr True"
    by (simp add: extends_anchor_ref_def js_BigInt_dec_nat dec_int_def V)
  moreover have "parseAnchorMemo (auditHeadMemo (dec_nat 1) (hex_encode head) ''n'')
      = Some \<lparr>pm_kind = AuditHead, pm_network = ''n'', pm_ref = dec_nat 1, pm_hashHex = hex_encode head\<rparr>"
    using parse_memo_parts [of "''ar.io-audit-anchor''" "''n''" "dec_nat 1" "hex_encode head"] by (simp add: auditHeadMemo_def)
  ultimately have p: "passes (fst (auditLogFileMode V demo_dump ()))"
    using demo_dump_valid [of None]
    by (simp add: auditLogFileMode_def verifyExtension_def io_bind_def io_of_def anchor_checks_def chain_checks_def
        Let_def truthy_def args_def V(1-2) verifyAuditChain_ok hexToBytes_def resolveAnchorAddress_def anchorSignedBy_def V_def)
  have i: "chain_inputs (auditRowsFromLogDump demo_dump) \<union> chain_inputs old = chain_inputs demo_log"
    using rows(5) demo_dump_inputs by simp
  have "chain_inputs demo_log \<subseteq> chain_inputs demo_log2 \<union> chain_inputs demo_log" by blast
  then have s: "inj_on demo_sha (chain_inputs demo_log)" "ZERO32 \<notin> demo_sha ` chain_inputs demo_log"
    using inj_on_subset [OF demo_inputs_ok(1)] demo_inputs_ok(2) by blast+
  have "\<exists>k. map row_canonical (take k (auditRowsFromLogDump demo_dump)) = map row_canonical old"
    by (rule anchored_history_holds [OF a _ _ _ _ _ _ _ p, where network = "''n''" and sig = "''s''" and url = "''u''"
          and F = "\<lparr>fa_memo = auditHeadMemo (dec_nat 1) (hex_encode head) ''n'', fa_slot = 1, fa_err = None, fa_feePayer = Some ''a'', fa_signers = [''a'']\<rparr>"])
      (simp_all add: V(1,4) i s demo_sha_length args_def, simp_all add: V_def demo_log_row)
  then show ?thesis using rows(4) by simp
qed

end
