(* ===== verification/Ant_Acl.thy ===== *)
theory Ant_Acl
  imports Dispatch_Worker "HOL-Library.Multiset"
begin

text \<open>
  The repair of an ANT's on-chain access list after a raw transfer: the instruction builders and
  account decoders (\<open>dispatch/ant-acl-instructions.ts\<close>), the pure planner
  (\<open>dispatch/ant-acl-reconcile.ts\<close>) and the executor that reads, applies and verifies
  (\<open>dispatch/ant-acl-execute.ts\<close>). The program \<open>ario-ant\<close> lives in another repository; what the
  comments of these files document of it is the predicate \<open>ario_ant\<close>, over the accounts of the chain.
\<close>

section \<open>Codecs and program addresses\<close>

text \<open>The kit of the dispatch instructions, with the \<open>u32\<close> decoder.\<close>

record acl_kit =
  ak_kit :: kit
  ak_u32_decode :: "bytes \<Rightarrow> nat"

definition MAX_ACL_PAGE_ENTRIES :: nat where "MAX_ACL_PAGE_ENTRIES = 256"
definition ACL_ROLE_OWNER :: byte where "ACL_ROLE_OWNER = 0"

definition ARIO_ANT_PROGRAM_MAINNET :: string where
  "ARIO_ANT_PROGRAM_MAINNET = ''2MWexMHfMhGJwMHv9Qm9YAVCqjUFUJwDJAysW4oCUGk5''"

definition ARIO_ANT_PROGRAM_DEVNET :: string where
  "ARIO_ANT_PROGRAM_DEVNET = ''DbHbRwUD1oAn1mrDSqtWtvwGcNrmhWdD2g8L4xmeQ7NX''"

definition ANT_CONFIG_SEED :: bytes where "ANT_CONFIG_SEED = utf8_encode ''ant_config''"
definition ANT_CONTROLLERS_SEED :: bytes where "ANT_CONTROLLERS_SEED = utf8_encode ''ant_controllers''"
definition ACL_CONFIG_SEED :: bytes where "ACL_CONFIG_SEED = utf8_encode ''acl_config''"
definition ACL_PAGE_SEED :: bytes where "ACL_PAGE_SEED = utf8_encode ''acl_page''"

abbreviation enc_addr :: "acl_kit \<Rightarrow> string \<Rightarrow> bytes" where
  "enc_addr A a \<equiv> k_encodeAddress (ak_kit A) a"

definition deriveAntConfigPda :: "acl_kit \<Rightarrow> string \<Rightarrow> string \<Rightarrow> string" where
  "deriveAntConfigPda A prog mint = k_pda (ak_kit A) prog [ANT_CONFIG_SEED, enc_addr A mint]"

definition deriveAntControllersPda :: "acl_kit \<Rightarrow> string \<Rightarrow> string \<Rightarrow> string" where
  "deriveAntControllersPda A prog mint = k_pda (ak_kit A) prog [ANT_CONTROLLERS_SEED, enc_addr A mint]"

definition deriveAclConfigPda :: "acl_kit \<Rightarrow> string \<Rightarrow> string \<Rightarrow> string" where
  "deriveAclConfigPda A prog user = k_pda (ak_kit A) prog [ACL_CONFIG_SEED, enc_addr A user]"

definition deriveAclPagePda :: "acl_kit \<Rightarrow> string \<Rightarrow> string \<Rightarrow> nat \<Rightarrow> string" where
  "deriveAclPagePda A prog user pageIdx =
     k_pda (ak_kit A) prog [ACL_PAGE_SEED, enc_addr A user, k_u64_encode (ak_kit A) (int pageIdx)]"

section \<open>Instructions\<close>

definition arioAntReconcileIx :: "acl_kit \<Rightarrow> string \<Rightarrow> string \<Rightarrow> string \<Rightarrow> string \<Rightarrow> string \<Rightarrow> instruction" where
  "arioAntReconcileIx A prog asset antConfig antControllers caller =
     \<lparr>ix_programAddress = prog,
      ix_accounts = [(asset, READONLY), (antConfig, WRITABLE), (antControllers, WRITABLE), (caller, READONLY_SIGNER)],
      ix_data = anchorDiscriminator (ak_kit A) ''reconcile''\<rparr>"

definition recordAclOwnerIx ::
  "acl_kit \<Rightarrow> string \<Rightarrow> string \<Rightarrow> string \<Rightarrow> string \<Rightarrow> string \<Rightarrow> string \<Rightarrow> instruction" where
  "recordAclOwnerIx A prog asset antConfig aclConfig aclPage payer =
     \<lparr>ix_programAddress = prog,
      ix_accounts = [(asset, READONLY), (antConfig, READONLY), (aclConfig, WRITABLE), (aclPage, WRITABLE),
        (payer, WRITABLE_SIGNER), (SYSTEM_PROGRAM, READONLY)],
      ix_data = anchorDiscriminator (ak_kit A) ''record_acl_owner''\<rparr>"

definition removeAclOwnerIx ::
  "acl_kit \<Rightarrow> string \<Rightarrow> string \<Rightarrow> string \<Rightarrow> string \<Rightarrow> string \<Rightarrow> string \<Rightarrow> instruction" where
  "removeAclOwnerIx A prog asset antConfig aclConfig aclPage payer =
     \<lparr>ix_programAddress = prog,
      ix_accounts = [(asset, READONLY), (antConfig, READONLY), (aclConfig, WRITABLE), (aclPage, WRITABLE),
        (payer, WRITABLE_SIGNER), (SYSTEM_PROGRAM, READONLY)],
      ix_data = anchorDiscriminator (ak_kit A) ''remove_acl_owner''\<rparr>"

definition registerAclConfigIx :: "acl_kit \<Rightarrow> string \<Rightarrow> string \<Rightarrow> string \<Rightarrow> string \<Rightarrow> instruction" where
  "registerAclConfigIx A prog user aclConfig payer =
     \<lparr>ix_programAddress = prog,
      ix_accounts = [(aclConfig, WRITABLE), (payer, WRITABLE_SIGNER), (SYSTEM_PROGRAM, READONLY)],
      ix_data = anchorDiscriminator (ak_kit A) ''register_acl_config'' @ enc_addr A user\<rparr>"

definition addAclPageIx :: "acl_kit \<Rightarrow> string \<Rightarrow> string \<Rightarrow> string \<Rightarrow> string \<Rightarrow> instruction" where
  "addAclPageIx A prog aclConfig aclPage payer =
     \<lparr>ix_programAddress = prog,
      ix_accounts = [(aclConfig, WRITABLE), (aclPage, WRITABLE), (payer, WRITABLE_SIGNER), (SYSTEM_PROGRAM, READONLY)],
      ix_data = anchorDiscriminator (ak_kit A) ''add_acl_page''\<rparr>"

section \<open>Decoders\<close>

text \<open>\<open>subarray\<close> clamps to the end of the data, and a decoder of a fixed size throws on fewer bytes.\<close>

definition subarray :: "bytes \<Rightarrow> nat \<Rightarrow> nat \<Rightarrow> bytes" where
  "subarray bs a n = take n (drop a bs)"

definition read_fixed :: "nat \<Rightarrow> (bytes \<Rightarrow> 'a) \<Rightarrow> bytes \<Rightarrow> nat \<Rightarrow> string + 'a" where
  "read_fixed n dec bs off =
     (if length (subarray bs off n) < n then Inl ''codec expected more bytes'' else Inr (dec (subarray bs off n)))"

definition read_address :: "acl_kit \<Rightarrow> bytes \<Rightarrow> nat \<Rightarrow> string + string" where
  "read_address A = read_fixed 32 (k_decodeAddress (ak_kit A))"

definition read_u64 :: "acl_kit \<Rightarrow> bytes \<Rightarrow> nat \<Rightarrow> string + nat" where
  "read_u64 A = read_fixed 8 (\<lambda>bs. nat (k_u64_decode (ak_kit A) bs))"

definition read_u32 :: "acl_kit \<Rightarrow> bytes \<Rightarrow> nat \<Rightarrow> string + nat" where
  "read_u32 A = read_fixed 4 (ak_u32_decode A)"

definition decodeMplCoreOwner :: "acl_kit \<Rightarrow> bytes \<Rightarrow> string option" where
  "decodeMplCoreOwner A bs =
     (if length bs < 33 \<or> hd bs \<noteq> 1 then None else Some (k_decodeAddress (ak_kit A) (subarray bs 1 32)))"

record acl_config =
  ac_user :: string
  ac_pageCount :: nat
  ac_totalEntries :: nat

definition decodeAclConfig :: "acl_kit \<Rightarrow> bytes \<Rightarrow> string + acl_config" where
  "decodeAclConfig A bs =
     and_then (read_address A bs 8) (\<lambda>user. and_then (read_u64 A bs 40) (\<lambda>pages. and_then (read_u64 A bs 48) (\<lambda>total.
       Inr \<lparr>ac_user = user, ac_pageCount = pages, ac_totalEntries = total\<rparr>)))"

text \<open>An entry is an asset and its role byte; the role past the end of the data is \<open>undefined\<close>.\<close>

type_synonym acl_entry = "string \<times> byte option"

fun read_entries :: "acl_kit \<Rightarrow> bytes \<Rightarrow> nat \<Rightarrow> nat \<Rightarrow> string + acl_entry list" where
  "read_entries A bs off 0 = Inr []"
| "read_entries A bs off (Suc n) =
     and_then (read_address A bs off) (\<lambda>asset. and_then (read_entries A bs (off + 33) n) (\<lambda>rest.
       Inr ((asset, if off + 32 < length bs then Some (bs ! (off + 32)) else None) # rest)))"

definition decodeAclPageEntries :: "acl_kit \<Rightarrow> bytes \<Rightarrow> string + acl_entry list" where
  "decodeAclPageEntries A bs = and_then (read_u32 A bs 48) (read_entries A bs 52)"

fun read_addresses :: "acl_kit \<Rightarrow> bytes \<Rightarrow> nat \<Rightarrow> nat \<Rightarrow> string + string list" where
  "read_addresses A bs off 0 = Inr []"
| "read_addresses A bs off (Suc n) =
     and_then (read_address A bs off) (\<lambda>a. and_then (read_addresses A bs (off + 32) n) (\<lambda>rest. Inr (a # rest)))"

definition decodeAntControllers :: "acl_kit \<Rightarrow> bytes \<Rightarrow> string + string list" where
  "decodeAntControllers A bs = and_then (read_u32 A bs 40) (read_addresses A bs 44)"

definition skip_str :: "acl_kit \<Rightarrow> bytes \<Rightarrow> nat \<Rightarrow> string + nat" where
  "skip_str A bs off = and_then (read_u32 A bs off) (\<lambda>n. Inr (off + 4 + n))"

fun skip_strs :: "acl_kit \<Rightarrow> bytes \<Rightarrow> nat \<Rightarrow> nat \<Rightarrow> string + nat" where
  "skip_strs A bs 0 off = Inr off"
| "skip_strs A bs (Suc n) off = and_then (skip_str A bs off) (skip_strs A bs n)"

definition decodeAntConfigLastKnownOwner :: "acl_kit \<Rightarrow> bytes \<Rightarrow> string + string" where
  "decodeAntConfigLastKnownOwner A bs =
     and_then (skip_strs A bs 4 40) (\<lambda>off. and_then (read_u32 A bs off) (\<lambda>kw.
       and_then (skip_strs A bs kw (off + 4)) (read_address A bs)))"

section \<open>The planner\<close>

record page_ref =
  pr_pageIdx :: nat
  pr_pagePda :: string

record heal_snapshot =
  hs_antProgram :: string
  hs_mint :: string
  hs_oldOwner :: string
  hs_claimant :: string
  hs_treasury :: string
  hs_antConfigPda :: string
  hs_antControllersPda :: string
  hs_mplOwner :: "string option"
  hs_controllers :: "string list"
  hs_lastKnownOwner :: string
  hs_oldAclConfigPda :: string
  hs_oldEntryPage :: "page_ref option"
  hs_newExists :: bool
  hs_newAclConfigPda :: string
  hs_newHasOwnerEntry :: bool
  hs_newTargetPage :: page_ref
  hs_newNeedsCreate :: bool

record heal_plan =
  pn_ixs :: "instruction list"
  pn_actions :: "string list"
  pn_alreadyHealed :: bool
  pn_abortReason :: "string option"

text \<open>Each step is the instructions and the actions it adds; the arrow of the last action is written \<open>->\<close>.\<close>

type_synonym plan_step = "(instruction \<times> string) list"

definition plan_remove :: "acl_kit \<Rightarrow> heal_snapshot \<Rightarrow> plan_step" where
  "plan_remove A s = (case hs_oldEntryPage s of None \<Rightarrow> []
     | Some page \<Rightarrow> [(removeAclOwnerIx A (hs_antProgram s) (hs_mint s) (hs_antConfigPda s) (hs_oldAclConfigPda s)
           (pr_pagePda page) (hs_treasury s),
         ''remove_acl_owner(old='' @ hs_oldOwner s @ '', page='' @ dec_nat (pr_pageIdx page) @ '')'')])"

definition plan_record :: "acl_kit \<Rightarrow> heal_snapshot \<Rightarrow> plan_step" where
  "plan_record A s =
     (if hs_newHasOwnerEntry s then [] else
      (if hs_newExists s then [] else
        [(registerAclConfigIx A (hs_antProgram s) (hs_claimant s) (hs_newAclConfigPda s) (hs_treasury s),
          ''register_acl_config(new='' @ hs_claimant s @ '')'')])
      @ (if \<not> hs_newNeedsCreate s then [] else
        [(addAclPageIx A (hs_antProgram s) (hs_newAclConfigPda s) (pr_pagePda (hs_newTargetPage s)) (hs_treasury s),
          ''add_acl_page(new, page='' @ dec_nat (pr_pageIdx (hs_newTargetPage s)) @ '')'')])
      @ [(recordAclOwnerIx A (hs_antProgram s) (hs_mint s) (hs_antConfigPda s) (hs_newAclConfigPda s)
            (pr_pagePda (hs_newTargetPage s)) (hs_treasury s),
          ''record_acl_owner(new='' @ hs_claimant s @ '', page='' @ dec_nat (pr_pageIdx (hs_newTargetPage s)) @ '')'')])"

definition plan_reconcile :: "acl_kit \<Rightarrow> heal_snapshot \<Rightarrow> plan_step" where
  "plan_reconcile A s =
     (if hs_lastKnownOwner s \<noteq> hs_claimant s \<or> hs_oldOwner s \<in> set (hs_controllers s)
      then [(arioAntReconcileIx A (hs_antProgram s) (hs_mint s) (hs_antConfigPda s) (hs_antControllersPda s) (hs_treasury s),
         ''reconcile (controllers='' @ dec_nat (length (hs_controllers s)) @ '', last_known_owner->claimant)'')]
      else [])"

definition plan_aborted :: "string \<Rightarrow> heal_plan" where
  "plan_aborted why = \<lparr>pn_ixs = [], pn_actions = [], pn_alreadyHealed = False, pn_abortReason = Some why\<rparr>"

definition planAclHeal :: "acl_kit \<Rightarrow> heal_snapshot \<Rightarrow> heal_plan" where
  "planAclHeal A s =
     (case hs_mplOwner s of
        None \<Rightarrow> plan_aborted (''asset '' @ hs_mint s @ '' account unreadable (not an MPL Core asset?)'')
      | Some owner \<Rightarrow>
          if owner \<noteq> hs_claimant s
          then plan_aborted (''live MPL owner '' @ owner @ '' != intended claimant '' @ hs_claimant s
                 @ '' - refusing to heal (asset moved on / stale claimant)'')
          else let steps = plan_remove A s @ plan_record A s @ plan_reconcile A s in
            \<lparr>pn_ixs = map fst steps, pn_actions = map snd steps, pn_alreadyHealed = (steps = []), pn_abortReason = None\<rparr>)"

section \<open>The executor\<close>

text \<open>What is read of the node; the data of an account is already decoded from base 64.\<close>

record 'w acl_rpc =
  ar_getAccountInfo :: "string \<Rightarrow> ('w, bytes option) io"
  ar_getMultipleAccounts :: "string list \<Rightarrow> ('w, bytes option list) io"

function getMany :: "'w acl_rpc \<Rightarrow> string list \<Rightarrow> ('w, bytes option list) io" where
  "getMany R addrs =
     (if addrs = [] then io_return []
      else io_bind (ar_getMultipleAccounts R (take 100 addrs)) (\<lambda>v.
           io_bind (getMany R (drop 100 addrs)) (\<lambda>vs. io_return (v @ vs))))"
  by pat_completeness auto
termination by (relation "measure (length \<circ> snd)") auto

declare getMany.simps [simp del]

record owner_acl_read =
  oa_exists :: bool
  oa_aclConfigPda :: string
  oa_pageCount :: nat
  oa_ownerEntryPage :: "page_ref option"
  oa_firstNonFullPage :: "page_ref option"

definition page_refs :: "acl_kit \<Rightarrow> string \<Rightarrow> string \<Rightarrow> nat \<Rightarrow> page_ref list" where
  "page_refs A prog user n = map (\<lambda>i. \<lparr>pr_pageIdx = i, pr_pagePda = deriveAclPagePda A prog user i\<rparr>) [0..<n]"

text \<open>The loop over the pages: the first with room and the last that holds the owner entry.\<close>

definition page_step ::
  "acl_kit \<Rightarrow> string \<Rightarrow> page_ref \<times> bytes option \<Rightarrow> page_ref option \<times> page_ref option
     \<Rightarrow> string + page_ref option \<times> page_ref option" where
  "page_step A mint = (\<lambda>(ref, pData) (ownerEntryPage, firstNonFullPage).
     case pData of None \<Rightarrow> Inr (ownerEntryPage, firstNonFullPage)
     | Some bs \<Rightarrow> and_then (decodeAclPageEntries A bs) (\<lambda>entries.
         Inr (if (mint, Some ACL_ROLE_OWNER) \<in> set entries then Some ref else ownerEntryPage,
              if firstNonFullPage = None \<and> length entries < MAX_ACL_PAGE_ENTRIES then Some ref else firstNonFullPage)))"

definition readOwnerAcl ::
  "acl_kit \<Rightarrow> 'w acl_rpc \<Rightarrow> string \<Rightarrow> string \<Rightarrow> string \<Rightarrow> ('w, owner_acl_read) io" where
  "readOwnerAcl A R prog user mint =
     (let aclConfigPda = deriveAclConfigPda A prog user in
      io_bind (ar_getAccountInfo R aclConfigPda) (\<lambda>cfgData. case cfgData of
          None \<Rightarrow> io_return \<lparr>oa_exists = False, oa_aclConfigPda = aclConfigPda, oa_pageCount = 0,
                     oa_ownerEntryPage = None, oa_firstNonFullPage = None\<rparr>
        | Some bs \<Rightarrow> io_bind (from_result (decodeAclConfig A bs)) (\<lambda>cfg.
            let refs = page_refs A prog user (ac_pageCount cfg) in
            io_bind (getMany R (map pr_pagePda refs)) (\<lambda>pages.
            io_bind (from_result (fold_result (page_step A mint)
                (zip refs (pages @ replicate (length refs) None)) (None, None))) (\<lambda>(ownerEntryPage, firstNonFullPage).
            io_return \<lparr>oa_exists = True, oa_aclConfigPda = aclConfigPda, oa_pageCount = ac_pageCount cfg,
              oa_ownerEntryPage = ownerEntryPage, oa_firstNonFullPage = firstNonFullPage\<rparr>)))))"

record heal_params =
  hp_antProgram :: string
  hp_mint :: string
  hp_oldOwner :: string
  hp_claimant :: string
  hp_treasury :: string

definition heal_snapshot_of ::
  "acl_kit \<Rightarrow> heal_params \<Rightarrow> string option \<Rightarrow> string \<Rightarrow> string list \<Rightarrow> owner_acl_read \<Rightarrow> owner_acl_read \<Rightarrow> heal_snapshot" where
  "heal_snapshot_of A p mplOwner lastKnownOwner controllers old neu =
     \<lparr>hs_antProgram = hp_antProgram p, hs_mint = hp_mint p, hs_oldOwner = hp_oldOwner p,
      hs_claimant = hp_claimant p, hs_treasury = hp_treasury p,
      hs_antConfigPda = deriveAntConfigPda A (hp_antProgram p) (hp_mint p),
      hs_antControllersPda = deriveAntControllersPda A (hp_antProgram p) (hp_mint p),
      hs_mplOwner = mplOwner, hs_controllers = controllers, hs_lastKnownOwner = lastKnownOwner,
      hs_oldAclConfigPda = oa_aclConfigPda old, hs_oldEntryPage = oa_ownerEntryPage old,
      hs_newExists = oa_exists neu, hs_newAclConfigPda = oa_aclConfigPda neu,
      hs_newHasOwnerEntry = (oa_ownerEntryPage neu \<noteq> None),
      hs_newTargetPage = (case oa_firstNonFullPage neu of Some r \<Rightarrow> r
        | None \<Rightarrow> \<lparr>pr_pageIdx = oa_pageCount neu,
            pr_pagePda = deriveAclPagePda A (hp_antProgram p) (hp_claimant p) (oa_pageCount neu)\<rparr>),
      hs_newNeedsCreate = (oa_firstNonFullPage neu = None)\<rparr>"

definition readAclHealSnapshot :: "acl_kit \<Rightarrow> 'w acl_rpc \<Rightarrow> heal_params \<Rightarrow> ('w, heal_snapshot) io" where
  "readAclHealSnapshot A R p =
     io_bind (ar_getAccountInfo R (hp_mint p)) (\<lambda>mintData.
     io_bind (ar_getAccountInfo R (deriveAntConfigPda A (hp_antProgram p) (hp_mint p))) (\<lambda>antCfgData.
     case antCfgData of
       None \<Rightarrow> from_result (Inl (''no AntConfig for '' @ hp_mint p @ '' (program '' @ hp_antProgram p @ '') - not an ario-ant ANT''))
     | Some cfg \<Rightarrow>
         io_bind (from_result (decodeAntConfigLastKnownOwner A cfg)) (\<lambda>lastKnownOwner.
         io_bind (ar_getAccountInfo R (deriveAntControllersPda A (hp_antProgram p) (hp_mint p))) (\<lambda>ctrlData.
         io_bind (from_result (case ctrlData of None \<Rightarrow> Inr [] | Some bs \<Rightarrow> decodeAntControllers A bs)) (\<lambda>controllers.
         io_bind (readOwnerAcl A R (hp_antProgram p) (hp_oldOwner p) (hp_mint p)) (\<lambda>old.
         io_bind (readOwnerAcl A R (hp_antProgram p) (hp_claimant p) (hp_mint p)) (\<lambda>neu.
         io_return (heal_snapshot_of A p (Option.bind mintData (decodeMplCoreOwner A)) lastKnownOwner controllers old neu))))))))"

definition applyHeal :: "('w, instruction) gateway \<Rightarrow> string \<Rightarrow> heal_plan \<Rightarrow> ('w, string \<times> confirm_state) io" where
  "applyHeal G treasury plan =
     io_bind (gw_signTransaction G (pn_ixs plan) treasury) (\<lambda>signed.
     io_bind (gw_broadcast G (sd_wireBase64 signed)) (\<lambda>_.
     io_bind (gw_confirmSignature G (sd_signature signed) (sd_lastValidBlockHeight signed)) (\<lambda>state.
     io_return (sd_signature signed, state))))"

record heal_verification =
  hv_ownedByClaimant :: bool
  hv_oldEntryGone :: bool
  hv_newEntryPresent :: bool
  hv_noStaleController :: bool
  hv_lastKnownOwnerOk :: bool
  hv_fullyHealed :: bool

definition verification_of :: "heal_params \<Rightarrow> heal_snapshot \<Rightarrow> heal_verification" where
  "verification_of p s =
     (let owned = (hs_mplOwner s = Some (hp_claimant p)); gone = (hs_oldEntryPage s = None);
          present = hs_newHasOwnerEntry s; clean = (hp_oldOwner p \<notin> set (hs_controllers s));
          known = (hs_lastKnownOwner s = hp_claimant p)
      in \<lparr>hv_ownedByClaimant = owned, hv_oldEntryGone = gone, hv_newEntryPresent = present,
          hv_noStaleController = clean, hv_lastKnownOwnerOk = known,
          hv_fullyHealed = (owned \<and> gone \<and> present \<and> clean \<and> known)\<rparr>)"

definition verifyHealed :: "acl_kit \<Rightarrow> 'w acl_rpc \<Rightarrow> heal_params \<Rightarrow> ('w, heal_verification) io" where
  "verifyHealed A R p = io_bind (readAclHealSnapshot A R p) (\<lambda>s. io_return (verification_of p s))"

section \<open>The chain\<close>

text \<open>
  The accounts, and the instructions of \<open>ario-ant\<close> as far as the comments of the builders document
  them: what each needs, which accounts it changes and what they decode to afterwards. \<open>exec\<close> is
  \<open>None\<close> when an instruction fails, and a transaction is all of its instructions or nothing.
\<close>

type_synonym accounts = "string \<rightharpoonup> bytes"

definition asset_owner :: "acl_kit \<Rightarrow> accounts \<Rightarrow> string \<Rightarrow> string option" where
  "asset_owner A m a = Option.bind (m a) (decodeMplCoreOwner A)"

definition config_at :: "acl_kit \<Rightarrow> accounts \<Rightarrow> string \<Rightarrow> string \<Rightarrow> nat \<Rightarrow> bool" where
  "config_at A m pda user n \<longleftrightarrow> (\<exists>bs t. m pda = Some bs
     \<and> decodeAclConfig A bs = Inr \<lparr>ac_user = user, ac_pageCount = n, ac_totalEntries = t\<rparr>)"

definition page_at :: "acl_kit \<Rightarrow> accounts \<Rightarrow> string \<Rightarrow> acl_entry list \<Rightarrow> bool" where
  "page_at A m pda es \<longleftrightarrow> (\<exists>bs. m pda = Some bs \<and> decodeAclPageEntries A bs = Inr es)"

text \<open>No entry of the page is cut off.\<close>

definition whole :: "acl_entry list \<Rightarrow> bool" where
  "whole es \<longleftrightarrow> None \<notin> snd ` set es"

definition owner_entry :: "string \<Rightarrow> acl_entry" where
  "owner_entry mint = (mint, Some ACL_ROLE_OWNER)"

definition changes_only :: "accounts \<Rightarrow> accounts \<Rightarrow> string set \<Rightarrow> bool" where
  "changes_only m m' X \<longleftrightarrow> (\<forall>x. x \<notin> X \<longrightarrow> m' x = m x)"

definition removes_entry :: "acl_kit \<Rightarrow> string \<Rightarrow> (instruction \<Rightarrow> accounts \<Rightarrow> accounts option) \<Rightarrow> bool" where
  "removes_entry A prog exec \<longleftrightarrow> (\<forall>m a payer owner u n i es.
     asset_owner A m a = Some owner \<longrightarrow> owner \<noteq> u \<longrightarrow> config_at A m (deriveAclConfigPda A prog u) u n \<longrightarrow> i < n
     \<longrightarrow> page_at A m (deriveAclPagePda A prog u i) es \<longrightarrow> whole es \<longrightarrow> owner_entry a \<in> set es
     \<longrightarrow> (\<exists>m' es'. exec (removeAclOwnerIx A prog a (deriveAntConfigPda A prog a) (deriveAclConfigPda A prog u)
             (deriveAclPagePda A prog u i) payer) m = Some m'
           \<and> changes_only m m' {deriveAclConfigPda A prog u, deriveAclPagePda A prog u i}
           \<and> config_at A m' (deriveAclConfigPda A prog u) u n
           \<and> page_at A m' (deriveAclPagePda A prog u i) es' \<and> mset es = add_mset (owner_entry a) (mset es')))"

definition records_owner :: "acl_kit \<Rightarrow> string \<Rightarrow> (instruction \<Rightarrow> accounts \<Rightarrow> accounts option) \<Rightarrow> bool" where
  "records_owner A prog exec \<longleftrightarrow> (\<forall>m a payer u n i es.
     k_valid (ak_kit A) a \<longrightarrow> asset_owner A m a = Some u \<longrightarrow> config_at A m (deriveAclConfigPda A prog u) u n \<longrightarrow> i < n
     \<longrightarrow> page_at A m (deriveAclPagePda A prog u i) es \<longrightarrow> whole es \<longrightarrow> length es < MAX_ACL_PAGE_ENTRIES
     \<longrightarrow> (\<exists>m'. exec (recordAclOwnerIx A prog a (deriveAntConfigPda A prog a) (deriveAclConfigPda A prog u)
             (deriveAclPagePda A prog u i) payer) m = Some m'
           \<and> changes_only m m' {deriveAclConfigPda A prog u, deriveAclPagePda A prog u i}
           \<and> config_at A m' (deriveAclConfigPda A prog u) u n
           \<and> page_at A m' (deriveAclPagePda A prog u i) (es @ [owner_entry a])))"

definition registers_config :: "acl_kit \<Rightarrow> string \<Rightarrow> (instruction \<Rightarrow> accounts \<Rightarrow> accounts option) \<Rightarrow> bool" where
  "registers_config A prog exec \<longleftrightarrow> (\<forall>m u payer. k_valid (ak_kit A) u \<longrightarrow> m (deriveAclConfigPda A prog u) = None
     \<longrightarrow> (\<exists>m'. exec (registerAclConfigIx A prog u (deriveAclConfigPda A prog u) payer) m = Some m'
           \<and> changes_only m m' {deriveAclConfigPda A prog u} \<and> config_at A m' (deriveAclConfigPda A prog u) u 0))"

definition adds_page :: "acl_kit \<Rightarrow> string \<Rightarrow> (instruction \<Rightarrow> accounts \<Rightarrow> accounts option) \<Rightarrow> bool" where
  "adds_page A prog exec \<longleftrightarrow> (\<forall>m u payer n. config_at A m (deriveAclConfigPda A prog u) u n
     \<longrightarrow> n < 2 ^ 64 - 1 \<longrightarrow> m (deriveAclPagePda A prog u n) = None
     \<longrightarrow> (\<exists>m'. exec (addAclPageIx A prog (deriveAclConfigPda A prog u) (deriveAclPagePda A prog u n) payer) m = Some m'
           \<and> changes_only m m' {deriveAclConfigPda A prog u, deriveAclPagePda A prog u n}
           \<and> config_at A m' (deriveAclConfigPda A prog u) u (n + 1) \<and> page_at A m' (deriveAclPagePda A prog u n) []))"

definition reconciles :: "acl_kit \<Rightarrow> string \<Rightarrow> (instruction \<Rightarrow> accounts \<Rightarrow> accounts option) \<Rightarrow> bool" where
  "reconciles A prog exec \<longleftrightarrow> (\<forall>m a caller owner cfg known ctl.
     asset_owner A m a = Some owner \<longrightarrow> m (deriveAntConfigPda A prog a) = Some cfg
     \<longrightarrow> decodeAntConfigLastKnownOwner A cfg = Inr known \<longrightarrow> known \<noteq> owner
     \<longrightarrow> m (deriveAntControllersPda A prog a) = Some ctl
     \<longrightarrow> (\<exists>m' cfg' ctl'. exec (arioAntReconcileIx A prog a (deriveAntConfigPda A prog a) (deriveAntControllersPda A prog a) caller) m
             = Some m'
           \<and> changes_only m m' {deriveAntConfigPda A prog a, deriveAntControllersPda A prog a}
           \<and> m' (deriveAntConfigPda A prog a) = Some cfg' \<and> decodeAntConfigLastKnownOwner A cfg' = Inr owner
           \<and> m' (deriveAntControllersPda A prog a) = Some ctl' \<and> decodeAntControllers A ctl' = Inr []))"

definition ario_ant :: "acl_kit \<Rightarrow> string \<Rightarrow> (instruction \<Rightarrow> accounts \<Rightarrow> accounts option) \<Rightarrow> bool" where
  "ario_ant A prog exec \<longleftrightarrow> removes_entry A prog exec \<and> records_owner A prog exec \<and> registers_config A prog exec
     \<and> adds_page A prog exec \<and> reconciles A prog exec"

fun exec_all :: "(instruction \<Rightarrow> accounts \<Rightarrow> accounts option) \<Rightarrow> instruction list \<Rightarrow> accounts \<Rightarrow> accounts option" where
  "exec_all exec [] m = Some m"
| "exec_all exec (ix # ixs) m = Option.bind (exec ix m) (exec_all exec ixs)"

lemma exec_all_append: "exec_all exec (xs @ ys) m = Option.bind (exec_all exec xs m) (exec_all exec ys)"
proof (induction xs arbitrary: m)
  case (Cons x xs)
  then show ?case by (cases "exec x m") simp_all
qed simp

text \<open>A node that answers with the accounts of the chain.\<close>

definition reads_accounts :: "'w acl_rpc \<Rightarrow> ('w \<Rightarrow> accounts) \<Rightarrow> bool" where
  "reads_accounts R acct \<longleftrightarrow> (\<forall>a w. ar_getAccountInfo R a w = (Inr (acct w a), w))
     \<and> (\<forall>as w. ar_getMultipleAccounts R as w = (Inr (map (acct w) as), w))"

section \<open>Reading the lists\<close>

lemma getMany_reads:
  assumes "reads_accounts R acct"
  shows "getMany R as w = (Inr (map (acct w) as), w)"
  using assms
proof (induction R as arbitrary: w rule: getMany.induct)
  case (1 R as)
  show ?case
  proof (cases "as = []")
    case False
    with 1 have "getMany R (drop 100 as) w = (Inr (map (acct w) (drop 100 as)), w)" by blast
    moreover have "ar_getMultipleAccounts R (take 100 as) w = (Inr (map (acct w) (take 100 as)), w)"
      using 1(2) by (simp add: reads_accounts_def)
    moreover have "map (acct w) (take 100 as) @ map (acct w) (drop 100 as) = map (acct w) as"
      by (simp flip: map_append)
    ultimately show ?thesis using False by (subst getMany.simps) simp
  qed (simp add: getMany.simps)
qed

definition page_readable :: "acl_kit \<Rightarrow> bytes option \<Rightarrow> bool" where
  "page_readable A d \<longleftrightarrow> (\<forall>bs. d = Some bs \<longrightarrow> (\<exists>es. decodeAclPageEntries A bs = Inr es))"

definition page_holds :: "acl_kit \<Rightarrow> string \<Rightarrow> bytes option \<Rightarrow> bool" where
  "page_holds A mint d \<longleftrightarrow> (\<exists>bs es. d = Some bs \<and> decodeAclPageEntries A bs = Inr es \<and> owner_entry mint \<in> set es)"

definition page_roomy :: "acl_kit \<Rightarrow> bytes option \<Rightarrow> bool" where
  "page_roomy A d \<longleftrightarrow> (\<exists>bs es. d = Some bs \<and> decodeAclPageEntries A bs = Inr es \<and> length es < MAX_ACL_PAGE_ENTRIES)"

lemma page_step_simps:
  "page_readable A d \<Longrightarrow> page_step A mint (r, d) (ow, fr) =
     Inr (if page_holds A mint d then Some r else ow, if fr = None \<and> page_roomy A d then Some r else fr)"
  "\<not> page_readable A d \<Longrightarrow> \<exists>e. page_step A mint (r, d) (ow, fr) = Inl e"
  by (cases d; cases "decodeAclPageEntries A (the d)";
      auto simp: page_step_def page_readable_def page_holds_def page_roomy_def owner_entry_def)+

lemma page_fold:
  "fold_result (page_step A mint) xs (o0, f0) = Inr (ow, fr) \<longleftrightarrow>
     list_all (page_readable A \<circ> snd) xs
     \<and> ow = (case filter (page_holds A mint \<circ> snd) xs of [] \<Rightarrow> o0 | y # ys \<Rightarrow> Some (fst (last (y # ys))))
     \<and> fr = (case f0 of Some r \<Rightarrow> Some r | None \<Rightarrow> map_option fst (find (page_roomy A \<circ> snd) xs))"
proof (induction xs arbitrary: o0 f0)
  case (Cons x xs)
  obtain r d where x: "x = (r, d)" by fastforce
  show ?case
  proof (cases "page_readable A d")
    case False
    then obtain e where "page_step A mint x (o0, f0) = Inl e" using page_step_simps(2) x by blast
    then show ?thesis using False x by simp
  next
    case True
    then show ?thesis unfolding x fold_result.simps page_step_simps(1) [OF True] and_then_simps Cons.IH
      using True by (cases "filter (page_holds A mint \<circ> snd) xs"; cases f0) (simp_all add: comp_def)
  qed
qed (auto split: option.split)

text \<open>The reading of one user's list as a function of the accounts.\<close>

definition page_data :: "acl_kit \<Rightarrow> accounts \<Rightarrow> string \<Rightarrow> string \<Rightarrow> nat \<Rightarrow> bytes option" where
  "page_data A m prog u i = m (deriveAclPagePda A prog u i)"

definition read_acl :: "acl_kit \<Rightarrow> accounts \<Rightarrow> string \<Rightarrow> string \<Rightarrow> string \<Rightarrow> string + owner_acl_read" where
  "read_acl A m prog u mint = (case m (deriveAclConfigPda A prog u) of
       None \<Rightarrow> Inr \<lparr>oa_exists = False, oa_aclConfigPda = deriveAclConfigPda A prog u, oa_pageCount = 0,
                oa_ownerEntryPage = None, oa_firstNonFullPage = None\<rparr>
     | Some bs \<Rightarrow> and_then (decodeAclConfig A bs) (\<lambda>cfg.
         and_then (fold_result (page_step A mint)
            (map (\<lambda>r. (r, m (pr_pagePda r))) (page_refs A prog u (ac_pageCount cfg))) (None, None)) (\<lambda>(ow, fr).
           Inr \<lparr>oa_exists = True, oa_aclConfigPda = deriveAclConfigPda A prog u, oa_pageCount = ac_pageCount cfg,
                oa_ownerEntryPage = ow, oa_firstNonFullPage = fr\<rparr>)))"

lemma readOwnerAcl_reads:
  assumes "reads_accounts R acct"
  shows "readOwnerAcl A R prog u mint w = (read_acl A (acct w) prog u mint, w)"
proof -
  have z: "zip refs (map (acct w \<circ> pr_pagePda) refs @ xs) = map (\<lambda>r. (r, acct w (pr_pagePda r))) refs" for refs :: "page_ref list" and xs
    by (induction refs) auto
  show ?thesis
    using assms z
    by (auto simp: readOwnerAcl_def read_acl_def Let_def io_bind_def io_return_def from_result_def reads_accounts_def
        getMany_reads [OF assms] and_then_def split: option.split sum.split prod.split)
qed

lemma read_acl_none:
  "m (deriveAclConfigPda A prog u) = None \<Longrightarrow> read_acl A m prog u mint = Inr r
     \<longleftrightarrow> r = \<lparr>oa_exists = False, oa_aclConfigPda = deriveAclConfigPda A prog u, oa_pageCount = 0,
            oa_ownerEntryPage = None, oa_firstNonFullPage = None\<rparr>"
  by (auto simp: read_acl_def)

text \<open>A list that can be read, the page of the owner entry, and the first page with room.\<close>

lemma read_acl_Inr:
  assumes "config_at A m (deriveAclConfigPda A prog u) user n" and "read_acl A m prog u mint = Inr r"
  shows "\<forall>i < n. page_readable A (page_data A m prog u i)"
    and "oa_exists r \<and> oa_aclConfigPda r = deriveAclConfigPda A prog u \<and> oa_pageCount r = n"
    and "case oa_ownerEntryPage r of None \<Rightarrow> \<forall>i < n. \<not> page_holds A mint (page_data A m prog u i)
         | Some g \<Rightarrow> pr_pageIdx g < n \<and> pr_pagePda g = deriveAclPagePda A prog u (pr_pageIdx g)
             \<and> page_holds A mint (page_data A m prog u (pr_pageIdx g))"
    and "case oa_firstNonFullPage r of None \<Rightarrow> True
         | Some g \<Rightarrow> pr_pageIdx g < n \<and> pr_pagePda g = deriveAclPagePda A prog u (pr_pageIdx g)
             \<and> page_roomy A (page_data A m prog u (pr_pageIdx g))"
proof -
  let ?xs = "map (\<lambda>r. (r, m (pr_pagePda r))) (page_refs A prog u n)"
  obtain ow fr where f: "fold_result (page_step A mint) ?xs (None, None) = Inr (ow, fr)"
    and r: "r = \<lparr>oa_exists = True, oa_aclConfigPda = deriveAclConfigPda A prog u, oa_pageCount = n,
        oa_ownerEntryPage = ow, oa_firstNonFullPage = fr\<rparr>"
    using assms by (auto simp: read_acl_def config_at_def and_then_Inr)
  note g = f [unfolded page_fold]
  show "\<forall>i < n. page_readable A (page_data A m prog u i)"
    using g by (auto simp: list_all_iff page_refs_def page_data_def)
  show "oa_exists r \<and> oa_aclConfigPda r = deriveAclConfigPda A prog u \<and> oa_pageCount r = n" by (simp add: r)
  have elem: "\<exists>i < n. x = (\<lparr>pr_pageIdx = i, pr_pagePda = deriveAclPagePda A prog u i\<rparr>, page_data A m prog u i)"
    if "x \<in> set ?xs" for x
    using that by (auto simp: page_refs_def page_data_def)
  show "case oa_ownerEntryPage r of None \<Rightarrow> \<forall>i < n. \<not> page_holds A mint (page_data A m prog u i)
         | Some g \<Rightarrow> pr_pageIdx g < n \<and> pr_pagePda g = deriveAclPagePda A prog u (pr_pageIdx g)
             \<and> page_holds A mint (page_data A m prog u (pr_pageIdx g))"
  proof (cases "filter (page_holds A mint \<circ> snd) ?xs")
    case Nil
    then have "\<forall>x \<in> set ?xs. \<not> page_holds A mint (snd x)" by (simp only: filter_empty_conv comp_def)
    then have "\<forall>i < n. \<not> page_holds A mint (page_data A m prog u i)" by (auto simp: page_refs_def page_data_def)
    then show ?thesis using g Nil r by simp
  next
    case (Cons y ys)
    have "last (y # ys) \<in> set (filter (page_holds A mint \<circ> snd) ?xs)" unfolding Cons by simp
    then have "last (y # ys) \<in> set ?xs" "page_holds A mint (snd (last (y # ys)))" by auto
    moreover obtain i where i: "i < n" "last (y # ys) = (\<lparr>pr_pageIdx = i, pr_pagePda = deriveAclPagePda A prog u i\<rparr>, page_data A m prog u i)"
      using elem [OF calculation(1)] by blast
    moreover have "ow = Some (fst (last (y # ys)))" using g Cons by simp
    ultimately show ?thesis using r by simp
  qed
  show "case oa_firstNonFullPage r of None \<Rightarrow> True
         | Some g \<Rightarrow> pr_pageIdx g < n \<and> pr_pagePda g = deriveAclPagePda A prog u (pr_pageIdx g)
             \<and> page_roomy A (page_data A m prog u (pr_pageIdx g))"
  proof (cases "find (page_roomy A \<circ> snd) ?xs")
    case None
    then show ?thesis using g r by simp
  next
    case (Some x)
    then obtain k where "k < length ?xs" "page_roomy A (snd (?xs ! k))" "x = ?xs ! k" unfolding find_Some_iff by auto
    then have "x \<in> set ?xs" "page_roomy A (snd x)" using nth_mem by blast+
    then show ?thesis using g r Some elem [of x] by auto
  qed
qed

lemma read_acl_ok:
  assumes "config_at A m (deriveAclConfigPda A prog u) user n"
    and "\<forall>i < n. page_readable A (page_data A m prog u i)"
  shows "\<exists>r. read_acl A m prog u mint = Inr r"
proof -
  let ?xs = "map (\<lambda>r. (r, m (pr_pagePda r))) (page_refs A prog u n)"
  have "list_all (page_readable A \<circ> snd) ?xs" using assms(2) by (auto simp: list_all_iff page_refs_def page_data_def)
  then obtain ow fr where "fold_result (page_step A mint) ?xs (None, None) = Inr (ow, fr)" unfolding page_fold by blast
  then show ?thesis using assms(1) by (auto simp: read_acl_def config_at_def)
qed

lemma read_acl_cong:
  assumes "m' (deriveAclConfigPda A prog u) = m (deriveAclConfigPda A prog u)"
    and "\<And>i. m' (deriveAclPagePda A prog u i) = m (deriveAclPagePda A prog u i)"
  shows "read_acl A m' prog u mint = read_acl A m prog u mint"
proof -
  have "map (\<lambda>r. (r, m' (pr_pagePda r))) (page_refs A prog u n) = map (\<lambda>r. (r, m (pr_pagePda r))) (page_refs A prog u n)" for n
    using assms(2) by (simp add: page_refs_def)
  then show ?thesis unfolding read_acl_def assms(1) by (simp only:)
qed

text \<open>The whole snapshot as a function of the accounts.\<close>

definition snapshot_at :: "acl_kit \<Rightarrow> accounts \<Rightarrow> heal_params \<Rightarrow> string + heal_snapshot" where
  "snapshot_at A m p =
     (let prog = hp_antProgram p in case m (deriveAntConfigPda A prog (hp_mint p)) of
        None \<Rightarrow> Inl (''no AntConfig for '' @ hp_mint p @ '' (program '' @ prog @ '') - not an ario-ant ANT'')
      | Some cfg \<Rightarrow> and_then (decodeAntConfigLastKnownOwner A cfg) (\<lambda>known.
          and_then (case m (deriveAntControllersPda A prog (hp_mint p)) of None \<Rightarrow> Inr [] | Some bs \<Rightarrow> decodeAntControllers A bs) (\<lambda>ctl.
          and_then (read_acl A m prog (hp_oldOwner p) (hp_mint p)) (\<lambda>old.
          and_then (read_acl A m prog (hp_claimant p) (hp_mint p)) (\<lambda>neu.
          Inr (heal_snapshot_of A p (asset_owner A m (hp_mint p)) known ctl old neu))))))"

lemma readAclHealSnapshot_reads:
  assumes "reads_accounts R acct"
  shows "readAclHealSnapshot A R p w = (snapshot_at A (acct w) p, w)"
proof -
  have a: "ar_getAccountInfo R x v = (Inr (acct v x), v)" for x v using assms by (simp add: reads_accounts_def)
  show ?thesis
    by (auto simp: readAclHealSnapshot_def snapshot_at_def Let_def a readOwnerAcl_reads [OF assms] io_bind_def io_return_def
        from_result_def and_then_def asset_owner_def split: option.split sum.split)
qed

lemma snapshot_at_Inr:
  "snapshot_at A m p = Inr S \<longleftrightarrow> (\<exists>cfg known ctl old neu.
     m (deriveAntConfigPda A (hp_antProgram p) (hp_mint p)) = Some cfg \<and> decodeAntConfigLastKnownOwner A cfg = Inr known
     \<and> (case m (deriveAntControllersPda A (hp_antProgram p) (hp_mint p)) of None \<Rightarrow> Inr [] | Some bs \<Rightarrow> decodeAntControllers A bs) = Inr ctl
     \<and> read_acl A m (hp_antProgram p) (hp_oldOwner p) (hp_mint p) = Inr old
     \<and> read_acl A m (hp_antProgram p) (hp_claimant p) (hp_mint p) = Inr neu
     \<and> S = heal_snapshot_of A p (asset_owner A m (hp_mint p)) known ctl old neu)"
  by (auto simp: snapshot_at_def Let_def and_then_Inr split: option.split)

section \<open>Addresses that cannot coincide\<close>

text \<open>A derived address determines the seeds it was derived from, joined together.\<close>

definition acl_chain :: "acl_kit \<Rightarrow> string \<Rightarrow> (instruction \<Rightarrow> accounts \<Rightarrow> accounts option) \<Rightarrow> bool" where
  "acl_chain A prog exec \<longleftrightarrow> kit_codecs (ak_kit A)
     \<and> (\<forall>ss ss'. k_pda (ak_kit A) prog ss = k_pda (ak_kit A) prog ss' \<longrightarrow> concat ss = concat ss')
     \<and> ario_ant A prog exec"

lemma seed_bytes:
  "ANT_CONFIG_SEED = [97, 110, 116, 95, 99, 111, 110, 102, 105, 103]"
  "ANT_CONTROLLERS_SEED = [97, 110, 116, 95, 99, 111, 110, 116, 114, 111, 108, 108, 101, 114, 115]"
  "ACL_CONFIG_SEED = [97, 99, 108, 95, 99, 111, 110, 102, 105, 103]"
  "ACL_PAGE_SEED = [97, 99, 108, 95, 112, 97, 103, 101]"
  by code_simp+

context kit_codecs begin

lemma address_inj: "k_valid K a \<Longrightarrow> k_valid K b \<Longrightarrow> k_encodeAddress K a = k_encodeAddress K b \<Longrightarrow> a = b"
  using address_round by metis

lemma u64_inj: "i < 2 ^ 64 \<Longrightarrow> j < 2 ^ 64 \<Longrightarrow> k_u64_encode K (int i) = k_u64_encode K (int j) \<Longrightarrow> i = j"
  using le_bytes_inj [of i 8 j] by (simp add: u64_law U64_MAX_def)

lemma u64_length: "i < 2 ^ 64 \<Longrightarrow> length (k_u64_encode K (int i)) = 8"
  by (simp add: u64_law U64_MAX_def)

end

lemma pdas_apart:
  assumes "acl_chain A prog exec" and "k_valid (ak_kit A) u" and "k_valid (ak_kit A) v"
  shows "deriveAclConfigPda A prog u = deriveAclConfigPda A prog v \<longleftrightarrow> u = v"
    and "i < 2 ^ 64 \<Longrightarrow> j < 2 ^ 64 \<Longrightarrow> deriveAclPagePda A prog u i = deriveAclPagePda A prog v j \<longleftrightarrow> u = v \<and> i = j"
    and "i < 2 ^ 64 \<Longrightarrow> deriveAclPagePda A prog u i \<noteq> deriveAclConfigPda A prog v"
    and "deriveAntConfigPda A prog u \<noteq> deriveAclConfigPda A prog v"
    and "deriveAntControllersPda A prog u \<noteq> deriveAclConfigPda A prog v"
    and "i < 2 ^ 64 \<Longrightarrow> deriveAntConfigPda A prog u \<noteq> deriveAclPagePda A prog v i"
    and "i < 2 ^ 64 \<Longrightarrow> deriveAntControllersPda A prog u \<noteq> deriveAclPagePda A prog v i"
    and "deriveAntControllersPda A prog u \<noteq> deriveAntConfigPda A prog v"
proof -
  have k: "kit_codecs (ak_kit A)" using assms(1) unfolding acl_chain_def by blast
  have inj: "k_pda (ak_kit A) prog ss = k_pda (ak_kit A) prog ss' \<Longrightarrow> concat ss = concat ss'" for ss ss'
    using assms(1) unfolding acl_chain_def by blast
  have len: "length (enc_addr A u) = 32" "length (enc_addr A v) = 32"
    using kit_codecs.address_length [OF k] assms(2,3) by blast+
  note l64 = kit_codecs.u64_length [OF k]
  show "deriveAclConfigPda A prog u = deriveAclConfigPda A prog v \<longleftrightarrow> u = v"
  proof
    assume "deriveAclConfigPda A prog u = deriveAclConfigPda A prog v"
    from inj [OF this [unfolded deriveAclConfigPda_def]] have "enc_addr A u = enc_addr A v" by simp
    then show "u = v" by (rule kit_codecs.address_inj [OF k assms(2,3)])
  qed simp
  show "deriveAclPagePda A prog u i = deriveAclPagePda A prog v j \<longleftrightarrow> u = v \<and> i = j" if b: "i < 2 ^ 64" "j < 2 ^ 64"
  proof
    assume "deriveAclPagePda A prog u i = deriveAclPagePda A prog v j"
    from inj [OF this [unfolded deriveAclPagePda_def]]
    have "enc_addr A u @ k_u64_encode (ak_kit A) (int i) = enc_addr A v @ k_u64_encode (ak_kit A) (int j)" by simp
    then have "enc_addr A u = enc_addr A v" "k_u64_encode (ak_kit A) (int i) = k_u64_encode (ak_kit A) (int j)"
      using len by (simp_all add: append_eq_append_conv)
    then show "u = v \<and> i = j" using kit_codecs.address_inj [OF k assms(2,3)] kit_codecs.u64_inj [OF k b] by blast
  qed simp
  show "deriveAclPagePda A prog u i \<noteq> deriveAclConfigPda A prog v" if "i < 2 ^ 64"
    using inj [of "[ACL_PAGE_SEED, enc_addr A u, k_u64_encode (ak_kit A) (int i)]" "[ACL_CONFIG_SEED, enc_addr A v]"]
      len l64 [OF that] by (auto simp: deriveAclPagePda_def deriveAclConfigPda_def seed_bytes dest: arg_cong [of _ _ length])
  show "deriveAntConfigPda A prog u \<noteq> deriveAclConfigPda A prog v"
    using inj [of "[ANT_CONFIG_SEED, enc_addr A u]" "[ACL_CONFIG_SEED, enc_addr A v]"]
    by (auto simp: deriveAntConfigPda_def deriveAclConfigPda_def seed_bytes)
  show "deriveAntControllersPda A prog u \<noteq> deriveAclConfigPda A prog v"
    using inj [of "[ANT_CONTROLLERS_SEED, enc_addr A u]" "[ACL_CONFIG_SEED, enc_addr A v]"]
    by (auto simp: deriveAntControllersPda_def deriveAclConfigPda_def seed_bytes)
  show "deriveAntConfigPda A prog u \<noteq> deriveAclPagePda A prog v i"
    using inj [of "[ANT_CONFIG_SEED, enc_addr A u]" "[ACL_PAGE_SEED, enc_addr A v, k_u64_encode (ak_kit A) (int i)]"]
    by (auto simp: deriveAclPagePda_def deriveAntConfigPda_def seed_bytes)
  show "deriveAntControllersPda A prog u \<noteq> deriveAclPagePda A prog v i"
    using inj [of "[ANT_CONTROLLERS_SEED, enc_addr A u]" "[ACL_PAGE_SEED, enc_addr A v, k_u64_encode (ak_kit A) (int i)]"]
    by (auto simp: deriveAclPagePda_def deriveAntControllersPda_def seed_bytes)
  show "deriveAntControllersPda A prog u \<noteq> deriveAntConfigPda A prog v"
    using inj [of "[ANT_CONTROLLERS_SEED, enc_addr A u]" "[ANT_CONFIG_SEED, enc_addr A v]"]
    by (auto simp: deriveAntControllersPda_def deriveAntConfigPda_def seed_bytes)
qed

lemma page_count_bound:
  assumes "kit_codecs (ak_kit A)" and "decodeAclConfig A bs = Inr c"
  shows "ac_pageCount c < 2 ^ 64"
proof -
  obtain user pages total where c: "read_u64 A bs 40 = Inr pages" "c = \<lparr>ac_user = user, ac_pageCount = pages, ac_totalEntries = total\<rparr>"
    using assms(2) by (auto simp: decodeAclConfig_def and_then_Inr)
  then have "length (subarray bs 40 8) = 8 \<and> pages = nat (k_u64_decode (ak_kit A) (subarray bs 40 8))"
    by (auto simp: read_u64_def read_fixed_def subarray_def split: if_splits)
  then have "pages = le_value (subarray bs 40 8)" "le_value (subarray bs 40 8) < 256 ^ 8"
    using kit_codecs.u64_decode_law [OF assms(1)] le_value_less [of "subarray bs 40 8"] by auto
  then show ?thesis using c by simp
qed

text \<open>The accounts of one user's list, and a change that stays within them.\<close>

definition acl_region :: "acl_kit \<Rightarrow> string \<Rightarrow> string \<Rightarrow> string set" where
  "acl_region A prog u = insert (deriveAclConfigPda A prog u) (deriveAclPagePda A prog u ` {i. i < 2 ^ 64})"

lemma changes_only_trans: "changes_only m m1 X \<Longrightarrow> changes_only m1 m2 X \<Longrightarrow> changes_only m m2 X"
  by (simp add: changes_only_def)

lemma changes_only_mono: "changes_only m m' X \<Longrightarrow> X \<subseteq> Y \<Longrightarrow> changes_only m m' Y"
  by (auto simp: changes_only_def)

lemma changes_only_refl: "changes_only m m X"
  by (simp add: changes_only_def)

lemma changes_onlyD: "changes_only m m' X \<Longrightarrow> x \<notin> X \<Longrightarrow> m' x = m x"
  by (simp add: changes_only_def)

lemma acl_region_intro:
  "i < 2 ^ 64 \<Longrightarrow> {deriveAclConfigPda A prog u, deriveAclPagePda A prog u i} \<subseteq> acl_region A prog u"
  "{deriveAclConfigPda A prog u} \<subseteq> acl_region A prog u"
  by (auto simp: acl_region_def)

lemma acl_region_notin:
  "x \<noteq> deriveAclConfigPda A prog u \<Longrightarrow> (\<And>i. i < 2 ^ 64 \<Longrightarrow> deriveAclPagePda A prog u i \<noteq> x) \<Longrightarrow> x \<notin> acl_region A prog u"
  by (auto simp: acl_region_def)

lemma region_apart:
  assumes "acl_chain A prog exec" and "k_valid (ak_kit A) u" and "k_valid (ak_kit A) v" and "u \<noteq> v"
  shows "deriveAclConfigPda A prog v \<notin> acl_region A prog u"
    and "i < 2 ^ 64 \<Longrightarrow> deriveAclPagePda A prog v i \<notin> acl_region A prog u"
proof -
  show "deriveAclConfigPda A prog v \<notin> acl_region A prog u"
    by (rule acl_region_notin) (use pdas_apart(1) [OF assms(1-3)] pdas_apart(3) [OF assms(1-3)] assms(4) in metis)+
  show "deriveAclPagePda A prog v i \<notin> acl_region A prog u" if "i < 2 ^ 64"
    by (rule acl_region_notin)
      (use pdas_apart(2) [OF assms(1-3) _ that] pdas_apart(3) [OF assms(1,3,2) that] assms(4) in metis)+
qed

lemma region_ant:
  assumes "acl_chain A prog exec" and "k_valid (ak_kit A) u" and "k_valid (ak_kit A) mint"
  shows "deriveAntConfigPda A prog mint \<notin> acl_region A prog u" "deriveAntControllersPda A prog mint \<notin> acl_region A prog u"
  by (rule acl_region_notin; use pdas_apart(4-7) [OF assms(1,3,2)] in metis)+

lemma region_derived: "x \<in> acl_region A prog u \<Longrightarrow> \<exists>ss. x = k_pda (ak_kit A) prog ss"
  by (auto simp: acl_region_def deriveAclConfigPda_def deriveAclPagePda_def)

lemma read_acl_unchanged:
  assumes "kit_codecs (ak_kit A)" and "deriveAclConfigPda A prog u \<notin> X"
    and "\<And>i. i < 2 ^ 64 \<Longrightarrow> deriveAclPagePda A prog u i \<notin> X" and "changes_only m m' X"
  shows "read_acl A m' prog u mint = read_acl A m prog u mint"
proof (cases "m (deriveAclConfigPda A prog u)")
  case None
  then show ?thesis using changes_onlyD [OF assms(4,2)] by (simp add: read_acl_def)
next
  case (Some bs)
  have c: "m' (deriveAclConfigPda A prog u) = Some bs" using changes_onlyD [OF assms(4,2)] Some by simp
  show ?thesis
  proof (cases "decodeAclConfig A bs")
    case (Inl e)
    then show ?thesis using Some c by (simp add: read_acl_def)
  next
    case (Inr cfg)
    have "m' (pr_pagePda r) = m (pr_pagePda r)" if r: "r \<in> set (page_refs A prog u (ac_pageCount cfg))" for r
    proof -
      obtain i where "i < ac_pageCount cfg" "pr_pagePda r = deriveAclPagePda A prog u i" using r by (auto simp: page_refs_def)
      then show ?thesis using changes_onlyD [OF assms(4) assms(3)] page_count_bound [OF assms(1) Inr] by simp
    qed
    then have "map (\<lambda>r. (r, m' (pr_pagePda r))) (page_refs A prog u (ac_pageCount cfg))
        = map (\<lambda>r. (r, m (pr_pagePda r))) (page_refs A prog u (ac_pageCount cfg))" by simp
    then show ?thesis unfolding read_acl_def c Some option.case Inr and_then_simps by (simp only:)
  qed
qed

section \<open>The three steps\<close>

text \<open>
  What is assumed of a user's list: it does not exist, or its head names the user and a number of
  pages, and the next page does not exist yet; its pages are whole. An owner entry occurs at most once.
\<close>

definition list_ok :: "acl_kit \<Rightarrow> accounts \<Rightarrow> string \<Rightarrow> string \<Rightarrow> bool" where
  "list_ok A m prog u \<longleftrightarrow>
     (\<forall>i < 2 ^ 64. \<forall>es. page_at A m (deriveAclPagePda A prog u i) es \<longrightarrow> whole es)
     \<and> ((m (deriveAclConfigPda A prog u) = None \<and> m (deriveAclPagePda A prog u 0) = None)
      \<or> (\<exists>n < 2 ^ 64 - 1. config_at A m (deriveAclConfigPda A prog u) u n \<and> m (deriveAclPagePda A prog u n) = None))"

definition single_entry :: "acl_kit \<Rightarrow> accounts \<Rightarrow> string \<Rightarrow> string \<Rightarrow> string \<Rightarrow> bool" where
  "single_entry A m prog u mint \<longleftrightarrow>
     (\<forall>i < 2 ^ 64. \<forall>j < 2 ^ 64. page_holds A mint (page_data A m prog u i) \<longrightarrow> page_holds A mint (page_data A m prog u j) \<longrightarrow> i = j)
     \<and> (\<forall>i < 2 ^ 64. \<forall>es. page_at A m (deriveAclPagePda A prog u i) es \<longrightarrow> count (mset es) (owner_entry mint) \<le> 1)"

lemma page_holds_at: "page_holds A mint (page_data A m prog u i) \<longleftrightarrow>
    (\<exists>es. page_at A m (deriveAclPagePda A prog u i) es \<and> owner_entry mint \<in> set es)"
  by (auto simp: page_holds_def page_at_def page_data_def)

lemma page_roomy_at: "page_roomy A (page_data A m prog u i) \<longleftrightarrow>
    (\<exists>es. page_at A m (deriveAclPagePda A prog u i) es \<and> length es < MAX_ACL_PAGE_ENTRIES)"
  by (auto simp: page_roomy_def page_at_def page_data_def)

lemma page_at_readable: "page_at A m (deriveAclPagePda A prog u i) es \<Longrightarrow> page_readable A (page_data A m prog u i)"
  by (auto simp: page_readable_def page_at_def page_data_def)

lemma page_at_holds: "page_at A m (deriveAclPagePda A prog u i) es
     \<Longrightarrow> page_holds A mint (page_data A m prog u i) \<longleftrightarrow> owner_entry mint \<in> set es"
  by (auto simp: page_holds_def page_at_def page_data_def)

text \<open>A page replaced by another that can be read, beside an unchanged number of pages.\<close>

lemma page_replaced:
  assumes chain: "acl_chain A prog exec" and u: "k_valid (ak_kit A) u"
    and ch: "changes_only m m' {deriveAclConfigPda A prog u, deriveAclPagePda A prog u i}" and "i < 2 ^ 64"
    and "j < 2 ^ 64" "j \<noteq> i"
  shows "page_data A m' prog u j = page_data A m prog u j"
proof -
  have "deriveAclPagePda A prog u j \<notin> {deriveAclConfigPda A prog u, deriveAclPagePda A prog u i}"
    using pdas_apart [OF chain u u] assms(4-6) by auto
  then show ?thesis using changes_onlyD [OF ch] by (simp add: page_data_def)
qed

lemma step_remove:
  assumes chain: "acl_chain A prog exec" and old: "k_valid (ak_kit A) old"
    and head: "list_ok A m prog old" and single: "single_entry A m prog old mint"
    and owner: "asset_owner A m mint = Some new" "new \<noteq> old" and read: "read_acl A m prog old mint = Inr r"
    and S: "hs_antProgram S = prog" "hs_mint S = mint" "hs_antConfigPda S = deriveAntConfigPda A prog mint"
      "hs_oldAclConfigPda S = oa_aclConfigPda r" "hs_oldEntryPage S = oa_ownerEntryPage r"
  shows "\<exists>m' r'. exec_all exec (map fst (plan_remove A S)) m = Some m' \<and> changes_only m m' (acl_region A prog old)
     \<and> read_acl A m' prog old mint = Inr r' \<and> oa_ownerEntryPage r' = None"
proof (cases "oa_ownerEntryPage r")
  case None
  then show ?thesis using S read by (auto simp: plan_remove_def changes_only_refl)
next
  case (Some g)
  have "m (deriveAclConfigPda A prog old) \<noteq> None"
    using read Some read_acl_none [of m A prog old mint r] by (metis option.distinct(1) owner_acl_read.select_convs(4))
  then obtain n where n: "n < 2 ^ 64 - 1" "config_at A m (deriveAclConfigPda A prog old) old n"
    using head by (auto simp: list_ok_def)
  note R = read_acl_Inr [OF n(2) read]
  let ?i = "pr_pageIdx g"
  have g: "?i < n" "pr_pagePda g = deriveAclPagePda A prog old ?i" using R(3) Some by simp_all
  obtain es where es: "page_at A m (deriveAclPagePda A prog old ?i) es" "owner_entry mint \<in> set es"
    using R(3) Some by (auto simp: page_holds_at)
  have i64: "?i < 2 ^ 64" using g n by simp
  have whole: "whole es" using head es(1) i64 by (auto simp: list_ok_def)
  obtain m' es' where m': "exec (removeAclOwnerIx A prog mint (deriveAntConfigPda A prog mint) (deriveAclConfigPda A prog old)
        (deriveAclPagePda A prog old ?i) (hs_treasury S)) m = Some m'"
    and ch: "changes_only m m' {deriveAclConfigPda A prog old, deriveAclPagePda A prog old ?i}"
    and cfg: "config_at A m' (deriveAclConfigPda A prog old) old n"
    and es': "page_at A m' (deriveAclPagePda A prog old ?i) es'" "mset es = add_mset (owner_entry mint) (mset es')"
    using chain owner n(2) g(1) es whole unfolding acl_chain_def ario_ant_def removes_entry_def by blast
  have "count (mset es) (owner_entry mint) \<le> 1" using single es(1) i64 by (auto simp: single_entry_def)
  then have gone: "owner_entry mint \<notin> set es'" using es'(2) by (auto simp: count_eq_zero_iff)
  have same: "page_data A m' prog old j = page_data A m prog old j" if "j < n" "j \<noteq> ?i" for j
    by (rule page_replaced [OF chain old ch i64]) (use that n in auto)
  have "page_readable A (page_data A m' prog old j)" if "j < n" for j
    using R(1) same [OF that] that page_at_readable [OF es'(1)] by (cases "j = ?i") auto
  then obtain r' where r': "read_acl A m' prog old mint = Inr r'" using read_acl_ok [OF cfg] by blast
  have "\<not> page_holds A mint (page_data A m' prog old j)" if j: "j < n" for j
  proof (cases "j = ?i")
    case False
    have "page_holds A mint (page_data A m prog old ?i)" using es by (auto simp: page_holds_at)
    then show ?thesis using same [OF j False] single False j n i64 by (auto simp: single_entry_def)
  qed (use gone page_at_holds [OF es'(1)] in simp)
  then have "oa_ownerEntryPage r' = None" using read_acl_Inr(3) [OF cfg r'] by (cases "oa_ownerEntryPage r'") auto
  moreover have "exec_all exec (map fst (plan_remove A S)) m = Some m'"
    using m' S R(2) Some g by (simp add: plan_remove_def)
  moreover have "changes_only m m' (acl_region A prog old)" using changes_only_mono [OF ch acl_region_intro(1) [OF i64]] .
  ultimately show ?thesis using r' by blast
qed

text \<open>Recording on a page with room, once head and page are there.\<close>

lemma record_on_page:
  assumes chain: "acl_chain A prog exec" and u: "k_valid (ak_kit A) u" and owner: "asset_owner A m mint = Some u"
    and cfg: "config_at A m (deriveAclConfigPda A prog u) u n" and i: "i < n" "n < 2 ^ 64"
    and es: "page_at A m (deriveAclPagePda A prog u i) es" "length es < MAX_ACL_PAGE_ENTRIES" "whole es"
    and valid: "k_valid (ak_kit A) mint"
    and readable: "\<forall>j < n. page_readable A (page_data A m prog u j)"
  shows "\<exists>m' r'. exec (recordAclOwnerIx A prog mint (deriveAntConfigPda A prog mint) (deriveAclConfigPda A prog u)
        (deriveAclPagePda A prog u i) payer) m = Some m' \<and> changes_only m m' (acl_region A prog u)
     \<and> read_acl A m' prog u mint = Inr r' \<and> oa_ownerEntryPage r' \<noteq> None"
proof -
  obtain m' where m': "exec (recordAclOwnerIx A prog mint (deriveAntConfigPda A prog mint) (deriveAclConfigPda A prog u)
        (deriveAclPagePda A prog u i) payer) m = Some m'"
    and ch: "changes_only m m' {deriveAclConfigPda A prog u, deriveAclPagePda A prog u i}"
    and cfg': "config_at A m' (deriveAclConfigPda A prog u) u n"
    and es': "page_at A m' (deriveAclPagePda A prog u i) (es @ [owner_entry mint])"
    using chain owner cfg i(1) es valid unfolding acl_chain_def ario_ant_def records_owner_def by blast
  have i64: "i < 2 ^ 64" using i by simp
  have "page_readable A (page_data A m' prog u j)" if "j < n" for j
    using readable that i page_replaced [OF chain u ch i64, of j] page_at_readable [OF es'] by (cases "j = i") auto
  then obtain r' where r': "read_acl A m' prog u mint = Inr r'" using read_acl_ok [OF cfg'] by blast
  have "page_holds A mint (page_data A m' prog u i)" using page_at_holds [OF es'] by simp
  then have "oa_ownerEntryPage r' \<noteq> None" using read_acl_Inr(3) [OF cfg' r'] i(1)
    by (cases "oa_ownerEntryPage r'") auto
  then show ?thesis using m' r' changes_only_mono [OF ch acl_region_intro(1) [OF i64]] by blast
qed

text \<open>Adding the next page and recording on it.\<close>

lemma add_and_record:
  assumes chain: "acl_chain A prog exec" and u: "k_valid (ak_kit A) u" and mint: "\<forall>ss. mint \<noteq> k_pda (ak_kit A) prog ss"
    and owner: "asset_owner A m mint = Some u" and valid: "k_valid (ak_kit A) mint"
    and cfg: "config_at A m (deriveAclConfigPda A prog u) u n" and n: "n < 2 ^ 64 - 1"
    and next': "m (deriveAclPagePda A prog u n) = None" and readable: "\<forall>j < n. page_readable A (page_data A m prog u j)"
  shows "\<exists>m' r'. exec_all exec [addAclPageIx A prog (deriveAclConfigPda A prog u) (deriveAclPagePda A prog u n) payer,
        recordAclOwnerIx A prog mint (deriveAntConfigPda A prog mint) (deriveAclConfigPda A prog u)
          (deriveAclPagePda A prog u n) payer] m = Some m' \<and> changes_only m m' (acl_region A prog u)
     \<and> read_acl A m' prog u mint = Inr r' \<and> oa_ownerEntryPage r' \<noteq> None"
proof -
  obtain m1 where m1: "exec (addAclPageIx A prog (deriveAclConfigPda A prog u) (deriveAclPagePda A prog u n) payer) m = Some m1"
    and ch: "changes_only m m1 {deriveAclConfigPda A prog u, deriveAclPagePda A prog u n}"
    and cfg1: "config_at A m1 (deriveAclConfigPda A prog u) u (n + 1)" and pg: "page_at A m1 (deriveAclPagePda A prog u n) []"
    using chain cfg n next' unfolding acl_chain_def ario_ant_def adds_page_def by blast
  have n64: "n < 2 ^ 64" "n + 1 < 2 ^ 64" using n by simp_all
  note region = changes_only_mono [OF ch acl_region_intro(1) [OF n64(1)]]
  have "mint \<notin> acl_region A prog u" using mint region_derived [of mint A prog u] by blast
  then have owner1: "asset_owner A m1 mint = Some u" using owner changes_onlyD [OF region] by (simp add: asset_owner_def)
  have "\<forall>j < n + 1. page_readable A (page_data A m1 prog u j)"
  proof (intro allI impI)
    fix j assume "j < n + 1"
    then show "page_readable A (page_data A m1 prog u j)"
      using readable n64 page_replaced [OF chain u ch n64(1), of j] page_at_readable [OF pg] by (cases "j = n") auto
  qed
  then obtain m' r' where "exec (recordAclOwnerIx A prog mint (deriveAntConfigPda A prog mint) (deriveAclConfigPda A prog u)
        (deriveAclPagePda A prog u n) payer) m1 = Some m'" "changes_only m1 m' (acl_region A prog u)"
     "read_acl A m' prog u mint = Inr r'" "oa_ownerEntryPage r' \<noteq> None"
    using record_on_page [OF chain u owner1 cfg1 _ n64(2) pg _ _ valid, of payer]
    by (auto simp: MAX_ACL_PAGE_ENTRIES_def whole_def)
  then show ?thesis using m1 changes_only_trans [OF region] by auto
qed

lemma step_record:
  assumes chain: "acl_chain A prog exec" and new: "k_valid (ak_kit A) new" and mint: "\<forall>ss. mint \<noteq> k_pda (ak_kit A) prog ss"
    and valid: "k_valid (ak_kit A) mint"
    and head: "list_ok A m prog new" and owner: "asset_owner A m mint = Some new" and read: "read_acl A m prog new mint = Inr r"
    and S: "hs_antProgram S = prog" "hs_mint S = mint" "hs_antConfigPda S = deriveAntConfigPda A prog mint" "hs_claimant S = new"
      "hs_newAclConfigPda S = oa_aclConfigPda r" "hs_newExists S = oa_exists r"
      "hs_newHasOwnerEntry S = (oa_ownerEntryPage r \<noteq> None)" "hs_newNeedsCreate S = (oa_firstNonFullPage r = None)"
      "hs_newTargetPage S = (case oa_firstNonFullPage r of Some g \<Rightarrow> g
         | None \<Rightarrow> \<lparr>pr_pageIdx = oa_pageCount r, pr_pagePda = deriveAclPagePda A prog new (oa_pageCount r)\<rparr>)"
  shows "\<exists>m' r'. exec_all exec (map fst (plan_record A S)) m = Some m' \<and> changes_only m m' (acl_region A prog new)
     \<and> read_acl A m' prog new mint = Inr r' \<and> oa_ownerEntryPage r' \<noteq> None"
proof (cases "oa_ownerEntryPage r = None")
  case False
  then show ?thesis using S read by (auto simp: plan_record_def changes_only_refl)
next
  case none: True
  show ?thesis
  proof (cases "m (deriveAclConfigPda A prog new)")
    case None
    then have r: "r = \<lparr>oa_exists = False, oa_aclConfigPda = deriveAclConfigPda A prog new, oa_pageCount = 0,
            oa_ownerEntryPage = None, oa_firstNonFullPage = None\<rparr>"
      using read read_acl_none [of m A prog new mint r] by blast
    obtain m1 where m1: "exec (registerAclConfigIx A prog new (deriveAclConfigPda A prog new) (hs_treasury S)) m = Some m1"
      and ch: "changes_only m m1 {deriveAclConfigPda A prog new}" and cfg: "config_at A m1 (deriveAclConfigPda A prog new) new 0"
      using chain None new unfolding acl_chain_def ario_ant_def registers_config_def by blast
    note region = changes_only_mono [OF ch acl_region_intro(2)]
    have "mint \<notin> acl_region A prog new" using mint region_derived [of mint A prog new] by blast
    then have owner1: "asset_owner A m1 mint = Some new" using owner changes_onlyD [OF region] by (simp add: asset_owner_def)
    have "m (deriveAclPagePda A prog new 0) = None" using head None by (auto simp: list_ok_def config_at_def)
    then have "m1 (deriveAclPagePda A prog new 0) = None"
      using changes_onlyD [OF ch] pdas_apart(3) [OF chain new new, of 0] by simp
    then obtain m' r' where m': "exec_all exec [addAclPageIx A prog (deriveAclConfigPda A prog new) (deriveAclPagePda A prog new 0) (hs_treasury S),
        recordAclOwnerIx A prog mint (deriveAntConfigPda A prog mint) (deriveAclConfigPda A prog new)
          (deriveAclPagePda A prog new 0) (hs_treasury S)] m1 = Some m'" "changes_only m1 m' (acl_region A prog new)"
      "read_acl A m' prog new mint = Inr r' \<and> oa_ownerEntryPage r' \<noteq> None"
      using add_and_record [OF chain new mint owner1 valid cfg _ \<open>m1 _ = None\<close>, of "hs_treasury S"] by auto
    have "exec_all exec (map fst (plan_record A S)) m = Some m'" using m1 m'(1) S r by (simp add: plan_record_def)
    then show ?thesis using m'(2,3) changes_only_trans [OF region] by blast
  next
    case (Some bs)
    then obtain n where n: "n < 2 ^ 64 - 1" "config_at A m (deriveAclConfigPda A prog new) new n" "m (deriveAclPagePda A prog new n) = None"
      using head by (auto simp: list_ok_def)
    note R = read_acl_Inr [OF n(2) read]
    show ?thesis
    proof (cases "oa_firstNonFullPage r")
      case None
      obtain m' r' where "exec_all exec [addAclPageIx A prog (deriveAclConfigPda A prog new) (deriveAclPagePda A prog new n) (hs_treasury S),
        recordAclOwnerIx A prog mint (deriveAntConfigPda A prog mint) (deriveAclConfigPda A prog new)
          (deriveAclPagePda A prog new n) (hs_treasury S)] m = Some m'" "changes_only m m' (acl_region A prog new)"
        "read_acl A m' prog new mint = Inr r'" "oa_ownerEntryPage r' \<noteq> None"
        using add_and_record [OF chain new mint owner valid n(2,1,3) R(1)] by blast
      moreover have "map fst (plan_record A S) = [addAclPageIx A prog (deriveAclConfigPda A prog new) (deriveAclPagePda A prog new n) (hs_treasury S),
        recordAclOwnerIx A prog mint (deriveAntConfigPda A prog mint) (deriveAclConfigPda A prog new)
          (deriveAclPagePda A prog new n) (hs_treasury S)]"
        using S R(2) none None by (simp add: plan_record_def)
      ultimately show ?thesis by auto
    next
      case (Some g)
      let ?i = "pr_pageIdx g"
      have g: "?i < n" "pr_pagePda g = deriveAclPagePda A prog new ?i" "page_roomy A (page_data A m prog new ?i)"
        using R(4) Some by simp_all
      then obtain es where es: "page_at A m (deriveAclPagePda A prog new ?i) es" "length es < MAX_ACL_PAGE_ENTRIES"
        by (auto simp: page_roomy_at)
      have n64: "n < 2 ^ 64" "?i < 2 ^ 64" using n g(1) by simp_all
      then have "whole es" using head es(1) by (auto simp: list_ok_def)
      from record_on_page [OF chain new owner n(2) g(1) n64(1) es this valid R(1), of "hs_treasury S"]
      obtain m' r' where "exec (recordAclOwnerIx A prog mint (deriveAntConfigPda A prog mint) (deriveAclConfigPda A prog new)
          (deriveAclPagePda A prog new ?i) (hs_treasury S)) m = Some m'" "changes_only m m' (acl_region A prog new)"
        "read_acl A m' prog new mint = Inr r'" "oa_ownerEntryPage r' \<noteq> None" by blast
      moreover have "map fst (plan_record A S) = [recordAclOwnerIx A prog mint (deriveAntConfigPda A prog mint) (deriveAclConfigPda A prog new)
          (deriveAclPagePda A prog new ?i) (hs_treasury S)]"
        using S R(2) none Some g by (simp add: plan_record_def)
      ultimately show ?thesis by auto
    qed
  qed
qed

lemma step_reconcile:
  assumes chain: "acl_chain A prog exec" and mint: "k_valid (ak_kit A) mint" "\<forall>ss. mint \<noteq> k_pda (ak_kit A) prog ss"
    and owner: "asset_owner A m mint = Some new" and cfg: "m (deriveAntConfigPda A prog mint) = Some cfg"
      "decodeAntConfigLastKnownOwner A cfg = Inr known"
    and ctl: "m (deriveAntControllersPda A prog mint) = Some c" "decodeAntControllers A c = Inr controllers"
    and stale: "known \<noteq> new \<or> old \<notin> set controllers"
    and S: "hs_antProgram S = prog" "hs_mint S = mint" "hs_antConfigPda S = deriveAntConfigPda A prog mint"
      "hs_antControllersPda S = deriveAntControllersPda A prog mint" "hs_claimant S = new" "hs_oldOwner S = old"
      "hs_lastKnownOwner S = known" "hs_controllers S = controllers"
  shows "\<exists>m' cfg' c' cs. exec_all exec (map fst (plan_reconcile A S)) m = Some m'
     \<and> changes_only m m' {deriveAntConfigPda A prog mint, deriveAntControllersPda A prog mint}
     \<and> m' (deriveAntConfigPda A prog mint) = Some cfg' \<and> decodeAntConfigLastKnownOwner A cfg' = Inr new
     \<and> m' (deriveAntControllersPda A prog mint) = Some c' \<and> decodeAntControllers A c' = Inr cs \<and> old \<notin> set cs"
proof (cases "known = new")
  case True
  then show ?thesis using S stale cfg ctl by (auto simp: plan_reconcile_def changes_only_refl)
next
  case False
  obtain m' cfg' c' where m': "exec (arioAntReconcileIx A prog mint (deriveAntConfigPda A prog mint)
        (deriveAntControllersPda A prog mint) (hs_treasury S)) m = Some m'"
    "changes_only m m' {deriveAntConfigPda A prog mint, deriveAntControllersPda A prog mint}"
    "m' (deriveAntConfigPda A prog mint) = Some cfg'" "decodeAntConfigLastKnownOwner A cfg' = Inr new"
    "m' (deriveAntControllersPda A prog mint) = Some c'" "decodeAntControllers A c' = Inr []"
    using chain owner cfg False ctl(1) unfolding acl_chain_def ario_ant_def reconciles_def by blast
  moreover have "exec_all exec (map fst (plan_reconcile A S)) m = Some m'" using m'(1) S False by (simp add: plan_reconcile_def)
  ultimately show ?thesis by fastforce
qed

section \<open>Planning and verifying agree\<close>

lemma heal_snapshot_fields [simp]:
  "hs_antProgram (heal_snapshot_of A p mo k c old neu) = hp_antProgram p"
  "hs_mint (heal_snapshot_of A p mo k c old neu) = hp_mint p"
  "hs_oldOwner (heal_snapshot_of A p mo k c old neu) = hp_oldOwner p"
  "hs_claimant (heal_snapshot_of A p mo k c old neu) = hp_claimant p"
  "hs_antConfigPda (heal_snapshot_of A p mo k c old neu) = deriveAntConfigPda A (hp_antProgram p) (hp_mint p)"
  "hs_antControllersPda (heal_snapshot_of A p mo k c old neu) = deriveAntControllersPda A (hp_antProgram p) (hp_mint p)"
  "hs_mplOwner (heal_snapshot_of A p mo k c old neu) = mo"
  "hs_controllers (heal_snapshot_of A p mo k c old neu) = c"
  "hs_lastKnownOwner (heal_snapshot_of A p mo k c old neu) = k"
  "hs_oldAclConfigPda (heal_snapshot_of A p mo k c old neu) = oa_aclConfigPda old"
  "hs_oldEntryPage (heal_snapshot_of A p mo k c old neu) = oa_ownerEntryPage old"
  "hs_newExists (heal_snapshot_of A p mo k c old neu) = oa_exists neu"
  "hs_newAclConfigPda (heal_snapshot_of A p mo k c old neu) = oa_aclConfigPda neu"
  "hs_newHasOwnerEntry (heal_snapshot_of A p mo k c old neu) = (oa_ownerEntryPage neu \<noteq> None)"
  "hs_newNeedsCreate (heal_snapshot_of A p mo k c old neu) = (oa_firstNonFullPage neu = None)"
  "hs_newTargetPage (heal_snapshot_of A p mo k c old neu) = (case oa_firstNonFullPage neu of Some r \<Rightarrow> r
        | None \<Rightarrow> \<lparr>pr_pageIdx = oa_pageCount neu,
            pr_pagePda = deriveAclPagePda A (hp_antProgram p) (hp_claimant p) (oa_pageCount neu)\<rparr>)"
  by (simp_all add: heal_snapshot_of_def)

lemma healed_iff_nothing_to_do:
  "hv_fullyHealed (verification_of p (heal_snapshot_of A p mo k c old neu))
     \<longleftrightarrow> pn_alreadyHealed (planAclHeal A (heal_snapshot_of A p mo k c old neu))"
  by (auto simp: verification_of_def Let_def planAclHeal_def plan_aborted_def plan_remove_def plan_record_def plan_reconcile_def
      split: option.splits)


end
