(* ===== verification/Ant_Heal.thy ===== *)
theory Ant_Heal
  imports Ant_Acl
begin

text \<open>
  The layouts of the accounts of \<open>ario-ant\<close>, as the comments of \<open>dispatch/ant-acl-instructions.ts\<close>
  give them, are read back by the decoders; and a chain on which the laws of \<open>ario_ant\<close> hold.
\<close>

section \<open>Layouts\<close>

text \<open>The layouts as the comments of the decoders give them: Anchor's 8 bytes, then borsh.\<close>

definition u32_law :: "acl_kit \<Rightarrow> bool" where
  "u32_law A \<longleftrightarrow> (\<forall>bs. length bs = 4 \<longrightarrow> ak_u32_decode A bs = le_value bs)"

definition entry_bytes :: "acl_kit \<Rightarrow> string \<times> byte \<Rightarrow> bytes" where
  "entry_bytes A = (\<lambda>(a, role). enc_addr A a @ [role])"

definition page_bytes :: "acl_kit \<Rightarrow> bytes \<Rightarrow> (string \<times> byte) list \<Rightarrow> bytes" where
  "page_bytes A head es = head @ le_bytes 4 (length es) @ concat (map (entry_bytes A) es)"

definition config_bytes :: "acl_kit \<Rightarrow> bytes \<Rightarrow> string \<Rightarrow> nat \<Rightarrow> nat \<Rightarrow> bytes" where
  "config_bytes A disc user pages count' = disc @ enc_addr A user @ le_bytes 8 pages @ le_bytes 8 count'"

definition controllers_bytes :: "acl_kit \<Rightarrow> bytes \<Rightarrow> string list \<Rightarrow> bytes" where
  "controllers_bytes A head cs = head @ le_bytes 4 (length cs) @ concat (map (enc_addr A) cs)"

definition string_bytes :: "bytes \<Rightarrow> bytes" where
  "string_bytes s = le_bytes 4 (length s) @ s"

definition ant_config_bytes :: "acl_kit \<Rightarrow> bytes \<Rightarrow> bytes list \<Rightarrow> bytes list \<Rightarrow> string \<Rightarrow> bytes \<Rightarrow> bytes" where
  "ant_config_bytes A head texts keywords known rest =
     head @ concat (map string_bytes texts) @ le_bytes 4 (length keywords) @ concat (map string_bytes keywords)
       @ enc_addr A known @ rest"

lemma read_fixed_at:
  "length pre = off \<Longrightarrow> length x = n \<Longrightarrow> read_fixed n dec (pre @ x @ post) off = Inr (dec x)"
  by (auto simp: read_fixed_def subarray_def)

lemma read_address_at:
  assumes "kit_codecs (ak_kit A)" and "k_valid (ak_kit A) a" and "length pre = off"
  shows "read_address A (pre @ enc_addr A a @ post) off = Inr a"
  by (simp add: read_address_def read_fixed_at [OF assms(3) kit_codecs.address_length [OF assms(1,2)]]
      kit_codecs.address_round [OF assms(1,2)])

lemma read_u32_at:
  assumes "u32_law A" and "n < 2 ^ 32" and "length pre = off"
  shows "read_u32 A (pre @ le_bytes 4 n @ post) off = Inr n"
  using assms(1,2) by (simp add: read_u32_def read_fixed_at [OF assms(3)] u32_law_def)

lemma read_u64_at:
  assumes "kit_codecs (ak_kit A)" and "n < 2 ^ 64" and "length pre = off"
  shows "read_u64 A (pre @ le_bytes 8 n @ post) off = Inr n"
  using assms(2) by (simp add: read_u64_def read_fixed_at [OF assms(3)] kit_codecs.u64_decode_law [OF assms(1)])

lemma read_entries_at:
  assumes "kit_codecs (ak_kit A)" and "\<forall>(a, r) \<in> set es. k_valid (ak_kit A) a" and "length pre = off"
  shows "read_entries A (pre @ concat (map (entry_bytes A) es)) off (length es) = Inr (map (\<lambda>(a, r). (a, Some r)) es)"
  using assms(2,3)
proof (induction es arbitrary: pre off)
  case (Cons e es)
  obtain a r where e: "e = (a, r)" by fastforce
  let ?post = "concat (map (entry_bytes A) es)"
  have l: "length (enc_addr A a) = 32" using kit_codecs.address_length [OF assms(1)] Cons.prems e by auto
  have "read_address A (pre @ enc_addr A a @ r # ?post) off = Inr a"
    by (rule read_address_at [OF assms(1)]) (use Cons.prems e in auto)
  moreover have "read_entries A ((pre @ enc_addr A a @ [r]) @ ?post) (off + 33) (length es) = Inr (map (\<lambda>(a, r). (a, Some r)) es)"
    by (rule Cons.IH) (use Cons.prems l in auto)
  moreover have "(pre @ enc_addr A a @ r # ?post) ! (off + 32) = r" using Cons.prems(2) l by (simp add: nth_append)
  ultimately show ?case using Cons.prems(2) l by (simp add: e entry_bytes_def)
qed simp

lemma read_addresses_at:
  assumes "kit_codecs (ak_kit A)" and "\<forall>a \<in> set as. k_valid (ak_kit A) a" and "length pre = off"
  shows "read_addresses A (pre @ concat (map (enc_addr A) as)) off (length as) = Inr as"
  using assms(2,3)
proof (induction as arbitrary: pre off)
  case (Cons a as)
  have "read_address A (pre @ enc_addr A a @ concat (map (enc_addr A) as)) off = Inr a"
    by (rule read_address_at [OF assms(1)]) (use Cons.prems in auto)
  moreover have "read_addresses A ((pre @ enc_addr A a) @ concat (map (enc_addr A) as)) (off + 32) (length as) = Inr as"
    by (rule Cons.IH) (use Cons.prems kit_codecs.address_length [OF assms(1)] in auto)
  ultimately show ?case by simp
qed simp

lemma skip_strs_at:
  assumes "u32_law A" and "\<forall>t \<in> set ts. length t < 2 ^ 32" and "length pre = off"
  shows "skip_strs A (pre @ concat (map string_bytes ts) @ post) (length ts) off
     = Inr (length (pre @ concat (map string_bytes ts)))"
  using assms(2,3)
proof (induction ts arbitrary: pre off)
  case (Cons t ts)
  let ?post = "concat (map string_bytes ts) @ post"
  have "read_u32 A (pre @ le_bytes 4 (length t) @ t @ ?post) off = Inr (length t)"
    by (rule read_u32_at [OF assms(1)]) (use Cons.prems in auto)
  moreover have "skip_strs A ((pre @ string_bytes t) @ ?post) (length ts) (off + 4 + length t)
      = Inr (length ((pre @ string_bytes t) @ concat (map string_bytes ts)))"
    by (rule Cons.IH) (use Cons.prems in \<open>auto simp: string_bytes_def [of t]\<close>)
  ultimately show ?case by (simp add: skip_str_def string_bytes_def [of t])
qed simp

lemma page_layout:
  assumes "kit_codecs (ak_kit A)" and "u32_law A" and "\<forall>(a, r) \<in> set es. k_valid (ak_kit A) a"
    and "length es < 2 ^ 32" and "length head = 48"
  shows "decodeAclPageEntries A (page_bytes A head es) = Inr (map (\<lambda>(a, r). (a, Some r)) es)"
proof -
  have "read_u32 A (page_bytes A head es) 48 = Inr (length es)"
    unfolding page_bytes_def by (rule read_u32_at) (use assms in auto)
  moreover have "read_entries A ((head @ le_bytes 4 (length es)) @ concat (map (entry_bytes A) es)) 52 (length es)
      = Inr (map (\<lambda>(a, r). (a, Some r)) es)"
    by (rule read_entries_at) (use assms in auto)
  ultimately show ?thesis by (simp add: decodeAclPageEntries_def page_bytes_def)
qed

lemma config_layout:
  assumes "kit_codecs (ak_kit A)" and "k_valid (ak_kit A) user" and "length disc = 8" and "pages < 2 ^ 64" and "n < 2 ^ 64"
  shows "decodeAclConfig A (config_bytes A disc user pages n) = Inr \<lparr>ac_user = user, ac_pageCount = pages, ac_totalEntries = n\<rparr>"
proof -
  have l: "length (enc_addr A user) = 32" using kit_codecs.address_length [OF assms(1,2)] .
  have "read_address A (disc @ enc_addr A user @ le_bytes 8 pages @ le_bytes 8 n) 8 = Inr user"
    by (rule read_address_at) (use assms in auto)
  moreover have "read_u64 A ((disc @ enc_addr A user) @ le_bytes 8 pages @ le_bytes 8 n) 40 = Inr pages"
    by (rule read_u64_at) (use assms l in auto)
  moreover have "read_u64 A ((disc @ enc_addr A user @ le_bytes 8 pages) @ le_bytes 8 n @ []) 48 = Inr n"
    by (rule read_u64_at) (use assms l in auto)
  ultimately show ?thesis by (simp add: decodeAclConfig_def config_bytes_def)
qed

lemma controllers_layout:
  assumes "kit_codecs (ak_kit A)" and "u32_law A" and "\<forall>c \<in> set cs. k_valid (ak_kit A) c"
    and "length cs < 2 ^ 32" and "length head = 40"
  shows "decodeAntControllers A (controllers_bytes A head cs) = Inr cs"
proof -
  have "read_u32 A (controllers_bytes A head cs) 40 = Inr (length cs)"
    unfolding controllers_bytes_def by (rule read_u32_at) (use assms in auto)
  moreover have "read_addresses A ((head @ le_bytes 4 (length cs)) @ concat (map (enc_addr A) cs)) 44 (length cs) = Inr cs"
    by (rule read_addresses_at) (use assms in auto)
  ultimately show ?thesis by (simp add: decodeAntControllers_def controllers_bytes_def)
qed

lemma ant_config_layout:
  assumes "kit_codecs (ak_kit A)" and "u32_law A" and "length texts = 4" and "\<forall>t \<in> set (texts @ keywords). length t < 2 ^ 32"
    and "length keywords < 2 ^ 32" and "k_valid (ak_kit A) known" and "length head = 40"
  shows "decodeAntConfigLastKnownOwner A (ant_config_bytes A head texts keywords known rest) = Inr known"
proof -
  let ?t = "concat (map string_bytes texts)" and ?k = "concat (map string_bytes keywords)"
  let ?n = "le_bytes 4 (length keywords)"
  let ?bs = "ant_config_bytes A head texts keywords known rest"
  have "skip_strs A (head @ ?t @ ?n @ ?k @ enc_addr A known @ rest) (length texts) 40 = Inr (length (head @ ?t))"
    by (rule skip_strs_at) (use assms in auto)
  moreover have "read_u32 A ((head @ ?t) @ ?n @ ?k @ enc_addr A known @ rest) (length (head @ ?t)) = Inr (length keywords)"
    by (rule read_u32_at) (use assms in auto)
  moreover have "skip_strs A ((head @ ?t @ ?n) @ ?k @ enc_addr A known @ rest) (length keywords) (length (head @ ?t) + 4)
      = Inr (length ((head @ ?t @ ?n) @ ?k))"
    by (rule skip_strs_at) (use assms in auto)
  moreover have "read_address A ((head @ ?t @ ?n @ ?k) @ enc_addr A known @ rest) (length ((head @ ?t @ ?n) @ ?k)) = Inr known"
    by (rule read_address_at) (use assms in auto)
  ultimately show ?thesis using assms(3) by (simp add: decodeAntConfigLastKnownOwner_def ant_config_bytes_def)
qed

section \<open>A chain on which the laws hold\<close>

definition demo_acl :: acl_kit where
  "demo_acl = \<lparr>ak_kit = demo_kit\<lparr>k_pda := \<lambda>p ss. CHR ''P'' # map (\<lambda>b. char_of (unat b)) (concat ss),
      k_sha256 := \<lambda>bs. take 32 (drop 7 bs @ replicate 32 0)\<rparr>, ak_u32_decode = le_value\<rparr>"

definition demo_list_head :: "accounts \<Rightarrow> string \<Rightarrow> acl_config option" where
  "demo_list_head m a = Option.bind (m a) (\<lambda>bs. case decodeAclConfig demo_acl bs of Inl e \<Rightarrow> None | Inr c \<Rightarrow> Some c)"

definition demo_entries :: "accounts \<Rightarrow> string \<Rightarrow> acl_entry list option" where
  "demo_entries m a = Option.bind (m a) (\<lambda>bs. case decodeAclPageEntries demo_acl bs of Inl e \<Rightarrow> None | Inr es \<Rightarrow> Some es)"

definition demo_page_bytes :: "acl_entry list \<Rightarrow> bytes" where
  "demo_page_bytes es = page_bytes demo_acl (replicate 48 0) (map (\<lambda>(a, r). (a, the r)) es)"

definition demo_config_bytes :: "string \<Rightarrow> nat \<Rightarrow> bytes" where
  "demo_config_bytes u n = config_bytes demo_acl (replicate 8 0) u n 0"

definition demo_ant_bytes :: "string \<Rightarrow> bytes" where
  "demo_ant_bytes known = ant_config_bytes demo_acl (replicate 40 0) [[], [], [], []] [] known []"

definition demo_controllers_bytes :: "string list \<Rightarrow> bytes" where
  "demo_controllers_bytes cs = controllers_bytes demo_acl (replicate 40 0) cs"

text \<open>An entry list changed by \<open>f\<close> on the page at \<open>pg\<close>, the head at \<open>cfg\<close> with \<open>k\<close> more pages.\<close>

definition demo_edit :: "(acl_entry list \<Rightarrow> acl_entry list) \<Rightarrow> string \<Rightarrow> string \<Rightarrow> accounts \<Rightarrow> accounts option" where
  "demo_edit f cfg pg m = (case (demo_list_head m cfg, demo_entries m pg) of
       (Some c, Some es) \<Rightarrow> Some (m(pg \<mapsto> demo_page_bytes (f es), cfg \<mapsto> demo_config_bytes (ac_user c) (ac_pageCount c)))
     | _ \<Rightarrow> None)"

definition demo_exec :: "instruction \<Rightarrow> accounts \<Rightarrow> accounts option" where
  "demo_exec ix m =
     (let acc = map fst (ix_accounts ix); d = take 8 (ix_data ix);
          disc = (\<lambda>n. anchorDiscriminator (ak_kit demo_acl) n) in
      if d = disc ''remove_acl_owner'' then demo_edit (remove1 (owner_entry (acc ! 0))) (acc ! 2) (acc ! 3) m
      else if d = disc ''record_acl_owner'' then demo_edit (\<lambda>es. es @ [owner_entry (acc ! 0)]) (acc ! 2) (acc ! 3) m
      else if d = disc ''register_acl_config''
      then Some (m(acc ! 0 \<mapsto> demo_config_bytes (k_decodeAddress (ak_kit demo_acl) (drop 8 (ix_data ix))) 0))
      else if d = disc ''add_acl_page''
      then map_option (\<lambda>c. m(acc ! 1 \<mapsto> demo_page_bytes [], acc ! 0 \<mapsto> demo_config_bytes (ac_user c) (ac_pageCount c + 1)))
             (demo_list_head m (acc ! 0))
      else map_option (\<lambda>owner. m(acc ! 1 \<mapsto> demo_ant_bytes owner, acc ! 2 \<mapsto> demo_controllers_bytes []))
             (asset_owner demo_acl m (acc ! 0)))"

lemma demo_acl_codecs: "kit_codecs (ak_kit demo_acl)" "u32_law demo_acl" "k_valid (ak_kit demo_acl) a \<longleftrightarrow> length a = 32"
  by (auto simp: kit_codecs_def demo_acl_def demo_kit_def u32_law_def char_of_byte comp_def)

lemma demo_acl_pda:
  "k_pda (ak_kit demo_acl) p ss = k_pda (ak_kit demo_acl) p ss' \<Longrightarrow> concat ss = concat ss'"
proof -
  have "inj (\<lambda>b :: byte. char_of (unat b) :: char)"
  proof (rule injI)
    fix b c :: byte assume "(char_of (unat b) :: char) = char_of (unat c)"
    then have "(of_char (char_of (unat b) :: char) :: nat) = of_char (char_of (unat c) :: char)" by simp
    then have "unat b = unat c" using byte_less [of b] byte_less [of c] by (simp add: of_char_of)
    then show "b = c" by (rule unsigned_word_eqI)
  qed
  then show "k_pda (ak_kit demo_acl) p ss = k_pda (ak_kit demo_acl) p ss' \<Longrightarrow> concat ss = concat ss'"
    by (auto simp: demo_acl_def demo_kit_def dest: injD [OF inj_mapI])
qed

lemma demo_discs:
  "anchorDiscriminator (ak_kit demo_acl) ''remove_acl_owner'' = [114, 101, 109, 111, 118, 101, 95, 97]"
  "anchorDiscriminator (ak_kit demo_acl) ''record_acl_owner'' = [114, 101, 99, 111, 114, 100, 95, 97]"
  "anchorDiscriminator (ak_kit demo_acl) ''register_acl_config'' = [114, 101, 103, 105, 115, 116, 101, 114]"
  "anchorDiscriminator (ak_kit demo_acl) ''add_acl_page'' = [97, 100, 100, 95, 97, 99, 108, 95]"
  "anchorDiscriminator (ak_kit demo_acl) ''reconcile'' = [114, 101, 99, 111, 110, 99, 105, 108]"
  by code_simp+

lemma demo_read_address: "read_address demo_acl bs off = Inr a \<Longrightarrow> length a = 32"
  by (auto simp: read_address_def read_fixed_def subarray_def demo_acl_def demo_kit_def split: if_splits)

lemma demo_entries_valid:
  "read_entries demo_acl bs off n = Inr es \<Longrightarrow> length es = n \<and> (\<forall>e \<in> set es. length (fst e) = 32)"
proof (induction n arbitrary: off es)
  case (Suc n)
  from Suc.prems obtain a rest where a: "read_address demo_acl bs off = Inr a" "read_entries demo_acl bs (off + 33) n = Inr rest"
    "es = (a, if off + 32 < length bs then Some (bs ! (off + 32)) else None) # rest"
    by (auto simp: and_then_Inr simp del: fun_upd_apply)
  then show ?case using Suc.IH [OF a(2)] demo_read_address [OF a(1)] by simp
qed simp

lemma demo_page_valid:
  assumes "decodeAclPageEntries demo_acl bs = Inr es"
  shows "length es < 2 ^ 32 \<and> (\<forall>e \<in> set es. length (fst e) = 32)"
proof -
  obtain n where n: "read_u32 demo_acl bs 48 = Inr n" "read_entries demo_acl bs 52 n = Inr es"
    using assms by (auto simp: decodeAclPageEntries_def and_then_Inr)
  then have "n = le_value (subarray bs 48 4)" "length (subarray bs 48 4) = 4"
    by (auto simp: read_u32_def read_fixed_def demo_acl_def subarray_def split: if_splits)
  then have "n < 2 ^ 32" using le_value_less [of "subarray bs 48 4"] by simp
  then show ?thesis using demo_entries_valid [OF n(2)] by simp
qed

lemma demo_page_decode:
  assumes "length es < 2 ^ 32" and "\<forall>e \<in> set es. length (fst e) = 32" and "whole es"
  shows "decodeAclPageEntries demo_acl (demo_page_bytes es) = Inr es"
proof -
  have "decodeAclPageEntries demo_acl (demo_page_bytes es) = Inr (map (\<lambda>(a, r). (a, Some r)) (map (\<lambda>(a, r). (a, the r)) es))"
    unfolding demo_page_bytes_def
    by (rule page_layout) (use assms(1,2) demo_acl_codecs in \<open>auto split: prod.splits\<close>)
  moreover have "map (\<lambda>(a, r). (a, Some r)) (map (\<lambda>(a, r). (a, the r)) es) = es"
    using assms(3) by (induction es) (auto simp: whole_def image_iff)
  ultimately show ?thesis by simp
qed

lemma demo_config_decode:
  "length u = 32 \<Longrightarrow> n < 2 ^ 64 \<Longrightarrow> decodeAclConfig demo_acl (demo_config_bytes u n)
     = Inr \<lparr>ac_user = u, ac_pageCount = n, ac_totalEntries = 0\<rparr>"
  unfolding demo_config_bytes_def by (rule config_layout) (use demo_acl_codecs in auto)

lemma demo_ant_decode: "length u = 32 \<Longrightarrow> decodeAntConfigLastKnownOwner demo_acl (demo_ant_bytes u) = Inr u"
  unfolding demo_ant_bytes_def by (rule ant_config_layout) (use demo_acl_codecs in auto)

lemma demo_controllers_decode:
  "\<forall>c \<in> set cs. length c = 32 \<Longrightarrow> length cs < 2 ^ 32 \<Longrightarrow> decodeAntControllers demo_acl (demo_controllers_bytes cs) = Inr cs"
  unfolding demo_controllers_bytes_def by (rule controllers_layout) (use demo_acl_codecs in auto)

lemma demo_apart:
  "deriveAclPagePda demo_acl p u i \<noteq> deriveAclConfigPda demo_acl p u"
  "deriveAntControllersPda demo_acl p a \<noteq> deriveAntConfigPda demo_acl p a"
  by (auto simp: deriveAclPagePda_def deriveAclConfigPda_def deriveAntControllersPda_def deriveAntConfigPda_def
      demo_acl_def demo_kit_def seed_bytes dest: arg_cong [of _ _ length])


lemma demo_exec_simps:
  "demo_exec (removeAclOwnerIx demo_acl prog a x cfg pg payer) m = demo_edit (remove1 (owner_entry a)) cfg pg m"
  "demo_exec (recordAclOwnerIx demo_acl prog a x cfg pg payer) m = demo_edit (\<lambda>es. es @ [owner_entry a]) cfg pg m"
  "length u = 32 \<Longrightarrow> demo_exec (registerAclConfigIx demo_acl prog u cfg payer) m = Some (m(cfg \<mapsto> demo_config_bytes u 0))"
  "demo_exec (addAclPageIx demo_acl prog cfg pg payer) m
     = map_option (\<lambda>c. m(pg \<mapsto> demo_page_bytes [], cfg \<mapsto> demo_config_bytes (ac_user c) (ac_pageCount c + 1))) (demo_list_head m cfg)"
  "demo_exec (arioAntReconcileIx demo_acl prog a cfg ctl caller) m
     = map_option (\<lambda>owner. m(cfg \<mapsto> demo_ant_bytes owner, ctl \<mapsto> demo_controllers_bytes [])) (asset_owner demo_acl m a)"
  using kit_codecs.address_round [OF demo_acl_codecs(1)] demo_acl_codecs(3)
  by (simp_all add: demo_exec_def removeAclOwnerIx_def recordAclOwnerIx_def registerAclConfigIx_def addAclPageIx_def
      arioAntReconcileIx_def demo_discs Let_def)

lemma demo_config_user: "decodeAclConfig demo_acl bs = Inr c \<Longrightarrow> length (ac_user c) = 32 \<and> ac_pageCount c < 2 ^ 64"
  using page_count_bound [OF demo_acl_codecs(1)] by (fastforce simp: decodeAclConfig_def and_then_Inr dest: demo_read_address)

lemma demo_edit_works:
  assumes c: "config_at demo_acl m cfg u n" and p: "page_at demo_acl m pg es" and "cfg \<noteq> pg"
    and f: "length (f es) < 2 ^ 32" "\<forall>e \<in> set (f es). length (fst e) = 32" "whole (f es)"
  shows "\<exists>m'. demo_edit f cfg pg m = Some m' \<and> changes_only m m' {cfg, pg} \<and> config_at demo_acl m' cfg u n
     \<and> page_at demo_acl m' pg (f es)"
proof -
  obtain bs t where bs: "m cfg = Some bs" "decodeAclConfig demo_acl bs = Inr \<lparr>ac_user = u, ac_pageCount = n, ac_totalEntries = t\<rparr>"
    using c by (auto simp: config_at_def)
  have un: "length u = 32" "n < 2 ^ 64" using demo_config_user [OF bs(2)] by simp_all
  have "demo_list_head m cfg = Some \<lparr>ac_user = u, ac_pageCount = n, ac_totalEntries = t\<rparr>" "demo_entries m pg = Some es"
    using bs p by (auto simp: demo_list_head_def demo_entries_def page_at_def)
  then have "demo_edit f cfg pg m = Some (m(pg \<mapsto> demo_page_bytes (f es), cfg \<mapsto> demo_config_bytes u n))"
    by (simp add: demo_edit_def)
  then show ?thesis
    using demo_config_decode [OF un] demo_page_decode [OF f] assms(3) by (simp add: changes_only_def config_at_def page_at_def)
qed

lemma demo_page_at_valid: "page_at demo_acl m pg es \<Longrightarrow> length es < 2 ^ 32 \<and> (\<forall>e \<in> set es. length (fst e) = 32)"
  using demo_page_valid by (auto simp: page_at_def)

lemma demo_ario_ant: "ario_ant demo_acl prog demo_exec"
proof -
  note v = demo_page_at_valid
  have "removes_entry demo_acl prog demo_exec"
    unfolding removes_entry_def
  proof (intro allI impI, goal_cases)
    case (1 m a payer owner u n i es)
    have r: "length (remove1 (owner_entry a) es) < 2 ^ 32" "\<forall>e \<in> set (remove1 (owner_entry a) es). length (fst e) = 32"
      "whole (remove1 (owner_entry a) es)"
      using v [OF 1(5)] 1(6) by (auto simp: length_remove1 whole_def dest!: notin_set_remove1 [rotated] set_mp [OF set_remove1_subset])
    have "mset es = add_mset (owner_entry a) (mset (remove1 (owner_entry a) es))" using 1(7) by (simp add: mset_remove1)
    then show ?case
      using demo_edit_works [where f = "remove1 (owner_entry a)", OF 1(3,5) not_sym [OF demo_apart(1)] r]
      unfolding demo_exec_simps by metis
  qed
  moreover have "records_owner demo_acl prog demo_exec"
    unfolding records_owner_def
  proof (intro allI impI, goal_cases)
    case (1 m a payer u n i es)
    have r: "length (es @ [owner_entry a]) < 2 ^ 32" "\<forall>e \<in> set (es @ [owner_entry a]). length (fst e) = 32"
      "whole (es @ [owner_entry a])"
      using v [OF 1(5)] 1(1,6,7) demo_acl_codecs(3) by (auto simp: whole_def owner_entry_def MAX_ACL_PAGE_ENTRIES_def)
    show ?case
      using demo_edit_works [where f = "\<lambda>es. es @ [owner_entry a]", OF 1(3,5) not_sym [OF demo_apart(1)] r]
      unfolding demo_exec_simps by metis
  qed
  moreover have "registers_config demo_acl prog demo_exec"
    unfolding registers_config_def
    using demo_config_decode demo_acl_codecs(3) by (auto simp: demo_exec_simps changes_only_def config_at_def)
  moreover have "adds_page demo_acl prog demo_exec"
    unfolding adds_page_def
  proof (intro allI impI, goal_cases)
    case (1 m u payer n)
    then obtain bs t where bs: "m (deriveAclConfigPda demo_acl prog u) = Some bs"
      "decodeAclConfig demo_acl bs = Inr \<lparr>ac_user = u, ac_pageCount = n, ac_totalEntries = t\<rparr>"
      by (auto simp: config_at_def)
    have "length u = 32" "n + 1 < 2 ^ 64" using demo_config_user [OF bs(2)] 1(2) by simp_all
    then show ?case
      using bs demo_config_decode [of u "n + 1"] demo_page_decode [of "[]"] demo_apart(1) [of prog u n]
      by (simp add: demo_exec_simps demo_list_head_def changes_only_def config_at_def page_at_def whole_def)
  qed
  moreover have "reconciles demo_acl prog demo_exec"
    unfolding reconciles_def
  proof (intro allI impI, goal_cases)
    case (1 m a caller owner cfg known ctl)
    have "length owner = 32"
      using 1(1) by (auto simp: asset_owner_def decodeMplCoreOwner_def subarray_def demo_acl_def demo_kit_def split: bind_splits if_splits)
    then show ?case using 1(1) demo_ant_decode demo_controllers_decode [of "[]"] demo_apart(2) [of prog a]
      by (simp add: demo_exec_simps changes_only_def)
  qed
  ultimately show ?thesis by (simp add: ario_ant_def)
qed

lemma demo_acl_chain: "acl_chain demo_acl prog demo_exec"
  unfolding acl_chain_def using demo_acl_codecs(1) demo_acl_pda demo_ario_ant by blast

definition demo_heal_params :: heal_params where
  "demo_heal_params = \<lparr>hp_antProgram = ''prog'', hp_mint = replicate 32 CHR ''m'', hp_oldOwner = replicate 32 CHR ''o'',
     hp_claimant = replicate 32 CHR ''c'', hp_treasury = replicate 32 CHR ''t''\<rparr>"

text \<open>The asset belongs to the claimant; everything else still names the old owner.\<close>

definition demo_accounts :: accounts where
  "demo_accounts = (let p = demo_heal_params in
     [hp_mint p \<mapsto> 1 # enc_addr demo_acl (hp_claimant p),
      deriveAntConfigPda demo_acl ''prog'' (hp_mint p) \<mapsto> demo_ant_bytes (hp_oldOwner p),
      deriveAntControllersPda demo_acl ''prog'' (hp_mint p) \<mapsto> demo_controllers_bytes [hp_oldOwner p],
      deriveAclConfigPda demo_acl ''prog'' (hp_oldOwner p) \<mapsto> demo_config_bytes (hp_oldOwner p) 1,
      deriveAclPagePda demo_acl ''prog'' (hp_oldOwner p) 0 \<mapsto> demo_page_bytes [owner_entry (hp_mint p)]])"

definition demo_account_rpc :: "accounts acl_rpc" where
  "demo_account_rpc = \<lparr>ar_getAccountInfo = \<lambda>a w. (Inr (w a), w), ar_getMultipleAccounts = \<lambda>as w. (Inr (map w as), w)\<rparr>"

lemma demo_pda_P: "\<exists>s. k_pda (ak_kit demo_acl) prog ss = CHR ''P'' # s"
  by (simp add: demo_acl_def)

lemma demo_heal_facts:
  defines "p \<equiv> demo_heal_params"
  shows "length (hp_mint p) = 32" "length (hp_oldOwner p) = 32" "length (hp_claimant p) = 32"
    "hp_oldOwner p \<noteq> hp_claimant p" "hp_mint p \<noteq> hp_oldOwner p" "hp_mint p \<noteq> hp_claimant p" "hp_antProgram p = ''prog''"
    "hp_mint p \<noteq> k_pda (ak_kit demo_acl) prog ss"
proof -
  show "hp_mint p \<noteq> k_pda (ak_kit demo_acl) prog ss" using demo_pda_P [of prog ss] by (auto simp: p_def demo_heal_params_def numeral_eq_Suc)
qed (simp_all add: p_def demo_heal_params_def)

lemma demo_mint_not_pda:
  "hp_mint demo_heal_params \<noteq> deriveAntConfigPda demo_acl q a" "hp_mint demo_heal_params \<noteq> deriveAntControllersPda demo_acl q a"
  "hp_mint demo_heal_params \<noteq> deriveAclConfigPda demo_acl q a" "hp_mint demo_heal_params \<noteq> deriveAclPagePda demo_acl q a i"
  using demo_heal_facts(8)
  by (simp_all add: deriveAntConfigPda_def deriveAntControllersPda_def deriveAclConfigPda_def deriveAclPagePda_def)

lemma demo_accounts_at:
  defines "p \<equiv> demo_heal_params"
  shows "demo_accounts (hp_mint p) = Some (1 # enc_addr demo_acl (hp_claimant p))"
    "demo_accounts (deriveAntConfigPda demo_acl ''prog'' (hp_mint p)) = Some (demo_ant_bytes (hp_oldOwner p))"
    "demo_accounts (deriveAntControllersPda demo_acl ''prog'' (hp_mint p)) = Some (demo_controllers_bytes [hp_oldOwner p])"
    "demo_accounts (deriveAclConfigPda demo_acl ''prog'' (hp_oldOwner p)) = Some (demo_config_bytes (hp_oldOwner p) 1)"
    "demo_accounts (deriveAclPagePda demo_acl ''prog'' (hp_oldOwner p) 0) = Some (demo_page_bytes [owner_entry (hp_mint p)])"
    "demo_accounts (deriveAclConfigPda demo_acl ''prog'' (hp_claimant p)) = None"
    "i < 2 ^ 64 \<Longrightarrow> demo_accounts (deriveAclPagePda demo_acl ''prog'' (hp_claimant p) i) = None"
    "i < 2 ^ 64 \<Longrightarrow> 0 < i \<Longrightarrow> demo_accounts (deriveAclPagePda demo_acl ''prog'' (hp_oldOwner p) i) = None"
proof -
  note v = demo_heal_facts(1-6)
  have mm: "k_valid (ak_kit demo_acl) (hp_mint p)" "k_valid (ak_kit demo_acl) (hp_oldOwner p)" "k_valid (ak_kit demo_acl) (hp_claimant p)"
    using v demo_acl_codecs(3) by (simp_all add: p_def)
  note mo = pdas_apart [OF demo_acl_chain [of "''prog''"] mm(1,2)] and mc = pdas_apart [OF demo_acl_chain [of "''prog''"] mm(1,3)]
    and mmo = pdas_apart(8) [OF demo_acl_chain [of "''prog''"] mm(1,1)]
    and oc = pdas_apart [OF demo_acl_chain [of "''prog''"] mm(2,3)] and co = pdas_apart [OF demo_acl_chain [of "''prog''"] mm(3,2)]
    and oo = pdas_apart [OF demo_acl_chain [of "''prog''"] mm(2,2)]
  note d = demo_accounts_def Let_def p_def
  show "demo_accounts (hp_mint p) = Some (1 # enc_addr demo_acl (hp_claimant p))"
    using demo_mint_not_pda by (simp add: d)
  show "demo_accounts (deriveAntConfigPda demo_acl ''prog'' (hp_mint p)) = Some (demo_ant_bytes (hp_oldOwner p))"
    using mo(4,6) mmo by (simp add: d)
  show "demo_accounts (deriveAntControllersPda demo_acl ''prog'' (hp_mint p)) = Some (demo_controllers_bytes [hp_oldOwner p])"
    using mo(5,7) by (simp add: d)
  show "demo_accounts (deriveAclConfigPda demo_acl ''prog'' (hp_oldOwner p)) = Some (demo_config_bytes (hp_oldOwner p) 1)"
    using oo(3) [of 0] by (simp add: d)
  show "demo_accounts (deriveAclPagePda demo_acl ''prog'' (hp_oldOwner p) 0) = Some (demo_page_bytes [owner_entry (hp_mint p)])"
    by (simp add: d)
  show "demo_accounts (deriveAclConfigPda demo_acl ''prog'' (hp_claimant p)) = None"
    using mc(4,5) oc(1) oc(3) [of 0] v(4) demo_mint_not_pda(3) [symmetric] by (simp add: d)
  show "demo_accounts (deriveAclPagePda demo_acl ''prog'' (hp_claimant p) i) = None" if "i < 2 ^ 64"
    using mc(6,7) [of i] co(2,3) [of i] that v(4) demo_mint_not_pda(4) [symmetric] by (simp add: d)
  show "demo_accounts (deriveAclPagePda demo_acl ''prog'' (hp_oldOwner p) i) = None" if "i < 2 ^ 64" "0 < i"
    using mo(6,7) [of i] oo(2,3) [of i] that demo_mint_not_pda(4) [symmetric] by (simp add: d)
qed


end
