(* ===== verification/Acl_Sweep.thy ===== *)
theory Acl_Sweep
  imports Ant_Acl
begin

text \<open>
  The sweep that repairs the access lists of the confirmed ANT claims one by one
  (\<open>dispatch/ant-acl-healer.ts\<close>). The three columns the sweep keeps on a claim are a table beside
  \<open>db\<close>, which nothing else reads; claims confirmed at the same instant, which the query leaves
  unordered, are taken in the table's order. A sweep that throws keeps what it has written.
\<close>

section \<open>One repair\<close>

datatype heal_outcome = Healed | AlreadyHealed | HealAborted | HealFailed

record heal_one =
  ho_outcome :: heal_outcome
  ho_signature :: "string option"
  ho_note :: "string option"

definition verification_text :: "heal_verification \<Rightarrow> string" where
  "verification_text v = (let b = (\<lambda>x. if x then ''true'' else ''false'') in
     ''{\"ownedByClaimant\":'' @ b (hv_ownedByClaimant v) @ '',\"oldEntryGone\":'' @ b (hv_oldEntryGone v)
       @ '',\"newEntryPresent\":'' @ b (hv_newEntryPresent v) @ '',\"noStaleController\":'' @ b (hv_noStaleController v)
       @ '',\"lastKnownOwnerOk\":'' @ b (hv_lastKnownOwnerOk v) @ '',\"fullyHealed\":'' @ b (hv_fullyHealed v) @ ''}'')"

fun join_text :: "string \<Rightarrow> string list \<Rightarrow> string" where
  "join_text sep [] = []"
| "join_text sep [x] = x"
| "join_text sep (x # y # ys) = x @ sep @ join_text sep (y # ys)"

definition makeHealOne ::
  "acl_kit \<Rightarrow> 'w acl_rpc \<Rightarrow> ('w, instruction) gateway \<Rightarrow> string \<Rightarrow> heal_params \<Rightarrow> ('w, heal_one) io" where
  "makeHealOne A R G treasury params =
     io_bind (readAclHealSnapshot A R params) (\<lambda>snapshot.
     let plan = planAclHeal A snapshot in
     case pn_abortReason plan of
       Some why \<Rightarrow> io_return \<lparr>ho_outcome = HealAborted, ho_signature = None, ho_note = Some why\<rparr>
     | None \<Rightarrow>
         if pn_alreadyHealed plan then io_return \<lparr>ho_outcome = AlreadyHealed, ho_signature = None, ho_note = None\<rparr>
         else io_bind (applyHeal G treasury plan) (\<lambda>(signature, state).
              io_bind (verifyHealed A R params) (\<lambda>v.
              io_return (if hv_fullyHealed v
                then \<lparr>ho_outcome = Healed, ho_signature = Some signature, ho_note = Some (join_text '' | '' (pn_actions plan))\<rparr>
                else \<lparr>ho_outcome = HealFailed, ho_signature = Some signature,
                       ho_note = Some (''applied but unverified: '' @ verification_text v)\<rparr>))))"

section \<open>The sweep\<close>

record heal_columns =
  hc_healed_at :: "int option"
  hc_attempts :: nat
  hc_note :: "string option"

type_synonym heal_table = "string \<Rightarrow> heal_columns"

record heal_alert =
  hl_alertMessage :: string
  hl_alertClaimId :: string

record 'w healer =
  hl_kit :: kit
  hl_db :: "'w \<Rightarrow> db"
  hl_clock :: "'w \<Rightarrow> int"
  hl_antProgram :: string
  hl_oldOwner :: string
  hl_treasuryAddress :: string
  hl_healOne :: "heal_params \<Rightarrow> ('w, heal_one) io"
  hl_maxAttempts :: nat

text \<open>The counts of a pass, with the alerts it raised.\<close>

record sweep_summary =
  ss_scanned :: nat
  ss_healed :: nat
  ss_already :: nat
  ss_aborted :: nat
  ss_failed :: nat
  ss_alerts :: "heal_alert list"

type_synonym ('w, 'a) sweep_io = "(heal_table \<times> 'w, 'a) io"

definition on_world :: "('w, 'a) io \<Rightarrow> ('w, 'a) sweep_io" where
  "on_world m s = (case m (snd s) of (r, w) \<Rightarrow> (r, (fst s, w)))"

definition heal_pending :: "heal_table \<Rightarrow> db \<Rightarrow> claim_row \<Rightarrow> bool" where
  "heal_pending h d c \<longleftrightarrow> (case find_asset d (cl_asset_key c) of None \<Rightarrow> False
     | Some a \<Rightarrow> as_asset_type a = AssetAnt \<and> cl_status c = Confirmed \<and> as_ant_mint a \<noteq> None
         \<and> hc_healed_at (h (cl_claim_id c)) = None)"

definition claim_mint :: "db \<Rightarrow> claim_row \<Rightarrow> string" where
  "claim_mint d c = (case find_asset d (cl_asset_key c) of None \<Rightarrow> [] | Some a \<Rightarrow> the (as_ant_mint a))"

definition heal_queue :: "heal_table \<Rightarrow> db \<Rightarrow> claim_row list" where
  "heal_queue h d = (let rows = filter (heal_pending h d) (db_claims d) in
     filter (\<lambda>c. cl_confirmed_at c = None) rows
       @ sort_key (\<lambda>c. the (cl_confirmed_at c)) (filter (\<lambda>c. cl_confirmed_at c \<noteq> None) rows))"

definition markDone :: "'w healer \<Rightarrow> string \<Rightarrow> string \<Rightarrow> ('w, unit) sweep_io" where
  "markDone H claimId note s = (Inr (), ((fst s)(claimId := (fst s claimId)
     \<lparr>hc_healed_at := Some (hl_clock H (snd s)), hc_note := Some (take 500 note)\<rparr>), snd s))"

text \<open>A failure is counted; at the limit the claim is parked and an alert raised.\<close>

definition recordFailure :: "'w healer \<Rightarrow> string \<Rightarrow> nat \<Rightarrow> string \<Rightarrow> ('w, heal_alert list) sweep_io" where
  "recordFailure H claimId priorAttempts note s =
     (let attempts = priorAttempts + 1; row = fst s claimId in
      if attempts \<ge> hl_maxAttempts H
      then (Inr [\<lparr>hl_alertMessage = ''ANT ACL heal gave up after '' @ dec_nat attempts @ '' attempts: '' @ note,
                  hl_alertClaimId = claimId\<rparr>],
            ((fst s)(claimId := row\<lparr>hc_healed_at := Some (hl_clock H (snd s)), hc_attempts := attempts,
               hc_note := Some (take 500 (''GAVE UP after '' @ dec_nat attempts @ '': '' @ note))\<rparr>), snd s))
      else (Inr [], ((fst s)(claimId := row\<lparr>hc_attempts := attempts, hc_note := Some (take 500 note)\<rparr>), snd s)))"

definition note_or :: "heal_one \<Rightarrow> string \<Rightarrow> string" where
  "note_or r d = (case ho_note r of Some n \<Rightarrow> n | None \<Rightarrow> d)"

definition count_failure :: "sweep_summary \<Rightarrow> heal_alert list \<Rightarrow> sweep_summary" where
  "count_failure acc alerts = acc\<lparr>ss_failed := ss_failed acc + 1, ss_alerts := ss_alerts acc @ alerts\<rparr>"

definition settle_outcome :: "'w healer \<Rightarrow> string \<Rightarrow> nat \<Rightarrow> heal_one \<Rightarrow> sweep_summary \<Rightarrow> ('w, sweep_summary) sweep_io" where
  "settle_outcome H claimId attempts r acc = (case ho_outcome r of
       Healed \<Rightarrow> io_bind (markDone H claimId (js_trim (''healed: '' @ note_or r []))) (\<lambda>_.
                  io_return (acc\<lparr>ss_healed := ss_healed acc + 1\<rparr>))
     | AlreadyHealed \<Rightarrow> io_bind (markDone H claimId ''already-in-sync'') (\<lambda>_.
                  io_return (acc\<lparr>ss_already := ss_already acc + 1\<rparr>))
     | HealAborted \<Rightarrow> io_bind (markDone H claimId (js_trim (''aborted: '' @ note_or r []))) (\<lambda>_.
                  io_return (acc\<lparr>ss_aborted := ss_aborted acc + 1\<rparr>))
     | HealFailed \<Rightarrow> io_bind (recordFailure H claimId attempts (note_or r ''verification failed'')) (\<lambda>alerts.
                  io_return (count_failure acc alerts)))"

text \<open>The two addresses are parsed before the \<open>try\<close>: a claim with a malformed one stops the pass.\<close>

definition sweep_row :: "'w healer \<Rightarrow> string \<Rightarrow> nat \<Rightarrow> claim_row \<Rightarrow> sweep_summary \<Rightarrow> ('w, sweep_summary) sweep_io" where
  "sweep_row H antMint attempts c acc =
     io_bind (from_result (address (hl_kit H) antMint)) (\<lambda>mint.
     io_bind (from_result (address (hl_kit H) (cl_claimant c))) (\<lambda>claimant.
     catch_all
       (io_bind (on_world (hl_healOne H \<lparr>hp_antProgram = hl_antProgram H, hp_mint = mint, hp_oldOwner = hl_oldOwner H,
            hp_claimant = claimant, hp_treasury = hl_treasuryAddress H\<rparr>)) (\<lambda>r.
          settle_outcome H (cl_claim_id c) attempts r acc))
       (\<lambda>e. io_bind (recordFailure H (cl_claim_id c) attempts e) (\<lambda>alerts. io_return (count_failure acc alerts)))))"

fun sweep_rows :: "'w healer \<Rightarrow> (claim_row \<times> string \<times> nat) list \<Rightarrow> sweep_summary \<Rightarrow> ('w, sweep_summary) sweep_io" where
  "sweep_rows H [] acc = io_return acc"
| "sweep_rows H ((c, antMint, attempts) # rows) acc =
     io_bind (sweep_row H antMint attempts c acc) (sweep_rows H rows)"

definition sweepOnce :: "'w healer \<Rightarrow> nat \<Rightarrow> ('w, sweep_summary) sweep_io" where
  "sweepOnce H limit s =
     (let d = hl_db H (snd s); rows = take limit (heal_queue (fst s) d) in
      sweep_rows H (map (\<lambda>c. (c, claim_mint d c, hc_attempts (fst s (cl_claim_id c)))) rows)
        \<lparr>ss_scanned = length rows, ss_healed = 0, ss_already = 0, ss_aborted = 0, ss_failed = 0, ss_alerts = []\<rparr> s)"

section \<open>What a pass does\<close>

text \<open>A claim after it was handled: done, or one attempt closer to the limit; nothing else changed.\<close>

definition handled :: "'w healer \<Rightarrow> heal_table \<Rightarrow> heal_table \<Rightarrow> string \<Rightarrow> bool" where
  "handled H h h' cid \<longleftrightarrow>
     (hc_healed_at (h' cid) \<noteq> None \<and> hc_attempts (h' cid) \<le> hc_attempts (h cid) + 1
        \<and> (hc_attempts (h' cid) = hc_attempts (h cid) \<or> hc_attempts (h cid) + 1 \<ge> hl_maxAttempts H))
     \<or> (hc_healed_at (h' cid) = hc_healed_at (h cid) \<and> hc_attempts (h' cid) = hc_attempts (h cid) + 1
        \<and> hc_attempts (h cid) + 1 < hl_maxAttempts H)"

lemma recordFailure_handled:
  "\<exists>al h'. recordFailure H cid (hc_attempts (h cid)) note (h, w) = (Inr al, (h', w)) \<and> handled H h h' cid
     \<and> (\<forall>x. x \<noteq> cid \<longrightarrow> h' x = h x)"
  by (auto simp: recordFailure_def Let_def handled_def)

lemma settle_handled:
  "\<exists>acc' h'. settle_outcome H cid (hc_attempts (h cid)) r acc (h, w) = (Inr acc', (h', w)) \<and> handled H h h' cid
     \<and> (\<forall>x. x \<noteq> cid \<longrightarrow> h' x = h x)"
proof (cases "ho_outcome r")
  case HealFailed
  then show ?thesis using recordFailure_handled [of H cid h "note_or r ''verification failed''" w]
    by (auto simp: settle_outcome_def)
qed (auto simp: settle_outcome_def markDone_def io_bind_def handled_def)

lemma sweep_row_handled:
  assumes "k_valid (hl_kit H) m" and "k_valid (hl_kit H) (cl_claimant c)"
    and "\<And>p w. hl_db H (snd (hl_healOne H p w)) = hl_db H w"
  shows "\<exists>acc' h' w'. sweep_row H m (hc_attempts (h (cl_claim_id c))) c acc (h, w) = (Inr acc', (h', w'))
     \<and> handled H h h' (cl_claim_id c) \<and> (\<forall>x. x \<noteq> cl_claim_id c \<longrightarrow> h' x = h x) \<and> hl_db H w' = hl_db H w"
proof -
  let ?p = "\<lparr>hp_antProgram = hl_antProgram H, hp_mint = m, hp_oldOwner = hl_oldOwner H,
            hp_claimant = cl_claimant c, hp_treasury = hl_treasuryAddress H\<rparr>"
  obtain r w' where o: "hl_healOne H ?p w = (r, w')" by fastforce
  then have d: "hl_db H w' = hl_db H w" using assms(3) [of ?p w] by simp
  have ow: "on_world (hl_healOne H ?p) (h, w) = (r, (h, w'))" using o by (simp add: on_world_def)
  show ?thesis
  proof (cases r)
    case (Inl e)
    then show ?thesis using ow d assms(1,2) recordFailure_handled [of H "cl_claim_id c" h e w']
      by (auto simp: sweep_row_def from_result_def address_def io_bind_def catch_all_def io_return_def)
  next
    case (Inr one)
    then show ?thesis using ow d assms(1,2) settle_handled [of H "cl_claim_id c" h one acc w']
      by (auto simp: sweep_row_def from_result_def address_def io_bind_def catch_all_def)
  qed
qed

lemma sweep_rows_handled:
  assumes "\<forall>(c, m, n) \<in> set rows. k_valid (hl_kit H) m \<and> k_valid (hl_kit H) (cl_claimant c) \<and> n = hc_attempts (h (cl_claim_id c))"
    and "distinct (map (cl_claim_id \<circ> fst) rows)" and "\<And>p w. hl_db H (snd (hl_healOne H p w)) = hl_db H w"
  shows "\<exists>acc' h' w'. sweep_rows H rows acc (h, w) = (Inr acc', (h', w')) \<and> hl_db H w' = hl_db H w
     \<and> (\<forall>x. if x \<in> set (map (cl_claim_id \<circ> fst) rows) then handled H h h' x else h' x = h x)"
  using assms(1,2)
proof (induction rows arbitrary: h acc w)
  case (Cons row rows)
  obtain c m n where row: "row = (c, m, n)" by (cases row)
  then have v: "k_valid (hl_kit H) m" "k_valid (hl_kit H) (cl_claimant c)" "n = hc_attempts (h (cl_claim_id c))"
    using Cons.prems(1) by auto
  obtain s1 h1 w1 where 1: "sweep_row H m n c acc (h, w) = (Inr s1, (h1, w1))" "handled H h h1 (cl_claim_id c)"
    "\<forall>x. x \<noteq> cl_claim_id c \<longrightarrow> h1 x = h x" "hl_db H w1 = hl_db H w"
    using sweep_row_handled [OF v(1,2) assms(3)] unfolding v(3) by blast
  have fresh: "cl_claim_id c \<notin> set (map (cl_claim_id \<circ> fst) rows)" using Cons.prems(2) row by simp
  have keep: "h1 (cl_claim_id d) = h (cl_claim_id d)" if "(d, k) \<in> set rows" for d k
  proof -
    have "cl_claim_id d \<in> set (map (cl_claim_id \<circ> fst) rows)" using that by force
    then have "cl_claim_id d \<noteq> cl_claim_id c" using fresh by metis
    then show ?thesis using 1(3) by blast
  qed
  have pre: "\<forall>(c, m, n) \<in> set rows. k_valid (hl_kit H) m \<and> k_valid (hl_kit H) (cl_claimant c) \<and> n = hc_attempts (h1 (cl_claim_id c))"
    using Cons.prems(1) keep by fastforce
  obtain s2 h2 w2 where 2: "sweep_rows H rows s1 (h1, w1) = (Inr s2, (h2, w2))" "hl_db H w2 = hl_db H w1"
    "\<forall>x. if x \<in> set (map (cl_claim_id \<circ> fst) rows) then handled H h1 h2 x else h2 x = h1 x"
    using Cons.IH [OF pre, of s1 w1] Cons.prems(2) by auto
  have "if x \<in> set (map (cl_claim_id \<circ> fst) (row # rows)) then handled H h h2 x else h2 x = h x" for x
  proof (cases "x = cl_claim_id c")
    case True
    then have "h2 x = h1 x" using 2(3) fresh by metis
    then show ?thesis using 1(2) True row by (simp add: handled_def)
  next
    case False
    then have "h1 x = h x" using 1(3) by blast
    then have "handled H h h2 x \<longleftrightarrow> handled H h1 h2 x" by (simp add: handled_def)
    moreover have "x \<in> set (map (cl_claim_id \<circ> fst) (row # rows)) \<longleftrightarrow> x \<in> set (map (cl_claim_id \<circ> fst) rows)"
      using False row by simp
    ultimately show ?thesis using spec [OF 2(3), of x] \<open>h1 x = h x\<close> by presburger
  qed
  then show ?case using 1(1,4) 2(1,2) row by auto
qed simp

section \<open>The sweep drains its queue\<close>

lemma pending_alive: "heal_pending h d c \<Longrightarrow> hc_healed_at (h (cl_claim_id c)) = None"
  by (auto simp: heal_pending_def split: option.splits)

lemma set_heal_queue: "set (heal_queue h d) = {c \<in> set (db_claims d). heal_pending h d c}"
  by (auto simp: heal_queue_def Let_def)

lemma distinct_heal_queue:
  assumes "distinct (map cl_claim_id (db_claims d))"
  shows "distinct (map cl_claim_id (heal_queue h d))"
proof -
  have i: "inj_on cl_claim_id (set (db_claims d))" and d: "distinct (db_claims d)"
    using assms by (auto simp: distinct_map)
  have "distinct (heal_queue h d)" using d by (auto simp: heal_queue_def Let_def)
  moreover have "inj_on cl_claim_id (set (heal_queue h d))"
    using i by (rule inj_on_subset) (auto simp: set_heal_queue)
  ultimately show ?thesis by (simp add: distinct_map)
qed

definition heal_weight :: "'w healer \<Rightarrow> heal_table \<Rightarrow> db \<Rightarrow> claim_row \<Rightarrow> nat" where
  "heal_weight H h d c = (if heal_pending h d c then max 1 (hl_maxAttempts H - hc_attempts (h (cl_claim_id c))) else 0)"

text \<open>How many attempts the pending claims have left.\<close>

definition heal_work :: "'w healer \<Rightarrow> heal_table \<Rightarrow> db \<Rightarrow> nat" where
  "heal_work H h d = sum_list (map (heal_weight H h d) (db_claims d))"

lemma sum_list_less_nat:
  fixes f g :: "'a \<Rightarrow> nat"
  assumes "\<And>x. x \<in> set xs \<Longrightarrow> f x \<le> g x" and "y \<in> set xs" and "f y < g y"
  shows "sum_list (map f xs) < sum_list (map g xs)"
  using assms
proof (induction xs)
  case (Cons x xs)
  have rest: "sum_list (map f xs) \<le> sum_list (map g xs)" using Cons.prems(1) by (intro sum_list_mono) simp
  show ?case
  proof (cases "x = y")
    case True
    then show ?thesis using rest Cons.prems(3) by simp
  next
    case False
    then show ?thesis using Cons.IH Cons.prems by (fastforce intro: add_le_less_mono)
  qed
qed simp

lemma handled_weight:
  assumes "handled H h h' (cl_claim_id c)" and "heal_pending h d c"
  shows "heal_weight H h' d c < heal_weight H h d c"
  using assms pending_alive [OF assms(2)]
  by (auto simp: handled_def heal_weight_def heal_pending_def split: option.splits)

lemma pending_cong: "h' (cl_claim_id c) = h (cl_claim_id c) \<Longrightarrow> heal_pending h' d c = heal_pending h d c"
  unfolding heal_pending_def by (cases "find_asset d (cl_asset_key c)") simp_all

lemma handled_not_revived: "handled H h h' (cl_claim_id c) \<Longrightarrow> heal_pending h' d c \<Longrightarrow> heal_pending h d c"
  by (auto simp: handled_def heal_pending_def split: option.splits)

lemma untouched_weight: "h' (cl_claim_id c) = h (cl_claim_id c) \<Longrightarrow> heal_weight H h' d c = heal_weight H h d c"
  unfolding heal_weight_def using pending_cong [of h' c h d] by simp

lemma handled_weight_le: "handled H h h' (cl_claim_id c) \<Longrightarrow> heal_weight H h' d c \<le> heal_weight H h d c"
  using handled_weight [of H h h' c d] handled_not_revived [of H h h' c d]
  by (cases "heal_pending h d c") (auto simp: heal_weight_def)

lemma heal_weight_zero: "heal_weight H h d c = 0 \<longleftrightarrow> \<not> heal_pending h d c"
  by (simp add: heal_weight_def)

lemma work_done: "heal_work H h d = 0 \<longleftrightarrow> heal_queue h d = []"
proof -
  have "heal_work H h d = 0 \<longleftrightarrow> (\<forall>c \<in> set (db_claims d). \<not> heal_pending h d c)"
    by (simp add: heal_work_def heal_weight_zero)
  also have "\<dots> \<longleftrightarrow> set (heal_queue h d) = {}" unfolding set_heal_queue by blast
  finally show ?thesis unfolding set_empty .
qed

lemma sweepOnce_step:
  assumes "distinct (map cl_claim_id (db_claims d))" and "hl_db H w = d" and "0 < limit"
    and valid: "\<And>c. c \<in> set (db_claims d) \<Longrightarrow> heal_pending h d c
      \<Longrightarrow> k_valid (hl_kit H) (claim_mint d c) \<and> k_valid (hl_kit H) (cl_claimant c)"
    and keeps: "\<And>p w. hl_db H (snd (hl_healOne H p w)) = hl_db H w"
  obtains acc h' w' where "sweepOnce H limit (h, w) = (Inr acc, (h', w'))" and "hl_db H w' = d"
    and "\<And>x. h' x = h x \<or> (hc_healed_at (h x) = None \<and> handled H h h' x)"
    and "heal_work H h' d \<le> heal_work H h d - 1"
proof -
  let ?q = "take limit (heal_queue h d)"
  let ?rows = "map (\<lambda>c. (c, claim_mint d c, hc_attempts (h (cl_claim_id c)))) ?q"
  have q: "c \<in> set (db_claims d) \<and> heal_pending h d c" if "c \<in> set ?q" for c
    using in_set_takeD [OF that] by (simp add: set_heal_queue)
  have v: "\<forall>(c, m, n) \<in> set ?rows. k_valid (hl_kit H) m \<and> k_valid (hl_kit H) (cl_claimant c) \<and> n = hc_attempts (h (cl_claim_id c))"
    using q valid by auto
  have ids: "map (cl_claim_id \<circ> fst) ?rows = map cl_claim_id ?q" by simp
  have dist: "distinct (map (cl_claim_id \<circ> fst) ?rows)"
    unfolding ids unfolding take_map [symmetric] by (intro distinct_take distinct_heal_queue assms(1))
  obtain acc h' w' where 1: "sweepOnce H limit (h, w) = (Inr acc, (h', w'))" "hl_db H w' = hl_db H w"
    "\<forall>x. if x \<in> set (map cl_claim_id ?q) then handled H h h' x else h' x = h x"
    using sweep_rows_handled [OF v dist keeps] assms(2) unfolding ids sweepOnce_def Let_def fst_conv snd_conv by blast
  have step: "h' x = h x \<or> (hc_healed_at (h x) = None \<and> handled H h h' x)" for x
  proof (cases "x \<in> set (map cl_claim_id ?q)")
    case True
    then obtain c where c: "c \<in> set ?q" "x = cl_claim_id c" by auto
    then show ?thesis using spec [OF 1(3), of x] True pending_alive [of h d c] q [OF c(1)] by simp
  next
    case False
    then show ?thesis using spec [OF 1(3), of x] by simp
  qed
  have le: "heal_weight H h' d c \<le> heal_weight H h d c" for c
    using spec [OF 1(3), of "cl_claim_id c"] handled_weight_le [of H h h' c d] untouched_weight [of h' c h H d]
    by (auto split: if_splits)
  have "heal_work H h' d \<le> heal_work H h d - 1"
  proof (cases "heal_queue h d")
    case Nil
    then have "\<not> heal_pending h d c" if "c \<in> set (db_claims d)" for c
      using that set_heal_queue [of h d] by simp
    then have "heal_work H h d = 0" using work_done Nil by blast
    moreover have "heal_work H h' d \<le> heal_work H h d" unfolding heal_work_def by (rule sum_list_mono) (rule le)
    ultimately show ?thesis by simp
  next
    case (Cons c cs)
    then have c: "c \<in> set ?q" using assms(3) by (cases limit) simp_all
    then have "handled H h h' (cl_claim_id c)" using spec [OF 1(3), of "cl_claim_id c"] by auto
    then have "heal_weight H h' d c < heal_weight H h d c" using q [OF c] handled_weight by blast
    then have "heal_work H h' d < heal_work H h d"
      unfolding heal_work_def using q [OF c] le by (intro sum_list_less_nat [of _ _ _ c]) auto
    then show ?thesis by simp
  qed
  then show thesis using that [OF 1(1)] 1(2) assms(2) step by simp
qed

primrec run_sweeps :: "'w healer \<Rightarrow> nat \<Rightarrow> nat \<Rightarrow> ('w, unit) sweep_io" where
  "run_sweeps H limit 0 = io_return ()"
| "run_sweeps H limit (Suc n) = io_bind (sweepOnce H limit) (\<lambda>_. run_sweeps H limit n)"

lemma handled_attempts:
  "handled H h h' x \<Longrightarrow> hc_attempts (h' x) \<le> max (hc_attempts (h x) + 1) (hl_maxAttempts H)
    \<and> (hc_healed_at (h' x) = None \<longrightarrow> hc_attempts (h' x) + 1 \<le> hl_maxAttempts H)"
  by (auto simp: handled_def)

text \<open>
  C30. The repair sweep cannot be wedged and never retries for ever: with claims whose addresses parse,
  a repair that does what it likes on the chain (it may return any outcome or throw, every time) and as
  many passes as the pending claims have attempts left, no claim is pending; no claim was tried
  beyond the limit, and a claim that was already done or parked keeps its columns as they were.
\<close>

theorem sweeps_drain:
  assumes "distinct (map cl_claim_id (db_claims d))" and "hl_db H w = d" and "0 < limit"
    and "\<And>c. c \<in> set (db_claims d) \<Longrightarrow> heal_pending h d c
      \<Longrightarrow> k_valid (hl_kit H) (claim_mint d c) \<and> k_valid (hl_kit H) (cl_claimant c)"
    and "\<And>p w. hl_db H (snd (hl_healOne H p w)) = hl_db H w"
    and "heal_work H h d \<le> n"
  shows "\<exists>h' w'. run_sweeps H limit n (h, w) = (Inr (), (h', w')) \<and> heal_queue h' d = [] \<and> hl_db H w' = d
    \<and> (\<forall>x. hc_attempts (h' x) \<le> max (hc_attempts (h x) + 1) (hl_maxAttempts H))
    \<and> (\<forall>x. hc_healed_at (h x) \<noteq> None \<longrightarrow> h' x = h x)"
  using assms(2,4,6)
proof (induction n arbitrary: h w)
  case 0
  then show ?case using work_done [of H h d] by (auto simp: io_return_def)
next
  case (Suc n)
  obtain acc h1 w1 where 1: "sweepOnce H limit (h, w) = (Inr acc, (h1, w1))" "hl_db H w1 = d"
    and step: "\<And>x. h1 x = h x \<or> (hc_healed_at (h x) = None \<and> handled H h h1 x)"
    and work: "heal_work H h1 d \<le> heal_work H h d - 1"
    using sweepOnce_step [OF assms(1) Suc.prems(1) assms(3) Suc.prems(2) assms(5)] by blast
  have pend: "heal_pending h d c" if "heal_pending h1 d c" for c
    using step [of "cl_claim_id c"] that handled_not_revived [of H h h1 c d] pending_cong [of h1 c h d] by blast
  have valid: "k_valid (hl_kit H) (claim_mint d c) \<and> k_valid (hl_kit H) (cl_claimant c)"
    if "c \<in> set (db_claims d)" "heal_pending h1 d c" for c
    using Suc.prems(2) that pend by blast
  have left: "heal_work H h1 d \<le> n" using work Suc.prems(3) by simp
  obtain h2 w2 where 2: "run_sweeps H limit n (h1, w1) = (Inr (), (h2, w2))" "heal_queue h2 d = []" "hl_db H w2 = d"
    "\<forall>x. hc_attempts (h2 x) \<le> max (hc_attempts (h1 x) + 1) (hl_maxAttempts H)"
    "\<forall>x. hc_healed_at (h1 x) \<noteq> None \<longrightarrow> h2 x = h1 x"
    using Suc.IH [OF 1(2) valid left] by blast
  have "hc_attempts (h2 x) \<le> max (hc_attempts (h x) + 1) (hl_maxAttempts H)" for x
  proof (cases "hc_healed_at (h1 x)")
    case None
    then have "hc_attempts (h1 x) = hc_attempts (h x) \<or> hc_attempts (h1 x) + 1 \<le> hl_maxAttempts H"
      using step [of x] handled_attempts [of H h h1 x] by auto
    then show ?thesis using spec [OF 2(4), of x] by linarith
  next
    case (Some t)
    then have "hc_attempts (h2 x) = hc_attempts (h1 x)" using 2(5) by simp
    moreover have "hc_attempts (h1 x) \<le> max (hc_attempts (h x) + 1) (hl_maxAttempts H)"
      using step [of x] handled_attempts [of H h h1 x] by auto
    ultimately show ?thesis by simp
  qed
  moreover have "h2 x = h x" if "hc_healed_at (h x) \<noteq> None" for x
    using that step [of x] 2(5) by auto
  ultimately show ?case using 1 2(1-3) by (auto simp: io_bind_def)
qed

text \<open>One confirmed claim, a limit of two attempts, and a repair that throws every time.\<close>

definition demo_sweep_db :: db where
  "demo_sweep_db = (demo_db ''k'')
     \<lparr>db_assets := [(demo_asset_row ''k'')\<lparr>as_ant_mint := Some (replicate 32 (CHR ''M''))\<rparr>],
      db_claims := [(demo_claim ''k'' [])\<lparr>cl_status := Confirmed, cl_claimant := replicate 32 (CHR ''U''), cl_asset_key := ''k''\<rparr>]\<rparr>"

definition demo_healer :: "nat healer" where
  "demo_healer = \<lparr>hl_kit = demo_kit, hl_db = (\<lambda>_. demo_sweep_db), hl_clock = int, hl_antProgram = ''P'', hl_oldOwner = ''O'',
     hl_treasuryAddress = ''T'', hl_healOne = (\<lambda>p n. (Inl ''rpc'', n + 1)), hl_maxAttempts = 2\<rparr>"

definition demo_columns :: heal_table where
  "demo_columns = (\<lambda>_. \<lparr>hc_healed_at = None, hc_attempts = 0, hc_note = None\<rparr>)"

lemma demo_pending: "heal_pending demo_columns demo_sweep_db c \<longleftrightarrow> cl_asset_key c = ''k'' \<and> cl_status c = Confirmed"
  by (auto simp: heal_pending_def demo_sweep_db_def demo_db_def demo_asset_row_def row_find_def demo_columns_def)

theorem sweeps_drain_witness:
  "\<exists>h' w'. run_sweeps demo_healer 3 2 (demo_columns, 0) = (Inr (), (h', w')) \<and> heal_queue h' demo_sweep_db = []"
proof -
  have v: "k_valid demo_kit (claim_mint demo_sweep_db c) \<and> k_valid demo_kit (cl_claimant c)"
    if "c \<in> set (db_claims demo_sweep_db)" for c
    using that by (auto simp: demo_sweep_db_def claim_mint_def demo_db_def row_find_def demo_asset_row_def demo_kit_def)
  have w: "heal_work demo_healer demo_columns demo_sweep_db \<le> 2"
    by (simp add: heal_work_def heal_weight_def demo_sweep_db_def demo_healer_def demo_columns_def)
  show ?thesis
    using sweeps_drain [of demo_sweep_db demo_healer 0 3 demo_columns 2] v w
    by (fastforce simp: demo_healer_def demo_sweep_db_def)
qed

end
