(* ===== verification/Rate_Limit.thy ===== *)
theory Rate_Limit
  imports Verify "HOL-Library.AList"
begin

text \<open>
  The fixed-window rate limiter (\<open>api/rate-limit.ts\<close>) and its two uses by the routes (\<open>enforceIp\<close>,
  \<open>enforceIdentity\<close> of \<open>api/routes.ts\<close>). The \<open>Map\<close> of buckets is an association list in insertion
  order; the clock's value is an argument. A limit that was not a number is \<open>None\<close>.
\<close>

section \<open>The limiter\<close>

record bucket =
  bk_count :: nat
  bk_windowStart :: int

record rate_limiter =
  rl_windowMs :: int
  rl_limit :: "int option"
  rl_maxKeys :: nat
  rl_buckets :: "(string \<times> bucket) list"

record rate_decision =
  rd_allowed :: bool
  rd_retryAfterMs :: int
  rd_remaining :: "int option"

definition expired_bucket :: "rate_limiter \<Rightarrow> int \<Rightarrow> bucket \<Rightarrow> bool" where
  "expired_bucket L t b \<longleftrightarrow> t - bk_windowStart b \<ge> rl_windowMs L"

definition bucket_gc :: "rate_limiter \<Rightarrow> int \<Rightarrow> (string \<times> bucket) list \<Rightarrow> (string \<times> bucket) list" where
  "bucket_gc L t bs =
     (if length bs \<le> rl_maxKeys L
      then (if rl_maxKeys L < 2 * length bs then filter (\<lambda>(k, b). \<not> expired_bucket L t b) bs else bs)
      else drop (length bs - rl_maxKeys L) bs)"

definition open_bucket :: "rate_limiter \<Rightarrow> int \<Rightarrow> string \<Rightarrow> bucket \<times> (string \<times> bucket) list" where
  "open_bucket L t key =
     (let b = \<lparr>bk_count = 0, bk_windowStart = t\<rparr>; fresh = (b, bucket_gc L t (AList.update key b (rl_buckets L))) in
      case map_of (rl_buckets L) key of
        None \<Rightarrow> fresh
      | Some old \<Rightarrow> if expired_bucket L t old then fresh else (old, rl_buckets L))"

definition MAX_SAFE_INTEGER :: int where "MAX_SAFE_INTEGER = 9007199254740991"

definition rate_check :: "rate_limiter \<Rightarrow> int \<Rightarrow> string \<Rightarrow> rate_decision \<times> rate_limiter" where
  "rate_check L t key =
     (if (case rl_limit L of Some n \<Rightarrow> n \<le> 0 | None \<Rightarrow> False)
      then (\<lparr>rd_allowed = True, rd_retryAfterMs = 0, rd_remaining = Some MAX_SAFE_INTEGER\<rparr>, L)
      else
        let (b0, bs) = open_bucket L t key;
            b = b0\<lparr>bk_count := bk_count b0 + 1\<rparr>;
            L' = L\<lparr>rl_buckets := AList.map_entry key (\<lambda>_. b) bs\<rparr>;
            retryAfterMs = rl_windowMs L - (t - bk_windowStart b)
        in case rl_limit L of
             None \<Rightarrow> (\<lparr>rd_allowed = True, rd_retryAfterMs = retryAfterMs, rd_remaining = None\<rparr>, L')
           | Some n \<Rightarrow>
               (if int (bk_count b) > n
                then \<lparr>rd_allowed = False, rd_retryAfterMs = retryAfterMs, rd_remaining = Some 0\<rparr>
                else \<lparr>rd_allowed = True, rd_retryAfterMs = retryAfterMs, rd_remaining = Some (n - int (bk_count b))\<rparr>, L'))"

definition rate_reset :: "rate_limiter \<Rightarrow> rate_limiter" where
  "rate_reset L = L\<lparr>rl_buckets := []\<rparr>"

record rate_limiters =
  rls_ip :: rate_limiter
  rls_identity :: rate_limiter

definition new_limiter :: "int \<Rightarrow> int option \<Rightarrow> rate_limiter" where
  "new_limiter windowMs limit =
     \<lparr>rl_windowMs = windowMs, rl_limit = limit, rl_maxKeys = 100000, rl_buckets = []\<rparr>"

definition createRateLimiters :: "int \<Rightarrow> int option \<Rightarrow> int option \<Rightarrow> rate_limiters" where
  "createRateLimiters windowMs ipLimit identityLimit =
     \<lparr>rls_ip = new_limiter windowMs ipLimit, rls_identity = new_limiter windowMs identityLimit\<rparr>"

section \<open>Its use by the routes\<close>

definition retry_text :: "rate_decision \<Rightarrow> string" where
  "retry_text d = ''; retry in '' @ dec_int (- ((- rd_retryAfterMs d) div 1000)) @ ''s''"

definition rate_limited :: "string \<Rightarrow> rate_decision \<Rightarrow> api_error" where
  "rate_limited what d = \<lparr>ae_status = 429, ae_code = ''RATE_LIMITED'', ae_message = what @ retry_text d\<rparr>"

definition enforceIp :: "rate_limiters \<Rightarrow> int \<Rightarrow> string \<Rightarrow> (api_error + unit) \<times> rate_limiters" where
  "enforceIp Ls t ip = (case rate_check (rls_ip Ls) t (''ip:'' @ ip) of (d, L) \<Rightarrow>
     (if rd_allowed d then Inr () else Inl (rate_limited ''too many requests'' d), Ls\<lparr>rls_ip := L\<rparr>))"

definition enforceIdentity :: "rate_limiters \<Rightarrow> int \<Rightarrow> string \<Rightarrow> (api_error + unit) \<times> rate_limiters" where
  "enforceIdentity Ls t key = (case rate_check (rls_identity Ls) t (''id:'' @ key) of (d, L) \<Rightarrow>
     (if rd_allowed d then Inr () else Inl (rate_limited ''too many requests for this identity'' d), Ls\<lparr>rls_identity := L\<rparr>))"

section \<open>One check\<close>

lemma bucket_gc_length: "length (bucket_gc L t bs) \<le> rl_maxKeys L"
proof -
  have "length bs \<le> n \<Longrightarrow> length (filter P bs) \<le> n" for P n by (rule order_trans [OF length_filter_le])
  then show ?thesis by (simp add: bucket_gc_def)
qed

lemma length_map_entry [simp]: "length (AList.map_entry k f bs) = length bs"
  by (induction bs) auto

lemma rate_check_memory:
  "length (rl_buckets (snd (rate_check L t key))) \<le> max (rl_maxKeys L) (length (rl_buckets L))"
  using bucket_gc_length [of L t]
  by (auto simp: rate_check_def open_bucket_def Let_def max_def split: option.splits intro: order_trans)

text \<open>The keys of the map are distinct and among \<open>K\<close>.\<close>

definition tidy :: "string set \<Rightarrow> rate_limiter \<Rightarrow> bool" where
  "tidy K L \<longleftrightarrow> distinct (map fst (rl_buckets L)) \<and> fst ` set (rl_buckets L) \<subseteq> K"

definition same_rules :: "rate_limiter \<Rightarrow> rate_limiter \<Rightarrow> bool" where
  "same_rules L L' \<longleftrightarrow> rl_windowMs L' = rl_windowMs L \<and> rl_limit L' = rl_limit L \<and> rl_maxKeys L' = rl_maxKeys L"

definition bucket_of :: "rate_limiter \<Rightarrow> string \<Rightarrow> bucket option" where
  "bucket_of L k = map_of (rl_buckets L) k"

lemma map_of_filter_distinct:
  "distinct (map fst xs) \<Longrightarrow> map_of (filter (\<lambda>(k, b). P b) xs) k
     = (case map_of xs k of None \<Rightarrow> None | Some b \<Rightarrow> if P b then Some b else None)"
proof (induction xs)
  case (Cons x xs)
  have "map_of xs (fst x) = None" using Cons.prems by (simp add: map_of_eq_None_iff)
  then show ?case using Cons by (auto split: option.splits)
qed simp

lemma map_entry_keys: "map fst (AList.map_entry k f bs) = map fst bs"
  by (induction bs) auto

lemma length_le_keys: "distinct (map fst bs) \<Longrightarrow> fst ` set bs \<subseteq> K \<Longrightarrow> finite K \<Longrightarrow> length bs \<le> card K"
  using card_mono [of K "set (map fst bs)"] distinct_card [of "map fst bs"] by simp

text \<open>The bucket a hit is counted in.\<close>

definition active_bucket :: "rate_limiter \<Rightarrow> int \<Rightarrow> string \<Rightarrow> bucket" where
  "active_bucket L t key = (case bucket_of L key of
       Some b \<Rightarrow> if expired_bucket L t b then \<lparr>bk_count = 0, bk_windowStart = t\<rparr> else b
     | None \<Rightarrow> \<lparr>bk_count = 0, bk_windowStart = t\<rparr>)"

lemma open_bucket_step:
  assumes "tidy K L" and "key \<in> K" and "finite K" and "card K \<le> rl_maxKeys L" and "0 < rl_windowMs L"
    and "open_bucket L t key = (b, bs)"
  shows "distinct (map fst bs)" and "fst ` set bs \<subseteq> K" and "map_of bs key = Some b"
    and "b = active_bucket L t key"
    and "k \<noteq> key \<Longrightarrow> map_of bs k = bucket_of L k \<or> map_of bs k = None \<and> (\<exists>old. bucket_of L k = Some old \<and> expired_bucket L t old)"
proof -
  let ?b = "\<lparr>bk_count = 0, bk_windowStart = t\<rparr>" and ?u = "AList.update key \<lparr>bk_count = 0, bk_windowStart = t\<rparr> (rl_buckets L)"
  have u: "distinct (map fst ?u)" "fst ` set ?u \<subseteq> K"
    using assms(1,2) by (auto simp: tidy_def distinct_update dom_update)
  then have "length ?u \<le> rl_maxKeys L" using length_le_keys [of ?u K] assms(3,4) by linarith
  then have gc: "bucket_gc L t ?u = ?u \<or> bucket_gc L t ?u = filter (\<lambda>(k, b). \<not> expired_bucket L t b) ?u"
    by (simp add: bucket_gc_def)
  have live: "\<not> expired_bucket L t ?b" using assms(5) by (simp add: expired_bucket_def)
  have m: "map_of ?u k = (if k = key then Some ?b else bucket_of L k)" for k
    by (simp add: update_conv' bucket_of_def)
  have f: "map_of (bucket_gc L t ?u) k = (if k = key then Some ?b else bucket_of L k)
      \<or> k \<noteq> key \<and> map_of (bucket_gc L t ?u) k = None \<and> (\<exists>old. bucket_of L k = Some old \<and> expired_bucket L t old)" for k
    using gc m [of k] live by (auto simp: map_of_filter_distinct [OF u(1)] split: option.splits if_splits)
  have d: "distinct (map fst (bucket_gc L t ?u))" "fst ` set (bucket_gc L t ?u) \<subseteq> K"
  proof -
    show "distinct (map fst (bucket_gc L t ?u))" using gc u(1) distinct_map_filter by metis
    have "set (bucket_gc L t ?u) \<subseteq> set ?u" using gc by auto
    then show "fst ` set (bucket_gc L t ?u) \<subseteq> K" using u(2) by blast
  qed
  have fresh: "b = ?b \<and> bs = bucket_gc L t ?u \<or> bucket_of L key = Some b \<and> \<not> expired_bucket L t b \<and> bs = rl_buckets L"
    using assms(6) by (auto simp: open_bucket_def Let_def bucket_of_def split: option.splits if_splits)
  show "distinct (map fst bs)" "fst ` set bs \<subseteq> K" using fresh d assms(1) by (auto simp: tidy_def)
  show "map_of bs key = Some b" using fresh f [of key] by (auto simp: bucket_of_def)
  show "b = active_bucket L t key"
    using assms(6) by (auto simp: open_bucket_def active_bucket_def Let_def bucket_of_def split: option.splits if_splits)
  show "map_of bs k = bucket_of L k \<or> map_of bs k = None \<and> (\<exists>old. bucket_of L k = Some old \<and> expired_bucket L t old)" if "k \<noteq> key"
    using fresh f [of k] that by (auto simp: bucket_of_def)
qed

lemma rate_check_step:
  assumes "tidy K L" and "key \<in> K" and "finite K" and "card K \<le> rl_maxKeys L" and "0 < rl_windowMs L"
    and "rl_limit L = Some (int n)" and "0 < n" and "rate_check L t key = (d, L')"
  defines "b \<equiv> active_bucket L t key"
  shows "tidy K L'" and "same_rules L L'" and "bucket_of L' key = Some (b\<lparr>bk_count := bk_count b + 1\<rparr>)"
    and "rd_allowed d \<longleftrightarrow> bk_count b + 1 \<le> n"
    and "k \<noteq> key \<Longrightarrow> bucket_of L' k = bucket_of L k
      \<or> bucket_of L' k = None \<and> (\<exists>old. bucket_of L k = Some old \<and> expired_bucket L t old)"
proof -
  obtain b' bs where o: "open_bucket L t key = (b', bs)" by fastforce
  note st = open_bucket_step [OF assms(1-5) o]
  have b: "b' = b" using st(4) b_def by simp
  have L': "L' = L\<lparr>rl_buckets := AList.map_entry key (\<lambda>_. b\<lparr>bk_count := bk_count b + 1\<rparr>) bs\<rparr>"
    and d: "rd_allowed d \<longleftrightarrow> bk_count b + 1 \<le> n"
    using assms(6-8) o b by (auto simp: rate_check_def Let_def split: if_splits)
  have 1: "fst ` set (AList.map_entry key f bs) = fst ` set bs" for f
    using arg_cong [OF map_entry_keys [of key f bs], of set] by simp
  show "tidy K L'" using st(1,2) unfolding L' by (simp add: tidy_def map_entry_keys 1)
  have m: "bucket_of L' k = (if k = key then Some (b\<lparr>bk_count := bk_count b + 1\<rparr>) else map_of bs k)" for k
    unfolding L' using st(3) by (simp add: bucket_of_def map_of_map_entry)
  show "same_rules L L'" unfolding L' by (simp add: same_rules_def)
  show "bucket_of L' key = Some (b\<lparr>bk_count := bk_count b + 1\<rparr>)" using m by simp
  show "rd_allowed d \<longleftrightarrow> bk_count b + 1 \<le> n" by (rule d)
  show "bucket_of L' k = bucket_of L k
      \<or> bucket_of L' k = None \<and> (\<exists>old. bucket_of L k = Some old \<and> expired_bucket L t old)" if "k \<noteq> key"
    using st(5) [OF that] m that by simp
qed

section \<open>What a client can get through\<close>

fun rate_checks :: "rate_limiter \<Rightarrow> (int \<times> string) list \<Rightarrow> bool list" where
  "rate_checks L [] = []"
| "rate_checks L ((t, k) # hs) = (case rate_check L t k of (d, L') \<Rightarrow> rd_allowed d # rate_checks L' hs)"

text \<open>How many hits of \<open>k\<close> pass in the interval of one window's length that begins at \<open>a\<close>.\<close>

fun passed :: "rate_limiter \<Rightarrow> (int \<times> string) list \<Rightarrow> string \<Rightarrow> int \<Rightarrow> nat" where
  "passed L [] k a = 0"
| "passed L ((t, key) # hs) k a = (case rate_check L t key of (d, L') \<Rightarrow>
     (if key = k \<and> rd_allowed d \<and> a \<le> t \<and> t < a + rl_windowMs L then 1 else 0) + passed L' hs k a)"

definition limits :: "string set \<Rightarrow> nat \<Rightarrow> rate_limiter \<Rightarrow> bool" where
  "limits K n L \<longleftrightarrow> tidy K L \<and> finite K \<and> card K \<le> rl_maxKeys L \<and> 0 < rl_windowMs L \<and> rl_limit L = Some (int n) \<and> 0 < n"

lemma rate_check_limits:
  assumes "limits K n L" and "key \<in> K" and "rate_check L t key = (d, L')"
  defines "b \<equiv> active_bucket L t key"
  shows "limits K n L'" and "rl_windowMs L' = rl_windowMs L"
    and "bucket_of L' key = Some (b\<lparr>bk_count := bk_count b + 1\<rparr>)" and "rd_allowed d \<longleftrightarrow> bk_count b + 1 \<le> n"
    and "k \<noteq> key \<Longrightarrow> bucket_of L' k = bucket_of L k
      \<or> bucket_of L' k = None \<and> (\<exists>old. bucket_of L k = Some old \<and> expired_bucket L t old)"
proof -
  have l: "tidy K L" "finite K" "card K \<le> rl_maxKeys L" "0 < rl_windowMs L" "rl_limit L = Some (int n)" "0 < n"
    using assms(1) by (simp_all add: limits_def)
  note st = rate_check_step [OF l(1) assms(2) l(2-6) assms(3), folded b_def]
  show "limits K n L'" "rl_windowMs L' = rl_windowMs L" using st(1,2) l by (simp_all add: limits_def same_rules_def)
  show "bucket_of L' key = Some (b\<lparr>bk_count := bk_count b + 1\<rparr>)" "rd_allowed d \<longleftrightarrow> bk_count b + 1 \<le> n"
    by (rule st(3), rule st(4))
  show "bucket_of L' k = bucket_of L k
      \<or> bucket_of L' k = None \<and> (\<exists>old. bucket_of L k = Some old \<and> expired_bucket L t old)" if "k \<noteq> key"
    by (rule st(5) [OF that])
qed

lemma passed_late: "\<forall>(t, key) \<in> set hs. a + rl_windowMs L \<le> t \<Longrightarrow> passed L hs k a = 0"
proof (induction hs arbitrary: L)
  case (Cons h hs)
  obtain t key where h: "h = (t, key)" by fastforce
  obtain d L' where c: "rate_check L t key = (d, L')" by fastforce
  have "rl_windowMs L' = rl_windowMs L" using c by (auto simp: rate_check_def Let_def split: prod.splits option.splits if_splits)
  then show ?case using Cons h c by (auto simp: split_beta)
qed simp

lemma passed_in_window:
  assumes "limits K n L" and "snd ` set hs \<subseteq> K" and "sorted (map fst hs)"
    and "bucket_of L k = Some b" and "a \<le> bk_windowStart b"
  shows "passed L hs k a \<le> n - bk_count b"
  using assms
proof (induction hs arbitrary: L b)
  case (Cons h hs)
  obtain t key where h: "h = (t, key)" by fastforce
  show ?case
  proof (cases "a + rl_windowMs L \<le> t")
    case True
    then have "passed L (h # hs) k a = 0" using Cons.prems(3) h by (intro passed_late) auto
    then show ?thesis by simp
  next
    case False
    then have live: "\<not> expired_bucket L t b" using Cons.prems(5) by (simp add: expired_bucket_def)
    obtain d L' where c: "rate_check L t key = (d, L')" by fastforce
    have key: "key \<in> K" using Cons.prems(2) h by simp
    note st = rate_check_limits [OF Cons.prems(1) key c]
    have rest: "snd ` set hs \<subseteq> K" "sorted (map fst hs)" using Cons.prems(2,3) h by auto
    show ?thesis
    proof (cases "key = k")
      case True
      then have a: "active_bucket L t key = b" using Cons.prems(4) live by (simp add: active_bucket_def)
      have "passed L' hs k a \<le> n - (bk_count b + 1)"
        using Cons.IH [OF st(1) rest, of "b\<lparr>bk_count := bk_count b + 1\<rparr>"] st(3) a True Cons.prems(5) by simp
      then show ?thesis using h c st(4) a by auto
    next
      case False
      then have "bucket_of L' k = Some b" using st(5) [of k] Cons.prems(4) live by auto
      then have "passed L' hs k a \<le> n - bk_count b" using Cons.IH [OF st(1) rest] Cons.prems(5) by blast
      then show ?thesis using h c False by simp
    qed
  qed
qed simp

text \<open>Once the interval has begun, what is left of the current bucket and one more.\<close>

lemma passed_from_start:
  assumes "limits K n L" and "snd ` set hs \<subseteq> K" and "sorted (map fst hs)" and "\<forall>h \<in> set hs. a \<le> fst h"
  shows "passed L hs k a \<le> (case bucket_of L k of None \<Rightarrow> n | Some b \<Rightarrow> (n - bk_count b) + n)"
  using assms
proof (induction hs arbitrary: L)
  case (Cons h hs)
  obtain t key where h: "h = (t, key)" by fastforce
  obtain d L' where c: "rate_check L t key = (d, L')" by fastforce
  have key: "key \<in> K" using Cons.prems(2) h by simp
  note st = rate_check_limits [OF Cons.prems(1) key c]
  have rest: "snd ` set hs \<subseteq> K" "sorted (map fst hs)" "\<forall>h \<in> set hs. a \<le> fst h" "a \<le> t" using Cons.prems(2-4) h by auto
  note IH = Cons.IH [OF st(1) rest(1-3)]
  have n: "0 < n" using Cons.prems(1) by (simp add: limits_def)
  show ?case
  proof (cases "key = k")
    case True
    show ?thesis
    proof (cases "active_bucket L t key = \<lparr>bk_count = 0, bk_windowStart = t\<rparr>")
      case fresh: True
      then have "passed L' hs k a \<le> n - 1"
        using passed_in_window [OF st(1) rest(1,2), of k] st(3) True rest(4) by fastforce
      then have "passed L (h # hs) k a \<le> n" using h c n by auto
      then show ?thesis by (auto split: option.splits)
    next
      case False
      then obtain b where b: "bucket_of L k = Some b" "active_bucket L t key = b"
        using True by (auto simp: active_bucket_def split: option.splits if_splits)
      then show ?thesis using IH st(3,4) True h c by (auto split: if_splits)
    qed
  next
    case False
    then show ?thesis using IH st(5) [of k] h c by (auto split: option.splits)
  qed
qed (simp split: option.splits)

lemma passed_twice:
  assumes "limits K n L" and "snd ` set hs \<subseteq> K" and "sorted (map fst hs)"
  shows "passed L hs k a \<le> 2 * n"
  using assms
proof (induction hs arbitrary: L)
  case (Cons h hs)
  obtain t key where h: "h = (t, key)" by fastforce
  show ?case
  proof (cases "a \<le> t")
    case True
    then have "passed L (h # hs) k a \<le> (case bucket_of L k of None \<Rightarrow> n | Some b \<Rightarrow> (n - bk_count b) + n)"
      using Cons.prems h by (intro passed_from_start) auto
    then show ?thesis by (auto split: option.splits)
  next
    case False
    obtain d L' where c: "rate_check L t key = (d, L')" by fastforce
    have "key \<in> K" using Cons.prems(2) h by simp
    then have "limits K n L'" by (rule rate_check_limits(1) [OF Cons.prems(1) _ c])
    then have "passed L' hs k a \<le> 2 * n" using Cons.IH Cons.prems(2,3) by simp
    then show ?thesis using h c False by simp
  qed
qed simp

text \<open>Each bucket counts no more hits than came since it was opened, \<open>P\<close> being the hits so far.\<close>

definition hits_since :: "(int \<times> string) list \<Rightarrow> string \<Rightarrow> int \<Rightarrow> nat" where
  "hits_since P k a = length (filter (\<lambda>(t, k'). k' = k \<and> a \<le> t) P)"

definition earned :: "(int \<times> string) list \<Rightarrow> rate_limiter \<Rightarrow> bool" where
  "earned P L \<longleftrightarrow> (\<forall>k b. bucket_of L k = Some b
     \<longrightarrow> bk_windowStart b \<in> fst ` set P \<and> bk_count b \<le> hits_since P k (bk_windowStart b))"

lemma length_filter_weaken: "(\<And>x. P x \<Longrightarrow> Q x) \<Longrightarrow> length (filter P xs) \<le> length (filter Q xs)"
  by (induction xs) auto

lemma earned_step:
  assumes "limits K n L" and "key \<in> K" and "rate_check L t key = (d, L')" and "earned P L" and "\<forall>h \<in> set P. fst h \<le> t"
  shows "earned (P @ [(t, key)]) L'"
    and "bk_count (active_bucket L t key) \<le> hits_since P key (bk_windowStart (active_bucket L t key))"
    and "t - rl_windowMs L < bk_windowStart (active_bucket L t key)"
proof -
  note st = rate_check_limits [OF assms(1-3)]
  let ?b = "active_bucket L t key"
  have W: "0 < rl_windowMs L" using assms(1) by (simp add: limits_def)
  have b: "bucket_of L key = Some ?b \<and> \<not> expired_bucket L t ?b \<or> ?b = \<lparr>bk_count = 0, bk_windowStart = t\<rparr>"
    by (auto simp: active_bucket_def split: option.splits)
  have ws: "bk_windowStart ?b \<le> t" using b assms(4,5) by (fastforce simp: earned_def)
  show c: "bk_count ?b \<le> hits_since P key (bk_windowStart ?b)" using b assms(4) by (fastforce simp: earned_def)
  show "t - rl_windowMs L < bk_windowStart ?b" using b W by (auto simp: expired_bucket_def)
  have h: "hits_since (P @ [(t, key)]) k a = hits_since P k a + (if key = k \<and> a \<le> t then 1 else 0)" for k a
    by (simp add: hits_since_def)
  have "bk_windowStart b' \<in> fst ` set (P @ [(t, key)]) \<and> bk_count b' \<le> hits_since (P @ [(t, key)]) k (bk_windowStart b')"
    if "bucket_of L' k = Some b'" for k b'
  proof (cases "k = key")
    case True
    then have "b' = ?b\<lparr>bk_count := bk_count ?b + 1\<rparr>" using that st(3) by simp
    then show ?thesis using c ws True b assms(4) h by (auto simp: earned_def)
  next
    case False
    then have "bucket_of L k = Some b'" using st(5) [of k] that by auto
    then show ?thesis using assms(4) h [of k] by (fastforce simp: earned_def)
  qed
  then show "earned (P @ [(t, key)]) L'" unfolding earned_def by blast
qed

lemma refused_after_hits:
  assumes "limits K n L" and "snd ` set hs \<subseteq> K" and "sorted (map fst (P @ hs))" and "earned P L"
    and "i < length hs" and "\<not> rate_checks L hs ! i"
  shows "n \<le> hits_since (P @ take i hs) (snd (hs ! i)) (fst (hs ! i) - rl_windowMs L + 1)"
  using assms
proof (induction hs arbitrary: L P i)
  case (Cons h hs)
  obtain t key where h: "h = (t, key)" by fastforce
  obtain d L' where c: "rate_check L t key = (d, L')" by fastforce
  have key: "key \<in> K" using Cons.prems(2) h by simp
  have late: "\<forall>h \<in> set P. fst h \<le> t" using Cons.prems(3) h by (auto simp: sorted_append)
  note st = rate_check_limits [OF Cons.prems(1) key c]
  note e = earned_step [OF Cons.prems(1) key c Cons.prems(4) late]
  show ?case
  proof (cases i)
    case 0
    then have "n \<le> bk_count (active_bucket L t key)" using Cons.prems(6) h c st(4) by simp
    also have "\<dots> \<le> hits_since P key (bk_windowStart (active_bucket L t key))" by (rule e(2))
    also have "\<dots> \<le> hits_since P key (t - rl_windowMs L + 1)"
      unfolding hits_since_def using e(3) by (intro length_filter_weaken) auto
    finally show ?thesis using 0 h by simp
  next
    case (Suc j)
    have "n \<le> hits_since ((P @ [(t, key)]) @ take j hs) (snd (hs ! j)) (fst (hs ! j) - rl_windowMs L' + 1)"
      using Cons.prems(2,3,5,6) h c Suc by (intro Cons.IH [OF st(1) _ _ e(1)]) auto
    then show ?thesis using Suc h st(2) by simp
  qed
qed simp

lemma new_limiter_limits:
  assumes "finite K" and "card K \<le> 100000" and "0 < windowMs" and "0 < n"
  shows "limits K n (new_limiter windowMs (Some (int n)))"
  using assms by (simp add: limits_def tidy_def new_limiter_def)

text \<open>
  C33. What a fixed-window limiter promises, for any history of hits with a clock that does not run
  backwards and at most as many keys as the limiter keeps: of one key, no interval as long as the
  window lets more than twice the limit through; a hit is refused only after as many hits of the same
  key as the limit within the last window, so a client below the limit is never refused; and never
  are more buckets kept than allowed.
\<close>

theorem rate_limit_holds:
  assumes "0 < windowMs" and "0 < n" and "card (snd ` set hs) \<le> 100000" and "sorted (map fst hs)"
  defines "L \<equiv> new_limiter windowMs (Some (int n))"
  shows "passed L hs k a \<le> 2 * n
     \<and> (\<forall>i < length hs. \<not> rate_checks L hs ! i
          \<longrightarrow> n \<le> hits_since (take i hs) (snd (hs ! i)) (fst (hs ! i) - windowMs + 1))
     \<and> (\<forall>L' t key. length (rl_buckets L') \<le> rl_maxKeys L'
          \<longrightarrow> length (rl_buckets (snd (rate_check L' t key))) \<le> rl_maxKeys L')"
proof -
  have l: "limits (snd ` set hs) n L" unfolding L_def using assms(1-3) by (intro new_limiter_limits) auto
  have e: "earned [] L" by (simp add: L_def earned_def bucket_of_def new_limiter_def)
  have W: "rl_windowMs L = windowMs" by (simp add: L_def new_limiter_def)
  have "passed L hs k a \<le> 2 * n" by (rule passed_twice [OF l order_refl assms(4)])
  moreover have "\<forall>i < length hs. \<not> rate_checks L hs ! i
      \<longrightarrow> n \<le> hits_since (take i hs) (snd (hs ! i)) (fst (hs ! i) - windowMs + 1)"
    using refused_after_hits [OF l order_refl _ e] assms(4) W by simp
  moreover have "length (rl_buckets (snd (rate_check L' t key))) \<le> rl_maxKeys L'"
    if "length (rl_buckets L') \<le> rl_maxKeys L'" for L' t key
    using rate_check_memory [of L' t key] that by simp
  ultimately show ?thesis by blast
qed

theorem rate_limit_holds_witness:
  "passed (new_limiter 60000 (Some (int 2))) [(0, ''a''), (10, ''a''), (20, ''a''), (59999, ''b''), (60000, ''a'')] ''a'' 10 \<le> 4
     \<and> rate_checks (new_limiter 60000 (Some 2)) [(0, ''a''), (10, ''a''), (20, ''a''), (59999, ''b''), (60000, ''a'')]
         = [True, True, False, True, True]"
proof -
  have "card (snd ` set [(0 :: int, ''a''), (10, ''a''), (20, ''a''), (59999, ''b''), (60000, ''a'')]) \<le> 100000"
    by (rule order_trans [OF card_image_le]) (auto intro: order_trans [OF card_length])
  moreover have "rate_checks (new_limiter 60000 (Some 2)) [(0, ''a''), (10, ''a''), (20, ''a''), (59999, ''b''), (60000, ''a'')]
      = [True, True, False, True, True]"
    by (simp add: new_limiter_def rate_check_def open_bucket_def expired_bucket_def bucket_gc_def Let_def)
  ultimately show ?thesis
    using rate_limit_holds [of 60000 2 "[(0, ''a''), (10, ''a''), (20, ''a''), (59999, ''b''), (60000, ''a'')]" "''a''" 10]
    by simp
qed

end
