(* ===== verification/Ant_Admin.thy ===== *)
theory Ant_Admin
  imports Operator_Sends Rate_Limit
begin

text \<open>
  The authenticated front of the ANT operator: the store of single-use challenges and read tokens and
  \<open>verifyAdminChallenge\<close> (\<open>api/ant-admin.ts\<close>), and the routes \<open>registerAntAdminRoutes\<close> of
  \<open>api/routes.ts\<close> on top of them. A request's clock readings, random bytes and fresh batch id come
  with it. The notification of Slack after a submission, which nothing waits for, is left out.
\<close>

section \<open>Challenges\<close>

datatype admin_action = ActSession | ActReserve | ActBuild | ActSubmit | ActCancel

fun action_str :: "admin_action \<Rightarrow> string" where
  "action_str ActSession = ''session''"
| "action_str ActReserve = ''reserve''"
| "action_str ActBuild = ''build''"
| "action_str ActSubmit = ''submit''"
| "action_str ActCancel = ''cancel''"

definition ADMIN_CHALLENGE_PREFIX :: string where
  "ADMIN_CHALLENGE_PREFIX = ''ar.io-ant-admin:''"

definition adminChallengeMessage :: "string \<Rightarrow> admin_action option \<Rightarrow> bytes" where
  "adminChallengeMessage nonce action =
     (let body = (case action of Some a \<Rightarrow> action_str a @ '':'' @ nonce | None \<Rightarrow> nonce)
      in utf8_encode (ADMIN_CHALLENGE_PREFIX @ body))"

text \<open>The two maps from a nonce or a token to the time it expires, in insertion order.\<close>

record challenge_store =
  st_ttlMs :: int
  st_readTtlMs :: int
  st_live :: "(string \<times> int) list"
  st_readTokens :: "(string \<times> int) list"
  st_maxKeys :: nat

definition purge :: "int \<Rightarrow> (string \<times> int) list \<Rightarrow> (string \<times> int) list" where
  "purge t m = filter (\<lambda>(k, exp). \<not> exp \<le> t) m"

definition token_gc :: "nat \<Rightarrow> int \<Rightarrow> (string \<times> int) list \<Rightarrow> (string \<times> int) list" where
  "token_gc maxKeys t m =
     (if length m < maxKeys then (if maxKeys < 2 * length m then purge t m else m)
      else let m1 = purge t m in
        if length m1 < maxKeys then m1 else drop (max 1 (length m1 - maxKeys div 2)) m1)"

definition store_gc :: "int \<Rightarrow> challenge_store \<Rightarrow> challenge_store" where
  "store_gc t S = S\<lparr>st_live := token_gc (st_maxKeys S) t (st_live S),
                   st_readTokens := token_gc (st_maxKeys S) t (st_readTokens S)\<rparr>"

definition issue_challenge :: "int \<Rightarrow> string \<Rightarrow> challenge_store \<Rightarrow> int \<times> challenge_store" where
  "issue_challenge t nonce S0 = (let S = store_gc t S0; expiresAtMs = t + st_ttlMs S in
     (expiresAtMs, S\<lparr>st_live := AList.update nonce expiresAtMs (st_live S)\<rparr>))"

definition consume_nonce :: "int \<Rightarrow> string \<Rightarrow> challenge_store \<Rightarrow> bool \<times> challenge_store" where
  "consume_nonce t nonce S = (case map_of (st_live S) nonce of
       None \<Rightarrow> (False, S)
     | Some exp \<Rightarrow> (exp > t, S\<lparr>st_live := AList.delete nonce (st_live S)\<rparr>))"

definition issueReadToken :: "int \<Rightarrow> string \<Rightarrow> challenge_store \<Rightarrow> int \<times> challenge_store" where
  "issueReadToken t readToken S0 = (let S = store_gc t S0; expiresAtMs = t + st_readTtlMs S in
     (expiresAtMs, S\<lparr>st_readTokens := AList.update readToken expiresAtMs (st_readTokens S)\<rparr>))"

definition verifyReadToken :: "int \<Rightarrow> string option \<Rightarrow> challenge_store \<Rightarrow> bool \<times> challenge_store" where
  "verifyReadToken t token S =
     (if \<not> truthy token then (False, S)
      else case map_of (st_readTokens S) (the token) of
        None \<Rightarrow> (False, S)
      | Some exp \<Rightarrow>
          if exp \<le> t then (False, S\<lparr>st_readTokens := AList.delete (the token) (st_readTokens S)\<rparr>)
          else (True, S))"

text \<open>\<open>Buffer.from(s, "hex")\<close> stops at the first pair that is not hexadecimal.\<close>

fun node_hex :: "string \<Rightarrow> bytes" where
  "node_hex (a # b # s) = (case (hex_value a, hex_value b) of
       (Some x, Some y) \<Rightarrow> of_nat (16 * x + y) # node_hex s
     | _ \<Rightarrow> [])"
| "node_hex s = []"

definition bad_signature_text :: string where
  "bad_signature_text = ''signature must be a 64-byte ed25519 signature (base64/base58/hex)''"

definition decodeSignature :: "(string \<Rightarrow> string + bytes) \<Rightarrow> string \<Rightarrow> api_error + bytes" where
  "decodeSignature bs58 sig =
     (let b64 = b64url_decode sig; b58 = bs58 sig;
          hx = node_hex (if take 2 sig = ''0x'' then drop 2 sig else sig) in
      if length b64 = 64 then Inr b64
      else case b58 of
        Inr b \<Rightarrow> if length b = 64 then Inr b else if length hx = 64 then Inr hx
                 else Inl \<lparr>ae_status = 400, ae_code = ''INVALID_SIGNATURE'', ae_message = bad_signature_text\<rparr>
      | Inl _ \<Rightarrow> if length hx = 64 then Inr hx
                 else Inl \<lparr>ae_status = 400, ae_code = ''INVALID_SIGNATURE'', ae_message = bad_signature_text\<rparr>)"

definition unauthorized :: "string \<Rightarrow> thrown" where
  "unauthorized m = api_throw 401 ''ADMIN_UNAUTHORIZED'' m"

text \<open>The \<open>{ nonce, sig }\<close> of a body; \<open>None\<close> when the field is not a string.\<close>

type_synonym challenge_input = "string option \<times> string option"

text \<open>The signature is decoded and then the key, in one \<open>try\<close>; the verification itself may throw.\<close>

definition check_signature ::
  "tx_kit \<Rightarrow> string \<Rightarrow> string \<Rightarrow> string \<Rightarrow> admin_action option \<Rightarrow> thrown + unit" where
  "check_signature X antColdAddress nonce sig action =
     (case decodeSignature (tk_bs58 X) sig of
        Inl e \<Rightarrow> Inl (unauthorized (ae_message e))
      | Inr sigBytes \<Rightarrow>
          (case tk_bs58 X antColdAddress of
             Inl _ \<Rightarrow> Inl (unauthorized ''malformed challenge material'')
           | Inr pubkey \<Rightarrow>
               (case tk_edVerify X sigBytes (adminChallengeMessage nonce action) pubkey of
                  Inl m \<Rightarrow> Inl (ThrowVerr (PlainError m))
                | Inr ok \<Rightarrow> if ok then Inr ()
                    else Inl (unauthorized ''challenge signature does not verify for ANT_COLD_ADDRESS (or wrong action)''))))"

definition verifyAdminChallenge ::
  "tx_kit \<Rightarrow> string \<Rightarrow> int \<Rightarrow> challenge_input \<Rightarrow> admin_action option \<Rightarrow> challenge_store \<Rightarrow> (thrown + unit) \<times> challenge_store" where
  "verifyAdminChallenge X antColdAddress t input action S =
     (case input of
        (Some nonce, Some sig) \<Rightarrow>
          (case consume_nonce t nonce S of (live, S') \<Rightarrow>
            (if \<not> live then Inl (unauthorized ''challenge nonce is unknown, expired, or already used'')
             else check_signature X antColdAddress nonce sig action, S'))
      | _ \<Rightarrow> (Inl (unauthorized ''a { nonce, sig } challenge is required''), S))"

section \<open>The routes\<close>

record ('w, 'k) admin_ctx =
  aa_ops :: "('w, 'k) operator_deps"
  aa_mode :: ant_mode
  aa_batchMax :: int
  aa_reservationTtlMs :: int
  aa_requireApproval :: bool
  aa_includeMemo :: bool

datatype admin_request =
    GetChallenge
  | PostSession challenge_input
  | PostBatch challenge_input "int option"
  | PostBuild challenge_input string
  | PostCancel challenge_input string
  | PostSubmit challenge_input string "string list option"
  | GetBatch "string option" string
  | GetPending "string option"

record request_env =
  re_now :: int
  re_random :: string
  re_start :: int
  re_tx :: int
  re_batchId :: string
  re_skip :: "claim_row \<Rightarrow> bool"
  re_clocks :: "nat \<Rightarrow> clock"

datatype admin_body =
    ErrorBody api_error
  | ChallengeBody string string
  | SessionBody string string
  | ReservedBody "string \<times> ant_review_item list"
  | BuiltBody ant_batch_result
  | ReleasedBody string nat
  | SubmittedBody string "ant_submit_result list"
  | StatusBody "ant_batch \<times> ant_status_claim list"
  | PendingBody ant_pending

text \<open>A reply is its status and its body.\<close>

type_synonym admin_reply = "int \<times> admin_body"

fun thrown_api :: "thrown \<Rightarrow> api_error" where
  "thrown_api (ThrowApi e) = e"
| "thrown_api (ThrowVerr v) = toApiError v"

definition sendApiError :: "thrown \<Rightarrow> admin_reply" where
  "sendApiError e = (ae_status (thrown_api e), ErrorBody (thrown_api e))"

definition is_uuid :: "string \<Rightarrow> bool" where
  "is_uuid s \<longleftrightarrow> map length (js_split (CHR ''-'') s) = [8, 4, 4, 4, 12]
     \<and> list_all (list_all (\<lambda>c. hex_value c \<noteq> None)) (js_split (CHR ''-'') s)"

definition assertUuid :: "string \<Rightarrow> thrown + unit" where
  "assertUuid batchId = (if is_uuid batchId then Inr () else Inl (api_throw 400 ''INVALID_REQUEST'' ''batchId must be a UUID''))"

fun mode_str :: "ant_mode \<Rightarrow> string" where
  "mode_str CliCold = ''cli-cold''"
| "mode_str OperatorWallet = ''operator-wallet''"

definition requireOperatorMode :: "('w, 'k) admin_ctx \<Rightarrow> thrown + unit" where
  "requireOperatorMode A = (if aa_mode A = OperatorWallet then Inr ()
     else Inl (api_throw 409 ''ANT_MODE_DISABLED''
       (''ANT_DISPATCH_MODE='' @ mode_str (aa_mode A) @ ''; operator-wallet dispatch is disabled'')))"

definition challenge_guard ::
  "('w, 'k) admin_ctx \<Rightarrow> request_env \<Rightarrow> challenge_input \<Rightarrow> admin_action \<Rightarrow> challenge_store \<Rightarrow> (thrown + unit) \<times> challenge_store" where
  "challenge_guard A e c act S =
     verifyAdminChallenge (od_txs (aa_ops A)) (od_cold (aa_ops A)) (re_now e) c (Some act) S"

text \<open>A write route: the mode, the challenge, then the checks of its own.\<close>

definition write_guard ::
  "('w, 'k) admin_ctx \<Rightarrow> request_env \<Rightarrow> challenge_input \<Rightarrow> admin_action \<Rightarrow> thrown + unit \<Rightarrow> challenge_store
     \<Rightarrow> (thrown + unit) \<times> challenge_store" where
  "write_guard A e c act own S = (case requireOperatorMode A of
       Inl err \<Rightarrow> (Inl err, S)
     | Inr _ \<Rightarrow> (case challenge_guard A e c act S of (r, S') \<Rightarrow> (and_then r (\<lambda>_. own), S')))"

definition read_guard :: "request_env \<Rightarrow> string option \<Rightarrow> thrown + unit \<Rightarrow> challenge_store \<Rightarrow> (thrown + unit) \<times> challenge_store" where
  "read_guard e token own S = (case verifyReadToken (re_now e) token S of (ok, S') \<Rightarrow>
     (if ok then own
      else Inl (unauthorized (''a valid read session token (x-ant-read-token) is required; ''
             @ ''POST /v1/admin/ant/session with a signed challenge to obtain one'')), S'))"

fun admin_guard :: "('w, 'k) admin_ctx \<Rightarrow> request_env \<Rightarrow> admin_request \<Rightarrow> challenge_store \<Rightarrow> (thrown + unit) \<times> challenge_store" where
  "admin_guard A e GetChallenge S = (Inr (), S)"
| "admin_guard A e (PostSession c) S = challenge_guard A e c ActSession S"
| "admin_guard A e (PostBatch c m) S = write_guard A e c ActReserve (Inr ()) S"
| "admin_guard A e (PostBuild c b) S = write_guard A e c ActBuild (assertUuid b) S"
| "admin_guard A e (PostCancel c b) S = write_guard A e c ActCancel (assertUuid b) S"
| "admin_guard A e (PostSubmit c b txs) S = write_guard A e c ActSubmit (and_then (assertUuid b) (\<lambda>_.
     if txs = None then Inl (api_throw 400 ''INVALID_REQUEST'' ''signedTxs must be an array of base64 strings'') else Inr ())) S"
| "admin_guard A e (GetBatch token b) S = read_guard e token (assertUuid b) S"
| "admin_guard A e (GetPending token) S = read_guard e token (Inr ()) S"

type_synonym 'w admin_state = "challenge_store \<times> (db \<times> 'w)"

definition reply_of :: "(db \<times> 'w \<Rightarrow> (string + 'a) \<times> (db \<times> 'w)) \<Rightarrow> ('a \<Rightarrow> admin_reply) \<Rightarrow> 'w admin_state \<Rightarrow> admin_reply \<times> 'w admin_state" where
  "reply_of m f s = (case m (snd s) of
       (Inl err, w) \<Rightarrow> (sendApiError (ThrowVerr (PlainError err)), (fst s, w))
     | (Inr x, w) \<Rightarrow> (f x, (fst s, w)))"

definition reserve_max :: "('w, 'k) admin_ctx \<Rightarrow> int option \<Rightarrow> int" where
  "reserve_max A m = min (case m of Some n \<Rightarrow> if n > 0 then n else aa_batchMax A | None \<Rightarrow> aa_batchMax A) (aa_batchMax A)"

fun admin_operate :: "('w, 'k) admin_ctx \<Rightarrow> request_env \<Rightarrow> admin_request \<Rightarrow> 'w admin_state \<Rightarrow> admin_reply \<times> 'w admin_state" where
  "admin_operate A e GetChallenge s = (case issue_challenge (re_now e) (re_random e) (fst s) of (exp, S) \<Rightarrow>
     ((200, ChallengeBody (re_random e) (iso_string exp)), (S, snd s)))"
| "admin_operate A e (PostSession c) s = (case issueReadToken (re_now e) (re_random e) (fst s) of (exp, S) \<Rightarrow>
     ((200, SessionBody (re_random e) (iso_string exp)), (S, snd s)))"
| "admin_operate A e (PostBatch c m) s = reply_of
     (reserveAntBatch (od_deps (aa_ops A)) (re_start e) (re_tx e) (re_batchId e) (re_skip e)
        \<lparr>ro_antColdAddress = od_cold (aa_ops A), ro_max = nat (reserve_max A m),
         ro_reservationTtlMs = Some (aa_reservationTtlMs A), ro_requireApproval = Some (aa_requireApproval A),
         ro_assetKeyScope = None\<rparr>)
     (\<lambda>b. (201, ReservedBody b)) s"
| "admin_operate A e (PostBuild c b) s = reply_of
     (buildReservedBatch (aa_ops A) (re_tx e) b (Some (aa_includeMemo A))) (\<lambda>r. (201, BuiltBody r)) s"
| "admin_operate A e (PostCancel c b) s = reply_of
     (db_tx (wk_db (od_deps (aa_ops A))) (releaseAntBatch (wk_env (od_deps (aa_ops A))) (re_tx e) b))
     (\<lambda>freed. (200, ReleasedBody b freed)) s"
| "admin_operate A e (PostSubmit c b txs) s = reply_of
     (submitAntBatch (aa_ops A) (re_clocks e) (re_tx e) b (the txs)) (\<lambda>results. (200, SubmittedBody b results)) s"
| "admin_operate A e (GetBatch token b) s = reply_of
     (db_read (wk_db (od_deps (aa_ops A))) (getAntBatchStatus b))
     (\<lambda>status. case status of Some st \<Rightarrow> (200, StatusBody st)
        | None \<Rightarrow> sendApiError (api_throw 404 ''ANT_BATCH_NOT_FOUND'' ''no such batch'')) s"
| "admin_operate A e (GetPending token) s = reply_of
     (db_read (wk_db (od_deps (aa_ops A))) (getAntPending (re_tx e) (Some (aa_requireApproval A)) None))
     (\<lambda>p. (200, PendingBody p)) s"

text \<open>Without a context every route answers 503.\<close>

definition admin_step :: "('w, 'k) admin_ctx option \<Rightarrow> request_env \<times> admin_request \<Rightarrow> 'w admin_state \<Rightarrow> admin_reply \<times> 'w admin_state" where
  "admin_step ctx = (\<lambda>(e, r) s. case ctx of
       None \<Rightarrow> (sendApiError (api_throw 503 ''ANT_ADMIN_UNAVAILABLE'' ''operator ANT dispatch is not configured on this process''), s)
     | Some A \<Rightarrow> (case admin_guard A e r (fst s) of
         (Inl err, S) \<Rightarrow> (sendApiError err, (S, snd s))
       | (Inr _, S) \<Rightarrow> admin_operate A e r (S, snd s)))"

section \<open>Who may act\<close>

definition signed_by :: "('w, 'k) admin_ctx \<Rightarrow> string \<Rightarrow> string \<Rightarrow> admin_action \<Rightarrow> bool" where
  "signed_by A nonce sig act \<longleftrightarrow> (\<exists>sigBytes pubkey. decodeSignature (tk_bs58 (od_txs (aa_ops A))) sig = Inr sigBytes
     \<and> tk_bs58 (od_txs (aa_ops A)) (od_cold (aa_ops A)) = Inr pubkey
     \<and> tk_edVerify (od_txs (aa_ops A)) sigBytes (adminChallengeMessage nonce (Some act)) pubkey = Inr True)"

fun challenge_of :: "admin_request \<Rightarrow> (challenge_input \<times> admin_action) option" where
  "challenge_of (PostSession c) = Some (c, ActSession)"
| "challenge_of (PostBatch c m) = Some (c, ActReserve)"
| "challenge_of (PostBuild c b) = Some (c, ActBuild)"
| "challenge_of (PostCancel c b) = Some (c, ActCancel)"
| "challenge_of (PostSubmit c b txs) = Some (c, ActSubmit)"
| "challenge_of _ = None"

fun token_of :: "admin_request \<Rightarrow> string option option" where
  "token_of (GetBatch token b) = Some token"
| "token_of (GetPending token) = Some token"
| "token_of _ = None"

text \<open>What lets a request through, \<open>P\<close> being the requests before it.\<close>

definition authorised :: "('w, 'k) admin_ctx \<Rightarrow> int \<Rightarrow> int \<Rightarrow> (request_env \<times> admin_request) list \<Rightarrow> request_env \<Rightarrow> admin_request \<Rightarrow> bool" where
  "authorised A ttl readTtl P e r \<longleftrightarrow>
     (\<forall>c act. challenge_of r = Some (c, act) \<longrightarrow> (\<exists>nonce sig e'. c = (Some nonce, Some sig) \<and> signed_by A nonce sig act
        \<and> (e', GetChallenge) \<in> set P \<and> re_random e' = nonce \<and> re_now e < re_now e' + ttl
        \<and> (act = ActSession \<or> aa_mode A = OperatorWallet)))
     \<and> (\<forall>token. token_of r = Some token \<longrightarrow> (\<exists>e' nonce sig. (e', PostSession (Some nonce, Some sig)) \<in> set P
        \<and> signed_by A nonce sig ActSession \<and> token = Some (re_random e') \<and> re_now e < re_now e' + readTtl))"

definition accepts :: "('w, 'k) admin_ctx \<Rightarrow> request_env \<Rightarrow> admin_request \<Rightarrow> challenge_store \<Rightarrow> bool" where
  "accepts A e r S \<longleftrightarrow> fst (admin_guard A e r S) = Inr ()"

definition nonce_of :: "admin_request \<Rightarrow> string option" where
  "nonce_of r = Option.bind (challenge_of r) (\<lambda>(c, act). fst c)"

primrec admin_run :: "('w, 'k) admin_ctx \<Rightarrow> (request_env \<times> admin_request) list \<Rightarrow> 'w admin_state \<Rightarrow> 'w admin_state" where
  "admin_run A [] s = s"
| "admin_run A (h # hs) s = admin_run A hs (snd (admin_step (Some A) h s))"

text \<open>The nonces of the requests let through, in order.\<close>

fun accepted_nonces :: "('w, 'k) admin_ctx \<Rightarrow> (request_env \<times> admin_request) list \<Rightarrow> 'w admin_state \<Rightarrow> string list" where
  "accepted_nonces A [] s = []"
| "accepted_nonces A ((e, r) # hs) s =
     (case nonce_of r of Some n \<Rightarrow> if accepts A e r (fst s) then [n] else [] | None \<Rightarrow> [])
       @ accepted_nonces A hs (snd (admin_step (Some A) (e, r) s))"

definition issued_nonces :: "(request_env \<times> admin_request) list \<Rightarrow> string list" where
  "issued_nonces hs = map (re_random \<circ> fst) (filter (\<lambda>(e, r). r = GetChallenge) hs)"

lemma issued_nonces_mem: "n \<in> set (issued_nonces P) \<longleftrightarrow> (\<exists>e. (e, GetChallenge) \<in> set P \<and> re_random e = n)"
  by (auto simp: issued_nonces_def image_iff)

text \<open>A nonce and a token of the store, after the requests \<open>P\<close>.\<close>

definition minted :: "int \<Rightarrow> (request_env \<times> admin_request) list \<Rightarrow> string \<times> int \<Rightarrow> bool" where
  "minted ttl P x \<longleftrightarrow> (\<exists>e. (e, GetChallenge) \<in> set P \<and> x = (re_random e, re_now e + ttl))"

definition granted :: "('w, 'k) admin_ctx \<Rightarrow> int \<Rightarrow> (request_env \<times> admin_request) list \<Rightarrow> string \<times> int \<Rightarrow> bool" where
  "granted A readTtl P x \<longleftrightarrow> (\<exists>e nonce sig. (e, PostSession (Some nonce, Some sig)) \<in> set P
     \<and> signed_by A nonce sig ActSession \<and> x = (re_random e, re_now e + readTtl))"

text \<open>The store after the requests \<open>P\<close>, of which those with the nonces \<open>used\<close> were let through.\<close>

definition store_inv :: "('w, 'k) admin_ctx \<Rightarrow> int \<Rightarrow> int \<Rightarrow> (request_env \<times> admin_request) list \<Rightarrow> string list \<Rightarrow> challenge_store \<Rightarrow> bool" where
  "store_inv A ttl readTtl P used S \<longleftrightarrow>
     (\<forall>x \<in> set (st_live S). minted ttl P x \<and> fst x \<notin> set used)
     \<and> (\<forall>x \<in> set (st_readTokens S). granted A readTtl P x)
     \<and> set used \<subseteq> set (issued_nonces P) \<and> st_ttlMs S = ttl \<and> st_readTtlMs S = readTtl"

lemma minted_mono: "minted ttl P x \<Longrightarrow> set P \<subseteq> set P' \<Longrightarrow> minted ttl P' x"
  unfolding minted_def by blast

lemma granted_mono: "granted A readTtl P x \<Longrightarrow> set P \<subseteq> set P' \<Longrightarrow> granted A readTtl P' x"
  unfolding granted_def by blast

lemma issued_mono: "set P \<subseteq> set P' \<Longrightarrow> set (issued_nonces P) \<subseteq> set (issued_nonces P')"
  unfolding subset_iff issued_nonces_mem by blast

lemma store_inv_mono:
  assumes "store_inv A ttl readTtl P used S" and "set (st_live S') \<subseteq> set (st_live S)"
    and "set (st_readTokens S') \<subseteq> set (st_readTokens S)" and "st_ttlMs S' = st_ttlMs S" and "st_readTtlMs S' = st_readTtlMs S"
    and "set P \<subseteq> set P'"
  shows "store_inv A ttl readTtl P' used S'"
  using assms minted_mono [OF _ assms(6)] granted_mono [OF _ assms(6)] issued_mono [OF assms(6)]
  unfolding store_inv_def by (meson subset_iff)

lemma set_token_gc: "set (token_gc maxKeys t m) \<subseteq> set m"
  by (auto simp: token_gc_def purge_def Let_def dest: in_set_dropD)

lemma check_signature_ok: "check_signature (od_txs (aa_ops A)) (od_cold (aa_ops A)) nonce sig (Some act) = Inr () \<Longrightarrow> signed_by A nonce sig act"
  by (auto simp: check_signature_def signed_by_def split: sum.splits if_splits)

lemma verifyAdminChallenge_store:
  "verifyAdminChallenge X cold t c act S = (r, S') \<Longrightarrow> set (st_live S') \<subseteq> set (st_live S)
     \<and> st_readTokens S' = st_readTokens S \<and> st_ttlMs S' = st_ttlMs S \<and> st_readTtlMs S' = st_readTtlMs S"
  by (auto simp: verifyAdminChallenge_def consume_nonce_def AList.delete_eq split: option.splits prod.splits if_splits)

lemma verifyAdminChallenge_ok:
  assumes "verifyAdminChallenge (od_txs (aa_ops A)) (od_cold (aa_ops A)) t c (Some act) S = (Inr (), S')"
  obtains nonce sig exp where "c = (Some nonce, Some sig)" and "signed_by A nonce sig act"
    and "(nonce, exp) \<in> set (st_live S)" and "t < exp" and "S' = S\<lparr>st_live := AList.delete nonce (st_live S)\<rparr>"
proof -
  obtain nonce sig where c: "c = (Some nonce, Some sig)" using assms
    by (cases c) (auto simp: verifyAdminChallenge_def split: option.splits)
  obtain exp where exp: "map_of (st_live S) nonce = Some exp" "t < exp" "S' = S\<lparr>st_live := AList.delete nonce (st_live S)\<rparr>"
      "check_signature (od_txs (aa_ops A)) (od_cold (aa_ops A)) nonce sig (Some act) = Inr ()"
    using assms unfolding c by (auto simp: verifyAdminChallenge_def consume_nonce_def split: option.splits if_splits)
  show thesis by (rule that [OF c check_signature_ok [OF exp(4)] map_of_SomeD [OF exp(1)] exp(2,3)])
qed

lemma admin_guard_challenge:
  "admin_guard A e r S = (Inr (), S') \<Longrightarrow> challenge_of r = Some (c, act)
     \<Longrightarrow> challenge_guard A e c act S = (Inr (), S') \<and> (act = ActSession \<or> aa_mode A = OperatorWallet)"
  by (cases r) (auto simp: write_guard_def requireOperatorMode_def and_then_def split: prod.splits sum.splits if_splits)

lemma admin_guard_token:
  "admin_guard A e r S = (Inr (), S') \<Longrightarrow> token_of r = Some token \<Longrightarrow> verifyReadToken (re_now e) token S = (True, S')"
  by (cases r) (auto simp: read_guard_def split: prod.splits if_splits)

lemma verifyReadToken_store:
  "verifyReadToken t token S = (ok, S') \<Longrightarrow> st_live S' = st_live S
     \<and> set (st_readTokens S') \<subseteq> set (st_readTokens S) \<and> st_ttlMs S' = st_ttlMs S \<and> st_readTtlMs S' = st_readTtlMs S"
  by (auto simp: verifyReadToken_def AList.delete_eq split: option.splits if_splits)

definition shrinks :: "challenge_store \<Rightarrow> challenge_store \<Rightarrow> bool" where
  "shrinks S S' \<longleftrightarrow> set (st_live S') \<subseteq> set (st_live S) \<and> set (st_readTokens S') \<subseteq> set (st_readTokens S)
     \<and> st_ttlMs S' = st_ttlMs S \<and> st_readTtlMs S' = st_readTtlMs S"

lemma shrinks_refl: "shrinks S S"
  by (simp add: shrinks_def)

lemma write_guard_shrinks: "write_guard A e c act own S = (r, S') \<Longrightarrow> shrinks S S'"
  using verifyAdminChallenge_store [of "od_txs (aa_ops A)" "od_cold (aa_ops A)" "re_now e" c "Some act" S]
  by (auto simp: write_guard_def challenge_guard_def shrinks_def split: sum.splits prod.splits)

lemma read_guard_shrinks: "read_guard e token own S = (r, S') \<Longrightarrow> shrinks S S'"
  using verifyReadToken_store [of "re_now e" token S] by (auto simp: read_guard_def shrinks_def split: prod.splits)

lemma admin_guard_shrinks:
  assumes "admin_guard A e r S = (res, S')"
  shows "shrinks S S'"
proof (cases r)
  case (PostSession c)
  then show ?thesis
    using assms verifyAdminChallenge_store [of "od_txs (aa_ops A)" "od_cold (aa_ops A)" "re_now e" c "Some ActSession" S]
    by (simp add: challenge_guard_def shrinks_def)
qed (use assms in \<open>auto intro: shrinks_refl write_guard_shrinks read_guard_shrinks\<close>)

lemma admin_guard_authorises:
  assumes "store_inv A ttl readTtl P used S" and "admin_guard A e r S = (Inr (), S')"
  shows "authorised A ttl readTtl P e r"
    and "nonce_of r = Some n \<Longrightarrow> n \<notin> set used \<and> n \<notin> fst ` set (st_live S')
      \<and> n \<in> set (issued_nonces P)"
proof -
  have ch: "\<exists>nonce sig e'. c = (Some nonce, Some sig) \<and> signed_by A nonce sig act
        \<and> (e', GetChallenge) \<in> set P \<and> re_random e' = nonce \<and> re_now e < re_now e' + ttl
        \<and> (act = ActSession \<or> aa_mode A = OperatorWallet) \<and> nonce \<notin> set used \<and> nonce \<notin> fst ` set (st_live S')"
    if "challenge_of r = Some (c, act)" for c act
  proof -
    note g = admin_guard_challenge [OF assms(2) that]
    obtain nonce sig exp where v: "c = (Some nonce, Some sig)" "signed_by A nonce sig act"
      "(nonce, exp) \<in> set (st_live S)" "re_now e < exp" "S' = S\<lparr>st_live := AList.delete nonce (st_live S)\<rparr>"
      using verifyAdminChallenge_ok [OF conjunct1 [OF g, unfolded challenge_guard_def]] by blast
    have "nonce \<notin> fst ` set (st_live S')" using v(5) by (auto simp: AList.delete_eq)
    moreover have "minted ttl P (nonce, exp)" "nonce \<notin> set used" using assms(1) v(3) by (auto simp: store_inv_def)
    then obtain e' where "(e', GetChallenge) \<in> set P" "re_random e' = nonce" "exp = re_now e' + ttl" "nonce \<notin> set used"
      unfolding minted_def by auto
    ultimately show ?thesis using v(1,2,4) g by blast
  qed
  have tk: "\<exists>e' nonce sig. (e', PostSession (Some nonce, Some sig)) \<in> set P
      \<and> signed_by A nonce sig ActSession \<and> token = Some (re_random e') \<and> re_now e < re_now e' + readTtl"
    if "token_of r = Some token" for token
  proof -
    note tok = that
    obtain t exp where t: "token = Some t" "(t, exp) \<in> set (st_readTokens S)" "re_now e < exp"
      using admin_guard_token [OF assms(2) tok]
      by (auto simp: verifyReadToken_def truthy_def dest: map_of_SomeD split: option.splits if_splits)
    have "granted A readTtl P (t, exp)" using assms(1) t(2) by (simp add: store_inv_def)
    then obtain e' nonce sig where "(e', PostSession (Some nonce, Some sig)) \<in> set P" "signed_by A nonce sig ActSession"
      "re_random e' = t" "exp = re_now e' + readTtl"
      unfolding granted_def by auto
    then show ?thesis using t(1,3) by blast
  qed
  show "authorised A ttl readTtl P e r" unfolding authorised_def using ch tk by blast
  show "n \<notin> set used \<and> n \<notin> fst ` set (st_live S') \<and> n \<in> set (issued_nonces P)"
    if "nonce_of r = Some n"
  proof -
    note nonce = that
    obtain c act where c: "challenge_of r = Some (c, act)" "fst c = Some n"
      using nonce by (cases "challenge_of r") (auto simp: nonce_of_def)
    then obtain sig e' where "c = (Some n, Some sig)" "(e', GetChallenge) \<in> set P" "re_random e' = n"
      "n \<notin> set used" "n \<notin> fst ` set (st_live S')"
      using ch [OF c(1)] by (metis fst_conv option.inject)
    then show ?thesis using issued_nonces_mem by metis
  qed
qed

lemma admin_operate_store:
  assumes "\<And>c. r \<noteq> PostSession c" and "r \<noteq> GetChallenge"
  shows "fst (snd (admin_operate A e r s)) = fst s"
  using assms by (cases r) (auto simp: reply_of_def split: prod.splits sum.splits)

lemma set_update: "set (AList.update k v m) \<subseteq> insert (k, v) (set m)"
  by (induction m) auto

lemma store_inv_gc: "store_inv A ttl readTtl P used S \<Longrightarrow> store_inv A ttl readTtl (P @ [h]) used (store_gc t S)"
  by (rule store_inv_mono) (auto simp: store_gc_def dest: subsetD [OF set_token_gc])

lemma store_inv_issue:
  assumes "store_inv A ttl readTtl P used S" and "re_random e \<notin> set used"
  shows "store_inv A ttl readTtl (P @ [(e, GetChallenge)]) used (snd (issue_challenge (re_now e) (re_random e) S))"
proof -
  let ?P = "P @ [(e, GetChallenge)]" and ?S = "store_gc (re_now e) S"
  have gc: "store_inv A ttl readTtl ?P used ?S" by (rule store_inv_gc [OF assms(1)])
  have "minted ttl ?P (re_random e, re_now e + ttl)" unfolding minted_def by auto
  then have "minted ttl ?P x \<and> fst x \<notin> set used"
    if "x \<in> set (AList.update (re_random e) (re_now e + ttl) (st_live ?S))" for x
    using subsetD [OF set_update that] gc assms(2) by (auto simp: store_inv_def)
  then show ?thesis using gc by (simp add: store_inv_def issue_challenge_def Let_def)
qed

lemma store_inv_session:
  assumes "store_inv A ttl readTtl P used S" and "signed_by A nonce sig ActSession"
  shows "store_inv A ttl readTtl (P @ [(e, PostSession (Some nonce, Some sig))]) used (snd (issueReadToken (re_now e) (re_random e) S))"
proof -
  let ?P = "P @ [(e, PostSession (Some nonce, Some sig))]" and ?S = "store_gc (re_now e) S"
  have gc: "store_inv A ttl readTtl ?P used ?S" by (rule store_inv_gc [OF assms(1)])
  have "granted A readTtl ?P (re_random e, re_now e + readTtl)" unfolding granted_def using assms(2) by auto
  then have "granted A readTtl ?P x"
    if "x \<in> set (AList.update (re_random e) (re_now e + readTtl) (st_readTokens ?S))" for x
    using subsetD [OF set_update that] gc by (auto simp: store_inv_def)
  then show ?thesis using gc by (simp add: store_inv_def issueReadToken_def Let_def)
qed

lemma store_inv_used:
  assumes "store_inv A ttl readTtl P used S" and "n \<notin> fst ` set (st_live S)" and "n \<in> set (issued_nonces P)"
  shows "store_inv A ttl readTtl P (used @ [n]) S"
  using assms by (auto simp: store_inv_def)

lemma admin_step_inv:
  assumes inv: "store_inv A ttl readTtl P used S" and step: "admin_step (Some A) (e, r) (S, w) = (rep, (S2, w2))"
    and fresh: "r = GetChallenge \<Longrightarrow> re_random e \<notin> set (issued_nonces P)"
  shows "store_inv A ttl readTtl (P @ [(e, r)])
      (used @ (case nonce_of r of Some n \<Rightarrow> if accepts A e r S then [n] else [] | None \<Rightarrow> [])) S2"
    and "nonce_of r = Some n \<Longrightarrow> accepts A e r S \<Longrightarrow> n \<notin> set used"
    and "accepts A e r S \<Longrightarrow> authorised A ttl readTtl P e r"
    and "\<not> accepts A e r S \<Longrightarrow> w2 = w \<and> (\<exists>err. rep = sendApiError err \<and> fst (admin_guard A e r S) = Inl err)"
proof -
  obtain res S1 where g: "admin_guard A e r S = (res, S1)" by fastforce
  have ok: "accepts A e r S \<longleftrightarrow> res = Inr ()" by (simp add: accepts_def g)
  show "authorised A ttl readTtl P e r" if "accepts A e r S"
    using admin_guard_authorises(1) [OF inv] g that ok by blast
  show "n \<notin> set used" if "nonce_of r = Some n" "accepts A e r S"
    using admin_guard_authorises(2) [OF inv _ that(1)] g that ok by blast
  show "w2 = w \<and> (\<exists>err. rep = sendApiError err \<and> fst (admin_guard A e r S) = Inl err)" if "\<not> accepts A e r S"
    using step g that ok by (cases res) (auto simp: admin_step_def)
  let ?new = "case nonce_of r of Some n \<Rightarrow> if accepts A e r S then [n] else [] | None \<Rightarrow> []"
  have S1: "store_inv A ttl readTtl P used S1"
    using admin_guard_shrinks [OF g] by (intro store_inv_mono [OF inv]) (auto simp: shrinks_def)
  have used: "store_inv A ttl readTtl P (used @ ?new) S1"
  proof (cases "nonce_of r")
    case (Some n)
    show ?thesis
    proof (cases "accepts A e r S")
      case True
      then have "n \<notin> fst ` set (st_live S1)" "n \<in> set (issued_nonces P)"
        using admin_guard_authorises(2) [OF inv _ Some] g ok by blast+
      then show ?thesis using store_inv_used [OF S1] Some True by simp
    qed (use S1 Some in simp)
  qed (use S1 in simp)
  show "store_inv A ttl readTtl (P @ [(e, r)]) (used @ ?new) S2"
  proof (cases res)
    case (Inl err)
    then have "S2 = S1" using step g by (simp add: admin_step_def)
    then show ?thesis by (auto intro: store_inv_mono [OF used])
  next
    case (Inr u)
    then have op: "admin_operate A e r (S1, w) = (rep, (S2, w2))" using step g by (simp add: admin_step_def)
    show ?thesis
    proof (cases "\<exists>c. r = PostSession c")
      case True
      then obtain c where r: "r = PostSession c" by blast
      obtain nonce sig where c: "c = (Some nonce, Some sig)" "signed_by A nonce sig ActSession"
        using admin_guard_authorises(1) [OF inv, of e r S1] g Inr r unfolding authorised_def by auto
      have "S2 = snd (issueReadToken (re_now e) (re_random e) S1)" using op r by (simp split: prod.splits)
      then show ?thesis using store_inv_session [OF used c(2)] r c(1) by simp
    next
      case False
      show ?thesis
      proof (cases "r = GetChallenge")
        case True
        have "S2 = snd (issue_challenge (re_now e) (re_random e) S1)" using op True by (simp split: prod.splits)
        moreover have "re_random e \<notin> set (used @ ?new)" using used fresh [OF True] by (auto simp: store_inv_def)
        ultimately show ?thesis using store_inv_issue [OF used] True by simp
      next
        case no: False
        have "S2 = S1" using admin_operate_store [of r A e "(S1, w)"] op False no by auto
        then show ?thesis by (auto intro: store_inv_mono [OF used])
      qed
    qed
  qed
qed

lemma issued_nonces_append: "issued_nonces (P @ Q) = issued_nonces P @ issued_nonces Q"
  by (simp add: issued_nonces_def)

lemma fresh_challenge:
  "distinct (issued_nonces (P @ (e, r) # Q)) \<Longrightarrow> r = GetChallenge \<Longrightarrow> re_random e \<notin> set (issued_nonces P)"
  by (auto simp: issued_nonces_append) (auto simp: issued_nonces_def)

lemma accepted_nonces_distinct:
  assumes "store_inv A ttl readTtl P used (fst s)" and "distinct used" and "distinct (issued_nonces (P @ hs))"
  shows "distinct (used @ accepted_nonces A hs s)
     \<and> store_inv A ttl readTtl (P @ hs) (used @ accepted_nonces A hs s) (fst (admin_run A hs s))"
  using assms
proof (induction hs arbitrary: P used s)
  case (Cons h hs)
  obtain e r S w where h: "h = (e, r)" "s = (S, w)" by (cases h, cases s)
  obtain rep S2 w2 where st: "admin_step (Some A) (e, r) (S, w) = (rep, (S2, w2))" by (metis prod_cases3)
  let ?new = "case nonce_of r of Some n \<Rightarrow> if accepts A e r S then [n] else [] | None \<Rightarrow> []"
  have inv: "store_inv A ttl readTtl P used S" using Cons.prems(1) h by simp
  note i = admin_step_inv [OF inv st fresh_challenge [OF Cons.prems(3) [unfolded h(1)]]]
  have "distinct (used @ ?new)" using Cons.prems(2) i(2) by (auto split: option.splits)
  then show ?case
    using Cons.IH [of "P @ [(e, r)]" "used @ ?new" "(S2, w2)"] i(1) Cons.prems(3) h st
    by (cases "nonce_of r") simp_all
qed simp

lemma check_signature_error:
  "check_signature X cold nonce sig act = Inl err \<Longrightarrow> 400 \<le> ae_status (thrown_api err)"
  by (auto simp: check_signature_def unauthorized_def api_throw_def split: sum.splits if_splits)

lemma challenge_guard_error: "challenge_guard A e c act S = (Inl err, S') \<Longrightarrow> 400 \<le> ae_status (thrown_api err)"
  by (auto simp: challenge_guard_def verifyAdminChallenge_def unauthorized_def api_throw_def
      dest: check_signature_error split: prod.splits option.splits if_splits)

lemma write_guard_error:
  assumes "write_guard A e c act own S = (Inl err, S')" and "\<And>x. own = Inl x \<Longrightarrow> 400 \<le> ae_status (thrown_api x)"
  shows "400 \<le> ae_status (thrown_api err)"
  using assms by (auto simp: write_guard_def requireOperatorMode_def api_throw_def and_then_def
      dest: challenge_guard_error split: sum.splits prod.splits if_splits)

lemma read_guard_error:
  assumes "read_guard e token own S = (Inl err, S')" and "\<And>x. own = Inl x \<Longrightarrow> 400 \<le> ae_status (thrown_api x)"
  shows "400 \<le> ae_status (thrown_api err)"
  using assms by (auto simp: read_guard_def unauthorized_def api_throw_def split: prod.splits if_splits)

lemma assertUuid_error: "assertUuid b = Inl x \<Longrightarrow> 400 \<le> ae_status (thrown_api x)"
  by (auto simp: assertUuid_def api_throw_def split: if_splits)

lemma admin_guard_error: "admin_guard A e r S = (Inl err, S') \<Longrightarrow> 400 \<le> ae_status (thrown_api err)"
  by (cases r) (auto simp: and_then_def api_throw_def dest: challenge_guard_error elim!: write_guard_error read_guard_error
      dest!: assertUuid_error split: sum.splits if_splits)

text \<open>
  C31. The operator's surface acts for nobody but the holder of the ANT authority: over any history of
  requests to a fresh store, with challenge nonces that do not repeat, no two requests that are let
  through carry the same nonce; and a request that is answered without an error, or changes the
  database or anything outside, carries a signature by the authority over a message that names its
  own action and a nonce issued before and still alive - or, for the reads, a live token issued to
  such a session. Every action but a session needs the operator-wallet mode.
\<close>

theorem admin_acts_are_authorised:
  assumes "st_live S = []" and "st_readTokens S = []" and "distinct (issued_nonces hs)"
  shows "distinct (accepted_nonces A hs (S, w))
     \<and> (\<forall>P e r Q S1 w1 rep S2 w2. hs = P @ (e, r) # Q \<longrightarrow> admin_run A P (S, w) = (S1, w1)
          \<longrightarrow> admin_step (Some A) (e, r) (S1, w1) = (rep, (S2, w2)) \<longrightarrow> w2 \<noteq> w1 \<or> fst rep < 400
          \<longrightarrow> authorised A (st_ttlMs S) (st_readTtlMs S) P e r)"
proof -
  have inv: "store_inv A (st_ttlMs S) (st_readTtlMs S) [] [] S" using assms(1,2) by (simp add: store_inv_def)
  have "authorised A (st_ttlMs S) (st_readTtlMs S) P e r"
    if "hs = P @ (e, r) # Q" "admin_run A P (S, w) = (S1, w1)" "admin_step (Some A) (e, r) (S1, w1) = (rep, (S2, w2))"
      "w2 \<noteq> w1 \<or> fst rep < 400" for P e r Q S1 w1 rep S2 w2
  proof -
    have d: "distinct (issued_nonces P)" "distinct (issued_nonces (P @ (e, r) # Q))"
      using assms(3) that(1) by (simp_all add: issued_nonces_append)
    have S1: "store_inv A (st_ttlMs S) (st_readTtlMs S) P (accepted_nonces A P (S, w)) S1"
      using accepted_nonces_distinct [of A _ _ "[]" "[]" "(S, w)" P] inv d(1) that(2) by simp
    note i = admin_step_inv [OF S1 that(3) fresh_challenge [OF d(2)]]
    have "accepts A e r S1"
      using i(4) that(4) admin_guard_error [of A e r S1] by (cases "admin_guard A e r S1") (fastforce simp: sendApiError_def)
    then show ?thesis using i(3) by blast
  qed
  then show ?thesis using accepted_nonces_distinct [of A _ _ "[]" "[]" "(S, w)" hs] inv assms(3) by auto
qed

text \<open>An authority that signed one cancellation, which is then sent twice.\<close>

definition demo_authority :: "(string list, string) admin_ctx" where
  "demo_authority = \<lparr>aa_ops = demo_operator\<lparr>od_txs := demo_tx_kit\<lparr>tk_bs58 := \<lambda>_. Inr [], tk_edVerify := \<lambda>sig msg pub.
       Inr (msg = adminChallengeMessage ''n1'' (Some ActCancel))\<rparr>\<rparr>,
     aa_mode = OperatorWallet, aa_batchMax = 50, aa_reservationTtlMs = 600000, aa_requireApproval = False, aa_includeMemo = True\<rparr>"

definition demo_request :: "int \<Rightarrow> string \<Rightarrow> request_env" where
  "demo_request t x = \<lparr>re_now = t, re_random = x, re_start = t, re_tx = t, re_batchId = ''b'', re_skip = (\<lambda>_. False),
     re_clocks = (\<lambda>_. undefined)\<rparr>"

definition demo_store :: challenge_store where
  "demo_store = \<lparr>st_ttlMs = 120000, st_readTtlMs = 300000, st_live = [], st_readTokens = [], st_maxKeys = 10000\<rparr>"

definition demo_sig :: string where "demo_sig = replicate 128 (CHR ''0'')"

definition demo_cancel :: admin_request where
  "demo_cancel = PostCancel (Some ''n1'', Some demo_sig) ''01234567-89ab-cdef-0123-456789abcdef''"

definition demo_live :: challenge_store where "demo_live = demo_store\<lparr>st_live := [(''n1'', 120000)]\<rparr>"

lemma demo_admin_history:
  "admin_run demo_authority [(demo_request 0 ''n1'', GetChallenge)] (demo_store, s) = (demo_live, s)"
  by (simp add: admin_step_def issue_challenge_def store_gc_def token_gc_def demo_store_def demo_live_def demo_request_def)

lemma demo_guard:
  "admin_guard demo_authority (demo_request 10 ''x'') demo_cancel demo_live = (Inr (), demo_store)"
proof -
  have 1: "decodeSignature (\<lambda>_. Inr []) demo_sig = Inr (replicate 64 0)" by code_simp
  have 2: "is_uuid ''01234567-89ab-cdef-0123-456789abcdef''" by code_simp
  show ?thesis
    by (simp add: demo_cancel_def write_guard_def requireOperatorMode_def demo_authority_def challenge_guard_def
        verifyAdminChallenge_def consume_nonce_def demo_live_def demo_store_def demo_request_def check_signature_def 1
        demo_operator_def demo_tx_kit_def and_then_def assertUuid_def 2)
qed

theorem admin_acts_are_authorised_witness:
  "authorised demo_authority 120000 300000 [(demo_request 0 ''n1'', GetChallenge)] (demo_request 10 ''x'') demo_cancel
     \<and> fst (fst (admin_step (Some demo_authority) (demo_request 10 ''x'', demo_cancel) (demo_live, (demo_ant_db, [])))) = 200
     \<and> fst (fst (admin_step (Some demo_authority) (demo_request 20 ''y'', demo_cancel) (demo_store, (demo_ant_db, [])))) = 401"
proof -
  let ?hs = "[(demo_request 0 ''n1'', GetChallenge), (demo_request 10 ''x'', demo_cancel), (demo_request 20 ''y'', demo_cancel)]"
  obtain rep S2 w2 where st: "admin_step (Some demo_authority) (demo_request 10 ''x'', demo_cancel) (demo_live, (demo_ant_db, []))
      = (rep, (S2, w2))" by (metis prod_cases3)
  have ok: "fst rep = 200"
    using st demo_guard by (auto simp: admin_step_def demo_cancel_def reply_of_def db_tx_def demo_authority_def
        demo_operator_def Let_def)
  have d: "distinct (issued_nonces ?hs)" by (simp add: issued_nonces_def demo_cancel_def)
  have "authorised demo_authority (st_ttlMs demo_store) (st_readTtlMs demo_store)
      [(demo_request 0 ''n1'', GetChallenge)] (demo_request 10 ''x'') demo_cancel"
  proof (rule conjunct2 [OF admin_acts_are_authorised [OF _ _ d], rule_format, OF _ _ _ demo_admin_history st])
    show "st_live demo_store = []" "st_readTokens demo_store = []" by (simp_all add: demo_store_def)
    show "?hs = [(demo_request 0 ''n1'', GetChallenge)] @ (demo_request 10 ''x'', demo_cancel) # [(demo_request 20 ''y'', demo_cancel)]"
      by simp
    show "w2 \<noteq> (demo_ant_db, []) \<or> fst rep < 400" using ok by simp
  qed
  moreover have "fst (fst (admin_step (Some demo_authority) (demo_request 20 ''y'', demo_cancel) (demo_store, (demo_ant_db, [])))) = 401"
    by (simp add: admin_step_def demo_cancel_def write_guard_def requireOperatorMode_def demo_authority_def challenge_guard_def
        verifyAdminChallenge_def consume_nonce_def demo_store_def sendApiError_def unauthorized_def api_throw_def and_then_def)
  ultimately show ?thesis using st ok by (simp add: demo_store_def)
qed

end
