(* ===== verification/Public_Routes.thy ===== *)
theory Public_Routes
  imports Ant_Admin Transparency
begin

text \<open>
  The public routes (\<open>registerClaimsRoutes\<close> of \<open>api/routes.ts\<close>): both rate limits in front, the guard
  of the metrics, the claim endpoints and the reads of the transparency store. A body is the typed
  input the handlers cast it to. The headers and preflights, the notification of Slack and the two
  chain reads (reserves, metrics) behind their guards are left out.
\<close>

section \<open>Requests and replies\<close>

text \<open>
  A claim is initiated with the fields of \<open>InitiateInput\<close> as they arrive; the fresh nonce and claim id
  and the clock readings come with the request.
\<close>

datatype public_request =
    GetClaimable claimable_query
  | GetAsset string
  | PostInitiate "string option" string "string option"
  | PostComplete complete_input
  | GetClaim string
  | GetLedger "string option" "string option"
  | GetLedgerProof "string option" "string option"
  | GetLog "string option" "string option"
  | GetAnchors "anchor_kind option" "string option"

datatype public_body =
    ApiErrorBody api_error
  | RaisedBody api_error
  | ClaimableBody "string \<times> string \<times> string \<times> claimable_asset_view list"
  | AssetBody claimable_asset_view
  | InitiatedBody initiate_result
  | CompletedBody complete_result
  | ClaimBody claim_status_view
  | LedgerBody published_view
  | ProofBody proof_view
  | LogBody log_view
  | AnchorsBody "anchor_row list"

type_synonym public_reply = "int \<times> public_body"

record public_env =
  pe_now :: int
  pe_ip :: string
  pe_nonce :: bytes
  pe_claimId :: string

definition public_error :: "api_error \<Rightarrow> public_reply" where
  "public_error e = (ae_status e, ApiErrorBody e)"

definition thrown_reply :: "thrown \<Rightarrow> public_reply" where
  "thrown_reply e = public_error (thrown_api e)"

text \<open>An error of the transparency reads; a failed query is answered with its message.\<close>

definition read_reply :: "api_error option + 'a \<Rightarrow> ('a \<Rightarrow> public_body) \<Rightarrow> public_reply" where
  "read_reply r f = (case r of
       Inr x \<Rightarrow> (200, f x)
     | Inl (Some e) \<Rightarrow> public_error e
     | Inl None \<Rightarrow> public_error (api_error_of 500 ''INTERNAL'' ''internal error''))"

section \<open>The guard of the metrics\<close>

definition enforceMetricsAccess :: "string option \<Rightarrow> string \<Rightarrow> string option \<Rightarrow> thrown + unit" where
  "enforceMetricsAccess metricsAuthToken network authorization =
     (if truthy metricsAuthToken
      then (if authorization = Some (''Bearer '' @ the metricsAuthToken) then Inr ()
            else Inl (api_throw 401 ''UNAUTHORIZED'' ''metrics require a valid bearer token''))
      else if network = ''localnet'' then Inr ()
      else Inl (api_throw 403 ''METRICS_FORBIDDEN''
        ''metrics are ops-only: set METRICS_AUTH_TOKEN (bearer) or expose them on a separate ops listener''))"

section \<open>The handlers\<close>

text \<open>The identity a request is limited by, when its route limits one.\<close>

definition js_or :: "string option \<Rightarrow> string option \<Rightarrow> string option" where
  "js_or a b = (if truthy a then a else b)"

fun identity_key :: "public_request \<Rightarrow> string option" where
  "identity_key (GetClaimable q) = Some (the (js_or (cq_recipientId q) (js_or (cq_address q) (Some ''unknown''))))"
| "identity_key (PostInitiate assetKey _ _) = Some (''asset:'' @ (case assetKey of Some k \<Rightarrow> k | None \<Rightarrow> ''none''))"
| "identity_key (PostComplete inp) = Some (''claimant:'' @ (case ci_claimant inp of Some c \<Rightarrow> c | None \<Rightarrow> ''none''))"
| "identity_key _ = None"

definition query_limit :: "string option \<Rightarrow> int option" where
  "query_limit s = (if truthy s then parse_int10 (the s) else None)"

definition query_since :: "string option \<Rightarrow> api_error option + nat" where
  "query_since s = (case s of None \<Rightarrow> Inr 0 | Some t \<Rightarrow> and_then (query (pg_bigint t)) (\<lambda>n. Inr (nat n)))"

fun public_handle ::
  "'k service_env \<Rightarrow> (bytes \<Rightarrow> bytes) \<Rightarrow> transparency_store \<Rightarrow> public_env \<Rightarrow> public_request \<Rightarrow> db \<Rightarrow> public_reply \<times> db" where
  "public_handle E sha S e (GetClaimable q) d =
     (case getClaimable d q of Inl err \<Rightarrow> thrown_reply err | Inr r \<Rightarrow> (200, ClaimableBody r), d)"
| "public_handle E sha S e (GetAsset k) d =
     (case getAsset d k of Inl err \<Rightarrow> thrown_reply err | Inr r \<Rightarrow> (200, AssetBody r), d)"
| "public_handle E sha S e (PostInitiate assetKey claimant idem) d =
     (case initiateClaim E (pe_now e) (pe_nonce e) (pe_claimId e)
             \<lparr>ii_assetKey = (case assetKey of Some k \<Rightarrow> k | None \<Rightarrow> []), ii_claimant = claimant, ii_idempotencyKey = idem\<rparr> d of
        (Inl err, d') \<Rightarrow> (thrown_reply err, d')
      | (Inr r, d') \<Rightarrow> ((201, InitiatedBody r), d'))"
| "public_handle E sha S e (PostComplete inp) d =
     (case completeClaim E (pe_now e) inp d of
        (Inl err, d') \<Rightarrow> (thrown_reply err, d')
      | (Inr r, d') \<Rightarrow> ((202, CompletedBody r), d'))"
| "public_handle E sha S e (GetClaim i) d =
     (case getClaim d i of Inl err \<Rightarrow> thrown_reply err | Inr r \<Rightarrow> (200, ClaimBody r), d)"
| "public_handle E sha S e (GetLedger full i) d =
     (read_reply (getPublishedLedger S (full = Some ''1'' \<or> full = Some ''true'') i) LedgerBody, d)"
| "public_handle E sha S e (GetLedgerProof assetKey i) d =
     (read_reply (getLedgerProof sha S (case assetKey of Some k \<Rightarrow> k | None \<Rightarrow> []) i) ProofBody, d)"
| "public_handle E sha S e (GetLog sinceSeq limit) d =
     (read_reply (and_then (query_since sinceSeq) (\<lambda>n. Inr (getAuditLog d (Some n) (query_limit limit)))) LogBody, d)"
| "public_handle E sha S e (GetAnchors kind limit) d =
     ((200, AnchorsBody (getAnchorList S kind (query_limit limit))), d)"

text \<open>
  Every \<open>/v1\<close> request passes the limit of its address, in a hook: what the hook throws is answered by
  the framework with the status of the error. Then come the limit of its identity and its handler.
\<close>

definition public_step ::
  "'k service_env \<Rightarrow> (bytes \<Rightarrow> bytes) \<Rightarrow> transparency_store \<Rightarrow> public_env \<times> public_request
     \<Rightarrow> rate_limiters \<times> db \<Rightarrow> public_reply \<times> (rate_limiters \<times> db)" where
  "public_step E sha S = (\<lambda>(e, r) (Ls, d).
     case enforceIp Ls (pe_now e) (pe_ip e) of
       (Inl err, Ls1) \<Rightarrow> ((ae_status err, RaisedBody err), (Ls1, d))
     | (Inr _, Ls1) \<Rightarrow>
        (case (case identity_key r of None \<Rightarrow> (Inr (), Ls1) | Some k \<Rightarrow> enforceIdentity Ls1 (pe_now e) k) of
           (Inl err, Ls2) \<Rightarrow> (public_error err, (Ls2, d))
         | (Inr _, Ls2) \<Rightarrow> (case public_handle E sha S e r d of (reply, d') \<Rightarrow> (reply, (Ls2, d')))))"

primrec public_run ::
  "'k service_env \<Rightarrow> (bytes \<Rightarrow> bytes) \<Rightarrow> transparency_store \<Rightarrow> (public_env \<times> public_request) list
     \<Rightarrow> rate_limiters \<times> db \<Rightarrow> rate_limiters \<times> db" where
  "public_run E sha S [] s = s"
| "public_run E sha S (h # hs) s = public_run E sha S hs (snd (public_step E sha S h s))"

section \<open>What a public request can do\<close>

lemma public_handle_writes:
  "snd (public_handle E sha S e r d) \<noteq> d \<Longrightarrow> (\<exists>k c i. r = PostInitiate k c i) \<or> (\<exists>inp. r = PostComplete inp)"
  by (cases r) auto

lemma public_handle_step:
  assumes "db_inv d" and "pe_claimId e \<notin> cl_claim_id ` set (db_claims d)"
  shows "snd (public_handle E sha S e r d) = d \<or> service_step E d (snd (public_handle E sha S e r d))"
proof (cases r)
  case (PostInitiate k c i)
  let ?inp = "\<lparr>ii_assetKey = (case k of Some k \<Rightarrow> k | None \<Rightarrow> []), ii_claimant = c, ii_idempotencyKey = i\<rparr>"
  have "snd (public_handle E sha S e r d) = snd (initiateClaim E (pe_now e) (pe_nonce e) (pe_claimId e) ?inp d)"
    by (simp add: PostInitiate split: prod.split sum.split)
  then show ?thesis using initiateClaim_step [OF assms(2), of E "pe_now e" "pe_nonce e" ?inp] by simp
next
  case (PostComplete inp)
  obtain res d' where c: "completeClaim E (pe_now e) inp d = (res, d')" by fastforce
  then have "snd (public_handle E sha S e r d) = d'" using PostComplete by (cases res) simp_all
  then show ?thesis using completeClaim_step [OF c assms(1)] by simp
qed auto

lemma public_step_db:
  assumes "db_inv d" and "pe_claimId e \<notin> cl_claim_id ` set (db_claims d)"
  shows "snd (snd (public_step E sha S (e, r) (Ls, d))) = d \<or> service_step E d (snd (snd (public_step E sha S (e, r) (Ls, d))))"
proof -
  have "snd (snd (public_step E sha S (e, r) (Ls, d))) \<in> {d, snd (public_handle E sha S e r d)}"
    by (simp add: public_step_def split: prod.split sum.split)
  then show ?thesis using public_handle_step [OF assms, of E sha S r] by auto
qed

lemma enforceIdentity_ip: "rls_ip (snd (enforceIdentity Ls t k)) = rls_ip Ls"
  by (simp add: enforceIdentity_def split: prod.split)

lemma public_step_ip:
  "rls_ip (fst (snd (public_step E sha S (e, r) (Ls, d)))) = snd (rate_check (rls_ip Ls) (pe_now e) (''ip:'' @ pe_ip e))"
  "\<not> rd_allowed (fst (rate_check (rls_ip Ls) (pe_now e) (''ip:'' @ pe_ip e)))
     \<Longrightarrow> \<exists>err. snd (fst (public_step E sha S (e, r) (Ls, d))) = RaisedBody err"
  using enforceIdentity_ip [of "Ls\<lparr>rls_ip := snd (rate_check (rls_ip Ls) (pe_now e) (''ip:'' @ pe_ip e))\<rparr>" "pe_now e"]
  by (auto simp: public_step_def enforceIp_def split: prod.splits sum.splits option.splits) (metis snd_conv)+

text \<open>
  The requests of one address, in the interval of one window's length that begins at \<open>a\<close>, that get
  past its limit.
\<close>

fun served ::
  "'k service_env \<Rightarrow> (bytes \<Rightarrow> bytes) \<Rightarrow> transparency_store \<Rightarrow> (public_env \<times> public_request) list
     \<Rightarrow> rate_limiters \<times> db \<Rightarrow> string \<Rightarrow> int \<Rightarrow> nat" where
  "served E sha S [] s ip a = 0"
| "served E sha S ((e, r) # hs) s ip a =
     (if pe_ip e = ip \<and> a \<le> pe_now e \<and> pe_now e < a + rl_windowMs (rls_ip (fst s))
         \<and> (\<forall>err. snd (fst (public_step E sha S (e, r) s)) \<noteq> RaisedBody err) then 1 else 0)
       + served E sha S hs (snd (public_step E sha S (e, r) s)) ip a"

definition ip_hits :: "(public_env \<times> public_request) list \<Rightarrow> (int \<times> string) list" where
  "ip_hits hs = map (\<lambda>(e, r). (pe_now e, ''ip:'' @ pe_ip e)) hs"

lemma served_passed: "served E sha S hs (Ls, d) ip a \<le> passed (rls_ip Ls) (ip_hits hs) (''ip:'' @ ip) a"
proof (induction hs arbitrary: Ls d)
  case (Cons h hs)
  obtain e r where h: "h = (e, r)" by fastforce
  obtain reply Ls' d' where st: "public_step E sha S (e, r) (Ls, d) = (reply, (Ls', d'))" by (metis prod_cases3)
  obtain dec L' where c: "rate_check (rls_ip Ls) (pe_now e) (''ip:'' @ pe_ip e) = (dec, L')" by fastforce
  have "rls_ip Ls' = L'" using public_step_ip(1) [of E sha S e r Ls d] st c by simp
  moreover have "rd_allowed dec" if "\<forall>err. snd reply \<noteq> RaisedBody err"
    using public_step_ip(2) [of Ls e E sha S r d] st c that by auto
  ultimately show ?case using Cons.IH [of Ls' d'] h st c by (auto simp: ip_hits_def)
qed (simp add: ip_hits_def)

text \<open>The claim ids that are drawn are not taken when they are used.\<close>

definition fresh_ids :: "'k service_env \<Rightarrow> (bytes \<Rightarrow> bytes) \<Rightarrow> transparency_store \<Rightarrow> (public_env \<times> public_request) list
     \<Rightarrow> rate_limiters \<times> db \<Rightarrow> bool" where
  "fresh_ids E sha S hs s \<longleftrightarrow> (\<forall>P e r Q. hs = P @ (e, r) # Q
     \<longrightarrow> pe_claimId e \<notin> cl_claim_id ` set (db_claims (snd (public_run E sha S P s))))"

lemma fresh_ids_Cons:
  assumes "fresh_ids E sha S ((e, r) # hs) s"
  shows "pe_claimId e \<notin> cl_claim_id ` set (db_claims (snd s))"
    and "fresh_ids E sha S hs (snd (public_step E sha S (e, r) s))"
proof -
  show "pe_claimId e \<notin> cl_claim_id ` set (db_claims (snd s))"
    using assms [unfolded fresh_ids_def, rule_format, of "[]" e r hs] by simp
  show "fresh_ids E sha S hs (snd (public_step E sha S (e, r) s))"
    unfolding fresh_ids_def
  proof (intro allI impI)
    fix P e' r' Q
    assume "hs = P @ (e', r') # Q"
    then show "pe_claimId e' \<notin> cl_claim_id ` set (db_claims (snd (public_run E sha S P (snd (public_step E sha S (e, r) s)))))"
      using assms [unfolded fresh_ids_def, rule_format, of "(e, r) # P" e' r' Q] by simp
  qed
qed

lemma public_run_steps:
  assumes "db_inv (snd s)" and "fresh_ids E sha S hs s"
  shows "(service_step E)\<^sup>*\<^sup>* (snd s) (snd (public_run E sha S hs s)) \<and> db_inv (snd (public_run E sha S hs s))"
  using assms
proof (induction hs arbitrary: s)
  case (Cons h hs)
  obtain e r Ls d where h: "h = (e, r)" "s = (Ls, d)" by (cases h, cases s)
  let ?s = "snd (public_step E sha S (e, r) s)"
  note f = fresh_ids_Cons [OF Cons.prems(2) [unfolded h(1)]]
  have one: "snd ?s = d \<or> service_step E d (snd ?s)"
    using public_step_db [of d e E sha S r Ls] Cons.prems(1) f(1) h(2) by simp
  then have "db_inv (snd ?s)" using service_step_inv [of E d] Cons.prems(1) h(2) by auto
  then have "(service_step E)\<^sup>*\<^sup>* (snd ?s) (snd (public_run E sha S hs ?s)) \<and> db_inv (snd (public_run E sha S hs ?s))"
    using Cons.IH f(2) by blast
  then show ?case using one h by (auto intro: converse_rtranclp_into_rtranclp)
qed simp

text \<open>
  C32. The public surface is the service behind its limits. Over any history of requests, with a clock
  that does not run backwards, fresh claim ids and as many addresses as the limiter keeps: what
  happens to the database is a run of the service's steps, so it keeps the invariant of the tables and
  everything proved of those steps; only initiate and complete write at all; and in no interval of a
  window's length does one address get more than twice its limit of requests served.
\<close>

theorem public_surface_is_the_service:
  assumes "db_inv d" and "fresh_ids E sha S hs (createRateLimiters windowMs (Some (int n)) idLimit, d)"
    and "0 < windowMs" and "0 < n" and "card (pe_ip ` fst ` set hs) \<le> 100000" and "sorted (map (pe_now \<circ> fst) hs)"
  defines "s \<equiv> (createRateLimiters windowMs (Some (int n)) idLimit, d)"
  shows "(service_step E)\<^sup>*\<^sup>* d (snd (public_run E sha S hs s)) \<and> db_inv (snd (public_run E sha S hs s))
     \<and> served E sha S hs s ip a \<le> 2 * n
     \<and> (\<forall>e r d'. snd (public_handle E sha S e r d') \<noteq> d'
          \<longrightarrow> (\<exists>k c i. r = PostInitiate k c i) \<or> (\<exists>inp. r = PostComplete inp))"
proof -
  let ?L = "new_limiter windowMs (Some (int n))"
  have keys: "snd ` set (ip_hits hs) = (@) ''ip:'' ` pe_ip ` fst ` set hs"
    by (force simp: ip_hits_def)
  have "card (snd ` set (ip_hits hs)) \<le> 100000" unfolding keys by (rule order_trans [OF card_image_le assms(5)]) simp
  then have l: "limits (snd ` set (ip_hits hs)) n ?L" using assms(3,4) by (intro new_limiter_limits) auto
  have sorted: "sorted (map fst (ip_hits hs))" using assms(6) by (simp add: ip_hits_def comp_def case_prod_beta')
  have "served E sha S hs s ip a \<le> passed ?L (ip_hits hs) (''ip:'' @ ip) a"
    using served_passed [of E sha S hs "fst s" d ip a] by (simp add: s_def createRateLimiters_def)
  also have "\<dots> \<le> 2 * n" by (rule passed_twice [OF l order_refl sorted])
  finally have "served E sha S hs s ip a \<le> 2 * n" .
  moreover have "(service_step E)\<^sup>*\<^sup>* d (snd (public_run E sha S hs s)) \<and> db_inv (snd (public_run E sha S hs s))"
    using public_run_steps [of s E sha S hs] assms(1,2) unfolding s_def by simp
  ultimately show ?thesis using public_handle_writes by blast
qed

theorem public_surface_is_the_service_witness:
  "\<exists>k d'. (service_step demo_env)\<^sup>*\<^sup>* (demo_db k) d' \<and> d' \<noteq> demo_db k \<and> db_inv d'"
proof -
  obtain k where k: "k \<noteq> []" "\<not> isDelisted k" by (rule demo_key)
  obtain m where m: "buildCanonicalFromLedger (se_prims demo_env) demo_recipient (demo_view k)
     (replicate 32 (CHR ''A'')) demo_nonce ''localnet'' = Inr m" by (rule demo_message)
  obtain r e where r: "initiateClaim demo_env 0 demo_nonce ''c1'' (demo_initiate k) (demo_db k)
      = (Inr r, append_audit demo_env 0 e (demo_db1 k m))"
    using demo_initiated(2) [OF m k] by blast
  let ?e = "\<lparr>pe_now = 0, pe_ip = ''10.0.0.1'', pe_nonce = demo_nonce, pe_claimId = ''c1''\<rparr>"
  let ?r = "PostInitiate (Some k) (replicate 32 (CHR ''A'')) (Some ''k'')"
  let ?Ls = "createRateLimiters 60000 (Some (int 60)) (Some 20)" and ?S = "\<lparr>ts_ledgers = [], ts_anchors = []\<rparr>"
  have inv: "db_inv (demo_db k)" by (simp add: db_inv_def claims_inv_def demo_db_def)
  have claims: "db_claims (demo_db k) = []" by (simp add: demo_db_def)
  have fresh: "fresh_ids demo_env (\<lambda>b. b) ?S [(?e, ?r)] (?Ls, demo_db k)"
    by (auto simp: fresh_ids_def Cons_eq_append_conv claims)
  have "snd (public_run demo_env (\<lambda>b. b) ?S [(?e, ?r)] (?Ls, demo_db k)) = append_audit demo_env 0 e (demo_db1 k m)"
    using r by (simp add: public_step_def enforceIp_def enforceIdentity_def createRateLimiters_def new_limiter_def
        rate_check_def open_bucket_def bucket_gc_def expired_bucket_def Let_def demo_initiate_def split: prod.split sum.split)
  then have run: "(service_step demo_env)\<^sup>*\<^sup>* (demo_db k) (append_audit demo_env 0 e (demo_db1 k m))"
    "db_inv (append_audit demo_env 0 e (demo_db1 k m))"
    using public_surface_is_the_service [OF inv fresh, of "''10.0.0.1''" 0] by simp_all
  have "append_audit demo_env 0 e (demo_db1 k m) \<noteq> demo_db k"
  proof
    assume "append_audit demo_env 0 e (demo_db1 k m) = demo_db k"
    from arg_cong [OF this, of db_claims] show False by (simp add: claims)
  qed
  then show ?thesis
    using run by blast
qed

end
