(* ===== verification/Reconcile.thy ===== *)
theory Reconcile
  imports Ledger_Build Chain_Gateway
begin

text \<open>
  The reconciliation gate: the second derivation of the deposits (\<open>reconcile/authoritative.ts\<close>), the
  diff of the built ledger against it (\<open>reconcile/reconcile.ts\<close>) and the run of
  \<open>cli/reconcile-ledger.ts\<close>. The second derivation calls modules of another repository: they are the
  fields of \<open>auth_modules\<close>, and the text of the file it pins is an argument. A \<open>Map\<close> is an
  association list in insertion order; a \<open>throw\<close> is a left result. Console output is left out.
\<close>

section \<open>The second derivation\<close>

text \<open>
  What is imported. \<open>axm_addressMap raw a\<close> is the lookup of \<open>a\<close> in the normalized map of \<open>raw\<close>, and
  \<open>axm_antMint p secret\<close> the base 58 of the derived mint.
\<close>

record auth_modules =
  axm_normalize :: "string \<Rightarrow> string"
  axm_isEthereum :: "string \<Rightarrow> bool"
  axm_addressMap :: "(string \<times> string) list \<Rightarrow> string \<Rightarrow> string option"
  axm_antMint :: "string \<Rightarrow> bytes \<Rightarrow> string + string"
  axm_tokenAssetId :: "string \<Rightarrow> bytes"
  axm_vaultAssetId :: "string \<Rightarrow> string \<Rightarrow> bytes"
  axm_collect :: "plan_artifact \<Rightarrow> string + escrow_deposit_set"
  axm_assertUnique :: "escrow_deposit_set \<Rightarrow> string + unit"
  axm_fallsBack :: "int \<Rightarrow> int \<Rightarrow> bool"
  axm_minVaultSize :: int
  axm_minVaultLock :: int

text \<open>The byte-exact snippets of \<open>batch-escrow.ts\<close>.\<close>

definition operator_exit_snippet :: string where
  "operator_exit_snippet = js_join (CHR 0x0A)
     [''const isLockedOperatorExit ='',
      ''        v.kind.startsWith('withdrawal:operator-exit:') &&'',
      ''        v.amountMario >= MIN_VAULT_SIZE_MARIO &&'',
      ''        lockDuration > 0n;'']"

definition source_guards :: "(string \<times> string) list" where
  "source_guards =
     [(''vault expired check'', ''const isExpired = vault.endTimestamp <= nowMs;''),
      (''vault ms->s lock'', ''Math.ceil((vault.endTimestamp - nowMs) / 1000),''),
      (''stake vault sha256'', ''const assetId = createHash('sha256').update(v.assetIdSeed).digest();''),
      (''stake liquid sha256'', ''const assetId = createHash('sha256').update(l.assetIdSeed).digest();''),
      (''stake base lock'', ''let lockDuration = BigInt(v.unlockTs - sendTs);''),
      (''operator-exit condition'', operator_exit_snippet),
      (''operator-exit extension'', ''if (isLockedOperatorExit && lockDuration < BigInt(MIN_VAULT_LOCK_SECONDS)) {''),
      (''operator-exit extend value'', ''lockDuration = BigInt(MIN_VAULT_LOCK_SECONDS);'')]"

text \<open>The first match of \<open>process.env.AO_PROCESS_ID || '<43 characters>'\<close>.\<close>

definition ao_id_char :: "char \<Rightarrow> bool" where
  "ao_id_char c = (word_char c \<or> c = CHR ''-'')"

definition ao_default_at :: "string \<Rightarrow> string option" where
  "ao_default_at text =
     (let lead = ''process.env.AO_PROCESS_ID || '' @ [CHR 0x27]; ao = take 43 (drop (length lead) text) in
      if take (length lead) text = lead \<and> length ao = 43 \<and> list_all ao_id_char ao
         \<and> take 1 (drop (length lead + 43) text) = [CHR 0x27]
      then Some ao else None)"

fun ao_default :: "string \<Rightarrow> string option" where
  "ao_default [] = None"
| "ao_default (c # cs) = (case ao_default_at (c # cs) of Some ao \<Rightarrow> Some ao | None \<Rightarrow> ao_default cs)"

definition assertSourceGuards :: "string option \<Rightarrow> string \<Rightarrow> string option \<Rightarrow> string + string" where
  "assertSourceGuards file path aoEnv =
     (case file of
        None \<Rightarrow> Inl (''batch-escrow.ts not found at '' @ path @ '' for source-guarding'')
      | Some text \<Rightarrow>
          (case find (\<lambda>(name, needle). \<not> contains text needle) source_guards of
             Some (name, needle) \<Rightarrow>
               Inl (''source-guard FAILED: batch-escrow.ts no longer contains the byte-exact '' @ name
                    @ '' snippet. The deployed inline derivation drifted - update the reconciler and ''
                    @ ''re-review before trusting the ledger.'')
           | None \<Rightarrow>
               (case ao_default text of
                  None \<Rightarrow> Inl ''source-guard FAILED: could not extract AO_PROCESS_ID default''
                | Some d \<Rightarrow> Inr (if truthy aoEnv then the aoEnv else d))))"

record auth_deposit =
  ax_assetType :: asset_type
  ax_assetKey :: string
  ax_amount :: "int option"
  ax_recipientHex :: string

record seed_counts =
  sc_ant :: nat
  sc_token :: nat
  sc_vault :: nat

text \<open>The variables of \<open>deriveAuthoritativeDeposits\<close>; what it returns is their last value.\<close>

record auth_state =
  at_deposits :: "(string \<times> auth_deposit) list"
  at_counters :: manifest_counters
  at_seeds :: seed_counts
  at_phase2 :: int
  at_phase3 :: int
  at_phase4 :: int

type_synonym auth_step = "auth_state \<Rightarrow> string + auth_state"

text \<open>What it reads: the pinned files, the modules and SHA-256.\<close>

record auth_inputs =
  ai_modules :: auth_modules
  ai_sha :: "bytes \<Rightarrow> bytes"
  ai_secret :: bytes
  ai_addressMap :: "(string \<times> string) list"
  ai_modulus :: "(string \<times> string) list"
  ai_atRisk :: "string list"

definition is_mapped :: "auth_inputs \<Rightarrow> string \<Rightarrow> bool" where
  "is_mapped A addr = truthy (axm_addressMap (ai_modules A) (ai_addressMap A) addr)"

text \<open>Node's base64 without padding, \<open>+\<close> and \<open>/\<close> replaced, is base64url.\<close>

definition b64UrlNoPad :: "bytes \<Rightarrow> string" where
  "b64UrlNoPad bs = b64url_encode bs"

definition auth_resolve :: "auth_inputs \<Rightarrow> string \<Rightarrow> string + bytes option" where
  "auth_resolve A owner =
     (if axm_isEthereum (ai_modules A) owner
      then Inr (Some (hex_bytes (drop 2 (axm_normalize (ai_modules A) owner))))
      else if truthy (map_of (ai_modulus A) owner)
      then let bs = b64url_decode (the (map_of (ai_modulus A) owner)); derived = b64UrlNoPad (ai_sha A bs) in
        if length bs \<noteq> 512 then Inl (''bad modulus length for '' @ owner)
        else if derived \<noteq> owner
        then Inl (''modulus for owner '' @ owner @ '' does not hash to it (b64url(sha256(modulus)) = '' @ derived
                  @ '') - corrupt or spoofed escrow-recipient-modulus.json'')
        else Inr (Some bs)
      else Inr None)"

definition depositedRecipient :: "auth_inputs \<Rightarrow> string \<Rightarrow> string + bytes option" where
  "depositedRecipient A owner =
     and_then (auth_resolve A owner) (\<lambda>pub.
     case pub of
       Some k \<Rightarrow> Inr (Some k)
     | None \<Rightarrow> if owner \<notin> set (ai_atRisk A)
         then Inl (''authoritative: unresolvable owner '' @ quoted owner @ '' not AT-RISK'')
         else Inr None)"

fun count_seed :: "asset_type \<Rightarrow> seed_counts \<Rightarrow> seed_counts" where
  "count_seed AssetAnt c = c\<lparr>sc_ant := sc_ant c + 1\<rparr>"
| "count_seed AssetToken c = c\<lparr>sc_token := sc_token c + 1\<rparr>"
| "count_seed AssetVault c = c\<lparr>sc_vault := sc_vault c + 1\<rparr>"

definition auth_add :: "auth_deposit \<Rightarrow> asset_type \<Rightarrow> auth_step" where
  "auth_add d seed a =
     (if ax_assetKey d \<in> fst ` set (at_deposits a)
      then Inl (''authoritative: duplicate assetKey '' @ ax_assetKey d)
      else Inr (a\<lparr>at_deposits := at_deposits a @ [(ax_assetKey d, d)], at_seeds := count_seed seed (at_seeds a)\<rparr>))"

definition auth_deposit_of :: "asset_type \<Rightarrow> string \<Rightarrow> int option \<Rightarrow> bytes \<Rightarrow> auth_deposit" where
  "auth_deposit_of ty key amount pub =
     \<lparr>ax_assetType = ty, ax_assetKey = key, ax_amount = amount, ax_recipientHex = hex_encode pub\<rparr>"

text \<open>The bodies of the four phases' loops.\<close>

definition authAnt :: "auth_inputs \<Rightarrow> ant_snapshot \<Rightarrow> auth_step" where
  "authAnt A ant a =
     (if is_mapped A (an_Owner ant) then Inr a
      else and_then (depositedRecipient A (an_Owner ant)) (\<lambda>pub. case pub of
        None \<Rightarrow> Inr a
      | Some k \<Rightarrow>
          and_then (axm_antMint (ai_modules A) (an_processId ant) (ai_secret A)) (\<lambda>antMint.
          and_then (auth_add (auth_deposit_of AssetAnt antMint None k) AssetAnt a) (\<lambda>a.
          Inr (a\<lparr>at_counters := (at_counters a)\<lparr>mc_ant := mc_ant (at_counters a) + 1\<rparr>\<rparr>)))))"

definition authBalance :: "auth_inputs \<Rightarrow> string \<times> rat \<Rightarrow> auth_step" where
  "authBalance A entry a =
     (let addr = fst entry; amount = snd entry in
      if is_mapped A addr \<or> amount \<le> 0 then Inr a
      else and_then (depositedRecipient A addr) (\<lambda>pub. case pub of
        None \<Rightarrow> Inr a
      | Some k \<Rightarrow>
          let assetKey = hex_encode (axm_tokenAssetId (ai_modules A) addr) in
          and_then (bigint_of_number amount) (\<lambda>amt.
          and_then (auth_add (auth_deposit_of AssetToken assetKey (Some amt) k) AssetToken a) (\<lambda>a.
          Inr (a\<lparr>at_counters := (at_counters a)\<lparr>mc_tokenEscrowed := mc_tokenEscrowed (at_counters a) + 1\<rparr>,
                at_phase2 := at_phase2 a + amt\<rparr>)))))"

definition authVault :: "auth_inputs \<Rightarrow> int \<Rightarrow> string \<Rightarrow> string \<times> ao_vault \<Rightarrow> auth_step" where
  "authVault A nowMs owner entry a =
     (let vaultId = fst entry; v = snd entry in
      and_then (bigint_of_number (av_balance v)) (\<lambda>amount.
      if amount \<le> 0 then Inr a
      else and_then (depositedRecipient A owner) (\<lambda>pub. case pub of
        None \<Rightarrow> Inr a
      | Some k \<Rightarrow>
          let assetKey = hex_encode (axm_vaultAssetId (ai_modules A) owner vaultId);
              a = a\<lparr>at_phase3 := at_phase3 a + amount\<rparr> in
          if av_endTimestamp v \<le> of_int nowMs
          then and_then (auth_add (auth_deposit_of AssetToken assetKey (Some amount) k) AssetToken a) (\<lambda>a.
            Inr (a\<lparr>at_counters := (at_counters a)\<lparr>mc_tokenEscrowed := mc_tokenEscrowed (at_counters a) + 1\<rparr>\<rparr>))
          else
            let lock = \<lceil>(av_endTimestamp v - of_int nowMs) / 1000\<rceil>;
                ty = (if axm_fallsBack (ai_modules A) amount lock then AssetToken else AssetVault) in
            and_then (auth_add (auth_deposit_of ty assetKey (Some amount) k) ty a) (\<lambda>a.
            Inr (a\<lparr>at_counters := (at_counters a)\<lparr>mc_vaultEscrowed := mc_vaultEscrowed (at_counters a) + 1\<rparr>\<rparr>)))))"

definition authOwnerVaults :: "auth_inputs \<Rightarrow> int \<Rightarrow> string \<times> (string \<times> ao_vault) list \<Rightarrow> auth_step" where
  "authOwnerVaults A nowMs entry a =
     (if is_mapped A (fst entry) then Inr a
      else fold_result (authVault A nowMs (fst entry)) (snd entry) a)"

definition auth_stake_lock :: "auth_modules \<Rightarrow> int \<Rightarrow> escrow_deposit \<Rightarrow> int" where
  "auth_stake_lock M nowS v =
     (let lock = the (ed_unlockTs v) - nowS;
          isLockedOpExit = (prefix ''withdrawal:operator-exit:'' (ed_kind v)
            \<and> ed_amountMario v \<ge> axm_minVaultSize M \<and> lock > 0)
      in if isLockedOpExit \<and> lock < axm_minVaultLock M then axm_minVaultLock M else lock)"

definition sha256Hex :: "(bytes \<Rightarrow> bytes) \<Rightarrow> string \<Rightarrow> string" where
  "sha256Hex sha s = hex_encode (sha (utf8_encode s))"

definition count_stake :: "auth_state \<Rightarrow> auth_state" where
  "count_stake a = a\<lparr>at_counters := (at_counters a)\<lparr>mc_stakeEscrowed := mc_stakeEscrowed (at_counters a) + 1\<rparr>\<rparr>"

definition authStakeVault :: "auth_inputs \<Rightarrow> int \<Rightarrow> escrow_deposit \<Rightarrow> auth_step" where
  "authStakeVault A nowS v a =
     and_then (depositedRecipient A (ed_arweaveAddr v)) (\<lambda>pub. case pub of
       None \<Rightarrow> Inr a
     | Some k \<Rightarrow>
         let lock = auth_stake_lock (ai_modules A) nowS v;
             ty = (if axm_fallsBack (ai_modules A) (ed_amountMario v) lock then AssetToken else AssetVault) in
         and_then (auth_add (auth_deposit_of ty (sha256Hex (ai_sha A) (ed_assetIdSeed v)) (Some (ed_amountMario v)) k) ty
             (a\<lparr>at_phase4 := at_phase4 a + ed_amountMario v\<rparr>)) (\<lambda>a.
         Inr (count_stake a)))"

definition authStakeLiquid :: "auth_inputs \<Rightarrow> escrow_deposit \<Rightarrow> auth_step" where
  "authStakeLiquid A l a =
     and_then (depositedRecipient A (ed_arweaveAddr l)) (\<lambda>pub. case pub of
       None \<Rightarrow> Inr a
     | Some k \<Rightarrow>
         and_then (auth_add (auth_deposit_of AssetToken (sha256Hex (ai_sha A) (ed_assetIdSeed l)) (Some (ed_amountMario l)) k)
             AssetToken (a\<lparr>at_phase4 := at_phase4 a + ed_amountMario l\<rparr>)) (\<lambda>a.
         Inr (count_stake a)))"

definition auth_start :: auth_state where
  "auth_start = \<lparr>at_deposits = [],
     at_counters = \<lparr>mc_ant = 0, mc_tokenEscrowed = 0, mc_vaultEscrowed = 0, mc_stakeEscrowed = 0\<rparr>,
     at_seeds = \<lparr>sc_ant = 0, sc_token = 0, sc_vault = 0\<rparr>, at_phase2 = 0, at_phase3 = 0, at_phase4 = 0\<rparr>"

definition auth_ants :: "(string \<times> ant_snapshot) list \<Rightarrow> ant_snapshot list" where
  "auth_ants files = map snd (filter (\<lambda>(f, a). \<not> (\<not> suffix ''.json'' f \<or> f = ''ant-mint-map.json'' \<or> f = ''failed-ants.json'')) files)"

definition auth_balances :: "string \<Rightarrow> (string \<times> rat option) list \<Rightarrow> (string \<times> rat) list" where
  "auth_balances aoProcessId summary =
     filter (\<lambda>(addr, b). addr \<noteq> aoProcessId)
       (List.map_filter (\<lambda>(addr, e). case e of Some b \<Rightarrow> if b > 0 then Some (addr, b) else None | None \<Rightarrow> None) summary)"

text \<open>A file that is not there is an error of \<open>readFileSync\<close>; the files are read where they are used.\<close>

definition auth_file :: "frozen_dir \<Rightarrow> string \<Rightarrow> 'a option \<Rightarrow> string + 'a" where
  "auth_file D name f = (case f of
     None \<Rightarrow> Inl (''ENOENT: no such file or directory, open '' @ fd_path D @ ''/'' @ name) | Some x \<Rightarrow> Inr x)"

definition auth_phases :: "auth_inputs \<Rightarrow> frozen_dir \<Rightarrow> string \<Rightarrow> int \<Rightarrow> string + auth_state" where
  "auth_phases A D aoProcessId nowMs =
     and_then (auth_file D ''ants'' (fd_ants D)) (\<lambda>files.
     and_then (fold_result (authAnt A) (auth_ants files) auth_start) (\<lambda>a1.
     and_then (auth_file D ''snapshot-summary.json'' (fd_summary D)) (\<lambda>summary.
     and_then (fold_result (authBalance A) (auth_balances aoProcessId (snd summary)) a1) (\<lambda>a2.
     and_then (auth_file D ''raw-vaults.json'' (fd_vaults D)) (\<lambda>vaults.
     and_then (fold_result (authOwnerVaults A nowMs) (snd vaults) a2) (\<lambda>a3.
     and_then (auth_file D ''delivery-escrow-plan.json'' (fd_plan D)) (\<lambda>plan.
     and_then (axm_collect (ai_modules A) (snd plan)) (\<lambda>S.
     and_then (axm_assertUnique (ai_modules A) S) (\<lambda>_.
     and_then (fold_result (authStakeVault A (nowMs div 1000)) (es_vaults S) a3) (\<lambda>a4.
     fold_result (authStakeLiquid A) (es_liquid S) a4))))))))))"

definition deriveAuthoritativeDeposits :: "auth_modules \<Rightarrow> (bytes \<Rightarrow> bytes) \<Rightarrow> string option \<Rightarrow> string \<Rightarrow> string option
    \<Rightarrow> frozen_dir \<Rightarrow> bytes \<Rightarrow> int \<Rightarrow> string + auth_state" where
  "deriveAuthoritativeDeposits M sha batchEscrow path aoEnv D secret nowMs =
     and_then (assertSourceGuards batchEscrow path aoEnv) (\<lambda>aoProcessId.
     and_then (auth_file D ''address-map.json'' (fd_addressMap D)) (\<lambda>am.
     and_then (auth_file D ''escrow-recipient-modulus.json'' (fd_modulus D)) (\<lambda>md.
     and_then (auth_file D ''escrow-recipient-AT-RISK.json'' (fd_atRisk D)) (\<lambda>ar.
     auth_phases \<lparr>ai_modules = M, ai_sha = sha, ai_secret = secret, ai_addressMap = snd am,
         ai_modulus = snd md, ai_atRisk = snd ar\<rparr> D aoProcessId nowMs))))"

section \<open>The diff\<close>

record built_asset =
  bt_assetType :: asset_type
  bt_assetKey :: string
  bt_amount :: "int option"
  bt_recipientHex :: string

datatype diff_reason = MissingInBuilt | ExtraInBuilt | TypeMismatch | AmountMismatch | RecipientMismatch

record ledger_diff =
  df_assetKey :: string
  df_reason :: diff_reason
  df_detail :: string

record reconcile_report =
  rr_pass :: bool
  rr_builtCount :: nat
  rr_authoritativeCount :: nat
  rr_matched :: nat
  rr_diffs :: "ledger_diff list"
  rr_builtSeedCounts :: seed_counts
  rr_authoritativeSeedCounts :: seed_counts
  rr_builtTotalMario :: int
  rr_authoritativeTotalMario :: int

definition pub_hex :: "bytes option \<Rightarrow> string" where
  "pub_hex k = (case k of Some bs \<Rightarrow> hex_encode bs | None \<Rightarrow> [])"

text \<open>\<open>new Map\<close> of pairs: the last pair of a key wins.\<close>

definition builtSetFromPlan :: "ledger_plan \<Rightarrow> (string \<times> built_asset) list" where
  "builtSetFromPlan plan =
     (let srcToPub = map_of (rev (map (\<lambda>r. (pr_sourceAddress r, pub_hex (pr_recipientPubkey r))) (lp_recipients plan))) in
      foldl (\<lambda>out p. if pl_status p \<noteq> P_available then out
         else AList.update (pl_assetKey p) \<lparr>bt_assetType = pl_assetType p, bt_assetKey = pl_assetKey p, bt_amount = pl_amount p,
           bt_recipientHex = (case srcToPub (pl_recipientSource p) of Some h \<Rightarrow> h | None \<Rightarrow> [])\<rparr> out) [] (lp_assets plan))"

definition built_of_rows :: "asset_row \<times> recipient_row \<Rightarrow> built_asset" where
  "built_of_rows row = (case row of (r, c) \<Rightarrow>
     \<lparr>bt_assetType = as_asset_type r, bt_assetKey = as_asset_key r, bt_amount = as_amount r,
      bt_recipientHex = pub_hex (rc_recipient_pubkey c)\<rparr>)"

definition available_rows :: "db \<Rightarrow> (asset_row \<times> recipient_row) list" where
  "available_rows d = concat (map (\<lambda>r. map (Pair r) (filter (\<lambda>c. rc_recipient_id c = as_recipient_id r) (db_recipients d)))
     (filter (\<lambda>r. as_status r = Available) (db_assets d)))"

definition builtSetFromDb :: "db \<Rightarrow> (string \<times> built_asset) list" where
  "builtSetFromDb d = foldl (\<lambda>out row. AList.update (as_asset_key (fst row)) (built_of_rows row) out) [] (available_rows d)"

definition seedCounts :: "asset_type list \<Rightarrow> seed_counts" where
  "seedCounts tys = fold count_seed tys \<lparr>sc_ant = 0, sc_token = 0, sc_vault = 0\<rparr>"

definition sumMario :: "int option list \<Rightarrow> int" where
  "sumMario as = foldl (\<lambda>s a. case a of Some n \<Rightarrow> s + n | None \<Rightarrow> s) 0 as"

definition amount_text :: "int option \<Rightarrow> string" where
  "amount_text a = (case a of None \<Rightarrow> ''null'' | Some n \<Rightarrow> dec_int n)"

definition half_text :: "nat \<Rightarrow> string" where
  "half_text n = dec_nat (n div 2) @ (if even n then [] else ''.5'')"

definition compare_deposit :: "(string \<times> built_asset) list \<Rightarrow> string \<times> auth_deposit \<Rightarrow> ledger_diff option" where
  "compare_deposit built e =
     (let key = fst e; a = snd e; diff = (\<lambda>reason detail. Some \<lparr>df_assetKey = key, df_reason = reason, df_detail = detail\<rparr>) in
      case map_of built key of
        None \<Rightarrow> diff MissingInBuilt (''authoritative '' @ asset_type_str (ax_assetType a) @ '' amount='' @ amount_text (ax_amount a)
                  @ '' not present as an available built asset'')
      | Some b \<Rightarrow>
          if bt_assetType b \<noteq> ax_assetType a
          then diff TypeMismatch (''built='' @ asset_type_str (bt_assetType b) @ '' authoritative='' @ asset_type_str (ax_assetType a))
          else if bt_amount b \<noteq> ax_amount a
          then diff AmountMismatch (''built='' @ amount_text (bt_amount b) @ '' authoritative='' @ amount_text (ax_amount a))
          else if bt_recipientHex b \<noteq> ax_recipientHex a
          then diff RecipientMismatch (''built '' @ half_text (length (bt_recipientHex b)) @ ''B != authoritative ''
                  @ half_text (length (ax_recipientHex a)) @ ''B (first16 built='' @ take 32 (bt_recipientHex b)
                  @ '' auth='' @ take 32 (ax_recipientHex a) @ '')'')
          else None)"

definition extra_in_built :: "(string \<times> auth_deposit) list \<Rightarrow> string \<times> built_asset \<Rightarrow> ledger_diff option" where
  "extra_in_built auth e =
     (if fst e \<in> fst ` set auth then None
      else Some \<lparr>df_assetKey = fst e, df_reason = ExtraInBuilt,
        df_detail = ''built '' @ asset_type_str (bt_assetType (snd e)) @ '' amount='' @ amount_text (bt_amount (snd e))
          @ '' has no authoritative counterpart''\<rparr>)"

definition reconcile :: "(string \<times> built_asset) list \<Rightarrow> auth_state \<Rightarrow> nat \<Rightarrow> reconcile_report" where
  "reconcile built authoritative maxDiffs =
     (let auth = at_deposits authoritative;
          diffs = List.map_filter (compare_deposit built) auth @ List.map_filter (extra_in_built auth) built in
      \<lparr>rr_pass = (length diffs = 0 \<and> length built = length auth), rr_builtCount = length built,
       rr_authoritativeCount = length auth, rr_matched = length (filter (\<lambda>e. compare_deposit built e = None) auth),
       rr_diffs = take maxDiffs diffs, rr_builtSeedCounts = seedCounts (map (bt_assetType \<circ> snd) built),
       rr_authoritativeSeedCounts = at_seeds authoritative,
       rr_builtTotalMario = sumMario (map (bt_amount \<circ> snd) built),
       rr_authoritativeTotalMario = sumMario (map (ax_amount \<circ> snd) auth)\<rparr>)"

section \<open>The gate\<close>

record expected_gate =
  eg_nowMs :: int
  eg_ant :: nat
  eg_tokenEscrowed :: nat
  eg_vaultEscrowed :: nat
  eg_stakeEscrowed :: nat
  eg_total :: nat
  eg_atRisk :: nat
  eg_phase2TokenOutflowMario :: int
  eg_expectedVaultMario :: int
  eg_expectedStakeMario :: int

definition EXPECTED_GATE :: expected_gate where
  "EXPECTED_GATE = \<lparr>eg_nowMs = 1783641600000, eg_ant = 2269, eg_tokenEscrowed = 5374, eg_vaultEscrowed = 111,
     eg_stakeEscrowed = 2957, eg_total = 10711, eg_atRisk = 136, eg_phase2TokenOutflowMario = 48264957232031,
     eg_expectedVaultMario = 20629353000000, eg_expectedStakeMario = 4382868348396\<rparr>"

definition gateAppliesAt :: "int \<Rightarrow> bool" where
  "gateAppliesAt nowMs \<longleftrightarrow> nowMs = eg_nowMs EXPECTED_GATE"

definition got_expected :: "string \<Rightarrow> string \<Rightarrow> int \<Rightarrow> int \<Rightarrow> string \<Rightarrow> string list" where
  "got_expected label field got expected hint = (if got = expected then []
     else [label @ field @ '': got '' @ dec_int got @ '', expected '' @ dec_int expected @ hint])"

definition checkVaultStakeMarioGate :: "string \<Rightarrow> int \<Rightarrow> int \<Rightarrow> string list" where
  "checkVaultStakeMarioGate label vaultMario stakeMario =
     got_expected label ''.vaultMario'' vaultMario (eg_expectedVaultMario EXPECTED_GATE) '' (tampered raw-vaults.json amountMario?)''
     @ got_expected label ''.stakeMario'' stakeMario (eg_expectedStakeMario EXPECTED_GATE)
         '' (tampered delivery-escrow-plan.json amountMario?)''"

definition counters_total :: "manifest_counters \<Rightarrow> nat" where
  "counters_total c = mc_ant c + mc_tokenEscrowed c + mc_vaultEscrowed c + mc_stakeEscrowed c"

definition checkGate :: "string \<Rightarrow> manifest_counters \<Rightarrow> string list" where
  "checkGate label c = (let g = EXPECTED_GATE; cmp = (\<lambda>name got exp. got_expected label (CHR ''.'' # name) (int got) (int exp) []) in
     cmp ''ant'' (mc_ant c) (eg_ant g) @ cmp ''tokenEscrowed'' (mc_tokenEscrowed c) (eg_tokenEscrowed g)
     @ cmp ''vaultEscrowed'' (mc_vaultEscrowed c) (eg_vaultEscrowed g)
     @ cmp ''stakeEscrowed'' (mc_stakeEscrowed c) (eg_stakeEscrowed g)
     @ cmp ''total'' (counters_total c) (eg_total g))"

text \<open>The lists of problems of the three parts of \<open>main\<close>.\<close>

definition authoritative_fails :: "auth_state \<Rightarrow> int \<Rightarrow> string list" where
  "authoritative_fails a nowMs =
     checkVaultStakeMarioGate ''authoritative'' (at_phase3 a) (at_phase4 a)
     @ got_expected ''authoritative'' ''.phase2TokenOutflow'' (at_phase2 a) (eg_phase2TokenOutflowMario EXPECTED_GATE) []
     @ (if gateAppliesAt nowMs then checkGate ''authoritative'' (at_counters a) else [])"

definition plan_fails :: "ledger_plan \<Rightarrow> int \<Rightarrow> string list" where
  "plan_fails plan nowMs =
     got_expected ''AT-RISK'' '' count'' (int (lp_atRiskRecipientCount plan)) (int (eg_atRisk EXPECTED_GATE)) []
     @ checkVaultStakeMarioGate ''built'' (lp_phase3VaultMario plan) (lp_phase4StakeMario plan)
     @ got_expected ''built'' ''.phase2TokenOutflow'' (lp_phase2TokenOutflowMario plan) (eg_phase2TokenOutflowMario EXPECTED_GATE) []
     @ (if gateAppliesAt nowMs then checkGate ''built'' (lp_counters plan) else [])"

definition report_fails :: "reconcile_report \<Rightarrow> string list" where
  "report_fails r =
     (if length (rr_diffs r) > 0 then [dec_nat (length (rr_diffs r)) @ '' reconciliation diff(s)''] else [])
     @ (if rr_builtTotalMario r \<noteq> rr_authoritativeTotalMario r
        then [''sum mARIO mismatch: built '' @ dec_int (rr_builtTotalMario r) @ '' != authoritative ''
              @ dec_int (rr_authoritativeTotalMario r)] else [])
     @ (if \<not> rr_pass r then [''reconcile() reported non-PASS''] else [])"

text \<open>
  The run of the command: an error, or the list of problems, empty for PASS. \<open>source\<close> is
  \<open>RECONCILE_SOURCE\<close>. The self-test of the mint derivation before it is left out.
\<close>

definition reconcile_ledger :: "auth_modules \<Rightarrow> string option \<Rightarrow> string \<Rightarrow> string option \<Rightarrow> plan_prims \<Rightarrow> bool
    \<Rightarrow> (string \<times> string) list \<Rightarrow> frozen_dir \<Rightarrow> int \<Rightarrow> string option \<Rightarrow> db \<Rightarrow> string + string list" where
  "reconcile_ledger M batchEscrow path aoEnv P bypass known D nowMs source d =
     and_then (deriveAuthoritativeDeposits M (pp_sha P) batchEscrow path aoEnv D (pp_antMintSecret P) nowMs) (\<lambda>authoritative.
     and_then (case loadFrozenInputs (pp_sha P) bypass known D of Inl ps \<Rightarrow> Inl (js_join (CHR 0x0A) ps) | Inr I \<Rightarrow> Inr I) (\<lambda>I.
     and_then (buildLedgerPlan P I (Some nowMs)) (\<lambda>plan.
     and_then (if to_lower (case source of Some s \<Rightarrow> s | None \<Rightarrow> ''db'') = ''db''
         then let built = builtSetFromDb d in
           if length built = 0
           then Inl (''RECONCILE_SOURCE=db but no available assets in the DB - run build-ledger first ''
                     @ ''(or use RECONCILE_SOURCE=plan for the in-memory derivation compare).'')
           else Inr built
         else Inr (builtSetFromPlan plan)) (\<lambda>built.
     Inr (authoritative_fails authoritative nowMs @ plan_fails plan nowMs
          @ report_fails (reconcile built authoritative 50))))))"

section \<open>The diff is exact\<close>

text \<open>What is compared of an asset: its type, its amount and the key of its recipient.\<close>

definition built_tuple :: "built_asset \<Rightarrow> asset_type \<times> int option \<times> string" where
  "built_tuple b = (bt_assetType b, bt_amount b, bt_recipientHex b)"

definition auth_tuple :: "auth_deposit \<Rightarrow> asset_type \<times> int option \<times> string" where
  "auth_tuple a = (ax_assetType a, ax_amount a, ax_recipientHex a)"

definition same_assets :: "(string \<times> built_asset) list \<Rightarrow> (string \<times> auth_deposit) list \<Rightarrow> bool" where
  "same_assets built auth \<longleftrightarrow> (\<forall>k. map_option built_tuple (map_of built k) = map_option auth_tuple (map_of auth k))"

lemma map_filter_Nil: "List.map_filter f xs = [] \<longleftrightarrow> (\<forall>x \<in> set xs. f x = None)"
  by (induction xs) (auto simp: map_filter_def)

lemma compare_deposit_None:
  "compare_deposit built (k, a) = None \<longleftrightarrow> (\<exists>b. map_of built k = Some b \<and> built_tuple b = auth_tuple a)"
  by (auto simp: compare_deposit_def Let_def built_tuple_def auth_tuple_def split: option.splits)

lemma same_assetsI:
  assumes "map (\<lambda>(k, b). (k, built_tuple b)) built = map (\<lambda>(k, x). (k, auth_tuple x)) auth"
  shows "same_assets built auth"
proof -
  have "map_of (map (\<lambda>(k, b). (k, built_tuple b)) built) = map_of (map (\<lambda>(k, x). (k, auth_tuple x)) auth)"
    using assms by simp
  then show ?thesis unfolding same_assets_def by (simp add: map_of_map fun_eq_iff)
qed

lemma same_assets_keys: "same_assets built auth \<Longrightarrow> fst ` set built = fst ` set auth"
  unfolding same_assets_def dom_map_of_conv_image_fst [symmetric] dom_def by (metis map_option_eq_Some not_Some_eq)

lemma same_assets_Some:
  assumes "same_assets built auth" and "map_of auth k = Some a"
  shows "\<exists>b. map_of built k = Some b \<and> built_tuple b = auth_tuple a"
proof -
  have "map_option built_tuple (map_of built k) = Some (auth_tuple a)"
    using assms by (simp add: same_assets_def)
  then show ?thesis by auto
qed

lemma same_assets_compare:
  assumes "same_assets built auth" and "distinct (map fst auth)" and "e \<in> set auth"
  shows "compare_deposit built e = None"
proof (cases e)
  case (Pair k x)
  then have "map_of auth k = Some x" using assms(2,3) by simp
  from same_assets_Some [OF assms(1) this] show ?thesis by (simp add: Pair compare_deposit_None)
qed

lemma reconcile_is_exact:
  assumes "distinct (map fst built)" and "distinct (map fst (at_deposits a))"
  shows "rr_pass (reconcile built a n) \<longleftrightarrow> same_assets built (at_deposits a)"
proof
  assume "rr_pass (reconcile built a n)"
  then have n: "\<forall>e \<in> set (at_deposits a). compare_deposit built e = None"
    "\<forall>e \<in> set built. extra_in_built (at_deposits a) e = None"
    by (simp_all add: reconcile_def Let_def map_filter_Nil)
  show "same_assets built (at_deposits a)"
    unfolding same_assets_def
  proof
    fix k
    show "map_option built_tuple (map_of built k) = map_option auth_tuple (map_of (at_deposits a) k)"
    proof (cases "map_of (at_deposits a) k")
      case None
      then have "map_of built k = None"
        using n(2) by (fastforce simp: map_of_eq_None_iff extra_in_built_def split: if_splits)
      with None show ?thesis by simp
    next
      case (Some x)
      then have "compare_deposit built (k, x) = None" using n(1) map_of_SomeD by fast
      with Some show ?thesis by (auto simp: compare_deposit_None)
    qed
  qed
next
  assume s: "same_assets built (at_deposits a)"
  have "compare_deposit built e = None" if "e \<in> set (at_deposits a)" for e
    by (rule same_assets_compare [OF s assms(2) that])
  moreover have "extra_in_built (at_deposits a) e = None" if "e \<in> set built" for e
    using that same_assets_keys [OF s] by (auto simp: extra_in_built_def)
  moreover have "length built = length (at_deposits a)"
    using arg_cong [OF same_assets_keys [OF s], of card] assms
    by (metis card_image distinct_card distinct_map length_map list.set_map)
  ultimately show "rr_pass (reconcile built a n)"
    by (simp add: reconcile_def Let_def map_filter_Nil)
qed

text \<open>A map filled from a list with distinct keys is that list.\<close>

lemma update_new: "k \<notin> fst ` set al \<Longrightarrow> AList.update k v al = al @ [(k, v)]"
  by (induction al) auto

lemma fill_distinct:
  assumes "distinct (map key xs)"
  shows "foldl (\<lambda>out x. AList.update (key x) (val x) out) [] xs = map (\<lambda>x. (key x, val x)) xs"
proof -
  have "foldl (\<lambda>out x. AList.update (key x) (val x) out) out xs = out @ map (\<lambda>x. (key x, val x)) xs"
    if "distinct (map fst out @ map key xs)" for out
    using that
  proof (induction xs arbitrary: out)
    case (Cons x xs)
    then have "AList.update (key x) (val x) out = out @ [(key x, val x)]" by (intro update_new) auto
    with Cons show ?case by simp
  qed simp
  from this [of "[]"] assms show ?thesis by simp
qed

lemma foldl_if: "foldl (\<lambda>out x. if Q x then out else f out x) s xs = foldl f s (filter (\<lambda>x. \<not> Q x) xs)"
  by (induction xs arbitrary: s) simp_all

lemma one_per_key: "distinct (map key cs) \<Longrightarrow> length (filter (\<lambda>c. key c = x) cs) \<le> 1"
proof (induction cs)
  case (Cons c cs)
  have "key c \<notin> key ` set cs" using Cons.prems by simp
  then have "filter (\<lambda>c. key c = x) cs = []" if "key c = x"
    unfolding filter_empty_conv using that by (metis image_eqI)
  with Cons show ?case by simp
qed simp

lemma joined_keys_distinct:
  assumes "distinct (map key rs)" and "\<And>r. length (fs r) \<le> 1"
  shows "distinct (map (key \<circ> fst) (concat (map (\<lambda>r. map (Pair r) (fs r)) rs)))"
  using assms(1)
proof (induction rs)
  case (Cons r rs)
  have "distinct (map (\<lambda>p. key (fst p)) (map (Pair r) (fs r)))"
    using assms(2) [of r] by (cases "fs r") auto
  with Cons show ?case by (auto simp: o_def image_iff)
qed simp

lemma builtSetFromDb_rows:
  assumes "distinct (map as_asset_key (db_assets d))" and "distinct (map rc_recipient_id (db_recipients d))"
  shows "builtSetFromDb d = map (\<lambda>row. (as_asset_key (fst row), built_of_rows row)) (available_rows d)"
    and "distinct (map fst (builtSetFromDb d))"
proof -
  have "distinct (map as_asset_key (filter (\<lambda>r. as_status r = Available) (db_assets d)))"
    using assms(1) by (simp add: distinct_map_filter)
  then have d: "distinct (map (as_asset_key \<circ> fst) (available_rows d))"
    unfolding available_rows_def by (rule joined_keys_distinct) (rule one_per_key [OF assms(2)])
  then show b: "builtSetFromDb d = map (\<lambda>row. (as_asset_key (fst row), built_of_rows row)) (available_rows d)"
    unfolding builtSetFromDb_def by (intro fill_distinct [where key = "\<lambda>row. as_asset_key (fst row)"]) (simp add: o_def)
  from d show "distinct (map fst (builtSetFromDb d))" unfolding b by (simp add: o_def)
qed

section \<open>What the second derivation returns\<close>

lemma sumMario_append [simp]:
  "sumMario (xs @ [x]) = sumMario xs + (case x of Some n \<Rightarrow> n | None \<Rightarrow> 0)"
  by (simp add: sumMario_def split: option.split)

lemma seedCounts_append [simp]: "seedCounts (xs @ [x]) = count_seed x (seedCounts xs)"
  by (simp add: seedCounts_def)

definition auth_total :: "auth_state \<Rightarrow> int" where
  "auth_total a = at_phase2 a + at_phase3 a + at_phase4 a"

definition auth_ok :: "auth_state \<Rightarrow> bool" where
  "auth_ok a \<longleftrightarrow> distinct (map fst (at_deposits a)) \<and> (\<forall>e \<in> set (at_deposits a). ax_assetKey (snd e) = fst e)
     \<and> auth_total a = sumMario (map (ax_amount \<circ> snd) (at_deposits a))
     \<and> counters_total (at_counters a) = length (at_deposits a)
     \<and> at_seeds a = seedCounts (map (ax_assetType \<circ> snd) (at_deposits a))"

text \<open>Every step does nothing or makes one deposit, which it counts.\<close>

definition auth_grows :: "auth_state \<Rightarrow> auth_state \<Rightarrow> bool" where
  "auth_grows a a' \<longleftrightarrow> a' = a \<or> (\<exists>d. ax_assetKey d \<notin> fst ` set (at_deposits a)
     \<and> at_deposits a' = at_deposits a @ [(ax_assetKey d, d)] \<and> at_seeds a' = count_seed (ax_assetType d) (at_seeds a)
     \<and> auth_total a' = auth_total a + (case ax_amount d of Some n \<Rightarrow> n | None \<Rightarrow> 0)
     \<and> counters_total (at_counters a') = counters_total (at_counters a) + 1)"

lemma auth_grows_refl [simp]: "auth_grows a a"
  by (simp add: auth_grows_def)

lemma auth_ok_grows:
  assumes "auth_grows a a'" and "auth_ok a"
  shows "auth_ok a'"
  using assms unfolding auth_grows_def auth_ok_def by (elim disjE exE conjE) (auto simp: image_iff)

lemma auth_growsI:
  assumes "auth_add d seed a1 = Inr a2" and "ax_assetType d = seed"
    and "at_deposits a1 = at_deposits a" and "at_seeds a1 = at_seeds a"
    and "at_deposits a' = at_deposits a2" and "at_seeds a' = at_seeds a2"
    and "auth_total a1 + n = auth_total a + (case ax_amount d of Some n \<Rightarrow> n | None \<Rightarrow> 0)"
    and "auth_total a' = auth_total a2 + n"
    and "counters_total (at_counters a1) = counters_total (at_counters a)"
    and "counters_total (at_counters a') = counters_total (at_counters a2) + 1"
  shows "auth_grows a a'"
  unfolding auth_grows_def using assms
  by (intro disjI2 exI [of _ d]) (auto simp: auth_add_def auth_total_def split: if_splits)

lemmas auth_step_simps = auth_deposit_of_def auth_total_def counters_total_def count_stake_def

text \<open>A step that is skipped for an owner without a key.\<close>

lemma skipped_Inr:
  "(case p of None \<Rightarrow> Inr a | Some k \<Rightarrow> f k) = Inr a' \<longleftrightarrow> p = None \<and> a = a' \<or> (\<exists>k. p = Some k \<and> f k = Inr a')"
  by (cases p) auto

lemma authAnt_grows: "authAnt A ant a = Inr a' \<Longrightarrow> auth_grows a a'"
  by (auto simp: authAnt_def and_then_Inr skipped_Inr split: if_splits)
    (rule auth_growsI [where n = 0], assumption, simp_all add: auth_step_simps)

lemma authBalance_grows: "authBalance A b a = Inr a' \<Longrightarrow> auth_grows a a'"
  by (auto simp: authBalance_def and_then_Inr Let_def skipped_Inr split: if_splits)
    (rule auth_growsI, assumption, simp_all add: auth_step_simps)

lemma authVault_grows: "authVault A nowMs owner v a = Inr a' \<Longrightarrow> auth_grows a a'"
  by (auto simp: authVault_def and_then_Inr Let_def skipped_Inr split: if_splits)
    (rule auth_growsI [where n = 0], assumption, simp_all add: auth_step_simps)+

lemma authStakeVault_grows: "authStakeVault A nowS e a = Inr a' \<Longrightarrow> auth_grows a a'"
  by (auto simp: authStakeVault_def and_then_Inr Let_def skipped_Inr split: if_splits)
    (rule auth_growsI [where n = 0], assumption, simp_all add: auth_step_simps)+

lemma authStakeLiquid_grows: "authStakeLiquid A e a = Inr a' \<Longrightarrow> auth_grows a a'"
  by (auto simp: authStakeLiquid_def and_then_Inr skipped_Inr split: if_splits)
    (rule auth_growsI [where n = 0], assumption, simp_all add: auth_step_simps)

lemma fold_auth_ok:
  assumes "fold_result f xs a = Inr a'" and "auth_ok a" and "\<And>x a a'. f x a = Inr a' \<Longrightarrow> auth_grows a a'"
  shows "auth_ok a'"
  using assms(1,2) by (rule fold_result_inv [where J = auth_ok]) (blast intro: auth_ok_grows assms(3))

lemma authOwnerVaults_ok: "authOwnerVaults A nowMs e a = Inr a' \<Longrightarrow> auth_ok a \<Longrightarrow> auth_ok a'"
  unfolding authOwnerVaults_def by (auto split: if_splits elim: fold_auth_ok intro: authVault_grows)

lemma auth_start_ok: "auth_ok auth_start"
  by (simp add: auth_ok_def auth_start_def auth_total_def sumMario_def counters_total_def seedCounts_def)

lemma auth_phases_ok:
  assumes "auth_phases A D ao nowMs = Inr a"
  shows "auth_ok a"
proof -
  from assms obtain files a1 summary a2 vaults a3 a4 and S :: escrow_deposit_set where a:
    "fold_result (authAnt A) (auth_ants files) auth_start = Inr a1"
    "fold_result (authBalance A) (auth_balances ao summary) a1 = Inr a2"
    "fold_result (authOwnerVaults A nowMs) vaults a2 = Inr a3"
    "fold_result (authStakeVault A (nowMs div 1000)) (es_vaults S) a3 = Inr a4"
    "fold_result (authStakeLiquid A) (es_liquid S) a4 = Inr a"
    by (auto simp: auth_phases_def and_then_Inr)
  have "auth_ok a1" by (rule fold_auth_ok [OF a(1) auth_start_ok]) (rule authAnt_grows)
  then have "auth_ok a2" by (rule fold_auth_ok [OF a(2)]) (rule authBalance_grows)
  then have "auth_ok a3" by (rule fold_result_inv [where J = auth_ok, OF a(3)]) (rule authOwnerVaults_ok)
  then have "auth_ok a4" by (rule fold_auth_ok [OF a(4)]) (rule authStakeVault_grows)
  then show ?thesis by (rule fold_auth_ok [OF a(5)]) (rule authStakeLiquid_grows)
qed

lemma derive_ok:
  "deriveAuthoritativeDeposits M sha file path aoEnv D secret nowMs = Inr a \<Longrightarrow> auth_ok a"
  unfolding deriveAuthoritativeDeposits_def and_then_Inr using auth_phases_ok by blast

section \<open>A run that passes\<close>

text \<open>The deposit a row of the ledger stands for.\<close>

definition row_deposit :: "asset_row \<times> recipient_row \<Rightarrow> string \<times> auth_deposit" where
  "row_deposit row = (case row of (r, c) \<Rightarrow> (as_asset_key r,
     \<lparr>ax_assetType = as_asset_type r, ax_assetKey = as_asset_key r, ax_amount = as_amount r,
      ax_recipientHex = pub_hex (rc_recipient_pubkey c)\<rparr>))"

lemma row_deposit_iff:
  "row_deposit row = (k, x) \<longleftrightarrow> as_asset_key (fst row) = k \<and> ax_assetKey x = k \<and> auth_tuple x = built_tuple (built_of_rows row)"
  by (cases row; cases x) (auto simp: row_deposit_def auth_tuple_def built_tuple_def built_of_rows_def)

lemma got_expected_Nil [simp]: "got_expected l f g e h = [] \<longleftrightarrow> g = e"
  by (simp add: got_expected_def)

lemma db_set_is_the_deposits:
  assumes keys: "distinct (map as_asset_key (db_assets d))" "distinct (map rc_recipient_id (db_recipients d))"
    and a: "auth_ok a" and pass: "rr_pass (reconcile (builtSetFromDb d) a n)"
  shows "set (at_deposits a) = row_deposit ` set (available_rows d)"
    and "length (at_deposits a) = length (available_rows d)"
proof -
  note b = builtSetFromDb_rows [OF keys]
  have da: "distinct (map fst (at_deposits a))" using a by (simp add: auth_ok_def)
  have same: "same_assets (builtSetFromDb d) (at_deposits a)" using pass reconcile_is_exact [OF b(2) da] by blast
  show "set (at_deposits a) = row_deposit ` set (available_rows d)"
  proof (intro equalityI subsetI)
    fix e assume e: "e \<in> set (at_deposits a)"
    obtain k x where kx: "e = (k, x)" by (cases e)
    then have x: "map_of (at_deposits a) k = Some x" "ax_assetKey x = k"
      using e da a by (auto simp: auth_ok_def)
    obtain y where y: "map_of (builtSetFromDb d) k = Some y" "built_tuple y = auth_tuple x"
      using same_assets_Some [OF same x(1)] by blast
    then obtain row where "row \<in> set (available_rows d)" "as_asset_key (fst row) = k" "y = built_of_rows row"
      using map_of_SomeD [OF y(1)] unfolding b(1) by auto
    then show "e \<in> row_deposit ` set (available_rows d)"
      using kx x(2) y(2) row_deposit_iff [of row k x] by (metis image_eqI)
  next
    fix e assume "e \<in> row_deposit ` set (available_rows d)"
    then obtain row where row: "row \<in> set (available_rows d)" "e = row_deposit row" by blast
    let ?k = "as_asset_key (fst row)"
    have "(?k, built_of_rows row) \<in> set (builtSetFromDb d)" using row(1) unfolding b(1) by auto
    then have y: "map_of (builtSetFromDb d) ?k = Some (built_of_rows row)" using b(2) by simp
    have "?k \<in> fst ` set (at_deposits a)"
      using same_assets_keys [OF same] map_of_SomeD [OF y] by (metis fst_conv image_eqI)
    then obtain x where x: "(?k, x) \<in> set (at_deposits a)" by auto
    then have m: "map_of (at_deposits a) ?k = Some x" "ax_assetKey x = ?k" using da a by (auto simp: auth_ok_def)
    have "built_tuple (built_of_rows row) = auth_tuple x" using same_assets_Some [OF same m(1)] y by simp
    then have "row_deposit row = (?k, x)" using m(2) by (simp add: row_deposit_iff)
    then show "e \<in> set (at_deposits a)" using x row(2) by simp
  qed
  show "length (at_deposits a) = length (available_rows d)"
    using pass by (simp add: reconcile_def Let_def b(1))
qed

lemma gate_passes:
  assumes "reconcile_ledger M file path aoEnv P bypass known D nowMs None d = Inr []"
  obtains a where "deriveAuthoritativeDeposits M (pp_sha P) file path aoEnv D (pp_antMintSecret P) nowMs = Inr a"
    "rr_pass (reconcile (builtSetFromDb d) a 50)" "authoritative_fails a nowMs = []"
    "sumMario (map (bt_amount \<circ> snd) (builtSetFromDb d)) = sumMario (map (ax_amount \<circ> snd) (at_deposits a))"
  using assms
  by (auto simp: reconcile_ledger_def and_then_Inr Let_def report_fails_def reconcile_def to_lower_def lower_char_def
      split: sum.splits if_splits)

text \<open>
  C23. A passing gate pins the database to the second derivation: the available assets with their
  recipients are exactly its deposits, each with its type, its amount and its key, none missing and
  none besides; they are worth the three published totals together, 73,277,178.580427 ARIO, whatever
  the files say; and at the published instant they are the published 10,711.
\<close>

theorem gate_pins_the_ledger:
  assumes "distinct (map as_asset_key (db_assets d))" and "distinct (map rc_recipient_id (db_recipients d))"
    and "reconcile_ledger M file path aoEnv P bypass known D nowMs None d = Inr []"
  shows "\<exists>a. deriveAuthoritativeDeposits M (pp_sha P) file path aoEnv D (pp_antMintSecret P) nowMs = Inr a
     \<and> set (at_deposits a) = row_deposit ` set (available_rows d)
     \<and> length (at_deposits a) = length (available_rows d)
     \<and> sumMario (map (as_amount \<circ> fst) (available_rows d)) = 73277178580427
     \<and> (nowMs = 1783641600000 \<longrightarrow> length (available_rows d) = 10711)"
proof -
  obtain a where a: "deriveAuthoritativeDeposits M (pp_sha P) file path aoEnv D (pp_antMintSecret P) nowMs = Inr a"
    "rr_pass (reconcile (builtSetFromDb d) a 50)" "authoritative_fails a nowMs = []"
    "sumMario (map (bt_amount \<circ> snd) (builtSetFromDb d)) = sumMario (map (ax_amount \<circ> snd) (at_deposits a))"
    using gate_passes [OF assms(3)] by metis
  note ok = derive_ok [OF a(1)]
  note set = db_set_is_the_deposits [OF assms(1,2) ok a(2)]
  have "map (bt_amount \<circ> snd) (builtSetFromDb d) = map (as_amount \<circ> fst) (available_rows d)"
    unfolding builtSetFromDb_rows(1) [OF assms(1,2)] by (simp add: built_of_rows_def split: prod.split)
  moreover have "auth_total a = 73277178580427"
    using a(3) by (simp add: authoritative_fails_def checkVaultStakeMarioGate_def EXPECTED_GATE_def auth_total_def)
  moreover have "nowMs = 1783641600000 \<longrightarrow> counters_total (at_counters a) = 10711"
    using a(3) by (auto simp: authoritative_fails_def gateAppliesAt_def checkGate_def EXPECTED_GATE_def)
  ultimately show ?thesis using a(1,4) ok set by (auto simp: auth_ok_def)
qed

section \<open>The two derivations agree\<close>

text \<open>
  The imported modules behave as the functions of this repository that were copied from them, and
  the second derivation reads the files the planner has loaded.
\<close>

definition ported :: "auth_modules \<Rightarrow> plan_prims \<Rightarrow> bool" where
  "ported M P \<longleftrightarrow> axm_normalize M = normalizeSourceAddress \<and> axm_isEthereum M = isEthereumAddress
     \<and> axm_addressMap M = normalized_get
     \<and> axm_antMint M = deriveAntMintBase58 (pp_sha P) (pp_ed P) (pp_b58 P)
     \<and> axm_tokenAssetId M = deriveTokenAssetId (pp_sha P) \<and> axm_vaultAssetId M = deriveVaultAssetId (pp_sha P)
     \<and> axm_collect M = collectStakeWithdrawalEscrow \<and> axm_assertUnique M = assertUniqueAssetSeeds
     \<and> axm_fallsBack M = (\<lambda>n rem. vaultEscrowFallsBackToLiquid n (BigV rem))
     \<and> axm_minVaultSize M = MIN_VAULT_SIZE_MARIO \<and> axm_minVaultLock M = MIN_VAULT_LOCK_SECONDS"

definition reads_same :: "auth_inputs \<Rightarrow> plan_prims \<Rightarrow> frozen_inputs \<Rightarrow> bool" where
  "reads_same A P I \<longleftrightarrow> ported (ai_modules A) P \<and> ai_sha A = pp_sha P \<and> ai_secret A = pp_antMintSecret P
     \<and> ai_addressMap A = fi_addressMap I \<and> ai_modulus A = fi_modulus I \<and> set (ai_atRisk A) = set (fi_atRisk I)"

definition keys_known :: "frozen_inputs \<Rightarrow> plan_state \<Rightarrow> bool" where
  "keys_known I s \<longleftrightarrow> (\<forall>r \<in> set (ps_recipients s). \<forall>k.
     resolveRecipientPubkey I (pr_sourceAddress r) = Inr (Some k) \<longrightarrow> pr_recipientPubkey r = Some k)"

definition planned_deposit :: "frozen_inputs \<Rightarrow> planned_asset \<Rightarrow> auth_deposit" where
  "planned_deposit I p = \<lparr>ax_assetType = pl_assetType p, ax_assetKey = pl_assetKey p, ax_amount = pl_amount p,
     ax_recipientHex = (case resolveRecipientPubkey I (pl_recipientSource p) of Inr k \<Rightarrow> pub_hex k | Inl _ \<Rightarrow> [])\<rparr>"

definition planned_deposits :: "frozen_inputs \<Rightarrow> planned_asset list \<Rightarrow> (string \<times> auth_deposit) list" where
  "planned_deposits I ps = map (\<lambda>p. (pl_assetKey p, planned_deposit I p)) (filter (\<lambda>p. pl_status p = P_available) ps)"

definition resolved_all :: "frozen_inputs \<Rightarrow> planned_asset list \<Rightarrow> bool" where
  "resolved_all I ps \<longleftrightarrow> (\<forall>p \<in> set ps. pl_status p = P_available
     \<longrightarrow> (\<exists>k. resolveRecipientPubkey I (pl_recipientSource p) = Inr (Some k)))"

text \<open>The simulation relation between the states of the planner and of the second derivation.\<close>

definition tracks :: "plan_prims \<Rightarrow> frozen_inputs \<Rightarrow> int \<Rightarrow> plan_state \<Rightarrow> auth_state \<Rightarrow> bool" where
  "tracks P I nowS s a \<longleftrightarrow> plan_inv P I nowS s \<and> keys_known I s \<and> resolved_all I (ps_assets s)
     \<and> at_deposits a = planned_deposits I (ps_assets s) \<and> at_counters a = ps_counters s
     \<and> at_phase2 a = ps_phase2 s \<and> at_phase3 a = ps_phase3 s \<and> at_phase4 a = ps_phase4 s"

lemma resolve_normalize [simp]: "resolveRecipientPubkey I (normalizeSourceAddress owner) = resolveRecipientPubkey I owner"
  by (cases "isEthereumAddress owner") (simp_all add: resolveRecipientPubkey_def normalize_not_eth)

lemma upsert_known:
  assumes "upsertRecipient P owner pubkey s = Inr s1" and "keys_known I s"
    and "\<And>k. resolveRecipientPubkey I owner = Inr (Some k) \<Longrightarrow> pubkey = Some k \<or> recipients_has s (normalizeSourceAddress owner)"
  shows "keys_known I s1"
  using upsert_effect [OF assms(1)] assms(2,3) by (auto simp: keys_known_def recipients_set_def)

lemma recipient_agrees:
  assumes inv: "plan_inv P I nowS s" and known: "keys_known I s" and same: "reads_same A P I"
    and c: "classifyOwner P I owner s = Inr (st, s1)"
  obtains pub where "depositedRecipient A owner = Inr pub" "resolveRecipientPubkey I owner = Inr pub"
    "st = P_available \<longleftrightarrow> pub \<noteq> None"
proof -
  obtain pub where p: "resolveRecipientPubkey I owner = Inr pub" "st = P_available \<longleftrightarrow> pub \<noteq> None"
      "pub = None \<Longrightarrow> owner \<in> set (fi_atRisk I)"
    using classify_effect [OF c] by metis
  have A: "axm_isEthereum (ai_modules A) = isEthereumAddress" "axm_normalize (ai_modules A) = normalizeSourceAddress"
      "ai_modulus A = fi_modulus I" "set (ai_atRisk A) = set (fi_atRisk I)" "ai_sha A = pp_sha P"
    using same by (simp_all add: reads_same_def ported_def)
  have "auth_resolve A owner = Inr pub"
  proof (cases "isEthereumAddress owner \<or> \<not> truthy (map_of (fi_modulus I) owner)")
    case True
    then show ?thesis using p(1) by (auto simp: auth_resolve_def resolveRecipientPubkey_def A ethAddressBytes_def)
  next
    case False
    then obtain m where m: "map_of (fi_modulus I) owner = Some m" by (auto simp: truthy_def split: option.splits)
    have bs: "pub = Some (b64url_decode m)" "length (b64url_decode m) = 512"
      using p(1) False m by (auto simp: resolveRecipientPubkey_def Let_def split: if_splits)
    obtain r where r: "r \<in> set (ps_recipients s)" "pr_sourceAddress r = owner" "pr_status r = R_open"
      using inv map_of_SomeD [OF m] False unfolding plan_inv_def moduli_loaded_def by (auto simp: normalize_not_eth)
    have "pr_recipientPubkey r = pub" using known r p(1) bs(1) unfolding keys_known_def by blast
    moreover have "recipient_ok P I r" "pr_protocol r = 0"
      using inv r False by (simp_all add: plan_inv_def recipients_ok_def)
    ultimately have "deriveRecipientIdB64Url (pp_sha P) (b64url_decode m) = owner"
      using r(2) bs(1) by (auto simp: recipient_ok_def)
    then show ?thesis using False m bs
      by (simp add: auth_resolve_def A Let_def b64UrlNoPad_def deriveRecipientIdB64Url_def bytesToBase64UrlNoPad_def)
  qed
  then have "depositedRecipient A owner = Inr pub"
    using p(3) by (simp add: depositedRecipient_def A split: option.split)
  with p show thesis by (intro that)
qed

text \<open>
  A planned asset is a deposit of the second derivation exactly when it is available: \<open>mirrors\<close> is
  what holds after both have looked at its owner.
\<close>

definition mirrors :: "auth_inputs \<Rightarrow> frozen_inputs \<Rightarrow> string \<Rightarrow> planned_asset \<Rightarrow> plan_state \<Rightarrow> plan_state \<Rightarrow> auth_state \<Rightarrow> bytes option \<Rightarrow> bool" where
  "mirrors A I owner p s s2 a pub \<longleftrightarrow> depositedRecipient A owner = Inr pub
     \<and> (pl_status p = P_available \<longleftrightarrow> pub \<noteq> None) \<and> keys_known I s2 \<and> resolved_all I (ps_assets s2) \<and> ps_counters s2 = ps_counters s
     \<and> ps_phase2 s2 = ps_phase2 s \<and> ps_phase3 s2 = ps_phase3 s \<and> ps_phase4 s2 = ps_phase4 s
     \<and> pl_assetKey p \<notin> fst ` set (at_deposits a)
     \<and> planned_deposits I (ps_assets s2) = at_deposits a @ (case pub of None \<Rightarrow> []
         | Some k \<Rightarrow> [(pl_assetKey p, auth_deposit_of (pl_assetType p) (pl_assetKey p) (pl_amount p) k)])"

lemma mirrored:
  assumes tr: "tracks P I nowS s a" and same: "reads_same A P I"
    and c: "classifyOwner P I owner s = Inr (st, s1)" and push: "pushAsset p s1 = Inr s2"
    and p: "pl_status p = st" "pl_recipientSource p = normalizeSourceAddress owner"
  obtains pub where "mirrors A I owner p s s2 a pub"
proof -
  have inv: "plan_inv P I nowS s" "keys_known I s" "at_deposits a = planned_deposits I (ps_assets s)"
    using tr by (simp_all add: tracks_def)
  obtain pub where pub: "depositedRecipient A owner = Inr pub" "resolveRecipientPubkey I owner = Inr pub"
    "st = P_available \<longleftrightarrow> pub \<noteq> None" by (rule recipient_agrees [OF inv(1,2) same c])
  obtain pk where up: "upsertRecipient P owner pk s = Inr s1" "resolveRecipientPubkey I owner = Inr pk"
    by (rule classify_effect [OF c])
  have k1: "keys_known I s1" by (rule upsert_known [OF up(1) inv(2)]) (use up(2) in simp)
  have s1: "ps_assets s1 = ps_assets s" "ps_seenKeys s1 = ps_seenKeys s" "ps_counters s1 = ps_counters s"
    "ps_phase2 s1 = ps_phase2 s" "ps_phase3 s1 = ps_phase3 s" "ps_phase4 s1 = ps_phase4 s"
    using upsert_effect [OF up(1)] by (auto simp: recipients_set_def)
  have s2: "s2 = s1\<lparr>ps_seenKeys := pl_assetKey p # ps_seenKeys s, ps_assets := ps_assets s @ [p]\<rparr>"
    "pl_assetKey p \<notin> set (ps_seenKeys s)" using push s1 by (auto simp: pushAsset_def split: if_splits)
  have "set (ps_seenKeys s) = pl_assetKey ` set (ps_assets s)" using inv(1) by (simp add: plan_inv_def assets_ok_def)
  then have new: "pl_assetKey p \<notin> fst ` set (at_deposits a)"
    using s2(2) by (auto simp: inv(3) planned_deposits_def)
  have "planned_deposits I (ps_assets s2) = at_deposits a @ (case pub of None \<Rightarrow> []
      | Some k \<Rightarrow> [(pl_assetKey p, auth_deposit_of (pl_assetType p) (pl_assetKey p) (pl_amount p) k)])"
    using pub p by (cases pub) (simp_all add: s2(1) inv(3) planned_deposits_def planned_deposit_def auth_deposit_of_def pub_hex_def)
  moreover have "keys_known I s2" using k1 by (simp add: s2(1) keys_known_def)
  moreover have "resolved_all I (ps_assets s2)"
    using tr pub(2,3) p by (auto simp: s2(1) tracks_def resolved_all_def)
  ultimately show thesis using pub p s1 new by (intro that [of pub]) (simp add: mirrors_def s2(1))
qed

lemma keys_known_credit [simp]:
  "keys_known I (s\<lparr>ps_counters := c\<rparr>) = keys_known I s" "keys_known I (s\<lparr>ps_phase2 := n\<rparr>) = keys_known I s"
  "keys_known I (s\<lparr>ps_phase3 := n\<rparr>) = keys_known I s" "keys_known I (s\<lparr>ps_phase4 := n\<rparr>) = keys_known I s"
  by (simp_all add: keys_known_def)

text \<open>How a step of the second derivation follows one of the planner, once the asset is mirrored.\<close>

lemmas follow_simps = tracks_def mirrors_def credit_def auth_add_def auth_deposit_of_def

lemma mapped_same: "reads_same A P I \<Longrightarrow> is_mapped A addr = mapped I addr"
  by (simp add: reads_same_def ported_def is_mapped_def mapped_def)

lemma follow_ant:
  assumes st: "planAnt P I ant s = Inr s'" and tr: "tracks P I nowS s a" and same: "reads_same A P I"
  shows "\<exists>a'. authAnt A ant a = Inr a' \<and> tracks P I nowS s' a'"
proof (cases "mapped I (an_Owner ant)")
  case True
  then show ?thesis using st tr by (simp add: planAnt_def authAnt_def mapped_same [OF same])
next
  case False
  then obtain antMint status s1 s2 p where d:
    "deriveAntMintBase58 (pp_sha P) (pp_ed P) (pp_b58 P) (an_processId ant) (pp_antMintSecret P) = Inr antMint"
    "classifyOwner P I (an_Owner ant) s = Inr (status, s1)" "pushAsset p s1 = Inr s2"
    "pl_status p = status" "pl_recipientSource p = normalizeSourceAddress (an_Owner ant)"
    "pl_assetKey p = antMint" "pl_assetType p = AssetAnt" "pl_amount p = None"
    "s' = credit status (\<lambda>s. s\<lparr>ps_counters := (ps_counters s)\<lparr>mc_ant := mc_ant (ps_counters s) + 1\<rparr>\<rparr>) s2"
    using st by (auto simp: planAnt_def and_then_Inr)
  obtain pub where m: "mirrors A I (an_Owner ant) p s s2 a pub" by (rule mirrored [OF tr same d(2-5)])
  have "plan_inv P I nowS s'" using planAnt_advances [OF st] tr by (simp add: tracks_def advances_def)
  moreover have "axm_antMint (ai_modules A) (an_processId ant) (ai_secret A) = Inr antMint"
    using same d(1) by (simp add: reads_same_def ported_def)
  ultimately show ?thesis using m tr d(4-9) False
    by (cases pub) (auto simp: authAnt_def mapped_same [OF same] follow_simps)
qed

lemma follow_balance:
  assumes st: "planBalance P I e s = Inr s'" and tr: "tracks P I nowS s a" and same: "reads_same A P I"
  shows "\<exists>a'. authBalance A e a = Inr a' \<and> tracks P I nowS s' a'"
proof (cases "mapped I (fst e) \<or> snd e \<le> 0")
  case True
  then show ?thesis using st tr by (auto simp: planBalance_def authBalance_def Let_def mapped_same [OF same])
next
  case False
  then obtain amt status s1 s2 p where d:
    "bigint_of_number (snd e) = Inr amt"
    "classifyOwner P I (fst e) s = Inr (status, s1)" "pushAsset p s1 = Inr s2"
    "pl_status p = status" "pl_recipientSource p = normalizeSourceAddress (fst e)"
    "pl_assetKey p = hex_encode (deriveTokenAssetId (pp_sha P) (fst e))" "pl_assetType p = AssetToken" "pl_amount p = Some amt"
    "s' = credit status (\<lambda>s. s\<lparr>ps_counters := (ps_counters s)\<lparr>mc_tokenEscrowed := mc_tokenEscrowed (ps_counters s) + 1\<rparr>,
       ps_phase2 := ps_phase2 s + amt\<rparr>) s2"
    using st by (auto simp: planBalance_def and_then_Inr Let_def)
  obtain pub where m: "mirrors A I (fst e) p s s2 a pub" by (rule mirrored [OF tr same d(2-5)])
  have "plan_inv P I nowS s'" using planBalance_advances [OF st] tr by (simp add: tracks_def advances_def)
  moreover have "axm_tokenAssetId (ai_modules A) = deriveTokenAssetId (pp_sha P)"
    using same by (simp add: reads_same_def ported_def)
  ultimately show ?thesis using m tr d(1,4-9) False
    by (cases pub) (auto simp: authBalance_def Let_def mapped_same [OF same] follow_simps)
qed

lemma follow_vault:
  assumes st: "planVault P I nowMs owner e s = Inr s'" and tr: "tracks P I (nowMs div 1000) s a" and same: "reads_same A P I"
    and owner: "\<not> mapped I owner"
  shows "\<exists>a'. authVault A nowMs owner e a = Inr a' \<and> tracks P I (nowMs div 1000) s' a'"
proof -
  obtain amount where amt: "bigint_of_number (av_balance (snd e)) = Inr amount"
    using st by (auto simp: planVault_def and_then_Inr Let_def)
  show ?thesis
  proof (cases "amount \<le> 0")
    case True
    then show ?thesis using st tr amt by (simp add: planVault_def authVault_def Let_def)
  next
    case False
    define expired where "expired \<longleftrightarrow> av_endTimestamp (snd e) \<le> of_int nowMs"
    define lock where "lock = \<lceil>(av_endTimestamp (snd e) - of_int nowMs) / 1000\<rceil>"
    define ty where "ty = (if expired \<or> vaultEscrowFallsBackToLiquid amount (BigV lock) then AssetToken else AssetVault)"
    obtain status s1 s2 p where d:
      "classifyOwner P I owner s = Inr (status, s1)" "pushAsset p s1 = Inr s2"
      "pl_status p = status" "pl_recipientSource p = normalizeSourceAddress owner"
      "pl_assetKey p = hex_encode (deriveVaultAssetId (pp_sha P) owner (fst e))" "pl_assetType p = ty" "pl_amount p = Some amount"
      "s' = credit status (\<lambda>s. s\<lparr>ps_counters := (if expired
           then (ps_counters s)\<lparr>mc_tokenEscrowed := mc_tokenEscrowed (ps_counters s) + 1\<rparr>
           else (ps_counters s)\<lparr>mc_vaultEscrowed := mc_vaultEscrowed (ps_counters s) + 1\<rparr>),
         ps_phase3 := ps_phase3 s + amount\<rparr>) s2"
      using st amt False
      by (cases expired; cases "vaultEscrowFallsBackToLiquid amount (BigV lock)")
        (auto simp: planVault_def and_then_Inr Let_def ty_def expired_def lock_def)
    obtain pub where m: "mirrors A I owner p s s2 a pub" by (rule mirrored [OF tr same d(1-4)])
    have "plan_inv P I (nowMs div 1000) s'" using planVault_advances [OF st owner] tr by (simp add: tracks_def advances_def)
    moreover have M: "axm_vaultAssetId (ai_modules A) = deriveVaultAssetId (pp_sha P)"
      "axm_fallsBack (ai_modules A) amount lock = vaultEscrowFallsBackToLiquid amount (BigV lock)"
      using same by (simp_all add: reads_same_def ported_def)
    ultimately show ?thesis using m tr d(3-8) False amt
      by (cases pub; cases expired; cases "vaultEscrowFallsBackToLiquid amount (BigV lock)")
        (simp_all add: authVault_def Let_def follow_simps ty_def expired_def [symmetric] lock_def [symmetric])
  qed
qed

lemma stake_lock_same:
  assumes "reads_same A P I"
  shows "auth_stake_lock (ai_modules A) nowS v = stakeLockDuration nowS v"
proof -
  have gen: "prefix xs ys \<longleftrightarrow> take (length xs) ys = xs" for xs ys :: string
    by (metis append_eq_conv_conj prefixE take_is_prefix)
  have len: "length ''withdrawal:operator-exit:'' = 25" by simp
  note gen [of "''withdrawal:operator-exit:''", unfolded len]
  then show ?thesis
    using assms by (simp add: auth_stake_lock_def stakeLockDuration_def Let_def reads_same_def ported_def)
qed

lemma follow_stake:
  assumes st: "planStakeVault P I nowS e s = Inr s'" and tr: "tracks P I nowS s a" and same: "reads_same A P I"
  shows "\<exists>a'. authStakeVault A nowS e a = Inr a' \<and> tracks P I nowS s' a'"
proof -
  define falls where "falls = vaultEscrowFallsBackToLiquid (ed_amountMario e) (BigV (stakeLockDuration nowS e))"
  obtain status s1 s2 p where d:
    "classifyOwner P I (ed_arweaveAddr e) s = Inr (status, s1)" "pushAsset p s1 = Inr s2"
    "pl_status p = status" "pl_recipientSource p = normalizeSourceAddress (ed_arweaveAddr e)"
    "pl_assetKey p = hex_encode (deriveStakeAssetId (pp_sha P) (ed_assetIdSeed e))"
    "pl_assetType p = (if falls then AssetToken else AssetVault)" "pl_amount p = Some (ed_amountMario e)"
    "s' = credit_stake status (ed_amountMario e) s2"
    using st by (cases falls) (auto simp: planStakeVault_def and_then_Inr Let_def falls_def)
  obtain pub where m: "mirrors A I (ed_arweaveAddr e) p s s2 a pub" by (rule mirrored [OF tr same d(1-4)])
  have "plan_inv P I nowS s'" using planStakeVault_advances [OF st] tr by (simp add: tracks_def advances_def)
  moreover have "axm_fallsBack (ai_modules A) (ed_amountMario e) (stakeLockDuration nowS e) = falls" "ai_sha A = pp_sha P"
    using same by (simp_all add: reads_same_def ported_def falls_def)
  ultimately show ?thesis using m tr d(3-8)
    by (cases pub; cases falls)
      (simp_all add: authStakeVault_def Let_def follow_simps stake_lock_same [OF same] credit_stake_def count_stake_def
        sha256Hex_def deriveStakeAssetId_def sha256Utf8_def)
qed

lemma follow_liquid:
  assumes st: "planStakeLiquid P I e s = Inr s'" and tr: "tracks P I nowS s a" and same: "reads_same A P I"
  shows "\<exists>a'. authStakeLiquid A e a = Inr a' \<and> tracks P I nowS s' a'"
proof -
  obtain status s1 s2 p where d:
    "classifyOwner P I (ed_arweaveAddr e) s = Inr (status, s1)" "pushAsset p s1 = Inr s2"
    "pl_status p = status" "pl_recipientSource p = normalizeSourceAddress (ed_arweaveAddr e)"
    "pl_assetKey p = hex_encode (deriveStakeAssetId (pp_sha P) (ed_assetIdSeed e))"
    "pl_assetType p = AssetToken" "pl_amount p = Some (ed_amountMario e)"
    "s' = credit_stake status (ed_amountMario e) s2"
    using st by (auto simp: planStakeLiquid_def and_then_Inr Let_def)
  obtain pub where m: "mirrors A I (ed_arweaveAddr e) p s s2 a pub" by (rule mirrored [OF tr same d(1-4)])
  have "plan_inv P I nowS s'" using planStakeLiquid_advances [OF st] tr by (simp add: tracks_def advances_def)
  moreover have "ai_sha A = pp_sha P" using same by (simp add: reads_same_def)
  ultimately show ?thesis using m tr d(3-8)
    by (cases pub) (simp_all add: authStakeLiquid_def Let_def follow_simps credit_stake_def count_stake_def
        sha256Hex_def deriveStakeAssetId_def sha256Utf8_def)
qed

lemma fold_follows:
  assumes "fold_result f xs s = Inr s'" and "R s a"
    and "\<And>x s s' a. f x s = Inr s' \<Longrightarrow> R s a \<Longrightarrow> \<exists>a'. g x a = Inr a' \<and> R s' a'"
  shows "\<exists>a'. fold_result g xs a = Inr a' \<and> R s' a'"
  using assms(1,2)
proof (induction xs arbitrary: s a)
  case (Cons x xs)
  then obtain s1 where s1: "f x s = Inr s1" "fold_result f xs s1 = Inr s'" by (auto simp: and_then_Inr)
  obtain a1 where "g x a = Inr a1" "R s1 a1" using assms(3) [OF s1(1) Cons.prems(2)] by blast
  with Cons.IH [OF s1(2)] show ?case by simp
qed simp

lemma follow_owner:
  assumes st: "planOwnerVaults P I nowMs e s = Inr s'" and tr: "tracks P I (nowMs div 1000) s a" and same: "reads_same A P I"
  shows "\<exists>a'. authOwnerVaults A nowMs e a = Inr a' \<and> tracks P I (nowMs div 1000) s' a'"
proof (cases "mapped I (fst e)")
  case True
  then show ?thesis using st tr by (simp add: planOwnerVaults_def authOwnerVaults_def mapped_same [OF same])
next
  case False
  then have "fold_result (planVault P I nowMs (fst e)) (snd e) s = Inr s'" using st by (simp add: planOwnerVaults_def)
  from fold_follows [where R = "tracks P I (nowMs div 1000)", OF this tr follow_vault [OF _ _ same False]]
  show ?thesis using False by (simp add: authOwnerVaults_def mapped_same [OF same])
qed

text \<open>The recipients the planner loads before the phases.\<close>

lemma moduli_known:
  assumes "fold_result (\<lambda>(addr, m). upsertRecipient P addr (Some (b64url_decode m))) ms s = Inr s'" and "keys_known I s"
    and "\<forall>(addr, m) \<in> set ms. map_of (fi_modulus I) addr = Some m \<and> \<not> isEthereumAddress addr"
  shows "keys_known I s'"
  using assms
proof (induction ms arbitrary: s)
  case (Cons e ms)
  obtain addr m where e: "e = (addr, m)" by (cases e)
  with Cons.prems obtain s1 where s1: "upsertRecipient P addr (Some (b64url_decode m)) s = Inr s1"
    "fold_result (\<lambda>(addr, m). upsertRecipient P addr (Some (b64url_decode m))) ms s1 = Inr s'"
    by (auto simp: and_then_Inr)
  have "keys_known I s1"
    by (rule upsert_known [OF s1(1) Cons.prems(2)])
      (use Cons.prems(3) in \<open>auto simp: e resolveRecipientPubkey_def Let_def split: if_splits\<close>)
  from Cons.IH [OF s1(2) this] Cons.prems(3) show ?case by simp
qed simp

lemma loaded_known:
  assumes "planRecipients P I plan_start = Inr s" and "distinct (map fst (fi_modulus I))"
    and eth: "\<forall>addr \<in> set (fi_atRisk I) \<union> fst ` set (fi_modulus I). \<not> isEthereumAddress addr"
  shows "keys_known I s"
proof -
  obtain s1 where s1:
    "fold_result (\<lambda>(addr, m). upsertRecipient P addr (Some (b64url_decode m))) (fi_modulus I) plan_start = Inr s1"
    "fold_result (\<lambda>addr. upsertRecipient P addr None) (fi_atRisk I) s1 = Inr s"
    using assms(1) by (auto simp: planRecipients_def and_then_Inr)
  have ms: "\<forall>(addr, m) \<in> set (fi_modulus I). map_of (fi_modulus I) addr = Some m \<and> \<not> isEthereumAddress addr"
    using assms(2) eth by force
  have "keys_known I s1" by (rule moduli_known [OF s1(1) _ ms]) (simp add: keys_known_def plan_start_def)
  moreover have "load_inv P I plan_start" "all_open plan_start"
    by (simp_all add: load_inv_def recipients_ok_def plan_start_def all_open_def plan_credit_def)
  note load_moduli [OF s1(1) this]
  then have "\<forall>(addr, m) \<in> set (fi_modulus I). recipients_has s1 (normalizeSourceAddress addr)" by blast
  ultimately have "keys_known I s1 \<and> (\<forall>(addr, m) \<in> set (fi_modulus I). recipients_has s1 (normalizeSourceAddress addr))" by blast
  then have "keys_known I s \<and> (\<forall>(addr, m) \<in> set (fi_modulus I). recipients_has s (normalizeSourceAddress addr))"
  proof (rule fold_result_inv [where J = "\<lambda>s. keys_known I s \<and> (\<forall>(addr, m) \<in> set (fi_modulus I). recipients_has s (normalizeSourceAddress addr))", OF s1(2)])
    fix addr s s' assume x: "addr \<in> set (fi_atRisk I)"
      "keys_known I s \<and> (\<forall>(addr, m) \<in> set (fi_modulus I). recipients_has s (normalizeSourceAddress addr))"
      "upsertRecipient P addr None s = Inr s'"
    have "keys_known I s'"
      by (rule upsert_known [OF x(3)])
        (use x(1,2) eth in \<open>auto simp: resolveRecipientPubkey_def Let_def truthy_def split: if_splits option.splits dest!: map_of_SomeD\<close>)
    moreover have "recipients_has s b \<Longrightarrow> recipients_has s' b" for b
      using upsert_keeps(4) [OF x(3)] by (auto simp: recipients_has_def)
    ultimately show "keys_known I s' \<and> (\<forall>(addr, m) \<in> set (fi_modulus I). recipients_has s' (normalizeSourceAddress addr))"
      using x(2) by auto
  qed
  then show ?thesis by blast
qed

lemma planRecipients_start:
  assumes "planRecipients P I plan_start = Inr s"
  shows "ps_assets s = [] \<and> ps_counters s = ps_counters plan_start \<and> ps_phase2 s = 0 \<and> ps_phase3 s = 0 \<and> ps_phase4 s = 0"
proof -
  let ?J = "\<lambda>s. ps_assets s = [] \<and> ps_counters s = ps_counters plan_start \<and> ps_phase2 s = 0 \<and> ps_phase3 s = 0 \<and> ps_phase4 s = 0"
  have up: "?J s \<Longrightarrow> upsertRecipient P owner pk s = Inr s' \<Longrightarrow> ?J s'" for owner pk s s'
    using upsert_effect [of P owner pk s s'] by (auto simp: recipients_set_def)
  obtain s1 where s1:
    "fold_result (\<lambda>(addr, m). upsertRecipient P addr (Some (b64url_decode m))) (fi_modulus I) plan_start = Inr s1"
    "fold_result (\<lambda>addr. upsertRecipient P addr None) (fi_atRisk I) s1 = Inr s"
    using assms by (auto simp: planRecipients_def and_then_Inr)
  have "?J plan_start" by (simp add: plan_start_def)
  then have "?J s1" by (rule fold_result_inv [where J = ?J, OF s1(1)]) (unfold split_beta, rule up)
  then show ?thesis by (rule fold_result_inv [where J = ?J, OF s1(2)]) (rule up)
qed

lemma load_parts:
  assumes "loadFrozenInputs sha bypass known D = Inr I"
  obtains am md ar sm vs pl files where "fd_addressMap D = Some am" "fd_modulus D = Some md" "fd_atRisk D = Some ar"
    "fd_summary D = Some sm" "fd_vaults D = Some vs" "fd_plan D = Some pl" "fd_ants D = Some files"
    "fi_addressMap I = snd am" "fi_modulus I = snd md" "set (fi_atRisk I) = set (snd ar)"
    "fi_balances I = positive_balances (snd sm)" "fi_vaults I = snd vs" "fi_plan I = snd pl" "fi_ants I = ant_snapshots files"
  using assms by (auto simp: loadFrozenInputs_def req_file_def and_then_Inr Let_def split: option.splits)

lemma auth_balances_same: "auth_balances AO_PROCESS_ID sm = positive_balances sm"
  unfolding auth_balances_def positive_balances_def
proof (induction sm)
  case (Cons x sm)
  then show ?case by (cases x; cases "snd x") (simp_all add: map_filter_simps)
qed simp

lemma auth_ants_same: "auth_ants files = ant_snapshots files"
  by (simp add: auth_ants_def ant_snapshots_def)

lemma derivations_agree:
  assumes load: "loadFrozenInputs (pp_sha P) bypass known D = Inr I" and plan: "planState P I nowMs = Inr s"
    and guards: "assertSourceGuards file path aoEnv = Inr AO_PROCESS_ID" and M: "ported M P"
    and ms: "distinct (map fst (fi_modulus I))"
    and eth: "\<forall>addr \<in> set (fi_atRisk I) \<union> fst ` set (fi_modulus I). \<not> isEthereumAddress addr"
  shows "\<exists>a. deriveAuthoritativeDeposits M (pp_sha P) file path aoEnv D (pp_antMintSecret P) nowMs = Inr a
     \<and> tracks P I (nowMs div 1000) s a"
proof -
  let ?n = "nowMs div 1000"
  obtain am md ar sm vs pl files where D: "fd_addressMap D = Some am" "fd_modulus D = Some md" "fd_atRisk D = Some ar"
    "fd_summary D = Some sm" "fd_vaults D = Some vs" "fd_plan D = Some pl" "fd_ants D = Some files"
    "fi_addressMap I = snd am" "fi_modulus I = snd md" "set (fi_atRisk I) = set (snd ar)"
    "fi_balances I = positive_balances (snd sm)" "fi_vaults I = snd vs" "fi_plan I = snd pl" "fi_ants I = ant_snapshots files"
    by (rule load_parts [OF load])
  define A where "A = \<lparr>ai_modules = M, ai_sha = pp_sha P, ai_secret = pp_antMintSecret P, ai_addressMap = snd am,
     ai_modulus = snd md, ai_atRisk = snd ar\<rparr>"
  have same: "reads_same A P I" using M D by (simp add: reads_same_def A_def)
  obtain s0 s1 s2 s3 s4 S where s: "planRecipients P I plan_start = Inr s0"
    "fold_result (planAnt P I) (fi_ants I) s0 = Inr s1" "fold_result (planBalance P I) (fi_balances I) s1 = Inr s2"
    "fold_result (planOwnerVaults P I nowMs) (fi_vaults I) s2 = Inr s3"
    "collectStakeWithdrawalEscrow (fi_plan I) = Inr S" "assertUniqueAssetSeeds S = Inr ()"
    "fold_result (planStakeVault P I ?n) (es_vaults S) s3 = Inr s4"
    "fold_result (planStakeLiquid P I) (es_liquid S) s4 = Inr s"
    using plan by (auto simp: planState_def and_then_Inr)
  note f = fold_follows [where R = "tracks P I ?n"]
  have "ps_assets s0 = [] \<and> ps_counters s0 = ps_counters plan_start \<and> ps_phase2 s0 = 0 \<and> ps_phase3 s0 = 0 \<and> ps_phase4 s0 = 0"
    using planRecipients_start [OF s(1)] by simp
  then have t0: "tracks P I ?n s0 auth_start"
    using planRecipients_inv [OF s(1)] loaded_known [OF s(1) ms eth]
    by (simp add: tracks_def auth_start_def planned_deposits_def resolved_all_def plan_start_def)
  obtain a1 where a1: "fold_result (authAnt A) (auth_ants files) auth_start = Inr a1" "tracks P I ?n s1 a1"
    using f [where g = "authAnt A", OF s(2) t0] follow_ant [OF _ _ same] by (auto simp: D auth_ants_same)
  obtain a2 where a2: "fold_result (authBalance A) (auth_balances AO_PROCESS_ID (snd sm)) a1 = Inr a2" "tracks P I ?n s2 a2"
    using f [where g = "authBalance A", OF s(3) a1(2)] follow_balance [OF _ _ same] by (auto simp: D auth_balances_same)
  obtain a3 where a3: "fold_result (authOwnerVaults A nowMs) (snd vs) a2 = Inr a3" "tracks P I ?n s3 a3"
    using f [where g = "authOwnerVaults A nowMs", OF s(4) a2(2)] follow_owner [OF _ _ same] by (auto simp: D)
  obtain a4 where a4: "fold_result (authStakeVault A ?n) (es_vaults S) a3 = Inr a4" "tracks P I ?n s4 a4"
    using f [where g = "authStakeVault A ?n", OF s(7) a3(2)] follow_stake [OF _ _ same] by auto
  obtain a where a: "fold_result (authStakeLiquid A) (es_liquid S) a4 = Inr a" "tracks P I ?n s a"
    using f [where g = "authStakeLiquid A", OF s(8) a4(2)] follow_liquid [OF _ _ same] by auto
  have "axm_collect M (snd pl) = Inr S" "axm_assertUnique M S = Inr ()"
    using M s(5,6) D(13) by (simp_all add: ported_def)
  then have "auth_phases A D AO_PROCESS_ID nowMs = Inr a"
    using a1(1) a2(1) a3(1) a4(1) a(1) by (simp add: auth_phases_def auth_file_def D A_def)
  then show ?thesis using a(2) guards by (auto simp: deriveAuthoritativeDeposits_def auth_file_def D A_def)
qed

text \<open>The plan as the set that is compared.\<close>

lemma last_pair_wins:
  assumes "distinct (map key xs)" and "x \<in> set xs"
  shows "map_of (rev (map (\<lambda>x. (key x, val x)) xs)) (key x) = Some (val x)"
proof -
  have "distinct (map fst (rev (map (\<lambda>x. (key x, val x)) xs)))"
    using assms(1) by (simp add: rev_map [symmetric] o_def)
  then show ?thesis using assms(2) by (intro map_of_is_SomeI) auto
qed

lemma plan_set_is_the_deposits:
  assumes plan: "buildLedgerPlan P I now = Inr L" and s: "lp_recipients L = ps_recipients s" "lp_assets L = ps_assets s"
    and tr: "tracks P I nowS s a"
  shows "distinct (map fst (builtSetFromPlan L))" and "same_assets (builtSetFromPlan L) (at_deposits a)"
proof -
  let ?av = "filter (\<lambda>p. pl_status p = P_available) (lp_assets L)"
  define built where "built p = \<lparr>bt_assetType = pl_assetType p, bt_assetKey = pl_assetKey p, bt_amount = pl_amount p,
     bt_recipientHex = (case map_of (rev (map (\<lambda>r. (pr_sourceAddress r, pub_hex (pr_recipientPubkey r))) (lp_recipients L)))
        (pl_recipientSource p) of Some h \<Rightarrow> h | None \<Rightarrow> [])\<rparr>" for p :: planned_asset
  have inv: "recipients_ok P I s" "assets_ok I nowS s" "keys_known I s" "resolved_all I (ps_assets s)"
    using tr by (simp_all add: tracks_def plan_inv_def)
  have keys: "distinct (map pl_assetKey ?av)" using inv(2) by (simp add: s assets_ok_def distinct_map_filter)
  have b: "builtSetFromPlan L = map (\<lambda>p. (pl_assetKey p, built p)) ?av"
    unfolding builtSetFromPlan_def Let_def foldl_if built_def by (simp add: fill_distinct [OF keys])
  then show "distinct (map fst (builtSetFromPlan L))" using keys by (simp add: o_def)
  have "built_tuple (built p) = auth_tuple (planned_deposit I p)" if p: "p \<in> set ?av" for p
  proof -
    obtain k where k: "resolveRecipientPubkey I (pl_recipientSource p) = Inr (Some k)"
      using inv(4) p by (auto simp: s resolved_all_def)
    obtain r where r: "r \<in> set (lp_recipients L)" "pr_sourceAddress r = pl_recipientSource p"
      using inv(2) p by (auto simp: s assets_ok_def payable_to_def)
    have "pr_recipientPubkey r = Some k" using inv(3) r k by (simp add: s keys_known_def)
    moreover have "distinct (map pr_sourceAddress (lp_recipients L))" using inv(1) by (simp add: s recipients_ok_def)
    from last_pair_wins [OF this r(1), of "\<lambda>r. pub_hex (pr_recipientPubkey r)"]
    have "map_of (rev (map (\<lambda>r. (pr_sourceAddress r, pub_hex (pr_recipientPubkey r))) (lp_recipients L)))
       (pl_recipientSource p) = Some (pub_hex (pr_recipientPubkey r))" by (simp add: r(2))
    ultimately show ?thesis
      by (simp add: built_tuple_def auth_tuple_def built_def planned_deposit_def k)
  qed
  then have pairs: "map (\<lambda>p. (pl_assetKey p, built_tuple (built p))) ?av = map (\<lambda>p. (pl_assetKey p, auth_tuple (planned_deposit I p))) ?av"
    by (intro map_cong) simp_all
  have ad: "at_deposits a = map (\<lambda>p. (pl_assetKey p, planned_deposit I p)) ?av"
    using tr by (simp add: tracks_def planned_deposits_def s)
  show "same_assets (builtSetFromPlan L) (at_deposits a)"
    by (rule same_assetsI) (use pairs in \<open>simp add: b ad o_def\<close>)
qed

lemma same_assets_set:
  assumes "same_assets built auth" and "distinct (map fst built)" and "distinct (map fst auth)"
  shows "(\<lambda>e. (fst e, built_tuple (snd e))) ` set built = (\<lambda>e. (fst e, auth_tuple (snd e))) ` set auth"
proof -
  have "map_of (map (\<lambda>(k, b). (k, built_tuple b)) built) = map_of (map (\<lambda>(k, x). (k, auth_tuple x)) auth)"
    using assms(1) by (simp add: map_of_map same_assets_def fun_eq_iff)
  moreover have "distinct (map fst (map (\<lambda>(k, b). (k, built_tuple b)) built))"
    "distinct (map fst (map (\<lambda>(k, x). (k, auth_tuple x)) auth))"
    using assms(2,3) by (simp_all add: o_def split_beta)
  ultimately have "set (map (\<lambda>(k, b). (k, built_tuple b)) built) = set (map (\<lambda>(k, x). (k, auth_tuple x)) auth)"
    using map_of_inject_set by blast
  then show ?thesis by (simp add: split_beta)
qed

lemma sumMario_list: "sumMario (map g es) = (\<Sum>e \<leftarrow> es. case g e of Some n \<Rightarrow> n | None \<Rightarrow> 0)"
  by (induction es rule: rev_induct) (simp_all add: sumMario_def split: option.split)

lemma sumMario_sum:
  assumes "distinct (map fst es)"
  shows "sumMario (map (f \<circ> snd) es) = (\<Sum>e \<in> set es. case f (snd e) of Some n \<Rightarrow> n | None \<Rightarrow> 0)"
proof -
  have "distinct es" using assms by (simp add: distinct_map)
  then show ?thesis by (simp add: sumMario_list sum_list_distinct_conv_sum_set)
qed

lemma same_assets_total:
  assumes same: "same_assets built auth" and b: "distinct (map fst built)" and a: "distinct (map fst auth)"
  shows "sumMario (map (bt_amount \<circ> snd) built) = sumMario (map (ax_amount \<circ> snd) auth)"
proof -
  let ?amt = "\<lambda>t :: string \<times> asset_type \<times> int option \<times> string. case fst (snd (snd t)) of Some n \<Rightarrow> n | None \<Rightarrow> 0"
  have inj: "inj_on (\<lambda>e. (fst e, built_tuple (snd e))) (set built)" "inj_on (\<lambda>e. (fst e, auth_tuple (snd e))) (set auth)"
    using b a by (auto simp: inj_on_def distinct_map)
  have "sumMario (map (bt_amount \<circ> snd) built) = sum ?amt ((\<lambda>e. (fst e, built_tuple (snd e))) ` set built)"
    unfolding sum.reindex [OF inj(1)] by (simp add: sumMario_sum [OF b] built_tuple_def)
  also have "\<dots> = sum ?amt ((\<lambda>e. (fst e, auth_tuple (snd e))) ` set auth)"
    by (simp only: same_assets_set [OF same b a])
  also have "\<dots> = sumMario (map (ax_amount \<circ> snd) auth)"
    unfolding sum.reindex [OF inj(2)] by (simp add: sumMario_sum [OF a] auth_tuple_def)
  finally show ?thesis .
qed

lemma reconciled_report:
  assumes "distinct (map fst built)" and "same_assets built (at_deposits a)" and "auth_ok a"
  shows "report_fails (reconcile built a n) = []" and "rr_matched (reconcile built a n) = length (at_deposits a)"
proof -
  have d: "distinct (map fst (at_deposits a))" using assms(3) by (simp add: auth_ok_def)
  have p: "rr_pass (reconcile built a n)" using reconcile_is_exact [OF assms(1) d] assms(2) by blast
  show "report_fails (reconcile built a n) = []"
    using p same_assets_total [OF assms(2,1) d] by (simp add: report_fails_def reconcile_def Let_def)
  show "rr_matched (reconcile built a n) = length (at_deposits a)"
    using same_assets_compare [OF assms(2) d] by (simp add: reconcile_def Let_def)
qed

lemma plan_parts:
  assumes "buildLedgerPlan P I (Some nowMs) = Inr L"
  obtains s where "planState P I nowMs = Inr s" "lp_recipients L = ps_recipients s" "lp_assets L = ps_assets s"
    "lp_counters L = ps_counters s" "lp_phase2TokenOutflowMario L = ps_phase2 s"
    "lp_phase3VaultMario L = ps_phase3 s" "lp_phase4StakeMario L = ps_phase4 s"
  using assms by (auto simp: buildLedgerPlan_def and_then_Inr Let_def)

text \<open>
  C22. The two derivations are equivalent: whatever plan the builder makes of a directory of frozen
  inputs, the second derivation succeeds on it and reconciles with nothing to report - the same
  assets with the same types, amounts and keys, the same counters and the same three totals. It needs
  that the imported modules behave as the copies of them in this repository, that the source guards
  hold with the known AO process, and that no Ethereum address stands in the AT-RISK or modulus file.
\<close>

theorem plan_reconciles:
  assumes "loadFrozenInputs (pp_sha P) bypass known D = Inr I" and "buildLedgerPlan P I (Some nowMs) = Inr L"
    and "assertSourceGuards file path aoEnv = Inr AO_PROCESS_ID" and "ported M P"
    and "distinct (map fst (fi_modulus I))"
    and "\<forall>addr \<in> set (fi_atRisk I) \<union> fst ` set (fi_modulus I). \<not> isEthereumAddress addr"
  shows "\<exists>a. deriveAuthoritativeDeposits M (pp_sha P) file path aoEnv D (pp_antMintSecret P) nowMs = Inr a
     \<and> report_fails (reconcile (builtSetFromPlan L) a 50) = []
     \<and> rr_matched (reconcile (builtSetFromPlan L) a 50) = length (filter (\<lambda>p. pl_status p = P_available) (lp_assets L))
     \<and> at_counters a = lp_counters L \<and> at_phase2 a = lp_phase2TokenOutflowMario L
     \<and> at_phase3 a = lp_phase3VaultMario L \<and> at_phase4 a = lp_phase4StakeMario L"
proof -
  obtain s where s: "planState P I nowMs = Inr s" "lp_recipients L = ps_recipients s" "lp_assets L = ps_assets s"
    "lp_counters L = ps_counters s" "lp_phase2TokenOutflowMario L = ps_phase2 s"
    "lp_phase3VaultMario L = ps_phase3 s" "lp_phase4StakeMario L = ps_phase4 s"
    by (rule plan_parts [OF assms(2)])
  obtain a where a: "deriveAuthoritativeDeposits M (pp_sha P) file path aoEnv D (pp_antMintSecret P) nowMs = Inr a"
    "tracks P I (nowMs div 1000) s a"
    using derivations_agree [OF assms(1) s(1) assms(3-6)] by blast
  note same = plan_set_is_the_deposits [OF assms(2) s(2,3) a(2)]
  have ok: "auth_ok a" by (rule derive_ok [OF a(1)])
  show ?thesis
    using reconciled_report [OF same ok] a s by (auto simp: tracks_def planned_deposits_def)
qed

section \<open>Witnesses\<close>

text \<open>The copies in this repository as the modules, and a source that passes the guards.\<close>

definition port_modules :: "plan_prims \<Rightarrow> auth_modules" where
  "port_modules P = \<lparr>axm_normalize = normalizeSourceAddress, axm_isEthereum = isEthereumAddress, axm_addressMap = normalized_get,
     axm_antMint = deriveAntMintBase58 (pp_sha P) (pp_ed P) (pp_b58 P), axm_tokenAssetId = deriveTokenAssetId (pp_sha P),
     axm_vaultAssetId = deriveVaultAssetId (pp_sha P), axm_collect = collectStakeWithdrawalEscrow,
     axm_assertUnique = assertUniqueAssetSeeds, axm_fallsBack = (\<lambda>n rem. vaultEscrowFallsBackToLiquid n (BigV rem)),
     axm_minVaultSize = MIN_VAULT_SIZE_MARIO, axm_minVaultLock = MIN_VAULT_LOCK_SECONDS\<rparr>"

lemma port_modules_ported: "ported (port_modules P) P"
  by (simp add: ported_def port_modules_def)

definition guarded_head :: string where
  "guarded_head = (''process.env.AO_PROCESS_ID || '' @ [CHR 0x27]) @ AO_PROCESS_ID @ [CHR 0x27]"

definition guarded_source :: string where
  "guarded_source = guarded_head @ concat (map snd source_guards)"

lemma ao_default_here: "ao_default_at s = Some ao \<Longrightarrow> ao_default s = Some ao"
  by (cases s) (simp_all add: ao_default_at_def)

lemma sublist_concat: "x \<in> set xs \<Longrightarrow> sublist x (a @ concat xs)"
  using split_list [of x xs] by (auto simp: sublist_def) (metis append_assoc)

lemma guarded_source_ok: "assertSourceGuards (Some guarded_source) [] None = Inr AO_PROCESS_ID"
proof -
  have "length AO_PROCESS_ID = 43" "list_all ao_id_char AO_PROCESS_ID" by code_simp+
  then have "ao_default_at guarded_source = Some AO_PROCESS_ID"
    unfolding ao_default_at_def Let_def guarded_source_def guarded_head_def by simp
  then have "ao_default guarded_source = Some AO_PROCESS_ID" by (rule ao_default_here)
  moreover have "contains guarded_source (snd g)" if "g \<in> set source_guards" for g
    unfolding contains_def guarded_source_def by (rule sublist_concat) (use that in simp)
  then have "find (\<lambda>(name, needle). \<not> contains guarded_source needle) source_guards = None"
    by (auto simp: find_None_iff)
  ultimately show ?thesis by (simp add: assertSourceGuards_def truthy_def)
qed

definition risk_names :: "string list" where
  "risk_names = map (\<lambda>i. replicate i (CHR ''x'')) [1..<137]"

definition recon_artifact :: plan_artifact where
  "recon_artifact = \<lparr>pa_operatorEscrowVaults = [], pa_operatorLiquidEscrows = [], pa_delegatorEscrowVaults = [],
     pa_delegatorLiquidEscrows = [\<lparr>pe_arweaveAddr = ''AAID'', pe_key = ''k'', pe_amountMario = dec_int 4382868348396,
       pe_unlockTs = 0, pe_source = None\<rparr>], pa_escrowVaults = [], pa_liquidEscrows = []\<rparr>"

definition recon_dir :: frozen_dir where
  "recon_dir = \<lparr>fd_path = [], fd_addressMap = Some ([], []), fd_modulus = Some ([], [(''AAID'', b64url_encode demo_modulus)]),
     fd_atRisk = Some ([], risk_names), fd_summary = Some ([], [(''AAID'', Some 48264957232031)]),
     fd_vaults = Some ([], [(''AAID'', [(''v1'', \<lparr>av_balance = 20629353000000, av_endTimestamp = 0\<rparr>)])]),
     fd_plan = Some ([], recon_artifact), fd_ants = Some []\<rparr>"

lemma risk_names_facts:
  "distinct risk_names" "length risk_names = 136" "n \<in> set risk_names \<Longrightarrow> \<not> isEthereumAddress n" "n \<in> set risk_names \<Longrightarrow> n \<noteq> ''AAID''"
proof -
  have "inj (\<lambda>i. replicate i (CHR ''x''))" by (rule injI) (metis length_replicate)
  then show "distinct risk_names" by (simp add: risk_names_def distinct_map inj_on_def)
  show "length risk_names = 136" by (simp add: risk_names_def)
  assume "n \<in> set risk_names"
  then obtain i where n: "n = replicate i (CHR ''x'')" by (auto simp: risk_names_def)
  show "\<not> isEthereumAddress n" by (cases i; cases "i - 1") (auto simp: n isEthereumAddress_def)
  show "n \<noteq> ''AAID''" by (cases i) (auto simp: n)
qed

definition recon_inputs :: "(string \<times> string) list \<Rightarrow> frozen_inputs" where
  "recon_inputs fps = \<lparr>fi_addressMap = [], fi_modulus = [(''AAID'', b64url_encode demo_modulus)], fi_atRisk = risk_names,
     fi_balances = [(''AAID'', 48264957232031)],
     fi_vaults = [(''AAID'', [(''v1'', \<lparr>av_balance = 20629353000000, av_endTimestamp = 0\<rparr>)])], fi_ants = [],
     fi_plan = recon_artifact, fi_fingerprints = fps\<rparr>"

lemma recon_loaded: "\<exists>fps. loadFrozenInputs (pp_sha demo_plan_prims) True [] recon_dir = Inr (recon_inputs fps)"
proof -
  have "positive_balances [(''AAID'', Some 48264957232031)] = [(''AAID'', 48264957232031)]"
    by (simp add: positive_balances_def map_filter_simps AO_PROCESS_ID_def)
  moreover have "rev (remdups (rev risk_names)) = risk_names"
    using risk_names_facts(1) by (simp add: distinct_remdups_id)
  ultimately show ?thesis
    by (simp add: loadFrozenInputs_def recon_dir_def recon_inputs_def req_file_def assertKnownGoodFingerprints_def
        ant_snapshots_def Let_def)
qed

definition risk_row :: "string \<Rightarrow> planned_recipient" where
  "risk_row n = \<lparr>pr_sourceAddress = n, pr_protocol = 0, pr_recipientPubkey = None, pr_recipientId = n, pr_status = R_manual_review\<rparr>"

lemma risk_rows_loaded:
  assumes "distinct names" and "\<And>n. n \<in> set names \<Longrightarrow> \<not> isEthereumAddress n \<and> \<not> recipients_has s n"
  shows "fold_result (\<lambda>addr. upsertRecipient P addr None) names s = Inr (s\<lparr>ps_recipients := ps_recipients s @ map risk_row names\<rparr>)"
  using assms
proof (induction names arbitrary: s)
  case (Cons n names)
  have "upsertRecipient P n None s = Inr (recipients_set (risk_row n) s)"
    using Cons.prems(2) [of n] by (simp add: upsertRecipient_def risk_row_def normalize_not_eth)
  moreover have "fold_result (\<lambda>addr. upsertRecipient P addr None) names (recipients_set (risk_row n) s)
      = Inr ((recipients_set (risk_row n) s)\<lparr>ps_recipients := ps_recipients (recipients_set (risk_row n) s) @ map risk_row names\<rparr>)"
    by (rule Cons.IH) (use Cons.prems in \<open>auto simp: recipients_set_def recipients_has_def risk_row_def\<close>)
  ultimately show ?case by (simp add: recipients_set_def)
qed simp

definition recon_owner :: planned_recipient where
  "recon_owner = \<lparr>pr_sourceAddress = ''AAID'', pr_protocol = 0, pr_recipientPubkey = Some demo_modulus, pr_recipientId = ''AAID'',
     pr_status = R_open\<rparr>"

lemma recon_recipients:
  "planRecipients demo_plan_prims (recon_inputs fps) plan_start
     = Inr (plan_start\<lparr>ps_recipients := recon_owner # map risk_row risk_names\<rparr>)"
proof -
  have owner: "upsertRecipient demo_plan_prims ''AAID'' (Some (b64url_decode (b64url_encode demo_modulus))) plan_start
      = Inr (plan_start\<lparr>ps_recipients := [recon_owner]\<rparr>)"
    by (simp add: upsertRecipient_def not_eth normalizeSourceAddress_def b64url_decode_encode demo_recipient_id
        recipients_has_def recipients_set_def plan_start_def recon_owner_def Let_def)
  have "\<not> recipients_has (plan_start\<lparr>ps_recipients := [recon_owner]\<rparr>) n" if "n \<in> set risk_names" for n
    using risk_names_facts(4) [OF that] by (auto simp: recipients_has_def recon_owner_def)
  then show ?thesis
    using risk_rows_loaded [OF risk_names_facts(1), of "plan_start\<lparr>ps_recipients := [recon_owner]\<rparr>" demo_plan_prims] risk_names_facts(3)
    by (simp add: planRecipients_def recon_inputs_def owner)
qed

lemma recon_stake_set: "collectStakeWithdrawalEscrow recon_artifact = Inr \<lparr>es_vaults = [], es_liquid =
   [\<lparr>ed_arweaveAddr = ''AAID'', ed_assetIdSeed = ''stake-escrow-liquid:AAID:k'', ed_amountMario = 4382868348396,
     ed_unlockTs = None, ed_kind = ''k''\<rparr>]\<rparr>"
  by (simp add: collectStakeWithdrawalEscrow_def recon_artifact_def stake_deposit_def big_of_string_def js_BigInt_dec_int
      normalizeSourceAddress_def not_eth)

definition recon_asset :: "string \<Rightarrow> int \<Rightarrow> asset_source \<Rightarrow> planned_asset" where
  "recon_asset key amount src = \<lparr>pl_assetKey = key, pl_assetType = AssetToken, pl_recipientSource = ''AAID'', pl_antMint = None,
     pl_amount = Some amount, pl_vaultEndTs = None, pl_status = P_available, pl_source = src\<rparr>"

lemma recon_ids:
  "hex_encode (deriveTokenAssetId (pp_sha demo_plan_prims) ''AAID'') = ''110203''"
  "hex_encode (deriveVaultAssetId (pp_sha demo_plan_prims) ''AAID'' ''v1'') = ''140203''"
  "hex_encode (deriveStakeAssetId (pp_sha demo_plan_prims) ''stake-escrow-liquid:AAID:k'') = ''1a0203''"
  by code_simp+

lemma recon_classified:
  "classifyOwner demo_plan_prims (recon_inputs fps) ''AAID'' s = Inr (P_available, s)" if "recon_owner \<in> set (ps_recipients s)"
proof -
  have "recipients_has s ''AAID''"
    unfolding recipients_has_def by (rule bexI [OF _ that]) (simp add: recon_owner_def)
  then show ?thesis
    by (simp add: classifyOwner_def resolveRecipientPubkey_def recon_inputs_def not_eth truthy_def b64url_decode_encode
        upsertRecipient_def normalizeSourceAddress_def Let_def)
qed

lemma recon_state:
  "\<exists>s src1 src2 src3. planState demo_plan_prims (recon_inputs fps) 1000000 = Inr s
     \<and> ps_recipients s = recon_owner # map risk_row risk_names
     \<and> ps_assets s = [recon_asset ''110203'' 48264957232031 src1, recon_asset ''140203'' 20629353000000 src2,
         recon_asset ''1a0203'' 4382868348396 src3]
     \<and> ps_phase2 s = 48264957232031 \<and> ps_phase3 s = 20629353000000 \<and> ps_phase4 s = 4382868348396"
proof -
  have I: "fi_balances (recon_inputs fps) = [(''AAID'', 48264957232031)]" "fi_ants (recon_inputs fps) = []"
    "fi_vaults (recon_inputs fps) = [(''AAID'', [(''v1'', \<lparr>av_balance = 20629353000000, av_endTimestamp = 0\<rparr>)])]"
    "\<not> mapped (recon_inputs fps) a" "fi_plan (recon_inputs fps) = recon_artifact" for a
    by (simp_all add: recon_inputs_def mapped_def normalized_get_def normalizeAddressMapKeys_def truthy_def)
  show ?thesis
    unfolding planState_def recon_recipients I recon_stake_set
    by (simp add: planBalance_def planOwnerVaults_def planVault_def planStakeLiquid_def I recon_classified
        pushAsset_def bigint_of_number_def credit_def credit_stake_def recon_ids plan_start_def recon_asset_def
        normalizeSourceAddress_def not_eth assertUniqueAssetSeeds_def Let_def)
qed

lemma recon_plan:
  "\<exists>fps L. loadFrozenInputs (pp_sha demo_plan_prims) True [] recon_dir = Inr (recon_inputs fps)
     \<and> buildLedgerPlan demo_plan_prims (recon_inputs fps) (Some 1000000) = Inr L
     \<and> map (\<lambda>p. (pl_assetKey p, pl_assetType p, pl_amount p, pl_status p, pl_recipientSource p)) (lp_assets L)
         = [(''110203'', AssetToken, Some 48264957232031, P_available, ''AAID''),
            (''140203'', AssetToken, Some 20629353000000, P_available, ''AAID''),
            (''1a0203'', AssetToken, Some 4382868348396, P_available, ''AAID'')]
     \<and> lp_recipients L = recon_owner # map risk_row risk_names \<and> lp_atRiskRecipientCount L = 136
     \<and> lp_phase2TokenOutflowMario L = 48264957232031 \<and> lp_phase3VaultMario L = 20629353000000
     \<and> lp_phase4StakeMario L = 4382868348396"
proof -
  obtain fps where I: "loadFrozenInputs (pp_sha demo_plan_prims) True [] recon_dir = Inr (recon_inputs fps)"
    using recon_loaded by blast
  obtain s :: plan_state and src1 src2 src3 where s: "planState demo_plan_prims (recon_inputs fps) 1000000 = Inr s"
    "ps_recipients s = recon_owner # map risk_row risk_names"
    "ps_assets s = [recon_asset ''110203'' 48264957232031 src1, recon_asset ''140203'' 20629353000000 src2,
       recon_asset ''1a0203'' 4382868348396 src3]"
    "ps_phase2 s = 48264957232031" "ps_phase3 s = 20629353000000" "ps_phase4 s = 4382868348396"
    using recon_state [of fps] by (elim exE conjE)
  moreover have "length (filter (\<lambda>r. pr_status r = R_manual_review) (recon_owner # map risk_row risk_names)) = 136"
    by (simp add: recon_owner_def risk_row_def filter_map o_def risk_names_facts(2))
  ultimately show ?thesis using I by (intro exI [of _ fps]) (simp add: buildLedgerPlan_def recon_asset_def)
qed

lemma recon_moduli:
  "distinct (map fst (fi_modulus (recon_inputs fps)))"
  "\<forall>addr \<in> set (fi_atRisk (recon_inputs fps)) \<union> fst ` set (fi_modulus (recon_inputs fps)). \<not> isEthereumAddress addr"
  using risk_names_facts(3) by (auto simp: recon_inputs_def not_eth)

theorem plan_reconciles_witness:
  "\<exists>I L a. loadFrozenInputs (pp_sha demo_plan_prims) True [] recon_dir = Inr I
     \<and> buildLedgerPlan demo_plan_prims I (Some 1000000) = Inr L
     \<and> deriveAuthoritativeDeposits (port_modules demo_plan_prims) (pp_sha demo_plan_prims) (Some guarded_source) [] None
         recon_dir (pp_antMintSecret demo_plan_prims) 1000000 = Inr a
     \<and> rr_matched (reconcile (builtSetFromPlan L) a 50) = 3 \<and> at_phase2 a = 48264957232031"
proof -
  obtain fps and L :: ledger_plan where r: "loadFrozenInputs (pp_sha demo_plan_prims) True [] recon_dir = Inr (recon_inputs fps)"
    "buildLedgerPlan demo_plan_prims (recon_inputs fps) (Some 1000000) = Inr L"
    "map (\<lambda>p. (pl_assetKey p, pl_assetType p, pl_amount p, pl_status p, pl_recipientSource p)) (lp_assets L)
         = [(''110203'', AssetToken, Some 48264957232031, P_available, ''AAID''),
            (''140203'', AssetToken, Some 20629353000000, P_available, ''AAID''),
            (''1a0203'', AssetToken, Some 4382868348396, P_available, ''AAID'')]"
    "lp_phase2TokenOutflowMario L = 48264957232031"
    using recon_plan by (elim exE conjE)
  have "length (filter (\<lambda>p. pl_status p = P_available) (lp_assets L))
      = length (filter (\<lambda>t. fst (snd (snd (snd t))) = P_available)
          (map (\<lambda>p. (pl_assetKey p, pl_assetType p, pl_amount p, pl_status p, pl_recipientSource p)) (lp_assets L)))"
    by (simp add: filter_map o_def)
  also have "\<dots> = 3" unfolding r(3) by simp
  finally show ?thesis
    using plan_reconciles [OF r(1,2) guarded_source_ok port_modules_ported recon_moduli] r by metis
qed

text \<open>The database after this plan was written: three rows and their recipient.\<close>

definition recon_row :: "string \<times> asset_type \<times> int option \<times> planned_status \<times> string \<Rightarrow> asset_row" where
  "recon_row t = (case t of (key, ty, amount, st, src) \<Rightarrow>
     \<lparr>as_asset_key = key, as_asset_type = ty, as_ant_mint = None, as_ant_name = None, as_amount = amount, as_vault_end_ts = None,
      as_nonce = replicate 32 0, as_status = planned_asset_status st, as_recipient_id = src\<rparr>)"

definition recon_db :: db where
  "recon_db = \<lparr>db_recipients = [recipient_insert_row recon_owner],
     db_assets = map recon_row [(''110203'', AssetToken, Some 48264957232031, P_available, ''AAID''),
            (''140203'', AssetToken, Some 20629353000000, P_available, ''AAID''),
            (''1a0203'', AssetToken, Some 4382868348396, P_available, ''AAID'')],
     db_claims = [], db_audit = [], db_ant_batches = []\<rparr>"

lemma recon_db_keys: "distinct (map as_asset_key (db_assets recon_db))" "distinct (map rc_recipient_id (db_recipients recon_db))"
  by (simp_all add: recon_db_def recon_row_def)

lemma recon_available: "length (available_rows recon_db) = 3"
  by (simp add: available_rows_def recon_db_def recon_row_def recipient_insert_row_def recon_owner_def)

lemma recon_db_set:
  "builtSetFromDb recon_db = map (\<lambda>(key, amount). (key, \<lparr>bt_assetType = AssetToken, bt_assetKey = key, bt_amount = Some amount,
       bt_recipientHex = hex_encode demo_modulus\<rparr>))
     [(''110203'', 48264957232031), (''140203'', 20629353000000), (''1a0203'', 4382868348396)]"
  unfolding builtSetFromDb_rows(1) [OF recon_db_keys]
  by (simp add: available_rows_def recon_db_def recon_row_def recipient_insert_row_def recon_owner_def built_of_rows_def pub_hex_def)

lemma recon_same:
  assumes "planned_deposits (recon_inputs fps) ps = at_deposits a"
    and "map (\<lambda>p. (pl_assetKey p, pl_assetType p, pl_amount p, pl_status p, pl_recipientSource p)) ps
         = [(''110203'', AssetToken, Some 48264957232031, P_available, ''AAID''),
            (''140203'', AssetToken, Some 20629353000000, P_available, ''AAID''),
            (''1a0203'', AssetToken, Some 4382868348396, P_available, ''AAID'')]"
  shows "same_assets (builtSetFromDb recon_db) (at_deposits a)"
proof -
  have r: "resolveRecipientPubkey (recon_inputs fps) ''AAID'' = Inr (Some demo_modulus)"
    by (simp add: resolveRecipientPubkey_def recon_inputs_def not_eth truthy_def b64url_decode_encode)
  obtain x y z where ps: "ps = [x, y, z]" using assms(2) unfolding map_eq_Cons_conv map_is_Nil_conv by blast
  note f = assms(2) [unfolded ps, simplified]
  have "at_deposits a = map (\<lambda>(key, amount). (key, \<lparr>ax_assetType = AssetToken, ax_assetKey = key, ax_amount = Some amount,
       ax_recipientHex = hex_encode demo_modulus\<rparr>))
     [(''110203'', 48264957232031), (''140203'', 20629353000000), (''1a0203'', 4382868348396)]"
    unfolding assms(1) [symmetric] ps using f by (simp add: planned_deposits_def planned_deposit_def r pub_hex_def)
  then show ?thesis by (intro same_assetsI) (simp add: recon_db_set built_tuple_def auth_tuple_def)
qed

lemma recon_gate: "reconcile_ledger (port_modules demo_plan_prims) (Some guarded_source) [] None demo_plan_prims True [] recon_dir
    1000000 None recon_db = Inr []"
proof -
  obtain fps and L :: ledger_plan where r: "loadFrozenInputs (pp_sha demo_plan_prims) True [] recon_dir = Inr (recon_inputs fps)"
    "buildLedgerPlan demo_plan_prims (recon_inputs fps) (Some 1000000) = Inr L"
    "map (\<lambda>p. (pl_assetKey p, pl_assetType p, pl_amount p, pl_status p, pl_recipientSource p)) (lp_assets L)
         = [(''110203'', AssetToken, Some 48264957232031, P_available, ''AAID''),
            (''140203'', AssetToken, Some 20629353000000, P_available, ''AAID''),
            (''1a0203'', AssetToken, Some 4382868348396, P_available, ''AAID'')]"
    "lp_atRiskRecipientCount L = 136" "lp_phase2TokenOutflowMario L = 48264957232031"
    "lp_phase3VaultMario L = 20629353000000" "lp_phase4StakeMario L = 4382868348396"
    using recon_plan by (elim exE conjE)
  obtain s :: plan_state where s: "planState demo_plan_prims (recon_inputs fps) 1000000 = Inr s" "lp_assets L = ps_assets s"
    "ps_phase2 s = lp_phase2TokenOutflowMario L" "ps_phase3 s = lp_phase3VaultMario L" "ps_phase4 s = lp_phase4StakeMario L"
    using plan_parts [OF r(2)] by metis
  obtain a where a: "deriveAuthoritativeDeposits (port_modules demo_plan_prims) (pp_sha demo_plan_prims) (Some guarded_source) [] None
       recon_dir (pp_antMintSecret demo_plan_prims) 1000000 = Inr a" "tracks demo_plan_prims (recon_inputs fps) (1000000 div 1000) s a"
    using derivations_agree [OF r(1) s(1) guarded_source_ok port_modules_ported recon_moduli] by blast
  have "same_assets (builtSetFromDb recon_db) (at_deposits a)"
    by (rule recon_same [OF _ r(3)]) (use a(2) s(2) in \<open>simp add: tracks_def\<close>)
  from reconciled_report(1) [OF builtSetFromDb_rows(2) [OF recon_db_keys] this derive_ok [OF a(1)]]
  have rep: "report_fails (reconcile (builtSetFromDb recon_db) a 50) = []" .
  have "authoritative_fails a 1000000 = []" "plan_fails L 1000000 = []" 
    using a(2) r(4-7) s(3-5)
    by (simp_all add: authoritative_fails_def plan_fails_def checkVaultStakeMarioGate_def gateAppliesAt_def EXPECTED_GATE_def tracks_def)
  moreover have "builtSetFromDb recon_db \<noteq> []" by (simp add: recon_db_set)
  ultimately show ?thesis
    using rep by (simp add: reconcile_ledger_def a(1) r(1,2) to_lower_def lower_char_def Let_def)
qed

theorem gate_pins_the_ledger_witness:
  "\<exists>a. deriveAuthoritativeDeposits (port_modules demo_plan_prims) (pp_sha demo_plan_prims) (Some guarded_source) [] None recon_dir
       (pp_antMintSecret demo_plan_prims) 1000000 = Inr a
     \<and> set (at_deposits a) = row_deposit ` set (available_rows recon_db) \<and> length (at_deposits a) = 3
     \<and> sumMario (map (as_amount \<circ> fst) (available_rows recon_db)) = 73277178580427"
  using gate_pins_the_ledger [OF recon_db_keys recon_gate] recon_available by metis
end
