(* ===== verification/Dispatch_Reports.thy ===== *)
theory Dispatch_Reports
  imports Dispatch_Core Instructions "HOL-Library.AList"
begin

text \<open>
  What is read back of dispatch: the reconciliation after it (\<open>dispatch/reconcile-dispatch.ts\<close>), the
  operator's queue of vaults to deliver by hand (\<open>dispatch/vault-manual-queue.ts\<close>), the vault durations
  of the on-chain configuration (\<open>dispatch/ario-config.ts\<close>) and the name of an ANT on chain
  (\<open>dispatch/mpl-core-name.ts\<close>). A \<open>SELECT\<close> without an order is read in the order of the table; an
  em dash is written as a hyphen.
\<close>

section \<open>Reconciliation after dispatch\<close>

record dispatch_report =
  dp_ok :: bool
  dp_confirmedClaims :: nat
  dp_claimedAssets :: nat
  dp_dispatchedTotalMario :: int
  dp_claimedTotalMario :: int
  dp_antConfirmed :: nat
  dp_issues :: "string list"

definition report_scope :: "string list option \<Rightarrow> string \<Rightarrow> bool" where
  "report_scope scope k = (case scope of None \<Rightarrow> True | Some ks \<Rightarrow> k \<in> set ks)"

text \<open>The confirmed claims, joined with their assets.\<close>

definition confirmed_claims :: "string list option \<Rightarrow> db \<Rightarrow> claim_row list" where
  "confirmed_claims scope d =
     filter (\<lambda>c. cl_status c = Confirmed \<and> report_scope scope (cl_asset_key c)) (db_claims d)"

definition confirmed_rows :: "string list option \<Rightarrow> db \<Rightarrow> (claim_row \<times> asset_row) list" where
  "confirmed_rows scope d =
     concat (map (\<lambda>c. map (Pair c) (filter (\<lambda>a. as_asset_key a = cl_asset_key c) (db_assets d)))
               (confirmed_claims scope d))"

definition amount_or_zero :: "int option \<Rightarrow> int" where
  "amount_or_zero v = (case v of None \<Rightarrow> 0 | Some n \<Rightarrow> n)"

definition row_issues :: "claim_row \<Rightarrow> asset_row \<Rightarrow> string list" where
  "row_issues c a =
     (if \<not> truthy (cl_dispatch_signature c)
      then [''confirmed claim '' @ cl_claim_id c @ '' has no recorded tx signature''] else [])
   @ (if as_status a \<noteq> A_claimed
      then [''confirmed claim '' @ cl_claim_id c @ '' but asset '' @ cl_asset_key c @ '' status=''
            @ asset_status_str (as_status a) @ '' (expected claimed)''] else [])
   @ (if as_asset_type a = AssetAnt
      then (case cl_settlement_amount c of
              None \<Rightarrow> []
            | Some v \<Rightarrow> if v = 0 then []
                else [''ANT claim '' @ cl_claim_id c @ '' carries a settlement_amount ('' @ dec_int v
                      @ ''); expected none''])
      else (case cl_settlement_amount c of
              None \<Rightarrow> [''confirmed token/vault claim '' @ cl_claim_id c @ '' has no settlement_amount'']
            | Some v \<Rightarrow> if v = amount_or_zero (as_amount a) then []
                else [''claim '' @ cl_claim_id c @ '': dispatched '' @ dec_int v @ '' != claimed ''
                      @ dec_int (amount_or_zero (as_amount a))]))"

record report_scan =
  sc_issues :: "string list"
  sc_dispatched :: int
  sc_claimed :: int
  sc_ants :: nat
  sc_seen :: "(string \<times> nat) list"

definition seen_again :: "string \<Rightarrow> (string \<times> nat) list \<Rightarrow> (string \<times> nat) list" where
  "seen_again k m = AList.update k ((case map_of m k of None \<Rightarrow> 0 | Some n \<Rightarrow> n) + 1) m"

definition scan_row :: "claim_row \<times> asset_row \<Rightarrow> report_scan \<Rightarrow> report_scan" where
  "scan_row row s =
     (let c = fst row; a = snd row; funds = (as_asset_type a \<noteq> AssetAnt \<and> cl_settlement_amount c \<noteq> None)
      in \<lparr>sc_issues = sc_issues s @ row_issues c a,
          sc_dispatched = (if funds then sc_dispatched s + the (cl_settlement_amount c) else sc_dispatched s),
          sc_claimed = (if funds then sc_claimed s + amount_or_zero (as_amount a) else sc_claimed s),
          sc_ants = (if as_asset_type a = AssetAnt then sc_ants s + 1 else sc_ants s),
          sc_seen = seen_again (cl_asset_key c) (sc_seen s)\<rparr>)"

definition double_issues :: "(string \<times> nat) list \<Rightarrow> string list" where
  "double_issues m =
     map (\<lambda>(k, n). ''asset '' @ k @ '' has '' @ dec_nat n @ '' confirmed claims (double-dispense!)'')
       (filter (\<lambda>(k, n). 1 < n) m)"

definition claimed_assets :: "string list option \<Rightarrow> db \<Rightarrow> asset_row list" where
  "claimed_assets scope d =
     filter (\<lambda>a. as_status a = A_claimed \<and> report_scope scope (as_asset_key a)) (db_assets d)"

definition orphan_issues :: "(string \<times> nat) list \<Rightarrow> asset_row list \<Rightarrow> string list" where
  "orphan_issues m as =
     map (\<lambda>a. ''asset '' @ as_asset_key a @ '' is claimed but has no confirmed claim (orphan)'')
       (filter (\<lambda>a. map_of m (as_asset_key a) = None) as)"

text \<open>\<open>entry ->> field\<close>: the text of a field of an audit row's object.\<close>

definition entry_text :: "string \<Rightarrow> json \<Rightarrow> string option" where
  "entry_text field e =
     (case e of
        JObj kvs \<Rightarrow> (case map_of kvs field of
            None \<Rightarrow> None | Some JNull \<Rightarrow> None | Some (JStr s) \<Rightarrow> Some s | Some v \<Rightarrow> Some (canonicalJson v))
      | _ \<Rightarrow> None)"

definition audit_count :: "db \<Rightarrow> string \<Rightarrow> string \<Rightarrow> nat" where
  "audit_count d cid ev =
     length (filter (\<lambda>r. entry_text ''claimId'' (ar_entry r) = Some cid \<and> entry_text ''event'' (ar_entry r) = Some ev)
               (db_audit d))"

definition audit_issues :: "db \<Rightarrow> claim_row \<Rightarrow> string list" where
  "audit_issues d c =
     (if audit_count d (cl_claim_id c) ''claim.dispatching'' < 1
      then [''confirmed claim '' @ cl_claim_id c @ '' missing a claim.dispatching audit row''] else [])
   @ (if audit_count d (cl_claim_id c) ''claim.confirmed'' < 1
      then [''confirmed claim '' @ cl_claim_id c @ '' missing a claim.confirmed audit row''] else [])"

definition reconcileDispatch :: "string list option \<Rightarrow> db \<Rightarrow> dispatch_report" where
  "reconcileDispatch scope d =
     (let rows = confirmed_rows scope d;
          s = fold scan_row rows \<lparr>sc_issues = [], sc_dispatched = 0, sc_claimed = 0, sc_ants = 0, sc_seen = []\<rparr>;
          claimed = claimed_assets scope d;
          issues = sc_issues s @ double_issues (sc_seen s) @ orphan_issues (sc_seen s) claimed
                   @ concat (map (audit_issues d) (confirmed_claims scope d))
      in \<lparr>dp_ok = (issues = []), dp_confirmedClaims = length rows, dp_claimedAssets = length claimed,
          dp_dispatchedTotalMario = sc_dispatched s, dp_claimedTotalMario = sc_claimed s,
          dp_antConfirmed = sc_ants s, dp_issues = issues\<rparr>)"

section \<open>Vaults delivered by hand\<close>

datatype delivery_kind = DeliverRelock | DeliverLiquidUnlocked

record delivery_item =
  vd_claimId :: string
  vd_assetKey :: string
  vd_claimant :: string
  vd_amountMario :: int
  vd_unlockTimestamp :: int
  vd_deliverKind :: delivery_kind
  vd_lockDurationSeconds :: int

record delivery_queue =
  vq_now :: int
  vq_items :: "delivery_item list"
  vq_totalMario :: int
  vq_relockCount :: nat
  vq_liquidUnlockedCount :: nat

definition delivery_item_of :: "int \<Rightarrow> claim_row \<Rightarrow> asset_row \<Rightarrow> delivery_item" where
  "delivery_item_of now c a =
     (let unlock = amount_or_zero (as_vault_end_ts a); remaining = unlock - now; isRelock = (remaining > 0)
      in \<lparr>vd_claimId = cl_claim_id c, vd_assetKey = cl_asset_key c, vd_claimant = cl_claimant c,
          vd_amountMario = amount_or_zero (as_amount a), vd_unlockTimestamp = unlock,
          vd_deliverKind = (if isRelock then DeliverRelock else DeliverLiquidUnlocked),
          vd_lockDurationSeconds = (if isRelock then remaining else 0)\<rparr>)"

text \<open>\<open>updatedAt\<close> is the column \<open>updated_at\<close>, which no other query reads.\<close>

definition vaultManualDeliveryQueue ::
  "(string \<Rightarrow> int) \<Rightarrow> string list option \<Rightarrow> int \<Rightarrow> db \<Rightarrow> delivery_queue" where
  "vaultManualDeliveryQueue updatedAt scope now d =
     (let rows = sort_key (\<lambda>r. updatedAt (cl_claim_id (fst r)))
            (concat (map (\<lambda>c. map (Pair c) (filter (\<lambda>a. as_asset_key a = cl_asset_key c) (db_assets d)))
               (filter (\<lambda>c. cl_status c = AwaitingManualVaultDelivery \<and> report_scope scope (cl_asset_key c))
                  (db_claims d))));
          items = map (\<lambda>r. delivery_item_of now (fst r) (snd r)) rows;
          relocks = length (filter (\<lambda>i. vd_deliverKind i = DeliverRelock) items)
      in \<lparr>vq_now = now, vq_items = items, vq_totalMario = sum_list (map vd_amountMario items),
          vq_relockCount = relocks, vq_liquidUnlockedCount = length items - relocks\<rparr>)"

section \<open>The vault durations on chain\<close>

definition MIN_VAULT_DURATION_OFFSET :: nat where "MIN_VAULT_DURATION_OFFSET = 168"
definition MAX_VAULT_DURATION_OFFSET :: nat where "MAX_VAULT_DURATION_OFFSET = 176"

record vault_durations =
  du_min :: int
  du_max :: int

definition decodeVaultDurations :: "bytes \<Rightarrow> string + vault_durations" where
  "decodeVaultDurations data =
     (if length data < MAX_VAULT_DURATION_OFFSET + 8
      then Inl (''ArioConfig account too short ('' @ dec_nat (length data)
                @ '' bytes) to decode vault durations (need >= '' @ dec_nat (MAX_VAULT_DURATION_OFFSET + 8) @ '')'')
      else Inr \<lparr>du_min = i64_value (take 8 (drop MIN_VAULT_DURATION_OFFSET data)),
                du_max = i64_value (take 8 (drop MAX_VAULT_DURATION_OFFSET data))\<rparr>)"

definition fetchArioConfigVaultDurations ::
  "kit \<Rightarrow> (string \<Rightarrow> ('w, bytes option) io) \<Rightarrow> string \<Rightarrow> ('w, string \<times> vault_durations) io" where
  "fetchArioConfigVaultDurations K getAccount core =
     (let config = deriveArioConfig K core in
      io_bind (getAccount config) (\<lambda>res.
      case res of
        None \<Rightarrow> (\<lambda>w. (Inl (''ArioConfig account '' @ config @ '' not found on-chain (ario-core program '' @ core @ '')''), w))
      | Some data \<Rightarrow>
          (case decodeVaultDurations data of
             Inl e \<Rightarrow> (\<lambda>w. (Inl e, w))
           | Inr v \<Rightarrow> io_return (config, v))))"

definition assertVaultDurationsMatchChain :: "vault_durations \<Rightarrow> vault_durations \<Rightarrow> string + unit" where
  "assertVaultDurationsMatchChain configured onChain =
     (if du_min configured \<noteq> du_min onChain \<or> du_max configured \<noteq> du_max onChain
      then Inl (''vault-duration mismatch - the worker'' @ [CHR 0x27] @ ''s configured min/max ('' @ dec_int (du_min configured) @ ''/''
                @ dec_int (du_max configured) @ ''s) do NOT equal the live on-chain ArioConfig ('' @ dec_int (du_min onChain)
                @ ''/'' @ dec_int (du_max onChain) @ ''s). A wrong min could misclassify a still-locked vault as liquid. ''
                @ ''Fix VAULT_MIN_DURATION_SECONDS / VAULT_MAX_DURATION_SECONDS to match on-chain before dispatching.'')
      else Inr ())"

section \<open>The name of an ANT on chain\<close>

definition KEY_ASSET_V1 :: nat where "KEY_ASSET_V1 = 1"

text \<open>\<open>toString("utf8")\<close> is the parameter \<open>utf8\<close>.\<close>

definition decodeMplCoreName :: "(bytes \<Rightarrow> string) \<Rightarrow> bytes \<Rightarrow> string + string" where
  "decodeMplCoreName utf8 buf =
     (if length buf < 1 then Inl ''empty account data''
      else let key = unat (buf ! 0) in
      if key \<noteq> KEY_ASSET_V1 then Inl (''not an MPL Core AssetV1 account (key='' @ dec_nat key @ '')'')
      else let off = 1 + 32 in
      if off + 1 > length buf then Inl ''truncated before update_authority''
      else let uaTag = unat (buf ! off); off = off + 1 in
      if uaTag \<noteq> 0 \<and> uaTag \<noteq> 1 \<and> uaTag \<noteq> 2 then Inl (''unknown update_authority variant '' @ dec_nat uaTag)
      else let off = (if uaTag = 0 then off else off + 32) in
      if off + 4 > length buf then Inl ''truncated before name length''
      else let nameLen = le_value (take 4 (drop off buf)); off = off + 4 in
      if off + nameLen > length buf then Inl (''name length '' @ dec_nat nameLen @ '' exceeds account data'')
      else Inr (utf8 (take nameLen (drop off buf))))"

definition decodeMplCoreNameFromBase64 :: "(bytes \<Rightarrow> string) \<Rightarrow> string \<Rightarrow> string + string" where
  "decodeMplCoreNameFromBase64 utf8 s = decodeMplCoreName utf8 (b64url_decode s)"

section \<open>What a clean report says\<close>

text \<open>
  The specification of a reconciled database: each confirmed claim settled its asset, with a signature
  on record and both transitions audited; no asset has two; no claimed asset has none.
\<close>

definition settled_right :: "claim_row \<Rightarrow> asset_row \<Rightarrow> bool" where
  "settled_right c a \<longleftrightarrow> truthy (cl_dispatch_signature c) \<and> as_status a = A_claimed
     \<and> (if as_asset_type a = AssetAnt then cl_settlement_amount c \<in> {None, Some 0}
        else cl_settlement_amount c = Some (amount_or_zero (as_amount a)))"

definition accounted_for :: "string list option \<Rightarrow> db \<Rightarrow> bool" where
  "accounted_for scope d \<longleftrightarrow>
     (\<forall>r \<in> set (confirmed_rows scope d). settled_right (fst r) (snd r))
   \<and> distinct (map (\<lambda>r. cl_asset_key (fst r)) (confirmed_rows scope d))
   \<and> (\<forall>a \<in> set (claimed_assets scope d). \<exists>r \<in> set (confirmed_rows scope d). cl_asset_key (fst r) = as_asset_key a)
   \<and> (\<forall>c \<in> set (confirmed_claims scope d).
        audit_count d (cl_claim_id c) ''claim.dispatching'' > 0 \<and> audit_count d (cl_claim_id c) ''claim.confirmed'' > 0)"

lemma row_issues_none: "row_issues c a = [] \<longleftrightarrow> settled_right c a"
  by (auto simp: row_issues_def settled_right_def split: option.splits)

lemma audit_issues_none:
  "audit_issues d c = [] \<longleftrightarrow>
     audit_count d (cl_claim_id c) ''claim.dispatching'' > 0 \<and> audit_count d (cl_claim_id c) ''claim.confirmed'' > 0"
  by (auto simp: audit_issues_def)

lemma scan_issues: "sc_issues (fold scan_row rows s) = sc_issues s @ concat (map (\<lambda>r. row_issues (fst r) (snd r)) rows)"
  by (induction rows arbitrary: s) (simp_all add: scan_row_def Let_def)

lemma scan_seen: "sc_seen (fold scan_row rows s) = fold seen_again (map (\<lambda>r. cl_asset_key (fst r)) rows) (sc_seen s)"
  by (induction rows arbitrary: s) (simp_all add: scan_row_def Let_def)

definition funds_row :: "claim_row \<times> asset_row \<Rightarrow> bool" where
  "funds_row r \<longleftrightarrow> as_asset_type (snd r) \<noteq> AssetAnt \<and> cl_settlement_amount (fst r) \<noteq> None"

lemma scan_totals:
  "sc_dispatched (fold scan_row rows s) =
     sc_dispatched s + sum_list (map (\<lambda>r. the (cl_settlement_amount (fst r))) (filter funds_row rows))"
  "sc_claimed (fold scan_row rows s) =
     sc_claimed s + sum_list (map (\<lambda>r. amount_or_zero (as_amount (snd r))) (filter funds_row rows))"
  by (induction rows arbitrary: s) (simp_all add: scan_row_def Let_def funds_row_def)

lemma seen_map: "map_of (fold seen_again ks m) k =
   (if k \<in> set ks then Some ((case map_of m k of None \<Rightarrow> 0 | Some n \<Rightarrow> n) + count_list ks k) else map_of m k)"
  by (induction ks arbitrary: m) (auto simp: seen_again_def update_conv' split: option.splits)

lemma seen_distinct: "distinct (map fst m) \<Longrightarrow> distinct (map fst (fold seen_again ks m))"
  by (induction ks arbitrary: m) (simp_all add: seen_again_def distinct_update)

lemma count_list_distinct: "(\<forall>k \<in> set ks. count_list ks k \<le> 1) \<longleftrightarrow> distinct ks"
proof (induction ks)
  case (Cons x ks)
  have "count_list ks x = 0 \<longleftrightarrow> x \<notin> set ks" by (rule count_list_0_iff)
  with Cons show ?case by (auto split: if_splits)
qed simp

lemma double_issues_none: "double_issues (fold seen_again ks []) = [] \<longleftrightarrow> distinct ks"
proof -
  let ?m = "fold seen_again ks []"
  have d: "distinct (map fst ?m)" by (rule seen_distinct) simp
  have "double_issues ?m = [] \<longleftrightarrow> (\<forall>k n. map_of ?m k = Some n \<longrightarrow> n \<le> 1)"
    by (fastforce simp: double_issues_def filter_empty_conv map_of_eq_Some_iff [OF d])
  also have "\<dots> \<longleftrightarrow> (\<forall>k \<in> set ks. count_list ks k \<le> 1)" by (auto simp: seen_map)
  finally show ?thesis unfolding count_list_distinct .
qed

lemma orphan_issues_none:
  "orphan_issues (fold seen_again ks []) as = [] \<longleftrightarrow> (\<forall>a \<in> set as. as_asset_key a \<in> set ks)"
  by (simp add: orphan_issues_def filter_empty_conv seen_map)

theorem reconcile_ok_iff: "dp_ok (reconcileDispatch scope d) \<longleftrightarrow> accounted_for scope d"
proof -
  let ?rows = "confirmed_rows scope d"
  have rows: "concat (map (\<lambda>r. row_issues (fst r) (snd r)) ?rows) = [] \<longleftrightarrow>
      (\<forall>r \<in> set ?rows. settled_right (fst r) (snd r))"
    by (simp only: concat_eq_Nil_conv set_map ball_simps row_issues_none)
  have audits: "concat (map (audit_issues d) (confirmed_claims scope d)) = [] \<longleftrightarrow>
      (\<forall>c \<in> set (confirmed_claims scope d). audit_count d (cl_claim_id c) ''claim.dispatching'' > 0
         \<and> audit_count d (cl_claim_id c) ''claim.confirmed'' > 0)"
    by (simp only: concat_eq_Nil_conv set_map ball_simps audit_issues_none)
  have seen: "as_asset_key a \<in> set (map (\<lambda>r. cl_asset_key (fst r)) ?rows) \<longleftrightarrow>
      (\<exists>r \<in> set ?rows. cl_asset_key (fst r) = as_asset_key a)" for a
    by (simp only: set_map image_iff eq_commute [of "as_asset_key a"])
  show ?thesis
    unfolding reconcileDispatch_def Let_def accounted_for_def dispatch_report.simps append_is_Nil_conv
      scan_issues scan_seen report_scan.simps append_Nil
    by (simp only: rows audits seen double_issues_none orphan_issues_none)
qed

lemma reconcile_totals:
  "dp_dispatchedTotalMario (reconcileDispatch scope d) =
     sum_list (map (\<lambda>r. the (cl_settlement_amount (fst r))) (filter funds_row (confirmed_rows scope d)))"
  "dp_claimedTotalMario (reconcileDispatch scope d) =
     sum_list (map (\<lambda>r. amount_or_zero (as_amount (snd r))) (filter funds_row (confirmed_rows scope d)))"
  by (simp_all add: reconcileDispatch_def Let_def scan_totals)

section \<open>The queue and the decoders\<close>

text \<open>
  Every vault awaiting delivery is in the queue once, whatever the order; a lock handed over ends
  exactly when the escrow's did, and a vault that has run out is never locked again.
\<close>

lemma joined_rows:
  assumes "db_inv d" and "\<forall>c \<in> set cs. c \<in> set (db_claims d) \<and> won (cl_status c)"
  shows "concat (map (\<lambda>c. map (Pair c) (filter (\<lambda>a. as_asset_key a = cl_asset_key c) (db_assets d))) cs)
     = map (\<lambda>c. (c, the (find_asset d (cl_asset_key c)))) cs"
proof -
  have one: "filter (\<lambda>a. as_asset_key a = k) as = [a]"
    if "distinct (map as_asset_key as)" "a \<in> set as" "as_asset_key a = k" for k as a
    using that
  proof (induction as)
    case (Cons x as)
    have "filter (\<lambda>a. as_asset_key a = k) as = []" if "as_asset_key x = k"
      using Cons.prems(1) that by (auto simp: filter_empty_conv) (metis image_eqI)
    with Cons show ?case by auto
  qed simp
  have "filter (\<lambda>a. as_asset_key a = cl_asset_key c) (db_assets d) = [the (find_asset d (cl_asset_key c))]"
    if "c \<in> set cs" for c
  proof -
    have inv: "claims_inv (db_claims d) (db_assets d)" using assms(1) by (simp add: db_inv_def)
    have c: "c \<in> set (db_claims d)" "won (cl_status c)" using assms(2) that by simp_all
    obtain a where a: "a \<in> set (db_assets d)" "holds_asset c a"
      using inv c unfolding claims_inv_def by metis
    have dist: "distinct (map as_asset_key (db_assets d))" using inv by (simp add: claims_inv_def)
    have k: "as_asset_key a = cl_asset_key c" using a(2) by (simp add: holds_asset_def)
    show ?thesis using one [OF dist a(1) k] row_find_distinct [OF dist a(1)] k by simp
  qed
  then show ?thesis by (induction cs) simp_all
qed

lemma sorted_rows_map: "sort_key f (map g xs) = map g (sort_key (\<lambda>x. f (g x)) xs)"
proof (induction xs)
  case (Cons x xs)
  have "insort_key f (g x) (map g ys) = map g (insort_key (\<lambda>x. f (g x)) x ys)" for ys by (induction ys) simp_all
  with Cons show ?case by simp
qed simp

lemma vault_queue_exact:
  assumes "db_inv d"
  shows "vq_items (vaultManualDeliveryQueue upd scope now d) =
    map (\<lambda>c. delivery_item_of now c (the (find_asset d (cl_asset_key c))))
      (sort_key (\<lambda>c. upd (cl_claim_id c))
        (filter (\<lambda>c. cl_status c = AwaitingManualVaultDelivery \<and> report_scope scope (cl_asset_key c)) (db_claims d)))"
proof -
  let ?cs = "filter (\<lambda>c. cl_status c = AwaitingManualVaultDelivery \<and> report_scope scope (cl_asset_key c)) (db_claims d)"
  have "\<forall>c \<in> set ?cs. c \<in> set (db_claims d) \<and> won (cl_status c)" by auto
  note j = joined_rows [OF assms this]
  show ?thesis
    unfolding vaultManualDeliveryQueue_def Let_def delivery_queue.simps j sorted_rows_map by simp
qed

lemma relock_keeps_unlock:
  assumes "i \<in> set (vq_items (vaultManualDeliveryQueue upd scope now d))"
  shows "if vd_deliverKind i = DeliverRelock then now < vd_unlockTimestamp i
           \<and> now + vd_lockDurationSeconds i = vd_unlockTimestamp i
         else vd_unlockTimestamp i \<le> now \<and> vd_lockDurationSeconds i = 0"
  using assms by (auto simp: vaultManualDeliveryQueue_def Let_def delivery_item_of_def split: if_splits)

lemma decodeVaultDurations_layout:
  assumes "length pre = 168" and "- (2 ^ 63) \<le> mn" "mn < 2 ^ 63" and "- (2 ^ 63) \<le> mx" "mx < 2 ^ 63"
  shows "decodeVaultDurations (pre @ i64_bytes mn @ i64_bytes mx @ rest) = Inr \<lparr>du_min = mn, du_max = mx\<rparr>"
  using assms by (simp add: decodeVaultDurations_def MIN_VAULT_DURATION_OFFSET_def MAX_VAULT_DURATION_OFFSET_def
      i64_value_bytes)

text \<open>The layout of an \<open>AssetV1\<close>: the name is read back, whatever follows it.\<close>

definition asset_v1 :: "bytes \<Rightarrow> bytes option \<Rightarrow> byte \<Rightarrow> bytes \<Rightarrow> bytes" where
  "asset_v1 owner authority tag name =
     1 # owner @ (case authority of None \<Rightarrow> [0] | Some a \<Rightarrow> tag # a) @ le_bytes 4 (length name) @ name"

lemma decodeMplCoreName_layout:
  assumes "length owner = 32" and "\<forall>a. authority = Some a \<longrightarrow> length a = 32 \<and> tag \<in> {1, 2}"
    and "length name < 2 ^ 32"
  shows "decodeMplCoreName utf8 (asset_v1 owner authority tag name @ rest) = Inr (utf8 name)"
proof -
  have len: "le_value (le_bytes 4 (length name)) = length name" using assms(3) by (intro le_value_bytes) simp
  show ?thesis
  proof (cases authority)
    case None
    then show ?thesis using assms(1) len
      by (simp add: decodeMplCoreName_def asset_v1_def KEY_ASSET_V1_def Let_def nth_append nth_Cons)
  next
    case (Some a)
    then have "length a = 32" "tag = 1 \<or> tag = 2" using assms(2) by auto
    then show ?thesis using assms(1) len Some
      by (auto simp: decodeMplCoreName_def asset_v1_def KEY_ASSET_V1_def Let_def nth_append nth_Cons)
  qed
qed

end
