(* ===== verification/Dispatch_Books.thy ===== *)
theory Dispatch_Books
  imports Worker_Runs Dispatch_Reports
begin

text \<open>
  The books of dispatch. Along every history of the worker, whatever the chain and the database do, the
  report of \<open>Dispatch_Reports\<close> is clean. The invariant says what the tables record of a claim once it has
  a signature, and once it is confirmed.
\<close>

section \<open>The invariant\<close>

text \<open>What a dispatch of a claim records as its amount: none for an ANT, else the amount of the asset.\<close>

definition recorded_amount :: "asset_row \<Rightarrow> int option \<Rightarrow> bool" where
  "recorded_amount a v \<longleftrightarrow> v = (if as_asset_type a = AssetAnt then None else Some (amount_or_zero (as_amount a)))"

definition booked :: "db \<Rightarrow> claim_row \<Rightarrow> bool" where
  "booked d c \<longleftrightarrow>
     (truthy (cl_dispatch_signature c) \<longrightarrow>
        (\<exists>a. find_asset d (cl_asset_key c) = Some a \<and> recorded_amount a (cl_settlement_amount c))
        \<and> audit_count d (cl_claim_id c) ''claim.dispatching'' > 0)
   \<and> (cl_status c = Confirmed \<longrightarrow>
        truthy (cl_dispatch_signature c) \<and> audit_count d (cl_claim_id c) ''claim.confirmed'' > 0)"

definition books_ok :: "db \<Rightarrow> bool" where
  "books_ok d \<longleftrightarrow> db_inv d \<and> (\<forall>c \<in> set (db_claims d). booked d c)
     \<and> (\<forall>a \<in> set (db_assets d). as_status a = A_claimed \<longrightarrow>
          (\<exists>c \<in> set (db_claims d). cl_status c = Confirmed \<and> cl_asset_key c = as_asset_key a))"

lemma books_inv: "books_ok d \<Longrightarrow> db_inv d"
  and books_claim: "books_ok d \<Longrightarrow> c \<in> set (db_claims d) \<Longrightarrow> booked d c"
  and books_asset: "books_ok d \<Longrightarrow> a \<in> set (db_assets d) \<Longrightarrow> as_status a = A_claimed \<Longrightarrow>
    \<exists>c \<in> set (db_claims d). cl_status c = Confirmed \<and> cl_asset_key c = as_asset_key a"
  by (simp_all add: books_ok_def)

section \<open>What a step leaves\<close>

definition log_grows :: "db \<Rightarrow> db \<Rightarrow> bool" where
  "log_grows d d' \<longleftrightarrow> (\<exists>rs. db_audit d' = db_audit d @ rs)"

lemma log_grows_same [simp]: "db_audit d' = db_audit d \<Longrightarrow> log_grows d d'"
  by (simp add: log_grows_def)

lemma one_row_grows: "one_row E d d' \<Longrightarrow> log_grows d d'"
  unfolding one_row_def log_grows_def by (metis appendAudit_prefix append_Nil2)

lemma audit_count_grows: "log_grows d d' \<Longrightarrow> audit_count d cid ev \<le> audit_count d' cid ev"
  by (auto simp: log_grows_def audit_count_def)

lemma entry_text_record [simp]:
  "entry_text ''event'' (audit_record ts e) = Some (au_event e)"
  "au_claimId e = Some cid \<Longrightarrow> entry_text ''claimId'' (audit_record ts e) = Some cid"
  by (simp_all add: entry_text_def audit_record_def opt_field_def)

lemma audit_count_appended:
  assumes "au_claimId e = Some cid" and "au_event e = ev"
  shows "audit_count (append_audit E now e d) cid ev > 0"
  using assms by (simp add: audit_count_def append_audit_def appendAudit_def Let_def)

text \<open>A claim row that keeps its key, its signature and its amount, and is not newly confirmed.\<close>

definition same_entry :: "claim_row \<Rightarrow> claim_row \<Rightarrow> bool" where
  "same_entry c c' \<longleftrightarrow> cl_claim_id c' = cl_claim_id c \<and> cl_asset_key c' = cl_asset_key c
     \<and> cl_dispatch_signature c' = cl_dispatch_signature c \<and> cl_settlement_amount c' = cl_settlement_amount c
     \<and> (cl_status c' = Confirmed \<longrightarrow> cl_status c = Confirmed)"

lemma same_entry_refl [simp]: "same_entry c c" by (simp add: same_entry_def)

lemma ledger_asset:
  assumes "same_ledger d d'" and "find_asset d k = Some a"
  obtains a' where "find_asset d' k = Some a'" "as_asset_type a' = as_asset_type a" "as_amount a' = as_amount a"
proof -
  have "map_option (set_asset_status Available) (find_asset d' k) = Some (set_asset_status Available a)"
    using assms by (simp add: same_ledger_def)
  then obtain a' where a': "find_asset d' k = Some a'" "set_asset_status Available a' = set_asset_status Available a"
    by auto
  have "as_asset_type a' = as_asset_type a" "as_amount a' = as_amount a"
    using arg_cong [OF a'(2), of as_asset_type] arg_cong [OF a'(2), of as_amount]
    by (simp_all add: set_asset_status_def)
  then show thesis by (rule that [OF a'(1)])
qed

lemma recorded_amount_carried:
  assumes "same_ledger d d'" and "\<exists>a. find_asset d k = Some a \<and> recorded_amount a v"
  shows "\<exists>a. find_asset d' k = Some a \<and> recorded_amount a v"
proof -
  obtain a where a: "find_asset d k = Some a" "recorded_amount a v" using assms(2) by blast
  obtain a' where "find_asset d' k = Some a'" "as_asset_type a' = as_asset_type a" "as_amount a' = as_amount a"
    by (rule ledger_asset [OF assms(1) a(1)])
  with a(2) show ?thesis by (simp add: recorded_amount_def)
qed

lemma booked_carried:
  assumes "booked d c" and "same_entry c c'" and "same_ledger d d'" and "log_grows d d'"
  shows "booked d' c'"
proof -
  have n: "0 < audit_count d cid ev \<Longrightarrow> 0 < audit_count d' cid ev" for cid ev
    using audit_count_grows [OF assms(4), of cid ev] by simp
  have a: "\<exists>a. find_asset d k = Some a \<and> recorded_amount a v
      \<Longrightarrow> \<exists>a. find_asset d' k = Some a \<and> recorded_amount a v" for k v
    by (rule recorded_amount_carried [OF assms(3)])
  have same: "cl_claim_id c' = cl_claim_id c" "cl_asset_key c' = cl_asset_key c"
    "cl_dispatch_signature c' = cl_dispatch_signature c" "cl_settlement_amount c' = cl_settlement_amount c"
    "cl_status c' = Confirmed \<Longrightarrow> cl_status c = Confirmed"
    using assms(2) by (simp_all add: same_entry_def)
  show ?thesis unfolding booked_def same(1-4)
  proof (intro conjI impI)
    assume "truthy (cl_dispatch_signature c)"
    then have "\<exists>a. find_asset d (cl_asset_key c) = Some a \<and> recorded_amount a (cl_settlement_amount c)"
      "audit_count d (cl_claim_id c) ''claim.dispatching'' > 0"
      using assms(1) by (simp_all add: booked_def)
    then show "\<exists>a. find_asset d' (cl_asset_key c) = Some a \<and> recorded_amount a (cl_settlement_amount c)"
      "audit_count d' (cl_claim_id c) ''claim.dispatching'' > 0"
      using a n by blast+
  next
    assume "cl_status c' = Confirmed"
    then have "truthy (cl_dispatch_signature c)" "audit_count d (cl_claim_id c) ''claim.confirmed'' > 0"
      using assms(1) same(5) by (simp_all add: booked_def)
    then show "truthy (cl_dispatch_signature c)" "audit_count d' (cl_claim_id c) ''claim.confirmed'' > 0"
      using n by blast+
  qed
qed

lemma books_carried:
  assumes "books_ok d" and "db_inv d'" and "same_ledger d d'" and "log_grows d d'"
    and "\<And>c'. c' \<in> set (db_claims d') \<Longrightarrow> booked d' c' \<or> (\<exists>c \<in> set (db_claims d). same_entry c c')"
    and "\<And>c. c \<in> set (db_claims d) \<Longrightarrow> cl_status c = Confirmed \<Longrightarrow>
        \<exists>c' \<in> set (db_claims d'). cl_status c' = Confirmed \<and> cl_asset_key c' = cl_asset_key c"
    and "\<And>a'. a' \<in> set (db_assets d') \<Longrightarrow> as_status a' = A_claimed \<Longrightarrow>
        (\<exists>a \<in> set (db_assets d). as_status a = A_claimed \<and> as_asset_key a = as_asset_key a')
        \<or> (\<exists>c' \<in> set (db_claims d'). cl_status c' = Confirmed \<and> cl_asset_key c' = as_asset_key a')"
  shows "books_ok d'"
  unfolding books_ok_def
proof (intro conjI ballI impI)
  fix c' assume "c' \<in> set (db_claims d')"
  then show "booked d' c'"
    using assms(5) booked_carried [OF books_claim [OF assms(1)] _ assms(3,4)] by blast
next
  fix a' assume "a' \<in> set (db_assets d')" "as_status a' = A_claimed"
  from assms(7) [OF this] show "\<exists>c' \<in> set (db_claims d'). cl_status c' = Confirmed \<and> cl_asset_key c' = as_asset_key a'"
    using books_asset [OF assms(1)] assms(6) by metis
qed (rule assms(2))

lemma books_same_rows:
  assumes "books_ok d" and "db_inv d'" and "same_ledger d d'" and "log_grows d d'"
    and "db_claims d' = db_claims d" and "db_assets d' = db_assets d"
  shows "books_ok d'"
  by (rule books_carried [OF assms(1-4)]; use assms(5,6) same_entry_refl in metis)

text \<open>A transaction on one claim that was not confirmed, and on its asset.\<close>

lemma books_row:
  assumes "books_ok d" and "db_inv d'" and "same_ledger d d'" and "log_grows d d'"
    and "find_claim d cid = Some c"
    and "db_claims d' = row_update cl_claim_id cid f (db_claims d)"
    and "db_assets d' = row_update as_asset_key (cl_asset_key c) g (db_assets d)"
    and "cl_claim_id (f c) = cl_claim_id c \<and> cl_asset_key (f c) = cl_asset_key c"
    and "cl_status c \<noteq> Confirmed" and "booked d' (f c) \<or> same_entry c (f c)"
    and "\<And>a. as_asset_key (g a) = as_asset_key a"
    and "\<And>a. as_status (g a) = A_claimed \<Longrightarrow> as_status a = A_claimed \<or> cl_status (f c) = Confirmed"
  shows "books_ok d'"
proof (rule books_carried [OF assms(1-4)])
  note mem = find_claim_mem [OF assms(5)]
  have ids: "distinct (map cl_claim_id (db_claims d))"
    using books_inv [OF assms(1)] by (simp add: db_inv_def claims_inv_def)
  have rows: "x \<in> set (db_claims d') \<longleftrightarrow> x = f c \<or> x \<in> set (db_claims d) \<and> cl_claim_id x \<noteq> cid" for x
    using mem row_unique [OF ids _ conjunct1 [OF mem]] unfolding assms(6) set_row_update by metis
  show "booked d' x \<or> (\<exists>c \<in> set (db_claims d). same_entry c x)" if "x \<in> set (db_claims d')" for x
    using that rows assms(10) mem same_entry_refl by metis
  show "\<exists>c' \<in> set (db_claims d'). cl_status c' = Confirmed \<and> cl_asset_key c' = cl_asset_key x"
    if "x \<in> set (db_claims d)" "cl_status x = Confirmed" for x
  proof -
    have "cl_claim_id x \<noteq> cid" using row_unique [OF ids that(1) conjunct1 [OF mem]] mem that(2) assms(9) by auto
    with that rows show ?thesis by blast
  qed
  fix a' assume a': "a' \<in> set (db_assets d')" "as_status a' = A_claimed"
  then obtain a where a: "a \<in> set (db_assets d)" "a' = (if as_asset_key a = cl_asset_key c then g a else a)"
    unfolding assms(7) set_row_update by blast
  show "(\<exists>a \<in> set (db_assets d). as_status a = A_claimed \<and> as_asset_key a = as_asset_key a')
      \<or> (\<exists>c' \<in> set (db_claims d'). cl_status c' = Confirmed \<and> cl_asset_key c' = as_asset_key a')"
  proof (cases "as_status a = A_claimed")
    case True
    with a assms(11) have "as_status a = A_claimed \<and> as_asset_key a = as_asset_key a'" by simp
    with a(1) show ?thesis by blast
  next
    case False
    then have k: "as_asset_key a = cl_asset_key c" "a' = g a" using a(2) a'(2) by (auto split: if_splits)
    then have "cl_status (f c) = Confirmed" "cl_asset_key (f c) = as_asset_key a'"
      using assms(12) [of a] False a'(2) assms(8,11) by auto
    then show ?thesis using rows by blast
  qed
qed

text \<open>What runs beside the worker.\<close>

lemma same_claim_row: "row_update cl_claim_id cid f (db_claims d) = row_update cl_claim_id cid f' (db_claims d)"
  if "\<And>r. r \<in> set (db_claims d) \<Longrightarrow> cl_claim_id r = cid \<Longrightarrow> f r = f' r"
  using that by (simp add: row_update_def)

lemma books_service:
  assumes "service_step E d d'" and "books_ok d"
  shows "books_ok d'"
proof -
  have inv: "db_inv d" and inv': "db_inv d'" using books_inv [OF assms(2)] service_step_inv [OF assms(1)] by simp_all
  note l = service_step_ledger [OF assms(1)] and g = one_row_grows [OF service_step_audited [OF assms(1)]]
  note row = books_row [OF assms(2) inv' l g]
  have found: "find_claim d (cl_claim_id c) = Some c" if "c \<in> set (db_claims d)" for c
    using row_find_distinct [of cl_claim_id, OF _ that] inv unfolding db_inv_def claims_inv_def by blast
  show ?thesis using assms(1)
  proof (cases rule: service_step.cases)
    case (step_initiate c now e)
    show ?thesis
    proof (rule books_carried [OF assms(2) inv' l g])
      have "booked d' c" using step_initiate by (simp add: booked_def undispatched_def truthy_def)
      then show "booked d' x \<or> (\<exists>c \<in> set (db_claims d). same_entry c x)" if "x \<in> set (db_claims d')" for x
      proof -
        have "x = c \<or> x \<in> set (db_claims d)" using that by (auto simp: step_initiate(1))
        then show ?thesis using \<open>booked d' c\<close> same_entry_refl by blast
      qed
    qed (use step_initiate(1) in auto)
  next
    case (step_reject c now code reason)
    show ?thesis
      by (rule row [OF found [OF step_reject(2)], where g = "\<lambda>a. a"
            and f = "\<lambda>r. (set_claim_status Rejected r)\<lparr>cl_error := Some code\<rparr>"])
        (use step_reject in \<open>auto simp: rejectClaim_def no_asset_update same_entry_def set_claim_status_def\<close>)
  next
    case (step_expire c now)
    show ?thesis
      by (rule row [OF found [OF step_expire(2)], where g = "\<lambda>a. a" and f = "set_claim_status Expired_claim"])
        (use step_expire in \<open>auto simp: expireClaim_def no_asset_update same_entry_def set_claim_status_def\<close>)
  next
    case (step_reap now c)
    let ?f = "\<lambda>r. if cl_status r = Claiming then set_claim_status Expired_claim r else r"
    show ?thesis
    proof (cases "find_claim d (cl_claim_id c)")
      case None
      then have "db_claims d' = db_claims d"
        by (auto simp: step_reap reap_row_def row_find_None intro: row_update_id)
      then show ?thesis
        by (rule books_same_rows [OF assms(2) inv' l g]) (simp add: step_reap reap_row_def)
    next
      case (Some x)
      show ?thesis
      proof (cases "cl_status x = Confirmed")
        case True
        have ids: "distinct (map cl_claim_id (db_claims d))" using inv by (simp add: db_inv_def claims_inv_def)
        have "?f r = r" if "r \<in> set (db_claims d)" "cl_claim_id r = cl_claim_id c" for r
        proof -
          have "r = x" using row_unique [OF ids that(1)] find_claim_mem [OF Some] that(2) by simp
          with True show ?thesis by simp
        qed
        then have "db_claims d' = db_claims d" unfolding step_reap reap_row_def
          by (simp add: row_update_id [of "db_claims d" cl_claim_id "cl_claim_id c" ?f])
        then show ?thesis
          by (rule books_same_rows [OF assms(2) inv' l g]) (simp add: step_reap reap_row_def)
      next
        case False
        show ?thesis
          by (rule row [OF Some, where g = "\<lambda>a. a" and f = ?f])
            (use False in \<open>auto simp: step_reap reap_row_def no_asset_update same_entry_def set_claim_status_def\<close>)
      qed
    qed
  next
    case (step_win c now a pf st ast e sl settlement)
    show ?thesis
      by (rule row [OF found [OF step_win(2)], where g = "set_asset_status ast"
            and f = "won_row st (cp_signature pf) sl settlement now"])
        (use step_win in \<open>auto simp: won_row_def same_entry_def set_claim_status_def set_asset_status_def\<close>)
  qed
qed

text \<open>A transaction of dispatch, given by the row it writes.\<close>

lemma dispatch_frame:
  assumes "dispatch_step E d d'" and "books_ok d"
  shows "db_inv d'" "same_ledger d d'" "log_grows d d'"
  using bounded_change_inv [OF dispatch_step_bounded [OF assms(1)] books_inv [OF assms(2)]]
    bounded_change_ledger [OF dispatch_step_bounded [OF assms(1)]] one_row_grows [OF dispatch_step_audited [OF assms(1)]]
  by simp_all

lemma books_quiet_row:
  assumes "books_ok d" and "dispatch_step E d d'" and "find_claim d cid = Some c"
    and "db_claims d' = row_update cl_claim_id cid f (db_claims d)"
    and "db_assets d' = row_update as_asset_key (cl_asset_key c) g (db_assets d)"
    and "cl_status c \<noteq> Confirmed" and "same_entry c (f c)"
    and "\<And>a. as_asset_key (g a) = as_asset_key a" and "\<And>a. as_status (g a) = A_claimed \<Longrightarrow> as_status a = A_claimed"
  shows "books_ok d'"
  by (rule books_row [OF assms(1) dispatch_frame [OF assms(2,1)] assms(3-5)])
    (use assms(6-9) in \<open>auto simp: same_entry_def\<close>)

lemma books_approve:
  assumes "books_ok d"
  shows "books_ok (snd (approveClaim E now cid who d))"
proof -
  have step: "dispatch_step E d (snd (approveClaim E now cid who d))" by (rule step_approve)
  show ?thesis
  proof (cases "\<exists>c. find_claim d cid = Some c \<and> (cl_status c = PendingReview \<or> cl_status c = Verified)")
    case True
    then obtain c where c: "find_claim d cid = Some c" "cl_status c = PendingReview \<or> cl_status c = Verified" by blast
    show ?thesis
      by (rule books_quiet_row [OF assms step c(1), where g = "\<lambda>a. a"
            and f = "\<lambda>r. r\<lparr>cl_approved_at := Some now, cl_approved_by := Some who\<rparr>"])
        (use c in \<open>auto simp: approveClaim_def no_asset_update same_entry_def\<close>)
  next
    case False
    then have "snd (approveClaim E now cid who d) = d" by (auto simp: approveClaim_def split: option.split)
    with assms show ?thesis by simp
  qed
qed

lemma books_failed:
  assumes "books_ok d" and "find_claim d cid = Some c" and "won (cl_status c)"
  shows "books_ok (markFailed E now cid reason d)"
proof (cases "cl_status c = Confirmed")
  case False
  show ?thesis
    by (rule books_quiet_row [OF assms(1) step_failed [OF assms(2,3)] assms(2), where g = "\<lambda>a. a"
          and f = "\<lambda>r. (set_claim_status Failed r)\<lparr>cl_error := Some reason\<rparr>"])
      (use False assms(2) in \<open>auto simp: markFailed_def no_asset_update same_entry_def set_claim_status_def\<close>)
qed (use assms in \<open>simp add: markFailed_def\<close>)

lemma books_needs_operator:
  assumes "books_ok d" and "find_claim d cid = Some c" and "won (cl_status c)"
  shows "books_ok (snd (markNeedsOperator E now cid reason d))"
proof (cases "cl_status c = Confirmed \<or> cl_status c = NeedsOperator")
  case False
  show ?thesis
    by (rule books_quiet_row [OF assms(1) step_needs_operator [OF assms(2,3)] assms(2), where g = "\<lambda>a. a"
          and f = "\<lambda>r. (set_claim_status NeedsOperator r)\<lparr>cl_error := Some reason\<rparr>"])
      (use False assms(2) in \<open>auto simp: markNeedsOperator_def no_asset_update same_entry_def set_claim_status_def\<close>)
qed (use assms in \<open>auto simp: markNeedsOperator_def\<close>)

lemma books_review:
  assumes "books_ok d" and "find_claim d cid = Some c" and "won (cl_status c)" and "k = cl_asset_key c"
  shows "books_ok (routeToReview E now cid k reason d)"
proof (cases "cl_status c = Confirmed \<or> cl_status c = Dispatching")
  case False
  show ?thesis
    by (rule books_quiet_row [OF assms(1) step_review [OF assms(2-4)] assms(2), where g = hold_asset
          and f = "set_claim_status PendingReview"])
      (use False assms(2,4) in \<open>auto simp: routeToReview_def same_entry_def set_claim_status_def hold_asset_status
          split: if_splits\<close>)
qed (use assms in \<open>auto simp: routeToReview_def\<close>)

lemma books_manual:
  assumes "books_ok d" and "find_claim d cid = Some c" and "won (cl_status c)" and "k = cl_asset_key c"
  shows "books_ok (routeToManualVaultDelivery E now cid k unlock lck d)"
proof (cases "cl_status c = Confirmed \<or> cl_status c = Dispatching")
  case False
  show ?thesis
    by (rule books_quiet_row [OF assms(1) step_manual [OF assms(2-4)] assms(2), where g = hold_asset
          and f = "\<lambda>r. (set_claim_status AwaitingManualVaultDelivery r)\<lparr>cl_settlement := Some ''manual_vault_relock''\<rparr>"])
      (use False assms(2,4) in \<open>auto simp: routeToManualVaultDelivery_def same_entry_def set_claim_status_def
          hold_asset_status split: if_splits\<close>)
qed (use assms in \<open>auto simp: routeToManualVaultDelivery_def\<close>)

text \<open>A cleared row has no signature.\<close>

lemma books_clear:
  assumes "books_ok d"
  shows "books_ok (clearDeadSignature E now cid d)"
proof (cases "\<exists>c. find_claim d cid = Some c \<and> cl_status c = Dispatching \<and> cl_ant_batch_id c = None")
  case True
  then obtain c where c: "find_claim d cid = Some c" "cl_status c = Dispatching" "cl_ant_batch_id c = None" by blast
  define st where "st = (if cl_approved_at c \<noteq> None then PendingReview else Verified)"
  have b: "booked d' (cleared_row st c)" for d'
    by (simp add: booked_def cleared_row_def set_claim_status_def truthy_def st_def)
  show ?thesis
    by (rule books_row [OF assms dispatch_frame [OF step_clear assms] c(1), where g = "\<lambda>a. a" and f = "cleared_row st"])
      (use c b in \<open>auto simp: clearDeadSignature_def Let_def no_asset_update st_def\<close>)
next
  case False
  then have "clearDeadSignature E now cid d = d" by (auto simp: clearDeadSignature_def split: option.split)
  with assms show ?thesis by simp
qed

text \<open>The two writes that make entries.\<close>

definition payable :: "persist_args \<Rightarrow> db \<Rightarrow> bool" where
  "payable A d \<longleftrightarrow> (\<exists>c a. find_claim d (pa_claimId A) = Some c \<and> cl_asset_key c = pa_assetKey A
     \<and> find_asset d (pa_assetKey A) = Some a \<and> recorded_amount a (pa_settlementAmount A))"

lemma books_persist:
  assumes "books_ok d" and "payable A d" and "sd_signature (pa_signed A) \<noteq> []"
  shows "books_ok (snd (persistDispatching E now A d))"
proof (cases "fst (persistDispatching E now A d)")
  case False
  then have "snd (persistDispatching E now A d) = d" by (auto simp: persistDispatching_def split: option.splits if_splits)
  with assms(1) show ?thesis by simp
next
  case True
  let ?d' = "snd (persistDispatching E now A d)"
  obtain c a where c: "find_claim d (pa_claimId A) = Some c" "pa_assetKey A = cl_asset_key c"
    and a: "find_asset d (pa_assetKey A) = Some a" "recorded_amount a (pa_settlementAmount A)"
    using assms(2) by (auto simp: payable_def)
  have can: "canDispatch c" using True c by (auto simp: persistDispatching_def split: option.splits if_splits)
  note frame = dispatch_frame [OF step_persist [OF c] assms(1), of E now]
  let ?g = "\<lambda>r. if as_status r \<noteq> A_claimed then set_asset_status A_claiming r else r"
  have rows: "db_claims ?d' = row_update cl_claim_id (pa_claimId A) (dispatching_row A) (db_claims d)"
    "db_assets ?d' = row_update as_asset_key (cl_asset_key c) ?g (db_assets d)"
    using True c a(1) by (auto simp: persistDispatching_def split: if_splits)
  have "cl_claim_id c = pa_claimId A" using find_claim_mem [OF c(1)] by simp
  moreover have "audit_count ?d' (pa_claimId A) ''claim.dispatching'' > 0"
    using True c a(1) by (auto simp: persistDispatching_def core_event_def audit_event_def
        split: if_splits intro!: audit_count_appended)
  moreover have "\<exists>a. find_asset ?d' (cl_asset_key c) = Some a \<and> recorded_amount a (pa_settlementAmount A)"
    by (rule recorded_amount_carried [OF frame(2)]) (use a c(2) in simp)
  ultimately have b: "booked ?d' (dispatching_row A c)"
    using assms(3) by (simp add: booked_def) (simp add: dispatching_row_def set_claim_status_def)
  show ?thesis
    by (rule books_row [OF assms(1) frame c(1) rows])
      (use b canDispatch_unconfirmed [OF can] in \<open>auto split: if_splits\<close>)
qed

lemma books_finalize:
  assumes "books_ok d" and "find_claim d cid = Some c" and "won (cl_status c)" and "truthy (cl_dispatch_signature c)"
  shows "books_ok (finalizeConfirmed E now cid sig d)"
proof (cases "cl_status c = Confirmed")
  case False
  let ?d' = "finalizeConfirmed E now cid sig d"
  note frame = dispatch_frame [OF step_finalize [OF assms(2,3)] assms(1), of E now sig]
  note mem = find_claim_mem [OF assms(2)]
  have rows: "db_claims ?d' = row_update cl_claim_id cid (confirmed_row now sig) (db_claims d)"
    "db_assets ?d' = row_update as_asset_key (cl_asset_key c) (set_asset_status A_claimed) (db_assets d)"
    using assms(2) False by (simp_all add: finalizeConfirmed_def)
  have "booked ?d' c"
    by (rule booked_carried [OF books_claim [OF assms(1)] same_entry_refl frame(2,3)]) (use mem in simp)
  moreover have "audit_count ?d' cid ''claim.confirmed'' > 0"
    using assms(2) False by (auto simp: finalizeConfirmed_def core_event_def audit_event_def intro!: audit_count_appended)
  ultimately have b: "booked ?d' (confirmed_row now sig c)"
    using assms(4) mem by (simp add: booked_def) (simp add: confirmed_row_def set_claim_status_def)
  show ?thesis by (rule books_row [OF assms(1) frame assms(2) rows]) (use b False in auto)
qed (use assms in \<open>simp add: finalizeConfirmed_def\<close>)

lemma books_env:
  assumes "env_step E d d'" and "books_ok d"
  shows "books_ok d'"
  using assms(1)
proof cases
  case env_service
  then show ?thesis using assms(2) by (rule books_service)
next
  case (env_approve now cid who)
  show ?thesis unfolding env_approve by (rule books_approve [OF assms(2)])
next
  case env_reserve
  obtain f where f: "db_claims d' = map f (db_claims d)" "\<forall>c \<in> set (db_claims d). reserved_like c (f c)"
    using env_reserve(2) unfolding reservation_change_def by blast
  have assets: "db_assets d' = db_assets d" using env_reserve(2) by (simp add: reservation_change_def)
  have grows: "log_grows d d'"
    using operator_step_audited [OF env_reserve(1)] one_row_grows by (auto simp: same_but_reservations_def)
  have ledger: "same_ledger d d'" using env_reserve(2) by (simp add: reservation_change_def same_ledger_def)
  have entry: "f c = c \<or> \<not> truthy (cl_dispatch_signature (f c)) \<and> cl_status (f c) \<noteq> Confirmed \<and> cl_status c \<noteq> Confirmed"
    if "c \<in> set (db_claims d)" for c
  proof -
    have like: "reserved_like c (f c)" using f(2) that by blast
    show ?thesis using reserved_like_fields(7) [OF like] like by (auto simp: reserved_like_def truthy_def)
  qed
  show ?thesis
  proof (rule books_carried [OF assms(2) reservation_change_inv [OF env_reserve(2) books_inv [OF assms(2)]] ledger grows])
    fix c' assume "c' \<in> set (db_claims d')"
    then obtain c where c: "c \<in> set (db_claims d)" "c' = f c" by (auto simp: f(1))
    show "booked d' c' \<or> (\<exists>c \<in> set (db_claims d). same_entry c c')"
    proof (cases "f c = c")
      case True
      with c same_entry_refl show ?thesis by metis
    next
      case False
      with entry [OF c(1)] c(2) show ?thesis by (simp add: booked_def)
    qed
  next
    fix c assume "c \<in> set (db_claims d)" "cl_status c = Confirmed"
    moreover from this have "f c = c" using entry by blast
    ultimately have "c \<in> set (db_claims d')" "cl_status c = Confirmed" unfolding f(1) by (simp_all add: rev_image_eqI)
    then show "\<exists>c' \<in> set (db_claims d'). cl_status c' = Confirmed \<and> cl_asset_key c' = cl_asset_key c" by blast
  qed (use assets in auto)
qed

section \<open>The worker\<close>

text \<open>
  What the worker may remember of a claim: that it has won an asset, that a payment of the asset would
  be recorded right, and that the claim has a signature on record.
\<close>

definition holds_won :: "string \<Rightarrow> string \<Rightarrow> db \<Rightarrow> bool" where
  "holds_won cid k d \<longleftrightarrow> (\<exists>c. find_claim d cid = Some c \<and> cl_asset_key c = k \<and> won (cl_status c))"

definition asset_like :: "asset_row \<Rightarrow> db \<Rightarrow> bool" where
  "asset_like a d \<longleftrightarrow> (\<exists>a'. find_asset d (as_asset_key a) = Some a' \<and> as_asset_type a' = as_asset_type a
     \<and> as_amount a' = as_amount a)"

definition on_record :: "string \<Rightarrow> db \<Rightarrow> bool" where
  "on_record cid d \<longleftrightarrow> (\<exists>c. find_claim d cid = Some c \<and> won (cl_status c) \<and> truthy (cl_dispatch_signature c))"

definition lasting :: "'k service_env \<Rightarrow> (db \<Rightarrow> bool) \<Rightarrow> bool" where
  "lasting E L \<longleftrightarrow> (\<forall>d d'. db_inv d \<and> L d \<and> env_step E d d' \<longrightarrow> L d')"

named_theorems lasting_intros \<open>facts the worker may keep while others run\<close>

lemma lasting_const [lasting_intros]: "lasting E (\<lambda>d. b)"
  by (simp add: lasting_def)

lemma lasting_conj [lasting_intros]: "lasting E L \<Longrightarrow> lasting E M \<Longrightarrow> lasting E (\<lambda>d. L d \<and> M d)"
  unfolding lasting_def by blast

lemma env_ledger:
  assumes "env_step E d d'"
  shows "same_ledger d d'"
  using assms
proof cases
  case env_service
  then show ?thesis by (rule service_step_ledger)
next
  case (env_approve now cid who)
  show ?thesis unfolding env_approve by (rule bounded_change_ledger [OF dispatch_step_bounded [OF step_approve]])
next
  case env_reserve
  then show ?thesis by (simp add: reservation_change_def same_ledger_def)
qed

lemma lasting_asset [lasting_intros]: "lasting E (asset_like a)"
  unfolding lasting_def
proof (intro allI impI, elim conjE)
  fix d d' assume "asset_like a d" and step: "env_step E d d'"
  then obtain x where x: "find_asset d (as_asset_key a) = Some x" "as_asset_type x = as_asset_type a" "as_amount x = as_amount a"
    by (auto simp: asset_like_def)
  obtain y where "find_asset d' (as_asset_key a) = Some y" "as_asset_type y = as_asset_type x" "as_amount y = as_amount x"
    by (rule ledger_asset [OF env_ledger [OF step] x(1)])
  with x show "asset_like a d'" by (simp add: asset_like_def)
qed

lemma won_not_claiming: "won st \<Longrightarrow> st \<noteq> Claiming" by auto

lemma lasting_won [lasting_intros]: "lasting E (holds_won cid k)"
  unfolding lasting_def
proof (intro allI impI, elim conjE)
  fix d d' assume inv: "db_inv d" and "holds_won cid k d" and step: "env_step E d d'"
  then obtain c where c: "find_claim d cid = Some c" "cl_asset_key c = k" "won (cl_status c)" by (auto simp: holds_won_def)
  from env_step_row [OF step inv c(1) won_not_claiming [OF c(3)]] c(2,3)
  show "holds_won cid k d'" by (auto simp: holds_won_def split: if_splits)
qed

lemma lasting_record [lasting_intros]: "lasting E (on_record cid)"
  unfolding lasting_def
proof (intro allI impI, elim conjE)
  fix d d' assume inv: "db_inv d" and "on_record cid d" and step: "env_step E d d'"
  then obtain c where c: "find_claim d cid = Some c" "won (cl_status c)" "truthy (cl_dispatch_signature c)"
    by (auto simp: on_record_def)
  from env_step_row [OF step inv c(1) won_not_claiming [OF c(2)]] c(2,3)
  show "on_record cid d'" by (auto simp: on_record_def split: if_splits)
qed

text \<open>
  What the books rely on: the other processes are the service, approvals and reservations, and a
  signature is a text. Nothing is asked of the chain, nor of the faults.
\<close>

locale lone_worker =
  fixes D :: "('w, 'k) worker_deps"
  assumes others_law: "(env_step (wk_env D))\<^sup>*\<^sup>* d (ac_others (wk_db D) w d)"
    and sign_law: "gw_signTransaction (wk_gateway D) ixs fp w = (Inr sd, w') \<Longrightarrow> sd_signature sd \<noteq> []"
begin

definition keeps :: "(db \<Rightarrow> bool) \<Rightarrow> db \<times> 'w \<Rightarrow> bool" where
  "keeps L s \<longleftrightarrow> books_ok (fst s) \<and> L (fst s)"

abbreviation fine :: "db \<times> 'w \<Rightarrow> bool" where
  "fine \<equiv> keeps (\<lambda>d. True)"

definition kept :: "(db \<Rightarrow> bool) \<Rightarrow> ('w, 'a) act \<Rightarrow> ('a \<Rightarrow> db \<Rightarrow> bool) \<Rightarrow> bool" where
  "kept L m Q \<longleftrightarrow> hoare (keeps L) m (\<lambda>x. keeps (Q x)) fine"

lemma others_keep:
  assumes "lasting (wk_env D) L" and "books_ok d" and "L d"
  shows "books_ok (ac_others (wk_db D) w d) \<and> L (ac_others (wk_db D) w d)"
  using others_law [of d w]
proof (induction rule: rtranclp_induct)
  case (step d1 d2)
  then show ?case using books_env books_inv assms(1) unfolding lasting_def by metis
qed (use assms in simp)

lemma kept_tx:
  assumes "lasting (wk_env D) L"
    and "\<And>d. books_ok d \<Longrightarrow> L d \<Longrightarrow> books_ok (snd (f d)) \<and> Q (fst (f d)) (snd (f d))"
  shows "kept L (db_tx (wk_db D) f) Q"
  unfolding kept_def hoare_def
proof (intro allI impI)
  fix s assume a: "keeps L s"
  let ?d = "ac_others (wk_db D) (snd s) (fst s)"
  have d: "books_ok ?d" "L ?d" using others_keep [OF assms(1)] a by (simp_all add: keeps_def)
  obtain r w' where "ac_fault (wk_db D) (snd s) = (r, w')" by fastforce
  then show "case db_tx (wk_db D) f s of (Inl e, s') \<Rightarrow> fine s' | (Inr x, s') \<Rightarrow> keeps (Q x) s'"
    using d assms(2) [OF d] by (cases r) (simp_all add: db_tx_def Let_def keeps_def)
qed

lemma kept_do:
  assumes "lasting (wk_env D) L" and "\<And>d. books_ok d \<Longrightarrow> L d \<Longrightarrow> books_ok (f d) \<and> Q (f d)"
  shows "kept L (db_do (wk_db D) f) (\<lambda>u. Q)"
  unfolding db_do_def by (rule kept_tx [OF assms(1)]) (use assms(2) in simp)

lemma kept_read:
  assumes "lasting (wk_env D) L" and "\<And>d. books_ok d \<Longrightarrow> L d \<Longrightarrow> Q (g d) d"
  shows "kept L (db_read (wk_db D) g) Q"
  unfolding db_read_def by (rule kept_tx [OF assms(1)]) (use assms(2) in simp)

lemma kept_chain:
  assumes "\<And>w x w'. m w = (Inr x, w') \<Longrightarrow> R x"
  shows "kept L (chain m) (\<lambda>x d. L d \<and> R x)"
  unfolding kept_def hoare_def
proof (intro allI impI)
  fix s assume a: "keeps L s"
  obtain r w' where "m (snd s) = (r, w')" by fastforce
  with a assms show "case chain m s of (Inl e, s') \<Rightarrow> fine s' | (Inr x, s') \<Rightarrow> keeps (\<lambda>d. L d \<and> R x) s'"
    by (cases r) (auto simp: chain_def keeps_def)
qed

lemma kept_bind: "kept L m R \<Longrightarrow> (\<And>x. kept (R x) (f x) Q) \<Longrightarrow> kept L (io_bind m f) Q"
  unfolding kept_def by (rule hoare_bind)

lemma kept_return: "(\<And>d. L d \<Longrightarrow> Q x d) \<Longrightarrow> kept L (io_return x) Q"
  unfolding kept_def by (rule hoare_return) (simp add: keeps_def)

lemma kept_pre: "kept L' m Q \<Longrightarrow> (\<And>d. L d \<Longrightarrow> L' d) \<Longrightarrow> kept L m Q"
  unfolding kept_def by (erule hoare_pre) (simp add: keeps_def)

lemma kept_from: "(\<And>x. r = Inr x \<Longrightarrow> kept L (f x) Q) \<Longrightarrow> kept L (io_bind (from_result r) f) Q"
  unfolding kept_def by (cases r) (auto simp: hoare_def from_result_def io_bind_def keeps_def)

lemma kept_false: "(\<And>d. \<not> L d) \<Longrightarrow> kept L m Q"
  by (simp add: kept_def hoare_def keeps_def)

lemma kept_known: "(b \<Longrightarrow> kept L m Q) \<Longrightarrow> kept (\<lambda>d. L d \<and> b) m Q"
  by (cases b) (simp_all add: kept_false)

lemma kept_catch:
  "kept L m Q \<Longrightarrow> (\<And>e. kept (\<lambda>d. True) (h e) Q) \<Longrightarrow> kept L (catch_all m h) Q"
  unfolding kept_def by (rule hoare_catch)

lemma kept_option:
  "(r = None \<Longrightarrow> kept L m Q) \<Longrightarrow> (\<And>x. r = Some x \<Longrightarrow> kept L (f x) Q)
     \<Longrightarrow> kept L (case r of None \<Rightarrow> m | Some x \<Rightarrow> f x) Q"
  by (cases r) simp_all

text \<open>A write of a won claim, after which nothing more is done.\<close>

lemma kept_last:
  assumes "lasting (wk_env D) L" and "\<And>d. books_ok d \<Longrightarrow> L d \<Longrightarrow> books_ok (f d)"
  shows "kept L (io_bind (db_do (wk_db D) f) (\<lambda>u. io_return x)) (\<lambda>x d. True)"
  by (rule kept_bind [OF kept_do [OF assms(1), where Q = "\<lambda>d. True"] kept_return]) (use assms(2) in simp_all)

lemma kept_if: "(b \<Longrightarrow> kept L m Q) \<Longrightarrow> (\<not> b \<Longrightarrow> kept L m' Q) \<Longrightarrow> kept L (if b then m else m') Q"
  by simp

lemma kept_call: "kept L (chain m) (\<lambda>x. L)"
  using kept_chain [of m "\<lambda>x. True" L] by simp

lemma kept_try: "kept L (catch_all (chain m) (\<lambda>e. io_return ())) (\<lambda>u. L)"
  unfolding kept_def hoare_def
proof (intro allI impI)
  fix s assume a: "keeps L s"
  obtain r w' where "m (snd s) = (r, w')" by fastforce
  with a show "case catch_all (chain m) (\<lambda>e. io_return ()) s of (Inl e, s') \<Rightarrow> fine s' | (Inr x, s') \<Rightarrow> keeps L s'"
    by (cases r) (auto simp: chain_def catch_all_def io_return_def keeps_def)
qed

lemma record_finalize:
  "kept (on_record cid) (io_bind (db_do (wk_db D) (finalizeConfirmed (wk_env D) t cid sig)) (\<lambda>u. io_return x)) (\<lambda>x d. True)"
  by (rule kept_last [OF lasting_record]) (auto simp: on_record_def intro: books_finalize)

lemma record_failed:
  "kept (on_record cid) (io_bind (db_do (wk_db D) (markFailed (wk_env D) t cid reason)) (\<lambda>u. io_return x)) (\<lambda>x d. True)"
  by (rule kept_last [OF lasting_record]) (auto simp: on_record_def intro: books_failed)

text \<open>The calls of the worker.\<close>

lemma dispatchSignedTx_kept:
  assumes "sd_signature (pa_signed A) \<noteq> []" and "as_asset_key a = pa_assetKey A"
    and "recorded_amount a (pa_settlementAmount A)"
  shows "kept (\<lambda>d. holds_won (pa_claimId A) (pa_assetKey A) d \<and> asset_like a d) (dispatchSignedTx D T A) (\<lambda>x d. True)"
proof -
  let ?L = "\<lambda>d. holds_won (pa_claimId A) (pa_assetKey A) d \<and> asset_like a d"
  let ?R = "on_record (pa_claimId A)"
  have persist: "kept ?L (db_tx (wk_db D) (persistDispatching (wk_env D) (ck_persist T) A)) (\<lambda>p d. p \<longrightarrow> ?R d)"
  proof (rule kept_tx)
    show "lasting (wk_env D) ?L" by (intro lasting_intros)
    fix d assume ok: "books_ok d" and L: "?L d"
    obtain c where c: "find_claim d (pa_claimId A) = Some c" "cl_asset_key c = pa_assetKey A" "won (cl_status c)"
      using L by (auto simp: holds_won_def)
    obtain a' where a': "find_asset d (pa_assetKey A) = Some a'" "as_asset_type a' = as_asset_type a" "as_amount a' = as_amount a"
      using L unfolding asset_like_def assms(2) by blast
    have "recorded_amount a' (pa_settlementAmount A)" using assms(3) unfolding recorded_amount_def a'(2,3) .
    with c(1,2) a'(1) have "payable A d" unfolding payable_def by blast
    moreover have "?R (snd (persistDispatching (wk_env D) (ck_persist T) A d))"
      if p: "fst (persistDispatching (wk_env D) (ck_persist T) A d)"
    proof -
      obtain c' where "find_claim (snd (persistDispatching (wk_env D) (ck_persist T) A d)) (pa_claimId A) = Some c'"
        "cl_status c' = Dispatching" "cl_dispatch_signature c' = Some (sd_signature (pa_signed A))"
        using conjunct2 [OF persist_records_before_send [of "wk_env D" "ck_persist T" A d], unfolded if_P [OF p]]
        by blast
      with assms(1) show ?thesis by (simp add: on_record_def truthy_def)
    qed
    ultimately show "books_ok (snd (persistDispatching (wk_env D) (ck_persist T) A d))
        \<and> (fst (persistDispatching (wk_env D) (ck_persist T) A d)
            \<longrightarrow> ?R (snd (persistDispatching (wk_env D) (ck_persist T) A d)))"
      using books_persist [OF ok _ assms(1)] by blast
  qed
  have send: "kept ?R (catch_all (chain (gw_broadcast (wk_gateway D) wire)) (\<lambda>e. io_return ())) (\<lambda>u. ?R)" for wire
    by (rule kept_try)
  have confirm: "kept ?R (chain (gw_confirmSignature (wk_gateway D) sig lv)) (\<lambda>x. ?R)" for sig lv
    by (rule kept_call)
  show ?thesis
    unfolding dispatchSignedTx_def Let_def
  proof (rule kept_bind [OF persist], rule kept_if)
    fix p :: bool assume "\<not> \<not> p"
    then have p: "(p \<longrightarrow> ?R d) = ?R d" for d by simp
    show "kept (\<lambda>d. p \<longrightarrow> ?R d)
      (io_bind (catch_all (chain (gw_broadcast (wk_gateway D) (sd_wireBase64 (pa_signed A)))) (\<lambda>e. io_return ())) (\<lambda>_.
       io_bind (chain (gw_confirmSignature (wk_gateway D) (sd_signature (pa_signed A)) (sd_lastValidBlockHeight (pa_signed A)))) (\<lambda>state.
       if state = StateConfirmed
       then io_bind (db_do (wk_db D) (finalizeConfirmed (wk_env D) (ck_final T) (pa_claimId A) (sd_signature (pa_signed A))))
              (\<lambda>_. io_return (OutConfirmed, Some (sd_signature (pa_signed A)), None))
       else if state = StateFailed
       then io_bind (db_do (wk_db D) (markFailed (wk_env D) (ck_final T) (pa_claimId A)
                       (''on-chain tx '' @ sd_signature (pa_signed A) @ '' failed'')))
              (\<lambda>_. io_return (OutFailed, Some (sd_signature (pa_signed A)), None))
       else io_return (OutAwaitingConfirmation, Some (sd_signature (pa_signed A)), None)))) (\<lambda>x d. True)"
      unfolding p
      by (intro kept_bind [OF send] kept_bind [OF confirm] kept_if record_finalize record_failed kept_return) simp_all
  qed (simp_all add: kept_return)
qed

definition paying :: "string \<Rightarrow> asset_row \<Rightarrow> db \<Rightarrow> bool" where
  "paying cid a d \<longleftrightarrow> holds_won cid (as_asset_key a) d \<and> asset_like a d"

lemma lasting_paying: "lasting (wk_env D) (paying cid a)"
  unfolding paying_def by (intro lasting_intros)

lemma signPersist_kept:
  assumes "recorded_amount a v"
  shows "kept (paying cid a) (signPersistBroadcastConfirm D T cid a signer ixs v label) (\<lambda>x d. True)"
  unfolding signPersistBroadcastConfirm_def
proof (rule kept_bind [OF kept_chain [where R = "\<lambda>sd. sd_signature sd \<noteq> []"]])
  fix sd
  let ?A = "\<lparr>pa_claimId = cid, pa_assetKey = as_asset_key a, pa_signed = sd, pa_settlementAmount = v, pa_settlementLabel = label\<rparr>"
  show "kept (\<lambda>d. paying cid a d \<and> sd_signature sd \<noteq> [])
    (io_bind (dispatchSignedTx D T ?A) (\<lambda>r. io_return (result_of cid (as_asset_key a) (fst r) (fst (snd r)) (snd (snd r)))))
    (\<lambda>x d. True)"
  proof (rule kept_known)
    assume "sd_signature sd \<noteq> []"
    then have "kept (paying cid a) (dispatchSignedTx D T ?A) (\<lambda>x d. True)"
      using dispatchSignedTx_kept [of ?A a T] assms by (simp add: paying_def [abs_def])
    then show "kept (paying cid a)
      (io_bind (dispatchSignedTx D T ?A) (\<lambda>r. io_return (result_of cid (as_asset_key a) (fst r) (fst (snd r)) (snd (snd r)))))
      (\<lambda>x d. True)" by (rule kept_bind) (simp add: kept_return)
  qed
qed (rule sign_law)

lemma paying_claim: "paying cid a d \<Longrightarrow> \<exists>c. find_claim d cid = Some c \<and> won (cl_status c) \<and> as_asset_key a = cl_asset_key c"
  by (auto simp: paying_def holds_won_def)

lemma paying_review:
  "kept (paying cid a) (io_bind (db_do (wk_db D) (routeToReview (wk_env D) t cid (as_asset_key a) reason)) (\<lambda>u. io_return x))
     (\<lambda>x d. True)"
  by (rule kept_last [OF lasting_paying]) (auto dest!: paying_claim intro: books_review)

lemma paying_manual:
  "kept (paying cid a)
     (io_bind (db_do (wk_db D) (routeToManualVaultDelivery (wk_env D) t cid (as_asset_key a) unlock lck)) (\<lambda>u. io_return x))
     (\<lambda>x d. True)"
  by (rule kept_last [OF lasting_paying]) (auto dest!: paying_claim intro: books_manual)

lemma paying_failed:
  "kept (paying cid a) (io_bind (db_do (wk_db D) (markFailed (wk_env D) t cid reason)) (\<lambda>u. io_return x)) (\<lambda>x d. True)"
  by (rule kept_last [OF lasting_paying]) (auto dest!: paying_claim intro: books_failed)

lemma dispatch_ant_kept:
  assumes "as_asset_type a = AssetAnt"
  shows "kept (paying (cl_claim_id snap) a) (dispatch_ant D T ov snap a) (\<lambda>x d. True)"
proof -
  have none: "recorded_amount a None" using assms by (simp add: recorded_amount_def)
  show ?thesis
    unfolding dispatch_ant_def Let_def
    by (intro kept_if paying_review)
      (auto split: option.split intro!: kept_if paying_failed kept_return kept_from signPersist_kept [OF none])
qed

lemma settle_liquid_kept:
  assumes "as_asset_type a \<noteq> AssetAnt" and "amount = amount_or_zero (as_amount a)"
  shows "kept (paying (cl_claim_id snap) a) (settle_liquid D T snap a amount label) (\<lambda>x d. True)"
  unfolding settle_liquid_def
  by (intro kept_from signPersist_kept) (simp add: recorded_amount_def assms)

lemma settle_relock_kept:
  assumes "as_asset_type a \<noteq> AssetAnt" and "amount = amount_or_zero (as_amount a)"
  shows "kept (paying (cl_claim_id snap) a) (settle_relock D T snap a amount lck unlock) (\<lambda>x d. True)"
  unfolding settle_relock_def Let_def
  by (intro kept_if paying_manual kept_bind [OF kept_call] signPersist_kept) (simp add: recorded_amount_def assms)

lemma dispatch_settle_kept:
  assumes "as_asset_type a \<noteq> AssetAnt" and "amount = amount_or_zero (as_amount a)"
  shows "kept (paying (cl_claim_id snap) a) (dispatch_settle D T snap a amount) (\<lambda>x d. True)"
  unfolding dispatch_settle_def Let_def
  by (rule kept_if)
    (auto split: sum.split vault_settlement.split
      intro: paying_manual settle_liquid_kept [OF assms] settle_relock_kept [OF assms])

lemma kept_look: "lasting (wk_env D) L \<Longrightarrow> kept L (db_read (wk_db D) g) (\<lambda>x. L)"
  by (rule kept_read)

lemma dispatch_funds_kept:
  assumes "as_asset_type a \<noteq> AssetAnt"
  shows "kept (paying (cl_claim_id snap) a) (dispatch_funds D T snap a) (\<lambda>x d. True)"
proof -
  have n: "(case as_amount a of Some v \<Rightarrow> v | None \<Rightarrow> 0) = amount_or_zero (as_amount a)"
    by (simp add: amount_or_zero_def split: option.split)
  show ?thesis
    unfolding dispatch_funds_def Let_def n
    by (intro kept_bind [OF kept_call] kept_bind [OF kept_look [OF lasting_paying]])
      (auto split: option.split float_denial.split
        intro!: paying_review kept_return kept_from dispatch_settle_kept [OF assms refl])
qed

lemma dispatchFresh_kept: "kept (holds_won cid k) (dispatchFresh D T ov cid) (\<lambda>x d. True)"
proof -
  have claim: "kept (holds_won cid k) (db_read (wk_db D) (\<lambda>d. find_claim d cid))
      (\<lambda>row d. holds_won cid k d \<and> (\<forall>snap. row = Some snap \<longrightarrow> cl_claim_id snap = cid \<and> cl_asset_key snap = k))"
    by (rule kept_read [OF lasting_won]) (auto simp: holds_won_def dest: find_claim_mem)
  have asset: "kept (holds_won cid k) (db_read (wk_db D) (\<lambda>d. find_asset d k))
      (\<lambda>arow d. holds_won cid k d \<and> (\<forall>a. arow = Some a \<longrightarrow> paying cid a d))"
  proof (rule kept_read [OF lasting_won])
    fix d assume w: "holds_won cid k d"
    have "paying cid a d" if "find_asset d k = Some a" for a
      using w that row_find_Some [OF that] by (auto simp: paying_def asset_like_def)
    with w show "holds_won cid k d \<and> (\<forall>a. find_asset d k = Some a \<longrightarrow> paying cid a d)" by blast
  qed
  have known: "kept (paying cid a) m Q
      \<Longrightarrow> kept (\<lambda>d. holds_won cid k d \<and> (\<forall>x. Some a = Some x \<longrightarrow> paying cid x d)) m Q"
    for a and m :: "('w, 'a) act" and Q by (erule kept_pre) simp
  have rest: "kept (holds_won cid k)
     (io_bind (db_read (wk_db D) (\<lambda>d. find_asset d k)) (\<lambda>arow.
      case arow of
        None \<Rightarrow> io_return (result_of cid k OutSkipped None (Some ''asset missing''))
      | Some asset \<Rightarrow>
          if as_status asset = A_claimed \<or> as_status asset = Cancelled
          then io_return (result_of cid (as_asset_key asset) OutSkipped None (Some (''asset '' @ asset_status_str (as_status asset))))
          else io_bind (from_result (address (wk_kit D) (cl_claimant snap))) (\<lambda>_.
            if as_asset_type asset = AssetAnt then dispatch_ant D T ov snap asset
            else dispatch_funds D T snap asset))) (\<lambda>x d. True)"
    if cid: "cl_claim_id snap = cid" for snap
    by (rule kept_bind [OF asset], rule kept_option, simp add: kept_return, simp only:, rule known)
      (intro kept_if kept_from kept_return dispatch_ant_kept [of _ snap T ov, unfolded cid]
        dispatch_funds_kept [of _ snap T, unfolded cid]; simp)
  show ?thesis
    unfolding dispatchFresh_def
    by (rule kept_bind [OF claim], rule kept_known, rule kept_option) (simp_all add: kept_return rest)
qed

text \<open>Recovery.\<close>

lemma clear_still_won:
  assumes "holds_won cid k d"
  shows "holds_won cid k (clearDeadSignature E now cid d)"
  using assms by (auto simp: holds_won_def clearDeadSignature_def Let_def row_find_update)

lemma recover_expired_kept:
  "kept (\<lambda>d. on_record (cl_claim_id snap) d \<and> holds_won (cl_claim_id snap) k d) (recover_expired D T ov snap sig) (\<lambda>x d. True)"
proof -
  let ?L = "\<lambda>d. on_record (cl_claim_id snap) d \<and> holds_won (cl_claim_id snap) k d"
  have last: "lasting (wk_env D) ?L" by (intro lasting_intros)
  have final: "kept ?L (io_bind (db_do (wk_db D) (finalizeConfirmed (wk_env D) t (cl_claim_id snap) s)) (\<lambda>u. io_return x))
      (\<lambda>x d. True)" for t s and x :: dispatch_result
    by (rule kept_pre [OF record_finalize]) simp
  have stop: "kept ?L (db_tx (wk_db D) (markNeedsOperator (wk_env D) t (cl_claim_id snap) reason)) (\<lambda>x d. True)" for t reason
    by (rule kept_tx [OF last]) (auto simp: holds_won_def intro: books_needs_operator)
  have clear: "kept ?L (db_do (wk_db D) (clearDeadSignature (wk_env D) t (cl_claim_id snap)))
      (\<lambda>u. holds_won (cl_claim_id snap) k)" for t
    by (rule kept_do [OF last]) (simp add: books_clear clear_still_won)
  show ?thesis
    unfolding recover_expired_def Let_def
    by (rule kept_from, rule kept_bind [OF kept_call], rule kept_option)
      (intro kept_if kept_bind [OF stop] kept_bind [OF clear] dispatchFresh_kept kept_return final; simp)+
qed

lemma recover_kept:
  "kept (\<lambda>d. on_record (cl_claim_id snap) d \<and> holds_won (cl_claim_id snap) k d) (recover D T ov snap) (\<lambda>x d. True)"
proof -
  let ?L = "\<lambda>d. on_record (cl_claim_id snap) d \<and> holds_won (cl_claim_id snap) k d"
  have final: "kept ?L (io_bind (db_do (wk_db D) (finalizeConfirmed (wk_env D) t (cl_claim_id snap) s)) (\<lambda>u. io_return x))
      (\<lambda>x d. True)" for t s and x :: dispatch_result
    by (rule kept_pre [OF record_finalize]) simp
  have failed: "kept ?L (io_bind (db_do (wk_db D) (markFailed (wk_env D) t (cl_claim_id snap) reason)) (\<lambda>u. io_return x))
      (\<lambda>x d. True)" for t reason and x :: dispatch_result
    by (rule kept_pre [OF record_failed]) simp
  show ?thesis
    unfolding recover_def Let_def
    by (intro kept_if kept_return kept_bind [OF kept_call])
      (auto split: confirm_state.split intro!: final failed kept_return recover_expired_kept)
qed

lemma processClaim_kept: "kept (\<lambda>d. True) (processClaim D T ov cid) (\<lambda>x d. True)"
proof -
  have claim: "kept (\<lambda>d. True) (db_read (wk_db D) (\<lambda>d. find_claim d cid))
      (\<lambda>row d. \<forall>snap. row = Some snap \<longrightarrow> find_claim d cid = Some snap)"
    by (rule kept_read [OF lasting_const]) simp
  have fresh: "kept (\<lambda>d. \<forall>x. Some snap = Some x \<longrightarrow> find_claim d cid = Some x) (dispatchFresh D T ov cid) (\<lambda>x d. True)"
    if "won (cl_status snap)" for snap
    by (rule kept_pre [OF dispatchFresh_kept [of cid "cl_asset_key snap"]]) (use that in \<open>simp add: holds_won_def\<close>)
  have again: "kept (\<lambda>d. \<forall>x. Some snap = Some x \<longrightarrow> find_claim d cid = Some x) (recover D T ov snap) (\<lambda>x d. True)"
    if "won (cl_status snap)" "truthy (cl_dispatch_signature snap)" for snap
  proof (rule kept_pre [OF recover_kept [of snap "cl_asset_key snap"]])
    fix d assume "\<forall>x. Some snap = Some x \<longrightarrow> find_claim d cid = Some x"
    then have f: "find_claim d cid = Some snap" by simp
    then have "cl_claim_id snap = cid" using find_claim_mem by blast
    with f that show "on_record (cl_claim_id snap) d \<and> holds_won (cl_claim_id snap) (cl_asset_key snap) d"
      by (simp add: on_record_def holds_won_def)
  qed
  show ?thesis
    unfolding processClaim_def Let_def
    by (rule kept_bind [OF claim], rule kept_option, simp add: kept_return, simp only:)
      (intro kept_if kept_return fresh again; auto)
qed

lemma run_claims_kept: "kept (\<lambda>d. True) (run_claims D clk ids) (\<lambda>x d. True)"
proof (induction ids arbitrary: clk)
  case (Cons cid ids)
  have "kept (\<lambda>d. True) (catch_all (processClaim D (clk 0) None cid)
      (\<lambda>detail. io_return (result_of cid [] OutError None (Some detail)))) (\<lambda>x d. True)"
    by (rule kept_catch [OF processClaim_kept]) (simp add: kept_return)
  then show ?case unfolding run_claims.simps
    by (intro kept_bind [OF _ kept_bind [OF Cons.IH kept_return]]) simp_all
qed (simp add: kept_return)

lemma batch_claims_kept: "kept (\<lambda>d. True) (batch_claims D clk signer ids) (\<lambda>x d. True)"
proof (induction ids arbitrary: clk)
  case (Cons cid ids)
  show ?case unfolding batch_claims.simps
    by (intro kept_bind [OF processClaim_kept kept_bind [OF Cons.IH kept_return]]) simp
qed (simp add: kept_return)

lemma runOnce_kept: "kept (\<lambda>d. True) (runOnce D clk) (\<lambda>x d. True)"
  unfolding runOnce_def by (rule kept_bind [OF kept_look [OF lasting_const] run_claims_kept])

lemma runAntBatch_kept: "kept (\<lambda>d. True) (runAntBatch D clk signer) (\<lambda>x d. True)"
proof -
  have refuse: "kept (\<lambda>d. True) (from_result (Inl e)) (\<lambda>x d. True)" for e
    by (simp add: kept_def hoare_def from_result_def keeps_def)
  show ?thesis
    unfolding runAntBatch_def
    by (intro kept_if refuse kept_bind [OF kept_look [OF lasting_const] batch_claims_kept])
qed

lemma kept_end: "kept (\<lambda>d. True) m (\<lambda>x d. True) \<Longrightarrow> books_ok (fst s) \<Longrightarrow> m s = (r, s') \<Longrightarrow> books_ok (fst s')"
  using hoare_run [of fine m "\<lambda>x. fine" fine s r s'] by (cases r) (simp_all add: kept_def keeps_def)

lemma worker_step_books:
  assumes "worker_step D V s s'" and "books_ok (fst s)"
  shows "books_ok (fst s')"
  using assms(1)
proof cases
  case (worker_tick clk r)
  show ?thesis by (rule kept_end [OF runOnce_kept assms(2) worker_tick])
next
  case (worker_batch clk signer r)
  show ?thesis by (rule kept_end [OF runAntBatch_kept assms(2) worker_batch])
next
  case (worker_claim T ov cid r)
  show ?thesis by (rule kept_end [OF processClaim_kept assms(2) worker_claim])
next
  case (service_runs d d' w)
  then show ?thesis using assms(2) books_env by simp
qed (use assms(2) in simp)

lemma worker_runs_books: "(worker_step D V)\<^sup>*\<^sup>* s s' \<Longrightarrow> books_ok (fst s) \<Longrightarrow> books_ok (fst s')"
  by (induction rule: rtranclp_induct) (auto intro: worker_step_books)

end

section \<open>The report\<close>

lemma won_key_unique:
  assumes "db_inv d" and "c \<in> set (db_claims d)" and "c' \<in> set (db_claims d)" and "won (cl_status c)"
    and "won (cl_status c')" and "cl_asset_key c = cl_asset_key c'"
  shows "c = c'"
proof -
  have "claims_inv (db_claims d) (db_assets d)" using assms(1) by (simp add: db_inv_def)
  with assms(2-6) show ?thesis unfolding claims_inv_def by blast
qed

lemma confirmed_asset:
  assumes "books_ok d" and "c \<in> set (db_claims d)" and "cl_status c = Confirmed"
  obtains a where "a \<in> set (db_assets d)" "find_asset d (cl_asset_key c) = Some a" "as_asset_key a = cl_asset_key c"
    "as_status a = A_claimed" "recorded_amount a (cl_settlement_amount c)"
proof -
  have inv: "claims_inv (db_claims d) (db_assets d)" using books_inv [OF assms(1)] by (simp add: db_inv_def)
  have "won (cl_status c)" using assms(3) by simp
  then obtain a where a: "a \<in> set (db_assets d)" "holds_asset c a"
    using inv assms(2) unfolding claims_inv_def by metis
  have f: "find_asset d (cl_asset_key c) = Some a"
    using row_find_distinct [of as_asset_key "db_assets d" a] a inv by (simp add: claims_inv_def holds_asset_def)
  have "booked d c" by (rule books_claim [OF assms(1,2)])
  then have "recorded_amount a (cl_settlement_amount c)" using assms(3) f unfolding booked_def by auto
  with a f assms(3) show thesis by (intro that [of a]) (simp_all add: holds_asset_def)
qed

abbreviation asset_row_of :: "db \<Rightarrow> claim_row \<Rightarrow> asset_row" where
  "asset_row_of d c \<equiv> the (find_asset d (cl_asset_key c))"

lemma confirmed_rows_joined:
  assumes "books_ok d"
  shows "confirmed_rows scope d = map (\<lambda>c. (c, asset_row_of d c)) (confirmed_claims scope d)"
  unfolding confirmed_rows_def
  by (rule joined_rows [OF books_inv [OF assms]]) (simp add: confirmed_claims_def)

lemma confirmed_claim_iff:
  "c \<in> set (confirmed_claims scope d) \<longleftrightarrow>
     c \<in> set (db_claims d) \<and> cl_status c = Confirmed \<and> report_scope scope (cl_asset_key c)"
  by (auto simp: confirmed_claims_def)

text \<open>The assets of the confirmed claims are the claimed assets, each once.\<close>

lemma paid_assets:
  assumes "books_ok d"
  shows "distinct (map (asset_row_of d) (confirmed_claims scope d))"
    and "set (map (asset_row_of d) (confirmed_claims scope d)) = set (claimed_assets scope d)"
    and "distinct (map cl_asset_key (confirmed_claims scope d))"
proof -
  have inv: "db_inv d" by (rule books_inv [OF assms])
  have ids: "distinct (map cl_claim_id (db_claims d))" "distinct (map as_asset_key (db_assets d))"
    using inv by (simp_all add: db_inv_def claims_inv_def)
  have cs: "distinct (confirmed_claims scope d)"
    using ids(1) by (simp add: confirmed_claims_def distinct_map)
  have key: "as_asset_key (asset_row_of d c) = cl_asset_key c" if "c \<in> set (confirmed_claims scope d)" for c
    using that confirmed_asset [OF assms] unfolding confirmed_claim_iff by (metis option.sel)
  have keys: "inj_on cl_asset_key (set (confirmed_claims scope d))"
    by (rule inj_onI) (auto simp: confirmed_claim_iff intro: won_key_unique [OF inv])
  then show "distinct (map cl_asset_key (confirmed_claims scope d))" using cs by (simp add: distinct_map)
  show "distinct (map (asset_row_of d) (confirmed_claims scope d))"
    using cs keys key unfolding distinct_map inj_on_def by metis
  show "set (map (asset_row_of d) (confirmed_claims scope d)) = set (claimed_assets scope d)"
  proof (intro set_eqI iffI)
    fix a assume "a \<in> set (map (asset_row_of d) (confirmed_claims scope d))"
    then obtain c where c: "c \<in> set (db_claims d)" "cl_status c = Confirmed" "report_scope scope (cl_asset_key c)"
      "a = asset_row_of d c" by (auto simp: confirmed_claim_iff)
    obtain b where "b \<in> set (db_assets d)" "find_asset d (cl_asset_key c) = Some b" "as_asset_key b = cl_asset_key c"
      "as_status b = A_claimed" by (rule confirmed_asset [OF assms c(1,2)])
    with c(3,4) show "a \<in> set (claimed_assets scope d)" by (simp add: claimed_assets_def)
  next
    fix a assume "a \<in> set (claimed_assets scope d)"
    then have a: "a \<in> set (db_assets d)" "as_status a = A_claimed" "report_scope scope (as_asset_key a)"
      by (simp_all add: claimed_assets_def)
    obtain c where c: "c \<in> set (db_claims d)" "cl_status c = Confirmed" "cl_asset_key c = as_asset_key a"
      using books_asset [OF assms a(1,2)] by blast
    have "a = asset_row_of d c" using row_find_distinct [OF ids(2) a(1)] c(3) by simp
    with c a(3) show "a \<in> set (map (asset_row_of d) (confirmed_claims scope d))" by (simp add: confirmed_claim_iff)
  qed
qed

lemma claimed_assets_distinct: "db_inv d \<Longrightarrow> distinct (claimed_assets scope d)"
  by (simp add: claimed_assets_def db_inv_def claims_inv_def distinct_map)

theorem books_accounted:
  assumes "books_ok d"
  shows "accounted_for scope d"
  unfolding accounted_for_def confirmed_rows_joined [OF assms]
proof (intro conjI)
  show "\<forall>r \<in> set (map (\<lambda>c. (c, asset_row_of d c)) (confirmed_claims scope d)). settled_right (fst r) (snd r)"
  proof
    fix r assume "r \<in> set (map (\<lambda>c. (c, asset_row_of d c)) (confirmed_claims scope d))"
    then obtain c where r: "r = (c, asset_row_of d c)" and c: "c \<in> set (db_claims d)" "cl_status c = Confirmed"
      by (auto simp: confirmed_claim_iff)
    obtain a where a: "find_asset d (cl_asset_key c) = Some a" "as_status a = A_claimed"
      "recorded_amount a (cl_settlement_amount c)" by (rule confirmed_asset [OF assms c])
    have "truthy (cl_dispatch_signature c)" using books_claim [OF assms c(1)] c(2) by (simp add: booked_def)
    with a show "settled_right (fst r) (snd r)" by (simp add: r settled_right_def recorded_amount_def)
  qed
  show "distinct (map (\<lambda>r. cl_asset_key (fst r)) (map (\<lambda>c. (c, asset_row_of d c)) (confirmed_claims scope d)))"
    using paid_assets(3) [OF assms, of scope] by (simp add: comp_def)
  show "\<forall>a \<in> set (claimed_assets scope d).
      \<exists>r \<in> set (map (\<lambda>c. (c, asset_row_of d c)) (confirmed_claims scope d)). cl_asset_key (fst r) = as_asset_key a"
  proof
    fix a assume a: "a \<in> set (claimed_assets scope d)"
    then obtain c where "c \<in> set (db_claims d)" "cl_status c = Confirmed" "cl_asset_key c = as_asset_key a"
      using books_asset [OF assms, of a] by (auto simp: claimed_assets_def)
    with a show "\<exists>r \<in> set (map (\<lambda>c. (c, asset_row_of d c)) (confirmed_claims scope d)). cl_asset_key (fst r) = as_asset_key a"
      by (auto simp: claimed_assets_def confirmed_claim_iff)
  qed
  show "\<forall>c \<in> set (confirmed_claims scope d). audit_count d (cl_claim_id c) ''claim.dispatching'' > 0
      \<and> audit_count d (cl_claim_id c) ''claim.confirmed'' > 0"
    using books_claim [OF assms] by (auto simp: confirmed_claim_iff booked_def)
qed

lemma sum_list_same_set:
  fixes F :: "'a \<Rightarrow> int"
  assumes "distinct xs" and "distinct ys" and "set xs = set ys"
  shows "sum_list (map F (filter P xs)) = sum_list (map F (filter P ys))"
  using assms by (simp add: sum_list_distinct_conv_sum_set)

definition funds :: "asset_row \<Rightarrow> bool" where "funds a \<longleftrightarrow> as_asset_type a \<noteq> AssetAnt"

text \<open>The value of the claimed tokens and vaults.\<close>

definition claimed_value :: "string list option \<Rightarrow> db \<Rightarrow> int" where
  "claimed_value scope d = sum_list (map (\<lambda>a. amount_or_zero (as_amount a)) (filter funds (claimed_assets scope d)))"

lemma books_totals:
  assumes "books_ok d"
  shows "dp_dispatchedTotalMario (reconcileDispatch scope d) = claimed_value scope d"
    and "dp_claimedTotalMario (reconcileDispatch scope d) = claimed_value scope d"
    and "dp_confirmedClaims (reconcileDispatch scope d) = dp_claimedAssets (reconcileDispatch scope d)"
proof -
  let ?cs = "confirmed_claims scope d"
  have row: "funds_row (c, asset_row_of d c) = funds (asset_row_of d c)"
    "funds (asset_row_of d c) \<Longrightarrow> the (cl_settlement_amount c) = amount_or_zero (as_amount (asset_row_of d c))"
    if "c \<in> set ?cs" for c
  proof -
    have c: "c \<in> set (db_claims d)" "cl_status c = Confirmed" using that by (simp_all add: confirmed_claim_iff)
    obtain a where "find_asset d (cl_asset_key c) = Some a" "recorded_amount a (cl_settlement_amount c)"
      by (rule confirmed_asset [OF assms c])
    then show "funds_row (c, asset_row_of d c) = funds (asset_row_of d c)"
      "funds (asset_row_of d c) \<Longrightarrow> the (cl_settlement_amount c) = amount_or_zero (as_amount (asset_row_of d c))"
      by (simp_all add: funds_row_def funds_def recorded_amount_def)
  qed
  have rows: "filter funds_row (confirmed_rows scope d) = map (\<lambda>c. (c, asset_row_of d c)) (filter (\<lambda>c. funds (asset_row_of d c)) ?cs)"
    using row(1) by (simp add: confirmed_rows_joined [OF assms] filter_map comp_def cong: filter_cong)
  have "sum_list (map (\<lambda>c. amount_or_zero (as_amount (asset_row_of d c))) (filter (\<lambda>c. funds (asset_row_of d c)) ?cs))
      = sum_list (map (\<lambda>a. amount_or_zero (as_amount a)) (filter funds (map (asset_row_of d) ?cs)))"
    by (simp add: filter_map comp_def)
  also have "\<dots> = claimed_value scope d" unfolding claimed_value_def
    by (rule sum_list_same_set [OF paid_assets(1) [OF assms] claimed_assets_distinct [OF books_inv [OF assms]]
          paid_assets(2) [OF assms]])
  finally have t: "sum_list (map (\<lambda>c. amount_or_zero (as_amount (asset_row_of d c))) (filter (\<lambda>c. funds (asset_row_of d c)) ?cs)) = claimed_value scope d" .
  have same: "map (\<lambda>c. the (cl_settlement_amount c)) (filter (\<lambda>c. funds (asset_row_of d c)) ?cs)
      = map (\<lambda>c. amount_or_zero (as_amount (asset_row_of d c))) (filter (\<lambda>c. funds (asset_row_of d c)) ?cs)"
    using row(2) by (intro map_cong refl) auto
  show "dp_dispatchedTotalMario (reconcileDispatch scope d) = claimed_value scope d" "dp_claimedTotalMario (reconcileDispatch scope d) = claimed_value scope d"
    unfolding reconcile_totals rows map_map comp_def fst_conv snd_conv same t by (rule refl)+
  have "length ?cs = card (set (map (asset_row_of d) ?cs))"
    using distinct_card [OF paid_assets(1) [OF assms, of scope]] by simp
  also have "\<dots> = length (claimed_assets scope d)"
    unfolding paid_assets(2) [OF assms] by (rule distinct_card [OF claimed_assets_distinct [OF books_inv [OF assms]]])
  finally show "dp_confirmedClaims (reconcileDispatch scope d) = dp_claimedAssets (reconcileDispatch scope d)"
    by (simp add: reconcileDispatch_def Let_def confirmed_rows_joined [OF assms])
qed

lemma books_initial:
  assumes "db_inv d" and "no_dispatch_yet d" and "\<forall>a \<in> set (db_assets d). as_status a \<noteq> A_claimed"
  shows "books_ok d"
  using assms by (auto simp: books_ok_def booked_def no_dispatch_yet_def truthy_def)

text \<open>
  C6. Dispatch accounts for itself: after any history of the worker - ticks, operator batches, single
  claims, each possibly cut off by a failure, with the service, approvals and reservations between them, and
  whatever the chain answers - the reconciliation reports no issue, for every scope. There are as many confirmed claims as
  claimed assets, and the amount dispatched is the amount claimed, which is the value of the tokens and vaults that
  are claimed. The hypotheses are that the worker is alone, that signatures are not empty, and that it
  starts before anything was dispatched.
\<close>

theorem dispatch_reconciles:
  assumes "lone_worker D" and "db_inv d" and "no_dispatch_yet d"
    and "\<forall>a \<in> set (db_assets d). as_status a \<noteq> A_claimed"
    and "(worker_step D V)\<^sup>*\<^sup>* (d, w) (d', w')"
  shows "dp_ok (reconcileDispatch scope d')
     \<and> dp_confirmedClaims (reconcileDispatch scope d') = dp_claimedAssets (reconcileDispatch scope d')
     \<and> dp_dispatchedTotalMario (reconcileDispatch scope d') = dp_claimedTotalMario (reconcileDispatch scope d')
     \<and> dp_claimedTotalMario (reconcileDispatch scope d') = claimed_value scope d'"
proof -
  have "books_ok (fst (d, w))" using books_initial [OF assms(2-4)] by simp
  then have books: "books_ok d'" using lone_worker.worker_runs_books [OF assms(1,5)] by simp
  then show ?thesis using books_accounted [OF books, of scope] books_totals [OF books, of scope]
    unfolding reconcile_ok_iff by simp
qed

interpretation demo_lone: lone_worker demo_deps
proof
  show "(env_step (wk_env demo_deps))\<^sup>*\<^sup>* d (ac_others (wk_db demo_deps) w d)" for d w by (simp add: demo_deps_def)
  show "sd_signature sd \<noteq> []" if "gw_signTransaction (wk_gateway demo_deps) ixs fp w = (Inr sd, w')" for ixs fp w sd w'
    using that by (auto simp: demo_deps_def solana_gateway_def signTransaction_def sim_rpc_def sim_sign_def
        io_bind_def io_return_def Let_def sim_sig_def)
qed

theorem dispatch_reconciles_witness:
  "\<exists>d' w' c. (worker_step demo_deps sim_view)\<^sup>*\<^sup>* (demo_verified_db, demo_world) (d', w')
     \<and> c \<in> set (db_claims d') \<and> cl_status c = Confirmed \<and> dp_ok (reconcileDispatch None d')
     \<and> dp_dispatchedTotalMario (reconcileDispatch None d') = dp_claimedTotalMario (reconcileDispatch None d')"
proof -
  obtain d' w' c s where h: "(worker_step demo_deps sim_view)\<^sup>*\<^sup>* (demo_verified_db, demo_world) (d', w')"
    "c \<in> set (db_claims d')" "cl_status c = Confirmed" by (rule demo_history)
  have "\<forall>a \<in> set (db_assets demo_verified_db). as_status a \<noteq> A_claimed"
    by (simp add: demo_verified_db_def demo_token_asset_def)
  from dispatch_reconciles [OF demo_lone.lone_worker_axioms demo_verified_facts(1,2) this h(1), of None] h
  show ?thesis by blast
qed

end
