(* ===== verification/Ops_Alerts.thy ===== *)
theory Ops_Alerts
  imports Dispatch_Books Transparency Key_Handling
begin

text \<open>
  What an operator is told: the metrics collected from the database (\<open>ops/metrics.ts\<close>), the alerts
  they raise (\<open>ops/alerts.ts\<close>) and the router that posts alerts to Slack (\<open>ops/alert-slack.ts\<close>).
  Amounts are integers here and become decimal text in an alert; the values of an alert are the text
  a template prints of them. Characters beyond ASCII in messages are written in ASCII. Thresholds are
  whole numbers.
\<close>

section \<open>Metrics\<close>

record db_metrics =
  dm_byStatus :: "(string \<times> nat) list"
  dm_claimTotal :: nat
  dm_confirmedLastHour :: nat
  dm_confirmedLast24h :: nat
  dm_createdLastHour :: nat
  dm_reviewQueueDepth :: nat
  dm_oldestReviewAgeSec :: "int option"
  dm_oldestDispatchingAgeSec :: "int option"
  dm_assetsByStatus :: "(string \<times> nat) list"
  dm_assetTotal :: nat
  dm_failed :: nat
  dm_dispatchedTotalMario :: int
  dm_claimedTotalMario :: int
  dm_driftMario :: int
  dm_outstandingMario :: int
  dm_claimedMario :: int
  dm_outstandingAnts :: nat
  dm_claimedAnts :: nat
  dm_headSeq :: "nat option"
  dm_unsignedRows :: nat
  dm_lastAnchorAt :: "string option"
  dm_lastAnchorAgeSec :: "int option"
  dm_lastAnchorConfirmed :: "bool option"

definition CLAIM_STATUSES :: "string list" where
  "CLAIM_STATUSES = [''received'', ''verified'', ''pending_review'', ''dispatching'', ''confirmed'', ''rejected'',
     ''failed'', ''needs_operator'', ''awaiting_manual_vault_delivery'']"

text \<open>\<open>GROUP BY status\<close>: a group for each status that occurs.\<close>

definition group_counts :: "string list \<Rightarrow> (string \<times> nat) list" where
  "group_counts xs = map (\<lambda>s. (s, count_list xs s)) (remdups xs)"

definition put_counts :: "(string \<times> nat) list \<Rightarrow> (string \<times> nat) list \<Rightarrow> (string \<times> nat) list" where
  "put_counts groups m = fold (\<lambda>(s, n). AList.update s n) groups m"

definition status_count :: "(string \<times> nat) list \<Rightarrow> string \<Rightarrow> nat" where
  "status_count m s = (case map_of m s of Some n \<Rightarrow> n | None \<Rightarrow> 0)"

text \<open>\<open>EXTRACT(EPOCH FROM age)::bigint\<close> rounds to whole seconds, halves away from zero.\<close>

definition epoch_seconds :: "int \<Rightarrow> int" where
  "epoch_seconds ms = (if 0 \<le> ms then (ms + 500) div 1000 else - ((500 - ms) div 1000))"

definition oldest_age :: "int \<Rightarrow> int list \<Rightarrow> int option" where
  "oldest_age now stamps = (if stamps = [] then None else Some (epoch_seconds (now - Min (set stamps))))"

definition joined_claims :: "db \<Rightarrow> (claim_row \<times> asset_row) list" where
  "joined_claims d = concat (map (\<lambda>c. map (Pair c) (filter (\<lambda>a. as_asset_key a = cl_asset_key c) (db_assets d))) (db_claims d))"

definition paid_out :: "claim_row \<times> asset_row \<Rightarrow> bool" where
  "paid_out r \<longleftrightarrow> cl_status (fst r) = Confirmed \<and> as_asset_type (snd r) \<in> {AssetToken, AssetVault}"

text \<open>The order of \<open>audit_anchors\<close> by \<open>created_at\<close>, whose time in milliseconds is \<open>anchoredAt\<close>.\<close>

definition last_head_anchor :: "(anchor_row \<Rightarrow> int) \<Rightarrow> transparency_store \<Rightarrow> anchor_row option" where
  "last_head_anchor anchoredAt ts =
     (let rows = sort_key anchoredAt (filter (\<lambda>r. ar_kind r = AuditHead) (ts_anchors ts))
      in if rows = [] then None else Some (last rows))"

definition unsigned_rows :: "audit_row list \<Rightarrow> nat" where
  "unsigned_rows rows = length (filter (\<lambda>r. length (ar_signature r) = 0) rows)"

text \<open>\<open>startedAt\<close> is the column \<open>dispatch_started_at\<close>, which nothing else reads.\<close>

definition collectDbMetrics ::
  "int \<Rightarrow> (string \<Rightarrow> int option) \<Rightarrow> (anchor_row \<Rightarrow> int) \<Rightarrow> transparency_store \<Rightarrow> db \<Rightarrow> db_metrics" where
  "collectDbMetrics now startedAt anchoredAt ts d =
     (let cs = db_claims d;
          byStatus = put_counts (group_counts (map (\<lambda>c. claim_status_str (cl_status c)) cs)) (map (\<lambda>s. (s, 0)) CLAIM_STATUSES);
          assets = put_counts (group_counts (map (\<lambda>a. asset_status_str (as_status a)) (db_assets d))) [];
          recent = (\<lambda>span t. t > now - span);
          confirmedIn = (\<lambda>span. length (filter (\<lambda>c. cl_status c = Confirmed
             \<and> (case cl_confirmed_at c of Some t \<Rightarrow> recent span t | None \<Rightarrow> False)) cs));
          review = filter (\<lambda>c. cl_status c = PendingReview \<and> cl_approved_at c = None) cs;
          flying = filter (\<lambda>c. cl_status c = Dispatching) cs;
          paid = filter paid_out (joined_claims d);
          dispatched = sum_list (map (\<lambda>r. amount_or_zero (cl_settlement_amount (fst r))) paid);
          claimed = sum_list (map (\<lambda>r. amount_or_zero (as_amount (snd r))) paid);
          open_asset = (\<lambda>a. as_status a \<notin> {A_claimed, Cancelled});
          anchor = last_head_anchor anchoredAt ts
      in \<lparr>dm_byStatus = byStatus, dm_claimTotal = sum_list (map snd byStatus),
          dm_confirmedLastHour = confirmedIn 3600000, dm_confirmedLast24h = confirmedIn 86400000,
          dm_createdLastHour = length (filter (\<lambda>c. recent 3600000 (cl_created_at c)) cs),
          dm_reviewQueueDepth = length review,
          dm_oldestReviewAgeSec = oldest_age now (map cl_created_at review),
          dm_oldestDispatchingAgeSec = oldest_age now (List.map_filter (\<lambda>c. startedAt (cl_claim_id c)) flying),
          dm_assetsByStatus = assets, dm_assetTotal = sum_list (map snd assets),
          dm_failed = length (filter (\<lambda>r. cl_status (fst r) = Failed) (joined_claims d)),
          dm_dispatchedTotalMario = dispatched, dm_claimedTotalMario = claimed, dm_driftMario = dispatched - claimed,
          dm_outstandingMario = amount_sum open_asset (db_assets d),
          dm_claimedMario = amount_sum (\<lambda>a. as_status a = A_claimed) (db_assets d),
          dm_outstandingAnts = ant_count open_asset (db_assets d),
          dm_claimedAnts = ant_count (\<lambda>a. as_status a = A_claimed) (db_assets d),
          dm_headSeq = (if db_audit d = [] then None else Some (Max (set (map ar_seq (db_audit d))))),
          dm_unsignedRows = unsigned_rows (db_audit d),
          dm_lastAnchorAt = map_option ar_createdAt anchor,
          dm_lastAnchorAgeSec = map_option (\<lambda>r. epoch_seconds (now - anchoredAt r)) anchor,
          dm_lastAnchorConfirmed = map_option ar_confirmed anchor\<rparr>)"

record sol_balance =
  sb_balanceLamports :: int
  sb_thresholdLamports :: int

record reserves_metrics =
  rm_totalReserveMario :: string
  rm_outstandingMario :: string
  rm_surplusMario :: string
  rm_tokenVaultCovered :: bool
  rm_antCovered :: "ant_coverage option"

record metrics_extras =
  mx_float :: "float_status option"
  mx_reserves :: "reserves_report option"
  mx_dispenserSol :: "sol_balance option"

record metrics_snapshot =
  ms_generatedAt :: string
  ms_db :: db_metrics
  ms_float :: "float_status option"
  ms_dispenserSol :: "sol_balance option"
  ms_reserves :: "reserves_metrics option"

definition reserves_block :: "reserves_report \<Rightarrow> reserves_metrics" where
  "reserves_block r = \<lparr>rm_totalReserveMario = rr_totalReserveMario r, rm_outstandingMario = rr_outstandingMario r,
     rm_surplusMario = rr_surplusMario r, rm_tokenVaultCovered = rr_tokenVaultCovered r, rm_antCovered = rr_antCovered r\<rparr>"

definition collectMetrics :: "int \<Rightarrow> (string \<Rightarrow> int option) \<Rightarrow> (anchor_row \<Rightarrow> int) \<Rightarrow> transparency_store \<Rightarrow> db
    \<Rightarrow> metrics_extras \<Rightarrow> metrics_snapshot" where
  "collectMetrics now startedAt anchoredAt ts d extras =
     \<lparr>ms_generatedAt = iso_string now, ms_db = collectDbMetrics now startedAt anchoredAt ts d,
      ms_float = mx_float extras, ms_dispenserSol = mx_dispenserSol extras,
      ms_reserves = map_option reserves_block (mx_reserves extras)\<rparr>"

section \<open>Alerts\<close>

datatype severity = Critical | Warning | Info

record alert =
  al_name :: string
  al_severity :: severity
  al_message :: string
  al_value :: string
  al_threshold :: "string option"

record alert_thresholds =
  at_reviewQueueWarn :: int
  at_reviewSlaSeconds :: int
  at_dispatchStallSeconds :: int
  at_anchorCadenceSeconds :: int
  at_anchorAlertsEnabled :: bool
  at_dispatchFailureCritical :: int

definition DEFAULT_THRESHOLDS :: alert_thresholds where
  "DEFAULT_THRESHOLDS = \<lparr>at_reviewQueueWarn = 25, at_reviewSlaSeconds = 24 * 3600, at_dispatchStallSeconds = 10 * 60,
     at_anchorCadenceSeconds = 24 * 3600, at_anchorAlertsEnabled = True, at_dispatchFailureCritical = 1\<rparr>"

definition solStr :: "int \<Rightarrow> string" where
  "solStr lamports =
     (let whole = lamports sdiv 1000000000;
          frac = rev (dropWhile (\<lambda>c. c = CHR ''0'') (rev (pad0 9 (lamports smod 1000000000))))
      in dec_int whole @ (if frac \<noteq> [] then CHR ''.'' # frac else []) @ '' SOL ('' @ dec_int lamports @ '' lamports)'')"

definition arioStr :: "int \<Rightarrow> string" where
  "arioStr mario = dec_int (mario sdiv 1000000) @ '' ARIO ('' @ dec_int mario @ '' mARIO)''"

definition quoted :: "string \<Rightarrow> string" where
  "quoted s = CHR 0x27 # s @ [CHR 0x27]"

definition raise_if :: "bool \<Rightarrow> string \<Rightarrow> severity \<Rightarrow> string \<Rightarrow> string \<Rightarrow> string option \<Rightarrow> alert list" where
  "raise_if b name sev msg v thr =
     (if b then [\<lparr>al_name = name, al_severity = sev, al_message = msg, al_value = v, al_threshold = thr\<rparr>] else [])"

definition money_alerts :: "metrics_snapshot \<Rightarrow> alert list" where
  "money_alerts s =
     (let m = ms_db s in
      raise_if (dm_driftMario m \<noteq> 0) ''reconciliation-mismatch'' Critical
        (''dispatched != claimed: drift '' @ dec_int (dm_driftMario m) @ '' mARIO (sum dispatched ''
         @ dec_int (dm_dispatchedTotalMario m) @ '' vs sum claimed '' @ dec_int (dm_claimedTotalMario m)
         @ ''). Freeze dispatch + investigate before any further dispense.'')
        (dec_int (dm_driftMario m)) (Some ''0'')
      @ (case ms_reserves s of
           None \<Rightarrow> []
         | Some r \<Rightarrow> raise_if (\<not> rm_tokenVaultCovered r) ''reserves-shortfall'' Critical
             (''on-chain reserves do NOT cover the outstanding liability: surplus '' @ rm_surplusMario r @ '' mARIO (reserve ''
              @ rm_totalReserveMario r @ '' vs outstanding '' @ rm_outstandingMario r @ ''). Top up from cold immediately.'')
             (rm_surplusMario r) (Some ''0'')))"

definition claim_alerts :: "alert_thresholds \<Rightarrow> metrics_snapshot \<Rightarrow> alert list" where
  "claim_alerts t s =
     (let m = ms_db s; needsOperator = status_count (dm_byStatus m) ''needs_operator'';
          manualVault = status_count (dm_byStatus m) ''awaiting_manual_vault_delivery'' in
      raise_if (needsOperator > 0) ''dispatch-needs-operator'' Critical
        (dec_nat needsOperator @ '' claim(s) are frozen '' @ quoted ''needs_operator'' @ '' after exceeding the dispatch re-sign cap''
         @ '' - a possible lagging/pooled confirm-RPC. The worker will NOT auto-retry. Verify the dispenser'' @ [CHR 0x27]
         @ ''s on-chain outflows before any manual re-drive.'') (dec_nat needsOperator) None
      @ raise_if (manualVault > 0) ''vault-manual-delivery-queue'' Warning
        (dec_nat manualVault @ '' still-locked vault claim(s) await MANUAL delivery - run '' @ quoted ''yarn vault:manual-queue''
         @ '' and hand-deliver each with its correct absolute unlock date (or deliver liquid if already unlocked).'')
        (dec_nat manualVault) None
      @ raise_if (int (dm_failed m) \<ge> at_dispatchFailureCritical t) ''dispatch-failure'' Critical
        (dec_nat (dm_failed m) @ '' claim(s) are in terminal '' @ quoted ''failed''
         @ '' - the on-chain tx failed and the asset is held for an operator (never auto-retried). Inspect and re-drive.'')
        (dec_nat (dm_failed m)) (Some (dec_int (at_dispatchFailureCritical t))))"

definition float_alerts :: "metrics_snapshot \<Rightarrow> alert list" where
  "float_alerts s =
     (case ms_dispenserSol s of
        None \<Rightarrow> []
      | Some b \<Rightarrow> raise_if (sb_balanceLamports b < sb_thresholdLamports b) ''dispenser-sol-low''
          (if sb_balanceLamports b < sb_thresholdLamports b sdiv 10 then Critical else Warning)
          (''hot dispenser SOL '' @ solStr (sb_balanceLamports b) @ '' is below the '' @ solStr (sb_thresholdLamports b)
           @ '' top-up threshold - it pays tx fees + recipient-ATA rent, so dispatch will stall when it runs dry. Top up the treasury key.'')
          (dec_int (sb_balanceLamports b)) (Some (dec_int (sb_thresholdLamports b))))
     @ (case ms_float s of
          None \<Rightarrow> []
        | Some f \<Rightarrow>
            raise_if (fs_refillNeeded f) ''float-low'' Warning
              (''hot float available '' @ arioStr (fs_availableMario f) @ '' is below the '' @ arioStr (fs_refillThresholdMario f)
               @ '' threshold - top up from the cold reserve (4-eyes runbook).'')
              (dec_int (fs_availableMario f)) (Some (dec_int (fs_refillThresholdMario f)))
          @ raise_if (fs_overCap f) ''float-over-cap'' Warning
              (''hot float balance '' @ dec_int (fs_balanceMario f) @ '' mARIO EXCEEDS the '' @ dec_int (fs_capMario f)
               @ '' cap - the hot key must never hold more than the cap. Sweep the excess back to cold.'')
              (dec_int (fs_balanceMario f)) (Some (dec_int (fs_capMario f))))"

definition queue_alerts :: "alert_thresholds \<Rightarrow> metrics_snapshot \<Rightarrow> alert list" where
  "queue_alerts t s =
     (let m = ms_db s; over = (\<lambda>age limit. case age of Some n \<Rightarrow> n > limit | None \<Rightarrow> False);
          age_text = (\<lambda>age. case age of Some n \<Rightarrow> dec_int n | None \<Rightarrow> ''null'') in
      raise_if (int (dm_reviewQueueDepth m) \<ge> at_reviewQueueWarn t) ''big-claim-queue-growing'' Warning
        (dec_nat (dm_reviewQueueDepth m) @ '' claim(s) awaiting operator review (>=100k brake / ANT approvals). Work the queue.'')
        (dec_nat (dm_reviewQueueDepth m)) (Some (dec_int (at_reviewQueueWarn t)))
      @ raise_if (over (dm_oldestReviewAgeSec m) (at_reviewSlaSeconds t)) ''big-claim-queue-sla-breach'' Warning
        (''oldest review item is '' @ age_text (dm_oldestReviewAgeSec m) @ ''s old, past the '' @ dec_int (at_reviewSlaSeconds t)
         @ ''s SLA. Approve/reject it.'') (age_text (dm_oldestReviewAgeSec m)) (Some (dec_int (at_reviewSlaSeconds t)))
      @ raise_if (over (dm_oldestDispatchingAgeSec m) (at_dispatchStallSeconds t)) ''dispatch-stalled'' Warning
        (''a claim has been '' @ quoted ''dispatching'' @ '' for '' @ age_text (dm_oldestDispatchingAgeSec m) @ ''s (> ''
         @ dec_int (at_dispatchStallSeconds t) @ ''s). The worker may be down or the confirm-RPC lagging - check the worker + CONFIRM_RPC_URL.'')
        (age_text (dm_oldestDispatchingAgeSec m)) (Some (dec_int (at_dispatchStallSeconds t))))"

definition anchor_alerts :: "alert_thresholds \<Rightarrow> metrics_snapshot \<Rightarrow> alert list" where
  "anchor_alerts t s =
     (let m = ms_db s; warnAt = at_anchorCadenceSeconds t * 2 in
      if \<not> at_anchorAlertsEnabled t then []
      else case dm_lastAnchorAgeSec m of
        None \<Rightarrow>
          (case dm_headSeq m of
             None \<Rightarrow> []
           | Some n \<Rightarrow> raise_if True ''anchor-failure'' Warning
               (''the audit log (head seq '' @ dec_nat n @ '') has NEVER been anchored on-chain. Run the audit-anchor CLI.'')
               ''none'' None)
      | Some age \<Rightarrow>
          if age > warnAt
          then raise_if True ''anchor-failure'' Warning
            (''last audit-head anchor is '' @ dec_int age @ ''s old (> '' @ dec_int warnAt @ ''s = 2x cadence). Anchor cadence has slipped.'')
            (dec_int age) (Some (dec_int warnAt))
          else raise_if (dm_lastAnchorConfirmed m = Some False) ''anchor-unconfirmed'' Warning
            ''the most recent audit-head anchor tx is not confirmed on-chain - verify it landed.'' ''unconfirmed'' None)"

definition audit_alerts :: "metrics_snapshot \<Rightarrow> alert list" where
  "audit_alerts s =
     (let n = dm_unsignedRows (ms_db s) in
      raise_if (n > 0) ''audit-unsigned-backlog'' Warning
        (dec_nat n @ '' audit_log row(s) are unsigned - the sign-on-write hook or backfill isn'' @ [CHR 0x27]
         @ ''t running. Third-party verification of those rows fails.'') (dec_nat n) None)"

definition evaluateAlerts :: "metrics_snapshot \<Rightarrow> alert_thresholds \<Rightarrow> alert list" where
  "evaluateAlerts s t = money_alerts s @ claim_alerts t s @ float_alerts s @ queue_alerts t s @ anchor_alerts t s @ audit_alerts s"

definition worstSeverity :: "alert list \<Rightarrow> severity option" where
  "worstSeverity alerts =
     (if \<exists>a \<in> set alerts. al_severity a = Critical then Some Critical
      else if \<exists>a \<in> set alerts. al_severity a = Warning then Some Warning
      else if \<exists>a \<in> set alerts. al_severity a = Info then Some Info
      else None)"

section \<open>Routing to Slack\<close>

definition isRoutableToSlack :: "alert \<Rightarrow> bool" where
  "isRoutableToSlack a \<longleftrightarrow> al_severity a = Critical \<or> al_severity a = Warning"

fun severity_str :: "severity \<Rightarrow> string" where
  "severity_str Critical = ''critical''"
| "severity_str Warning = ''warning''"
| "severity_str Info = ''info''"

text \<open>The emoji of a severity is the parameter \<open>emoji\<close>.\<close>

definition formatSlackAlert :: "(severity \<Rightarrow> string) \<Rightarrow> alert \<Rightarrow> string" where
  "formatSlackAlert emoji a =
     (let shown = (case al_threshold a of Some t \<Rightarrow> al_value a @ '' (threshold '' @ t @ '')'' | None \<Rightarrow> al_value a)
      in emoji (al_severity a) @ '' *'' @ al_name a @ ''* ['' @ severity_str (al_severity a) @ ''] - '' @ shown
         @ CHR 0x0A # al_message a)"

definition DEFAULT_REPOST_INTERVAL_MS :: int where "DEFAULT_REPOST_INTERVAL_MS = 30 * 60 * 1000"

record router_options =
  ro_interval :: int
  ro_intervalByName :: "(string \<times> int) list"

text \<open>\<open>repostIntervalMs\<close> and \<open>repostIntervalMsByName\<close> may be absent.\<close>

definition router_options_of :: "int option \<Rightarrow> (string \<times> int) list option \<Rightarrow> router_options" where
  "router_options_of interval byName =
     \<lparr>ro_interval = (case interval of Some n \<Rightarrow> n | None \<Rightarrow> DEFAULT_REPOST_INTERVAL_MS),
      ro_intervalByName = (case byName of Some m \<Rightarrow> m | None \<Rightarrow> [])\<rparr>"

definition intervalFor :: "router_options \<Rightarrow> string \<Rightarrow> int" where
  "intervalFor R name = (case map_of (ro_intervalByName R) name of
     Some n \<Rightarrow> if n \<ge> 0 then n else ro_interval R | None \<Rightarrow> ro_interval R)"

type_synonym last_posted = "string \<rightharpoonup> int"

text \<open>The loop over the alerts; what it sends is the text of each posted alert, in order.\<close>

fun post_due :: "router_options \<Rightarrow> int \<Rightarrow> alert list \<Rightarrow> last_posted \<Rightarrow> alert list \<times> last_posted" where
  "post_due R now [] m = ([], m)"
| "post_due R now (a # as) m =
     (if \<not> isRoutableToSlack a then post_due R now as m
      else case m (al_name a) of
        Some t \<Rightarrow>
          if now - t < intervalFor R (al_name a) then post_due R now as m
          else (case post_due R now as (m(al_name a \<mapsto> now)) of (ps, m') \<Rightarrow> (a # ps, m'))
      | None \<Rightarrow> (case post_due R now as (m(al_name a \<mapsto> now)) of (ps, m') \<Rightarrow> (a # ps, m')))"

definition firing :: "alert list \<Rightarrow> string set" where
  "firing alerts = al_name ` set (filter isRoutableToSlack alerts)"

definition post_alerts :: "router_options \<Rightarrow> int \<Rightarrow> alert list \<Rightarrow> last_posted \<Rightarrow> alert list \<times> last_posted" where
  "post_alerts R now alerts m = post_due R now alerts (m |` firing alerts)"

section \<open>What the metrics show\<close>

lemma joined_confirmed:
  "filter (\<lambda>r. cl_status (fst r) = Confirmed) (joined_claims d) = confirmed_rows None d"
proof -
  have "filter (\<lambda>r. cl_status (fst r) = Confirmed) (concat (map (\<lambda>c. map (Pair c) (as c)) cs))
      = concat (map (\<lambda>c. map (Pair c) (as c)) (filter (\<lambda>c. cl_status c = Confirmed) cs))"
    for as :: "claim_row \<Rightarrow> asset_row list" and cs
    by (induction cs) (simp_all add: filter_map comp_def)
  then show ?thesis by (simp add: joined_claims_def confirmed_rows_def confirmed_claims_def report_scope_def)
qed

lemma not_ant: "as_asset_type a \<in> {AssetToken, AssetVault} \<longleftrightarrow> as_asset_type a \<noteq> AssetAnt"
  by (cases "as_asset_type a") simp_all

text \<open>With the books in order the metrics show the totals of the reconciliation, and no drift.\<close>

theorem metrics_agree:
  assumes "books_ok d"
  shows "dm_dispatchedTotalMario (collectDbMetrics now started anchored ts d) = claimed_value None d"
    and "dm_claimedTotalMario (collectDbMetrics now started anchored ts d) = claimed_value None d"
    and "dm_driftMario (collectDbMetrics now started anchored ts d) = 0"
proof -
  let ?rows = "confirmed_rows None d"
  have paid: "filter paid_out (joined_claims d) = filter (\<lambda>r. as_asset_type (snd r) \<noteq> AssetAnt) ?rows"
    unfolding joined_confirmed [symmetric] filter_filter paid_out_def not_ant by (rule refl)
  have settled: "settled_right (fst r) (snd r)" if "r \<in> set ?rows" for r
    using books_accounted [OF assms, of None] that by (simp add: accounted_for_def)
  have same: "filter (\<lambda>r. as_asset_type (snd r) \<noteq> AssetAnt) ?rows = filter funds_row ?rows"
  proof (rule filter_cong [OF refl])
    fix r assume "r \<in> set ?rows"
    from settled [OF this] show "as_asset_type (snd r) \<noteq> AssetAnt \<longleftrightarrow> funds_row r"
      by (cases "as_asset_type (snd r) = AssetAnt") (simp_all add: funds_row_def settled_right_def)
  qed
  have amount: "amount_or_zero (cl_settlement_amount (fst r)) = the (cl_settlement_amount (fst r))"
    if "r \<in> set (filter funds_row ?rows)" for r
    using that by (auto simp: funds_row_def amount_or_zero_def)
  have d: "dm_dispatchedTotalMario (collectDbMetrics now started anchored ts d)
      = dp_dispatchedTotalMario (reconcileDispatch None d)"
    unfolding collectDbMetrics_def Let_def db_metrics.simps paid same reconcile_totals
    by (rule arg_cong [of _ _ sum_list], rule map_cong [OF refl amount])
  have c: "dm_claimedTotalMario (collectDbMetrics now started anchored ts d)
      = dp_claimedTotalMario (reconcileDispatch None d)"
    unfolding collectDbMetrics_def Let_def db_metrics.simps paid same reconcile_totals by (rule refl)
  show "dm_dispatchedTotalMario (collectDbMetrics now started anchored ts d) = claimed_value None d"
    "dm_claimedTotalMario (collectDbMetrics now started anchored ts d) = claimed_value None d"
    using d c books_totals [OF assms, of None] by simp_all
  then show "dm_driftMario (collectDbMetrics now started anchored ts d) = 0"
    by (simp add: collectDbMetrics_def Let_def)
qed

text \<open>
  The backlog of unsigned rows is never counted: a row appended without a signer carries a placeholder
  of 64 zero bytes, and the query counts empty signatures. So \<open>audit-unsigned-backlog\<close> does not fire.
\<close>

lemma unsigned_backlog_unseen:
  "ar_signature (last (appendAudit sha None t e rows)) = UNSIGNED_PLACEHOLDER
   \<and> unsigned_rows (appendAudit sha None t e rows) = unsigned_rows rows"
  by (simp add: appendAudit_def Let_def unsigned_rows_def UNSIGNED_PLACEHOLDER_def)

lemma unsigned_rows_never:
  "\<forall>r \<in> set (db_audit d). length (ar_signature r) = 64 \<Longrightarrow>
     audit_alerts (collectMetrics now started anchored ts d extras) = []"
  by (auto simp: audit_alerts_def raise_if_def collectMetrics_def collectDbMetrics_def Let_def unsigned_rows_def
      filter_empty_conv)

text \<open>The liability of the metrics counts assets in manual review, which that of the reserves leaves out.\<close>

lemma amount_sum_split:
  "(\<And>a. P a \<longleftrightarrow> Q a \<or> R a) \<Longrightarrow> (\<And>a. \<not> (Q a \<and> R a)) \<Longrightarrow> amount_sum P rows = amount_sum Q rows + amount_sum R rows"
  by (induction rows) (auto simp: amount_sum_def)

lemma metrics_liability:
  "dm_outstandingMario (collectDbMetrics now started anchored ts d) =
     ll_outstandingMario (readLiabilities None d) + amount_sum (\<lambda>a. as_status a = ManualReview) (db_assets d)"
proof -
  have "amount_sum (\<lambda>a. as_status a \<notin> {A_claimed, Cancelled}) (db_assets d)
      = amount_sum outstanding (db_assets d) + amount_sum (\<lambda>a. as_status a = ManualReview) (db_assets d)"
    by (rule amount_sum_split) (auto simp: outstanding_def)
  then show ?thesis
    by (simp add: collectDbMetrics_def Let_def readLiabilities_def in_scope_def)
qed

section \<open>The router\<close>

definition due :: "router_options \<Rightarrow> int \<Rightarrow> last_posted \<Rightarrow> string \<Rightarrow> bool" where
  "due R now m n \<longleftrightarrow> (case m n of None \<Rightarrow> True | Some t \<Rightarrow> intervalFor R n \<le> now - t)"

lemma post_due_Cons:
  "post_due R now (a # as) m =
     (if isRoutableToSlack a \<and> due R now m (al_name a)
      then (a # fst (post_due R now as (m(al_name a \<mapsto> now))), snd (post_due R now as (m(al_name a \<mapsto> now))))
      else post_due R now as m)"
  by (simp add: due_def case_prod_unfold not_less split: option.split)

lemma due_other [simp]: "n \<noteq> k \<Longrightarrow> due R now (m(k \<mapsto> t)) n = due R now m n"
  by (simp add: due_def)

lemma firing_Cons [simp]:
  "firing (a # as) = (if isRoutableToSlack a then insert (al_name a) (firing as) else firing as)"
  by (simp add: firing_def)

lemma post_due_names:
  "al_name ` set (fst (post_due R now as m)) = {n \<in> firing as. due R now m n}"
proof (induction as arbitrary: m)
  case (Cons a as)
  show ?case
  proof (cases "isRoutableToSlack a \<and> due R now m (al_name a)")
    case True
    have "al_name ` set (fst (post_due R now (a # as) m))
        = insert (al_name a) {n \<in> firing as. due R now (m(al_name a \<mapsto> now)) n}"
      unfolding post_due_Cons if_P [OF True] fst_conv list.set image_insert Cons.IH by (rule refl)
    also have "\<dots> = {n \<in> firing (a # as). due R now m n}"
    proof (rule set_eqI)
      fix n show "n \<in> insert (al_name a) {n \<in> firing as. due R now (m(al_name a \<mapsto> now)) n}
          \<longleftrightarrow> n \<in> {n \<in> firing (a # as). due R now m n}"
        using True by (cases "n = al_name a") simp_all
    qed
    finally show ?thesis .
  next
    case False
    then show ?thesis unfolding post_due_Cons if_not_P [OF False] Cons.IH by auto
  qed
qed (simp add: firing_def)

lemma post_due_last:
  "snd (post_due R now as m) n = (if n \<in> al_name ` set (fst (post_due R now as m)) then Some now else m n)"
proof (induction as arbitrary: m)
  case (Cons a as)
  show ?case
  proof (cases "isRoutableToSlack a \<and> due R now m (al_name a)")
    case True
    show ?thesis unfolding post_due_Cons if_P [OF True] fst_conv snd_conv list.set image_insert Cons.IH
      by (cases "n = al_name a") simp_all
  next
    case False
    show ?thesis unfolding post_due_Cons if_not_P [OF False] Cons.IH by (rule refl)
  qed
qed simp

text \<open>A run of the router: the calls so far, each with its time and its alerts.\<close>

definition router_after :: "router_options \<Rightarrow> (int \<times> alert list) list \<Rightarrow> last_posted" where
  "router_after R calls = fold (\<lambda>c m. snd (post_alerts R (fst c) (snd c) m)) calls (\<lambda>n. None)"

definition posted_at :: "router_options \<Rightarrow> (int \<times> alert list) list \<Rightarrow> nat \<Rightarrow> string set" where
  "posted_at R calls i =
     al_name ` set (fst (post_alerts R (fst (calls ! i)) (snd (calls ! i)) (router_after R (take i calls))))"

definition firing_at :: "(int \<times> alert list) list \<Rightarrow> nat \<Rightarrow> string set" where
  "firing_at calls i = firing (snd (calls ! i))"

lemma router_step:
  assumes "i < length calls"
  shows "n \<in> posted_at R calls i \<longleftrightarrow>
      n \<in> firing_at calls i \<and> due R (fst (calls ! i)) (router_after R (take i calls)) n"
    and "router_after R (take (Suc i) calls) n =
      (if n \<in> posted_at R calls i then Some (fst (calls ! i))
       else if n \<in> firing_at calls i then router_after R (take i calls) n else None)"
proof -
  let ?m = "router_after R (take i calls)" and ?t = "fst (calls ! i)" and ?as = "snd (calls ! i)"
  have r: "due R ?t (?m |` firing ?as) n = due R ?t ?m n" if "n \<in> firing ?as" using that by (simp add: due_def)
  show p: "n \<in> posted_at R calls i \<longleftrightarrow> n \<in> firing_at calls i \<and> due R ?t ?m n"
    unfolding posted_at_def post_alerts_def post_due_names firing_at_def using r by blast
  have "router_after R (take (Suc i) calls) = snd (post_alerts R ?t ?as ?m)"
    using assms by (simp add: router_after_def take_Suc_conv_app_nth)
  then show "router_after R (take (Suc i) calls) n =
      (if n \<in> posted_at R calls i then Some ?t else if n \<in> firing_at calls i then ?m n else None)"
    by (simp add: post_alerts_def post_due_last posted_at_def firing_at_def restrict_map_def)
qed

text \<open>What the router remembers of a name is its last post, since which it has been firing.\<close>

lemma router_remembers:
  assumes "i \<le> length calls" and "router_after R (take i calls) n = Some t"
  shows "\<exists>j<i. n \<in> posted_at R calls j \<and> fst (calls ! j) = t \<and> (\<forall>k. j < k \<and> k < i \<longrightarrow> n \<notin> posted_at R calls k)
    \<and> (\<forall>k. j \<le> k \<and> k < i \<longrightarrow> n \<in> firing_at calls k)"
  using assms
proof (induction i)
  case (Suc i)
  then have i: "i < length calls" by simp
  note step = router_step [OF i]
  show ?case
  proof (cases "n \<in> posted_at R calls i")
    case True
    then have "fst (calls ! i) = t" "n \<in> firing_at calls i" using Suc.prems(2) step by auto
    with True have "n \<in> posted_at R calls i \<and> fst (calls ! i) = t
        \<and> (\<forall>k. i < k \<and> k < Suc i \<longrightarrow> n \<notin> posted_at R calls k)
        \<and> (\<forall>k. i \<le> k \<and> k < Suc i \<longrightarrow> n \<in> firing_at calls k)" by (auto simp: le_less_Suc_eq)
    then show ?thesis by blast
  next
    case False
    then have f: "n \<in> firing_at calls i" "router_after R (take i calls) n = Some t"
      using Suc.prems(2) step(2) [where n = n and R = R] by (auto split: if_splits)
    then obtain j where j: "j < i" "n \<in> posted_at R calls j" "fst (calls ! j) = t"
      "\<forall>k. j < k \<and> k < i \<longrightarrow> n \<notin> posted_at R calls k" "\<forall>k. j \<le> k \<and> k < i \<longrightarrow> n \<in> firing_at calls k"
      using Suc.IH i by auto
    have "\<forall>k. j < k \<and> k < Suc i \<longrightarrow> n \<notin> posted_at R calls k" "\<forall>k. j \<le> k \<and> k < Suc i \<longrightarrow> n \<in> firing_at calls k"
      using j(4,5) False f(1) by (auto simp: less_Suc_eq)
    with j(1-3) show ?thesis using less_SucI by blast
  qed
qed (simp add: router_after_def)

lemma router_holds:
  assumes "sorted (map fst calls)" and "i < length calls" and "j \<le> length calls" and "i < j"
    and "n \<in> posted_at R calls i" and "\<forall>k. i \<le> k \<and> k < j \<longrightarrow> n \<in> firing_at calls k"
  shows "\<exists>t. router_after R (take j calls) n = Some t \<and> fst (calls ! i) \<le> t"
  using assms(3,4,6)
proof (induction j)
  case (Suc j)
  then have j: "j < length calls" "i \<le> j" by simp_all
  have mono: "fst (calls ! i) \<le> fst (calls ! j)"
    using sorted_nth_mono [OF assms(1) j(2)] j assms(2) by simp
  have f: "n \<in> firing_at calls j" using Suc.prems(3) j(2) by simp
  show ?case
  proof (cases "n \<in> posted_at R calls j")
    case True
    then show ?thesis using router_step(2) [OF j(1), where R = R and n = n] mono by simp
  next
    case False
    then have "i < j" using j(2) assms(5) by (cases "i = j") auto
    then obtain t where "router_after R (take j calls) n = Some t" "fst (calls ! i) \<le> t"
      using Suc.IH Suc.prems by auto
    with False f show ?thesis using router_step(2) [OF j(1), where R = R and n = n] by simp
  qed
qed simp

text \<open>
  No firing alert is silent for longer than its interval, and none is repeated within it: at every call
  an alert that fires is posted, or was posted at an earlier call less than its interval ago and
  has fired ever since; and between two posts of a name lies its interval, or a call at which it did not fire.
\<close>

theorem slack_posts_when_due:
  assumes "sorted (map fst calls)" and "i < length calls"
  shows "posted_at R calls i \<subseteq> firing_at calls i"
    and "n \<in> firing_at calls i \<Longrightarrow> n \<in> posted_at R calls i
      \<or> (\<exists>j<i. n \<in> posted_at R calls j \<and> fst (calls ! i) - fst (calls ! j) < intervalFor R n
          \<and> (\<forall>k. j \<le> k \<and> k \<le> i \<longrightarrow> n \<in> firing_at calls k))"
    and "j < i \<Longrightarrow> n \<in> posted_at R calls j \<Longrightarrow> n \<in> posted_at R calls i \<Longrightarrow>
      intervalFor R n \<le> fst (calls ! i) - fst (calls ! j) \<or> (\<exists>k. j < k \<and> k < i \<and> n \<notin> firing_at calls k)"
proof -
  note step = router_step(1) [OF assms(2), where R = R]
  show "posted_at R calls i \<subseteq> firing_at calls i" using step by blast
  show "n \<in> posted_at R calls i
      \<or> (\<exists>j<i. n \<in> posted_at R calls j \<and> fst (calls ! i) - fst (calls ! j) < intervalFor R n
          \<and> (\<forall>k. j \<le> k \<and> k \<le> i \<longrightarrow> n \<in> firing_at calls k))"
    if f: "n \<in> firing_at calls i"
  proof (cases "n \<in> posted_at R calls i")
    case False
    then obtain t where t: "router_after R (take i calls) n = Some t" "fst (calls ! i) - t < intervalFor R n"
      using step [where n = n] f by (auto simp: due_def split: option.splits)
    obtain j where j: "j < i" "n \<in> posted_at R calls j" "fst (calls ! j) = t"
      "\<forall>k. j \<le> k \<and> k < i \<longrightarrow> n \<in> firing_at calls k"
      using router_remembers [OF less_imp_le [OF assms(2)] t(1)] by blast
    have "\<forall>k. j \<le> k \<and> k \<le> i \<longrightarrow> n \<in> firing_at calls k" using j(4) f by (auto simp: le_less)
    with j(1-3) t(2) show ?thesis by blast
  qed simp
  show "intervalFor R n \<le> fst (calls ! i) - fst (calls ! j) \<or> (\<exists>k. j < k \<and> k < i \<and> n \<notin> firing_at calls k)"
    if j: "j < i" "n \<in> posted_at R calls j" "n \<in> posted_at R calls i"
  proof (cases "\<forall>k. j < k \<and> k < i \<longrightarrow> n \<in> firing_at calls k")
    case True
    have jl: "j < length calls" using j(1) assms(2) by simp
    have "n \<in> firing_at calls j" using router_step(1) [OF jl, where R = R and n = n] j(2) by simp
    then have "\<forall>k. j \<le> k \<and> k < i \<longrightarrow> n \<in> firing_at calls k" using True by (auto simp: le_less)
    from router_holds [OF assms(1) jl less_imp_le [OF assms(2)] j(1,2) this] obtain t where
      "router_after R (take i calls) n = Some t" "fst (calls ! j) \<le> t" by blast
    with step [where n = n] j(3) show ?thesis by (auto simp: due_def)
  qed auto
qed

lemma raised [simp]: "al_name ` set (raise_if b name sev msg v thr) = (if b then {name} else {})"
  by (simp add: raise_if_def)

lemma other_alerts:
  "''reconciliation-mismatch'' \<notin> al_name ` set (claim_alerts t s)"
  "''reconciliation-mismatch'' \<notin> al_name ` set (float_alerts s)"
  "''reconciliation-mismatch'' \<notin> al_name ` set (queue_alerts t s)"
  "''reconciliation-mismatch'' \<notin> al_name ` set (anchor_alerts t s)"
  "''reconciliation-mismatch'' \<notin> al_name ` set (audit_alerts s)"
proof -
  show "''reconciliation-mismatch'' \<notin> al_name ` set (float_alerts s)"
    unfolding float_alerts_def set_append image_Un Un_iff
    by (cases "ms_dispenserSol s"; cases "ms_float s") (simp_all add: image_Un)
  show "''reconciliation-mismatch'' \<notin> al_name ` set (anchor_alerts t s)"
    unfolding anchor_alerts_def Let_def
    by (cases "dm_lastAnchorAgeSec (ms_db s)"; cases "dm_headSeq (ms_db s)") simp_all
qed (simp_all add: claim_alerts_def queue_alerts_def audit_alerts_def Let_def image_Un)

lemma mismatch_iff:
  "''reconciliation-mismatch'' \<in> al_name ` set (evaluateAlerts s t) \<longleftrightarrow> dm_driftMario (ms_db s) \<noteq> 0"
proof -
  have "''reconciliation-mismatch'' \<in> al_name ` set (money_alerts s) \<longleftrightarrow> dm_driftMario (ms_db s) \<noteq> 0"
    unfolding money_alerts_def Let_def set_append image_Un Un_iff by (cases "ms_reserves s") simp_all
  then show ?thesis unfolding evaluateAlerts_def set_append image_Un Un_iff using other_alerts by simp
qed

text \<open>Along every history of the worker \<open>reconciliation-mismatch\<close> never fires.\<close>

theorem drift_never_alerts:
  assumes "lone_worker D" and "db_inv d" and "no_dispatch_yet d"
    and "\<forall>a \<in> set (db_assets d). as_status a \<noteq> A_claimed"
    and "(worker_step D V)\<^sup>*\<^sup>* (d, w) (d', w')"
  shows "''reconciliation-mismatch'' \<notin> al_name ` set (evaluateAlerts (collectMetrics now started anchored ts d' extras) t)"
proof -
  have "books_ok (fst (d, w))" using books_initial [OF assms(2-4)] by simp
  then have "books_ok d'" using lone_worker.worker_runs_books [OF assms(1,5)] by simp
  from metrics_agree(3) [OF this, of now started anchored ts] show ?thesis
    unfolding mismatch_iff by (simp add: collectMetrics_def)
qed

end
