(* ===== verification/Spec2Isabelle.thy ===== *)
theory Spec2Isabelle
  imports Attestor Worker_Runs Ledger_Build Operator_Sends Transparency_Cli Ant_Heal Acl_Sweep Public_Routes
    Service_Config Reconcile Ops_Alerts
begin

text \<open>
  A model of the ar.io Solana attestor and claims service (\<open>packages/canonical\<close>,
  \<open>packages/attestor\<close>, \<open>packages/claims\<close>), with the theorems that make it correct.

  The program. A frozen snapshot of another network is turned into a ledger of assets (tokens,
  time-locked vaults, name tokens called ANTs), each owned by a recipient known by an Arweave RSA key
  or an Ethereum address (\<open>ledger/\<close>). A claimant asks the claims service for a challenge, signs it
  with the old key, and completes the claim; the first valid completion wins the asset
  (\<open>api/service.ts\<close>, \<open>verify/\<close>). A dispatch worker pays what was won on Solana (\<open>dispatch/worker.ts\<close>,
  \<open>dispatch-core.ts\<close>, \<open>chain.ts\<close>); ANTs may instead be handed over in batches that an operator
  signs with a wallet (\<open>dispatch/ant-operator.ts\<close>). Every transition appends to a hash-chained, signed
  audit log (\<open>api/audit.ts\<close>, \<open>transparency/\<close>). The attestor is a separate service that checks an RSA
  signature over a claim message and signs the message with its own key.

  The parts interact through one database (the record \<open>db\<close> of \<open>Claims_Db\<close>) and, for dispatch, one
  outside world behind a gateway. A transaction of the code is a function on \<open>db\<close>; a process is a
  computation in \<open>('s, 'a) io\<close>, a state passed along and a left result for a throw or a crash.

  Theories, in the order of their imports, with the code they model.
    \<^item> \<open>Attestor_Prelude\<close>: results, rows looked up and updated by key, lists; no code of its own.
    \<^item> \<open>Codecs\<close>: what the code uses of JavaScript: hex, base64url, UTF-8, decimal, \<open>BigInt\<close>, JSON.
    \<^item> \<open>Canonical\<close>: \<open>canonical.ts\<close>, \<open>verify-rsa-pss.ts\<close>, \<open>attest.ts\<close>; the claim messages bind their
      fields and have disjoint formats.
    \<^item> \<open>Attestor\<close>: \<open>attestor/app.ts\<close>, \<open>config.ts\<close>; only verified messages are signed, the slot counter
      and the anomaly map are bounded.
    \<^item> \<open>Merkle\<close>: \<open>transparency/merkle.ts\<close>; proofs are accepted and sound.
    \<^item> \<open>Verify\<close>: \<open>verify/\<close>; a proof is accepted only when the ledger's owner signed the message rebuilt
      from the ledger.
    \<^item> \<open>Ledger_Rules\<close>: \<open>vault-settlement.ts\<close> and the pure rules of \<open>ledger/\<close>.
    \<^item> \<open>Ledger_Plan\<close>, \<open>Ledger_Build\<close>: \<open>inputs.ts\<close>, \<open>plan.ts\<close>, \<open>build.ts\<close>; the plan conserves money and is
      well formed, a rebuild never resets a claimed asset.
    \<^item> \<open>Reconcile\<close>: \<open>reconcile/\<close>, \<open>cli/reconcile-ledger.ts\<close>; the planner and the second derivation agree, and a
      database that passes the gate holds exactly the second derivation's deposits.
    \<^item> \<open>Audit_Chain\<close>: \<open>audit.ts\<close>, \<open>audit-chain.ts\<close>; appending keeps the chain, tampering shows.
    \<^item> \<open>Retired_Ants\<close>: the two static tables.
    \<^item> \<open>Claims_Db\<close>, \<open>Claims_Service\<close>, \<open>Claims_Steps\<close>: the tables, \<open>service.ts\<close>, \<open>reaper.ts\<close>, and the
      service as a step relation with the invariant \<open>db_inv\<close>: one live claim per asset, and a won
      claim's asset is held for it.
    \<^item> \<open>Ant_Reservations\<close>: the transactions of the ANT operator that touch no chain; they change only
      reservations.
    \<^item> \<open>Chain_Gateway\<close>: \<open>chain.ts\<close>; the locale \<open>sound_rpc\<close> states what dispatch relies on of a node, and
      the gateway built on it meets \<open>sound_gateway\<close>.
    \<^item> \<open>Dispatch_Core\<close>: \<open>dispatch-core.ts\<close>; the locale \<open>transactions\<close>, interpreted on the service alone
      and on the whole system, gives that an asset is won once and \<open>confirmed\<close> is final.
    \<^item> \<open>Instructions\<close>: \<open>instructions.ts\<close>, \<open>vault-relock.ts\<close>, and what the bytes of an instruction do.
    \<^item> \<open>Dispatch_Worker\<close>: \<open>float.ts\<close>, \<open>worker.ts\<close>.
    \<^item> \<open>Dispatch_Reports\<close>: \<open>reconcile-dispatch.ts\<close>, \<open>vault-manual-queue.ts\<close>, \<open>ario-config.ts\<close>,
      \<open>mpl-core-name.ts\<close>; the report is clean exactly when every confirmed claim accounts for one
      claimed asset, a vault is never locked past its end, and the decoders read the layouts back.
    \<^item> \<open>Exactly_Once\<close>, \<open>Worker_Runs\<close>: no code; triples over \<open>io\<close>, the invariant of the recorded
      signatures, and the exactly-once theorems over histories of the worker with the service, approvals
      and operator reservations beside it. The simulated ledger \<open>sim\<close> shows that the laws of the gateway can hold.
    \<^item> \<open>Dispatch_Books\<close>: no code; along every history of the worker the report of \<open>Dispatch_Reports\<close> is clean.
      The locale \<open>lone_worker\<close> asks nothing of the chain.
    \<^item> \<open>Ops_Alerts\<close>: \<open>ops/metrics.ts\<close>, \<open>ops/alerts.ts\<close>, \<open>ops/alert-slack.ts\<close>; the metrics show the totals of the
      reconciliation, its mismatch never alerts, and the router posts an alert when it is due and not before.
    \<^item> \<open>Ant_Operator\<close>, \<open>Operator_Sends\<close>: the operator's batches with their chain calls; everything the
      operator broadcasts is a hand-over of an ANT to the wallet its claimant recorded.
    \<^item> \<open>Key_Handling\<close>: \<open>crypto-box.ts\<close>, \<open>signer.ts\<close>, \<open>transparency/keys.ts\<close>, \<open>dispatch-config.ts\<close>; a sealed
      key opens under its passphrase only, the keys of the roles are distinct.
    \<^item> \<open>Canonical_Json\<close>: no code; equal canonical texts are equal values up to the order of keys.
    \<^item> \<open>Ledger_Artifact\<close>: \<open>ledger-artifact.ts\<close>; an accepted artefact is the one the publisher signed, a
      membership proof shows a leaf of it.
    \<^item> \<open>Transparency\<close>: \<open>anchor.ts\<close>, \<open>store.ts\<close>, \<open>reserves.ts\<close>, \<open>transparency/config.ts\<close>, \<open>api/transparency.ts\<close>;
      the liability is conserved by everything the system does.
    \<^item> \<open>Transparency_Cli\<close>: \<open>publish-ledger.ts\<close>, \<open>anchor-audit-log.ts\<close>, \<open>verify-transparency.ts\<close>; no run passes
      without a pin, and anchored history cannot be rewritten.
    \<^item> \<open>Ant_Acl\<close>, \<open>Ant_Heal\<close>: \<open>ant-acl-instructions.ts\<close>, \<open>ant-acl-reconcile.ts\<close>, \<open>ant-acl-execute.ts\<close>; on a
      chain where the program does what its documentation says, the planned repair heals. \<open>Ant_Heal\<close>
      has the account layouts and a chain that meets the hypotheses.
    \<^item> \<open>Acl_Sweep\<close>: \<open>ant-acl-healer.ts\<close>; whatever the repairs do, the sweep drains its queue.
    \<^item> \<open>Rate_Limit\<close>: \<open>rate-limit.ts\<close>; a key gets at most twice its limit in any window, never less than it.
    \<^item> \<open>Ant_Admin\<close>: \<open>ant-admin.ts\<close> and the admin routes of \<open>routes.ts\<close>; every effect of the operator's
      surface was signed for by the ANT authority, each challenge serving once.
    \<^item> \<open>Public_Routes\<close>: the public routes of \<open>routes.ts\<close>; a history of requests does to the database what
      the service operations alone do, and no more of them than the limits allow.
    \<^item> \<open>Service_Config\<close>: \<open>config.ts\<close>, \<open>config-validation.ts\<close>; what a process that started can rely on.

  Lemma groups. Each theory proves its own operations' lemmas under the same names as the operations;
  facts on the system are proved once in a locale (\<open>transactions\<close>, \<open>safe_worker\<close>, \<open>safe_operator\<close>, \<open>upsert_table\<close>,
  \<open>kit_codecs\<close>) and used through its interpretations on the definitions of the code. Witnesses apply
  each theorem with hypotheses at a concrete input.

  Bounds and fuel. All recursions terminate. The polling loop of \<open>confirmSignature\<close> counts the polls
  that fit before its deadline, any number; \<open>reap_all\<close> runs as long as a batch is full, and
  \<open>reap_all_drains\<close> gives the number of rounds that is enough. JavaScript numbers are integers where
  the code only uses safe ones, \<open>BigInt\<close> is \<open>int\<close>, and a \<open>u64\<close> or \<open>i64\<close> on the wire is its bytes with
  the range checks of the code. Bytes are 8-bit words.

  Parameters. Code that is not in the repository is an argument: SHA-256, keccak, RSA, Ed25519, ECDSA
  recovery, base 58, the address and \<open>u64\<close> codecs and transaction handling of \<open>@solana/kit\<close>, the RPC
  node, randomness and the clock. What is relied on of them is a locale or a named hypothesis.
  Transactions are atomic; \<open>FOR UPDATE\<close> is their serial order, \<open>SKIP LOCKED\<close> a set of rows to skip.

  Not modelled. The wiring of processes, timers, connection pools and command lines; log sinks,
  the Prometheus text and the posts to Slack; the HTTP framework, with headers and CORS of the claims service; the scripts for
  rehearsals; the modules the second derivation imports from another repository; and the cryptography
  above. PROJECT.json lists every part.
\<close>

section \<open>From the ledger to the worker\<close>


section \<open>Witnesses\<close>

definition demo_eth :: string where "demo_eth = ''0xabababababababababababababababababababab''"

definition demo_eth_inputs :: frozen_inputs where
  "demo_eth_inputs = \<lparr>fi_addressMap = [], fi_modulus = [], fi_atRisk = [], fi_balances = [(demo_eth, 5)],
     fi_vaults = [], fi_ants = [],
     fi_plan = \<lparr>pa_operatorEscrowVaults = [], pa_operatorLiquidEscrows = [], pa_delegatorEscrowVaults = [],
       pa_delegatorLiquidEscrows = [], pa_escrowVaults = [], pa_liquidEscrows = []\<rparr>,
     fi_fingerprints = []\<rparr>"

definition demo_empty_db :: db where
  "demo_empty_db = \<lparr>db_recipients = [], db_assets = [], db_claims = [], db_audit = [], db_ant_batches = []\<rparr>"

lemma demo_eth_facts:
  "isEthereumAddress demo_eth" "normalizeSourceAddress demo_eth = demo_eth"
  "ethAddressBytes demo_eth = replicate 20 171"
  "asset_toHex (deriveTokenAssetId (pp_sha demo_plan_prims) demo_eth) = ''370203''"
  "deriveRecipientIdB64Url (pp_sha demo_plan_prims) (replicate 20 171) = ''FAID''"
  by code_simp+

lemma demo_eth_load:
  "\<exists>L. buildLedgerPlan demo_plan_prims demo_eth_inputs (Some 0) = Inr L
     \<and> \<not> isl (fst (writeLedger False (\<lambda>i. replicate 32 0) L demo_empty_db)) \<and> lp_phase2TokenOutflowMario L = 5"
  by (simp add: demo_eth_inputs_def buildLedgerPlan_def planState_def planRecipients_def upsertRecipient_def
    demo_eth_facts recipients_has_def recipients_set_def plan_start_def planBalance_def mapped_def
    normalized_get_def normalizeAddressMapKeys_def truthy_def classifyOwner_def resolveRecipientPubkey_def
    pushAsset_def credit_def bigint_of_number_def assertUniqueAssetSeeds_def collectStakeWithdrawalEscrow_def
    Let_def del: asset_toHex_encode) code_simp


end
